(* ===== verification/Prelude.thy ===== *)
theory Prelude
  imports
    Main
    "HOL-Library.Word"
    "HOL-Library.Char_ord"
    "HOL-Library.List_Lexorder"
    "HOL-Library.Code_Target_Nat"
begin

text \<open>
  Shared vocabulary of the development: error-returning calls, the byte strings of Go and the
  functions of \<^verbatim>\<open>strings\<close>, \<^verbatim>\<open>strconv\<close> and \<^verbatim>\<open>encoding/hex\<close> the program uses, 64-bit wrap-around,
  numbers in positional notation, and values of a Go map listed in key order.

  A Go \<^verbatim>\<open>string\<close> is a sequence of bytes, and so is a HOL string (a char is a byte).  A function of
  type \<^verbatim>\<open>error\<close> is an option (\<open>None\<close> is \<^verbatim>\<open>nil\<close>), a function of type \<^verbatim>\<open>(T, error)\<close> a sum whose left
  summand is the error.
\<close>

named_theorems go_simps \<open>rewrite rules for guards, results and Go library functions\<close>

section \<open>Errors\<close>

text \<open>\<open>guard c e k\<close> is the early return \<^verbatim>\<open>if c { return e }\<close> followed by the rest \<open>k\<close>.\<close>

definition guard :: "bool \<Rightarrow> 'e \<Rightarrow> 'e option \<Rightarrow> 'e option" where
  "guard c e k = (if c then Some e else k)"

lemma guard_eq_None [simp, go_simps]: "guard c e k = None \<longleftrightarrow> \<not> c \<and> k = None"
  by (simp add: guard_def)

lemma guard_False [simp]: "guard False e k = k"
  by (simp add: guard_def)

lemma guard_True [simp]: "guard True e k = Some e"
  by (simp add: guard_def)

text \<open>\<open>try_err m k\<close> is \<^verbatim>\<open>if err := m; err != nil { return err }\<close> followed by \<open>k\<close>.\<close>

definition try_err :: "'e option \<Rightarrow> 'e option \<Rightarrow> 'e option" where
  "try_err m k = (case m of Some e \<Rightarrow> Some e | None \<Rightarrow> k)"

lemma try_err_eq_None [simp, go_simps]: "try_err m k = None \<longleftrightarrow> m = None \<and> k = None"
  by (simp add: try_err_def split: option.splits)

lemma try_err_simps [simp]:
  "try_err None k = k"
  "try_err (Some e) k = Some e"
  by (simp_all add: try_err_def)

text \<open>The sum as a result: bind, the error part, and lifting an error-only call.\<close>

definition rbind :: "'e + 'a \<Rightarrow> ('a \<Rightarrow> 'e + 'b) \<Rightarrow> 'e + 'b" where
  "rbind m f = (case m of Inl e \<Rightarrow> Inl e | Inr x \<Rightarrow> f x)"

lemma rbind_simps [simp, go_simps]:
  "rbind (Inl e) f = Inl e"
  "rbind (Inr x) f = f x"
  by (simp_all add: rbind_def)

lemma rbind_eq_Inr [simp, go_simps]:
  "rbind m f = Inr y \<longleftrightarrow> (\<exists>x. m = Inr x \<and> f x = Inr y)"
  by (cases m) simp_all

definition err_of :: "'e + 'a \<Rightarrow> 'e option" where
  "err_of m = (case m of Inl e \<Rightarrow> Some e | Inr _ \<Rightarrow> None)"

lemma err_of_simps [simp, go_simps]:
  "err_of (Inl e) = Some e"
  "err_of (Inr x) = None"
  by (simp_all add: err_of_def)

lemma err_of_eq_None [simp, go_simps]: "err_of m = None \<longleftrightarrow> (\<exists>x. m = Inr x)"
  by (cases m) simp_all

text \<open>The first error a check reports over a list, in order: a loop whose body may return.\<close>

fun first_err :: "('a \<Rightarrow> 'e option) \<Rightarrow> 'a list \<Rightarrow> 'e option" where
  "first_err f [] = None"
| "first_err f (x # xs) = try_err (f x) (first_err f xs)"

lemma first_err_eq_None [simp, go_simps]: "first_err f xs = None \<longleftrightarrow> (\<forall>x\<in>set xs. f x = None)"
  by (induction xs) auto

text \<open>
  A loop that turns each item into a value, skips it, or returns with an error.
\<close>

fun collect :: "('a \<Rightarrow> 'e + 'b option) \<Rightarrow> 'a list \<Rightarrow> 'e + 'b list" where
  "collect f [] = Inr []"
| "collect f (x # xs) =
     rbind (f x) (\<lambda>v. rbind (collect f xs) (\<lambda>vs. Inr (case v of None \<Rightarrow> vs | Some y \<Rightarrow> y # vs)))"

lemma collect_set: "collect f xs = Inr ys \<Longrightarrow> set ys = {y. \<exists>x\<in>set xs. f x = Inr (Some y)}"
  by (induction xs arbitrary: ys) (auto split: option.splits)

lemma collect_no_error: "collect f xs = Inr ys \<Longrightarrow> x \<in> set xs \<Longrightarrow> \<exists>v. f x = Inr v"
  by (induction xs arbitrary: ys) auto

lemma collect_map: "(\<And>x. x \<in> set xs \<Longrightarrow> f x = Inr (Some (g x))) \<Longrightarrow> collect f xs = Inr (map g xs)"
  by (induction xs) auto

section \<open>64-bit integers\<close>

text \<open>
  A Go \<^verbatim>\<open>int\<close> is a 64-bit two's complement number on the supported platforms.  The model keeps
  such a value as an integer and writes \<open>wrap64\<close> where an operation can leave the range.
\<close>

definition wrap64 :: "int \<Rightarrow> int" where
  "wrap64 x = (x + 2 ^ 63) mod 2 ^ 64 - 2 ^ 63"

definition in_int64 :: "int \<Rightarrow> bool" where
  "in_int64 x \<longleftrightarrow> - (2 ^ 63) \<le> x \<and> x < 2 ^ 63"

lemma in_int64_wrap64: "in_int64 (wrap64 x)"
  by (simp add: in_int64_def wrap64_def)

lemma wrap64_id: "in_int64 x \<Longrightarrow> wrap64 x = x"
  by (simp add: in_int64_def wrap64_def)

section \<open>Go maps collected in key order\<close>

text \<open>
  \<open>map_values_sorted kvs\<close> is the idiom of storing the pairs into a map one after the other (a
  later pair replaces an earlier one with its key), collecting the keys, sorting them, and
  listing the values in that order.
\<close>

definition map_values_sorted :: "('k::linorder \<times> 'v) list \<Rightarrow> 'v list" where
  "map_values_sorted kvs = map (\<lambda>k. the (map_of (rev kvs) k)) (sort (remdups (map fst kvs)))"

lemma map_values_sorted_subset: "set (map_values_sorted kvs) \<subseteq> snd ` set kvs"
proof
  fix v
  assume "v \<in> set (map_values_sorted kvs)"
  then obtain k where k: "k \<in> fst ` set kvs" and v: "v = the (map_of (rev kvs) k)"
    by (auto simp: map_values_sorted_def)
  from k have "k \<in> fst ` set (rev kvs)" by simp
  then obtain w where "map_of (rev kvs) k = Some w"
    by (metis map_of_eq_None_iff not_None_eq)
  with v have "(k, v) \<in> set (rev kvs)"
    by (metis map_of_SomeD option.sel)
  then show "v \<in> snd ` set kvs" by force
qed

text \<open>When the key determines the value, nothing is lost.\<close>

lemma map_values_sorted_set:
  assumes "\<And>k v w. (k, v) \<in> set kvs \<Longrightarrow> (k, w) \<in> set kvs \<Longrightarrow> v = w"
  shows "set (map_values_sorted kvs) = snd ` set kvs"
proof
  show "set (map_values_sorted kvs) \<subseteq> snd ` set kvs"
    by (rule map_values_sorted_subset)
  show "snd ` set kvs \<subseteq> set (map_values_sorted kvs)"
  proof
    fix v
    assume "v \<in> snd ` set kvs"
    then obtain k where kv: "(k, v) \<in> set kvs" by force
    then obtain w where w: "map_of (rev kvs) k = Some w"
      by (metis fst_conv image_eqI map_of_eq_None_iff not_None_eq set_rev)
    then have "(k, w) \<in> set kvs"
      using map_of_SomeD by fastforce
    with assms kv have "w = v" by blast
    with w kv show "v \<in> set (map_values_sorted kvs)"
      by (force simp: map_values_sorted_def)
  qed
qed

lemma map_values_sorted_keys:
  "length (map_values_sorted kvs) = length (remdups (map fst kvs))"
  by (simp add: map_values_sorted_def)

lemma map_values_sorted_Nil [simp]: "map_values_sorted [] = []"
  by (simp add: map_values_sorted_def)

text \<open>The collected values for a set of keys that are their own values.\<close>

lemma sort_remdups_idem: "sort (remdups (sort (remdups xs))) = sort (remdups (xs :: 'a::linorder list))"
  by (simp add: distinct_remdups_id sorted_sort_id)

section \<open>Searching\<close>

lemma find_append_hit: "\<forall>x\<in>set xs. \<not> P x \<Longrightarrow> P y \<Longrightarrow> find P (xs @ y # ys) = Some y"
  by (induction xs) auto

section \<open>Words and their digits\<close>

lemma take_bit_unat [simp]: "take_bit LENGTH('a) (unat (w :: 'a::len word)) = unat w"
  by (rule take_bit_nat_eq_self) simp

end
