(* ===== verification/Go_Strings.thy ===== *)
theory Go_Strings
  imports Prelude
begin

text \<open>
  The functions of Go's \<^verbatim>\<open>strings\<close>, \<^verbatim>\<open>strconv\<close>, \<^verbatim>\<open>fmt\<close> and \<^verbatim>\<open>encoding/hex\<close> packages that the program
  calls, over byte strings, with the round trips between numbers and their texts.
\<close>

section \<open>Numbers in positional notation\<close>

fun base_digits :: "nat \<Rightarrow> nat \<Rightarrow> nat list" where
  "base_digits b n = (if b < 2 \<or> n < b then [n] else base_digits b (n div b) @ [n mod b])"

declare base_digits.simps [simp del]

definition base_value :: "nat \<Rightarrow> nat list \<Rightarrow> nat" where
  "base_value b ds = foldl (\<lambda>a d. a * b + d) 0 ds"

lemma base_value_simps [simp]:
  "base_value b [] = 0"
  "base_value b (ds @ [d]) = base_value b ds * b + d"
  by (simp_all add: base_value_def)

lemma base_digits_small: "n < b \<Longrightarrow> base_digits b n = [n]"
  by (subst base_digits.simps) simp

lemma base_digits_step: "2 \<le> b \<Longrightarrow> b \<le> n \<Longrightarrow> base_digits b n = base_digits b (n div b) @ [n mod b]"
  by (subst base_digits.simps) simp

lemma base_value_digits: "base_value b (base_digits b n) = n"
proof (induction b n rule: base_digits.induct)
  case (1 b n)
  show ?case
  proof (cases "b < 2 \<or> n < b")
    case True
    then have "base_digits b n = [] @ [n]" by (subst base_digits.simps) simp
    then show ?thesis by (simp only: base_value_simps)
  next
    case False
    with "1" have "base_value b (base_digits b (n div b)) = n div b" by simp
    moreover have "base_digits b n = base_digits b (n div b) @ [n mod b]"
      using False by (intro base_digits_step) auto
    ultimately show ?thesis by simp
  qed
qed

lemma base_digits_bound: "2 \<le> b \<Longrightarrow> d \<in> set (base_digits b n) \<Longrightarrow> d < b"
proof (induction b n rule: base_digits.induct)
  case (1 b n)
  show ?case
  proof (cases "n < b")
    case True
    with "1.prems" show ?thesis by (simp add: base_digits_small)
  next
    case False
    with "1.prems" have "base_digits b n = base_digits b (n div b) @ [n mod b]"
      by (intro base_digits_step) auto
    with 1 False show ?thesis by auto
  qed
qed

lemma base_digits_nonempty [simp]: "base_digits b n \<noteq> []"
  by (subst base_digits.simps) simp

lemma base_digits_inject: "base_digits b m = base_digits b n \<longleftrightarrow> m = n"
  by (metis base_value_digits)

lemma base_digits_length: "2 \<le> b \<Longrightarrow> n < b ^ Suc k \<Longrightarrow> length (base_digits b n) \<le> Suc k"
proof (induction k arbitrary: n)
  case 0
  then show ?case by (simp add: base_digits_small)
next
  case (Suc k)
  show ?case
  proof (cases "n < b")
    case True
    then show ?thesis by (simp add: base_digits_small)
  next
    case False
    with Suc.prems have "base_digits b n = base_digits b (n div b) @ [n mod b]"
      by (intro base_digits_step) auto
    moreover have "n div b < b ^ Suc k"
      using Suc.prems by (metis less_mult_imp_div_less mult.commute power_Suc)
    ultimately show ?thesis using Suc.IH[of "n div b"] Suc.prems by simp
  qed
qed

text \<open>The first digit is zero only for the number zero.\<close>

lemma base_digits_hd: "2 \<le> b \<Longrightarrow> 0 < n \<Longrightarrow> hd (base_digits b n) \<noteq> 0"
proof (induction b n rule: base_digits.induct)
  case (1 b n)
  show ?case
  proof (cases "n < b")
    case True
    with "1.prems" show ?thesis by (simp add: base_digits_small)
  next
    case False
    with "1.prems" have "base_digits b n = base_digits b (n div b) @ [n mod b]"
      by (intro base_digits_step) auto
    moreover have "0 < n div b" using False "1.prems" by (simp add: div_greater_zero_iff)
    ultimately show ?thesis using 1 False by (simp add: hd_append)
  qed
qed

text \<open>The fixed number of most significant digits of a number, recombined.\<close>

lemma base_value_fixed:
  "0 < b \<Longrightarrow> base_value b (map (\<lambda>i. n div b ^ (k - Suc i) mod b) [0..<k]) = n mod b ^ k"
proof (induction k arbitrary: n)
  case 0
  then show ?case by simp
next
  case (Suc k)
  have "map (\<lambda>i. n div b ^ (Suc k - Suc i) mod b) [0..<k]
      = map (\<lambda>i. n div b div b ^ (k - Suc i) mod b) [0..<k]"
  proof (rule map_cong[OF refl])
    fix i assume "i \<in> set [0..<k]"
    then have "b ^ (Suc k - Suc i) = b * b ^ (k - Suc i)"
      by (simp add: Suc_diff_Suc flip: power_Suc)
    then show "n div b ^ (Suc k - Suc i) mod b = n div b div b ^ (k - Suc i) mod b"
      by (simp add: div_mult2_eq)
  qed
  then have "base_value b (map (\<lambda>i. n div b ^ (Suc k - Suc i) mod b) [0..<k]) = n div b mod b ^ k"
    using Suc.IH[OF Suc.prems, of "n div b"] by (simp only:)
  then show ?case
    by (simp add: mod_mult2_eq mult.commute)
qed

section \<open>Digit characters\<close>

definition dec_char :: "nat \<Rightarrow> char" where
  "dec_char d = char_of (48 + d)"

definition is_dec :: "char \<Rightarrow> bool" where
  "is_dec c \<longleftrightarrow> 48 \<le> (of_char c :: nat) \<and> (of_char c :: nat) \<le> 57"

definition dec_val :: "char \<Rightarrow> nat" where
  "dec_val c = of_char c - 48"

text \<open>The value of a hexadecimal digit, in both cases, and the lower-case digit of a value.\<close>

definition hex_char :: "nat \<Rightarrow> char" where
  "hex_char d = (if d < 10 then char_of (48 + d) else char_of (87 + d))"

definition hex_digit :: "char \<Rightarrow> nat option" where
  "hex_digit c =
     (let n = of_char c :: nat in
      if 48 \<le> n \<and> n \<le> 57 then Some (n - 48)
      else if 97 \<le> n \<and> n \<le> 102 then Some (n - 87)
      else if 65 \<le> n \<and> n \<le> 70 then Some (n - 55)
      else None)"

definition is_hex :: "char \<Rightarrow> bool" where
  "is_hex c \<longleftrightarrow> hex_digit c \<noteq> None"

definition hex_val :: "char \<Rightarrow> nat" where
  "hex_val c = (case hex_digit c of Some d \<Rightarrow> d | None \<Rightarrow> 0)"

lemma of_char_char_of_nat: "n < 256 \<Longrightarrow> of_char (char_of n) = (n::nat)"
  by simp

lemma dec_char_facts [simp]:
  assumes "d < 10"
  shows "is_dec (dec_char d)" and "dec_val (dec_char d) = d"
  using assms by (simp_all add: is_dec_def dec_val_def dec_char_def)

lemma hex_digit_char [simp]: "d < 16 \<Longrightarrow> hex_digit (hex_char d) = Some d"
  by (auto simp: hex_digit_def hex_char_def Let_def)

lemma hex_char_facts [simp]:
  assumes "d < 16"
  shows "is_hex (hex_char d)" and "hex_val (hex_char d) = d"
  using assms by (simp_all add: is_hex_def hex_val_def)

text \<open>The separators of the program's formats are not digits.\<close>

lemma not_dec_sep [simp]:
  "\<not> is_dec (CHR ''.'')" "\<not> is_dec (CHR '':'')" "\<not> is_dec (CHR ''/'')" "\<not> is_dec (CHR ''%'')"
  "\<not> is_dec (CHR ''|'')" "\<not> is_dec (CHR ''-'')" "\<not> is_dec (CHR ''+'')"
  by (simp_all add: is_dec_def)

lemma not_hex_sep [simp]:
  "\<not> is_hex (CHR ''.'')" "\<not> is_hex (CHR '':'')" "\<not> is_hex (CHR ''/'')" "\<not> is_hex (CHR ''%'')"
  "\<not> is_hex (CHR ''|'')" "\<not> is_hex (CHR ''-'')"
  by (simp_all add: is_hex_def hex_digit_def Let_def)

lemma is_hex_zero [simp]: "is_hex (CHR ''0'')"
  by (simp add: is_hex_def hex_digit_def Let_def)

lemma dec_is_hex: "is_dec c \<Longrightarrow> is_hex c"
  by (simp add: is_dec_def is_hex_def hex_digit_def Let_def)

section \<open>Decimal and hexadecimal text\<close>

definition nat_dec :: "nat \<Rightarrow> string" where
  "nat_dec n = map dec_char (base_digits 10 n)"

definition nat_hex :: "nat \<Rightarrow> string" where
  "nat_hex n = map hex_char (base_digits 16 n)"

definition dec_value :: "string \<Rightarrow> nat" where
  "dec_value s = base_value 10 (map dec_val s)"

definition hex_value :: "string \<Rightarrow> nat" where
  "hex_value s = base_value 16 (map hex_val s)"

lemma nat_dec_is_dec: "c \<in> set (nat_dec n) \<Longrightarrow> is_dec c"
  by (auto simp: nat_dec_def dest!: base_digits_bound[rotated])

lemma nat_hex_is_hex: "c \<in> set (nat_hex n) \<Longrightarrow> is_hex c"
  by (auto simp: nat_hex_def dest!: base_digits_bound[rotated])

lemma nat_dec_nonempty [simp]: "nat_dec n \<noteq> []"
  by (simp add: nat_dec_def)

lemma nat_hex_nonempty [simp]: "nat_hex n \<noteq> []"
  by (simp add: nat_hex_def)

lemma dec_value_nat_dec [simp]: "dec_value (nat_dec n) = n"
proof -
  have "map dec_val (nat_dec n) = base_digits 10 n"
    by (auto simp: nat_dec_def intro!: map_idI dest!: base_digits_bound[rotated])
  then show ?thesis by (simp add: dec_value_def base_value_digits)
qed

lemma hex_value_nat_hex [simp]: "hex_value (nat_hex n) = n"
proof -
  have "map hex_val (nat_hex n) = base_digits 16 n"
    by (auto simp: nat_hex_def intro!: map_idI dest!: base_digits_bound[rotated])
  then show ?thesis by (simp add: hex_value_def base_value_digits)
qed

lemma nat_dec_inject [simp]: "nat_dec m = nat_dec n \<longleftrightarrow> m = n"
  by (metis dec_value_nat_dec)

lemma nat_hex_inject [simp]: "nat_hex m = nat_hex n \<longleftrightarrow> m = n"
  by (metis hex_value_nat_hex)

text \<open>\<^verbatim>\<open>strconv.Itoa\<close> and the verb \<^verbatim>\<open>%d\<close>.\<close>

definition itoa :: "int \<Rightarrow> string" where
  "itoa i = (if i < 0 then CHR ''-'' # nat_dec (nat (- i)) else nat_dec (nat i))"

lemma itoa_nonneg: "0 \<le> i \<Longrightarrow> itoa i = nat_dec (nat i)"
  by (simp add: itoa_def)

lemma nat_dec_no_minus: "nat_dec n \<noteq> CHR ''-'' # s"
  by (metis list.set_intros(1) nat_dec_is_dec not_dec_sep(6))

lemma itoa_inject [simp]: "itoa i = itoa j \<longleftrightarrow> i = j"
  using nat_dec_no_minus by (auto simp: itoa_def split: if_splits dest: sym)

lemma itoa_chars: "c \<in> set (itoa i) \<Longrightarrow> is_dec c \<or> c = CHR ''-''"
  by (auto simp: itoa_def dest: nat_dec_is_dec split: if_splits)

text \<open>
  \<^verbatim>\<open>strconv.Atoi\<close>: an optional sign, at least one digit, digits only, and a value that fits 64 bits.
\<close>

definition atoi :: "string \<Rightarrow> int option" where
  "atoi s =
     (let neg = (s \<noteq> [] \<and> hd s = CHR ''-'');
          body = (if s \<noteq> [] \<and> (hd s = CHR ''-'' \<or> hd s = CHR ''+'') then tl s else s)
      in if body = [] \<or> \<not> list_all is_dec body then None
         else let v = (if neg then - int (dec_value body) else int (dec_value body))
              in if in_int64 v then Some v else None)"

lemma atoi_nat_dec: "n < 2 ^ 63 \<Longrightarrow> atoi (nat_dec n) = Some (int n)"
proof -
  assume n: "n < 2 ^ 63"
  then have range: "in_int64 (int n)" by (simp add: in_int64_def)
  have all: "list_all is_dec (nat_dec n)" by (simp add: list_all_iff nat_dec_is_dec)
  have "is_dec (hd (nat_dec n))" by (metis hd_in_set nat_dec_is_dec nat_dec_nonempty)
  then have "hd (nat_dec n) \<noteq> CHR ''-''" and "hd (nat_dec n) \<noteq> CHR ''+''" by auto
  with all range show ?thesis by (simp add: atoi_def)
qed

lemma atoi_itoa: "0 \<le> i \<Longrightarrow> i < 2 ^ 63 \<Longrightarrow> atoi (itoa i) = Some i"
  by (simp add: itoa_nonneg atoi_nat_dec nat_less_iff)

text \<open>\<^verbatim>\<open>strconv.ParseUint(s, base, bits)\<close> for the bases 10 and 16: digits only, no sign.\<close>

definition parse_uint10 :: "string \<Rightarrow> nat \<Rightarrow> nat option" where
  "parse_uint10 s bits =
     (if s = [] \<or> \<not> list_all is_dec s \<or> 2 ^ bits \<le> dec_value s then None else Some (dec_value s))"

definition parse_uint16 :: "string \<Rightarrow> nat \<Rightarrow> nat option" where
  "parse_uint16 s bits =
     (if s = [] \<or> \<not> list_all is_hex s \<or> 2 ^ bits \<le> hex_value s then None else Some (hex_value s))"

lemma parse_uint10_nat_dec: "n < 2 ^ bits \<Longrightarrow> parse_uint10 (nat_dec n) bits = Some n"
  by (simp add: parse_uint10_def list_all_iff nat_dec_is_dec)

text \<open>The verb \<^verbatim>\<open>%08x\<close> of a 32-bit mark.\<close>

definition hex8 :: "32 word \<Rightarrow> string" where
  "hex8 w = (let s = nat_hex (unat w) in replicate (8 - length s) (CHR ''0'') @ s)"

lemma base_value_zeros: "base_value b (replicate k 0 @ ds) = base_value b ds"
  by (induction ds rule: rev_induct; induction k)
     (simp_all add: base_value_def flip: append_assoc)

lemma hex8_value: "hex_value (hex8 w) = unat w"
proof -
  have "map hex_val (hex8 w) = replicate (8 - length (nat_hex (unat w))) 0 @ map hex_val (nat_hex (unat w))"
    by (simp add: hex8_def Let_def hex_val_def hex_digit_def)
  then have "hex_value (hex8 w) = hex_value (nat_hex (unat w))"
    unfolding hex_value_def by (simp only: base_value_zeros)
  then show ?thesis by simp
qed

lemma hex8_is_hex: "c \<in> set (hex8 w) \<Longrightarrow> is_hex c"
  by (auto simp: hex8_def Let_def dest: nat_hex_is_hex)

lemma hex8_length: "length (hex8 w) = 8"
proof -
  have "unat w < 16 ^ Suc 7" using unsigned_less[of w] by simp
  then have "length (nat_hex (unat w)) \<le> 8"
    using base_digits_length[of 16 "unat w" 7] by (simp add: nat_hex_def)
  then show ?thesis by (simp add: hex8_def Let_def)
qed

lemma hex8_inject [simp]: "hex8 v = hex8 w \<longleftrightarrow> v = w"
  by (metis hex8_value word_unat_eq_iff)

section \<open>Bytes in hexadecimal\<close>

text \<open>\<^verbatim>\<open>hex.EncodeToString\<close> and \<^verbatim>\<open>hex.DecodeString\<close>.\<close>

definition hex_encode :: "8 word list \<Rightarrow> string" where
  "hex_encode bs = concat (map (\<lambda>b. [hex_char (unat b div 16), hex_char (unat b mod 16)]) bs)"

fun hex_decode :: "string \<Rightarrow> 8 word list option" where
  "hex_decode [] = Some []"
| "hex_decode [c] = None"
| "hex_decode (c # d # s) =
     (case (hex_digit c, hex_digit d, hex_decode s) of
        (Some x, Some y, Some bs) \<Rightarrow> Some (of_nat (16 * x + y) # bs)
      | _ \<Rightarrow> None)"

lemma hex_decode_encode: "hex_decode (hex_encode bs) = Some bs"
proof (induction bs)
  case Nil
  then show ?case by (simp add: hex_encode_def)
next
  case (Cons b bs)
  have "unat b < 256" using unsigned_less[of b] by simp
  then have lt: "unat b div 16 < 16" "unat b mod 16 < 16" by simp_all
  have "(of_nat (16 * (unat b div 16) + unat b mod 16) :: 8 word) = b"
    by (simp only: mult_div_mod_eq unat_of_nat word_unat_eq_iff) (simp add: \<open>unat b < 256\<close>)
  with lt Cons show ?case by (simp add: hex_encode_def)
qed

lemma hex_encode_length: "length (hex_encode bs) = 2 * length bs"
  by (induction bs) (simp_all add: hex_encode_def)

lemma hex_encode_is_hex: "c \<in> set (hex_encode bs) \<Longrightarrow> is_hex c"
proof -
  assume "c \<in> set (hex_encode bs)"
  then obtain b :: "8 word" where "c = hex_char (unat b div 16) \<or> c = hex_char (unat b mod 16)"
    unfolding hex_encode_def by fastforce
  moreover have "unat b < 256" for b :: "8 word" using unsigned_less[of b] by simp
  then have "unat b div 16 < 16" for b :: "8 word" by (simp add: div_less_iff_less_mult)
  ultimately show "is_hex c" by auto
qed

lemma hex_encode_inject [simp]: "hex_encode xs = hex_encode ys \<longleftrightarrow> xs = ys"
  by (metis hex_decode_encode option.inject)

section \<open>The package strings\<close>

definition has_prefix :: "string \<Rightarrow> string \<Rightarrow> bool" where
  "has_prefix p s \<longleftrightarrow> take (length p) s = p"

definition has_suffix :: "string \<Rightarrow> string \<Rightarrow> bool" where
  "has_suffix q s \<longleftrightarrow> has_prefix (rev q) (rev s)"

lemma has_prefix_iff: "has_prefix p s \<longleftrightarrow> (\<exists>t. s = p @ t)"
  unfolding has_prefix_def by (metis append_eq_conv_conj append_take_drop_id)

lemma has_prefix_append [simp]: "has_prefix p (p @ t)"
  by (simp add: has_prefix_iff)

text \<open>
  \<^verbatim>\<open>strings.TrimSpace\<close> removes the runes of \<^verbatim>\<open>unicode.IsSpace\<close>: the six ASCII ones and the UTF-8
  encodings of the others, listed as byte sequences.
\<close>

definition space_seqs :: "string list" where
  "space_seqs =
     map (map char_of)
      [[9], [10], [11], [12], [13], [32 :: nat],
       [0xC2, 0x85], [0xC2, 0xA0], [0xE1, 0x9A, 0x80],
       [0xE2, 0x80, 0x80], [0xE2, 0x80, 0x81], [0xE2, 0x80, 0x82], [0xE2, 0x80, 0x83],
       [0xE2, 0x80, 0x84], [0xE2, 0x80, 0x85], [0xE2, 0x80, 0x86], [0xE2, 0x80, 0x87],
       [0xE2, 0x80, 0x88], [0xE2, 0x80, 0x89], [0xE2, 0x80, 0x8A],
       [0xE2, 0x80, 0xA8], [0xE2, 0x80, 0xA9], [0xE2, 0x80, 0xAF],
       [0xE2, 0x81, 0x9F], [0xE3, 0x80, 0x80]]"

text \<open>Removing sequences of a set from the front, as long as one matches.\<close>

fun trim_seqs :: "string list \<Rightarrow> string \<Rightarrow> string" where
  "trim_seqs qs s =
     (case find (\<lambda>q. q \<noteq> [] \<and> has_prefix q s) qs of
        None \<Rightarrow> s
      | Some q \<Rightarrow> if s = [] then [] else trim_seqs qs (drop (max 1 (length q)) s))"

declare trim_seqs.simps [simp del]

definition starts_with_seq :: "string list \<Rightarrow> string \<Rightarrow> bool" where
  "starts_with_seq qs s \<longleftrightarrow> (\<exists>q\<in>set qs. q \<noteq> [] \<and> has_prefix q s)"

lemma starts_with_seq_find: "starts_with_seq qs s \<longleftrightarrow> find (\<lambda>q. q \<noteq> [] \<and> has_prefix q s) qs \<noteq> None"
  by (auto simp: starts_with_seq_def find_None_iff)

lemma trim_seqs_id: "\<not> starts_with_seq qs s \<Longrightarrow> trim_seqs qs s = s"
  by (subst trim_seqs.simps) (simp add: starts_with_seq_find)

lemma trim_seqs_done: "\<not> starts_with_seq qs (trim_seqs qs s)"
proof (induction qs s rule: trim_seqs.induct)
  case (1 qs s)
  show ?case
  proof (cases "find (\<lambda>q. q \<noteq> [] \<and> has_prefix q s) qs")
    case None
    then show ?thesis by (simp add: trim_seqs_id starts_with_seq_find)
  next
    case (Some q)
    then have "q \<noteq> []" "has_prefix q s" by (auto simp: find_Some_iff)
    then have "s \<noteq> []" by (auto simp: has_prefix_iff)
    with 1 Some show ?thesis by (simp add: trim_seqs.simps[of qs s])
  qed
qed

lemma trim_seqs_suffix: "\<exists>p. s = p @ trim_seqs qs s"
proof (induction qs s rule: trim_seqs.induct)
  case (1 qs s)
  show ?case
  proof (cases "find (\<lambda>q. q \<noteq> [] \<and> has_prefix q s) qs")
    case None
    then show ?thesis by (subst trim_seqs.simps) simp
  next
    case (Some q)
    show ?thesis
    proof (cases "s = []")
      case True
      with Some show ?thesis by (subst trim_seqs.simps) simp
    next
      case False
      let ?n = "max 1 (length q)"
      obtain p where "drop ?n s = p @ trim_seqs qs (drop ?n s)"
        using 1 Some False by blast
      then have "s = (take ?n s @ p) @ trim_seqs qs (drop ?n s)"
        by (metis append.assoc append_take_drop_id)
      with Some False show ?thesis by (simp add: trim_seqs.simps[of qs s]) (metis append.assoc)
    qed
  qed
qed

definition trim_left :: "string \<Rightarrow> string" where
  "trim_left s = trim_seqs space_seqs s"

definition trim_right :: "string \<Rightarrow> string" where
  "trim_right s = rev (trim_seqs (map rev space_seqs) (rev s))"

definition trim_space :: "string \<Rightarrow> string" where
  "trim_space s = trim_right (trim_left s)"

lemma starts_with_seq_take:
  "\<not> starts_with_seq qs (t @ u) \<Longrightarrow> \<not> starts_with_seq qs t"
  by (auto simp: starts_with_seq_def has_prefix_iff)

lemma trim_right_prefix: "\<exists>u. s = trim_right s @ u"
proof -
  obtain p where "rev s = p @ trim_seqs (map rev space_seqs) (rev s)"
    using trim_seqs_suffix by blast
  then have "s = trim_right s @ rev p"
    unfolding trim_right_def by (metis rev_append rev_rev_ident)
  then show ?thesis ..
qed

lemma trim_space_idem [simp]: "trim_space (trim_space s) = trim_space s"
proof -
  have left: "\<not> starts_with_seq space_seqs (trim_space s)"
    unfolding trim_space_def
    using trim_right_prefix[of "trim_left s"] trim_seqs_done[of space_seqs s] starts_with_seq_take
    by (metis trim_left_def)
  have right: "\<not> starts_with_seq (map rev space_seqs) (rev (trim_space s))"
    by (simp add: trim_space_def trim_right_def trim_seqs_done)
  from left have "trim_left (trim_space s) = trim_space s"
    by (simp add: trim_left_def trim_seqs_id)
  moreover from right have "trim_right (trim_space s) = trim_space s"
    by (simp add: trim_right_def trim_seqs_id)
  ultimately show ?thesis by (simp add: trim_space_def[of "trim_space s"])
qed

text \<open>A string that begins and ends with printable ASCII is unchanged.\<close>

definition is_printable :: "char \<Rightarrow> bool" where
  "is_printable c \<longleftrightarrow> 33 \<le> (of_char c :: nat) \<and> (of_char c :: nat) < 127"

lemma space_seqs_ends:
  "q \<in> set space_seqs \<Longrightarrow> q \<noteq> [] \<and> \<not> is_printable (hd q) \<and> \<not> is_printable (last q)"
  by (auto simp: space_seqs_def is_printable_def)

lemma starts_with_printable:
  assumes "\<And>q. q \<in> set qs \<Longrightarrow> q \<noteq> [] \<and> \<not> is_printable (hd q)"
    and "s = [] \<or> is_printable (hd s)"
  shows "\<not> starts_with_seq qs s"
proof
  assume "starts_with_seq qs s"
  then obtain q where q: "q \<in> set qs" "q \<noteq> []" "has_prefix q s"
    by (auto simp: starts_with_seq_def)
  then have "s \<noteq> []" and "hd s = hd q" by (auto simp: has_prefix_iff)
  with assms q show False by auto
qed

lemma trim_space_printable:
  assumes "s = [] \<or> is_printable (hd s) \<and> is_printable (last s)"
  shows "trim_space s = s"
proof -
  have "\<not> starts_with_seq space_seqs s"
    using assms by (intro starts_with_printable) (auto dest: space_seqs_ends)
  moreover have "\<not> starts_with_seq (map rev space_seqs) (rev s)"
    using assms by (intro starts_with_printable) (auto dest: space_seqs_ends simp: hd_rev)
  ultimately show ?thesis
    by (simp add: trim_space_def trim_left_def trim_right_def trim_seqs_id)
qed

lemma trim_space_all_printable: "\<forall>c\<in>set s. is_printable c \<Longrightarrow> trim_space s = s"
  by (rule trim_space_printable) (cases s; simp)

text \<open>
  \<^verbatim>\<open>strings.ToLower\<close> on ASCII letters.  The program lowers only the protocol and data-plane names
  and compares the result with ASCII constants that no non-ASCII rune lowers into.
\<close>

definition lower_char :: "char \<Rightarrow> char" where
  "lower_char c =
     (let n = of_char c :: nat in if 65 \<le> n \<and> n \<le> 90 then char_of (n + 32) else c)"

definition to_lower :: "string \<Rightarrow> string" where
  "to_lower s = map lower_char s"

lemma lower_char_idem [simp]: "lower_char (lower_char c) = lower_char c"
  by (simp add: lower_char_def Let_def)

lemma to_lower_idem [simp]: "to_lower (to_lower s) = to_lower s"
  by (simp add: to_lower_def)

text \<open>\<^verbatim>\<open>strings.Split\<close> at a one-byte separator, and \<^verbatim>\<open>strings.Join\<close>.\<close>

fun split_on :: "char \<Rightarrow> string \<Rightarrow> string list" where
  "split_on c [] = [[]]"
| "split_on c (x # xs) =
     (if x = c then [] # split_on c xs
      else case split_on c xs of [] \<Rightarrow> [[x]] | w # ws \<Rightarrow> (x # w) # ws)"

fun join :: "string \<Rightarrow> string list \<Rightarrow> string" where
  "join sep [] = []"
| "join sep [s] = s"
| "join sep (s # t # ss) = s @ sep @ join sep (t # ss)"

lemma split_on_nonempty [simp]: "split_on c s \<noteq> []"
  by (induction s) (auto split: list.splits)

lemma split_on_append_sep:
  "c \<notin> set s \<Longrightarrow> split_on c (s @ c # t) = s # split_on c t"
  by (induction s) auto

lemma split_on_single: "c \<notin> set s \<Longrightarrow> split_on c s = [s]"
  by (induction s) auto

lemma split_on_join:
  assumes "ss \<noteq> []" and "\<forall>s\<in>set ss. c \<notin> set s"
  shows "split_on c (join [c] ss) = ss"
  using assms by (induction "[c]" ss rule: join.induct) (auto simp: split_on_append_sep split_on_single)

text \<open>Two texts with one separator, neither of whose first parts contains it, agree part by part.\<close>

lemma append_sep_inject:
  assumes "c \<notin> set a" and "c \<notin> set b"
  shows "a @ c # s = b @ c # t \<longleftrightarrow> a = b \<and> s = t"
proof
  assume eq: "a @ c # s = b @ c # t"
  have "takeWhile (\<lambda>x. x \<noteq> c) (a @ c # s) = a" and "takeWhile (\<lambda>x. x \<noteq> c) (b @ c # t) = b"
    using assms by (simp_all add: takeWhile_append)
  with eq show "a = b \<and> s = t" by simp
qed simp

text \<open>Position of the last occurrence of a byte: \<^verbatim>\<open>strings.LastIndexByte\<close> as a split in two.\<close>

definition split_last :: "char \<Rightarrow> string \<Rightarrow> (string \<times> string) option" where
  "split_last c s =
     (let r = rev s; t = takeWhile (\<lambda>x. x \<noteq> c) r
      in if c \<in> set s then Some (rev (drop (Suc (length t)) r), rev t) else None)"

lemma split_last_append: "c \<notin> set t \<Longrightarrow> split_last c (s @ c # t) = Some (s, t)"
  by (simp add: split_last_def Let_def takeWhile_append)

lemma split_last_None: "split_last c s = None \<longleftrightarrow> c \<notin> set s"
  by (simp add: split_last_def Let_def)

end
