(* ===== verification/NetIP_Text.thy ===== *)
theory NetIP_Text
  imports NetIP
begin

text \<open>
  The text of an address parses back to the address: the printer of dotted decimal and of
  compressed hexadecimal groups against the parser of \<^verbatim>\<open>netip.ParseAddr\<close>.  Hence the text of a valid
  address determines it.
\<close>


lemma group16_nat: "i < 8 \<Longrightarrow> group16 w i = unat w div 65536 ^ (8 - Suc i) mod 65536"
proof -
  assume "i < 8"
  then have "112 - 16 * i = 16 * (8 - Suc i)" by simp
  then have "(2::nat) ^ (112 - 16 * i) = 65536 ^ (8 - Suc i)"
    by (simp only: power_mult) simp
  then show ?thesis
    unfolding group16_def by (simp only: unsigned_drop_bit_eq take_bit_unat) (simp add: drop_bit_eq_div)
qed

lemma octet_nat: "i < 4 \<Longrightarrow> octet w i = unat w div 256 ^ (4 - Suc i) mod 256"
proof -
  assume "i < 4"
  then have "24 - 8 * i = 8 * (4 - Suc i)" by simp
  then have "(2::nat) ^ (24 - 8 * i) = 256 ^ (4 - Suc i)"
    by (simp only: power_mult) simp
  then show ?thesis
    unfolding octet_def by (simp only: unsigned_drop_bit_eq take_bit_unat) (simp add: drop_bit_eq_div)
qed

lemma base_value_groups: "base_value 65536 (groups w) = unat w"
proof -
  have "groups w = map (\<lambda>i. unat w div 65536 ^ (8 - Suc i) mod 65536) [0..<8]"
    unfolding groups_def by (rule map_cong) (simp_all add: group16_nat del: power_Suc)
  then have "base_value 65536 (groups w) = unat w mod 65536 ^ 8"
    using base_value_fixed[of 65536 "unat w" 8] by (simp only:) 
  also have "\<dots> = unat w" using unsigned_less[where w = w and ?'a = nat] by simp
  finally show ?thesis .
qed

lemma word6_of_groups: "word6_of (groups w) = w"
  by (simp add: word6_of_def base_value_groups)

definition octets :: "32 word \<Rightarrow> nat list" where
  "octets w = map (octet w) [0..<4]"


lemma base_value_octets: "base_value 256 (octets w) = unat w"
proof -
  have "octets w = map (\<lambda>i. unat w div 256 ^ (4 - Suc i) mod 256) [0..<4]"
    unfolding octets_def by (rule map_cong) (simp_all add: octet_nat del: power_Suc)
  then have "base_value 256 (octets w) = unat w mod 256 ^ 4"
    using base_value_fixed[of 256 "unat w" 4] by (simp only:) 
  also have "\<dots> = unat w" using unsigned_less[where w = w and ?'a = nat] by simp
  finally show ?thesis .
qed

lemma word4_of_octets: "word4_of (octets w) = w"
  by (simp add: word4_of_def base_value_octets)

lemma parse4_nat_dec:
  assumes "n < 256"
  shows "\<exists>k>0. \<forall>s fs. parse4_fields (nat_dec n @ s) 0 0 fs = parse4_fields s n k fs"
proof -
  consider "n < 10" | "10 \<le> n" "n < 100" | "100 \<le> n" by linarith
  then show ?thesis
  proof cases
    case 1
    then show ?thesis
      by (intro exI[of _ 1]) (simp add: nat_dec_def base_digits_small)
  next
    case 2
    then have "nat_dec n = [dec_char (n div 10), dec_char (n mod 10)]"
      by (simp add: nat_dec_def base_digits_step base_digits_small)
    moreover have "n div 10 \<noteq> 0" "n div 10 < 10" "n div 10 \<le> 255"
      using 2 by linarith+
    ultimately show ?thesis using 2 assms
      by (intro exI[of _ "Suc (Suc 0)"]) (simp add: div_less_iff_less_mult)
  next
    case 3
    then have "nat_dec n = [dec_char (n div 10 div 10), dec_char (n div 10 mod 10), dec_char (n mod 10)]"
      using assms by (simp add: nat_dec_def base_digits_step base_digits_small div_less_iff_less_mult)
    moreover have "n div 10 div 10 * 10 + n div 10 mod 10 = n div 10" "n div 10 * 10 + n mod 10 = n" 
      by simp_all
    moreover have "n div 10 div 10 \<noteq> 0" "n div 10 div 10 < 10" "n div 10 < 256" "n div 10 \<noteq> 0"
      using 3 assms by linarith+
    ultimately show ?thesis using assms
      by (intro exI[of _ "Suc (Suc (Suc 0))"]) simp
  qed
qed

lemma octets_unfold: "octets w = [octet w 0, octet w 1, octet w 2, octet w 3]"
  by (simp add: octets_def upt_rec numeral_nat)

lemma parse4_fields_string4: "parse4_fields (string4 w) 0 0 [] = Some (octets w)"
proof -
  have lt: "octet w i < 256" for i by (simp add: octet_def)
  obtain k where k: "\<And>i. 0 < k i" 
    and step: "\<And>i s fs. parse4_fields (nat_dec (octet w i) @ s) 0 0 fs = parse4_fields s (octet w i) (k i) fs"
    using parse4_nat_dec[OF lt] by metis
  have "nat_dec n = [] @ nat_dec n" for n by simp
  note last = step[of 3 "[]", simplified]
  show ?thesis
    by (simp add: string4_def step last k octets_unfold)
qed

lemma string_groups_simps [simp]:
  "string_groups [] = []"
  "string_groups [g] = nat_hex g"
  "string_groups (g # h # gs) = nat_hex g @ CHR '':'' # string_groups (h # gs)"
  by (simp_all add: string_groups_def)

lemma string_groups_hd: "gs \<noteq> [] \<Longrightarrow> \<exists>c s. string_groups gs = c # s \<and> is_hex c"
proof -
  assume "gs \<noteq> []"
  then obtain g gs' where "gs = g # gs'" by (cases gs) auto
  moreover obtain c s where "nat_hex g = c # s" by (metis list.exhaust nat_hex_nonempty)
  moreover from this have "is_hex c" by (metis list.set_intros(1) nat_hex_is_hex)
  ultimately show ?thesis by (cases gs') auto
qed

lemma string_groups_chars: "c \<in> set (string_groups gs) \<Longrightarrow> is_hex c \<or> c = CHR '':''"
  by (induction gs rule: induct_list012) (auto dest: nat_hex_is_hex)

lemma nat_hex_length4: "g < 65536 \<Longrightarrow> length (nat_hex g) \<le> 4"
  using base_digits_length[of 16 g 3] by (simp add: nat_hex_def)

lemma span_hex:
  assumes "s = [] \<or> \<not> is_hex (hd s)"
  shows "takeWhile is_hex (nat_hex g @ s) = nat_hex g" "dropWhile is_hex (nat_hex g @ s) = s"
  using assms by (auto simp: takeWhile_append dropWhile_append nat_hex_is_hex
      takeWhile_eq_Nil_iff dropWhile_eq_self_iff)

lemma parse6_last:
  assumes "g < 65536" and "length gs < 8"
  shows "parse6_groups (nat_hex g) gs ell = Some ([], gs @ [g], ell)"
proof -
  have "takeWhile is_hex (nat_hex g) = nat_hex g" "dropWhile is_hex (nat_hex g) = []"
    by (simp_all add: nat_hex_is_hex)
  note span = this[THEN eq_reflection]
  show ?thesis using assms nat_hex_length4[OF assms(1)]
    by (subst parse6_groups.simps) (simp add: Let_def span)
qed

lemma parse6_colon:
  assumes "g < 65536" and "length gs < 8" and "c \<noteq> CHR '':''"
  shows "parse6_groups (nat_hex g @ CHR '':'' # c # s) gs ell = parse6_groups (c # s) (gs @ [g]) ell"
  using assms nat_hex_length4[OF assms(1)] span_hex[of "CHR '':'' # c # s" g]
  by (subst parse6_groups.simps) (simp add: Let_def)

lemma parse6_ellipsis:
  assumes "g < 65536" and "length gs < 8"
  shows "parse6_groups (nat_hex g @ ''::'' @ s) gs None
       = (if s = [] then Some ([], gs @ [g], Some (Suc (length gs)))
          else parse6_groups s (gs @ [g]) (Some (Suc (length gs))))"
  using assms nat_hex_length4[OF assms(1)] span_hex[of "''::'' @ s" g]
  by (subst parse6_groups.simps) (simp add: Let_def)

lemma parse6_string_groups:
  assumes "hs \<noteq> []" and "\<forall>h\<in>set hs. h < 65536" and "length gs + length hs \<le> 8"
  shows "parse6_groups (string_groups hs) gs ell = Some ([], gs @ hs, ell)"
  using assms
proof (induction hs arbitrary: gs rule: induct_list012)
  case (3 h h' hs)
  obtain c s where c: "string_groups (h' # hs) = c # s" "is_hex c"
    using string_groups_hd by blast
  then have "c \<noteq> CHR '':''" by auto
  with 3 c show ?case by (simp add: parse6_colon)
qed (simp_all add: parse6_last)

lemma parse6_string_ellipsis:
  assumes "hs \<noteq> []" and "\<forall>h\<in>set hs. h < 65536" and "length gs + length hs \<le> 8"
  shows "parse6_groups (string_groups hs @ ''::'' @ s) gs None
       = (if s = [] then Some ([], gs @ hs, Some (length gs + length hs))
          else parse6_groups s (gs @ hs) (Some (length gs + length hs)))"
  using assms
proof (induction hs arbitrary: gs rule: induct_list012)
  case (3 h h' hs)
  obtain c t where c: "string_groups (h' # hs) = c # t" "is_hex c"
    using string_groups_hd by blast
  then have "c \<noteq> CHR '':''" by auto
  with 3 c show ?case
    using parse6_colon[of h gs c "t @ ''::'' @ s" None] by simp
next
  case (2 h)
  then show ?case using parse6_ellipsis[of h gs s] by simp
qed simp_all

text \<open>What the search for a run of zero groups returns.\<close>

definition zero_run_ok :: "nat list \<Rightarrow> nat \<times> nat \<Rightarrow> bool" where
  "zero_run_ok gs r \<longleftrightarrow> (case r of (s, e) \<Rightarrow>
     s + 2 \<le> e \<and> e \<le> length gs \<and> take (e - s) (drop s gs) = replicate (e - s) 0)"

lemma zero_run_at_ok:
  assumes "2 \<le> zero_run_at gs i"
  shows "zero_run_ok gs (i, i + zero_run_at gs i)"
proof -
  let ?t = "takeWhile (\<lambda>g. g = 0) (drop i gs)"
  have "length ?t \<le> length (drop i gs)" by (rule length_takeWhile_le)
  moreover have "take (length ?t) (drop i gs) = ?t"
    by (metis takeWhile_eq_take)
  moreover have "?t = replicate (length ?t) 0"
    by (auto simp: list_eq_iff_nth_eq dest: set_takeWhileD[OF nth_mem])
  ultimately show ?thesis using assms by (auto simp: zero_run_ok_def zero_run_at_def)
qed

lemma best_zero_run_ok:
  "best_zero_run gs is best = Some r \<Longrightarrow> (\<And>q. best = Some q \<Longrightarrow> zero_run_ok gs q) \<Longrightarrow> zero_run_ok gs r"
  by (induction gs "is" best rule: best_zero_run.induct)
     (auto simp: Let_def zero_run_at_ok split: if_splits)

lemma groups_facts [simp]: "length (groups w) = 8" "\<forall>g\<in>set (groups w). g < 65536"
  by (auto simp: groups_def group16_def)

lemma groups_nonempty [simp]: "groups w \<noteq> []"
  by (metis groups_facts(1) list.size(3) zero_neq_numeral)

lemma zero_run_decompose:
  assumes "zero_run_ok gs (s, e)"
  shows "take s gs @ replicate (e - s) 0 @ drop e gs = gs" and "s + 2 \<le> e" and "e \<le> length gs"
proof -
  from assms have "s \<le> e" and *: "take (e - s) (drop s gs) = replicate (e - s) 0"
    by (auto simp: zero_run_ok_def)
  have "gs = take s gs @ take (e - s) (drop s gs) @ drop (e - s) (drop s gs)"
    by (metis append_take_drop_id)
  with * \<open>s \<le> e\<close> show "take s gs @ replicate (e - s) 0 @ drop e gs = gs" by simp
qed (use assms in \<open>auto simp: zero_run_ok_def\<close>)

lemma not_has_prefix_colons: "c \<noteq> CHR '':'' \<Longrightarrow> \<not> has_prefix ''::'' (c # s)"
  by (simp add: has_prefix_def)

lemma parse6_body_string6: "parse6_body (string6 w) = Some (groups w)"
proof (cases "best_zero_run (groups w) [0..<8] None")
  case None
  obtain c s where c: "string_groups (groups w) = c # s" "is_hex c"
    using string_groups_hd[of "groups w"] groups_facts(1)[of w] by fastforce
  then have "c \<noteq> CHR '':''" by auto
  with c have "\<not> has_prefix ''::'' (string_groups (groups w))"
    by (simp add: not_has_prefix_colons)
  moreover have "parse6_groups (string_groups (groups w)) [] None = Some ([], groups w, None)"
    using parse6_string_groups[of "groups w" "[]" None] groups_facts[of w] by simp
  ultimately show ?thesis using None
    by (simp add: string6_def parse6_body_def finish6_def)
next
  case (Some r)
  obtain s e where r: "r = (s, e)" by (cases r)
  have "zero_run_ok (groups w) (s, e)"
    using best_zero_run_ok[of "groups w" "[0..<8]" None r] Some r by simp
  note run = zero_run_decompose[OF this, unfolded groups_facts]
  let ?a = "take s (groups w)" and ?b = "drop e (groups w)"
  have lens: "length ?a = s" "length ?b = 8 - e" using run by simp_all
  have a: "\<forall>g\<in>set ?a. g < 65536" and b: "\<forall>g\<in>set ?b. g < 65536"
    using groups_facts(2)[of w] by (auto dest: in_set_takeD in_set_dropD)
  have eq: "string6 w = string_groups ?a @ ''::'' @ string_groups ?b"
    using Some r by (simp add: string6_def Let_def)
  have fin: "finish6 ([], ?a @ ?b, Some s) = Some (groups w)"
    using run lens by (simp add: finish6_def)
  have tail: "?b \<noteq> [] \<Longrightarrow> parse6_groups (string_groups ?b) gs (Some s) = Some ([], gs @ ?b, Some s)"
    if "length gs \<le> s" for gs
    using that run lens by (intro parse6_string_groups b) auto
  show ?thesis
  proof (cases "s = 0")
    case True
    show ?thesis
    proof (cases "?b = []")
      case True
      with \<open>s = 0\<close> lens fin eq show ?thesis by (simp add: parse6_body_def finish6_def has_prefix_def)
    next
      case False
      then have "string_groups ?b \<noteq> []" using string_groups_hd[OF False] by auto
      with False True tail[of "[]"] fin eq show ?thesis
        by (simp add: parse6_body_def has_prefix_def)
    qed
  next
    case False
    with lens have ne: "?a \<noteq> []" by auto
    then obtain c t where c: "string_groups ?a = c # t" "is_hex c"
      using string_groups_hd by blast
    then have "c \<noteq> CHR '':''" by auto
    with c eq have np: "\<not> has_prefix ''::'' (string6 w)"
      by (simp add: not_has_prefix_colons)
    have "parse6_groups (string6 w) [] None = Some ([], ?a @ ?b, Some s)"
    proof (cases "?b = []")
      case True
      with eq parse6_string_ellipsis[OF ne a, of "[]" "[]"] lens run show ?thesis by simp
    next
      case ne_b: False
      then have "string_groups ?b \<noteq> []" using string_groups_hd[OF ne_b] by auto
      with eq ne_b parse6_string_ellipsis[OF ne a, of "[]" "string_groups ?b"] lens run tail[of ?a]
      show ?thesis by simp
    qed
    with np fin show ?thesis by (simp add: parse6_body_def)
  qed
qed

lemma string4_chars: "c \<in> set (string4 w) \<Longrightarrow> is_dec c \<or> c = CHR ''.''"
  by (auto simp: string4_def dest: nat_dec_is_dec)

lemma string4_split: "\<exists>s. string4 w = nat_dec (octet w 0) @ CHR ''.'' # s"
  by (simp add: string4_def)

lemma octets_facts [simp]: "length (octets w) = 4" "x \<in> set (octets w) \<Longrightarrow> x < 256"
  by (auto simp: octets_def octet_def)

lemma parse4_string4: "parse4 (string4 w) = Some (IP4 w)"
  by (simp add: parse4_def parse4_fields_string4 word4_of_octets)

lemma parse_addr_string4: "parse_addr (string4 w) = Some (IP4 w)"
proof -
  obtain s where s: "string4 w = nat_dec (octet w 0) @ CHR ''.'' # s"
    using string4_split by blast
  have "find (\<lambda>c. c = CHR ''.'' \<or> c = CHR '':'' \<or> c = CHR ''%'') (string4 w) = Some (CHR ''.'')"
    unfolding s by (rule find_append_hit) (auto dest: nat_dec_is_dec)
  then show ?thesis by (simp add: parse_addr_def parse4_string4)
qed

lemma string6_chars: "c \<in> set (string6 w) \<Longrightarrow> is_hex c \<or> c = CHR '':''"
  by (auto simp: string6_def Let_def split: option.splits dest: string_groups_chars)

text \<open>A text whose first byte out of the three is a colon goes to the IPv6 parser.\<close>

lemma parse_addr_colon:
  assumes "\<forall>c\<in>set a. is_hex c"
  shows "parse_addr (a @ CHR '':'' # s) = parse6 (a @ CHR '':'' # s)"
proof -
  have "find (\<lambda>c. c = CHR ''.'' \<or> c = CHR '':'' \<or> c = CHR ''%'') (a @ CHR '':'' # s) = Some (CHR '':'')"
    using assms by (induction a) auto
  then show ?thesis by (simp add: parse_addr_def)
qed

lemma string6_colon: "\<exists>a s. string6 w = a @ CHR '':'' # s \<and> (\<forall>c\<in>set a. is_hex c)"
proof -
  have gen: "\<exists>a s. string_groups (g # h # gs) = a @ CHR '':'' # s \<and> (\<forall>c\<in>set a. is_hex c)" for g h gs
    by (simp add: nat_hex_is_hex) (metis nat_hex_is_hex)
  have groups2: "\<exists>g h gs. groups w = g # h # gs"
    by (simp add: groups_def upt_rec)
  show ?thesis
  proof (cases "best_zero_run (groups w) [0..<8] None")
    case None
    with gen groups2 show ?thesis by (auto simp: string6_def Let_def)
  next
    case (Some r)
    obtain s e where r: "r = (s, e)" by (cases r)
    let ?b = "string_groups (drop e (groups w))"
    consider "take s (groups w) = []" | g where "take s (groups w) = [g]"
      | g h gs where "take s (groups w) = g # h # gs"
      by (metis list.exhaust)
    then show ?thesis
    proof cases
      case 1
      with Some r show ?thesis by (intro exI[of _ "[]"] exI[of _ "CHR '':'' # ?b"]) (simp add: string6_def Let_def)
    next
      case (2 g)
      with Some r show ?thesis
        by (intro exI[of _ "nat_hex g"] exI[of _ "CHR '':'' # ?b"]) (simp add: string6_def Let_def nat_hex_is_hex)
    next
      case (3 g h gs)
      obtain a t where "string_groups (g # h # gs) = a @ CHR '':'' # t" "\<forall>c\<in>set a. is_hex c"
        using gen by blast
      with 3 Some r show ?thesis
        by (intro exI[of _ a] exI[of _ "t @ ''::'' @ ?b"])
           (simp add: string6_def Let_def del: string_groups_simps)
    qed
  qed
qed

lemma parse6_zone:
  assumes "CHR ''%'' \<notin> set body"
  shows "parse6 (body @ zone_suffix z) = map_option (\<lambda>gs. IP6 (word6_of gs) z) (parse6_body body)"
proof -
  have "takeWhile (\<lambda>c. c \<noteq> CHR ''%'') (body @ zone_suffix z) = body"
    and "dropWhile (\<lambda>c. c \<noteq> CHR ''%'') (body @ zone_suffix z) = zone_suffix z"
    using assms by (auto simp: zone_suffix_def takeWhile_append dropWhile_append takeWhile_eq_all_conv[THEN iffD2] dropWhile_eq_Nil_conv[THEN iffD2])
  then show ?thesis by (simp add: parse6_def Let_def zone_suffix_def)
qed

lemma not_percent [simp]:
  "CHR ''%'' \<notin> set (string6 w)" "CHR ''%'' \<notin> set (string4 v)" "CHR '':'' \<notin> set (string4 v)"
  "CHR ''/'' \<notin> set (string6 w)" "CHR ''/'' \<notin> set (string4 v)"
  "CHR ''|'' \<notin> set (string6 w)" "CHR ''|'' \<notin> set (string4 v)"
  by (auto dest!: string6_chars string4_chars)

lemma word6_of_4in6:
  assumes "drop_bit 32 w = 0xFFFF" and "octets (ucast w) = [a, b, c, d]"
  shows "word6_of (replicate 5 0 @ [0xFFFF, a * 256 + b, c * 256 + d]) = w"
proof -
  have "unat (drop_bit 32 w) = unat w div 2 ^ 32"
    by (simp only: unsigned_drop_bit_eq take_bit_unat) (simp add: drop_bit_eq_div)
  with assms(1) have hi: "unat w div 2 ^ 32 = 0xFFFF" by simp
  have "base_value 256 [a, b, c, d] = unat (ucast w :: 32 word)"
    using base_value_octets[of "ucast w"] assms(2) by simp
  also have "\<dots> = unat w mod 2 ^ 32"
    by (simp add: unsigned_ucast_eq take_bit_eq_mod)
  finally have lo: "((a * 256 + b) * 256 + c) * 256 + d = unat w mod 2 ^ 32"
    by (simp add: base_value_def)
  have "base_value 65536 (replicate 5 0 @ [0xFFFF, a * 256 + b, c * 256 + d])
      = 0xFFFF * 2 ^ 32 + (((a * 256 + b) * 256 + c) * 256 + d)"
    by (simp only: base_value_zeros) (simp add: base_value_def algebra_simps)
  also have "\<dots> = unat w"
    using div_mult_mod_eq[of "unat w" "2 ^ 32"] unfolding hi lo .
  finally show ?thesis by (simp add: word6_of_def)
qed

lemma parse6_body_4in6:
  assumes "octets v = [a, b, c, d]"
  shows "parse6_body (''::ffff:'' @ string4 v) = Some (replicate 5 0 @ [0xFFFF, a * 256 + b, c * 256 + d])"
proof -
  obtain s where s: "string4 v = nat_dec (octet v 0) @ CHR ''.'' # s"
    using string4_split by blast
  have hex: "\<forall>x\<in>set (nat_dec (octet v 0)). is_hex x"
    by (auto dest: nat_dec_is_dec intro: dec_is_hex)
  have len: "length (nat_dec (octet v 0)) \<le> 4"
    using base_digits_length[of 10 "octet v 0" 3] by (simp add: nat_dec_def octet_def)
  have span: "takeWhile is_hex (string4 v) = nat_dec (octet v 0)" "dropWhile is_hex (string4 v) = CHR ''.'' # s"
    using hex by (simp_all add: s takeWhile_append dropWhile_append)
  obtain x xs where x: "nat_dec (octet v 0) = x # xs" by (metis list.exhaust nat_dec_nonempty)
  then have "is_dec x" by (metis list.set_intros(1) nat_dec_is_dec)
  then have "x \<noteq> CHR '':''" by auto
  have ffff: "nat_hex 0xFFFF = ''ffff''" by code_simp
  have "parse6_groups (string4 v) [0xFFFF] (Some 0)
      = Some ([], [0xFFFF, a * 256 + b, c * 256 + d], Some 0)"
    using len span assms parse4_fields_string4[of v]
    by (subst parse6_groups.simps) (simp add: Let_def)
  moreover have "parse6_groups (''ffff:'' @ string4 v) [] (Some 0) = parse6_groups (string4 v) [0xFFFF] (Some 0)"
    using parse6_colon[where g = "0xFFFF" and gs = "[]" and c = x and s = "xs @ CHR ''.'' # s" and ell = "Some 0"] \<open>x \<noteq> CHR '':''\<close>
    by (simp add: s x ffff)
  ultimately show ?thesis
    by (simp add: parse6_body_def finish6_def has_prefix_def)
qed

lemma parse_addr_string:
  assumes "is_valid a"
  shows "parse_addr (addr_string a) = Some a"
proof (cases a)
  case NoAddr
  with assms show ?thesis by (simp add: is_valid_def)
next
  case (IP4 v)
  then show ?thesis by (simp add: parse_addr_string4)
next
  case (IP6 w z)
  show ?thesis
  proof (cases "drop_bit 32 w = 0xFFFF")
    case True
    obtain p q r t where o: "octets (ucast w) = [p, q, r, t]"
      using octets_unfold by blast
    have "parse_addr (addr_string a) = parse6 ((''::ffff:'' @ string4 (ucast w)) @ zone_suffix z)"
      using True IP6 parse_addr_colon[of "[]"] by simp
    also have "\<dots> = map_option (\<lambda>gs. IP6 (word6_of gs) z) (parse6_body (''::ffff:'' @ string4 (ucast w)))"
      by (rule parse6_zone) simp
    also have "\<dots> = Some (IP6 w z)"
      using parse6_body_4in6[OF o] word6_of_4in6[OF True o] by simp
    finally show ?thesis using IP6 by simp
  next
    case False
    obtain b s where bs: "string6 w = b @ CHR '':'' # s" "\<forall>c\<in>set b. is_hex c"
      using string6_colon by blast
    then have "parse_addr (string6 w @ zone_suffix z) = parse6 (string6 w @ zone_suffix z)"
      using parse_addr_colon[OF bs(2), of "s @ zone_suffix z"] by simp
    also have "\<dots> = map_option (\<lambda>gs. IP6 (word6_of gs) z) (parse6_body (string6 w))"
      by (rule parse6_zone) simp
    also have "\<dots> = Some (IP6 w z)"
      by (simp add: parse6_body_string6 word6_of_groups)
    finally show ?thesis using False IP6 by simp
  qed
qed

lemma addr_string_inject:
  "is_valid a \<Longrightarrow> is_valid b \<Longrightarrow> addr_string a = addr_string b \<longleftrightarrow> a = b"
  by (metis option.inject parse_addr_string)

end
