(* ===== verification/NetIP_Prefix.thy ===== *)
theory NetIP_Prefix
  imports NetIP_Text
begin

text \<open>
  \<^verbatim>\<open>netip.Prefix\<close>: an address without zone and a number of bits (\<open>- 1\<close> for the invalid prefix), its
  masked form, membership, text and parser.
\<close>

unbundle bit_operations_syntax

datatype prefix = Prefix (paddr: addr) (pbits: int)

definition prefix_valid :: "prefix \<Rightarrow> bool" where
  "prefix_valid p \<longleftrightarrow> 0 \<le> pbits p"

definition no_prefix :: prefix where
  "no_prefix = Prefix NoAddr (- 1)"

fun without_zone :: "addr \<Rightarrow> addr" where
  "without_zone (IP6 w z) = IP6 w []"
| "without_zone a = a"

definition prefix_from :: "addr \<Rightarrow> int \<Rightarrow> prefix" where
  "prefix_from a b =
     Prefix (without_zone a) (if is_valid a \<and> 0 \<le> b \<and> b \<le> int (bit_len a) then b else - 1)"

text \<open>Clearing all but the first \<open>b\<close> bits of an address.\<close>

fun mask_addr :: "addr \<Rightarrow> nat \<Rightarrow> addr" where
  "mask_addr NoAddr b = NoAddr"
| "mask_addr (IP4 w) b = IP4 (push_bit (32 - b) (drop_bit (32 - b) w))"
| "mask_addr (IP6 w z) b = IP6 (push_bit (128 - b) (drop_bit (128 - b) w)) z"

definition masked :: "prefix \<Rightarrow> prefix" where
  "masked p =
     (if pbits p < 0 \<or> int (bit_len (paddr p)) < pbits p then no_prefix
      else prefix_from (mask_addr (paddr p) (nat (pbits p))) (pbits p))"

definition prefix_contains :: "prefix \<Rightarrow> addr \<Rightarrow> bool" where
  "prefix_contains p a \<longleftrightarrow>
     prefix_valid p \<and> zone a = [] \<and>
     (case (paddr p, a) of
        (IP4 v, IP4 w) \<Rightarrow> drop_bit (32 - nat (pbits p)) (v XOR w) = 0
      | (IP6 v _, IP6 w _) \<Rightarrow> drop_bit (128 - nat (pbits p)) (v XOR w) = 0
      | _ \<Rightarrow> False)"

definition prefix_string :: "prefix \<Rightarrow> string" where
  "prefix_string p =
     (if prefix_valid p then addr_string (paddr p) @ CHR ''/'' # itoa (pbits p) else ''invalid Prefix'')"

definition parse_prefix :: "string \<Rightarrow> prefix option" where
  "parse_prefix s =
     (case split_last (CHR ''/'') s of
        None \<Rightarrow> None
      | Some (ip_text, bits_text) \<Rightarrow>
          (case parse_addr ip_text of
             None \<Rightarrow> None
           | Some ip \<Rightarrow>
               if zone ip \<noteq> [] then None
               else if 1 < length bits_text \<and> (of_char (hd bits_text) < (49::nat) \<or> (57::nat) < of_char (hd bits_text))
               then None
               else (case atoi bits_text of
                       None \<Rightarrow> None
                     | Some b \<Rightarrow> if b < 0 \<or> int (bit_len ip) < b then None else Some (prefix_from ip b))))"

text \<open>A proper prefix is valid for the length of its zone-free address.\<close>

definition prefix_ok :: "prefix \<Rightarrow> bool" where
  "prefix_ok p \<longleftrightarrow>
     is_valid (paddr p) \<and> zone (paddr p) = [] \<and> 0 \<le> pbits p \<and> pbits p \<le> int (bit_len (paddr p))"

lemma bit_len_le: "bit_len a \<le> 128"
  by (cases a) auto

lemma without_zone_simps [simp]:
  "zone (without_zone a) = []" "bit_len (without_zone a) = bit_len a" "is_valid (without_zone a) = is_valid a"
  by (cases a; simp add: is_valid_def)+

lemma mask_addr_simps [simp]:
  "bit_len (mask_addr a b) = bit_len a" "is_valid (mask_addr a b) = is_valid a" "zone (mask_addr a b) = zone a"
  by (cases a; simp add: is_valid_def)+

lemma without_zone_id: "zone a = [] \<Longrightarrow> without_zone a = a"
  by (cases a) auto

lemma prefix_from_ok: "is_valid a \<Longrightarrow> 0 \<le> b \<Longrightarrow> b \<le> int (bit_len a) \<Longrightarrow> prefix_ok (prefix_from a b)"
  by (simp add: prefix_from_def prefix_ok_def)

lemma prefix_ok_valid: "prefix_ok p \<Longrightarrow> prefix_valid p"
  by (simp add: prefix_ok_def prefix_valid_def)

lemma prefix_from_id: "prefix_ok p \<Longrightarrow> prefix_from (paddr p) (pbits p) = p"
  by (cases p) (simp add: prefix_ok_def prefix_from_def without_zone_id)

lemma masked_facts:
  assumes "prefix_ok p"
  shows "prefix_ok (masked p)" and "pbits (masked p) = pbits p"
    and "bit_len (paddr (masked p)) = bit_len (paddr p)"
  using assms by (auto simp: masked_def prefix_ok_def prefix_from_def)

lemma drop_push_drop [simp]: "drop_bit k (push_bit k (drop_bit k v)) = drop_bit k (v :: 'a::len word)"
  by (rule bit_word_eqI) (auto simp: bit_simps dest: bit_imp_le_length)

lemma mask_addr_idem: "mask_addr (mask_addr a b) b = mask_addr a b"
  by (cases a) simp_all

lemma masked_idem: "prefix_ok p \<Longrightarrow> masked (masked p) = masked p"
  by (auto simp: masked_def prefix_ok_def prefix_from_def without_zone_id mask_addr_idem)

text \<open>Masking does not change the addresses a prefix holds.\<close>

lemma drop_bit_push_xor:
  "drop_bit k (push_bit k (drop_bit k v) XOR w) = (drop_bit k (v XOR w) :: 'a::len word)"
  by (simp add: drop_bit_xor)

lemma prefix_contains_masked:
  assumes "prefix_ok p"
  shows "prefix_contains (masked p) a = prefix_contains p a"
proof (cases "paddr p")
  case NoAddr
  with assms show ?thesis by (simp add: prefix_ok_def is_valid_def)
next
  case (IP4 v)
  with assms show ?thesis
    by (auto simp: masked_def prefix_ok_def prefix_from_def prefix_contains_def prefix_valid_def
        is_valid_def drop_bit_push_xor split: addr.splits)
next
  case (IP6 v z)
  with assms show ?thesis
    by (auto simp: masked_def prefix_ok_def prefix_from_def prefix_contains_def prefix_valid_def
        is_valid_def drop_bit_push_xor split: addr.splits)
qed

section \<open>The text of a prefix\<close>

lemma parse_addr_valid: "parse_addr s = Some a \<Longrightarrow> is_valid a"
  by (auto simp: parse_addr_def parse4_def parse6_def Let_def is_valid_def
      split: option.splits if_splits list.splits)

lemma parse_prefix_ok: "parse_prefix s = Some p \<Longrightarrow> prefix_ok p"
  by (auto simp: parse_prefix_def dest: parse_addr_valid intro!: prefix_from_ok
      split: option.splits if_splits prod.splits)

lemma itoa_leading:
  assumes "0 \<le> b"
  shows "\<not> (1 < length (itoa b) \<and> (of_char (hd (itoa b)) < (49::nat) \<or> (57::nat) < of_char (hd (itoa b))))"
proof (cases "b < 10")
  case True
  with assms show ?thesis by (simp add: itoa_nonneg nat_dec_def base_digits_small)
next
  case False
  let ?d = "hd (base_digits 10 (nat b))"
  have "?d \<noteq> 0" using False by (intro base_digits_hd) auto
  moreover have "?d < 10" by (rule base_digits_bound[of _ _ "nat b"]) simp_all
  moreover have "hd (itoa b) = dec_char ?d"
    using assms by (simp add: itoa_nonneg nat_dec_def hd_map)
  ultimately show ?thesis by (simp add: dec_char_def)
qed

lemma itoa_no_slash: "CHR ''/'' \<notin> set (itoa b)"
  using itoa_chars by fastforce

lemma parse_prefix_string:
  assumes "prefix_ok p"
  shows "parse_prefix (prefix_string p) = Some p"
proof -
  from assms have b: "0 \<le> pbits p" "pbits p \<le> int (bit_len (paddr p))"
    and a: "is_valid (paddr p)" "zone (paddr p) = []"
    by (auto simp: prefix_ok_def)
  have "atoi (itoa (pbits p)) = Some (pbits p)"
    using b bit_len_le[of "paddr p"] by (intro atoi_itoa) auto
  moreover have "prefix_string p = addr_string (paddr p) @ CHR ''/'' # itoa (pbits p)"
    using b by (simp add: prefix_string_def prefix_valid_def)
  ultimately show ?thesis
    using a b itoa_leading[of "pbits p"] itoa_no_slash[of "pbits p"] prefix_from_id[OF assms]
    by (auto simp: parse_prefix_def split_last_append parse_addr_string)
qed

lemma prefix_string_inject:
  "prefix_ok p \<Longrightarrow> prefix_ok q \<Longrightarrow> prefix_string p = prefix_string q \<longleftrightarrow> p = q"
  by (metis option.inject parse_prefix_string)

text \<open>The texts have no blanks, so trimming leaves them unchanged.\<close>

lemma hex_printable: "is_hex c \<Longrightarrow> is_printable c"
  by (auto simp: is_hex_def hex_digit_def is_printable_def Let_def split: if_splits)

lemma sep_printable [simp]:
  "is_printable (CHR '':'')" "is_printable (CHR ''.'')" "is_printable (CHR ''/'')" "is_printable (CHR ''-'')"
  "is_printable (CHR ''f'')"
  by (simp_all add: is_printable_def)

lemma addr_string_printable:
  assumes "is_valid a" and "zone a = []" and "c \<in> set (addr_string a)"
  shows "is_printable c"
  using assms
  by (cases a) (auto simp: is_valid_def zone_suffix_def split: if_splits
      dest!: string4_chars string6_chars intro: hex_printable dec_is_hex)

lemma prefix_string_printable:
  assumes "prefix_ok p" and "c \<in> set (prefix_string p)"
  shows "is_printable c"
  using assms addr_string_printable[of "paddr p" c]
  by (auto simp: prefix_ok_def prefix_string_def prefix_valid_def
      dest!: itoa_chars intro: hex_printable dec_is_hex)

lemma trim_prefix_string: "prefix_ok p \<Longrightarrow> trim_space (prefix_string p) = prefix_string p"
  by (intro trim_space_all_printable ballI prefix_string_printable)

lemma trim_addr_string: "is_valid a \<Longrightarrow> zone a = [] \<Longrightarrow> trim_space (addr_string a) = addr_string a"
  by (intro trim_space_all_printable ballI addr_string_printable)

lemma prefix_string_nonempty: "prefix_ok p \<Longrightarrow> prefix_string p \<noteq> []"
  by (auto simp: prefix_string_def prefix_ok_def prefix_valid_def)

text \<open>The text of a prefix is not the text of an address.\<close>

lemma not_digit_slash [simp]: "\<not> is_dec (CHR ''/'')" "\<not> is_hex (CHR ''/'')"
  by simp_all

lemma parse4_fields_slash: "CHR ''/'' \<in> set s \<Longrightarrow> parse4_fields s v k fs = None"
  by (induction s v k fs rule: parse4_fields.induct) auto

lemma slash_dropWhile: "CHR ''/'' \<in> set s \<Longrightarrow> CHR ''/'' \<in> set (dropWhile is_hex s)"
  by (induction s) auto

lemma parse6_groups_slash:
  "CHR ''/'' \<in> set s \<Longrightarrow> parse6_groups s gs ell = Some (t, hs, e) \<Longrightarrow> CHR ''/'' \<in> set t"
proof (induction s gs ell arbitrary: t hs e rule: parse6_groups.induct)
  case (1 s gs ell)
  let ?rest = "dropWhile is_hex s"
  have slash: "CHR ''/'' \<in> set ?rest" using "1.prems"(1) by (rule slash_dropWhile)
  then obtain c rest1 where rest: "?rest = c # rest1" by (cases ?rest) auto
  show ?case
  proof (cases "8 \<le> length gs \<or> c \<noteq> CHR '':''")
    case True
    with "1.prems" rest show ?thesis
      by (subst (asm) parse6_groups.simps)
         (auto simp: Let_def parse4_fields_slash split: if_splits option.splits list.splits)
  next
    case False
    with slash rest have s1: "CHR ''/'' \<in> set rest1" by auto
    then obtain c' rest2 where r1: "rest1 = c' # rest2" by (cases rest1) auto
    show ?thesis
      using "1.prems" False rest r1 s1 "1.IH"
      by (subst (asm) parse6_groups.simps) (auto simp: Let_def split: if_splits)
  qed
qed

lemma parse6_body_slash:
  assumes "CHR ''/'' \<in> set s"
  shows "parse6_body s = None"
proof -
  have fin: "Option.bind (parse6_groups t [] ell) finish6 = None" if "CHR ''/'' \<in> set t" for t ell
    using parse6_groups_slash[OF that, of "[]" ell]
    by (cases "parse6_groups t [] ell") (auto simp: finish6_def split: option.splits)
  show ?thesis
  proof (cases "has_prefix ''::'' s")
    case True
    then obtain t where t: "s = ''::'' @ t" by (auto simp: has_prefix_iff)
    with assms have "CHR ''/'' \<in> set t" by auto
    with t fin show ?thesis by (cases t) (auto simp: parse6_body_def)
  next
    case False
    with assms fin show ?thesis by (simp add: parse6_body_def)
  qed
qed

lemma percent_addr_string: "zone a = [] \<Longrightarrow> CHR ''%'' \<notin> set (addr_string a)"
  by (cases a) (auto simp: zone_suffix_def)

lemma parse_addr_slash:
  assumes "CHR ''/'' \<in> set s" and "CHR ''%'' \<notin> set s"
  shows "parse_addr s = None"
proof -
  have "parse6 s = None"
    using assms parse6_zone[of s "[]"] by (simp add: zone_suffix_def parse6_body_slash)
  moreover have "parse4 s = None"
    using assms(1) by (simp add: parse4_def parse4_fields_slash)
  ultimately show ?thesis by (simp add: parse_addr_def split: option.splits)
qed

lemma parse_addr_prefix_string: "prefix_ok p \<Longrightarrow> parse_addr (prefix_string p) = None"
  by (rule parse_addr_slash)
     (auto simp: prefix_string_def prefix_ok_def prefix_valid_def percent_addr_string dest!: itoa_chars)

end
