(* ===== verification/Config_Types.thy ===== *)
theory Config_Types
  imports NetIP_Prefix
begin

text \<open>
  The data of \<^verbatim>\<open>internal/config/config.go\<close>: constants, the web, limit, nftables and rule settings, the
  whole configuration and its defaults, and the errors of the package as constructors.
\<close>

abbreviation CurrentVersion :: int where "CurrentVersion \<equiv> 2"
abbreviation MaxWhitelistEntries :: nat where "MaxWhitelistEntries \<equiv> 1024"
abbreviation MaxPortRangeSize :: int where "MaxPortRangeSize \<equiv> 4096"
abbreviation MaxRules :: nat where "MaxRules \<equiv> 1024"
abbreviation DefaultNFTConntrackMark :: "32 word" where "DefaultNFTConntrackMark \<equiv> 0x50420001"

abbreviation ProtocolTCP :: string where "ProtocolTCP \<equiv> ''tcp''"
abbreviation ProtocolUDP :: string where "ProtocolUDP \<equiv> ''udp''"
abbreviation ProtocolBoth :: string where "ProtocolBoth \<equiv> ''both''"
abbreviation RuleDataPlaneNFT :: string where "RuleDataPlaneNFT \<equiv> ''nftables''"
abbreviation RuleDataPlaneGo :: string where "RuleDataPlaneGo \<equiv> ''go''"

record web_config =
  w_Port :: int
  w_ListenIPv4 :: string
  w_ListenIPv6 :: string
  w_AutoLANACL :: bool
  w_StrictIPAllowlist :: bool
  w_AllowInsecureHTTP :: bool
  w_RequireHTTPS :: bool
  w_AllowUnsafeAllACL :: bool
  w_Whitelist :: "string list"
  w_TLSCertFile :: string
  w_TLSKeyFile :: string
  w_TLSMinVersion :: string
  w_DNSServers :: "string list"
  w_AdminTokenSHA :: string
  w_MonitorTokenSHA :: string

record resource_limits =
  l_MaxTCPConnections :: int
  l_MaxUDPSessions :: int
  l_MaxUDPMemoryBytes :: int

record nft_config =
  n_ConntrackMark :: "32 word"
  n_EnableFlowtable :: bool

record rule =
  r_ID :: string
  r_Name :: string
  r_Protocol :: string
  r_DataPlane :: string
  r_ListenHost :: string
  r_ListenPort :: int
  r_ListenPortEnd :: int
  r_TargetHost :: string
  r_TargetPort :: int
  r_TargetPortEnd :: int
  r_BackupTargetHost :: string
  r_BackupTargetPort :: int
  r_DNSCacheTTLSeconds :: int
  r_TCPHealthIntervalSeconds :: int
  r_TCPHealthTimeoutSeconds :: int
  r_Enabled :: bool
  r_ConnectTimeoutSeconds :: int
  r_TCPIdleTimeoutSeconds :: int
  r_MaxTCPConnections :: int
  r_MaxTCPConnectionsPerIP :: int
  r_UDPIdleTimeoutSeconds :: int
  r_MaxUDPSessions :: int
  r_MaxUDPSessionsPerIP :: int
  r_UDPNewSessionsPerSec :: int
  r_UDPPacketsPerSec :: int
  r_UDPWorkers :: int
  r_UDPBatchSize :: int
  r_UDPPacketBufferSize :: int
  r_UDPListenerBufferBytes :: int
  r_UDPSessionBufferBytes :: int
  r_AllowPrivateTarget :: bool
  r_TargetCIDRAllowlist :: "string list"

record config =
  c_Version :: int
  c_Web :: web_config
  c_Limits :: resource_limits
  c_NFT :: nft_config
  c_Rules :: "rule list"

text \<open>\<^verbatim>\<open>Default\<close>; a field the literal does not name is the zero value of its type.\<close>

definition default_web :: web_config where
  "default_web =
     \<lparr>w_Port = 9080, w_ListenIPv4 = ''127.0.0.1'', w_ListenIPv6 = ''::1'', w_AutoLANACL = False,
      w_StrictIPAllowlist = False, w_AllowInsecureHTTP = False, w_RequireHTTPS = False,
      w_AllowUnsafeAllACL = False, w_Whitelist = [], w_TLSCertFile = [], w_TLSKeyFile = [],
      w_TLSMinVersion = [], w_DNSServers = [], w_AdminTokenSHA = [], w_MonitorTokenSHA = []\<rparr>"

definition default_limits :: resource_limits where
  "default_limits =
     \<lparr>l_MaxTCPConnections = 8192, l_MaxUDPSessions = 16384, l_MaxUDPMemoryBytes = 1024 * 1024 * 1024\<rparr>"

definition Default :: config where
  "Default =
     \<lparr>c_Version = CurrentVersion, c_Web = default_web, c_Limits = default_limits,
      c_NFT = \<lparr>n_ConntrackMark = DefaultNFTConntrackMark, n_EnableFlowtable = True\<rparr>, c_Rules = []\<rparr>"

text \<open>The zero value of a rule, as a decoder starts from it.\<close>

definition zero_rule :: rule where
  "zero_rule =
     \<lparr>r_ID = [], r_Name = [], r_Protocol = [], r_DataPlane = [], r_ListenHost = [], r_ListenPort = 0,
      r_ListenPortEnd = 0, r_TargetHost = [], r_TargetPort = 0, r_TargetPortEnd = 0,
      r_BackupTargetHost = [], r_BackupTargetPort = 0, r_DNSCacheTTLSeconds = 0,
      r_TCPHealthIntervalSeconds = 0, r_TCPHealthTimeoutSeconds = 0, r_Enabled = False,
      r_ConnectTimeoutSeconds = 0, r_TCPIdleTimeoutSeconds = 0, r_MaxTCPConnections = 0,
      r_MaxTCPConnectionsPerIP = 0, r_UDPIdleTimeoutSeconds = 0, r_MaxUDPSessions = 0,
      r_MaxUDPSessionsPerIP = 0, r_UDPNewSessionsPerSec = 0, r_UDPPacketsPerSec = 0,
      r_UDPWorkers = 0, r_UDPBatchSize = 0, r_UDPPacketBufferSize = 0,
      r_UDPListenerBufferBytes = 0, r_UDPSessionBufferBytes = 0, r_AllowPrivateTarget = False,
      r_TargetCIDRAllowlist = []\<rparr>"

section \<open>Errors\<close>

datatype cidr_error =
    CIDRInvalid string
  | CIDRMapped string
  | CIDRAllAddresses string
  | CIDRTooMany

text \<open>
  \<open>PrefixPanic\<close> is the panic of \<^verbatim>\<open>netip.MustParsePrefix\<close> on a text that is not a prefix.
\<close>

datatype target_error =
    NotUnicast addr
  | DeniedByDefault addr
  | OutsideAllowlist addr
  | AllowlistError cidr_error
  | PrefixPanic string

datatype rule_problem =
    NameEmpty | NameTooLong | ProtocolUnknown | DataPlaneUnknown
  | PortRange | ListenRangeOrder | TargetRangeOrder | RangeSizeMismatch | RangeTooLarge
  | TargetHostEmpty | TargetHostTooLong | DNSCacheRange
  | BackupPortWithoutHost | BackupNeedsGoTCP | BackupInvalid | BackupTarget target_error
  | HealthInvalid | HealthTimeoutWithoutInterval
  | ListenHostInvalid | ListenHostMulticast
  | ConnectTimeoutRange | TCPIdleRange | MaxTCPRange int | PerSourceTCPRange int
  | UDPIdleRange | MaxUDPRange | MaxUDPExceedsGlobal int | PerSourceUDPRange int
  | UDPNewSessionRange | UDPPacketRange | UDPWorkersRange | UDPBatchRange | UDPPacketBufferRange
  | UDPListenerBufferRange | UDPSessionBufferRange
  | TargetCIDRs cidr_error | PrivateWithoutAllowlist | TargetAddress target_error

datatype config_error =
    UnsupportedVersion int
  | WebPortRange | WebListenNotLiteral string | WebListenInvalid string | InsecureListener
  | WhitelistInvalid string | WhitelistMapped string | WhitelistTooMany
  | HTTPSRequired | TLSPairIncomplete | TLSMinVersionUnknown | TLSPathNotAbsolute string
  | WhitelistAllAddresses string | StrictWithAutoLAN | StrictNeedsWhitelist | StrictNeedsTLS
  | StrictAllAddresses string | WhitelistPanic string
  | LimitTCPRange | LimitUDPRange | LimitUDPMemoryRange
  | ConntrackMarkZero | AdminTokenHashInvalid | MonitorTokenHashInvalid
  | DNSServerInvalid string | DNSServerNotLiteral string | DNSServerPortRange string | DNSServersTooMany
  | TooManyRules | RuleIDEmpty nat | RuleIDDuplicate string | RuleIDTooLong
  | TooManyHealthEndpoints | RuleError string rule_problem | RulesOverlap string string

end
