(* ===== verification/Config_Normalize.thy ===== *)
theory Config_Normalize
  imports Config_Types
begin

text \<open>
  The normalisation functions of \<^verbatim>\<open>internal/config/config.go\<close>: hosts, rules, whitelists, target CIDR
  lists, DNS servers and the defaults of a decoded configuration.
\<close>

section \<open>Prefix lists\<close>

definition whitelist_entry :: "string \<Rightarrow> config_error + string option" where
  "whitelist_entry raw =
     (let s = trim_space raw in
      if s = [] then Inr None
      else (case parse_addr s of
              Some ip \<Rightarrow>
                (let u = unmap ip; bits = (if is4 u then 32 else 128)
                 in Inr (Some (prefix_string (prefix_from u bits))))
            | None \<Rightarrow>
                (case parse_prefix s of
                   None \<Rightarrow> Inl (WhitelistInvalid s)
                 | Some p \<Rightarrow>
                     if is4in6 (paddr p) then Inl (WhitelistMapped s)
                     else Inr (Some (prefix_string (masked p))))))"

definition NormalizeWhitelist :: "string list \<Rightarrow> config_error + string list" where
  "NormalizeWhitelist items =
     rbind (collect whitelist_entry items)
       (\<lambda>entries. let out = sort (remdups entries) in
          if MaxWhitelistEntries < length out then Inl WhitelistTooMany else Inr out)"

definition target_cidr_entry :: "string \<Rightarrow> cidr_error + string option" where
  "target_cidr_entry raw =
     (let s = trim_space raw in
      if s = [] then Inr None
      else (case parse_prefix s of
              None \<Rightarrow> Inl (CIDRInvalid s)
            | Some p \<Rightarrow>
                if is4in6 (paddr p) then Inl (CIDRMapped s)
                else if pbits (masked p) = 0 then Inl (CIDRAllAddresses s)
                else Inr (Some (prefix_string (masked p)))))"

definition NormalizeTargetCIDRs :: "string list \<Rightarrow> cidr_error + string list" where
  "NormalizeTargetCIDRs items =
     rbind (collect target_cidr_entry items)
       (\<lambda>entries. let out = sort (remdups entries) in
          if 64 < length out then Inl CIDRTooMany else Inr out)"

section \<open>Rules\<close>

definition normalizeHost :: "string \<Rightarrow> string" where
  "normalizeHost host =
     (let h = trim_space host in
      if 2 \<le> length h \<and> has_prefix ''['' h \<and> has_suffix '']'' h
      then trim_space (take (length h - 2) (drop 1 h)) else h)"

text \<open>\<open>default_int d v\<close> is \<^verbatim>\<open>if v == 0 { v = d }\<close>.\<close>

definition default_int :: "int \<Rightarrow> int \<Rightarrow> int" where
  "default_int d v = (if v = 0 then d else v)"

definition normalize_allowlist :: "string list \<Rightarrow> string list" where
  "normalize_allowlist cidrs =
     (let trimmed = map trim_space cidrs in
      case NormalizeTargetCIDRs trimmed of Inl _ \<Rightarrow> trimmed | Inr normalized \<Rightarrow> normalized)"

definition NormalizeRule :: "rule \<Rightarrow> rule" where
  "NormalizeRule r =
     (let data_plane = to_lower (trim_space (r_DataPlane r));
          listen_host = normalizeHost (r_ListenHost r);
          backup_host = normalizeHost (r_BackupTargetHost r)
      in r\<lparr>
        r_Name := trim_space (r_Name r),
        r_Protocol := to_lower (trim_space (r_Protocol r)),
        r_DataPlane := (if data_plane = [] then RuleDataPlaneNFT else data_plane),
        r_ListenHost := (if listen_host = [] then ''*'' else listen_host),
        r_TargetHost := normalizeHost (r_TargetHost r),
        r_BackupTargetHost := backup_host,
        r_ConnectTimeoutSeconds := default_int 10 (r_ConnectTimeoutSeconds r),
        r_DNSCacheTTLSeconds := default_int 300 (r_DNSCacheTTLSeconds r),
        r_BackupTargetPort :=
          (if backup_host \<noteq> [] \<and> r_BackupTargetPort r = 0 then r_TargetPort r else r_BackupTargetPort r),
        r_TCPHealthTimeoutSeconds :=
          (if 0 < r_TCPHealthIntervalSeconds r \<and> r_TCPHealthTimeoutSeconds r = 0 then 3
           else r_TCPHealthTimeoutSeconds r),
        r_TCPIdleTimeoutSeconds := default_int 300 (r_TCPIdleTimeoutSeconds r),
        r_MaxTCPConnections := default_int 2048 (r_MaxTCPConnections r),
        r_MaxTCPConnectionsPerIP := default_int 256 (r_MaxTCPConnectionsPerIP r),
        r_UDPIdleTimeoutSeconds := default_int 60 (r_UDPIdleTimeoutSeconds r),
        r_MaxUDPSessions := default_int 4096 (r_MaxUDPSessions r),
        r_MaxUDPSessionsPerIP := default_int 512 (r_MaxUDPSessionsPerIP r),
        r_UDPNewSessionsPerSec := default_int 1000 (r_UDPNewSessionsPerSec r),
        r_UDPPacketsPerSec := default_int 100000 (r_UDPPacketsPerSec r),
        r_UDPBatchSize := default_int 64 (r_UDPBatchSize r),
        r_UDPPacketBufferSize := default_int 2048 (r_UDPPacketBufferSize r),
        r_UDPListenerBufferBytes := default_int (4 * 1024 * 1024) (r_UDPListenerBufferBytes r),
        r_UDPSessionBufferBytes := default_int (64 * 1024) (r_UDPSessionBufferBytes r),
        r_TargetCIDRAllowlist := normalize_allowlist (r_TargetCIDRAllowlist r)\<rparr>)"

definition LastListenPort :: "rule \<Rightarrow> int" where
  "LastListenPort r = (if r_ListenPortEnd r = 0 then r_ListenPort r else r_ListenPortEnd r)"

definition LastTargetPort :: "rule \<Rightarrow> int" where
  "LastTargetPort r = (if r_TargetPortEnd r = 0 then r_TargetPort r else r_TargetPortEnd r)"

section \<open>DNS servers\<close>

text \<open>\<^verbatim>\<open>net.SplitHostPort\<close> and \<^verbatim>\<open>net.JoinHostPort\<close>.\<close>

definition SplitHostPort :: "string \<Rightarrow> (string \<times> string) option" where
  "SplitHostPort hp =
     (case split_last (CHR '':'') hp of
        None \<Rightarrow> None
      | Some (front, port) \<Rightarrow>
          if hp \<noteq> [] \<and> hd hp = CHR ''['' then
            (let inner = takeWhile (\<lambda>c. c \<noteq> CHR '']'') (tl hp) in
             if CHR '']'' \<notin> set hp then None
             else if front \<noteq> CHR ''['' # inner @ '']'' then None
             else if CHR ''['' \<in> set (tl hp) \<or> CHR '']'' \<in> set port then None
             else Some (inner, port))
          else if CHR '':'' \<in> set front then None
          else if CHR ''['' \<in> set hp \<or> CHR '']'' \<in> set hp then None
          else Some (front, port))"

definition JoinHostPort :: "string \<Rightarrow> string \<Rightarrow> string" where
  "JoinHostPort host port =
     (if CHR '':'' \<in> set host then CHR ''['' # host @ '']:'' @ port else host @ CHR '':'' # port)"

text \<open>The endpoint one entry stands for.\<close>

definition dns_endpoint :: "string \<Rightarrow> config_error + string" where
  "dns_endpoint s =
     rbind (case parse_addr s of
              Some ip \<Rightarrow> Inr (addr_string (unmap ip), ''53'')
            | None \<Rightarrow>
                (case SplitHostPort s of
                   None \<Rightarrow> Inl (DNSServerInvalid s)
                 | Some (host, port) \<Rightarrow>
                     (case parse_addr host of
                        None \<Rightarrow> Inl (DNSServerNotLiteral s)
                      | Some ip \<Rightarrow> Inr (addr_string (unmap ip), port))))
       (\<lambda>(host, port).
          case atoi port of
            None \<Rightarrow> Inl (DNSServerPortRange s)
          | Some n \<Rightarrow>
              if n < 1 \<or> 65535 < n then Inl (DNSServerPortRange s)
              else Inr (JoinHostPort host (itoa n)))"

fun dns_loop :: "string list \<Rightarrow> string list \<Rightarrow> config_error + string list" where
  "dns_loop [] out = Inr out"
| "dns_loop (raw # items) out =
     (let s = trim_space raw in
      if s = [] then dns_loop items out
      else rbind (dns_endpoint s)
             (\<lambda>endpoint.
                if endpoint \<in> set out then dns_loop items out
                else if 8 < length (out @ [endpoint]) then Inl DNSServersTooMany
                else dns_loop items (out @ [endpoint])))"

definition NormalizeDNSServers :: "string list \<Rightarrow> config_error + string list" where
  "NormalizeDNSServers items = dns_loop items []"

section \<open>Defaults of a decoded configuration\<close>

definition applyConfigDefaults :: "config \<Rightarrow> config" where
  "applyConfigDefaults cfg =
     cfg\<lparr>c_Limits :=
           (c_Limits cfg)\<lparr>
             l_MaxTCPConnections := default_int 8192 (l_MaxTCPConnections (c_Limits cfg)),
             l_MaxUDPSessions := default_int 16384 (l_MaxUDPSessions (c_Limits cfg)),
             l_MaxUDPMemoryBytes := default_int (1024 * 1024 * 1024) (l_MaxUDPMemoryBytes (c_Limits cfg))\<rparr>,
         c_NFT :=
           (c_NFT cfg)\<lparr>
             n_ConntrackMark :=
               (if n_ConntrackMark (c_NFT cfg) = 0 then DefaultNFTConntrackMark
                else n_ConntrackMark (c_NFT cfg))\<rparr>\<rparr>"

definition webHasNonLoopbackListener :: "web_config \<Rightarrow> bool" where
  "webHasNonLoopbackListener web =
     list_ex (\<lambda>raw. raw \<noteq> [] \<and>
                (case parse_addr raw of Some ip \<Rightarrow> \<not> is_loopback ip | None \<Rightarrow> False))
       [w_ListenIPv4 web, w_ListenIPv6 web]"

definition legacyPrivateCIDRs :: "string list" where
  "legacyPrivateCIDRs =
     [''10.0.0.0/8'', ''100.64.0.0/10'', ''127.0.0.0/8'', ''169.254.0.0/16'', ''172.16.0.0/12'',
      ''192.168.0.0/16'', ''::1/128'', ''fc00::/7'', ''fe80::/10'']"

definition migrate_rule :: "resource_limits \<Rightarrow> rule \<Rightarrow> rule" where
  "migrate_rule lim legacy =
     (let legacy1 = legacy\<lparr>
            r_MaxUDPSessions := (if r_MaxUDPSessions legacy = 65536 then 0 else r_MaxUDPSessions legacy),
            r_UDPSessionBufferBytes :=
              (if r_UDPSessionBufferBytes legacy = 256 * 1024 then 0 else r_UDPSessionBufferBytes legacy)\<rparr>;
          r = NormalizeRule legacy1;
          max_tcp = min (r_MaxTCPConnections r) (l_MaxTCPConnections lim);
          max_udp = min (r_MaxUDPSessions r) (l_MaxUDPSessions lim)
      in r\<lparr>
           r_MaxTCPConnections := max_tcp,
           r_MaxTCPConnectionsPerIP := min (r_MaxTCPConnectionsPerIP r) max_tcp,
           r_MaxUDPSessions := max_udp,
           r_MaxUDPSessionsPerIP := min (r_MaxUDPSessionsPerIP r) max_udp,
           r_AllowPrivateTarget := True,
           r_TargetCIDRAllowlist :=
             (if r_TargetCIDRAllowlist r = [] then legacyPrivateCIDRs else r_TargetCIDRAllowlist r)\<rparr>)"

definition migrateV1 :: "config \<Rightarrow> config" where
  "migrateV1 cfg =
     (let web = c_Web cfg;
          insecure = (w_TLSCertFile web = [] \<and> w_TLSKeyFile web = [] \<and> webHasNonLoopbackListener web);
          cfg1 = cfg\<lparr>
            c_Version := CurrentVersion,
            c_Web := web\<lparr>w_AllowInsecureHTTP := insecure \<or> w_AllowInsecureHTTP web\<rparr>,
            c_NFT := \<lparr>n_ConntrackMark = DefaultNFTConntrackMark, n_EnableFlowtable = True\<rparr>\<rparr>;
          cfg2 = applyConfigDefaults cfg1
      in cfg2\<lparr>c_Rules := map (migrate_rule (c_Limits cfg2)) (c_Rules cfg2)\<rparr>)"

end
