(* ===== verification/Config_Validate.thy ===== *)
theory Config_Validate
  imports Config_Normalize
begin

text \<open>
  \<^verbatim>\<open>Validate\<close> of \<^verbatim>\<open>internal/config/config.go\<close> with its parts: web settings, limits, rules, the destination
  policy of \<^verbatim>\<open>ValidateTargetAddress\<close>, and the conflicts between listeners.  Every early return is a
  guard in the order of the code; a rule's checks are grouped by what they are about.
\<close>

section \<open>The destination policy\<close>

definition restrictedTargetPrefixes :: "prefix list" where
  "restrictedTargetPrefixes = [Prefix (IP4 0x64400000) 10, Prefix (IP4 0x646464C8) 32]"

definition restricted_target :: "addr \<Rightarrow> bool" where
  "restricted_target a \<longleftrightarrow>
     is_loopback a \<or> is_link_local_unicast a \<or> is_link_local_multicast a \<or> is_private a
     \<or> list_ex (\<lambda>p. prefix_contains p a) restrictedTargetPrefixes"

text \<open>The loop over the normalised allowlist; an unparsable entry would be a panic.\<close>

fun allowlist_permits :: "string list \<Rightarrow> addr \<Rightarrow> target_error option" where
  "allowlist_permits [] a = Some (OutsideAllowlist a)"
| "allowlist_permits (raw # rest) a =
     (case parse_prefix raw of
        None \<Rightarrow> Some (PrefixPanic raw)
      | Some p \<Rightarrow> if prefix_contains p a then None else allowlist_permits rest a)"

definition ValidateTargetAddress :: "rule \<Rightarrow> addr \<Rightarrow> target_error option" where
  "ValidateTargetAddress rl address =
     (let a = unmap address in
      guard (\<not> is_valid a \<or> is_unspecified a \<or> is_multicast a
             \<or> \<not> is_global_unicast a \<and> \<not> is_loopback a \<and> \<not> is_link_local_unicast a) (NotUnicast a)
      (if \<not> restricted_target a then None
       else
         guard (\<not> r_AllowPrivateTarget rl) (DeniedByDefault a)
         (case NormalizeTargetCIDRs (r_TargetCIDRAllowlist rl) of
            Inl e \<Rightarrow> Some (AllowlistError e)
          | Inr allowlist \<Rightarrow> allowlist_permits allowlist a)))"

section \<open>Web settings and limits\<close>

definition check_web_host :: "string \<Rightarrow> config_error option" where
  "check_web_host host =
     (if host = [] then None
      else case parse_addr host of
        None \<Rightarrow> Some (WebListenNotLiteral host)
      | Some ip \<Rightarrow>
          guard (is_multicast ip \<or> is_unspecified ip \<and> host \<noteq> ''0.0.0.0'' \<and> host \<noteq> ''::'')
            (WebListenInvalid host) None)"

definition isAbs :: "string \<Rightarrow> bool" where
  "isAbs path \<longleftrightarrow> has_prefix ''/'' path"

text \<open>A check of each whitelist prefix, with the panic of \<^verbatim>\<open>MustParsePrefix\<close> written out.\<close>

definition check_whitelist_bits :: "(prefix \<Rightarrow> config_error option) \<Rightarrow> string \<Rightarrow> config_error option" where
  "check_whitelist_bits f raw =
     (case parse_prefix raw of None \<Rightarrow> Some (WhitelistPanic raw) | Some p \<Rightarrow> f p)"

definition validateWeb :: "web_config \<Rightarrow> config_error option" where
  "validateWeb web =
     guard (w_Port web < 1 \<or> 65535 < w_Port web) WebPortRange
     (try_err (first_err check_web_host [w_ListenIPv4 web, w_ListenIPv6 web])
     (guard (w_TLSCertFile web = [] \<and> w_TLSKeyFile web = [] \<and> webHasNonLoopbackListener web
             \<and> \<not> w_AllowInsecureHTTP web) InsecureListener
     (case NormalizeWhitelist (w_Whitelist web) of
        Inl e \<Rightarrow> Some e
      | Inr normalized \<Rightarrow>
          let cert = trim_space (w_TLSCertFile web); key = trim_space (w_TLSKeyFile web) in
          guard (w_RequireHTTPS web \<and> (cert = [] \<or> key = [] \<or> w_AllowInsecureHTTP web)) HTTPSRequired
          (guard ((cert = []) \<noteq> (key = [])) TLSPairIncomplete
          (guard (w_TLSMinVersion web \<notin> {[], ''1.2'', ''1.3''}) TLSMinVersionUnknown
          (guard (cert \<noteq> [] \<and> \<not> isAbs cert) (TLSPathNotAbsolute ''certificate'')
          (guard (key \<noteq> [] \<and> \<not> isAbs key) (TLSPathNotAbsolute ''key'')
          (try_err
            (first_err (\<lambda>raw. check_whitelist_bits
               (\<lambda>p. guard (pbits p = 0 \<and> \<not> w_AllowUnsafeAllACL web) (WhitelistAllAddresses raw) None) raw)
               normalized)
          (if \<not> w_StrictIPAllowlist web then None
           else
             guard (w_AutoLANACL web) StrictWithAutoLAN
             (guard (normalized = []) StrictNeedsWhitelist
             (guard (cert = []) StrictNeedsTLS
             (first_err (\<lambda>raw. check_whitelist_bits
                (\<lambda>p. guard (pbits p = 0) (StrictAllAddresses raw) None) raw) normalized)))))))))))) "

definition validateLimits :: "resource_limits \<Rightarrow> config_error option" where
  "validateLimits lim =
     guard (l_MaxTCPConnections lim < 1 \<or> 1000000 < l_MaxTCPConnections lim) LimitTCPRange
     (guard (l_MaxUDPSessions lim < 1 \<or> 10000000 < l_MaxUDPSessions lim) LimitUDPRange
     (guard (l_MaxUDPMemoryBytes lim < 64 * 1024 * 1024 \<or> 2 ^ 40 < l_MaxUDPMemoryBytes lim)
        LimitUDPMemoryRange None))"

section \<open>Rules\<close>

definition check_rule_names :: "rule \<Rightarrow> config_error option" where
  "check_rule_names r =
     guard (r_Name r = []) (RuleError (r_ID r) NameEmpty)
     (guard (80 < length (r_Name r)) (RuleError (r_ID r) NameTooLong)
     (guard (128 < length (r_ID r)) RuleIDTooLong
     (guard (r_Protocol r \<notin> {ProtocolTCP, ProtocolUDP, ProtocolBoth}) (RuleError (r_ID r) ProtocolUnknown)
     (guard (r_DataPlane r \<notin> {RuleDataPlaneNFT, RuleDataPlaneGo}) (RuleError (r_ID r) DataPlaneUnknown)
      None))))"

definition check_rule_ports :: "rule \<Rightarrow> rule_problem option" where
  "check_rule_ports r =
     (let listen_end = LastListenPort r; target_end = LastTargetPort r in
      guard (r_ListenPort r < 1 \<or> 65535 < r_ListenPort r \<or> listen_end < 1 \<or> 65535 < listen_end
             \<or> r_TargetPort r < 1 \<or> 65535 < r_TargetPort r \<or> target_end < 1 \<or> 65535 < target_end) PortRange
      (guard (listen_end < r_ListenPort r) ListenRangeOrder
      (guard (target_end < r_TargetPort r) TargetRangeOrder
      (guard (listen_end - r_ListenPort r \<noteq> target_end - r_TargetPort r) RangeSizeMismatch
      (guard (MaxPortRangeSize < listen_end - r_ListenPort r + 1) RangeTooLarge
      (guard (r_TargetHost r = []) TargetHostEmpty
      (guard (253 < length (r_TargetHost r)) TargetHostTooLong
      (guard (r_DNSCacheTTLSeconds r < 1 \<or> 3600 < r_DNSCacheTTLSeconds r) DNSCacheRange
       None))))))))"

text \<open>
  The bound on the backup port adds 64-bit integers, and only the two listener ports are known to be
  small at that point: the sum wraps.
\<close>

definition check_rule_backup :: "rule \<Rightarrow> rule_problem option" where
  "check_rule_backup r =
     (if r_BackupTargetHost r = [] then guard (r_BackupTargetPort r \<noteq> 0) BackupPortWithoutHost None
      else
        guard (r_Protocol r \<noteq> ProtocolTCP \<or> r_DataPlane r \<noteq> RuleDataPlaneGo) BackupNeedsGoTCP
        (guard (253 < length (r_BackupTargetHost r) \<or> r_BackupTargetPort r < 1
                \<or> 65535 < wrap64 (wrap64 (r_BackupTargetPort r + LastListenPort r) - r_ListenPort r))
           BackupInvalid
        (case parse_addr (r_BackupTargetHost r) of
           None \<Rightarrow> None
         | Some address \<Rightarrow> map_option BackupTarget (ValidateTargetAddress r address))))"

text \<open>The connect-check endpoints a rule adds to the configuration-wide count.\<close>

definition rule_health_endpoints :: "rule \<Rightarrow> int" where
  "rule_health_endpoints r =
     (if r_TCPHealthIntervalSeconds r = 0 then 0
      else (LastListenPort r - r_ListenPort r + 1) * (if r_ListenHost r = ''*'' then 2 else 1))"

definition check_rule_health :: "rule \<Rightarrow> int \<Rightarrow> config_error option" where
  "check_rule_health r so_far =
     (if r_TCPHealthIntervalSeconds r \<noteq> 0 then
        guard (r_Protocol r \<noteq> ProtocolTCP \<or> r_DataPlane r \<noteq> RuleDataPlaneGo
               \<or> r_TCPHealthIntervalSeconds r < 5 \<or> 3600 < r_TCPHealthIntervalSeconds r
               \<or> r_TCPHealthTimeoutSeconds r < 1 \<or> 30 < r_TCPHealthTimeoutSeconds r)
          (RuleError (r_ID r) HealthInvalid)
        (guard (256 < so_far + rule_health_endpoints r) TooManyHealthEndpoints None)
      else guard (r_TCPHealthTimeoutSeconds r \<noteq> 0) (RuleError (r_ID r) HealthTimeoutWithoutInterval) None)"

definition check_rule_listen_host :: "rule \<Rightarrow> rule_problem option" where
  "check_rule_listen_host r =
     (if r_ListenHost r = ''*'' then None
      else case parse_addr (r_ListenHost r) of
        None \<Rightarrow> Some ListenHostInvalid
      | Some ip \<Rightarrow> guard (is_multicast ip) ListenHostMulticast None)"

definition check_rule_limits :: "resource_limits \<Rightarrow> rule \<Rightarrow> rule_problem option" where
  "check_rule_limits lim r =
     guard (r_ConnectTimeoutSeconds r < 1 \<or> 300 < r_ConnectTimeoutSeconds r) ConnectTimeoutRange
     (guard (r_TCPIdleTimeoutSeconds r < 5 \<or> 86400 < r_TCPIdleTimeoutSeconds r) TCPIdleRange
     (guard (r_MaxTCPConnections r < 1 \<or> l_MaxTCPConnections lim < r_MaxTCPConnections r)
        (MaxTCPRange (l_MaxTCPConnections lim))
     (guard (r_MaxTCPConnectionsPerIP r < 1 \<or> r_MaxTCPConnections r < r_MaxTCPConnectionsPerIP r)
        (PerSourceTCPRange (r_MaxTCPConnections r))
     (guard (r_UDPIdleTimeoutSeconds r < 5 \<or> 86400 < r_UDPIdleTimeoutSeconds r) UDPIdleRange
     (guard (r_MaxUDPSessions r < 1 \<or> 10000000 < r_MaxUDPSessions r) MaxUDPRange
     (guard (l_MaxUDPSessions lim < r_MaxUDPSessions r) (MaxUDPExceedsGlobal (l_MaxUDPSessions lim))
     (guard (r_MaxUDPSessionsPerIP r < 1 \<or> r_MaxUDPSessions r < r_MaxUDPSessionsPerIP r)
        (PerSourceUDPRange (r_MaxUDPSessions r))
     (guard (r_UDPNewSessionsPerSec r < 1 \<or> 10000000 < r_UDPNewSessionsPerSec r) UDPNewSessionRange
     (guard (r_UDPPacketsPerSec r < 1 \<or> 100000000 < r_UDPPacketsPerSec r) UDPPacketRange
     (guard (r_UDPWorkers r < 0 \<or> 128 < r_UDPWorkers r) UDPWorkersRange
     (guard (r_UDPBatchSize r < 1 \<or> 256 < r_UDPBatchSize r) UDPBatchRange
     (guard (r_UDPPacketBufferSize r < 512 \<or> 65535 < r_UDPPacketBufferSize r) UDPPacketBufferRange
     (guard (r_UDPListenerBufferBytes r < 64 * 1024 \<or> 256 * 1024 * 1024 < r_UDPListenerBufferBytes r)
        UDPListenerBufferRange
     (guard (r_UDPSessionBufferBytes r < 64 * 1024 \<or> 16 * 1024 * 1024 < r_UDPSessionBufferBytes r)
        UDPSessionBufferRange None))))))))))))))"

definition check_rule_targets :: "rule \<Rightarrow> rule_problem option" where
  "check_rule_targets r =
     (case NormalizeTargetCIDRs (r_TargetCIDRAllowlist r) of
        Inl e \<Rightarrow> Some (TargetCIDRs e)
      | Inr normalized \<Rightarrow>
          guard (r_AllowPrivateTarget r \<and> normalized = []) PrivateWithoutAllowlist
          (case parse_addr (r_TargetHost r) of
             None \<Rightarrow> None
           | Some address \<Rightarrow> map_option TargetAddress (ValidateTargetAddress r address)))"

definition rule_err :: "rule \<Rightarrow> rule_problem option \<Rightarrow> config_error option" where
  "rule_err r p = map_option (RuleError (r_ID r)) p"

text \<open>The loop: position, identifiers seen, and connect-check endpoints so far.\<close>

fun validateRules_from ::
    "resource_limits \<Rightarrow> nat \<Rightarrow> string list \<Rightarrow> int \<Rightarrow> rule list \<Rightarrow> config_error option" where
  "validateRules_from lim i seen health [] = None"
| "validateRules_from lim i seen health (raw # rules) =
     (let r = NormalizeRule raw in
      guard (r_ID r = []) (RuleIDEmpty i)
      (guard (r_ID r \<in> set seen) (RuleIDDuplicate (r_ID r))
      (try_err (check_rule_names r)
      (try_err (rule_err r (check_rule_ports r))
      (try_err (rule_err r (check_rule_backup r))
      (try_err (check_rule_health r health)
      (try_err (rule_err r (check_rule_listen_host r))
      (try_err (rule_err r (check_rule_limits lim r))
      (try_err (rule_err r (check_rule_targets r))
      (validateRules_from lim (Suc i) (r_ID r # seen) (health + rule_health_endpoints r) rules))))))))))"

section \<open>Conflicts between listeners\<close>

definition protocolsOverlap :: "string \<Rightarrow> string \<Rightarrow> bool" where
  "protocolsOverlap a b \<longleftrightarrow> a = b \<or> a = ProtocolBoth \<or> b = ProtocolBoth"

definition portRangesOverlap :: "rule \<Rightarrow> rule \<Rightarrow> bool" where
  "portRangesOverlap a b \<longleftrightarrow> r_ListenPort a \<le> LastListenPort b \<and> r_ListenPort b \<le> LastListenPort a"

definition listenHostsOverlap :: "string \<Rightarrow> string \<Rightarrow> bool" where
  "listenHostsOverlap a b \<longleftrightarrow>
     (if a = ''*'' \<or> b = ''*'' then True
      else case (parse_addr a, parse_addr b) of
        (Some ia, Some ib) \<Rightarrow>
          if bit_len ia \<noteq> bit_len ib then False
          else ia = ib \<or> is_unspecified ia \<or> is_unspecified ib
      | _ \<Rightarrow> False)"

definition rules_conflict :: "rule \<Rightarrow> rule \<Rightarrow> bool" where
  "rules_conflict a b \<longleftrightarrow>
     r_Enabled b \<and> protocolsOverlap (r_Protocol a) (r_Protocol b) \<and> portRangesOverlap a b
     \<and> listenHostsOverlap (r_ListenHost a) (r_ListenHost b)"

fun validateRuleConflicts :: "rule list \<Rightarrow> config_error option" where
  "validateRuleConflicts [] = None"
| "validateRuleConflicts (raw # rules) =
     (let a = NormalizeRule raw in
      try_err
        (if \<not> r_Enabled a then None
         else first_err (\<lambda>raw_b. let b = NormalizeRule raw_b in
                guard (rules_conflict a b) (RulesOverlap (r_Name a) (r_Name b)) None) rules)
        (validateRuleConflicts rules))"

definition validateRules :: "rule list \<Rightarrow> resource_limits \<Rightarrow> config_error option" where
  "validateRules rules lim =
     guard (MaxRules < length rules) TooManyRules
     (try_err (validateRules_from lim 0 [] 0 rules)
     (validateRuleConflicts rules))"

definition token_hash_ok :: "string \<Rightarrow> bool" where
  "token_hash_ok h \<longleftrightarrow> (case hex_decode h of None \<Rightarrow> False | Some bs \<Rightarrow> length bs = 32)"

definition Validate :: "config \<Rightarrow> config_error option" where
  "Validate cfg =
     guard (c_Version cfg \<noteq> CurrentVersion) (UnsupportedVersion (c_Version cfg))
     (try_err (validateWeb (c_Web cfg))
     (try_err (validateLimits (c_Limits cfg))
     (guard (n_ConntrackMark (c_NFT cfg) = 0) ConntrackMarkZero
     (guard (w_AdminTokenSHA (c_Web cfg) \<noteq> [] \<and> \<not> token_hash_ok (w_AdminTokenSHA (c_Web cfg)))
        AdminTokenHashInvalid
     (guard (w_MonitorTokenSHA (c_Web cfg) \<noteq> [] \<and> \<not> token_hash_ok (w_MonitorTokenSHA (c_Web cfg)))
        MonitorTokenHashInvalid
     (try_err (err_of (NormalizeDNSServers (w_DNSServers (c_Web cfg))))
     (validateRules (c_Rules cfg) (c_Limits cfg))))))))"

end
