(* ===== verification/Config_Normal_Forms.thy ===== *)
theory Config_Normal_Forms
  imports Config_Validate
begin

text \<open>
  Normal forms of the configuration: a normalised whitelist or target CIDR list is sorted, free of
  duplicates, made of canonical prefixes, normal again, and permits exactly the addresses of the
  original entries.  So re-parsing a normalised entry never fails.
\<close>

unbundle bit_operations_syntax

section \<open>Canonical prefixes\<close>

definition canonical :: "prefix \<Rightarrow> bool" where
  "canonical p \<longleftrightarrow> prefix_ok p \<and> masked p = p \<and> \<not> is4in6 (paddr p)"

lemma masked_4in6:
  assumes "prefix_ok p" and "is4in6 (paddr (masked p))"
  shows "is4in6 (paddr p)"
proof (cases "paddr p")
  case (IP6 w z)
  let ?k = "128 - nat (pbits p)"
  from assms IP6 have eq: "drop_bit 32 (push_bit ?k (drop_bit ?k w)) = 0xFFFF"
    by (auto simp: masked_def prefix_ok_def prefix_from_def is_valid_def)
  have "\<not> 32 < ?k"
  proof
    assume k: "32 < ?k"
    have "bit (drop_bit 32 (push_bit ?k (drop_bit ?k w))) 0"
      unfolding eq by simp
    with k show False by (auto simp: bit_simps)
  qed
  then have "drop_bit 32 (push_bit ?k (drop_bit ?k w)) = drop_bit 32 w"
    by (intro bit_word_eqI) (auto simp: bit_simps dest: bit_imp_le_length)
  with eq IP6 show ?thesis by simp
qed (use assms in \<open>auto simp: masked_def prefix_ok_def prefix_from_def no_prefix_def is_valid_def\<close>)

lemma canonical_masked: "prefix_ok p \<Longrightarrow> \<not> is4in6 (paddr p) \<Longrightarrow> canonical (masked p)"
  using masked_4in6 by (auto simp: canonical_def masked_facts masked_idem)

lemma canonical_single:
  assumes "is_valid a" and "\<not> is4in6 a"
  shows "canonical (prefix_from a (if is4 a then 32 else 128))"
  using assms
  by (cases a) (auto simp: canonical_def prefix_ok_def prefix_from_def masked_def is_valid_def)

text \<open>The canonical prefix an entry stands for, once normalised.\<close>

definition canonical_text :: "string \<Rightarrow> bool" where
  "canonical_text s \<longleftrightarrow> (\<exists>p. canonical p \<and> s = prefix_string p)"

lemma canonical_text_parse: "canonical_text s \<Longrightarrow> \<exists>p. parse_prefix s = Some p \<and> canonical p"
  by (auto simp: canonical_text_def canonical_def parse_prefix_string)

lemma whitelist_entry_canonical:
  "whitelist_entry raw = Inr (Some s) \<Longrightarrow> canonical_text s"
  by (auto simp: whitelist_entry_def Let_def canonical_text_def
      dest!: parse_prefix_ok dest: parse_addr_valid canonical_masked split: if_splits option.splits
      intro!: exI canonical_single[of "unmap _", simplified])


lemma target_cidr_entry_canonical:
  "target_cidr_entry raw = Inr (Some s) \<Longrightarrow> \<exists>p. canonical p \<and> pbits p \<noteq> 0 \<and> s = prefix_string p"
  by (auto simp: target_cidr_entry_def Let_def dest!: parse_prefix_ok dest: canonical_masked
      split: if_splits option.splits)

lemma whitelist_entry_id: "canonical_text s \<Longrightarrow> whitelist_entry s = Inr (Some s)"
  by (auto simp: canonical_text_def canonical_def whitelist_entry_def trim_prefix_string
      prefix_string_nonempty parse_addr_prefix_string parse_prefix_string)

lemma target_cidr_entry_id:
  "canonical p \<Longrightarrow> pbits p \<noteq> 0 \<Longrightarrow> target_cidr_entry (prefix_string p) = Inr (Some (prefix_string p))"
  by (auto simp: canonical_def target_cidr_entry_def trim_prefix_string prefix_string_nonempty
      parse_prefix_string)

section \<open>Normalised lists\<close>

text \<open>
  Both list normalisers have one shape: collect the entries, drop duplicates, sort, and bound the
  number.  The contract is stated once and proved for any entry function whose results are fixed by it.
\<close>

locale list_normaliser =
  fixes entry :: "string \<Rightarrow> 'e + string option"
    and bound :: nat
    and too_many :: 'e
    and denotes :: "string \<Rightarrow> 'x \<Rightarrow> bool"
  assumes entry_fixed: "entry raw = Inr (Some s) \<Longrightarrow> entry s = Inr (Some s)"
    and entry_denotes: "entry raw = Inr (Some s) \<Longrightarrow> denotes s a = denotes raw a"
    and entry_skip: "entry raw = Inr None \<Longrightarrow> \<not> denotes raw a"
begin

definition normalise :: "string list \<Rightarrow> 'e + string list" where
  "normalise items =
     rbind (collect entry items)
       (\<lambda>entries. let out = sort (remdups entries) in if bound < length out then Inl too_many else Inr out)"

lemma normalise_members:
  "normalise items = Inr out \<Longrightarrow> set out = {s. \<exists>raw\<in>set items. entry raw = Inr (Some s)}"
  by (auto simp: normalise_def Let_def dest!: collect_set split: if_splits)

lemma normalise_sorted: "normalise items = Inr out \<Longrightarrow> sorted out \<and> distinct out \<and> length out \<le> bound"
  by (auto simp: normalise_def Let_def split: if_splits)

lemma normalise_idem:
  assumes "normalise items = Inr out"
  shows "normalise out = Inr out"
proof -
  have "\<And>s. s \<in> set out \<Longrightarrow> entry s = Inr (Some s)"
    using normalise_members[OF assms] entry_fixed by auto
  then have "collect entry out = Inr (map (\<lambda>s. s) out)" by (intro collect_map)
  with normalise_sorted[OF assms] show ?thesis
    by (simp add: normalise_def distinct_remdups_id sorted_sort_id)
qed

lemma normalise_denotes:
  assumes "normalise items = Inr out"
  shows "(\<exists>s\<in>set out. denotes s a) \<longleftrightarrow> (\<exists>raw\<in>set items. denotes raw a)"
proof
  assume "\<exists>s\<in>set out. denotes s a"
  then show "\<exists>raw\<in>set items. denotes raw a"
    using normalise_members[OF assms] entry_denotes by auto
next
  assume "\<exists>raw\<in>set items. denotes raw a"
  then obtain raw where raw: "raw \<in> set items" "denotes raw a" by blast
  from assms obtain entries where "collect entry items = Inr entries" by (auto simp: normalise_def)
  with raw(1) obtain v where v: "entry raw = Inr v" by (blast dest: collect_no_error)
  with raw(2) obtain s where "v = Some s" using entry_skip by (cases v) auto
  with v raw show "\<exists>s\<in>set out. denotes s a"
    using normalise_members[OF assms] entry_denotes by blast
qed

end

text \<open>What an entry of either list permits: a single address, or the addresses of a prefix.\<close>

definition entry_permits :: "string \<Rightarrow> addr \<Rightarrow> bool" where
  "entry_permits raw a \<longleftrightarrow>
     (let s = trim_space raw in
      s \<noteq> [] \<and>
      (case parse_addr s of
         Some ip \<Rightarrow> a = without_zone (unmap ip)
       | None \<Rightarrow> (case parse_prefix s of Some p \<Rightarrow> prefix_contains p a | None \<Rightarrow> False)))"

text \<open>What an entry of a target CIDR list permits: a prefix only.\<close>

definition cidr_permits :: "string \<Rightarrow> addr \<Rightarrow> bool" where
  "cidr_permits raw a \<longleftrightarrow>
     (let s = trim_space raw in
      s \<noteq> [] \<and> (case parse_prefix s of Some p \<Rightarrow> prefix_contains p a | None \<Rightarrow> False))"

lemma xor_zero_iff: "v XOR w = 0 \<longleftrightarrow> v = (w :: 'a::len word)"
  by (metis xor.assoc xor.left_neutral xor.right_neutral xor_self_eq)

lemma prefix_contains_single:
  assumes "is_valid u" and "\<not> is4in6 u"
  shows "prefix_contains (prefix_from u (if is4 u then 32 else 128)) a \<longleftrightarrow> a = without_zone u"
  using assms
  by (cases u; cases a) (auto simp: prefix_contains_def prefix_from_def prefix_valid_def is_valid_def xor_zero_iff)

lemma entry_permits_canonical:
  "canonical p \<Longrightarrow> entry_permits (prefix_string p) a = prefix_contains p a"
  by (simp add: entry_permits_def canonical_def trim_prefix_string prefix_string_nonempty
      parse_addr_prefix_string parse_prefix_string)

lemma cidr_permits_canonical:
  "canonical p \<Longrightarrow> cidr_permits (prefix_string p) a = prefix_contains p a"
  by (simp add: cidr_permits_def canonical_def trim_prefix_string prefix_string_nonempty
      parse_prefix_string)

lemma whitelist_entry_permits:
  assumes "whitelist_entry raw = Inr (Some s)"
  shows "entry_permits s a = entry_permits raw a"
proof (cases "parse_addr (trim_space raw)")
  case (Some ip)
  let ?p = "prefix_from (unmap ip) (if is4 (unmap ip) then 32 else 128)"
  have valid: "is_valid (unmap ip)" using parse_addr_valid[OF Some] by simp
  from assms Some have s: "s = prefix_string ?p" and ne: "trim_space raw \<noteq> []"
    by (auto simp: whitelist_entry_def Let_def split: if_splits)
  have "canonical ?p" using valid by (intro canonical_single) simp_all
  then have "entry_permits s a = prefix_contains ?p a" unfolding s by (rule entry_permits_canonical)
  also have "\<dots> \<longleftrightarrow> a = without_zone (unmap ip)" using valid by (intro prefix_contains_single) simp_all
  finally show ?thesis using Some ne by (simp add: entry_permits_def)
next
  case None
  with assms obtain p where p: "parse_prefix (trim_space raw) = Some p" "\<not> is4in6 (paddr p)"
    and s: "s = prefix_string (masked p)" and ne: "trim_space raw \<noteq> []"
    by (auto simp: whitelist_entry_def Let_def split: if_splits option.splits)
  have ok: "prefix_ok p" using p(1) by (rule parse_prefix_ok)
  then have "entry_permits s a = prefix_contains p a"
    unfolding s using p by (simp add: entry_permits_canonical canonical_masked prefix_contains_masked)
  with None p ne show ?thesis by (simp add: entry_permits_def)
qed

lemma target_cidr_entry_permits:
  assumes "target_cidr_entry raw = Inr (Some s)"
  shows "cidr_permits s a = cidr_permits raw a"
proof -
  from assms obtain p where p: "parse_prefix (trim_space raw) = Some p" "\<not> is4in6 (paddr p)"
    and s: "s = prefix_string (masked p)" and ne: "trim_space raw \<noteq> []"
    by (auto simp: target_cidr_entry_def Let_def split: if_splits option.splits)
  have ok: "prefix_ok p" using p(1) by (rule parse_prefix_ok)
  then have "cidr_permits s a = prefix_contains p a"
    unfolding s using p by (simp add: cidr_permits_canonical canonical_masked prefix_contains_masked)
  with p ne show ?thesis by (simp add: cidr_permits_def)
qed

interpretation whitelist: list_normaliser whitelist_entry MaxWhitelistEntries WhitelistTooMany entry_permits
  rewrites "list_normaliser.normalise whitelist_entry MaxWhitelistEntries WhitelistTooMany = NormalizeWhitelist"
proof -
  show "list_normaliser whitelist_entry entry_permits"
  proof
    fix raw s a
    show "whitelist_entry raw = Inr (Some s) \<Longrightarrow> whitelist_entry s = Inr (Some s)"
      by (blast intro: whitelist_entry_id whitelist_entry_canonical)
    show "whitelist_entry raw = Inr (Some s) \<Longrightarrow> entry_permits s a = entry_permits raw a"
      by (rule whitelist_entry_permits)
    show "whitelist_entry raw = Inr None \<Longrightarrow> \<not> entry_permits raw a"
      by (auto simp: whitelist_entry_def entry_permits_def Let_def split: if_splits option.splits)
  qed
  then show "list_normaliser.normalise whitelist_entry MaxWhitelistEntries WhitelistTooMany = NormalizeWhitelist"
    by (simp add: fun_eq_iff list_normaliser.normalise_def NormalizeWhitelist_def)
qed

interpretation target_cidrs: list_normaliser target_cidr_entry 64 CIDRTooMany cidr_permits
  rewrites "list_normaliser.normalise target_cidr_entry 64 CIDRTooMany = NormalizeTargetCIDRs"
proof -
  show "list_normaliser target_cidr_entry cidr_permits"
  proof
    fix raw s a
    show "target_cidr_entry raw = Inr (Some s) \<Longrightarrow> target_cidr_entry s = Inr (Some s)"
      by (auto dest!: target_cidr_entry_canonical intro: target_cidr_entry_id)
    show "target_cidr_entry raw = Inr (Some s) \<Longrightarrow> cidr_permits s a = cidr_permits raw a"
      by (rule target_cidr_entry_permits)
    show "target_cidr_entry raw = Inr None \<Longrightarrow> \<not> cidr_permits raw a"
      by (auto simp: target_cidr_entry_def cidr_permits_def Let_def split: if_splits option.splits)
  qed
  then show "list_normaliser.normalise target_cidr_entry 64 CIDRTooMany = NormalizeTargetCIDRs"
    by (simp add: fun_eq_iff list_normaliser.normalise_def NormalizeTargetCIDRs_def)
qed

text \<open>Every normalised entry parses to a canonical prefix.\<close>

lemma NormalizeWhitelist_canonical:
  "NormalizeWhitelist items = Inr out \<Longrightarrow> s \<in> set out \<Longrightarrow> \<exists>p. parse_prefix s = Some p \<and> canonical p"
  by (auto dest!: whitelist.normalise_members whitelist_entry_canonical canonical_text_parse)

lemma NormalizeTargetCIDRs_canonical:
  assumes "NormalizeTargetCIDRs items = Inr out" and "s \<in> set out"
  shows "\<exists>p. parse_prefix s = Some p \<and> canonical p \<and> pbits p \<noteq> 0 \<and> s = prefix_string p"
proof -
  from assms obtain raw where "target_cidr_entry raw = Inr (Some s)"
    using target_cidrs.normalise_members by blast
  then obtain p where "canonical p" "pbits p \<noteq> 0" "s = prefix_string p"
    using target_cidr_entry_canonical by blast
  then show ?thesis by (auto simp: canonical_def parse_prefix_string)
qed

end
