(* ===== verification/Config_Policy.thy ===== *)
theory Config_Policy
  imports Config_Normal_Forms
begin

text \<open>
  What \<^verbatim>\<open>ValidateTargetAddress\<close> promises: the addresses it accepts are exactly those of an independent
  description of the destination policy, and without the explicit permission they lie outside the
  loopback, link-local, private and shared ranges.
\<close>

unbundle bit_operations_syntax

section \<open>The policy as a predicate\<close>

definition unicast_target :: "addr \<Rightarrow> bool" where
  "unicast_target a \<longleftrightarrow>
     is_valid a \<and> \<not> is_unspecified a \<and> \<not> is_multicast a
     \<and> (is_global_unicast a \<or> is_loopback a \<or> is_link_local_unicast a)"

definition target_permitted :: "rule \<Rightarrow> addr \<Rightarrow> bool" where
  "target_permitted rl address \<longleftrightarrow>
     unicast_target (unmap address) \<and>
     (restricted_target (unmap address) \<longrightarrow>
        r_AllowPrivateTarget rl
        \<and> err_of (NormalizeTargetCIDRs (r_TargetCIDRAllowlist rl)) = None
        \<and> (\<exists>raw\<in>set (r_TargetCIDRAllowlist rl). cidr_permits raw (unmap address)))"

lemma allowlist_permits_None:
  assumes "\<And>s. s \<in> set out \<Longrightarrow> \<exists>p. parse_prefix s = Some p \<and> canonical p \<and> s = prefix_string p"
  shows "allowlist_permits out a = None \<longleftrightarrow> (\<exists>s\<in>set out. cidr_permits s a)"
  using assms
proof (induction out)
  case Nil
  then show ?case by simp
next
  case (Cons s out)
  from Cons.prems[of s] obtain p where "parse_prefix s = Some p" "canonical p" "s = prefix_string p" by auto
  then have "parse_prefix s = Some p" and "cidr_permits s a = prefix_contains p a"
    using cidr_permits_canonical by auto
  with Cons show ?case by auto
qed

lemma allowlist_permits_iff:
  assumes "NormalizeTargetCIDRs items = Inr out"
  shows "allowlist_permits out a = None \<longleftrightarrow> (\<exists>raw\<in>set items. cidr_permits raw a)"
proof -
  have "allowlist_permits out a = None \<longleftrightarrow> (\<exists>s\<in>set out. cidr_permits s a)"
    using NormalizeTargetCIDRs_canonical[OF assms] by (intro allowlist_permits_None) blast
  then show ?thesis by (simp only: target_cidrs.normalise_denotes[OF assms])
qed

lemma ValidateTargetAddress_policy:
  "ValidateTargetAddress rl a = None \<longleftrightarrow> target_permitted rl a"
  by (cases "NormalizeTargetCIDRs (r_TargetCIDRAllowlist rl)")
    (auto simp: ValidateTargetAddress_def target_permitted_def unicast_target_def Let_def
      allowlist_permits_iff)

lemma ValidateTargetAddress_unmap: "ValidateTargetAddress rl (unmap a) = ValidateTargetAddress rl a"
  by (simp add: ValidateTargetAddress_def)

text \<open>The allowlist loop never reaches an entry that does not parse.\<close>

lemma allowlist_permits_no_panic:
  assumes "\<And>s. s \<in> set out \<Longrightarrow> \<exists>p. parse_prefix s = Some p"
  shows "allowlist_permits out a \<in> {None, Some (OutsideAllowlist a)}"
  using assms
proof (induction out)
  case (Cons s out)
  from Cons.prems[of s] obtain p where "parse_prefix s = Some p" by auto
  with Cons show ?case by (cases "prefix_contains p a") auto
qed simp

lemma ValidateTargetAddress_no_panic: "ValidateTargetAddress rl a \<noteq> Some (PrefixPanic s)"
proof (cases "NormalizeTargetCIDRs (r_TargetCIDRAllowlist rl)")
  case (Inr out)
  have "allowlist_permits out (unmap a) \<in> {None, Some (OutsideAllowlist (unmap a))}"
    using NormalizeTargetCIDRs_canonical[OF Inr] by (intro allowlist_permits_no_panic) blast
  with Inr show ?thesis by (auto simp: ValidateTargetAddress_def Let_def guard_def)
qed (simp add: ValidateTargetAddress_def Let_def guard_def)

section \<open>The ranges of IPv4\<close>

lemma octet_div:
  "octet w 0 = unat w div 2 ^ 24" "octet w (Suc 0) = unat w div 2 ^ 16 mod 256"
  "octet w 2 = unat w div 2 ^ 8 mod 256"
proof -
  have "unat w < 2 ^ 32" using unsigned_less[of w, where 'a = nat] by simp
  then have "unat w div 2 ^ 24 < 256" by (intro less_mult_imp_div_less) simp
  then show "octet w 0 = unat w div 2 ^ 24" by (simp add: octet_nat)
qed (simp_all add: octet_nat)

lemma ipv4_prefix_contains:
  assumes "0 \<le> b"
  shows "prefix_contains (Prefix (IP4 v) b) (IP4 w) \<longleftrightarrow>
         unat v div 2 ^ (32 - nat b) = unat w div 2 ^ (32 - nat b)"
proof -
  have "drop_bit n (v XOR w) = 0 \<longleftrightarrow> unat (drop_bit n v) = unat (drop_bit n w)" for n
    unfolding drop_bit_xor xor_zero_iff by (simp only: word_unat_eq_iff)
  moreover have "unat (drop_bit n u) = unat u div 2 ^ n" for n and u :: "32 word"
    unfolding unsigned_drop_bit_eq take_bit_unat by (rule drop_bit_eq_div)
  ultimately show ?thesis using assms
    by (simp only: prefix_contains_def prefix_valid_def prefix.sel zone.simps addr.case prod.case simp_thms)
qed

lemma div_range: "0 < k \<Longrightarrow> x div k = c \<longleftrightarrow> c * k \<le> x \<and> x < (c + 1) * (k::nat)"
  by (metis Suc_eq_plus1 div_nat_eqI dividend_less_times_div div_times_less_eq_dividend mult.commute mult_Suc_right)

lemma div_mod_range: "0 < k \<Longrightarrow> x div k = b \<and> x mod k = c \<longleftrightarrow> c < k \<and> x = b * k + (c::nat)"
  by auto

lemma octet_ranges:
  fixes w :: "32 word"
  defines "x \<equiv> unat w"
  shows "octet w 0 = 127 \<longleftrightarrow> x \<in> {0x7F000000..0x7FFFFFFF}"
    and "octet w 0 = 10 \<longleftrightarrow> x \<in> {0x0A000000..0x0AFFFFFF}"
    and "octet w 0 div 16 = 14 \<longleftrightarrow> x \<in> {0xE0000000..0xEFFFFFFF}"
    and "octet w 0 = 169 \<and> octet w (Suc 0) = 254 \<longleftrightarrow> x \<in> {0xA9FE0000..0xA9FEFFFF}"
    and "octet w 0 = 172 \<and> octet w (Suc 0) div 16 = 1 \<longleftrightarrow> x \<in> {0xAC100000..0xAC1FFFFF}"
    and "octet w 0 = 192 \<and> octet w (Suc 0) = 168 \<longleftrightarrow> x \<in> {0xC0A80000..0xC0A8FFFF}"
proof -
  have o0: "octet w 0 = x div 16777216" and o1: "octet w (Suc 0) = x div 65536 mod 256"
    by (simp_all add: octet_div x_def)
  have o0': "octet w 0 = x div 65536 div 256" by (simp add: o0 div_mult2_eq[symmetric])
  have o0'': "octet w 0 = x div 1048576 div 16" by (simp add: o0 div_mult2_eq[symmetric])
  have o1': "octet w (Suc 0) div 16 = x div 1048576 mod 16"
  proof -
    have "y mod 256 div 16 = y div 16 mod (16::nat)" for y
      using mod_mult2_eq[of y 16 16] by simp
    then show ?thesis by (simp add: o1 div_mult2_eq[symmetric])
  qed
  note r = div_range[of 16777216 x] div_range[of 65536 x] div_range[of 1048576 x] div_range[of 268435456 x]
  show "octet w 0 = 127 \<longleftrightarrow> x \<in> {0x7F000000..0x7FFFFFFF}" by (simp add: o0 r, linarith)
  show "octet w 0 = 10 \<longleftrightarrow> x \<in> {0x0A000000..0x0AFFFFFF}" by (simp add: o0 r, linarith)
  have "octet w 0 div 16 = x div 268435456" by (simp add: o0 div_mult2_eq[symmetric])
  then show "octet w 0 div 16 = 14 \<longleftrightarrow> x \<in> {0xE0000000..0xEFFFFFFF}" by (simp add: r, linarith)
  have pair: "octet w 0 = b \<and> octet w (Suc 0) = c \<longleftrightarrow> c < 256 \<and> x div 65536 = b * 256 + c" for b c
    unfolding o0' o1 by (rule div_mod_range) simp
  show "octet w 0 = 169 \<and> octet w (Suc 0) = 254 \<longleftrightarrow> x \<in> {0xA9FE0000..0xA9FEFFFF}"
    unfolding pair by (simp add: r, linarith)
  show "octet w 0 = 192 \<and> octet w (Suc 0) = 168 \<longleftrightarrow> x \<in> {0xC0A80000..0xC0A8FFFF}"
    unfolding pair by (simp add: r, linarith)
  have half: "octet w 0 = b \<and> octet w (Suc 0) div 16 = c \<longleftrightarrow> c < 16 \<and> x div 1048576 = b * 16 + c" for b c
    unfolding o0'' o1' by (rule div_mod_range) simp
  show "octet w 0 = 172 \<and> octet w (Suc 0) div 16 = 1 \<longleftrightarrow> x \<in> {0xAC100000..0xAC1FFFFF}"
    unfolding half by (simp add: r, linarith)
qed

text \<open>The first two ranges of \<open>restrictedTargetPrefixes\<close>; the second is a single address.\<close>

lemma restricted_prefix_ranges:
  "list_ex (\<lambda>p. prefix_contains p (IP4 w)) restrictedTargetPrefixes \<longleftrightarrow>
   unat w \<in> {0x64400000..0x647FFFFF}"
proof -
  have "prefix_contains (Prefix (IP4 0x64400000) 10) (IP4 w) \<longleftrightarrow> unat w div 4194304 = 401"
    by (auto simp: ipv4_prefix_contains)
  moreover have "prefix_contains (Prefix (IP4 0x646464C8) 32) (IP4 w) \<longleftrightarrow> unat w = 0x646464C8"
    by (auto simp: ipv4_prefix_contains)
  moreover have "unat w div 4194304 = 401 \<longleftrightarrow> unat w \<in> {0x64400000..0x647FFFFF}"
    by (simp add: div_range) linarith
  ultimately show ?thesis by (simp add: restrictedTargetPrefixes_def) linarith
qed

text \<open>The destinations an IPv4 target may have when the rule does not allow private targets.\<close>

definition public_ipv4 :: "nat \<Rightarrow> bool" where
  "public_ipv4 x \<longleftrightarrow>
     x \<noteq> 0 \<and> x \<noteq> 0xFFFFFFFF
     \<and> x \<notin> {0x0A000000..0x0AFFFFFF} \<and> x \<notin> {0x64400000..0x647FFFFF} \<and> x \<notin> {0x7F000000..0x7FFFFFFF}
     \<and> x \<notin> {0xA9FE0000..0xA9FEFFFF} \<and> x \<notin> {0xAC100000..0xAC1FFFFF} \<and> x \<notin> {0xC0A80000..0xC0A8FFFF}
     \<and> x \<notin> {0xE0000000..0xEFFFFFFF}"

lemma link_local_multicast_is_multicast: "is_link_local_multicast a \<Longrightarrow> is_multicast a"
  by (auto simp: is_link_local_multicast_def is_multicast_def split: addr.splits)

lemma target_permitted_ipv4:
  assumes "\<not> r_AllowPrivateTarget rl"
  shows "target_permitted rl (IP4 w) \<longleftrightarrow> public_ipv4 (unat w)"
proof -
  have z: "w = 0 \<longleftrightarrow> unat w = 0" "w = 0xFFFFFFFF \<longleftrightarrow> unat w = 0xFFFFFFFF"
    by (simp_all add: word_unat_eq_iff)
  have lb: "is_loopback (IP4 w) \<longleftrightarrow> unat w \<in> {0x7F000000..0x7FFFFFFF}"
    by (simp only: is_loopback_def unmap.simps addr.case octet_ranges)
  have mc: "is_multicast (IP4 w) \<longleftrightarrow> unat w \<in> {0xE0000000..0xEFFFFFFF}"
    by (simp only: is_multicast_def unmap.simps addr.case octet_ranges)
  have ll: "is_link_local_unicast (IP4 w) \<longleftrightarrow> unat w \<in> {0xA9FE0000..0xA9FEFFFF}"
    by (simp only: is_link_local_unicast_def unmap.simps addr.case octet_ranges One_nat_def)
  have pr: "is_private (IP4 w) \<longleftrightarrow> unat w \<in> {0x0A000000..0x0AFFFFFF} \<or> unat w \<in> {0xAC100000..0xAC1FFFFF}
      \<or> unat w \<in> {0xC0A80000..0xC0A8FFFF}"
    using octet_ranges(5)[of w] by (simp only: is_private_def unmap.simps addr.case octet_ranges One_nat_def)
  have us: "is_unspecified (IP4 w) \<longleftrightarrow> unat w = 0"
    by (simp add: is_unspecified_def ipv4_unspecified_def ipv6_unspecified_def z)
  have gu: "is_global_unicast (IP4 w) \<longleftrightarrow> unat w \<noteq> 0 \<and> unat w \<noteq> 0xFFFFFFFF \<and> \<not> is_loopback (IP4 w)
      \<and> \<not> is_multicast (IP4 w) \<and> \<not> is_link_local_unicast (IP4 w)"
    by (simp add: is_global_unicast_def Let_def ipv4_unspecified_def ipv6_unspecified_def z)
  have "target_permitted rl (IP4 w) \<longleftrightarrow> unicast_target (IP4 w) \<and> \<not> restricted_target (IP4 w)"
    using assms by (simp add: target_permitted_def)
  also have "\<dots> \<longleftrightarrow> public_ipv4 (unat w)"
    unfolding unicast_target_def restricted_target_def gu restricted_prefix_ranges
    using link_local_multicast_is_multicast[of "IP4 w"]
    by (auto simp: us pr public_ipv4_def is_valid_def lb ll mc)
  finally show ?thesis .
qed

end
