(* ===== verification/Config_Rules.thy ===== *)
theory Config_Rules
  imports Config_Policy
begin

text \<open>
  What acceptance by \<^verbatim>\<open>validateRules\<close> gives the rest of the program: every rule is inside its documented
  bounds, its port ranges map one to one, its literal targets obey the destination policy, identifiers
  are distinct, and no two enabled rules claim the same listening socket.
\<close>

section \<open>One rule\<close>

text \<open>The port of the target that a listening port is forwarded to.\<close>

definition mapped_port :: "rule \<Rightarrow> int \<Rightarrow> int" where
  "mapped_port r p = r_TargetPort r + (p - r_ListenPort r)"

definition ports_ok :: "rule \<Rightarrow> bool" where
  "ports_ok r \<longleftrightarrow>
     1 \<le> r_ListenPort r \<and> r_ListenPort r \<le> LastListenPort r \<and> LastListenPort r \<le> 65535
     \<and> 1 \<le> r_TargetPort r \<and> LastTargetPort r \<le> 65535
     \<and> LastListenPort r - r_ListenPort r = LastTargetPort r - r_TargetPort r
     \<and> LastListenPort r - r_ListenPort r < MaxPortRangeSize"

definition budgets_ok :: "resource_limits \<Rightarrow> rule \<Rightarrow> bool" where
  "budgets_ok lim r \<longleftrightarrow>
     1 \<le> r_MaxTCPConnectionsPerIP r \<and> r_MaxTCPConnectionsPerIP r \<le> r_MaxTCPConnections r
     \<and> r_MaxTCPConnections r \<le> l_MaxTCPConnections lim
     \<and> 1 \<le> r_MaxUDPSessionsPerIP r \<and> r_MaxUDPSessionsPerIP r \<le> r_MaxUDPSessions r
     \<and> r_MaxUDPSessions r \<le> l_MaxUDPSessions lim
     \<and> 0 \<le> r_UDPWorkers r \<and> r_UDPWorkers r \<le> 128
     \<and> 1 \<le> r_UDPBatchSize r \<and> r_UDPBatchSize r \<le> 256
     \<and> 512 \<le> r_UDPPacketBufferSize r \<and> r_UDPPacketBufferSize r \<le> 65535"

definition targets_ok :: "rule \<Rightarrow> bool" where
  "targets_ok r \<longleftrightarrow>
     r_TargetHost r \<noteq> []
     \<and> (\<forall>a. parse_addr (r_TargetHost r) = Some a \<longrightarrow> target_permitted r a)
     \<and> (\<forall>a. r_BackupTargetHost r \<noteq> [] \<longrightarrow> parse_addr (r_BackupTargetHost r) = Some a \<longrightarrow> target_permitted r a)
     \<and> (r_AllowPrivateTarget r \<longrightarrow>
          (\<exists>out. NormalizeTargetCIDRs (r_TargetCIDRAllowlist r) = Inr out \<and> out \<noteq> []))"

definition kind_ok :: "rule \<Rightarrow> bool" where
  "kind_ok r \<longleftrightarrow>
     r_Protocol r \<in> {ProtocolTCP, ProtocolUDP, ProtocolBoth}
     \<and> r_DataPlane r \<in> {RuleDataPlaneNFT, RuleDataPlaneGo}
     \<and> (r_BackupTargetHost r \<noteq> [] \<or> r_TCPHealthIntervalSeconds r \<noteq> 0 \<longrightarrow>
          r_Protocol r = ProtocolTCP \<and> r_DataPlane r = RuleDataPlaneGo)
     \<and> (r_ListenHost r = ''*'' \<or> (\<exists>ip. parse_addr (r_ListenHost r) = Some ip \<and> \<not> is_multicast ip))"

definition rule_ok :: "resource_limits \<Rightarrow> rule \<Rightarrow> bool" where
  "rule_ok lim r \<longleftrightarrow> kind_ok r \<and> ports_ok r \<and> budgets_ok lim r \<and> targets_ok r \<and> r_ID r \<noteq> [] \<and> r_Name r \<noteq> []"

lemma check_rule_ports_ok: "check_rule_ports r = None \<Longrightarrow> ports_ok r"
  by (auto simp: check_rule_ports_def ports_ok_def Let_def)

lemma check_rule_limits_ok: "check_rule_limits lim r = None \<Longrightarrow> budgets_ok lim r"
  by (auto simp: check_rule_limits_def budgets_ok_def)

lemma rule_err_None [simp]: "rule_err r m = None \<longleftrightarrow> m = None"
  by (simp add: rule_err_def)

lemma check_rule_targets_ok:
  assumes "check_rule_targets r = None" and "check_rule_backup r = None" and "check_rule_ports r = None"
  shows "targets_ok r"
  using assms
  by (auto simp: check_rule_targets_def check_rule_backup_def check_rule_ports_def targets_ok_def Let_def
      ValidateTargetAddress_policy[symmetric] split: sum.splits option.splits if_splits)

lemma check_rule_kind_ok:
  assumes "check_rule_names r = None" and "check_rule_backup r = None" and "check_rule_health r n = None"
    and "check_rule_listen_host r = None"
  shows "kind_ok r"
  using assms
  by (auto simp: check_rule_names_def check_rule_backup_def check_rule_health_def
      check_rule_listen_host_def kind_ok_def split: if_splits option.splits)

section \<open>All rules\<close>

lemma validateRules_from_ok:
  assumes "validateRules_from lim i seen n rules = None"
  shows "(\<forall>r\<in>set rules. rule_ok lim (NormalizeRule r))
         \<and> distinct (map r_ID rules) \<and> set (map r_ID rules) \<inter> set seen = {}"
  using assms
proof (induction rules arbitrary: i seen n)
  case (Cons raw rules)
  let ?r = "NormalizeRule raw"
  have id: "r_ID ?r = r_ID raw" by (simp add: NormalizeRule_def Let_def)
  from Cons.prems have h: "r_ID ?r \<noteq> []" "r_ID raw \<notin> set seen" "check_rule_names ?r = None"
    "check_rule_ports ?r = None" "check_rule_backup ?r = None" "check_rule_health ?r n = None"
    "check_rule_listen_host ?r = None" "check_rule_limits lim ?r = None" "check_rule_targets ?r = None"
    and rest: "validateRules_from lim (Suc i) (r_ID raw # seen) (n + rule_health_endpoints ?r) rules = None"
    by (auto simp: Let_def id)
  have "r_Name ?r \<noteq> []" using h(3) by (simp add: check_rule_names_def)
  then have "rule_ok lim ?r"
    unfolding rule_ok_def
    using h check_rule_kind_ok[OF h(3,5,6,7)] check_rule_ports_ok[OF h(4)] check_rule_limits_ok[OF h(8)]
      check_rule_targets_ok[OF h(9,5,4)] by blast
  with Cons.IH[OF rest] h show ?case by auto
qed simp

text \<open>The bound on the connect-check endpoints counts all rules.\<close>

lemma validateRules_from_health:
  "validateRules_from lim i seen n rules = None \<Longrightarrow> n \<le> 256 \<Longrightarrow>
   n + sum_list (map (rule_health_endpoints \<circ> NormalizeRule) rules) \<le> 256"
proof (induction rules arbitrary: i seen n)
  case (Cons raw rules)
  let ?r = "NormalizeRule raw"
  from Cons.prems have rest:
    "validateRules_from lim (Suc i) (r_ID ?r # seen) (n + rule_health_endpoints ?r) rules = None"
    and h: "check_rule_health ?r n = None"
    by (auto simp: Let_def)
  have "n + rule_health_endpoints ?r \<le> 256"
    using h Cons.prems(2) by (auto simp: check_rule_health_def rule_health_endpoints_def split: if_splits)
  from Cons.IH[OF rest this] show ?case by simp
qed simp

lemma mapped_port_range:
  assumes "ports_ok r" and "r_ListenPort r \<le> p" and "p \<le> LastListenPort r"
  shows "1 \<le> mapped_port r p" and "mapped_port r p \<le> LastTargetPort r" and "mapped_port r p \<le> 65535"
  using assms by (auto simp: ports_ok_def mapped_port_def)

section \<open>Sockets\<close>

text \<open>
  The addresses a listener of the rule receives packets for, with an IPv4-mapped literal read as the
  IPv4 address it stands for (as the listeners do), and the sockets the rule claims.
\<close>

definition host_claims :: "string \<Rightarrow> addr \<Rightarrow> bool" where
  "host_claims h a \<longleftrightarrow>
     is_valid a \<and>
     (h = ''*'' \<or>
      (case parse_addr h of
         None \<Rightarrow> False
       | Some ip \<Rightarrow> a = unmap ip \<or> is_unspecified (unmap ip) \<and> bit_len a = bit_len (unmap ip)))"

definition protocol_claims :: "string \<Rightarrow> string \<Rightarrow> bool" where
  "protocol_claims p q \<longleftrightarrow> q \<in> {ProtocolTCP, ProtocolUDP} \<and> (p = q \<or> p = ProtocolBoth)"

definition claims :: "rule \<Rightarrow> string \<Rightarrow> addr \<Rightarrow> int \<Rightarrow> bool" where
  "claims r proto a p \<longleftrightarrow>
     r_Enabled r \<and> protocol_claims (r_Protocol r) proto
     \<and> r_ListenPort r \<le> p \<and> p \<le> LastListenPort r \<and> host_claims (r_ListenHost r) a"

definition mapped_literal :: "string \<Rightarrow> bool" where
  "mapped_literal h \<longleftrightarrow> (case parse_addr h of None \<Rightarrow> False | Some ip \<Rightarrow> is4in6 ip)"

lemma host_claims_overlap:
  assumes "host_claims h a" and "host_claims k a" and "\<not> mapped_literal h" and "\<not> mapped_literal k"
  shows "listenHostsOverlap h k"
  using assms
  by (auto simp: host_claims_def mapped_literal_def listenHostsOverlap_def unmap_id split: option.splits)

lemma claims_conflict:
  assumes "claims a proto x p" and "claims b proto x p"
    and "\<not> mapped_literal (r_ListenHost a)" and "\<not> mapped_literal (r_ListenHost b)"
  shows "rules_conflict a b"
  using assms host_claims_overlap[of "r_ListenHost a" x "r_ListenHost b"]
  by (auto simp: claims_def rules_conflict_def protocolsOverlap_def protocol_claims_def portRangesOverlap_def)

lemma validateRuleConflicts_pairwise:
  assumes "validateRuleConflicts rules = None" and "i < j" and "j < length rules"
    and "r_Enabled (NormalizeRule (rules ! i))"
  shows "\<not> rules_conflict (NormalizeRule (rules ! i)) (NormalizeRule (rules ! j))"
  using assms
proof (induction rules arbitrary: i j)
  case (Cons raw rules)
  obtain j' where j: "j = Suc j'" using Cons.prems(2) by (cases j) auto
  show ?case
  proof (cases i)
    case 0
    with Cons.prems j show ?thesis by (auto simp: Let_def)
  next
    case (Suc i')
    with Cons.IH[of i' j'] Cons.prems j show ?thesis by (auto simp: Let_def)
  qed
qed simp

lemma Validate_rules: "Validate cfg = None \<Longrightarrow> validateRules (c_Rules cfg) (c_Limits cfg) = None"
  by (simp add: Validate_def)

lemma Validate_limits: "Validate cfg = None \<Longrightarrow> validateLimits (c_Limits cfg) = None"
  by (simp add: Validate_def)

lemma Validate_web: "Validate cfg = None \<Longrightarrow> validateWeb (c_Web cfg) = None"
  by (simp add: Validate_def)

end
