(* ===== verification/Config_Web.thy ===== *)
theory Config_Web
  imports Config_Rules
begin

text \<open>
  What acceptance by \<^verbatim>\<open>validateWeb\<close> gives: no management listener in the clear outside the loopback
  interface without an explicit acknowledgement, HTTPS where the deployment requires it, and a strict
  allowlist that is explicit, non-empty and never the whole address space.
\<close>

text \<open>The checks of the whitelist never reach an entry that does not parse.\<close>

lemma check_whitelist_bits_canonical:
  assumes "NormalizeWhitelist items = Inr out" and "s \<in> set out"
  shows "check_whitelist_bits f s = f (the (parse_prefix s))"
  using NormalizeWhitelist_canonical[OF assms] by (auto simp: check_whitelist_bits_def)

lemma first_err_no_panic:
  assumes "\<And>s. s \<in> set out \<Longrightarrow> \<exists>p. parse_prefix s = Some p"
    and "\<And>s p. f s p \<noteq> Some (WhitelistPanic t)"
  shows "first_err (\<lambda>raw. check_whitelist_bits (f raw) raw) out \<noteq> Some (WhitelistPanic t)"
  using assms(1)
proof (induction out)
  case (Cons s out)
  from Cons.prems[of s] obtain p where p: "parse_prefix s = Some p" by auto
  show ?case
    using Cons assms(2)[of s p] p
    by (cases "f s p") (auto simp: check_whitelist_bits_def)
qed simp

lemma whitelist_entry_errors:
  "whitelist_entry raw = Inl e \<Longrightarrow> \<exists>s. e = WhitelistInvalid s \<or> e = WhitelistMapped s"
  by (auto simp: whitelist_entry_def Let_def split: if_splits option.splits)

lemma collect_whitelist_errors:
  "collect whitelist_entry items = Inl e \<Longrightarrow> \<exists>s. e = WhitelistInvalid s \<or> e = WhitelistMapped s"
proof (induction items)
  case (Cons x xs)
  then show ?case
    by (cases "whitelist_entry x"; cases "collect whitelist_entry xs") (simp_all add: whitelist_entry_errors)
qed simp

lemma NormalizeWhitelist_errors:
  "NormalizeWhitelist items = Inl e \<Longrightarrow> e \<noteq> WhitelistPanic t"
  by (cases "collect whitelist_entry items")
    (auto simp: NormalizeWhitelist_def Let_def dest: collect_whitelist_errors split: if_splits)

lemma check_web_host_no_panic: "first_err check_web_host hosts \<noteq> Some (WhitelistPanic t)"
proof (induction hosts)
  case (Cons h hosts)
  then show ?case
    by (auto simp: check_web_host_def try_err_def guard_def split: option.splits if_splits)
qed simp

lemma guard_no_panic: "e \<noteq> x \<Longrightarrow> k \<noteq> Some x \<Longrightarrow> guard c e k \<noteq> Some x"
  by (simp add: guard_def)

lemma try_err_no_panic: "m \<noteq> Some x \<Longrightarrow> k \<noteq> Some x \<Longrightarrow> try_err m k \<noteq> Some x"
  by (cases m) simp_all

lemma if_no_panic: "k \<noteq> Some x \<Longrightarrow> l \<noteq> Some x \<Longrightarrow> (if c then k else l) \<noteq> Some x"
  by simp

lemma validateWeb_no_panic: "validateWeb web \<noteq> Some (WhitelistPanic t)"
proof (cases "NormalizeWhitelist (w_Whitelist web)")
  case (Inl e)
  then show ?thesis
    unfolding validateWeb_def
    by (intro guard_no_panic try_err_no_panic check_web_host_no_panic)
      (auto dest: NormalizeWhitelist_errors)
next
  case (Inr out)
  have parse: "\<exists>p. parse_prefix s = Some p" if "s \<in> set out" for s
    using NormalizeWhitelist_canonical[OF Inr that] by blast
  show ?thesis
    unfolding validateWeb_def Inr sum.case Let_def
    by (intro guard_no_panic try_err_no_panic check_web_host_no_panic first_err_no_panic parse if_no_panic)
      simp_all
qed

section \<open>What acceptance means\<close>

definition has_tls :: "web_config \<Rightarrow> bool" where
  "has_tls web \<longleftrightarrow> w_TLSCertFile web \<noteq> [] \<and> w_TLSKeyFile web \<noteq> []"

text \<open>The paths as \<^verbatim>\<open>LoadOrCreate\<close> and the web handlers store them.\<close>

definition trimmed_tls :: "web_config \<Rightarrow> bool" where
  "trimmed_tls web \<longleftrightarrow>
     trim_space (w_TLSCertFile web) = w_TLSCertFile web \<and> trim_space (w_TLSKeyFile web) = w_TLSKeyFile web"

definition web_listeners :: "web_config \<Rightarrow> addr set" where
  "web_listeners web = {ip. \<exists>h\<in>{w_ListenIPv4 web, w_ListenIPv6 web}. parse_addr h = Some ip}"

definition web_ok :: "web_config \<Rightarrow> bool" where
  "web_ok web \<longleftrightarrow>
     1 \<le> w_Port web \<and> w_Port web \<le> 65535
     \<and> (\<forall>ip\<in>web_listeners web. \<not> is_multicast ip)
     \<and> (has_tls web \<or> w_TLSCertFile web = [] \<and> w_TLSKeyFile web = [])
     \<and> (\<not> has_tls web \<longrightarrow> \<not> w_AllowInsecureHTTP web \<longrightarrow> (\<forall>ip\<in>web_listeners web. is_loopback ip))
     \<and> (w_RequireHTTPS web \<longrightarrow> has_tls web \<and> \<not> w_AllowInsecureHTTP web)
     \<and> (\<exists>out. NormalizeWhitelist (w_Whitelist web) = Inr out
          \<and> (\<not> w_AllowUnsafeAllACL web \<longrightarrow> (\<forall>s\<in>set out. \<forall>p. parse_prefix s = Some p \<longrightarrow> 0 < pbits p))
          \<and> (w_StrictIPAllowlist web \<longrightarrow>
               \<not> w_AutoLANACL web \<and> out \<noteq> [] \<and> has_tls web
               \<and> (\<forall>s\<in>set out. \<forall>p. parse_prefix s = Some p \<longrightarrow> 0 < pbits p)))"

lemma parse_addr_Nil [simp]: "parse_addr [] = None"
  by (simp add: parse_addr_def)

lemma canonical_bits: "canonical p \<Longrightarrow> 0 < pbits p \<longleftrightarrow> pbits p \<noteq> 0"
  by (auto simp: canonical_def prefix_ok_def)

lemma validateWeb_ok:
  assumes v: "validateWeb web = None" and t: "trimmed_tls web"
  shows "web_ok web"
proof -
  from v obtain out where out: "NormalizeWhitelist (w_Whitelist web) = Inr out"
    by (auto simp: validateWeb_def split: sum.splits)
  note * = check_whitelist_bits_canonical[OF out]
  from v out t have hosts: "first_err check_web_host [w_ListenIPv4 web, w_ListenIPv6 web] = None"
    and port: "1 \<le> w_Port web" "w_Port web \<le> 65535"
    and insecure: "\<not> has_tls web \<longrightarrow> \<not> w_AllowInsecureHTTP web \<longrightarrow> \<not> webHasNonLoopbackListener web"
    and pair: "has_tls web \<or> w_TLSCertFile web = [] \<and> w_TLSKeyFile web = []"
    and https: "w_RequireHTTPS web \<longrightarrow> has_tls web \<and> \<not> w_AllowInsecureHTTP web"
    and bits: "\<not> w_AllowUnsafeAllACL web \<longrightarrow> (\<forall>s\<in>set out. pbits (the (parse_prefix s)) \<noteq> 0)"
    and strict: "w_StrictIPAllowlist web \<longrightarrow> \<not> w_AutoLANACL web \<and> out \<noteq> [] \<and> has_tls web
                   \<and> (\<forall>s\<in>set out. pbits (the (parse_prefix s)) \<noteq> 0)"
    by (simp_all add: validateWeb_def Let_def * trimmed_tls_def has_tls_def split: if_splits) auto
  have pos: "0 < pbits p \<longleftrightarrow> pbits (the (parse_prefix s)) \<noteq> 0" if "s \<in> set out" "parse_prefix s = Some p" for s p
    using NormalizeWhitelist_canonical[OF out that(1)] that(2) canonical_bits by auto
  from hosts have mc: "\<forall>ip\<in>web_listeners web. \<not> is_multicast ip"
    by (auto simp: web_listeners_def check_web_host_def split: if_splits)
  have lb: "\<forall>ip\<in>web_listeners web. is_loopback ip" if "\<not> webHasNonLoopbackListener web"
    using that by (auto simp: web_listeners_def webHasNonLoopbackListener_def)
  show ?thesis
    unfolding web_ok_def using port insecure pair https bits strict pos mc lb out by blast
qed

end
