(* ===== verification/Config_Sample.thy ===== *)
theory Config_Sample
  imports Config_Web
begin

text \<open>
  A configuration with two rules on neighbouring ports of one address, evaluated in the kernel: the
  instance at which the theorems about accepted configurations are applied, and the starting point of
  the two configurations that \<^verbatim>\<open>Validate\<close> accepts although it should not.
\<close>

definition sample_rule :: rule where
  "sample_rule =
     \<lparr>r_ID = ''a'', r_Name = ''web'', r_Protocol = ''tcp'', r_DataPlane = ''nftables'',
      r_ListenHost = ''192.0.2.1'', r_ListenPort = 8000, r_ListenPortEnd = 8009,
      r_TargetHost = ''198.51.100.7'', r_TargetPort = 9000, r_TargetPortEnd = 9009,
      r_BackupTargetHost = [], r_BackupTargetPort = 0, r_DNSCacheTTLSeconds = 300,
      r_TCPHealthIntervalSeconds = 0, r_TCPHealthTimeoutSeconds = 0, r_Enabled = True,
      r_ConnectTimeoutSeconds = 10, r_TCPIdleTimeoutSeconds = 300, r_MaxTCPConnections = 2048,
      r_MaxTCPConnectionsPerIP = 256, r_UDPIdleTimeoutSeconds = 60, r_MaxUDPSessions = 4096,
      r_MaxUDPSessionsPerIP = 512, r_UDPNewSessionsPerSec = 1000, r_UDPPacketsPerSec = 100000,
      r_UDPWorkers = 0, r_UDPBatchSize = 64, r_UDPPacketBufferSize = 2048,
      r_UDPListenerBufferBytes = 4194304, r_UDPSessionBufferBytes = 65536, r_AllowPrivateTarget = False,
      r_TargetCIDRAllowlist = []\<rparr>"

definition sample_rule2 :: rule where
  "sample_rule2 = sample_rule\<lparr>r_ID := ''b'', r_ListenPort := 8010, r_ListenPortEnd := 0, r_TargetPort := 80, r_TargetPortEnd := 0\<rparr>"

definition sample_config :: config where
  "sample_config = Default\<lparr>c_Web := default_web\<lparr>w_ListenIPv6 := []\<rparr>, c_Rules := [sample_rule, sample_rule2]\<rparr>"

lemma sample_normal [simp]: "NormalizeRule sample_rule = sample_rule" "NormalizeRule sample_rule2 = sample_rule2"
  by code_simp+

lemma sample_checks [simp]:
  "check_rule_names sample_rule = None" "check_rule_ports sample_rule = None"
  "check_rule_backup sample_rule = None" "check_rule_health sample_rule 0 = None"
  "check_rule_listen_host sample_rule = None" "check_rule_limits default_limits sample_rule = None"
  "check_rule_targets sample_rule = None" "rule_health_endpoints sample_rule = 0"
  "r_ID sample_rule = ''a''" "r_Enabled sample_rule"
  by code_simp+

lemma sample_checks2 [simp]:
  "check_rule_names sample_rule2 = None" "check_rule_ports sample_rule2 = None"
  "check_rule_backup sample_rule2 = None" "check_rule_health sample_rule2 0 = None"
  "check_rule_listen_host sample_rule2 = None" "check_rule_limits default_limits sample_rule2 = None"
  "check_rule_targets sample_rule2 = None" "rule_health_endpoints sample_rule2 = 0"
  "r_ID sample_rule2 = ''b''" "r_Enabled sample_rule2"
  by code_simp+

lemma sample_no_conflict [simp]: "\<not> rules_conflict sample_rule sample_rule2"
  by code_simp

lemma sample_rules_ok: "validateRules [sample_rule, sample_rule2] default_limits = None"
  by (simp add: validateRules_def)

lemma sample_web_ok: "validateWeb (default_web\<lparr>w_ListenIPv6 := []\<rparr>) = None"
  by code_simp

lemma sample_limits_ok: "validateLimits default_limits = None"
  by code_simp

text \<open>A configuration with the sample's settings and other rules is as valid as its rules.\<close>

definition with_rules :: "rule list \<Rightarrow> config" where
  "with_rules rules = Default\<lparr>c_Web := default_web\<lparr>w_ListenIPv6 := []\<rparr>, c_Rules := rules\<rparr>"

lemma with_rules_simps [simp]: "c_Rules (with_rules rules) = rules" "c_Limits (with_rules rules) = default_limits"
  by (simp_all add: with_rules_def Default_def)

lemma with_rules_valid: "Validate (with_rules rules) = validateRules rules default_limits"
  using sample_web_ok sample_limits_ok
  by (simp add: Validate_def with_rules_def Default_def NormalizeDNSServers_def default_web_def guard_def try_err_def)

lemma sample_valid: "Validate sample_config = None"
  using with_rules_valid[of "[sample_rule, sample_rule2]"] sample_rules_ok
  by (simp add: with_rules_def sample_config_def)

section \<open>Accepted although they should not be\<close>

text \<open>The bound on a backup port range wraps.\<close>

definition wrapping_rule :: rule where
  "wrapping_rule = sample_rule\<lparr>r_DataPlane := ''go'', r_BackupTargetHost := ''198.51.100.8'',
     r_BackupTargetPort := 9223372036854775800\<rparr>"

text \<open>Two texts of one listening address.\<close>

definition mapped_rule :: rule where
  "mapped_rule = sample_rule\<lparr>r_ID := ''b'', r_ListenHost := ''::ffff:192.0.2.1''\<rparr>"

lemma wrapping_normal [simp]: "NormalizeRule wrapping_rule = wrapping_rule"
  by code_simp

lemma wrapping_checks [simp]:
  "check_rule_names wrapping_rule = None" "check_rule_ports wrapping_rule = None"
  "check_rule_backup wrapping_rule = None" "check_rule_health wrapping_rule 0 = None"
  "check_rule_listen_host wrapping_rule = None" "check_rule_limits default_limits wrapping_rule = None"
  "check_rule_targets wrapping_rule = None" "rule_health_endpoints wrapping_rule = 0"
  "r_ID wrapping_rule = ''a''"
  by code_simp+

lemma wrapping_accepted: "Validate (with_rules [wrapping_rule]) = None"
  by (simp add: with_rules_valid validateRules_def)

lemma mapped_normal [simp]: "NormalizeRule mapped_rule = mapped_rule"
  by code_simp

lemma mapped_parse: "parse_addr ''::ffff:192.0.2.1'' = Some (IP6 0xFFFFC0000201 [])"
  by code_simp

lemma mapped_checks [simp]:
  "check_rule_names mapped_rule = None" "check_rule_ports mapped_rule = None"
  "check_rule_backup mapped_rule = None" "check_rule_health mapped_rule 0 = None"
  "check_rule_limits default_limits mapped_rule = None"
  "check_rule_targets mapped_rule = None" "rule_health_endpoints mapped_rule = 0"
  "r_ID mapped_rule = ''b''"
  by code_simp+

lemma mapped_listen [simp]: "check_rule_listen_host mapped_rule = None"
  by code_simp

lemma mapped_no_conflict [simp]: "\<not> rules_conflict sample_rule mapped_rule"
  by code_simp

lemma mapped_accepted: "Validate (with_rules [sample_rule, mapped_rule]) = None"
  by (simp add: with_rules_valid validateRules_def)

lemma mapped_same_socket: "claims sample_rule ''tcp'' (IP4 0xC0000201) 8000 \<and> claims mapped_rule ''tcp'' (IP4 0xC0000201) 8000"
  by code_simp

end
