(* ===== verification/Disk.thy ===== *)
theory Disk
  imports Prelude
begin

text \<open>
  The operating system as the program's stores use it: files with their modes, the outcome of every
  file operation (which may fail, and a failing write may leave a prefix of its data), the bytes of
  the random source, and the history of the states the disk went through, any of which a crash may
  leave behind.
\<close>

type_synonym files = "string \<Rightarrow> (string \<times> nat) option"

abbreviation mode_0600 :: nat where "mode_0600 \<equiv> 384"

datatype outcome = Fine | Fault nat

datatype io_op =
    MkdirAll | CreateTemp | WriteTemp | ChmodTemp | SyncTemp | CloseTemp | RenameTemp | SyncDir
  | RemoveFile | ReadFile

record world =
  files :: files
  history :: "files list"
  outcomes :: "outcome list"
  entropy :: "8 word list"
  tmp_names :: "string list"

text \<open>Once the given outcomes are used up, everything succeeds.\<close>

definition next_outcome :: "world \<Rightarrow> outcome \<times> world" where
  "next_outcome w =
     (case outcomes w of [] \<Rightarrow> (Fine, w) | o1 # os \<Rightarrow> (o1, w\<lparr>outcomes := os\<rparr>))"

type_synonym io_step = "outcome \<Rightarrow> files \<Rightarrow> files"

definition io_run :: "io_step \<Rightarrow> world \<Rightarrow> bool \<times> world" where
  "io_run step w =
     (let (o1, w1) = next_outcome w; fs = step o1 (files w1)
      in (o1 = Fine, w1\<lparr>files := fs, history := history w1 @ [fs]\<rparr>))"

text \<open>Operations in order, stopping at the first that fails.\<close>

fun io_seq :: "(io_op \<times> io_step) list \<Rightarrow> world \<Rightarrow> io_op option \<times> world" where
  "io_seq [] w = (None, w)"
| "io_seq ((opn, step) # steps) w =
     (let (ok, w1) = io_run step w in if ok then io_seq steps w1 else (Some opn, w1))"

definition no_change :: io_step where
  "no_change o1 fs = fs"

section \<open>Replacing a file\<close>

text \<open>The directory and the last element of a cleaned path.\<close>

definition path_dir :: "string \<Rightarrow> string" where
  "path_dir path = rev (dropWhile (\<lambda>c. c \<noteq> CHR ''/'') (rev path))"

definition path_base :: "string \<Rightarrow> string" where
  "path_base path = rev (takeWhile (\<lambda>c. c \<noteq> CHR ''/'') (rev path))"

lemma path_dir_base: "path_dir path @ path_base path = path"
  by (metis path_base_def path_dir_def rev_append rev_rev_ident takeWhile_dropWhile_id)

definition temp_path :: "string \<Rightarrow> string \<Rightarrow> string" where
  "temp_path path suffix = path_dir path @ CHR ''.'' # path_base path @ ''.tmp-'' @ suffix"

lemma temp_path_fresh: "temp_path path suffix \<noteq> path"
proof
  assume "temp_path path suffix = path"
  then have "length (temp_path path suffix) = length (path_dir path @ path_base path)"
    by (simp only: path_dir_base)
  then show False by (simp add: temp_path_def)
qed

definition create_step :: "string \<Rightarrow> io_step" where
  "create_step tmp o1 fs = (if o1 = Fine then fs(tmp \<mapsto> ([], mode_0600)) else fs)"

definition write_step :: "string \<Rightarrow> string \<Rightarrow> io_step" where
  "write_step tmp data o1 fs =
     fs(tmp \<mapsto> (case o1 of Fine \<Rightarrow> data | Fault k \<Rightarrow> take k data, mode_0600))"

definition chmod_step :: "string \<Rightarrow> nat \<Rightarrow> io_step" where
  "chmod_step tmp mode o1 fs =
     (if o1 = Fine then fs(tmp := map_option (\<lambda>(d, _). (d, mode)) (fs tmp)) else fs)"

definition rename_step :: "string \<Rightarrow> string \<Rightarrow> io_step" where
  "rename_step tmp path o1 fs = (if o1 = Fine then fs(path := fs tmp, tmp := None) else fs)"

definition remove_step :: "string \<Rightarrow> io_step" where
  "remove_step path o1 fs = (if o1 = Fine then fs(path := None) else fs)"

definition replace_steps :: "string \<Rightarrow> string \<Rightarrow> string \<Rightarrow> nat \<Rightarrow> (io_op \<times> io_step) list" where
  "replace_steps tmp path data mode =
     [(WriteTemp, write_step tmp data), (ChmodTemp, chmod_step tmp mode), (SyncTemp, no_change),
      (CloseTemp, no_change), (RenameTemp, rename_step tmp path)]"

text \<open>
  \<^verbatim>\<open>os.CreateTemp\<close> opens an unused name with \<^verbatim>\<open>O_EXCL\<close>; the deferred clean-up removes the temporary
  file whether or not it was published, and ignores errors.
\<close>

definition writeFileAtomic :: "string \<Rightarrow> string \<Rightarrow> nat \<Rightarrow> world \<Rightarrow> io_op option \<times> world" where
  "writeFileAtomic path data mode w =
     (let (ok, w1) = io_run no_change w in
      if \<not> ok then (Some MkdirAll, w1)
      else
        case find (\<lambda>n. files w1 (temp_path path n) = None) (tmp_names w1) of
          None \<Rightarrow> (Some CreateTemp, w1)
        | Some n \<Rightarrow>
            let tmp = temp_path path n; (ok, w2) = io_run (create_step tmp) w1 in
            if \<not> ok then (Some CreateTemp, w2)
            else
              let (err, w3) = io_seq (replace_steps tmp path data mode) w2;
                  (_, w4) = io_run (remove_step tmp) w3
              in (err, w4))"

text \<open>\<^verbatim>\<open>os.ReadFile\<close>: an error other than a missing file, no file, or the content.\<close>

definition readFile :: "string \<Rightarrow> world \<Rightarrow> (io_op + string option) \<times> world" where
  "readFile path w =
     (let (ok, w1) = io_run no_change w in
      if ok then (Inr (map_option fst (files w1 path)), w1) else (Inl ReadFile, w1))"

definition removeFile :: "string \<Rightarrow> world \<Rightarrow> io_op option \<times> world" where
  "removeFile path w =
     (let missing = files w path = None; (ok, w1) = io_run (remove_step path) w
      in (if ok \<and> \<not> missing then None else Some RemoveFile, w1))"

text \<open>\<^verbatim>\<open>rand.Read\<close> of \<open>n\<close> bytes.\<close>

definition rand_read :: "nat \<Rightarrow> world \<Rightarrow> 8 word list option \<times> world" where
  "rand_read n w =
     (if length (entropy w) < n then (None, w)
      else (Some (take n (entropy w)), w\<lparr>entropy := drop n (entropy w)\<rparr>))"

section \<open>What an operation does to one path\<close>

text \<open>
  \<open>extends_via P w w'\<close>: \<open>w'\<close> follows \<open>w\<close>, and every state of the disk in between satisfies \<open>P\<close>.
\<close>

definition extends_via :: "(files \<Rightarrow> bool) \<Rightarrow> world \<Rightarrow> world \<Rightarrow> bool" where
  "extends_via P w w' \<longleftrightarrow> (\<exists>hs. history w' = history w @ hs \<and> (\<forall>fs\<in>set hs. P fs))"

lemma extends_via_refl [simp]: "extends_via P w w"
  by (simp add: extends_via_def)

lemma extends_via_trans [trans]: "extends_via P u v \<Longrightarrow> extends_via P v w \<Longrightarrow> extends_via P u w"
  by (auto simp: extends_via_def)

lemma extends_via_mono: "extends_via P v w \<Longrightarrow> (\<And>fs. P fs \<Longrightarrow> Q fs) \<Longrightarrow> extends_via Q v w"
  by (auto simp: extends_via_def)

lemma extends_via_entropy [simp]:
  "extends_via P (w\<lparr>entropy := e\<rparr>) w' = extends_via P w w'"
  "extends_via P w (w'\<lparr>entropy := e\<rparr>) = extends_via P w w'"
  by (simp_all add: extends_via_def)

definition keeps :: "string \<Rightarrow> io_step \<Rightarrow> bool" where
  "keeps path step \<longleftrightarrow> (\<forall>o1 fs. step o1 fs path = fs path)"

lemma keeps_steps [simp]:
  "keeps path no_change"
  "tmp \<noteq> path \<Longrightarrow> keeps path (create_step tmp)"
  "tmp \<noteq> path \<Longrightarrow> keeps path (write_step tmp data)"
  "tmp \<noteq> path \<Longrightarrow> keeps path (chmod_step tmp mode)"
  "tmp \<noteq> path \<Longrightarrow> keeps path (remove_step tmp)"
  by (auto simp: keeps_def no_change_def create_step_def write_step_def chmod_step_def remove_step_def)

lemma io_run_keeps:
  assumes "io_run step w = (ok, w')" and "keeps path step"
  shows "files w' path = files w path" and "extends_via (\<lambda>fs. fs path = files w path) w w'"
  using assms by (auto simp: io_run_def Let_def next_outcome_def keeps_def extends_via_def split: list.splits)

lemma io_run_Fine: "io_run step w = (True, w') \<Longrightarrow> files w' = step Fine (files w)"
  by (auto simp: io_run_def Let_def next_outcome_def split: list.splits)

lemma io_run_extends: "io_run step w = (ok, w') \<Longrightarrow> history w' = history w @ [files w']"
  by (auto simp: io_run_def Let_def next_outcome_def split: list.splits)

lemma io_run_entropy: "io_run step w = (ok, w') \<Longrightarrow> entropy w' = entropy w"
  by (auto simp: io_run_def Let_def next_outcome_def split: list.splits)

lemma io_run_rename_fault: "io_run (rename_step tmp path) w = (False, w') \<Longrightarrow> files w' = files w"
  by (auto simp: io_run_def Let_def next_outcome_def rename_step_def split: list.splits)

text \<open>
  The replacement is all or nothing: until the rename the destination is as before, from then on it
  holds the new data, whatever fails and wherever the process stops.
\<close>

lemma replace_steps_atomic:
  assumes run: "io_seq (replace_steps tmp path data mode) w = (err, w')" and tmp: "tmp \<noteq> path"
  shows "files w' path = (if err = None then Some (data, mode) else files w path)"
    and "extends_via (\<lambda>fs. fs path \<in> {files w path, Some (data, mode)}) w w'"
proof -
  define P where "P fs \<longleftrightarrow> fs path \<in> {files w path, Some (data, mode)}" for fs
  obtain ok1 w1 where r1: "io_run (write_step tmp data) w = (ok1, w1)" by fastforce
  obtain ok2 w2 where r2: "io_run (chmod_step tmp mode) w1 = (ok2, w2)" by fastforce
  obtain ok3 w3 where r3: "io_run no_change w2 = (ok3, w3)" by fastforce
  obtain ok4 w4 where r4: "io_run no_change w3 = (ok4, w4)" by fastforce
  obtain ok5 w5 where r5: "io_run (rename_step tmp path) w4 = (ok5, w5)" by fastforce
  note k1 = io_run_keeps[OF r1, of path] note k2 = io_run_keeps[OF r2, of path]
  note k3 = io_run_keeps[OF r3, of path] note k4 = io_run_keeps[OF r4, of path]
  have same: "files w1 path = files w path" "files w2 path = files w path" "files w3 path = files w path"
    "files w4 path = files w path"
    using k1(1) k2(1) k3(1) k4(1) tmp by simp_all
  have ex: "extends_via P w w1" "extends_via P w1 w2" "extends_via P w2 w3" "extends_via P w3 w4"
    using k1(2) k2(2) k3(2) k4(2) tmp same by (auto simp: P_def elim!: extends_via_mono)
  have new: "files w5 path = Some (data, mode)" if "ok1" "ok2" "ok3" "ok4" "ok5"
  proof -
    have "files w1 = write_step tmp data Fine (files w)" using r1 that by (simp add: io_run_Fine)
    moreover have "files w2 = chmod_step tmp mode Fine (files w1)" using r2 that by (simp add: io_run_Fine)
    moreover have "files w3 = files w2" "files w4 = files w3"
      using io_run_Fine[of no_change w2 w3] io_run_Fine[of no_change w3 w4] r3 r4 that
      by (simp_all add: no_change_def)
    moreover have "files w5 = rename_step tmp path Fine (files w4)" using r5 that by (simp add: io_run_Fine)
    ultimately show ?thesis using tmp by (simp add: write_step_def chmod_step_def rename_step_def)
  qed
  have old: "files w5 path = files w path" if "\<not> ok5"
    using io_run_rename_fault[of tmp path w4 w5] r5 that same by simp
  have ex5: "extends_via P w4 w5" if "ok1" "ok2" "ok3" "ok4"
    using io_run_extends[OF r5] new old that by (cases ok5) (auto simp: extends_via_def P_def)
  show "files w' path = (if err = None then Some (data, mode) else files w path)"
    using run r1 r2 r3 r4 r5 same new old
    by (auto simp: replace_steps_def split: if_splits)
  have up: "extends_via P w w2" "extends_via P w w3" "extends_via P w w4"
    using ex by (blast intro: extends_via_trans)+
  have "extends_via P w w'"
    using run r1 r2 r3 r4 r5 ex(1) up(1-3) extends_via_trans[OF up(3) ex5]
    by (auto simp: replace_steps_def split: if_splits)
  then show "extends_via (\<lambda>fs. fs path \<in> {files w path, Some (data, mode)}) w w'"
    by (rule extends_via_mono) (simp add: P_def)
qed

lemma keeps_other [simp]:
  "q \<noteq> path \<Longrightarrow> q \<noteq> tmp \<Longrightarrow> keeps q (rename_step tmp path)"
  by (auto simp: keeps_def rename_step_def)

lemma io_seq_keeps:
  assumes "io_seq steps w = (err, w')" and "\<forall>(opn, step)\<in>set steps. keeps q step"
  shows "files w' q = files w q" and "extends_via (\<lambda>fs. fs q = files w q) w w'"
proof -
  have "files w' q = files w q \<and> extends_via (\<lambda>fs. fs q = files w q) w w'"
    using assms
  proof (induction steps arbitrary: w)
    case (Cons x steps)
    obtain opn step where x: "x = (opn, step)" by fastforce
    obtain ok w1 where r: "io_run step w = (ok, w1)" by fastforce
    have k: "files w1 q = files w q" "extends_via (\<lambda>fs. fs q = files w q) w w1"
      using io_run_keeps[OF r, of q] Cons.prems(2) x by auto
    show ?case
    proof (cases ok)
      case True
      with Cons.prems x r have "io_seq steps w1 = (err, w')" by simp
      with Cons.IH[of w1] Cons.prems(2) k show ?thesis by (auto intro: extends_via_trans)
    next
      case False
      with Cons.prems x r k show ?thesis by auto
    qed
  qed simp
  then show "files w' q = files w q" and "extends_via (\<lambda>fs. fs q = files w q) w w'" by auto
qed

lemma io_seq_entropy: "io_seq steps w = (err, w') \<Longrightarrow> entropy w' = entropy w"
proof (induction steps arbitrary: w)
  case (Cons x steps)
  then show ?case
    by (cases x) (auto simp: Let_def split: prod.splits if_splits dest!: io_run_entropy)
qed simp

text \<open>The parts of a run of \<^verbatim>\<open>writeFileAtomic\<close>.\<close>

lemma writeFileAtomic_cases:
  assumes "writeFileAtomic path data mode w = (err, w')"
  obtains (mkdir) "err = Some MkdirAll" "io_run no_change w = (False, w')"
  | (name) "err = Some CreateTemp" "io_run no_change w = (True, w')"
  | (create) n w1 where "err = Some CreateTemp" "io_run no_change w = (True, w1)"
      "io_run (create_step (temp_path path n)) w1 = (False, w')"
  | (run) n w1 w2 w3 ok where "io_run no_change w = (True, w1)"
      "io_run (create_step (temp_path path n)) w1 = (True, w2)"
      "io_seq (replace_steps (temp_path path n) path data mode) w2 = (err, w3)"
      "io_run (remove_step (temp_path path n)) w3 = (ok, w')"
  using assms
  by (auto simp: writeFileAtomic_def Let_def split: prod.splits if_splits option.splits)

lemma writeFileAtomic_atomic:
  assumes "writeFileAtomic path data mode w = (err, w')"
  shows "files w' path = (if err = None then Some (data, mode) else files w path)"
    and "extends_via (\<lambda>fs. fs path \<in> {files w path, Some (data, mode)}) w w'"
  using assms
proof (atomize(full), cases rule: writeFileAtomic_cases)
  case mkdir
  with io_run_keeps[OF mkdir(2), of path]
  show "files w' path = (if err = None then Some (data, mode) else files w path) \<and>
        extends_via (\<lambda>fs. fs path \<in> {files w path, Some (data, mode)}) w w'"
    by (auto elim: extends_via_mono)
next
  case name
  with io_run_keeps[OF name(2), of path]
  show "files w' path = (if err = None then Some (data, mode) else files w path) \<and>
        extends_via (\<lambda>fs. fs path \<in> {files w path, Some (data, mode)}) w w'"
    by (auto elim: extends_via_mono)
next
  case (create n w1)
  with io_run_keeps[OF create(2), of path] io_run_keeps[OF create(3), of path] temp_path_fresh[of path n]
  show "files w' path = (if err = None then Some (data, mode) else files w path) \<and>
        extends_via (\<lambda>fs. fs path \<in> {files w path, Some (data, mode)}) w w'"
    by (auto elim!: extends_via_mono intro: extends_via_trans)
next
  case (run n w1 w2 w3 ok)
  note k1 = io_run_keeps[OF run(1), of path] and k2 = io_run_keeps[OF run(2), of path]
    and k4 = io_run_keeps[OF run(4), of path] and t = temp_path_fresh[of path n]
  note a = replace_steps_atomic[OF run(3) t]
  have "files w2 path = files w path" and "files w' path = files w3 path" using k1 k2 k4 t by simp_all
  moreover have "extends_via (\<lambda>fs. fs path \<in> {files w path, Some (data, mode)}) w w2"
    using k1 k2 t by (auto elim!: extends_via_mono intro: extends_via_trans)
  moreover have "extends_via (\<lambda>fs. fs path \<in> {files w path, Some (data, mode)}) w3 w'"
    using k4 t a(1) calculation by (auto elim!: extends_via_mono split: if_splits)
  ultimately show "files w' path = (if err = None then Some (data, mode) else files w path) \<and>
        extends_via (\<lambda>fs. fs path \<in> {files w path, Some (data, mode)}) w w'"
    using a by (auto intro: extends_via_trans)
qed

lemma writeFileAtomic_other:
  assumes "writeFileAtomic path data mode w = (err, w')" and "q \<noteq> path" and "\<And>n. q \<noteq> temp_path path n"
  shows "files w' q = files w q" and "extends_via (\<lambda>fs. fs q = files w q) w w'"
  using assms
proof (atomize(full), cases rule: writeFileAtomic_cases)
  case mkdir
  then show "files w' q = files w q \<and> extends_via (\<lambda>fs. fs q = files w q) w w'"
    using io_run_keeps[OF mkdir(2), of q] by simp
next
  case name
  then show "files w' q = files w q \<and> extends_via (\<lambda>fs. fs q = files w q) w w'"
    using io_run_keeps[OF name(2), of q] by simp
next
  case (create n w1)
  with io_run_keeps[OF create(2), of q] io_run_keeps[OF create(3), of q] assms(3)[of n]
  show "files w' q = files w q \<and> extends_via (\<lambda>fs. fs q = files w q) w w'"
    by (auto intro: extends_via_trans)
next
  case (run n w1 w2 w3 ok)
  have "\<forall>(opn, step)\<in>set (replace_steps (temp_path path n) path data mode). keeps q step"
    using assms(2) assms(3)[of n] by (auto simp: replace_steps_def)
  note s = io_seq_keeps[OF run(3) this]
  from s run io_run_keeps[OF run(1), of q] io_run_keeps[OF run(2), of q] io_run_keeps[OF run(4), of q]
    assms(3)[of n]
  show "files w' q = files w q \<and> extends_via (\<lambda>fs. fs q = files w q) w w'"
    by (auto intro: extends_via_trans)
qed

lemma writeFileAtomic_entropy: "writeFileAtomic path data mode w = (err, w') \<Longrightarrow> entropy w' = entropy w"
  by (erule writeFileAtomic_cases) (auto dest!: io_run_entropy io_seq_entropy)

end
