(* ===== verification/Sha256.thy ===== *)
theory Sha256
  imports Go_Strings
begin

text \<open>
  \<^verbatim>\<open>crypto/sha256\<close>: the digest of a byte string (FIPS 180-4), as the token hashes, the configuration
  revision and the nftables rule identities use it.  The development relies on the length of the
  digest only; no theorem assumes that the function is injective.
\<close>

unbundle bit_operations_syntax

definition sha_k :: "32 word list" where
  "sha_k = [
     0x428A2F98, 0x71374491, 0xB5C0FBCF, 0xE9B5DBA5, 0x3956C25B, 0x59F111F1, 0x923F82A4, 0xAB1C5ED5,
     0xD807AA98, 0x12835B01, 0x243185BE, 0x550C7DC3, 0x72BE5D74, 0x80DEB1FE, 0x9BDC06A7, 0xC19BF174,
     0xE49B69C1, 0xEFBE4786, 0x0FC19DC6, 0x240CA1CC, 0x2DE92C6F, 0x4A7484AA, 0x5CB0A9DC, 0x76F988DA,
     0x983E5152, 0xA831C66D, 0xB00327C8, 0xBF597FC7, 0xC6E00BF3, 0xD5A79147, 0x06CA6351, 0x14292967,
     0x27B70A85, 0x2E1B2138, 0x4D2C6DFC, 0x53380D13, 0x650A7354, 0x766A0ABB, 0x81C2C92E, 0x92722C85,
     0xA2BFE8A1, 0xA81A664B, 0xC24B8B70, 0xC76C51A3, 0xD192E819, 0xD6990624, 0xF40E3585, 0x106AA070,
     0x19A4C116, 0x1E376C08, 0x2748774C, 0x34B0BCB5, 0x391C0CB3, 0x4ED8AA4A, 0x5B9CCA4F, 0x682E6FF3,
     0x748F82EE, 0x78A5636F, 0x84C87814, 0x8CC70208, 0x90BEFFFA, 0xA4506CEB, 0xBEF9A3F7, 0xC67178F2]"

definition sha_init :: "32 word list" where
  "sha_init = [
     0x6A09E667, 0xBB67AE85, 0x3C6EF372, 0xA54FF53A, 0x510E527F, 0x9B05688C, 0x1F83D9AB, 0x5BE0CD19]"

definition rotr :: "nat \<Rightarrow> 32 word \<Rightarrow> 32 word" where
  "rotr n w = drop_bit n w OR push_bit (32 - n) w"

definition ssig0 :: "32 word \<Rightarrow> 32 word" where
  "ssig0 w = rotr 7 w XOR rotr 18 w XOR drop_bit 3 w"

definition ssig1 :: "32 word \<Rightarrow> 32 word" where
  "ssig1 w = rotr 17 w XOR rotr 19 w XOR drop_bit 10 w"

definition bsig0 :: "32 word \<Rightarrow> 32 word" where
  "bsig0 w = rotr 2 w XOR rotr 13 w XOR rotr 22 w"

definition bsig1 :: "32 word \<Rightarrow> 32 word" where
  "bsig1 w = rotr 6 w XOR rotr 11 w XOR rotr 25 w"

text \<open>The message schedule grows from the sixteen words of a block to sixty-four.\<close>

fun sha_schedule :: "nat \<Rightarrow> 32 word list \<Rightarrow> 32 word list" where
  "sha_schedule 0 ws = ws"
| "sha_schedule (Suc n) ws =
     (let t = length ws;
          w = ssig1 (ws ! (t - 2)) + ws ! (t - 7) + ssig0 (ws ! (t - 15)) + ws ! (t - 16)
      in sha_schedule n (ws @ [w]))"

fun sha_round :: "32 word list \<Rightarrow> 32 word \<times> 32 word \<Rightarrow> 32 word list" where
  "sha_round [a, b, c, d, e, f, g, h] (k, w) =
     (let t1 = h + bsig1 e + ((e AND f) XOR (NOT e AND g)) + k + w;
          t2 = bsig0 a + ((a AND b) XOR (a AND c) XOR (b AND c))
      in [t1 + t2, a, b, c, d + t1, e, f, g])"
| "sha_round st _ = st"

definition sha_block :: "32 word list \<Rightarrow> 32 word list \<Rightarrow> 32 word list" where
  "sha_block st ws =
     (let st' = foldl sha_round st (zip sha_k (sha_schedule 48 ws))
      in map (\<lambda>(x, y). x + y) (zip st st'))"

text \<open>Padding: a one bit, zeros, and the length in bits as eight bytes.\<close>

definition byte_of :: "char \<Rightarrow> 8 word" where
  "byte_of c = of_nat (of_char c)"

definition be_bytes :: "nat \<Rightarrow> nat \<Rightarrow> 8 word list" where
  "be_bytes k n = map (\<lambda>i. of_nat (n div 256 ^ (k - Suc i))) [0..<k]"

definition sha_pad :: "8 word list \<Rightarrow> 8 word list" where
  "sha_pad m = m @ [0x80] @ replicate ((119 - length m mod 64) mod 64) 0 @ be_bytes 8 (8 * length m)"

fun be_words :: "8 word list \<Rightarrow> 32 word list" where
  "be_words (a # b # c # d # bs) =
     (push_bit 24 (ucast a) OR push_bit 16 (ucast b) OR push_bit 8 (ucast c) OR ucast d) # be_words bs"
| "be_words _ = []"

fun sha_blocks :: "nat \<Rightarrow> 32 word list \<Rightarrow> 32 word list \<Rightarrow> 32 word list" where
  "sha_blocks 0 st ws = st"
| "sha_blocks (Suc n) st ws = sha_blocks n (sha_block st (take 16 ws)) (drop 16 ws)"

definition sha256 :: "string \<Rightarrow> 8 word list" where
  "sha256 s =
     (let ws = be_words (sha_pad (map byte_of s))
      in concat (map (\<lambda>w. be_bytes 4 (unat w)) (sha_blocks (length ws div 16) sha_init ws)))"

definition sha256_hex :: "string \<Rightarrow> string" where
  "sha256_hex s = hex_encode (sha256 s)"

lemma sha_round_length: "length (sha_round st kw) = length st"
  by (cases "(st, kw)" rule: sha_round.cases) (auto simp: Let_def)

lemma foldl_sha_round_length: "length (foldl sha_round st kws) = length st"
  by (induction kws arbitrary: st) (simp_all add: sha_round_length)

lemma sha_block_length [simp]: "length (sha_block st ws) = length st"
  by (simp add: sha_block_def Let_def foldl_sha_round_length)

lemma sha_blocks_length [simp]: "length (sha_blocks n st ws) = length st"
  by (induction n arbitrary: st ws) simp_all

lemma sha256_length: "length (sha256 s) = 32"
proof -
  have "length (concat (map (\<lambda>w. be_bytes 4 (unat w)) ws)) = 4 * length ws" for ws :: "32 word list"
    by (induction ws) (simp_all add: be_bytes_def)
  then show ?thesis by (simp add: sha256_def Let_def sha_init_def)
qed

lemma sha256_hex_length: "length (sha256_hex s) = 64"
  by (simp add: sha256_hex_def hex_encode_length sha256_length)

lemma sha256_hex_decode: "\<exists>bs. hex_decode (sha256_hex s) = Some bs \<and> length bs = 32"
  by (simp add: sha256_hex_def hex_decode_encode sha256_length)

lemma sha256_hex_chars: "c \<in> set (sha256_hex s) \<Longrightarrow> is_hex c"
  by (simp add: sha256_hex_def hex_encode_is_hex)

end
