(* ===== verification/Config_Store.thy ===== *)
theory Config_Store
  imports Config_Web Disk Sha256
begin

text \<open>
  The persistent store of \<^verbatim>\<open>internal/config/config.go\<close>, \<^verbatim>\<open>revision.go\<close> and \<^verbatim>\<open>read_only.go\<close>: loading with migration
  and defaults, serialised updates under the store's lock, optimistic revisions, and the two-file
  transaction that rotates the administrator's token.

  The JSON codec of the standard library is an argument: \<open>enc\<close> is \<^verbatim>\<open>json.MarshalIndent\<close>, \<open>enc1\<close> is
  \<^verbatim>\<open>json.Marshal\<close> and \<open>dec\<close> is \<^verbatim>\<open>json.Unmarshal\<close> onto a given configuration.  Every method runs under the
  lock, so a method call is one step of the store.
\<close>

datatype store_error =
    UpdateRejected string
  | InvalidConfig config_error
  | WriteConfigFailed io_op
  | RevisionConflict
  | TokenEntropy
  | MarkEntropy
  | ReadTokenFailed
  | WriteTokenFailed io_op
  | RestoreTokenFailed store_error io_op
  | PathEmpty
  | ReadConfigFailed
  | DecodeFailed
  | TooLarge
  | ConfigMissing

record store =
  s_path :: string
  s_cfg :: config

section \<open>Tokens and revisions\<close>

definition HashToken :: "string \<Rightarrow> string" where
  "HashToken token = sha256_hex token"

definition GenerateToken :: "world \<Rightarrow> string option \<times> world" where
  "GenerateToken w = (let (bs, w1) = rand_read 32 w in (map_option hex_encode bs, w1))"

definition Revision :: "(config \<Rightarrow> string) \<Rightarrow> config \<Rightarrow> string" where
  "Revision enc1 cfg = sha256_hex (enc1 cfg)"

definition GetWithRevision :: "(config \<Rightarrow> string) \<Rightarrow> store \<Rightarrow> config \<times> string" where
  "GetWithRevision enc1 s = (s_cfg s, Revision enc1 (s_cfg s))"

definition TokenFileConsistent :: "string \<Rightarrow> string \<Rightarrow> world \<Rightarrow> bool \<times> world" where
  "TokenFileConsistent path admin_sha w =
     (if path = [] \<or> admin_sha = [] then (True, w)
      else
        let (r, w1) = readFile path w in
        (case r of
           Inr (Some data) \<Rightarrow> HashToken (trim_space data) = admin_sha
         | _ \<Rightarrow> False, w1))"

section \<open>Saving and updating\<close>

definition saveLocked :: "(config \<Rightarrow> string) \<Rightarrow> store \<Rightarrow> world \<Rightarrow> store_error option \<times> world" where
  "saveLocked enc s w =
     (let (err, w1) = writeFileAtomic (s_path s) (enc (s_cfg s) @ [char_of (10::nat)]) mode_0600 w
      in (map_option WriteConfigFailed err, w1))"

definition updateLocked ::
    "(config \<Rightarrow> string) \<Rightarrow> (config \<Rightarrow> string + config) \<Rightarrow> store \<Rightarrow> world
     \<Rightarrow> (store_error + config) \<times> store \<times> world" where
  "updateLocked enc fn s w =
     (case fn (s_cfg s) of
        Inl e \<Rightarrow> (Inl (UpdateRejected e), s, w)
      | Inr changed \<Rightarrow>
          let candidate = changed\<lparr>c_Version := CurrentVersion\<rparr> in
          case Validate candidate of
            Some e \<Rightarrow> (Inl (InvalidConfig e), s, w)
          | None \<Rightarrow>
              let s1 = s\<lparr>s_cfg := candidate\<rparr>; (err, w1) = saveLocked enc s1 w in
              case err of
                Some e \<Rightarrow> (Inl e, s1\<lparr>s_cfg := s_cfg s\<rparr>, w1)
              | None \<Rightarrow> (Inr candidate, s1, w1))"

definition UpdateIfRevision ::
    "(config \<Rightarrow> string) \<Rightarrow> (config \<Rightarrow> string) \<Rightarrow> string \<Rightarrow> (config \<Rightarrow> string + config) \<Rightarrow> store \<Rightarrow> world
     \<Rightarrow> (store_error + config) \<times> store \<times> world" where
  "UpdateIfRevision enc enc1 expected fn s w =
     (if expected \<noteq> [] \<and> expected \<noteq> Revision enc1 (s_cfg s) then (Inl RevisionConflict, s, w)
      else updateLocked enc fn s w)"

definition set_admin :: "string \<Rightarrow> config \<Rightarrow> string + config" where
  "set_admin sha c = Inr (c\<lparr>c_Web := (c_Web c)\<lparr>w_AdminTokenSHA := sha\<rparr>\<rparr>)"

definition set_monitor :: "string \<Rightarrow> config \<Rightarrow> string + config" where
  "set_monitor sha c = Inr (c\<lparr>c_Web := (c_Web c)\<lparr>w_MonitorTokenSHA := sha\<rparr>\<rparr>)"

text \<open>The previous content of the token file is put back, or the new file removed.\<close>

definition restore_token :: "string \<Rightarrow> string option \<Rightarrow> world \<Rightarrow> io_op option \<times> world" where
  "restore_token token_file old w =
     (case old of
        Some data \<Rightarrow> writeFileAtomic token_file data mode_0600 w
      | None \<Rightarrow> removeFile token_file w)"

definition newline_end :: "string \<Rightarrow> string" where
  "newline_end token = token @ [char_of (10::nat)]"

text \<open>The part of \<^verbatim>\<open>RotateAdminToken\<close> that follows the update of the configuration.\<close>

definition finish_rotation ::
    "string \<Rightarrow> string option \<Rightarrow> string \<Rightarrow> (store_error + config) \<times> store \<times> world
     \<Rightarrow> (store_error + string) \<times> store \<times> world" where
  "finish_rotation token_file old token result =
     (case result of
        (Inr _, s, w) \<Rightarrow> (Inr token, s, w)
      | (Inl e, s, w) \<Rightarrow>
          if token_file = [] then (Inl e, s, w)
          else
            let (rollback, w1) = restore_token token_file old w in
            (Inl (case rollback of None \<Rightarrow> e | Some opn \<Rightarrow> RestoreTokenFailed e opn), s, w1))"

definition RotateAdminToken ::
    "(config \<Rightarrow> string) \<Rightarrow> string \<Rightarrow> store \<Rightarrow> world \<Rightarrow> (store_error + string) \<times> store \<times> world" where
  "RotateAdminToken enc token_file s w =
     (case GenerateToken w of
        (None, w1) \<Rightarrow> (Inl TokenEntropy, s, w1)
      | (Some token, w1) \<Rightarrow>
          if token_file = [] then
            finish_rotation token_file None token (updateLocked enc (set_admin (HashToken token)) s w1)
          else
            case readFile token_file w1 of
              (Inl _, w2) \<Rightarrow> (Inl ReadTokenFailed, s, w2)
            | (Inr old, w2) \<Rightarrow>
                case writeFileAtomic token_file (newline_end token) mode_0600 w2 of
                  (Some e, w3) \<Rightarrow> (Inl (WriteTokenFailed e), s, w3)
                | (None, w3) \<Rightarrow>
                    finish_rotation token_file old token
                      (updateLocked enc (set_admin (HashToken token)) s w3))"

definition RotateMonitorToken ::
    "(config \<Rightarrow> string) \<Rightarrow> store \<Rightarrow> world \<Rightarrow> (store_error + string) \<times> store \<times> world" where
  "RotateMonitorToken enc s w =
     (case GenerateToken w of
        (None, w1) \<Rightarrow> (Inl TokenEntropy, s, w1)
      | (Some token, w1) \<Rightarrow>
          case updateLocked enc (set_monitor (HashToken token)) s w1 of
            (Inl e, s1, w2) \<Rightarrow> (Inl e, s1, w2)
          | (Inr _, s1, w2) \<Rightarrow> (Inr token, s1, w2))"

definition RevokeMonitorToken ::
    "(config \<Rightarrow> string) \<Rightarrow> store \<Rightarrow> world \<Rightarrow> store_error option \<times> store \<times> world" where
  "RevokeMonitorToken enc s w =
     (let (r, s1, w1) = updateLocked enc (set_monitor []) s w in (err_of r, s1, w1))"

section \<open>Loading\<close>

text \<open>\<^verbatim>\<open>generateNFTConntrackMark\<close>: four random bytes at a time until the mark is not zero.\<close>

definition be32 :: "8 word list \<Rightarrow> 32 word" where
  "be32 bs = of_nat (base_value 256 (map unat bs))"

function mark_loop :: "8 word list \<Rightarrow> (32 word option \<times> 8 word list)" where
  "mark_loop bs =
     (if length bs < 4 then (None, bs)
      else if be32 (take 4 bs) \<noteq> 0 then (Some (be32 (take 4 bs)), drop 4 bs)
      else mark_loop (drop 4 bs))"
  by pat_completeness auto
termination by (relation "measure length") auto

declare mark_loop.simps [simp del]

definition generateNFTConntrackMark :: "world \<Rightarrow> 32 word option \<times> world" where
  "generateNFTConntrackMark w =
     (let (mark, rest) = mark_loop (entropy w) in (mark, w\<lparr>entropy := rest\<rparr>))"

text \<open>The steps between decoding and the administrator's token, shared with \<^verbatim>\<open>ReadOnly\<close>.\<close>

definition load_version :: "bool \<Rightarrow> config \<Rightarrow> config" where
  "load_version existed cfg =
     (if existed \<and> (c_Version cfg = 0 \<or> c_Version cfg = 1) then migrateV1 cfg
      else if c_Version cfg = 0 then cfg\<lparr>c_Version := CurrentVersion\<rparr>
      else cfg)"

definition load_web :: "web_config \<Rightarrow> web_config" where
  "load_web web =
     (let web1 = web\<lparr>w_Port := (if w_Port web = 0 then 9080 else w_Port web)\<rparr>;
          web2 = (if w_ListenIPv4 web1 = [] \<and> w_ListenIPv6 web1 = []
                  then web1\<lparr>w_ListenIPv4 := ''127.0.0.1'', w_ListenIPv6 := ''::1''\<rparr> else web1)
      in web2\<lparr>w_TLSCertFile := trim_space (w_TLSCertFile web2),
              w_TLSKeyFile := trim_space (w_TLSKeyFile web2),
              w_TLSMinVersion := trim_space (w_TLSMinVersion web2)\<rparr>)"

definition load_normalise :: "bool \<Rightarrow> config \<Rightarrow> config_error + config" where
  "load_normalise existed cfg =
     (let cfg1 = load_version existed cfg; web = load_web (c_Web cfg1) in
      rbind (NormalizeDNSServers (w_DNSServers web))
        (\<lambda>dns. Inr (applyConfigDefaults (cfg1\<lparr>c_Web := web\<lparr>w_DNSServers := dns\<rparr>\<rparr>))))"

text \<open>The administrator's token, generated when the configuration has none.\<close>

definition load_token :: "config \<Rightarrow> world \<Rightarrow> (string \<times> config) option \<times> world" where
  "load_token cfg w =
     (if w_AdminTokenSHA (c_Web cfg) \<noteq> [] then (Some ([], cfg), w)
      else
        case GenerateToken w of
          (None, w1) \<Rightarrow> (None, w1)
        | (Some token, w1) \<Rightarrow>
            (Some (token, cfg\<lparr>c_Web := (c_Web cfg)\<lparr>w_AdminTokenSHA := HashToken token\<rparr>\<rparr>), w1))"

text \<open>Validation, the token file, and the first save.\<close>

definition load_publish ::
    "(config \<Rightarrow> string) \<Rightarrow> string \<Rightarrow> string \<Rightarrow> string \<Rightarrow> config \<Rightarrow> world
     \<Rightarrow> (store_error + store \<times> string) \<times> world" where
  "load_publish enc path token_file token cfg w =
     (case Validate cfg of
        Some e \<Rightarrow> (Inl (InvalidConfig e), w)
      | None \<Rightarrow>
          let (terr, w1) = (if token \<noteq> [] \<and> token_file \<noteq> []
                            then writeFileAtomic token_file (newline_end token) mode_0600 w else (None, w)) in
          case terr of
            Some e \<Rightarrow> (Inl (WriteTokenFailed e), w1)
          | None \<Rightarrow>
              let s = \<lparr>s_path = path, s_cfg = cfg\<rparr>; (err, w2) = saveLocked enc s w1 in
              (case err of Some e \<Rightarrow> (Inl e, w2) | None \<Rightarrow> (Inr (s, token), w2)))"

text \<open>The configuration to start from: the decoded file, or the defaults with a fresh mark.\<close>

definition load_initial ::
    "(string \<Rightarrow> config \<Rightarrow> config option) \<Rightarrow> string \<Rightarrow> world \<Rightarrow> (store_error + bool \<times> config) \<times> world" where
  "load_initial dec path w =
     (case readFile path w of
        (Inl _, w1) \<Rightarrow> (Inl ReadConfigFailed, w1)
      | (Inr (Some data), w1) \<Rightarrow>
          ((case dec data Default of None \<Rightarrow> Inl DecodeFailed | Some cfg \<Rightarrow> Inr (True, cfg)), w1)
      | (Inr None, w1) \<Rightarrow>
          (case generateNFTConntrackMark w1 of
             (None, w2) \<Rightarrow> (Inl MarkEntropy, w2)
           | (Some mark, w2) \<Rightarrow> (Inr (False, Default\<lparr>c_NFT := (c_NFT Default)\<lparr>n_ConntrackMark := mark\<rparr>\<rparr>), w2)))"

definition LoadOrCreate ::
    "(config \<Rightarrow> string) \<Rightarrow> (string \<Rightarrow> config \<Rightarrow> config option) \<Rightarrow> string \<Rightarrow> string \<Rightarrow> world
     \<Rightarrow> (store_error + store \<times> string) \<times> world" where
  "LoadOrCreate enc dec path token_file w =
     (if path = [] then (Inl PathEmpty, w)
      else
        case load_initial dec path w of
          (Inl e, w1) \<Rightarrow> (Inl e, w1)
        | (Inr (existed, cfg), w1) \<Rightarrow>
            case load_normalise existed cfg of
              Inl e \<Rightarrow> (Inl (InvalidConfig e), w1)
            | Inr cfg1 \<Rightarrow>
                case load_token cfg1 w1 of
                  (None, w2) \<Rightarrow> (Inl TokenEntropy, w2)
                | (Some (token, cfg2), w2) \<Rightarrow> load_publish enc path token_file token cfg2 w2)"

text \<open>\<^verbatim>\<open>ReadOnly\<close> returns the configuration together with the verdict of \<^verbatim>\<open>Validate\<close>, and writes nothing.\<close>

definition ReadOnly ::
    "(string \<Rightarrow> config \<Rightarrow> config option) \<Rightarrow> string \<Rightarrow> world
     \<Rightarrow> (store_error + config \<times> config_error option) \<times> world" where
  "ReadOnly dec path w =
     (case readFile path w of
        (Inl _, w1) \<Rightarrow> (Inl ReadConfigFailed, w1)
      | (Inr None, w1) \<Rightarrow> (Inl ConfigMissing, w1)
      | (Inr (Some data), w1) \<Rightarrow>
          (if 4 * 1024 * 1024 < length data then Inl TooLarge
           else
             case dec data Default of
               None \<Rightarrow> Inl DecodeFailed
             | Some cfg \<Rightarrow>
                 (case load_normalise True cfg of
                    Inl e \<Rightarrow> Inl (InvalidConfig e)
                  | Inr cfg1 \<Rightarrow> Inr (cfg1, Validate cfg1)), w1))"

end
