(* ===== verification/Config_Store_Safety.thy ===== *)
theory Config_Store_Safety
  imports Config_Store
begin

text \<open>
  The store's invariant (its configuration is valid and the file holds exactly its encoding), kept by
  every operation, by every failed operation, and by every state a crash can leave on disk; and the
  transaction of the token file.
\<close>

abbreviation saved :: "(config \<Rightarrow> string) \<Rightarrow> config \<Rightarrow> (string \<times> nat) option" where
  "saved enc cfg \<equiv> Some (enc cfg @ [char_of (10::nat)], mode_0600)"

definition store_ok :: "(config \<Rightarrow> string) \<Rightarrow> store \<Rightarrow> world \<Rightarrow> bool" where
  "store_ok enc s w \<longleftrightarrow> Validate (s_cfg s) = None \<and> files w (s_path s) = saved enc (s_cfg s)"

text \<open>A state of the disk whose configuration file is the encoding of some valid configuration.\<close>

definition disk_valid :: "(config \<Rightarrow> string) \<Rightarrow> string \<Rightarrow> files \<Rightarrow> bool" where
  "disk_valid enc path fs \<longleftrightarrow> (\<exists>cfg. Validate cfg = None \<and> fs path = saved enc cfg)"

section \<open>One update\<close>

lemma saveLocked_facts:
  assumes "saveLocked enc s w = (err, w')"
  shows "files w' (s_path s) = (if err = None then saved enc (s_cfg s) else files w (s_path s))"
    and "extends_via (\<lambda>fs. fs (s_path s) \<in> {files w (s_path s), saved enc (s_cfg s)}) w w'"
  using assms writeFileAtomic_atomic[of "s_path s" "enc (s_cfg s) @ [char_of (10::nat)]" mode_0600 w]
  by (auto simp: saveLocked_def Let_def split: prod.splits)

lemma saveLocked_other:
  assumes "saveLocked enc s w = (err, w')" and "q \<noteq> s_path s" and "\<And>n. q \<noteq> temp_path (s_path s) n"
  shows "files w' q = files w q"
  using assms writeFileAtomic_other(1)[OF _ assms(2,3)]
  by (auto simp: saveLocked_def Let_def split: prod.splits)

lemma updateLocked_cases:
  assumes "updateLocked enc fn s w = (r, s', w')"
  obtains (rejected) e where "r = Inl e" "s' = s" "w' = w"
  | (failed) e c where "r = Inl e" "s' = s" "Validate c = None" "saveLocked enc (s\<lparr>s_cfg := c\<rparr>) w = (Some e, w')"
  | (written) c changed where "r = Inr c" "s' = s\<lparr>s_cfg := c\<rparr>" "Validate c = None"
      "fn (s_cfg s) = Inr changed" "c = changed\<lparr>c_Version := CurrentVersion\<rparr>"
      "saveLocked enc (s\<lparr>s_cfg := c\<rparr>) w = (None, w')"
proof (cases "fn (s_cfg s)")
  case (Inr changed)
  let ?c = "changed\<lparr>c_Version := CurrentVersion\<rparr>"
  obtain err w1 where sv: "saveLocked enc (s\<lparr>s_cfg := ?c\<rparr>) w = (err, w1)" by fastforce
  note u = assms[unfolded updateLocked_def Inr sum.case Let_def sv prod.case]
  show ?thesis
  proof (cases "Validate ?c")
    case None
    show ?thesis
    proof (cases err)
      case None': None
      show ?thesis
        by (rule written[OF _ _ None Inr refl]) (use u sv None None' in simp_all)
    next
      case (Some e)
      show ?thesis by (rule failed[OF _ _ None, of e]) (use u sv None Some in simp_all)
    qed
  next
    case (Some e)
    show ?thesis by (rule rejected[of "InvalidConfig e"]) (use u Some in simp_all)
  qed
qed (use assms rejected in \<open>auto simp: updateLocked_def\<close>)

lemma updateLocked_keeps:
  assumes "updateLocked enc fn s w = (r, s', w')" and "store_ok enc s w"
  shows "store_ok enc s' w'" and "s_path s' = s_path s"
    and "extends_via (disk_valid enc (s_path s)) w w'"
  using assms
proof (atomize(full), cases rule: updateLocked_cases)
  case rejected
  with assms(2) show "store_ok enc s' w' \<and> s_path s' = s_path s \<and> extends_via (disk_valid enc (s_path s)) w w'"
    by simp
next
  case (failed e c)
  have "extends_via (disk_valid enc (s_path s)) w w'"
    using saveLocked_facts(2)[OF failed(4)] failed(3) assms(2)
    by (auto simp: disk_valid_def store_ok_def elim!: extends_via_mono)
  with failed assms(2) saveLocked_facts(1)[OF failed(4)]
  show "store_ok enc s' w' \<and> s_path s' = s_path s \<and> extends_via (disk_valid enc (s_path s)) w w'"
    by (simp add: store_ok_def)
next
  case (written c)
  have "extends_via (disk_valid enc (s_path s)) w w'"
    using saveLocked_facts(2)[OF written(6)] written(3) assms(2)
    by (auto simp: disk_valid_def store_ok_def elim!: extends_via_mono)
  with written saveLocked_facts(1)[OF written(6)]
  show "store_ok enc s' w' \<and> s_path s' = s_path s \<and> extends_via (disk_valid enc (s_path s)) w w'"
    by (simp add: store_ok_def)
qed

lemma updateLocked_other:
  assumes "updateLocked enc fn s w = (r, s', w')" and "q \<noteq> s_path s" and "\<And>n. q \<noteq> temp_path (s_path s) n"
  shows "files w' q = files w q"
  using assms(1)
proof (cases rule: updateLocked_cases)
  case (failed e c)
  from saveLocked_other[OF failed(4)] assms show ?thesis by simp
next
  case (written c)
  from saveLocked_other[OF written(6)] assms show ?thesis by simp
qed simp

section \<open>The contract of a store operation\<close>

text \<open>
  A method of the store keeps the invariant, keeps its path, and shows a crash only valid
  configurations; a caller that has only this contract gets the same for any sequence of calls.
\<close>

locale store_method =
  fixes enc :: "config \<Rightarrow> string"
    and allowed :: "store \<Rightarrow> world \<Rightarrow> bool"
    and meth :: "store \<Rightarrow> world \<Rightarrow> 'r \<times> store \<times> world"
  assumes meth_keeps: "meth s w = (r, s', w') \<Longrightarrow> store_ok enc s w \<Longrightarrow> allowed s w \<Longrightarrow>
      store_ok enc s' w' \<and> s_path s' = s_path s \<and> extends_via (disk_valid enc (s_path s)) w w'"
begin

lemma crash_safe:
  assumes "meth s w = (r, s', w')" and "store_ok enc s w" and "allowed s w" and "fs \<in> set (history w')"
  shows "fs \<in> set (history w) \<or> disk_valid enc (s_path s) fs"
  using meth_keeps[OF assms(1-3)] assms(4) by (auto simp: extends_via_def)

lemma still_valid:
  "meth s w = (r, s', w') \<Longrightarrow> store_ok enc s w \<Longrightarrow> allowed s w \<Longrightarrow> Validate (s_cfg s') = None"
  using meth_keeps by (auto simp: store_ok_def)

end

interpretation update: store_method enc "\<lambda>_ _. True" "updateLocked enc fn" for enc fn
  by unfold_locales (auto dest: updateLocked_keeps)

interpretation update_if: store_method enc "\<lambda>_ _. True" "UpdateIfRevision enc enc1 expected fn"
  for enc enc1 expected fn
  by unfold_locales (auto simp: UpdateIfRevision_def dest: updateLocked_keeps split: if_splits)

interpretation revoke: store_method enc "\<lambda>_ _. True" "RevokeMonitorToken enc" for enc
  by unfold_locales (auto simp: RevokeMonitorToken_def Let_def dest: updateLocked_keeps split: prod.splits)

section \<open>Tokens\<close>

text \<open>Reading and drawing random bytes leave the disk as it is.\<close>

lemma GenerateToken_files:
  "GenerateToken w = (t, w') \<Longrightarrow> files w' = files w \<and> extends_via P w w'"
  by (auto simp: GenerateToken_def rand_read_def Let_def split: if_splits)

lemma readFile_facts:
  assumes "readFile path w = (r, w')"
  shows "files w' = files w" and "extends_via (\<lambda>fs. fs = files w) w w'"
    and "r = Inr v \<Longrightarrow> v = map_option fst (files w path)"
proof -
  have "io_run no_change w = (ok, u) \<Longrightarrow> files u = files w \<and> extends_via (\<lambda>fs. fs = files w) w u" for ok u
    by (auto simp: io_run_def Let_def no_change_def next_outcome_def extends_via_def split: list.splits)
  then show "files w' = files w" and "extends_via (\<lambda>fs. fs = files w) w w'"
    and "r = Inr v \<Longrightarrow> v = map_option fst (files w path)"
    using assms by (auto simp: readFile_def Let_def split: prod.splits if_splits)
qed

interpretation monitor: store_method enc "\<lambda>_ _. True" "RotateMonitorToken enc" for enc
proof unfold_locales
  fix s w r s' w'
  assume a: "RotateMonitorToken enc s w = (r, s', w')" and ok: "store_ok enc s w"
  obtain t w1 where g: "GenerateToken w = (t, w1)" by fastforce
  note f = GenerateToken_files[OF g]
  then have ok1: "store_ok enc s w1" using ok by (simp add: store_ok_def)
  show "store_ok enc s' w' \<and> s_path s' = s_path s \<and> extends_via (disk_valid enc (s_path s)) w w'"
  proof (cases t)
    case (Some token)
    obtain q s2 w2 where u: "updateLocked enc (set_monitor (HashToken token)) s w1 = (q, s2, w2)"
      by (metis prod_cases3)
    from updateLocked_keeps[OF u ok1] f a g Some u show ?thesis
      by (auto simp: RotateMonitorToken_def split: sum.splits intro: extends_via_trans)
  qed (use a g f ok1 in \<open>auto simp: RotateMonitorToken_def\<close>)
qed

text \<open>Two paths whose files and temporary files do not meet.\<close>

definition separate :: "string \<Rightarrow> string \<Rightarrow> bool" where
  "separate p q \<longleftrightarrow> p \<noteq> q \<and> (\<forall>n. p \<noteq> temp_path q n) \<and> (\<forall>n. q \<noteq> temp_path p n)"

lemma removeFile_other:
  assumes "removeFile q w = (err, w')" and "p \<noteq> q"
  shows "files w' p = files w p" and "extends_via (\<lambda>fs. fs p = files w p) w w'"
proof -
  obtain ok w1 where r: "io_run (remove_step q) w = (ok, w1)" by fastforce
  with assms have "w' = w1" by (simp add: removeFile_def)
  with io_run_keeps[OF r, of p] assms(2)
  show "files w' p = files w p" and "extends_via (\<lambda>fs. fs p = files w p) w w'" by auto
qed

lemma restore_token_other:
  assumes "restore_token q old w = (err, w')" and "separate p q"
  shows "files w' p = files w p" and "extends_via (\<lambda>fs. fs p = files w p) w w'"
  using assms writeFileAtomic_other[of q _ mode_0600 w err w' p] removeFile_other[of q w err w' p]
  by (auto simp: restore_token_def separate_def split: option.splits)

lemma restore_token_done:
  assumes "restore_token q old w = (None, w')"
  shows "map_option fst (files w' q) = old"
proof (cases old)
  case (Some data)
  with assms writeFileAtomic_atomic(1)[of q data mode_0600 w None w'] show ?thesis
    by (simp add: restore_token_def)
next
  case None
  obtain ok w1 where r: "io_run (remove_step q) w = (ok, w1)" by fastforce
  with None assms have "ok" and "w' = w1"
    by (auto simp: restore_token_def removeFile_def Let_def split: if_splits)
  with io_run_Fine[of "remove_step q" w w1] r None show ?thesis by (simp add: remove_step_def)
qed

text \<open>
  The outcomes of a rotation: the token file and the configuration change together, or a failure
  leaves both as they were (unless putting the token file back failed, which the error says).
\<close>

lemma finish_rotation_facts:
  assumes run: "finish_rotation tf old token (r1, s1, w1) = (r, s', w')"
    and ok: "store_ok enc s1 w1" and sep: "tf = [] \<or> separate (s_path s1) tf"
  shows "s' = s1" and "store_ok enc s' w'"
    and "extends_via (\<lambda>fs. fs (s_path s1) = files w1 (s_path s1)) w1 w'"
    and "r = Inr t \<Longrightarrow> (\<exists>c. r1 = Inr c) \<and> t = token \<and> w' = w1"
    and "r = Inl e \<Longrightarrow> (\<exists>e1. r1 = Inl e1)
           \<and> (tf \<noteq> [] \<longrightarrow> map_option fst (files w' tf) = old \<or> (\<exists>e1 opn. e = RestoreTokenFailed e1 opn))"
proof -
  have "s' = s1 \<and> store_ok enc s' w' \<and> extends_via (\<lambda>fs. fs (s_path s1) = files w1 (s_path s1)) w1 w'
    \<and> (r = Inr t \<longrightarrow> (\<exists>c. r1 = Inr c) \<and> t = token \<and> w' = w1)
    \<and> (r = Inl e \<longrightarrow> (\<exists>e1. r1 = Inl e1)
        \<and> (tf \<noteq> [] \<longrightarrow> map_option fst (files w' tf) = old \<or> (\<exists>e1 opn. e = RestoreTokenFailed e1 opn)))"
  proof (cases r1)
    case (Inl e1)
    show ?thesis
    proof (cases "tf = []")
      case False
      obtain rb w2 where rb: "restore_token tf old w1 = (rb, w2)" by fastforce
      have "separate (s_path s1) tf" using sep False by simp
      note o = restore_token_other[OF rb this]
      have "rb = None \<Longrightarrow> map_option fst (files w2 tf) = old" using restore_token_done rb by blast
      with run Inl False rb o ok show ?thesis
        by (auto simp: finish_rotation_def store_ok_def split: option.splits)
    qed (use run Inl ok in \<open>auto simp: finish_rotation_def\<close>)
  qed (use run ok in \<open>auto simp: finish_rotation_def\<close>)
  then show "s' = s1" and "store_ok enc s' w'"
    and "extends_via (\<lambda>fs. fs (s_path s1) = files w1 (s_path s1)) w1 w'"
    and "r = Inr t \<Longrightarrow> (\<exists>c. r1 = Inr c) \<and> t = token \<and> w' = w1"
    and "r = Inl e \<Longrightarrow> (\<exists>e1. r1 = Inl e1)
           \<and> (tf \<noteq> [] \<longrightarrow> map_option fst (files w' tf) = old \<or> (\<exists>e1 opn. e = RestoreTokenFailed e1 opn))"
    by blast+
qed

text \<open>The stages of a rotation with a token file.\<close>

lemma RotateAdminToken_cases:
  assumes "RotateAdminToken enc tf s w = (r, s', w')" and "tf \<noteq> []"
  obtains (entropy) "r = Inl TokenEntropy" "s' = s" "GenerateToken w = (None, w')"
  | (unreadable) token w1 e where "r = Inl ReadTokenFailed" "s' = s" "GenerateToken w = (Some token, w1)"
      "readFile tf w1 = (Inl e, w')"
  | (unwritten) token w1 old w2 e where "r = Inl (WriteTokenFailed e)" "s' = s"
      "GenerateToken w = (Some token, w1)" "readFile tf w1 = (Inr old, w2)"
      "writeFileAtomic tf (newline_end token) mode_0600 w2 = (Some e, w')"
  | (update) token w1 old w2 w3 where "GenerateToken w = (Some token, w1)"
      "readFile tf w1 = (Inr old, w2)"
      "writeFileAtomic tf (newline_end token) mode_0600 w2 = (None, w3)"
      "finish_rotation tf old token (updateLocked enc (set_admin (HashToken token)) s w3) = (r, s', w')"
  using assms
  by (auto simp: RotateAdminToken_def split: option.splits prod.splits sum.splits)

lemma token_write_facts:
  assumes g: "GenerateToken w = (Some token, w1)" and rd: "readFile tf w1 = (Inr old, w2)"
    and wr: "writeFileAtomic tf (newline_end token) mode_0600 w2 = (err, w3)"
    and ok: "store_ok enc s w" and sep: "separate (s_path s) tf"
  shows "store_ok enc s w3" and "extends_via (disk_valid enc (s_path s)) w w3"
    and "old = map_option fst (files w tf)"
    and "files w3 tf = (if err = None then Some (newline_end token, mode_0600) else files w tf)"
proof -
  note f1 = GenerateToken_files[OF g, of "disk_valid enc (s_path s)"] and f2 = readFile_facts[OF rd]
  from sep have "s_path s \<noteq> tf" "\<And>n. s_path s \<noteq> temp_path tf n" by (auto simp: separate_def)
  note o = writeFileAtomic_other[OF wr this]
  note a = writeFileAtomic_atomic[OF wr]
  have same: "files w2 = files w" using f1 f2(1) by simp
  with o(1) ok show "store_ok enc s w3" by (simp add: store_ok_def)
  have valid: "disk_valid enc (s_path s) (files w)" using ok by (auto simp: disk_valid_def store_ok_def)
  have "extends_via (disk_valid enc (s_path s)) w1 w2"
    using f2(2) f1 valid by (auto elim!: extends_via_mono)
  moreover have "extends_via (disk_valid enc (s_path s)) w2 w3"
    using o(2) same ok by (auto simp: disk_valid_def store_ok_def elim!: extends_via_mono)
  ultimately show "extends_via (disk_valid enc (s_path s)) w w3"
    using f1 by (blast intro: extends_via_trans)
  show "old = map_option fst (files w tf)" using f2(3) f1 by simp
  show "files w3 tf = (if err = None then Some (newline_end token, mode_0600) else files w tf)"
    using a(1) same by simp
qed

lemma RotateAdminToken_facts:
  assumes run: "RotateAdminToken enc tf s w = (r, s', w')" and ok: "store_ok enc s w"
    and tf: "tf \<noteq> []" and sep: "separate (s_path s) tf"
  shows "store_ok enc s' w' \<and> s_path s' = s_path s \<and> extends_via (disk_valid enc (s_path s)) w w'"
    and "r = Inr token \<Longrightarrow> files w' tf = Some (newline_end token, mode_0600)
           \<and> w_AdminTokenSHA (c_Web (s_cfg s')) = HashToken token \<and> (\<exists>bs. length bs = 32 \<and> token = hex_encode bs)"
    and "r = Inl e \<Longrightarrow> s' = s
           \<and> (map_option fst (files w' tf) = map_option fst (files w tf) \<or> (\<exists>e1 opn. e = RestoreTokenFailed e1 opn))"
proof -
  have "(store_ok enc s' w' \<and> s_path s' = s_path s \<and> extends_via (disk_valid enc (s_path s)) w w')
    \<and> (r = Inr token \<longrightarrow> files w' tf = Some (newline_end token, mode_0600)
           \<and> w_AdminTokenSHA (c_Web (s_cfg s')) = HashToken token \<and> (\<exists>bs. length bs = 32 \<and> token = hex_encode bs))
    \<and> (r = Inl e \<longrightarrow> s' = s
           \<and> (map_option fst (files w' tf) = map_option fst (files w tf) \<or> (\<exists>e1 opn. e = RestoreTokenFailed e1 opn)))"
    using run tf
  proof (cases rule: RotateAdminToken_cases)
    case entropy
    with GenerateToken_files[OF entropy(3)] ok show ?thesis by (auto simp: store_ok_def)
  next
    case (unreadable t w1 e1)
    have "disk_valid enc (s_path s) (files w)" using ok by (auto simp: disk_valid_def store_ok_def)
    with unreadable GenerateToken_files[OF unreadable(3), of "disk_valid enc (s_path s)"]
      readFile_facts(1,2)[OF unreadable(4)] ok
    show ?thesis by (auto simp: store_ok_def intro: extends_via_trans elim!: extends_via_mono)
  next
    case (unwritten t w1 old w2 e1)
    with token_write_facts[OF unwritten(3-5) ok sep] show ?thesis by simp
  next
    case (update t w1 old w2 w3)
    note tw = token_write_facts[OF update(1-3) ok sep]
    obtain q s4 w4 where u: "updateLocked enc (set_admin (HashToken t)) s w3 = (q, s4, w4)"
      by (metis prod_cases3)
    note k = updateLocked_keeps[OF u tw(1)]
    have sep4: "tf = [] \<or> separate (s_path s4) tf" using k(2) sep by simp
    note fr = finish_rotation_facts[OF update(4)[unfolded u] k(1) sep4]
    have dv: "disk_valid enc (s_path s) (files w4)"
      using k(1,2) by (auto simp: disk_valid_def store_ok_def)
    have "extends_via (disk_valid enc (s_path s)) w4 w'"
      using fr(3) k(2) dv by (auto simp: disk_valid_def elim!: extends_via_mono)
    then have ext: "extends_via (disk_valid enc (s_path s)) w w'"
      using tw(2) k(3) by (blast intro: extends_via_trans)
    have other: "files w4 tf = files w3 tf"
      using updateLocked_other[OF u, of tf] sep by (auto simp: separate_def)
    have good: "s' = s4 \<and> files w' tf = Some (newline_end token, mode_0600)
        \<and> w_AdminTokenSHA (c_Web (s_cfg s')) = HashToken token \<and> (\<exists>bs. length bs = 32 \<and> token = hex_encode bs)"
      if "r = Inr token"
    proof -
      from fr(4)[OF that] obtain c where c: "q = Inr c" "token = t" "w' = w4" by blast
      from u c(1) have "w_AdminTokenSHA (c_Web (s_cfg s4)) = HashToken t"
        by (cases rule: updateLocked_cases) (auto simp: set_admin_def)
      moreover have "\<exists>bs. length bs = 32 \<and> t = hex_encode bs"
        using update(1) by (auto simp: GenerateToken_def rand_read_def Let_def split: if_splits)
      ultimately show ?thesis using c other tw(4) fr(1) by simp
    qed
    have bad: "s' = s \<and> (map_option fst (files w' tf) = map_option fst (files w tf)
        \<or> (\<exists>e1 opn. e = RestoreTokenFailed e1 opn))" if "r = Inl e"
    proof -
      from fr(5)[OF that] obtain e1 where "q = Inl e1" by blast
      with u have "s4 = s" by (cases rule: updateLocked_cases) auto
      with fr(5)[OF that] fr(1) tw(3) tf show ?thesis by simp
    qed
    show ?thesis using good bad ext fr(1,2) k(2) by blast
  qed
  then show "store_ok enc s' w' \<and> s_path s' = s_path s \<and> extends_via (disk_valid enc (s_path s)) w w'"
    and "r = Inr token \<Longrightarrow> files w' tf = Some (newline_end token, mode_0600)
           \<and> w_AdminTokenSHA (c_Web (s_cfg s')) = HashToken token \<and> (\<exists>bs. length bs = 32 \<and> token = hex_encode bs)"
    and "r = Inl e \<Longrightarrow> s' = s
           \<and> (map_option fst (files w' tf) = map_option fst (files w tf) \<or> (\<exists>e1 opn. e = RestoreTokenFailed e1 opn))"
    by blast+
qed

interpretation rotate: store_method enc "\<lambda>s _. tf \<noteq> [] \<and> separate (s_path s) tf" "RotateAdminToken enc tf"
  for enc tf
  by unfold_locales (use RotateAdminToken_facts(1) in blast)

section \<open>The token file after a rotation\<close>

lemma trim_newline_end:
  assumes "s \<noteq> []" and "\<forall>c\<in>set s. is_printable c"
  shows "trim_space (newline_end s) = s"
proof -
  have "\<not> starts_with_seq space_seqs (newline_end s)"
    using assms by (intro starts_with_printable) (auto dest: space_seqs_ends simp: newline_end_def)
  then have left: "trim_left (newline_end s) = newline_end s"
    by (simp add: trim_left_def trim_seqs_id)
  have hit: "find (\<lambda>q. q \<noteq> [] \<and> has_prefix q (char_of (10::nat) # t)) (map rev space_seqs) = Some [char_of (10::nat)]"
    for t by (simp add: space_seqs_def has_prefix_iff)
  have "\<not> starts_with_seq (map rev space_seqs) (rev s)"
    using assms by (intro starts_with_printable) (auto dest: space_seqs_ends simp: hd_rev)
  then have "trim_seqs (map rev space_seqs) (char_of (10::nat) # rev s) = rev s"
    by (subst trim_seqs.simps, subst hit) (simp add: trim_seqs_id)
  with left show ?thesis
    by (simp add: trim_space_def trim_right_def newline_end_def)
qed

lemma trim_token:
  assumes "length bs = 32"
  shows "trim_space (newline_end (hex_encode bs)) = hex_encode bs"
proof (rule trim_newline_end)
  show "hex_encode bs \<noteq> []"
    using hex_encode_length[of bs] assms by auto
  show "\<forall>c\<in>set (hex_encode bs). is_printable c"
    using hex_encode_is_hex hex_printable by blast
qed

lemma TokenFileConsistent_content:
  assumes "files w tf = Some (newline_end (hex_encode bs), m)" and "length bs = 32"
    and "outcomes w = []"
  shows "fst (TokenFileConsistent tf (HashToken (hex_encode bs)) w)"
  using assms
  by (auto simp: TokenFileConsistent_def readFile_def io_run_def Let_def next_outcome_def no_change_def trim_token)

section \<open>Any sequence of calls\<close>

text \<open>
  One call of a method, or the passage of time: new outcomes, random bytes and temporary names, and
  changes of other files by other programs.
\<close>

inductive store_step ::
    "(config \<Rightarrow> string) \<Rightarrow> (config \<Rightarrow> string) \<Rightarrow> store \<times> world \<Rightarrow> store \<times> world \<Rightarrow> bool"
  for enc enc1 where
  call_update: "updateLocked enc fn s w = (r, s', w') \<Longrightarrow> store_step enc enc1 (s, w) (s', w')"
| call_update_if:
    "UpdateIfRevision enc enc1 expected fn s w = (r, s', w') \<Longrightarrow> store_step enc enc1 (s, w) (s', w')"
| call_rotate:
    "RotateAdminToken enc tf s w = (r, s', w') \<Longrightarrow> tf \<noteq> [] \<Longrightarrow> separate (s_path s) tf \<Longrightarrow>
     store_step enc enc1 (s, w) (s', w')"
| call_monitor: "RotateMonitorToken enc s w = (r, s', w') \<Longrightarrow> store_step enc enc1 (s, w) (s', w')"
| call_revoke: "RevokeMonitorToken enc s w = (r, s', w') \<Longrightarrow> store_step enc enc1 (s, w) (s', w')"
| environment:
    "files w' (s_path s) = files w (s_path s) \<Longrightarrow> history w' = history w \<Longrightarrow>
     store_step enc enc1 (s, w) (s, w')"

inductive_cases store_step_cases: "store_step enc enc1 (s, w) (s', w')"

lemma store_step_keeps:
  assumes "store_step enc enc1 (s, w) (s', w')" and "store_ok enc s w"
  shows "store_ok enc s' w' \<and> s_path s' = s_path s \<and> extends_via (disk_valid enc (s_path s)) w w'"
  using assms(1)
proof (cases rule: store_step.cases)
  case call_update
  from update.meth_keeps[OF call_update assms(2)] show ?thesis by simp
next
  case call_update_if
  from update_if.meth_keeps[OF call_update_if assms(2)] show ?thesis by simp
next
  case call_rotate
  from rotate.meth_keeps[OF call_rotate(1) assms(2)] call_rotate show ?thesis by simp
next
  case call_monitor
  from monitor.meth_keeps[OF call_monitor assms(2)] show ?thesis by simp
next
  case call_revoke
  from revoke.meth_keeps[OF call_revoke assms(2)] show ?thesis by simp
next
  case environment
  with assms(2) show ?thesis by (auto simp: store_ok_def extends_via_def)
qed

lemma store_steps_keep:
  assumes "(store_step enc enc1)\<^sup>*\<^sup>* (s, w) (s', w')" and "store_ok enc s w"
  shows "store_ok enc s' w' \<and> s_path s' = s_path s \<and> extends_via (disk_valid enc (s_path s)) w w'"
  using assms(1)
proof (induction rule: rtranclp_induct2)
  case refl
  with assms(2) show ?case by simp
next
  case (step s1 w1 s2 w2)
  with store_step_keeps[OF step(2)] show ?case by (auto intro: extends_via_trans)
qed

section \<open>Loading\<close>

text \<open>A successful load leaves the invariant; a failed one never replaces the file by anything else.\<close>

lemma load_publish_facts:
  assumes run: "load_publish enc path tf token cfg w = (r, w')" and sep: "tf = [] \<or> separate path tf"
  shows "r = Inr (s, t) \<Longrightarrow> s = \<lparr>s_path = path, s_cfg = cfg\<rparr> \<and> t = token \<and> store_ok enc s w'"
    and "r = Inl e \<Longrightarrow> files w' path = files w path"
    and "r = Inr (s, t) \<Longrightarrow> token \<noteq> [] \<Longrightarrow> tf \<noteq> [] \<Longrightarrow> files w' tf = Some (newline_end token, mode_0600)"
proof -
  obtain terr w1 where tw: "(if token \<noteq> [] \<and> tf \<noteq> []
      then writeFileAtomic tf (newline_end token) mode_0600 w else (None, w)) = (terr, w1)" by fastforce
  obtain err w2 where sv: "saveLocked enc \<lparr>s_path = path, s_cfg = cfg\<rparr> w1 = (err, w2)" by fastforce
  have same: "files w1 path = files w path"
    using tw sep writeFileAtomic_other(1)[of tf _ mode_0600 w terr w1 path]
    by (auto simp: separate_def split: if_splits)
  have tok: "terr = None \<Longrightarrow> token \<noteq> [] \<Longrightarrow> tf \<noteq> [] \<Longrightarrow> files w1 tf = Some (newline_end token, mode_0600)"
    using tw writeFileAtomic_atomic(1)[of tf _ mode_0600 w terr w1] by simp
  have other: "tf \<noteq> [] \<Longrightarrow> files w2 tf = files w1 tf"
    using saveLocked_other[OF sv, of tf] sep by (auto simp: separate_def)
  note f = saveLocked_facts(1)[OF sv]
  note u = run[unfolded load_publish_def tw sv Let_def prod.case]
  show "r = Inr (s, t) \<Longrightarrow> s = \<lparr>s_path = path, s_cfg = cfg\<rparr> \<and> t = token \<and> store_ok enc s w'"
    using u f sv by (auto simp: store_ok_def split: option.splits)
  show "r = Inl e \<Longrightarrow> files w' path = files w path"
    using u f sv same by (auto split: option.splits)
  show "r = Inr (s, t) \<Longrightarrow> token \<noteq> [] \<Longrightarrow> tf \<noteq> [] \<Longrightarrow> files w' tf = Some (newline_end token, mode_0600)"
    using u sv tok other by (auto split: option.splits)
qed

lemma load_initial_files: "load_initial dec path w = (r, w') \<Longrightarrow> files w' = files w"
  by (auto simp: load_initial_def generateNFTConntrackMark_def Let_def
      dest: readFile_facts(1) split: prod.splits sum.splits option.splits)

lemma load_token_files: "load_token cfg w = (r, w') \<Longrightarrow> files w' = files w"
  by (auto simp: load_token_def dest: GenerateToken_files split: prod.splits option.splits if_splits)

lemma load_token_admin:
  "load_token cfg w = (Some (token, cfg'), w') \<Longrightarrow>
   token = [] \<and> cfg' = cfg \<or> w_AdminTokenSHA (c_Web cfg') = HashToken token \<and> (\<exists>bs. length bs = 32 \<and> token = hex_encode bs)"
  by (auto simp: load_token_def GenerateToken_def rand_read_def Let_def split: option.splits if_splits)

lemma LoadOrCreate_cases:
  assumes "LoadOrCreate enc dec path tf w = (r, w')"
  obtains (early) e where "r = Inl e" "files w' = files w"
  | (publish) token cfg w2 where "load_publish enc path tf token cfg w2 = (r, w')" "files w2 = files w"
      "token = [] \<or> w_AdminTokenSHA (c_Web cfg) = HashToken token"
proof -
  obtain i w1 where i: "load_initial dec path w = (i, w1)" by fastforce
  note f1 = load_initial_files[OF i]
  show ?thesis
  proof (cases "path = [] \<or> (\<exists>e. i = Inl e)")
    case True
    then show ?thesis
      by (intro early[of "projl r"]) (use assms i f1 in \<open>auto simp: LoadOrCreate_def split: if_splits\<close>)
  next
    case False
    then obtain existed cfg where ok: "i = Inr (existed, cfg)" "path \<noteq> []" by (cases i) auto
    show ?thesis
    proof (cases "load_normalise existed cfg")
      case (Inl e)
      with assms i ok f1 show ?thesis by (intro early) (auto simp: LoadOrCreate_def)
    next
      case (Inr cfg1)
      obtain t w2 where t: "load_token cfg1 w1 = (t, w2)" by fastforce
      note f2 = load_token_files[OF t]
      show ?thesis
      proof (cases t)
        case None
        with assms i ok f1 f2 Inr t show ?thesis by (intro early) (auto simp: LoadOrCreate_def)
      next
        case (Some tc)
        then obtain token cfg2 where tc: "t = Some (token, cfg2)" by (cases tc) auto
        with assms i ok Inr t have "load_publish enc path tf token cfg2 w2 = (r, w')"
          by (simp add: LoadOrCreate_def)
        moreover from load_token_admin t tc have "token = [] \<or> w_AdminTokenSHA (c_Web cfg2) = HashToken token"
          by blast
        ultimately show ?thesis using f1 f2 publish[of token cfg2 w2] by simp
      qed
    qed
  qed
qed

lemma LoadOrCreate_facts:
  assumes run: "LoadOrCreate enc dec path tf w = (r, w')" and sep: "tf = [] \<or> separate path tf"
  shows "r = Inr (s, token) \<Longrightarrow> s_path s = path \<and> store_ok enc s w'"
    and "r = Inl e \<Longrightarrow> files w' path = files w path"
    and "r = Inr (s, token) \<Longrightarrow> token \<noteq> [] \<Longrightarrow>
           w_AdminTokenSHA (c_Web (s_cfg s)) = HashToken token
           \<and> (tf \<noteq> [] \<longrightarrow> files w' tf = Some (newline_end token, mode_0600))"
proof -
  have "(r = Inr (s, token) \<longrightarrow> s_path s = path \<and> store_ok enc s w')
    \<and> (r = Inl e \<longrightarrow> files w' path = files w path)
    \<and> (r = Inr (s, token) \<longrightarrow> token \<noteq> [] \<longrightarrow>
           w_AdminTokenSHA (c_Web (s_cfg s)) = HashToken token
           \<and> (tf \<noteq> [] \<longrightarrow> files w' tf = Some (newline_end token, mode_0600)))"
    using run
  proof (cases rule: LoadOrCreate_cases)
    case (publish tk cfg w2)
    note f = load_publish_facts[OF publish(1) sep]
    show ?thesis using f publish by auto
  qed auto
  then show "r = Inr (s, token) \<Longrightarrow> s_path s = path \<and> store_ok enc s w'"
    and "r = Inl e \<Longrightarrow> files w' path = files w path"
    and "r = Inr (s, token) \<Longrightarrow> token \<noteq> [] \<Longrightarrow>
           w_AdminTokenSHA (c_Web (s_cfg s)) = HashToken token
           \<and> (tf \<noteq> [] \<longrightarrow> files w' tf = Some (newline_end token, mode_0600))"
    by blast+
qed

end
