(* ===== verification/ACL.thy ===== *)
theory ACL
  imports Config_Web
begin

text \<open>
  \<^verbatim>\<open>internal/acl/acl.go\<close>: the snapshot of prefixes that may reach the management interface, its
  replacement on a configuration change, and the check of an address.  The interfaces of the host are
  an argument: for each one whether it is up and the texts of its addresses, when they can be read.
\<close>

record snapshot =
  a_Auto :: "prefix list"
  a_Whitelist :: "prefix list"
  a_Bootstrap :: "prefix list"
  a_Strict :: bool

datatype acl_error =
    BadWhitelist config_error
  | BadBootstrap config_error
  | BadPrefix string
  | StrictAutoLAN
  | StrictEmpty
  | Interfaces

type_synonym interfaces = "(bool \<times> string list option) list"

definition dedupe :: "prefix list \<Rightarrow> prefix list" where
  "dedupe ps = map_values_sorted (map (\<lambda>p. (prefix_string (masked p), masked p)) ps)"

text \<open>The parsing of the normalised entries in \<^verbatim>\<open>parsePrefixes\<close>.\<close>

fun parse_all :: "string list \<Rightarrow> acl_error + prefix list" where
  "parse_all [] = Inr []"
| "parse_all (s # ss) =
     (case parse_prefix s of
        None \<Rightarrow> Inl (BadPrefix s)
      | Some p \<Rightarrow> rbind (parse_all ss) (\<lambda>ps. Inr (p # ps)))"

definition parsePrefixes :: "(config_error \<Rightarrow> acl_error) \<Rightarrow> string list \<Rightarrow> acl_error + prefix list" where
  "parsePrefixes wrap items =
     (case NormalizeWhitelist items of Inl e \<Rightarrow> Inl (wrap e) | Inr normalized \<Rightarrow> parse_all normalized)"

text \<open>The prefix an interface address contributes.\<close>

definition lan_prefix :: "string \<Rightarrow> prefix option" where
  "lan_prefix raw =
     (case parse_prefix raw of
        None \<Rightarrow> None
      | Some p \<Rightarrow>
          let ip = unmap (paddr p);
              q = (if is4in6 (paddr p) then prefix_from ip (pbits p - 96) else p)
          in if is_loopback ip \<or> is_private ip \<or> is_link_local_unicast ip then Some (masked q) else None)"

definition DetectLANPrefixes :: "interfaces option \<Rightarrow> acl_error + prefix list" where
  "DetectLANPrefixes ifaces =
     (case ifaces of
        None \<Rightarrow> Inl Interfaces
      | Some is \<Rightarrow>
          Inr (dedupe (List.map_filter lan_prefix
                 (concat (map (\<lambda>(up, addrs). if up then (case addrs of None \<Rightarrow> [] | Some as \<Rightarrow> as) else []) is)))))"

definition loopback_prefixes :: "prefix list" where
  "loopback_prefixes = [Prefix (IP4 0x7F000000) 8, Prefix (IP6 1 []) 128]"

text \<open>The snapshot \<^verbatim>\<open>Refresh\<close> computes before it publishes it.\<close>

definition build_snapshot ::
    "interfaces option \<Rightarrow> bool \<Rightarrow> bool \<Rightarrow> string list \<Rightarrow> string list \<Rightarrow> acl_error + snapshot" where
  "build_snapshot ifaces auto_lan strict whitelist bootstrap =
     rbind (parsePrefixes BadWhitelist whitelist) (\<lambda>white.
     rbind (parsePrefixes BadBootstrap bootstrap) (\<lambda>boot.
       if strict \<and> auto_lan then Inl StrictAutoLAN
       else if strict \<and> white = [] then Inl StrictEmpty
       else
         rbind (if auto_lan \<and> \<not> strict then DetectLANPrefixes ifaces else Inr []) (\<lambda>detected.
           Inr \<lparr>a_Auto = dedupe (loopback_prefixes @ detected),
                a_Whitelist = white,
                a_Bootstrap = (if strict then [] else boot),
                a_Strict = strict\<rparr>)))"

text \<open>The manager is its published snapshot; a failed refresh publishes nothing.\<close>

definition Refresh ::
    "interfaces option \<Rightarrow> bool \<Rightarrow> bool \<Rightarrow> string list \<Rightarrow> string list \<Rightarrow> snapshot option
     \<Rightarrow> acl_error option \<times> snapshot option" where
  "Refresh ifaces auto_lan strict whitelist bootstrap m =
     (case build_snapshot ifaces auto_lan strict whitelist bootstrap of
        Inl e \<Rightarrow> (Some e, m)
      | Inr s \<Rightarrow> (None, Some s))"

definition New ::
    "interfaces option \<Rightarrow> bool \<Rightarrow> bool \<Rightarrow> string list \<Rightarrow> string list \<Rightarrow> acl_error + snapshot option" where
  "New ifaces auto_lan strict whitelist bootstrap =
     (case Refresh ifaces auto_lan strict whitelist bootstrap None of
        (Some e, _) \<Rightarrow> Inl e | (None, m) \<Rightarrow> Inr m)"

definition Allowed :: "snapshot option \<Rightarrow> addr \<Rightarrow> bool" where
  "Allowed m address =
     (let a = (if is4in6 address then unmap address else address) in
      case m of
        None \<Rightarrow> False
      | Some s \<Rightarrow> list_ex (list_ex (\<lambda>p. prefix_contains p a)) [a_Auto s, a_Whitelist s, a_Bootstrap s])"

section \<open>What the lists permit\<close>

definition any_contains :: "prefix list \<Rightarrow> addr \<Rightarrow> bool" where
  "any_contains ps a \<longleftrightarrow> (\<exists>p\<in>set ps. prefix_contains p a)"

definition prefix_fine :: "prefix \<Rightarrow> bool" where
  "prefix_fine p \<longleftrightarrow> prefix_ok p \<or> pbits p = - 1"

lemma any_contains_append [simp]: "any_contains (ps @ qs) a \<longleftrightarrow> any_contains ps a \<or> any_contains qs a"
  by (auto simp: any_contains_def)

lemma masked_no_prefix: "pbits p = - 1 \<Longrightarrow> masked p = no_prefix"
  by (simp add: masked_def)

lemma no_prefix_contains [simp]: "\<not> prefix_contains no_prefix a"
  by (simp add: prefix_contains_def no_prefix_def prefix_valid_def)

lemma masked_contains: "prefix_fine p \<Longrightarrow> prefix_contains (masked p) a = prefix_contains p a"
  by (auto simp: prefix_fine_def prefix_contains_masked masked_no_prefix)
    (simp add: prefix_contains_def prefix_valid_def)

lemma masked_fine: "prefix_fine p \<Longrightarrow> prefix_ok (masked p) \<or> masked p = no_prefix"
  by (auto simp: prefix_fine_def masked_facts masked_no_prefix)

lemma masked_fine': "prefix_fine p \<Longrightarrow> prefix_fine (masked p)"
  using masked_fine[of p] by (auto simp: prefix_fine_def no_prefix_def)

lemma prefix_from_fine: "prefix_fine (prefix_from a b)"
  by (auto simp: prefix_fine_def prefix_from_def prefix_ok_def)

lemma prefix_string_no_prefix: "prefix_ok p \<Longrightarrow> prefix_string p \<noteq> prefix_string no_prefix"
proof
  assume ok: "prefix_ok p" and eq: "prefix_string p = prefix_string no_prefix"
  have "CHR ''/'' \<in> set (prefix_string p)" using prefix_ok_valid[OF ok] by (simp add: prefix_string_def)
  moreover have "CHR ''/'' \<notin> set (prefix_string no_prefix)"
    by (simp add: prefix_string_def no_prefix_def prefix_valid_def)
  ultimately show False by (simp add: eq)
qed

text \<open>Removing duplicates by their text loses no prefix.\<close>

lemma dedupe_set:
  assumes "\<forall>p\<in>set ps. prefix_fine p"
  shows "set (dedupe ps) = masked ` set ps"
proof -
  have "v = w" if "(k, v) \<in> set (map (\<lambda>p. (prefix_string (masked p), masked p)) ps)"
      "(k, w) \<in> set (map (\<lambda>p. (prefix_string (masked p), masked p)) ps)" for k v w
  proof -
    from that assms masked_fine have "prefix_ok v \<or> v = no_prefix" "prefix_ok w \<or> w = no_prefix"
      "prefix_string v = prefix_string w" by auto
    then show "v = w" using prefix_string_inject prefix_string_no_prefix by metis
  qed
  then have "set (dedupe ps) = snd ` set (map (\<lambda>p. (prefix_string (masked p), masked p)) ps)"
    unfolding dedupe_def by (rule map_values_sorted_set)
  then show ?thesis by (auto simp: image_image)
qed

lemma dedupe_contains:
  assumes "\<forall>p\<in>set ps. prefix_fine p"
  shows "any_contains (dedupe ps) a = any_contains ps a"
  using assms by (auto simp: any_contains_def dedupe_set masked_contains)

lemma parse_all_set:
  "parse_all ss = Inr ps \<Longrightarrow> set ps = {p. \<exists>s\<in>set ss. parse_prefix s = Some p} \<and> length ps = length ss"
  by (induction ss arbitrary: ps) (auto split: option.splits)

lemma parsePrefixes_permits:
  assumes "parsePrefixes wrap items = Inr ps"
  shows "any_contains ps a \<longleftrightarrow> (\<exists>raw\<in>set items. entry_permits raw a)"
    and "ps = [] \<longleftrightarrow> (\<exists>out. NormalizeWhitelist items = Inr out \<and> out = [])"
proof -
  from assms obtain out where out: "NormalizeWhitelist items = Inr out" and ps: "parse_all out = Inr ps"
    by (auto simp: parsePrefixes_def split: sum.splits)
  note set_ps = parse_all_set[OF ps]
  have "any_contains ps a \<longleftrightarrow> (\<exists>s\<in>set out. \<exists>p. parse_prefix s = Some p \<and> prefix_contains p a)"
    using set_ps by (auto simp: any_contains_def)
  also have "\<dots> \<longleftrightarrow> (\<exists>s\<in>set out. entry_permits s a)"
  proof -
    have "(\<exists>p. parse_prefix s = Some p \<and> prefix_contains p a) = entry_permits s a" if "s \<in> set out" for s
    proof -
      from that out obtain raw where "whitelist_entry raw = Inr (Some s)"
        using whitelist.normalise_members by blast
      then obtain p where p: "canonical p" "s = prefix_string p"
        using whitelist_entry_canonical canonical_text_def by blast
      then have "parse_prefix s = Some p" by (simp add: canonical_def parse_prefix_string)
      with p show ?thesis by (auto simp: entry_permits_canonical)
    qed
    then show ?thesis by blast
  qed
  also have "\<dots> \<longleftrightarrow> (\<exists>raw\<in>set items. entry_permits raw a)" by (rule whitelist.normalise_denotes[OF out])
  finally show "any_contains ps a \<longleftrightarrow> (\<exists>raw\<in>set items. entry_permits raw a)" .
  show "ps = [] \<longleftrightarrow> (\<exists>out. NormalizeWhitelist items = Inr out \<and> out = [])"
    using out set_ps by auto
qed

text \<open>Parsing the normalised entries cannot fail.\<close>

lemma parse_all_total: "\<forall>s\<in>set ss. parse_prefix s \<noteq> None \<Longrightarrow> \<exists>ps. parse_all ss = Inr ps"
  by (induction ss) auto

lemma parsePrefixes_total:
  "NormalizeWhitelist items = Inr out \<Longrightarrow> \<exists>ps. parsePrefixes wrap items = Inr ps"
  using NormalizeWhitelist_canonical parse_all_total by (fastforce simp: parsePrefixes_def)

lemma lan_prefix_fine:
  assumes "lan_prefix raw = Some p"
  shows "prefix_fine p"
proof -
  from assms obtain q where q: "parse_prefix raw = Some q"
    and p: "p = masked (if is4in6 (paddr q) then prefix_from (unmap (paddr q)) (pbits q - 96) else q)"
    by (auto simp: lan_prefix_def Let_def split: option.splits if_splits)
  have "prefix_fine q" using parse_prefix_ok[OF q] by (simp add: prefix_fine_def)
  then show ?thesis unfolding p by (intro masked_fine') (simp add: prefix_from_fine)
qed

lemma DetectLANPrefixes_fine: "DetectLANPrefixes ifaces = Inr ps \<Longrightarrow> \<forall>p\<in>set ps. prefix_fine p"
proof
  fix p
  assume d: "DetectLANPrefixes ifaces = Inr ps" and p: "p \<in> set ps"
  from d obtain raws where ps: "ps = dedupe (List.map_filter lan_prefix raws)"
    by (auto simp: DetectLANPrefixes_def split: option.splits)
  have fine: "\<forall>q\<in>set (List.map_filter lan_prefix raws). prefix_fine q"
    using lan_prefix_fine by (auto simp: map_filter_def)
  with p ps obtain q where "prefix_fine q" "p = masked q" by (auto simp: dedupe_set)
  then show "prefix_fine p" by (simp add: masked_fine')
qed

lemma loopback_prefixes_fine: "\<forall>p\<in>set loopback_prefixes. prefix_fine p"
  by (simp add: loopback_prefixes_def prefix_fine_def prefix_ok_def is_valid_def)

text \<open>The addresses a successful refresh admits.\<close>

lemma build_snapshot_allows:
  assumes "build_snapshot ifaces auto_lan strict whitelist bootstrap = Inr s"
  shows "Allowed (Some s) a \<longleftrightarrow>
    any_contains loopback_prefixes (unmap a)
    \<or> (auto_lan \<and> (\<exists>ps. DetectLANPrefixes ifaces = Inr ps \<and> any_contains ps (unmap a)))
    \<or> (\<exists>raw\<in>set whitelist. entry_permits raw (unmap a))
    \<or> (\<not> strict \<and> (\<exists>raw\<in>set bootstrap. entry_permits raw (unmap a)))"
proof -
  from assms obtain white boot detected where
    w: "parsePrefixes BadWhitelist whitelist = Inr white" and b: "parsePrefixes BadBootstrap bootstrap = Inr boot"
    and d: "(if auto_lan \<and> \<not> strict then DetectLANPrefixes ifaces else Inr []) = Inr detected"
    and mode: "\<not> (strict \<and> auto_lan)"
    and s: "s = \<lparr>a_Auto = dedupe (loopback_prefixes @ detected), a_Whitelist = white,
                 a_Bootstrap = (if strict then [] else boot), a_Strict = strict\<rparr>"
    by (auto simp: build_snapshot_def split: if_splits)
  have "\<forall>p\<in>set detected. prefix_fine p" using d DetectLANPrefixes_fine by (auto split: if_splits)
  then have auto_c: "any_contains (a_Auto s) x \<longleftrightarrow> any_contains loopback_prefixes x \<or> any_contains detected x" for x
    using loopback_prefixes_fine by (subst s, simp, subst dedupe_contains) auto
  have det: "any_contains detected x \<longleftrightarrow>
      auto_lan \<and> (\<exists>ps. DetectLANPrefixes ifaces = Inr ps \<and> any_contains ps x)" for x
    using d mode by (auto simp: any_contains_def split: if_splits)
  have un: "(if is4in6 a then unmap a else a) = unmap a" by (simp add: unmap_id)
  have "Allowed (Some s) a \<longleftrightarrow> any_contains (a_Auto s) (unmap a) \<or> any_contains (a_Whitelist s) (unmap a)
      \<or> any_contains (a_Bootstrap s) (unmap a)"
    by (simp add: Allowed_def un any_contains_def list_ex_iff Let_def)
  also have "\<dots> \<longleftrightarrow> any_contains loopback_prefixes (unmap a) \<or> any_contains detected (unmap a)
      \<or> any_contains white (unmap a) \<or> (\<not> strict \<and> any_contains boot (unmap a))"
    by (simp add: auto_c) (simp add: s any_contains_def)
  finally show ?thesis
    by (simp add: det parsePrefixes_permits(1)[OF w] parsePrefixes_permits(1)[OF b])
qed

text \<open>The loopback prefixes are the loopback addresses without a zone.\<close>

lemma loopback_prefixes_contains:
  "any_contains loopback_prefixes (unmap a) \<longleftrightarrow> is_loopback a \<and> zone (unmap a) = []"
proof (cases "unmap a")
  case (IP4 w)
  have "prefix_contains (Prefix (IP4 0x7F000000) 8) (IP4 w) \<longleftrightarrow> octet w 0 = 127"
    by (auto simp: ipv4_prefix_contains octet_div)
  moreover have "\<not> prefix_contains (Prefix (IP6 1 []) 128) (IP4 w)" by (simp add: prefix_contains_def)
  ultimately show ?thesis using IP4 by (simp add: any_contains_def loopback_prefixes_def is_loopback_def)
next
  case (IP6 w z)
  then show ?thesis
    by (auto simp: any_contains_def loopback_prefixes_def is_loopback_def prefix_contains_def prefix_valid_def
        xor_zero_iff)
qed (simp add: any_contains_def loopback_prefixes_def is_loopback_def prefix_contains_def)

end
