(* ===== verification/Props_Config.thy ===== *)
theory Props_Config
  imports Config_Sample Config_Store_Safety ACL
begin

text \<open>
  The properties of the configuration, its store, and the management access list, each with an instance
  where it has hypotheses.
\<close>

section \<open>The destination policy\<close>

text \<open>C1.
  \<^verbatim>\<open>ValidateTargetAddress\<close> accepts exactly the addresses of the destination policy: unicast
  addresses that are not restricted, and restricted ones (loopback, link-local, private, shared) only if
  the rule allows private targets, its CIDR list is well formed, and one of its entries contains the
  address.  An IPv4-mapped address is treated as the IPv4 address, and re-parsing the list never panics.\<close>

theorem target_policy_exact:
  "(ValidateTargetAddress rl a = None \<longleftrightarrow> target_permitted rl a)
   \<and> ValidateTargetAddress rl (unmap a) = ValidateTargetAddress rl a
   \<and> ValidateTargetAddress rl a \<noteq> Some (PrefixPanic s)"
  by (simp add: ValidateTargetAddress_policy ValidateTargetAddress_unmap ValidateTargetAddress_no_panic)

text \<open>Without the permission for private targets, an IPv4 destination (also in its IPv6-mapped form) is
  accepted exactly when it is outside \<^verbatim>\<open>0.0.0.0\<close>, 10/8, 100.64/10, 127/8, 169.254/16, 172.16/12,
  192.168/16, 224/4 and the broadcast address: no DNS answer can reach those ranges.\<close>

theorem public_targets_only:
  assumes "\<not> r_AllowPrivateTarget rl" and "unmap a = IP4 w"
  shows "ValidateTargetAddress rl a = None \<longleftrightarrow> public_ipv4 (unat w)"
proof -
  have "ValidateTargetAddress rl a = ValidateTargetAddress rl (IP4 w)"
    using ValidateTargetAddress_unmap[of rl a] assms(2) by simp
  then show ?thesis
    using target_permitted_ipv4[OF assms(1)] by (simp add: ValidateTargetAddress_policy)
qed

theorem public_targets_only_witness:
  "ValidateTargetAddress zero_rule (IP6 0xFFFF0A000001 []) \<noteq> None"
proof -
  have "\<not> r_AllowPrivateTarget zero_rule" and "unmap (IP6 0xFFFF0A000001 []) = IP4 0x0A000001"
    by code_simp+
  from public_targets_only[OF this] show ?thesis by (simp add: public_ipv4_def)
qed

section \<open>Accepted rules\<close>

text \<open>C31.
  Every rule of an accepted configuration is within its bounds after normalisation: its kind, port
  ranges, resource limits and literal targets are admissible, and each listening port is forwarded to a
  proper port of the target range.\<close>

theorem accepted_rule_ok:
  assumes "Validate cfg = None" and "r \<in> set (c_Rules cfg)"
  shows "rule_ok (c_Limits cfg) (NormalizeRule r)
    \<and> (\<forall>p. r_ListenPort (NormalizeRule r) \<le> p \<and> p \<le> LastListenPort (NormalizeRule r) \<longrightarrow>
           1 \<le> mapped_port (NormalizeRule r) p \<and> mapped_port (NormalizeRule r) p \<le> LastTargetPort (NormalizeRule r))"
proof (rule conjI)
  have "validateRules_from (c_Limits cfg) 0 [] 0 (c_Rules cfg) = None"
    using Validate_rules[OF assms(1)] by (simp add: validateRules_def)
  from validateRules_from_ok[OF this] assms(2) show ok: "rule_ok (c_Limits cfg) (NormalizeRule r)" by blast
  then have "ports_ok (NormalizeRule r)" by (simp add: rule_ok_def)
  then show "\<forall>p. r_ListenPort (NormalizeRule r) \<le> p \<and> p \<le> LastListenPort (NormalizeRule r) \<longrightarrow>
           1 \<le> mapped_port (NormalizeRule r) p \<and> mapped_port (NormalizeRule r) p \<le> LastTargetPort (NormalizeRule r)"
    using mapped_port_range by blast
qed

theorem accepted_rule_ok_witness:
  "rule_ok default_limits sample_rule \<and> mapped_port sample_rule 8005 \<le> 9009"
proof -
  have v: "Validate (with_rules [sample_rule, sample_rule2]) = None"
    by (simp add: with_rules_valid sample_rules_ok)
  have p: "r_ListenPort sample_rule \<le> 8005" "8005 \<le> LastListenPort sample_rule" "LastTargetPort sample_rule = 9009"
    by code_simp+
  from accepted_rule_ok[OF v, of sample_rule] p show ?thesis by auto
qed



text \<open>The rules of an accepted configuration have distinct identifiers, there are at most 1024 of them, and
  all their TCP connect checks together have at most 256 endpoints.\<close>

theorem accepted_rules_global:
  assumes "Validate cfg = None"
  shows "distinct (map r_ID (c_Rules cfg)) \<and> length (c_Rules cfg) \<le> MaxRules
    \<and> sum_list (map (rule_health_endpoints \<circ> NormalizeRule) (c_Rules cfg)) \<le> 256"
proof -
  have "validateRules_from (c_Limits cfg) 0 [] 0 (c_Rules cfg) = None" and "length (c_Rules cfg) \<le> MaxRules"
    using Validate_rules[OF assms] by (simp_all add: validateRules_def)
  with validateRules_from_ok validateRules_from_health[of _ 0 "[]" 0] show ?thesis by fastforce
qed

theorem accepted_rules_global_witness: "distinct [r_ID sample_rule, r_ID sample_rule2]"
  using accepted_rules_global[of "with_rules [sample_rule, sample_rule2]"]
  by (simp add: with_rules_valid sample_rules_ok)

section \<open>Management settings\<close>

text \<open>Accepted management settings (with trimmed file paths, as every writer stores them) never serve plain
  HTTP outside the loopback interface without the explicit acknowledgement, serve HTTPS where it is
  required, pair certificate and key, and in strict mode have a non-empty explicit allowlist without an
  all-address entry and without automatic LAN entries.\<close>

theorem accepted_web_ok:
  assumes "validateWeb web = None" and "trimmed_tls web"
  shows "web_ok web"
  using assms by (rule validateWeb_ok)

theorem accepted_web_ok_witness: "web_ok (default_web\<lparr>w_ListenIPv6 := []\<rparr>)"
proof (rule accepted_web_ok)
  show "validateWeb (default_web\<lparr>w_ListenIPv6 := []\<rparr>) = None" by (rule sample_web_ok)
  show "trimmed_tls (default_web\<lparr>w_ListenIPv6 := []\<rparr>)" by code_simp
qed

text \<open>A normalised whitelist is sorted and free of duplicates, within its bound, a fixed point of the
  normalisation, made of canonical prefixes only, and permits exactly the addresses the original entries
  permit.\<close>

theorem whitelist_normal_form:
  assumes "NormalizeWhitelist items = Inr out"
  shows "sorted out \<and> distinct out \<and> length out \<le> MaxWhitelistEntries \<and> NormalizeWhitelist out = Inr out
    \<and> (\<forall>s\<in>set out. \<exists>p. parse_prefix s = Some p \<and> canonical p)
    \<and> ((\<exists>s\<in>set out. entry_permits s a) \<longleftrightarrow> (\<exists>raw\<in>set items. entry_permits raw a))"
  using whitelist.normalise_sorted[OF assms] whitelist.normalise_idem[OF assms]
    NormalizeWhitelist_canonical[OF assms] whitelist.normalise_denotes[OF assms] by blast

theorem whitelist_normal_form_witness:
  "NormalizeWhitelist [''10.0.0.0/8'', ''192.0.2.1/32''] = Inr [''10.0.0.0/8'', ''192.0.2.1/32'']"
proof -
  have "NormalizeWhitelist ['' 192.0.2.1 '', ''10.1.2.3/8''] = Inr [''10.0.0.0/8'', ''192.0.2.1/32'']" by code_simp
  from whitelist_normal_form[OF this] show ?thesis by blast
qed

section \<open>The store\<close>

text \<open>C16.
  Whatever sequence of updates, conditional updates, token rotations and revocations runs, whichever of
  their file operations fail, the configuration in memory is valid and the file holds exactly its
  encoding; and every state of the disk in between, at which the process may be killed, holds the
  encoding of a valid configuration.\<close>

theorem store_always_valid:
  assumes "(store_step enc enc1)\<^sup>*\<^sup>* (s, w) (s', w')" and "store_ok enc s w"
  shows "store_ok enc s' w' \<and> (\<forall>fs\<in>set (drop (length (history w)) (history w')). disk_valid enc (s_path s) fs)"
proof (rule conjI)
  note k = store_steps_keep[OF assms]
  from k show "store_ok enc s' w'" by blast
  from k obtain hs where "history w' = history w @ hs" "\<forall>fs\<in>set hs. disk_valid enc (s_path s) fs"
    by (auto simp: extends_via_def)
  then show "\<forall>fs\<in>set (drop (length (history w)) (history w')). disk_valid enc (s_path s) fs" by simp
qed

definition tiny_enc :: "config \<Rightarrow> string" where
  "tiny_enc cfg = itoa (w_Port (c_Web cfg))"

definition tiny_store :: store where
  "tiny_store = \<lparr>s_path = ''/c'', s_cfg = sample_config\<rparr>"

definition tiny_world :: world where
  "tiny_world = \<lparr>files = [''/c'' \<mapsto> (tiny_enc sample_config @ [char_of (10::nat)], mode_0600)], history = [],
                 outcomes = [Fine, Fine, Fault 2], entropy = [], tmp_names = [''1'']\<rparr>"

lemma tiny_ok: "store_ok tiny_enc tiny_store tiny_world"
  by (simp add: store_ok_def tiny_store_def tiny_world_def sample_valid)

theorem store_always_valid_witness:
  "store_ok tiny_enc (fst (snd (updateLocked tiny_enc Inr tiny_store tiny_world)))
     (snd (snd (updateLocked tiny_enc Inr tiny_store tiny_world)))"
proof -
  obtain r s' w' where u: "updateLocked tiny_enc Inr tiny_store tiny_world = (r, s', w')" by (metis prod_cases3)
  then have "(store_step tiny_enc tiny_enc)\<^sup>*\<^sup>* (tiny_store, tiny_world) (s', w')"
    by (auto intro: store_step.call_update)
  from store_always_valid[OF this tiny_ok] u show ?thesis by simp
qed



text \<open>A load that succeeds yields a valid configuration whose file holds its encoding, and if it generated a
  token, the token file holds it and the configuration its hash.  A load that fails leaves the
  configuration file as it was, whatever was wrong.\<close>

theorem load_or_create:
  assumes "LoadOrCreate enc dec path tf w = (r, w')" and "tf = [] \<or> separate path tf"
  shows "case r of
      Inr (s, token) \<Rightarrow> s_path s = path \<and> store_ok enc s w'
        \<and> (token \<noteq> [] \<longrightarrow> w_AdminTokenSHA (c_Web (s_cfg s)) = HashToken token
             \<and> (tf \<noteq> [] \<longrightarrow> files w' tf = Some (newline_end token, mode_0600)))
    | Inl e \<Rightarrow> files w' path = files w path"
  using LoadOrCreate_facts[OF assms] by (auto split: sum.splits prod.splits)

theorem load_or_create_witness:
  "files (snd (LoadOrCreate tiny_enc (\<lambda>_ _. None) ''/c'' [] tiny_world)) ''/c'' = files tiny_world ''/c''"
proof -
  obtain r w' where run: "LoadOrCreate tiny_enc (\<lambda>_ _. None) ''/c'' [] tiny_world = (r, w')" by fastforce
  have "fst (LoadOrCreate tiny_enc (\<lambda>_ _. None) ''/c'' [] tiny_world) = Inl DecodeFailed"
    by (simp add: LoadOrCreate_def load_initial_def readFile_def io_run_def next_outcome_def tiny_world_def
        no_change_def)
  with run have "r = Inl DecodeFailed" by simp
  with load_or_create[OF run] run show ?thesis by simp
qed

text \<open>A conditional update is applied only to the revision it was computed from: with an expected revision
  that is not the current one nothing changes, and a successful one stores the result of the function on
  the configuration with that revision.\<close>

theorem conditional_update:
  assumes "UpdateIfRevision enc enc1 expected fn s w = (r, s', w')" and "expected \<noteq> []"
  shows "(expected \<noteq> Revision enc1 (s_cfg s) \<longrightarrow> r = Inl RevisionConflict \<and> s' = s \<and> w' = w)
    \<and> (\<forall>c. r = Inr c \<longrightarrow> expected = Revision enc1 (s_cfg s) \<and> s_cfg s' = c
           \<and> (\<exists>changed. fn (s_cfg s) = Inr changed \<and> c = changed\<lparr>c_Version := CurrentVersion\<rparr>))"
proof (rule conjI)
  show "expected \<noteq> Revision enc1 (s_cfg s) \<longrightarrow> r = Inl RevisionConflict \<and> s' = s \<and> w' = w"
    using assms by (auto simp: UpdateIfRevision_def)
  show "\<forall>c. r = Inr c \<longrightarrow> expected = Revision enc1 (s_cfg s) \<and> s_cfg s' = c
           \<and> (\<exists>changed. fn (s_cfg s) = Inr changed \<and> c = changed\<lparr>c_Version := CurrentVersion\<rparr>)"
  proof (intro allI impI)
    fix c
    assume r: "r = Inr c"
    with assms have e: "expected = Revision enc1 (s_cfg s)" and u: "updateLocked enc fn s w = (r, s', w')"
      by (auto simp: UpdateIfRevision_def split: if_splits)
    from u r e show "expected = Revision enc1 (s_cfg s) \<and> s_cfg s' = c
           \<and> (\<exists>changed. fn (s_cfg s) = Inr changed \<and> c = changed\<lparr>c_Version := CurrentVersion\<rparr>)"
      by (cases rule: updateLocked_cases) auto
  qed
qed

theorem conditional_update_witness:
  "fst (UpdateIfRevision tiny_enc tiny_enc ''0'' Inr tiny_store tiny_world) = Inl RevisionConflict"
proof -
  obtain r s' w' where run: "UpdateIfRevision tiny_enc tiny_enc ''0'' Inr tiny_store tiny_world = (r, s', w')"
    by (metis prod_cases3)
  have "''0'' \<noteq> Revision tiny_enc (s_cfg tiny_store)"
    using sha256_hex_length[of "tiny_enc (s_cfg tiny_store)"] by (auto simp: Revision_def dest: arg_cong[of _ _ length])
  with conditional_update[OF run] run show ?thesis by simp
qed

section \<open>The access list of the management interface\<close>

text \<open>After a successful refresh an address may use the management interface exactly if it is a loopback
  address, or in a prefix detected on the host's interfaces (only with automatic LAN access), or permitted
  by a whitelist entry, or, outside strict mode, by a bootstrap entry.  IPv4-mapped addresses count as IPv4.\<close>

theorem acl_exact:
  assumes "Refresh ifaces auto_lan strict whitelist bootstrap m = (None, m')"
  shows "Allowed m' a \<longleftrightarrow>
    is_loopback a \<and> zone (unmap a) = []
    \<or> (auto_lan \<and> (\<exists>ps. DetectLANPrefixes ifaces = Inr ps \<and> any_contains ps (unmap a)))
    \<or> (\<exists>raw\<in>set whitelist. entry_permits raw (unmap a))
    \<or> (\<not> strict \<and> (\<exists>raw\<in>set bootstrap. entry_permits raw (unmap a)))"
proof -
  from assms obtain s where s: "build_snapshot ifaces auto_lan strict whitelist bootstrap = Inr s" "m' = Some s"
    by (auto simp: Refresh_def split: sum.splits)
  show ?thesis using build_snapshot_allows[OF s(1)] s(2) by (simp add: loopback_prefixes_contains)
qed

theorem acl_exact_witness:
  "Allowed (snd (Refresh None False True [''192.0.2.0/24''] [''0.0.0.0/0''] None)) (IP4 0xC0000207)"
proof -
  have "fst (Refresh None False True [''192.0.2.0/24''] [''0.0.0.0/0''] None) = None" by code_simp
  then have run: "Refresh None False True [''192.0.2.0/24''] [''0.0.0.0/0''] None =
      (None, snd (Refresh None False True [''192.0.2.0/24''] [''0.0.0.0/0''] None))"
    by (metis prod.collapse)
  have "entry_permits ''192.0.2.0/24'' (unmap (IP4 0xC0000207))" by code_simp
  with acl_exact[OF run, of "IP4 0xC0000207"] show ?thesis by simp
qed

text \<open>A refresh that fails keeps the previous access list, an unpublished list admits nobody, and a
  successful strict refresh had an explicit whitelist and no automatic LAN access.\<close>

theorem acl_fail_closed:
  "(fst (Refresh ifaces auto_lan strict whitelist bootstrap m) = None
     \<or> snd (Refresh ifaces auto_lan strict whitelist bootstrap m) = m)
   \<and> \<not> Allowed None a
   \<and> \<not> (strict \<and> (auto_lan \<or> NormalizeWhitelist whitelist = Inr [])
        \<and> fst (Refresh ifaces auto_lan strict whitelist bootstrap m) = None)"
  by (auto simp: Refresh_def Allowed_def build_snapshot_def parsePrefixes_def split: sum.splits)

section \<open>Findings\<close>

text \<open>A backup port range that leaves the ports is accepted: the bound adds 64-bit integers and wraps.
\<close>

theorem wrapped_backup_port_accepted:
  "Validate (with_rules [wrapping_rule]) = None \<and> 65535 < r_BackupTargetPort wrapping_rule"
  by (simp add: wrapping_accepted) (simp add: wrapping_rule_def)

text \<open>Two enabled rules on the same address and port are accepted when one address is written in its
  IPv4-mapped form, although the listeners of both are opened on the IPv4 address.
\<close>

theorem mapped_listener_conflict_accepted:
  "Validate (with_rules [sample_rule, mapped_rule]) = None
   \<and> claims sample_rule ''tcp'' (IP4 0xC0000201) 8000 \<and> claims mapped_rule ''tcp'' (IP4 0xC0000201) 8000"
  using mapped_accepted mapped_same_socket by blast

text \<open>Normalising a rule twice strips two pairs of brackets from its hosts.\<close>

theorem double_brackets_not_normal:
  "normalizeHost ''[[::1]]'' = ''[::1]'' \<and> normalizeHost ''[::1]'' = ''::1''"
  by code_simp

end
