(* ===== verification/Nft_Spec.thy ===== *)
theory Nft_Spec
  imports NetIP_Prefix Sha256
begin

text \<open>
  The unit of kernel forwarding, \<^verbatim>\<open>nftRuleSpec\<close> of \<^verbatim>\<open>internal/proxy/nft.go\<close>, its identities and keys
  (\<^verbatim>\<open>nft_journal.go\<close>, \<^verbatim>\<open>nft_recovery.go\<close>), and the interval algebra that decides which forwarded ports
  are retired, gated, or kept (\<^verbatim>\<open>nft_recovery.go\<close>, \<^verbatim>\<open>nft_reconcile.go\<close>).
\<close>

record nft_spec =
  RuleID :: string
  Family :: int
  ListenHost :: addr
  ListenPort :: int
  ListenPortEnd :: int
  TargetHost :: addr
  TargetPort :: int
  TargetPortEnd :: int
  Protocol :: string
  ConntrackMark :: "32 word"
  EnableFlowtable :: bool
  ruleIdentity :: string

section \<open>Identities and keys\<close>

definition bool_text :: "bool \<Rightarrow> string" where
  "bool_text b = (if b then ''true'' else ''false'')"

definition nft_key :: "nft_spec \<Rightarrow> string" where
  "nft_key s =
     join ''|'' [RuleID s, itoa (Family s), addr_string (ListenHost s),
       itoa (ListenPort s) @ CHR ''-'' # itoa (ListenPortEnd s), addr_string (TargetHost s),
       itoa (TargetPort s) @ CHR ''-'' # itoa (TargetPortEnd s), Protocol s,
       hex8 (ConntrackMark s), bool_text (EnableFlowtable s)]"

definition nftSpecsKey :: "nft_spec list \<Rightarrow> string" where
  "nftSpecsKey specs = join [char_of (10::nat)] (sort (map nft_key specs))"

definition nftRuleIdentity :: "nft_spec \<Rightarrow> string" where
  "nftRuleIdentity s = (if ruleIdentity s \<noteq> [] then ruleIdentity s else sha256_hex (RuleID s))"

definition short_identity :: "string \<Rightarrow> bool" where
  "short_identity ident \<longleftrightarrow> length ident = 13 \<and> ident ! 0 = CHR ''l''"

definition nftRuleShortTag :: "nft_spec \<Rightarrow> string" where
  "nftRuleShortTag s =
     (let ident = nftRuleIdentity s in if short_identity ident then drop 1 ident else take 12 ident)"

definition validNFTIdentity :: "string \<Rightarrow> bool" where
  "validNFTIdentity ident \<longleftrightarrow>
     (if short_identity ident then hex_decode (drop 1 ident) \<noteq> None
      else length ident = 64 \<and> hex_decode ident \<noteq> None)"

definition specsUseFlowtable :: "nft_spec list \<Rightarrow> bool" where
  "specsUseFlowtable specs \<longleftrightarrow> list_ex EnableFlowtable specs"

definition nftLastPort :: "nft_spec \<Rightarrow> int" where
  "nftLastPort s = (if ListenPortEnd s = 0 then ListenPort s else ListenPortEnd s)"

definition nftLastTargetPort :: "nft_spec \<Rightarrow> int" where
  "nftLastTargetPort s = (if TargetPortEnd s = 0 then TargetPort s else TargetPortEnd s)"

definition nftRetirementKey :: "nft_spec \<Rightarrow> string" where
  "nftRetirementKey s =
     join ''|'' [nftRuleIdentity s, itoa (Family s), addr_string (ListenHost s),
       itoa (ListenPort s) @ CHR ''-'' # itoa (nftLastPort s), addr_string (TargetHost s),
       itoa (TargetPort s) @ CHR ''-'' # itoa (nftLastTargetPort s), Protocol s, hex8 (ConntrackMark s)]"

text \<open>\<^verbatim>\<open>validateRetirementSpec\<close>: the only error is an invalid retirement identity.\<close>

definition validateRetirementSpec :: "nft_spec \<Rightarrow> bool" where
  "validateRetirementSpec s \<longleftrightarrow>
     \<not> (Family s \<noteq> 4 \<and> Family s \<noteq> 6 \<or> Protocol s \<noteq> ''tcp'' \<and> Protocol s \<noteq> ''udp'' \<or> ConntrackMark s = 0
        \<or> \<not> is_valid (ListenHost s) \<or> \<not> is_valid (TargetHost s) \<or> zone (ListenHost s) \<noteq> [] \<or> zone (TargetHost s) \<noteq> []
        \<or> is4 (ListenHost s) \<noteq> (Family s = 4) \<or> is4 (TargetHost s) \<noteq> (Family s = 4)
        \<or> ListenPort s < 1 \<or> 65535 < nftLastPort s \<or> nftLastPort s < ListenPort s
        \<or> TargetPort s < 1 \<or> 65535 < nftLastTargetPort s \<or> nftLastTargetPort s < TargetPort s
        \<or> nftLastPort s - ListenPort s \<noteq> nftLastTargetPort s - TargetPort s
        \<or> 4096 < nftLastPort s - ListenPort s + 1)"

definition uniqueNFTSpecs :: "nft_spec list list \<Rightarrow> nft_spec list" where
  "uniqueNFTSpecs gs = map_values_sorted (map (\<lambda>s. (nftRetirementKey s, s)) (concat gs))"

section \<open>Intervals\<close>

type_synonym port_interval = "int \<times> int"

fun nftSubtractPortRange :: "port_interval list \<Rightarrow> int \<Rightarrow> int \<Rightarrow> port_interval list" where
  "nftSubtractPortRange [] a b = []"
| "nftSubtractPortRange ((f, l) # parts) a b =
     (if b < f \<or> l < a then [(f, l)]
      else (if f < a then [(f, a - 1)] else []) @ (if b < l then [(b + 1, l)] else []))
     @ nftSubtractPortRange parts a b"

definition nftSlicePorts :: "nft_spec \<Rightarrow> port_interval \<Rightarrow> nft_spec" where
  "nftSlicePorts s part =
     (let target = TargetPort s + fst part - ListenPort s in
      s\<lparr>ListenPort := fst part, ListenPortEnd := snd part,
        TargetPort := target, TargetPortEnd := target + snd part - fst part\<rparr>)"

text \<open>The loops over the subtracted specs, and the slices they leave.\<close>

definition subtract_matching :: "(nft_spec \<Rightarrow> bool) \<Rightarrow> nft_spec list \<Rightarrow> nft_spec \<Rightarrow> nft_spec list" where
  "subtract_matching matching others s =
     map (nftSlicePorts s)
       (foldl (\<lambda>parts x. if matching x then nftSubtractPortRange parts (ListenPort x) (nftLastPort x) else parts)
          [(ListenPort s, nftLastPort s)] others)"

definition same_path :: "nft_spec \<Rightarrow> nft_spec \<Rightarrow> bool" where
  "same_path previous next \<longleftrightarrow>
     \<not> (nftRuleIdentity previous \<noteq> nftRuleIdentity next \<or> Family previous \<noteq> Family next
        \<or> Protocol previous \<noteq> Protocol next \<or> ConntrackMark previous \<noteq> ConntrackMark next
        \<or> ListenHost previous \<noteq> ListenHost next \<or> TargetHost previous \<noteq> TargetHost next
        \<or> TargetPort previous - ListenPort previous \<noteq> TargetPort next - ListenPort next)"

definition retiredNFTSpecs :: "nft_spec list \<Rightarrow> nft_spec list \<Rightarrow> nft_spec list" where
  "retiredNFTSpecs old desired =
     uniqueNFTSpecs [concat (map (\<lambda>previous. subtract_matching (same_path previous) desired previous) old)]"

definition same_listener :: "nft_spec \<Rightarrow> nft_spec \<Rightarrow> bool" where
  "same_listener next old \<longleftrightarrow>
     \<not> (Family old \<noteq> Family next \<or> Protocol old \<noteq> Protocol next
        \<or> \<not> is_unspecified (ListenHost old) \<and> \<not> is_unspecified (ListenHost next)
          \<and> ListenHost old \<noteq> ListenHost next)"

definition gateNFTReplacements :: "nft_spec list \<Rightarrow> nft_spec list \<Rightarrow> nft_spec list" where
  "gateNFTReplacements desired pending =
     concat (map (\<lambda>next. subtract_matching (same_listener next) pending next) desired)"

text \<open>Retain only already admitted paths: no new tuple, and no newly enabled acceleration.\<close>

definition previouslyAdmittedNFT :: "nft_spec list \<Rightarrow> nft_spec list \<Rightarrow> nft_spec list" where
  "previouslyAdmittedNFT desired active =
     uniqueNFTSpecs [concat (map (\<lambda>next.
       let candidates = filter (\<lambda>old. \<not> EnableFlowtable next \<or> EnableFlowtable old) active;
           missing = retiredNFTSpecs [next] candidates
       in gateNFTReplacements [next] missing) desired)]"

text \<open>Identities recovered from the kernel take the name of the one desired rule they stand for.\<close>

definition resolve_candidates :: "string \<Rightarrow> nft_spec list \<Rightarrow> (string \<times> string) list" where
  "resolve_candidates ident desired =
     rev (foldl (\<lambda>cands want.
       let full = nftRuleIdentity want in
       if (full = ident \<or> short_identity ident \<and> has_prefix (drop 1 ident) full) \<and> full \<notin> fst ` set cands
       then (full, RuleID want) # cands else cands) [] desired)"

definition resolve_identity :: "nft_spec list \<Rightarrow> nft_spec \<Rightarrow> nft_spec" where
  "resolve_identity desired s =
     (case resolve_candidates (nftRuleIdentity s) desired of
        [(full, raw)] \<Rightarrow> s\<lparr>RuleID := raw, ruleIdentity := full\<rparr>
      | _ \<Rightarrow> s)"

definition resolveNFTIdentities :: "nft_spec list \<Rightarrow> nft_spec list \<Rightarrow> nft_spec list" where
  "resolveNFTIdentities specs desired = map (resolve_identity desired) specs"

end
