(* ===== verification/Nft_Tuples.thy ===== *)
theory Nft_Tuples
  imports Nft_Spec
begin

text \<open>
  The meaning of a list of forwarding specs is a set of tuples: which listening port of which listener
  is forwarded to which port of which target, for which rule.  On this meaning retirement is set
  difference, gating removes every listener that a pending retirement still occupies, and the list
  operations that normalise by key lose nothing.
\<close>

type_synonym nft_tuple = "string \<times> int \<times> string \<times> 32 word \<times> (addr \<times> int) \<times> (addr \<times> int)"

definition tuple_at :: "nft_spec \<Rightarrow> int \<Rightarrow> nft_tuple" where
  "tuple_at s p =
     (nftRuleIdentity s, Family s, Protocol s, ConntrackMark s, (ListenHost s, p),
      (TargetHost s, TargetPort s + (p - ListenPort s)))"

definition spec_ports :: "nft_spec \<Rightarrow> int set" where
  "spec_ports s = {ListenPort s..nftLastPort s}"

definition spec_tuples :: "nft_spec \<Rightarrow> nft_tuple set" where
  "spec_tuples s = tuple_at s ` spec_ports s"

definition tuples :: "nft_spec list \<Rightarrow> nft_tuple set" where
  "tuples specs = (\<Union>s\<in>set specs. spec_tuples s)"

lemma tuples_simps [simp]:
  "tuples [] = {}"
  "tuples (s # ss) = spec_tuples s \<union> tuples ss"
  "tuples (ss @ ts) = tuples ss \<union> tuples ts"
  by (auto simp: tuples_def)

lemma tuples_concat_map: "tuples (concat (map f xs)) = (\<Union>x\<in>set xs. tuples (f x))"
  by (induction xs) simp_all

lemma tuple_in_spec:
  "t \<in> spec_tuples s \<longleftrightarrow> (\<exists>p. ListenPort s \<le> p \<and> p \<le> nftLastPort s \<and> t = tuple_at s p)"
  by (auto simp: spec_tuples_def spec_ports_def)

text \<open>A spec the program may act on: valid as a retirement identity, with an identity it recognises.\<close>

definition spec_ok :: "nft_spec \<Rightarrow> bool" where
  "spec_ok s \<longleftrightarrow> validateRetirementSpec s \<and> validNFTIdentity (nftRuleIdentity s)"

definition specs_ok :: "nft_spec list \<Rightarrow> bool" where
  "specs_ok ss \<longleftrightarrow> (\<forall>s\<in>set ss. spec_ok s)"

lemma specs_ok_simps [simp]:
  "specs_ok []"
  "specs_ok (s # ss) \<longleftrightarrow> spec_ok s \<and> specs_ok ss"
  "specs_ok (ss @ ts) \<longleftrightarrow> specs_ok ss \<and> specs_ok ts"
  by (auto simp: specs_ok_def)

section \<open>Intervals\<close>

definition interval_ports :: "port_interval list \<Rightarrow> int set" where
  "interval_ports parts = (\<Union>(f, l)\<in>set parts. {f..l})"

lemma interval_ports_simps [simp]:
  "interval_ports [] = {}"
  "interval_ports ((f, l) # parts) = {f..l} \<union> interval_ports parts"
  "interval_ports (ps @ qs) = interval_ports ps \<union> interval_ports qs"
  by (auto simp: interval_ports_def)

lemma subtract_one:
  "interval_ports (if b < f \<or> l < a then [(f, l)]
     else (if f < a then [(f, a - 1)] else []) @ (if b < l then [(b + 1, l)] else [])) = {f..l} - {a..b}"
  by (cases "b < f \<or> l < a"; cases "f < a"; cases "b < l") auto

lemma subtract_ports: "interval_ports (nftSubtractPortRange parts a b) = interval_ports parts - {a..b}"
proof (induction parts)
  case (Cons part parts)
  then show ?case
    by (cases part) (simp only: nftSubtractPortRange.simps interval_ports_simps subtract_one Un_Diff)
qed simp

definition proper_intervals :: "port_interval list \<Rightarrow> bool" where
  "proper_intervals parts \<longleftrightarrow> (\<forall>(f, l)\<in>set parts. f \<le> l)"

lemma subtract_proper: "proper_intervals parts \<Longrightarrow> proper_intervals (nftSubtractPortRange parts a b)"
  by (induction parts a b rule: nftSubtractPortRange.induct) (auto simp: proper_intervals_def)

definition leftover :: "(nft_spec \<Rightarrow> bool) \<Rightarrow> nft_spec list \<Rightarrow> port_interval list \<Rightarrow> port_interval list" where
  "leftover matching others parts =
     foldl (\<lambda>parts x. if matching x then nftSubtractPortRange parts (ListenPort x) (nftLastPort x) else parts)
       parts others"

lemma leftover_ports:
  "interval_ports (leftover matching others parts) =
   interval_ports parts - (\<Union>x\<in>{x \<in> set others. matching x}. spec_ports x)"
  by (induction others arbitrary: parts) (auto simp: leftover_def subtract_ports spec_ports_def)

lemma leftover_proper: "proper_intervals parts \<Longrightarrow> proper_intervals (leftover matching others parts)"
  by (induction others arbitrary: parts) (auto simp: leftover_def subtract_proper)

section \<open>Slices\<close>

lemma nftSlicePorts_simps [simp]:
  "RuleID (nftSlicePorts s part) = RuleID s" "Family (nftSlicePorts s part) = Family s"
  "ListenHost (nftSlicePorts s part) = ListenHost s" "TargetHost (nftSlicePorts s part) = TargetHost s"
  "Protocol (nftSlicePorts s part) = Protocol s" "ConntrackMark (nftSlicePorts s part) = ConntrackMark s"
  "EnableFlowtable (nftSlicePorts s part) = EnableFlowtable s"
  "ruleIdentity (nftSlicePorts s part) = ruleIdentity s"
  "ListenPort (nftSlicePorts s part) = fst part" "ListenPortEnd (nftSlicePorts s part) = snd part"
  "TargetPort (nftSlicePorts s part) = TargetPort s + fst part - ListenPort s"
  "TargetPortEnd (nftSlicePorts s part) = TargetPort s + fst part - ListenPort s + snd part - fst part"
  by (simp_all add: nftSlicePorts_def Let_def)

lemma nftRuleIdentity_slice [simp]: "nftRuleIdentity (nftSlicePorts s part) = nftRuleIdentity s"
  by (simp add: nftRuleIdentity_def)

lemma slice_tuples:
  assumes "1 \<le> f" and "f \<le> l"
  shows "spec_tuples (nftSlicePorts s (f, l)) = tuple_at s ` {f..l}"
  using assms by (auto simp: spec_tuples_def spec_ports_def nftLastPort_def tuple_at_def image_iff)

lemma slice_ok:
  assumes "spec_ok s" and "ListenPort s \<le> f" and "f \<le> l" and "l \<le> nftLastPort s"
  shows "spec_ok (nftSlicePorts s (f, l))"
proof -
  have "nftLastPort (nftSlicePorts s (f, l)) = l"
    "nftLastTargetPort (nftSlicePorts s (f, l)) = TargetPort s + f - ListenPort s + l - f"
    using assms by (auto simp: nftLastPort_def nftLastTargetPort_def spec_ok_def validateRetirementSpec_def)
  with assms show ?thesis by (auto simp: spec_ok_def validateRetirementSpec_def)
qed

text \<open>What is left of one spec: its ports without those of the matching specs.\<close>

lemma subtract_matching_facts:
  assumes ok: "spec_ok s"
  shows "tuples (subtract_matching matching others s) =
           tuple_at s ` (spec_ports s - (\<Union>x\<in>{x \<in> set others. matching x}. spec_ports x))"
    and "specs_ok (subtract_matching matching others s)"
proof -
  let ?parts = "leftover matching others [(ListenPort s, nftLastPort s)]"
  have sm: "subtract_matching matching others s = map (nftSlicePorts s) ?parts"
    by (simp add: subtract_matching_def leftover_def)
  have ports: "interval_ports ?parts = spec_ports s - (\<Union>x\<in>{x \<in> set others. matching x}. spec_ports x)"
    by (simp add: leftover_ports spec_ports_def)
  have proper: "proper_intervals ?parts"
    using ok by (intro leftover_proper) (auto simp: proper_intervals_def spec_ok_def validateRetirementSpec_def)
  have lp: "1 \<le> ListenPort s" using ok by (simp add: spec_ok_def validateRetirementSpec_def)
  have inside: "ListenPort s \<le> f \<and> f \<le> l \<and> l \<le> nftLastPort s" if "(f, l) \<in> set ?parts" for f l
  proof -
    have "f \<le> l" using that proper by (auto simp: proper_intervals_def)
    then have "{f, l} \<subseteq> interval_ports ?parts" using that by (force simp: interval_ports_def)
    with ports \<open>f \<le> l\<close> show ?thesis by (auto simp: spec_ports_def)
  qed
  have "tuples (map (nftSlicePorts s) parts) = tuple_at s ` interval_ports parts"
    if "\<forall>(f, l)\<in>set parts. 1 \<le> f \<and> f \<le> l" for parts
    using that by (induction parts) (auto simp: slice_tuples)
  from this[of ?parts] inside lp ports
  show "tuples (subtract_matching matching others s) =
          tuple_at s ` (spec_ports s - (\<Union>x\<in>{x \<in> set others. matching x}. spec_ports x))"
    unfolding sm by fastforce
  show "specs_ok (subtract_matching matching others s)"
    unfolding sm using inside slice_ok[OF ok] by (fastforce simp: specs_ok_def)
qed

section \<open>The retirement key\<close>

lemma hex_no_bar: "is_hex c \<Longrightarrow> c \<noteq> CHR ''|''"
  by (auto simp: is_hex_def hex_digit_def Let_def split: if_splits)

lemma hex_decode_hex: "hex_decode s = Some bs \<Longrightarrow> c \<in> set s \<Longrightarrow> is_hex c"
  by (induction s arbitrary: bs rule: hex_decode.induct)
    (auto simp: is_hex_def split: option.splits)

lemma validNFTIdentity_no_bar: "validNFTIdentity ident \<Longrightarrow> CHR ''|'' \<notin> set ident"
proof
  assume v: "validNFTIdentity ident" and bar: "CHR ''|'' \<in> set ident"
  show False
  proof (cases "short_identity ident")
    case True
    then obtain rest where r: "ident = CHR ''l'' # rest"
      by (cases ident) (auto simp: short_identity_def)
    with v True obtain bs where "hex_decode rest = Some bs" by (auto simp: validNFTIdentity_def)
    with bar r hex_decode_hex hex_no_bar show False by fastforce
  next
    case False
    with v obtain bs where "hex_decode ident = Some bs" by (auto simp: validNFTIdentity_def)
    with bar hex_decode_hex hex_no_bar show False by fastforce
  qed
qed

lemma addr_string_no_bar:
  "is_valid a \<Longrightarrow> zone a = [] \<Longrightarrow> c \<in> set (addr_string a) \<Longrightarrow> c \<noteq> CHR ''|''"
  by (cases a) (auto simp: is_valid_def zone_suffix_def is_hex_def is_dec_def hex_digit_def Let_def split: if_splits
      dest!: string4_chars string6_chars)

lemma itoa_no_bar: "CHR ''|'' \<notin> set (itoa i)"
  by (auto dest!: itoa_chars simp: is_dec_def)

lemma nat_dec_no_dash: "CHR ''-'' \<notin> set (nat_dec n)"
  by (auto dest!: nat_dec_is_dec simp: is_dec_def)

lemma port_text_inject:
  assumes "0 \<le> a" and "0 \<le> c"
  shows "itoa a @ CHR ''-'' # itoa b = itoa c @ CHR ''-'' # itoa d \<longleftrightarrow> a = c \<and> b = d"
  using assms by (auto simp: itoa_nonneg nat_dec_no_dash append_sep_inject)

text \<open>The key without the texts.\<close>

definition retirement_identity ::
    "nft_spec \<Rightarrow> string \<times> int \<times> addr \<times> (int \<times> int) \<times> addr \<times> (int \<times> int) \<times> string \<times> 32 word" where
  "retirement_identity s =
     (nftRuleIdentity s, Family s, ListenHost s, (ListenPort s, nftLastPort s), TargetHost s,
      (TargetPort s, nftLastTargetPort s), Protocol s, ConntrackMark s)"

lemma nftRetirementKey_inject:
  assumes "spec_ok s" and "spec_ok t"
  shows "nftRetirementKey s = nftRetirementKey t \<longleftrightarrow> retirement_identity s = retirement_identity t"
proof
  define fields where "fields u = [nftRuleIdentity u, itoa (Family u), addr_string (ListenHost u),
       itoa (ListenPort u) @ CHR ''-'' # itoa (nftLastPort u), addr_string (TargetHost u),
       itoa (TargetPort u) @ CHR ''-'' # itoa (nftLastTargetPort u), Protocol u, hex8 (ConntrackMark u)]" for u
  have bar: "\<forall>x\<in>set (fields u). CHR ''|'' \<notin> set x" if "spec_ok u" for u
    using that validNFTIdentity_no_bar[of "nftRuleIdentity u"] itoa_no_bar addr_string_no_bar
      hex8_is_hex[of _ "ConntrackMark u"] hex_no_bar
    by (fastforce simp: fields_def spec_ok_def validateRetirementSpec_def)
  assume "nftRetirementKey s = nftRetirementKey t"
  then have "split_on (CHR ''|'') (join ''|'' (fields s)) = split_on (CHR ''|'') (join ''|'' (fields t))"
    by (simp add: nftRetirementKey_def fields_def)
  then have "fields s = fields t"
    using bar[OF assms(1)] bar[OF assms(2)] split_on_join[of "fields s"] split_on_join[of "fields t"]
    by (simp add: fields_def)
  then show "retirement_identity s = retirement_identity t"
    using assms addr_string_inject port_text_inject
    by (simp add: fields_def retirement_identity_def spec_ok_def validateRetirementSpec_def)
next
  assume "retirement_identity s = retirement_identity t"
  then show "nftRetirementKey s = nftRetirementKey t"
    by (simp add: retirement_identity_def nftRetirementKey_def)
qed

lemma retirement_identity_tuples: "retirement_identity s = retirement_identity t \<Longrightarrow> spec_tuples s = spec_tuples t"
  by (simp add: retirement_identity_def spec_tuples_def spec_ports_def tuple_at_def image_def)

text \<open>Normalising by key keeps the tuples.\<close>

lemma uniqueNFTSpecs_subset: "set (uniqueNFTSpecs gs) \<subseteq> set (concat gs)"
  unfolding uniqueNFTSpecs_def using map_values_sorted_subset by force

lemma uniqueNFTSpecs_hit:
  assumes "s \<in> set (concat gs)"
  shows "\<exists>t\<in>set (uniqueNFTSpecs gs). nftRetirementKey t = nftRetirementKey s"
proof -
  let ?kvs = "map (\<lambda>s. (nftRetirementKey s, s)) (concat gs)"
  have "nftRetirementKey s \<in> fst ` set ?kvs" using assms by force
  then obtain t where t: "map_of (rev ?kvs) (nftRetirementKey s) = Some t"
    by (metis map_of_eq_None_iff not_None_eq set_rev)
  then have "nftRetirementKey t = nftRetirementKey s" using map_of_SomeD by fastforce
  moreover have "t \<in> set (uniqueNFTSpecs gs)"
    using t \<open>nftRetirementKey s \<in> fst ` set ?kvs\<close>
    by (force simp: uniqueNFTSpecs_def map_values_sorted_def)
  ultimately show ?thesis by blast
qed

lemma uniqueNFTSpecs_tuples:
  assumes "specs_ok (concat gs)"
  shows "tuples (uniqueNFTSpecs gs) = tuples (concat gs)" and "specs_ok (uniqueNFTSpecs gs)"
proof -
  show ok: "specs_ok (uniqueNFTSpecs gs)"
    using assms uniqueNFTSpecs_subset by (fastforce simp: specs_ok_def)
  show "tuples (uniqueNFTSpecs gs) = tuples (concat gs)"
  proof
    show "tuples (uniqueNFTSpecs gs) \<subseteq> tuples (concat gs)"
      using uniqueNFTSpecs_subset unfolding tuples_def by blast
    show "tuples (concat gs) \<subseteq> tuples (uniqueNFTSpecs gs)"
    proof
      fix x
      assume "x \<in> tuples (concat gs)"
      then obtain s where s: "s \<in> set (concat gs)" "x \<in> spec_tuples s" by (auto simp: tuples_def)
      then obtain t where t: "t \<in> set (uniqueNFTSpecs gs)" "nftRetirementKey t = nftRetirementKey s"
        using uniqueNFTSpecs_hit by blast
      have "spec_ok s" "spec_ok t" using s t ok assms by (auto simp: specs_ok_def)
      with t have "retirement_identity t = retirement_identity s" by (simp add: nftRetirementKey_inject)
      then have "spec_tuples t = spec_tuples s" by (rule retirement_identity_tuples)
      with s t show "x \<in> tuples (uniqueNFTSpecs gs)" by (auto simp: tuples_def)
    qed
  qed
qed

section \<open>Retirement is difference\<close>

lemma same_path_tuple:
  assumes "same_path s x"
  shows "tuple_at s p \<in> spec_tuples x \<longleftrightarrow> p \<in> spec_ports x"
  using assms
  by (auto simp: same_path_def tuple_in_spec tuple_at_def spec_ports_def)

lemma tuple_same_path:
  assumes "tuple_at s p \<in> spec_tuples x"
  shows "same_path s x"
  using assms by (auto simp: same_path_def tuple_in_spec tuple_at_def)

lemma retired_one:
  assumes "spec_ok s"
  shows "tuples (subtract_matching (same_path s) others s) = spec_tuples s - tuples others"
proof -
  have "tuple_at s p \<in> tuples others \<longleftrightarrow> (\<exists>x\<in>set others. same_path s x \<and> p \<in> spec_ports x)" for p
    using same_path_tuple tuple_same_path by (fastforce simp: tuples_def)
  moreover have "inj (tuple_at s)" by (auto simp: inj_def tuple_at_def)
  ultimately show ?thesis
    by (auto simp: subtract_matching_facts(1)[OF assms] spec_tuples_def inj_def)
qed

lemma retiredNFTSpecs_facts:
  assumes "specs_ok old"
  shows "tuples (retiredNFTSpecs old desired) = tuples old - tuples desired"
    and "specs_ok (retiredNFTSpecs old desired)"
proof -
  let ?pieces = "concat (map (\<lambda>s. subtract_matching (same_path s) desired s) old)"
  have ok: "specs_ok ?pieces"
    using assms subtract_matching_facts(2) by (fastforce simp: specs_ok_def)
  have "tuples ?pieces = (\<Union>s\<in>set old. spec_tuples s - tuples desired)"
    using assms retired_one by (auto simp: tuples_concat_map specs_ok_def)
  also have "\<dots> = tuples old - tuples desired" by (auto simp: tuples_def)
  finally show "tuples (retiredNFTSpecs old desired) = tuples old - tuples desired"
    using uniqueNFTSpecs_tuples[of "[?pieces]"] ok by (simp add: retiredNFTSpecs_def)
  show "specs_ok (retiredNFTSpecs old desired)"
    using uniqueNFTSpecs_tuples(2)[of "[?pieces]"] ok by (simp add: retiredNFTSpecs_def)
qed

section \<open>Gating\<close>

text \<open>A listening port that a pending retirement still occupies.\<close>

definition occupied :: "nft_spec list \<Rightarrow> nft_spec \<Rightarrow> int \<Rightarrow> bool" where
  "occupied pending next p \<longleftrightarrow> (\<exists>old\<in>set pending. same_listener next old \<and> p \<in> spec_ports old)"

lemma gateNFTReplacements_facts:
  assumes "specs_ok desired"
  shows "tuples (gateNFTReplacements desired pending) =
           {tuple_at s p | s p. s \<in> set desired \<and> p \<in> spec_ports s \<and> \<not> occupied pending s p}"
    and "specs_ok (gateNFTReplacements desired pending)"
proof -
  show "specs_ok (gateNFTReplacements desired pending)"
    using assms subtract_matching_facts(2) by (fastforce simp: gateNFTReplacements_def specs_ok_def)
  have "tuples (gateNFTReplacements desired pending) =
      (\<Union>s\<in>set desired. tuples (subtract_matching (same_listener s) pending s))"
    by (simp add: gateNFTReplacements_def tuples_concat_map)
  also have "\<dots> = (\<Union>s\<in>set desired. tuple_at s ` {p \<in> spec_ports s. \<not> occupied pending s p})"
    using assms by (intro SUP_cong refl)
      (auto simp: specs_ok_def subtract_matching_facts(1) occupied_def)
  finally show "tuples (gateNFTReplacements desired pending) =
           {tuple_at s p | s p. s \<in> set desired \<and> p \<in> spec_ports s \<and> \<not> occupied pending s p}"
    by blast
qed

lemma gate_subset: "specs_ok desired \<Longrightarrow> tuples (gateNFTReplacements desired pending) \<subseteq> tuples desired"
  by (simp add: gateNFTReplacements_facts(1)) (auto simp: tuples_def spec_tuples_def)

text \<open>
  Against its own missing parts, gating leaves exactly the rest: the listener is the same.
\<close>

lemma gate_own_missing:
  assumes ok: "spec_ok next" and miss: "tuples missing = spec_tuples next - T"
    and own: "\<And>m. m \<in> set missing \<Longrightarrow> same_path next m"
  shows "tuples (gateNFTReplacements [next] missing) = spec_tuples next \<inter> T"
proof -
  have occ: "occupied missing next p \<longleftrightarrow> tuple_at next p \<notin> T" if "p \<in> spec_ports next" for p
  proof
    assume "occupied missing next p"
    then obtain m where m: "m \<in> set missing" "p \<in> spec_ports m" by (auto simp: occupied_def)
    with own same_path_tuple have "tuple_at next p \<in> spec_tuples m" by blast
    with m miss show "tuple_at next p \<notin> T" by (auto simp: tuples_def)
  next
    assume "tuple_at next p \<notin> T"
    with that miss have "tuple_at next p \<in> tuples missing" by (auto simp: spec_tuples_def)
    then obtain m where m: "m \<in> set missing" "tuple_at next p \<in> spec_tuples m" by (auto simp: tuples_def)
    then have "p \<in> spec_ports m" using own same_path_tuple by blast
    moreover have "same_listener next m" using own[OF m(1)] by (auto simp: same_path_def same_listener_def)
    ultimately show "occupied missing next p" using m by (auto simp: occupied_def)
  qed
  then show ?thesis
    using ok by (auto simp: gateNFTReplacements_facts(1) spec_tuples_def)
qed

lemma retired_one_same_path:
  assumes "m \<in> set (retiredNFTSpecs [next] others)"
  shows "same_path next m"
proof -
  have "set (retiredNFTSpecs [next] others) \<subseteq> set (subtract_matching (same_path next) others next)"
    using uniqueNFTSpecs_subset by (force simp: retiredNFTSpecs_def)
  with assms have "m \<in> set (subtract_matching (same_path next) others next)" by blast
  then obtain part where "m = nftSlicePorts next part" by (auto simp: subtract_matching_def)
  then show ?thesis by (simp add: same_path_def)
qed

lemma previouslyAdmittedNFT_facts:
  assumes ok: "specs_ok desired"
  shows "tuples (previouslyAdmittedNFT desired active) =
           (\<Union>s\<in>set desired. spec_tuples s \<inter> tuples (filter (\<lambda>old. EnableFlowtable s \<longrightarrow> EnableFlowtable old) active))"
    and "specs_ok (previouslyAdmittedNFT desired active)"
proof -
  define cand where "cand s = filter (\<lambda>old. \<not> EnableFlowtable s \<or> EnableFlowtable old) active" for s :: nft_spec
  define kept where "kept s = gateNFTReplacements [s] (retiredNFTSpecs [s] (cand s))" for s
  have pa: "previouslyAdmittedNFT desired active = uniqueNFTSpecs [concat (map kept desired)]"
    unfolding previouslyAdmittedNFT_def kept_def cand_def Let_def by simp
  have one: "tuples (kept s) = spec_tuples s \<inter> tuples (cand s)" "specs_ok (kept s)" if "spec_ok s" for s
    unfolding kept_def
    using gate_own_missing[OF that, of _ "tuples (cand s)"] retiredNFTSpecs_facts(1)[of "[s]"] that
      retired_one_same_path gateNFTReplacements_facts(2)[of "[s]"]
    by auto
  have "specs_ok (concat (map kept desired))" using ok one(2) by (fastforce simp: specs_ok_def)
  moreover have "tuples (concat (map kept desired)) = (\<Union>s\<in>set desired. spec_tuples s \<inter> tuples (cand s))"
    using ok one(1) by (auto simp: tuples_concat_map specs_ok_def)
  ultimately have "tuples (previouslyAdmittedNFT desired active) = (\<Union>s\<in>set desired. spec_tuples s \<inter> tuples (cand s))"
    and "specs_ok (previouslyAdmittedNFT desired active)"
    using uniqueNFTSpecs_tuples[of "[concat (map kept desired)]"] unfolding pa by simp_all
  then show "tuples (previouslyAdmittedNFT desired active) =
      (\<Union>s\<in>set desired. spec_tuples s \<inter> tuples (filter (\<lambda>old. EnableFlowtable s \<longrightarrow> EnableFlowtable old) active))"
    and "specs_ok (previouslyAdmittedNFT desired active)"
    unfolding cand_def imp_conv_disj by simp_all
qed

end
