(* ===== verification/Conntrack.thy ===== *)
theory Conntrack
  imports Nft_Tuples
begin

text \<open>
  \<^verbatim>\<open>internal/proxy/nft_conntrack.go\<close>: decoding the flows of the connection-tracking tool, the test
  whether a connection belongs to a forwarding spec, the arguments of the commands, and the revocation
  of connections with verification by a second listing.  The tool itself is an argument; the XML
  decoder delivers a stream of tokens, a start element with the flow it decodes to, if it does.
\<close>

section \<open>Entries\<close>

record ct_tuple =
  t_source :: addr
  t_destination :: addr
  t_sourcePort :: "16 word"
  t_destinationPort :: "16 word"

record ct_entry =
  e_family :: int
  e_protocol :: string
  e_original :: ct_tuple
  e_reply :: ct_tuple
  e_mark :: "32 word"
  e_zone :: "16 word"

definition no_ct_tuple :: ct_tuple where
  "no_ct_tuple = \<lparr>t_source = NoAddr, t_destination = NoAddr, t_sourcePort = 0, t_destinationPort = 0\<rparr>"

definition no_ct_entry :: ct_entry where
  "no_ct_entry = \<lparr>e_family = 0, e_protocol = [], e_original = no_ct_tuple, e_reply = no_ct_tuple,
                  e_mark = 0, e_zone = 0\<rparr>"

text \<open>One \<^verbatim>\<open>meta\<close> element of a flow, as the XML decoder fills it.\<close>

record xml_meta =
  m_Direction :: string
  m_L3Name :: string
  m_L3Source :: string
  m_L3Destination :: string
  m_L4Name :: string
  m_L4Source :: string
  m_L4Destination :: string
  m_Mark :: string
  m_Zone :: string

datatype ct_error =
    DuplicateDirection | DirectionZone | CTFamily | CTProtocol | InconsistentTuples
  | CTSource | CTDestination | TupleFamily | CTSourcePort | CTDestinationPort
  | CTMark | CTZone | UnknownDirection | IncompleteTuples
  | XMLTooLong | XMLRootMissing | XMLInvalid | XMLEnd | XMLText | XMLTrailing | XMLRoot
  | XMLElement | XMLTooMany | XMLFlow
  | CTUnavailable | CTInvalidMark | CTTooMany | CTBatch | CTDeleteIdentity | CTDeleteTuple
  | CTRetirementSpec | CTCommand | CTExit1 | CTExpired | CTRemain

section \<open>Decoding a flow\<close>

definition ct_family :: "string \<Rightarrow> int option" where
  "ct_family name = (if name = ''ipv4'' then Some 4 else if name = ''ipv6'' then Some 6 else None)"

text \<open>The address of a tuple: \<^verbatim>\<open>netip.ParseAddr\<close> of the trimmed text, without a zone.\<close>

definition ct_addr :: "ct_error \<Rightarrow> string \<Rightarrow> ct_error + addr" where
  "ct_addr e text =
     (case parse_addr (trim_space text) of
        None \<Rightarrow> Inl e
      | Some a \<Rightarrow> if zone a \<noteq> [] then Inl e else Inr a)"

definition ct_port :: "ct_error \<Rightarrow> string \<Rightarrow> ct_error + 16 word" where
  "ct_port e text = (case parse_uint10 text 16 of None \<Rightarrow> Inl e | Some n \<Rightarrow> Inr (of_nat n))"

definition place_tuple :: "string \<Rightarrow> ct_tuple \<Rightarrow> ct_entry \<Rightarrow> ct_entry" where
  "place_tuple direction t e =
     (if direction = ''original'' then e\<lparr>e_original := t\<rparr> else e\<lparr>e_reply := t\<rparr>)"

definition decode_tuple :: "xml_meta \<Rightarrow> ct_entry \<Rightarrow> ct_error + ct_entry" where
  "decode_tuple m e =
     (if m_Zone m \<noteq> [] then Inl DirectionZone
      else
        case ct_family (m_L3Name m) of
          None \<Rightarrow> Inl CTFamily
        | Some family \<Rightarrow>
            if m_L4Name m \<noteq> ''tcp'' \<and> m_L4Name m \<noteq> ''udp'' then Inl CTProtocol
            else if e_family e \<noteq> 0 \<and> (e_family e \<noteq> family \<or> e_protocol e \<noteq> m_L4Name m) then Inl InconsistentTuples
            else
              rbind (ct_addr CTSource (m_L3Source m)) (\<lambda>source.
              rbind (ct_addr CTDestination (m_L3Destination m)) (\<lambda>destination.
                if is4 source \<noteq> (family = 4) \<or> is4 destination \<noteq> (family = 4) then Inl TupleFamily
                else
                  rbind (ct_port CTSourcePort (m_L4Source m)) (\<lambda>sport.
                  rbind (ct_port CTDestinationPort (m_L4Destination m)) (\<lambda>dport.
                    Inr (place_tuple (m_Direction m)
                      \<lparr>t_source = source, t_destination = destination,
                       t_sourcePort = sport, t_destinationPort = dport\<rparr>
                      (e\<lparr>e_family := family, e_protocol := m_L4Name m\<rparr>)))))))"

definition decode_independent :: "xml_meta \<Rightarrow> ct_entry \<Rightarrow> ct_error + ct_entry" where
  "decode_independent m e =
     (case parse_uint10 (m_Mark m) 32 of
        None \<Rightarrow> Inl CTMark
      | Some mark \<Rightarrow>
          let e1 = e\<lparr>e_mark := of_nat mark\<rparr> in
          if m_Zone m = [] then Inr e1
          else (case parse_uint10 (m_Zone m) 16 of
                  None \<Rightarrow> Inl CTZone | Some z \<Rightarrow> Inr (e1\<lparr>e_zone := of_nat z\<rparr>)))"

definition decode_meta :: "xml_meta \<Rightarrow> ct_entry \<Rightarrow> ct_error + ct_entry" where
  "decode_meta m e =
     (if m_Direction m = ''original'' \<or> m_Direction m = ''reply'' then decode_tuple m e
      else if m_Direction m = ''independent'' then decode_independent m e
      else Inl UnknownDirection)"

fun decode_metas :: "string list \<Rightarrow> xml_meta list \<Rightarrow> ct_entry \<Rightarrow> ct_error + ct_entry" where
  "decode_metas seen [] e =
     (if ''original'' \<notin> set seen \<or> ''reply'' \<notin> set seen \<or> ''independent'' \<notin> set seen
      then Inl IncompleteTuples else Inr e)"
| "decode_metas seen (m # ms) e =
     (if m_Direction m \<in> set seen then Inl DuplicateDirection
      else rbind (decode_meta m e) (decode_metas (m_Direction m # seen) ms))"

definition decodeConntrackFlow :: "xml_meta list \<Rightarrow> ct_error + ct_entry" where
  "decodeConntrackFlow metas = decode_metas [] metas no_ct_entry"

section \<open>The document\<close>

datatype xml_token =
    XStart string "xml_meta list option"
  | XEnd string
  | XText string
  | XOther
  | XSyntaxError

abbreviation maxConntrackRecords :: nat where "maxConntrackRecords \<equiv> 16384"
abbreviation maxNFTOutputBytes :: nat where "maxNFTOutputBytes \<equiv> 16777216"

text \<open>The loop over the tokens; the end of the list is \<^verbatim>\<open>io.EOF\<close>.\<close>

fun xml_loop :: "xml_token list \<Rightarrow> bool \<Rightarrow> bool \<Rightarrow> ct_entry list \<Rightarrow> ct_error + ct_entry list" where
  "xml_loop [] root closed entries = (if \<not> root \<or> \<not> closed then Inl XMLRootMissing else Inr entries)"
| "xml_loop (XSyntaxError # ts) root closed entries = Inl XMLInvalid"
| "xml_loop (XEnd name # ts) root closed entries =
     (if name \<noteq> ''conntrack'' \<or> closed then Inl XMLEnd else xml_loop ts root True entries)"
| "xml_loop (XText s # ts) root closed entries =
     (if trim_space s \<noteq> [] then Inl XMLText else xml_loop ts root closed entries)"
| "xml_loop (XOther # ts) root closed entries = xml_loop ts root closed entries"
| "xml_loop (XStart name flow # ts) root closed entries =
     (if closed then Inl XMLTrailing
      else if \<not> root then (if name \<noteq> ''conntrack'' then Inl XMLRoot else xml_loop ts True closed entries)
      else if name \<noteq> ''flow'' then Inl XMLElement
      else if maxConntrackRecords \<le> length entries then Inl XMLTooMany
      else (case flow of
              None \<Rightarrow> Inl XMLFlow
            | Some metas \<Rightarrow> rbind (decodeConntrackFlow metas) (\<lambda>e. xml_loop ts root closed (entries @ [e]))))"

definition parseConntrackXML :: "(string \<Rightarrow> xml_token list) \<Rightarrow> string \<Rightarrow> ct_error + ct_entry list" where
  "parseConntrackXML tokens data =
     (if maxNFTOutputBytes < length data then Inl XMLTooLong
      else if trim_space data = [] then Inr []
      else xml_loop (tokens data) False False [])"

section \<open>Matching and the commands\<close>

definition conntrackMatchesSpec :: "ct_entry \<Rightarrow> nft_spec \<Rightarrow> bool" where
  "conntrackMatchesSpec entry spec \<longleftrightarrow>
     (let port = uint (t_destinationPort (e_original entry)) in
      e_family entry = Family spec \<and> e_protocol entry = Protocol spec \<and> e_mark entry = ConntrackMark spec
      \<and> (is_unspecified (ListenHost spec) \<or> t_destination (e_original entry) = ListenHost spec)
      \<and> ListenPort spec \<le> port \<and> port \<le> nftLastPort spec
      \<and> t_source (e_reply entry) = TargetHost spec
      \<and> uint (t_sourcePort (e_reply entry)) = TargetPort spec + port - ListenPort spec)"

definition mark_text :: "32 word \<Rightarrow> string" where
  "mark_text mark = ''0x'' @ hex8 mark @ ''/0xffffffff''"

definition listArguments :: "nft_spec \<Rightarrow> string list" where
  "listArguments spec =
     [''-L'', ''-f'', if Family spec = 6 then ''ipv6'' else ''ipv4'', ''-p'', Protocol spec,
      ''--mark'', mark_text (ConntrackMark spec), ''--reply-src'', addr_string (TargetHost spec), ''-o'', ''xml'']
     @ (if is_unspecified (ListenHost spec) then [] else [''--orig-dst'', addr_string (ListenHost spec)])
     @ (if ListenPortEnd spec = 0 \<or> ListenPortEnd spec = ListenPort spec
        then [''--dport'', itoa (ListenPort spec)] else [])"

definition conntrackDeleteArguments :: "ct_entry \<Rightarrow> ct_error + string list" where
  "conntrackDeleteArguments e =
     (if e_mark e = 0 \<or> e_family e \<noteq> 4 \<and> e_family e \<noteq> 6 \<or> e_protocol e \<noteq> ''tcp'' \<and> e_protocol e \<noteq> ''udp''
      then Inl CTDeleteIdentity
      else if list_ex (\<lambda>a. \<not> is_valid a \<or> zone a \<noteq> [] \<or> is4 a \<noteq> (e_family e = 4))
                [t_source (e_original e), t_destination (e_original e), t_source (e_reply e), t_destination (e_reply e)]
      then Inl CTDeleteTuple
      else Inr
        [''-D'', ''-f'', if e_family e = 6 then ''ipv6'' else ''ipv4'', ''-p'', e_protocol e,
         ''--orig-src'', addr_string (t_source (e_original e)),
         ''--orig-dst'', addr_string (t_destination (e_original e)),
         ''--sport'', itoa (uint (t_sourcePort (e_original e))),
         ''--dport'', itoa (uint (t_destinationPort (e_original e))),
         ''--reply-src'', addr_string (t_source (e_reply e)),
         ''--reply-dst'', addr_string (t_destination (e_reply e)),
         ''--reply-port-src'', itoa (uint (t_sourcePort (e_reply e))),
         ''--reply-port-dst'', itoa (uint (t_destinationPort (e_reply e))),
         ''--mark'', mark_text (e_mark e), ''--zone'', itoa (uint (e_zone e))])"

section \<open>The tool\<close>

text \<open>
  The operations of \<^verbatim>\<open>conntrackKernelIO\<close> over a state of the kernel, and the expiry of the deadline.
\<close>

record 'k ct_io =
  io_available :: "'k \<Rightarrow> ct_error option"
  io_expired :: "'k \<Rightarrow> bool"
  io_list :: "nft_spec \<Rightarrow> 'k \<Rightarrow> (ct_error + ct_entry list) \<times> 'k"
  io_delete :: "ct_entry list \<Rightarrow> 'k \<Rightarrow> ct_error option \<times> 'k"

text \<open>\<^verbatim>\<open>commandConntrack\<close>: the command runs the tool on arguments and an input.\<close>

type_synonym 'k ct_command = "string list \<Rightarrow> string \<Rightarrow> 'k \<Rightarrow> (ct_error + string) \<times> 'k"

definition command_list ::
    "(string \<Rightarrow> xml_token list) \<Rightarrow> 'k ct_command \<Rightarrow> nft_spec \<Rightarrow> 'k \<Rightarrow> (ct_error + ct_entry list) \<times> 'k" where
  "command_list tokens cmd spec k =
     (if \<not> validateRetirementSpec spec then (Inl CTRetirementSpec, k)
      else
        let (r, k1) = cmd (listArguments spec) [] k in (rbind r (parseConntrackXML tokens), k1))"

fun delete_lines :: "ct_entry list \<Rightarrow> ct_error + string" where
  "delete_lines [] = Inr []"
| "delete_lines (e # es) =
     rbind (conntrackDeleteArguments e) (\<lambda>args.
     rbind (delete_lines es) (\<lambda>rest. Inr (join '' '' args @ [char_of (10::nat)] @ rest)))"

definition command_delete :: "'k ct_command \<Rightarrow> ct_entry list \<Rightarrow> 'k \<Rightarrow> ct_error option \<times> 'k" where
  "command_delete cmd entries k =
     (if entries = [] then (None, k)
      else if maxConntrackRecords < length entries then (Some CTBatch, k)
      else
        case delete_lines entries of
          Inl e \<Rightarrow> (Some e, k)
        | Inr lines \<Rightarrow> let (r, k1) = cmd [''--load-file'', ''-''] lines k in (err_of r, k1))"

text \<open>\<^verbatim>\<open>ListOwned\<close>: both families and both protocols, with the bound on the records.\<close>

definition owned_arguments :: "string \<Rightarrow> string \<Rightarrow> 32 word \<Rightarrow> string list" where
  "owned_arguments family protocol mark =
     [''-L'', ''-f'', family, ''-p'', protocol, ''--mark'', mark_text mark, ''-o'', ''xml'']"

fun owned_loop ::
    "(string \<Rightarrow> xml_token list) \<Rightarrow> 'k ct_command \<Rightarrow> 32 word \<Rightarrow> (string \<times> string) list \<Rightarrow> ct_entry list \<Rightarrow> 'k
     \<Rightarrow> (ct_error + ct_entry list) \<times> 'k" where
  "owned_loop tokens cmd mark [] result k = (Inr result, k)"
| "owned_loop tokens cmd mark ((family, protocol) # rest) result k =
     (let (r, k1) = cmd (owned_arguments family protocol mark) [] k in
      case rbind r (parseConntrackXML tokens) of
        Inl e \<Rightarrow> (Inl e, k1)
      | Inr entries \<Rightarrow>
          if maxConntrackRecords < length result + length entries then (Inl CTTooMany, k1)
          else owned_loop tokens cmd mark rest (result @ entries) k1)"

definition ListOwned ::
    "(string \<Rightarrow> xml_token list) \<Rightarrow> 'k ct_command \<Rightarrow> 32 word \<Rightarrow> 'k \<Rightarrow> (ct_error + ct_entry list) \<times> 'k" where
  "ListOwned tokens cmd mark k =
     (if mark = 0 then (Inl CTInvalidMark, k)
      else owned_loop tokens cmd mark
             [(f, p). f \<leftarrow> [''ipv4'', ''ipv6''], p \<leftarrow> [''tcp'', ''udp'']] [] k)"

section \<open>Revocation\<close>

text \<open>
  For each spec: list, delete the matching entries, and list again; an exit status of one is not an
  error by itself, since an entry may expire on its own.
\<close>

definition revoke_one :: "'k ct_io \<Rightarrow> nft_spec \<Rightarrow> 'k \<Rightarrow> ct_error option \<times> 'k" where
  "revoke_one io spec k =
     (if io_expired io k then (Some CTExpired, k)
      else
        case io_list io spec k of
          (Inl e, k1) \<Rightarrow> (Some e, k1)
        | (Inr entries, k1) \<Rightarrow>
            let selected = filter (\<lambda>e. conntrackMatchesSpec e spec) entries in
            if selected = [] then (None, k1)
            else
              let (del, k2) = io_delete io selected k1 in
              if del \<noteq> None \<and> del \<noteq> Some CTExit1 then (del, k2)
              else
                case io_list io spec k2 of
                  (Inl e, k3) \<Rightarrow> (Some e, k3)
                | (Inr remaining, k3) \<Rightarrow>
                    (if list_ex (\<lambda>e. conntrackMatchesSpec e spec) remaining then Some CTRemain else None, k3))"

fun revoke_loop :: "'k ct_io \<Rightarrow> nft_spec list \<Rightarrow> 'k \<Rightarrow> ct_error option \<times> 'k" where
  "revoke_loop io [] k = (None, k)"
| "revoke_loop io (spec # specs) k =
     (case revoke_one io spec k of
        (Some e, k1) \<Rightarrow> (Some e, k1)
      | (None, k1) \<Rightarrow> revoke_loop io specs k1)"

definition revokeNFTConnections :: "'k ct_io \<Rightarrow> nft_spec list \<Rightarrow> 'k \<Rightarrow> ct_error option \<times> 'k" where
  "revokeNFTConnections io specs k =
     (if specs = [] then (None, k)
      else case io_available io k of Some e \<Rightarrow> (Some e, k) | None \<Rightarrow> revoke_loop io specs k)"

end
