(* ===== verification/Conntrack_Revocation.thy ===== *)
theory Conntrack_Revocation
  imports Conntrack
begin

text \<open>
  What decoding accepts, what a match means, and what revocation achieves: when it reports success no
  connection of a revoked spec is left, and it never asks the kernel to delete any other connection.
\<close>

section \<open>Decoded entries\<close>

definition tuple_ok :: "int \<Rightarrow> ct_tuple \<Rightarrow> bool" where
  "tuple_ok family t \<longleftrightarrow>
     is_valid (t_source t) \<and> is_valid (t_destination t) \<and> zone (t_source t) = [] \<and> zone (t_destination t) = []
     \<and> is4 (t_source t) = (family = 4) \<and> is4 (t_destination t) = (family = 4)"

definition kind_fine :: "ct_entry \<Rightarrow> bool" where
  "kind_fine e \<longleftrightarrow> (e_family e = 4 \<or> e_family e = 6) \<and> (e_protocol e = ''tcp'' \<or> e_protocol e = ''udp'')"

definition entry_ok :: "ct_entry \<Rightarrow> bool" where
  "entry_ok e \<longleftrightarrow> kind_fine e \<and> tuple_ok (e_family e) (e_original e) \<and> tuple_ok (e_family e) (e_reply e)"

text \<open>The invariant of the loop: the tuples of the directions seen so far.\<close>

definition partial_ok :: "string list \<Rightarrow> ct_entry \<Rightarrow> bool" where
  "partial_ok seen e \<longleftrightarrow>
     (''original'' \<in> set seen \<longrightarrow> kind_fine e \<and> tuple_ok (e_family e) (e_original e))
     \<and> (''reply'' \<in> set seen \<longrightarrow> kind_fine e \<and> tuple_ok (e_family e) (e_reply e))
     \<and> (''original'' \<notin> set seen \<and> ''reply'' \<notin> set seen \<longrightarrow> e_family e = 0)"

lemma ct_addr_ok: "ct_addr e text = Inr a \<Longrightarrow> is_valid a \<and> zone a = []"
  by (auto simp: ct_addr_def dest: parse_addr_valid split: option.splits if_splits)

lemma ct_family_ok: "ct_family name = Some f \<Longrightarrow> f = 4 \<or> f = 6"
  by (auto simp: ct_family_def split: if_splits)

lemma decode_tuple_ok:
  assumes "decode_tuple m e = Inr e'"
  shows "\<exists>f t. (f = 4 \<or> f = 6) \<and> (m_L4Name m = ''tcp'' \<or> m_L4Name m = ''udp'') \<and> tuple_ok f t
    \<and> (e_family e = 0 \<or> e_family e = f \<and> e_protocol e = m_L4Name m)
    \<and> e' = place_tuple (m_Direction m) t (e\<lparr>e_family := f, e_protocol := m_L4Name m\<rparr>)"
proof -
  from assms obtain f where f: "ct_family (m_L3Name m) = Some f"
    by (auto simp: decode_tuple_def split: if_split_asm option.split_asm)
  with assms obtain a b where a: "ct_addr CTSource (m_L3Source m) = Inr a"
    and b: "ct_addr CTDestination (m_L3Destination m) = Inr b"
    by (auto simp: decode_tuple_def split: if_split_asm)
  with assms f obtain p q where e': "e' = place_tuple (m_Direction m)
      \<lparr>t_source = a, t_destination = b, t_sourcePort = p, t_destinationPort = q\<rparr>
      (e\<lparr>e_family := f, e_protocol := m_L4Name m\<rparr>)"
    and fam: "is4 a = (f = 4)" "is4 b = (f = 4)"
    and proto: "m_L4Name m = ''tcp'' \<or> m_L4Name m = ''udp''"
    and same: "e_family e = 0 \<or> e_family e = f \<and> e_protocol e = m_L4Name m"
    by (auto simp: decode_tuple_def split: if_split_asm)
  have "tuple_ok f \<lparr>t_source = a, t_destination = b, t_sourcePort = p, t_destinationPort = q\<rparr>"
    using ct_addr_ok[OF a] ct_addr_ok[OF b] fam by (simp add: tuple_ok_def)
  with ct_family_ok[OF f] proto same e' show ?thesis by blast
qed

lemma decode_meta_ok:
  assumes d: "decode_meta m e = Inr e'" and p: "partial_ok seen e" and new: "m_Direction m \<notin> set seen"
  shows "partial_ok (m_Direction m # seen) e'"
proof (cases "m_Direction m = ''original'' \<or> m_Direction m = ''reply''")
  case True
  with d have "decode_tuple m e = Inr e'" by (simp add: decode_meta_def)
  from decode_tuple_ok[OF this] obtain f t where f: "f = 4 \<or> f = 6"
    "m_L4Name m = ''tcp'' \<or> m_L4Name m = ''udp''" "tuple_ok f t"
    "e_family e = 0 \<or> e_family e = f \<and> e_protocol e = m_L4Name m"
    and e': "e' = place_tuple (m_Direction m) t (e\<lparr>e_family := f, e_protocol := m_L4Name m\<rparr>)"
    by blast
  have kind: "kind_fine e'" "e_family e' = f"
    using f(1,2) e' by (auto simp: kind_fine_def place_tuple_def)
  have old: "tuple_ok f (e_original e)" if "''original'' \<in> set seen"
    using that p f(4) by (simp add: partial_ok_def kind_fine_def) force
  have old': "tuple_ok f (e_reply e)" if "''reply'' \<in> set seen"
    using that p f(4) by (simp add: partial_ok_def kind_fine_def) force
  show ?thesis
  proof (cases "m_Direction m = ''original''")
    case orig: True
    then have "e_original e' = t" "e_reply e' = e_reply e" by (simp_all add: e' place_tuple_def)
    with kind f(3) old' orig show ?thesis by (simp add: partial_ok_def)
  next
    case False
    with True have "m_Direction m = ''reply''" by simp
    moreover from False have "e_reply e' = t" "e_original e' = e_original e" by (simp_all add: e' place_tuple_def)
    ultimately show ?thesis using kind f(3) old by (simp add: partial_ok_def)
  qed
next
  case False
  then have "decode_independent m e = Inr e'"
    using d by (auto simp: decode_meta_def split: if_split_asm)
  then have "e_family e' = e_family e" "e_protocol e' = e_protocol e" "e_original e' = e_original e"
    "e_reply e' = e_reply e"
    by (auto simp: decode_independent_def Let_def split: option.split_asm if_split_asm)
  with p False show ?thesis by (auto simp: partial_ok_def kind_fine_def)
qed

lemma decode_metas_ok: "decode_metas seen ms e = Inr e' \<Longrightarrow> partial_ok seen e \<Longrightarrow> entry_ok e'"
proof (induction ms arbitrary: seen e)
  case Nil
  then show ?case by (auto simp: partial_ok_def entry_ok_def split: if_splits)
next
  case (Cons m ms)
  from Cons.prems(1) obtain e1 where "decode_meta m e = Inr e1" "m_Direction m \<notin> set seen"
    "decode_metas (m_Direction m # seen) ms e1 = Inr e'"
    by (auto split: if_splits)
  with Cons.IH decode_meta_ok Cons.prems(2) show ?case by blast
qed

lemma decodeConntrackFlow_ok: "decodeConntrackFlow metas = Inr e \<Longrightarrow> entry_ok e"
  unfolding decodeConntrackFlow_def
  by (erule decode_metas_ok) (simp add: partial_ok_def no_ct_entry_def)

lemma xml_loop_ok:
  "xml_loop ts root closed entries = Inr out \<Longrightarrow> \<forall>e\<in>set entries. entry_ok e \<Longrightarrow>
   length entries \<le> maxConntrackRecords \<Longrightarrow> (\<forall>e\<in>set out. entry_ok e) \<and> length out \<le> maxConntrackRecords"
  by (induction ts root closed entries rule: xml_loop.induct)
    (auto dest: decodeConntrackFlow_ok split: if_splits option.splits)

lemma parseConntrackXML_ok:
  "parseConntrackXML tokens data = Inr out \<Longrightarrow> (\<forall>e\<in>set out. entry_ok e) \<and> length out \<le> maxConntrackRecords"
  by (auto simp: parseConntrackXML_def dest: xml_loop_ok split: if_splits)

text \<open>Every decoded entry with a mark has well-formed arguments for its deletion.\<close>

lemma entry_ok_delete:
  assumes "entry_ok e" and "e_mark e \<noteq> 0"
  shows "\<exists>args. conntrackDeleteArguments e = Inr args"
  using assms by (auto simp: entry_ok_def kind_fine_def tuple_ok_def conntrackDeleteArguments_def)

section \<open>What a match means\<close>

text \<open>
  The tuple a connection was forwarded by, read off its original and reply directions for a listener
  and an identity.
\<close>

lemma conntrackMatchesSpec_tuple:
  "conntrackMatchesSpec e s \<longleftrightarrow>
   (\<exists>p. p = uint (t_destinationPort (e_original e))
     \<and> (is_unspecified (ListenHost s) \<or> t_destination (e_original e) = ListenHost s)
     \<and> (nftRuleIdentity s, e_family e, e_protocol e, e_mark e, (ListenHost s, p),
         (t_source (e_reply e), uint (t_sourcePort (e_reply e)))) \<in> spec_tuples s)"
  by (auto simp: conntrackMatchesSpec_def tuple_in_spec tuple_at_def Let_def)

text \<open>Specs with the same tuples match the same connections.\<close>

lemma matches_mono:
  assumes "conntrackMatchesSpec e s" and "spec_tuples s \<subseteq> tuples specs"
  shows "\<exists>s'\<in>set specs. conntrackMatchesSpec e s'"
proof -
  let ?p = "uint (t_destinationPort (e_original e))"
  let ?t = "(nftRuleIdentity s, e_family e, e_protocol e, e_mark e, (ListenHost s, ?p),
         (t_source (e_reply e), uint (t_sourcePort (e_reply e))))"
  from assms(1) have t: "?t \<in> spec_tuples s"
    and h: "is_unspecified (ListenHost s) \<or> t_destination (e_original e) = ListenHost s"
    by (auto simp: conntrackMatchesSpec_tuple)
  from t assms(2) obtain s' where s': "s' \<in> set specs" "?t \<in> spec_tuples s'" by (auto simp: tuples_def)
  then have "nftRuleIdentity s' = nftRuleIdentity s" "ListenHost s' = ListenHost s"
    by (auto simp: tuple_in_spec tuple_at_def)
  with s' h have "conntrackMatchesSpec e s'" by (simp add: conntrackMatchesSpec_tuple)
  with s'(1) show ?thesis by blast
qed

text \<open>The selection the listing asks the tool for does not hide a matching entry.\<close>

definition cli_selects :: "nft_spec \<Rightarrow> ct_entry \<Rightarrow> bool" where
  "cli_selects spec e \<longleftrightarrow>
     e_family e = Family spec \<and> e_protocol e = Protocol spec \<and> e_mark e = ConntrackMark spec
     \<and> t_source (e_reply e) = TargetHost spec
     \<and> (is_unspecified (ListenHost spec) \<or> t_destination (e_original e) = ListenHost spec)
     \<and> ((ListenPortEnd spec = 0 \<or> ListenPortEnd spec = ListenPort spec) \<longrightarrow>
          uint (t_destinationPort (e_original e)) = ListenPort spec)"

lemma matches_selected: "conntrackMatchesSpec e spec \<Longrightarrow> cli_selects spec e"
  by (auto simp: conntrackMatchesSpec_def cli_selects_def nftLastPort_def Let_def split: if_splits)

section \<open>The contract of the kernel\<close>

text \<open>
  While a set of specs is gated, the kernel admits no new connection that matches one of them; other
  connections come and go.  A listing shows every matching connection that is left, and a deletion
  leaves a record of what it was asked for.
\<close>

locale conntrack_kernel =
  fixes io :: "'k ct_io"
    and live :: "'k \<Rightarrow> ct_entry set"
    and requested :: "'k \<Rightarrow> ct_entry list"
    and gated :: "nft_spec set"
  assumes list_complete:
      "io_list io spec k = (Inr es, k') \<Longrightarrow> e \<in> live k' \<Longrightarrow> conntrackMatchesSpec e spec \<Longrightarrow> e \<in> set es"
    and list_gated: "io_list io spec k = (r, k') \<Longrightarrow> e \<in> live k' \<Longrightarrow> e \<notin> live k \<Longrightarrow>
      s \<in> gated \<Longrightarrow> \<not> conntrackMatchesSpec e s"
    and delete_gated: "io_delete io sel k = (r', k') \<Longrightarrow> e \<in> live k' \<Longrightarrow> e \<notin> live k \<Longrightarrow>
      s \<in> gated \<Longrightarrow> \<not> conntrackMatchesSpec e s"
    and list_requested: "io_list io spec k = (r, k') \<Longrightarrow> requested k' = requested k"
    and delete_requested: "io_delete io sel k = (r', k') \<Longrightarrow> requested k' = requested k @ sel"
begin

definition clear :: "nft_spec \<Rightarrow> 'k \<Rightarrow> bool" where
  "clear s k \<longleftrightarrow> (\<forall>e\<in>live k. \<not> conntrackMatchesSpec e s)"

definition only_requests :: "nft_spec set \<Rightarrow> 'k \<Rightarrow> 'k \<Rightarrow> bool" where
  "only_requests S k k' \<longleftrightarrow>
     (\<exists>es. requested k' = requested k @ es \<and> (\<forall>e\<in>set es. \<exists>s\<in>S. conntrackMatchesSpec e s))"

lemma only_requests_refl [simp]: "requested k' = requested k \<Longrightarrow> only_requests S k k'"
  by (simp add: only_requests_def)

lemma only_requests_trans: "only_requests S k1 k2 \<Longrightarrow> only_requests S k2 k3 \<Longrightarrow> only_requests S k1 k3"
  by (fastforce simp: only_requests_def)

lemma only_requests_mono: "only_requests S k k' \<Longrightarrow> S \<subseteq> T \<Longrightarrow> only_requests T k k'"
  by (fastforce simp: only_requests_def)

lemma clear_list: "io_list io spec k = (r, k') \<Longrightarrow> s \<in> gated \<Longrightarrow> clear s k \<Longrightarrow> clear s k'"
  unfolding clear_def using list_gated by blast

lemma clear_delete: "io_delete io sel k = (r, k') \<Longrightarrow> s \<in> gated \<Longrightarrow> clear s k \<Longrightarrow> clear s k'"
  unfolding clear_def using delete_gated by blast

lemma clear_listed:
  "io_list io spec k = (Inr es, k') \<Longrightarrow> \<forall>e\<in>set es. \<not> conntrackMatchesSpec e spec \<Longrightarrow> clear spec k'"
  unfolding clear_def using list_complete by blast

lemma revoke_one_facts:
  assumes run: "revoke_one io spec k = (r, k')"
  shows "r = None \<Longrightarrow> clear spec k'"
    and "s \<in> gated \<Longrightarrow> clear s k \<Longrightarrow> clear s k'"
    and "only_requests {spec} k k'"
proof -
  obtain q k1 where l1: "io_list io spec k = (q, k1)" by fastforce
  have "(r = None \<longrightarrow> clear spec k') \<and> (s \<in> gated \<longrightarrow> clear s k \<longrightarrow> clear s k') \<and> only_requests {spec} k k'"
  proof (cases "io_expired io k")
    case True
    with run show ?thesis by (auto simp: revoke_one_def)
  next
    case live: False
    show ?thesis
    proof (cases q)
      case (Inl e)
      with run live l1 clear_list[OF l1] list_requested[OF l1] show ?thesis by (auto simp: revoke_one_def)
    next
      case (Inr es)
      let ?sel = "filter (\<lambda>e. conntrackMatchesSpec e spec) es"
      show ?thesis
      proof (cases "?sel = []")
        case True
        then have "clear spec k1" using clear_listed l1 Inr by (auto simp: filter_empty_conv)
        with run live l1 Inr True clear_list[OF l1] list_requested[OF l1] show ?thesis
          by (auto simp: revoke_one_def Let_def)
      next
        case False
        obtain del k2 where d: "io_delete io ?sel k1 = (del, k2)" by fastforce
        obtain q2 k3 where l2: "io_list io spec k2 = (q2, k3)" by fastforce
        have req: "only_requests {spec} k k2" "only_requests {spec} k k3"
          using list_requested[OF l1] delete_requested[OF d] list_requested[OF l2]
          by (auto simp: only_requests_def)
        have keep: "s \<in> gated \<longrightarrow> clear s k \<longrightarrow> clear s k2" "s \<in> gated \<longrightarrow> clear s k \<longrightarrow> clear s k3"
          using clear_list[OF l1] clear_delete[OF d] clear_list[OF l2] by blast+
        have last: "q2 = Inr es2 \<Longrightarrow> \<not> list_ex (\<lambda>e. conntrackMatchesSpec e spec) es2 \<Longrightarrow> clear spec k3" for es2
          using clear_listed l2 by (auto simp: list_ex_iff)
        show ?thesis
          using run live l1 Inr False d l2 req keep last
          by (auto simp: revoke_one_def Let_def split: if_splits sum.splits)
      qed
    qed
  qed
  then show "r = None \<Longrightarrow> clear spec k'" and "s \<in> gated \<Longrightarrow> clear s k \<Longrightarrow> clear s k'"
    and "only_requests {spec} k k'" by blast+
qed

lemma revoke_loop_keeps:
  "revoke_loop io specs k = (r, k') \<Longrightarrow> s \<in> gated \<Longrightarrow> clear s k \<Longrightarrow> clear s k'"
proof (induction specs arbitrary: k)
  case (Cons spec specs)
  obtain q k1 where one: "revoke_one io spec k = (q, k1)" by fastforce
  from Cons one revoke_one_facts(2)[OF one] show ?case by (cases q) auto
qed simp

lemma revoke_loop_requests: "revoke_loop io specs k = (r, k') \<Longrightarrow> only_requests (set specs) k k'"
proof (induction specs arbitrary: k)
  case (Cons spec specs)
  obtain q k1 where one: "revoke_one io spec k = (q, k1)" by fastforce
  have first: "only_requests (set (spec # specs)) k k1"
    using revoke_one_facts(3)[OF one] by (rule only_requests_mono) simp
  show ?case
  proof (cases q)
    case None
    with Cons.prems one have "revoke_loop io specs k1 = (r, k')" by simp
    from Cons.IH[OF this] have "only_requests (set (spec # specs)) k1 k'"
      by (rule only_requests_mono) auto
    with first show ?thesis by (rule only_requests_trans)
  qed (use Cons.prems one first in auto)
qed simp

lemma revoke_loop_clear:
  "revoke_loop io specs k = (None, k') \<Longrightarrow> set specs \<subseteq> gated \<Longrightarrow> \<forall>s\<in>set specs. clear s k'"
proof (induction specs arbitrary: k)
  case (Cons spec specs)
  obtain q k1 where one: "revoke_one io spec k = (q, k1)" by fastforce
  with Cons.prems have q: "q = None" and rest: "revoke_loop io specs k1 = (None, k')"
    by (auto split: option.splits)
  have "clear spec k1" using revoke_one_facts(1)[OF one q] .
  then have "clear spec k'" using revoke_loop_keeps[OF rest] Cons.prems(2) by simp
  with Cons.IH[OF rest] Cons.prems(2) show ?case by simp
qed simp

theorem revocation_complete:
  assumes "revokeNFTConnections io specs k = (None, k')" and "set specs \<subseteq> gated"
    and "e \<in> live k'" and "s \<in> set specs"
  shows "\<not> conntrackMatchesSpec e s"
  using assms revoke_loop_clear[of specs k k']
  by (auto simp: revokeNFTConnections_def clear_def split: if_splits option.splits)

theorem revocation_only_requests:
  assumes "revokeNFTConnections io specs k = (r, k')"
  shows "only_requests (set specs) k k'"
  using assms revoke_loop_requests[of specs k r k']
  by (auto simp: revokeNFTConnections_def split: if_splits option.splits)

end

section \<open>The tool over a table of connections\<close>

text \<open>
  A kernel with a table of connections: before every command some connections expire and some arrive,
  but none of a gated spec; a listing applies the selection of its command line, a deletion removes the
  given connections.  Each command may fail.
\<close>

record ct_table =
  tb_entries :: "ct_entry list"
  tb_requested :: "ct_entry list"
  tb_events :: "(ct_entry list \<times> ct_entry list \<times> ct_error option) list"
  tb_deadline :: nat

definition tool_step :: "nft_spec list \<Rightarrow> ct_table \<Rightarrow> ct_error option \<times> ct_table" where
  "tool_step gated tb =
     (case tb_events tb of
        [] \<Rightarrow> (None, tb)
      | (gone, come, err) # events \<Rightarrow>
          (err, tb\<lparr>tb_events := events,
             tb_entries := filter (\<lambda>e. e \<notin> set gone) (tb_entries tb)
               @ filter (\<lambda>e. \<not> list_ex (conntrackMatchesSpec e) gated) come\<rparr>))"

definition tool_list :: "nft_spec list \<Rightarrow> nft_spec \<Rightarrow> ct_table \<Rightarrow> (ct_error + ct_entry list) \<times> ct_table" where
  "tool_list gated spec tb =
     (if \<not> validateRetirementSpec spec then (Inl CTRetirementSpec, tb)
      else
        let (err, tb1) = tool_step gated tb in
        (case err of Some e \<Rightarrow> Inl e | None \<Rightarrow> Inr (filter (cli_selects spec) (tb_entries tb1)), tb1))"

definition tool_delete :: "nft_spec list \<Rightarrow> ct_entry list \<Rightarrow> ct_table \<Rightarrow> ct_error option \<times> ct_table" where
  "tool_delete gated sel tb =
     (let (err, tb1) = tool_step gated tb;
          tb2 = tb1\<lparr>tb_requested := tb_requested tb1 @ sel\<rparr>
      in case err of
           Some e \<Rightarrow> (Some e, tb2)
         | None \<Rightarrow> (None, tb2\<lparr>tb_entries := filter (\<lambda>e. e \<notin> set sel) (tb_entries tb2)\<rparr>))"

definition tool_io :: "nft_spec list \<Rightarrow> ct_table ct_io" where
  "tool_io gated =
     \<lparr>io_available = (\<lambda>_. None), io_expired = (\<lambda>tb. length (tb_events tb) < tb_deadline tb),
      io_list = tool_list gated, io_delete = tool_delete gated\<rparr>"

interpretation tool: conntrack_kernel "tool_io gs" "\<lambda>tb. set (tb_entries tb)" tb_requested "set gs" for gs
  by unfold_locales
    (auto simp: tool_io_def tool_list_def tool_delete_def tool_step_def Let_def list_ex_iff
      dest: matches_selected split: if_splits list.splits option.splits prod.splits)

end
