(* ===== verification/Props_Nft.thy ===== *)
theory Props_Nft
  imports Conntrack_Revocation
begin

text \<open>
  The properties of kernel forwarding: what is retired, gated and kept when the desired paths change, and
  what becomes of the connections of retired paths.
\<close>

definition sample_spec :: nft_spec where
  "sample_spec =
     \<lparr>RuleID = ''a'', Family = 4, ListenHost = ipv4_unspecified, ListenPort = 8000, ListenPortEnd = 8009,
      TargetHost = IP4 0xC6336407, TargetPort = 9000, TargetPortEnd = 9009, Protocol = ''tcp'',
      ConntrackMark = 0x50420001, EnableFlowtable = True,
      ruleIdentity = ''0123456789abcdef0123456789abcdef0123456789abcdef0123456789abcdef''\<rparr>"

definition narrow_spec :: nft_spec where
  "narrow_spec = sample_spec\<lparr>ListenPort := 8003, ListenPortEnd := 8005, TargetPort := 9003, TargetPortEnd := 9005,
     EnableFlowtable := False\<rparr>"

lemma sample_specs_ok: "spec_ok sample_spec" "spec_ok narrow_spec"
  by code_simp+

section \<open>Changing the forwarded paths\<close>

text \<open>C4.
  Retirement is exact: the retired specs forward precisely the tuples (rule, listener and port, target and
  port, protocol, mark) that the old specs forward and the desired ones do not, however the port ranges
  are cut; and every retired spec is again a valid retirement identity.\<close>

theorem retirement_exact:
  assumes "specs_ok old"
  shows "tuples (retiredNFTSpecs old desired) = tuples old - tuples desired \<and> specs_ok (retiredNFTSpecs old desired)"
  using retiredNFTSpecs_facts[OF assms] by blast

theorem retirement_exact_witness:
  "tuple_at sample_spec 8001 \<in> tuples (retiredNFTSpecs [sample_spec] [narrow_spec])"
proof -
  have "specs_ok [sample_spec]" by (simp add: sample_specs_ok)
  moreover have "tuple_at sample_spec 8001 \<in> tuples [sample_spec]"
    by (auto simp: tuple_in_spec sample_spec_def nftLastPort_def intro!: exI[of _ 8001])
  moreover have "tuple_at sample_spec 8001 \<notin> tuples [narrow_spec]"
    by (auto simp: tuple_in_spec tuple_at_def narrow_spec_def sample_spec_def nftLastPort_def)
  ultimately show ?thesis using retirement_exact[of "[sample_spec]" "[narrow_spec]"] by blast
qed

text \<open>While retirements are pending, the gated specs admit exactly those desired listening ports that no
  pending spec occupies on an overlapping listener of the same family and protocol, each with its own
  target port.\<close>

theorem gating_exact:
  assumes "specs_ok desired"
  shows "tuples (gateNFTReplacements desired pending) =
           {tuple_at s p | s p. s \<in> set desired \<and> p \<in> spec_ports s
              \<and> \<not> (\<exists>old\<in>set pending. same_listener s old \<and> p \<in> spec_ports old)}
    \<and> specs_ok (gateNFTReplacements desired pending)"
  using gateNFTReplacements_facts[OF assms] by (simp add: occupied_def)

theorem gating_exact_witness:
  "tuple_at sample_spec 8004 \<notin> tuples (gateNFTReplacements [sample_spec] [narrow_spec])"
proof -
  have "specs_ok [sample_spec]" by (simp add: sample_specs_ok)
  moreover have "same_listener sample_spec narrow_spec" "8004 \<in> spec_ports narrow_spec" by code_simp+
  ultimately show ?thesis
    using gating_exact[of "[sample_spec]" "[narrow_spec]"] by (auto simp: tuple_at_def)
qed

text \<open>When revocation is unavailable only paths that were already admitted stay: every kept tuple is desired
  and active, and none that asks for acceleration was active without it.\<close>

theorem only_previously_admitted:
  assumes "specs_ok desired"
  shows "tuples (previouslyAdmittedNFT desired active) =
           (\<Union>s\<in>set desired. spec_tuples s
              \<inter> tuples (filter (\<lambda>old. EnableFlowtable s \<longrightarrow> EnableFlowtable old) active))
    \<and> tuples (previouslyAdmittedNFT desired active) \<subseteq> tuples desired \<inter> tuples active"
proof -
  note f = previouslyAdmittedNFT_facts(1)[OF assms, of active]
  then show ?thesis by (auto simp: tuples_def)
qed

theorem only_previously_admitted_witness:
  "tuples (previouslyAdmittedNFT [sample_spec] [narrow_spec]) = {}"
proof -
  have "specs_ok [sample_spec]" by (simp add: sample_specs_ok)
  from only_previously_admitted[OF this, of "[narrow_spec]"]
  show ?thesis by (simp add: sample_spec_def narrow_spec_def)
qed

text \<open>Listing specs by their retirement key loses no tuple, and the key identifies a spec up to its name and
  acceleration: two valid specs have the same key exactly if they agree in identity, family, hosts, port
  ranges, protocol and mark.\<close>

theorem retirement_key_sound:
  assumes "specs_ok (concat gs)" and "spec_ok s" and "spec_ok t"
  shows "tuples (uniqueNFTSpecs gs) = tuples (concat gs)
    \<and> (nftRetirementKey s = nftRetirementKey t \<longleftrightarrow> retirement_identity s = retirement_identity t)"
  using uniqueNFTSpecs_tuples(1)[OF assms(1)] nftRetirementKey_inject[OF assms(2,3)] by blast

theorem retirement_key_sound_witness:
  "nftRetirementKey sample_spec \<noteq> nftRetirementKey narrow_spec"
  using retirement_key_sound[of "[]" sample_spec narrow_spec] sample_specs_ok
  by (simp add: retirement_identity_def sample_spec_def narrow_spec_def)

section \<open>Connections\<close>

text \<open>Only complete flows are decoded: every entry of an accepted dump has both directions with zone-free
  addresses of its family and a known protocol, a dump has at most 16384 entries, and an entry with a mark
  can be named for deletion.\<close>

theorem decoded_entries_ok:
  assumes "parseConntrackXML tokens data = Inr out" and "e \<in> set out"
  shows "entry_ok e \<and> length out \<le> maxConntrackRecords
    \<and> (e_mark e \<noteq> 0 \<longrightarrow> (\<exists>args. conntrackDeleteArguments e = Inr args))"
  using parseConntrackXML_ok[OF assms(1)] assms(2) entry_ok_delete by blast

definition sample_metas :: "xml_meta list" where
  "sample_metas =
     [\<lparr>m_Direction = ''original'', m_L3Name = ''ipv4'', m_L3Source = ''192.0.2.9'',
       m_L3Destination = ''192.0.2.1'', m_L4Name = ''tcp'', m_L4Source = ''40000'', m_L4Destination = ''8004'',
       m_Mark = [], m_Zone = []\<rparr>,
      \<lparr>m_Direction = ''reply'', m_L3Name = ''ipv4'', m_L3Source = ''198.51.100.7'',
       m_L3Destination = ''192.0.2.1'', m_L4Name = ''tcp'', m_L4Source = ''9004'', m_L4Destination = ''40000'',
       m_Mark = [], m_Zone = []\<rparr>,
      \<lparr>m_Direction = ''independent'', m_L3Name = [], m_L3Source = [], m_L3Destination = [],
       m_L4Name = [], m_L4Source = [], m_L4Destination = [], m_Mark = ''1346502657'', m_Zone = []\<rparr>]"

definition sample_entry :: ct_entry where
  "sample_entry =
     \<lparr>e_family = 4, e_protocol = ''tcp'',
      e_original = \<lparr>t_source = IP4 0xC0000209, t_destination = IP4 0xC0000201, t_sourcePort = 40000,
                    t_destinationPort = 8004\<rparr>,
      e_reply = \<lparr>t_source = IP4 0xC6336407, t_destination = IP4 0xC0000201, t_sourcePort = 9004,
                 t_destinationPort = 40000\<rparr>,
      e_mark = 0x50420001, e_zone = 0\<rparr>"

theorem decoded_entries_ok_witness:
  "entry_ok sample_entry \<and> (\<exists>args. conntrackDeleteArguments sample_entry = Inr args)"
proof -
  have "parseConntrackXML (\<lambda>_. [XStart ''conntrack'' None, XStart ''flow'' (Some sample_metas), XEnd ''conntrack''])
      ''x'' = Inr [sample_entry]"
    by code_simp
  from decoded_entries_ok[OF this, of sample_entry] show ?thesis by (simp add: sample_entry_def)
qed

text \<open>C17.
  A successful revocation is complete: against a kernel that admits no new connection of a gated spec,
  when the specs to revoke are gated and \<^verbatim>\<open>revokeNFTConnections\<close> reports no error, no live connection
  matches any of them.\<close>

theorem revocation_is_complete:
  assumes "conntrack_kernel io live requested gated"
    and "revokeNFTConnections io specs k = (None, k')" and "set specs \<subseteq> gated"
    and "e \<in> live k'" and "s \<in> set specs"
  shows "\<not> conntrackMatchesSpec e s"
  using conntrack_kernel.revocation_complete[OF assms] .

definition sample_table :: ct_table where
  "sample_table =
     \<lparr>tb_entries = [sample_entry, sample_entry\<lparr>e_mark := 7\<rparr>], tb_requested = [],
      tb_events = [([], [sample_entry], None), ([], [], None), ([], [], None)], tb_deadline = 0\<rparr>"

theorem revocation_is_complete_witness:
  "fst (revokeNFTConnections (tool_io [sample_spec]) [sample_spec] sample_table) = None
   \<and> \<not> list_ex (\<lambda>e. conntrackMatchesSpec e sample_spec)
       (tb_entries (snd (revokeNFTConnections (tool_io [sample_spec]) [sample_spec] sample_table)))"
proof -
  have ok: "fst (revokeNFTConnections (tool_io [sample_spec]) [sample_spec] sample_table) = None" by code_simp
  then have run: "revokeNFTConnections (tool_io [sample_spec]) [sample_spec] sample_table =
      (None, snd (revokeNFTConnections (tool_io [sample_spec]) [sample_spec] sample_table))"
    by (metis prod.collapse)
  have "set [sample_spec] \<subseteq> set [sample_spec]" by simp
  from revocation_is_complete[OF tool.conntrack_kernel_axioms run this] ok show ?thesis
    by (simp add: list_ex_iff)
qed

text \<open>Revocation never asks for the deletion of a connection that matches none of the given specs, whether it
  succeeds or fails: unrelated connections are left alone.\<close>

theorem revocation_is_limited:
  assumes "conntrack_kernel io live requested gated"
    and "revokeNFTConnections io specs k = (r, k')"
  shows "\<exists>es. requested k' = requested k @ es \<and> (\<forall>e\<in>set es. \<exists>s\<in>set specs. conntrackMatchesSpec e s)"
  using conntrack_kernel.revocation_only_requests[OF assms]
  by (simp add: conntrack_kernel.only_requests_def[OF assms(1)])

theorem revocation_is_limited_witness:
  "list_all (\<lambda>e. conntrackMatchesSpec e sample_spec)
     (tb_requested (snd (revokeNFTConnections (tool_io [sample_spec]) [sample_spec] sample_table)))"
proof -
  obtain r k' where run: "revokeNFTConnections (tool_io [sample_spec]) [sample_spec] sample_table = (r, k')"
    by fastforce
  from revocation_is_limited[OF tool.conntrack_kernel_axioms run] run show ?thesis
    by (auto simp: sample_table_def list_all_iff)
qed

text \<open>The listing does not overlook connections: every connection that matches a spec is among those that the
  command line for that spec selects; and if the tuples of a spec are covered by other specs, so are its
  connections.\<close>

theorem listing_covers_matches:
  assumes "conntrackMatchesSpec e s"
  shows "cli_selects s e
    \<and> (\<forall>specs. spec_tuples s \<subseteq> tuples specs \<longrightarrow> (\<exists>s'\<in>set specs. conntrackMatchesSpec e s'))"
  using matches_selected[OF assms] matches_mono[OF assms] by blast

theorem listing_covers_matches_witness: "cli_selects sample_spec sample_entry"
proof -
  have "conntrackMatchesSpec sample_entry sample_spec" by code_simp
  from listing_covers_matches[OF this] show ?thesis by blast
qed

end
