(* ===== verification/Plan.thy ===== *)
theory Plan
  imports Config_Rules Nft_Spec
begin

text \<open>
  \<^verbatim>\<open>internal/proxy/plan.go\<close>: resolving the targets of the rules, with the cache of the last good answers,
  and dividing every rule into kernel forwarding specs and userspace paths.

  The name resolver and the clock are arguments, functions of the number of the call, so that two lookups
  of one name may differ.  Times are nanoseconds; a cache entry without a time is one never fetched.
\<close>

section \<open>Data\<close>

record resolved_target =
  rt_host :: string
  rt_addrs :: "addr list"
  rt_fetchedAt :: "int option"

record go_path =
  g_RuleID :: string
  g_Rule :: rule

datatype plan_error =
    TargetDenied target_error
  | LookupFailed string
  | CachedDenied target_error
  | NoUsableAddress string
  | BackupFailed plan_error
  | NoFamilyAddress string int

record plan =
  p_nftSpecs :: "nft_spec list"
  p_goRules :: "(string \<times> go_path) list"
  p_dataPlanes :: "string \<Rightarrow> string option"
  p_errors :: "string \<Rightarrow> plan_error option"
  p_usesNFT :: "string \<Rightarrow> bool"
  p_usesGo :: "string \<Rightarrow> bool"

text \<open>What the manager keeps between plans: the cache, and how many lookups were made.\<close>

record resolver =
  v_resolved :: "string \<Rightarrow> resolved_target option"
  v_calls :: nat

record environment =
  env_lookup :: "nat \<Rightarrow> string \<Rightarrow> addr list option"
  env_now :: "nat \<Rightarrow> int"
  env_cpus :: int

record nft_settings =
  ns_mark :: "32 word"
  ns_flowtable :: bool

abbreviation DataPlaneDisabled :: string where "DataPlaneDisabled \<equiv> ''disabled''"
abbreviation DataPlaneNFT :: string where "DataPlaneNFT \<equiv> ''nftables''"
abbreviation DataPlaneGo :: string where "DataPlaneGo \<equiv> ''go-proxy''"
abbreviation DataPlaneHybrid :: string where "DataPlaneHybrid \<equiv> ''hybrid''"

section \<open>Resolving\<close>

definition address_order :: "addr \<Rightarrow> addr \<Rightarrow> bool" where
  "address_order a b \<longleftrightarrow> bit_len a < bit_len b \<or> bit_len a = bit_len b \<and> a < b"

text \<open>The addresses of an answer: unmapped, valid, authorised, without duplicates, and sorted.\<close>

fun usable_addresses :: "rule \<Rightarrow> addr list \<Rightarrow> target_error + addr list" where
  "usable_addresses r [] = Inr []"
| "usable_addresses r (raw # rest) =
     (let a = unmap raw in
      if \<not> is_valid a then usable_addresses r rest
      else case ValidateTargetAddress r a of
             Some e \<Rightarrow> Inl e
           | None \<Rightarrow> rbind (usable_addresses r rest) (\<lambda>as. Inr (a # as)))"

text \<open>
  Distinct texts are distinct addresses, so the set keyed by the text is the set of addresses; the order by
  bit length and \<^verbatim>\<open>Addr.Less\<close> is the order of addresses.
\<close>

definition cache_usable :: "rule \<Rightarrow> string \<Rightarrow> int \<Rightarrow> resolved_target option \<Rightarrow> addr list option" where
  "cache_usable r host now entry =
     (case entry of
        None \<Rightarrow> None
      | Some c \<Rightarrow>
          (case rt_fetchedAt c of
             None \<Rightarrow> None
           | Some t \<Rightarrow>
               if rt_host c = host \<and> rt_addrs c \<noteq> [] \<and> now - t \<le> wrap64 (r_DNSCacheTTLSeconds r * 10 ^ 9)
               then Some (rt_addrs c) else None))"

fun first_denied :: "rule \<Rightarrow> addr list \<Rightarrow> target_error option" where
  "first_denied r [] = None"
| "first_denied r (a # as) = try_err (ValidateTargetAddress r a) (first_denied r as)"

definition resolve_cached ::
    "environment \<Rightarrow> rule \<Rightarrow> string \<Rightarrow> string \<Rightarrow> bool \<Rightarrow> resolver \<Rightarrow> plan_error + addr list" where
  "resolve_cached env r host key allowCached v =
     (case (if allowCached then cache_usable r host (env_now env (v_calls v)) (v_resolved v key) else None) of
        None \<Rightarrow> Inl (LookupFailed host)
      | Some addrs \<Rightarrow>
          (case first_denied r addrs of Some e \<Rightarrow> Inl (CachedDenied e) | None \<Rightarrow> Inr addrs))"

definition resolveHost ::
    "environment \<Rightarrow> rule \<Rightarrow> string \<Rightarrow> string \<Rightarrow> bool \<Rightarrow> resolver \<Rightarrow> (plan_error + addr list) \<times> resolver" where
  "resolveHost env r host key allowCached v =
     (case parse_addr host of
        Some raw \<Rightarrow>
          (let a = unmap raw in
           ((case ValidateTargetAddress r a of Some e \<Rightarrow> Inl (TargetDenied e) | None \<Rightarrow> Inr [a]), v))
      | None \<Rightarrow>
          let answer = env_lookup env (v_calls v) host; v1 = v\<lparr>v_calls := Suc (v_calls v)\<rparr> in
          if answer = None \<or> answer = Some [] then (resolve_cached env r host key allowCached v1, v1)
          else
            case usable_addresses r (the answer) of
              Inl e \<Rightarrow> (Inl (TargetDenied e), v1)
            | Inr found \<Rightarrow>
                let addrs = sort (remdups found) in
                if addrs = [] then (Inl (NoUsableAddress host), v1)
                else (Inr addrs, v1\<lparr>v_resolved := (v_resolved v1)(key \<mapsto>
                        \<lparr>rt_host = host, rt_addrs = addrs, rt_fetchedAt = Some (env_now env (v_calls v1))\<rparr>)\<rparr>))"

section \<open>Listeners\<close>

definition listenFamilies :: "string \<Rightarrow> (int \<times> addr) list" where
  "listenFamilies host =
     (if host = ''*'' then [(4, ipv4_unspecified), (6, ipv6_unspecified)]
      else
        let a = unmap (case parse_addr (trim_space host) of Some a \<Rightarrow> a | None \<Rightarrow> NoAddr)
        in if is4 a then [(4, a)] else [(6, a)])"

definition firstAddressForFamily :: "addr list \<Rightarrow> int \<Rightarrow> addr option" where
  "firstAddressForFamily addrs family = find (\<lambda>a. family = 4 \<and> is4 a \<or> family = 6 \<and> is6 a) addrs"

definition firstAddressForOtherFamily :: "addr list \<Rightarrow> int \<Rightarrow> addr option" where
  "firstAddressForOtherFamily addrs family = firstAddressForFamily addrs (if family = 4 then 6 else 4)"

definition go_key :: "string \<Rightarrow> string \<Rightarrow> addr \<Rightarrow> addr \<Rightarrow> string" where
  "go_key ident kind listen target = join ''|'' [ident, kind, addr_string listen, addr_string target]"

text \<open>A map with its keys listed; an update replaces the entry of its key.\<close>

fun alist_set :: "'k \<Rightarrow> 'v \<Rightarrow> ('k \<times> 'v) list \<Rightarrow> ('k \<times> 'v) list" where
  "alist_set k v [] = [(k, v)]"
| "alist_set k v ((k', v') # kvs) = (if k' = k then (k, v) # kvs else (k', v') # alist_set k v kvs)"

definition addGoPath :: "rule \<Rightarrow> addr \<Rightarrow> addr \<Rightarrow> string \<Rightarrow> plan \<Rightarrow> plan" where
  "addGoPath r listen target kind p =
     (let derived = r\<lparr>r_ListenHost := addr_string listen, r_TargetHost := addr_string target\<rparr> in
      p\<lparr>p_goRules := alist_set (go_key (r_ID r) kind listen target) \<lparr>g_RuleID = r_ID r, g_Rule = derived\<rparr> (p_goRules p),
        p_usesGo := (p_usesGo p)(r_ID r := True)\<rparr>)"

definition rule_spec :: "nft_settings \<Rightarrow> rule \<Rightarrow> int \<Rightarrow> addr \<Rightarrow> addr \<Rightarrow> string \<Rightarrow> nft_spec" where
  "rule_spec ns r family listen target protocol =
     \<lparr>RuleID = r_ID r, Family = family, ListenHost = listen, ListenPort = r_ListenPort r,
      ListenPortEnd = LastListenPort r, TargetHost = target, TargetPort = r_TargetPort r,
      TargetPortEnd = LastTargetPort r, Protocol = protocol, ConntrackMark = ns_mark ns,
      EnableFlowtable = ns_flowtable ns, ruleIdentity = []\<rparr>"

definition rule_protocols :: "rule \<Rightarrow> string list" where
  "rule_protocols r = (if r_Protocol r = ProtocolBoth then [ProtocolTCP, ProtocolUDP] else [r_Protocol r])"

definition addNFTPath :: "nft_settings \<Rightarrow> rule \<Rightarrow> int \<Rightarrow> addr \<Rightarrow> addr \<Rightarrow> plan \<Rightarrow> plan" where
  "addNFTPath ns r family listen target p =
     p\<lparr>p_nftSpecs := p_nftSpecs p @ map (rule_spec ns r family listen target) (rule_protocols r),
       p_usesNFT := (p_usesNFT p)(r_ID r := True)\<rparr>"

definition family_loopback :: "int \<Rightarrow> addr" where
  "family_loopback family = (if family = 4 then IP4 0x7F000001 else ipv6_loopback)"

text \<open>
  One listening family of a rule: the plan, and whether the rule has kernel and userspace paths.
\<close>

definition plan_listener ::
    "nft_settings \<Rightarrow> rule \<Rightarrow> addr list \<Rightarrow> int \<times> addr \<Rightarrow> plan \<times> bool \<times> bool \<Rightarrow> plan \<times> bool \<times> bool" where
  "plan_listener ns r addrs fl state =
     (let (family, listen) = fl; (p, hasNFT, hasGo) = state;
          same = firstAddressForFamily addrs family;
          target = (case same of Some a \<Rightarrow> a | None \<Rightarrow>
                      (case firstAddressForOtherFamily addrs family of Some a \<Rightarrow> a | None \<Rightarrow> NoAddr));
          missing = (p\<lparr>p_errors := (p_errors p)(r_ID r \<mapsto> NoFamilyAddress (r_TargetHost r) family)\<rparr>, hasNFT, hasGo)
      in if r_DataPlane r = RuleDataPlaneGo then
           (if \<not> is_valid target then missing
            else (addGoPath r listen target ''forced'' p, hasNFT, True))
         else if same \<noteq> None \<and> zone target = [] \<and> \<not> is_loopback listen then
           (let p1 = addNFTPath ns r family listen target p in
            if is_unspecified listen
            then (addGoPath r (family_loopback family) target ''loopback'' p1, True, True)
            else (p1, True, hasGo))
         else if \<not> is_valid target then missing
         else (addGoPath r listen target ''proxy'' p, hasNFT, True))"

definition plan_kind :: "bool \<Rightarrow> bool \<Rightarrow> string" where
  "plan_kind hasNFT hasGo =
     (if hasNFT \<and> hasGo then DataPlaneHybrid else if hasNFT then DataPlaneNFT
      else if hasGo then DataPlaneGo else DataPlaneDisabled)"

definition plan_error_for :: "string \<Rightarrow> plan_error \<Rightarrow> plan \<Rightarrow> plan" where
  "plan_error_for ident e p = p\<lparr>p_errors := (p_errors p)(ident \<mapsto> e)\<rparr>"

text \<open>The backup host of a rule is replaced by its first address.\<close>

definition resolve_backup ::
    "environment \<Rightarrow> rule \<Rightarrow> bool \<Rightarrow> resolver \<Rightarrow> (plan_error + rule) \<times> resolver" where
  "resolve_backup env r allowCached v =
     (if r_BackupTargetHost r = [] then (Inr r, v)
      else
        case resolveHost env r (r_BackupTargetHost r) (r_ID r @ '':backup'') allowCached v of
          (Inl e, v1) \<Rightarrow> (Inl (BackupFailed e), v1)
        | (Inr addrs, v1) \<Rightarrow> (Inr (r\<lparr>r_BackupTargetHost := addr_string (hd addrs)\<rparr>), v1))"

definition plan_families :: "nft_settings \<Rightarrow> rule \<Rightarrow> addr list \<Rightarrow> plan \<Rightarrow> plan" where
  "plan_families ns r addrs p =
     (let (p1, hasNFT, hasGo) = fold (plan_listener ns r addrs) (listenFamilies (r_ListenHost r)) (p, False, False)
      in p1\<lparr>p_dataPlanes := (p_dataPlanes p1)(r_ID r \<mapsto> plan_kind hasNFT hasGo)\<rparr>)"

definition plan_rule ::
    "environment \<Rightarrow> nft_settings \<Rightarrow> bool \<Rightarrow> rule \<Rightarrow> plan \<times> resolver \<Rightarrow> plan \<times> resolver" where
  "plan_rule env ns allowCached raw pv =
     (let (p, v) = pv; r = NormalizeRule raw in
      if \<not> r_Enabled r then (p\<lparr>p_dataPlanes := (p_dataPlanes p)(r_ID r \<mapsto> DataPlaneDisabled)\<rparr>, v)
      else
        case resolveHost env r (r_TargetHost r) (r_ID r) allowCached v of
          (Inl e, v1) \<Rightarrow> (plan_error_for (r_ID r) e p, v1)
        | (Inr addrs, v1) \<Rightarrow>
            case resolve_backup env r allowCached v1 of
              (Inl e, v2) \<Rightarrow> (plan_error_for (r_ID r) e p, v2)
            | (Inr r1, v2) \<Rightarrow> (plan_families ns r1 addrs p, v2))"

section \<open>Userspace workers\<close>

abbreviation maxAutomaticUDPWorkers :: int where "maxAutomaticUDPWorkers \<equiv> 16"

definition effectiveUDPWorkers :: "environment \<Rightarrow> int \<Rightarrow> int" where
  "effectiveUDPWorkers env configured =
     (if 0 < configured then configured
      else let workers = max 1 (env_cpus env) in min workers maxAutomaticUDPWorkers)"

definition rule_keys :: "string \<Rightarrow> (string \<times> go_path) list \<Rightarrow> string list" where
  "rule_keys ident paths = sort (map fst (filter (\<lambda>(k, g). g_RuleID g = ident) paths))"

text \<open>The workers of the \<open>i\<close>-th of \<open>n\<close> paths.\<close>

definition path_workers :: "int \<Rightarrow> int \<Rightarrow> int \<Rightarrow> int \<Rightarrow> int" where
  "path_workers endpoints extra n i = endpoints + extra div n + (if i < extra mod n then 1 else 0)"

fun assign_workers :: "(int \<Rightarrow> int) \<Rightarrow> string list \<Rightarrow> int \<Rightarrow> (string \<times> go_path) list \<Rightarrow> (string \<times> go_path) list" where
  "assign_workers w [] i paths = paths"
| "assign_workers w (k # ks) i paths =
     assign_workers w ks (i + 1)
       (map (\<lambda>(k', g). (k', if k' = k then g\<lparr>g_Rule := (g_Rule g)\<lparr>r_UDPWorkers := w i\<rparr>\<rparr> else g)) paths)"

definition distribute_rule :: "environment \<Rightarrow> rule \<Rightarrow> (string \<times> go_path) list \<Rightarrow> (string \<times> go_path) list" where
  "distribute_rule env raw paths =
     (let r = NormalizeRule raw; keys = rule_keys (r_ID r) paths; n = int (length keys);
          endpoints = LastListenPort r - r_ListenPort r + 1;
          total = max (effectiveUDPWorkers env (r_UDPWorkers r)) (endpoints * n)
      in if r_Protocol r \<noteq> ProtocolUDP \<and> r_Protocol r \<noteq> ProtocolBoth \<or> keys = [] then paths
         else assign_workers (path_workers endpoints (total - endpoints * n) n) keys 0 paths)"

definition distributeGoUDPWorkers :: "environment \<Rightarrow> rule list \<Rightarrow> plan \<Rightarrow> plan" where
  "distributeGoUDPWorkers env rules p = p\<lparr>p_goRules := fold (distribute_rule env) rules (p_goRules p)\<rparr>"

definition empty_plan :: plan where
  "empty_plan = \<lparr>p_nftSpecs = [], p_goRules = [], p_dataPlanes = (\<lambda>_. None), p_errors = (\<lambda>_. None),
                 p_usesNFT = (\<lambda>_. False), p_usesGo = (\<lambda>_. False)\<rparr>"

definition buildPlan ::
    "environment \<Rightarrow> nft_settings \<Rightarrow> bool \<Rightarrow> rule list \<Rightarrow> resolver \<Rightarrow> plan \<times> resolver" where
  "buildPlan env ns allowCached rules v =
     (let (p, v1) = fold (plan_rule env ns allowCached) rules (empty_plan, v)
      in (distributeGoUDPWorkers env rules p, v1))"

end
