(* ===== verification/Plan_Facts.thy ===== *)
theory Plan_Facts
  imports Plan Nft_Tuples
begin

text \<open>
  What every plan guarantees: each target it forwards to is authorised by its rule at the time of the plan,
  also when it comes from the cache; its kernel specs are valid; every listener of a planned rule is served;
  and the workers of a rule are divided without loss.
\<close>

section \<open>Authorised targets\<close>

text \<open>The part of a rule that decides about targets.\<close>

definition same_policy :: "rule \<Rightarrow> rule \<Rightarrow> bool" where
  "same_policy r q \<longleftrightarrow>
     r_AllowPrivateTarget r = r_AllowPrivateTarget q \<and> r_TargetCIDRAllowlist r = r_TargetCIDRAllowlist q"

lemma same_policy_permitted: "same_policy r q \<Longrightarrow> target_permitted r a = target_permitted q a"
  by (simp add: same_policy_def target_permitted_def)

lemma target_permitted_valid: "target_permitted r a \<Longrightarrow> is_valid a"
  by (simp add: target_permitted_def unicast_target_def)

lemma target_permitted_unmap: "target_permitted r (unmap a) = target_permitted r a"
  by (simp add: target_permitted_def)

lemma usable_addresses_permitted:
  "usable_addresses r raws = Inr as \<Longrightarrow> a \<in> set as \<Longrightarrow> target_permitted r a \<and> \<not> is4in6 a"
proof (induction raws arbitrary: as)
  case (Cons raw raws)
  show ?case
  proof (cases "is_valid (unmap raw) \<and> ValidateTargetAddress r (unmap raw) = None")
    case True
    with Cons.prems(1) obtain bs where bs: "usable_addresses r raws = Inr bs" "as = unmap raw # bs"
      by (auto simp: Let_def)
    with Cons True show ?thesis by (auto simp: ValidateTargetAddress_policy)
  next
    case False
    with Cons show ?thesis by (auto simp: Let_def split: option.splits if_splits)
  qed
qed simp

lemma first_denied_None: "first_denied r as = None \<longleftrightarrow> (\<forall>a\<in>set as. target_permitted r a)"
  by (induction as) (auto simp: ValidateTargetAddress_policy)

text \<open>The cache holds unmapped addresses only.\<close>

definition cache_ok :: "resolver \<Rightarrow> bool" where
  "cache_ok v \<longleftrightarrow> (\<forall>k c. v_resolved v k = Some c \<longrightarrow> (\<forall>a\<in>set (rt_addrs c). \<not> is4in6 a))"

lemma resolveHost_permitted:
  assumes run: "resolveHost env r host key allowCached v = (Inr as, v')" and cache: "cache_ok v"
  shows "as \<noteq> [] \<and> (\<forall>a\<in>set as. target_permitted r a \<and> \<not> is4in6 a)"
proof (cases "parse_addr host")
  case (Some raw)
  with run show ?thesis
    by (auto simp: resolveHost_def Let_def ValidateTargetAddress_policy split: option.splits)
next
  case None
  let ?answer = "env_lookup env (v_calls v) host"
  let ?v1 = "v\<lparr>v_calls := Suc (v_calls v)\<rparr>"
  show ?thesis
  proof (cases "?answer = None \<or> ?answer = Some []")
    case True
    with None run have "resolve_cached env r host key allowCached ?v1 = Inr as"
      by (auto simp: resolveHost_def Let_def)
    then have "cache_usable r host (env_now env (Suc (v_calls v))) (v_resolved v key) = Some as"
      and permitted: "first_denied r as = None"
      by (auto simp: resolve_cached_def split: option.splits if_splits)
    then have "as \<noteq> []" and "\<exists>c. v_resolved v key = Some c \<and> as = rt_addrs c"
      by (auto simp: cache_usable_def split: option.splits if_splits)
    with permitted cache show ?thesis by (auto simp: first_denied_None cache_ok_def)
  next
    case False
    with None run obtain found where f: "usable_addresses r (the ?answer) = Inr found"
      and as: "as = sort (remdups found)" "as \<noteq> []"
      by (auto simp: resolveHost_def Let_def split: sum.splits if_splits)
    then show ?thesis using usable_addresses_permitted[OF f] by auto
  qed
qed

lemma resolveHost_cache:
  assumes run: "resolveHost env r host key allowCached v = (q, v')" and cache: "cache_ok v"
  shows "cache_ok v'"
proof -
  have calls: "cache_ok (v\<lparr>v_calls := Suc (v_calls v)\<rparr>)" using cache by (simp add: cache_ok_def)
  show ?thesis
  proof (cases "parse_addr host")
    case (Some raw)
    with run cache show ?thesis by (simp add: resolveHost_def Let_def)
  next
    case None
    let ?answer = "env_lookup env (v_calls v) host"
    show ?thesis
    proof (cases "?answer = None \<or> ?answer = Some []")
      case True
      with None run calls show ?thesis by (simp add: resolveHost_def Let_def)
    next
      case False
      then obtain ys where ys: "?answer = Some ys" "ys \<noteq> []" by (cases ?answer) auto
      show ?thesis
      proof (cases "usable_addresses r ys")
        case (Inl e)
        with None ys run calls show ?thesis by (simp add: resolveHost_def Let_def)
      next
        case (Inr found)
        have new: "\<forall>a\<in>set (sort (remdups found)). \<not> is4in6 a" using usable_addresses_permitted[OF Inr] by auto
        show ?thesis
        proof (cases "found = []")
          case True
          with None ys Inr run calls show ?thesis by (simp add: resolveHost_def Let_def)
        next
          case some: False
          then have "sort (remdups found) \<noteq> []" by (metis remdups_eq_nil_iff set_empty set_sort)
          with None ys Inr run have "v' = v\<lparr>v_calls := Suc (v_calls v), v_resolved := (v_resolved v)(key \<mapsto>
             \<lparr>rt_host = host, rt_addrs = sort (remdups found),
              rt_fetchedAt = Some (env_now env (Suc (v_calls v)))\<rparr>)\<rparr>"
            by (simp add: resolveHost_def Let_def)
          with cache new show ?thesis by (auto simp: cache_ok_def)
        qed
      qed
    qed
  qed
qed

section \<open>Invariants of a plan under construction\<close>

definition spec_from :: "rule list \<Rightarrow> nft_settings \<Rightarrow> nft_spec \<Rightarrow> bool" where
  "spec_from rules ns s \<longleftrightarrow>
     (\<exists>raw\<in>set rules. \<exists>listen. let r = NormalizeRule raw in
        r_Enabled r \<and> r_DataPlane r \<noteq> RuleDataPlaneGo \<and> target_permitted r (TargetHost s)
        \<and> (Family s, listen) \<in> set (listenFamilies (r_ListenHost r)) \<and> \<not> is_loopback listen
        \<and> zone (TargetHost s) = [] \<and> (Family s = 4 \<and> is4 (TargetHost s) \<or> Family s = 6 \<and> is6 (TargetHost s))
        \<and> Protocol s \<in> set (rule_protocols r)
        \<and> s = rule_spec ns r (Family s) listen (TargetHost s) (Protocol s))"

definition path_from :: "rule list \<Rightarrow> go_path \<Rightarrow> bool" where
  "path_from rules g \<longleftrightarrow>
     (\<exists>raw\<in>set rules. let r = NormalizeRule raw in
        r_Enabled r \<and> g_RuleID g = r_ID r
        \<and> (\<exists>a. target_permitted r a \<and> r_TargetHost (g_Rule g) = addr_string a)
        \<and> (r_BackupTargetHost (g_Rule g) = []
             \<or> (\<exists>b. target_permitted r b \<and> r_BackupTargetHost (g_Rule g) = addr_string b)))"

definition plan_ok :: "rule list \<Rightarrow> nft_settings \<Rightarrow> plan \<Rightarrow> bool" where
  "plan_ok rules ns p \<longleftrightarrow>
     (\<forall>s\<in>set (p_nftSpecs p). spec_from rules ns s) \<and> (\<forall>(k, g)\<in>set (p_goRules p). path_from rules g)"

lemma alist_set_set: "set (alist_set k v kvs) \<subseteq> insert (k, v) (set kvs)"
  by (induction k v kvs rule: alist_set.induct) auto

lemma alist_set_keys: "fst ` set (alist_set k v kvs) = insert k (fst ` set kvs)"
  by (induction k v kvs rule: alist_set.induct) auto

lemma alist_put_map_of [simp]: "map_of (alist_set k v kvs) = (map_of kvs)(k \<mapsto> v)"
  by (induction kvs rule: alist_set.induct) auto

lemma alist_put_distinct: "distinct (map fst kvs) \<Longrightarrow> distinct (map fst (alist_set k v kvs))"
proof (induction kvs rule: alist_set.induct)
  case (2 k v k' v' kvs)
  then show ?case using alist_set_keys[of k v kvs] by auto
qed simp

lemma alist_put_fresh: "k \<notin> fst ` set kvs \<Longrightarrow> alist_set k v kvs = kvs @ [(k, v)]"
  by (induction kvs rule: alist_set.induct) auto

lemma alist_put_set: "distinct (map fst kvs) \<Longrightarrow> set (alist_set k v kvs) = insert (k, v) {x \<in> set kvs. fst x \<noteq> k}"
  by (induction kvs rule: alist_set.induct) (auto simp: image_iff)

text \<open>The rule a backup is resolved for: as the normalised rule but for the backup host.\<close>

definition resolved_rule :: "rule \<Rightarrow> rule \<Rightarrow> bool" where
  "resolved_rule r r1 \<longleftrightarrow>
     (\<exists>h. r1 = r\<lparr>r_BackupTargetHost := h\<rparr> \<and> (h = [] \<or> (\<exists>b. target_permitted r b \<and> h = addr_string b)))"

lemma resolve_backup_rule:
  assumes "resolve_backup env r allowCached v = (Inr r1, v')" and "cache_ok v"
  shows "resolved_rule r r1"
proof (cases "r_BackupTargetHost r = []")
  case True
  with assms(1) have "r1 = r\<lparr>r_BackupTargetHost := []\<rparr>" by (simp add: resolve_backup_def)
  then show ?thesis by (auto simp: resolved_rule_def)
next
  case False
  obtain q v1 where h: "resolveHost env r (r_BackupTargetHost r) (r_ID r @ '':backup'') allowCached v = (q, v1)"
    by fastforce
  with False assms(1) obtain addrs where a: "q = Inr addrs"
    "r1 = r\<lparr>r_BackupTargetHost := addr_string (hd addrs)\<rparr>"
    by (auto simp: resolve_backup_def split: sum.splits)
  with resolveHost_permitted[of env r _ _ _ v addrs v1] h assms(2) have "target_permitted r (hd addrs)" by auto
  with a show ?thesis by (auto simp: resolved_rule_def)
qed

lemma resolve_backup_cache:
  "resolve_backup env r allowCached v = (q, v') \<Longrightarrow> cache_ok v \<Longrightarrow> cache_ok v'"
  by (auto simp: resolve_backup_def dest: resolveHost_cache split: if_splits prod.splits sum.splits)

lemma firstAddressForFamily_in:
  "firstAddressForFamily addrs family = Some a \<Longrightarrow>
   a \<in> set addrs \<and> (family = 4 \<and> is4 a \<or> family = 6 \<and> is6 a)"
  by (auto simp: firstAddressForFamily_def find_Some_iff)

lemma addGoPath_ok:
  assumes "plan_ok rules ns p" and "raw \<in> set rules" and "r_Enabled (NormalizeRule raw)"
    and "resolved_rule (NormalizeRule raw) r1" and "target_permitted (NormalizeRule raw) target"
  shows "plan_ok rules ns (addGoPath r1 listen target kind p)"
proof -
  have "path_from rules \<lparr>g_RuleID = r_ID r1,
      g_Rule = r1\<lparr>r_ListenHost := addr_string listen, r_TargetHost := addr_string target\<rparr>\<rparr>"
    using assms(2-5) unfolding path_from_def Let_def
    by (intro bexI[of _ raw]) (auto simp: resolved_rule_def)
  with assms(1) alist_set_set show ?thesis
    by (fastforce simp: plan_ok_def addGoPath_def Let_def)
qed

lemma addNFTPath_ok:
  assumes "plan_ok rules ns p" and "raw \<in> set rules" and "r_Enabled (NormalizeRule raw)"
    and "resolved_rule (NormalizeRule raw) r1" and "target_permitted (NormalizeRule raw) target"
    and "r_DataPlane r1 \<noteq> RuleDataPlaneGo" and "(family, listen) \<in> set (listenFamilies (r_ListenHost r1))"
    and "\<not> is_loopback listen" and "zone target = []"
    and "family = 4 \<and> is4 target \<or> family = 6 \<and> is6 target"
  shows "plan_ok rules ns (addNFTPath ns r1 family listen target p)"
proof -
  obtain h where r1: "r1 = (NormalizeRule raw)\<lparr>r_BackupTargetHost := h\<rparr>"
    using assms(4) by (auto simp: resolved_rule_def)
  have sel: "rule_spec ns r1 family listen target proto = rule_spec ns (NormalizeRule raw) family listen target proto"
    "rule_protocols r1 = rule_protocols (NormalizeRule raw)" for proto
    by (simp_all add: r1 rule_spec_def rule_protocols_def LastListenPort_def LastTargetPort_def)
  have fields: "Family (rule_spec ns r family listen target proto) = family"
    "TargetHost (rule_spec ns r family listen target proto) = target"
    "Protocol (rule_spec ns r family listen target proto) = proto" for r proto
    by (simp_all add: rule_spec_def)
  have "spec_from rules ns (rule_spec ns r1 family listen target proto)" if "proto \<in> set (rule_protocols r1)" for proto
    using assms(2,3,5-10) that unfolding spec_from_def Let_def sel
    by (intro bexI[of _ raw] exI[of _ listen]) (simp_all add: fields r1 sel)
  with assms(1) show ?thesis by (auto simp: plan_ok_def addNFTPath_def)
qed

lemma plan_listener_ok:
  assumes ok: "plan_ok rules ns p" and raw: "raw \<in> set rules" and en: "r_Enabled (NormalizeRule raw)"
    and r1: "resolved_rule (NormalizeRule raw) r1"
    and addrs: "\<forall>a\<in>set addrs. target_permitted (NormalizeRule raw) a"
    and fl: "fl \<in> set (listenFamilies (r_ListenHost r1))"
    and run: "plan_listener ns r1 addrs fl (p, n, g) = (p', n', g')"
  shows "plan_ok rules ns p'"
proof -
  obtain family listen where f: "fl = (family, listen)" by fastforce
  define same where "same = firstAddressForFamily addrs family"
  define target where "target = (case same of Some a \<Rightarrow> a | None \<Rightarrow>
      (case firstAddressForOtherFamily addrs family of Some a \<Rightarrow> a | None \<Rightarrow> NoAddr))"
  have t: "target_permitted (NormalizeRule raw) target" if "is_valid target"
  proof (cases same)
    case (Some a)
    with addrs firstAddressForFamily_in show ?thesis by (auto simp: target_def same_def)
  next
    case None
    with that have "firstAddressForOtherFamily addrs family = Some target"
      by (cases "firstAddressForOtherFamily addrs family") (auto simp: target_def is_valid_def)
    with addrs firstAddressForFamily_in show ?thesis by (auto simp: firstAddressForOtherFamily_def)
  qed
  have miss: "plan_ok rules ns (p\<lparr>p_errors := e\<rparr>)" for e using ok by (simp add: plan_ok_def)
  note go = addGoPath_ok[OF _ raw en r1]
  note r = run[unfolded plan_listener_def f prod.case Let_def, folded same_def, folded target_def]
  show ?thesis
  proof (cases "r_DataPlane r1 = RuleDataPlaneGo")
    case True
    with r ok miss go[OF ok t] show ?thesis by (auto split: if_splits)
  next
    case nft: False
    show ?thesis
    proof (cases "same \<noteq> None \<and> zone target = [] \<and> \<not> is_loopback listen")
      case True
      then obtain y where y: "same = Some y" by auto
      then have "target = y" by (simp add: target_def)
      with y have fam: "family = 4 \<and> is4 target \<or> family = 6 \<and> is6 target"
        using firstAddressForFamily_in[of addrs family y] by (simp add: same_def)
      then have valid: "is_valid target" by (cases target) (auto simp: is_valid_def)
      have p1: "plan_ok rules ns (addNFTPath ns r1 family listen target p)"
        using addNFTPath_ok[OF ok raw en r1 t[OF valid] nft] fl f True fam by blast
      with r nft True go[OF p1 t[OF valid]] show ?thesis by (auto split: if_splits)
    next
      case False
      with r nft ok miss go[OF ok t] show ?thesis by (auto split: if_splits)
    qed
  qed
qed

lemma plan_families_ok:
  assumes ok: "plan_ok rules ns p" and raw: "raw \<in> set rules" and en: "r_Enabled (NormalizeRule raw)"
    and r1: "resolved_rule (NormalizeRule raw) r1"
    and addrs: "\<forall>a\<in>set addrs. target_permitted (NormalizeRule raw) a"
  shows "plan_ok rules ns (plan_families ns r1 addrs p)"
proof -
  have "plan_ok rules ns (fst (fold (plan_listener ns r1 addrs) (listenFamilies (r_ListenHost r1)) (p, False, False)))"
  proof (rule fold_invariant[where Q = "\<lambda>fl. fl \<in> set (listenFamilies (r_ListenHost r1))"
        and P = "\<lambda>st. plan_ok rules ns (fst st)"])
    fix fl and st :: "plan \<times> bool \<times> bool"
    assume "fl \<in> set (listenFamilies (r_ListenHost r1))" and "plan_ok rules ns (fst st)"
    then show "plan_ok rules ns (fst (plan_listener ns r1 addrs fl st))"
      using plan_listener_ok[OF _ raw en r1 addrs] by (metis prod.collapse)
  qed (use ok in auto)
  then show ?thesis by (auto simp: plan_families_def plan_ok_def split: prod.splits)
qed

lemma plan_rule_ok:
  assumes ok: "plan_ok rules ns p" and cache: "cache_ok v" and raw: "raw \<in> set rules"
    and run: "plan_rule env ns allowCached raw (p, v) = (p', v')"
  shows "plan_ok rules ns p' \<and> cache_ok v'"
proof -
  let ?r = "NormalizeRule raw"
  have maps: "plan_ok rules ns (p\<lparr>p_dataPlanes := d\<rparr>)" "plan_ok rules ns (plan_error_for i e p)" for d i e
    using ok by (simp_all add: plan_ok_def plan_error_for_def)
  obtain q v1 where h: "resolveHost env ?r (r_TargetHost ?r) (r_ID ?r) allowCached v = (q, v1)" by fastforce
  note c1 = resolveHost_cache[OF h cache]
  obtain b v2 where b: "resolve_backup env ?r allowCached v1 = (b, v2)" by fastforce
  note c2 = resolve_backup_cache[OF b c1]
  note r = run[unfolded plan_rule_def prod.case Let_def h]
  show ?thesis
  proof (cases "r_Enabled ?r")
    case False
    with r maps cache show ?thesis by auto
  next
    case True
    show ?thesis
    proof (cases q)
      case (Inl e)
      with r True maps c1 show ?thesis by auto
    next
      case (Inr addrs)
      have permitted: "\<forall>a\<in>set addrs. target_permitted ?r a"
        using resolveHost_permitted h Inr cache by blast
      show ?thesis
      proof (cases b)
        case (Inl e)
        with r True Inr b maps c2 show ?thesis by auto
      next
        case (Inr r1)
        have "resolved_rule ?r r1" using resolve_backup_rule b Inr c1 by blast
        from plan_families_ok[OF ok raw True this permitted] r True \<open>q = Inr addrs\<close> b Inr c2
        show ?thesis by auto
      qed
    qed
  qed
qed

lemma plan_rules_ok:
  assumes "plan_ok rules ns p" and "cache_ok v" and "set todo \<subseteq> set rules"
    and "fold (plan_rule env ns allowCached) todo (p, v) = (p', v')"
  shows "plan_ok rules ns p' \<and> cache_ok v'"
  using assms
proof (induction todo arbitrary: p v)
  case (Cons raw todo)
  obtain p1 v1 where one: "plan_rule env ns allowCached raw (p, v) = (p1, v1)" by fastforce
  have "plan_ok rules ns p1 \<and> cache_ok v1"
    using plan_rule_ok[OF Cons.prems(1,2) _ one] Cons.prems(3) by simp
  with Cons.IH[of p1 v1] Cons.prems one show ?case by simp
qed simp

section \<open>Dividing the workers\<close>

lemma assign_workers_rules:
  "(k, g) \<in> set (assign_workers w ks i paths) \<Longrightarrow>
   \<exists>g0 n. (k, g0) \<in> set paths \<and> (g = g0 \<or> g = g0\<lparr>g_Rule := (g_Rule g0)\<lparr>r_UDPWorkers := n\<rparr>\<rparr>)"
proof (induction ks arbitrary: i paths)
  case (Cons x ks)
  from Cons.IH[OF Cons.prems[simplified]] obtain g0 n where
    g0: "(k, g0) \<in> set (map (\<lambda>(k', g). (k', if k' = x then g\<lparr>g_Rule := (g_Rule g)\<lparr>r_UDPWorkers := w i\<rparr>\<rparr> else g)) paths)"
    "g = g0 \<or> g = g0\<lparr>g_Rule := (g_Rule g0)\<lparr>r_UDPWorkers := n\<rparr>\<rparr>" by blast
  from g0(1) obtain g1 where "(k, g1) \<in> set paths" "g0 = g1 \<or> g0 = g1\<lparr>g_Rule := (g_Rule g1)\<lparr>r_UDPWorkers := w i\<rparr>\<rparr>"
    by (auto split: if_splits)
  with g0(2) show ?case by (intro exI[of _ g1] exI[of _ "if g = g0 then w i else n"]) auto
qed auto

lemma path_from_workers [simp]:
  "path_from rules (g\<lparr>g_Rule := (g_Rule g)\<lparr>r_UDPWorkers := n\<rparr>\<rparr>) = path_from rules g"
  by (simp add: path_from_def Let_def)

lemma distribute_rule_ok:
  "\<forall>(k, g)\<in>set paths. path_from rules g \<Longrightarrow> \<forall>(k, g)\<in>set (distribute_rule env raw paths). path_from rules g"
  by (fastforce simp: distribute_rule_def Let_def dest: assign_workers_rules split: if_splits)

lemma buildPlan_ok:
  assumes "buildPlan env ns allowCached rules v = (p, v')" and "cache_ok v"
  shows "plan_ok rules ns p \<and> cache_ok v'"
proof -
  obtain q v1 where f: "fold (plan_rule env ns allowCached) rules (empty_plan, v) = (q, v1)" by fastforce
  have "plan_ok rules ns empty_plan" by (simp add: plan_ok_def empty_plan_def)
  from plan_rules_ok[OF this assms(2) _ f] have q: "plan_ok rules ns q" "cache_ok v1" by auto
  have "\<forall>(k, g)\<in>set (fold (distribute_rule env) rules (p_goRules q)). path_from rules g"
    by (rule fold_invariant[where Q = "\<lambda>_. True"])
      (use q distribute_rule_ok in \<open>auto simp: plan_ok_def\<close>)
  with q assms(1) f show ?thesis
    by (auto simp: buildPlan_def distributeGoUDPWorkers_def plan_ok_def)
qed

text \<open>The shares of \<open>n\<close> paths add up to the total, differ by at most one, and cover every endpoint.\<close>

lemma sum_bonus:
  "0 \<le> m \<Longrightarrow> m \<le> int n \<Longrightarrow> (\<Sum>i = 0..<n. if int i < m then 1 else 0 :: int) = m"
proof (induction n arbitrary: m)
  case (Suc n)
  show ?case
  proof (cases "m = int (Suc n)")
    case True
    then have "(\<Sum>i = 0..<Suc n. if int i < m then 1 else 0 :: int) = (\<Sum>i = 0..<Suc n. 1)"
      by (intro sum.cong) auto
    with True show ?thesis by simp
  next
    case False
    with Suc show ?thesis by simp
  qed
qed simp

lemma path_workers_sum:
  assumes "0 < n" and "0 \<le> extra"
  shows "(\<Sum>i = 0..<n. path_workers e extra (int n) (int i)) = e * int n + extra"
proof -
  have "(\<Sum>i = 0..<n. path_workers e extra (int n) (int i)) =
      int n * (e + extra div int n) + (\<Sum>i = 0..<n. if int i < extra mod int n then 1 else 0)"
    by (simp add: path_workers_def sum.distrib)
  also have "\<dots> = int n * (e + extra div int n) + extra mod int n"
    using assms sum_bonus[of "extra mod int n" n] by (simp add: order_less_imp_le)
  also have "\<dots> = e * int n + extra"
    using mult_div_mod_eq[of "int n" extra] by (simp add: algebra_simps)
  finally show ?thesis .
qed

lemma path_workers_bounds:
  assumes "0 < n" and "0 \<le> extra"
  shows "e \<le> path_workers e extra n i \<and> path_workers e extra n i \<le> path_workers e extra n j + 1"
  using assms by (auto simp: path_workers_def pos_imp_zdiv_nonneg_iff)

definition workers_of :: "string \<Rightarrow> (string \<times> go_path) list \<Rightarrow> int option" where
  "workers_of k paths = map_option (\<lambda>g. r_UDPWorkers (g_Rule g)) (map_of paths k)"

lemma map_of_map_values:
  "map_of (map (\<lambda>(k', g). (k', f k' g)) paths) k = map_option (f k) (map_of paths k)"
  by (induction paths) auto

lemma assign_workers_other:
  "k \<notin> set ks \<Longrightarrow> workers_of k (assign_workers w ks i paths) = workers_of k paths"
  by (induction ks arbitrary: i paths)
    (auto simp: workers_of_def map_of_map_values option.map_comp comp_def)

lemma assign_workers_nth:
  "distinct ks \<Longrightarrow> set ks \<subseteq> fst ` set paths \<Longrightarrow> j < length ks \<Longrightarrow>
   workers_of (ks ! j) (assign_workers w ks i paths) = Some (w (i + int j))"
proof (induction ks arbitrary: i j paths)
  case (Cons x ks)
  let ?paths = "map (\<lambda>(k', g). (k', if k' = x then g\<lparr>g_Rule := (g_Rule g)\<lparr>r_UDPWorkers := w i\<rparr>\<rparr> else g)) paths"
  show ?case
  proof (cases j)
    case 0
    from Cons.prems obtain g where g: "map_of paths x = Some g"
      by (metis list.set_intros(1) map_of_eq_None_iff not_Some_eq subsetD)
    have "workers_of x (assign_workers w ks (i + 1) ?paths) = workers_of x ?paths"
      using Cons.prems(1) by (intro assign_workers_other) simp
    also have "\<dots> = Some (w i)"
      using g by (simp add: workers_of_def map_of_map_values)
    finally show ?thesis using 0 by simp
  next
    case (Suc j')
    have "fst ` set ?paths = fst ` set paths" by force
    with Cons.prems Suc Cons.IH[of ?paths j' "i + 1"] show ?thesis by (simp add: add.assoc)
  qed
qed simp

lemma rule_keys_set: "set (rule_keys ident paths) = {k. \<exists>g. (k, g) \<in> set paths \<and> g_RuleID g = ident}"
  by (force simp: rule_keys_def)

lemma rule_keys_distinct: "distinct (map fst paths) \<Longrightarrow> distinct (rule_keys ident paths)"
  unfolding rule_keys_def by (simp add: distinct_map_filter)

lemma distribute_rule_total:
  fixes env raw paths
  defines "r \<equiv> NormalizeRule raw" and "keys \<equiv> rule_keys (r_ID (NormalizeRule raw)) paths"
  defines "e \<equiv> LastListenPort r - r_ListenPort r + 1"
  assumes udp: "r_Protocol r = ProtocolUDP \<or> r_Protocol r = ProtocolBoth" and keys: "keys \<noteq> []"
    and distinct: "distinct (map fst paths)"
  shows "(\<Sum>k\<leftarrow>keys. the (workers_of k (distribute_rule env raw paths))) =
           max (effectiveUDPWorkers env (r_UDPWorkers r)) (e * int (length keys))"
    and "\<forall>k\<in>set keys. e \<le> the (workers_of k (distribute_rule env raw paths))"
proof -
  let ?n = "length keys"
  let ?extra = "max (effectiveUDPWorkers env (r_UDPWorkers r)) (e * int ?n) - e * int ?n"
  have n: "0 < ?n" and x: "0 \<le> ?extra" using keys by simp_all
  have d: "distribute_rule env raw paths = assign_workers (path_workers e ?extra (int ?n)) keys 0 paths"
    using udp keys by (auto simp: distribute_rule_def Let_def r_def keys_def e_def)
  have dk: "distinct keys" "set keys \<subseteq> fst ` set paths"
    using rule_keys_distinct[OF distinct] unfolding keys_def rule_keys_set by force+
  have w: "the (workers_of (keys ! j) (distribute_rule env raw paths)) = path_workers e ?extra (int ?n) (int j)"
    if "j < ?n" for j
    using assign_workers_nth[OF dk that, of "path_workers e ?extra (int ?n)" 0] d by simp
  have "(\<Sum>k\<leftarrow>keys. the (workers_of k (distribute_rule env raw paths))) =
      (\<Sum>j = 0..<?n. path_workers e ?extra (int ?n) (int j))"
    by (simp add: sum_list_sum_nth w)
  also have "\<dots> = e * int ?n + ?extra" using n x by (rule path_workers_sum)
  finally show "(\<Sum>k\<leftarrow>keys. the (workers_of k (distribute_rule env raw paths))) =
           max (effectiveUDPWorkers env (r_UDPWorkers r)) (e * int (length keys))"
    by simp
  show "\<forall>k\<in>set keys. e \<le> the (workers_of k (distribute_rule env raw paths))"
    using w path_workers_bounds[of "int ?n" ?extra e] n x by (auto simp: in_set_conv_nth)
qed

section \<open>Valid kernel specs\<close>

lemma listenFamilies_family:
  "(f, a) \<in> set (listenFamilies h) \<Longrightarrow> f = 4 \<and> is4 a \<or> f = 6 \<and> \<not> is4 a"
  by (auto simp: listenFamilies_def Let_def ipv4_unspecified_def ipv6_unspecified_def split: if_splits)

lemma spec_from_valid:
  assumes s: "spec_from rules ns s" and mark: "ns_mark ns \<noteq> 0"
    and ok: "\<forall>raw\<in>set rules. rule_ok lim (NormalizeRule raw)"
    and zones: "is_valid (ListenHost s)" "zone (ListenHost s) = []"
  shows "validateRetirementSpec s"
proof -
  from s obtain raw listen where raw: "raw \<in> set rules"
    and permitted: "target_permitted (NormalizeRule raw) (TargetHost s)"
    and fam: "(Family s, listen) \<in> set (listenFamilies (r_ListenHost (NormalizeRule raw)))"
    and tz: "zone (TargetHost s) = []"
    and tf: "Family s = 4 \<and> is4 (TargetHost s) \<or> Family s = 6 \<and> is6 (TargetHost s)"
    and proto: "Protocol s \<in> set (rule_protocols (NormalizeRule raw))"
    and eq: "s = rule_spec ns (NormalizeRule raw) (Family s) listen (TargetHost s) (Protocol s)"
    unfolding spec_from_def Let_def by blast
  let ?r = "NormalizeRule raw"
  have sel: "ListenHost s = listen" "ConntrackMark s = ns_mark ns" "ListenPort s = r_ListenPort ?r"
    "ListenPortEnd s = LastListenPort ?r" "TargetPort s = r_TargetPort ?r" "TargetPortEnd s = LastTargetPort ?r"
    by (subst eq, simp add: rule_spec_def)+
  from ok raw have "rule_ok lim ?r" by blast
  then have p: "ports_ok ?r" and k: "kind_ok ?r" by (simp_all add: rule_ok_def)
  have last: "nftLastPort s = LastListenPort ?r" "nftLastTargetPort s = LastTargetPort ?r"
    using p by (auto simp: nftLastPort_def nftLastTargetPort_def sel ports_ok_def)
  have "Protocol s = ''tcp'' \<or> Protocol s = ''udp''"
    using proto k by (auto simp: rule_protocols_def kind_ok_def split: if_splits)
  moreover have "is_valid (TargetHost s)" using permitted by (rule target_permitted_valid)
  moreover have "is4 (TargetHost s) = (Family s = 4)" using tf by (cases "TargetHost s") auto
  moreover have "Family s = 4 \<or> Family s = 6" using tf by auto
  moreover have "is4 (ListenHost s) = (Family s = 4)" using listenFamilies_family[OF fam] sel by auto
  ultimately show ?thesis
    using p zones tz mark last unfolding validateRetirementSpec_def sel ports_ok_def by linarith
qed

lemma plan_spec_identity:
  assumes "spec_from rules ns s"
  shows "validNFTIdentity (nftRuleIdentity s)"
proof -
  from assms obtain r f l t q where "s = rule_spec ns r f l t q" unfolding spec_from_def Let_def by blast
  then have "nftRuleIdentity s = sha256_hex (RuleID s)" by (simp add: nftRuleIdentity_def rule_spec_def)
  moreover have "\<not> short_identity (sha256_hex i)" for i
    using sha256_hex_length[of i] by (simp add: short_identity_def)
  ultimately show ?thesis
    using sha256_hex_length[of "RuleID s"] sha256_hex_decode[of "RuleID s"] by (auto simp: validNFTIdentity_def)
qed

section \<open>Every listener is served\<close>

definition nft_serves :: "plan \<Rightarrow> rule \<Rightarrow> addr \<Rightarrow> bool" where
  "nft_serves p r listen \<longleftrightarrow>
     (\<forall>proto\<in>set (rule_protocols r). \<exists>s\<in>set (p_nftSpecs p).
        RuleID s = r_ID r \<and> ListenHost s = listen \<and> Protocol s = proto
        \<and> ListenPort s = r_ListenPort r \<and> ListenPortEnd s = LastListenPort r)"

definition go_serves :: "plan \<Rightarrow> rule \<Rightarrow> addr \<Rightarrow> bool" where
  "go_serves p r listen \<longleftrightarrow>
     (\<exists>kind target. go_key (r_ID r) kind listen target \<in> fst ` set (p_goRules p))"

text \<open>
  A wildcard or specific listener is served in the kernel or in userspace; a wildcard served in the kernel
  has the loopback address, which the kernel path leaves out, in userspace.
\<close>

definition served :: "plan \<Rightarrow> rule \<Rightarrow> int \<times> addr \<Rightarrow> bool" where
  "served p r fl \<longleftrightarrow>
     nft_serves p r (snd fl) \<and> (is_unspecified (snd fl) \<longrightarrow> go_serves p r (family_loopback (fst fl)))
     \<or> go_serves p r (snd fl)"

definition plan_extends :: "plan \<Rightarrow> plan \<Rightarrow> bool" where
  "plan_extends p q \<longleftrightarrow>
     set (p_nftSpecs p) \<subseteq> set (p_nftSpecs q) \<and> fst ` set (p_goRules p) \<subseteq> fst ` set (p_goRules q)
     \<and> (\<forall>i. p_errors p i \<noteq> None \<longrightarrow> p_errors q i \<noteq> None)"

lemma plan_extends_refl [simp]: "plan_extends p p"
  by (simp add: plan_extends_def)

lemma plan_extends_trans: "plan_extends p q \<Longrightarrow> plan_extends q r \<Longrightarrow> plan_extends p r"
  unfolding plan_extends_def by (intro conjI) (simp_all add: subset_trans[of _ "set (p_nftSpecs q)"]
      subset_trans[of _ "fst ` set (p_goRules q)"])

lemma nft_serves_extends:
  assumes "nft_serves p r l" and "plan_extends p q"
  shows "nft_serves q r l"
  unfolding nft_serves_def
proof
  fix proto
  assume "proto \<in> set (rule_protocols r)"
  with assms(1) obtain s where "s \<in> set (p_nftSpecs p)" "RuleID s = r_ID r" "ListenHost s = l" "Protocol s = proto"
    "ListenPort s = r_ListenPort r" "ListenPortEnd s = LastListenPort r"
    unfolding nft_serves_def by blast
  moreover have "set (p_nftSpecs p) \<subseteq> set (p_nftSpecs q)" using assms(2) by (simp add: plan_extends_def)
  ultimately show "\<exists>s\<in>set (p_nftSpecs q). RuleID s = r_ID r \<and> ListenHost s = l \<and> Protocol s = proto
        \<and> ListenPort s = r_ListenPort r \<and> ListenPortEnd s = LastListenPort r" by blast
qed

lemma go_serves_extends: "go_serves p r l \<Longrightarrow> plan_extends p q \<Longrightarrow> go_serves q r l"
  unfolding go_serves_def plan_extends_def by (elim exE conjE) (intro exI, erule subsetD)

lemma served_extends: "served p r fl \<Longrightarrow> plan_extends p q \<Longrightarrow> served q r fl"
  using nft_serves_extends go_serves_extends by (auto simp: served_def)

lemma addGoPath_extends:
  "plan_extends p (addGoPath r listen target kind p)" "go_serves (addGoPath r listen target kind p) r listen"
  by (auto simp: plan_extends_def go_serves_def addGoPath_def Let_def alist_set_keys)

lemma addNFTPath_extends:
  "plan_extends p (addNFTPath ns r family listen target p)"
  "nft_serves (addNFTPath ns r family listen target p) r listen"
  by (simp add: plan_extends_def addNFTPath_def)
    (simp add: nft_serves_def addNFTPath_def rule_spec_def image_iff bex_Un)

lemma error_extends: "plan_extends p (p\<lparr>p_errors := (p_errors p)(i \<mapsto> e)\<rparr>)"
  by (auto simp: plan_extends_def)

lemma plan_listener_serves:
  assumes run: "plan_listener ns r addrs fl (p, n, g) = (q, n', g')"
  shows "plan_extends p q \<and> (served q r fl \<or> p_errors q (r_ID r) \<noteq> None)"
proof -
  obtain family listen where f: "fl = (family, listen)" by fastforce
  define target where "target = (case firstAddressForFamily addrs family of Some a \<Rightarrow> a | None \<Rightarrow>
      (case firstAddressForOtherFamily addrs family of Some a \<Rightarrow> a | None \<Rightarrow> NoAddr))"
  note r = run[unfolded plan_listener_def f prod.case Let_def, folded target_def]
  let ?nft = "addNFTPath ns r family listen target p"
  let ?both = "addGoPath r (family_loopback family) target ''loopback'' ?nft"
  consider "\<exists>e. q = p\<lparr>p_errors := (p_errors p)(r_ID r \<mapsto> e)\<rparr>"
    | "\<exists>kind. q = addGoPath r listen target kind p"
    | "q = ?both"
    | "q = ?nft" "\<not> is_unspecified listen"
    using r by (auto split: if_splits)
  then show ?thesis
  proof cases
    case 1
    then show ?thesis using error_extends by (auto simp del: fun_upd_apply) (simp add: fun_upd_same)
  next
    case 2
    then show ?thesis using addGoPath_extends by (auto simp: served_def f)
  next
    case 3
    have "plan_extends p q"
      unfolding 3 by (rule plan_extends_trans[OF addNFTPath_extends(1) addGoPath_extends(1)])
    moreover have "nft_serves q r listen"
      unfolding 3 by (rule nft_serves_extends[OF addNFTPath_extends(2) addGoPath_extends(1)])
    ultimately show ?thesis using addGoPath_extends(2) 3 by (auto simp: served_def f)
  next
    case 4
    then show ?thesis using addNFTPath_extends by (auto simp: served_def f)
  qed
qed

definition rule_done :: "plan \<Rightarrow> rule \<Rightarrow> bool" where
  "rule_done p r \<longleftrightarrow>
     (r_Enabled r \<longrightarrow> p_errors p (r_ID r) \<noteq> None \<or> (\<forall>fl\<in>set (listenFamilies (r_ListenHost r)). served p r fl))"

lemma rule_done_extends: "rule_done p r \<Longrightarrow> plan_extends p q \<Longrightarrow> rule_done q r"
  using served_extends by (auto simp: rule_done_def plan_extends_def)

lemma fold_listeners_serve:
  assumes "fold (plan_listener ns r addrs) fls (p, n, g) = (q, n', g')"
  shows "plan_extends p q \<and> (p_errors q (r_ID r) \<noteq> None \<or> (\<forall>fl\<in>set fls. served q r fl))"
  using assms
proof (induction fls arbitrary: p n g)
  case (Cons fl fls)
  obtain p1 n1 g1 where one: "plan_listener ns r addrs fl (p, n, g) = (p1, n1, g1)" by (metis prod_cases3)
  with Cons.prems have rest: "fold (plan_listener ns r addrs) fls (p1, n1, g1) = (q, n', g')" by simp
  note first = plan_listener_serves[OF one] and ih = Cons.IH[OF rest]
  have ext: "plan_extends p1 q" using ih by blast
  have head: "served q r fl \<or> p_errors q (r_ID r) \<noteq> None"
  proof (cases "served p1 r fl")
    case True
    then show ?thesis using served_extends[OF _ ext] by blast
  next
    case False
    with first have "p_errors p1 (r_ID r) \<noteq> None" by blast
    then show ?thesis using ext by (simp add: plan_extends_def)
  qed
  have "plan_extends p q" using first ext by (blast intro: plan_extends_trans)
  with head ih show ?case by (simp; blast)
qed simp

lemma rule_serves_same:
  "r_ID r = r_ID q \<Longrightarrow> r_Protocol r = r_Protocol q \<Longrightarrow> r_ListenPort r = r_ListenPort q \<Longrightarrow>
   r_ListenPortEnd r = r_ListenPortEnd q \<Longrightarrow> served p r fl = served p q fl"
  by (simp add: served_def nft_serves_def go_serves_def rule_protocols_def LastListenPort_def)

lemma resolve_backup_same:
  assumes "resolve_backup env r allowCached v = (Inr r1, v')"
  shows "\<exists>h. r1 = r\<lparr>r_BackupTargetHost := h\<rparr>"
proof (cases "r_BackupTargetHost r = []")
  case True
  with assms have "r1 = r\<lparr>r_BackupTargetHost := []\<rparr>" by (simp add: resolve_backup_def)
  then show ?thesis by blast
qed (use assms in \<open>auto simp: resolve_backup_def split: prod.splits sum.splits\<close>)

lemma plan_rule_serves:
  assumes run: "plan_rule env ns allowCached raw (p, v) = (q, v')"
  shows "plan_extends p q \<and> rule_done q (NormalizeRule raw)"
proof -
  let ?r = "NormalizeRule raw"
  have maps: "plan_extends p (p\<lparr>p_dataPlanes := d\<rparr>)" for d by (simp add: plan_extends_def)
  have err: "plan_extends p (plan_error_for (r_ID ?r) e p) \<and> rule_done (plan_error_for (r_ID ?r) e p) ?r" for e
    by (auto simp: plan_extends_def plan_error_for_def rule_done_def)
  obtain a v1 where h: "resolveHost env ?r (r_TargetHost ?r) (r_ID ?r) allowCached v = (a, v1)" by fastforce
  obtain b v2 where bk: "resolve_backup env ?r allowCached v1 = (b, v2)" by fastforce
  note u = run[unfolded plan_rule_def prod.case Let_def h]
  show ?thesis
  proof (cases "r_Enabled ?r")
    case False
    with u maps show ?thesis by (auto simp: rule_done_def)
  next
    case True
    show ?thesis
    proof (cases a)
      case (Inl e)
      with u True err show ?thesis by auto
    next
      case a: (Inr addrs)
      show ?thesis
      proof (cases b)
        case (Inl e)
        with u True a bk err show ?thesis by auto
      next
        case (Inr r1)
        then obtain bh where r1: "r1 = ?r\<lparr>r_BackupTargetHost := bh\<rparr>" using resolve_backup_same bk by blast
        obtain p1 n1 g1 where f: "fold (plan_listener ns r1 addrs) (listenFamilies (r_ListenHost r1)) (p, False, False)
            = (p1, n1, g1)" by (metis prod_cases3)
        have q: "q = p1\<lparr>p_dataPlanes := (p_dataPlanes p1)(r_ID r1 \<mapsto> plan_kind n1 g1)\<rparr>"
          using u True a bk Inr f by (simp add: plan_families_def)
        have ext: "plan_extends p1 q" unfolding q by (simp add: plan_extends_def)
        note s = fold_listeners_serve[OF f]
        have ids: "r_ID r1 = r_ID ?r" "r_ListenHost r1 = r_ListenHost ?r" by (simp_all add: r1)
        have same: "served p1 r1 fl = served p1 ?r fl" for fl by (rule rule_serves_same) (simp_all add: r1)
        have "rule_done p1 ?r" using s unfolding ids same by (auto simp: rule_done_def)
        then have "rule_done q ?r" using ext by (rule rule_done_extends)
        moreover have "plan_extends p q" using s ext by (blast intro: plan_extends_trans)
        ultimately show ?thesis by blast
      qed
    qed
  qed
qed

lemma plan_rules_serve:
  assumes "fold (plan_rule env ns allowCached) todo (p, v) = (q, v')"
  shows "plan_extends p q \<and> (\<forall>raw\<in>set todo. rule_done q (NormalizeRule raw))"
  using assms
proof (induction todo arbitrary: p v)
  case (Cons raw todo)
  obtain p1 v1 where one: "plan_rule env ns allowCached raw (p, v) = (p1, v1)" by fastforce
  with Cons.prems have rest: "fold (plan_rule env ns allowCached) todo (p1, v1) = (q, v')" by simp
  note first = plan_rule_serves[OF one] and ih = Cons.IH[OF rest]
  with rule_done_extends plan_extends_trans show ?case by auto
qed simp

lemma assign_workers_keys: "fst ` set (assign_workers w ks i paths) = fst ` set paths"
proof (induction ks arbitrary: i paths)
  case (Cons k ks)
  show ?case by (simp add: Cons.IH) force
qed simp

lemma distribute_keys: "fst ` set (fold (distribute_rule env) rules paths) = fst ` set paths"
proof (induction rules arbitrary: paths)
  case (Cons raw rules)
  have "fst ` set (distribute_rule env raw paths) = fst ` set paths"
    by (simp add: distribute_rule_def Let_def assign_workers_keys)
  with Cons show ?case by simp
qed simp

lemma buildPlan_serves:
  assumes "buildPlan env ns allowCached rules v = (p, v')" and "raw \<in> set rules"
  shows "rule_done p (NormalizeRule raw)"
proof -
  obtain q v1 where f: "fold (plan_rule env ns allowCached) rules (empty_plan, v) = (q, v1)" by fastforce
  with assms(1) have p: "p = distributeGoUDPWorkers env rules q" by (simp add: buildPlan_def)
  have "plan_extends q p"
    unfolding p by (simp add: plan_extends_def distributeGoUDPWorkers_def distribute_keys)
  with plan_rules_serve[OF f] assms(2) show ?thesis by (blast intro: rule_done_extends)
qed

end
