(* ===== verification/Props_Plan.thy ===== *)
theory Props_Plan
  imports Plan_Facts Config_Sample
begin

text \<open>
  The properties of the planner: where the planned paths may lead, that the kernel accepts the planned
  specs, that no listener of an enabled rule is forgotten, and how the UDP workers are divided.
\<close>

section \<open>Authorised targets\<close>

text \<open>C6.
  Every path of a plan, kernel spec or userspace path, comes from an enabled rule and leads to an address
  that the rule's destination policy permits, backup included: whatever the resolver answers (at each call
  anew), and whatever answers of earlier plans the cache still holds.\<close>

theorem planned_targets_authorised:
  assumes "buildPlan env ns allowCached rules v = (p, v')" and "cache_ok v"
  shows "(\<forall>s\<in>set (p_nftSpecs p). spec_from rules ns s) \<and> (\<forall>(k, g)\<in>set (p_goRules p). path_from rules g)
    \<and> cache_ok v'"
  using buildPlan_ok[OF assms] by (simp add: plan_ok_def)

definition rebinding_env :: environment where
  "rebinding_env =
     \<lparr>env_lookup = (\<lambda>n host. if n = 0 then Some [IP4 0xC6336407] else Some [IP4 0x7F000001]),
      env_now = (\<lambda>n. int n), env_cpus = 4\<rparr>"

definition named_rule :: rule where
  "named_rule = sample_rule\<lparr>r_TargetHost := ''example.org''\<rparr>"

definition sample_settings :: nft_settings where
  "sample_settings = \<lparr>ns_mark = 0x50420001, ns_flowtable = True\<rparr>"

definition no_cache :: resolver where
  "no_cache = \<lparr>v_resolved = (\<lambda>_. None), v_calls = 0\<rparr>"

definition first_plan :: "plan \<times> resolver" where
  "first_plan = buildPlan rebinding_env sample_settings True [named_rule] no_cache"

definition second_plan :: "plan \<times> resolver" where
  "second_plan = buildPlan rebinding_env sample_settings True [named_rule] (snd first_plan)"

lemma named_normal [simp]: "NormalizeRule named_rule = named_rule"
  by code_simp

lemma first_plan_specs: "map TargetHost (p_nftSpecs (fst first_plan)) = [IP4 0xC6336407]"
  by code_simp

lemma second_plan_specs: "p_nftSpecs (fst second_plan) = []"
  by code_simp

lemma first_plan_eq: "buildPlan rebinding_env sample_settings True [named_rule] no_cache = (fst first_plan, snd first_plan)"
  by (simp add: first_plan_def)

lemma no_cache_ok: "cache_ok no_cache"
  by (simp add: cache_ok_def no_cache_def)

theorem planned_targets_authorised_witness:
  "list_all (spec_from [named_rule] sample_settings) (p_nftSpecs (fst first_plan))
   \<and> map TargetHost (p_nftSpecs (fst first_plan)) = [IP4 0xC6336407]
   \<and> cache_ok (snd first_plan) \<and> p_nftSpecs (fst second_plan) = []"
  using planned_targets_authorised[OF first_plan_eq no_cache_ok] first_plan_specs second_plan_specs
  by (simp add: list_all_iff)

section \<open>Specs the kernel backend accepts\<close>






definition zoned_rule :: rule where
  "zoned_rule = sample_rule\<lparr>r_ListenHost := ''fe80::1%eth0'', r_TargetHost := ''2606:4700::1''\<rparr>"

abbreviation zoned_address :: addr where "zoned_address \<equiv> IP6 0x26064700000000000000000000000001 []"

lemma zoned_target: "ValidateTargetAddress zoned_rule zoned_address = None"
  by code_simp

lemma zoned_parse: "parse_addr ''2606:4700::1'' = Some zoned_address"
  by code_simp

lemma zoned_fields:
  "r_TargetHost zoned_rule = ''2606:4700::1''" "r_TargetCIDRAllowlist zoned_rule = []" "r_AllowPrivateTarget zoned_rule = False"
  "r_BackupTargetHost zoned_rule = []" "r_Enabled zoned_rule" "r_ID zoned_rule = ''a''"
  by code_simp+

lemma zoned_normal [simp]: "NormalizeRule zoned_rule = zoned_rule"
  by code_simp

lemma zoned_checks [simp]:
  "check_rule_names zoned_rule = None" "check_rule_ports zoned_rule = None"
  "check_rule_backup zoned_rule = None" "check_rule_health zoned_rule 0 = None"
  "check_rule_listen_host zoned_rule = None" "check_rule_limits default_limits zoned_rule = None"
  by code_simp+

lemma zoned_targets [simp]: "check_rule_targets zoned_rule = None"
proof -
  have "NormalizeTargetCIDRs [] = Inr []"
  by code_simp
  then show ?thesis by (simp add: check_rule_targets_def zoned_fields zoned_parse zoned_target)
qed


definition zoned_plan :: plan where
  "zoned_plan = fst (buildPlan rebinding_env sample_settings True [zoned_rule] no_cache)"

abbreviation zoned_listener :: addr where "zoned_listener \<equiv> IP6 0xFE800000000000000000000000000001 ''eth0''"

lemma zoned_families:
  "listenFamilies (r_ListenHost zoned_rule) = [(6, zoned_listener)]"
  by code_simp

lemma zoned_kernel_path:
  "r_DataPlane zoned_rule \<noteq> RuleDataPlaneGo" "\<not> is_loopback zoned_listener" "\<not> is_unspecified zoned_listener"
  "rule_protocols zoned_rule = [''tcp'']"
  by code_simp+

lemma zoned_plan_families:
  "p_nftSpecs (plan_families sample_settings zoned_rule [zoned_address] empty_plan) =
     [rule_spec sample_settings zoned_rule 6 zoned_listener zoned_address ''tcp'']"
  "p_errors (plan_families sample_settings zoned_rule [zoned_address] empty_plan) ''a'' = None"
  using zoned_kernel_path
  by (simp_all add: plan_families_def zoned_families plan_listener_def Let_def firstAddressForFamily_def
      addNFTPath_def empty_plan_def)

lemma distribute_keeps:
  "p_errors (distributeGoUDPWorkers env rules p) = p_errors p"
  "p_nftSpecs (distributeGoUDPWorkers env rules p) = p_nftSpecs p"
  by (simp_all add: distributeGoUDPWorkers_def)

lemma zoned_plan_eq:
  "zoned_plan = distributeGoUDPWorkers rebinding_env [zoned_rule]
     (plan_families sample_settings zoned_rule [zoned_address] empty_plan)"
  by (simp add: zoned_plan_def buildPlan_def plan_rule_def Let_def zoned_fields resolveHost_def zoned_parse
      zoned_target resolve_backup_def)

lemma zoned_plan:
  "p_errors zoned_plan ''a'' = None"
   "p_nftSpecs zoned_plan = [rule_spec sample_settings zoned_rule 6 zoned_listener zoned_address ''tcp'']"
  by (simp_all only: zoned_plan_eq distribute_keeps zoned_plan_families)



section \<open>No listener is forgotten\<close>



section \<open>Userspace workers\<close>

text \<open>Dividing the UDP workers of a rule among its userspace paths loses and invents none: the paths together
  get the configured (or automatic) number, raised to one per listening port and path, and every path gets
  at least one worker for each of its ports.\<close>

theorem udp_workers_divided:
  assumes "r_Protocol (NormalizeRule raw) = ProtocolUDP \<or> r_Protocol (NormalizeRule raw) = ProtocolBoth"
    and "rule_keys (r_ID (NormalizeRule raw)) paths = keys" and "keys \<noteq> []"
    and "distinct (map fst paths)"
    and "LastListenPort (NormalizeRule raw) - r_ListenPort (NormalizeRule raw) + 1 = e"
  shows "(\<Sum>k\<leftarrow>keys. the (workers_of k (distribute_rule env raw paths))) =
           max (effectiveUDPWorkers env (r_UDPWorkers (NormalizeRule raw))) (e * int (length keys))
    \<and> (\<forall>k\<in>set keys. e \<le> the (workers_of k (distribute_rule env raw paths)))"
  using distribute_rule_total[OF assms(1) _ assms(4), of env] assms(2,3,5) by blast

definition udp_rule :: rule where
  "udp_rule = sample_rule\<lparr>r_Protocol := ''udp'', r_DataPlane := ''go'', r_ListenHost := ''*'', r_UDPWorkers := 25\<rparr>"

definition udp_paths :: "(string \<times> go_path) list" where
  "udp_paths = [(''a|x'', \<lparr>g_RuleID = ''a'', g_Rule = udp_rule\<rparr>), (''b'', \<lparr>g_RuleID = ''b'', g_Rule = udp_rule\<rparr>),
     (''a|y'', \<lparr>g_RuleID = ''a'', g_Rule = udp_rule\<rparr>)]"

theorem udp_workers_divided_witness:
  "the (workers_of ''a|x'' (distribute_rule rebinding_env udp_rule udp_paths))
     + the (workers_of ''a|y'' (distribute_rule rebinding_env udp_rule udp_paths)) = 25
   \<and> 10 \<le> the (workers_of ''a|y'' (distribute_rule rebinding_env udp_rule udp_paths))"
proof -
  have 1: "r_Protocol (NormalizeRule udp_rule) = ProtocolUDP \<or> r_Protocol (NormalizeRule udp_rule) = ProtocolBoth"
    by code_simp
  have 2: "rule_keys (r_ID (NormalizeRule udp_rule)) udp_paths = [''a|x'', ''a|y'']" by code_simp
  have 3: "LastListenPort (NormalizeRule udp_rule) - r_ListenPort (NormalizeRule udp_rule) + 1 = 10" by code_simp
  have 4: "distinct (map fst udp_paths)" by code_simp
  have 5: "max (effectiveUDPWorkers rebinding_env (r_UDPWorkers (NormalizeRule udp_rule))) (10 * 2) = 25" by code_simp
  from udp_workers_divided[OF 1 2 _ 4 3, of rebinding_env] 5 show ?thesis by simp
qed

end
