(* ===== verification/Budget.thy ===== *)
theory Budget
  imports Complex_Main Config_Types NetIP
begin

text \<open>
  \<^verbatim>\<open>internal/proxy/budget.go\<close>: the shared counters that bound connections, sessions and memory, the counters
  of each source address in 64 shards, the token buckets of UDP sources, and their incremental cleanup.

  A \<^verbatim>\<open>CompareAndSwap\<close> loop changes its counter in one step, at its last round; the operations under one mutex
  are one step as well.  Times are nanoseconds since the epoch.  A \<^verbatim>\<open>float64\<close> is the rational it stands for,
  and every operation on floats rounds its exact result with \<open>rnd\<close>, an argument.
\<close>

unbundle bit_operations_syntax

section \<open>State\<close>

record resource_budget =
  b_maxTCP :: int
  b_maxUDP :: int
  b_maxUDPMemory :: int
  b_activeTCP :: int
  b_activeUDP :: int
  b_udpMemory :: int

record udp_limits =
  ul_maxSessions :: int
  ul_newSessionsRate :: int
  ul_packetRate :: int
  ul_maxTrackedSource :: int

record source_state =
  u_activeSessions :: int
  u_newTokens :: rat
  u_packetTokens :: rat
  u_lastRefill :: int
  u_lastSeen :: int

record rule_budget =
  rb_activeTCP :: int
  rb_sources :: "nat \<Rightarrow> addr \<Rightarrow> int option"
  rb_udpSources :: "nat \<Rightarrow> addr \<Rightarrow> source_state option"
  rb_udpSourceCount :: int
  rb_cursor :: "32 word"
  rb_nextCleanup :: int

abbreviation sourceBudgetShards :: nat where "sourceBudgetShards \<equiv> 64"
abbreviation udpCleanupShardsPerSweep :: nat where "udpCleanupShardsPerSweep \<equiv> 4"
abbreviation udpCleanupEntriesPerShard :: nat where "udpCleanupEntriesPerShard \<equiv> 256"
abbreviation second :: int where "second \<equiv> 10 ^ 9"

definition fresh_budget :: rule_budget where
  "fresh_budget = \<lparr>rb_activeTCP = 0, rb_sources = (\<lambda>_ _. None), rb_udpSources = (\<lambda>_ _. None),
     rb_udpSourceCount = 0, rb_cursor = 0, rb_nextCleanup = 0\<rparr>"

definition setLimits :: "resource_limits \<Rightarrow> resource_budget \<Rightarrow> resource_budget" where
  "setLimits l b = b\<lparr>b_maxTCP := l_MaxTCPConnections l, b_maxUDP := l_MaxUDPSessions l,
     b_maxUDPMemory := l_MaxUDPMemoryBytes l\<rparr>"

definition newResourceBudget :: "resource_limits \<Rightarrow> resource_budget" where
  "newResourceBudget l = setLimits l
     \<lparr>b_maxTCP = 0, b_maxUDP = 0, b_maxUDPMemory = 0, b_activeTCP = 0, b_activeUDP = 0, b_udpMemory = 0\<rparr>"

definition address_bytes :: "addr \<Rightarrow> nat list" where
  "address_bytes a =
     (case unmap a of
        IP4 w \<Rightarrow> map (octet w) [0, 1, 2, 3]
      | IP6 w z \<Rightarrow> map (\<lambda>i. unat (drop_bit (120 - 8 * i) w) mod 256) [0..<16]
      | NoAddr \<Rightarrow> replicate 16 0)"

definition sourceShard :: "addr \<Rightarrow> nat" where
  "sourceShard a = foldl (XOR) 0 (address_bytes a) mod sourceBudgetShards"

section \<open>Counters\<close>

text \<open>The counter after a reservation, none when it is refused.\<close>

definition reserveAtomicN :: "int \<Rightarrow> int \<Rightarrow> int \<Rightarrow> int option" where
  "reserveAtomicN counter amount maximum =
     (if amount \<le> 0 \<or> maximum \<le> 0 \<or> maximum - amount < counter then None else Some (counter + amount))"

definition reserveAtomic :: "int \<Rightarrow> int \<Rightarrow> int option" where
  "reserveAtomic counter maximum = reserveAtomicN counter 1 maximum"

definition shard_count :: "rule_budget \<Rightarrow> addr \<Rightarrow> int" where
  "shard_count rb source = (case rb_sources rb (sourceShard source) source of None \<Rightarrow> 0 | Some n \<Rightarrow> n)"

definition set_shard_count :: "addr \<Rightarrow> int option \<Rightarrow> rule_budget \<Rightarrow> rule_budget" where
  "set_shard_count source c rb =
     (let k = sourceShard source in rb\<lparr>rb_sources := (rb_sources rb)(k := (rb_sources rb k)(source := c))\<rparr>)"

text \<open>The critical sections of \<^verbatim>\<open>reserveTCP\<close> and \<^verbatim>\<open>releaseTCP\<close>.\<close>

definition enter_source :: "addr \<Rightarrow> int \<Rightarrow> rule_budget \<Rightarrow> rule_budget option" where
  "enter_source source sourceMax rb =
     (if sourceMax \<le> shard_count rb source then None
      else Some (set_shard_count source (Some (shard_count rb source + 1)) rb))"

definition leave_source :: "addr \<Rightarrow> rule_budget \<Rightarrow> rule_budget" where
  "leave_source source rb =
     (let count = shard_count rb source in
      set_shard_count source (if count \<le> 1 then None else Some (count - 1)) rb)"

definition reserveTCP ::
    "resource_budget \<Rightarrow> rule_budget \<Rightarrow> addr \<Rightarrow> int \<Rightarrow> int \<Rightarrow> bool \<times> resource_budget \<times> rule_budget" where
  "reserveTCP b rb source ruleMax sourceMax =
     (case reserveAtomic (b_activeTCP b) (b_maxTCP b) of
        None \<Rightarrow> (False, b, rb)
      | Some n \<Rightarrow>
          let b1 = b\<lparr>b_activeTCP := n\<rparr> in
          case reserveAtomic (rb_activeTCP rb) ruleMax of
            None \<Rightarrow> (False, b1\<lparr>b_activeTCP := b_activeTCP b1 - 1\<rparr>, rb)
          | Some k \<Rightarrow>
              let rb1 = rb\<lparr>rb_activeTCP := k\<rparr> in
              case enter_source source sourceMax rb1 of
                None \<Rightarrow> (False, b1\<lparr>b_activeTCP := b_activeTCP b1 - 1\<rparr>, rb1\<lparr>rb_activeTCP := rb_activeTCP rb1 - 1\<rparr>)
              | Some rb2 \<Rightarrow> (True, b1, rb2))"

definition releaseTCP :: "resource_budget \<Rightarrow> rule_budget \<Rightarrow> addr \<Rightarrow> resource_budget \<times> rule_budget" where
  "releaseTCP b rb source =
     (let rb1 = leave_source source rb in
      (b\<lparr>b_activeTCP := b_activeTCP b - 1\<rparr>, rb1\<lparr>rb_activeTCP := rb_activeTCP rb1 - 1\<rparr>))"

definition reserveUDPMemory :: "int \<Rightarrow> resource_budget \<Rightarrow> bool \<times> resource_budget" where
  "reserveUDPMemory bytes b =
     (case reserveAtomicN (b_udpMemory b) bytes (b_maxUDPMemory b) of
        None \<Rightarrow> (False, b) | Some n \<Rightarrow> (True, b\<lparr>b_udpMemory := n\<rparr>))"

definition reserveUDP :: "int \<Rightarrow> resource_budget \<Rightarrow> bool \<times> resource_budget" where
  "reserveUDP bytes b =
     (case reserveAtomic (b_activeUDP b) (b_maxUDP b) of
        None \<Rightarrow> (False, b)
      | Some n \<Rightarrow>
          let (ok, b1) = reserveUDPMemory bytes (b\<lparr>b_activeUDP := n\<rparr>)
          in if ok then (True, b1) else (False, b1\<lparr>b_activeUDP := b_activeUDP b1 - 1\<rparr>))"

definition releaseUDPMemory :: "int \<Rightarrow> resource_budget \<Rightarrow> resource_budget" where
  "releaseUDPMemory bytes b = b\<lparr>b_udpMemory := b_udpMemory b - bytes\<rparr>"

definition releaseUDP :: "int \<Rightarrow> resource_budget \<Rightarrow> resource_budget" where
  "releaseUDP bytes b = (let b1 = releaseUDPMemory bytes b in b1\<lparr>b_activeUDP := b_activeUDP b1 - 1\<rparr>)"

section \<open>Token buckets\<close>

text \<open>
  \<^verbatim>\<open>Time.Sub\<close> saturates at the bounds of a duration; \<^verbatim>\<open>Duration.Seconds\<close> adds the whole seconds and the
  nanoseconds divided by a billion.
\<close>

definition duration_between :: "int \<Rightarrow> int \<Rightarrow> int" where
  "duration_between now before = max (- (2 ^ 63)) (min (2 ^ 63 - 1) (now - before))"

definition duration_seconds :: "(rat \<Rightarrow> rat) \<Rightarrow> int \<Rightarrow> rat" where
  "duration_seconds rnd d =
     (let whole = (if 0 \<le> d then d div second else - ((- d) div second)); rest = d - whole * second
      in rnd (rnd (of_int whole) + rnd (rnd (of_int rest) / of_int second)))"

definition refill_tokens :: "(rat \<Rightarrow> rat) \<Rightarrow> rat \<Rightarrow> int \<Rightarrow> rat \<Rightarrow> rat" where
  "refill_tokens rnd elapsed rate tokens =
     rnd (tokens + rnd (elapsed * rnd (of_int rate)))"

definition cap_tokens :: "(rat \<Rightarrow> rat) \<Rightarrow> int \<Rightarrow> rat \<Rightarrow> rat" where
  "cap_tokens rnd rate tokens = (let maximum = rnd (of_int rate) in if maximum < tokens then maximum else tokens)"

definition refillUDPSourceTokens ::
    "(rat \<Rightarrow> rat) \<Rightarrow> source_state \<Rightarrow> int \<Rightarrow> udp_limits \<Rightarrow> source_state" where
  "refillUDPSourceTokens rnd s now limits =
     (let elapsed = duration_seconds rnd (duration_between now (u_lastRefill s));
          s1 = (if 0 < elapsed
                then s\<lparr>u_newTokens := refill_tokens rnd elapsed (ul_newSessionsRate limits) (u_newTokens s),
                       u_packetTokens := refill_tokens rnd elapsed (ul_packetRate limits) (u_packetTokens s),
                       u_lastRefill := now\<rparr>
                else s)
      in s1\<lparr>u_newTokens := cap_tokens rnd (ul_newSessionsRate limits) (u_newTokens s1),
            u_packetTokens := cap_tokens rnd (ul_packetRate limits) (u_packetTokens s1)\<rparr>)"

definition set_source :: "addr \<Rightarrow> source_state \<Rightarrow> rule_budget \<Rightarrow> rule_budget" where
  "set_source source s rb =
     (let k = sourceShard source in rb\<lparr>rb_udpSources := (rb_udpSources rb)(k := (rb_udpSources rb k)(source \<mapsto> s))\<rparr>)"

definition fresh_source :: "(rat \<Rightarrow> rat) \<Rightarrow> int \<Rightarrow> udp_limits \<Rightarrow> source_state" where
  "fresh_source rnd now limits =
     \<lparr>u_activeSessions = 0, u_newTokens = rnd (of_int (ul_newSessionsRate limits)),
      u_packetTokens = rnd (of_int (ul_packetRate limits)), u_lastRefill = now, u_lastSeen = now\<rparr>"

text \<open>The decision on one packet, for a source whose state is found or created.\<close>

definition admit_packet :: "(rat \<Rightarrow> rat) \<Rightarrow> bool \<Rightarrow> udp_limits \<Rightarrow> source_state \<Rightarrow> bool \<times> source_state" where
  "admit_packet rnd newSession limits s =
     (if u_packetTokens s < 1 then (False, s)
      else if newSession \<and> (ul_maxSessions limits \<le> u_activeSessions s \<or> u_newTokens s < 1) then (False, s)
      else
        let s1 = s\<lparr>u_packetTokens := rnd (u_packetTokens s - 1)\<rparr> in
        (True, if newSession
               then s1\<lparr>u_activeSessions := u_activeSessions s1 + 1, u_newTokens := rnd (u_newTokens s1 - 1)\<rparr>
               else s1))"

definition reserveUDPPacket ::
    "(rat \<Rightarrow> rat) \<Rightarrow> addr \<Rightarrow> bool \<Rightarrow> int \<Rightarrow> udp_limits \<Rightarrow> rule_budget \<Rightarrow> bool \<times> rule_budget" where
  "reserveUDPPacket rnd raw newSession now limits rb =
     (let source = unmap raw in
      case rb_udpSources rb (sourceShard source) source of
        None \<Rightarrow>
          (case reserveAtomic (rb_udpSourceCount rb) (ul_maxTrackedSource limits) of
             None \<Rightarrow> (False, rb)
           | Some n \<Rightarrow>
               let (ok, s) = admit_packet rnd newSession limits (fresh_source rnd now limits)
               in (ok, set_source source s (rb\<lparr>rb_udpSourceCount := n\<rparr>)))
      | Some s0 \<Rightarrow>
          let (ok, s) = admit_packet rnd newSession limits ((refillUDPSourceTokens rnd s0 now limits)\<lparr>u_lastSeen := now\<rparr>)
          in (ok, set_source source s rb))"

definition rollbackUDPSourceSession :: "(rat \<Rightarrow> rat) \<Rightarrow> addr \<Rightarrow> int \<Rightarrow> rule_budget \<Rightarrow> rule_budget" where
  "rollbackUDPSourceSession rnd raw rate rb =
     (let source = unmap raw in
      case rb_udpSources rb (sourceShard source) source of
        None \<Rightarrow> rb
      | Some s \<Rightarrow>
          let s1 = (if 0 < u_activeSessions s then s\<lparr>u_activeSessions := u_activeSessions s - 1\<rparr> else s)
          in set_source source (s1\<lparr>u_newTokens := cap_tokens rnd rate (rnd (u_newTokens s1 + 1))\<rparr>) rb)"

definition releaseUDPSourceSession :: "addr \<Rightarrow> int \<Rightarrow> rule_budget \<Rightarrow> rule_budget" where
  "releaseUDPSourceSession raw now rb =
     (let source = unmap raw in
      case rb_udpSources rb (sourceShard source) source of
        None \<Rightarrow> rb
      | Some s \<Rightarrow>
          let s1 = (if 0 < u_activeSessions s then s\<lparr>u_activeSessions := u_activeSessions s - 1\<rparr> else s)
          in set_source source (s1\<lparr>u_lastSeen := now\<rparr>) rb)"

section \<open>Cleanup\<close>

text \<open>
  A sweep looks at the entries of a shard in the order the map yields them, an argument: \<open>order k\<close> lists the
  sources of shard \<open>k\<close>.
\<close>

definition idle_source :: "int \<Rightarrow> source_state \<Rightarrow> bool" where
  "idle_source cutoff s \<longleftrightarrow> u_activeSessions s = 0 \<and> \<not> cutoff < u_lastSeen s"

definition sweep_source :: "int \<Rightarrow> nat \<Rightarrow> addr \<Rightarrow> rule_budget \<Rightarrow> rule_budget" where
  "sweep_source cutoff k source rb =
     (case rb_udpSources rb k source of
        None \<Rightarrow> rb
      | Some s \<Rightarrow>
          if idle_source cutoff s
          then rb\<lparr>rb_udpSources := (rb_udpSources rb)(k := (rb_udpSources rb k)(source := None)),
                  rb_udpSourceCount := rb_udpSourceCount rb - 1\<rparr>
          else rb)"

definition inspected_sources :: "(nat \<Rightarrow> addr list) \<Rightarrow> nat \<Rightarrow> addr list" where
  "inspected_sources order k = take udpCleanupEntriesPerShard (order k)"

definition sweep_shard :: "(nat \<Rightarrow> addr list) \<Rightarrow> int \<Rightarrow> nat \<Rightarrow> rule_budget \<Rightarrow> rule_budget" where
  "sweep_shard order cutoff k rb = fold (sweep_source cutoff k) (inspected_sources order k) rb"

definition sweep_shards :: "32 word \<Rightarrow> nat list" where
  "sweep_shards cursor =
     map (\<lambda>offset. (unat cursor mod sourceBudgetShards + offset) mod sourceBudgetShards) [0..<udpCleanupShardsPerSweep]"

definition maintainUDPSources ::
    "(nat \<Rightarrow> addr list) \<Rightarrow> int \<Rightarrow> int \<Rightarrow> rule_budget \<Rightarrow> nat \<times> rule_budget" where
  "maintainUDPSources order now idle rb =
     (if now div second < rb_nextCleanup rb then (0, rb)
      else
        let shards = sweep_shards ((rb_cursor rb + of_nat udpCleanupShardsPerSweep) - of_nat udpCleanupShardsPerSweep);
            rb1 = rb\<lparr>rb_nextCleanup := (now + second) div second, rb_cursor := rb_cursor rb + of_nat udpCleanupShardsPerSweep\<rparr>
        in (sum_list (map (\<lambda>k. length (inspected_sources order k)) shards),
            fold (sweep_shard order (now - idle)) shards rb1))"

end
