(* ===== verification/Budget_Threads.thy ===== *)
theory Budget_Threads
  imports Budget
begin

text \<open>
  The admission of TCP connections by many goroutines at once.  Every goroutine runs \<^verbatim>\<open>reserveTCP\<close> and later
  \<^verbatim>\<open>releaseTCP\<close>, one atomic action at a time, in any interleaving with the others, with new connections and
  with changes of the limits.
\<close>

section \<open>One connection\<close>

datatype tcp_pc =
    Idle | GotGlobal | GotRule | Holding | FailedSource | FailedRule | LeftSource | LeftRule | Refused | Closed

record conn =
  cn_rule :: string
  cn_source :: addr
  cn_ruleMax :: int
  cn_sourceMax :: int
  cn_pc :: tcp_pc

type_synonym conn_state = "conn \<times> resource_budget \<times> rule_budget"

definition conn_step :: "conn_state \<Rightarrow> conn_state" where
  "conn_step state =
     (let (c, b, rb) = state in
      case cn_pc c of
        Idle \<Rightarrow>
          (case reserveAtomic (b_activeTCP b) (b_maxTCP b) of
             None \<Rightarrow> (c\<lparr>cn_pc := Refused\<rparr>, b, rb)
           | Some n \<Rightarrow> (c\<lparr>cn_pc := GotGlobal\<rparr>, b\<lparr>b_activeTCP := n\<rparr>, rb))
      | GotGlobal \<Rightarrow>
          (case reserveAtomic (rb_activeTCP rb) (cn_ruleMax c) of
             None \<Rightarrow> (c\<lparr>cn_pc := FailedRule\<rparr>, b, rb)
           | Some n \<Rightarrow> (c\<lparr>cn_pc := GotRule\<rparr>, b, rb\<lparr>rb_activeTCP := n\<rparr>))
      | GotRule \<Rightarrow>
          (case enter_source (cn_source c) (cn_sourceMax c) rb of
             None \<Rightarrow> (c\<lparr>cn_pc := FailedSource\<rparr>, b, rb)
           | Some rb1 \<Rightarrow> (c\<lparr>cn_pc := Holding\<rparr>, b, rb1))
      | FailedSource \<Rightarrow> (c\<lparr>cn_pc := FailedRule\<rparr>, b, rb\<lparr>rb_activeTCP := rb_activeTCP rb - 1\<rparr>)
      | FailedRule \<Rightarrow> (c\<lparr>cn_pc := Refused\<rparr>, b\<lparr>b_activeTCP := b_activeTCP b - 1\<rparr>, rb)
      | Holding \<Rightarrow> (c\<lparr>cn_pc := LeftSource\<rparr>, b, leave_source (cn_source c) rb)
      | LeftSource \<Rightarrow> (c\<lparr>cn_pc := LeftRule\<rparr>, b, rb\<lparr>rb_activeTCP := rb_activeTCP rb - 1\<rparr>)
      | LeftRule \<Rightarrow> (c\<lparr>cn_pc := Closed\<rparr>, b\<lparr>b_activeTCP := b_activeTCP b - 1\<rparr>, rb)
      | Refused \<Rightarrow> (c, b, rb)
      | Closed \<Rightarrow> (c, b, rb))"

definition settle_step :: "conn_state \<Rightarrow> conn_state" where
  "settle_step state = (if cn_pc (fst state) \<in> {Holding, Refused, Closed} then state else conn_step state)"

text \<open>Undisturbed, the steps of a connection are \<^verbatim>\<open>reserveTCP\<close> and \<^verbatim>\<open>releaseTCP\<close>.\<close>

lemma funpow_5: "(f ^^ 5) x = f (f (f (f (f x))))"
  by (simp add: numeral_eq_Suc)

lemma funpow_3: "(f ^^ 3) x = f (f (f x))"
  by (simp add: numeral_eq_Suc)

lemma reserveTCP_steps:
  assumes "cn_pc c = Idle"
  shows "(settle_step ^^ 5) (c, b, rb) =
    (case reserveTCP b rb (cn_source c) (cn_ruleMax c) (cn_sourceMax c) of
       (ok, b', rb') \<Rightarrow> (c\<lparr>cn_pc := if ok then Holding else Refused\<rparr>, b', rb'))"
  using assms unfolding funpow_5
  by (auto simp: settle_step_def conn_step_def reserveTCP_def Let_def split: option.split)

lemma releaseTCP_steps:
  assumes "cn_pc c = Holding"
  shows "(conn_step ^^ 3) (c, b, rb) =
    (case releaseTCP b rb (cn_source c) of (b', rb') \<Rightarrow> (c\<lparr>cn_pc := Closed\<rparr>, b', rb'))"
  using assms unfolding funpow_3
  by (auto simp: conn_step_def releaseTCP_def Let_def)

lemma reserveTCP_refused:
  "fst (reserveTCP b rb s rmax smax) = (snd (reserveTCP b rb s rmax smax) \<noteq> (b, rb))"
  by (auto simp: reserveTCP_def reserveAtomic_def reserveAtomicN_def Let_def split: option.split
      dest: arg_cong[of _ b b_activeTCP])

section \<open>All connections\<close>

record traffic =
  t_budget :: resource_budget
  t_rules :: "string \<Rightarrow> rule_budget"
  t_conns :: "conn list"

definition traffic_conn :: "nat \<Rightarrow> traffic \<Rightarrow> traffic" where
  "traffic_conn i t =
     (let c = t_conns t ! i; (c', b', rb') = conn_step (c, t_budget t, t_rules t (cn_rule c))
      in \<lparr>t_budget = b', t_rules = (t_rules t)(cn_rule c := rb'), t_conns = (t_conns t)[i := c']\<rparr>)"

text \<open>
  The reachable states, when no limit ever set exceeds \<open>M\<close>, and every connection of rule \<open>r\<close> was accepted
  with limits of at most \<open>rm r\<close> for the rule and \<open>sm r\<close> for its source.
\<close>

inductive traffic_reach :: "int \<Rightarrow> (string \<Rightarrow> int) \<Rightarrow> (string \<Rightarrow> int) \<Rightarrow> traffic \<Rightarrow> bool"
  for M rm sm where
  start: "l_MaxTCPConnections l \<le> M \<Longrightarrow>
    traffic_reach M rm sm \<lparr>t_budget = newResourceBudget l, t_rules = (\<lambda>_. fresh_budget), t_conns = []\<rparr>"
| accept: "traffic_reach M rm sm t \<Longrightarrow> cn_pc c = Idle \<Longrightarrow> cn_ruleMax c \<le> rm (cn_rule c) \<Longrightarrow>
    cn_sourceMax c \<le> sm (cn_rule c) \<Longrightarrow> traffic_reach M rm sm (t\<lparr>t_conns := t_conns t @ [c]\<rparr>)"
| conn: "traffic_reach M rm sm t \<Longrightarrow> i < length (t_conns t) \<Longrightarrow> traffic_reach M rm sm (traffic_conn i t)"
| limits: "traffic_reach M rm sm t \<Longrightarrow> l_MaxTCPConnections l \<le> M \<Longrightarrow>
    traffic_reach M rm sm (t\<lparr>t_budget := setLimits l (t_budget t)\<rparr>)"

definition holds_global :: "tcp_pc \<Rightarrow> bool" where
  "holds_global pc \<longleftrightarrow> pc \<in> {GotGlobal, GotRule, Holding, FailedSource, FailedRule, LeftSource, LeftRule}"

definition holds_rule :: "tcp_pc \<Rightarrow> bool" where
  "holds_rule pc \<longleftrightarrow> pc \<in> {GotRule, Holding, FailedSource, LeftSource}"

definition count_if :: "('a \<Rightarrow> bool) \<Rightarrow> 'a list \<Rightarrow> int" where
  "count_if P xs = int (length (filter P xs))"

lemma count_if_simps [simp]:
  "count_if P [] = 0" "count_if P (x # xs) = of_bool (P x) + count_if P xs" "count_if P (xs @ ys) = count_if P xs + count_if P ys"
  by (simp_all add: count_if_def)

lemma count_if_update:
  "i < length xs \<Longrightarrow> count_if P (xs[i := x]) = count_if P xs - of_bool (P (xs ! i)) + of_bool (P x)"
proof (induction xs arbitrary: i)
  case (Cons y ys)
  then show ?case by (cases i) auto
qed simp

lemma count_if_mono: "(\<And>x. P x \<Longrightarrow> Q x) \<Longrightarrow> count_if P xs \<le> count_if Q xs"
  by (induction xs) (auto simp: of_bool_def split: if_splits)

lemma count_if_nonneg [simp]: "0 \<le> count_if P xs"
  by (simp add: count_if_def)

definition global_count :: "traffic \<Rightarrow> int" where
  "global_count t = count_if (\<lambda>c. holds_global (cn_pc c)) (t_conns t)"

definition rule_count :: "string \<Rightarrow> traffic \<Rightarrow> int" where
  "rule_count r t = count_if (\<lambda>c. cn_rule c = r \<and> holds_rule (cn_pc c)) (t_conns t)"

definition source_count :: "string \<Rightarrow> addr \<Rightarrow> traffic \<Rightarrow> int" where
  "source_count r a t = count_if (\<lambda>c. cn_rule c = r \<and> cn_source c = a \<and> cn_pc c = Holding) (t_conns t)"

definition traffic_inv :: "int \<Rightarrow> (string \<Rightarrow> int) \<Rightarrow> (string \<Rightarrow> int) \<Rightarrow> traffic \<Rightarrow> bool" where
  "traffic_inv M rm sm t \<longleftrightarrow>
     b_activeTCP (t_budget t) = global_count t
     \<and> (\<forall>r. rb_activeTCP (t_rules t r) = rule_count r t)
     \<and> (\<forall>r a. shard_count (t_rules t r) a = source_count r a t)
     \<and> b_maxTCP (t_budget t) \<le> M
     \<and> (\<forall>c\<in>set (t_conns t). cn_ruleMax c \<le> rm (cn_rule c) \<and> cn_sourceMax c \<le> sm (cn_rule c))
     \<and> global_count t \<le> max 0 M
     \<and> (\<forall>r. rule_count r t \<le> max 0 (rm r))
     \<and> (\<forall>r a. source_count r a t \<le> max 0 (sm r))"

text \<open>The effect of one step on the three counters: each moves with its own count.\<close>

definition conn_effect :: "conn \<Rightarrow> resource_budget \<Rightarrow> rule_budget \<Rightarrow> conn \<Rightarrow> resource_budget \<Rightarrow> rule_budget \<Rightarrow> bool" where
  "conn_effect c b rb c' b' rb' \<longleftrightarrow>
     cn_rule c' = cn_rule c \<and> cn_source c' = cn_source c \<and> cn_ruleMax c' = cn_ruleMax c
     \<and> cn_sourceMax c' = cn_sourceMax c \<and> b_maxTCP b' = b_maxTCP b
     \<and> b_activeTCP b' = b_activeTCP b - of_bool (holds_global (cn_pc c)) + of_bool (holds_global (cn_pc c'))
     \<and> rb_activeTCP rb' = rb_activeTCP rb - of_bool (holds_rule (cn_pc c)) + of_bool (holds_rule (cn_pc c'))
     \<and> (\<forall>a. shard_count rb' a = shard_count rb a
            - of_bool (a = cn_source c \<and> cn_pc c = Holding) + of_bool (a = cn_source c \<and> cn_pc c' = Holding))
     \<and> (b_activeTCP b < b_activeTCP b' \<longrightarrow> b_activeTCP b' \<le> b_maxTCP b)
     \<and> (rb_activeTCP rb < rb_activeTCP rb' \<longrightarrow> rb_activeTCP rb' \<le> cn_ruleMax c)
     \<and> (\<forall>a. shard_count rb a < shard_count rb' a \<longrightarrow> shard_count rb' a \<le> cn_sourceMax c)"

lemma shard_count_set [simp]:
  "shard_count (set_shard_count s c rb) a = (if a = s then (case c of None \<Rightarrow> 0 | Some n \<Rightarrow> n) else shard_count rb a)"
  by (auto simp: shard_count_def set_shard_count_def Let_def)

lemma set_shard_count_active [simp]: "rb_activeTCP (set_shard_count s c rb) = rb_activeTCP rb"
  by (simp add: set_shard_count_def Let_def)

lemma shard_count_active [simp]: "shard_count (rb\<lparr>rb_activeTCP := n\<rparr>) a = shard_count rb a"
  by (simp add: shard_count_def)

lemma enter_source_effect:
  "enter_source s m rb = Some rb' \<Longrightarrow>
     rb_activeTCP rb' = rb_activeTCP rb \<and> shard_count rb' a = shard_count rb a + of_bool (a = s) \<and> shard_count rb' s \<le> m"
  by (auto simp: enter_source_def split: if_splits)

lemma leave_source_effect:
  "1 \<le> shard_count rb s \<Longrightarrow>
     rb_activeTCP (leave_source s rb) = rb_activeTCP rb \<and> shard_count (leave_source s rb) a = shard_count rb a - of_bool (a = s)"
  by (auto simp: leave_source_def Let_def)

lemma reserveAtomic_Some: "reserveAtomic n m = Some k \<longleftrightarrow> k = n + 1 \<and> 0 < m \<and> n + 1 \<le> m"
  by (auto simp: reserveAtomic_def reserveAtomicN_def)

lemma conn_step_effect:
  assumes run: "conn_step (c, b, rb) = (c', b', rb')"
    and held: "cn_pc c = Holding \<Longrightarrow> 1 \<le> shard_count rb (cn_source c)"
  shows "conn_effect c b rb c' b' rb'"
proof (cases "cn_pc c")
  case Holding
  with run have eq: "c' = c\<lparr>cn_pc := LeftSource\<rparr>" "b' = b" "rb' = leave_source (cn_source c) rb"
    by (simp_all add: conn_step_def)
  have "rb_activeTCP rb' = rb_activeTCP rb"
    "\<forall>a. shard_count rb' a = shard_count rb a - of_bool (a = cn_source c)"
    unfolding eq using leave_source_effect[OF held[OF Holding]] by blast+
  with Holding eq(1,2) show ?thesis by (simp add: conn_effect_def holds_global_def holds_rule_def)
next
  case GotRule
  show ?thesis
  proof (cases "enter_source (cn_source c) (cn_sourceMax c) rb")
    case None
    with run GotRule have "c' = c\<lparr>cn_pc := FailedSource\<rparr>" "b' = b" "rb' = rb" by (simp_all add: conn_step_def)
    with GotRule show ?thesis by (simp add: conn_effect_def holds_global_def holds_rule_def)
  next
    case (Some rb1)
    with run GotRule have eq: "c' = c\<lparr>cn_pc := Holding\<rparr>" "b' = b" "rb' = rb1" by (simp_all add: conn_step_def)
    have "rb_activeTCP rb' = rb_activeTCP rb" "shard_count rb' (cn_source c) \<le> cn_sourceMax c"
      "\<forall>a. shard_count rb' a = shard_count rb a + of_bool (a = cn_source c)"
      unfolding eq using enter_source_effect[OF Some] by blast+
    with GotRule eq(1,2) show ?thesis by (simp add: conn_effect_def holds_global_def holds_rule_def)
  qed
next
  case Idle
  show ?thesis
  proof (cases "reserveAtomic (b_activeTCP b) (b_maxTCP b)")
    case None
    with run Idle have "c' = c\<lparr>cn_pc := Refused\<rparr>" "b' = b" "rb' = rb" by (simp_all add: conn_step_def)
    with Idle show ?thesis by (simp add: conn_effect_def holds_global_def holds_rule_def)
  next
    case (Some n)
    with run Idle have "c' = c\<lparr>cn_pc := GotGlobal\<rparr>" "b' = b\<lparr>b_activeTCP := n\<rparr>" "rb' = rb"
      by (simp_all add: conn_step_def)
    with Idle Some[unfolded reserveAtomic_Some] show ?thesis
      by (simp add: conn_effect_def holds_global_def holds_rule_def)
  qed
next
  case GotGlobal
  show ?thesis
  proof (cases "reserveAtomic (rb_activeTCP rb) (cn_ruleMax c)")
    case None
    with run GotGlobal have "c' = c\<lparr>cn_pc := FailedRule\<rparr>" "b' = b" "rb' = rb" by (simp_all add: conn_step_def)
    with GotGlobal show ?thesis by (simp add: conn_effect_def holds_global_def holds_rule_def)
  next
    case (Some n)
    with run GotGlobal have "c' = c\<lparr>cn_pc := GotRule\<rparr>" "b' = b" "rb' = rb\<lparr>rb_activeTCP := n\<rparr>"
      by (simp_all add: conn_step_def)
    with GotGlobal Some[unfolded reserveAtomic_Some] show ?thesis
      by (simp add: conn_effect_def holds_global_def holds_rule_def)
  qed
next
  case FailedSource
  with run have "c' = c\<lparr>cn_pc := FailedRule\<rparr>" "b' = b" "rb' = rb\<lparr>rb_activeTCP := rb_activeTCP rb - 1\<rparr>"
    by (simp_all add: conn_step_def)
  with FailedSource show ?thesis by (simp add: conn_effect_def holds_global_def holds_rule_def)
next
  case FailedRule
  with run have "c' = c\<lparr>cn_pc := Refused\<rparr>" "b' = b\<lparr>b_activeTCP := b_activeTCP b - 1\<rparr>" "rb' = rb"
    by (simp_all add: conn_step_def)
  with FailedRule show ?thesis by (simp add: conn_effect_def holds_global_def holds_rule_def)
next
  case LeftSource
  with run have "c' = c\<lparr>cn_pc := LeftRule\<rparr>" "b' = b" "rb' = rb\<lparr>rb_activeTCP := rb_activeTCP rb - 1\<rparr>"
    by (simp_all add: conn_step_def)
  with LeftSource show ?thesis by (simp add: conn_effect_def holds_global_def holds_rule_def)
next
  case LeftRule
  with run have "c' = c\<lparr>cn_pc := Closed\<rparr>" "b' = b\<lparr>b_activeTCP := b_activeTCP b - 1\<rparr>" "rb' = rb"
    by (simp_all add: conn_step_def)
  with LeftRule show ?thesis by (simp add: conn_effect_def holds_global_def holds_rule_def)
next
  case Refused
  with run have "c' = c" "b' = b" "rb' = rb"
    by (simp_all add: conn_step_def)
  with Refused show ?thesis by (simp add: conn_effect_def holds_global_def holds_rule_def)
next
  case Closed
  with run have "c' = c" "b' = b" "rb' = rb"
    by (simp_all add: conn_step_def)
  with Closed show ?thesis by (simp add: conn_effect_def holds_global_def holds_rule_def)
qed

lemma traffic_conn_inv:
  assumes inv: "traffic_inv M rm sm t" and i: "i < length (t_conns t)"
  shows "traffic_inv M rm sm (traffic_conn i t)"
proof -
  let ?c = "t_conns t ! i" and ?b = "t_budget t" and ?rb = "t_rules t (cn_rule (t_conns t ! i))"
  obtain c' b' rb' where step: "conn_step (?c, ?b, ?rb) = (c', b', rb')" by (metis prod_cases3)
  have t': "traffic_conn i t = \<lparr>t_budget = b', t_rules = (t_rules t)(cn_rule ?c := rb'), t_conns = (t_conns t)[i := c']\<rparr>"
    by (simp add: traffic_conn_def Let_def step)
  have mem: "?c \<in> set (t_conns t)" using i by simp
  have "1 \<le> shard_count ?rb (cn_source ?c)" if "cn_pc ?c = Holding"
  proof -
    have "0 < length (filter (\<lambda>c. cn_rule c = cn_rule ?c \<and> cn_source c = cn_source ?c \<and> cn_pc c = Holding) (t_conns t))"
      using mem that by (auto simp: filter_empty_conv)
    then have "1 \<le> source_count (cn_rule ?c) (cn_source ?c) t" unfolding source_count_def count_if_def by linarith
    with inv show ?thesis by (simp add: traffic_inv_def)
  qed
  from conn_step_effect[OF step this] have e: "conn_effect ?c ?b ?rb c' b' rb'" .
  note e = e[unfolded conn_effect_def]
  have g: "global_count (traffic_conn i t) =
      global_count t - of_bool (holds_global (cn_pc ?c)) + of_bool (holds_global (cn_pc c'))"
    by (simp add: global_count_def t' count_if_update i)
  have r: "rule_count r (traffic_conn i t) = rule_count r t
      - of_bool (cn_rule ?c = r \<and> holds_rule (cn_pc ?c)) + of_bool (cn_rule ?c = r \<and> holds_rule (cn_pc c'))" for r
    using e by (simp add: rule_count_def t' count_if_update i)
  have s: "source_count r a (traffic_conn i t) = source_count r a t
      - of_bool (cn_rule ?c = r \<and> cn_source ?c = a \<and> cn_pc ?c = Holding)
      + of_bool (cn_rule ?c = r \<and> cn_source ?c = a \<and> cn_pc c' = Holding)" for r a
    using e by (simp add: source_count_def t' count_if_update i)
  have b: "b_activeTCP (t_budget (traffic_conn i t)) = global_count (traffic_conn i t)"
    using e inv unfolding g by (simp add: t' traffic_inv_def)
  have rb: "rb_activeTCP (t_rules (traffic_conn i t) q) = rule_count q (traffic_conn i t)" for q
    using e inv unfolding r by (auto simp: t' traffic_inv_def)
  have sb: "shard_count (t_rules (traffic_conn i t) q) a = source_count q a (traffic_conn i t)" for q a
    using e inv unfolding s by (auto simp: t' traffic_inv_def)
  have caps: "cn_ruleMax ?c \<le> rm (cn_rule ?c)" "cn_sourceMax ?c \<le> sm (cn_rule ?c)" "b_maxTCP ?b \<le> M"
    using inv mem by (auto simp: traffic_inv_def)
  note old = inv[unfolded traffic_inv_def]
  have gb: "global_count (traffic_conn i t) \<le> max 0 M"
  proof (cases "global_count t < global_count (traffic_conn i t)")
    case True
    have "b_activeTCP b' = global_count (traffic_conn i t)" "b_activeTCP ?b = global_count t"
      using b old by (simp_all add: t')
    with True e have "global_count (traffic_conn i t) \<le> b_maxTCP ?b" by metis
    then show ?thesis using caps by linarith
  next
    case False
    have "global_count t \<le> max 0 M" using old by blast
    with False show ?thesis by linarith
  qed
  have rbd: "rule_count q (traffic_conn i t) \<le> max 0 (rm q)" for q
  proof (cases "rule_count q t < rule_count q (traffic_conn i t)")
    case True
    then have q: "cn_rule ?c = q" using r[of q] by (auto simp: of_bool_def split: if_splits)
    have "rb_activeTCP rb' = rule_count q (traffic_conn i t)" "rb_activeTCP ?rb = rule_count q t"
      using rb[of q] old by (simp_all add: t' q)
    with True e have "rule_count q (traffic_conn i t) \<le> cn_ruleMax ?c" by metis
    then show ?thesis using caps q by simp
  next
    case False
    have "rule_count q t \<le> max 0 (rm q)" using old by blast
    with False show ?thesis by linarith
  qed
  have sbd: "source_count q a (traffic_conn i t) \<le> max 0 (sm q)" for q a
  proof (cases "source_count q a t < source_count q a (traffic_conn i t)")
    case True
    then have q: "cn_rule ?c = q" using s[of q a] by (auto simp: of_bool_def split: if_splits)
    have "shard_count rb' a = source_count q a (traffic_conn i t)" "shard_count ?rb a = source_count q a t"
      using sb[of q a] old by (simp_all add: t' q)
    with True e have "source_count q a (traffic_conn i t) \<le> cn_sourceMax ?c" by metis
    then show ?thesis using caps q by simp
  next
    case False
    have "source_count q a t \<le> max 0 (sm q)" using old by blast
    with False show ?thesis by linarith
  qed
  have conns: "cn_ruleMax c \<le> rm (cn_rule c) \<and> cn_sourceMax c \<le> sm (cn_rule c)"
    if "c \<in> set (t_conns (traffic_conn i t))" for c
    using that inv e caps set_update_subset_insert[of "t_conns t" i c'] by (auto simp: t' traffic_inv_def)
  show ?thesis
    unfolding traffic_inv_def using b rb sb gb rbd sbd conns e caps by (simp add: t')
qed

lemma traffic_reach_inv: "traffic_reach M rm sm t \<Longrightarrow> traffic_inv M rm sm t"
proof (induction rule: traffic_reach.induct)
  case (start l)
  then show ?case
    by (simp add: traffic_inv_def newResourceBudget_def setLimits_def fresh_budget_def global_count_def rule_count_def
        source_count_def shard_count_def)
next
  case (accept t c)
  then show ?case
    by (auto simp: traffic_inv_def global_count_def rule_count_def source_count_def holds_global_def holds_rule_def)
next
  case (conn t i)
  then show ?case by (blast intro: traffic_conn_inv)
next
  case (limits t l)
  then show ?case by (auto simp: traffic_inv_def setLimits_def global_count_def rule_count_def source_count_def)
qed

end
