(* ===== verification/Budget_Facts.thy ===== *)
theory Budget_Facts
  imports Budget "HOL-Library.Multiset"
begin

text \<open>
  UDP sessions and memory over any sequence of reservations and releases, the bounds of the token buckets,
  and what a sweep removes.
\<close>

section \<open>Sessions and memory\<close>

lemma reserveUDPMemory_result:
  "reserveUDPMemory n b = (ok, b') \<Longrightarrow>
     b' = (if ok then b\<lparr>b_udpMemory := b_udpMemory b + n\<rparr> else b)
     \<and> (ok \<longrightarrow> 0 < n \<and> b_udpMemory b + n \<le> b_maxUDPMemory b)"
  by (auto simp: reserveUDPMemory_def reserveAtomicN_def split: if_splits)

lemma reserveUDP_result:
  assumes "reserveUDP n b = (ok, b')"
  shows "b' = (if ok then b\<lparr>b_activeUDP := b_activeUDP b + 1, b_udpMemory := b_udpMemory b + n\<rparr> else b)
     \<and> (ok \<longrightarrow> 0 < n \<and> b_activeUDP b + 1 \<le> b_maxUDP b \<and> b_udpMemory b + n \<le> b_maxUDPMemory b)"
proof (cases "reserveAtomic (b_activeUDP b) (b_maxUDP b)")
  case None
  with assms show ?thesis by (simp add: reserveUDP_def)
next
  case (Some k)
  then have k: "k = b_activeUDP b + 1" "k \<le> b_maxUDP b" by (auto simp: reserveAtomic_def reserveAtomicN_def split: if_splits)
  obtain ok1 b1 where m: "reserveUDPMemory n (b\<lparr>b_activeUDP := k\<rparr>) = (ok1, b1)" by fastforce
  from assms Some m have "ok = ok1" "b' = (if ok1 then b1 else b1\<lparr>b_activeUDP := b_activeUDP b1 - 1\<rparr>)"
    by (auto simp: reserveUDP_def split: if_splits)
  with reserveUDPMemory_result[OF m] k show ?thesis by simp
qed

text \<open>
  The reachable budgets, with the sizes of the sessions and of the listener buffers that are held, when
  no limit ever set exceeds \<open>S\<close> sessions and \<open>M\<close> bytes.
\<close>

inductive udp_reach :: "int \<Rightarrow> int \<Rightarrow> resource_budget \<Rightarrow> int multiset \<Rightarrow> int multiset \<Rightarrow> bool" for S M where
  start: "l_MaxUDPSessions l \<le> S \<Longrightarrow> l_MaxUDPMemoryBytes l \<le> M \<Longrightarrow> udp_reach S M (newResourceBudget l) {#} {#}"
| session: "udp_reach S M b ss ms \<Longrightarrow> reserveUDP n b = (ok, b') \<Longrightarrow>
    udp_reach S M b' (if ok then add_mset n ss else ss) ms"
| buffer: "udp_reach S M b ss ms \<Longrightarrow> reserveUDPMemory n b = (ok, b') \<Longrightarrow>
    udp_reach S M b' ss (if ok then add_mset n ms else ms)"
| end_session: "udp_reach S M b (add_mset n ss) ms \<Longrightarrow> udp_reach S M (releaseUDP n b) ss ms"
| end_buffer: "udp_reach S M b ss (add_mset n ms) \<Longrightarrow> udp_reach S M (releaseUDPMemory n b) ss ms"
| limits: "udp_reach S M b ss ms \<Longrightarrow> l_MaxUDPSessions l \<le> S \<Longrightarrow> l_MaxUDPMemoryBytes l \<le> M \<Longrightarrow>
    udp_reach S M (setLimits l b) ss ms"

definition udp_inv :: "int \<Rightarrow> int \<Rightarrow> resource_budget \<Rightarrow> int multiset \<Rightarrow> int multiset \<Rightarrow> bool" where
  "udp_inv S M b ss ms \<longleftrightarrow>
     b_activeUDP b = int (size ss) \<and> b_udpMemory b = \<Sum>\<^sub># ss + \<Sum>\<^sub># ms
     \<and> (\<forall>n. n \<in># ss + ms \<longrightarrow> 0 < n) \<and> b_maxUDP b \<le> S \<and> b_maxUDPMemory b \<le> M
     \<and> b_activeUDP b \<le> max 0 S \<and> b_udpMemory b \<le> max 0 M"

lemma udp_reach_inv: "udp_reach S M b ss ms \<Longrightarrow> udp_inv S M b ss ms"
proof (induction rule: udp_reach.induct)
  case (start l)
  then show ?case by (simp add: udp_inv_def newResourceBudget_def setLimits_def)
next
  case (session b ss ms n ok b')
  with reserveUDP_result[OF session.hyps(2)] show ?case by (auto simp: udp_inv_def)
next
  case (buffer b ss ms n ok b')
  with reserveUDPMemory_result[OF buffer.hyps(2)] show ?case by (auto simp: udp_inv_def)
next
  case (end_session b n ss ms)
  then have "0 < n" by (simp add: udp_inv_def)
  with end_session show ?case by (auto simp: udp_inv_def releaseUDP_def releaseUDPMemory_def Let_def)
next
  case (end_buffer b ss n ms)
  then have "0 < n" by (simp add: udp_inv_def)
  with end_buffer show ?case by (auto simp: udp_inv_def releaseUDPMemory_def)
next
  case (limits b ss ms l)
  then show ?case by (simp add: udp_inv_def setLimits_def)
qed

section \<open>Token buckets\<close>

text \<open>What the model needs of the rounding of floats: it is monotone, and exact on the integers up to \<open>2 ^ 53\<close>.\<close>

definition rounding :: "(rat \<Rightarrow> rat) \<Rightarrow> bool" where
  "rounding rnd \<longleftrightarrow> mono rnd \<and> (\<forall>k. \<bar>k\<bar> \<le> 2 ^ 53 \<longrightarrow> rnd (of_int k) = of_int k)"

definition limits_fine :: "udp_limits \<Rightarrow> bool" where
  "limits_fine l \<longleftrightarrow>
     0 \<le> ul_maxSessions l \<and> 1 \<le> ul_newSessionsRate l \<and> ul_newSessionsRate l \<le> 2 ^ 53
     \<and> 1 \<le> ul_packetRate l \<and> ul_packetRate l \<le> 2 ^ 53 \<and> 0 \<le> ul_maxTrackedSource l"

definition source_fine :: "udp_limits \<Rightarrow> source_state \<Rightarrow> bool" where
  "source_fine l s \<longleftrightarrow>
     0 \<le> u_activeSessions s \<and> u_activeSessions s \<le> ul_maxSessions l
     \<and> 0 \<le> u_newTokens s \<and> u_newTokens s \<le> of_int (ul_newSessionsRate l)
     \<and> 0 \<le> u_packetTokens s \<and> u_packetTokens s \<le> of_int (ul_packetRate l)"

lemma rounding_int: "rounding rnd \<Longrightarrow> \<bar>k\<bar> \<le> 2 ^ 53 \<Longrightarrow> rnd (of_int k) = of_int k"
  by (simp add: rounding_def)

lemma rounding_nonneg:
  assumes "rounding rnd" "0 \<le> x"
  shows "0 \<le> rnd x"
proof -
  have "rnd (of_int 0) \<le> rnd x" using assms unfolding rounding_def mono_def by simp
  then show ?thesis using rounding_int[OF assms(1), of 0] by simp
qed

lemma rounding_le:
  assumes "rounding rnd" "x \<le> of_int k" "\<bar>k\<bar> \<le> 2 ^ 53"
  shows "rnd x \<le> of_int k"
proof -
  have "rnd x \<le> rnd (of_int k)" using assms unfolding rounding_def mono_def by blast
  then show ?thesis using rounding_int[OF assms(1,3)] by simp
qed

lemma cap_tokens_fine:
  assumes "rounding rnd" "0 \<le> x" "1 \<le> k" "k \<le> 2 ^ 53"
  shows "0 \<le> cap_tokens rnd k x \<and> cap_tokens rnd k x \<le> of_int k"
  using assms rounding_int[OF assms(1), of k] by (auto simp: cap_tokens_def Let_def)

lemma duration_seconds_nonneg: "rounding rnd \<Longrightarrow> 0 < duration_seconds rnd d \<Longrightarrow> 0 \<le> duration_seconds rnd d"
  by simp

lemma refill_tokens_nonneg:
  assumes "rounding rnd" "0 < e" "0 \<le> t" "1 \<le> k" "k \<le> 2 ^ 53"
  shows "0 \<le> refill_tokens rnd e k t"
  using assms rounding_int[OF assms(1), of k] unfolding refill_tokens_def
  by (intro rounding_nonneg[OF assms(1)] add_nonneg_nonneg) simp_all

lemma refill_fine:
  assumes r: "rounding rnd" and l: "limits_fine l" and s: "source_fine l s"
  shows "source_fine l (refillUDPSourceTokens rnd s now l)"
  using l s refill_tokens_nonneg[OF r] cap_tokens_fine[OF r]
  unfolding refillUDPSourceTokens_def limits_fine_def source_fine_def Let_def by simp

text \<open>
  A packet is admitted only against a token; a state within its bounds stays so, and a new session only
  when it is below the bound on sessions.
\<close>

lemma admit_packet_fine:
  assumes r: "rounding rnd" and l: "limits_fine l" and s: "source_fine l s"
    and run: "admit_packet rnd newSession l s = (ok, s')"
  shows "source_fine l s'
    \<and> (ok \<longrightarrow> 1 \<le> u_packetTokens s \<and> u_packetTokens s' = rnd (u_packetTokens s - 1))
    \<and> (\<not> ok \<longrightarrow> s' = s)
    \<and> u_activeSessions s' = u_activeSessions s + of_bool (ok \<and> newSession)
    \<and> u_newTokens s' = (if ok \<and> newSession then rnd (u_newTokens s - 1) else u_newTokens s)
    \<and> (ok \<and> newSession \<longrightarrow> 1 \<le> u_newTokens s)"
proof -
  have p: "0 \<le> rnd (u_packetTokens s - 1) \<and> rnd (u_packetTokens s - 1) \<le> of_int (ul_packetRate l)"
    if "1 \<le> u_packetTokens s"
    using that l s by (auto simp: limits_fine_def source_fine_def intro!: rounding_nonneg[OF r] rounding_le[OF r])
  have n: "0 \<le> rnd (u_newTokens s - 1) \<and> rnd (u_newTokens s - 1) \<le> of_int (ul_newSessionsRate l)"
    if "1 \<le> u_newTokens s"
    using that l s by (auto simp: limits_fine_def source_fine_def intro!: rounding_nonneg[OF r] rounding_le[OF r])
  note run' = run[unfolded admit_packet_def Let_def]
  consider "ok = False" "s' = s"
    | "ok" "\<not> newSession" "1 \<le> u_packetTokens s" "s' = s\<lparr>u_packetTokens := rnd (u_packetTokens s - 1)\<rparr>"
    | "ok" "newSession" "1 \<le> u_packetTokens s" "1 \<le> u_newTokens s" "u_activeSessions s < ul_maxSessions l"
      "s' = s\<lparr>u_packetTokens := rnd (u_packetTokens s - 1), u_activeSessions := u_activeSessions s + 1,
              u_newTokens := rnd (u_newTokens s - 1)\<rparr>"
  proof (cases "u_packetTokens s < 1")
    case True
    with run' that(1) show ?thesis by simp
  next
    case p: False
    show ?thesis
    proof (cases newSession)
      case False
      with run' p have "ok" "s' = s\<lparr>u_packetTokens := rnd (u_packetTokens s - 1)\<rparr>" by auto
      with that(2) False p show ?thesis by simp
    next
      case True
      show ?thesis
      proof (cases "ul_maxSessions l \<le> u_activeSessions s \<or> u_newTokens s < 1")
        case blocked: True
        with run' p True that(1) show ?thesis by simp
      next
        case False
        then have "u_activeSessions s < ul_maxSessions l" "1 \<le> u_newTokens s" by simp_all
        moreover from False run' p True have "ok"
          "s' = s\<lparr>u_packetTokens := rnd (u_packetTokens s - 1), u_activeSessions := u_activeSessions s + 1,
              u_newTokens := rnd (u_newTokens s - 1)\<rparr>" by simp_all
        ultimately show ?thesis using that(3) p True by simp
      qed
    qed
  qed
  then show ?thesis using s p n by cases (auto simp: source_fine_def)
qed

lemma fresh_source_fine:
  assumes "rounding rnd" "limits_fine l"
  shows "source_fine l (fresh_source rnd now l)"
  using assms rounding_int[OF assms(1)] by (simp add: source_fine_def fresh_source_def limits_fine_def)

section \<open>The sources of a rule\<close>

definition tracked :: "rule_budget \<Rightarrow> (nat \<times> addr) set" where
  "tracked rb = {(k, a). rb_udpSources rb k a \<noteq> None}"

definition sources_fine :: "udp_limits \<Rightarrow> rule_budget \<Rightarrow> bool" where
  "sources_fine l rb \<longleftrightarrow>
     finite (tracked rb) \<and> rb_udpSourceCount rb = int (card (tracked rb))
     \<and> rb_udpSourceCount rb \<le> ul_maxTrackedSource l
     \<and> (\<forall>k a s. rb_udpSources rb k a = Some s \<longrightarrow> source_fine l s \<and> k = sourceShard a \<and> unmap a = a)"

lemma set_source_simps [simp]:
  "rb_udpSourceCount (set_source a s rb) = rb_udpSourceCount rb"
  "rb_udpSources (set_source a s rb) k b = (if k = sourceShard a \<and> b = a then Some s else rb_udpSources rb k b)"
  by (auto simp: set_source_def Let_def)

lemma tracked_set_source: "tracked (set_source a s rb) = insert (sourceShard a, a) (tracked rb)"
  by (auto simp: tracked_def)

lemma sources_fine_set:
  assumes "sources_fine l rb" and "rb_udpSources rb (sourceShard a) a \<noteq> None" and "source_fine l s" and "unmap a = a"
  shows "sources_fine l (set_source a s rb)"
proof -
  have "insert (sourceShard a, a) (tracked rb) = tracked rb" using assms(2) by (auto simp: tracked_def)
  with assms show ?thesis by (simp add: sources_fine_def tracked_set_source)
qed

lemma sources_fine_new:
  assumes f: "sources_fine l rb" and n: "rb_udpSources rb (sourceShard a) a = None" and s: "source_fine l s"
    and u: "unmap a = a" and r: "reserveAtomic (rb_udpSourceCount rb) (ul_maxTrackedSource l) = Some n"
  shows "sources_fine l (set_source a s (rb\<lparr>rb_udpSourceCount := n\<rparr>))"
proof -
  have "(sourceShard a, a) \<notin> tracked rb" using n by (simp add: tracked_def)
  moreover have "tracked (rb\<lparr>rb_udpSourceCount := n\<rparr>) = tracked rb" by (simp add: tracked_def)
  moreover have "n = rb_udpSourceCount rb + 1" "n \<le> ul_maxTrackedSource l"
    using r by (auto simp: reserveAtomic_def reserveAtomicN_def split: if_splits)
  ultimately show ?thesis using f s u by (simp add: sources_fine_def tracked_set_source)
qed

lemma source_fine_seen [simp]: "source_fine l (s\<lparr>u_lastSeen := t\<rparr>) = source_fine l s"
  by (simp add: source_fine_def)

lemma reserveUDPPacket_fine:
  assumes r: "rounding rnd" and l: "limits_fine l" and f: "sources_fine l rb"
    and run: "reserveUDPPacket rnd raw newSession now l rb = (ok, rb')"
  shows "sources_fine l rb'"
proof (cases "rb_udpSources rb (sourceShard (unmap raw)) (unmap raw)")
  case None
  show ?thesis
  proof (cases "reserveAtomic (rb_udpSourceCount rb) (ul_maxTrackedSource l)")
    case None2: None
    with run None f show ?thesis by (simp add: reserveUDPPacket_def Let_def)
  next
    case (Some n)
    obtain k s where a: "admit_packet rnd newSession l (fresh_source rnd now l) = (k, s)" by fastforce
    have "rb' = set_source (unmap raw) s (rb\<lparr>rb_udpSourceCount := n\<rparr>)"
      using run None Some a by (simp add: reserveUDPPacket_def Let_def)
    with sources_fine_new[OF f None _ _ Some] admit_packet_fine[OF r l fresh_source_fine[OF r l] a]
    show ?thesis by simp
  qed
next
  case (Some s0)
  let ?s = "(refillUDPSourceTokens rnd s0 now l)\<lparr>u_lastSeen := now\<rparr>"
  obtain k s where a: "admit_packet rnd newSession l ?s = (k, s)" by fastforce
  have "rb' = set_source (unmap raw) s rb" using run Some a by (simp add: reserveUDPPacket_def Let_def)
  moreover have "source_fine l s0" using f Some by (simp add: sources_fine_def)
  then have "source_fine l ?s" using refill_fine[OF r l] by simp
  from admit_packet_fine[OF r l this a] have "source_fine l s" by blast
  ultimately show ?thesis using sources_fine_set[OF f] Some by simp
qed

lemma releaseUDPSourceSession_fine:
  assumes "sources_fine l rb"
  shows "sources_fine l (releaseUDPSourceSession raw now rb)"
proof (cases "rb_udpSources rb (sourceShard (unmap raw)) (unmap raw)")
  case None
  with assms show ?thesis by (simp add: releaseUDPSourceSession_def Let_def)
next
  case (Some s)
  then have "source_fine l s" using assms by (simp add: sources_fine_def)
  then have "source_fine l (if 0 < u_activeSessions s then s\<lparr>u_activeSessions := u_activeSessions s - 1\<rparr> else s)"
    by (auto simp: source_fine_def)
  with Some sources_fine_set[OF assms] show ?thesis by (simp add: releaseUDPSourceSession_def Let_def)
qed

lemma rollbackUDPSourceSession_fine:
  assumes r: "rounding rnd" and l: "limits_fine l" and f: "sources_fine l rb"
  shows "sources_fine l (rollbackUDPSourceSession rnd raw (ul_newSessionsRate l) rb)"
proof (cases "rb_udpSources rb (sourceShard (unmap raw)) (unmap raw)")
  case None
  with f show ?thesis by (simp add: rollbackUDPSourceSession_def Let_def)
next
  case (Some s)
  let ?s = "if 0 < u_activeSessions s then s\<lparr>u_activeSessions := u_activeSessions s - 1\<rparr> else s"
  have "source_fine l s" using f Some by (simp add: sources_fine_def)
  then have s: "source_fine l ?s" by (auto simp: source_fine_def)
  then have "0 \<le> rnd (u_newTokens ?s + 1)" by (intro rounding_nonneg[OF r]) (simp add: source_fine_def)
  from cap_tokens_fine[OF r this] l s
  have "source_fine l (?s\<lparr>u_newTokens := cap_tokens rnd (ul_newSessionsRate l) (rnd (u_newTokens ?s + 1))\<rparr>)"
    by (simp add: source_fine_def limits_fine_def)
  with Some sources_fine_set[OF f] show ?thesis by (simp add: rollbackUDPSourceSession_def Let_def)
qed

section \<open>Cleanup\<close>

definition kept_source :: "int \<Rightarrow> (nat \<times> addr) set \<Rightarrow> rule_budget \<Rightarrow> nat \<Rightarrow> addr \<Rightarrow> source_state option" where
  "kept_source cutoff seen rb k a =
     (case rb_udpSources rb k a of
        None \<Rightarrow> None
      | Some s \<Rightarrow> if (k, a) \<in> seen \<and> idle_source cutoff s then None else Some s)"

lemma kept_source_empty [simp]: "kept_source cutoff {} rb = rb_udpSources rb"
  by (intro ext) (simp add: kept_source_def split: option.split)

lemma sweep_source_result:
  "rb_udpSources (sweep_source cutoff k a rb) = kept_source cutoff {(k, a)} rb"
  by (intro ext) (auto simp: sweep_source_def kept_source_def split: option.split)

lemma kept_source_trans:
  "rb_udpSources rb' = kept_source cutoff A rb \<Longrightarrow> kept_source cutoff B rb' = kept_source cutoff (A \<union> B) rb"
  by (intro ext) (auto simp: kept_source_def split: option.split)

lemma sweep_source_fine: "sources_fine l rb \<Longrightarrow> sources_fine l (sweep_source cutoff k a rb)"
proof (cases "rb_udpSources rb k a")
  case None
  then show "sources_fine l rb \<Longrightarrow> ?thesis" by (simp add: sweep_source_def)
next
  case (Some s)
  assume f: "sources_fine l rb"
  show ?thesis
  proof (cases "idle_source cutoff s")
    case False
    with Some f show ?thesis by (simp add: sweep_source_def)
  next
    case True
    let ?rb = "sweep_source cutoff k a rb"
    have t: "tracked ?rb = tracked rb - {(k, a)}"
      using Some True by (auto simp: sweep_source_def tracked_def split: if_splits)
    have "(k, a) \<in> tracked rb" using Some by (simp add: tracked_def)
    moreover have "finite (tracked rb)" using f by (simp add: sources_fine_def)
    ultimately have "0 < card (tracked rb)" "card (tracked ?rb) = card (tracked rb) - 1"
      using t card_gt_0_iff by (auto simp: card_Diff_singleton)
    moreover have "rb_udpSourceCount ?rb = rb_udpSourceCount rb - 1" using Some True by (simp add: sweep_source_def)
    moreover have "rb_udpSources rb j b = Some x" if "rb_udpSources ?rb j b = Some x" for j b x
      using that Some True by (auto simp: sweep_source_def split: if_splits)
    ultimately show ?thesis using f t unfolding sources_fine_def by (simp add: of_nat_diff) blast
  qed
qed

lemma sweep_sources_result:
  "rb_udpSources (fold (sweep_source cutoff k) as rb) = kept_source cutoff ({k} \<times> set as) rb
   \<and> (sources_fine l rb \<longrightarrow> sources_fine l (fold (sweep_source cutoff k) as rb))"
proof (induction as arbitrary: rb)
  case (Cons a as)
  have eq: "{(k, a)} \<union> {k} \<times> set as = {k} \<times> set (a # as)" by auto
  have "kept_source cutoff ({k} \<times> set as) (sweep_source cutoff k a rb) = kept_source cutoff ({k} \<times> set (a # as)) rb"
    using kept_source_trans[OF sweep_source_result, of cutoff "{k} \<times> set as" k a rb] by (simp add: eq)
  with Cons.IH[of "sweep_source cutoff k a rb"] sweep_source_fine show ?case by simp
qed simp

definition inspected :: "(nat \<Rightarrow> addr list) \<Rightarrow> nat list \<Rightarrow> (nat \<times> addr) set" where
  "inspected order shards = (SIGMA k:set shards. set (inspected_sources order k))"

lemma sweep_shards_result:
  "rb_udpSources (fold (sweep_shard order cutoff) shards rb) = kept_source cutoff (inspected order shards) rb
   \<and> (sources_fine l rb \<longrightarrow> sources_fine l (fold (sweep_shard order cutoff) shards rb))"
proof (induction shards arbitrary: rb)
  case (Cons k shards)
  let ?rb = "sweep_shard order cutoff k rb"
  have one: "rb_udpSources ?rb = kept_source cutoff ({k} \<times> set (inspected_sources order k)) rb"
    and fine: "sources_fine l rb \<longrightarrow> sources_fine l ?rb"
    using sweep_sources_result unfolding sweep_shard_def by blast+
  have "{k} \<times> set (inspected_sources order k) \<union> inspected order shards = inspected order (k # shards)"
    by (auto simp: inspected_def)
  with Cons.IH[of ?rb] kept_source_trans[OF one] fine show ?case by simp
qed (simp add: inspected_def)

lemma kept_source_same:
  "rb_udpSources rb = rb_udpSources rb' \<Longrightarrow> kept_source cutoff A rb = kept_source cutoff A rb'"
  by (intro ext) (simp add: kept_source_def)

lemma maintain_result:
  assumes "maintainUDPSources order now idle rb = (n, rb')" and "rb_nextCleanup rb \<le> now div second"
  shows "rb_udpSources rb' = kept_source (now - idle) (inspected order (sweep_shards (rb_cursor rb))) rb"
    and "n \<le> 1024" and "rb_nextCleanup rb' = now div second + 1" and "rb_cursor rb' = rb_cursor rb + 4"
    and "sources_fine l rb \<Longrightarrow> sources_fine l rb'"
proof -
  define rb1 where "rb1 = rb\<lparr>rb_nextCleanup := (now + second) div second, rb_cursor := rb_cursor rb + 4\<rparr>"
  define shards where "shards = sweep_shards (rb_cursor rb)"
  have n: "n = sum_list (map (\<lambda>k. length (inspected_sources order k)) shards)"
    and rb': "rb' = fold (sweep_shard order (now - idle)) shards rb1"
    using assms by (auto simp: maintainUDPSources_def Let_def rb1_def shards_def)
  note r = sweep_shards_result[of order "now - idle" shards rb1 l, folded rb']
  have same: "rb_udpSources rb1 = rb_udpSources rb" by (simp add: rb1_def)
  show "rb_udpSources rb' = kept_source (now - idle) (inspected order (sweep_shards (rb_cursor rb))) rb"
    using r kept_source_same[OF same] by (simp add: shards_def)
  have len: "length shards = 4" by (simp add: shards_def sweep_shards_def)
  have "length (inspected_sources order k) \<le> 256" for k by (simp add: inspected_sources_def)
  then have "n \<le> sum_list (map (\<lambda>k. 256) shards)" unfolding n by (intro sum_list_mono) simp
  then show "n \<le> 1024" by (simp add: sum_list_triv len)
  have keep: "rb_nextCleanup (fold (sweep_source c k) as x) = rb_nextCleanup x \<and>
      rb_cursor (fold (sweep_source c k) as x) = rb_cursor x" for c k as x
    by (induction as arbitrary: x) (auto simp: sweep_source_def split: option.split)
  have "rb_nextCleanup (fold (sweep_shard order c) ks x) = rb_nextCleanup x \<and>
      rb_cursor (fold (sweep_shard order c) ks x) = rb_cursor x" for c ks x
    by (induction ks arbitrary: x) (simp_all add: sweep_shard_def keep)
  then show "rb_nextCleanup rb' = now div second + 1" "rb_cursor rb' = rb_cursor rb + 4"
    unfolding rb' by (simp_all add: rb1_def)
  assume "sources_fine l rb"
  then have "sources_fine l rb1" by (simp add: sources_fine_def tracked_def rb1_def)
  with r show "sources_fine l rb'" by blast
qed

text \<open>Sixteen sweeps in a row look at every shard, also when the cursor wraps around.\<close>

lemma sweep_shards_wrap: "set (sweep_shards c) = (\<lambda>off. (unat c + off) mod 64) ` {0..<4}"
  by (auto simp: sweep_shards_def mod_simps)

lemma cursor_after: "unat (c + of_nat (4 * i) :: 32 word) mod 64 = (unat c + 4 * i) mod 64"
proof -
  have "unat (c + of_nat (4 * i) :: 32 word) = (unat c + 4 * i) mod 2 ^ 32"
    by (simp add: unat_word_ariths unat_of_nat mod_simps)
  then have "unat (c + of_nat (4 * i) :: 32 word) mod 64 = ((unat c + 4 * i) mod (64 * 2 ^ 26)) mod 64" by simp
  also have "\<dots> = (unat c + 4 * i) mod 64" by (rule mod_mult2_eq[THEN arg_cong[where f = "\<lambda>x. x mod 64"], THEN trans]) simp
  finally show ?thesis .
qed

lemma all_shards_swept:
  assumes "k < 64"
  shows "\<exists>i<16. k \<in> set (sweep_shards (c + of_nat (4 * i)))"
proof -
  define d where "d = (k + 64 - unat c mod 64) mod 64"
  define m where "m = unat c mod 64"
  have m: "m < 64" by (simp add: m_def)
  have d: "d < 64" by (simp add: d_def)
  have "(unat c + d) mod 64 = (unat c + (k + 64 - m)) mod 64"
    unfolding d_def m_def[symmetric] by (rule mod_add_right_eq)
  also have "\<dots> = (m + (k + 64 - m)) mod 64" unfolding m_def by (rule mod_add_left_eq[symmetric])
  also have "m + (k + 64 - m) = k + 64" using m by simp
  finally have dk: "(unat c + d) mod 64 = k" using assms by simp
  have split: "d = 4 * (d div 4) + d mod 4" by simp
  have "(unat (c + of_nat (4 * (d div 4)) :: 32 word) + d mod 4) mod 64
      = (unat (c + of_nat (4 * (d div 4)) :: 32 word) mod 64 + d mod 4) mod 64" by (simp add: mod_simps)
  also have "\<dots> = (unat c + 4 * (d div 4) + d mod 4) mod 64" unfolding cursor_after by (simp add: mod_simps)
  also have "\<dots> = k" using dk split by (metis add.assoc)
  finally have "k \<in> set (sweep_shards (c + of_nat (4 * (d div 4))))"
    unfolding sweep_shards_wrap by (intro image_eqI[of _ _ "d mod 4"]) simp_all
  moreover have "d div 4 < 16" using d by simp
  ultimately show ?thesis by blast
qed

end
