(* ===== verification/Budget_Burst.thy ===== *)
theory Budget_Burst
  imports Budget_Facts
begin

text \<open>
  The sources of a rule over any sequence of operations, and a burst of packets of one source at one
  instant: what the token buckets let through.
\<close>

inductive source_reach :: "(rat \<Rightarrow> rat) \<Rightarrow> udp_limits \<Rightarrow> rule_budget \<Rightarrow> bool" for rnd l where
  start: "source_reach rnd l fresh_budget"
| packet: "source_reach rnd l rb \<Longrightarrow> reserveUDPPacket rnd a newSession now l rb = (ok, rb') \<Longrightarrow> source_reach rnd l rb'"
| rollback: "source_reach rnd l rb \<Longrightarrow>
    source_reach rnd l (rollbackUDPSourceSession rnd a (ul_newSessionsRate l) rb)"
| release: "source_reach rnd l rb \<Longrightarrow> source_reach rnd l (releaseUDPSourceSession a now rb)"
| maintain: "source_reach rnd l rb \<Longrightarrow> maintainUDPSources order now idle rb = (n, rb') \<Longrightarrow> source_reach rnd l rb'"

lemma source_reach_fine:
  assumes "rounding rnd" and "limits_fine l"
  shows "source_reach rnd l rb \<Longrightarrow> sources_fine l rb"
proof (induction rule: source_reach.induct)
  case start
  with assms(2) show ?case by (simp add: sources_fine_def fresh_budget_def tracked_def limits_fine_def)
next
  case (packet rb a newSession now ok rb')
  with reserveUDPPacket_fine[OF assms] show ?case by blast
next
  case (rollback rb a)
  with rollbackUDPSourceSession_fine[OF assms] show ?case by blast
next
  case (release rb a now)
  with releaseUDPSourceSession_fine show ?case by blast
next
  case (maintain rb order now idle n rb')
  show ?case
  proof (cases "rb_nextCleanup rb \<le> now div second")
    case True
    from maintain_result(5)[OF maintain.hyps(2) True] maintain.IH show ?thesis by blast
  next
    case False
    with maintain show ?thesis by (auto simp: maintainUDPSources_def split: if_splits)
  qed
qed

section \<open>Bursts\<close>

text \<open>The answers to packets of one source at one instant, each with the flag of a new session.\<close>

fun burst :: "(rat \<Rightarrow> rat) \<Rightarrow> addr \<Rightarrow> int \<Rightarrow> udp_limits \<Rightarrow> bool list \<Rightarrow> rule_budget \<Rightarrow> (bool \<times> bool) list" where
  "burst rnd a now l [] rb = []"
| "burst rnd a now l (new # flags) rb =
     (let (ok, rb') = reserveUDPPacket rnd a new now l rb in (ok, new) # burst rnd a now l flags rb')"

definition admitted :: "(bool \<times> bool) list \<Rightarrow> int" where
  "admitted answers = int (length (filter fst answers))"

definition admitted_sessions :: "(bool \<times> bool) list \<Rightarrow> int" where
  "admitted_sessions answers = int (length (filter (\<lambda>(ok, new). ok \<and> new) answers))"

lemma admitted_simps [simp]:
  "admitted [] = 0" "admitted ((ok, new) # as) = of_bool ok + admitted as"
  "admitted_sessions [] = 0" "admitted_sessions ((ok, new) # as) = of_bool (ok \<and> new) + admitted_sessions as"
  by (simp_all add: admitted_def admitted_sessions_def)

text \<open>A state that this instant does not refill any more, with at most \<open>p\<close> packets and \<open>n\<close> sessions left.\<close>

definition spent :: "(rat \<Rightarrow> rat) \<Rightarrow> udp_limits \<Rightarrow> int \<Rightarrow> int \<Rightarrow> int \<Rightarrow> source_state \<Rightarrow> bool" where
  "spent rnd l now p n s \<longleftrightarrow>
     \<not> 0 < duration_seconds rnd (duration_between now (u_lastRefill s)) \<and> source_fine l s
     \<and> u_packetTokens s \<le> of_int p \<and> u_newTokens s \<le> of_int n
     \<and> n \<le> ul_newSessionsRate l
     \<and> 0 \<le> p \<and> p \<le> ul_packetRate l \<and> 0 \<le> n"

lemma zero_duration: "rounding rnd \<Longrightarrow> duration_seconds rnd (duration_between now now) = 0"
  using rounding_int[of rnd 0] by (simp add: duration_seconds_def duration_between_def Let_def)

lemma cap_tokens_le: "cap_tokens rnd k x \<le> x"
  by (auto simp: cap_tokens_def Let_def)

lemma refill_spent:
  assumes r: "rounding rnd" and l: "limits_fine l" and s: "spent rnd l now p n s"
  shows "spent rnd l now p n ((refillUDPSourceTokens rnd s now l)\<lparr>u_lastSeen := now\<rparr>)"
proof -
  have no: "\<not> 0 < duration_seconds rnd (duration_between now (u_lastRefill s))" using s by (simp add: spent_def)
  have f: "source_fine l s" using s by (simp add: spent_def)
  let ?s = "refillUDPSourceTokens rnd s now l"
  have eq: "u_lastRefill ?s = u_lastRefill s" "u_newTokens ?s \<le> u_newTokens s" "u_packetTokens ?s \<le> u_packetTokens s"
    "u_activeSessions ?s = u_activeSessions s"
    using no cap_tokens_le by (simp_all add: refillUDPSourceTokens_def Let_def)
  have "source_fine l ?s" by (rule refill_fine[OF r l f])
  with s eq show ?thesis by (auto simp: spent_def)
qed

lemma refill_first:
  assumes r: "rounding rnd" and l: "limits_fine l" and f: "source_fine l s"
  shows "spent rnd l now (ul_packetRate l) (ul_newSessionsRate l) ((refillUDPSourceTokens rnd s now l)\<lparr>u_lastSeen := now\<rparr>)"
proof -
  let ?s = "refillUDPSourceTokens rnd s now l"
  have fine: "source_fine l ?s" by (rule refill_fine[OF r l f])
  have "\<not> 0 < duration_seconds rnd (duration_between now (u_lastRefill ?s))"
  proof (cases "0 < duration_seconds rnd (duration_between now (u_lastRefill s))")
    case True
    then have "u_lastRefill ?s = now" by (simp add: refillUDPSourceTokens_def Let_def)
    then show ?thesis using zero_duration[OF r] by simp
  next
    case False
    then show ?thesis by (simp add: refillUDPSourceTokens_def Let_def)
  qed
  with fine l show ?thesis by (auto simp: spent_def source_fine_def limits_fine_def)
qed

lemma fresh_spent:
  assumes r: "rounding rnd" and l: "limits_fine l"
  shows "spent rnd l now (ul_packetRate l) (ul_newSessionsRate l) (fresh_source rnd now l)"
proof -
  have "source_fine l (fresh_source rnd now l)" by (rule fresh_source_fine[OF r l])
  moreover have "u_lastRefill (fresh_source rnd now l) = now" by (simp add: fresh_source_def)
  ultimately show ?thesis using zero_duration[OF r] l by (simp add: spent_def source_fine_def limits_fine_def)
qed

lemma admit_spent:
  assumes r: "rounding rnd" and l: "limits_fine l" and s: "spent rnd l now p n s"
    and run: "admit_packet rnd new l s = (ok, s')"
  shows "spent rnd l now (p - of_bool ok) (n - of_bool (ok \<and> new)) s'"
proof -
  have f: "source_fine l s" using s by (simp add: spent_def)
  note a = admit_packet_fine[OF r l f run]
  have same: "u_lastRefill s' = u_lastRefill s"
    using run by (auto simp: admit_packet_def Let_def split: if_splits)
  have p: "p \<le> 2 ^ 53" "0 \<le> p" and n: "n \<le> 2 ^ 53" "0 \<le> n"
    using s l by (auto simp: spent_def limits_fine_def)
  have pk: "1 \<le> p \<and> u_packetTokens s' \<le> of_int (p - 1)" if ok
  proof -
    have one: "1 \<le> u_packetTokens s" and eq: "u_packetTokens s' = rnd (u_packetTokens s - 1)" using a that by simp_all
    have le: "u_packetTokens s \<le> of_int p" using s by (simp add: spent_def)
    from one le have "(1::rat) \<le> of_int p" by linarith
    then have "1 \<le> p" by simp
    moreover have "rnd (u_packetTokens s - 1) \<le> of_int (p - 1)"
      using le p calculation by (intro rounding_le[OF r]) auto
    ultimately show ?thesis by (simp add: eq)
  qed
  have nk: "1 \<le> n \<and> u_newTokens s' \<le> of_int (n - 1)" if "ok \<and> new"
  proof -
    have one: "1 \<le> u_newTokens s" and eq: "u_newTokens s' = rnd (u_newTokens s - 1)" using a that by simp_all
    have le: "u_newTokens s \<le> of_int n" using s by (simp add: spent_def)
    from one le have "(1::rat) \<le> of_int n" by linarith
    then have "1 \<le> n" by simp
    moreover have "rnd (u_newTokens s - 1) \<le> of_int (n - 1)"
      using le n calculation by (intro rounding_le[OF r]) auto
    ultimately show ?thesis by (simp add: eq)
  qed
  show ?thesis
  proof (cases ok)
    case False
    with a s show ?thesis by simp
  next
    case True
    have "u_newTokens s' \<le> of_int (n - of_bool (ok \<and> new))"
    proof (cases new)
      case True
      with \<open>ok\<close> nk show ?thesis by simp
    next
      case False
      with a s show ?thesis by (simp add: spent_def)
    qed
    moreover have "0 \<le> n - of_bool (ok \<and> new)" using nk n by (auto simp: of_bool_def)
    moreover have "source_fine l s'" using a by blast
    ultimately show ?thesis using True s pk same by (auto simp: spent_def of_bool_def split: if_splits)
  qed
qed

lemma burst_spent:
  assumes r: "rounding rnd" and l: "limits_fine l"
  shows "rb_udpSources rb (sourceShard (unmap a)) (unmap a) = Some s \<Longrightarrow> spent rnd l now p n s \<Longrightarrow>
    admitted (burst rnd a now l flags rb) \<le> p \<and> admitted_sessions (burst rnd a now l flags rb) \<le> n"
proof (induction flags arbitrary: rb s p n)
  case Nil
  then show ?case by (simp add: spent_def)
next
  case (Cons new flags)
  let ?s = "(refillUDPSourceTokens rnd s now l)\<lparr>u_lastSeen := now\<rparr>"
  obtain ok s' where ad: "admit_packet rnd new l ?s = (ok, s')" by fastforce
  have run: "reserveUDPPacket rnd a new now l rb = (ok, set_source (unmap a) s' rb)"
    using Cons.prems(1) ad by (simp add: reserveUDPPacket_def Let_def)
  have "spent rnd l now (p - of_bool ok) (n - of_bool (ok \<and> new)) s'"
    by (rule admit_spent[OF r l refill_spent[OF r l Cons.prems(2)] ad])
  from Cons.IH[OF _ this, of "set_source (unmap a) s' rb"] run show ?case by simp
qed

lemma burst_bounded:
  assumes r: "rounding rnd" and l: "limits_fine l" and f: "sources_fine l rb"
  shows "admitted (burst rnd a now l flags rb) \<le> ul_packetRate l
    \<and> admitted_sessions (burst rnd a now l flags rb) \<le> ul_newSessionsRate l"
proof (induction flags)
  case Nil
  with l show ?case by (simp add: limits_fine_def)
next
  case (Cons new flags)
  show ?case
  proof (cases "rb_udpSources rb (sourceShard (unmap a)) (unmap a)")
    case (Some s)
    then have sf: "source_fine l s" using f by (simp add: sources_fine_def)
    let ?s = "(refillUDPSourceTokens rnd s now l)\<lparr>u_lastSeen := now\<rparr>"
    obtain ok s' where ad: "admit_packet rnd new l ?s = (ok, s')" by fastforce
    have run: "reserveUDPPacket rnd a new now l rb = (ok, set_source (unmap a) s' rb)"
      using Some ad by (simp add: reserveUDPPacket_def Let_def)
    note sp = admit_spent[OF r l refill_first[OF r l sf] ad]
    from burst_spent[OF r l _ sp, of "set_source (unmap a) s' rb" a flags] run show ?thesis by simp
  next
    case None
    show ?thesis
    proof (cases "reserveAtomic (rb_udpSourceCount rb) (ul_maxTrackedSource l)")
      case none: None
      have "reserveUDPPacket rnd a new now l rb = (False, rb)" using None none by (simp add: reserveUDPPacket_def Let_def)
      with Cons.IH show ?thesis by simp
    next
      case (Some c)
      obtain ok s' where ad: "admit_packet rnd new l (fresh_source rnd now l) = (ok, s')" by fastforce
      have run: "reserveUDPPacket rnd a new now l rb = (ok, set_source (unmap a) s' (rb\<lparr>rb_udpSourceCount := c\<rparr>))"
        using None Some ad by (simp add: reserveUDPPacket_def Let_def)
      note sp = admit_spent[OF r l fresh_spent[OF r l] ad]
      from burst_spent[OF r l _ sp, of "set_source (unmap a) s' (rb\<lparr>rb_udpSourceCount := c\<rparr>)" a flags] run
      show ?thesis by simp
    qed
  qed
qed

end
