(* ===== verification/Props_Budget.thy ===== *)
theory Props_Budget
  imports Budget_Threads Budget_Burst
begin

text \<open>The properties of the resource budgets.\<close>

section \<open>TCP connections\<close>

text \<open>C5.
  However the atomic actions of concurrent admissions, releases, new connections and limit changes
  interleave: the global counter, the counter of every rule and the counter of every source are exactly the
  connections that hold a slot, and they never exceed the largest global limit set, the limit of the rule and
  the limit per source.\<close>

theorem tcp_limits_hold:
  assumes "traffic_reach M rm sm t"
  shows "b_activeTCP (t_budget t) = global_count t \<and> global_count t \<le> max 0 M
    \<and> (\<forall>r. rb_activeTCP (t_rules t r) = rule_count r t \<and> rule_count r t \<le> max 0 (rm r))
    \<and> (\<forall>r a. shard_count (t_rules t r) a = source_count r a t \<and> source_count r a t \<le> max 0 (sm r))"
  using traffic_reach_inv[OF assms] by (simp add: traffic_inv_def)

definition sample_conn :: conn where
  "sample_conn = \<lparr>cn_rule = ''a'', cn_source = IP4 0xC0000201, cn_ruleMax = 2, cn_sourceMax = 1, cn_pc = Idle\<rparr>"

definition sample_traffic :: traffic where
  "sample_traffic =
     fold traffic_conn [0, 1, 0, 1, 1, 0]
       \<lparr>t_budget = newResourceBudget \<lparr>l_MaxTCPConnections = 2, l_MaxUDPSessions = 2, l_MaxUDPMemoryBytes = 1024\<rparr>,
        t_rules = (\<lambda>_. fresh_budget), t_conns = [sample_conn, sample_conn]\<rparr>"

lemma sample_traffic_reach: "traffic_reach 2 (\<lambda>_. 2) (\<lambda>_. 1) sample_traffic"
proof -
  let ?l = "\<lparr>l_MaxTCPConnections = 2, l_MaxUDPSessions = 2, l_MaxUDPMemoryBytes = 1024\<rparr>"
  have "traffic_reach 2 (\<lambda>_. 2) (\<lambda>_. 1) \<lparr>t_budget = newResourceBudget ?l, t_rules = (\<lambda>_. fresh_budget), t_conns = []\<rparr>"
    by (rule traffic_reach.start) simp
  from traffic_reach.accept[OF traffic_reach.accept[OF this, of sample_conn], of sample_conn]
  have s: "traffic_reach 2 (\<lambda>_. 2) (\<lambda>_. 1)
      \<lparr>t_budget = newResourceBudget ?l, t_rules = (\<lambda>_. fresh_budget), t_conns = [sample_conn, sample_conn]\<rparr>"
    by (simp add: sample_conn_def)
  have len: "length (t_conns (traffic_conn i t)) = length (t_conns t)" for i t
    by (simp add: traffic_conn_def Let_def split: prod.split)
  have "traffic_reach 2 (\<lambda>_. 2) (\<lambda>_. 1) t \<Longrightarrow> \<forall>i\<in>set is. i < length (t_conns t) \<Longrightarrow>
      traffic_reach 2 (\<lambda>_. 2) (\<lambda>_. 1) (fold traffic_conn is t)" for "is" t
    by (induction "is" arbitrary: t) (simp_all add: len traffic_reach.conn)
  from this[OF s, of "[0, 1, 0, 1, 1, 0]"] show ?thesis by (simp add: sample_traffic_def)
qed

theorem tcp_limits_hold_witness:
  "b_activeTCP (t_budget sample_traffic) = global_count sample_traffic \<and> global_count sample_traffic = 2
   \<and> source_count ''a'' (IP4 0xC0000201) sample_traffic \<le> 1
   \<and> map cn_pc (t_conns sample_traffic) = [FailedSource, Holding]"
proof -
  have "global_count sample_traffic = 2" by code_simp
  moreover have "map cn_pc (t_conns sample_traffic) = [FailedSource, Holding]" by code_simp
  ultimately show ?thesis using tcp_limits_hold[OF sample_traffic_reach] by simp
qed

text \<open>The atomic steps of one connection, run without interference, are exactly \<^verbatim>\<open>reserveTCP\<close> and
  \<^verbatim>\<open>releaseTCP\<close>; and a refused reservation takes back everything it took.\<close>

theorem tcp_steps_refine:
  "(settle_step ^^ 5) (c\<lparr>cn_pc := Idle\<rparr>, b, rb) =
     (case reserveTCP b rb (cn_source c) (cn_ruleMax c) (cn_sourceMax c) of
        (ok, b', rb') \<Rightarrow> (c\<lparr>cn_pc := if ok then Holding else Refused\<rparr>, b', rb'))
   \<and> (conn_step ^^ 3) (c\<lparr>cn_pc := Holding\<rparr>, b, rb) =
     (case releaseTCP b rb (cn_source c) of (b', rb') \<Rightarrow> (c\<lparr>cn_pc := Closed\<rparr>, b', rb'))
   \<and> fst (reserveTCP b rb s rmax smax) = (snd (reserveTCP b rb s rmax smax) \<noteq> (b, rb))"
  using reserveTCP_steps[of "c\<lparr>cn_pc := Idle\<rparr>" b rb] releaseTCP_steps[of "c\<lparr>cn_pc := Holding\<rparr>" b rb]
    reserveTCP_refused[of b rb s rmax smax] by simp

section \<open>UDP sessions and memory\<close>

text \<open>Over any sequence of session and buffer reservations, releases and limit changes the session counter is the
  number of sessions held, the memory counter the sum of what sessions and listener buffers hold, and
  neither exceeds the largest limit set.\<close>

theorem udp_limits_hold:
  assumes "udp_reach S M b ss ms"
  shows "b_activeUDP b = int (size ss) \<and> b_udpMemory b = \<Sum>\<^sub># ss + \<Sum>\<^sub># ms
    \<and> b_activeUDP b \<le> max 0 S \<and> b_udpMemory b \<le> max 0 M"
  using udp_reach_inv[OF assms] by (simp add: udp_inv_def)

definition udp_sample :: resource_budget where
  "udp_sample = snd (reserveUDP 600 (snd (reserveUDPMemory 300
     (newResourceBudget \<lparr>l_MaxTCPConnections = 2, l_MaxUDPSessions = 2, l_MaxUDPMemoryBytes = 1024\<rparr>))))"

theorem udp_limits_hold_witness:
  "b_activeUDP udp_sample = 1 \<and> b_udpMemory udp_sample = 900 \<and> reserveUDP 200 udp_sample = (False, udp_sample)"
proof -
  let ?l = "\<lparr>l_MaxTCPConnections = 2, l_MaxUDPSessions = 2, l_MaxUDPMemoryBytes = 1024\<rparr>"
  have "udp_reach 2 1024 (newResourceBudget ?l) {#} {#}" by (rule udp_reach.start) simp_all
  then have "udp_reach 2 1024 (snd (reserveUDPMemory 300 (newResourceBudget ?l))) {#} {#300#}"
    by (drule_tac n = 300 and ok = True and b' = "snd (reserveUDPMemory 300 (newResourceBudget ?l))" in udp_reach.buffer)
      (simp_all add: reserveUDPMemory_def reserveAtomicN_def newResourceBudget_def setLimits_def)
  then have "udp_reach 2 1024 udp_sample {#600#} {#300#}"
    by (drule_tac n = 600 and ok = True and b' = udp_sample in udp_reach.session)
      (simp_all add: udp_sample_def reserveUDP_def reserveAtomic_def reserveUDPMemory_def reserveAtomicN_def
        newResourceBudget_def setLimits_def)
  from udp_limits_hold[OF this] show ?thesis
    by (simp add: udp_sample_def reserveUDP_def reserveAtomic_def reserveUDPMemory_def reserveAtomicN_def
        newResourceBudget_def setLimits_def)
qed

section \<open>UDP sources\<close>

text \<open>C36.
  The table of UDP sources: as long as rounding is monotone and exact on the integers up to \<open>2 ^ 53\<close>, its
  counter is its size and within the bound, every source lies in its own shard, has a number of sessions within
  its limit and token buckets between zero and the rate; and a burst of packets of one source at one instant
  gets through at most one bucket of packets and of new sessions.\<close>

theorem udp_sources_bounded:
  assumes "source_reach rnd l rb" and "rounding rnd" and "limits_fine l"
  shows "sources_fine l rb
    \<and> admitted (burst rnd a now l flags rb) \<le> ul_packetRate l
    \<and> admitted_sessions (burst rnd a now l flags rb) \<le> ul_newSessionsRate l"
  using source_reach_fine[OF assms(2,3,1)] burst_bounded[OF assms(2,3)] by blast

definition sample_udp_limits :: udp_limits where
  "sample_udp_limits =
     \<lparr>ul_maxSessions = 2, ul_newSessionsRate = 3, ul_packetRate = 4, ul_maxTrackedSource = 8\<rparr>"

theorem udp_sources_bounded_witness:
  "sources_fine sample_udp_limits fresh_budget
   \<and> admitted (burst id (IP4 0xC0000201) 0 sample_udp_limits [True, False, True, True, False, True] fresh_budget) \<le> 4
   \<and> burst id (IP4 0xC0000201) 0 sample_udp_limits [True, False, True, True, False, True] fresh_budget
       = [(True, True), (True, False), (True, True), (False, True), (True, False), (False, True)]"
proof -
  have r: "rounding id" by (simp add: rounding_def mono_def)
  have l: "limits_fine sample_udp_limits" by (simp add: limits_fine_def sample_udp_limits_def)
  have "burst id (IP4 0xC0000201) 0 sample_udp_limits [True, False, True, True, False, True] fresh_budget
      = [(True, True), (True, False), (True, True), (False, True), (True, False), (False, True)]"
    by code_simp
  with udp_sources_bounded[OF source_reach.start r l] show ?thesis by (simp add: sample_udp_limits_def)
qed

text \<open>A due sweep removes exactly the idle sources among the entries it inspects, at most 256 in each of four
  shards, and leaves the others as they were; sixteen sweeps in a row visit every shard, also when the 32-bit
  cursor wraps around, so an idle source of a shard that fits one inspection is visited.\<close>

theorem udp_cleanup_exact:
  assumes "maintainUDPSources order now idle rb = (n, rb')" and "rb_nextCleanup rb \<le> now div second"
  shows "rb_udpSources rb' k a =
      (case rb_udpSources rb k a of
         None \<Rightarrow> None
       | Some s \<Rightarrow> if k \<in> set (sweep_shards (rb_cursor rb)) \<and> a \<in> set (take 256 (order k)) \<and> idle_source (now - idle) s
                   then None else Some s)
    \<and> n \<le> 1024
    \<and> rb_cursor rb' = rb_cursor rb + 4
    \<and> {k. \<exists>i<16. k \<in> set (sweep_shards (c + of_nat (4 * i)))} = {..<64}"
proof -
  have "{k. \<exists>i<16. k \<in> set (sweep_shards (c + of_nat (4 * i)))} = {..<64}"
    using all_shards_swept by (auto simp: sweep_shards_wrap)
  then show ?thesis using maintain_result[OF assms]
    by (simp add: kept_source_def inspected_def inspected_sources_def split: option.split)
qed

definition idle_budget :: rule_budget where
  "idle_budget = snd (reserveUDPPacket id (IP4 0xC0000201) False 0 sample_udp_limits fresh_budget)\<lparr>rb_cursor := 0xFFFFFFFC\<rparr>"

theorem udp_cleanup_exact_witness:
  "fst (maintainUDPSources (\<lambda>k. if k = 63 then [IP4 0xC000023D] else []) (10 ^ 11) (10 ^ 10) idle_budget) \<le> 1024
   \<and> rb_cursor (snd (maintainUDPSources (\<lambda>k. if k = 63 then [IP4 0xC000023D] else []) (10 ^ 11) (10 ^ 10) idle_budget)) = 0"
proof -
  let ?m = "maintainUDPSources (\<lambda>k. if k = 63 then [IP4 0xC000023D] else []) (10 ^ 11) (10 ^ 10) idle_budget"
  have c: "rb_nextCleanup idle_budget \<le> 10 ^ 11 div second" "rb_cursor idle_budget = 0xFFFFFFFC" by code_simp+
  from udp_cleanup_exact[of _ "10 ^ 11" "10 ^ 10" idle_budget "fst ?m" "snd ?m"] c show ?thesis by simp
qed

end
