(* ===== verification/Json.thy ===== *)
theory Json
  imports Go_Strings
begin

text \<open>
  JSON as \<^verbatim>\<open>encoding/json\<close> decodes it into \<^verbatim>\<open>any\<close> with \<^verbatim>\<open>UseNumber\<close>: a number keeps its text, an object is its
  fields, and a Go map lookup of a missing field yields nil.  The encoder writes the fields of an object in the
  order of their names.  Decoded strings are valid UTF-8, so the encoder escapes only what is written below.
\<close>

datatype json = JNull | JBool bool | JNum string | JStr string | JArr "json list" | JObj "(string \<times> json) list"

section \<open>Access\<close>

definition jfield :: "string \<Rightarrow> json \<Rightarrow> json option" where
  "jfield k v = (case v of JObj kvs \<Rightarrow> map_of kvs k | _ \<Rightarrow> None)"

text \<open>A lookup without the presence flag, and the type assertions.\<close>

definition jval :: "string \<Rightarrow> json \<Rightarrow> json" where
  "jval k v = (case jfield k v of None \<Rightarrow> JNull | Some x \<Rightarrow> x)"

definition jobject :: "string \<Rightarrow> json \<Rightarrow> json option" where
  "jobject k v = (case jfield k v of Some (JObj kvs) \<Rightarrow> Some (JObj kvs) | _ \<Rightarrow> None)"

definition jarray :: "string \<Rightarrow> json \<Rightarrow> json list option" where
  "jarray k v = (case jfield k v of Some (JArr xs) \<Rightarrow> Some xs | _ \<Rightarrow> None)"

definition text_of :: "json \<Rightarrow> string" where
  "text_of v = (case v of JStr s \<Rightarrow> s | _ \<Rightarrow> [])"

definition is_object :: "json \<Rightarrow> bool" where
  "is_object v \<longleftrightarrow> (case v of JObj _ \<Rightarrow> True | _ \<Rightarrow> False)"

text \<open>
  \<^verbatim>\<open>strconv.ParseUint(fmt.Sprint(value), 10, bits)\<close>: what is neither a number nor a string prints as no number.
\<close>

definition nftJSONUint :: "json \<Rightarrow> nat \<Rightarrow> nat option" where
  "nftJSONUint v bits = (case v of JNum t \<Rightarrow> parse_uint10 t bits | JStr t \<Rightarrow> parse_uint10 t bits | _ \<Rightarrow> None)"

abbreviation jint :: "int \<Rightarrow> json" where "jint n \<equiv> JNum (itoa n)"

section \<open>Encoding\<close>

definition escape_char :: "char \<Rightarrow> string" where
  "escape_char c =
     (let n = of_char c :: nat in
      if c = CHR 0x22 then [CHR 0x5C, CHR 0x22] else if c = CHR 0x5C then [CHR 0x5C, CHR 0x5C]
      else if n = 8 then [CHR 0x5C, CHR ''b''] else if n = 12 then [CHR 0x5C, CHR ''f'']
      else if n = 10 then [CHR 0x5C, CHR ''n''] else if n = 13 then [CHR 0x5C, CHR ''r'']
      else if n = 9 then [CHR 0x5C, CHR ''t'']
      else if n < 32 \<or> c = CHR ''<'' \<or> c = CHR ''>'' \<or> c = CHR ''&''
      then [CHR 0x5C, CHR ''u'', CHR ''0'', CHR ''0'', hex_char (n div 16), hex_char (n mod 16)]
      else [c])"

text \<open>The line and paragraph separators, U+2028 and U+2029, are escaped as well.\<close>

fun escape :: "string \<Rightarrow> string" where
  "escape (a # b # c # s) =
     (if a = CHR 0xE2 \<and> b = CHR 0x80 \<and> (c = CHR 0xA8 \<or> c = CHR 0xA9)
      then CHR 0x5C # ''u202'' @ (if c = CHR 0xA8 then CHR ''8'' else CHR ''9'') # escape s
      else escape_char a @ escape (b # c # s))"
| "escape [a, b] = escape_char a @ escape_char b"
| "escape [a] = escape_char a"
| "escape [] = []"

definition quote :: "string \<Rightarrow> string" where
  "quote s = CHR 0x22 # escape s @ [CHR 0x22]"

fun marshal :: "json \<Rightarrow> string" where
  "marshal JNull = ''null''"
| "marshal (JBool b) = (if b then ''true'' else ''false'')"
| "marshal (JNum t) = t"
| "marshal (JStr s) = quote s"
| "marshal (JArr xs) = CHR ''['' # join '','' (map marshal xs) @ '']''"
| "marshal (JObj kvs) =
     CHR ''{'' # join '','' (map (\<lambda>(k, t). quote k @ CHR '':'' # t) (sort_key fst (map (\<lambda>(k, v). (k, marshal v)) kvs))) @ ''}''"

section \<open>Normalisation\<close>

text \<open>
  \<^verbatim>\<open>normalizeNFTValue\<close>: handles, positions and the values of counters are dropped, and the arrays that stand for
  sets are sorted by their text.
\<close>

definition kept_field :: "string \<Rightarrow> string \<Rightarrow> bool" where
  "kept_field field key \<longleftrightarrow>
     \<not> (key = ''handle'' \<or> key = ''index'' \<or> field = ''counter'' \<and> (key = ''packets'' \<or> key = ''bytes''))"

fun normalizeNFTValue :: "json \<Rightarrow> string \<Rightarrow> json" where
  "normalizeNFTValue (JObj kvs) field =
     JObj (map (\<lambda>(k, v). (k, normalizeNFTValue v k)) (filter (\<lambda>(k, v). kept_field field k) kvs))"
| "normalizeNFTValue (JArr xs) field =
     (let result = map (\<lambda>x. normalizeNFTValue x []) xs in
      JArr (if field \<in> {''dev'', ''flags'', ''set'', ''right''} then sort_key marshal result else result))"
| "normalizeNFTValue v field = v"

definition nftRuleInspectionKey :: "json \<Rightarrow> string" where
  "nftRuleInspectionKey rule =
     marshal (normalizeNFTValue (JObj (map (\<lambda>k. (k, jval k rule)) [''family'', ''table'', ''chain'', ''comment'', ''expr''])) [])"

section \<open>Facts\<close>

lemma jfield_obj [simp]: "jfield k (JObj kvs) = map_of kvs k"
  by (simp add: jfield_def)

lemma jval_obj [simp]: "jval k (JObj kvs) = (case map_of kvs k of None \<Rightarrow> JNull | Some x \<Rightarrow> x)"
  by (simp add: jval_def)

lemma nftJSONUint_num:
  "0 \<le> n \<Longrightarrow> n < 2 ^ bits \<Longrightarrow> nftJSONUint (jint n) bits = Some (nat n)"
  using parse_uint10_nat_dec[of "nat n" bits] by (simp add: nftJSONUint_def itoa_nonneg nat_less_iff)

lemma inspection_key_fields:
  "(\<And>k. k \<in> {''family'', ''table'', ''chain'', ''comment'', ''expr''} \<Longrightarrow> jval k a = jval k b) \<Longrightarrow>
   nftRuleInspectionKey a = nftRuleInspectionKey b"
  by (simp add: nftRuleInspectionKey_def)

end
