(* ===== verification/Nft_Rules.thy ===== *)
theory Nft_Rules
  imports Nft_Spec Json
begin

text \<open>
  The rules of the managed table as structured values: what the installed rules and the journal records of a
  spec must be (\<^verbatim>\<open>nft_inspect_rules.go\<close>, \<^verbatim>\<open>nft_journal.go\<close>), and their reading after a restart
  (\<^verbatim>\<open>decodeNFTJournal\<close>, \<^verbatim>\<open>recoverLegacyNFTSpecs\<close>).
\<close>

abbreviation nftTableName :: string where "nftTableName \<equiv> ''portbridge''"
abbreviation nftFlowtableName :: string where "nftFlowtableName \<equiv> ''fastpath''"
abbreviation nftStateChainName :: string where "nftStateChainName \<equiv> ''pb_state''"
abbreviation nftOwnerPrefix :: string where "nftOwnerPrefix \<equiv> ''Go-nftables-portbridge:managed:v1''"
abbreviation nftForwardPriority :: int where "nftForwardPriority \<equiv> 2147483647"
abbreviation maxNFTRetiredSpecs :: nat where "maxNFTRetiredSpecs \<equiv> 16384"

definition nftOwnerMarker :: "32 word \<Rightarrow> string" where
  "nftOwnerMarker mark = nftOwnerPrefix @ CHR '':'' # hex8 mark"

section \<open>Texts\<close>

definition portText :: "int \<Rightarrow> int \<Rightarrow> string" where
  "portText start stop =
     (if stop = 0 \<or> stop = start then itoa start else itoa start @ CHR ''-'' # itoa stop)"

definition nftComment :: "nft_spec \<Rightarrow> string \<Rightarrow> string" where
  "nftComment s hook =
     join '':'' [''pb'', take 12 (sha256_hex (RuleID s)), itoa (Family s), Protocol s, hook]"

definition nftJournalRoleComment :: "nft_spec \<Rightarrow> string \<Rightarrow> string" where
  "nftJournalRoleComment s role =
     join '':'' [''pb-state'', ''v1'', nftRuleIdentity s, itoa (Family s), Protocol s, role,
       if EnableFlowtable s then ''1'' else ''0'']"

section \<open>Expected rules\<close>

definition nft_match :: "string \<Rightarrow> json \<Rightarrow> json \<Rightarrow> json" where
  "nft_match operator left right = JObj [(''match'', JObj [(''op'', JStr operator), (''left'', left), (''right'', right)])]"

definition nft_payload :: "string \<Rightarrow> string \<Rightarrow> json" where
  "nft_payload protocol field = JObj [(''payload'', JObj [(''protocol'', JStr protocol), (''field'', JStr field)])]"

definition nft_ct :: "string \<Rightarrow> json" where
  "nft_ct key = JObj [(''ct'', JObj [(''key'', JStr key)])]"

definition nft_port :: "int \<Rightarrow> int \<Rightarrow> json" where
  "nft_port first final =
     (if final = 0 \<or> final = first then jint first else JObj [(''range'', JArr [jint first, jint final])])"

definition ip_name :: "int \<Rightarrow> string" where
  "ip_name family = (if family = 4 then ''ip'' else ''ip6'')"

definition jmark :: "32 word \<Rightarrow> json" where
  "jmark mark = jint (uint mark)"

definition nft_rule :: "string \<Rightarrow> string \<Rightarrow> json list \<Rightarrow> json" where
  "nft_rule chain comment expr =
     JObj [(''family'', JStr ''inet''), (''table'', JStr nftTableName), (''chain'', JStr chain),
           (''comment'', JStr comment), (''expr'', JArr expr)]"

abbreviation nft_counter :: json where "nft_counter \<equiv> JObj [(''counter'', JObj [])]"

definition nftExpectedJournalRole :: "nft_spec \<Rightarrow> string \<Rightarrow> json" where
  "nftExpectedJournalRole s role =
     (let family = ip_name (Family s) in
      nft_rule nftStateChainName (nftJournalRoleComment s role)
        [nft_match ''=='' (nft_payload family ''daddr'') (JStr (addr_string (ListenHost s))),
         nft_match ''=='' (nft_payload family ''saddr'') (JStr (addr_string (TargetHost s))),
         nft_match ''=='' (nft_payload (Protocol s) ''sport'') (nft_port (TargetPort s) (TargetPortEnd s)),
         nft_match ''=='' (nft_payload (Protocol s) ''dport'') (nft_port (ListenPort s) (ListenPortEnd s)),
         nft_match ''=='' (nft_ct ''mark'') (jmark (ConntrackMark s)),
         nft_counter])"

definition nftExpectedJournalRule :: "nft_spec \<Rightarrow> bool \<Rightarrow> json" where
  "nftExpectedJournalRule s retired = nftExpectedJournalRole s (if retired then ''r'' else ''a'')"

text \<open>The listening ports with their target ports, one by one.\<close>

definition port_pairs :: "nft_spec \<Rightarrow> (int \<times> int) list" where
  "port_pairs s = map (\<lambda>p. (p, TargetPort s + p - ListenPort s)) [ListenPort s..ListenPortEnd s]"

definition expected_destination :: "nft_spec \<Rightarrow> string \<Rightarrow> json list" where
  "expected_destination s hook =
     (let family = ip_name (Family s) in
      if is_unspecified (ListenHost s) then
        [if hook = ''output''
         then nft_match ''!='' (nft_payload family ''daddr'')
                (if Family s = 4 then JObj [(''prefix'', JObj [(''addr'', JStr ''127.0.0.0''), (''len'', jint 8)])]
                 else JStr ''::1'')
         else nft_match ''=='' (JObj [(''meta'', JObj [(''key'', JStr ''nfproto'')])])
                (JStr (if Family s = 4 then ''ipv4'' else ''ipv6'')),
         nft_match ''=='' (JObj [(''fib'', JObj [(''result'', JStr ''type''), (''flags'', JArr [JStr ''daddr''])])]) (JStr ''local'')]
      else [nft_match ''=='' (nft_payload family ''daddr'') (JStr (addr_string (ListenHost s)))])"

definition expected_dnat_port :: "nft_spec \<Rightarrow> json" where
  "expected_dnat_port s =
     (if ListenPort s < ListenPortEnd s
      then JObj [(''map'', JObj [(''key'', nft_payload (Protocol s) ''dport''),
                               (''data'', JObj [(''set'', JArr (map (\<lambda>(p, q). JArr [jint p, jint q]) (port_pairs s)))])])]
      else nft_port (TargetPort s) (TargetPortEnd s))"

definition expected_nat :: "nft_spec \<Rightarrow> string \<Rightarrow> json list" where
  "expected_nat s hook =
     expected_destination s hook
     @ [nft_match ''=='' (nft_payload (Protocol s) ''dport'') (nft_port (ListenPort s) (ListenPortEnd s)),
        JObj [(''mangle'', JObj [(''key'', nft_ct ''mark''), (''value'', jmark (ConntrackMark s))])],
        nft_counter,
        JObj [(''dnat'', JObj [(''family'', JStr (ip_name (Family s))), (''addr'', JStr (addr_string (TargetHost s))),
                             (''port'', expected_dnat_port s)])]]"

definition expected_flow :: "nft_spec \<Rightarrow> json list" where
  "expected_flow s =
     nft_match ''=='' (JObj [(''ct'', JObj [(''key'', JStr ''proto-dst''), (''dir'', JStr ''original'')])])
       (nft_port (ListenPort s) (ListenPortEnd s))
     # (if is_unspecified (ListenHost s) then []
        else [nft_match ''=='' (JObj [(''ct'', JObj [(''key'', JStr (ip_name (Family s) @ '' daddr'')), (''dir'', JStr ''original'')])])
                (JStr (addr_string (ListenHost s)))])
     @ [nft_match ''in'' (nft_ct ''state'') (JArr [JStr ''established'', JStr ''related'']),
        JObj [(''flow'', JObj [(''op'', JStr ''add''), (''flowtable'', JStr (CHR ''@'' # nftFlowtableName))])]]"

definition expected_forward :: "nft_spec \<Rightarrow> string \<Rightarrow> json list" where
  "expected_forward s hook =
     [nft_match ''=='' (nft_ct ''mark'') (jmark (ConntrackMark s)),
      nft_match ''=='' (nft_payload (ip_name (Family s)) ''daddr'') (JStr (addr_string (TargetHost s))),
      nft_match ''=='' (nft_payload (Protocol s) ''dport'') (nft_port (TargetPort s) (TargetPortEnd s))]
     @ (if hook = ''forward'' \<and> EnableFlowtable s then expected_flow s else [])
     @ [nft_counter, if hook = ''forward'' then JObj [(''accept'', JNull)] else JObj [(''masquerade'', JNull)]]"

definition nftExpectedRule :: "nft_spec \<Rightarrow> string \<Rightarrow> json" where
  "nftExpectedRule s hook =
     (if hook = ''prerouting'' \<or> hook = ''output''
      then nft_rule hook (nftComment s hook) (expected_nat s hook)
      else nft_rule hook (nftComment s (if hook = ''forward'' \<and> EnableFlowtable s then ''flowtable'' else hook))
             (expected_forward s hook))"

section \<open>Reading rules\<close>

definition nftJSONPortRange :: "json \<Rightarrow> (int \<times> int) option" where
  "nftJSONPortRange v =
     (if is_object v then
        (case jarray ''range'' v of
           Some [x, y] \<Rightarrow>
             (case (nftJSONUint x 16, nftJSONUint y 16) of
                (Some a, Some b) \<Rightarrow> if a = 0 \<or> b < a then None else Some (int a, int b)
              | _ \<Rightarrow> None)
         | _ \<Rightarrow> None)
      else
        (case nftJSONUint v 16 of Some p \<Rightarrow> if p = 0 then None else Some (int p, int p) | None \<Rightarrow> None))"

definition nftPayloadMatch :: "json \<Rightarrow> (string \<times> string \<times> json) option" where
  "nftPayloadMatch e =
     (case jobject ''match'' e of
        None \<Rightarrow> None
      | Some m \<Rightarrow>
          if jval ''op'' m \<noteq> JStr ''=='' then None
          else case jobject ''left'' m of
            None \<Rightarrow> None
          | Some left \<Rightarrow>
              (case jobject ''payload'' left of
                 None \<Rightarrow> None
               | Some payload \<Rightarrow>
                   Some (text_of (jval ''protocol'' payload), text_of (jval ''field'' payload), jval ''right'' m)))"

text \<open>The value a match on the mark of the connection compares with.\<close>

definition mark_match :: "json \<Rightarrow> json option" where
  "mark_match e =
     (case jobject ''match'' e of
        None \<Rightarrow> None
      | Some m \<Rightarrow>
          (case jobject ''left'' m of
             None \<Rightarrow> None
           | Some left \<Rightarrow>
               (case jobject ''ct'' left of
                  None \<Rightarrow> None
                | Some ct \<Rightarrow> if jval ''key'' ct = JStr ''mark'' then Some (jval ''right'' m) else None)))"

datatype journal_error =
    HookedJournal
  | ForeignJournal
  | JournalBinding
  | JournalLimit
  | JournalIdentity
  | JournalFamily
  | JournalExpressions
  | JournalTuple
  | JournalMark
  | JournalOwner
  | JournalFields

record journal_state =
  j_active :: "nft_spec list"
  j_retired :: "nft_spec list"
  j_suspended :: "nft_spec list"
  j_binding :: string
  j_present :: bool

abbreviation empty_journal :: journal_state where
  "empty_journal \<equiv> \<lparr>j_active = [], j_retired = [], j_suspended = [], j_binding = [], j_present = False\<rparr>"

definition set_listen :: "addr \<Rightarrow> nft_spec \<Rightarrow> nft_spec" where "set_listen a s = s\<lparr>ListenHost := a\<rparr>"
definition set_target :: "addr \<Rightarrow> nft_spec \<Rightarrow> nft_spec" where "set_target a s = s\<lparr>TargetHost := a\<rparr>"

definition set_listen_ports :: "int \<times> int \<Rightarrow> nft_spec \<Rightarrow> nft_spec" where
  "set_listen_ports p s = s\<lparr>ListenPort := fst p, ListenPortEnd := snd p\<rparr>"

definition set_target_ports :: "int \<times> int \<Rightarrow> nft_spec \<Rightarrow> nft_spec" where
  "set_target_ports p s = s\<lparr>TargetPort := fst p, TargetPortEnd := snd p\<rparr>"

text \<open>One expression of a journal record.\<close>

definition journal_payload :: "string \<Rightarrow> nft_spec \<Rightarrow> string \<Rightarrow> string \<Rightarrow> json \<Rightarrow> nft_spec option" where
  "journal_payload ip s protocol field right =
     (if protocol = ip \<and> field = ''daddr'' then map_option (\<lambda>a. set_listen a s) (parse_addr (text_of right))
      else if protocol = ip \<and> field = ''saddr'' then map_option (\<lambda>a. set_target a s) (parse_addr (text_of right))
      else if protocol = Protocol s \<and> field = ''dport''
      then map_option (\<lambda>p. set_listen_ports p s) (nftJSONPortRange right)
      else if protocol = Protocol s \<and> field = ''sport''
      then map_option (\<lambda>p. set_target_ports p s) (nftJSONPortRange right)
      else Some s)"

definition journal_item :: "string \<Rightarrow> nft_spec \<Rightarrow> json \<Rightarrow> journal_error + nft_spec" where
  "journal_item ip s item =
     (case (case nftPayloadMatch item of
              None \<Rightarrow> Some s
            | Some (protocol, field, right) \<Rightarrow> journal_payload ip s protocol field right) of
        None \<Rightarrow> Inl JournalTuple
      | Some s1 \<Rightarrow>
          (case mark_match item of
             None \<Rightarrow> Inr s1
           | Some right \<Rightarrow>
               (case nftJSONUint right 32 of
                  None \<Rightarrow> Inl JournalMark
                | Some mark \<Rightarrow> Inr (s1\<lparr>ConntrackMark := of_nat mark\<rparr>))))"

fun journal_items :: "string \<Rightarrow> nft_spec \<Rightarrow> json list \<Rightarrow> journal_error + nft_spec" where
  "journal_items ip s [] = Inr s"
| "journal_items ip s (x # xs) = rbind (journal_item ip s x) (\<lambda>s1. journal_items ip s1 xs)"

definition blank_spec :: "string \<Rightarrow> string \<Rightarrow> int \<Rightarrow> string \<Rightarrow> bool \<Rightarrow> nft_spec" where
  "blank_spec raw ident family protocol flow =
     \<lparr>RuleID = raw, Family = family, ListenHost = NoAddr, ListenPort = 0, ListenPortEnd = 0, TargetHost = NoAddr,
      TargetPort = 0, TargetPortEnd = 0, Protocol = protocol, ConntrackMark = 0, EnableFlowtable = flow,
      ruleIdentity = ident\<rparr>"

text \<open>One record: its role and spec.\<close>

definition decode_record :: "string \<Rightarrow> json \<Rightarrow> journal_error + string \<times> nft_spec" where
  "decode_record owner rule =
     (case split_on CHR '':'' (text_of (jval ''comment'' rule)) of
        [p0, p1, ident, fam, protocol, role, flag] \<Rightarrow>
          if p0 \<noteq> ''pb-state'' \<or> p1 \<noteq> ''v1'' \<or> \<not> validNFTIdentity ident
             \<or> role \<noteq> ''a'' \<and> role \<noteq> ''r'' \<and> role \<noteq> ''s'' \<or> flag \<noteq> ''0'' \<and> flag \<noteq> ''1''
          then Inl JournalIdentity
          else
            (case atoi fam of
               None \<Rightarrow> Inl JournalFamily
             | Some family \<Rightarrow>
                 (case jarray ''expr'' rule of
                    None \<Rightarrow> Inl JournalExpressions
                  | Some expr \<Rightarrow>
                      rbind (journal_items (ip_name family)
                               (blank_spec (''kernel-'' @ ident) ident family protocol (flag = ''1'')) expr) (\<lambda>s.
                        if \<not> validateRetirementSpec s \<or> nftOwnerMarker (ConntrackMark s) \<noteq> owner then Inl JournalOwner
                        else if nftRuleInspectionKey rule \<noteq> nftRuleInspectionKey (nftExpectedJournalRole s role)
                        then Inl JournalFields
                        else Inr (role, s))))
      | _ \<Rightarrow> Inl JournalIdentity)"

definition add_record :: "string \<Rightarrow> nft_spec \<Rightarrow> journal_state \<Rightarrow> journal_state" where
  "add_record role s j =
     (if role = ''r'' then j\<lparr>j_retired := j_retired j @ [s]\<rparr>
      else if role = ''s'' then j\<lparr>j_suspended := j_suspended j @ [s]\<rparr>
      else j\<lparr>j_active := j_active j @ [s]\<rparr>)"

definition journal_size :: "journal_state \<Rightarrow> nat" where
  "journal_size j = length (j_active j) + length (j_retired j) + length (j_suspended j)"

fun journal_records :: "string \<Rightarrow> json list \<Rightarrow> journal_state \<Rightarrow> journal_error + journal_state" where
  "journal_records owner [] j = Inr j"
| "journal_records owner (object # objects) j =
     (case jobject ''rule'' object of
        None \<Rightarrow> journal_records owner objects j
      | Some rule \<Rightarrow>
          if jval ''chain'' rule \<noteq> JStr nftStateChainName then journal_records owner objects j
          else if maxNFTRetiredSpecs \<le> journal_size j then Inl JournalLimit
          else rbind (decode_record owner rule) (\<lambda>(role, s). journal_records owner objects (add_record role s j)))"

fun journal_chains :: "json list \<Rightarrow> journal_state \<Rightarrow> journal_error + journal_state" where
  "journal_chains [] j = Inr j"
| "journal_chains (object # objects) j =
     (case jobject ''chain'' object of
        None \<Rightarrow> journal_chains objects j
      | Some chain \<Rightarrow>
          if jval ''name'' chain \<noteq> JStr nftStateChainName then journal_chains objects j
          else if j_present j \<or> jval ''hook'' chain \<noteq> JNull \<or> jval ''type'' chain \<noteq> JNull \<or> jval ''policy'' chain \<noteq> JNull
          then Inl HookedJournal
          else if jval ''family'' chain \<noteq> JStr ''inet'' \<or> jval ''table'' chain \<noteq> JStr nftTableName
          then Inl ForeignJournal
          else
            (case jfield ''comment'' chain of
               None \<Rightarrow> journal_chains objects (j\<lparr>j_present := True\<rparr>)
             | Some (JStr b) \<Rightarrow> journal_chains objects (j\<lparr>j_present := True, j_binding := b\<rparr>)
             | Some _ \<Rightarrow> Inl JournalBinding))"

definition decodeNFTJournal :: "json list \<Rightarrow> string \<Rightarrow> journal_error + journal_state" where
  "decodeNFTJournal objects owner =
     rbind (journal_chains objects empty_journal) (\<lambda>j.
       if j_present j then journal_records owner objects j else Inr j)"

end
