(* ===== verification/Nft_Journal.thy ===== *)
theory Nft_Journal
  imports Nft_Rules Nft_Tuples
begin

text \<open>
  The journal in the kernel survives a restart: the records of a spec, read back from the kernel with their
  handles and counter values, decode to the spec, under the identity that the record carries.
\<close>

section \<open>What the kernel adds when it lists a rule\<close>

text \<open>A handle, and the values of the counter.\<close>

fun stamp_counter :: "(string \<times> json) list \<Rightarrow> json \<Rightarrow> json" where
  "stamp_counter values (JObj [(k, v)]) = (if k = ''counter'' then JObj [(''counter'', JObj values)] else JObj [(k, v)])"
| "stamp_counter values v = v"

definition listed_rule :: "json \<Rightarrow> (string \<times> json) list \<Rightarrow> json \<Rightarrow> json" where
  "listed_rule handle values rule =
     JObj [(''family'', jval ''family'' rule), (''table'', jval ''table'' rule), (''chain'', jval ''chain'' rule),
           (''handle'', handle), (''comment'', jval ''comment'' rule),
           (''expr'', case jarray ''expr'' rule of None \<Rightarrow> JNull | Some xs \<Rightarrow> JArr (map (stamp_counter values) xs))]"

definition counter_values :: "(string \<times> json) list \<Rightarrow> bool" where
  "counter_values values \<longleftrightarrow> fst ` set values \<subseteq> {''packets'', ''bytes''}"

lemma counter_values_dropped: "counter_values values \<Longrightarrow> filter (\<lambda>(k, v). kept_field ''counter'' k) values = []"
  by (auto simp: counter_values_def filter_empty_conv kept_field_def image_subset_iff)

lemma stamp_normal:
  "counter_values values \<Longrightarrow> x = JObj [(''counter'', JObj [])] \<or> stamp_counter values x = x \<Longrightarrow>
   normalizeNFTValue (stamp_counter values x) f = normalizeNFTValue x f"
  by (elim disjE) (simp_all add: counter_values_dropped)

lemma nft_rule_fields [simp]:
  "jval ''family'' (nft_rule c m xs) = JStr ''inet''" "jval ''table'' (nft_rule c m xs) = JStr nftTableName"
  "jval ''chain'' (nft_rule c m xs) = JStr c" "jval ''comment'' (nft_rule c m xs) = JStr m"
  "jval ''expr'' (nft_rule c m xs) = JArr xs" "jarray ''expr'' (nft_rule c m xs) = Some xs"
  by (simp_all add: nft_rule_def jarray_def)

lemma listed_rule_fields [simp]:
  "jval ''family'' (listed_rule h vs r) = jval ''family'' r" "jval ''table'' (listed_rule h vs r) = jval ''table'' r"
  "jval ''chain'' (listed_rule h vs r) = jval ''chain'' r" "jval ''comment'' (listed_rule h vs r) = jval ''comment'' r"
  by (simp_all add: listed_rule_def)

lemma listed_rule_key:
  assumes "counter_values vs" and "\<forall>x\<in>set xs. x = JObj [(''counter'', JObj [])] \<or> stamp_counter vs x = x"
  shows "nftRuleInspectionKey (listed_rule h vs (nft_rule c m xs)) = nftRuleInspectionKey (nft_rule c m xs)"
proof -
  have "jval ''expr'' (listed_rule h vs (nft_rule c m xs)) = JArr (map (stamp_counter vs) xs)"
    by (simp add: listed_rule_def)
  moreover have "map (\<lambda>x. marshal (normalizeNFTValue (stamp_counter vs x) [])) xs = map (\<lambda>x. marshal (normalizeNFTValue x [])) xs"
    using assms stamp_normal by (intro map_cong) auto
  ultimately show ?thesis by (simp add: nftRuleInspectionKey_def Let_def kept_field_def comp_def cong: map_cong)
qed

lemma listed_rule_expr:
  "jarray ''expr'' (listed_rule h vs (nft_rule c m xs)) = Some (map (stamp_counter vs) xs)"
  unfolding listed_rule_def nft_rule_fields by (simp add: jarray_def)

section \<open>One record\<close>

text \<open>What a record stands for: its spec, named after its identity, with its ranges written out.\<close>

definition journal_image :: "nft_spec \<Rightarrow> nft_spec" where
  "journal_image s = s\<lparr>RuleID := ''kernel-'' @ nftRuleIdentity s, ruleIdentity := nftRuleIdentity s,
     ListenPortEnd := nftLastPort s, TargetPortEnd := nftLastTargetPort s\<rparr>"

lemma port_range_read:
  assumes "1 \<le> a" and "a \<le> (if b = 0 then a else b)" and "(if b = 0 then a else b) \<le> 65535"
  shows "nftJSONPortRange (nft_port a b) = Some (a, if b = 0 then a else b)"
  using assms nftJSONUint_num[of a 16] nftJSONUint_num[of b 16]
  by (auto simp: nftJSONPortRange_def nft_port_def is_object_def jarray_def)

lemma valid_ports:
  assumes "validateRetirementSpec s"
  shows "nftJSONPortRange (nft_port (ListenPort s) (ListenPortEnd s)) = Some (ListenPort s, nftLastPort s)"
    and "nftJSONPortRange (nft_port (TargetPort s) (TargetPortEnd s)) = Some (TargetPort s, nftLastTargetPort s)"
  using assms unfolding validateRetirementSpec_def nftLastPort_def nftLastTargetPort_def
  by (intro port_range_read; simp)+

lemma match_read:
  "nftPayloadMatch (nft_match ''=='' (nft_payload p f) r) = Some (p, f, r)"
  "mark_match (nft_match ''=='' (nft_payload p f) r) = None"
  "nftPayloadMatch (nft_match ''=='' (nft_ct ''mark'') r) = None"
  "mark_match (nft_match ''=='' (nft_ct ''mark'') r) = Some r"
  "nftPayloadMatch (JObj [(''counter'', v)]) = None" "mark_match (JObj [(''counter'', v)]) = None"
  by (simp_all add: nftPayloadMatch_def mark_match_def nft_match_def nft_payload_def nft_ct_def jobject_def text_of_def)

lemma mark_read: "nftJSONUint (jmark m) 32 = Some (unat m)"
  using nftJSONUint_num[of "uint m" 32] uint_lt2p[of m] by (simp add: jmark_def)

lemma ip_name_not_protocol [simp]:
  "p = ''tcp'' \<or> p = ''udp'' \<Longrightarrow> p \<noteq> ip_name f" "p = ''tcp'' \<or> p = ''udp'' \<Longrightarrow> ip_name f \<noteq> p"
  by (auto simp: ip_name_def)

lemma record_items:
  assumes ok: "validateRetirementSpec s"
  shows "journal_items (ip_name (Family s)) (blank_spec raw ident (Family s) (Protocol s) (EnableFlowtable s))
     [nft_match ''=='' (nft_payload (ip_name (Family s)) ''daddr'') (JStr (addr_string (ListenHost s))),
      nft_match ''=='' (nft_payload (ip_name (Family s)) ''saddr'') (JStr (addr_string (TargetHost s))),
      nft_match ''=='' (nft_payload (Protocol s) ''sport'') (nft_port (TargetPort s) (TargetPortEnd s)),
      nft_match ''=='' (nft_payload (Protocol s) ''dport'') (nft_port (ListenPort s) (ListenPortEnd s)),
      nft_match ''=='' (nft_ct ''mark'') (jmark (ConntrackMark s)), JObj [(''counter'', v)]]
   = Inr (s\<lparr>RuleID := raw, ruleIdentity := ident, ListenPortEnd := nftLastPort s, TargetPortEnd := nftLastTargetPort s\<rparr>)"
proof -
  have p: "Protocol s = ''tcp'' \<or> Protocol s = ''udp''" and "is_valid (ListenHost s)" "is_valid (TargetHost s)"
    using ok unfolding validateRetirementSpec_def by blast+
  then have "parse_addr (addr_string (ListenHost s)) = Some (ListenHost s)"
    "parse_addr (addr_string (TargetHost s)) = Some (TargetHost s)"
    by (simp_all add: parse_addr_string)
  with p show ?thesis
    by (simp add: journal_item_def match_read journal_payload_def text_of_def mark_read valid_ports[OF ok]
        set_listen_def set_target_def set_listen_ports_def set_target_ports_def blank_spec_def)
qed

lemma hex_no_colon: "is_hex c \<Longrightarrow> c \<noteq> CHR '':''"
  by auto

lemma validNFTIdentity_no_colon: "validNFTIdentity ident \<Longrightarrow> CHR '':'' \<notin> set ident"
proof (cases "short_identity ident")
  case True
  assume v: "validNFTIdentity ident"
  then obtain bs where "hex_decode (drop 1 ident) = Some bs" using True by (auto simp: validNFTIdentity_def)
  then have "CHR '':'' \<notin> set (drop 1 ident)" using hex_decode_hex hex_no_colon by blast
  moreover obtain x xs where x: "ident = x # xs" using True by (cases ident) (auto simp: short_identity_def)
  moreover have "x = CHR ''l''" using True x by (simp add: short_identity_def)
  ultimately show ?thesis by auto
next
  case False
  assume v: "validNFTIdentity ident"
  then obtain bs where "hex_decode ident = Some bs" using False by (auto simp: validNFTIdentity_def)
  then show ?thesis using hex_decode_hex hex_no_colon by blast
qed

lemma itoa_no_colon: "CHR '':'' \<notin> set (itoa i)"
  using itoa_chars[of "CHR '':''" i] dec_is_hex hex_no_colon by fastforce

lemma image_valid: "validateRetirementSpec (journal_image s) = validateRetirementSpec s"
  by (simp add: validateRetirementSpec_def journal_image_def nftLastPort_def nftLastTargetPort_def)

lemma image_identity: "validNFTIdentity (nftRuleIdentity s) \<Longrightarrow> nftRuleIdentity (journal_image s) = nftRuleIdentity s"
  by (auto simp: nftRuleIdentity_def journal_image_def validNFTIdentity_def short_identity_def split: if_splits)

lemma image_role:
  assumes "spec_ok s"
  shows "nftExpectedJournalRole (journal_image s) role = nftExpectedJournalRole s role"
proof -
  have id: "nftRuleIdentity (journal_image s) = nftRuleIdentity s"
    using assms image_identity by (simp add: spec_ok_def)
  have "1 \<le> ListenPort s" "1 \<le> TargetPort s" using assms by (auto simp: spec_ok_def validateRetirementSpec_def)
  then have "nft_port (ListenPort s) (nftLastPort s) = nft_port (ListenPort s) (ListenPortEnd s)"
    "nft_port (TargetPort s) (nftLastTargetPort s) = nft_port (TargetPort s) (TargetPortEnd s)"
    by (auto simp: nft_port_def nftLastPort_def nftLastTargetPort_def)
  then show ?thesis
    using id by (simp add: nftExpectedJournalRole_def nftJournalRoleComment_def Let_def) (simp add: journal_image_def)
qed

lemma image_tuples: "spec_ok s \<Longrightarrow> spec_tuples (journal_image s) = spec_tuples s"
  using image_identity[of s]
  by (auto simp: spec_ok_def spec_tuples_def spec_ports_def tuple_at_def journal_image_def nftLastPort_def)

lemma decode_record_listed:
  assumes ok: "spec_ok s" and owner: "nftOwnerMarker (ConntrackMark s) = owner"
    and role: "role \<in> {''a'', ''r'', ''s''}" and cv: "counter_values vs"
  shows "decode_record owner (listed_rule h vs (nftExpectedJournalRole s role)) = Inr (role, journal_image s)"
proof -
  have v: "validateRetirementSpec s" and ident: "validNFTIdentity (nftRuleIdentity s)"
    using ok by (simp_all add: spec_ok_def)
  have p: "Protocol s = ''tcp'' \<or> Protocol s = ''udp''" and f: "Family s = 4 \<or> Family s = 6"
    using v unfolding validateRetirementSpec_def by blast+
  let ?parts = "[''pb-state'', ''v1'', nftRuleIdentity s, itoa (Family s), Protocol s, role,
      if EnableFlowtable s then ''1'' else ''0'']"
  have "\<forall>x\<in>set ?parts. CHR '':'' \<notin> set x"
    using validNFTIdentity_no_colon[OF ident] itoa_no_colon p role by auto
  then have split: "split_on CHR '':'' (nftJournalRoleComment s role) = ?parts"
    unfolding nftJournalRoleComment_def by (intro split_on_join) simp_all
  have fam: "atoi (itoa (Family s)) = Some (Family s)" using f by (intro atoi_itoa) auto
  let ?exprs = "\<lambda>c. [nft_match ''=='' (nft_payload (ip_name (Family s)) ''daddr'') (JStr (addr_string (ListenHost s))),
      nft_match ''=='' (nft_payload (ip_name (Family s)) ''saddr'') (JStr (addr_string (TargetHost s))),
      nft_match ''=='' (nft_payload (Protocol s) ''sport'') (nft_port (TargetPort s) (TargetPortEnd s)),
      nft_match ''=='' (nft_payload (Protocol s) ''dport'') (nft_port (ListenPort s) (ListenPortEnd s)),
      nft_match ''=='' (nft_ct ''mark'') (jmark (ConntrackMark s)), JObj [(''counter'', JObj c)]]"
  have rule: "nftExpectedJournalRole s role = nft_rule nftStateChainName (nftJournalRoleComment s role) (?exprs [])"
    by (simp add: nftExpectedJournalRole_def Let_def)
  have stamped: "map (stamp_counter vs) (?exprs []) = ?exprs vs" by (simp add: nft_match_def)
  have expr: "jarray ''expr'' (listed_rule h vs (nftExpectedJournalRole s role)) = Some (?exprs vs)"
    unfolding rule listed_rule_expr stamped ..
  have key: "nftRuleInspectionKey (listed_rule h vs (nftExpectedJournalRole s role)) =
      nftRuleInspectionKey (nftExpectedJournalRole (journal_image s) role)"
    unfolding image_role[OF ok] unfolding rule by (intro listed_rule_key cv) (simp add: nft_match_def)
  have items: "journal_items (ip_name (Family s))
      (blank_spec (''kernel-'' @ nftRuleIdentity s) (nftRuleIdentity s) (Family s) (Protocol s) (EnableFlowtable s)) (?exprs vs)
      = Inr (journal_image s)"
    unfolding journal_image_def by (rule record_items[OF v])
  have mark: "ConntrackMark (journal_image s) = ConntrackMark s" by (simp add: journal_image_def)
  have comment: "text_of (jval ''comment'' (listed_rule h vs (nftExpectedJournalRole s role))) = nftJournalRoleComment s role"
    by (simp add: rule text_of_def)
  let ?rule = "listed_rule h vs (nftExpectedJournalRole s role)"
  let ?flag = "if EnableFlowtable s then ''1'' else ''0''"
  have flag: "(?flag = ''1'') = EnableFlowtable s" "?flag = ''0'' \<or> ?flag = ''1''" by simp_all
  have "decode_record owner ?rule =
    rbind (journal_items (ip_name (Family s))
            (blank_spec (''kernel-'' @ nftRuleIdentity s) (nftRuleIdentity s) (Family s) (Protocol s) (?flag = ''1'')) (?exprs vs))
      (\<lambda>t. if \<not> validateRetirementSpec t \<or> nftOwnerMarker (ConntrackMark t) \<noteq> owner then Inl JournalOwner
           else if nftRuleInspectionKey ?rule \<noteq> nftRuleInspectionKey (nftExpectedJournalRole t role) then Inl JournalFields
           else Inr (role, t))"
    unfolding decode_record_def comment split list.case fam option.case expr using role ident flag(2) by auto
  also have "\<dots> = Inr (role, journal_image s)"
    unfolding flag(1) items using key image_valid[of s] v owner mark by simp
  finally show ?thesis .
qed

section \<open>The whole journal\<close>

record journal_entry =
  e_role :: string
  e_spec :: nft_spec
  e_handle :: json
  e_values :: "(string \<times> json) list"

definition entry_ok :: "string \<Rightarrow> journal_entry \<Rightarrow> bool" where
  "entry_ok owner e \<longleftrightarrow>
     spec_ok (e_spec e) \<and> nftOwnerMarker (ConntrackMark (e_spec e)) = owner
     \<and> e_role e \<in> {''a'', ''r'', ''s''} \<and> counter_values (e_values e)"

definition entry_object :: "journal_entry \<Rightarrow> json" where
  "entry_object e = JObj [(''rule'', listed_rule (e_handle e) (e_values e) (nftExpectedJournalRole (e_spec e) (e_role e)))]"

definition state_chain :: "string \<Rightarrow> json \<Rightarrow> json" where
  "state_chain binding handle =
     JObj [(''chain'', JObj ([(''family'', JStr ''inet''), (''table'', JStr nftTableName), (''name'', JStr nftStateChainName),
                            (''handle'', handle)]
              @ (if binding = [] then [] else [(''comment'', JStr binding)])))]"

text \<open>An object that is no part of the journal: another chain, or a rule of another chain.\<close>

definition unrelated :: "json \<Rightarrow> bool" where
  "unrelated x \<longleftrightarrow>
     (case jobject ''chain'' x of None \<Rightarrow> True | Some c \<Rightarrow> jval ''name'' c \<noteq> JStr nftStateChainName)
     \<and> (case jobject ''rule'' x of None \<Rightarrow> True | Some r \<Rightarrow> jval ''chain'' r \<noteq> JStr nftStateChainName)"

definition roles :: "string \<Rightarrow> journal_entry list \<Rightarrow> nft_spec list" where
  "roles r es = map e_spec (filter (\<lambda>e. e_role e = r) es)"

lemma roles_simps [simp]:
  "roles r [] = []" "roles r (e # es) = (if e_role e = r then [e_spec e] else []) @ roles r es"
  by (simp_all add: roles_def)

lemma roles_length:
  "\<forall>e\<in>set es. e_role e \<in> {''a'', ''r'', ''s''} \<Longrightarrow>
   length (roles ''a'' es) + length (roles ''r'' es) + length (roles ''s'' es) = length es"
  by (induction es) auto

lemma journal_chains_unrelated: "\<forall>x\<in>set xs. unrelated x \<Longrightarrow> journal_chains (xs @ ys) j = journal_chains ys j"
  by (induction xs) (auto simp: unrelated_def split: option.splits)

lemma journal_records_unrelated: "\<forall>x\<in>set xs. unrelated x \<Longrightarrow> journal_records o' (xs @ ys) j = journal_records o' ys j"
  by (induction xs) (auto simp: unrelated_def split: option.splits)

lemma journal_chains_entries: "journal_chains (map entry_object es @ ys) j = journal_chains ys j"
  by (induction es) (simp_all add: entry_object_def jobject_def)

lemma journal_chains_state:
  "\<not> j_present j \<Longrightarrow> j_binding j = [] \<Longrightarrow>
   journal_chains (state_chain b h # ys) j = journal_chains ys (j\<lparr>j_present := True, j_binding := b\<rparr>)"
  by (cases j) (auto simp: state_chain_def jobject_def)

lemma journal_records_state: "journal_records o' (state_chain b h # ys) j = journal_records o' ys j"
  by (simp add: state_chain_def jobject_def)

lemma entry_rule: "jobject ''rule'' (entry_object e) =
    Some (listed_rule (e_handle e) (e_values e) (nftExpectedJournalRole (e_spec e) (e_role e)))"
  by (simp add: entry_object_def jobject_def listed_rule_def)

lemma entry_chain:
  "jval ''chain'' (listed_rule h vs (nftExpectedJournalRole s role)) = JStr nftStateChainName"
  by (simp add: nftExpectedJournalRole_def Let_def)

definition add_entries :: "journal_entry list \<Rightarrow> journal_state \<Rightarrow> journal_state" where
  "add_entries es j = j\<lparr>j_active := j_active j @ map journal_image (roles ''a'' es),
     j_retired := j_retired j @ map journal_image (roles ''r'' es),
     j_suspended := j_suspended j @ map journal_image (roles ''s'' es)\<rparr>"

lemma journal_records_entries:
  assumes "\<forall>e\<in>set es. entry_ok owner e" and "journal_size j + length es \<le> maxNFTRetiredSpecs"
  shows "journal_records owner (map entry_object es @ ys) j = journal_records owner ys (add_entries es j)"
  using assms
proof (induction es arbitrary: j)
  case Nil
  then show ?case by (simp add: add_entries_def)
next
  case (Cons e es)
  let ?j = "add_record (e_role e) (journal_image (e_spec e)) j"
  have role: "e_role e \<in> {''a'', ''r'', ''s''}" using Cons.prems(1) by (simp add: entry_ok_def)
  have size: "journal_size ?j = Suc (journal_size j)" by (auto simp: journal_size_def add_record_def)
  have dec: "decode_record owner (listed_rule (e_handle e) (e_values e) (nftExpectedJournalRole (e_spec e) (e_role e)))
      = Inr (e_role e, journal_image (e_spec e))"
    using Cons.prems(1) by (intro decode_record_listed) (auto simp: entry_ok_def)
  have "journal_records owner (entry_object e # (map entry_object es @ ys)) j
      = journal_records owner (map entry_object es @ ys) ?j"
    using Cons.prems(2) by (simp only: journal_records.simps entry_rule option.case entry_chain dec rbind_simps prod.case) simp
  also have "\<dots> = journal_records owner ys (add_entries es ?j)"
    using Cons.prems size by (intro Cons.IH) auto
  also have "add_entries es ?j = add_entries (e # es) j"
    using role by (cases j) (auto simp: add_entries_def add_record_def)
  finally show ?case by simp
qed

theorem decode_listed_journal:
  assumes "\<forall>e\<in>set es. entry_ok owner e" and "length es \<le> maxNFTRetiredSpecs"
    and "\<forall>x\<in>set pre. unrelated x" and "\<forall>x\<in>set post. unrelated x"
  shows "decodeNFTJournal (pre @ [state_chain binding handle] @ map entry_object es @ post) owner =
    Inr \<lparr>j_active = map journal_image (roles ''a'' es), j_retired = map journal_image (roles ''r'' es),
         j_suspended = map journal_image (roles ''s'' es), j_binding = binding, j_present = True\<rparr>"
proof -
  let ?objects = "pre @ [state_chain binding handle] @ map entry_object es @ post"
  let ?j = "empty_journal\<lparr>j_present := True, j_binding := binding\<rparr>"
  have nil: "journal_chains post j = Inr j" "journal_records owner post j = Inr j" for j
    using journal_chains_unrelated[OF assms(4), of "[]" j] journal_records_unrelated[OF assms(4), of owner "[]" j] by simp_all
  have "journal_chains ?objects empty_journal = Inr ?j"
    using journal_chains_unrelated[OF assms(3)]
    by (simp add: journal_chains_state journal_chains_entries nil del: journal_chains.simps(2))
  moreover have "journal_records owner ?objects ?j = Inr (add_entries es ?j)"
    using journal_records_unrelated[OF assms(3)] journal_records_entries[OF assms(1), of ?j post] assms(2)
    by (simp add: journal_records_state nil journal_size_def del: journal_records.simps(2))
  ultimately show ?thesis by (simp add: decodeNFTJournal_def add_entries_def)
qed

end
