(* ===== verification/Nft_Legacy.thy ===== *)
theory Nft_Legacy
  imports Nft_Journal
begin

text \<open>
  \<^verbatim>\<open>recoverLegacyNFTSpecs\<close> of \<^verbatim>\<open>nft_recovery.go\<close>: a table written before there was a journal is read back from
  its prerouting rules, when each has exactly the shape the renderer gives it.
\<close>

datatype legacy_error =
    LegacyComment
  | LegacyFamily
  | LegacyExpressions
  | LegacyMatch
  | LegacyItem
  | LegacyMark
  | LegacyTarget
  | LegacyMapping
  | LegacyMap
  | LegacyMapSize
  | LegacyPair
  | LegacyNumber
  | LegacyOrder
  | LegacyPort
  | LegacyOwner
  | LegacyPolicy

section \<open>One rule\<close>

definition legacy_payload :: "string \<Rightarrow> nft_spec \<Rightarrow> json \<Rightarrow> legacy_error + nft_spec" where
  "legacy_payload ip s item =
     (case nftPayloadMatch item of
        None \<Rightarrow> Inr s
      | Some (protocol, field, right) \<Rightarrow>
          rbind (if protocol = ip \<and> field = ''daddr''
                 then (case parse_addr (text_of right) of None \<Rightarrow> Inl LegacyMatch | Some a \<Rightarrow> Inr (set_listen a s))
                 else Inr s) (\<lambda>s1.
          if protocol = Protocol s1 \<and> field = ''dport''
          then (case nftJSONPortRange right of None \<Rightarrow> Inl LegacyMatch | Some p \<Rightarrow> Inr (set_listen_ports p s1))
          else Inr s1))"

definition legacy_mark :: "nft_spec \<Rightarrow> json \<Rightarrow> legacy_error + nft_spec" where
  "legacy_mark s item =
     (case jobject ''mangle'' item of
        None \<Rightarrow> Inr s
      | Some mangle \<Rightarrow>
          (case jobject ''key'' mangle of
             None \<Rightarrow> Inr s
           | Some key \<Rightarrow>
               (case jobject ''ct'' key of
                  None \<Rightarrow> Inr s
                | Some ct \<Rightarrow>
                    if jval ''key'' ct \<noteq> JStr ''mark'' then Inr s
                    else (case nftJSONUint (jval ''value'' mangle) 32 of
                            None \<Rightarrow> Inl LegacyMark
                          | Some m \<Rightarrow> Inr (s\<lparr>ConntrackMark := of_nat m\<rparr>)))))"

definition legacy_local :: "nft_spec \<Rightarrow> json \<Rightarrow> nft_spec" where
  "legacy_local s item =
     (case jobject ''match'' item of
        None \<Rightarrow> s
      | Some m \<Rightarrow>
          (case jobject ''left'' m of
             None \<Rightarrow> s
           | Some left \<Rightarrow>
               if jfield ''fib'' left = None then s
               else set_listen (if Family s = 4 then ipv4_unspecified else ipv6_unspecified) s))"

text \<open>The pairs of a port map: both members, in the order of the listening ports, one after the other.\<close>

definition legacy_pair :: "json \<Rightarrow> legacy_error + int \<times> int" where
  "legacy_pair v =
     (case v of
        JArr [x, y] \<Rightarrow>
          (case nftJSONUint x 16 of
             None \<Rightarrow> Inl LegacyNumber
           | Some a \<Rightarrow> (case nftJSONUint y 16 of None \<Rightarrow> Inl LegacyNumber | Some b \<Rightarrow> Inr (int a, int b)))
      | _ \<Rightarrow> Inl LegacyPair)"

fun legacy_pairs :: "json list \<Rightarrow> legacy_error + (int \<times> int) list" where
  "legacy_pairs [] = Inr []"
| "legacy_pairs (v # vs) = rbind (legacy_pair v) (\<lambda>p. rbind (legacy_pairs vs) (\<lambda>ps. Inr (p # ps)))"

fun consecutive :: "int \<Rightarrow> int \<Rightarrow> (int \<times> int) list \<Rightarrow> bool" where
  "consecutive a b [] \<longleftrightarrow> True"
| "consecutive a b ((p, q) # ps) \<longleftrightarrow> p = a \<and> q = b \<and> consecutive (a + 1) (b + 1) ps"

definition legacy_map :: "json \<Rightarrow> nft_spec \<Rightarrow> legacy_error + nft_spec" where
  "legacy_map port s =
     (case jobject ''map'' port of
        None \<Rightarrow> Inl LegacyMapping
      | Some mapping \<Rightarrow>
          (case jobject ''data'' mapping of
             None \<Rightarrow> Inl LegacyMap
           | Some data \<Rightarrow>
               (case jarray ''set'' data of
                  None \<Rightarrow> Inl LegacyMapSize
                | Some vs \<Rightarrow>
                    if vs = [] \<or> 4096 < length vs then Inl LegacyMapSize
                    else
                      rbind (legacy_pairs vs) (\<lambda>unsorted.
                        let ports = sort_key fst unsorted in
                        if \<not> consecutive (fst (hd ports)) (snd (hd ports)) ports then Inl LegacyOrder
                        else Inr (set_target_ports (snd (hd ports), snd (hd ports) + int (length ports) - 1) s)))))"

definition legacy_dnat :: "nft_spec \<Rightarrow> json \<Rightarrow> legacy_error + nft_spec" where
  "legacy_dnat s item =
     (case jobject ''dnat'' item of
        None \<Rightarrow> Inr s
      | Some dnat \<Rightarrow>
          (case parse_addr (text_of (jval ''addr'' dnat)) of
             None \<Rightarrow> Inl LegacyTarget
           | Some a \<Rightarrow>
               let s1 = set_target a s; port = jval ''port'' dnat in
               if is_object port then legacy_map port s1
               else (case nftJSONPortRange port of None \<Rightarrow> Inl LegacyPort | Some p \<Rightarrow> Inr (set_target_ports p s1))))"

definition legacy_item :: "string \<Rightarrow> nft_spec \<Rightarrow> json \<Rightarrow> legacy_error + nft_spec" where
  "legacy_item ip s item =
     rbind (legacy_payload ip s item) (\<lambda>s1.
       if \<not> is_object item then Inl LegacyItem
       else rbind (legacy_mark s1 item) (\<lambda>s2. legacy_dnat (legacy_local s2 item) item))"

fun legacy_items :: "string \<Rightarrow> nft_spec \<Rightarrow> json list \<Rightarrow> legacy_error + nft_spec" where
  "legacy_items ip s [] = Inr s"
| "legacy_items ip s (x # xs) = rbind (legacy_item ip s x) (\<lambda>s1. legacy_items ip s1 xs)"

text \<open>The expected rule with the comment of the rule found.\<close>

definition expected_with_comment :: "nft_spec \<Rightarrow> string \<Rightarrow> json" where
  "expected_with_comment s comment = nft_rule ''prerouting'' comment (expected_nat s ''prerouting'')"

definition legacy_rule :: "string \<Rightarrow> bool \<Rightarrow> json \<Rightarrow> legacy_error + nft_spec" where
  "legacy_rule owner flowtable rule =
     (let comment = text_of (jval ''comment'' rule) in
      case split_on CHR '':'' comment of
        [p0, tag, fam, protocol, hook] \<Rightarrow>
          if p0 \<noteq> ''pb'' \<or> hook \<noteq> ''prerouting'' \<or> \<not> validNFTIdentity (CHR ''l'' # tag) then Inl LegacyComment
          else
            (case atoi fam of
               None \<Rightarrow> Inl LegacyFamily
             | Some family \<Rightarrow>
                 (case jarray ''expr'' rule of
                    None \<Rightarrow> Inl LegacyExpressions
                  | Some expr \<Rightarrow>
                      rbind (legacy_items (ip_name family)
                               (blank_spec (''kernel-l'' @ tag) (CHR ''l'' # tag) family protocol flowtable) expr) (\<lambda>s.
                        if \<not> validateRetirementSpec s \<or> nftOwnerMarker (ConntrackMark s) \<noteq> owner then Inl LegacyOwner
                        else if nftRuleInspectionKey rule \<noteq> nftRuleInspectionKey (expected_with_comment s comment)
                        then Inl LegacyPolicy
                        else Inr s)))
      | _ \<Rightarrow> Inl LegacyComment)"

section \<open>The table\<close>

definition has_flowtable :: "json list \<Rightarrow> bool" where
  "has_flowtable objects \<longleftrightarrow> list_ex (\<lambda>x. jfield ''flowtable'' x \<noteq> None) objects"

fun legacy_rules :: "string \<Rightarrow> bool \<Rightarrow> json list \<Rightarrow> legacy_error + nft_spec list" where
  "legacy_rules owner flowtable [] = Inr []"
| "legacy_rules owner flowtable (object # objects) =
     (case jobject ''rule'' object of
        None \<Rightarrow> legacy_rules owner flowtable objects
      | Some rule \<Rightarrow>
          if jval ''chain'' rule \<noteq> JStr ''prerouting'' then legacy_rules owner flowtable objects
          else rbind (legacy_rule owner flowtable rule) (\<lambda>s.
                 rbind (legacy_rules owner flowtable objects) (\<lambda>ss. Inr (s # ss))))"

definition recoverLegacyNFTSpecs :: "json list \<Rightarrow> string \<Rightarrow> legacy_error + nft_spec list" where
  "recoverLegacyNFTSpecs objects owner = legacy_rules owner (has_flowtable objects) objects"

section \<open>Reading what the renderer wrote\<close>

definition legacy_image :: "bool \<Rightarrow> nft_spec \<Rightarrow> nft_spec" where
  "legacy_image flowtable s =
     (let tag = take 12 (sha256_hex (RuleID s)) in
      s\<lparr>RuleID := ''kernel-l'' @ tag, ruleIdentity := CHR ''l'' # tag, EnableFlowtable := flowtable,
        ListenPortEnd := nftLastPort s, TargetPortEnd := nftLastTargetPort s\<rparr>)"

lemma jmark_object [simp]: "\<not> is_object (jint n)"
  by (simp add: is_object_def)

lemma port_pairs_read:
  assumes v: "validateRetirementSpec s"
  shows "legacy_pairs (map (\<lambda>(p, q). JArr [jint p, jint q]) (port_pairs s)) = Inr (port_pairs s)"
proof -
  have "legacy_pair (JArr [jint p, jint (TargetPort s + p - ListenPort s)]) = Inr (p, TargetPort s + p - ListenPort s)"
    if "p \<in> set [ListenPort s..ListenPortEnd s]" for p
  proof -
    have "1 \<le> ListenPort s" using v by (simp add: validateRetirementSpec_def)
    then have "p \<le> nftLastPort s" using that by (auto simp: nftLastPort_def)
    then have "0 \<le> p" "p < 2 ^ 16" "0 \<le> TargetPort s + p - ListenPort s" "TargetPort s + p - ListenPort s < 2 ^ 16"
      using that v by (auto simp: validateRetirementSpec_def)
    then show ?thesis by (simp add: legacy_pair_def nftJSONUint_num)
  qed
  then have "legacy_pairs (map (\<lambda>(p, q). JArr [jint p, jint q]) (map (\<lambda>p. (p, TargetPort s + p - ListenPort s)) ps))
      = Inr (map (\<lambda>p. (p, TargetPort s + p - ListenPort s)) ps)" if "set ps \<subseteq> set [ListenPort s..ListenPortEnd s]" for ps
    using that by (induction ps) auto
  from this[OF subset_refl] show ?thesis by (simp only: port_pairs_def)
qed

lemma consecutive_pairs: "consecutive a (t + a - l) (map (\<lambda>p. (p, t + p - l)) [a..b])"
proof (induction "nat (b - a + 1)" arbitrary: a)
  case 0
  then show ?case by simp
next
  case (Suc n)
  then have "[a..b] = a # [a + 1..b]" by (subst upto.simps) simp
  moreover have "consecutive (a + 1) (t + (a + 1) - l) (map (\<lambda>p. (p, t + p - l)) [a + 1..b])"
    using Suc by (intro Suc.hyps(1)) simp
  ultimately show ?case by (simp add: algebra_simps)
qed

lemma port_pairs_sorted: "sort_key fst (port_pairs s) = port_pairs s"
  by (rule sort_key_id_if_sorted) (simp add: port_pairs_def comp_def)

text \<open>The expressions one by one.\<close>

lemma item_meta:
  "legacy_item ip s (nft_match ''=='' (JObj [(''meta'', x)]) r) = Inr s"
  by (simp add: legacy_item_def legacy_payload_def nftPayloadMatch_def nft_match_def jobject_def is_object_def
      legacy_mark_def legacy_local_def legacy_dnat_def)

lemma item_fib:
  "legacy_item ip s (nft_match ''=='' (JObj [(''fib'', x)]) r) =
     Inr (set_listen (if Family s = 4 then ipv4_unspecified else ipv6_unspecified) s)"
  by (simp add: legacy_item_def legacy_payload_def nftPayloadMatch_def nft_match_def jobject_def is_object_def
      legacy_mark_def legacy_local_def legacy_dnat_def)

lemma item_payload:
  "legacy_item ip s (nft_match ''=='' (nft_payload p f) r) = legacy_payload ip s (nft_match ''=='' (nft_payload p f) r)"
  by (cases "legacy_payload ip s (nft_match ''=='' (nft_payload p f) r)")
    (simp_all add: legacy_item_def nft_match_def nft_payload_def jobject_def is_object_def
      legacy_mark_def legacy_local_def legacy_dnat_def)

lemma item_mark:
  "legacy_item ip s (JObj [(''mangle'', JObj [(''key'', nft_ct ''mark''), (''value'', jmark m)])]) = Inr (s\<lparr>ConntrackMark := m\<rparr>)"
  by (simp add: legacy_item_def legacy_payload_def nftPayloadMatch_def nft_ct_def jobject_def is_object_def
      legacy_mark_def legacy_local_def legacy_dnat_def mark_read)

lemma item_counter: "legacy_item ip s (JObj [(''counter'', v)]) = Inr s"
  by (simp add: legacy_item_def legacy_payload_def nftPayloadMatch_def jobject_def is_object_def
      legacy_mark_def legacy_local_def legacy_dnat_def)

lemma item_dnat:
  "legacy_item ip s (JObj [(''dnat'', v)]) = legacy_dnat s (JObj [(''dnat'', v)])"
  by (simp add: legacy_item_def legacy_payload_def nftPayloadMatch_def jobject_def is_object_def
      legacy_mark_def legacy_local_def)

lemma nft_port_object: "is_object (nft_port a b) \<longleftrightarrow> \<not> (b = 0 \<or> b = a)"
  by (simp add: nft_port_def is_object_def)

lemma dnat_read:
  assumes v: "validateRetirementSpec s"
  shows "legacy_dnat t (JObj [(''dnat'', JObj [(''family'', x), (''addr'', JStr (addr_string (TargetHost s))), (''port'', expected_dnat_port s)])])
     = Inr (set_target_ports (TargetPort s, nftLastTargetPort s) (set_target (TargetHost s) t))"
proof -
  have "is_valid (TargetHost s)" and len: "nftLastPort s - ListenPort s = nftLastTargetPort s - TargetPort s"
    and l1: "1 \<le> ListenPort s" "nftLastPort s - ListenPort s + 1 \<le> 4096" and t1: "1 \<le> TargetPort s"
    using v unfolding validateRetirementSpec_def by auto
  then have addr: "parse_addr (addr_string (TargetHost s)) = Some (TargetHost s)" by (simp add: parse_addr_string)
  show ?thesis
  proof (cases "ListenPort s < ListenPortEnd s")
    case True
    then have last: "nftLastPort s = ListenPortEnd s" using l1 by (simp add: nftLastPort_def)
    have pairs: "port_pairs s = (ListenPort s, TargetPort s) # map (\<lambda>p. (p, TargetPort s + p - ListenPort s)) [ListenPort s + 1..ListenPortEnd s]"
      using True by (simp add: port_pairs_def upto_rec1)
    have n: "length (port_pairs s) = nat (ListenPortEnd s - ListenPort s + 1)" by (simp add: port_pairs_def)
    have "consecutive (ListenPort s) (TargetPort s) (port_pairs s)"
      using consecutive_pairs[of "ListenPort s" "TargetPort s" "ListenPort s"] by (simp add: port_pairs_def)
    moreover have "length (port_pairs s) \<le> 4096" using l1 last unfolding n by linarith
    moreover have "TargetPort s + int (length (port_pairs s)) - 1 = nftLastTargetPort s"
      using len last True unfolding n by simp
    moreover have "fst (hd (port_pairs s)) = ListenPort s" "snd (hd (port_pairs s)) = TargetPort s" "port_pairs s \<noteq> []"
      by (simp_all add: pairs)
    ultimately show ?thesis
      using True port_pairs_read[OF v] port_pairs_sorted[of s]
      by (simp add: legacy_dnat_def jobject_def addr text_of_def expected_dnat_port_def is_object_def legacy_map_def
          jarray_def Let_def)
  next
    case False
    have "nftJSONPortRange (nft_port (TargetPort s) (TargetPortEnd s)) = Some (TargetPort s, nftLastTargetPort s)"
      by (rule valid_ports(2)[OF v])
    moreover have "\<not> is_object (nft_port (TargetPort s) (TargetPortEnd s))"
    proof -
      have "nftLastPort s = ListenPort s" using False v unfolding nftLastPort_def validateRetirementSpec_def
        by (auto simp: nftLastPort_def split: if_splits)
      then have "nftLastTargetPort s = TargetPort s" using len by simp
      then show ?thesis unfolding nft_port_object nftLastTargetPort_def by (auto split: if_splits)
    qed
    ultimately show ?thesis using False
      by (simp add: legacy_dnat_def jobject_def addr text_of_def expected_dnat_port_def)
  qed
qed

lemma legacy_items_append: "legacy_items ip s (xs @ ys) = rbind (legacy_items ip s xs) (\<lambda>t. legacy_items ip t ys)"
  by (induction xs arbitrary: s) (simp_all add: rbind_def split: sum.split)

lemma destination_read:
  assumes v: "validateRetirementSpec s" and f: "Family t = Family s"
  shows "legacy_items (ip_name (Family s)) t (expected_destination s ''prerouting'') = Inr (set_listen (ListenHost s) t)"
proof (cases "is_unspecified (ListenHost s)")
  case True
  have "is4 (ListenHost s) = (Family s = 4)" using v unfolding validateRetirementSpec_def by blast
  then have "ListenHost s = (if Family s = 4 then ipv4_unspecified else ipv6_unspecified)"
    using True by (auto simp: is_unspecified_def ipv4_unspecified_def ipv6_unspecified_def)
  with True f show ?thesis by (simp add: expected_destination_def Let_def item_meta item_fib)
next
  case False
  have p: "Protocol s = ''tcp'' \<or> Protocol s = ''udp''" and "is_valid (ListenHost s)"
    using v unfolding validateRetirementSpec_def by blast+
  then have "parse_addr (addr_string (ListenHost s)) = Some (ListenHost s)" by (simp add: parse_addr_string)
  with False show ?thesis
    by (simp add: expected_destination_def Let_def item_payload legacy_payload_def match_read text_of_def)
qed

lemma dport_read:
  assumes v: "validateRetirementSpec s" and p: "Protocol t = Protocol s"
  shows "legacy_item (ip_name (Family s)) t (nft_match ''=='' (nft_payload (Protocol s) ''dport'') (nft_port (ListenPort s) (ListenPortEnd s)))
     = Inr (set_listen_ports (ListenPort s, nftLastPort s) t)"
  using p valid_ports[OF v] by (simp add: item_payload legacy_payload_def match_read)

lemma set_simps [simp]:
  "Family (set_listen a s) = Family s" "Protocol (set_listen a s) = Protocol s"
  by (simp_all add: set_listen_def)

lemma nat_items_read:
  assumes v: "validateRetirementSpec s"
  shows "legacy_items (ip_name (Family s)) (blank_spec raw ident (Family s) (Protocol s) flow)
      (map (stamp_counter vs) (expected_nat s ''prerouting'')) =
    Inr (s\<lparr>RuleID := raw, ruleIdentity := ident, EnableFlowtable := flow, ListenPortEnd := nftLastPort s,
          TargetPortEnd := nftLastTargetPort s\<rparr>)"
proof -
  have dest: "map (stamp_counter vs) (expected_destination s ''prerouting'') = expected_destination s ''prerouting''"
    by (simp add: expected_destination_def Let_def nft_match_def)
  have tail: "map (stamp_counter vs) (expected_nat s ''prerouting'') = expected_destination s ''prerouting''
    @ [nft_match ''=='' (nft_payload (Protocol s) ''dport'') (nft_port (ListenPort s) (ListenPortEnd s)),
        JObj [(''mangle'', JObj [(''key'', nft_ct ''mark''), (''value'', jmark (ConntrackMark s))])],
        JObj [(''counter'', JObj vs)],
        JObj [(''dnat'', JObj [(''family'', JStr (ip_name (Family s))), (''addr'', JStr (addr_string (TargetHost s))),
                             (''port'', expected_dnat_port s)])]]"
    unfolding expected_nat_def map_append dest by (simp add: nft_match_def)
  have b: "Family (blank_spec raw ident (Family s) (Protocol s) flow) = Family s"
    "Protocol (blank_spec raw ident (Family s) (Protocol s) flow) = Protocol s" by (simp_all add: blank_spec_def)
  show ?thesis
    unfolding tail legacy_items_append destination_read[OF v b(1)]
    by (simp add: dport_read[OF v] b item_mark item_counter item_dnat dnat_read[OF v])
      (simp add: set_listen_def set_target_def set_listen_ports_def set_target_ports_def blank_spec_def)
qed

lemma hex_encode_take: "take (2 * n) (hex_encode bs) = hex_encode (take n bs)"
  by (induction bs arbitrary: n; case_tac n) (simp_all add: hex_encode_def)

lemma tag_facts:
  "short_identity (CHR ''l'' # take 12 (sha256_hex i))" "validNFTIdentity (CHR ''l'' # take 12 (sha256_hex i))"
  "CHR '':'' \<notin> set (take 12 (sha256_hex i))"
proof -
  have len: "length (take 12 (sha256_hex i)) = 12" by (simp add: sha256_hex_length)
  then show s: "short_identity (CHR ''l'' # take 12 (sha256_hex i))" by (simp add: short_identity_def)
  have "take 12 (sha256_hex i) = hex_encode (take 6 (sha256 i))" unfolding sha256_hex_def using hex_encode_take[of 6] by simp
  then have "hex_decode (take 12 (sha256_hex i)) \<noteq> None" by (simp add: hex_decode_encode)
  with s show "validNFTIdentity (CHR ''l'' # take 12 (sha256_hex i))" by (simp add: validNFTIdentity_def)
  show "CHR '':'' \<notin> set (take 12 (sha256_hex i))"
    using sha256_hex_chars[of "CHR '':''" i] hex_no_colon in_set_takeD[of "CHR '':''" 12 "sha256_hex i"] by blast
qed

lemma legacy_image_nat:
  assumes v: "validateRetirementSpec s"
  shows "expected_nat (legacy_image flow s) ''prerouting'' = expected_nat s ''prerouting''"
proof -
  have p: "1 \<le> ListenPort s" "1 \<le> TargetPort s" using v unfolding validateRetirementSpec_def by auto
  then have "nft_port (ListenPort s) (nftLastPort s) = nft_port (ListenPort s) (ListenPortEnd s)"
    "nft_port (TargetPort s) (nftLastTargetPort s) = nft_port (TargetPort s) (TargetPortEnd s)"
    by (auto simp: nft_port_def nftLastPort_def nftLastTargetPort_def)
  moreover have "(ListenPort s < nftLastPort s) = (ListenPort s < ListenPortEnd s)"
    "ListenPort s < ListenPortEnd s \<Longrightarrow> port_pairs (legacy_image flow s) = port_pairs s"
    using p by (auto simp: nftLastPort_def port_pairs_def legacy_image_def Let_def)
  ultimately show ?thesis
    by (auto simp: expected_nat_def expected_destination_def expected_dnat_port_def legacy_image_def Let_def)
qed

lemma legacy_image_valid: "validateRetirementSpec (legacy_image flow s) = validateRetirementSpec s"
  by (simp add: validateRetirementSpec_def legacy_image_def Let_def nftLastPort_def nftLastTargetPort_def)

lemma legacy_rule_listed:
  assumes v: "validateRetirementSpec s" and owner: "nftOwnerMarker (ConntrackMark s) = owner" and cv: "counter_values vs"
  shows "legacy_rule owner flow (listed_rule h vs (nftExpectedRule s ''prerouting'')) = Inr (legacy_image flow s)"
proof -
  have p: "Protocol s = ''tcp'' \<or> Protocol s = ''udp''" and f: "Family s = 4 \<or> Family s = 6"
    using v unfolding validateRetirementSpec_def by blast+
  let ?tag = "take 12 (sha256_hex (RuleID s))"
  let ?rule = "listed_rule h vs (nftExpectedRule s ''prerouting'')"
  let ?parts = "[''pb'', ?tag, itoa (Family s), Protocol s, ''prerouting'']"
  have "\<forall>x\<in>set ?parts. CHR '':'' \<notin> set x" using tag_facts(3) itoa_no_colon p by auto
  then have split: "split_on CHR '':'' (nftComment s ''prerouting'') = ?parts"
    unfolding nftComment_def by (intro split_on_join) simp_all
  have fam: "atoi (itoa (Family s)) = Some (Family s)" using f by (intro atoi_itoa) auto
  have rule: "nftExpectedRule s ''prerouting'' = nft_rule ''prerouting'' (nftComment s ''prerouting'') (expected_nat s ''prerouting'')"
    by (simp add: nftExpectedRule_def)
  have comment: "text_of (jval ''comment'' ?rule) = nftComment s ''prerouting''" by (simp add: rule text_of_def)
  have expr: "jarray ''expr'' ?rule = Some (map (stamp_counter vs) (expected_nat s ''prerouting''))"
    unfolding rule by (rule listed_rule_expr)
  have "x = JObj [(''counter'', JObj [])] \<or> stamp_counter vs x = x" if "x \<in> set (expected_nat s ''prerouting'')" for x
    using that by (auto simp: expected_nat_def expected_destination_def Let_def nft_match_def split: if_splits)
  then have key: "nftRuleInspectionKey ?rule =
      nftRuleInspectionKey (expected_with_comment (legacy_image flow s) (nftComment s ''prerouting''))"
    unfolding expected_with_comment_def legacy_image_nat[OF v] unfolding rule by (intro listed_rule_key cv) blast
  note items = nat_items_read[OF v, of "''kernel-l'' @ ?tag" "CHR ''l'' # ?tag" flow vs]
  have image: "s\<lparr>RuleID := ''kernel-l'' @ ?tag, ruleIdentity := CHR ''l'' # ?tag, EnableFlowtable := flow,
      ListenPortEnd := nftLastPort s, TargetPortEnd := nftLastTargetPort s\<rparr> = legacy_image flow s"
    by (simp add: legacy_image_def Let_def)
  have mark: "ConntrackMark (legacy_image flow s) = ConntrackMark s" by (simp add: legacy_image_def Let_def)
  have "legacy_rule owner flow ?rule =
    rbind (legacy_items (ip_name (Family s))
            (blank_spec (''kernel-l'' @ ?tag) (CHR ''l'' # ?tag) (Family s) (Protocol s) flow)
            (map (stamp_counter vs) (expected_nat s ''prerouting'')))
      (\<lambda>t. if \<not> validateRetirementSpec t \<or> nftOwnerMarker (ConntrackMark t) \<noteq> owner then Inl LegacyOwner
           else if nftRuleInspectionKey ?rule \<noteq> nftRuleInspectionKey (expected_with_comment t (nftComment s ''prerouting''))
           then Inl LegacyPolicy else Inr t)"
    unfolding legacy_rule_def Let_def comment split list.case fam option.case expr using tag_facts(2) by simp
  also have "\<dots> = Inr (legacy_image flow s)"
    unfolding items image using key legacy_image_valid[of flow s] v owner mark by simp
  finally show ?thesis .
qed

section \<open>The whole table\<close>

definition foreign_to_nat :: "json \<Rightarrow> bool" where
  "foreign_to_nat x \<longleftrightarrow> (case jobject ''rule'' x of None \<Rightarrow> True | Some r \<Rightarrow> jval ''chain'' r \<noteq> JStr ''prerouting'')"

text \<open>The objects of a table: foreign ones, and the listed prerouting rules of specs, in any order.\<close>

datatype table_entry = Foreign json | Nat nft_spec json "(string \<times> json) list"

fun table_object :: "table_entry \<Rightarrow> json" where
  "table_object (Foreign x) = x"
| "table_object (Nat s h vs) = JObj [(''rule'', listed_rule h vs (nftExpectedRule s ''prerouting''))]"

fun table_entry_ok :: "string \<Rightarrow> table_entry \<Rightarrow> bool" where
  "table_entry_ok owner (Foreign x) \<longleftrightarrow> foreign_to_nat x"
| "table_entry_ok owner (Nat s h vs) \<longleftrightarrow>
     validateRetirementSpec s \<and> nftOwnerMarker (ConntrackMark s) = owner \<and> counter_values vs"

fun nat_specs :: "table_entry list \<Rightarrow> nft_spec list" where
  "nat_specs [] = []"
| "nat_specs (Foreign x # es) = nat_specs es"
| "nat_specs (Nat s h vs # es) = s # nat_specs es"

lemma legacy_rules_listed:
  "\<forall>e\<in>set es. table_entry_ok owner e \<Longrightarrow>
   legacy_rules owner flow (map table_object es) = Inr (map (legacy_image flow) (nat_specs es))"
proof (induction es)
  case (Cons e es)
  show ?case
  proof (cases e)
    case (Foreign x)
    with Cons show ?thesis by (cases "jobject ''rule'' x") (simp_all add: foreign_to_nat_def)
  next
    case (Nat s h vs)
    have "jobject ''rule'' (table_object e) = Some (listed_rule h vs (nftExpectedRule s ''prerouting''))"
      by (simp add: Nat jobject_def listed_rule_def)
    moreover have "jval ''chain'' (listed_rule h vs (nftExpectedRule s ''prerouting'')) = JStr ''prerouting''"
      by (simp add: nftExpectedRule_def)
    moreover have "legacy_rule owner flow (listed_rule h vs (nftExpectedRule s ''prerouting'')) = Inr (legacy_image flow s)"
      using Cons.prems by (intro legacy_rule_listed) (simp_all add: Nat)
    ultimately show ?thesis using Cons Nat by (simp del: table_object.simps)
  qed
qed simp

end
