(* ===== verification/Nft_Identity.thy ===== *)
theory Nft_Identity
  imports Nft_Legacy
begin

text \<open>
  Identities: which specs are well formed after recovery, and what the resolution of a tag against the desired
  rules achieves.
\<close>

section \<open>Candidates\<close>

text \<open>One candidate is enough: every desired spec with the tag has the identity sought.\<close>

definition matches_identity :: "string \<Rightarrow> nft_spec \<Rightarrow> bool" where
  "matches_identity ident want \<longleftrightarrow>
     nftRuleIdentity want = ident \<or> short_identity ident \<and> has_prefix (drop 1 ident) (nftRuleIdentity want)"

definition add_candidate :: "string \<Rightarrow> (string \<times> string) list \<Rightarrow> nft_spec \<Rightarrow> (string \<times> string) list" where
  "add_candidate ident cands want =
     (let full = nftRuleIdentity want in
      if matches_identity ident want \<and> full \<notin> fst ` set cands then (full, RuleID want) # cands else cands)"

lemma resolve_candidates_loop: "resolve_candidates ident desired = rev (foldl (add_candidate ident) [] desired)"
  by (simp add: resolve_candidates_def add_candidate_def[abs_def] matches_identity_def)

lemma candidates_single:
  assumes "\<forall>w\<in>set desired. matches_identity ident w \<longrightarrow> nftRuleIdentity w = full"
  shows "foldl (add_candidate ident) [(full, raw)] desired = [(full, raw)]"
  using assms by (induction desired) (auto simp: add_candidate_def Let_def)

lemma candidates_loop:
  assumes "\<forall>w\<in>set desired. matches_identity ident w \<longrightarrow> nftRuleIdentity w = full"
    and "list_ex (matches_identity ident) desired"
  shows "\<exists>raw. foldl (add_candidate ident) [] desired = [(full, raw)]"
  using assms
proof (induction desired)
  case (Cons w ws)
  show ?case
  proof (cases "matches_identity ident w")
    case True
    with Cons.prems have "add_candidate ident [] w = [(full, RuleID w)]" by (simp add: add_candidate_def)
    with candidates_single[of ws ident full "RuleID w"] Cons.prems(1) show ?thesis by simp
  next
    case False
    then have "add_candidate ident [] w = []" by (simp add: add_candidate_def)
    with Cons False show ?thesis by simp
  qed
qed simp

lemma resolve_unique:
  assumes "\<forall>w\<in>set desired. matches_identity (nftRuleIdentity s) w \<longrightarrow> nftRuleIdentity w = full"
    and "list_ex (matches_identity (nftRuleIdentity s)) desired"
  shows "\<exists>raw. resolve_identity desired s = s\<lparr>RuleID := raw, ruleIdentity := full\<rparr>"
  using candidates_loop[OF assms] by (auto simp: resolve_identity_def resolve_candidates_loop)

lemma legacy_identity: "nftRuleIdentity (legacy_image flow s) = CHR ''l'' # take 12 (sha256_hex (RuleID s))"
  by (simp add: legacy_image_def Let_def nftRuleIdentity_def)

text \<open>The tag of a rule is a prefix of its identity.\<close>

lemma legacy_matches:
  assumes "ruleIdentity s = []"
  shows "matches_identity (nftRuleIdentity (legacy_image flow s)) s"
proof -
  have len: "length (take 12 (sha256_hex (RuleID s))) = 12" using tag_facts by (simp add: sha256_hex_length)
  then have "short_identity (nftRuleIdentity (legacy_image flow s))"
    by (simp add: legacy_identity short_identity_def)
  moreover have "has_prefix (take 12 (sha256_hex (RuleID s))) (nftRuleIdentity s)"
    using assms len by (simp add: has_prefix_def nftRuleIdentity_def)
  ultimately show ?thesis by (simp add: matches_identity_def legacy_identity)
qed

lemma legacy_resolved:
  assumes v: "validateRetirementSpec s" and i: "ruleIdentity s = []" and mem: "s \<in> set desired"
    and unique: "\<forall>w\<in>set desired. matches_identity (nftRuleIdentity (legacy_image flow s)) w \<longrightarrow> nftRuleIdentity w = nftRuleIdentity s"
  shows "spec_tuples (resolve_identity desired (legacy_image flow s)) = spec_tuples s"
proof -
  from legacy_matches[OF i] mem have "list_ex (matches_identity (nftRuleIdentity (legacy_image flow s))) desired"
    by (auto simp: list_ex_iff)
  from resolve_unique[OF unique this] obtain raw where
    r: "resolve_identity desired (legacy_image flow s) = (legacy_image flow s)\<lparr>RuleID := raw, ruleIdentity := nftRuleIdentity s\<rparr>"
    by blast
  have ident: "nftRuleIdentity s \<noteq> []" using i sha256_hex_length[of "RuleID s"] by (auto simp: nftRuleIdentity_def)
  have "1 \<le> nftLastPort s" using v by (auto simp: validateRetirementSpec_def)
  then have "nftLastPort ((legacy_image flow s)\<lparr>RuleID := raw, ruleIdentity := nftRuleIdentity s\<rparr>) = nftLastPort s"
    by (simp add: nftLastPort_def legacy_image_def Let_def)
  then show ?thesis unfolding r using ident
    by (simp add: spec_tuples_def spec_ports_def tuple_at_def legacy_image_def Let_def nftRuleIdentity_def)
qed

text \<open>Every candidate is the identity and the name of a desired spec.\<close>

lemma candidates_from:
  "set (foldl (add_candidate ident) cands desired) \<subseteq> set cands \<union> (\<lambda>w. (nftRuleIdentity w, RuleID w)) ` set desired"
  by (induction desired arbitrary: cands) (fastforce simp: add_candidate_def Let_def split: if_splits)+

lemma resolve_cases:
  "resolve_identity desired s = s
   \<or> (\<exists>w\<in>set desired. resolve_identity desired s = s\<lparr>RuleID := RuleID w, ruleIdentity := nftRuleIdentity w\<rparr>)"
proof (cases "\<exists>full raw. resolve_candidates (nftRuleIdentity s) desired = [(full, raw)]")
  case True
  then obtain full raw where r: "resolve_candidates (nftRuleIdentity s) desired = [(full, raw)]" by blast
  then have "(full, raw) \<in> set (foldl (add_candidate (nftRuleIdentity s)) [] desired)"
    unfolding resolve_candidates_loop by (metis list.set_intros(1) set_rev)
  then have "(full, raw) \<in> (\<lambda>w. (nftRuleIdentity w, RuleID w)) ` set desired"
    using candidates_from[of "nftRuleIdentity s" "[]" desired] by auto
  then show ?thesis using r by (auto simp: resolve_identity_def)
next
  case False
  then have "resolve_identity desired s = s"
    by (auto simp: resolve_identity_def split: list.split prod.split)
  then show ?thesis ..
qed

section \<open>Well-formed specs\<close>

lemma spec_ok_named: "spec_ok s \<Longrightarrow> validNFTIdentity i \<Longrightarrow> spec_ok (s\<lparr>RuleID := r, ruleIdentity := i\<rparr>)"
proof -
  assume ok: "spec_ok s" and i: "validNFTIdentity i"
  then have "i \<noteq> []" by (auto simp: validNFTIdentity_def short_identity_def split: if_splits)
  moreover have "validateRetirementSpec (s\<lparr>RuleID := r, ruleIdentity := i\<rparr>) = validateRetirementSpec s"
    by (simp add: validateRetirementSpec_def nftLastPort_def nftLastTargetPort_def)
  ultimately show ?thesis using ok i by (simp add: spec_ok_def nftRuleIdentity_def)
qed

lemma resolved_ok:
  assumes "specs_ok specs" and "specs_ok desired"
  shows "specs_ok (resolveNFTIdentities specs desired)"
proof -
  have "spec_ok (resolve_identity desired s)" if "spec_ok s" for s
    using resolve_cases[of desired s] spec_ok_named[OF that] that assms(2)
    by (auto simp: specs_ok_def) (auto simp: spec_ok_def)
  with assms(1) show ?thesis by (auto simp: resolveNFTIdentities_def specs_ok_def)
qed

lemma recovered_ok: "validateRetirementSpec s \<Longrightarrow> validNFTIdentity (ruleIdentity s) \<Longrightarrow> spec_ok s"
  by (auto simp: spec_ok_def nftRuleIdentity_def validNFTIdentity_def short_identity_def split: if_splits)

lemma journal_item_identity: "journal_item ip s x = Inr t \<Longrightarrow> ruleIdentity t = ruleIdentity s"
  by (auto simp: journal_item_def journal_payload_def set_listen_def set_target_def set_listen_ports_def set_target_ports_def
      split: option.splits if_splits prod.splits)

lemma journal_items_identity: "journal_items ip s xs = Inr t \<Longrightarrow> ruleIdentity t = ruleIdentity s"
  by (induction xs arbitrary: s) (auto dest: journal_item_identity)

lemma decode_record_ok: "decode_record owner rule = Inr (role, s) \<Longrightarrow> spec_ok s"
  by (auto simp: decode_record_def blank_spec_def dest!: journal_items_identity intro!: recovered_ok
      split: list.splits option.splits if_splits)

definition journal_ok :: "journal_state \<Rightarrow> bool" where
  "journal_ok j \<longleftrightarrow> specs_ok (j_active j @ j_retired j @ j_suspended j)"

lemma journal_chains_ok: "journal_chains xs j = Inr j' \<Longrightarrow> journal_ok j \<Longrightarrow> journal_ok j'"
  by (induction xs j rule: journal_chains.induct) (auto simp: journal_ok_def Let_def split: option.splits if_splits json.splits)

lemma journal_records_ok: "journal_records owner xs j = Inr j' \<Longrightarrow> journal_ok j \<Longrightarrow> journal_ok j'"
proof (induction owner xs j rule: journal_records.induct)
  case (2 owner x xs j)
  show ?case
  proof (cases "jobject ''rule'' x")
    case None
    with 2 show ?thesis by simp
  next
    case (Some rule)
    show ?thesis
    proof (cases "jval ''chain'' rule \<noteq> JStr nftStateChainName")
      case True
      with 2 Some show ?thesis by simp
    next
      case False
      with "2.prems"(1) Some obtain role s where d: "decode_record owner rule = Inr (role, s)"
        and r: "journal_records owner xs (add_record role s j) = Inr j'" and l: "\<not> maxNFTRetiredSpecs \<le> journal_size j"
        by (auto split: if_splits)
      have "journal_ok (add_record role s j)"
        using decode_record_ok[OF d] "2.prems"(2) by (simp add: journal_ok_def add_record_def)
      then show ?thesis using "2.IH" Some False l r d by auto
    qed
  qed
qed simp

lemma decodeNFTJournal_ok: "decodeNFTJournal objects owner = Inr j \<Longrightarrow> journal_ok j"
  by (auto simp: decodeNFTJournal_def journal_ok_def[of empty_journal] dest: journal_chains_ok journal_records_ok split: if_splits)

lemma legacy_payload_identity: "legacy_payload ip s x = Inr t \<Longrightarrow> ruleIdentity t = ruleIdentity s"
  by (auto simp: legacy_payload_def set_listen_def set_listen_ports_def split: option.splits if_splits prod.splits)

lemma legacy_mark_identity: "legacy_mark s x = Inr t \<Longrightarrow> ruleIdentity t = ruleIdentity s"
  by (auto simp: legacy_mark_def split: option.splits if_splits)

lemma legacy_local_identity: "ruleIdentity (legacy_local s x) = ruleIdentity s"
  by (simp add: legacy_local_def set_listen_def split: option.split)

lemma legacy_map_identity: "legacy_map port s = Inr t \<Longrightarrow> ruleIdentity t = ruleIdentity s"
  by (auto simp: legacy_map_def Let_def set_target_ports_def split: option.splits if_splits)

lemma legacy_dnat_identity: "legacy_dnat s x = Inr t \<Longrightarrow> ruleIdentity t = ruleIdentity s"
  by (auto simp: legacy_dnat_def Let_def set_target_def set_target_ports_def dest: legacy_map_identity
      split: option.splits if_splits)

lemma legacy_item_identity: "legacy_item ip s x = Inr t \<Longrightarrow> ruleIdentity t = ruleIdentity s"
  using legacy_local_identity
  by (auto simp: legacy_item_def dest!: legacy_payload_identity legacy_mark_identity legacy_dnat_identity split: if_splits)

lemma legacy_items_identity: "legacy_items ip s xs = Inr t \<Longrightarrow> ruleIdentity t = ruleIdentity s"
  by (induction xs arbitrary: s) (auto dest: legacy_item_identity)

lemma legacy_rule_ok: "legacy_rule owner flow rule = Inr s \<Longrightarrow> spec_ok s"
  by (auto simp: legacy_rule_def Let_def blank_spec_def dest!: legacy_items_identity intro!: recovered_ok
      split: list.splits option.splits if_splits)

lemma legacy_rules_ok: "legacy_rules owner flow xs = Inr ss \<Longrightarrow> specs_ok ss"
  by (induction xs arbitrary: ss) (auto dest: legacy_rule_ok split: option.splits if_splits)

lemma recoverLegacyNFTSpecs_ok: "recoverLegacyNFTSpecs objects owner = Inr ss \<Longrightarrow> specs_ok ss"
  unfolding recoverLegacyNFTSpecs_def by (rule legacy_rules_ok)

end
