(* ===== verification/Nft_Render.thy ===== *)
theory Nft_Render
  imports Nft_Rules
begin

text \<open>
  The transactions handed to the tool (\<^verbatim>\<open>nft.go\<close>, \<^verbatim>\<open>writeNFTJournal\<close> of \<^verbatim>\<open>nft_journal.go\<close>), as lists of lines, and
  their confinement: whatever the specs, every line is one command on the managed table.  Names are quoted as
  \<^verbatim>\<open>strconv.Quote\<close> does for ASCII text.
\<close>

section \<open>Quoting\<close>

definition quote_char :: "char \<Rightarrow> string" where
  "quote_char c =
     (let n = of_char c :: nat; b = CHR 0x5C in
      if c = CHR 0x22 then [b, c] else if c = b then [b, b]
      else if n = 7 then [b, CHR ''a''] else if n = 8 then [b, CHR ''b''] else if n = 12 then [b, CHR ''f'']
      else if n = 10 then [b, CHR ''n''] else if n = 13 then [b, CHR ''r''] else if n = 9 then [b, CHR ''t'']
      else if n = 11 then [b, CHR ''v'']
      else if n < 32 \<or> n = 127 then [b, CHR ''x'', hex_char (n div 16), hex_char (n mod 16)]
      else [c])"

definition go_quote :: "string \<Rightarrow> string" where
  "go_quote s = CHR 0x22 # concat (map quote_char s) @ [CHR 0x22]"

abbreviation newline :: char where "newline \<equiv> CHR 0x0A"

definition script_of :: "string list \<Rightarrow> string" where
  "script_of ls = concat (map (\<lambda>l. l @ [newline]) ls)"

abbreviation sp :: "string list \<Rightarrow> string" where "sp parts \<equiv> join '' '' parts"

section \<open>Matches and statements\<close>

definition mark_hex :: "32 word \<Rightarrow> string" where
  "mark_hex m = ''0x'' @ hex8 m"

definition nftDeviceSet :: "string list \<Rightarrow> string" where
  "nftDeviceSet devices = join '', '' (map go_quote devices)"

definition nftOriginalFlowMatch :: "nft_spec \<Rightarrow> string" where
  "nftOriginalFlowMatch s =
     ''ct original proto-dst '' @ portText (ListenPort s) (ListenPortEnd s)
     @ (if is_unspecified (ListenHost s) then []
        else '' ct original '' @ (if Family s = 6 then ''ip6'' else ''ip'') @ '' daddr '' @ addr_string (ListenHost s))"

definition nftDestinationMatch :: "nft_spec \<Rightarrow> string \<Rightarrow> string" where
  "nftDestinationMatch s hook =
     (let local = ''fib daddr type local'';
          address = (if is_unspecified (ListenHost s)
                     then (if hook = ''output''
                           then (if Family s = 4 then ''ip daddr != 127.0.0.0/8 '' else ''ip6 daddr != ::1 '') @ local
                           else local)
                     else (if Family s = 4 then ''ip daddr '' else ''ip6 daddr '') @ addr_string (ListenHost s))
      in ''meta nfproto '' @ (if Family s = 4 then ''ipv4'' else ''ipv6'') @ '' '' @ address)"

definition nftTargetMatch :: "nft_spec \<Rightarrow> string" where
  "nftTargetMatch s =
     (if Family s = 4 then ''meta nfproto ipv4 ip daddr '' else ''meta nfproto ipv6 ip6 daddr '') @ addr_string (TargetHost s)"

definition nftPortMap :: "nft_spec \<Rightarrow> string" where
  "nftPortMap s =
     Protocol s @ '' dport map { '' @ join '', '' (map (\<lambda>(p, q). itoa p @ '' : '' @ itoa q) (port_pairs s)) @ '' }''"

definition nftDNAT :: "nft_spec \<Rightarrow> string" where
  "nftDNAT s =
     (let family = (if Family s = 4 then ''ip'' else ''ip6'');
          host = (if Family s = 4 then addr_string (TargetHost s) else CHR ''['' # addr_string (TargetHost s) @ '']'')
      in ''dnat '' @ family @ '' to '' @ host
         @ (if ListenPort s < ListenPortEnd s then '' : '' @ nftPortMap s
            else CHR '':'' # portText (TargetPort s) (TargetPortEnd s)))"

section \<open>Rules and the journal\<close>

definition nat_line :: "nft_spec \<Rightarrow> string \<Rightarrow> string" where
  "nat_line s hook =
     sp [''add rule inet'', nftTableName, hook, nftDestinationMatch s hook, Protocol s, ''dport'',
         portText (ListenPort s) (ListenPortEnd s), ''ct mark set'', mark_hex (ConntrackMark s), ''counter'',
         nftDNAT s, ''comment'', go_quote (nftComment s hook)]"

definition postrouting_line :: "nft_spec \<Rightarrow> string" where
  "postrouting_line s =
     sp [''add rule inet'', nftTableName, ''postrouting ct mark'', mark_hex (ConntrackMark s), nftTargetMatch s,
         Protocol s, ''dport'', portText (TargetPort s) (TargetPortEnd s), ''counter masquerade comment'',
         go_quote (nftComment s ''postrouting'')]"

definition forward_line :: "nft_spec \<Rightarrow> string" where
  "forward_line s =
     (if EnableFlowtable s
      then sp [''add rule inet'', nftTableName, ''forward ct mark'', mark_hex (ConntrackMark s), nftTargetMatch s,
               Protocol s, ''dport'', portText (TargetPort s) (TargetPortEnd s), nftOriginalFlowMatch s,
               ''ct state established,related flow add @'' @ nftFlowtableName, ''counter accept comment'',
               go_quote (nftComment s ''flowtable'')]
      else sp [''add rule inet'', nftTableName, ''forward ct mark'', mark_hex (ConntrackMark s), nftTargetMatch s,
               Protocol s, ''dport'', portText (TargetPort s) (TargetPortEnd s), ''counter accept comment'',
               go_quote (nftComment s ''forward'')])"

definition spec_lines :: "nft_spec \<Rightarrow> string list" where
  "spec_lines s = [nat_line s ''prerouting'', nat_line s ''output'', postrouting_line s, forward_line s]"

definition writeNFTRules :: "nft_spec list \<Rightarrow> string list" where
  "writeNFTRules specs = concat (map spec_lines (sort_key nft_key specs))"

definition journal_line :: "string \<Rightarrow> nft_spec \<Rightarrow> string" where
  "journal_line role s =
     (let family = ip_name (Family s) in
      sp [''add rule inet'', nftTableName, nftStateChainName, family, ''daddr'', addr_string (ListenHost s),
          family, ''saddr'', addr_string (TargetHost s), Protocol s, ''sport'',
          portText (TargetPort s) (TargetPortEnd s), Protocol s, ''dport'',
          portText (ListenPort s) (ListenPortEnd s), ''ct mark'', mark_hex (ConntrackMark s), ''counter comment'',
          go_quote (nftJournalRoleComment s role)])"

record render_state =
  rs_retired :: "nft_spec list"
  rs_suspended :: "nft_spec list"
  rs_binding :: string
  rs_keepFlowtable :: bool

definition writeNFTJournal :: "nft_spec list \<Rightarrow> nft_spec list \<Rightarrow> bool \<Rightarrow> nft_spec list \<Rightarrow> string \<Rightarrow> string list" where
  "writeNFTJournal active retired create suspended binding =
     (if create then
        (if binding \<noteq> []
         then sp [''add chain inet'', nftTableName, nftStateChainName, ''{ comment'', go_quote binding @ ''; }'']
         else sp [''add chain inet'', nftTableName, nftStateChainName])
      else sp [''flush chain inet'', nftTableName, nftStateChainName])
     # map (journal_line ''a'') active @ map (journal_line ''r'') retired @ map (journal_line ''s'') suspended"

section \<open>Transactions\<close>

abbreviation DefaultNFTConntrackMark :: "32 word" where "DefaultNFTConntrackMark \<equiv> 0x50420001"

definition script_mark :: "nft_spec list \<Rightarrow> render_state \<Rightarrow> 32 word" where
  "script_mark specs st =
     (if specs \<noteq> [] \<and> ConntrackMark (hd specs) \<noteq> 0 then ConntrackMark (hd specs)
      else if rs_retired st \<noteq> [] then ConntrackMark (hd (rs_retired st))
      else if rs_suspended st \<noteq> [] then ConntrackMark (hd (rs_suspended st))
      else DefaultNFTConntrackMark)"

definition table_lines :: "nft_spec list \<Rightarrow> bool \<Rightarrow> string list \<Rightarrow> render_state \<Rightarrow> string list" where
  "table_lines specs present devices st =
     (if present then [sp [''delete table inet'', nftTableName]] else [])
     @ [sp [''add table inet'', nftTableName, ''{ comment'', go_quote (nftOwnerMarker (script_mark specs st)) @ ''; }''],
        sp [''add chain inet'', nftTableName, ''prerouting { type nat hook prerouting priority dstnat; policy accept; }''],
        sp [''add chain inet'', nftTableName, ''output { type nat hook output priority dstnat; policy accept; }''],
        sp [''add chain inet'', nftTableName, ''postrouting { type nat hook postrouting priority srcnat; policy accept; }'']]
     @ (if specsUseFlowtable specs \<or> rs_keepFlowtable st
        then [sp [''add flowtable inet'', nftTableName, nftFlowtableName,
                  ''{ hook ingress priority filter; devices = {'', nftDeviceSet (sort devices), ''}; counter; }'']]
        else [])
     @ [sp [''add chain inet'', nftTableName, ''forward { type filter hook forward priority'',
            itoa nftForwardPriority @ ''; policy accept; }'']]"

definition renderNFTScript :: "nft_spec list \<Rightarrow> bool \<Rightarrow> string list \<Rightarrow> render_state \<Rightarrow> string list" where
  "renderNFTScript specs present devices st =
     table_lines specs present devices st @ writeNFTRules specs
     @ (if specs = [] \<and> rs_retired st = [] \<and> rs_suspended st = [] then []
        else writeNFTJournal specs (rs_retired st) True (rs_suspended st) (rs_binding st))"

definition renderNFTChainRefresh :: "nft_spec list \<Rightarrow> nft_spec list \<Rightarrow> nft_spec list \<Rightarrow> string \<Rightarrow> string list" where
  "renderNFTChainRefresh specs pending suspended binding =
     map (\<lambda>chain. sp [''flush chain inet'', nftTableName, chain]) [''prerouting'', ''output'', ''postrouting'', ''forward'']
     @ writeNFTRules specs
     @ (if specs = [] \<and> pending = [] \<and> suspended = [] then []
        else writeNFTJournal specs pending False suspended binding)"

definition nftAppliedStateKey :: "nft_spec list \<Rightarrow> nft_spec list \<Rightarrow> nft_spec list \<Rightarrow> bool \<Rightarrow> string \<Rightarrow> string" where
  "nftAppliedStateKey active retired suspended keep binding =
     nftSpecsKey active @ newline # ''retired:'' @ nftSpecsKey retired @ newline # ''suspended:'' @ nftSpecsKey suspended
     @ newline # ''keep-flowtable:'' @ bool_text keep @ newline # ''binding:'' @ binding"

section \<open>Confinement\<close>

text \<open>A command on the managed table: one line, that starts with the verb, the object and the table.\<close>

definition managed_verbs :: "string list" where
  "managed_verbs = [''delete table inet'', ''add table inet'', ''add chain inet'', ''add flowtable inet'', ''add rule inet'',
     ''flush chain inet'']"

definition confined :: "string \<Rightarrow> bool" where
  "confined l \<longleftrightarrow> newline \<notin> set l \<and> (\<exists>v\<in>set managed_verbs. \<exists>rest. l = v @ '' '' @ nftTableName @ rest)"

lemma newline_join [simp]: "newline \<notin> set sep \<Longrightarrow> newline \<in> set (join sep ss) \<longleftrightarrow> (\<exists>s\<in>set ss. newline \<in> set s)"
  by (induction sep ss rule: join.induct) auto

lemma hex_no_newline: "is_hex c \<Longrightarrow> c \<noteq> newline"
proof
  assume "is_hex c" "c = newline"
  moreover have "\<not> is_hex newline" by code_simp
  ultimately show False by simp
qed

lemma quote_char_no_newline: "newline \<notin> set (quote_char c)"
proof (cases "c = newline")
  case True
  have "newline \<notin> set (quote_char newline)" by code_simp
  with True show ?thesis by simp
next
  case False
  have "(of_char c :: nat) div 16 < 16" using nat_of_char_less_256[of c] by (intro less_mult_imp_div_less) simp
  then have "is_hex (hex_char ((of_char c :: nat) div 16))" "is_hex (hex_char ((of_char c :: nat) mod 16))" by simp_all
  then have "hex_char ((of_char c :: nat) div 16) \<noteq> newline" "hex_char ((of_char c :: nat) mod 16) \<noteq> newline"
    using hex_no_newline by blast+
  with False show ?thesis by (auto simp: quote_char_def Let_def)
qed

lemma go_quote_no_newline [simp]: "newline \<notin> set (go_quote s)"
  using quote_char_no_newline by (auto simp: go_quote_def)

lemma itoa_no_newline [simp]: "newline \<notin> set (itoa i)"
  using itoa_chars[of newline i] dec_is_hex hex_no_newline by fastforce

lemma hex8_no_newline [simp]: "newline \<notin> set (hex8 w)"
  using hex8_is_hex[of newline w] hex_no_newline by blast

lemma portText_no_newline [simp]: "newline \<notin> set (portText a b)"
  by (simp add: portText_def)

text \<open>A spec whose texts stay on their line: a transport protocol and addresses without zones.\<close>

definition printable_spec :: "nft_spec \<Rightarrow> bool" where
  "printable_spec s \<longleftrightarrow>
     (Protocol s = ''tcp'' \<or> Protocol s = ''udp'') \<and> is_valid (ListenHost s) \<and> is_valid (TargetHost s)
     \<and> zone (ListenHost s) = [] \<and> zone (TargetHost s) = []"

lemma validateRetirementSpec_printable: "validateRetirementSpec s \<Longrightarrow> printable_spec s"
  unfolding validateRetirementSpec_def printable_spec_def by blast

lemma addr_string_no_newline:
  "is_valid a \<Longrightarrow> zone a = [] \<Longrightarrow> newline \<notin> set (addr_string a)"
  using hex_no_newline dec_is_hex
  by (cases a) (auto simp: is_valid_def zone_suffix_def dest!: string4_chars string6_chars)

lemma printable_texts:
  assumes "printable_spec s"
  shows "newline \<notin> set (Protocol s)" "newline \<notin> set (addr_string (ListenHost s))"
    "newline \<notin> set (addr_string (TargetHost s))"
  using assms addr_string_no_newline by (auto simp: printable_spec_def)

lemma spec_texts:
  assumes "printable_spec s"
  shows "newline \<notin> set (nftDestinationMatch s hook)" "newline \<notin> set (nftTargetMatch s)" "newline \<notin> set (nftDNAT s)"
    "newline \<notin> set (nftOriginalFlowMatch s)" "newline \<notin> set (mark_hex m)"
  using printable_texts[OF assms]
  by (auto simp: nftDestinationMatch_def Let_def nftTargetMatch_def nftDNAT_def nftPortMap_def nftOriginalFlowMatch_def
      mark_hex_def)

lemma confined_line:
  "v \<in> set managed_verbs \<Longrightarrow> \<forall>p\<in>set parts. newline \<notin> set p \<Longrightarrow> confined (sp (v # nftTableName # parts))"
  by (cases parts) (auto simp: confined_def managed_verbs_def)

lemmas confined_intro = confined_line[unfolded managed_verbs_def]

lemma spec_lines_confined: "printable_spec s \<Longrightarrow> l \<in> set (spec_lines s) \<Longrightarrow> confined l"
  using printable_texts[of s] spec_texts[of s]
  by (auto simp: spec_lines_def nat_line_def postrouting_line_def forward_line_def
      intro!: confined_intro simp del: join.simps)

lemma journal_line_confined: "printable_spec s \<Longrightarrow> confined (journal_line role s)"
  using printable_texts[of s] spec_texts[of s]
  by (auto simp: journal_line_def Let_def ip_name_def intro!: confined_intro simp del: join.simps)

lemma writeNFTRules_confined: "\<forall>s\<in>set specs. printable_spec s \<Longrightarrow> l \<in> set (writeNFTRules specs) \<Longrightarrow> confined l"
  using spec_lines_confined by (auto simp: writeNFTRules_def)

lemma writeNFTJournal_confined:
  assumes "\<forall>s\<in>set (active @ retired @ suspended). printable_spec s"
    and "l \<in> set (writeNFTJournal active retired create suspended binding)"
  shows "confined l"
proof -
  have "confined (sp [''add chain inet'', nftTableName, nftStateChainName, ''{ comment'', go_quote binding @ ''; }''])"
    "confined (sp [''add chain inet'', nftTableName, nftStateChainName])"
    "confined (sp [''flush chain inet'', nftTableName, nftStateChainName])"
    by (rule confined_intro; simp)+
  with assms journal_line_confined show ?thesis
    by (auto simp: writeNFTJournal_def simp del: join.simps split: if_splits)
qed

lemma table_lines_confined: "l \<in> set (table_lines specs present devices st) \<Longrightarrow> confined l"
  by (auto simp: table_lines_def nftDeviceSet_def intro!: confined_intro simp del: join.simps split: if_splits)

theorem renderNFTScript_confined:
  assumes "\<forall>s\<in>set (specs @ rs_retired st @ rs_suspended st). printable_spec s"
    and "l \<in> set (renderNFTScript specs present devices st)"
  shows "confined l"
  using assms table_lines_confined writeNFTRules_confined[of specs]
    writeNFTJournal_confined[of specs "rs_retired st" "rs_suspended st"]
  by (auto simp: renderNFTScript_def split: if_splits)

theorem renderNFTChainRefresh_confined:
  assumes "\<forall>s\<in>set (specs @ pending @ suspended). printable_spec s"
    and "l \<in> set (renderNFTChainRefresh specs pending suspended binding)"
  shows "confined l"
proof -
  have "confined (sp [''flush chain inet'', nftTableName, chain])" if "newline \<notin> set chain" for chain
    using that by (intro confined_intro) simp_all
  then have "confined (sp [''flush chain inet'', nftTableName, ''prerouting''])" "confined (sp [''flush chain inet'', nftTableName, ''output''])"
    "confined (sp [''flush chain inet'', nftTableName, ''postrouting''])" "confined (sp [''flush chain inet'', nftTableName, ''forward''])"
    by simp_all
  with assms writeNFTRules_confined[of specs] writeNFTJournal_confined[of specs pending suspended] show ?thesis
    unfolding renderNFTChainRefresh_def by (auto simp del: join.simps split: if_splits)
qed

end
