(* ===== verification/Nft_State.thy ===== *)
theory Nft_State
  imports Nft_Render Nft_Tuples
begin

text \<open>
  The state of the kernel as the program reads it (\<^verbatim>\<open>nft_state.go\<close>): observation, fingerprint, the check of the
  installed objects against the plan, the devices of the flowtable; and the ordering of foreign hooks that
  admission to the fast path depends on (\<^verbatim>\<open>nft_firewall.go\<close>).
\<close>

section \<open>Devices\<close>

type_synonym device = "string \<times> int"

record net_interface =
  if_name :: string
  if_index :: int
  if_loopback :: bool

type_synonym topology = "string + device list"

definition topology_key :: "topology \<Rightarrow> string" where
  "topology_key t =
     (case t of
        Inl e \<Rightarrow> ''error:'' @ e
      | Inr ds \<Rightarrow> join [CHR 0x00] (map (\<lambda>(n, i). n @ CHR ''#'' # itoa i) ds))"

definition topology_names :: "topology \<Rightarrow> string list" where
  "topology_names t = (case t of Inl e \<Rightarrow> [] | Inr ds \<Rightarrow> map fst ds)"

definition collectNFTTopology :: "string + net_interface list \<Rightarrow> topology" where
  "collectNFTTopology interfaces =
     (case interfaces of
        Inl e \<Rightarrow> Inl e
      | Inr ifs \<Rightarrow>
          let outer = filter (\<lambda>i. \<not> if_loopback i) ifs in
          if list_ex (\<lambda>i. if_name i = [] \<or> if_index i \<le> 0) outer
          then Inl ''invalid flowtable interface identity''
          else Inr (sort_key fst (sort_key snd (map (\<lambda>i. (if_name i, if_index i)) outer))))"

section \<open>Observation\<close>

definition tableDescriptor :: "json \<Rightarrow> json option" where
  "tableDescriptor object =
     (case jobject ''table'' object of
        None \<Rightarrow> None
      | Some t \<Rightarrow> if jval ''family'' t = JStr ''inet'' \<and> jval ''name'' t = JStr nftTableName then Some t else None)"

record observed_state =
  ob_exists :: bool
  ob_owned :: bool
  ob_objects :: "json list"
  ob_fingerprint :: string

abbreviation no_table :: observed_state where
  "no_table \<equiv> \<lparr>ob_exists = False, ob_owned = False, ob_objects = [], ob_fingerprint = []\<rparr>"

datatype observe_error = Unreadable | DuplicateTable | DuplicateDescriptor | NoDescriptor

definition nftObjectsFingerprint :: "json list \<Rightarrow> string" where
  "nftObjectsFingerprint objects =
     sha256_hex (join [newline] (sort (map (\<lambda>x. marshal (normalizeNFTValue x [])) objects)))"

text \<open>
  \<^verbatim>\<open>observe\<close>, from the two listings the tool gives when it can be asked and answers with a document: the
  tables, and the managed table.
\<close>

definition table_state :: "string \<Rightarrow> json list \<Rightarrow> observe_error + observed_state" where
  "table_state owner raw =
     (let objects = filter (\<lambda>x. jfield ''metainfo'' x = None) raw;
          found = filter (\<lambda>x. tableDescriptor x \<noteq> None) objects
      in case found of
           [] \<Rightarrow> Inl NoDescriptor
         | [x] \<Rightarrow> Inr \<lparr>ob_exists = True, ob_owned = (jval ''comment'' (the (tableDescriptor x)) = JStr owner),
                       ob_objects = objects, ob_fingerprint = nftObjectsFingerprint objects\<rparr>
         | _ \<Rightarrow> Inl DuplicateDescriptor)"

definition listed_tables :: "json list \<Rightarrow> nat" where
  "listed_tables objects = length (filter (\<lambda>x. tableDescriptor x \<noteq> None) objects)"

section \<open>The check of the installed objects\<close>

datatype state_error =
    BadObject
  | UnexpectedObject
  | OwnerDiffers
  | JournalChain
  | BindingDiffers
  | ChainDiffers
  | RuleDiffers
  | FlowtableDiffers
  | DeviceSet
  | DeviceName
  | Incomplete
  | RulesIncomplete

abbreviation nft_hooks :: "string list" where
  "nft_hooks \<equiv> [''prerouting'', ''output'', ''postrouting'', ''forward'']"

definition any_specs :: "nft_spec list \<Rightarrow> render_state \<Rightarrow> bool" where
  "any_specs specs st \<longleftrightarrow> specs \<noteq> [] \<or> rs_retired st \<noteq> [] \<or> rs_suspended st \<noteq> []"

definition expected_chains :: "nft_spec list \<Rightarrow> render_state \<Rightarrow> (string \<times> int) list" where
  "expected_chains specs st =
     [(''prerouting'', - 100), (''output'', - 100), (''postrouting'', 100), (''forward'', nftForwardPriority)]
     @ (if any_specs specs st then [(nftStateChainName, 0)] else [])"

definition wanted_rules :: "nft_spec list \<Rightarrow> render_state \<Rightarrow> string list" where
  "wanted_rules specs st =
     concat (map (\<lambda>s. map (\<lambda>h. nftRuleInspectionKey (nftExpectedRule s h)) nft_hooks
                     @ [nftRuleInspectionKey (nftExpectedJournalRule s False)]) specs)
     @ map (\<lambda>s. nftRuleInspectionKey (nftExpectedJournalRule s True)) (rs_retired st)
     @ map (\<lambda>s. nftRuleInspectionKey (nftExpectedJournalRole s ''s'')) (rs_suspended st)"

record check_state =
  ck_seen :: "string list"
  ck_want :: "string list"
  ck_tables :: nat
  ck_flows :: nat

text \<open>A value that prints as the given text.\<close>

definition prints_as :: "json \<Rightarrow> string \<Rightarrow> bool" where
  "prints_as v t \<longleftrightarrow> v = JNum t \<or> v = JStr t"

definition check_chain ::
    "nft_spec list \<Rightarrow> render_state \<Rightarrow> json \<Rightarrow> check_state \<Rightarrow> state_error + check_state" where
  "check_chain specs st chain ck =
     (let name = text_of (jval ''name'' chain); priority = map_of (expected_chains specs st) name in
      if name = nftStateChainName then
        if priority = None \<or> name \<in> set (ck_seen ck) \<or> jval ''family'' chain \<noteq> JStr ''inet''
           \<or> jval ''table'' chain \<noteq> JStr nftTableName
           \<or> jval ''hook'' chain \<noteq> JNull \<or> jval ''type'' chain \<noteq> JNull \<or> jval ''policy'' chain \<noteq> JNull
        then Inl JournalChain
        else if rs_binding st \<noteq> [] \<and> jval ''comment'' chain \<noteq> JStr (rs_binding st) then Inl BindingDiffers
        else Inr (ck\<lparr>ck_seen := name # ck_seen ck\<rparr>)
      else if jval ''family'' chain \<noteq> JStr ''inet'' \<or> jval ''table'' chain \<noteq> JStr nftTableName \<or> priority = None
           \<or> name \<in> set (ck_seen ck)
           \<or> jval ''type'' chain \<noteq> JStr (if name = ''forward'' then ''filter'' else ''nat'')
           \<or> jval ''hook'' chain \<noteq> JStr name \<or> \<not> prints_as (jval ''prio'' chain) (itoa (the priority))
           \<or> jval ''policy'' chain \<noteq> JStr ''accept''
      then Inl ChainDiffers
      else Inr (ck\<lparr>ck_seen := name # ck_seen ck\<rparr>))"

definition check_rule :: "json \<Rightarrow> check_state \<Rightarrow> state_error + check_state" where
  "check_rule rule ck =
     (let key = nftRuleInspectionKey rule in
      if key \<notin> set (ck_want ck) then Inl RuleDiffers else Inr (ck\<lparr>ck_want := remove1 key (ck_want ck)\<rparr>))"

definition flow_devices :: "json \<Rightarrow> json list option" where
  "flow_devices flow =
     (case jval ''dev'' flow of JStr d \<Rightarrow> Some [JStr d] | JArr xs \<Rightarrow> Some xs | _ \<Rightarrow> None)"

definition is_text :: "json \<Rightarrow> bool" where
  "is_text v \<longleftrightarrow> (case v of JStr _ \<Rightarrow> True | _ \<Rightarrow> False)"

definition check_flowtable :: "string list \<Rightarrow> json \<Rightarrow> check_state \<Rightarrow> state_error + check_state" where
  "check_flowtable devices flow ck =
     (let ck1 = ck\<lparr>ck_flows := Suc (ck_flows ck)\<rparr> in
      if jval ''name'' flow \<noteq> JStr nftFlowtableName \<or> jval ''hook'' flow \<noteq> JStr ''ingress''
         \<or> \<not> prints_as (jval ''prio'' flow) ''0''
      then Inl FlowtableDiffers
      else case flow_devices flow of
        None \<Rightarrow> Inl DeviceSet
      | Some raw \<Rightarrow>
          if length raw \<noteq> length devices then Inl DeviceSet
          else if \<not> list_all is_text raw then Inl DeviceName
          else if join [CHR 0x00] (sort (map text_of raw)) \<noteq> join [CHR 0x00] (sort devices) then Inl DeviceSet
          else Inr ck1)"

definition check_owner :: "string \<Rightarrow> json \<Rightarrow> check_state \<Rightarrow> state_error + check_state" where
  "check_owner owner object ck =
     (case tableDescriptor object of
        None \<Rightarrow> Inr ck
      | Some t \<Rightarrow> if jval ''comment'' t \<noteq> JStr owner then Inl OwnerDiffers else Inr (ck\<lparr>ck_tables := Suc (ck_tables ck)\<rparr>))"

definition check_object ::
    "nft_spec list \<Rightarrow> string list \<Rightarrow> string \<Rightarrow> render_state \<Rightarrow> json \<Rightarrow> check_state \<Rightarrow> state_error + check_state" where
  "check_object specs devices owner st object ck =
     (case object of
        JObj [(kind, v)] \<Rightarrow>
          if kind \<notin> {''table'', ''chain'', ''rule'', ''flowtable''} then Inl UnexpectedObject
          else if kind = ''table'' then check_owner owner object ck
          else if \<not> is_object v then Inr ck
          else if kind = ''chain'' then check_chain specs st v ck
          else if kind = ''rule'' then check_rule v ck
          else check_flowtable devices v ck
      | _ \<Rightarrow> Inl BadObject)"

fun check_objects ::
    "nft_spec list \<Rightarrow> string list \<Rightarrow> string \<Rightarrow> render_state \<Rightarrow> json list \<Rightarrow> check_state \<Rightarrow> state_error + check_state" where
  "check_objects specs devices owner st [] ck = Inr ck"
| "check_objects specs devices owner st (x # xs) ck =
     rbind (check_object specs devices owner st x ck) (check_objects specs devices owner st xs)"

definition validateNFTState ::
    "json list \<Rightarrow> nft_spec list \<Rightarrow> string list \<Rightarrow> string \<Rightarrow> render_state \<Rightarrow> state_error option" where
  "validateNFTState objects specs devices owner st =
     (case check_objects specs devices owner st objects
             \<lparr>ck_seen = [], ck_want = wanted_rules specs st, ck_tables = 0, ck_flows = 0\<rparr> of
        Inl e \<Rightarrow> Some e
      | Inr ck \<Rightarrow>
          let flow = specsUseFlowtable specs \<or> rs_keepFlowtable st in
          guard (ck_tables ck \<noteq> 1 \<or> length (ck_seen ck) \<noteq> length (expected_chains specs st)
                 \<or> ck_flows ck \<noteq> (if flow then 1 else 0)) Incomplete
          (guard (ck_want ck \<noteq> []) RulesIncomplete None))"

section \<open>Foreign hooks\<close>

datatype hook_error = ChainDescriptor | ChainHook | ChainType | ChainPriority

text \<open>\<^verbatim>\<open>strconv.ParseInt(fmt.Sprint(value), 10, 32)\<close>.\<close>

definition parse_priority :: "json \<Rightarrow> int option" where
  "parse_priority v =
     (case (case v of JNum t \<Rightarrow> atoi t | JStr t \<Rightarrow> atoi t | _ \<Rightarrow> None) of
        None \<Rightarrow> None
      | Some n \<Rightarrow> if - (2 ^ 31) \<le> n \<and> n < 2 ^ 31 then Some n else None)"

definition named :: "string \<Rightarrow> json \<Rightarrow> bool" where
  "named field chain \<longleftrightarrow> text_of (jval field chain) \<noteq> []"

definition conflicting_chain :: "json \<Rightarrow> hook_error + bool" where
  "conflicting_chain chain =
     (if \<not> list_all (\<lambda>f. named f chain) [''family'', ''table'', ''name''] then Inl ChainDescriptor
      else if jval ''hook'' chain = JNull then Inr False
      else if \<not> named ''hook'' chain then Inl ChainHook
      else if \<not> named ''type'' chain then Inl ChainType
      else case parse_priority (jval ''prio'' chain) of
        None \<Rightarrow> Inl ChainPriority
      | Some priority \<Rightarrow>
          let family = text_of (jval ''family'' chain) in
          if family \<notin> {''inet'', ''ip'', ''ip6''} then Inr False
          else if family = ''inet'' \<and> jval ''table'' chain = JStr nftTableName then Inr False
          else Inr (jval ''hook'' chain = JStr ''forward'' \<and> nftForwardPriority \<le> priority
                    \<or> jval ''hook'' chain = JStr ''postrouting'' \<and> jval ''type'' chain \<noteq> JStr ''nat''))"

fun nftConflictingHooks :: "json list \<Rightarrow> hook_error + json list" where
  "nftConflictingHooks [] = Inr []"
| "nftConflictingHooks (object # objects) =
     (case jobject ''chain'' object of
        None \<Rightarrow> nftConflictingHooks objects
      | Some chain \<Rightarrow>
          rbind (conflicting_chain chain) (\<lambda>c. rbind (nftConflictingHooks objects) (\<lambda>rest.
            Inr (if c then JObj [(''chain'', chain)] # rest else rest))))"

definition chain_mask :: "json \<Rightarrow> 8 word" where
  "chain_mask object =
     (let family = jval ''family'' (case jobject ''chain'' object of None \<Rightarrow> JNull | Some c \<Rightarrow> c) in
      if family = JStr ''ip'' then 1 else if family = JStr ''ip6'' then 2 else if family = JStr ''inet'' then 3 else 0)"

definition nftHookFamilies :: "json list \<Rightarrow> 8 word" where
  "nftHookFamilies objects = foldl (\<lambda>mask x. mask OR chain_mask x) 0 objects"

section \<open>Admission\<close>

record admission_error =
  ad_families :: "8 word"
  ad_inspection :: bool
  ad_permitted :: "nft_spec list"

definition nftSelectiveScopeCovers :: "nft_spec \<Rightarrow> nft_spec \<Rightarrow> bool" where
  "nftSelectiveScopeCovers allowed actual \<longleftrightarrow>
     EnableFlowtable allowed \<and> nftRuleIdentity allowed = nftRuleIdentity actual
     \<and> Family allowed = Family actual \<and> Protocol allowed = Protocol actual
     \<and> ConntrackMark allowed = ConntrackMark actual \<and> ListenHost allowed = ListenHost actual
     \<and> TargetHost allowed = TargetHost actual \<and> ListenPort allowed \<le> ListenPort actual
     \<and> nftLastPort actual \<le> nftLastPort allowed
     \<and> TargetPort allowed - ListenPort allowed = TargetPort actual - ListenPort actual"

definition affects :: "admission_error \<Rightarrow> nft_spec \<Rightarrow> bool" where
  "affects e s \<longleftrightarrow>
     (let mask = (if Family s = 6 then 2 else 1) in
      EnableFlowtable s \<and> ad_families e AND mask \<noteq> 0 \<and> \<not> list_ex (\<lambda>allowed. nftSelectiveScopeCovers allowed s) (ad_permitted e))"

datatype check_error = HookInspection hook_error | ChainsUnreadable | Admission admission_error

text \<open>
  \<^verbatim>\<open>checkFlowtableAdmissionFor\<close>, from the listing of the chains.  The proof that certain foreign hooks let the
  fast path be (\<^verbatim>\<open>nft_selective_acl_linux.go\<close>) is an argument: none when the tool cannot list rules; otherwise an
  error with further families, or the hooks that remain and the permitted scopes.
\<close>

type_synonym selective_proof =
  "(json list \<Rightarrow> nft_spec list \<Rightarrow> (8 word) + (json list \<times> nft_spec list)) option"

definition checkFlowtableAdmissionFor ::
    "selective_proof \<Rightarrow> json list option \<Rightarrow> nft_spec list \<Rightarrow> check_error option" where
  "checkFlowtableAdmissionFor selective listing specs =
     (case listing of
        None \<Rightarrow> Some ChainsUnreadable
      | Some objects \<Rightarrow>
          case nftConflictingHooks objects of
            Inl e \<Rightarrow> Some (HookInspection e)
          | Inr [] \<Rightarrow> None
          | Inr conflicts \<Rightarrow>
              let rejected = nftHookFamilies conflicts in
              case selective of
                None \<Rightarrow> if rejected \<noteq> 0
                        then Some (Admission \<lparr>ad_families = rejected, ad_inspection = False, ad_permitted = []\<rparr>) else None
              | Some reader \<Rightarrow>
                  (case reader conflicts specs of
                     Inl extra \<Rightarrow>
                       Some (Admission \<lparr>ad_families = rejected OR extra, ad_inspection = True, ad_permitted = []\<rparr>)
                   | Inr (remaining, allowed) \<Rightarrow>
                       if nftHookFamilies remaining \<noteq> 0
                       then Some (Admission \<lparr>ad_families = nftHookFamilies remaining, ad_inspection = False, ad_permitted = allowed\<rparr>)
                       else None))"

definition checkAdmissionFor :: "selective_proof \<Rightarrow> json list option \<Rightarrow> nft_spec list \<Rightarrow> check_error option" where
  "checkAdmissionFor selective listing specs =
     (case checkFlowtableAdmissionFor selective listing specs of
        Some (Admission e) \<Rightarrow> if list_ex (affects e) specs then Some (Admission e) else None
      | other \<Rightarrow> other)"

end
