(* ===== verification/Nft_State_Facts.thy ===== *)
theory Nft_State_Facts
  imports Nft_State "HOL-Library.Multiset"
begin

text \<open>
  What the check of the installed objects accepts, stated without its loop; and what an admission proof covers.
\<close>

section \<open>The contents of a table\<close>

definition single_object :: "json \<Rightarrow> bool" where
  "single_object x \<longleftrightarrow> (\<exists>k v. x = JObj [(k, v)] \<and> k \<in> {''table'', ''chain'', ''rule'', ''flowtable''})"

definition members :: "string \<Rightarrow> json \<Rightarrow> json list" where
  "members kind x = (case x of JObj [(k, v)] \<Rightarrow> if k = kind \<and> is_object v then [v] else [] | _ \<Rightarrow> [])"

definition all_members :: "string \<Rightarrow> json list \<Rightarrow> json list" where
  "all_members kind objects = concat (map (members kind) objects)"

definition descriptors :: "json list \<Rightarrow> json list" where
  "descriptors objects = List.map_filter tableDescriptor objects"

definition chain_name :: "json \<Rightarrow> string" where
  "chain_name chain = text_of (jval ''name'' chain)"

definition chain_matches :: "nft_spec list \<Rightarrow> render_state \<Rightarrow> json \<Rightarrow> bool" where
  "chain_matches specs st chain \<longleftrightarrow>
     jval ''family'' chain = JStr ''inet'' \<and> jval ''table'' chain = JStr nftTableName
     \<and> map_of (expected_chains specs st) (chain_name chain) \<noteq> None
     \<and> (if chain_name chain = nftStateChainName
        then jval ''hook'' chain = JNull \<and> jval ''type'' chain = JNull \<and> jval ''policy'' chain = JNull
             \<and> (rs_binding st = [] \<or> jval ''comment'' chain = JStr (rs_binding st))
        else jval ''type'' chain = JStr (if chain_name chain = ''forward'' then ''filter'' else ''nat'')
             \<and> jval ''hook'' chain = JStr (chain_name chain)
             \<and> prints_as (jval ''prio'' chain) (itoa (the (map_of (expected_chains specs st) (chain_name chain))))
             \<and> jval ''policy'' chain = JStr ''accept'')"

definition flow_matches :: "string list \<Rightarrow> json \<Rightarrow> bool" where
  "flow_matches devices flow \<longleftrightarrow>
     jval ''name'' flow = JStr nftFlowtableName \<and> jval ''hook'' flow = JStr ''ingress'' \<and> prints_as (jval ''prio'' flow) ''0''
     \<and> (\<exists>raw. flow_devices flow = Some raw \<and> length raw = length devices \<and> list_all is_text raw
          \<and> join [CHR 0x00] (sort (map text_of raw)) = join [CHR 0x00] (sort devices))"

definition state_matches :: "json list \<Rightarrow> nft_spec list \<Rightarrow> string list \<Rightarrow> string \<Rightarrow> render_state \<Rightarrow> bool" where
  "state_matches objects specs devices owner st \<longleftrightarrow>
     (\<forall>x\<in>set objects. single_object x)
     \<and> mset (map nftRuleInspectionKey (all_members ''rule'' objects)) = mset (wanted_rules specs st)
     \<and> (\<forall>c\<in>set (all_members ''chain'' objects). chain_matches specs st c)
     \<and> distinct (map chain_name (all_members ''chain'' objects))
     \<and> set (map chain_name (all_members ''chain'' objects)) = fst ` set (expected_chains specs st)
     \<and> length (descriptors objects) = 1 \<and> (\<forall>t\<in>set (descriptors objects). jval ''comment'' t = JStr owner)
     \<and> (\<forall>f\<in>set (all_members ''flowtable'' objects). flow_matches devices f)
     \<and> length (all_members ''flowtable'' objects) = (if specsUseFlowtable specs \<or> rs_keepFlowtable st then 1 else 0)"

section \<open>The loop\<close>

definition object_matches :: "nft_spec list \<Rightarrow> string list \<Rightarrow> string \<Rightarrow> render_state \<Rightarrow> json \<Rightarrow> bool" where
  "object_matches specs devices owner st x \<longleftrightarrow>
     single_object x \<and> (\<forall>c\<in>set (members ''chain'' x). chain_matches specs st c)
     \<and> (\<forall>f\<in>set (members ''flowtable'' x). flow_matches devices f)
     \<and> (\<forall>t. tableDescriptor x = Some t \<longrightarrow> jval ''comment'' t = JStr owner)"

definition advance :: "json \<Rightarrow> check_state \<Rightarrow> check_state" where
  "advance x ck =
     \<lparr>ck_seen = rev (map chain_name (members ''chain'' x)) @ ck_seen ck,
      ck_want = fold remove1 (map nftRuleInspectionKey (members ''rule'' x)) (ck_want ck),
      ck_tables = ck_tables ck + (if tableDescriptor x = None then 0 else 1),
      ck_flows = ck_flows ck + length (members ''flowtable'' x)\<rparr>"

definition fits :: "json \<Rightarrow> check_state \<Rightarrow> bool" where
  "fits x ck \<longleftrightarrow>
     (\<forall>c\<in>set (members ''chain'' x). chain_name c \<notin> set (ck_seen ck))
     \<and> (\<forall>r\<in>set (members ''rule'' x). nftRuleInspectionKey r \<in> set (ck_want ck))"

lemma descriptor_none: "k \<noteq> ''table'' \<Longrightarrow> tableDescriptor (JObj [(k, v)]) = None"
  by (simp add: tableDescriptor_def jobject_def)

lemma members_simps [simp]:
  "members kind (JObj [(k, v)]) = (if k = kind \<and> is_object v then [v] else [])"
  by (simp add: members_def)

lemma advance_same: "members ''chain'' x = [] \<Longrightarrow> members ''rule'' x = [] \<Longrightarrow> members ''flowtable'' x = [] \<Longrightarrow>
    tableDescriptor x = None \<Longrightarrow> advance x ck = ck"
  by (simp add: advance_def)

lemma check_chain_result:
  "check_chain specs st c ck = Inr ck' \<longleftrightarrow>
     chain_matches specs st c \<and> chain_name c \<notin> set (ck_seen ck) \<and> ck' = ck\<lparr>ck_seen := chain_name c # ck_seen ck\<rparr>"
  unfolding check_chain_def chain_matches_def chain_name_def Let_def
  by (cases "text_of (jval ''name'' c) = nftStateChainName") auto

lemma check_flowtable_result:
  "check_flowtable devices f ck = Inr ck' \<longleftrightarrow> flow_matches devices f \<and> ck' = ck\<lparr>ck_flows := Suc (ck_flows ck)\<rparr>"
  unfolding check_flowtable_def flow_matches_def Let_def by (cases "flow_devices f") auto

lemma check_object_result:
  "check_object specs devices owner st x ck = Inr ck' \<longleftrightarrow>
     object_matches specs devices owner st x \<and> fits x ck \<and> ck' = advance x ck"
proof (cases "\<exists>k v. x = JObj [(k, v)]")
  case False
  then have "\<not> single_object x" by (auto simp: single_object_def)
  moreover have "check_object specs devices owner st x ck = Inl BadObject"
    using False by (auto simp: check_object_def split: json.split list.split)
  ultimately show ?thesis by (simp add: object_matches_def)
next
  case True
  then obtain k v where x: "x = JObj [(k, v)]" by blast
  show ?thesis
  proof (cases "k \<in> {''table'', ''chain'', ''rule'', ''flowtable''}")
    case False
    then show ?thesis by (auto simp: x check_object_def object_matches_def single_object_def)
  next
    case True
    then have single: "single_object x" by (simp add: x single_object_def)
    from True consider "k = ''table''" | "k \<noteq> ''table''" "\<not> is_object v" | "k = ''chain''" "is_object v"
      | "k = ''rule''" "is_object v" | "k = ''flowtable''" "is_object v" by blast
    then show ?thesis
    proof cases
      case 1
      then show ?thesis using single
        by (cases "tableDescriptor x")
          (auto simp: x check_object_def check_owner_def object_matches_def fits_def advance_def)
    next
      case 2
      then show ?thesis using single True
        by (auto simp: x check_object_def object_matches_def fits_def advance_same descriptor_none)
    next
      case 3
      then show ?thesis using single
        by (auto simp: x check_object_def check_chain_result object_matches_def fits_def advance_def descriptor_none)
    next
      case 4
      then show ?thesis using single
        by (auto simp: x check_object_def check_rule_def object_matches_def fits_def advance_def descriptor_none Let_def)
    next
      case 5
      then show ?thesis using single
        by (auto simp: x check_object_def check_flowtable_result object_matches_def fits_def advance_def descriptor_none)
    qed
  qed
qed

text \<open>The whole loop: names are fresh and distinct, keys are all wanted, and the counters add up.\<close>

lemma fold_remove1_mset: "mset (fold remove1 ks want) = mset want - mset ks"
  by (induction ks arbitrary: want) simp_all

definition names_of :: "json list \<Rightarrow> string list" where
  "names_of xs = map chain_name (all_members ''chain'' xs)"

definition keys_of :: "json list \<Rightarrow> string list" where
  "keys_of xs = map nftRuleInspectionKey (all_members ''rule'' xs)"

lemma all_members_Cons [simp]: "all_members k (x # xs) = members k x @ all_members k xs" "all_members k [] = []"
  by (simp_all add: all_members_def)

lemma descriptors_Cons [simp]:
  "descriptors (x # xs) = (case tableDescriptor x of None \<Rightarrow> [] | Some t \<Rightarrow> [t]) @ descriptors xs" "descriptors [] = []"
  by (simp_all add: descriptors_def List.map_filter_def split: option.split)

lemma members_short: "members k x = [] \<or> (\<exists>v. members k x = [v])"
  by (auto simp: members_def split: json.split list.split prod.split)

definition collected :: "json list \<Rightarrow> check_state \<Rightarrow> check_state" where
  "collected xs ck =
     \<lparr>ck_seen = rev (names_of xs) @ ck_seen ck, ck_want = fold remove1 (keys_of xs) (ck_want ck),
      ck_tables = ck_tables ck + length (descriptors xs),
      ck_flows = ck_flows ck + length (all_members ''flowtable'' xs)\<rparr>"

definition acceptable :: "json list \<Rightarrow> check_state \<Rightarrow> bool" where
  "acceptable xs ck \<longleftrightarrow>
     distinct (names_of xs) \<and> set (names_of xs) \<inter> set (ck_seen ck) = {} \<and> mset (keys_of xs) \<subseteq># mset (ck_want ck)"

lemma acceptable_Cons: "acceptable (x # xs) ck \<longleftrightarrow> fits x ck \<and> acceptable xs (advance x ck)"
proof -
  have names: "distinct (names_of (x # xs)) \<and> set (names_of (x # xs)) \<inter> set (ck_seen ck) = {} \<longleftrightarrow>
      (\<forall>c\<in>set (members ''chain'' x). chain_name c \<notin> set (ck_seen ck))
      \<and> distinct (names_of xs) \<and> set (names_of xs) \<inter> set (ck_seen (advance x ck)) = {}"
    using members_short[of "''chain''" x] by (auto simp: names_of_def advance_def)
  have keys: "mset (keys_of (x # xs)) \<subseteq># mset (ck_want ck) \<longleftrightarrow>
      (\<forall>r\<in>set (members ''rule'' x). nftRuleInspectionKey r \<in> set (ck_want ck))
      \<and> mset (keys_of xs) \<subseteq># mset (ck_want (advance x ck))"
    using members_short[of "''rule''" x]
    by (auto simp: keys_of_def advance_def insert_subset_eq_iff)
  show ?thesis using names keys unfolding acceptable_def fits_def by blast
qed

lemma collected_Cons: "collected (x # xs) ck = collected xs (advance x ck)"
  by (simp add: collected_def advance_def names_of_def keys_of_def split: option.split)

lemma check_objects_result:
  "check_objects specs devices owner st xs ck = Inr ck' \<longleftrightarrow>
     (\<forall>x\<in>set xs. object_matches specs devices owner st x) \<and> acceptable xs ck \<and> ck' = collected xs ck"
proof (induction xs arbitrary: ck)
  case Nil
  show ?case by (auto simp: acceptable_def collected_def names_of_def keys_of_def)
next
  case (Cons x xs)
  have "check_objects specs devices owner st (x # xs) ck = Inr ck' \<longleftrightarrow>
      (\<exists>ck1. check_object specs devices owner st x ck = Inr ck1 \<and> check_objects specs devices owner st xs ck1 = Inr ck')"
    by simp
  also have "\<dots> \<longleftrightarrow> object_matches specs devices owner st x \<and> fits x ck
      \<and> check_objects specs devices owner st xs (advance x ck) = Inr ck'"
    unfolding check_object_result by blast
  finally show ?case unfolding Cons.IH acceptable_Cons collected_Cons by auto
qed

lemma all_object_matches:
  "(\<forall>x\<in>set xs. object_matches specs devices owner st x) \<longleftrightarrow>
     (\<forall>x\<in>set xs. single_object x) \<and> (\<forall>c\<in>set (all_members ''chain'' xs). chain_matches specs st c)
     \<and> (\<forall>f\<in>set (all_members ''flowtable'' xs). flow_matches devices f)
     \<and> (\<forall>t\<in>set (descriptors xs). jval ''comment'' t = JStr owner)"
proof (induction xs)
  case (Cons x xs)
  show ?case by (simp add: Cons.IH) (auto simp: object_matches_def split: option.splits)
qed simp

lemma expected_chain_names: "distinct (map fst (expected_chains specs st))"
  by (simp add: expected_chains_def)

text \<open>Distinct names, all of them expected, and as many as are expected: all that are expected.\<close>

lemma names_complete:
  assumes "distinct ns" and "set ns \<subseteq> fst ` set kvs" and "distinct (map fst kvs)"
  shows "length ns = length kvs \<longleftrightarrow> set ns = fst ` set kvs"
proof
  have c: "card (set ns) = length ns" "card (fst ` set kvs) = length kvs"
    using assms distinct_card[of ns] distinct_card[of "map fst kvs"] by simp_all
  show "set ns = fst ` set kvs" if "length ns = length kvs"
    using assms c that by (intro card_subset_eq) simp_all
  show "length ns = length kvs" if "set ns = fst ` set kvs"
    using c that by simp
qed

theorem validateNFTState_exact:
  "validateNFTState objects specs devices owner st = None \<longleftrightarrow> state_matches objects specs devices owner st"
proof -
  let ?ck = "\<lparr>ck_seen = [], ck_want = wanted_rules specs st, ck_tables = 0, ck_flows = 0\<rparr>"
  define ck' where "ck' = collected objects ?ck"
  define ok where "ok \<longleftrightarrow> (\<forall>x\<in>set objects. object_matches specs devices owner st x) \<and> acceptable objects ?ck"
  define flows :: nat where "flows = (if specsUseFlowtable specs \<or> rs_keepFlowtable st then 1 else 0)"
  have run: "check_objects specs devices owner st objects ?ck = Inr ck \<longleftrightarrow> ok \<and> ck = ck'" for ck
    unfolding check_objects_result ok_def ck'_def by blast
  have "validateNFTState objects specs devices owner st = None \<longleftrightarrow>
      ok \<and> ck_tables ck' = 1 \<and> length (ck_seen ck') = length (expected_chains specs st)
      \<and> ck_flows ck' = flows \<and> ck_want ck' = []"
  proof (cases "check_objects specs devices owner st objects ?ck")
    case (Inl e)
    then have "\<not> ok" using run[of ck'] by auto
    with Inl show ?thesis by (simp add: validateNFTState_def)
  next
    case (Inr ck)
    then have "ok" "ck = ck'" using run by blast+
    then show ?thesis unfolding validateNFTState_def Inr sum.case Let_def flows_def[symmetric] by auto
  qed
  moreover have "ck_want ck' = [] \<longleftrightarrow> mset (wanted_rules specs st) - mset (keys_of objects) = {#}"
    using fold_remove1_mset[of "keys_of objects" "wanted_rules specs st"] by (simp add: ck'_def collected_def flip: mset_zero_iff)
  moreover have "mset (keys_of objects) \<subseteq># mset (wanted_rules specs st) \<and>
      mset (wanted_rules specs st) - mset (keys_of objects) = {#} \<longleftrightarrow> mset (keys_of objects) = mset (wanted_rules specs st)"
    by (auto simp: Diff_eq_empty_iff_mset intro: subset_mset.antisym)
  moreover have "length (names_of objects) = length (expected_chains specs st) \<longleftrightarrow>
      set (names_of objects) = fst ` set (expected_chains specs st)"
    if "distinct (names_of objects)" and "\<forall>c\<in>set (all_members ''chain'' objects). chain_matches specs st c"
  proof (rule names_complete[OF that(1) _ expected_chain_names])
    show "set (names_of objects) \<subseteq> fst ` set (expected_chains specs st)"
      using that(2) by (auto simp: names_of_def chain_matches_def map_of_eq_None_iff)
  qed
  ultimately show ?thesis
    unfolding state_matches_def ok_def all_object_matches acceptable_def
    by (auto simp: ck'_def flows_def collected_def names_of_def keys_of_def)
qed

section \<open>Admission to the fast path\<close>

lemma covers_tuples: "nftSelectiveScopeCovers allowed s \<Longrightarrow> spec_tuples s \<subseteq> spec_tuples allowed"
proof
  fix t
  assume c: "nftSelectiveScopeCovers allowed s" and "t \<in> spec_tuples s"
  then obtain p where p: "p \<in> spec_ports s" "t = tuple_at s p" by (auto simp: spec_tuples_def)
  then have "p \<in> spec_ports allowed" using c by (auto simp: spec_ports_def nftSelectiveScopeCovers_def)
  moreover have "tuple_at s p = tuple_at allowed p" using c by (auto simp: tuple_at_def nftSelectiveScopeCovers_def)
  ultimately show "t \<in> spec_tuples allowed" using p by (auto simp: spec_tuples_def)
qed

definition conflicts_in :: "json list \<Rightarrow> json set" where
  "conflicts_in objects = {chain. \<exists>x\<in>set objects. jobject ''chain'' x = Some chain \<and> conflicting_chain chain = Inr True}"

lemma nftConflictingHooks_result:
  "nftConflictingHooks objects = Inr cs \<Longrightarrow> set cs = (\<lambda>c. JObj [(''chain'', c)]) ` conflicts_in objects"
proof (induction objects arbitrary: cs)
  case Nil
  then show ?case by (simp add: conflicts_in_def)
next
  case (Cons x objects)
  show ?case
  proof (cases "jobject ''chain'' x")
    case None
    with Cons have "set cs = (\<lambda>c. JObj [(''chain'', c)]) ` conflicts_in objects" by simp
    moreover have "conflicts_in (x # objects) = conflicts_in objects" using None by (auto simp: conflicts_in_def)
    ultimately show ?thesis by simp
  next
    case (Some chain)
    with Cons.prems obtain c rest where c: "conflicting_chain chain = Inr c" and r: "nftConflictingHooks objects = Inr rest"
      and cs: "cs = (if c then JObj [(''chain'', chain)] # rest else rest)" by auto
    have "conflicts_in (x # objects) = (if c then {chain} else {}) \<union> conflicts_in objects"
      using Some c by (auto simp: conflicts_in_def)
    with Cons.IH[OF r] cs show ?thesis by auto
  qed
qed

lemma conflicting_chain_mask:
  assumes "conflicting_chain c = Inr True" and "jobject ''chain'' x = Some c"
  shows "chain_mask (JObj [(''chain'', c)]) \<in> {1, 2, 3}"
proof -
  have "text_of (jval ''family'' c) \<in> {''inet'', ''ip'', ''ip6''}"
    using assms(1) by (auto simp: conflicting_chain_def Let_def split: if_splits option.splits)
  then have f: "jval ''family'' c \<in> {JStr ''inet'', JStr ''ip'', JStr ''ip6''}"
    by (auto simp: text_of_def split: json.splits)
  obtain kvs where "c = JObj kvs" using assms(2) by (auto simp: jobject_def split: option.splits json.splits)
  then have "jobject ''chain'' (JObj [(''chain'', c)]) = Some c" by (simp add: jobject_def)
  with f show ?thesis by (auto simp: chain_mask_def Let_def)
qed

lemma foldl_or_zero: "foldl (\<lambda>mask x. mask OR f x) m xs AND k = (0 :: 8 word) \<longleftrightarrow> m AND k = 0 \<and> (\<forall>x\<in>set xs. f x AND k = 0)"
proof (induction xs arbitrary: m)
  case (Cons x xs)
  have "(m OR f x) AND k = (0 :: 8 word) \<longleftrightarrow> m AND k = 0 \<and> f x AND k = 0"
    by (simp add: bit.conj_disj_distrib2 or_eq_0_iff)
  with Cons show ?case by simp
qed simp

text \<open>The families whose flows a conflicting chain sees.\<close>

definition family_mask :: "int \<Rightarrow> 8 word" where
  "family_mask family = (if family = 6 then 2 else 1)"

theorem admission_without_proof:
  assumes "checkAdmissionFor None (Some objects) specs = None" and "s \<in> set specs" and "EnableFlowtable s"
    and "chain \<in> conflicts_in objects"
  shows "chain_mask (JObj [(''chain'', chain)]) AND family_mask (Family s) = 0"
proof -
  obtain cs where cs: "nftConflictingHooks objects = Inr cs"
    using assms(1) by (cases "nftConflictingHooks objects") (auto simp: checkAdmissionFor_def checkFlowtableAdmissionFor_def)
  have mem: "JObj [(''chain'', chain)] \<in> set cs" using nftConflictingHooks_result[OF cs] assms(4) by blast
  then have ne: "cs \<noteq> []" by auto
  let ?m = "nftHookFamilies cs"
  show ?thesis
  proof (cases "?m = 0")
    case True
    then have "?m AND family_mask (Family s) = 0" by simp
    then show ?thesis using mem unfolding nftHookFamilies_def foldl_or_zero by blast
  next
    case False
    then have "checkFlowtableAdmissionFor None (Some objects) specs =
        Some (Admission \<lparr>ad_families = ?m, ad_inspection = False, ad_permitted = []\<rparr>)"
      using cs ne by (cases cs) (auto simp: checkFlowtableAdmissionFor_def Let_def)
    with assms(1) have "\<not> list_ex (affects \<lparr>ad_families = ?m, ad_inspection = False, ad_permitted = []\<rparr>) specs"
      by (auto simp: checkAdmissionFor_def split: if_splits)
    with assms(2,3) have "?m AND family_mask (Family s) = 0"
      by (auto simp: list_ex_iff affects_def Let_def family_mask_def split: if_splits)
    then show ?thesis using mem unfolding nftHookFamilies_def foldl_or_zero by blast
  qed
qed

end
