(* ===== verification/Nft_Disk.thy ===== *)
theory Nft_Disk
  imports Nft_Tuples Nft_Rules
begin

text \<open>
  The recovery record on disk (\<^verbatim>\<open>nft_disk_linux.go\<close>): what it holds, which records are accepted, how a session
  binds it to the table, and its two phases.  Writing the serialised record to its file is an argument; so is
  the random instance of a new record.
\<close>

section \<open>Data\<close>

record disk_context =
  dc_config :: string
  dc_boot :: string
  dc_netDevice :: "64 word"
  dc_netInode :: "64 word"
  dc_netCookie :: "64 word"
  dc_uid :: "32 word"
  dc_owner :: string
  dc_zonePolicy :: string

type_synonym disk_path = "string \<times> nft_spec"

record disk_snapshot =
  ds_active :: "disk_path list"
  ds_pending :: "disk_path list"
  ds_suspended :: "disk_path list"

record disk_record =
  dr_context :: disk_context
  dr_instance :: string
  dr_generation :: "64 word"
  dr_phase :: string
  dr_confirmed :: disk_snapshot
  dr_intent :: disk_snapshot

abbreviation empty_snapshot :: disk_snapshot where
  "empty_snapshot \<equiv> \<lparr>ds_active = [], ds_pending = [], ds_suspended = []\<rparr>"

record disk_session =
  sn_context :: disk_context
  sn_record :: "disk_record option"
  sn_rolledBoot :: bool

datatype disk_error =
    PathCount
  | Ownership
  | PathInvalid
  | DuplicatePath
  | ForeignBinding
  | BadInstance
  | NoRandom
  | InstanceDiffers
  | NoIdentity
  | Exhausted
  | NotPrepared
  | NotWritten

section \<open>Snapshots\<close>

definition diskNFTPaths :: "nft_spec list \<Rightarrow> disk_path list" where
  "diskNFTPaths specs =
     map (\<lambda>s. (nftRuleIdentity s, s\<lparr>RuleID := [], ruleIdentity := []\<rparr>)) (uniqueNFTSpecs [specs])"

definition diskNFTSnapshot :: "nft_spec list \<Rightarrow> nft_spec list \<Rightarrow> nft_spec list \<Rightarrow> disk_snapshot" where
  "diskNFTSnapshot active pending suspended =
     \<lparr>ds_active = diskNFTPaths active, ds_pending = diskNFTPaths pending, ds_suspended = diskNFTPaths suspended\<rparr>"

definition path_specs :: "disk_path list \<Rightarrow> nft_spec list" where
  "path_specs paths = map (\<lambda>(ident, s). s\<lparr>ruleIdentity := ident, RuleID := ''kernel-'' @ ident\<rparr>) paths"

definition path_key :: "disk_path \<Rightarrow> string" where
  "path_key p = nftRetirementKey ((snd p)\<lparr>ruleIdentity := fst p\<rparr>)"

fun check_paths :: "string \<Rightarrow> string list \<Rightarrow> disk_path list \<Rightarrow> disk_error option" where
  "check_paths owner seen [] = None"
| "check_paths owner seen (p # ps) =
     (let (ident, s) = p in
      guard (\<not> validNFTIdentity ident \<or> RuleID s \<noteq> [] \<or> nftOwnerMarker (ConntrackMark s) \<noteq> owner) Ownership
      (guard (\<not> validateRetirementSpec s) PathInvalid
      (guard (path_key p \<in> set seen) DuplicatePath
      (check_paths owner (path_key p # seen) ps))))"

definition validateNFTDiskSnapshot :: "disk_snapshot \<Rightarrow> string \<Rightarrow> disk_error option" where
  "validateNFTDiskSnapshot d owner =
     guard (maxNFTRetiredSpecs < length (ds_active d) + length (ds_pending d) + length (ds_suspended d)) PathCount
     (try_err (check_paths owner [] (ds_active d))
     (try_err (check_paths owner [] (ds_pending d))
     (check_paths owner [] (ds_suspended d))))"

section \<open>Identity\<close>

definition validNFTBootID :: "string \<Rightarrow> bool" where
  "validNFTBootID ident \<longleftrightarrow>
     length ident = 36 \<and> ident ! 8 = CHR ''-'' \<and> ident ! 13 = CHR ''-'' \<and> ident ! 18 = CHR ''-'' \<and> ident ! 23 = CHR ''-''
     \<and> hex_decode (filter (\<lambda>c. c \<noteq> CHR ''-'') ident) \<noteq> None"

definition newBootOnly :: "disk_context \<Rightarrow> disk_context \<Rightarrow> bool" where
  "newBootOnly old current \<longleftrightarrow>
     dc_netDevice old \<noteq> 0 \<and> dc_netInode old \<noteq> 0 \<and> dc_netCookie old \<noteq> 0 \<and> dc_boot old \<noteq> dc_boot current
     \<and> validNFTBootID (dc_boot old) \<and> dc_config old = dc_config current \<and> dc_uid old = dc_uid current
     \<and> dc_owner old = dc_owner current \<and> dc_zonePolicy old = dc_zonePolicy current"

text \<open>The acceptance of a decoded record: its header and both snapshots.\<close>

definition record_ok :: "string \<Rightarrow> int \<Rightarrow> disk_record \<Rightarrow> bool" where
  "record_ok owner schema r \<longleftrightarrow>
     schema = 1 \<and> (dr_phase r = ''prepare'' \<or> dr_phase r = ''checkpoint'') \<and> dr_generation r \<noteq> 0
     \<and> length (dr_instance r) = 32 \<and> hex_decode (dr_instance r) \<noteq> None
     \<and> validateNFTDiskSnapshot (dr_confirmed r) owner = None \<and> validateNFTDiskSnapshot (dr_intent r) owner = None"

definition binding_prefix :: "disk_session \<Rightarrow> string" where
  "binding_prefix s = ''pb-disk:v1:'' @ dc_config (sn_context s) @ '':''"

text \<open>
  The binding of the table: a new session without a record takes the instance of the table, or a random one.
\<close>

definition disk_binding ::
    "('w \<Rightarrow> string option \<times> 'w) \<Rightarrow> string \<Rightarrow> disk_session \<Rightarrow> 'w \<Rightarrow> (disk_error + string) \<times> disk_session \<times> 'w" where
  "disk_binding random listed s w =
     (let prefix = binding_prefix s; own = drop (length prefix) listed in
      if listed \<noteq> [] \<and> (\<not> has_prefix prefix listed \<or> length listed \<noteq> length prefix + 32) then (Inl ForeignBinding, s, w)
      else if listed \<noteq> [] \<and> hex_decode own = None then (Inl BadInstance, s, w)
      else
        let (instance_id, w1) =
          (case sn_record s of
             Some r \<Rightarrow> (Some (dr_instance r), w)
           | None \<Rightarrow> if listed \<noteq> [] then (Some own, w) else random w)
        in case instance_id of
             None \<Rightarrow> (Inl NoRandom, s, w1)
           | Some i \<Rightarrow>
               let s1 = (case sn_record s of
                           Some r \<Rightarrow> s
                         | None \<Rightarrow> s\<lparr>sn_record := Some \<lparr>dr_context = sn_context s, dr_instance = i, dr_generation = 0,
                                       dr_phase = [], dr_confirmed = empty_snapshot, dr_intent = empty_snapshot\<rparr>\<rparr>)
               in if listed \<noteq> [] \<and> listed \<noteq> prefix @ i then (Inl InstanceDiffers, s1, w1)
                  else (Inr (prefix @ i), s1, w1))"

section \<open>Phases\<close>

type_synonym 'w record_writer = "disk_record \<Rightarrow> 'w \<Rightarrow> bool \<times> 'w"

definition save ::
    "'w record_writer \<Rightarrow> disk_record \<Rightarrow> disk_session \<Rightarrow> 'w \<Rightarrow> disk_error option \<times> disk_session \<times> 'w" where
  "save writer r s w =
     (case try_err (validateNFTDiskSnapshot (dr_confirmed r) (dc_owner (sn_context s)))
                   (validateNFTDiskSnapshot (dr_intent r) (dc_owner (sn_context s))) of
        Some e \<Rightarrow> (Some e, s, w)
      | None \<Rightarrow>
          let (ok, w1) = writer r w in
          if ok then (None, s\<lparr>sn_record := Some r\<rparr>, w1) else (Some NotWritten, s, w1))"

definition prepare ::
    "'w record_writer \<Rightarrow> disk_snapshot \<Rightarrow> disk_snapshot \<Rightarrow> disk_session \<Rightarrow> 'w \<Rightarrow> disk_error option \<times> disk_session \<times> 'w" where
  "prepare writer confirmed intent s w =
     (case sn_record s of
        None \<Rightarrow> (Some NoIdentity, s, w)
      | Some r \<Rightarrow>
          if dr_generation r = - 1 then (Some Exhausted, s, w)
          else save writer (r\<lparr>dr_generation := dr_generation r + 1, dr_phase := ''prepare'', dr_confirmed := confirmed,
                              dr_intent := intent\<rparr>) s w)"

definition checkpoint ::
    "'w record_writer \<Rightarrow> disk_snapshot \<Rightarrow> disk_session \<Rightarrow> 'w \<Rightarrow> disk_error option \<times> disk_session \<times> 'w" where
  "checkpoint writer confirmed s w =
     (case sn_record s of
        None \<Rightarrow> (Some NotPrepared, s, w)
      | Some r \<Rightarrow>
          if dr_generation r = 0 then (Some NotPrepared, s, w)
          else save writer (r\<lparr>dr_phase := ''checkpoint'', dr_confirmed := confirmed, dr_intent := empty_snapshot\<rparr>) s w)"

section \<open>Facts\<close>

lemma identified_path:
  assumes ok: "spec_ok s"
  shows "spec_tuples (s\<lparr>RuleID := r, ruleIdentity := nftRuleIdentity s\<rparr>) = spec_tuples s
    \<and> spec_ok (s\<lparr>RuleID := r, ruleIdentity := nftRuleIdentity s\<rparr>)"
proof -
  define s' where "s' = s\<lparr>RuleID := r, ruleIdentity := nftRuleIdentity s\<rparr>"
  have "nftRuleIdentity s \<noteq> []" using ok by (auto simp: spec_ok_def validNFTIdentity_def short_identity_def split: if_splits)
  then have i: "nftRuleIdentity s' = nftRuleIdentity s" by (simp add: s'_def nftRuleIdentity_def)
  have p: "nftLastPort s' = nftLastPort s" "nftLastTargetPort s' = nftLastTargetPort s"
    "ListenPort s' = ListenPort s" "TargetPort s' = TargetPort s" "Family s' = Family s" "Protocol s' = Protocol s"
    "ConntrackMark s' = ConntrackMark s" "ListenHost s' = ListenHost s" "TargetHost s' = TargetHost s"
    by (simp_all add: s'_def nftLastPort_def nftLastTargetPort_def)
  have "spec_tuples s' = spec_tuples s" unfolding spec_tuples_def spec_ports_def tuple_at_def i p ..
  moreover have "spec_ok s'" using ok unfolding spec_ok_def validateRetirementSpec_def i p .
  ultimately show ?thesis by (simp add: s'_def)
qed

lemma identified_paths:
  "specs_ok ss \<Longrightarrow> tuples (map (\<lambda>s. s\<lparr>RuleID := r s, ruleIdentity := nftRuleIdentity s\<rparr>) ss) = tuples ss
    \<and> specs_ok (map (\<lambda>s. s\<lparr>RuleID := r s, ruleIdentity := nftRuleIdentity s\<rparr>) ss)"
  by (induction ss) (simp_all add: identified_path)

lemma path_specs_tuples:
  assumes "specs_ok specs"
  shows "tuples (path_specs (diskNFTPaths specs)) = tuples specs \<and> specs_ok (path_specs (diskNFTPaths specs))"
proof -
  let ?u = "uniqueNFTSpecs [specs]"
  let ?f = "\<lambda>s. s\<lparr>RuleID := ''kernel-'' @ nftRuleIdentity s, ruleIdentity := nftRuleIdentity s\<rparr>"
  have u: "tuples ?u = tuples specs" "specs_ok ?u"
    using uniqueNFTSpecs_tuples[of "[specs]"] uniqueNFTSpecs_subset[of "[specs]"] assms by (auto simp: specs_ok_def)
  have eq: "path_specs (diskNFTPaths specs) = map ?f ?u"
    by (simp add: path_specs_def diskNFTPaths_def)
  have "tuples (map ?f ?u) = tuples ?u \<and> specs_ok (map ?f ?u)"
    using identified_paths[OF u(2), of "\<lambda>s. ''kernel-'' @ nftRuleIdentity s"] .
  with u eq show ?thesis by metis
qed

lemma save_result:
  "save writer r s w = (e, s', w') \<Longrightarrow>
     sn_context s' = sn_context s \<and> (e = None \<longrightarrow> sn_record s' = Some r) \<and> (e \<noteq> None \<longrightarrow> s' = s)"
  by (auto simp: save_def split: option.splits prod.splits if_splits)

text \<open>The snapshot of well-formed specs is a valid one: its paths have distinct keys.\<close>

lemma unique_keys: "map nftRetirementKey (uniqueNFTSpecs gs) = sort (remdups (map nftRetirementKey (concat gs)))"
proof -
  let ?kvs = "map (\<lambda>s. (nftRetirementKey s, s)) (concat gs)"
  have key: "nftRetirementKey (the (map_of (rev ?kvs) k)) = k" if k: "k \<in> fst ` set ?kvs" for k
  proof -
    from k obtain w where "map_of (rev ?kvs) k = Some w"
      by (metis map_of_eq_None_iff not_None_eq set_rev)
    then show ?thesis using map_of_SomeD[of "rev ?kvs" k w] by auto
  qed
  let ?ks = "sort (remdups (map fst ?kvs))"
  have "set ?ks = fst ` set ?kvs" by (simp only: set_sort set_remdups set_map)
  with key have "map (\<lambda>k. nftRetirementKey (the (map_of (rev ?kvs) k))) ?ks = map (\<lambda>k. k) ?ks"
    by (intro map_cong refl) blast
  moreover have "map fst ?kvs = map nftRetirementKey (concat gs)" by simp
  ultimately show ?thesis unfolding uniqueNFTSpecs_def map_values_sorted_def map_map comp_def by simp
qed

lemma check_paths_ok:
  assumes "\<forall>p\<in>set ps. validNFTIdentity (fst p) \<and> RuleID (snd p) = [] \<and> nftOwnerMarker (ConntrackMark (snd p)) = owner
      \<and> validateRetirementSpec (snd p)"
    and "distinct (map path_key ps)" and "\<forall>p\<in>set ps. path_key p \<notin> set seen"
  shows "check_paths owner seen ps = None"
  using assms
proof (induction ps arbitrary: seen)
  case (Cons p ps)
  obtain ident s where p: "p = (ident, s)" by fastforce
  have "check_paths owner (path_key p # seen) ps = None" using Cons.prems by (intro Cons.IH) (force simp: image_iff)+
  with Cons.prems p show ?case by simp
qed simp

definition owned_by :: "string \<Rightarrow> nft_spec list \<Rightarrow> bool" where
  "owned_by owner specs \<longleftrightarrow> (\<forall>s\<in>set specs. nftOwnerMarker (ConntrackMark s) = owner)"

lemma diskNFTPaths_ok:
  assumes "specs_ok specs" and "owned_by owner specs"
  shows "check_paths owner [] (diskNFTPaths specs) = None" and "length (diskNFTPaths specs) \<le> length specs"
proof -
  let ?p = "\<lambda>s. (nftRuleIdentity s, s\<lparr>RuleID := [], ruleIdentity := []\<rparr>)"
  have member: "s \<in> set specs" if "s \<in> set (uniqueNFTSpecs [specs])" for s
    using that uniqueNFTSpecs_subset[of "[specs]"] by auto
  have key: "path_key (?p s) = nftRetirementKey s" if "spec_ok s" for s
  proof -
    have "nftRuleIdentity s \<noteq> []"
      using that by (auto simp: spec_ok_def validNFTIdentity_def short_identity_def split: if_splits)
    then show ?thesis
      by (simp add: path_key_def nftRetirementKey_def nftLastPort_def nftLastTargetPort_def nftRuleIdentity_def)
  qed
  have keys: "map path_key (diskNFTPaths specs) = map nftRetirementKey (uniqueNFTSpecs [specs])"
    using assms(1) member by (auto simp: diskNFTPaths_def key specs_ok_def)
  have plain: "validateRetirementSpec (s\<lparr>RuleID := [], ruleIdentity := []\<rparr>) = validateRetirementSpec s" for s
    by (simp add: validateRetirementSpec_def nftLastPort_def nftLastTargetPort_def)
  show "check_paths owner [] (diskNFTPaths specs) = None"
  proof (rule check_paths_ok)
    show "distinct (map path_key (diskNFTPaths specs))" unfolding keys unique_keys by simp
    show "\<forall>p\<in>set (diskNFTPaths specs). validNFTIdentity (fst p) \<and> RuleID (snd p) = []
        \<and> nftOwnerMarker (ConntrackMark (snd p)) = owner \<and> validateRetirementSpec (snd p)"
      using assms member by (auto simp: diskNFTPaths_def plain specs_ok_def spec_ok_def owned_by_def)
  qed simp
  have "length (diskNFTPaths specs) = length (map nftRetirementKey (uniqueNFTSpecs [specs]))" by (simp add: diskNFTPaths_def)
  also have "\<dots> \<le> length specs" unfolding unique_keys using length_remdups_leq[of "map nftRetirementKey specs"] by simp
  finally show "length (diskNFTPaths specs) \<le> length specs" .
qed

lemma diskNFTSnapshot_ok:
  assumes "specs_ok (active @ pending @ suspended)" and "owned_by owner (active @ pending @ suspended)"
    and "length active + length pending + length suspended \<le> maxNFTRetiredSpecs"
  shows "validateNFTDiskSnapshot (diskNFTSnapshot active pending suspended) owner = None"
proof -
  have a: "specs_ok active" "owned_by owner active" and p: "specs_ok pending" "owned_by owner pending"
    and s: "specs_ok suspended" "owned_by owner suspended"
    using assms(1,2) by (auto simp: owned_by_def)
  show ?thesis
    using diskNFTPaths_ok[OF a] diskNFTPaths_ok[OF p] diskNFTPaths_ok[OF s] assms(3)
    by (simp add: validateNFTDiskSnapshot_def diskNFTSnapshot_def)
qed

lemma snapshot_tuples:
  assumes "specs_ok (active @ pending @ suspended)"
  shows "tuples (path_specs (ds_active (diskNFTSnapshot active pending suspended))) = tuples active"
    "tuples (path_specs (ds_pending (diskNFTSnapshot active pending suspended))) = tuples pending"
    "tuples (path_specs (ds_suspended (diskNFTSnapshot active pending suspended))) = tuples suspended"
  using assms path_specs_tuples by (simp_all add: diskNFTSnapshot_def)

lemma prepare_result:
  "prepare writer confirmed intent s w = (None, s', w') \<Longrightarrow>
     \<exists>r. sn_record s = Some r \<and> dr_generation r \<noteq> - 1
       \<and> sn_record s' = Some (r\<lparr>dr_generation := dr_generation r + 1, dr_phase := ''prepare'', dr_confirmed := confirmed,
                               dr_intent := intent\<rparr>)"
  by (auto simp: prepare_def dest: save_result split: option.splits if_splits)

lemma checkpoint_result:
  "checkpoint writer confirmed s w = (None, s', w') \<Longrightarrow>
     \<exists>r. sn_record s = Some r \<and> dr_generation r \<noteq> 0
       \<and> sn_record s' = Some (r\<lparr>dr_phase := ''checkpoint'', dr_confirmed := confirmed, dr_intent := empty_snapshot\<rparr>)"
  by (auto simp: checkpoint_def dest: save_result split: option.splits if_splits)

end
