(* ===== verification/Props_Backend.thy ===== *)
theory Props_Backend
  imports Nft_Identity Nft_State_Facts Nft_Disk
begin

text \<open>
  The properties of what the backend writes to the kernel and to the disk, and of what it reads back.
\<close>

section \<open>Samples\<close>

definition kernel_spec :: nft_spec where
  "kernel_spec =
     \<lparr>RuleID = ''a'', Family = 4, ListenHost = ipv4_unspecified, ListenPort = 8000, ListenPortEnd = 8001,
      TargetHost = IP4 0xC6336407, TargetPort = 9000, TargetPortEnd = 9001, Protocol = ''tcp'',
      ConntrackMark = 0x50420001, EnableFlowtable = True,
      ruleIdentity = ''0123456789abcdef0123456789abcdef0123456789abcdef0123456789abcdef''\<rparr>"

lemma kernel_spec_ok: "spec_ok kernel_spec"
  by code_simp

definition kernel_owner :: string where
  "kernel_owner = nftOwnerMarker 0x50420001"

lemma kernel_owner_spec [simp]: "nftOwnerMarker (ConntrackMark kernel_spec) = kernel_owner"
  by (simp add: kernel_spec_def kernel_owner_def)

section \<open>The journal in the kernel\<close>

lemma images_tuples: "specs_ok specs \<Longrightarrow> tuples (map journal_image specs) = tuples specs"
  by (induction specs) (simp_all add: image_tuples)

lemma roles_ok: "\<forall>e\<in>set es. entry_ok owner e \<Longrightarrow> specs_ok (roles r es)"
  by (induction es) (auto simp: entry_ok_def)

text \<open>C22.
  The journal the backend keeps in the table is read back as it was written: from a listing in which the kernel
  has added handles and counters and other objects surround the records, the decoder gets every record with its
  role, and the decoded specs forward exactly the tuples of the recorded ones.\<close>

theorem journal_roundtrip:
  assumes "\<forall>e\<in>set es. entry_ok owner e" and "length es \<le> maxNFTRetiredSpecs"
    and "\<forall>x\<in>set (pre @ post). unrelated x"
  shows "\<exists>j. decodeNFTJournal (pre @ [state_chain binding handle] @ map entry_object es @ post) owner = Inr j
    \<and> j_binding j = binding \<and> j_present j
    \<and> j_active j = map journal_image (roles ''a'' es) \<and> tuples (j_active j) = tuples (roles ''a'' es)
    \<and> j_retired j = map journal_image (roles ''r'' es) \<and> tuples (j_retired j) = tuples (roles ''r'' es)
    \<and> j_suspended j = map journal_image (roles ''s'' es) \<and> tuples (j_suspended j) = tuples (roles ''s'' es)"
  using decode_listed_journal[OF assms(1,2), of pre post binding handle] assms(3) roles_ok[OF assms(1)]
  by (simp add: images_tuples)

definition kernel_entry :: journal_entry where
  "kernel_entry =
     \<lparr>e_role = ''s'', e_spec = kernel_spec, e_handle = JNum ''7'', e_values = [(''packets'', JNum ''3''), (''bytes'', JNum ''180'')]\<rparr>"

theorem journal_roundtrip_witness:
  "\<exists>j. decodeNFTJournal ([JObj [(''metainfo'', JNull)], state_chain ''b'' (JNum ''4'')] @ [entry_object kernel_entry]) kernel_owner
     = Inr j \<and> j_suspended j = [journal_image kernel_spec] \<and> tuples (j_suspended j) = spec_tuples kernel_spec"
proof -
  have "entry_ok kernel_owner kernel_entry"
    using kernel_spec_ok by (simp add: entry_ok_def kernel_entry_def counter_values_def)
  moreover have "unrelated (JObj [(''metainfo'', JNull)])" by (simp add: unrelated_def jobject_def)
  ultimately obtain j where
    "decodeNFTJournal ([JObj [(''metainfo'', JNull)], state_chain ''b'' (JNum ''4'')] @ [entry_object kernel_entry]) kernel_owner = Inr j"
    "j_suspended j = map journal_image (roles ''s'' [kernel_entry])" "tuples (j_suspended j) = tuples (roles ''s'' [kernel_entry])"
    using journal_roundtrip[of "[kernel_entry]" kernel_owner "[JObj [(''metainfo'', JNull)]]" "[]" "''b''" "JNum ''4''"]
    by auto
  then show ?thesis by (auto simp: kernel_entry_def)
qed

section \<open>Tables without a journal\<close>

text \<open>A table of a version without a journal is recovered from its prerouting rules: every listed rule the renderer
  wrote for a spec, handles and counters included, gives back its ports, addresses, protocol and mark; and once
  its tag is resolved against rules of which exactly one carries it, exactly its tuples.\<close>

theorem legacy_roundtrip:
  assumes "\<forall>e\<in>set es. table_entry_ok owner e"
  shows "recoverLegacyNFTSpecs (map table_object es) owner
      = Inr (map (legacy_image (has_flowtable (map table_object es))) (nat_specs es))
    \<and> (\<forall>s\<in>set (nat_specs es). ruleIdentity s = [] \<longrightarrow> s \<in> set desired \<longrightarrow>
         (\<forall>w\<in>set desired. matches_identity (nftRuleIdentity (legacy_image flow s)) w \<longrightarrow> nftRuleIdentity w = nftRuleIdentity s) \<longrightarrow>
         spec_tuples (resolve_identity desired (legacy_image flow s)) = spec_tuples s)"
proof -
  have "validateRetirementSpec s" if "s \<in> set (nat_specs es)" for s
    using that assms by (induction es rule: nat_specs.induct) auto
  then show ?thesis
    using legacy_rules_listed[OF assms] legacy_resolved by (auto simp: recoverLegacyNFTSpecs_def)
qed

definition nat_table :: "table_entry list" where
  "nat_table = [Foreign (JObj [(''flowtable'', JNull)]), Nat (kernel_spec\<lparr>ruleIdentity := []\<rparr>) (JNum ''9'') []]"

theorem legacy_roundtrip_witness:
  "recoverLegacyNFTSpecs (map table_object nat_table) kernel_owner = Inr [legacy_image True (kernel_spec\<lparr>ruleIdentity := []\<rparr>)]
   \<and> spec_tuples (resolve_identity [kernel_spec\<lparr>ruleIdentity := []\<rparr>] (legacy_image True (kernel_spec\<lparr>ruleIdentity := []\<rparr>)))
     = spec_tuples (kernel_spec\<lparr>ruleIdentity := []\<rparr>)"
proof -
  let ?s = "kernel_spec\<lparr>ruleIdentity := []\<rparr>"
  have "validateRetirementSpec ?s" by code_simp
  moreover have "nftOwnerMarker (ConntrackMark ?s) = kernel_owner" by (simp add: kernel_spec_def kernel_owner_def)
  ultimately have ok: "\<forall>e\<in>set nat_table. table_entry_ok kernel_owner e"
    by (simp add: nat_table_def counter_values_def foreign_to_nat_def jobject_def)
  have "has_flowtable (map table_object nat_table)" by (simp add: nat_table_def has_flowtable_def jfield_def)
  with legacy_roundtrip[OF ok, of "[?s]" True] show ?thesis by (simp add: nat_table_def)
qed

section \<open>The installed objects\<close>

text \<open>C21.
  The readback check accepts a listing of the table exactly when its rules are, as a multiset of normalised keys,
  the rules of the plan and its journal, its chains are exactly the expected ones with their hooks, priorities and
  policies, it has one table descriptor with the owner's mark, its flowtable is there exactly when wanted with
  exactly the devices, and it holds no other object.\<close>

theorem installed_state_exact:
  "(validateNFTState objects specs devices owner st = None) = state_matches objects specs devices owner st"
  by (rule validateNFTState_exact)

section \<open>The scripts\<close>

text \<open>Every script the backend pipes into the tool consists of lines that each hold one command on the managed table
  and no newline of their own, whatever the specs, the devices of the system and the binding contain, as long as
  the specs are valid; so no text of a rule or an interface can add a command on another table.\<close>

theorem scripts_confined:
  assumes "\<forall>s\<in>set (specs @ rs_retired st @ rs_suspended st). validateRetirementSpec s"
  shows "list_all confined (renderNFTScript specs present devices st)
    \<and> list_all confined (renderNFTChainRefresh specs (rs_retired st) (rs_suspended st) (rs_binding st))
    \<and> list_all confined (writeNFTJournal specs (rs_retired st) create (rs_suspended st) (rs_binding st))"
proof -
  have p: "\<forall>s\<in>set (specs @ rs_retired st @ rs_suspended st). printable_spec s"
    using assms validateRetirementSpec_printable by blast
  show ?thesis
    using renderNFTScript_confined[OF p, of _ present devices] renderNFTChainRefresh_confined[OF p]
      writeNFTJournal_confined[OF p] by (auto simp: list_all_iff)
qed

definition kernel_state :: render_state where
  "kernel_state = \<lparr>rs_retired = [kernel_spec], rs_suspended = [], rs_binding = ''b'', rs_keepFlowtable = True\<rparr>"

theorem scripts_confined_witness:
  "list_all confined (renderNFTScript [kernel_spec] True [''eth0 ; flush ruleset''] kernel_state)"
proof -
  have "validateRetirementSpec kernel_spec" using kernel_spec_ok by (simp add: spec_ok_def)
  then have "\<forall>s\<in>set ([kernel_spec] @ rs_retired kernel_state @ rs_suspended kernel_state). validateRetirementSpec s"
    by (simp add: kernel_state_def)
  from scripts_confined[OF this, of True "[''eth0 ; flush ruleset'']"] show ?thesis by blast
qed

section \<open>Admission to the fast path\<close>

text \<open>The families that are left to see the flows of a spec.\<close>

definition sees :: "json list \<Rightarrow> nft_spec \<Rightarrow> bool" where
  "sees hooks s \<longleftrightarrow> nftHookFamilies hooks AND family_mask (Family s) \<noteq> 0"

lemma affects_sees:
  "affects \<lparr>ad_families = nftHookFamilies hooks, ad_inspection = i, ad_permitted = allowed\<rparr> s \<longleftrightarrow>
     EnableFlowtable s \<and> sees hooks s \<and> \<not> list_ex (\<lambda>a. nftSelectiveScopeCovers a s) allowed"
  by (auto simp: affects_def sees_def family_mask_def Let_def)

lemma sees_conflicts:
  "nftConflictingHooks objects = Inr cs \<Longrightarrow>
   sees cs s \<longleftrightarrow> (\<exists>chain\<in>conflicts_in objects. chain_mask (JObj [(''chain'', chain)]) AND family_mask (Family s) \<noteq> 0)"
  unfolding sees_def nftHookFamilies_def foldl_or_zero
  by (drule nftConflictingHooks_result) (simp add: bex_simps)

lemma admission_plain:
  assumes "nftConflictingHooks objects = Inr cs"
  shows "checkAdmissionFor None (Some objects) specs = None \<longleftrightarrow> (\<forall>s\<in>set specs. EnableFlowtable s \<longrightarrow> \<not> sees cs s)"
proof (cases "nftHookFamilies cs = 0")
  case True
  then have "checkFlowtableAdmissionFor None (Some objects) specs = None"
    using assms by (cases cs) (auto simp: checkFlowtableAdmissionFor_def)
  with True show ?thesis by (simp add: checkAdmissionFor_def sees_def)
next
  case False
  then have "cs \<noteq> []" by (auto simp: nftHookFamilies_def)
  with False assms have "checkFlowtableAdmissionFor None (Some objects) specs =
      Some (Admission \<lparr>ad_families = nftHookFamilies cs, ad_inspection = False, ad_permitted = []\<rparr>)"
    by (cases cs) (auto simp: checkFlowtableAdmissionFor_def Let_def)
  then show ?thesis by (auto simp: checkAdmissionFor_def affects_sees list_ex_iff)
qed

lemma admission_proved:
  assumes "checkAdmissionFor (Some reader) (Some objects) specs = None" and "nftConflictingHooks objects = Inr cs"
    and "s \<in> set specs" and "EnableFlowtable s" and "sees cs s"
  shows "\<exists>remaining allowed. reader cs specs = Inr (remaining, allowed)
    \<and> (sees remaining s \<longrightarrow> (\<exists>a\<in>set allowed. EnableFlowtable a \<and> spec_tuples s \<subseteq> spec_tuples a))"
proof -
  obtain c cs' where cs: "cs = c # cs'" using assms(5) by (cases cs) (auto simp: sees_def nftHookFamilies_def)
  show ?thesis
  proof (cases "reader cs specs")
    case (Inl extra)
    let ?e = "\<lparr>ad_families = nftHookFamilies cs OR extra, ad_inspection = True, ad_permitted = []\<rparr>"
    have "checkFlowtableAdmissionFor (Some reader) (Some objects) specs = Some (Admission ?e)"
      using assms(2) Inl cs by (simp add: checkFlowtableAdmissionFor_def Let_def)
    moreover have "affects ?e s"
      using assms(4,5) by (auto simp: affects_def sees_def family_mask_def Let_def bit.conj_disj_distrib2 or_eq_0_iff)
    ultimately have False using assms(1,3) by (auto simp: checkAdmissionFor_def list_ex_iff split: if_splits)
    then show ?thesis ..
  next
    case (Inr p)
    obtain remaining allowed where p: "p = (remaining, allowed)" by fastforce
    show ?thesis
    proof (cases "sees remaining s")
      case False
      with Inr p show ?thesis by simp
    next
      case True
      let ?e = "\<lparr>ad_families = nftHookFamilies remaining, ad_inspection = False, ad_permitted = allowed\<rparr>"
      have "nftHookFamilies remaining \<noteq> 0" using True by (auto simp: sees_def)
      then have "checkFlowtableAdmissionFor (Some reader) (Some objects) specs = Some (Admission ?e)"
        using assms(2) Inr p cs by (simp add: checkFlowtableAdmissionFor_def Let_def)
      with assms(1,3) have "\<not> affects ?e s" by (auto simp: checkAdmissionFor_def list_ex_iff split: if_splits)
      with True assms(4) obtain a where "a \<in> set allowed" "nftSelectiveScopeCovers a s"
        by (auto simp: affects_sees list_ex_iff)
      then show ?thesis using Inr p covers_tuples[of a s] by (auto simp: nftSelectiveScopeCovers_def)
    qed
  qed
qed

text \<open>Acceleration is admitted against foreign hooks only when it must be: without a proof of compatibility exactly when
  every chain can be read and no conflicting chain (a forward hook at the last priority, or a postrouting hook that
  is not NAT) sees the family of an accelerated spec; with one, only for specs that no remaining chain sees or
  whose tuples lie within a permitted scope; and never when the chains cannot be listed.\<close>

theorem admission_exact:
  "(checkAdmissionFor None (Some objects) specs = None) =
     ((\<exists>cs. nftConflictingHooks objects = Inr cs) \<and>
      (\<forall>s\<in>set specs. EnableFlowtable s \<longrightarrow>
         (\<forall>chain\<in>conflicts_in objects. chain_mask (JObj [(''chain'', chain)]) AND family_mask (Family s) = 0)))
   \<and> (checkAdmissionFor (Some reader) (Some objects) specs = None \<longrightarrow> nftConflictingHooks objects = Inr cs \<longrightarrow>
       (\<forall>s\<in>set specs. EnableFlowtable s \<longrightarrow> sees cs s \<longrightarrow>
          (\<exists>remaining allowed. reader cs specs = Inr (remaining, allowed)
             \<and> (sees remaining s \<longrightarrow> (\<exists>a\<in>set allowed. EnableFlowtable a \<and> spec_tuples s \<subseteq> spec_tuples a)))))
   \<and> checkAdmissionFor selective None specs = Some ChainsUnreadable"
proof -
  have "(checkAdmissionFor None (Some objects) specs = None) =
     ((\<exists>cs. nftConflictingHooks objects = Inr cs) \<and>
      (\<forall>s\<in>set specs. EnableFlowtable s \<longrightarrow>
         (\<forall>chain\<in>conflicts_in objects. chain_mask (JObj [(''chain'', chain)]) AND family_mask (Family s) = 0)))"
  proof (cases "nftConflictingHooks objects")
    case (Inl e)
    then show ?thesis by (simp add: checkAdmissionFor_def checkFlowtableAdmissionFor_def)
  next
    case (Inr cs)
    then show ?thesis unfolding admission_plain[OF Inr] sees_conflicts[OF Inr] by auto
  qed
  moreover have "checkAdmissionFor selective None specs = Some ChainsUnreadable"
    by (simp add: checkAdmissionFor_def checkFlowtableAdmissionFor_def)
  ultimately show ?thesis using admission_proved by blast
qed

definition foreign_hook :: json where
  "foreign_hook = JObj [(''family'', JStr ''inet''), (''table'', JStr ''fw''), (''name'', JStr ''late''), (''hook'', JStr ''forward''),
     (''type'', JStr ''filter''), (''prio'', JNum ''2147483647'')]"

theorem admission_exact_witness:
  "checkAdmissionFor None (Some [JObj [(''chain'', foreign_hook)]]) [kernel_spec] \<noteq> None
   \<and> checkAdmissionFor None (Some []) [kernel_spec] = None"
proof -
  have "foreign_hook \<in> conflicts_in [JObj [(''chain'', foreign_hook)]]"
    "chain_mask (JObj [(''chain'', foreign_hook)]) AND family_mask (Family kernel_spec) \<noteq> 0" "EnableFlowtable kernel_spec"
    unfolding conflicts_in_def by simp_all code_simp+
  then have "checkAdmissionFor None (Some [JObj [(''chain'', foreign_hook)]]) [kernel_spec] \<noteq> None"
    using admission_exact[of "[JObj [(''chain'', foreign_hook)]]" "[kernel_spec]"] by fastforce
  moreover have "checkAdmissionFor None (Some []) [kernel_spec] = None"
    using admission_exact[of "[]" "[kernel_spec]"] by (simp add: conflicts_in_def)
  ultimately show ?thesis by blast
qed

section \<open>The record on the disk\<close>

text \<open>C27.
  The recovery record keeps ownership: the snapshot of well-formed owned specs is valid and gives back exactly
  their tuples in each role; a prepared record has a new nonzero generation, keeps the confirmed scope beside the
  intent, and a confirmed one replaces both; a failed write changes no session.\<close>

theorem disk_roundtrip:
  assumes "specs_ok (active @ pending @ suspended)" and "owned_by owner (active @ pending @ suspended)"
    and "length active + length pending + length suspended \<le> maxNFTRetiredSpecs"
  shows "(let snap = diskNFTSnapshot active pending suspended in
      validateNFTDiskSnapshot snap owner = None
      \<and> tuples (path_specs (ds_active snap)) = tuples active
      \<and> tuples (path_specs (ds_pending snap)) = tuples pending
      \<and> tuples (path_specs (ds_suspended snap)) = tuples suspended
      \<and> (case prepare writer snap intent s w of (e, s', w') \<Rightarrow>
           (e \<noteq> None \<longrightarrow> s' = s)
           \<and> (e = None \<longrightarrow> (\<exists>r. sn_record s' = Some r \<and> dr_confirmed r = snap \<and> dr_intent r = intent \<and> dr_generation r \<noteq> 0)))
      \<and> (case checkpoint writer snap s w of (e, s', w') \<Rightarrow>
           (e \<noteq> None \<longrightarrow> s' = s)
           \<and> (e = None \<longrightarrow> (\<exists>r. sn_record s' = Some r \<and> dr_confirmed r = snap \<and> dr_intent r = empty_snapshot))))"
proof -
  let ?snap = "diskNFTSnapshot active pending suspended"
  have "(e \<noteq> None \<longrightarrow> s' = s) \<and> (e = None \<longrightarrow> (\<exists>r. sn_record s' = Some r \<and> dr_confirmed r = ?snap \<and> dr_intent r = intent
      \<and> dr_generation r \<noteq> 0))" if "prepare writer ?snap intent s w = (e, s', w')" for e s' w'
    using that prepare_result[of writer ?snap intent s w s' w']
    by (auto simp: prepare_def add_eq_0_iff2 dest: save_result split: option.splits if_splits)
  moreover have "(e \<noteq> None \<longrightarrow> s' = s) \<and> (e = None \<longrightarrow> (\<exists>r. sn_record s' = Some r \<and> dr_confirmed r = ?snap
      \<and> dr_intent r = empty_snapshot))" if "checkpoint writer ?snap s w = (e, s', w')" for e s' w'
    using that checkpoint_result[of writer ?snap s w s' w']
    by (auto simp: checkpoint_def dest: save_result split: option.splits if_splits)
  ultimately show ?thesis
    using diskNFTSnapshot_ok[OF assms] snapshot_tuples[OF assms(1)]
    by (simp add: Let_def split: prod.split)
qed

definition kernel_session :: disk_session where
  "kernel_session =
     (let context = \<lparr>dc_config = ''c'', dc_boot = ''b'', dc_netDevice = 1, dc_netInode = 2, dc_netCookie = 3, dc_uid = 0,
                     dc_owner = kernel_owner, dc_zonePolicy = ''common-only''\<rparr>
      in \<lparr>sn_context = context,
          sn_record = Some \<lparr>dr_context = context, dr_instance = ''i'', dr_generation = 0, dr_phase = [],
                            dr_confirmed = empty_snapshot, dr_intent = empty_snapshot\<rparr>,
          sn_rolledBoot = False\<rparr>)"

theorem disk_roundtrip_witness:
  "validateNFTDiskSnapshot (diskNFTSnapshot [kernel_spec] [] []) kernel_owner = None
   \<and> tuples (path_specs (ds_active (diskNFTSnapshot [kernel_spec] [] []))) = spec_tuples kernel_spec
   \<and> fst (prepare (\<lambda>r w. (True, r # w)) (diskNFTSnapshot [kernel_spec] [] []) empty_snapshot kernel_session []) = None"
proof -
  have "specs_ok ([kernel_spec] @ [] @ [])" "owned_by kernel_owner ([kernel_spec] @ [] @ [])"
    using kernel_spec_ok by (simp_all add: owned_by_def)
  from disk_roundtrip[OF this, where writer = "\<lambda>r w. (True, r # w)" and s = kernel_session and w = "[]"]
  have "validateNFTDiskSnapshot (diskNFTSnapshot [kernel_spec] [] []) kernel_owner = None"
    "tuples (path_specs (ds_active (diskNFTSnapshot [kernel_spec] [] []))) = spec_tuples kernel_spec"
    by (simp_all add: Let_def)
  then show ?thesis
    by (simp add: prepare_def save_def kernel_session_def Let_def validateNFTDiskSnapshot_def[of empty_snapshot])
qed

end
