(* ===== verification/Nft_Backend.thy ===== *)
theory Nft_Backend
  imports Nft_Legacy Nft_State Nft_Disk Conntrack
begin

text \<open>
  The backend itself, \<^verbatim>\<open>commandNFTBackend\<close>: the replacement of the installed objects (\<^verbatim>\<open>nft.go\<close>), the recovery of
  what an earlier process or an earlier failure left, and the reconciliation that retires, gates, revokes and
  installs (\<^verbatim>\<open>nft_reconcile.go\<close>).  Every operation takes the state of the backend and the world the tools act on.
\<close>

section \<open>The tools\<close>

text \<open>
  The kernel answers with decoded listings, none when it cannot be asked or its answer is no document; a store
  opens a session on the recovery record; the proof that the kernel is empty may be missing.
\<close>

record 'w nft_io =
  nx_tables :: "'w \<Rightarrow> json list option \<times> 'w"
  nx_table :: "'w \<Rightarrow> json list option \<times> 'w"
  nx_chains :: "'w \<Rightarrow> json list option \<times> 'w"
  nx_apply :: "string \<Rightarrow> 'w \<Rightarrow> bool \<times> 'w"
  nx_interfaces :: "'w \<Rightarrow> (string + net_interface list) \<times> 'w"
  nx_selective :: "'w \<Rightarrow> selective_proof"
  nx_conntrack :: "'w ct_io"
  nx_owned :: "32 word \<Rightarrow> 'w \<Rightarrow> (ct_error + ct_entry list) \<times> 'w"
  nx_begin :: "(string \<Rightarrow> 'w \<Rightarrow> disk_session option \<times> 'w) option"
  nx_existing :: "string \<Rightarrow> 'w \<Rightarrow> bool \<times> 'w"
  nx_writer :: "'w record_writer"
  nx_random :: "'w \<Rightarrow> string option \<times> 'w"
  nx_cleanProbe :: "('w \<Rightarrow> bool \<times> 'w) option"
  nx_toolFound :: "'w \<Rightarrow> bool"

record backend =
  bk_initialized :: bool
  bk_devicesKey :: string
  bk_initErr :: bool
  bk_ownerMarker :: string
  bk_pendingTopology :: topology
  bk_topologyReady :: bool
  bk_fingerprint :: string
  bk_appliedSpecKey :: string
  bk_appliedActiveKey :: string
  bk_active :: "nft_spec list"
  bk_pending :: "nft_spec list"
  bk_suspended :: "nft_spec list"
  bk_recovered :: bool
  bk_unknownState :: bool
  bk_policyFamilies :: "8 word"
  bk_diskSession :: "disk_session option"
  bk_diskBinding :: string
  bk_cleanVerified :: bool
  bk_configErr :: bool
  bk_metricsEpoch :: "64 word"

datatype backend_error =
    ObserveFailed observe_error
  | ForeignTable
  | MarkMismatch
  | BadIdentity
  | TopologyFailed
  | NoDevice
  | JournalFailed journal_error
  | LegacyFailed legacy_error
  | IntentRefused
  | ApplyFailed
  | DeletionUnconfirmed
  | IntentNotPersisted
  | EmptyCheckpointFailed
  | TableChanged
  | InstalledDiffers state_error
  | CheckpointFailed
  | ForeignRecord
  | BoundWithoutStore
  | BindingFailed disk_error
  | RecoveryLimit
  | ConntrackFailed ct_error
  | CleanProbeFailed
  | OwnerInvalid
  | Unattributable
  | ConfigChanged
  | NoTool
  | StateFileBroken
  | StoreFailed
  | PendingLimit
  | AdmissionUnknown check_error
  | AdmissionRefused
  | ConnectionsRemain ct_error

section \<open>Setting up\<close>

text \<open>\<^verbatim>\<open>newCommandNFTBackend\<close>, from whether a trusted tool was found.\<close>

definition newCommandNFTBackend :: "bool \<Rightarrow> backend" where
  "newCommandNFTBackend found =
     \<lparr>bk_initialized = False, bk_devicesKey = [], bk_initErr = (\<not> found), bk_ownerMarker = nftOwnerMarker DefaultNFTConntrackMark,
      bk_pendingTopology = Inr [], bk_topologyReady = False, bk_fingerprint = [], bk_appliedSpecKey = [],
      bk_appliedActiveKey = [], bk_active = [], bk_pending = [], bk_suspended = [], bk_recovered = False,
      bk_unknownState = False, bk_policyFamilies = 0, bk_diskSession = None, bk_diskBinding = [],
      bk_cleanVerified = False, bk_configErr = False, bk_metricsEpoch = 0\<rparr>"

definition setConfig :: "32 word \<Rightarrow> backend \<Rightarrow> backend" where
  "setConfig mark n =
     (let owner = nftOwnerMarker mark in
      if owner \<noteq> bk_ownerMarker n \<and> (bk_recovered n \<or> bk_active n \<noteq> [] \<or> bk_pending n \<noteq> [] \<or> bk_suspended n \<noteq> [])
      then n\<lparr>bk_configErr := True\<rparr>
      else n\<lparr>bk_ownerMarker := owner, bk_configErr := False\<rparr>)"

text \<open>\<^verbatim>\<open>configuredMark\<close>: the mark is read off the owner again.\<close>

definition configuredMark :: "backend \<Rightarrow> 32 word option" where
  "configuredMark n =
     (let prefix = nftOwnerPrefix @ '':'' in
      if \<not> has_prefix prefix (bk_ownerMarker n) then None
      else case parse_uint16 (drop (length prefix) (bk_ownerMarker n)) 32 of
        None \<Rightarrow> None
      | Some m \<Rightarrow> if m = 0 then None else Some (of_nat m))"

definition clearAppliedState :: "backend \<Rightarrow> backend" where
  "clearAppliedState n =
     n\<lparr>bk_initialized := False, bk_devicesKey := [], bk_fingerprint := [], bk_metricsEpoch := bk_metricsEpoch n + 1,
       bk_appliedSpecKey := [], bk_appliedActiveKey := [], bk_active := [], bk_pending := [], bk_suspended := [],
       bk_topologyReady := False\<rparr>"

definition refreshMissingExecutables :: "'w nft_io \<Rightarrow> backend \<Rightarrow> 'w \<Rightarrow> backend" where
  "refreshMissingExecutables io n w =
     (if bk_initErr n \<and> nx_toolFound io w
      then n\<lparr>bk_initErr := False, bk_recovered := False, bk_cleanVerified := False\<rparr> else n)"

section \<open>Observation\<close>

definition observe :: "'w nft_io \<Rightarrow> string \<Rightarrow> 'w \<Rightarrow> (observe_error + observed_state) \<times> 'w" where
  "observe io owner w =
     (case nx_tables io w of
        (None, w1) \<Rightarrow> (Inl Unreadable, w1)
      | (Some objects, w1) \<Rightarrow>
          if 1 < listed_tables objects then (Inl DuplicateTable, w1)
          else if listed_tables objects = 0 then (Inr no_table, w1)
          else case nx_table io w1 of
            (None, w2) \<Rightarrow> (Inl Unreadable, w2)
          | (Some raw, w2) \<Rightarrow> (table_state owner raw, w2))"

definition topologyForFlowtable :: "'w nft_io \<Rightarrow> bool \<Rightarrow> backend \<Rightarrow> 'w \<Rightarrow> topology \<times> backend \<times> 'w" where
  "topologyForFlowtable io enabled n w =
     (if \<not> enabled then (Inr [], n, w)
      else if bk_topologyReady n then (bk_pendingTopology n, n, w)
      else
        let (interfaces, w1) = nx_interfaces io w; t = collectNFTTopology interfaces in
        (t, n\<lparr>bk_pendingTopology := t, bk_topologyReady := True\<rparr>, w1))"

definition TopologyKey :: "'w nft_io \<Rightarrow> backend \<Rightarrow> 'w \<Rightarrow> string \<times> backend \<times> 'w" where
  "TopologyKey io n w =
     (if bk_initErr n then (''error:no trusted root-owned nft executable was found in the fixed system paths'', n, w)
      else
        let (interfaces, w1) = nx_interfaces io w; t = collectNFTTopology interfaces in
        (topology_key t, n\<lparr>bk_pendingTopology := t, bk_topologyReady := True\<rparr>, w1))"

section \<open>Replacement\<close>

text \<open>What is to be installed, and whether the installed objects can be refreshed in place.\<close>

record object_plan =
  op_specs :: "nft_spec list"
  op_retired :: "nft_spec list"
  op_suspended :: "nft_spec list"
  op_keep :: bool
  op_topology :: topology
  op_refresh :: bool

definition plan_empty :: "object_plan \<Rightarrow> bool" where
  "plan_empty p \<longleftrightarrow> op_specs p = [] \<and> op_retired p = [] \<and> op_suspended p = []"

definition plan_key :: "backend \<Rightarrow> object_plan \<Rightarrow> string" where
  "plan_key n p = nftAppliedStateKey (op_specs p) (op_retired p) (op_suspended p) (op_keep p) (bk_diskBinding n)"

definition plan_state :: "backend \<Rightarrow> object_plan \<Rightarrow> render_state" where
  "plan_state n p =
     \<lparr>rs_retired = op_retired p, rs_suspended = op_suspended p, rs_binding = bk_diskBinding n, rs_keepFlowtable = op_keep p\<rparr>"

definition check_plan_spec :: "string \<Rightarrow> nft_spec \<Rightarrow> backend_error option" where
  "check_plan_spec owner s =
     guard (ConntrackMark s = 0 \<or> nftOwnerMarker (ConntrackMark s) \<noteq> owner) MarkMismatch
     (guard (\<not> validateRetirementSpec s) BadIdentity None)"

text \<open>A failed intent: what was admitted before may stay, and everything pending stays pending.\<close>

definition fallback_plan :: "backend \<Rightarrow> object_plan \<Rightarrow> object_plan" where
  "fallback_plan n p =
     (let specs = previouslyAdmittedNFT (op_specs p) (bk_active n);
          retired = uniqueNFTSpecs [bk_pending n, op_retired p, retiredNFTSpecs (bk_active n) specs]
      in p\<lparr>op_specs := specs, op_retired := retired, op_suspended := gateNFTReplacements (op_suspended p) retired,
           op_keep := specsUseFlowtable specs\<rparr>)"

definition remembers_nothing :: "backend \<Rightarrow> bool" where
  "remembers_nothing n \<longleftrightarrow> bk_active n = [] \<and> bk_pending n = [] \<and> bk_suspended n = []"

text \<open>The intent goes to the recovery record first; the flag says whether it did.\<close>

definition persist_intent ::
    "'w nft_io \<Rightarrow> object_plan \<Rightarrow> backend \<Rightarrow> 'w \<Rightarrow> (backend_error + object_plan \<times> bool) \<times> backend \<times> 'w" where
  "persist_intent io p n w =
     (case bk_diskSession n of
        None \<Rightarrow> (Inr (p, True), n, w)
      | Some session \<Rightarrow>
          let (e, session1, w1) =
                prepare (nx_writer io) (diskNFTSnapshot (bk_active n) (bk_pending n) (bk_suspended n))
                  (diskNFTSnapshot (op_specs p) (op_retired p) (op_suspended p)) session w;
              n1 = n\<lparr>bk_diskSession := Some session1\<rparr>
          in case e of
               None \<Rightarrow> (Inr (p, True), n1, w1)
             | Some _ \<Rightarrow>
                 let p1 = fallback_plan n1 p;
                     (t, n2, w2) = topologyForFlowtable io (op_keep p1) n1 w1;
                     n3 = n2\<lparr>bk_topologyReady := False\<rparr>
                 in case t of
                      Inl _ \<Rightarrow> (Inl TopologyFailed, n3, w2)
                    | Inr _ \<Rightarrow>
                        if remembers_nothing n3 then (Inl IntentRefused, n3, w2)
                        else (Inr (p1\<lparr>op_topology := t,
                                      op_refresh := op_refresh p \<and> bk_devicesKey n3 = topology_key t\<rparr>, False), n3, w2))"

text \<open>Nothing is wanted: the table is deleted, and its absence read back.\<close>

definition confirm_empty :: "bool \<Rightarrow> 'w nft_io \<Rightarrow> backend \<Rightarrow> 'w \<Rightarrow> backend_error option \<times> backend \<times> 'w" where
  "confirm_empty persisted io n w =
     (let n1 = clearAppliedState n in
      if \<not> persisted then (Some IntentNotPersisted, n1, w)
      else case bk_diskSession n1 of
        None \<Rightarrow> (None, n1, w)
      | Some session \<Rightarrow>
          let (e, session1, w1) = checkpoint (nx_writer io) (diskNFTSnapshot [] [] []) session w in
          (if e = None then None else Some EmptyCheckpointFailed, n1\<lparr>bk_diskSession := Some session1\<rparr>, w1))"

definition withdraw :: "'w nft_io \<Rightarrow> bool \<Rightarrow> bool \<Rightarrow> backend \<Rightarrow> 'w \<Rightarrow> backend_error option \<times> backend \<times> 'w" where
  "withdraw io present persisted n w =
     (if \<not> present then confirm_empty persisted io n w
      else
        let (ok, w1) = nx_apply io (script_of [sp [''delete table inet'', nftTableName]]) w in
        if \<not> ok then (Some ApplyFailed, n, w1)
        else case observe io (bk_ownerMarker n) w1 of
          (Inl e, w2) \<Rightarrow> (Some (ObserveFailed e), n\<lparr>bk_initialized := False\<rparr>, w2)
        | (Inr seen, w2) \<Rightarrow>
            if ob_exists seen then (Some DeletionUnconfirmed, n\<lparr>bk_initialized := False\<rparr>, w2)
            else confirm_empty persisted io n w2)"

text \<open>
  Something is wanted: the whole table, the rules and the journal of the installed one, or the journal alone is
  written in one transaction, read back, and checked; then the memory follows and the record is confirmed.
\<close>

definition install_script :: "bool \<Rightarrow> object_plan \<Rightarrow> backend \<Rightarrow> string" where
  "install_script present p n =
     script_of
       (if \<not> op_refresh p then renderNFTScript (op_specs p) present (topology_names (op_topology p)) (plan_state n p)
        else if bk_appliedActiveKey n = nftSpecsKey (op_specs p)
        then writeNFTJournal (op_specs p) (op_retired p) False (op_suspended p) (bk_diskBinding n)
        else renderNFTChainRefresh (op_specs p) (op_retired p) (op_suspended p) (bk_diskBinding n))"

definition remember :: "observed_state \<Rightarrow> object_plan \<Rightarrow> backend \<Rightarrow> backend" where
  "remember seen p n =
     n\<lparr>bk_initialized := True, bk_devicesKey := topology_key (op_topology p), bk_fingerprint := ob_fingerprint seen,
       bk_metricsEpoch := bk_metricsEpoch n + 1, bk_appliedSpecKey := plan_key n p,
       bk_appliedActiveKey := nftSpecsKey (op_specs p), bk_active := op_specs p, bk_pending := op_retired p,
       bk_suspended := op_suspended p\<rparr>"

definition confirm_installed ::
    "'w nft_io \<Rightarrow> observed_state \<Rightarrow> object_plan \<Rightarrow> bool \<Rightarrow> backend \<Rightarrow> 'w \<Rightarrow> backend_error option \<times> backend \<times> 'w" where
  "confirm_installed io seen p persisted n w =
     (let n1 = remember seen p n in
      if \<not> persisted then (Some IntentNotPersisted, n1, w)
      else case bk_diskSession n1 of
        None \<Rightarrow> (None, n1, w)
      | Some session \<Rightarrow>
          let (e, session1, w1) =
                checkpoint (nx_writer io) (diskNFTSnapshot (op_specs p) (op_retired p) (op_suspended p)) session w;
              n2 = n1\<lparr>bk_diskSession := Some session1\<rparr>
          in if e = None then (None, n2, w1) else (Some CheckpointFailed, n2\<lparr>bk_initialized := False\<rparr>, w1))"

definition install ::
    "'w nft_io \<Rightarrow> bool \<Rightarrow> object_plan \<Rightarrow> bool \<Rightarrow> backend \<Rightarrow> 'w \<Rightarrow> backend_error option \<times> backend \<times> 'w" where
  "install io present p persisted n w =
     (let (ok, w1) = nx_apply io (install_script present p n) w; broken = n\<lparr>bk_initialized := False\<rparr> in
      if \<not> ok then (Some ApplyFailed, n, w1)
      else case observe io (bk_ownerMarker n) w1 of
        (Inl e, w2) \<Rightarrow> (Some (ObserveFailed e), broken, w2)
      | (Inr seen, w2) \<Rightarrow>
          if \<not> ob_exists seen \<or> \<not> ob_owned seen then (Some TableChanged, broken, w2)
          else case validateNFTState (ob_objects seen) (op_specs p) (topology_names (op_topology p)) (bk_ownerMarker n)
                      (plan_state n p) of
            Some e \<Rightarrow> (Some (InstalledDiffers e), broken, w2)
          | None \<Rightarrow> confirm_installed io seen p persisted n w2)"

definition replace_planned ::
    "'w nft_io \<Rightarrow> bool \<Rightarrow> object_plan \<Rightarrow> backend \<Rightarrow> 'w \<Rightarrow> backend_error option \<times> backend \<times> 'w" where
  "replace_planned io present p n w =
     (if op_refresh p \<and> plan_key n p = bk_appliedSpecKey n then (None, n, w)
      else if \<not> present \<and> plan_empty p \<and> bk_diskSession n = None then (None, clearAppliedState n, w)
      else case persist_intent io p n w of
        (Inl e, n1, w1) \<Rightarrow> (Some e, n1, w1)
      | (Inr (p1, persisted), n1, w1) \<Rightarrow>
          if plan_empty p1 then withdraw io present persisted n1 w1 else install io present p1 persisted n1 w1)"

definition replaceObjects ::
    "'w nft_io \<Rightarrow> nft_spec list \<Rightarrow> nft_spec list \<Rightarrow> bool \<Rightarrow> nft_spec list \<Rightarrow> backend \<Rightarrow> 'w
     \<Rightarrow> backend_error option \<times> backend \<times> 'w" where
  "replaceObjects io specs retired keep suspended n w =
     (case observe io (bk_ownerMarker n) w of
        (Inl e, w1) \<Rightarrow> (Some (ObserveFailed e), n, w1)
      | (Inr state, w1) \<Rightarrow>
          if ob_exists state \<and> \<not> ob_owned state then (Some ForeignTable, n, w1)
          else case first_err (check_plan_spec (bk_ownerMarker n)) (uniqueNFTSpecs [specs, retired, suspended]) of
            Some e \<Rightarrow> (Some e, n, w1)
          | None \<Rightarrow>
              let flow = specsUseFlowtable specs \<or> keep;
                  (t, n1, w2) = topologyForFlowtable io flow n w1;
                  n2 = n1\<lparr>bk_topologyReady := False\<rparr>
              in case t of
                   Inl _ \<Rightarrow> (Some TopologyFailed, n2, w2)
                 | Inr devices \<Rightarrow>
                     if flow \<and> devices = [] then (Some NoDevice, n2, w2)
                     else case decodeNFTJournal (ob_objects state) (bk_ownerMarker n2) of
                       Inl e \<Rightarrow> (Some (JournalFailed e), n2, w2)
                     | Inr journal \<Rightarrow>
                         replace_planned io (ob_exists state)
                           \<lparr>op_specs = specs, op_retired = retired, op_suspended = suspended, op_keep = keep, op_topology = t,
                            op_refresh = (ob_exists state \<and> bk_initialized n2 \<and> bk_devicesKey n2 = topology_key t
                              \<and> ob_fingerprint state = bk_fingerprint n2 \<and> j_binding journal = bk_diskBinding n2)\<rparr>
                           n2 w2)"

section \<open>Recovery\<close>

text \<open>The paths known to be owned, and the specs whose names they may take.\<close>

record history =
  hs_active :: "nft_spec list"
  hs_pending :: "nft_spec list"
  hs_suspended :: "nft_spec list"
  hs_known :: "nft_spec list"

definition history_size :: "history \<Rightarrow> nat" where
  "history_size h = length (hs_active h) + length (hs_pending h) + length (hs_suspended h)"

definition remembered :: "nft_spec list \<Rightarrow> backend \<Rightarrow> history" where
  "remembered desired n =
     \<lparr>hs_active = uniqueNFTSpecs [bk_active n], hs_pending = uniqueNFTSpecs [bk_pending n],
      hs_suspended = uniqueNFTSpecs [bk_suspended n], hs_known = desired @ bk_active n @ bk_suspended n\<rparr>"

definition add_record_paths :: "disk_session option \<Rightarrow> history \<Rightarrow> history" where
  "add_record_paths session h =
     (case session of
        None \<Rightarrow> h
      | Some s \<Rightarrow>
          (case sn_record s of
             None \<Rightarrow> h
           | Some r \<Rightarrow>
               let a = path_specs (ds_active (dr_confirmed r)); p = path_specs (ds_pending (dr_confirmed r));
                   u = path_specs (ds_suspended (dr_confirmed r))
               in \<lparr>hs_active = uniqueNFTSpecs [hs_active h, a], hs_pending = uniqueNFTSpecs [hs_pending h, p],
                   hs_suspended = uniqueNFTSpecs [hs_suspended h, u], hs_known = hs_known h @ a @ p @ u\<rparr>))"

definition add_table_paths :: "string \<Rightarrow> observed_state \<Rightarrow> history \<Rightarrow> backend_error + history \<times> string" where
  "add_table_paths owner state h =
     (if \<not> ob_exists state then Inr (h, [])
      else case decodeNFTJournal (ob_objects state) owner of
        Inl e \<Rightarrow> Inl (JournalFailed e)
      | Inr journal \<Rightarrow>
          (case recoverLegacyNFTSpecs (ob_objects state) owner of
             Inl e \<Rightarrow> Inl (LegacyFailed e)
           | Inr legacy \<Rightarrow>
               let known = hs_known h @ j_active journal in
               Inr (\<lparr>hs_active = uniqueNFTSpecs [hs_active h, resolveNFTIdentities (j_active journal) known,
                                               resolveNFTIdentities legacy known],
                     hs_pending = uniqueNFTSpecs [hs_pending h, resolveNFTIdentities (j_retired journal) known],
                     hs_suspended = uniqueNFTSpecs [hs_suspended h, resolveNFTIdentities (j_suspended journal) known],
                     hs_known = known\<rparr>, j_binding journal)))"

definition resolve_history :: "history \<Rightarrow> history" where
  "resolve_history h =
     h\<lparr>hs_active := resolveNFTIdentities (hs_active h) (hs_known h),
       hs_pending := resolveNFTIdentities (hs_pending h) (hs_known h),
       hs_suspended := resolveNFTIdentities (hs_suspended h) (hs_known h)\<rparr>"

definition bind_session :: "'w nft_io \<Rightarrow> string \<Rightarrow> backend \<Rightarrow> 'w \<Rightarrow> backend_error option \<times> backend \<times> 'w" where
  "bind_session io listed n w =
     (case bk_diskSession n of
        None \<Rightarrow> (if listed \<noteq> [] then Some BoundWithoutStore else None, n, w)
      | Some session \<Rightarrow>
          let (r, session1, w1) = disk_binding (nx_random io) listed session w in
          (case r of
             Inl e \<Rightarrow> (Some (BindingFailed e), n\<lparr>bk_diskSession := Some session1, bk_diskBinding := []\<rparr>, w1)
           | Inr b \<Rightarrow> (None, n\<lparr>bk_diskSession := Some session1, bk_diskBinding := b\<rparr>, w1)))"

definition adopt_paths :: "history \<Rightarrow> bool \<Rightarrow> backend \<Rightarrow> backend" where
  "adopt_paths h unknown n =
     n\<lparr>bk_active := hs_active h, bk_pending := hs_pending h, bk_suspended := hs_suspended h, bk_recovered := True,
       bk_unknownState := unknown, bk_initialized := False\<rparr>"

definition attributable :: "history \<Rightarrow> ct_entry list \<Rightarrow> bool" where
  "attributable h entries \<longleftrightarrow>
     list_all (\<lambda>e. list_ex (conntrackMatchesSpec e) (uniqueNFTSpecs [hs_active h, hs_pending h, hs_suspended h])) entries"

text \<open>
  The marked connections must all belong to known paths.  The flag says that the tool is missing while there are
  paths to be gated.
\<close>

definition attribute_connections :: "'w nft_io \<Rightarrow> history \<Rightarrow> backend \<Rightarrow> 'w \<Rightarrow> (backend_error + bool) \<times> 'w" where
  "attribute_connections io h n w =
     (case io_available (nx_conntrack io) w of
        Some e \<Rightarrow>
          if history_size h \<noteq> 0 then (Inr True, w)
          else (case nx_cleanProbe io of
                  None \<Rightarrow> (Inl (ConntrackFailed e), w)
                | Some probe \<Rightarrow> let (ok, w1) = probe w in (if ok then Inr False else Inl CleanProbeFailed, w1))
      | None \<Rightarrow>
          (case configuredMark n of
             None \<Rightarrow> (Inl OwnerInvalid, w)
           | Some mark \<Rightarrow>
               (case nx_owned io mark w of
                  (Inl e, w1) \<Rightarrow> (Inl (ConntrackFailed e), w1)
                | (Inr entries, w1) \<Rightarrow> (if attributable h entries then Inr False else Inl Unattributable, w1))))"

text \<open>
  Whether the record confirms the paths: the snapshots are compared by their serialisation, which for the
  snapshots the program makes is comparison of what they hold.
\<close>

definition durable :: "history \<Rightarrow> backend \<Rightarrow> bool" where
  "durable h n \<longleftrightarrow>
     (case bk_diskSession n of
        None \<Rightarrow> True
      | Some session \<Rightarrow>
          (case sn_record session of
             None \<Rightarrow> False
           | Some r \<Rightarrow> dr_phase r = ''checkpoint''
                \<and> dr_confirmed r = diskNFTSnapshot (hs_active h) (hs_pending h) (hs_suspended h)))"

definition suspended_families :: "nft_spec list \<Rightarrow> 8 word" where
  "suspended_families specs = foldl (\<lambda>m s. if Family s = 4 then m OR 1 else if Family s = 6 then m OR 2 else m) 0 specs"

definition adopt_table :: "'w nft_io \<Rightarrow> observed_state \<Rightarrow> history \<Rightarrow> backend \<Rightarrow> 'w \<Rightarrow> backend \<times> 'w" where
  "adopt_table io state h n w =
     (let flow = has_flowtable (ob_objects state);
          (t, n1, w1) = topologyForFlowtable io flow n w;
          n2 = n1\<lparr>bk_topologyReady := False\<rparr>;
          expected = \<lparr>rs_retired = hs_pending h, rs_suspended = hs_suspended h, rs_binding = bk_diskBinding n2,
                      rs_keepFlowtable = flow\<rparr>
      in case t of
           Inl _ \<Rightarrow> (n2, w1)
         | Inr _ \<Rightarrow>
             if validateNFTState (ob_objects state) (hs_active h) (topology_names t) (bk_ownerMarker n2) expected = None
             then (n2\<lparr>bk_initialized := True, bk_fingerprint := ob_fingerprint state, bk_devicesKey := topology_key t,
                     bk_appliedActiveKey := nftSpecsKey (hs_active h),
                     bk_appliedSpecKey := nftAppliedStateKey (hs_active h) (hs_pending h) (hs_suspended h) flow (bk_diskBinding n2),
                     bk_policyFamilies := bk_policyFamilies n2 OR suspended_families (hs_suspended h)\<rparr>, w1)
             else (n2, w1))"

definition unchanged :: "observed_state \<Rightarrow> backend \<Rightarrow> bool" where
  "unchanged state n \<longleftrightarrow>
     bk_recovered n \<and> bk_initialized n \<and> ob_exists state \<and> ob_fingerprint state = bk_fingerprint n
     \<and> (case bk_diskSession n of
          None \<Rightarrow> True
        | Some session \<Rightarrow>
            (case sn_record session of None \<Rightarrow> False | Some r \<Rightarrow> bk_diskBinding n = binding_prefix session @ dr_instance r))"

definition recover_paths ::
    "'w nft_io \<Rightarrow> observed_state \<Rightarrow> history \<Rightarrow> backend \<Rightarrow> 'w \<Rightarrow> backend_error option \<times> backend \<times> 'w" where
  "recover_paths io state h n w =
     (if maxNFTRetiredSpecs < history_size h then (Some RecoveryLimit, n, w)
      else case attribute_connections io h n w of
        (Inl e, w1) \<Rightarrow> (Some e, n, w1)
      | (Inr True, w1) \<Rightarrow> (None, adopt_paths h True n, w1)
      | (Inr False, w1) \<Rightarrow>
          let n1 = adopt_paths h False n in
          if ob_exists state \<and> durable h n1 then (let (n2, w2) = adopt_table io state h n1 w1 in (None, n2, w2))
          else (None, n1, w1))"

definition recoverKernelState ::
    "'w nft_io \<Rightarrow> nft_spec list \<Rightarrow> backend \<Rightarrow> 'w \<Rightarrow> backend_error option \<times> backend \<times> 'w" where
  "recoverKernelState io desired n w =
     (case observe io (bk_ownerMarker n) w of
        (Inl e, w1) \<Rightarrow> (Some (ObserveFailed e), n, w1)
      | (Inr state, w1) \<Rightarrow>
          if ob_exists state \<and> \<not> ob_owned state then (Some ForeignTable, n, w1)
          else if unchanged state n then (None, n, w1)
          else case add_table_paths (bk_ownerMarker n) state (add_record_paths (bk_diskSession n) (remembered desired n)) of
            Inl e \<Rightarrow> (Some e, n, w1)
          | Inr (h, listed) \<Rightarrow>
              (case bind_session io listed n w1 of
                 (Some e, n1, w2) \<Rightarrow> (Some e, n1, w2)
               | (None, n1, w2) \<Rightarrow> recover_paths io state (resolve_history h) n1 w2))"

section \<open>Reconciliation\<close>

text \<open>The pure part: what is pending, what may be installed, and what policy suspends.\<close>

record reconcile_plan =
  rc_pending :: "nft_spec list"
  rc_next :: "nft_spec list"
  rc_suspended :: "nft_spec list"

definition owned_history :: "backend \<Rightarrow> nft_spec list" where
  "owned_history n = uniqueNFTSpecs [bk_active n, bk_suspended n]"

definition plan_pending :: "backend \<Rightarrow> nft_spec list \<Rightarrow> nft_spec list" where
  "plan_pending n specs = uniqueNFTSpecs [bk_pending n, retiredNFTSpecs (owned_history n) specs]"

definition plan_next :: "admission_error option \<Rightarrow> nft_spec list \<Rightarrow> nft_spec list" where
  "plan_next admission specs =
     (case admission of None \<Rightarrow> specs | Some e \<Rightarrow> filter (\<lambda>s. \<not> affects e s) specs)"

definition plan_suspended :: "admission_error option \<Rightarrow> backend \<Rightarrow> nft_spec list \<Rightarrow> nft_spec list" where
  "plan_suspended admission n specs =
     (case admission of
        None \<Rightarrow> []
      | Some e \<Rightarrow> filter (affects e) (gateNFTReplacements (owned_history n) (retiredNFTSpecs (owned_history n) specs)))"

text \<open>A rejection beyond the gated scope takes the cached acceleration with it.\<close>

definition evict_acceleration :: "admission_error option \<Rightarrow> nft_spec list \<Rightarrow> backend \<Rightarrow> backend" where
  "evict_acceleration admission specs n =
     (case admission of
        None \<Rightarrow> n
      | Some e \<Rightarrow>
          if ad_families e AND NOT (bk_policyFamilies n) \<noteq> 0
             \<or> list_ex (affects e) (gateNFTReplacements (bk_active n) (retiredNFTSpecs (bk_active n) specs))
          then n\<lparr>bk_initialized := False\<rparr> else n)"

definition policy_families :: "admission_error option \<Rightarrow> 8 word" where
  "policy_families admission = (case admission of None \<Rightarrow> 0 | Some e \<Rightarrow> ad_families e)"

definition check_admission ::
    "'w nft_io \<Rightarrow> nft_spec list \<Rightarrow> 'w \<Rightarrow> (backend_error + admission_error option) \<times> 'w" where
  "check_admission io specs w =
     (if \<not> specsUseFlowtable specs then (Inr None, w)
      else
        let (listing, w1) = nx_chains io w in
        (case checkAdmissionFor (nx_selective io w1) listing specs of
           None \<Rightarrow> Inr None
         | Some (Admission e) \<Rightarrow> Inr (Some e)
         | Some other \<Rightarrow> Inl (AdmissionUnknown other), w1))"

text \<open>Pending paths are gated, written to the journal, and their connections revoked.\<close>

definition retire_pending ::
    "'w nft_io \<Rightarrow> admission_error option \<Rightarrow> reconcile_plan \<Rightarrow> backend \<Rightarrow> 'w \<Rightarrow> backend_error option \<times> backend \<times> 'w" where
  "retire_pending io admission p n w =
     (if rc_pending p = [] then (None, n, w)
      else case replaceObjects io (gateNFTReplacements (rc_next p) (rc_pending p)) (rc_pending p)
                  (specsUseFlowtable (rc_next p)) (rc_suspended p) n w of
        (Some e, n1, w1) \<Rightarrow> (Some e, n1, w1)
      | (None, n1, w1) \<Rightarrow>
          let n2 = n1\<lparr>bk_policyFamilies := policy_families admission\<rparr> in
          (case revokeNFTConnections (nx_conntrack io) (rc_pending p) w1 of
             (Some e, w2) \<Rightarrow> (Some (ConnectionsRemain e), n2, w2)
           | (None, w2) \<Rightarrow> (None, n2, w2)))"

definition install_next ::
    "'w nft_io \<Rightarrow> admission_error option \<Rightarrow> ct_error option \<Rightarrow> reconcile_plan \<Rightarrow> backend \<Rightarrow> 'w
     \<Rightarrow> backend_error option \<times> backend \<times> 'w" where
  "install_next io admission dependency p n w =
     (case replaceObjects io (rc_next p) [] (specsUseFlowtable (rc_next p)) (rc_suspended p) n w of
        (Some e, n1, w1) \<Rightarrow> (Some e, n1, w1)
      | (None, n1, w1) \<Rightarrow>
          (if admission \<noteq> None then Some AdmissionRefused else map_option ConntrackFailed dependency,
           n1\<lparr>bk_pending := [], bk_unknownState := (dependency \<noteq> None), bk_policyFamilies := policy_families admission\<rparr>, w1))"

definition reconcile ::
    "'w nft_io \<Rightarrow> nft_spec list \<Rightarrow> backend \<Rightarrow> 'w \<Rightarrow> backend_error option \<times> backend \<times> 'w" where
  "reconcile io specs n w =
     (let pending = plan_pending n specs in
      if maxNFTRetiredSpecs < length pending then (Some PendingLimit, n\<lparr>bk_pending := pending\<rparr>, w)
      else case check_admission io specs w of
        (Inl e, w1) \<Rightarrow> (Some e, n, w1)
      | (Inr admission, w1) \<Rightarrow>
          let suspended = plan_suspended admission n specs;
              n1 = evict_acceleration admission specs n;
              dependency = io_available (nx_conntrack io) w1;
              next = (if dependency = None then plan_next admission specs
                      else previouslyAdmittedNFT (plan_next admission specs) (bk_active n1))
          in if dependency \<noteq> None \<and> owned_history n = [] \<and> pending = [] then (map_option ConntrackFailed dependency, n1, w1)
             else
               let p = \<lparr>rc_pending = pending, rc_next = next, rc_suspended = suspended\<rparr> in
               (case retire_pending io admission p (n1\<lparr>bk_pending := pending\<rparr>) w1 of
                  (Some e, n2, w2) \<Rightarrow> (Some e, n2, w2)
                | (None, n2, w2) \<Rightarrow> install_next io admission dependency p n2 w2))"

definition recover_and_reconcile ::
    "'w nft_io \<Rightarrow> nft_spec list \<Rightarrow> backend \<Rightarrow> 'w \<Rightarrow> backend_error option \<times> backend \<times> 'w" where
  "recover_and_reconcile io specs n w =
     (case recoverKernelState io specs n w of
        (Some e, n1, w1) \<Rightarrow> (Some e, n1\<lparr>bk_initialized := False, bk_unknownState := True\<rparr>, w1)
      | (None, n1, w1) \<Rightarrow> reconcile io specs n1 w1)"

section \<open>The operations\<close>

definition verifyCLIIndependentEmpty :: "'w nft_io \<Rightarrow> backend \<Rightarrow> 'w \<Rightarrow> backend_error option \<times> backend \<times> 'w" where
  "verifyCLIIndependentEmpty io n w =
     (let n1 = n\<lparr>bk_cleanVerified := False\<rparr> in
      case nx_cleanProbe io of
        None \<Rightarrow> (Some NoTool, n1, w)
      | Some probe \<Rightarrow>
          let (intact, w1) = (if nx_begin io = None then (True, w) else nx_existing io (bk_ownerMarker n1) w) in
          if \<not> intact then (Some StateFileBroken, n1\<lparr>bk_unknownState := True\<rparr>, w1)
          else
            let (clean, w2) = probe w1 in
            if \<not> clean then (Some CleanProbeFailed, n1\<lparr>bk_unknownState := True, bk_recovered := False\<rparr>, w2)
            else (None, (clearAppliedState n1)\<lparr>bk_recovered := True, bk_unknownState := False, bk_cleanVerified := True\<rparr>, w2))"

text \<open>A session that rolled over from an earlier boot forgets what was known.\<close>

definition open_session :: "disk_session \<Rightarrow> backend \<Rightarrow> backend" where
  "open_session session n =
     (let n1 = n\<lparr>bk_diskSession := Some session\<rparr> in
      if sn_rolledBoot session
      then (clearAppliedState n1)\<lparr>bk_recovered := False, bk_unknownState := False, bk_diskBinding := [], bk_policyFamilies := 0\<rparr>
      else n1)"

definition Replace :: "'w nft_io \<Rightarrow> nft_spec list \<Rightarrow> backend \<Rightarrow> 'w \<Rightarrow> backend_error option \<times> backend \<times> 'w" where
  "Replace io specs n0 w =
     (let n = refreshMissingExecutables io n0 w in
      if bk_configErr n \<and> specs \<noteq> [] then (Some ConfigChanged, n, w)
      else if bk_initErr n \<and> specs = [] then verifyCLIIndependentEmpty io n w
      else
        let n1 = n\<lparr>bk_cleanVerified := False\<rparr> in
        case nx_begin io of
          None \<Rightarrow> recover_and_reconcile io specs n1 w
        | Some begin_session \<Rightarrow>
            (case begin_session (bk_ownerMarker n1) w of
               (None, w1) \<Rightarrow> (Some StoreFailed, n1\<lparr>bk_initialized := False, bk_unknownState := True\<rparr>, w1)
             | (Some session, w1) \<Rightarrow>
                 let (e, n2, w2) = recover_and_reconcile io specs (open_session session n1) w1 in
                 (e, n2\<lparr>bk_diskSession := None\<rparr>, w2)))"

definition Delete :: "'w nft_io \<Rightarrow> backend \<Rightarrow> 'w \<Rightarrow> backend_error option \<times> backend \<times> 'w" where
  "Delete io n w = Replace io [] n w"

text \<open>The answer of a health check: healthy or not, or an error.\<close>

definition healthy_table :: "'w nft_io \<Rightarrow> nft_spec list \<Rightarrow> observed_state \<Rightarrow> backend \<Rightarrow> 'w
    \<Rightarrow> (backend_error + bool) \<times> backend \<times> 'w" where
  "healthy_table io specs state n w =
     (if \<not> bk_recovered n \<or> bk_pending n \<noteq> [] \<or> bk_suspended n \<noteq> [] \<or> bk_unknownState n then (Inr False, n, w)
      else if specs = [] then (Inr (\<not> ob_exists state), n\<lparr>bk_topologyReady := False\<rparr>, w)
      else
        let (t, n1, w1) = topologyForFlowtable io (specsUseFlowtable specs) n w in
        case t of
          Inl _ \<Rightarrow> (Inl TopologyFailed, n1, w1)
        | Inr _ \<Rightarrow>
            let healthy = (ob_exists state \<and> bk_initialized n1 \<and> bk_appliedActiveKey n1 = nftSpecsKey specs
                           \<and> bk_devicesKey n1 = topology_key t \<and> bk_fingerprint n1 = ob_fingerprint state)
            in (Inr healthy, if healthy then n1\<lparr>bk_topologyReady := False\<rparr> else n1, w1))"

definition Healthy :: "'w nft_io \<Rightarrow> nft_spec list \<Rightarrow> backend \<Rightarrow> 'w \<Rightarrow> (backend_error + bool) \<times> backend \<times> 'w" where
  "Healthy io specs n0 w =
     (let n = refreshMissingExecutables io n0 w in
      if bk_configErr n then (Inl ConfigChanged, n, w)
      else if bk_initErr n \<and> specs = [] then
        (if \<not> bk_cleanVerified n then (Inr False, n, w)
         else case verifyCLIIndependentEmpty io n w of
           (Some e, n1, w1) \<Rightarrow> (Inl e, n1, w1)
         | (None, n1, w1) \<Rightarrow> (Inr True, n1, w1))
      else
        let n1 = n\<lparr>bk_cleanVerified := False\<rparr>; lost = n1\<lparr>bk_unknownState := True\<rparr> in
        case observe io (bk_ownerMarker n1) w of
          (Inl e, w1) \<Rightarrow> (Inl (ObserveFailed e), lost, w1)
        | (Inr state, w1) \<Rightarrow>
            if ob_exists state \<and> \<not> ob_owned state then (Inl ForeignTable, lost, w1)
            else case check_admission io specs w1 of
              (Inl e, w2) \<Rightarrow> (Inl e, lost, w2)
            | (Inr (Some _), w2) \<Rightarrow> (Inl AdmissionRefused, n1, w2)
            | (Inr None, w2) \<Rightarrow> healthy_table io specs state n1 w2)"

end
