(* ===== verification/Nft_Backend_Facts.thy ===== *)
theory Nft_Backend_Facts
  imports Nft_Backend Nft_Identity Nft_State_Facts
begin

text \<open>
  What holds of the backend in every state: its memory is well formed, and when it counts as initialized it
  describes a table that was read back and checked.  And what a successful replacement leaves.
\<close>

section \<open>The applied table\<close>

text \<open>
  The keys and the fingerprint in memory belong to one table that was read from the kernel and matched the plan
  the keys stand for.
\<close>

definition verified :: "backend \<Rightarrow> bool" where
  "verified n \<longleftrightarrow>
     (\<exists>objects specs st t owner. state_matches objects specs (topology_names t) owner st
        \<and> bk_fingerprint n = nftObjectsFingerprint objects
        \<and> bk_appliedSpecKey n
            = nftAppliedStateKey specs (rs_retired st) (rs_suspended st) (rs_keepFlowtable st) (rs_binding st)
        \<and> bk_appliedActiveKey n = nftSpecsKey specs \<and> bk_devicesKey n = topology_key t)"

definition described :: "backend \<Rightarrow> bool" where
  "described n \<longleftrightarrow> (bk_initialized n \<longrightarrow> verified n)"

text \<open>The fields the applied table is kept in.\<close>

definition applied_view :: "backend \<Rightarrow> string \<times> string \<times> string \<times> string" where
  "applied_view n = (bk_fingerprint n, bk_appliedSpecKey n, bk_appliedActiveKey n, bk_devicesKey n)"

lemma described_same:
  "described n \<Longrightarrow> applied_view n' = applied_view n \<Longrightarrow> (bk_initialized n' \<longrightarrow> bk_initialized n) \<Longrightarrow> described n'"
  by (auto simp: described_def verified_def applied_view_def)

lemma described_broken: "\<not> bk_initialized n \<Longrightarrow> described n"
  by (simp add: described_def)

lemma describedI:
  assumes "validateNFTState objects specs (topology_names t) owner st = None"
    and "bk_fingerprint n = nftObjectsFingerprint objects"
    and "bk_appliedSpecKey n = nftAppliedStateKey specs (rs_retired st) (rs_suspended st) (rs_keepFlowtable st) (rs_binding st)"
    and "bk_appliedActiveKey n = nftSpecsKey specs" and "bk_devicesKey n = topology_key t"
  shows "described n"
  unfolding described_def verified_def using assms validateNFTState_exact by blast

section \<open>Observation\<close>

lemma observe_fingerprint:
  "observe io owner w = (Inr state, w') \<Longrightarrow> ob_exists state \<Longrightarrow> ob_fingerprint state = nftObjectsFingerprint (ob_objects state)"
  by (auto simp: observe_def table_state_def Let_def split: prod.splits option.splits if_splits list.splits)

lemma topologyForFlowtable_frame:
  assumes "topologyForFlowtable io enabled n w = (t, n', w')"
  shows "\<exists>t' r. n' = n\<lparr>bk_pendingTopology := t', bk_topologyReady := r\<rparr>"
proof -
  have "n' = n\<lparr>bk_pendingTopology := bk_pendingTopology n', bk_topologyReady := bk_topologyReady n'\<rparr>"
    using assms by (auto simp: topologyForFlowtable_def Let_def split: if_splits prod.splits)
  then show ?thesis by blast
qed

section \<open>What replacement leaves alone\<close>

text \<open>The part of the state that replacement only reads.\<close>

definition settings :: "backend \<Rightarrow> bool \<times> string \<times> bool \<times> bool \<times> 8 word \<times> string \<times> bool \<times> bool" where
  "settings n = (bk_initErr n, bk_ownerMarker n, bk_recovered n, bk_unknownState n, bk_policyFamilies n, bk_diskBinding n,
                 bk_cleanVerified n, bk_configErr n)"

definition memory :: "backend \<Rightarrow> nft_spec list \<times> nft_spec list \<times> nft_spec list" where
  "memory n = (bk_active n, bk_pending n, bk_suspended n)"

lemmas view_defs = settings_def memory_def applied_view_def

lemma topology_views:
  assumes "topologyForFlowtable io enabled n w = (t, n', w')"
  shows "settings n' = settings n" "memory n' = memory n" "applied_view n' = applied_view n"
    "bk_initialized n' = bk_initialized n" "bk_diskSession n' = bk_diskSession n"
  using topologyForFlowtable_frame[OF assms] by (auto simp: view_defs)

lemma views_ready [simp]:
  "settings (n\<lparr>bk_topologyReady := r\<rparr>) = settings n" "memory (n\<lparr>bk_topologyReady := r\<rparr>) = memory n"
  "applied_view (n\<lparr>bk_topologyReady := r\<rparr>) = applied_view n"
  "settings (n\<lparr>bk_initialized := i\<rparr>) = settings n" "memory (n\<lparr>bk_initialized := i\<rparr>) = memory n"
  "applied_view (n\<lparr>bk_initialized := i\<rparr>) = applied_view n"
  "settings (n\<lparr>bk_diskSession := d\<rparr>) = settings n" "memory (n\<lparr>bk_diskSession := d\<rparr>) = memory n"
  "applied_view (n\<lparr>bk_diskSession := d\<rparr>) = applied_view n"
  "settings (clearAppliedState n) = settings n" "memory (clearAppliedState n) = ([], [], [])"
  "\<not> bk_initialized (clearAppliedState n)" "bk_diskSession (clearAppliedState n) = bk_diskSession n"
  "settings (remember seen p n) = settings n" "memory (remember seen p n) = (op_specs p, op_retired p, op_suspended p)"
  "bk_initialized (remember seen p n)" "bk_diskSession (remember seen p n) = bk_diskSession n"
  by (simp_all add: view_defs clearAppliedState_def remember_def)

section \<open>The stages of a replacement\<close>

lemma persist_intent_views:
  assumes "persist_intent io p n w = (r, n', w')"
  shows "settings n' = settings n \<and> memory n' = memory n \<and> applied_view n' = applied_view n
    \<and> bk_initialized n' = bk_initialized n
    \<and> (case r of Inl e \<Rightarrow> True | Inr (p', persisted) \<Rightarrow> persisted \<longrightarrow> p' = p)"
proof (cases "bk_diskSession n")
  case None
  then show ?thesis using assms by (auto simp: persist_intent_def)
next
  case (Some session)
  obtain e session1 w1 where prep: "prepare (nx_writer io) (diskNFTSnapshot (bk_active n) (bk_pending n) (bk_suspended n))
                  (diskNFTSnapshot (op_specs p) (op_retired p) (op_suspended p)) session w = (e, session1, w1)"
    by (metis prod_cases3)
  define n1 where "n1 = n\<lparr>bk_diskSession := Some session1\<rparr>"
  have v1: "settings n1 = settings n" "memory n1 = memory n" "applied_view n1 = applied_view n"
    "bk_initialized n1 = bk_initialized n" by (simp_all add: n1_def)
  show ?thesis
  proof (cases e)
    case None
    then show ?thesis using assms Some prep v1 by (auto simp: persist_intent_def Let_def n1_def)
  next
    case failed: (Some err)
    define p1 where "p1 = fallback_plan n1 p"
    obtain t n2 w2 where topo: "topologyForFlowtable io (op_keep p1) n1 w1 = (t, n2, w2)" by (metis prod_cases3)
    note v2 = topology_views[OF topo]
    show ?thesis
    proof (cases t)
      case (Inl a)
      then show ?thesis using assms Some prep failed topo v1 v2
        by (auto simp: persist_intent_def Let_def n1_def[symmetric] p1_def[symmetric])
    next
      case (Inr devices)
      then show ?thesis using assms Some prep failed topo v1 v2
        by (auto simp: persist_intent_def Let_def n1_def[symmetric] p1_def[symmetric] split: if_splits)
    qed
  qed
qed

lemma confirm_empty_views:
  assumes "confirm_empty persisted io n w = (e, n', w')"
  shows "settings n' = settings n \<and> memory n' = ([], [], []) \<and> \<not> bk_initialized n' \<and> (e = None \<longrightarrow> persisted)"
  using assms by (auto simp: confirm_empty_def Let_def split: if_splits option.splits prod.splits)

lemma withdraw_views:
  assumes "withdraw io present persisted n w = (e, n', w')"
  shows "settings n' = settings n \<and> (memory n' = memory n \<or> memory n' = ([], [], []))
    \<and> (described n \<longrightarrow> described n')
    \<and> (e = None \<longrightarrow> persisted \<and> memory n' = ([], [], []) \<and> \<not> bk_initialized n')"
proof -
  have empty: ?thesis if "confirm_empty persisted io n v = (e, n', w')" for v
    using confirm_empty_views[OF that] by (auto simp: described_broken)
  show ?thesis
    using assms empty
    by (auto simp: withdraw_def Let_def described_broken split: if_splits prod.splits sum.splits)
qed

lemma remember_described:
  assumes "validateNFTState (ob_objects seen) (op_specs p) (topology_names (op_topology p)) owner (plan_state n p) = None"
    and "ob_fingerprint seen = nftObjectsFingerprint (ob_objects seen)"
  shows "described (remember seen p n)"
  by (rule describedI[OF assms(1)]) (simp_all add: remember_def plan_key_def plan_state_def assms(2))

lemma confirm_installed_views:
  assumes "confirm_installed io seen p persisted n w = (e, n', w')"
  shows "settings n' = settings n \<and> memory n' = (op_specs p, op_retired p, op_suspended p)
    \<and> applied_view n' = applied_view (remember seen p n)
    \<and> (e = None \<longrightarrow> persisted \<and> bk_initialized n')"
  using assms by (auto simp: confirm_installed_def Let_def split: if_splits option.splits prod.splits)

lemma remember_key: "applied_view n' = applied_view (remember seen p n) \<Longrightarrow> bk_appliedSpecKey n' = plan_key n p"
  by (simp add: applied_view_def remember_def)

lemma install_views:
  assumes "install io present p persisted n w = (e, n', w')"
  shows "settings n' = settings n \<and> (memory n' = memory n \<or> memory n' = (op_specs p, op_retired p, op_suspended p))
    \<and> (described n \<longrightarrow> described n')
    \<and> (e = None \<longrightarrow> persisted \<and> memory n' = (op_specs p, op_retired p, op_suspended p) \<and> bk_initialized n'
         \<and> bk_appliedSpecKey n' = plan_key n p)"
proof -
  obtain ok w1 where a: "nx_apply io (install_script present p n) w = (ok, w1)" by fastforce
  show ?thesis
  proof (cases ok)
    case False
    then show ?thesis using assms a by (auto simp: install_def Let_def)
  next
    case True
    obtain r w2 where o: "observe io (bk_ownerMarker n) w1 = (r, w2)" by fastforce
    show ?thesis
    proof (cases r)
      case (Inl x)
      then show ?thesis using assms a True o by (auto simp: install_def Let_def described_broken)
    next
      case (Inr seen)
      show ?thesis
      proof (cases "\<not> ob_exists seen \<or> \<not> ob_owned seen")
        case True
        then show ?thesis using assms a \<open>ok\<close> o Inr by (auto simp: install_def Let_def described_broken)
      next
        case False
        show ?thesis
        proof (cases "validateNFTState (ob_objects seen) (op_specs p) (topology_names (op_topology p)) (bk_ownerMarker n) (plan_state n p)")
          case (Some x)
          then show ?thesis using assms a \<open>ok\<close> o Inr False by (auto simp: install_def Let_def described_broken)
        next
          case None
          have c: "confirm_installed io seen p persisted n w2 = (e, n', w')"
            using assms a \<open>ok\<close> o Inr False None by (auto simp: install_def Let_def)
          have "described (remember seen p n)"
            using remember_described[OF None] observe_fingerprint[of io _ w1 seen w2] o Inr False by auto
          then show ?thesis
            using confirm_installed_views[OF c] remember_key[of n'] described_same[of "remember seen p n" n'] by auto
        qed
      qed
    qed
  qed
qed

text \<open>
  A replacement as a whole: it keeps the settings and the description; and when it succeeds, the applied table is
  the requested one, or nothing was requested and nothing is remembered.
\<close>

definition requested :: "nft_spec list \<Rightarrow> nft_spec list \<Rightarrow> bool \<Rightarrow> nft_spec list \<Rightarrow> backend \<Rightarrow> bool" where
  "requested specs retired keep suspended n \<longleftrightarrow>
     (if bk_initialized n
      then bk_appliedSpecKey n = nftAppliedStateKey specs retired suspended keep (bk_diskBinding n)
      else specs = [] \<and> retired = [] \<and> suspended = [] \<and> memory n = ([], [], []))"

lemma settings_binding: "settings n' = settings n \<Longrightarrow> bk_diskBinding n' = bk_diskBinding n"
  by (simp add: settings_def)

lemma replace_planned_views:
  assumes "replace_planned io present p n w = (e, n', w')" and "op_refresh p \<Longrightarrow> bk_initialized n"
  shows "settings n' = settings n \<and> (described n \<longrightarrow> described n')
    \<and> (e = None \<longrightarrow> requested (op_specs p) (op_retired p) (op_keep p) (op_suspended p) n'
         \<and> (memory n' = memory n \<or> memory n' = (op_specs p, op_retired p, op_suspended p)))"
proof (cases "op_refresh p \<and> plan_key n p = bk_appliedSpecKey n")
  case True
  then show ?thesis using assms by (simp add: replace_planned_def requested_def plan_key_def)
next
  case changed: False
  show ?thesis
  proof (cases "\<not> present \<and> plan_empty p \<and> bk_diskSession n = None")
    case True
    then have "n' = clearAppliedState n" "e = None" using assms changed by (auto simp: replace_planned_def)
    then show ?thesis using True by (simp add: described_broken requested_def plan_empty_def)
  next
    case work: False
    obtain r n1 w1 where i: "persist_intent io p n w = (r, n1, w1)" by (metis prod_cases3)
    note v1 = persist_intent_views[OF i]
    have d1: "described n \<longrightarrow> described n1" using v1 described_same[of n n1] by simp
    show ?thesis
    proof (cases r)
      case (Inl x)
      then show ?thesis using assms(1) changed work i v1 d1 by (auto simp: replace_planned_def)
    next
      case (Inr q)
      obtain p1 persisted where q: "q = (p1, persisted)" by fastforce
      have same: "persisted \<longrightarrow> p1 = p" using v1 Inr q by simp
      show ?thesis
      proof (cases "plan_empty p1")
        case True
        then have "withdraw io present persisted n1 w1 = (e, n', w')"
          using assms(1) changed work i Inr q by (simp add: replace_planned_def)
        from withdraw_views[OF this] v1 d1 same True show ?thesis
          by (auto simp: requested_def plan_empty_def)
      next
        case False
        then have "install io present p1 persisted n1 w1 = (e, n', w')"
          using assms(1) changed work i Inr q by (simp add: replace_planned_def)
        from install_views[OF this] v1 d1 same show ?thesis
          using settings_binding[of n' n] settings_binding[of n1 n] by (auto simp: requested_def plan_key_def)
      qed
    qed
  qed
qed

theorem replaceObjects_views:
  assumes "replaceObjects io specs retired keep suspended n w = (e, n', w')"
  shows "settings n' = settings n \<and> (described n \<longrightarrow> described n')
    \<and> (e = None \<longrightarrow> requested specs retired keep suspended n'
         \<and> (memory n' = memory n \<or> memory n' = (specs, retired, suspended)))"
proof -
  obtain r w1 where o: "observe io (bk_ownerMarker n) w = (r, w1)" by fastforce
  show ?thesis
  proof (cases r)
    case (Inl x)
    then show ?thesis using assms o by (auto simp: replaceObjects_def)
  next
    case (Inr state)
    show ?thesis
    proof (cases "ob_exists state \<and> \<not> ob_owned state \<or>
        first_err (check_plan_spec (bk_ownerMarker n)) (uniqueNFTSpecs [specs, retired, suspended]) \<noteq> None")
      case True
      then consider "ob_exists state \<and> \<not> ob_owned state"
        | x where "\<not> (ob_exists state \<and> \<not> ob_owned state)"
          "first_err (check_plan_spec (bk_ownerMarker n)) (uniqueNFTSpecs [specs, retired, suspended]) = Some x"
        by (metis option.exhaust)
      then have "\<exists>x. (e, n', w') = (Some x, n, w1)"
      proof cases
        case 1
        then show ?thesis using assms o Inr by (auto simp: replaceObjects_def)
      next
        case (2 x)
        then have "(e, n', w') = (Some x, n, w1)" using assms o Inr by (simp add: replaceObjects_def del: first_err_eq_None split: if_split_asm)
        then show ?thesis by blast
      qed
      then show ?thesis by auto
    next
      case False
      obtain t n1 w2 where t: "topologyForFlowtable io (specsUseFlowtable specs \<or> keep) n w1 = (t, n1, w2)"
        by (metis prod_cases3)
      define n2 where "n2 = n1\<lparr>bk_topologyReady := False\<rparr>"
      have v: "settings n2 = settings n" "memory n2 = memory n" "applied_view n2 = applied_view n"
        "bk_initialized n2 = bk_initialized n" using topology_views[OF t] by (simp_all add: n2_def)
      then have d: "described n \<longrightarrow> described n2" using described_same[of n n2] by simp
      define q :: "journal_state \<Rightarrow> object_plan" where "q journal = \<lparr>op_specs = specs, op_retired = retired, op_suspended = suspended, op_keep = keep,
          op_topology = t, op_refresh = (ob_exists state \<and> bk_initialized n2 \<and> bk_devicesKey n2 = topology_key t
            \<and> ob_fingerprint state = bk_fingerprint n2 \<and> j_binding journal = bk_diskBinding n2)\<rparr>" for journal
      have run: "(case t of
                   Inl _ \<Rightarrow> (Some TopologyFailed, n2, w2)
                 | Inr devices \<Rightarrow>
                     if (specsUseFlowtable specs \<or> keep) \<and> devices = [] then (Some NoDevice, n2, w2)
                     else case decodeNFTJournal (ob_objects state) (bk_ownerMarker n2) of
                       Inl e \<Rightarrow> (Some (JournalFailed e), n2, w2)
                     | Inr journal \<Rightarrow>
                         replace_planned io (ob_exists state) (q journal) n2 w2) = (e, n', w')"
        using assms o Inr False t unfolding replaceObjects_def Let_def n2_def q_def
        by (simp del: first_err_eq_None split: if_split_asm)
      have "(\<exists>x. e = Some x \<and> n' = n2) \<or> (\<exists>journal. replace_planned io (ob_exists state) (q journal) n2 w2 = (e, n', w'))"
        using run by (auto split: sum.splits if_split_asm)
      then show ?thesis
      proof
        assume "\<exists>x. e = Some x \<and> n' = n2"
        with v d show ?thesis by auto
      next
        assume "\<exists>journal. replace_planned io (ob_exists state) (q journal) n2 w2 = (e, n', w')"
        then obtain journal where "replace_planned io (ob_exists state) (q journal) n2 w2 = (e, n', w')" by blast
        from replace_planned_views[OF this] v d show ?thesis by (simp add: q_def)
      qed
    qed
  qed
qed

section \<open>Recovery\<close>

lemma bind_session_views:
  assumes "bind_session io listed n w = (e, n', w')"
  shows "memory n' = memory n \<and> applied_view n' = applied_view n \<and> bk_initialized n' = bk_initialized n"
  using assms by (auto simp: bind_session_def Let_def view_defs split: option.splits prod.splits sum.splits)

lemma adopt_table_views:
  assumes "adopt_table io state h n w = (n', w')" and "\<not> bk_initialized n"
    and "ob_fingerprint state = nftObjectsFingerprint (ob_objects state)"
  shows "described n' \<and> memory n' = memory n \<and> bk_recovered n' = bk_recovered n \<and> bk_unknownState n' = bk_unknownState n"
proof -
  define flow where "flow = has_flowtable (ob_objects state)"
  obtain t n1 w1 where t: "topologyForFlowtable io flow n w = (t, n1, w1)" by (metis prod_cases3)
  define n2 where "n2 = n1\<lparr>bk_topologyReady := False\<rparr>"
  have v: "memory n2 = memory n" "settings n2 = settings n" "\<not> bk_initialized n2"
    using topology_views[OF t] assms(2) by (simp_all add: n2_def)
  define st where "st = \<lparr>rs_retired = hs_pending h, rs_suspended = hs_suspended h, rs_binding = bk_diskBinding n2,
                      rs_keepFlowtable = flow\<rparr>"
  define n3 where "n3 = n2\<lparr>bk_initialized := True, bk_fingerprint := ob_fingerprint state, bk_devicesKey := topology_key t,
                     bk_appliedActiveKey := nftSpecsKey (hs_active h),
                     bk_appliedSpecKey := nftAppliedStateKey (hs_active h) (hs_pending h) (hs_suspended h) flow (bk_diskBinding n2),
                     bk_policyFamilies := bk_policyFamilies n2 OR suspended_families (hs_suspended h)\<rparr>"
  have run: "n' = n2 \<or> n' = n3
      \<and> validateNFTState (ob_objects state) (hs_active h) (topology_names t) (bk_ownerMarker n2) st = None"
    using assms(1) t
    by (auto simp: adopt_table_def Let_def flow_def[symmetric] n2_def[symmetric] st_def[symmetric] n3_def split: sum.splits if_splits)
  then show ?thesis
  proof
    assume "n' = n2"
    with v show ?thesis by (simp add: described_broken settings_def)
  next
    assume n3: "n' = n3 \<and> validateNFTState (ob_objects state) (hs_active h) (topology_names t) (bk_ownerMarker n2) st = None"
    then have "described n3"
      by (intro describedI[of "ob_objects state" "hs_active h" t "bk_ownerMarker n2" st]) (simp_all add: n3_def st_def assms(3))
    with n3 v show ?thesis by (simp add: n3_def settings_def memory_def)
  qed
qed

definition history_memory :: "history \<Rightarrow> nft_spec list \<times> nft_spec list \<times> nft_spec list" where
  "history_memory h = (hs_active h, hs_pending h, hs_suspended h)"

lemma adopt_paths_views:
  "memory (adopt_paths h u n) = history_memory h" "\<not> bk_initialized (adopt_paths h u n)"
  "bk_recovered (adopt_paths h u n)" "bk_unknownState (adopt_paths h u n) = u"
  by (simp_all add: adopt_paths_def memory_def history_memory_def)

lemma recover_paths_views:
  assumes "recover_paths io state h n w = (e, n', w')"
    and "ob_exists state \<Longrightarrow> ob_fingerprint state = nftObjectsFingerprint (ob_objects state)"
  shows "(described n \<longrightarrow> described n') \<and> (e \<noteq> None \<longrightarrow> n' = n)
    \<and> (e = None \<longrightarrow> memory n' = history_memory h \<and> bk_recovered n' \<and> described n')"
proof (cases "maxNFTRetiredSpecs < history_size h")
  case True
  then show ?thesis using assms by (auto simp: recover_paths_def)
next
  case False
  obtain r w1 where a: "attribute_connections io h n w = (r, w1)" by fastforce
  show ?thesis
  proof (cases "\<exists>x. r = Inl x \<or> r = Inr True")
    case True
    then show ?thesis using assms(1) False a adopt_paths_views[of h True n]
      by (auto simp: recover_paths_def described_broken)
  next
    case adopt: False
    then have r: "r = Inr False" by (cases r) auto
    define n1 where "n1 = adopt_paths h False n"
    show ?thesis
    proof (cases "ob_exists state \<and> durable h n1")
      case True
      obtain n2 w2 where t: "adopt_table io state h n1 w1 = (n2, w2)" by fastforce
      have "e = None" "n' = n2" using assms(1) False a r True t by (auto simp: recover_paths_def n1_def[symmetric] Let_def)
      then show ?thesis using adopt_table_views[OF t] assms(2) True adopt_paths_views[of h False n] by (simp add: n1_def)
    next
      case no: False
      have "e = None" "n' = n1" using assms(1) False a r no by (auto simp: recover_paths_def n1_def[symmetric] Let_def)
      then show ?thesis using adopt_paths_views[of h False n] by (simp add: n1_def described_broken)
    qed
  qed
qed

text \<open>The paths recovery comes to: what is remembered, the confirmed record, and the table.\<close>

definition recovered_history :: "nft_spec list \<Rightarrow> observed_state \<Rightarrow> backend \<Rightarrow> history \<Rightarrow> bool" where
  "recovered_history desired state n h \<longleftrightarrow>
     (\<exists>h0 listed. add_table_paths (bk_ownerMarker n) state (add_record_paths (bk_diskSession n) (remembered desired n))
         = Inr (h0, listed) \<and> h = resolve_history h0)"

theorem recoverKernelState_views:
  assumes "recoverKernelState io desired n w = (e, n', w')" and "described n"
  shows "(e = None \<longrightarrow> described n' \<and> bk_recovered n'
    \<and> (n' = n \<or> (\<exists>state h. recovered_history desired state n h \<and> memory n' = history_memory h)))"
proof -
  obtain r w1 where o: "observe io (bk_ownerMarker n) w = (r, w1)" by fastforce
  show ?thesis
  proof (cases r)
    case (Inl x)
    then show ?thesis using assms o by (auto simp: recoverKernelState_def)
  next
    case (Inr state)
    consider "ob_exists state \<and> \<not> ob_owned state" | "\<not> (ob_exists state \<and> \<not> ob_owned state)" "unchanged state n"
      | "\<not> (ob_exists state \<and> \<not> ob_owned state)" "\<not> unchanged state n" by blast
    then show ?thesis
    proof cases
      case 1
      then show ?thesis using assms o Inr by (auto simp: recoverKernelState_def)
    next
      case 2
      then have "n' = n" using assms o Inr by (auto simp: recoverKernelState_def split: if_splits)
      with 2 assms(2) show ?thesis by (simp add: unchanged_def)
    next
      case 3
      show ?thesis
      proof (cases "add_table_paths (bk_ownerMarker n) state (add_record_paths (bk_diskSession n) (remembered desired n))")
        case (Inl x)
        then show ?thesis using assms o Inr 3 by (auto simp: recoverKernelState_def split: if_splits)
      next
        case paths: (Inr q)
        obtain h listed where q: "q = (h, listed)" by fastforce
        obtain b n1 w2 where b: "bind_session io listed n w1 = (b, n1, w2)" by (metis prod_cases3)
        have run: "(case b of Some e \<Rightarrow> (Some e, n1, w2) | None \<Rightarrow> recover_paths io state (resolve_history h) n1 w2) = (e, n', w')"
          using assms o Inr 3 paths q b by (auto simp: recoverKernelState_def split: if_splits)
        show ?thesis
        proof (cases b)
          case (Some x)
          then show ?thesis using run by auto
        next
          case None
          then have "recover_paths io state (resolve_history h) n1 w2 = (e, n', w')" using run by simp
          from recover_paths_views[OF this] observe_fingerprint[of io "bk_ownerMarker n" w state w1] o Inr
          have "e = None \<longrightarrow> memory n' = history_memory (resolve_history h) \<and> bk_recovered n' \<and> described n'" by blast
          moreover have "recovered_history desired state n (resolve_history h)"
            using paths q by (auto simp: recovered_history_def)
          ultimately show ?thesis by blast
        qed
      qed
    qed
  qed
qed

section \<open>Reconciliation\<close>

lemma check_admission_flow: "check_admission io specs w = (Inr (Some e), w') \<Longrightarrow> specsUseFlowtable specs"
  by (auto simp: check_admission_def split: if_splits)

lemma evict_views:
  "settings (evict_acceleration a specs n) = settings n" "memory (evict_acceleration a specs n) = memory n"
  "applied_view (evict_acceleration a specs n) = applied_view n"
  "bk_initialized (evict_acceleration a specs n) \<Longrightarrow> bk_initialized n"
  "bk_active (evict_acceleration a specs n) = bk_active n"
  by (auto simp: evict_acceleration_def view_defs split: option.splits if_splits)

text \<open>The connections of the pending paths were revoked while those paths were gated.\<close>

definition revoked :: "'w nft_io \<Rightarrow> nft_spec list \<Rightarrow> bool" where
  "revoked io pending \<longleftrightarrow> pending = [] \<or> (\<exists>w1 w2. revokeNFTConnections (nx_conntrack io) pending w1 = (None, w2))"

lemma described_update [simp]:
  "described (n\<lparr>bk_policyFamilies := f\<rparr>) = described n" "described (n\<lparr>bk_pending := ps\<rparr>) = described n"
  "described (n\<lparr>bk_unknownState := u\<rparr>) = described n" "described (n\<lparr>bk_recovered := r\<rparr>) = described n"
  "described (n\<lparr>bk_cleanVerified := c\<rparr>) = described n" "described (n\<lparr>bk_initErr := i\<rparr>) = described n"
  "described (n\<lparr>bk_diskSession := d\<rparr>) = described n" "described (n\<lparr>bk_configErr := c\<rparr>) = described n"
  "described (n\<lparr>bk_ownerMarker := x\<rparr>) = described n" "described (n\<lparr>bk_topologyReady := y\<rparr>) = described n"
  "described (n\<lparr>bk_pendingTopology := t\<rparr>) = described n"
  by (simp_all add: described_def verified_def)

lemma retire_pending_views:
  assumes "retire_pending io admission p n w = (e, n', w')" and "described n"
  shows "described n' \<and> (e = None \<longrightarrow> revoked io (rc_pending p))"
proof (cases "rc_pending p = []")
  case True
  then show ?thesis using assms by (auto simp: retire_pending_def revoked_def)
next
  case False
  obtain r n1 w1 where o: "replaceObjects io (gateNFTReplacements (rc_next p) (rc_pending p)) (rc_pending p)
      (specsUseFlowtable (rc_next p)) (rc_suspended p) n w = (r, n1, w1)" by (metis prod_cases3)
  have d: "described n1" using replaceObjects_views[OF o] assms(2) by blast
  obtain q w2 where v: "revokeNFTConnections (nx_conntrack io) (rc_pending p) w1 = (q, w2)" by fastforce
  show ?thesis
    using assms(1) False o v d
    by (auto simp: retire_pending_def Let_def revoked_def split: option.splits)
qed

definition settled :: "nft_spec list \<Rightarrow> backend \<Rightarrow> bool" where
  "settled specs n \<longleftrightarrow>
     bk_pending n = [] \<and> \<not> bk_unknownState n
     \<and> (if bk_initialized n
        then bk_appliedSpecKey n = nftAppliedStateKey specs [] [] (specsUseFlowtable specs) (bk_diskBinding n)
        else specs = [] \<and> bk_active n = [] \<and> bk_suspended n = [])"

lemma install_next_views:
  assumes "install_next io admission dependency p n w = (e, n', w')" and "described n"
  shows "described n' \<and> (e = None \<longrightarrow> admission = None \<and> dependency = None
    \<and> (rc_suspended p = [] \<longrightarrow> settled (rc_next p) n'))"
proof -
  obtain r n1 w1 where o: "replaceObjects io (rc_next p) [] (specsUseFlowtable (rc_next p)) (rc_suspended p) n w = (r, n1, w1)"
    by (metis prod_cases3)
  note v = replaceObjects_views[OF o]
  show ?thesis
  proof (cases r)
    case (Some x)
    then show ?thesis using assms o v by (auto simp: install_next_def)
  next
    case None
    define n2 where
      "n2 = n1\<lparr>bk_pending := [], bk_unknownState := (dependency \<noteq> None), bk_policyFamilies := policy_families admission\<rparr>"
    have n2: "n' = n2" and e: "e = (if admission \<noteq> None then Some AdmissionRefused else map_option ConntrackFailed dependency)"
      using assms(1) o None by (auto simp: install_next_def n2_def)
    have "described n2" using v assms(2) by (intro described_same[of n1 n2]) (simp_all add: n2_def applied_view_def)
    moreover have "settled (rc_next p) n2" if "dependency = None" "rc_suspended p = []"
      using v None that by (auto simp: settled_def requested_def n2_def memory_def)
    ultimately show ?thesis using n2 e by (auto split: if_splits)
  qed
qed

theorem reconcile_views:
  assumes "reconcile io specs n w = (e, n', w')" and "described n"
  shows "described n' \<and> (e = None \<longrightarrow> settled specs n' \<and> revoked io (plan_pending n specs))"
proof (cases "maxNFTRetiredSpecs < length (plan_pending n specs)")
  case True
  then show ?thesis using assms by (auto simp: reconcile_def Let_def)
next
  case short: False
  obtain r w1 where c: "check_admission io specs w = (r, w1)" by fastforce
  show ?thesis
  proof (cases r)
    case (Inl x)
    then show ?thesis using assms short c by (auto simp: reconcile_def Let_def)
  next
    case (Inr admission)
    define n1 where "n1 = evict_acceleration admission specs n"
    define dependency where "dependency = io_available (nx_conntrack io) w1"
    define nxt where "nxt = (if dependency = None then plan_next admission specs
                      else previouslyAdmittedNFT (plan_next admission specs) (bk_active n1))"
    define p where "p = \<lparr>rc_pending = plan_pending n specs, rc_next = nxt, rc_suspended = plan_suspended admission n specs\<rparr>"
    have d: "described n1" using evict_views described_same[OF assms(2), of n1] by (auto simp: n1_def)
    have run: "(if dependency \<noteq> None \<and> owned_history n = [] \<and> plan_pending n specs = []
        then (map_option ConntrackFailed dependency, n1, w1)
        else case retire_pending io admission p (n1\<lparr>bk_pending := plan_pending n specs\<rparr>) w1 of
                  (Some e, n2, w2) \<Rightarrow> (Some e, n2, w2)
                | (None, n2, w2) \<Rightarrow> install_next io admission dependency p n2 w2) = (e, n', w')"
      using assms(1) short c Inr unfolding reconcile_def Let_def p_def nxt_def n1_def dependency_def by simp
    show ?thesis
    proof (cases "dependency \<noteq> None \<and> owned_history n = [] \<and> plan_pending n specs = []")
      case True
      then show ?thesis using run d by auto
    next
      case False
      obtain q n2 w2 where t: "retire_pending io admission p (n1\<lparr>bk_pending := plan_pending n specs\<rparr>) w1 = (q, n2, w2)"
        by (metis prod_cases3)
      have "described (n1\<lparr>bk_pending := plan_pending n specs\<rparr>)" using d by simp
      note tv = retire_pending_views[OF t this]
      show ?thesis
      proof (cases q)
        case (Some x)
        then show ?thesis using run False t tv by auto
      next
        case None
        then have i: "install_next io admission dependency p n2 w2 = (e, n', w')" using run t unfolding if_not_P[OF False] by simp
        have "described n2" "revoked io (plan_pending n specs)" using tv None by (simp_all add: p_def)
        moreover have "rc_next p = specs \<and> rc_suspended p = []" if "admission = None" "dependency = None"
          using that by (simp add: p_def nxt_def plan_next_def plan_suspended_def)
        ultimately show ?thesis using install_next_views[OF i] by auto
      qed
    qed
  qed
qed

section \<open>The operations\<close>

lemma recover_and_reconcile_views:
  assumes "recover_and_reconcile io specs n w = (e, n', w')" and "described n"
  shows "described n' \<and> (e = None \<longrightarrow> settled specs n'
    \<and> (\<exists>n1 w1 w2. recoverKernelState io specs n w1 = (None, n1, w2) \<and> revoked io (plan_pending n1 specs)))"
proof -
  obtain r n1 w1 where k: "recoverKernelState io specs n w = (r, n1, w1)" by (metis prod_cases3)
  show ?thesis
  proof (cases r)
    case (Some x)
    then show ?thesis using assms k by (auto simp: recover_and_reconcile_def described_broken)
  next
    case None
    then have c: "reconcile io specs n1 w1 = (e, n', w')" using assms(1) k by (simp add: recover_and_reconcile_def)
    have "described n1" using recoverKernelState_views[OF k assms(2)] None by blast
    from reconcile_views[OF c this] k None show ?thesis by blast
  qed
qed

lemma refresh_described: "described n \<Longrightarrow> described (refreshMissingExecutables io n w)"
  by (simp add: refreshMissingExecutables_def)

lemma verifyCLIIndependentEmpty_views:
  assumes "verifyCLIIndependentEmpty io n w = (e, n', w')" and "described n"
  shows "described n' \<and> (e = None \<longrightarrow> settled [] n')"
  using assms
  by (auto simp: verifyCLIIndependentEmpty_def Let_def described_broken settled_def clearAppliedState_def
      split: option.splits prod.splits if_splits)

lemma open_session_described: "described n \<Longrightarrow> described (open_session session n)"
  by (simp add: open_session_def Let_def clearAppliedState_def described_broken)

theorem Replace_views:
  assumes "Replace io specs n w = (e, n', w')" and "described n"
  shows "described n' \<and> (e = None \<longrightarrow> settled specs n')"
proof -
  define n0 where "n0 = refreshMissingExecutables io n w"
  have d0: "described n0" using refresh_described[OF assms(2)] by (simp add: n0_def)
  define n1 where "n1 = n0\<lparr>bk_cleanVerified := False\<rparr>"
  have d1: "described n1" using d0 by (simp add: n1_def)
  consider "bk_configErr n0 \<and> specs \<noteq> []" | "\<not> (bk_configErr n0 \<and> specs \<noteq> [])" "bk_initErr n0 \<and> specs = []"
    | "\<not> (bk_configErr n0 \<and> specs \<noteq> [])" "\<not> (bk_initErr n0 \<and> specs = [])" by blast
  then show ?thesis
  proof cases
    case 1
    then show ?thesis using assms d0 by (auto simp: Replace_def Let_def n0_def[symmetric])
  next
    case 2
    then have "verifyCLIIndependentEmpty io n0 w = (e, n', w')" using assms by (auto simp: Replace_def Let_def n0_def[symmetric])
    from verifyCLIIndependentEmpty_views[OF this d0] 2 show ?thesis by auto
  next
    case 3
    have run: "(case nx_begin io of
          None \<Rightarrow> recover_and_reconcile io specs n1 w
        | Some begin_session \<Rightarrow>
            (case begin_session (bk_ownerMarker n1) w of
               (None, w1) \<Rightarrow> (Some StoreFailed, n1\<lparr>bk_initialized := False, bk_unknownState := True\<rparr>, w1)
             | (Some session, w1) \<Rightarrow>
                 let (e, n2, w2) = recover_and_reconcile io specs (open_session session n1) w1 in
                 (e, n2\<lparr>bk_diskSession := None\<rparr>, w2))) = (e, n', w')"
      using assms(1) unfolding Replace_def Let_def n0_def[symmetric] n1_def[symmetric] if_not_P[OF 3(1)] if_not_P[OF 3(2)] .
    show ?thesis
    proof (cases "nx_begin io")
      case None
      then show ?thesis using run recover_and_reconcile_views[of io specs n1 w e n' w'] d1 by simp
    next
      case (Some b)
      obtain r w1 where b: "b (bk_ownerMarker n1) w = (r, w1)" by fastforce
      show ?thesis
      proof (cases r)
        case None
        then show ?thesis using run Some b by (auto simp: described_broken)
      next
        case session: (Some session)
        obtain q n2 w2 where k: "recover_and_reconcile io specs (open_session session n1) w1 = (q, n2, w2)" by (metis prod_cases3)
        have n': "e = q" "n' = n2\<lparr>bk_diskSession := None\<rparr>" using run Some b session k by auto
        note v = recover_and_reconcile_views[OF k open_session_described[OF d1]]
        have "described (n2\<lparr>bk_diskSession := None\<rparr>)" using v by simp
        moreover have "settled specs n2 \<Longrightarrow> settled specs (n2\<lparr>bk_diskSession := None\<rparr>)" by (simp add: settled_def)
        ultimately show ?thesis using v n' by blast
      qed
    qed
  qed
qed

end
