(* ===== verification/Nft_Backend_Writes.thy ===== *)
theory Nft_Backend_Writes
  imports Nft_Backend_Facts
begin

text \<open>
  What the backend remembers is always well formed, and what it sends to the kernel are only transactions whose
  every line is a command on the managed table.
\<close>

section \<open>Well-formed memory\<close>

definition snapshot_ok :: "disk_snapshot \<Rightarrow> bool" where
  "snapshot_ok d \<longleftrightarrow> specs_ok (path_specs (ds_active d) @ path_specs (ds_pending d) @ path_specs (ds_suspended d))"

definition session_ok :: "disk_session \<Rightarrow> bool" where
  "session_ok s \<longleftrightarrow> (\<forall>r. sn_record s = Some r \<longrightarrow> snapshot_ok (dr_confirmed r))"

definition memory_ok :: "backend \<Rightarrow> bool" where
  "memory_ok n \<longleftrightarrow> specs_ok (bk_active n @ bk_pending n @ bk_suspended n)
     \<and> (\<forall>s. bk_diskSession n = Some s \<longrightarrow> session_ok s)"

lemma memory_ok_update [simp]:
  "memory_ok (n\<lparr>bk_initialized := i\<rparr>) = memory_ok n" "memory_ok (n\<lparr>bk_unknownState := u\<rparr>) = memory_ok n"
  "memory_ok (n\<lparr>bk_recovered := r\<rparr>) = memory_ok n" "memory_ok (n\<lparr>bk_topologyReady := y\<rparr>) = memory_ok n"
  "memory_ok (n\<lparr>bk_pendingTopology := t\<rparr>) = memory_ok n" "memory_ok (n\<lparr>bk_policyFamilies := f\<rparr>) = memory_ok n"
  "memory_ok (n\<lparr>bk_cleanVerified := c\<rparr>) = memory_ok n" "memory_ok (n\<lparr>bk_initErr := e\<rparr>) = memory_ok n"
  "memory_ok (n\<lparr>bk_configErr := e\<rparr>) = memory_ok n" "memory_ok (n\<lparr>bk_ownerMarker := x\<rparr>) = memory_ok n"
  "memory_ok (n\<lparr>bk_diskBinding := b\<rparr>) = memory_ok n"
  by (simp_all add: memory_ok_def)

lemma memory_ok_views:
  "memory_ok n \<Longrightarrow> memory n' = memory n \<Longrightarrow> bk_diskSession n' = bk_diskSession n \<Longrightarrow> memory_ok n'"
  by (simp add: memory_ok_def memory_def)

lemma diskNFTSnapshot_specs_ok: "specs_ok (a @ p @ s) \<Longrightarrow> snapshot_ok (diskNFTSnapshot a p s)"
  using path_specs_tuples[of a] path_specs_tuples[of p] path_specs_tuples[of s] by (simp add: snapshot_ok_def diskNFTSnapshot_def)

lemma empty_snapshot_ok [simp]: "snapshot_ok empty_snapshot"
  by (simp add: snapshot_ok_def path_specs_def)

lemma prepare_session_ok:
  assumes "prepare writer c i s w = (e, s', w')" and "session_ok s" and "snapshot_ok c"
  shows "session_ok s'"
proof (cases e)
  case None
  with assms prepare_result[of writer c i s w s' w'] show ?thesis by (auto simp: session_ok_def)
next
  case (Some x)
  with assms(1) have "s' = s" by (auto simp: prepare_def dest: save_result split: option.splits if_splits)
  with assms(2) show ?thesis by simp
qed

lemma checkpoint_session_ok:
  assumes "checkpoint writer c s w = (e, s', w')" and "session_ok s" and "snapshot_ok c"
  shows "session_ok s'"
proof (cases e)
  case None
  with assms checkpoint_result[of writer c s w s' w'] show ?thesis by (auto simp: session_ok_def)
next
  case (Some x)
  with assms(1) have "s' = s" by (auto simp: checkpoint_def dest: save_result split: option.splits if_splits)
  with assms(2) show ?thesis by simp
qed

lemma binding_session_ok: "disk_binding random listed s w = (r, s', w') \<Longrightarrow> session_ok s \<Longrightarrow> session_ok s'"
  by (auto simp: disk_binding_def Let_def session_ok_def split: if_splits option.splits prod.splits)

text \<open>An accepted record holds well-formed paths.\<close>

lemma check_paths_specs: "check_paths owner seen ps = None \<Longrightarrow> specs_ok (path_specs ps)"
proof (induction ps arbitrary: seen)
  case Nil
  then show ?case by (simp add: path_specs_def)
next
  case (Cons p ps)
  obtain ident s where p: "p = (ident, s)" by fastforce
  with Cons.prems have v: "validNFTIdentity ident" "validateRetirementSpec s"
    and rest: "check_paths owner (path_key p # seen) ps = None" by simp_all
  have "validateRetirementSpec (s\<lparr>ruleIdentity := ident, RuleID := ''kernel-'' @ ident\<rparr>) = validateRetirementSpec s"
    by (simp add: validateRetirementSpec_def nftLastPort_def nftLastTargetPort_def)
  with v have "spec_ok (s\<lparr>ruleIdentity := ident, RuleID := ''kernel-'' @ ident\<rparr>)" by (intro recovered_ok) simp_all
  with Cons.IH[OF rest] show ?case by (simp add: path_specs_def p)
qed

lemma record_ok_session: "\<forall>r. sn_record s = Some r \<longrightarrow> record_ok owner 1 r \<Longrightarrow> session_ok s"
  by (auto simp: session_ok_def snapshot_ok_def record_ok_def validateNFTDiskSnapshot_def dest: check_paths_specs)

section \<open>Well-formed plans\<close>

definition object_plan_ok :: "object_plan \<Rightarrow> bool" where
  "object_plan_ok p \<longleftrightarrow> specs_ok (op_specs p @ op_retired p @ op_suspended p)"

lemma unique_ok: "specs_ok (concat gs) \<Longrightarrow> specs_ok (uniqueNFTSpecs gs)"
  by (rule uniqueNFTSpecs_tuples(2))

lemmas algebra_ok = unique_ok retiredNFTSpecs_facts(2) gateNFTReplacements_facts(2) previouslyAdmittedNFT_facts(2)

lemma fallback_ok: "object_plan_ok p \<Longrightarrow> memory_ok n \<Longrightarrow> object_plan_ok (fallback_plan n p)"
  by (simp add: object_plan_ok_def memory_ok_def fallback_plan_def Let_def algebra_ok)

lemma persist_intent_ok:
  assumes "persist_intent io p n w = (r, n', w')" and "object_plan_ok p" and "memory_ok n"
  shows "memory_ok n' \<and> (\<forall>p' b. r = Inr (p', b) \<longrightarrow> object_plan_ok p')"
proof (cases "bk_diskSession n")
  case None
  then show ?thesis using assms by (auto simp: persist_intent_def)
next
  case (Some session)
  obtain e session1 w1 where prep: "prepare (nx_writer io) (diskNFTSnapshot (bk_active n) (bk_pending n) (bk_suspended n))
                  (diskNFTSnapshot (op_specs p) (op_retired p) (op_suspended p)) session w = (e, session1, w1)"
    by (metis prod_cases3)
  have "session_ok session1"
    using prepare_session_ok[OF prep] assms(3) Some diskNFTSnapshot_specs_ok by (simp add: memory_ok_def)
  define n1 where "n1 = n\<lparr>bk_diskSession := Some session1\<rparr>"
  have m1: "memory_ok n1" using \<open>session_ok session1\<close> assms(3) by (simp add: n1_def memory_ok_def)
  show ?thesis
  proof (cases e)
    case None
    then show ?thesis using assms Some prep m1 by (auto simp: persist_intent_def Let_def n1_def)
  next
    case failed: (Some err)
    define p1 where "p1 = fallback_plan n1 p"
    have p1: "object_plan_ok p1" using fallback_ok[OF assms(2) m1] by (simp add: p1_def)
    then have p2: "object_plan_ok (p1\<lparr>op_topology := t, op_refresh := f\<rparr>)" for t f by (simp add: object_plan_ok_def)
    obtain t n2 w2 where topo: "topologyForFlowtable io (op_keep p1) n1 w1 = (t, n2, w2)" by (metis prod_cases3)
    have m2: "memory_ok n2" using memory_ok_views[OF m1] topology_views[OF topo] by blast
    show ?thesis using assms(1) Some prep failed topo m2 p2
      by (cases t) (auto simp: persist_intent_def Let_def n1_def[symmetric] p1_def[symmetric] split: if_splits)
  qed
qed

lemma clear_memory_ok: "memory_ok n \<Longrightarrow> memory_ok (clearAppliedState n)"
  by (simp add: memory_ok_def clearAppliedState_def)

lemma remember_ok: "object_plan_ok p \<Longrightarrow> memory_ok n \<Longrightarrow> memory_ok (remember seen p n)"
  by (simp add: memory_ok_def remember_def object_plan_ok_def)

lemma session_memory_ok: "memory_ok n \<Longrightarrow> session_ok s \<Longrightarrow> memory_ok (n\<lparr>bk_diskSession := Some s\<rparr>)"
  by (simp add: memory_ok_def)

lemma memory_session: "memory_ok n \<Longrightarrow> bk_diskSession n = Some s \<Longrightarrow> session_ok s"
  by (simp add: memory_ok_def)

lemma confirm_empty_ok:
  assumes "confirm_empty persisted io n w = (e, n', w')" and "memory_ok n"
  shows "memory_ok n'"
proof -
  have c: "memory_ok (clearAppliedState n)" using clear_memory_ok[OF assms(2)] .
  then have "memory_ok ((clearAppliedState n)\<lparr>bk_diskSession := Some s1\<rparr>)"
    if "checkpoint (nx_writer io) (diskNFTSnapshot [] [] []) s w = (e1, s1, w1)" "bk_diskSession n = Some s" for s e1 s1 w1
    using checkpoint_session_ok[OF that(1)] memory_session[OF assms(2) that(2)] diskNFTSnapshot_specs_ok[of "[]" "[]" "[]"]
    by (intro session_memory_ok) simp_all
  with c assms(1) show ?thesis by (auto simp: confirm_empty_def Let_def split: if_splits option.splits prod.splits)
qed

lemma confirm_installed_ok:
  assumes "confirm_installed io seen p persisted n w = (e, n', w')" and "object_plan_ok p" and "memory_ok n"
  shows "memory_ok n'"
proof -
  have c: "memory_ok (remember seen p n)" using remember_ok[OF assms(2,3)] .
  then have "memory_ok ((remember seen p n)\<lparr>bk_diskSession := Some s1\<rparr>)"
    if "checkpoint (nx_writer io) (diskNFTSnapshot (op_specs p) (op_retired p) (op_suspended p)) s w = (e1, s1, w1)"
      "bk_diskSession n = Some s" for s e1 s1 w1
    using checkpoint_session_ok[OF that(1)] memory_session[OF assms(3) that(2)] assms(2)
      diskNFTSnapshot_specs_ok by (intro session_memory_ok) (simp_all add: object_plan_ok_def)
  with c assms(1) show ?thesis
    by (auto simp: confirm_installed_def Let_def split: if_splits option.splits prod.splits)
qed

section \<open>What is sent\<close>

definition managed_script :: "string \<Rightarrow> bool" where
  "managed_script script \<longleftrightarrow> (\<exists>ls. script = script_of ls \<and> list_all confined ls)"

lemma plan_printable: "object_plan_ok p \<Longrightarrow> \<forall>s\<in>set (op_specs p @ op_retired p @ op_suspended p). printable_spec s"
  by (auto simp: object_plan_ok_def specs_ok_def spec_ok_def intro: validateRetirementSpec_printable)

lemma install_script_managed:
  assumes "object_plan_ok p"
  shows "managed_script (install_script present p n)"
proof -
  note pr = plan_printable[OF assms]
  have a: "list_all confined (renderNFTScript (op_specs p) present devices (plan_state n p))" for devices
    using renderNFTScript_confined[of "op_specs p" "plan_state n p" _ present devices] pr
    by (auto simp: list_all_iff plan_state_def)
  have b: "list_all confined (writeNFTJournal (op_specs p) (op_retired p) False (op_suspended p) (bk_diskBinding n))"
    using writeNFTJournal_confined[OF pr] by (auto simp: list_all_iff)
  have c: "list_all confined (renderNFTChainRefresh (op_specs p) (op_retired p) (op_suspended p) (bk_diskBinding n))"
    using renderNFTChainRefresh_confined[OF pr] by (auto simp: list_all_iff)
  show ?thesis unfolding managed_script_def install_script_def
    using a b c by (auto intro!: exI)
qed

lemma withdraw_script_managed: "managed_script (script_of [sp [''delete table inet'', nftTableName]])"
  unfolding managed_script_def by (rule exI[of _ "[sp [''delete table inet'', nftTableName]]"]) (simp add: confined_def managed_verbs_def)

section \<open>Well-formed recovery\<close>

definition history_ok :: "history \<Rightarrow> bool" where
  "history_ok h \<longleftrightarrow> specs_ok (hs_active h @ hs_pending h @ hs_suspended h @ hs_known h)"

lemma remembered_ok: "memory_ok n \<Longrightarrow> specs_ok desired \<Longrightarrow> history_ok (remembered desired n)"
  by (simp add: memory_ok_def history_ok_def remembered_def unique_ok)

lemma add_record_paths_ok:
  "history_ok h \<Longrightarrow> (\<forall>s. session = Some s \<longrightarrow> session_ok s) \<Longrightarrow> history_ok (add_record_paths session h)"
  by (auto simp: history_ok_def add_record_paths_def session_ok_def snapshot_ok_def Let_def intro!: unique_ok split: option.split)

lemma add_table_paths_ok:
  assumes "add_table_paths owner state h = Inr (h', listed)" and "history_ok h"
  shows "history_ok h'"
proof (cases "ob_exists state")
  case False
  with assms show ?thesis by (auto simp: add_table_paths_def)
next
  case True
  with assms(1) obtain j legacy where j: "decodeNFTJournal (ob_objects state) owner = Inr j"
    and l: "recoverLegacyNFTSpecs (ob_objects state) owner = Inr legacy"
    by (auto simp: add_table_paths_def split: sum.splits)
  note ok = decodeNFTJournal_ok[OF j, unfolded journal_ok_def] recoverLegacyNFTSpecs_ok[OF l]
  have known: "specs_ok (hs_known h @ j_active j)" using ok(1) assms(2) by (simp add: history_ok_def)
  have r: "specs_ok (resolveNFTIdentities specs (hs_known h @ j_active j))" if "specs_ok specs" for specs
    using resolved_ok[OF that known] .
  let ?r = "\<lambda>specs. resolveNFTIdentities specs (hs_known h @ j_active j)"
  have "h' = \<lparr>hs_active = uniqueNFTSpecs [hs_active h, ?r (j_active j), ?r legacy],
      hs_pending = uniqueNFTSpecs [hs_pending h, ?r (j_retired j)],
      hs_suspended = uniqueNFTSpecs [hs_suspended h, ?r (j_suspended j)], hs_known = hs_known h @ j_active j\<rparr>"
    using assms(1) True j l by (simp add: add_table_paths_def Let_def)
  then show ?thesis using assms(2) ok r known by (simp add: history_ok_def unique_ok)
qed

lemma resolve_history_ok: "history_ok h \<Longrightarrow> history_ok (resolve_history h)"
  by (simp add: history_ok_def resolve_history_def resolved_ok)

lemma adopt_paths_ok: "history_ok h \<Longrightarrow> memory_ok n \<Longrightarrow> memory_ok (adopt_paths h u n)"
  by (simp add: history_ok_def memory_ok_def adopt_paths_def)

lemma bind_session_ok: "bind_session io listed n w = (e, n', w') \<Longrightarrow> memory_ok n \<Longrightarrow> memory_ok n'"
  by (auto simp: bind_session_def memory_ok_def Let_def dest: binding_session_ok split: option.splits prod.splits sum.splits)

lemma adopt_table_ok:
  assumes "adopt_table io state h n w = (n', w')" and "memory_ok n"
  shows "memory_ok n'"
proof -
  obtain t n1 w1 where t: "topologyForFlowtable io (has_flowtable (ob_objects state)) n w = (t, n1, w1)" by (metis prod_cases3)
  have m: "memory_ok n1" using memory_ok_views[OF assms(2)] topology_views[OF t] by blast
  then have m2: "memory_ok (n1\<lparr>bk_topologyReady := False, bk_initialized := True, bk_fingerprint := a, bk_devicesKey := b,
      bk_appliedActiveKey := c, bk_appliedSpecKey := d, bk_policyFamilies := f\<rparr>)" for a b c d f
    by (simp add: memory_ok_def)
  show ?thesis using assms(1) t m m2 by (auto simp: adopt_table_def Let_def split: sum.splits if_splits)
qed

lemma recover_paths_ok:
  assumes "recover_paths io state h n w = (e, n', w')" and "history_ok h" and "memory_ok n"
  shows "memory_ok n'"
  using assms adopt_paths_ok[OF assms(2,3)] adopt_table_ok[of io state h "adopt_paths h False n"]
  by (auto simp: recover_paths_def Let_def split: if_splits prod.splits sum.splits bool.splits)

lemma recoverKernelState_ok:
  assumes "recoverKernelState io desired n w = (e, n', w')" and "memory_ok n" and "specs_ok desired"
  shows "memory_ok n'"
proof -
  have h: "history_ok (add_record_paths (bk_diskSession n) (remembered desired n))"
    using add_record_paths_ok[OF remembered_ok[OF assms(2,3)]] memory_session[OF assms(2)] by blast
  have go: "memory_ok n'" if "add_table_paths owner state (add_record_paths (bk_diskSession n) (remembered desired n)) = Inr (h', listed)"
    "bind_session io listed n v = (None, n1, w2)" "recover_paths io state (resolve_history h') n1 w2 = (e, n', w')"
    for owner state h' listed v n1 w2
    using recover_paths_ok[OF that(3) resolve_history_ok[OF add_table_paths_ok[OF that(1) h]] bind_session_ok[OF that(2) assms(2)]] .
  obtain r w1 where o: "observe io (bk_ownerMarker n) w = (r, w1)" by fastforce
  show ?thesis
  proof (cases "\<exists>state. r = Inr state \<and> \<not> (ob_exists state \<and> \<not> ob_owned state) \<and> \<not> unchanged state n")
    case False
    then have "n' = n" using assms(1) o by (cases r) (auto simp: recoverKernelState_def split: if_split_asm)
    with assms(2) show ?thesis by simp
  next
    case True
    then obtain state where r: "r = Inr state" and c: "\<not> (ob_exists state \<and> \<not> ob_owned state)" "\<not> unchanged state n" by blast
    let ?paths = "add_table_paths (bk_ownerMarker n) state (add_record_paths (bk_diskSession n) (remembered desired n))"
    have run: "(case ?paths of
            Inl e \<Rightarrow> (Some e, n, w1)
          | Inr (h, listed) \<Rightarrow>
              (case bind_session io listed n w1 of
                 (Some e, n1, w2) \<Rightarrow> (Some e, n1, w2)
               | (None, n1, w2) \<Rightarrow> recover_paths io state (resolve_history h) n1 w2)) = (e, n', w')"
      using assms(1) o r unfolding recoverKernelState_def by (simp add: if_not_P[OF c(1)] c(2) split: if_split_asm)
    show ?thesis
    proof (cases ?paths)
      case (Inl x)
      with run assms(2) show ?thesis by simp
    next
      case (Inr q)
      obtain h' listed where q: "q = (h', listed)" by fastforce
      obtain b n1 w2 where bs: "bind_session io listed n w1 = (b, n1, w2)" by (metis prod_cases3)
      show ?thesis
      proof (cases b)
        case (Some x)
        with run Inr q bs bind_session_ok[OF bs assms(2)] show ?thesis by simp
      next
        case None
        with run Inr q bs have "recover_paths io state (resolve_history h') n1 w2 = (e, n', w')" by simp
        with go Inr q bs None show ?thesis by blast
      qed
    qed
  qed
qed

section \<open>Well-formed reconciliation\<close>

lemma history_specs_ok: "memory_ok n \<Longrightarrow> specs_ok (owned_history n)"
  by (simp add: memory_ok_def owned_history_def unique_ok)

lemma plan_pending_ok: "memory_ok n \<Longrightarrow> specs_ok (plan_pending n specs)"
  using history_specs_ok[of n] by (simp add: plan_pending_def memory_ok_def algebra_ok)

lemma specs_ok_filter: "specs_ok specs \<Longrightarrow> specs_ok (filter P specs)"
  by (simp add: specs_ok_def)

lemma plan_next_ok: "specs_ok specs \<Longrightarrow> specs_ok (plan_next admission specs)"
  by (simp add: plan_next_def specs_ok_filter split: option.split)

lemma plan_suspended_ok: "memory_ok n \<Longrightarrow> specs_ok (plan_suspended admission n specs)"
  by (simp add: plan_suspended_def specs_ok_filter algebra_ok history_specs_ok split: option.split)

lemma evict_ok: "memory_ok n \<Longrightarrow> memory_ok (evict_acceleration admission specs n)"
  by (simp add: evict_acceleration_def split: option.split)

lemma pending_memory_ok: "memory_ok n \<Longrightarrow> specs_ok ps \<Longrightarrow> memory_ok (n\<lparr>bk_pending := ps\<rparr>)"
  by (simp add: memory_ok_def)

text \<open>The contract: a transaction is recorded, and nothing else is one.\<close>

locale nft_kernel =
  fixes io :: "'w nft_io"
    and sent :: "'w \<Rightarrow> string list"
  assumes apply_sent: "nx_apply io script w = (ok, w') \<Longrightarrow> sent w' = sent w @ [script]"
    and tables_sent: "nx_tables io w = (r, w') \<Longrightarrow> sent w' = sent w"
    and table_sent: "nx_table io w = (r, w') \<Longrightarrow> sent w' = sent w"
    and chains_sent: "nx_chains io w = (r, w') \<Longrightarrow> sent w' = sent w"
    and interfaces_sent: "nx_interfaces io w = (i, w') \<Longrightarrow> sent w' = sent w"
    and owned_sent: "nx_owned io mark w = (q, w') \<Longrightarrow> sent w' = sent w"
    and list_sent: "io_list (nx_conntrack io) s w = (q, w') \<Longrightarrow> sent w' = sent w"
    and delete_sent: "io_delete (nx_conntrack io) es w = (d, w') \<Longrightarrow> sent w' = sent w"
    and begin_sent: "nx_begin io = Some b \<Longrightarrow> b owner w = (z, w') \<Longrightarrow> sent w' = sent w"
    and existing_sent: "nx_existing io owner w = (ok, w') \<Longrightarrow> sent w' = sent w"
    and writer_sent: "nx_writer io rec w = (ok, w') \<Longrightarrow> sent w' = sent w"
    and random_sent: "nx_random io w = (x, w') \<Longrightarrow> sent w' = sent w"
    and probe_sent: "nx_cleanProbe io = Some probe \<Longrightarrow> probe w = (ok, w') \<Longrightarrow> sent w' = sent w"
begin

definition sends :: "'w \<Rightarrow> 'w \<Rightarrow> bool" where
  "sends w w' \<longleftrightarrow> (\<exists>ss. sent w' = sent w @ ss \<and> list_all managed_script ss)"

lemma sends_same: "sent w' = sent w \<Longrightarrow> sends w w'"
  by (simp add: sends_def)

lemma sends_trans: "sends w1 w2 \<Longrightarrow> sends w2 w3 \<Longrightarrow> sends w1 w3"
  by (fastforce simp: sends_def)

lemma sends_apply: "nx_apply io script w = (ok, w') \<Longrightarrow> managed_script script \<Longrightarrow> sends w w'"
  using apply_sent by (fastforce simp: sends_def)

lemma observe_sent: "observe io owner w = (r, w') \<Longrightarrow> sent w' = sent w"
  by (auto simp: observe_def split: prod.splits option.splits if_splits dest!: tables_sent table_sent)

lemma topology_sent: "topologyForFlowtable io enabled n w = (t, n', w') \<Longrightarrow> sent w' = sent w"
  by (auto simp: topologyForFlowtable_def Let_def split: if_splits prod.splits dest!: interfaces_sent)

lemma save_sent: "save (nx_writer io) r s w = (e, s', w') \<Longrightarrow> sent w' = sent w"
  by (auto simp: save_def Let_def split: option.splits prod.splits if_splits dest!: writer_sent)

lemma prepare_sent: "prepare (nx_writer io) c i s w = (e, s', w') \<Longrightarrow> sent w' = sent w"
  by (auto simp: prepare_def split: option.splits if_splits dest!: save_sent)

lemma checkpoint_sent: "checkpoint (nx_writer io) c s w = (e, s', w') \<Longrightarrow> sent w' = sent w"
  by (auto simp: checkpoint_def split: option.splits if_splits dest!: save_sent)

lemma revoke_one_sent: "revoke_one (nx_conntrack io) s w = (e, w') \<Longrightarrow> sent w' = sent w"
  by (auto simp: revoke_one_def Let_def split: prod.splits sum.splits if_splits dest!: list_sent delete_sent)

lemma revoke_loop_sent: "revoke_loop (nx_conntrack io) ss w = (e, w') \<Longrightarrow> sent w' = sent w"
  by (induction ss arbitrary: w) (auto split: prod.splits option.splits dest!: revoke_one_sent)

lemma revoke_sent: "revokeNFTConnections (nx_conntrack io) ss w = (e, w') \<Longrightarrow> sent w' = sent w"
  by (auto simp: revokeNFTConnections_def split: if_splits option.splits dest!: revoke_loop_sent)

lemma persist_sent: "persist_intent io p n w = (r, n', w') \<Longrightarrow> sent w' = sent w"
  by (auto simp: persist_intent_def Let_def split: option.splits prod.splits sum.splits if_splits
      dest!: prepare_sent topology_sent)

lemma confirm_empty_sent: "confirm_empty persisted io n w = (e, n', w') \<Longrightarrow> sent w' = sent w"
  by (auto simp: confirm_empty_def Let_def split: option.splits prod.splits if_splits dest!: checkpoint_sent)

lemma confirm_installed_sent: "confirm_installed io seen p persisted n w = (e, n', w') \<Longrightarrow> sent w' = sent w"
  by (auto simp: confirm_installed_def Let_def split: option.splits prod.splits if_splits dest!: checkpoint_sent)

lemma withdraw_sends:
  assumes "withdraw io present persisted n w = (e, n', w')" and "memory_ok n"
  shows "memory_ok n' \<and> sends w w'"
proof -
  have empty: "memory_ok n' \<and> sends v w'" if "confirm_empty persisted io n v = (e, n', w')" for v
    using confirm_empty_ok[OF that assms(2)] confirm_empty_sent[OF that] sends_same by blast
  show ?thesis
  proof (cases present)
    case False
    with assms(1) empty show ?thesis by (simp add: withdraw_def)
  next
    case True
    obtain ok w1 where a: "nx_apply io (script_of [sp [''delete table inet'', nftTableName]]) w = (ok, w1)" by fastforce
    have s1: "sends w w1" using sends_apply[OF a withdraw_script_managed] .
    obtain r w2 where o: "observe io (bk_ownerMarker n) w1 = (r, w2)" by fastforce
    have s2: "sends w w2" using sends_trans[OF s1 sends_same[OF observe_sent[OF o]]] .
    show ?thesis using assms True a o s1 s2 empty sends_trans[OF s2]
      by (auto simp: withdraw_def Let_def simp del: join.simps split: if_splits sum.splits)
  qed
qed

lemma install_sends:
  assumes "install io present p persisted n w = (e, n', w')" and "memory_ok n" and "object_plan_ok p"
  shows "memory_ok n' \<and> sends w w'"
proof -
  obtain ok w1 where a: "nx_apply io (install_script present p n) w = (ok, w1)" by fastforce
  have s1: "sends w w1" using sends_apply[OF a install_script_managed[OF assms(3)]] .
  obtain r w2 where o: "observe io (bk_ownerMarker n) w1 = (r, w2)" by fastforce
  have s2: "sends w w2" using sends_trans[OF s1 sends_same[OF observe_sent[OF o]]] .
  have fin: "memory_ok n' \<and> sends w w'" if "confirm_installed io seen p persisted n w2 = (e, n', w')" for seen
    using confirm_installed_ok[OF that assms(3,2)] confirm_installed_sent[OF that] sends_trans[OF s2 sends_same] by blast
  show ?thesis using assms(1,2) a o s1 s2 fin
    by (auto simp: install_def Let_def split: if_splits sum.splits option.splits)
qed

lemma replace_planned_sends:
  assumes "replace_planned io present p n w = (e, n', w')" and "memory_ok n" and "object_plan_ok p"
  shows "memory_ok n' \<and> sends w w'"
proof -
  obtain r n1 w1 where i: "persist_intent io p n w = (r, n1, w1)" by (metis prod_cases3)
  note ok = persist_intent_ok[OF i assms(3,2)]
  have s: "sends w w1" using sends_same[OF persist_sent[OF i]] .
  have "memory_ok n' \<and> sends w w'" if "r = Inr (p1, b)"
    "(if plan_empty p1 then withdraw io present b n1 w1 else install io present p1 b n1 w1) = (e, n', w')" for p1 b
    using that ok withdraw_sends[of present b n1 w1 e n' w'] install_sends[of present p1 b n1 w1 e n' w'] sends_trans[OF s]
    by (auto split: if_splits)
  then show ?thesis using assms(1,2) i ok s clear_memory_ok[OF assms(2)] sends_same[of w w]
    by (auto simp: replace_planned_def split: if_split_asm sum.splits)
qed

lemma replaceObjects_sends:
  assumes "replaceObjects io specs retired keep suspended n w = (e, n', w')" and "memory_ok n"
    and "specs_ok (specs @ retired @ suspended)"
  shows "memory_ok n' \<and> sends w w'"
proof -
  obtain r w1 where o: "observe io (bk_ownerMarker n) w = (r, w1)" by fastforce
  have s1: "sends w w1" using sends_same[OF observe_sent[OF o]] .
  obtain t n1 w2 where t: "topologyForFlowtable io (specsUseFlowtable specs \<or> keep) n w1 = (t, n1, w2)" by (metis prod_cases3)
  have m1: "memory_ok n1" using memory_ok_views[OF assms(2)] topology_views[OF t] by blast
  have s2: "sends w w2" using sends_trans[OF s1 sends_same[OF topology_sent[OF t]]] .
  have go: "memory_ok n' \<and> sends w w'"
    if "replace_planned io b \<lparr>op_specs = specs, op_retired = retired, op_suspended = suspended, op_keep = keep, op_topology = x,
      op_refresh = f\<rparr> (n1\<lparr>bk_topologyReady := False\<rparr>) w2 = (e, n', w')" for b x f
    using replace_planned_sends[OF that] m1 assms(3) sends_trans[OF s2] by (simp add: object_plan_ok_def)
  show ?thesis
    using assms(1,2) o s1 t m1 s2 go unfolding replaceObjects_def Let_def
    by (auto simp del: first_err_eq_None split: sum.splits if_split_asm option.splits)
qed

lemma attribute_sent: "attribute_connections io h n w = (r, w') \<Longrightarrow> sent w' = sent w"
  by (auto simp: attribute_connections_def Let_def split: option.splits if_splits prod.splits sum.splits
      dest!: owned_sent dest: probe_sent)

lemma binding_sent: "disk_binding (nx_random io) listed s w = (r, s', w') \<Longrightarrow> sent w' = sent w"
  by (auto simp: disk_binding_def Let_def split: if_splits option.splits prod.splits dest!: random_sent)

lemma bind_session_sent: "bind_session io listed n w = (e, n', w') \<Longrightarrow> sent w' = sent w"
  by (auto simp: bind_session_def Let_def split: option.splits prod.splits sum.splits dest!: binding_sent)

lemma adopt_table_sent: "adopt_table io state h n w = (n', w') \<Longrightarrow> sent w' = sent w"
  by (auto simp: adopt_table_def Let_def split: prod.splits sum.splits if_splits dest!: topology_sent)

lemma recover_paths_sent: "recover_paths io state h n w = (e, n', w') \<Longrightarrow> sent w' = sent w"
  by (auto simp: recover_paths_def Let_def split: if_splits prod.splits sum.splits bool.splits
      dest!: attribute_sent adopt_table_sent)

lemma recover_sent: "recoverKernelState io desired n w = (e, n', w') \<Longrightarrow> sent w' = sent w"
  unfolding recoverKernelState_def
  by (auto split: prod.splits sum.splits if_split_asm option.splits dest!: observe_sent bind_session_sent recover_paths_sent)

lemma check_admission_sent: "check_admission io specs w = (r, w') \<Longrightarrow> sent w' = sent w"
  by (auto simp: check_admission_def Let_def split: if_splits prod.splits dest!: chains_sent)

lemma retire_pending_sends:
  assumes "retire_pending io admission p n w = (e, n', w')" and "memory_ok n"
    and "specs_ok (rc_pending p @ rc_next p @ rc_suspended p)"
  shows "memory_ok n' \<and> sends w w'"
proof (cases "rc_pending p = []")
  case True
  then show ?thesis using assms sends_same[of w w] by (auto simp: retire_pending_def)
next
  case False
  obtain r n1 w1 where o: "replaceObjects io (gateNFTReplacements (rc_next p) (rc_pending p)) (rc_pending p)
      (specsUseFlowtable (rc_next p)) (rc_suspended p) n w = (r, n1, w1)" by (metis prod_cases3)
  have s: "memory_ok n1 \<and> sends w w1" using replaceObjects_sends[OF o assms(2)] assms(3) by (simp add: algebra_ok)
  obtain q w2 where v: "revokeNFTConnections (nx_conntrack io) (rc_pending p) w1 = (q, w2)" by fastforce
  have "sends w w2" using s sends_trans[OF _ sends_same[OF revoke_sent[OF v]]] by blast
  with assms(1) False o s v show ?thesis by (auto simp: retire_pending_def Let_def split: option.splits)
qed

lemma install_next_sends:
  assumes "install_next io admission dependency p n w = (e, n', w')" and "memory_ok n"
    and "specs_ok (rc_next p @ rc_suspended p)"
  shows "memory_ok n' \<and> sends w w'"
proof -
  obtain r n1 w1 where o: "replaceObjects io (rc_next p) [] (specsUseFlowtable (rc_next p)) (rc_suspended p) n w = (r, n1, w1)"
    by (metis prod_cases3)
  have s: "memory_ok n1" "sends w w1" using replaceObjects_sends[OF o assms(2)] assms(3) by simp_all
  have "memory_ok (n1\<lparr>bk_pending := [], bk_unknownState := u, bk_policyFamilies := f\<rparr>)" for u f
    using s(1) by (simp add: memory_ok_def)
  with assms(1) o s show ?thesis by (auto simp: install_next_def split: option.splits)
qed

lemma reconcile_sends:
  assumes "reconcile io specs n w = (e, n', w')" and "memory_ok n" and "specs_ok specs"
  shows "memory_ok n' \<and> sends w w'"
proof (cases "maxNFTRetiredSpecs < length (plan_pending n specs)")
  case True
  then show ?thesis using assms pending_memory_ok[OF assms(2) plan_pending_ok[OF assms(2)]] sends_same[of w w]
    by (auto simp: reconcile_def Let_def)
next
  case short: False
  obtain r w1 where c: "check_admission io specs w = (r, w1)" by fastforce
  have s1: "sends w w1" using sends_same[OF check_admission_sent[OF c]] .
  show ?thesis
  proof (cases r)
    case (Inl x)
    then show ?thesis using assms short c s1 by (auto simp: reconcile_def Let_def)
  next
    case (Inr admission)
    define n1 where "n1 = evict_acceleration admission specs n"
    define dependency where "dependency = io_available (nx_conntrack io) w1"
    define nxt where "nxt = (if dependency = None then plan_next admission specs
                      else previouslyAdmittedNFT (plan_next admission specs) (bk_active n1))"
    define p where "p = \<lparr>rc_pending = plan_pending n specs, rc_next = nxt, rc_suspended = plan_suspended admission n specs\<rparr>"
    have m1: "memory_ok n1" using evict_ok[OF assms(2)] by (simp add: n1_def)
    have po: "specs_ok (rc_pending p @ rc_next p @ rc_suspended p)"
      using plan_pending_ok[OF assms(2)] plan_next_ok[OF assms(3)] plan_suspended_ok[OF assms(2)]
      by (simp add: p_def nxt_def algebra_ok)
    have run: "(if dependency \<noteq> None \<and> owned_history n = [] \<and> plan_pending n specs = []
        then (map_option ConntrackFailed dependency, n1, w1)
        else case retire_pending io admission p (n1\<lparr>bk_pending := plan_pending n specs\<rparr>) w1 of
                  (Some e, n2, w2) \<Rightarrow> (Some e, n2, w2)
                | (None, n2, w2) \<Rightarrow> install_next io admission dependency p n2 w2) = (e, n', w')"
      using assms(1) short c Inr unfolding reconcile_def Let_def p_def nxt_def n1_def dependency_def by simp
    show ?thesis
    proof (cases "dependency \<noteq> None \<and> owned_history n = [] \<and> plan_pending n specs = []")
      case True
      then show ?thesis using run m1 s1 by auto
    next
      case False
      obtain q n2 w2 where t: "retire_pending io admission p (n1\<lparr>bk_pending := plan_pending n specs\<rparr>) w1 = (q, n2, w2)"
        by (metis prod_cases3)
      have s2: "memory_ok n2" "sends w w2"
        using retire_pending_sends[OF t pending_memory_ok[OF m1 plan_pending_ok[OF assms(2)]] po] sends_trans[OF s1] by blast+
      show ?thesis
      proof (cases q)
        case (Some x)
        then show ?thesis using run t s2 unfolding if_not_P[OF False] by simp
      next
        case None
        then have i: "install_next io admission dependency p n2 w2 = (e, n', w')"
          using run t unfolding if_not_P[OF False] by simp
        from install_next_sends[OF i s2(1)] po sends_trans[OF s2(2)] show ?thesis by auto
      qed
    qed
  qed
qed

lemma recover_and_reconcile_sends:
  assumes "recover_and_reconcile io specs n w = (e, n', w')" and "memory_ok n" and "specs_ok specs"
  shows "memory_ok n' \<and> sends w w'"
proof -
  obtain r n1 w1 where k: "recoverKernelState io specs n w = (r, n1, w1)" by (metis prod_cases3)
  have m: "memory_ok n1" "sends w w1" using recoverKernelState_ok[OF k assms(2,3)] sends_same[OF recover_sent[OF k]] by auto
  show ?thesis
  proof (cases r)
    case (Some x)
    then show ?thesis using assms(1) k m by (auto simp: recover_and_reconcile_def)
  next
    case None
    then have "reconcile io specs n1 w1 = (e, n', w')" using assms(1) k by (simp add: recover_and_reconcile_def)
    from reconcile_sends[OF this m(1) assms(3)] sends_trans[OF m(2)] show ?thesis by blast
  qed
qed

end

end
