(* ===== verification/Nft_Backend_Plan.thy ===== *)
theory Nft_Backend_Plan
  imports Nft_Backend_Writes
begin

text \<open>
  What reconciliation plans, as sets of tuples: what is revoked, what may be admitted, and which owned paths stay
  owned.
\<close>

section \<open>Owned tuples\<close>

definition owned_tuples :: "backend \<Rightarrow> nft_tuple set" where
  "owned_tuples n = tuples (bk_active n) \<union> tuples (bk_suspended n)"

lemma owned_history_tuples: "memory_ok n \<Longrightarrow> tuples (owned_history n) = owned_tuples n"
  by (simp add: owned_history_def owned_tuples_def uniqueNFTSpecs_tuples(1) memory_ok_def)

lemma plan_pending_tuples:
  assumes "memory_ok n"
  shows "tuples (plan_pending n specs) = tuples (bk_pending n) \<union> (owned_tuples n - tuples specs)"
proof -
  note h = history_specs_ok[OF assms]
  have "specs_ok (concat [bk_pending n, retiredNFTSpecs (owned_history n) specs])"
    using assms retiredNFTSpecs_facts(2)[OF h] by (simp add: memory_ok_def)
  from uniqueNFTSpecs_tuples(1)[OF this] show ?thesis
    by (simp add: plan_pending_def retiredNFTSpecs_facts(1)[OF h] owned_history_tuples[OF assms])
qed

section \<open>What gating keeps\<close>

text \<open>A port of a spec that is not occupied stays in a slice with the spec's own fields.\<close>

definition same_but_ports :: "nft_spec \<Rightarrow> nft_spec \<Rightarrow> bool" where
  "same_but_ports s' s \<longleftrightarrow> EnableFlowtable s' = EnableFlowtable s \<and> Family s' = Family s"

lemma gate_slice:
  assumes "spec_ok s" and "s \<in> set desired" and "p \<in> spec_ports s" and "\<not> occupied pending s p"
  shows "\<exists>s'\<in>set (gateNFTReplacements desired pending). same_but_ports s' s \<and> tuple_at s p \<in> spec_tuples s'"
proof -
  let ?sub = "subtract_matching (same_listener s) pending s"
  have "tuple_at s p \<in> tuples ?sub"
    using subtract_matching_facts(1)[OF assms(1), of "same_listener s" pending] assms(3,4) by (auto simp: occupied_def)
  then obtain s' where s': "s' \<in> set ?sub" "tuple_at s p \<in> spec_tuples s'" by (auto simp: tuples_def)
  have "same_but_ports s' s" using s'(1) by (auto simp: subtract_matching_def same_but_ports_def)
  moreover have "s' \<in> set (gateNFTReplacements desired pending)"
    using s'(1) assms(2) by (auto simp: gateNFTReplacements_def)
  ultimately show ?thesis using s'(2) by blast
qed

lemma tuple_family: "t \<in> spec_tuples s \<Longrightarrow> t \<in> spec_tuples s' \<Longrightarrow> Family s = Family s'"
  by (auto simp: tuple_in_spec tuple_at_def)

text \<open>The proof of compatibility permits only accelerated specs it was asked about.\<close>

definition permits_only :: "admission_error \<Rightarrow> nft_spec list \<Rightarrow> bool" where
  "permits_only e specs \<longleftrightarrow> (\<forall>a\<in>set (ad_permitted e). a \<in> set specs \<and> EnableFlowtable a)"

lemma covers_self: "EnableFlowtable a \<Longrightarrow> nftSelectiveScopeCovers a a"
  by (simp add: nftSelectiveScopeCovers_def)

lemma affects_families:
  "affects e s \<longleftrightarrow> EnableFlowtable s \<and> ad_families e AND family_mask (Family s) \<noteq> 0
     \<and> \<not> list_ex (\<lambda>a. nftSelectiveScopeCovers a s) (ad_permitted e)"
  by (simp add: affects_def family_mask_def Let_def)

text \<open>
  An owned path that stays desired and was accelerated stays owned under a rejection: it is installed or
  suspended.
\<close>

lemma rejected_owned:
  assumes m: "memory_ok n" and h: "h \<in> set (owned_history n)" and flow: "EnableFlowtable h"
    and p: "p \<in> spec_ports h" and free: "\<not> occupied (retiredNFTSpecs (owned_history n) specs) h p"
    and want: "tuple_at h p \<in> tuples specs" and only: "permits_only e specs"
  shows "tuple_at h p \<in> tuples (plan_next (Some e) specs) \<union> tuples (plan_suspended (Some e) n specs)"
proof -
  have "spec_ok h" using history_specs_ok[OF m] h by (auto simp: specs_ok_def)
  from gate_slice[OF this h p free] obtain h' where h': "h' \<in> set (gateNFTReplacements (owned_history n) (retiredNFTSpecs (owned_history n) specs))"
    "same_but_ports h' h" "tuple_at h p \<in> spec_tuples h'" by blast
  obtain s where s: "s \<in> set specs" "tuple_at h p \<in> spec_tuples s" using want by (auto simp: tuples_def)
  show ?thesis
  proof (cases "affects e h'")
    case True
    then have "h' \<in> set (plan_suspended (Some e) n specs)" using h'(1) by (simp add: plan_suspended_def)
    with h'(3) show ?thesis by (auto simp: tuples_def)
  next
    case False
    with flow h'(2) consider "ad_families e AND family_mask (Family h') = 0"
      | a where "a \<in> set (ad_permitted e)" "nftSelectiveScopeCovers a h'"
      by (auto simp: affects_families same_but_ports_def list_ex_iff)
    then show ?thesis
    proof cases
      case 1
      then have "\<not> affects e s" using tuple_family[OF s(2) h'(3)] by (simp add: affects_families)
      then have "s \<in> set (plan_next (Some e) specs)" using s(1) by (simp add: plan_next_def)
      with s(2) show ?thesis by (auto simp: tuples_def)
    next
      case (2 a)
      then have a: "a \<in> set specs" "EnableFlowtable a" using only by (auto simp: permits_only_def)
      then have "\<not> affects e a" using 2(1) covers_self by (auto simp: affects_families list_ex_iff)
      then have "a \<in> set (plan_next (Some e) specs)" using a(1) by (simp add: plan_next_def)
      moreover have "tuple_at h p \<in> spec_tuples a" using covers_tuples[OF 2(2)] h'(3) by blast
      ultimately show ?thesis by (auto simp: tuples_def)
    qed
  qed
qed

lemma gated_free:
  assumes "specs_ok specs" and "t \<in> tuples (gateNFTReplacements specs pending)"
  shows "\<exists>s\<in>set specs. \<exists>p\<in>spec_ports s. t = tuple_at s p \<and> \<not> occupied pending s p"
  using assms gateNFTReplacements_facts(1)[OF assms(1), of pending] by auto

text \<open>A gated plan never admits a tuple that is waiting for its revocation.\<close>

lemma gated_not_pending:
  assumes "specs_ok specs" and "t \<in> tuples (gateNFTReplacements specs pending)"
  shows "t \<notin> tuples pending"
proof
  assume "t \<in> tuples pending"
  then obtain old where old: "old \<in> set pending" "t \<in> spec_tuples old" by (auto simp: tuples_def)
  from gated_free[OF assms] obtain s p where s: "s \<in> set specs" "p \<in> spec_ports s" "t = tuple_at s p" "\<not> occupied pending s p"
    by blast
  have "same_listener s old" "p \<in> spec_ports old"
    using old(2) s(3) by (auto simp: tuple_in_spec tuple_at_def same_listener_def spec_ports_def)
  with s(4) old(1) show False by (auto simp: occupied_def)
qed

section \<open>The order of a replacement\<close>

text \<open>
  A replacement that succeeds was admitted in full; it gated every pending path, then revoked the connections of
  the pending paths, and only then installed what was asked for.
\<close>

definition gated_and_revoked :: "'w nft_io \<Rightarrow> nft_spec list \<Rightarrow> nft_spec list \<Rightarrow> backend \<Rightarrow> 'w \<Rightarrow> backend \<Rightarrow> 'w \<Rightarrow> bool" where
  "gated_and_revoked io specs pending n w n' w' \<longleftrightarrow>
     (\<exists>n1 w1. replaceObjects io (gateNFTReplacements specs pending) pending (specsUseFlowtable specs) [] n w = (None, n1, w1)
        \<and> revokeNFTConnections (nx_conntrack io) pending w1 = (None, w') \<and> n' = n1\<lparr>bk_policyFamilies := 0\<rparr>)"

lemma retire_pending_order:
  assumes "retire_pending io None p n w = (None, n', w')" and "rc_pending p \<noteq> []" and "rc_suspended p = []"
  shows "gated_and_revoked io (rc_next p) (rc_pending p) n w n' w'"
proof -
  obtain r n1 w1 where o: "replaceObjects io (gateNFTReplacements (rc_next p) (rc_pending p)) (rc_pending p)
      (specsUseFlowtable (rc_next p)) [] n w = (r, n1, w1)" by (metis prod_cases3)
  obtain q w2 where v: "revokeNFTConnections (nx_conntrack io) (rc_pending p) w1 = (q, w2)" by fastforce
  have "r = None" using assms o by (auto simp: retire_pending_def split: option.splits)
  moreover from this have "q = None" "w2 = w'" "n' = n1\<lparr>bk_policyFamilies := 0\<rparr>"
    using assms o v by (auto simp: retire_pending_def policy_families_def Let_def split: option.splits)
  ultimately show ?thesis using o v unfolding gated_and_revoked_def by blast
qed

lemma reconcile_order:
  assumes "reconcile io specs n w = (None, n', w')"
  shows "\<exists>w1 n2 w2 n3. check_admission io specs w = (Inr None, w1)
    \<and> (if plan_pending n specs = [] then n2 = n\<lparr>bk_pending := []\<rparr> \<and> w2 = w1
       else gated_and_revoked io specs (plan_pending n specs) (n\<lparr>bk_pending := plan_pending n specs\<rparr>) w1 n2 w2)
    \<and> replaceObjects io specs [] (specsUseFlowtable specs) [] n2 w2 = (None, n3, w')"
proof -
  have short: "\<not> maxNFTRetiredSpecs < length (plan_pending n specs)" using assms by (auto simp: reconcile_def Let_def)
  obtain r w1 where c: "check_admission io specs w = (r, w1)" by fastforce
  obtain admission where a: "r = Inr admission" using assms short c by (cases r) (auto simp: reconcile_def Let_def)
  define n1 where "n1 = evict_acceleration admission specs n"
  define dependency where "dependency = io_available (nx_conntrack io) w1"
  define nxt where "nxt = (if dependency = None then plan_next admission specs
                    else previouslyAdmittedNFT (plan_next admission specs) (bk_active n1))"
  define p where "p = \<lparr>rc_pending = plan_pending n specs, rc_next = nxt, rc_suspended = plan_suspended admission n specs\<rparr>"
  have run: "(if dependency \<noteq> None \<and> owned_history n = [] \<and> plan_pending n specs = []
      then (map_option ConntrackFailed dependency, n1, w1)
      else case retire_pending io admission p (n1\<lparr>bk_pending := plan_pending n specs\<rparr>) w1 of
                (Some e, n2, w2) \<Rightarrow> (Some e, n2, w2)
              | (None, n2, w2) \<Rightarrow> install_next io admission dependency p n2 w2) = (None, n', w')"
    using assms short c a unfolding reconcile_def Let_def p_def nxt_def n1_def dependency_def by simp
  have go: "\<not> (dependency \<noteq> None \<and> owned_history n = [] \<and> plan_pending n specs = [])" using run by auto
  obtain q n2 w2 where t: "retire_pending io admission p (n1\<lparr>bk_pending := plan_pending n specs\<rparr>) w1 = (q, n2, w2)"
    by (metis prod_cases3)
  have q: "q = None" using run t go by (cases q) auto
  then have i: "install_next io admission dependency p n2 w2 = (None, n', w')" using run t unfolding if_not_P[OF go] by simp
  obtain z n3 w3 where o: "replaceObjects io (rc_next p) [] (specsUseFlowtable (rc_next p)) (rc_suspended p) n2 w2 = (z, n3, w3)"
    by (metis prod_cases3)
  have z: "z = None" using i o by (cases z) (auto simp: install_next_def)
  then have none: "admission = None" "dependency = None" "w3 = w'" using i o by (auto simp: install_next_def split: if_split_asm)
  then have p: "rc_next p = specs" "rc_suspended p = []" "rc_pending p = plan_pending n specs" "n1 = n"
    by (simp_all add: p_def nxt_def plan_next_def plan_suspended_def n1_def evict_acceleration_def)
  have gated: "if plan_pending n specs = [] then n2 = n\<lparr>bk_pending := []\<rparr> \<and> w2 = w1
       else gated_and_revoked io specs (plan_pending n specs) (n\<lparr>bk_pending := plan_pending n specs\<rparr>) w1 n2 w2"
    using t q none(1) p retire_pending_order[of io p "n\<lparr>bk_pending := plan_pending n specs\<rparr>" w1 n2 w2]
    by (auto simp: retire_pending_def)
  show ?thesis
    by (intro exI conjI) (use c a none o z p gated in auto)
qed

section \<open>Paths that are forgotten\<close>

text \<open>A rule whose acceleration is turned on while a foreign hook rejects it is neither installed nor suspended.\<close>

definition plain_path :: nft_spec where
  "plain_path =
     \<lparr>RuleID = ''a'', Family = 4, ListenHost = ipv4_unspecified, ListenPort = 8000, ListenPortEnd = 8000,
      TargetHost = IP4 0xC6336407, TargetPort = 9000, TargetPortEnd = 9000, Protocol = ''tcp'',
      ConntrackMark = 0x50420001, EnableFlowtable = False,
      ruleIdentity = ''0123456789abcdef0123456789abcdef0123456789abcdef0123456789abcdef''\<rparr>"

definition fast_path :: nft_spec where
  "fast_path = plain_path\<lparr>EnableFlowtable := True\<rparr>"

definition rejecting :: admission_error where
  "rejecting = \<lparr>ad_families = 3, ad_inspection = False, ad_permitted = []\<rparr>"

definition remembering :: "nft_spec list \<Rightarrow> nft_spec list \<Rightarrow> backend" where
  "remembering active suspended =
     (newCommandNFTBackend True)\<lparr>bk_active := active, bk_suspended := suspended, bk_recovered := True\<rparr>"

lemma remembering_simps [simp]:
  "bk_active (remembering a s) = a" "bk_suspended (remembering a s) = s" "bk_pending (remembering a s) = []"
  by (simp_all add: remembering_def newCommandNFTBackend_def)

lemma path_ok: "spec_ok plain_path" "spec_ok fast_path"
  by code_simp+

lemma plain_retired: "retiredNFTSpecs [plain_path] [fast_path] = []"
  by code_simp

lemma plain_unique: "uniqueNFTSpecs [[plain_path], []] = [plain_path]" "uniqueNFTSpecs [[], []] = []"
  by code_simp+

lemma plain_gated: "list_all (\<lambda>s. \<not> affects rejecting s) (gateNFTReplacements [plain_path] [])"
  by code_simp

lemma accelerated_path_forgotten:
  "plan_pending (remembering [plain_path] []) [fast_path] = []"
  "plan_next (Some rejecting) [fast_path] = []"
  "plan_suspended (Some rejecting) (remembering [plain_path] []) [fast_path] = []"
proof -
  have h: "owned_history (remembering [plain_path] []) = [plain_path]" by (simp add: owned_history_def plain_unique)
  show "plan_pending (remembering [plain_path] []) [fast_path] = []"
    by (simp add: plan_pending_def h plain_retired plain_unique)
  show "plan_next (Some rejecting) [fast_path] = []" by code_simp
  show "plan_suspended (Some rejecting) (remembering [plain_path] []) [fast_path] = []"
    using plain_gated by (auto simp: plan_suspended_def h plain_retired filter_empty_conv list_all_iff)
qed

lemma empty_plan_result:
  assumes "replace_planned io present p n w = (None, n', w')" and "\<not> op_refresh p" and "plan_empty p"
  shows "memory n' = ([], [], [])"
proof (cases "\<not> present \<and> plan_empty p \<and> bk_diskSession n = None")
  case True
  then show ?thesis using assms by (auto simp: replace_planned_def)
next
  case False
  obtain r n1 w1 where i: "persist_intent io p n w = (r, n1, w1)" by (metis prod_cases3)
  then obtain p1 b where r: "r = Inr (p1, b)"
    using assms(1,2) False by (cases r) (auto simp: replace_planned_def)
  have run: "(if plan_empty p1 then withdraw io present b n1 w1 else install io present p1 b n1 w1) = (None, n', w')"
    using assms(1,2) False i r by (simp add: replace_planned_def)
  then have "b" using withdraw_views[of io present b n1 w1 None n' w'] install_views[of io present p1 b n1 w1 None n' w']
    by (auto split: if_splits)
  then have "plan_empty p1" using persist_intent_views[OF i] r assms(3) by simp
  with run withdraw_views[of io present b n1 w1 None n' w'] show ?thesis by simp
qed

lemma empty_replacement:
  assumes "replaceObjects io [] [] False [] n w = (None, n', w')" and "\<not> bk_initialized n"
  shows "memory n' = ([], [], [])"
proof -
  have flow: "specsUseFlowtable [] = False" by (simp add: specsUseFlowtable_def)
  have u: "uniqueNFTSpecs [[], [], []] = []" by (simp add: uniqueNFTSpecs_def)
  from assms obtain present v w2 where
    "replace_planned io present \<lparr>op_specs = [], op_retired = [], op_suspended = [], op_keep = False, op_topology = Inr [],
       op_refresh = False\<rparr> (n\<lparr>bk_topologyReady := v\<rparr>) w2 = (None, n', w')"
    unfolding replaceObjects_def
    by (auto simp: flow u topologyForFlowtable_def Let_def split: prod.splits sum.splits if_split_asm)
  from empty_plan_result[OF this] show ?thesis by (simp add: plan_empty_def)
qed

text \<open>A rejection is no error of the replacement itself.\<close>

lemma never_refuses:
  "fst (confirm_empty persisted io n w) \<noteq> Some AdmissionRefused"
  "fst (confirm_installed io seen p persisted n w) \<noteq> Some AdmissionRefused"
  by (auto simp: confirm_empty_def confirm_installed_def Let_def split: option.splits prod.splits)

lemma stages_never_refuse:
  "fst (withdraw io present persisted n w) \<noteq> Some AdmissionRefused"
  "fst (install io present p persisted n w) \<noteq> Some AdmissionRefused"
  "fst (persist_intent io p n w) \<noteq> Inl AdmissionRefused"
  by (auto simp: never_refuses withdraw_def install_def persist_intent_def Let_def simp del: join.simps
      split: option.splits prod.splits sum.splits if_splits)

lemma planned_never_refuses: "fst (replace_planned io present p n w) \<noteq> Some AdmissionRefused"
proof -
  obtain r n1 w1 where i: "persist_intent io p n w = (r, n1, w1)" by (metis prod_cases3)
  have "r \<noteq> Inl AdmissionRefused" using stages_never_refuse(3)[of io p n w] i by simp
  then show ?thesis using i by (auto simp: replace_planned_def stages_never_refuse(1,2) split: sum.splits)
qed

lemma replaceObjects_never_refuses: "fst (replaceObjects io [] [] False [] n w) \<noteq> Some AdmissionRefused"
proof -
  have flow: "specsUseFlowtable [] = False" by (simp add: specsUseFlowtable_def)
  have u: "uniqueNFTSpecs [[], [], []] = []" by (simp add: uniqueNFTSpecs_def)
  show ?thesis unfolding replaceObjects_def
    by (auto simp: planned_never_refuses flow u topologyForFlowtable_def Let_def split: prod.splits sum.splits)
qed

text \<open>
  So the replacement withdraws the path and forgets it, without revoking its connections: the only error is the
  rejection itself.
\<close>

lemma accelerated_path_lost:
  assumes "check_admission io [fast_path] w = (Inr (Some rejecting), w1)" and "io_available (nx_conntrack io) w1 = None"
    and "reconcile io [fast_path] (remembering [plain_path] []) w = (Some AdmissionRefused, n', w')"
  shows "memory n' = ([], [], [])"
proof -
  let ?n = "remembering [plain_path] []"
  note plan = accelerated_path_forgotten
  define n1 where "n1 = (evict_acceleration (Some rejecting) [fast_path] ?n)\<lparr>bk_pending := []\<rparr>"
  have broken: "\<not> bk_initialized n1"
    by (simp add: n1_def evict_acceleration_def remembering_def newCommandNFTBackend_def)
  have flow: "specsUseFlowtable [] = False" by (simp add: specsUseFlowtable_def)
  have run: "install_next io (Some rejecting) None \<lparr>rc_pending = [], rc_next = [], rc_suspended = []\<rparr> n1 w1
      = (Some AdmissionRefused, n', w')"
    using assms plan by (simp add: reconcile_def Let_def retire_pending_def n1_def)
  obtain r n2 w2 where o: "replaceObjects io [] [] False [] n1 w1 = (r, n2, w2)" by (metis prod_cases3)
  show ?thesis
  proof (cases r)
    case None
    have "memory n2 = ([], [], [])" by (rule empty_replacement[OF o[unfolded None] broken])
    with run o None flow show ?thesis by (auto simp: install_next_def memory_def)
  next
    case (Some x)
    have "x \<noteq> AdmissionRefused" using o Some replaceObjects_never_refuses[of io n1 w1] by auto
    with run o Some flow show ?thesis by (auto simp: install_next_def)
  qed
qed

text \<open>A suspended path that is desired again is dropped by the fallback of a failed intent.\<close>

definition other_path :: nft_spec where
  "other_path = plain_path\<lparr>ListenPort := 81, ListenPortEnd := 81, TargetPort := 82, TargetPortEnd := 82\<rparr>"

lemma suspended_path_forgotten:
  assumes "op_specs p = [fast_path, other_path]" and "op_retired p = []" and "op_suspended p = []"
  shows "tuple_at fast_path 8000 \<notin> tuples (op_specs (fallback_plan (remembering [other_path] [fast_path]) p))
    \<and> op_retired (fallback_plan (remembering [other_path] [fast_path]) p) = []
    \<and> op_suspended (fallback_plan (remembering [other_path] [fast_path]) p) = []"
proof -
  have ret: "retiredNFTSpecs [other_path] [other_path] = []" "retiredNFTSpecs [fast_path] [] = [fast_path]"
    "uniqueNFTSpecs [[], [], []] = []" "uniqueNFTSpecs [[other_path]] = [other_path]" by code_simp+
  have gated: "gateNFTReplacements [fast_path] [fast_path] = []" "gateNFTReplacements [other_path] [] = [other_path]" by code_simp+
  have plain: "filter (\<lambda>old. \<not> EnableFlowtable fast_path \<or> EnableFlowtable old) [other_path] = []"
    "filter (\<lambda>old. \<not> EnableFlowtable other_path \<or> EnableFlowtable old) [other_path] = [other_path]"
    by (simp_all add: fast_path_def other_path_def plain_path_def)
  have prev: "previouslyAdmittedNFT [fast_path, other_path] [other_path] = [other_path]"
    by (simp only: previouslyAdmittedNFT_def list.map plain Let_def ret gated concat.simps append.simps)
  have gate: "gateNFTReplacements [] ps = []" for ps by (simp add: gateNFTReplacements_def)
  have "tuple_at fast_path 8000 \<notin> spec_tuples other_path"
    by (auto simp: tuple_in_spec tuple_at_def fast_path_def other_path_def plain_path_def nftLastPort_def)
  then show ?thesis by (simp add: fallback_plan_def Let_def assms prev ret gate)
qed

end
