(* ===== verification/Nft_Backend_Reach.thy ===== *)
theory Nft_Backend_Reach
  imports Nft_Backend_Writes
begin

text \<open>
  Every state the backend can get into: whatever sequence of replacements, deletions, health checks and changes of
  the mark the program makes, and whatever the tools answer in between.
\<close>

text \<open>The store hands out only records that passed the checks of \<^verbatim>\<open>readNamed\<close>.\<close>

definition store_sound :: "'w nft_io \<Rightarrow> bool" where
  "store_sound io \<longleftrightarrow>
     (\<forall>b owner w s w' r. nx_begin io = Some b \<longrightarrow> b owner w = (Some s, w') \<longrightarrow> sn_record s = Some r \<longrightarrow> record_ok owner 1 r)"

section \<open>Operations keep the memory well formed\<close>

lemma refresh_ok: "memory_ok n \<Longrightarrow> memory_ok (refreshMissingExecutables io n w)"
  by (simp add: refreshMissingExecutables_def)

lemma verify_empty_ok:
  "verifyCLIIndependentEmpty io n w = (e, n', w') \<Longrightarrow> memory_ok n \<Longrightarrow> memory_ok n'"
  using clear_memory_ok[of "n\<lparr>bk_cleanVerified := False\<rparr>"]
  by (auto simp: verifyCLIIndependentEmpty_def Let_def split: option.splits prod.splits if_splits)

lemma open_session_ok: "memory_ok n \<Longrightarrow> session_ok s \<Longrightarrow> memory_ok (open_session s n)"
  by (simp add: open_session_def Let_def memory_ok_def clearAppliedState_def)

lemma close_session_ok: "memory_ok n \<Longrightarrow> memory_ok (n\<lparr>bk_diskSession := None\<rparr>)"
  by (simp add: memory_ok_def)

text \<open>The two ways through \<^verbatim>\<open>Replace\<close>.\<close>

lemma Replace_cases:
  assumes "Replace io specs n w = (e, n', w')"
  defines "n0 \<equiv> refreshMissingExecutables io n w"
  obtains (stop) "n' = n0 \<and> w' = w \<and> e = Some ConfigChanged"
    | (clean) "specs = []" "verifyCLIIndependentEmpty io n0 w = (e, n', w')"
    | (plain) "nx_begin io = None" "recover_and_reconcile io specs (n0\<lparr>bk_cleanVerified := False\<rparr>) w = (e, n', w')"
    | (closed) b where "nx_begin io = Some b" "b (bk_ownerMarker n0) w = (None, w')"
        "n' = n0\<lparr>bk_cleanVerified := False, bk_initialized := False, bk_unknownState := True\<rparr> \<and> e = Some StoreFailed"
    | (stored) b session w1 n2 where "nx_begin io = Some b" "b (bk_ownerMarker n0) w = (Some session, w1)"
        "recover_and_reconcile io specs (open_session session (n0\<lparr>bk_cleanVerified := False\<rparr>)) w1 = (e, n2, w')"
        "n' = n2\<lparr>bk_diskSession := None\<rparr>"
proof -
  consider "bk_configErr n0 \<and> specs \<noteq> []" | "\<not> (bk_configErr n0 \<and> specs \<noteq> [])" "bk_initErr n0 \<and> specs = []"
    | "\<not> (bk_configErr n0 \<and> specs \<noteq> [])" "\<not> (bk_initErr n0 \<and> specs = [])" by blast
  then show thesis
  proof cases
    case 1
    then show thesis using assms(1) stop by (auto simp: Replace_def Let_def n0_def[symmetric])
  next
    case 2
    then show thesis using assms(1) clean by (auto simp: Replace_def Let_def n0_def[symmetric])
  next
    case 3
    let ?n1 = "n0\<lparr>bk_cleanVerified := False\<rparr>"
    have run: "(case nx_begin io of
          None \<Rightarrow> recover_and_reconcile io specs ?n1 w
        | Some begin_session \<Rightarrow>
            (case begin_session (bk_ownerMarker ?n1) w of
               (None, w1) \<Rightarrow> (Some StoreFailed, ?n1\<lparr>bk_initialized := False, bk_unknownState := True\<rparr>, w1)
             | (Some session, w1) \<Rightarrow>
                 let (e, n2, w2) = recover_and_reconcile io specs (open_session session ?n1) w1 in
                 (e, n2\<lparr>bk_diskSession := None\<rparr>, w2))) = (e, n', w')"
      using assms(1) unfolding Replace_def Let_def n0_def[symmetric] if_not_P[OF 3(1)] if_not_P[OF 3(2)] .
    show thesis
    proof (cases "nx_begin io")
      case None
      with run plain show thesis by simp
    next
      case (Some b)
      obtain r w1 where b: "b (bk_ownerMarker n0) w = (r, w1)" by fastforce
      show thesis
      proof (cases r)
        case None
        with run Some b closed show thesis by simp
      next
        case session: (Some session)
        obtain q n2 w2 where k: "recover_and_reconcile io specs (open_session session ?n1) w1 = (q, n2, w2)" by (metis prod_cases3)
        show thesis using stored[OF Some b[unfolded session], of n2] run Some b session k by simp
      qed
    qed
  qed
qed

context nft_kernel
begin

lemma verify_empty_sent: "verifyCLIIndependentEmpty io n w = (e, n', w') \<Longrightarrow> sent w' = sent w"
  by (auto simp: verifyCLIIndependentEmpty_def Let_def split: option.splits prod.splits if_splits
      dest!: existing_sent dest: probe_sent)

lemma Replace_sends:
  assumes "Replace io specs n w = (e, n', w')" and "memory_ok n" and "specs_ok specs" and "store_sound io"
  shows "memory_ok n' \<and> sends w w'"
proof -
  let ?n0 = "refreshMissingExecutables io n w"
  have m0: "memory_ok ?n0" using refresh_ok[OF assms(2)] .
  from assms(1) show ?thesis
  proof (cases rule: Replace_cases)
    case stop
    with m0 sends_same[of w w] show ?thesis by simp
  next
    case clean
    with verify_empty_ok[OF clean(2) m0] sends_same[OF verify_empty_sent[OF clean(2)]] show ?thesis by simp
  next
    case plain
    with recover_and_reconcile_sends[OF plain(2) _ assms(3)] m0 show ?thesis by simp
  next
    case (closed b)
    with m0 sends_same[OF begin_sent[OF closed(1,2)]] show ?thesis by simp
  next
    case (stored b session w1 n2)
    have "session_ok session"
      using assms(4) stored(1,2) by (intro record_ok_session[of _ "bk_ownerMarker ?n0"]) (auto simp: store_sound_def)
    then have "memory_ok (open_session session (?n0\<lparr>bk_cleanVerified := False\<rparr>))" using m0 by (intro open_session_ok) simp_all
    from recover_and_reconcile_sends[OF stored(3) this assms(3)] sends_trans[OF sends_same[OF begin_sent[OF stored(1,2)]]]
    show ?thesis using stored(4) close_session_ok[of n2] by blast
  qed
qed

end

section \<open>Health checks\<close>

lemma healthy_table_views:
  assumes "healthy_table io specs state n w = (r, n', w')"
  shows "settings n' = settings n \<and> memory n' = memory n \<and> applied_view n' = applied_view n
    \<and> bk_initialized n' = bk_initialized n \<and> bk_diskSession n' = bk_diskSession n
    \<and> (r = Inr True \<longrightarrow> bk_recovered n \<and> bk_pending n = [] \<and> bk_suspended n = [] \<and> \<not> bk_unknownState n
        \<and> (if specs = [] then \<not> ob_exists state
           else ob_exists state \<and> bk_initialized n \<and> bk_appliedActiveKey n = nftSpecsKey specs
                \<and> bk_fingerprint n = ob_fingerprint state))"
proof (cases "\<not> bk_recovered n \<or> bk_pending n \<noteq> [] \<or> bk_suspended n \<noteq> [] \<or> bk_unknownState n")
  case True
  then show ?thesis using assms unfolding healthy_table_def if_P[OF True] by auto
next
  case ready: False
  show ?thesis
  proof (cases "specs = []")
  case True
  then show ?thesis using assms ready unfolding healthy_table_def if_not_P[OF ready] by auto
next
  case False
  obtain t n1 w1 where t: "topologyForFlowtable io (specsUseFlowtable specs) n w = (t, n1, w1)" by (metis prod_cases3)
  note v = topology_views[OF t]
  have f: "bk_appliedActiveKey n1 = bk_appliedActiveKey n" "bk_fingerprint n1 = bk_fingerprint n" "bk_initialized n1 = bk_initialized n"
    using v by (simp_all add: applied_view_def)
  show ?thesis
  proof (cases t)
    case (Inl x)
    then show ?thesis using assms False t v unfolding healthy_table_def if_not_P[OF ready] by auto
  next
    case (Inr x)
    then show ?thesis using assms False t v f ready unfolding healthy_table_def if_not_P[OF ready] by (auto simp: Let_def)
  qed
  qed
qed

text \<open>
  What a positive answer means: nothing is pending, suspended or unknown, and the table read just now has the
  fingerprint of a table that matched a plan with exactly these active rules.
\<close>

definition serving :: "'w nft_io \<Rightarrow> 'w \<Rightarrow> nft_spec list \<Rightarrow> backend \<Rightarrow> bool" where
  "serving io w specs n \<longleftrightarrow>
     bk_pending n = [] \<and> bk_suspended n = [] \<and> \<not> bk_unknownState n
     \<and> (specs \<noteq> [] \<longrightarrow> (\<exists>state w1. observe io (bk_ownerMarker n) w = (Inr state, w1) \<and> ob_exists state \<and> ob_owned state
          \<and> (\<exists>objects specs' st t owner. state_matches objects specs' (topology_names t) owner st
               \<and> nftSpecsKey specs' = nftSpecsKey specs \<and> ob_fingerprint state = nftObjectsFingerprint objects)))"

theorem Healthy_views:
  assumes "Healthy io specs n w = (r, n', w')"
  shows "(described n \<longrightarrow> described n') \<and> (memory_ok n \<longrightarrow> memory_ok n') \<and> (described n \<longrightarrow> r = Inr True \<longrightarrow> serving io w specs n')"
proof -
  define n0 where "n0 = refreshMissingExecutables io n w"
  have d0: "described n \<longrightarrow> described n0" "memory_ok n \<longrightarrow> memory_ok n0"
    using refresh_described refresh_ok by (auto simp: n0_def)
  define n1 where "n1 = n0\<lparr>bk_cleanVerified := False\<rparr>"
  have d1: "described n \<longrightarrow> described n1" "memory_ok n \<longrightarrow> memory_ok n1" using d0 by (simp_all add: n1_def)
  consider "bk_configErr n0" | "\<not> bk_configErr n0" "bk_initErr n0 \<and> specs = []"
    | "\<not> bk_configErr n0" "\<not> (bk_initErr n0 \<and> specs = [])" by blast
  then show ?thesis
  proof cases
    case 1
    then show ?thesis using assms d0 by (auto simp: Healthy_def Let_def n0_def[symmetric])
  next
    case 2
    obtain e n2 w2 where v: "verifyCLIIndependentEmpty io n0 w = (e, n2, w2)" by (metis prod_cases3)
    have k: "described n \<longrightarrow> described n2 \<and> (e = None \<longrightarrow> settled [] n2)" "memory_ok n \<longrightarrow> memory_ok n2"
      using verifyCLIIndependentEmpty_views[OF v] verify_empty_ok[OF v] d0 by auto
    have "e = None \<Longrightarrow> bk_suspended n2 = []" using v
      by (auto simp: verifyCLIIndependentEmpty_def Let_def clearAppliedState_def split: option.splits prod.splits if_splits)
    then show ?thesis using assms 2 v k d0
      by (auto simp: Healthy_def Let_def n0_def[symmetric] serving_def settled_def split: if_splits option.splits)
  next
    case 3
    obtain o' w1 where o: "observe io (bk_ownerMarker n1) w = (o', w1)" by fastforce
    define rest where "rest state = (case check_admission io specs w1 of
              (Inl e, w2) \<Rightarrow> (Inl e, n1\<lparr>bk_unknownState := True\<rparr>, w2)
            | (Inr (Some _), w2) \<Rightarrow> (Inl AdmissionRefused, n1, w2)
            | (Inr None, w2) \<Rightarrow> healthy_table io specs state n1 w2)" for state
    have run: "(case o' of
          Inl e \<Rightarrow> (Inl (ObserveFailed e), n1\<lparr>bk_unknownState := True\<rparr>, w1)
        | Inr state \<Rightarrow>
            if ob_exists state \<and> \<not> ob_owned state then (Inl ForeignTable, n1\<lparr>bk_unknownState := True\<rparr>, w1) else rest state)
        = (r, n', w')"
      using assms o unfolding Healthy_def Let_def n0_def[symmetric] n1_def[symmetric] if_not_P[OF 3(1)] if_not_P[OF 3(2)] rest_def
      by (cases o') simp_all
    show ?thesis
    proof (cases "\<exists>state. o' = Inr state \<and> \<not> (ob_exists state \<and> \<not> ob_owned state)")
      case False
      then show ?thesis using run d1 by (auto split: sum.splits if_split_asm)
    next
      case True
      then obtain state where st: "o' = Inr state" "rest state = (r, n', w')"
        and True0: "\<not> (ob_exists state \<and> \<not> ob_owned state)" using run by (auto split: if_split_asm)
      obtain a w2 where c: "check_admission io specs w1 = (a, w2)" by fastforce
      show ?thesis
      proof (cases "a = Inr None")
        case False
        then show ?thesis using st(2) c d1 by (auto simp: rest_def split: sum.splits option.splits)
      next
        case True
        then have h: "healthy_table io specs state n1 w2 = (r, n', w')" using st(2) c by (simp add: rest_def)
        note v = healthy_table_views[OF h]
        have dd: "described n1 \<longrightarrow> described n'" using v described_same[of n1 n'] by simp
        have mm: "memory_ok n1 \<longrightarrow> memory_ok n'" using v memory_ok_views[of n1 n'] by blast
        have "serving io w specs n'" if "described n" "r = Inr True"
        proof -
          have mem: "bk_pending n' = []" "bk_suspended n' = []" "\<not> bk_unknownState n'"
            using v that(2) by (auto simp: memory_def settings_def)
          have owner: "bk_ownerMarker n' = bk_ownerMarker n1" using v by (simp add: settings_def)
          have "\<exists>objects specs' st t owner. state_matches objects specs' (topology_names t) owner st
              \<and> nftSpecsKey specs' = nftSpecsKey specs \<and> ob_fingerprint state = nftObjectsFingerprint objects"
            and "ob_exists state" if "specs \<noteq> []"
          proof -
            have f: "bk_initialized n1" "bk_appliedActiveKey n1 = nftSpecsKey specs" "ob_exists state"
              "bk_fingerprint n1 = ob_fingerprint state"
              using v \<open>r = Inr True\<close> that by auto
            then show "ob_exists state" by blast
            have "verified n1" using d1 \<open>described n\<close> f(1) by (simp add: described_def)
            then show "\<exists>objects specs' st t owner. state_matches objects specs' (topology_names t) owner st
              \<and> nftSpecsKey specs' = nftSpecsKey specs \<and> ob_fingerprint state = nftObjectsFingerprint objects"
              using f(2,4) unfolding verified_def by metis
          qed
          moreover have "observe io (bk_ownerMarker n') w = (Inr state, w1)" using o st(1) owner by simp
          moreover have "ob_exists state \<Longrightarrow> ob_owned state" using True0 st by blast
          ultimately show ?thesis using mem by (auto simp: serving_def)
        qed
        then show ?thesis using dd mm d1 by blast
      qed
    qed
  qed
qed

section \<open>Reachable states\<close>

inductive backend_reach :: "'w nft_io \<Rightarrow> backend \<Rightarrow> bool" for io where
  start: "backend_reach io (newCommandNFTBackend found)"
| config: "backend_reach io n \<Longrightarrow> backend_reach io (setConfig mark n)"
| replace: "backend_reach io n \<Longrightarrow> specs_ok specs \<Longrightarrow> Replace io specs n w = (e, n', w') \<Longrightarrow> backend_reach io n'"
| health: "backend_reach io n \<Longrightarrow> Healthy io specs n w = (r, n', w') \<Longrightarrow> backend_reach io n'"
| topology: "backend_reach io n \<Longrightarrow> TopologyKey io n w = (k, n', w') \<Longrightarrow> backend_reach io n'"

lemma start_ok: "described (newCommandNFTBackend found)" "memory_ok (newCommandNFTBackend found)"
  by (simp_all add: newCommandNFTBackend_def described_def memory_ok_def)

lemma config_ok: "described (setConfig mark n) = described n" "memory_ok (setConfig mark n) = memory_ok n"
  by (simp_all add: setConfig_def Let_def)

lemma topology_key_ok:
  "TopologyKey io n w = (k, n', w') \<Longrightarrow> described n' = described n \<and> memory_ok n' = memory_ok n"
  by (auto simp: TopologyKey_def Let_def split: if_splits prod.splits)

theorem backend_reach_described: "backend_reach io n \<Longrightarrow> described n"
proof (induction rule: backend_reach.induct)
  case (start found)
  show ?case by (rule start_ok(1))
next
  case (config n mark)
  then show ?case by (simp only: config_ok)
next
  case (replace n specs w e n' w')
  show ?case using Replace_views[OF replace.hyps(3) replace.IH] by simp
next
  case (health n specs w r n' w')
  show ?case using Healthy_views[OF health.hyps(2)] health.IH by simp
next
  case (topology n w k n' w')
  show ?case using topology_key_ok[OF topology.hyps(2)] topology.IH by simp
qed

section \<open>Recording\<close>

text \<open>Any tools, with a record of the transactions beside the world.\<close>

definition with_log :: "('w \<Rightarrow> 'a \<times> 'w) \<Rightarrow> 'w \<times> string list \<Rightarrow> 'a \<times> 'w \<times> string list" where
  "with_log f s = (let (a, w) = f (fst s) in (a, w, snd s))"

definition recorded :: "'w nft_io \<Rightarrow> ('w \<times> string list) nft_io" where
  "recorded io =
     \<lparr>nx_tables = with_log (nx_tables io), nx_table = with_log (nx_table io), nx_chains = with_log (nx_chains io),
      nx_apply = (\<lambda>script s. let (ok, w) = nx_apply io script (fst s) in (ok, w, snd s @ [script])),
      nx_interfaces = with_log (nx_interfaces io), nx_selective = nx_selective io \<circ> fst,
      nx_conntrack = \<lparr>io_available = io_available (nx_conntrack io) \<circ> fst, io_expired = io_expired (nx_conntrack io) \<circ> fst,
                      io_list = (\<lambda>spec. with_log (io_list (nx_conntrack io) spec)),
                      io_delete = (\<lambda>es. with_log (io_delete (nx_conntrack io) es))\<rparr>,
      nx_owned = (\<lambda>mark. with_log (nx_owned io mark)),
      nx_begin = map_option (\<lambda>b owner. with_log (b owner)) (nx_begin io),
      nx_existing = (\<lambda>owner. with_log (nx_existing io owner)),
      nx_writer = (\<lambda>r. with_log (nx_writer io r)), nx_random = with_log (nx_random io),
      nx_cleanProbe = map_option with_log (nx_cleanProbe io), nx_toolFound = nx_toolFound io \<circ> fst\<rparr>"

lemma with_log_keeps: "with_log f s = (a, s') \<Longrightarrow> snd s' = snd s"
  by (auto simp: with_log_def split: prod.splits)

interpretation rec: nft_kernel "recorded io" snd for io :: "'w nft_io"
  by unfold_locales (auto simp: recorded_def dest: with_log_keeps split: prod.splits)

lemma recorded_store: "store_sound io \<Longrightarrow> store_sound (recorded io)"
proof -
  assume ok: "store_sound io"
  have "record_ok owner 1 r" if b: "nx_begin (recorded io) = Some b" "b owner s = (Some session, s')" and r: "sn_record session = Some r"
    for b owner s session s' r
  proof -
    from b(1) obtain b0 where b0: "nx_begin io = Some b0" "b = (\<lambda>owner. with_log (b0 owner))" by (auto simp: recorded_def)
    with b(2) have "b0 owner (fst s) = (Some session, fst s')" by (auto simp: with_log_def split: prod.splits)
    with ok b0(1) r show ?thesis unfolding store_sound_def by blast
  qed
  then show ?thesis unfolding store_sound_def by blast
qed

theorem Replace_recorded:
  assumes "Replace (recorded io) specs n (w, log) = (e, n', w', log')" and "memory_ok n" and "specs_ok specs"
    and "store_sound io"
  shows "memory_ok n' \<and> (\<exists>scripts. log' = log @ scripts \<and> list_all managed_script scripts)"
  using rec.Replace_sends[OF assms(1-3) recorded_store[OF assms(4)]] by (simp add: rec.sends_def)

section \<open>A foreign table\<close>

text \<open>Somebody else's table under the managed name, whenever it is looked at.\<close>

definition foreign_table :: "'w nft_io \<Rightarrow> string \<Rightarrow> bool" where
  "foreign_table io owner \<longleftrightarrow>
     (\<forall>w. \<exists>state w'. observe io owner w = (Inr state, w') \<and> ob_exists state \<and> \<not> ob_owned state)"

lemma recover_foreign:
  assumes "foreign_table io (bk_ownerMarker n)"
  shows "\<exists>w'. recoverKernelState io desired n w = (Some ForeignTable, n, w')"
proof -
  obtain state w' where "observe io (bk_ownerMarker n) w = (Inr state, w')" "ob_exists state" "\<not> ob_owned state"
    using assms unfolding foreign_table_def by blast
  then show ?thesis by (simp add: recoverKernelState_def)
qed

lemma kept_owner [simp]:
  "bk_ownerMarker (refreshMissingExecutables io n w) = bk_ownerMarker n"
  "bk_ownerMarker (open_session session n) = bk_ownerMarker n"
  by (simp_all add: refreshMissingExecutables_def open_session_def Let_def clearAppliedState_def)

lemma observe_recorded:
  "observe (recorded io) owner (w, log) = (case observe io owner w of (r, w') \<Rightarrow> (r, w', log))"
  by (auto simp: observe_def recorded_def with_log_def split: prod.splits option.splits)

lemma recorded_foreign:
  assumes "foreign_table io owner"
  shows "foreign_table (recorded io) owner"
  unfolding foreign_table_def
proof
  fix s :: "'a \<times> string list"
  obtain state w' where "observe io owner (fst s) = (Inr state, w')" "ob_exists state" "\<not> ob_owned state"
    using assms unfolding foreign_table_def by blast
  moreover from this(1) have "observe (recorded io) owner s = (Inr state, w', snd s)"
    using observe_recorded[of io owner "fst s" "snd s"] by simp
  ultimately show "\<exists>state s'. observe (recorded io) owner s = (Inr state, s') \<and> ob_exists state \<and> \<not> ob_owned state" by blast
qed

context nft_kernel
begin

lemma foreign_nothing_sent:
  assumes "Replace io specs n w = (e, n', w')" and "foreign_table io (bk_ownerMarker n)"
  shows "sent w' = sent w"
proof -
  have r: "sent w3 = sent w2" if "recover_and_reconcile io specs m w2 = (q, m', w3)" and "bk_ownerMarker m = bk_ownerMarker n"
    for m w2 q m' w3
  proof -
    have f: "foreign_table io (bk_ownerMarker m)" using assms(2) that(2) by simp
    obtain w4 where k: "recoverKernelState io specs m w2 = (Some ForeignTable, m, w4)" using recover_foreign[OF f] by blast
    with that(1) have "w3 = w4" by (simp add: recover_and_reconcile_def)
    with recover_sent[OF k] show ?thesis by simp
  qed
  from assms(1) show ?thesis
  proof (cases rule: Replace_cases)
    case stop
    then show ?thesis by simp
  next
    case clean
    then show ?thesis using verify_empty_sent by blast
  next
    case plain
    then show ?thesis using r by simp
  next
    case (closed b)
    then show ?thesis using begin_sent by blast
  next
    case (stored b session w1 n2)
    then show ?thesis using begin_sent[OF stored(1,2)] r by simp
  qed
qed

end

theorem foreign_untouched:
  assumes "Replace (recorded io) specs n (w, log) = (e, n', w', log')" and "foreign_table io (bk_ownerMarker n)"
  shows "log' = log"
  using rec.foreign_nothing_sent[OF assms(1) recorded_foreign[OF assms(2)]] by simp

end
