(* ===== verification/Nft_Backend_Sample.thy ===== *)
theory Nft_Backend_Sample
  imports Nft_Backend_Plan Nft_Backend_Reach
begin

text \<open>
  A kernel with one table, for the instances: any transaction installs the objects of one plain path.  A replacement
  and a health check run against it.
\<close>

section \<open>The objects\<close>

definition sample_owner :: string where
  "sample_owner = nftOwnerMarker 0x50420001"

definition sample_base_chain :: "string \<Rightarrow> int \<Rightarrow> json" where
  "sample_base_chain hook priority =
     JObj [(''chain'', JObj [(''family'', JStr ''inet''), (''table'', JStr nftTableName), (''name'', JStr hook),
       (''type'', JStr (if hook = ''forward'' then ''filter'' else ''nat'')), (''hook'', JStr hook),
       (''prio'', jint priority), (''policy'', JStr ''accept'')])]"

definition sample_objects :: "json list" where
  "sample_objects =
     [JObj [(''table'', JObj [(''family'', JStr ''inet''), (''name'', JStr nftTableName), (''comment'', JStr sample_owner)])],
      sample_base_chain ''prerouting'' (- 100), sample_base_chain ''output'' (- 100),
      sample_base_chain ''postrouting'' 100, sample_base_chain ''forward'' nftForwardPriority,
      JObj [(''chain'', JObj [(''family'', JStr ''inet''), (''table'', JStr nftTableName), (''name'', JStr nftStateChainName)])]]
     @ map (\<lambda>h. JObj [(''rule'', nftExpectedRule plain_path h)]) nft_hooks
     @ [JObj [(''rule'', nftExpectedJournalRule plain_path False)]]"

abbreviation sample_state :: render_state where
  "sample_state \<equiv> \<lparr>rs_retired = [], rs_suspended = [], rs_binding = [], rs_keepFlowtable = False\<rparr>"

lemma expected_objects [simp]:
  "is_object (JObj m)" "is_object (nftExpectedRule s h)" "is_object (nftExpectedJournalRule s b)"
  by (simp_all add: nftExpectedRule_def nftExpectedJournalRule_def nftExpectedJournalRole_def is_object_def nft_rule_def Let_def)

lemma plain_flow [simp]: "specsUseFlowtable [plain_path] = False" "specsUseFlowtable [] = False"
  by (simp_all add: specsUseFlowtable_def plain_path_def)

lemma sample_matches: "state_matches sample_objects [plain_path] [] sample_owner sample_state"
  unfolding state_matches_def
  by (simp add: sample_objects_def sample_base_chain_def single_object_def chain_matches_def chain_name_def
      text_of_def expected_chains_def any_specs_def prints_as_def descriptors_def map_filter_simps tableDescriptor_def
      jobject_def wanted_rules_def)

lemma sample_table_valid: "validateNFTState sample_objects [plain_path] [] sample_owner sample_state = None"
  using sample_matches by (simp add: validateNFTState_exact)

section \<open>The tools\<close>

text \<open>The world is whether the table is there; a transaction installs or removes it.\<close>

definition sample_io :: "bool nft_io" where
  "sample_io =
     \<lparr>nx_tables = (\<lambda>w. (Some (if w then [hd sample_objects] else []), w)), nx_table = (\<lambda>w. (Some sample_objects, w)),
      nx_chains = (\<lambda>w. (Some [], w)), nx_apply = (\<lambda>script w. (True, \<not> w)), nx_interfaces = (\<lambda>w. (Inr [], w)),
      nx_selective = (\<lambda>w. None),
      nx_conntrack = \<lparr>io_available = (\<lambda>w. None), io_expired = (\<lambda>w. False), io_list = (\<lambda>s w. (Inr [], w)),
                      io_delete = (\<lambda>es w. (None, w))\<rparr>,
      nx_owned = (\<lambda>mark w. (Inr [], w)), nx_begin = None, nx_existing = (\<lambda>owner w. (True, w)),
      nx_writer = (\<lambda>r w. (True, w)), nx_random = (\<lambda>w. (None, w)), nx_cleanProbe = None, nx_toolFound = (\<lambda>w. True)\<rparr>"

definition sample_seen :: observed_state where
  "sample_seen = \<lparr>ob_exists = True, ob_owned = True, ob_objects = sample_objects,
                  ob_fingerprint = nftObjectsFingerprint sample_objects\<rparr>"

lemma sample_store: "store_sound sample_io"
  by (simp add: store_sound_def sample_io_def)

lemma observe_absent: "observe (recorded sample_io) owner (False, log) = (Inr no_table, False, log)"
  by (simp add: observe_def recorded_def with_log_def sample_io_def listed_tables_def)

lemma sample_listing:
  "filter (\<lambda>x. jfield ''metainfo'' x = None) sample_objects = sample_objects"
  "filter (\<lambda>x. tableDescriptor x \<noteq> None) sample_objects = [hd sample_objects]"
  "tableDescriptor (hd sample_objects)
     = Some (JObj [(''family'', JStr ''inet''), (''name'', JStr nftTableName), (''comment'', JStr sample_owner)])"
  by (simp_all add: sample_objects_def sample_base_chain_def tableDescriptor_def jobject_def)

lemma sample_table: "table_state sample_owner sample_objects = Inr sample_seen"
  unfolding table_state_def Let_def sample_listing(1,2) by (simp add: sample_listing(3) sample_seen_def)

lemma observe_installed: "observe (recorded sample_io) sample_owner (True, log) = (Inr sample_seen, True, log)"
proof -
  have "listed_tables [hd sample_objects] = 1" by (simp add: listed_tables_def sample_listing(3))
  then show ?thesis by (simp add: observe_def recorded_def with_log_def sample_io_def sample_table)
qed

section \<open>A replacement and a health check\<close>

definition sample_start :: backend where
  "sample_start = newCommandNFTBackend True"

definition sample_recovered :: backend where
  "sample_recovered = sample_start\<lparr>bk_recovered := True\<rparr>"

definition sample_plan :: object_plan where
  "sample_plan = \<lparr>op_specs = [plain_path], op_retired = [], op_suspended = [], op_keep = False, op_topology = Inr [],
                  op_refresh = False\<rparr>"

definition sample_installed :: backend where
  "sample_installed = remember sample_seen sample_plan sample_recovered"

lemma sample_unique: "uniqueNFTSpecs [[plain_path], [], []] = [plain_path]" "uniqueNFTSpecs [[], []] = []" "uniqueNFTSpecs [[]] = []"
  "uniqueNFTSpecs [[], [], []] = []"
  by code_simp+

lemma sample_mark: "configuredMark sample_recovered = Some 0x50420001" "configuredMark sample_start = Some 0x50420001"
  "check_plan_spec sample_owner plain_path = None" "nftOwnerMarker DefaultNFTConntrackMark = sample_owner"
  by code_simp+

lemma sample_io_simps [simp]:
  "nx_interfaces (recorded sample_io) (b, log) = (Inr [], b, log)"
  "nx_apply (recorded sample_io) script (b, log) = (True, \<not> b, log @ [script])"
  "nx_begin (recorded sample_io) = None" "nx_toolFound (recorded sample_io) v = True"
  "io_available (nx_conntrack (recorded sample_io)) v = None"
  "nx_owned (recorded sample_io) mark (b, log) = (Inr [], b, log)"
  by (simp_all add: recorded_def with_log_def sample_io_def)

lemma sample_backend [simp]:
  "bk_ownerMarker sample_start = sample_owner" "bk_ownerMarker sample_recovered = sample_owner"
  "bk_ownerMarker sample_installed = sample_owner" "bk_diskSession sample_start = None"
  "bk_diskSession sample_recovered = None" "bk_active sample_start = []" "bk_pending sample_start = []"
  "bk_suspended sample_start = []" "bk_active sample_recovered = []" "bk_pending sample_recovered = []"
  "bk_suspended sample_recovered = []"
  by (simp_all add: sample_start_def sample_recovered_def sample_installed_def remember_def newCommandNFTBackend_def sample_mark)

lemma sample_recovery:
  "recoverKernelState (recorded sample_io) [plain_path] sample_start (False, log) = (None, sample_recovered, False, log)"
proof -
  have h: "remembered [plain_path] sample_start
      = \<lparr>hs_active = [], hs_pending = [], hs_suspended = [], hs_known = [plain_path]\<rparr>"
    by (simp add: remembered_def sample_unique)
  have a: "adopt_paths \<lparr>hs_active = [], hs_pending = [], hs_suspended = [], hs_known = [plain_path]\<rparr> False sample_start
      = sample_recovered"
    by (simp add: adopt_paths_def sample_recovered_def sample_start_def newCommandNFTBackend_def)
  show ?thesis
    by (simp add: recoverKernelState_def observe_absent unchanged_def add_table_paths_def add_record_paths_def h
        bind_session_def recover_paths_def resolve_history_def resolveNFTIdentities_def history_size_def
        attribute_connections_def sample_mark attributable_def a)
qed

definition sample_script :: string where
  "sample_script = install_script False sample_plan sample_recovered"

lemma sample_install:
  "install (recorded sample_io) False sample_plan True sample_recovered (False, log)
     = (None, sample_installed, True, log @ [sample_script])"
proof -
  have v: "validateNFTState (ob_objects sample_seen) (op_specs sample_plan) (topology_names (op_topology sample_plan))
      sample_owner (plan_state sample_recovered sample_plan) = None"
    using sample_table_valid by (simp add: sample_seen_def sample_plan_def plan_state_def topology_names_def sample_recovered_def
        sample_start_def newCommandNFTBackend_def)
  have k: "ob_exists sample_seen" "ob_owned sample_seen" by (simp_all add: sample_seen_def)
  have d: "bk_diskSession sample_installed = None" by (simp add: sample_installed_def)
  show ?thesis
    unfolding install_def sample_io_simps Let_def prod.case sample_backend not_False_eq_True observe_installed
    by (simp add: k v confirm_installed_def sample_installed_def[symmetric] d sample_script_def)
qed

lemma sample_replacement:
  "replaceObjects (recorded sample_io) [plain_path] [] False [] sample_recovered (False, log)
     = (None, sample_installed, True, log @ [sample_script])"
proof -
  have r: "sample_recovered\<lparr>bk_topologyReady := False\<rparr> = sample_recovered"
    by (simp add: sample_recovered_def sample_start_def newCommandNFTBackend_def)
  have p: "replace_planned (recorded sample_io) False sample_plan sample_recovered (False, log)
      = (None, sample_installed, True, log @ [sample_script])"
    by (simp add: replace_planned_def persist_intent_def plan_empty_def sample_install)
      (simp add: sample_plan_def)
  show ?thesis
    using p by (simp add: replaceObjects_def observe_absent sample_unique sample_mark topologyForFlowtable_def r Let_def
        decodeNFTJournal_def sample_plan_def)
qed

lemma sample_replace:
  "Replace (recorded sample_io) [plain_path] sample_start (False, log) = (None, sample_installed, True, log @ [sample_script])"
proof -
  have h: "owned_history sample_recovered = []" by (simp add: owned_history_def sample_unique)
  have pending: "plan_pending sample_recovered [plain_path] = []"
    by (simp add: plan_pending_def h retiredNFTSpecs_def sample_unique)
  have same: "sample_recovered\<lparr>bk_pending := []\<rparr> = sample_recovered"
    "sample_installed\<lparr>bk_pending := [], bk_unknownState := False, bk_policyFamilies := 0\<rparr> = sample_installed"
    by (simp_all add: sample_recovered_def sample_start_def newCommandNFTBackend_def sample_installed_def remember_def
        sample_plan_def)
  have c: "reconcile (recorded sample_io) [plain_path] sample_recovered (False, log)
      = (None, sample_installed, True, log @ [sample_script])"
    by (simp add: reconcile_def Let_def pending check_admission_def plan_suspended_def evict_acceleration_def h plan_next_def
        retire_pending_def install_next_def same sample_replacement policy_families_def)
  have s: "refreshMissingExecutables io sample_start v = sample_start" for io v
    by (simp add: refreshMissingExecutables_def sample_start_def newCommandNFTBackend_def)
  have f: "\<not> bk_configErr sample_start" "\<not> bk_initErr sample_start" "sample_start\<lparr>bk_cleanVerified := False\<rparr> = sample_start"
    by (simp_all add: sample_start_def newCommandNFTBackend_def)
  show ?thesis
    by (simp add: Replace_def s f recover_and_reconcile_def sample_recovery c)
qed

lemma sample_healthy:
  "fst (Healthy (recorded sample_io) [plain_path] sample_installed (True, log)) = Inr True"
proof -
  have f: "bk_recovered sample_installed" "bk_pending sample_installed = []" "bk_suspended sample_installed = []"
    "\<not> bk_unknownState sample_installed" "bk_initialized sample_installed" "\<not> bk_configErr sample_installed"
    "\<not> bk_initErr sample_installed" "bk_appliedActiveKey sample_installed = nftSpecsKey [plain_path]"
    "bk_devicesKey sample_installed = topology_key (Inr [])" "bk_fingerprint sample_installed = ob_fingerprint sample_seen"
    "sample_installed\<lparr>bk_cleanVerified := False\<rparr> = sample_installed"
    by (simp_all add: sample_installed_def remember_def sample_plan_def sample_recovered_def sample_start_def newCommandNFTBackend_def)
  have s: "refreshMissingExecutables io sample_installed v = sample_installed" for io v
    by (simp add: refreshMissingExecutables_def f)
  have e: "ob_exists sample_seen" "ob_owned sample_seen" by (simp_all add: sample_seen_def)
  show ?thesis
    by (simp add: Healthy_def s f observe_installed e check_admission_def healthy_table_def topologyForFlowtable_def)
qed

lemma sample_start_reached: "backend_reach io sample_start"
  unfolding sample_start_def by (rule backend_reach.start)

lemma sample_specs: "specs_ok [plain_path]"
  by (simp add: specs_ok_def path_ok)

lemma sample_installed_reached: "backend_reach (recorded sample_io) sample_installed"
  by (rule backend_reach.replace[OF sample_start_reached sample_specs sample_replace[of "[]"]])

section \<open>Other kernels\<close>

text \<open>The table belongs to somebody else.\<close>

definition foreign_io :: "bool nft_io" where
  "foreign_io = sample_io
     \<lparr>nx_tables := (\<lambda>w. (Some [JObj [(''table'', JObj [(''family'', JStr ''inet''), (''name'', JStr nftTableName)])]], w)),
      nx_table := (\<lambda>w. (Some [JObj [(''table'', JObj [(''family'', JStr ''inet''), (''name'', JStr nftTableName)])]], w))\<rparr>"

lemma foreign_sample: "foreign_table foreign_io owner"
  by (simp add: foreign_table_def observe_def foreign_io_def listed_tables_def tableDescriptor_def jobject_def table_state_def
      jfield_def Let_def)

text \<open>A foreign chain after the managed one rejects acceleration.\<close>

definition late_chain :: "json list" where
  "late_chain = [JObj [(''chain'', JObj [(''family'', JStr ''inet''), (''table'', JStr ''filter''),
     (''name'', JStr ''late''), (''type'', JStr ''filter''), (''hook'', JStr ''forward''), (''prio'', jint nftForwardPriority)])]]"

definition rejecting_io :: "bool nft_io" where
  "rejecting_io = sample_io\<lparr>nx_chains := (\<lambda>w. (Some late_chain, w))\<rparr>"

text \<open>An owned table that holds nothing: its paths are waiting for revocation.\<close>

definition bare_io :: "bool nft_io" where
  "bare_io = sample_io\<lparr>nx_table := (\<lambda>w. (Some [hd sample_objects], w))\<rparr>"

definition bare_seen :: observed_state where
  "bare_seen = \<lparr>ob_exists = True, ob_owned = True, ob_objects = [hd sample_objects],
                ob_fingerprint = nftObjectsFingerprint [hd sample_objects]\<rparr>"

definition waiting :: backend where
  "waiting = sample_recovered
     \<lparr>bk_initialized := True, bk_pending := [plain_path], bk_fingerprint := ob_fingerprint bare_seen,
      bk_appliedSpecKey := nftAppliedStateKey [] [plain_path] [] False []\<rparr>"

lemma observe_bare: "observe bare_io sample_owner w = (Inr (if w then bare_seen else no_table), w)"
proof -
  have "listed_tables [hd sample_objects] = 1" "jfield ''metainfo'' (hd sample_objects) = None"
    by (simp_all add: listed_tables_def sample_listing(3)) (simp add: sample_objects_def)
  then show ?thesis
    by (simp add: observe_def bare_io_def sample_io_def listed_tables_def table_state_def sample_listing(3) bare_seen_def Let_def)
qed

lemma rejecting_admission: "check_admission rejecting_io [fast_path] w = (Inr (Some rejecting), w)"
proof -
  have c: "nftConflictingHooks late_chain = Inr late_chain" "nftHookFamilies late_chain = 3" "late_chain \<noteq> []"
    by code_simp+
  have a: "affects rejecting fast_path" "specsUseFlowtable [fast_path]" by code_simp+
  have "checkFlowtableAdmissionFor None (Some late_chain) [fast_path] = Some (Admission rejecting)"
    using c by (auto simp: checkFlowtableAdmissionFor_def rejecting_def Let_def split: list.splits)
  then show ?thesis
    using a by (simp add: check_admission_def rejecting_io_def sample_io_def checkAdmissionFor_def)
qed

end
