(* ===== verification/Props_Recon.thy ===== *)
theory Props_Recon
  imports Nft_Backend_Sample
begin

text \<open>
  The properties of the backend as a whole: what a successful replacement and a positive health check mean, what is
  ever sent to the kernel, and what reconciliation revokes, keeps and loses.
\<close>

section \<open>Results\<close>

text \<open>C12.
  After a successful replacement, from any state the backend can be in, nothing is pending or unknown, and either
  nothing was asked for and nothing is remembered, or the fingerprint in memory is that of a table that was read
  back and matched a plan with the key of exactly the requested specs, nothing retired and nothing suspended.\<close>

theorem replace_settles:
  assumes "backend_reach io n" and "Replace io specs n w = (None, n', w')"
  shows "bk_pending n' = [] \<and> \<not> bk_unknownState n'
    \<and> (if bk_initialized n'
       then \<exists>objects specs' st t owner. state_matches objects specs' (topology_names t) owner st
              \<and> bk_fingerprint n' = nftObjectsFingerprint objects \<and> bk_devicesKey n' = topology_key t
              \<and> bk_appliedActiveKey n' = nftSpecsKey specs'
              \<and> nftAppliedStateKey specs' (rs_retired st) (rs_suspended st) (rs_keepFlowtable st) (rs_binding st)
                  = nftAppliedStateKey specs [] [] (specsUseFlowtable specs) (bk_diskBinding n')
       else specs = [] \<and> bk_active n' = [] \<and> bk_suspended n' = [])"
proof -
  have "described n'" "settled specs n'" using Replace_views[OF assms(2) backend_reach_described[OF assms(1)]] by simp_all
  then show ?thesis by (fastforce simp: settled_def described_def verified_def)
qed

theorem replace_settles_witness:
  "bk_pending sample_installed = [] \<and> bk_initialized sample_installed
    \<and> (\<exists>objects specs' st t owner. state_matches objects specs' (topology_names t) owner st
        \<and> bk_fingerprint sample_installed = nftObjectsFingerprint objects)"
proof -
  have i: "bk_initialized sample_installed" by (simp add: sample_installed_def)
  have "bk_pending sample_installed = [] \<and> (\<exists>objects specs' st t owner. state_matches objects specs' (topology_names t) owner st
        \<and> bk_fingerprint sample_installed = nftObjectsFingerprint objects)"
    using replace_settles[OF sample_start_reached sample_replace[of "[]"]] unfolding if_P[OF i] by blast
  with i show ?thesis by blast
qed

text \<open>C26.
  A positive health check means what it says, in every state the backend can be in: nothing is pending, suspended or
  unknown, and when specs were asked about, the table read from the kernel just now is owned and has the fingerprint
  of a table that matched a plan whose active rules have the key of these specs.\<close>

theorem healthy_means_serving:
  assumes "backend_reach io n" and "Healthy io specs n w = (Inr True, n', w')"
  shows "serving io w specs n'"
  using Healthy_views[OF assms(2)] backend_reach_described[OF assms(1)] by simp

theorem healthy_means_serving_witness:
  "\<exists>n'. serving (recorded sample_io) (True, []) [plain_path] n'"
proof -
  obtain r n' w' where h: "Healthy (recorded sample_io) [plain_path] sample_installed (True, []) = (r, n', w')"
    by (metis prod_cases3)
  then have "r = Inr True" using sample_healthy[of "[]"] by simp
  with healthy_means_serving[OF sample_installed_reached] h show ?thesis by blast
qed

section \<open>What reaches the kernel\<close>



text \<open>While a table under the managed name is not the program's own, a replacement sends nothing at all to the kernel.\<close>

theorem foreign_table_untouched:
  assumes "Replace (recorded io) specs n (w, log) = (e, n', w', log')"
    and "\<forall>w. \<exists>state w'. observe io (bk_ownerMarker n) w = (Inr state, w') \<and> ob_exists state \<and> \<not> ob_owned state"
  shows "log' = log"
  using foreign_untouched[OF assms(1)] assms(2) by (simp add: foreign_table_def)

theorem foreign_table_untouched_witness:
  "snd (snd (snd (Replace (recorded foreign_io) [plain_path] sample_start (False, [])))) = []"
proof -
  obtain e n' w' log' where "Replace (recorded foreign_io) [plain_path] sample_start (False, []) = (e, n', w', log')"
    by (metis surj_pair)
  with foreign_table_untouched[OF this] foreign_sample[unfolded foreign_table_def] show ?thesis by simp
qed

section \<open>Reconciliation\<close>

text \<open>C25.
  The plan of a reconciliation is exact: pending are the tuples already waiting and the owned tuples (active or
  suspended) no longer asked for, and nothing else; while they wait, the plan that is installed admits none of them;
  and nothing is admitted that was not asked for.\<close>

theorem reconciliation_plan:
  assumes "memory_ok n" and "specs_ok specs"
  shows "tuples (plan_pending n specs) = tuples (bk_pending n) \<union> ((tuples (bk_active n) \<union> tuples (bk_suspended n)) - tuples specs)
    \<and> tuples (gateNFTReplacements (plan_next admission specs) (plan_pending n specs)) \<inter> tuples (plan_pending n specs) = {}
    \<and> tuples (gateNFTReplacements (plan_next admission specs) (plan_pending n specs)) \<subseteq> tuples specs"
proof -
  have ok: "specs_ok (plan_next admission specs)" using plan_next_ok[OF assms(2)] .
  have sub: "tuples (plan_next admission specs) \<subseteq> tuples specs"
    by (auto simp: plan_next_def tuples_def split: option.splits)
  have gate: "tuples (gateNFTReplacements (plan_next admission specs) ps) \<subseteq> tuples (plan_next admission specs)" for ps
  proof
    fix t assume "t \<in> tuples (gateNFTReplacements (plan_next admission specs) ps)"
    from gated_free[OF ok this] obtain s p where "s \<in> set (plan_next admission specs)" "p \<in> spec_ports s" "t = tuple_at s p"
      by blast
    then show "t \<in> tuples (plan_next admission specs)" by (auto simp: tuples_def spec_tuples_def)
  qed
  have "tuples (gateNFTReplacements (plan_next admission specs) ps) \<inter> tuples ps = {}" for ps
    using gated_not_pending[OF ok] by blast
  with subset_trans[OF gate sub] plan_pending_tuples[OF assms(1), of specs] show ?thesis unfolding owned_tuples_def by blast
qed

lemma remembering_ok: "specs_ok a \<Longrightarrow> specs_ok s \<Longrightarrow> memory_ok (remembering a s)"
  by (simp add: memory_ok_def remembering_def newCommandNFTBackend_def)

theorem reconciliation_plan_witness:
  "tuple_at plain_path 8000 \<in> tuples (plan_pending (remembering [plain_path] []) [other_path])"
proof -
  have o: "spec_ok other_path" by code_simp
  have "tuple_at plain_path 8000 \<in> spec_tuples plain_path" "tuple_at plain_path 8000 \<notin> spec_tuples other_path"
    by (auto simp: tuple_in_spec tuple_at_def other_path_def plain_path_def nftLastPort_def spec_ports_def)
  with reconciliation_plan[of "remembering [plain_path] []" "[other_path]" None] o path_ok(1) show ?thesis
    by (simp add: remembering_ok specs_ok_def)
qed

text \<open>C13.
  The order of a replacement: one that succeeds was admitted in full; when paths were pending, it first installed the
  plan with every pending path gated and listed as retired, then revoked the connections of the pending paths with
  success, and only after that installed what was asked for.\<close>

theorem replacement_order:
  assumes "reconcile io specs n w = (None, n', w')"
  shows "\<exists>w1 n2 w2 n3. check_admission io specs w = (Inr None, w1)
    \<and> (if plan_pending n specs = [] then w2 = w1
       else \<exists>n1 v1. replaceObjects io (gateNFTReplacements specs (plan_pending n specs)) (plan_pending n specs)
                       (specsUseFlowtable specs) [] (n\<lparr>bk_pending := plan_pending n specs\<rparr>) w1 = (None, n1, v1)
             \<and> revokeNFTConnections (nx_conntrack io) (plan_pending n specs) v1 = (None, w2)
             \<and> n2 = n1\<lparr>bk_policyFamilies := 0\<rparr>)
    \<and> replaceObjects io specs [] (specsUseFlowtable specs) [] n2 w2 = (None, n3, w')"
  using reconcile_order[OF assms] unfolding gated_and_revoked_def by (fastforce split: if_splits)

lemma bare_backend [simp]:
  "bk_ownerMarker waiting = sample_owner" "bk_diskSession waiting = None" "bk_active waiting = []" "bk_suspended waiting = []"
  "bk_pending waiting = [plain_path]" "bk_initialized waiting" "bk_devicesKey waiting = topology_key (Inr [])"
  "bk_fingerprint waiting = ob_fingerprint bare_seen" "bk_diskBinding waiting = []"
  "bk_appliedSpecKey waiting = nftAppliedStateKey [] [plain_path] [] False []"
  "waiting\<lparr>bk_topologyReady := False\<rparr> = waiting" "waiting\<lparr>bk_pending := [plain_path]\<rparr> = waiting"
  "waiting\<lparr>bk_policyFamilies := 0\<rparr> = waiting"
  by (simp_all add: waiting_def sample_recovered_def sample_start_def newCommandNFTBackend_def sample_mark topology_key_def)

lemma bare_journal: "decodeNFTJournal [hd sample_objects] sample_owner = Inr empty_journal"
  by (simp add: decodeNFTJournal_def sample_objects_def jobject_def)

lemma bare_replace:
  "replaceObjects bare_io [] ps False [] waiting True = replace_planned bare_io True
     \<lparr>op_specs = [], op_retired = ps, op_suspended = [], op_keep = False, op_topology = Inr [], op_refresh = True\<rparr> waiting True"
  if "uniqueNFTSpecs [[], ps, []] = ps" "list_all (\<lambda>s. s = plain_path) ps"
proof -
  have c: "first_err (check_plan_spec sample_owner) ps = None"
    using that(2) sample_mark(3) by (induction ps) auto
  have s: "bare_seen = \<lparr>ob_exists = True, ob_owned = True, ob_objects = [hd sample_objects],
      ob_fingerprint = ob_fingerprint bare_seen\<rparr>" by (simp add: bare_seen_def)
  have e: "ob_exists bare_seen" "ob_owned bare_seen" "ob_objects bare_seen = [hd sample_objects]" by (simp_all add: bare_seen_def)
  show ?thesis
    by (simp add: replaceObjects_def observe_bare e that c topologyForFlowtable_def bare_journal)
qed

lemma bare_io_simps [simp]:
  "nx_apply bare_io script w = (True, \<not> w)" "io_available (nx_conntrack bare_io) w = None"
  "io_expired (nx_conntrack bare_io) w = False" "io_list (nx_conntrack bare_io) s w = (Inr [], w)"
  by (simp_all add: bare_io_def sample_io_def)

lemma bare_retire:
  "replaceObjects bare_io [] [plain_path] False [] waiting True = (None, waiting, True)"
proof -
  have "uniqueNFTSpecs [[], [plain_path], []] = [plain_path]" by code_simp
  from bare_replace[OF this] show ?thesis by (simp add: replace_planned_def plan_key_def)
qed

lemma bare_install: "\<exists>n' w'. replaceObjects bare_io [] [] False [] waiting True = (None, n', w')"
proof (cases "nftAppliedStateKey [] [] [] False [] = nftAppliedStateKey [] [plain_path] [] False []")
  case True
  then have "replaceObjects bare_io [] [] False [] waiting True = (None, waiting, True)"
    using bare_replace[of "[]"] by (simp add: sample_unique replace_planned_def plan_key_def)
  then show ?thesis by blast
next
  case False
  have c: "bk_diskSession (clearAppliedState waiting) = None" by simp
  from False have "replaceObjects bare_io [] [] False [] waiting True = (None, clearAppliedState waiting, False)"
    using bare_replace[of "[]"]
    by (simp add: sample_unique replace_planned_def plan_key_def persist_intent_def plan_empty_def withdraw_def observe_bare
        confirm_empty_def c Let_def)
  then show ?thesis by blast
qed

theorem replacement_order_witness:
  "plan_pending waiting [] = [plain_path]
    \<and> (\<exists>n1 v1 v2. replaceObjects bare_io (gateNFTReplacements [] [plain_path]) [plain_path] False [] waiting True = (None, n1, v1)
        \<and> revokeNFTConnections (nx_conntrack bare_io) [plain_path] v1 = (None, v2))"
proof -
  have h: "owned_history waiting = []" by (simp add: owned_history_def sample_unique)
  have p: "plan_pending waiting [] = [plain_path]" by (simp add: plan_pending_def h retiredNFTSpecs_def plain_unique sample_unique)
  have g: "gateNFTReplacements [] ps = []" for ps by (simp add: gateNFTReplacements_def)
  have f: "specsUseFlowtable [] = False" by (simp add: specsUseFlowtable_def)
  obtain n' w' where "replaceObjects bare_io [] [] False [] waiting True = (None, n', w')" using bare_install by blast
  then have "reconcile bare_io [] waiting True
      = (None, n'\<lparr>bk_pending := [], bk_unknownState := False, bk_policyFamilies := 0\<rparr>, w')"
    by (simp add: reconcile_def Let_def p check_admission_def plan_suspended_def evict_acceleration_def h plan_next_def f
        retire_pending_def g bare_retire revokeNFTConnections_def revoke_one_def policy_families_def install_next_def)
  from replacement_order[OF this] show ?thesis by (auto simp: p f check_admission_def)
qed

section \<open>Paths under rejection\<close>






text \<open>A suspended path that is asked for again is lost when the recovery intent cannot be written: the plan the backend
  falls back to neither installs it, nor retires it, nor keeps it suspended.\<close>

theorem suspended_path_dropped:
  assumes "op_specs p = [fast_path, other_path]" and "op_retired p = []" and "op_suspended p = []"
  shows "tuple_at fast_path 8000 \<notin> tuples (op_specs (fallback_plan (remembering [other_path] [fast_path]) p))
    \<and> op_retired (fallback_plan (remembering [other_path] [fast_path]) p) = []
    \<and> op_suspended (fallback_plan (remembering [other_path] [fast_path]) p) = []"
  using suspended_path_forgotten[OF assms] .

theorem suspended_path_dropped_witness:
  "tuple_at fast_path 8000 \<notin> tuples (op_specs (fallback_plan (remembering [other_path] [fast_path])
     \<lparr>op_specs = [fast_path, other_path], op_retired = [], op_suspended = [], op_keep = True, op_topology = Inr [],
      op_refresh = False\<rparr>))"
  using suspended_path_dropped[of "\<lparr>op_specs = [fast_path, other_path], op_retired = [], op_suspended = [], op_keep = True,
     op_topology = Inr [], op_refresh = False\<rparr>"] by simp

end
