(* ===== verification/Nft_Transparent.thy ===== *)
theory Nft_Transparent
  imports Nft_State NetIP_Text
begin

text \<open>
  The grammar of foreign firewall rules the program can reason about (\<^verbatim>\<open>nft_transparent_accept_linux.go\<close>), and the
  inventory checks behind the proof that a foreign chain only accepts (\<^verbatim>\<open>nft_empty_hooks_linux.go\<close>,
  \<^verbatim>\<open>nft_boot_scope_linux.go\<close>).  A listing is a list of decoded objects whose field names are distinct.
\<close>

section \<open>Objects\<close>

definition fields_of :: "json \<Rightarrow> (string \<times> json) list" where
  "fields_of v = (case v of JObj kvs \<Rightarrow> kvs | _ \<Rightarrow> [])"

text \<open>\<^verbatim>\<open>fmt.Sprint\<close> of a decoded value.\<close>

fun sprint :: "json \<Rightarrow> string" where
  "sprint JNull = ''<nil>''"
| "sprint (JBool b) = (if b then ''true'' else ''false'')"
| "sprint (JNum t) = t"
| "sprint (JStr t) = t"
| "sprint (JArr xs) = CHR ''['' # join '' '' (map sprint xs) @ '']''"
| "sprint (JObj kvs) =
     ''map['' @ join '' '' (map (\<lambda>(k, t). k @ CHR '':'' # t) (sort_key fst (map (\<lambda>(k, v). (k, sprint v)) kvs))) @ '']''"

definition nul :: string where "nul = [CHR 0x00]"

definition nftHookIdentity :: "json \<Rightarrow> string" where
  "nftHookIdentity chain = sprint (jval ''family'' chain) @ nul @ sprint (jval ''table'' chain) @ nul @ sprint (jval ''name'' chain)"

definition nftHookRuleIdentity :: "json \<Rightarrow> string" where
  "nftHookRuleIdentity rule = sprint (jval ''family'' rule) @ nul @ sprint (jval ''table'' rule) @ nul @ sprint (jval ''chain'' rule)"

definition table_identity :: "json \<Rightarrow> string" where
  "table_identity t = sprint (jval ''family'' t) @ nul @ sprint (jval ''name'' t)"

definition parent_identity :: "json \<Rightarrow> string" where
  "parent_identity chain = sprint (jval ''family'' chain) @ nul @ sprint (jval ''table'' chain)"

definition nftHookUint :: "json \<Rightarrow> bool" where
  "nftHookUint v = (case v of JNum t \<Rightarrow> parse_uint10 t 64 \<noteq> None | _ \<Rightarrow> False)"

definition metadata_field :: "string \<Rightarrow> string \<times> json \<Rightarrow> bool" where
  "metadata_field kind = (\<lambda>(key, v).
     if key = ''family'' then True
     else if key = ''table'' then kind \<noteq> ''table''
     else if key = ''name'' then kind \<noteq> ''rule''
     else if key = ''chain'' \<or> key = ''expr'' then kind = ''rule''
     else if key = ''type'' \<or> key = ''hook'' \<or> key = ''policy'' then kind = ''chain''
     else if key = ''prio'' then kind = ''chain'' \<and> (case v of JNum t \<Rightarrow> parse_priority (JNum t) \<noteq> None | _ \<Rightarrow> False)
     else if key = ''handle'' then nftHookUint v
     else if key = ''index'' then kind = ''rule'' \<and> nftHookUint v
     else key = ''comment'' \<and> is_text v)"

definition nftHookMetadata :: "(string \<times> json) list \<Rightarrow> string \<Rightarrow> bool" where
  "nftHookMetadata kvs kind = list_all (metadata_field kind) kvs"

section \<open>Matches\<close>

datatype match_domain = UnknownDomain | PortDomain | NFProtoDomain | L4ProtoDomain | IPv4Domain | IPv6Domain

definition nftTransparentMaxMatches :: nat where "nftTransparentMaxMatches = 16"

definition nftTransparentKeys :: "json \<Rightarrow> string list \<Rightarrow> bool" where
  "nftTransparentKeys v keys \<longleftrightarrow>
     length (remdups (map fst (fields_of v))) = length keys \<and> list_all (\<lambda>k. jfield k v \<noteq> None) keys"

definition payload_domain :: "json \<Rightarrow> string \<Rightarrow> match_domain" where
  "payload_domain payload family =
     (if \<not> nftTransparentKeys payload [''protocol'', ''field''] \<or> \<not> is_text (jval ''protocol'' payload)
         \<or> \<not> is_text (jval ''field'' payload)
      then UnknownDomain
      else let protocol = text_of (jval ''protocol'' payload); field = text_of (jval ''field'' payload) in
        if protocol \<in> {''tcp'', ''udp''} \<and> field \<in> {''sport'', ''dport''} then PortDomain
        else if protocol = ''ip'' \<and> family \<noteq> ''ip6'' \<and> field \<in> {''saddr'', ''daddr''} then IPv4Domain
        else if protocol = ''ip6'' \<and> family \<noteq> ''ip'' \<and> field \<in> {''saddr'', ''daddr''} then IPv6Domain
        else UnknownDomain)"

definition meta_domain :: "json \<Rightarrow> match_domain" where
  "meta_domain meta =
     (if \<not> nftTransparentKeys meta [''key''] then UnknownDomain
      else if jval ''key'' meta = JStr ''nfproto'' then NFProtoDomain
      else if jval ''key'' meta = JStr ''l4proto'' then L4ProtoDomain else UnknownDomain)"

definition nftTransparentSelector :: "json \<Rightarrow> string \<Rightarrow> match_domain" where
  "nftTransparentSelector v family =
     (if length (remdups (map fst (fields_of v))) \<noteq> 1 then UnknownDomain
      else case jfield ''payload'' v of
        Some payload \<Rightarrow> payload_domain payload family
      | None \<Rightarrow> (case jfield ''meta'' v of Some meta \<Rightarrow> meta_domain meta | None \<Rightarrow> UnknownDomain))"

text \<open>Canonical decimal numbers of at most 16 bits.\<close>

definition nftTransparentUint :: "json \<Rightarrow> nat option" where
  "nftTransparentUint v =
     (case v of
        JNum s \<Rightarrow>
          if s = [] \<or> 5 < length s \<or> 1 < length s \<and> hd s = CHR ''0'' \<or> \<not> list_all is_dec s then None
          else parse_uint10 s 16
      | _ \<Rightarrow> None)"

definition literal_address :: "bool \<Rightarrow> json \<Rightarrow> bool" where
  "literal_address six v =
     (case v of
        JStr t \<Rightarrow> (case parse_addr t of None \<Rightarrow> False | Some a \<Rightarrow> zone a = [] \<and> (if six then is6 a else is4 a))
      | _ \<Rightarrow> False)"

definition nftTransparentConstant :: "match_domain \<Rightarrow> string \<Rightarrow> json \<Rightarrow> bool" where
  "nftTransparentConstant domain op v =
     (if op \<noteq> ''=='' \<and> op \<noteq> ''!='' \<and> (domain \<noteq> PortDomain \<or> op \<notin> {''<'', ''<='', ''>'', ''>=''}) then False
      else case domain of
        UnknownDomain \<Rightarrow> False
      | PortDomain \<Rightarrow> nftTransparentUint v \<noteq> None
      | NFProtoDomain \<Rightarrow>
          (case v of JStr t \<Rightarrow> t = ''ipv4'' \<or> t = ''ipv6''
           | _ \<Rightarrow> nftTransparentUint v = Some 2 \<or> nftTransparentUint v = Some 10)
      | L4ProtoDomain \<Rightarrow>
          (case v of JStr t \<Rightarrow> t = ''tcp'' \<or> t = ''udp''
           | _ \<Rightarrow> nftTransparentUint v = Some 6 \<or> nftTransparentUint v = Some 17)
      | IPv4Domain \<Rightarrow> literal_address False v
      | IPv6Domain \<Rightarrow> literal_address True v)"

definition nftTransparentMatch :: "json \<Rightarrow> string \<Rightarrow> bool" where
  "nftTransparentMatch v family \<longleftrightarrow>
     nftTransparentKeys v [''match'']
     \<and> (let m = jval ''match'' v in
          nftTransparentKeys m [''left'', ''op'', ''right''] \<and> is_text (jval ''op'' m)
          \<and> nftTransparentSelector (jval ''left'' m) family \<noteq> UnknownDomain
          \<and> nftTransparentConstant (nftTransparentSelector (jval ''left'' m) family) (text_of (jval ''op'' m)) (jval ''right'' m))"

section \<open>Rules\<close>

definition accepts :: "json \<Rightarrow> bool" where
  "accepts v \<longleftrightarrow> nftTransparentKeys v [''accept''] \<and> jval ''accept'' v = JNull"

definition nftPureAcceptRule :: "json \<Rightarrow> bool" where
  "nftPureAcceptRule rule \<longleftrightarrow>
     nftHookMetadata (fields_of rule) ''rule'' \<and> (\<exists>x. jarray ''expr'' rule = Some [x] \<and> accepts x)"

lemma nftPureAcceptRule_code [code]:
  "nftPureAcceptRule rule \<longleftrightarrow>
     nftHookMetadata (fields_of rule) ''rule'' \<and> (case jarray ''expr'' rule of Some [x] \<Rightarrow> accepts x | _ \<Rightarrow> False)"
  by (auto simp: nftPureAcceptRule_def split: option.splits list.splits)

definition nftTransparentAcceptRule :: "json \<Rightarrow> string \<Rightarrow> bool" where
  "nftTransparentAcceptRule rule family \<longleftrightarrow>
     family \<in> {''ip'', ''ip6'', ''inet''}
     \<and> (case jarray ''expr'' rule of
          None \<Rightarrow> False
        | Some expr \<Rightarrow>
            if expr = [] \<or> nftTransparentMaxMatches + 1 < length expr then False
            else if length expr = 1 then nftPureAcceptRule rule
            else nftHookMetadata (fields_of rule) ''rule'' \<and> accepts (last expr)
              \<and> list_all (\<lambda>x. nftTransparentMatch x family) (butlast expr))"

section \<open>The inventory\<close>

datatype proof_error =
    AmbiguousObject
  | BadDescriptor
  | UnknownFamily
  | BadName
  | DuplicateMeta
  | DuplicateProofTable
  | DuplicateProofChain
  | ForeignFlowtable
  | ForeignObject
  | FlowtableOrphan
  | ChainOrphan
  | RuleOrphan
  | DuplicateRule
  | WorkLimit

definition nftProofObject :: "json \<Rightarrow> proof_error + string \<times> json" where
  "nftProofObject object =
     (case object of
        JObj [(kind, v)] \<Rightarrow>
          if \<not> is_object v then Inl BadDescriptor
          else if kind = ''metainfo'' then Inr (kind, v)
          else if jval ''family'' v \<notin> JStr ` {''ip'', ''ip6'', ''inet'', ''arp'', ''bridge'', ''netdev''} then Inl UnknownFamily
          else Inr (kind, v)
      | _ \<Rightarrow> Inl AmbiguousObject)"

definition nftProofName :: "json \<Rightarrow> string \<Rightarrow> proof_error + string" where
  "nftProofName v key =
     (case jval key v of
        JStr t \<Rightarrow> if t = [] \<or> CHR 0x00 \<in> set t then Inl BadName else Inr t
      | _ \<Rightarrow> Inl BadName)"

definition nftProofInventoryKey :: "json list \<Rightarrow> string" where
  "nftProofInventoryKey objects =
     join [CHR 0x0A] (sort (map marshal (filter (\<lambda>x. jfield ''metainfo'' x = None) objects)))"

record inventory =
  iv_tables :: "(string \<times> json) list"
  iv_chains :: "(string \<times> json) list"
  iv_rules :: "json list"
  iv_flow :: bool
  iv_meta :: bool

abbreviation empty_inventory :: inventory where
  "empty_inventory \<equiv> \<lparr>iv_tables = [], iv_chains = [], iv_rules = [], iv_flow = False, iv_meta = False\<rparr>"

definition add_table :: "json \<Rightarrow> inventory \<Rightarrow> proof_error + inventory" where
  "add_table v iv =
     rbind (nftProofName v ''name'') (\<lambda>_.
       if table_identity v \<in> fst ` set (iv_tables iv) then Inl DuplicateProofTable
       else Inr (iv\<lparr>iv_tables := iv_tables iv @ [(table_identity v, v)]\<rparr>))"

definition add_chain :: "json \<Rightarrow> inventory \<Rightarrow> proof_error + inventory" where
  "add_chain v iv =
     rbind (nftProofName v ''table'') (\<lambda>_. rbind (nftProofName v ''name'') (\<lambda>_.
       if nftHookIdentity v \<in> fst ` set (iv_chains iv) then Inl DuplicateProofChain
       else Inr (iv\<lparr>iv_chains := iv_chains iv @ [(nftHookIdentity v, v)]\<rparr>)))"

definition add_rule :: "json \<Rightarrow> inventory \<Rightarrow> proof_error + inventory" where
  "add_rule v iv =
     rbind (nftProofName v ''table'') (\<lambda>_. rbind (nftProofName v ''chain'') (\<lambda>_.
       Inr (iv\<lparr>iv_rules := iv_rules iv @ [v]\<rparr>)))"

definition add_flowtable :: "json \<Rightarrow> inventory \<Rightarrow> proof_error + inventory" where
  "add_flowtable v iv =
     (if jval ''family'' v \<noteq> JStr ''inet'' \<or> jval ''table'' v \<noteq> JStr nftTableName \<or> jval ''name'' v \<noteq> JStr nftFlowtableName \<or> iv_flow iv
      then Inl ForeignFlowtable else Inr (iv\<lparr>iv_flow := True\<rparr>))"

definition add_object :: "json \<Rightarrow> inventory \<Rightarrow> proof_error + inventory" where
  "add_object object iv =
     rbind (nftProofObject object) (\<lambda>(kind, v).
       if kind = ''metainfo'' then (if iv_meta iv then Inl DuplicateMeta else Inr (iv\<lparr>iv_meta := True\<rparr>))
       else if kind = ''table'' then add_table v iv
       else if kind = ''chain'' then add_chain v iv
       else if kind = ''rule'' then add_rule v iv
       else if kind = ''flowtable'' then add_flowtable v iv
       else Inl ForeignObject)"

fun collect_inventory :: "json list \<Rightarrow> inventory \<Rightarrow> proof_error + inventory" where
  "collect_inventory [] iv = Inr iv"
| "collect_inventory (x # xs) iv = rbind (add_object x iv) (collect_inventory xs)"

text \<open>A filter chain in the hooks of forwarded packets that accepts by policy.\<close>

definition accepting_chain :: "inventory \<Rightarrow> json \<Rightarrow> bool" where
  "accepting_chain iv chain \<longleftrightarrow>
     jval ''policy'' chain = JStr ''accept'' \<and> jval ''type'' chain = JStr ''filter''
     \<and> (jval ''hook'' chain = JStr ''forward'' \<or> jval ''hook'' chain = JStr ''postrouting'')
     \<and> jfield ''prio'' chain \<noteq> None \<and> nftHookMetadata (fields_of chain) ''chain''
     \<and> nftHookMetadata (case map_of (iv_tables iv) (parent_identity chain) of None \<Rightarrow> [] | Some t \<Rightarrow> fields_of t) ''table''"

definition rule_numbers :: "string \<Rightarrow> json \<Rightarrow> string list" where
  "rule_numbers key rule =
     concat (map (\<lambda>field. case jfield field rule of
         Some v \<Rightarrow> if nftHookUint v then [key @ nul @ field @ nul @ sprint v] else []
       | None \<Rightarrow> []) [''handle'', ''index''])"

text \<open>The rules one by one: which chains stay compatible.\<close>

fun check_rules :: "inventory \<Rightarrow> string set \<Rightarrow> json list \<Rightarrow> (string \<Rightarrow> bool) \<Rightarrow> proof_error + (string \<Rightarrow> bool)" where
  "check_rules iv seen [] compatible = Inr compatible"
| "check_rules iv seen (rule # rules) compatible =
     (let key = nftHookRuleIdentity rule in
      case map_of (iv_chains iv) key of
        None \<Rightarrow> Inl RuleOrphan
      | Some chain \<Rightarrow>
          if \<not> distinct (rule_numbers key rule) \<or> list_ex (\<lambda>i. i \<in> seen) (rule_numbers key rule) then Inl DuplicateRule
          else check_rules iv (seen \<union> set (rule_numbers key rule)) rules
                 (compatible(key := nftTransparentAcceptRule rule (text_of (jval ''family'' chain)) \<and> compatible key)))"

definition nftProvablyCompatibleHooks :: "json list \<Rightarrow> proof_error + (string \<Rightarrow> bool)" where
  "nftProvablyCompatibleHooks objects =
     rbind (collect_inventory objects empty_inventory) (\<lambda>iv.
       if iv_flow iv \<and> ''inet'' @ nul @ nftTableName \<notin> fst ` set (iv_tables iv) then Inl FlowtableOrphan
       else if list_ex (\<lambda>(k, c). parent_identity c \<notin> fst ` set (iv_tables iv)) (iv_chains iv) then Inl ChainOrphan
       else check_rules iv {} (iv_rules iv)
              (\<lambda>k. case map_of (iv_chains iv) k of None \<Rightarrow> False | Some c \<Rightarrow> accepting_chain iv c))"

definition nftCompatibleHookKey :: "json list \<Rightarrow> json list \<Rightarrow> (string \<Rightarrow> bool) \<Rightarrow> string" where
  "nftCompatibleHookKey objects conflicts compatible =
     (let chosen = filter (\<lambda>c. compatible (nftHookIdentity c)) (map (\<lambda>x. jval ''chain'' x) conflicts);
          chains = map nftHookIdentity chosen; tables = map parent_identity chosen;
          picked = concat (map (\<lambda>x.
             (case jobject ''chain'' x of Some c \<Rightarrow> if nftHookIdentity c \<in> set chains then [x] else [] | None \<Rightarrow> [])
             @ (case jobject ''rule'' x of Some r \<Rightarrow> if nftHookRuleIdentity r \<in> set chains then [x] else [] | None \<Rightarrow> [])
             @ (case jobject ''table'' x of Some t \<Rightarrow> if table_identity t \<in> set tables then [x] else [] | None \<Rightarrow> [])) objects)
      in nftProofInventoryKey picked)"

end
