(* ===== verification/Nft_Selective.thy ===== *)
theory Nft_Selective
  imports Nft_Transparent
begin

text \<open>
  The proof that a selective foreign firewall accepts every packet of a forwarded path, in both directions and at
  every hook (\<^verbatim>\<open>nft_selective_acl_linux.go\<close>), and the reading of the rules it starts from
  (\<^verbatim>\<open>verifyNFTSelectiveExternalHooks\<close>).
\<close>

definition maxNFTSelectiveWork :: int where "maxNFTSelectiveWork = 2 ^ 20"

section \<open>Views of a path\<close>

text \<open>What is known of a packet: an address is unknown when it is not valid, ports lie in an interval.\<close>

type_synonym acl_port = "nat \<times> nat"

record acl_view =
  av_source :: addr
  av_destination :: addr
  av_sport :: acl_port
  av_dport :: acl_port
  av_family :: int
  av_protocol :: string

text \<open>\<^verbatim>\<open>uint64\<close> of an \<^verbatim>\<open>int\<close>.\<close>

definition uint64 :: "int \<Rightarrow> nat" where
  "uint64 n = nat (n mod 2 ^ 64)"

definition nftACLPortRange :: "int \<Rightarrow> int \<Rightarrow> acl_port" where
  "nftACLPortRange first final = (uint64 first, uint64 (if final = 0 then first else final))"

definition any_port :: acl_port where "any_port = (0, 65535)"

definition target_view :: "nft_spec \<Rightarrow> acl_view" where
  "target_view s =
     \<lparr>av_source = NoAddr, av_destination = TargetHost s, av_sport = any_port,
      av_dport = nftACLPortRange (TargetPort s) (TargetPortEnd s), av_family = Family s, av_protocol = Protocol s\<rparr>"

definition reply_view :: "nft_spec \<Rightarrow> acl_view" where
  "reply_view s =
     \<lparr>av_source = TargetHost s, av_destination = NoAddr, av_sport = nftACLPortRange (TargetPort s) (TargetPortEnd s),
      av_dport = any_port, av_family = Family s, av_protocol = Protocol s\<rparr>"

definition listen_address :: "nft_spec \<Rightarrow> addr" where
  "listen_address s = (if is_unspecified (ListenHost s) then NoAddr else ListenHost s)"

definition nftACLViews :: "nft_spec \<Rightarrow> string \<Rightarrow> int \<Rightarrow> acl_view list" where
  "nftACLViews s hook priority =
     (let original = target_view s; reply = reply_view s;
          before = original\<lparr>av_destination := listen_address s, av_dport := nftACLPortRange (ListenPort s) (ListenPortEnd s)\<rparr>;
          after = reply\<lparr>av_source := listen_address s, av_sport := nftACLPortRange (ListenPort s) (ListenPortEnd s)\<rparr>
      in if hook = ''prerouting'' \<and> priority \<le> - 100
         then (if priority = - 100 then [before, original, reply] else [before, reply])
         else if hook = ''postrouting'' \<and> 100 \<le> priority
         then (if priority = 100 then [original, reply, after] else [original, after])
         else [original, reply])"

section \<open>Matches that always hold\<close>

definition nftACLPortAlways :: "acl_port \<Rightarrow> string \<Rightarrow> nat \<Rightarrow> bool" where
  "nftACLPortAlways d op v =
     (if op = ''=='' then fst d = v \<and> snd d = v
      else if op = ''!='' then v < fst d \<or> snd d < v
      else if op = ''<'' then snd d < v
      else if op = ''<='' then snd d \<le> v
      else if op = ''>'' then v < fst d
      else if op = ''>='' then v \<le> fst d
      else False)"

definition meta_always :: "json \<Rightarrow> string \<Rightarrow> json \<Rightarrow> acl_view \<Rightarrow> bool" where
  "meta_always key op right view =
     (let (actual, symbol) =
            (if key = JStr ''nfproto'' then (if av_family view = 6 then (10, ''ipv6'') else (2, ''ipv4''))
             else if av_protocol view = ''udp'' then (17, ''udp'') else (6, ''tcp''));
          equal = (case right of
              JStr t \<Rightarrow> t = symbol
            | _ \<Rightarrow> (case nftTransparentUint right of None \<Rightarrow> 0 | Some n \<Rightarrow> n) = actual)
      in if op = ''!='' then \<not> equal else equal)"

definition payload_always :: "json \<Rightarrow> string \<Rightarrow> json \<Rightarrow> acl_view \<Rightarrow> bool" where
  "payload_always payload op right view =
     (let protocol = text_of (jval ''protocol'' payload); field = text_of (jval ''field'' payload) in
      if protocol \<in> {''tcp'', ''udp''} then
        protocol = av_protocol view
        \<and> nftACLPortAlways (if field = ''sport'' then av_sport view else av_dport view) op
             (case nftTransparentUint right of None \<Rightarrow> 0 | Some n \<Rightarrow> n)
      else if (protocol = ''ip'') \<noteq> (av_family view = 4) then False
      else
        let address = (if field = ''saddr'' then av_source view else av_destination view) in
        is_valid address
        \<and> (case parse_addr (text_of right) of
             None \<Rightarrow> False
           | Some v \<Rightarrow> if op = ''!='' then address \<noteq> v else address = v))"

text \<open>A match that passed the grammar holds for every packet of the view.\<close>

definition nftACLMatchAlways :: "json \<Rightarrow> acl_view \<Rightarrow> bool" where
  "nftACLMatchAlways statement view =
     (let m = jval ''match'' statement; left = jval ''left'' m; op = text_of (jval ''op'' m); right = jval ''right'' m in
      case jfield ''meta'' left of
        Some meta \<Rightarrow> meta_always (jval ''key'' meta) op right view
      | None \<Rightarrow> payload_always (jval ''payload'' left) op right view)"

section \<open>The grammar of selective rules\<close>

definition protocol_match :: "string \<Rightarrow> json \<Rightarrow> bool" where
  "protocol_match family v \<longleftrightarrow>
     nftTransparentKeys v [''match'']
     \<and> (let m = jval ''match'' v in
          nftTransparentKeys m [''left'', ''op'', ''right''] \<and> jval ''op'' m \<in> {JStr ''=='', JStr ''!=''}
          \<and> nftTransparentSelector (jval ''left'' m) family = L4ProtoDomain
          \<and> (case jval ''right'' m of
               JStr t \<Rightarrow> t = ''icmp'' \<or> t = ''ipv6-icmp''
             | right \<Rightarrow> (case nftTransparentUint right of None \<Rightarrow> False | Some n \<Rightarrow> n \<le> 255)))"

definition nftACLRuleSyntax :: "json \<Rightarrow> string \<Rightarrow> bool" where
  "nftACLRuleSyntax rule family \<longleftrightarrow>
     family \<in> {''ip'', ''ip6'', ''inet''} \<and> nftHookMetadata (fields_of rule) ''rule''
     \<and> (case jarray ''expr'' rule of
          None \<Rightarrow> False
        | Some expr \<Rightarrow>
            expr \<noteq> [] \<and> length expr \<le> nftTransparentMaxMatches + 1 \<and> accepts (last expr)
            \<and> list_all (\<lambda>x. nftTransparentMatch x family \<or> protocol_match family x) (butlast expr))"

section \<open>One chain\<close>

definition take_work :: "nat \<Rightarrow> int \<Rightarrow> proof_error + int" where
  "take_work n work = (if work - int n < 0 then Inl WorkLimit else Inr (work - int n))"

record acl_chain =
  ac_object :: json
  ac_fields :: json
  ac_parent :: json
  ac_rules :: "json list"

definition rule_expr :: "json \<Rightarrow> json list" where
  "rule_expr object = (case jarray ''expr'' (jval ''rule'' object) of None \<Rightarrow> [] | Some expr \<Rightarrow> expr)"

fun check_syntax :: "string \<Rightarrow> json list \<Rightarrow> int \<Rightarrow> proof_error + bool \<times> int" where
  "check_syntax family [] work = Inr (True, work)"
| "check_syntax family (object # objects) work =
     rbind (take_work (length (rule_expr object) + 1) work) (\<lambda>work1.
       if nftACLRuleSyntax (jval ''rule'' object) family then check_syntax family objects work1 else Inr (False, work1))"

fun find_accepting :: "acl_view \<Rightarrow> json list \<Rightarrow> int \<Rightarrow> proof_error + bool \<times> int" where
  "find_accepting view [] work = Inr (False, work)"
| "find_accepting view (object # objects) work =
     rbind (take_work (length (rule_expr object) + 1) work) (\<lambda>work1.
       if list_all (\<lambda>x. nftACLMatchAlways x view) (butlast (rule_expr object)) then Inr (True, work1)
       else find_accepting view objects work1)"

fun all_views :: "json list \<Rightarrow> acl_view list \<Rightarrow> int \<Rightarrow> proof_error + bool \<times> int" where
  "all_views rules [] work = Inr (True, work)"
| "all_views rules (view # views) work =
     rbind (find_accepting view rules work) (\<lambda>(ok, work1). if ok then all_views rules views work1 else Inr (False, work1))"

definition accepts_empty :: "acl_chain \<Rightarrow> bool" where
  "accepts_empty c \<longleftrightarrow> ac_rules c = [] \<and> jval ''policy'' (ac_fields c) = JStr ''accept''"

definition nftACLChainAccepts :: "acl_chain \<Rightarrow> nft_spec \<Rightarrow> int \<Rightarrow> proof_error + bool \<times> int" where
  "nftACLChainAccepts c s work =
     rbind (take_work 1 work) (\<lambda>work1.
       let v = ac_fields c; policy = jval ''policy'' v; hook = text_of (jval ''hook'' v) in
       if \<not> nftHookMetadata (fields_of v) ''chain'' \<or> \<not> nftHookMetadata (fields_of (jval ''table'' (ac_parent c))) ''table''
       then Inr (False, work1)
       else case parse_priority (jval ''prio'' v) of
         None \<Rightarrow> Inr (False, work1)
       | Some priority \<Rightarrow>
           if jval ''type'' v = JStr ''nat'' then Inr (accepts_empty c, work1)
           else if jval ''type'' v \<noteq> JStr ''filter'' \<or> hook \<notin> {''prerouting'', ''forward'', ''postrouting''}
           then Inr (accepts_empty c, work1)
           else if policy \<noteq> JStr ''accept'' \<and> policy \<noteq> JStr ''drop'' then Inr (False, work1)
           else rbind (check_syntax (text_of (jval ''family'' v)) (ac_rules c) work1) (\<lambda>(ok, work2).
             if \<not> ok then Inr (False, work2)
             else if policy = JStr ''accept'' then Inr (True, work2)
             else all_views (ac_rules c) (nftACLViews s hook priority) work2))"

section \<open>All chains of a listing\<close>

record acl_listing =
  al_tables :: "string \<Rightarrow> json option"
  al_chains :: "string \<Rightarrow> acl_chain option"
  al_order :: "string list"

fun list_chains :: "json list \<Rightarrow> acl_listing \<Rightarrow> int \<Rightarrow> proof_error + acl_listing \<times> int" where
  "list_chains [] al work = Inr (al, work)"
| "list_chains (x # xs) al work =
     rbind (take_work 1 work) (\<lambda>work1.
       let al1 = (case jobject ''table'' x of None \<Rightarrow> al | Some t \<Rightarrow> al\<lparr>al_tables := (al_tables al)(table_identity t \<mapsto> x)\<rparr>);
           al2 = (case jobject ''chain'' x of
               None \<Rightarrow> al1
             | Some c \<Rightarrow> al1\<lparr>al_chains := (al_chains al1)(nftHookIdentity c \<mapsto>
                   \<lparr>ac_object = x, ac_fields = c, ac_parent = JNull, ac_rules = []\<rparr>),
                 al_order := al_order al1 @ [nftHookIdentity c]\<rparr>)
       in list_chains xs al2 work1)"

fun attach_rules :: "json list \<Rightarrow> (string \<Rightarrow> acl_chain option) \<Rightarrow> proof_error + (string \<Rightarrow> acl_chain option)" where
  "attach_rules [] cs = Inr cs"
| "attach_rules (x # xs) cs =
     (case jobject ''rule'' x of
        None \<Rightarrow> attach_rules xs cs
      | Some r \<Rightarrow>
          (case cs (nftHookRuleIdentity r) of
             None \<Rightarrow> Inl RuleOrphan
           | Some c \<Rightarrow> attach_rules xs (cs(nftHookRuleIdentity r \<mapsto> c\<lparr>ac_rules := ac_rules c @ [x]\<rparr>))))"

definition attach_parents ::
    "(string \<Rightarrow> json option) \<Rightarrow> string list \<Rightarrow> (string \<Rightarrow> acl_chain option) \<Rightarrow> proof_error + (string \<Rightarrow> acl_chain option)" where
  "attach_parents tables order cs =
     (if list_ex (\<lambda>k. case cs k of None \<Rightarrow> False | Some c \<Rightarrow> tables (parent_identity (ac_fields c)) = None) order
      then Inl ChainOrphan
      else Inr (\<lambda>k. map_option (\<lambda>c. c\<lparr>ac_parent := (case tables (parent_identity (ac_fields c)) of None \<Rightarrow> JNull | Some t \<Rightarrow> t)\<rparr>)
                  (cs k)))"

text \<open>Chains that never see the packets of the path.\<close>

definition irrelevant :: "json \<Rightarrow> nft_spec \<Rightarrow> bool" where
  "irrelevant v s \<longleftrightarrow>
     jval ''hook'' v \<in> {JNull, JStr ''input'', JStr ''output''}
     \<or> jval ''family'' v = JStr ''inet'' \<and> jval ''table'' v = JStr nftTableName
     \<or> jval ''family'' v = JStr ''ip'' \<and> Family s \<noteq> 4 \<or> jval ''family'' v = JStr ''ip6'' \<and> Family s \<noteq> 6"

fun prove_scope ::
    "(string \<Rightarrow> acl_chain option) \<Rightarrow> nft_spec \<Rightarrow> string list \<Rightarrow> string list \<Rightarrow> int
     \<Rightarrow> proof_error + string list option \<times> int" where
  "prove_scope cs s [] selected work = Inr (Some selected, work)"
| "prove_scope cs s (k # ks) selected work =
     (case cs k of
        None \<Rightarrow> prove_scope cs s ks selected work
      | Some c \<Rightarrow>
          if irrelevant (ac_fields c) s then prove_scope cs s ks selected work
          else if jval ''family'' (ac_fields c) \<notin> {JStr ''ip'', JStr ''ip6'', JStr ''inet''} then Inr (None, work)
          else rbind (nftACLChainAccepts c s work) (\<lambda>(ok, work1).
            if ok then prove_scope cs s ks (selected @ [k]) work1 else Inr (None, work1)))"

fun prove_scopes ::
    "(string \<Rightarrow> acl_chain option) \<Rightarrow> string list \<Rightarrow> 8 word \<Rightarrow> nft_spec list \<Rightarrow> nft_spec list \<times> string list \<Rightarrow> int
     \<Rightarrow> proof_error + nft_spec list \<times> string list" where
  "prove_scopes cs order affected [] found work = Inr found"
| "prove_scopes cs order affected (s # ss) found work =
     (if \<not> EnableFlowtable s \<or> affected AND (if Family s = 6 then 2 else 1) = 0 \<or> \<not> validateRetirementSpec s
      then prove_scopes cs order affected ss found work
      else rbind (prove_scope cs s order [] work) (\<lambda>(r, work1).
        prove_scopes cs order affected ss
          (case r of None \<Rightarrow> found | Some selected \<Rightarrow> (fst found @ [s], snd found @ selected)) work1))"

definition nftProveSelectiveScopes ::
    "json list \<Rightarrow> json list \<Rightarrow> nft_spec list \<Rightarrow> proof_error + nft_spec list \<times> string" where
  "nftProveSelectiveScopes objects conflicts specs =
     (if specs = [] \<or> conflicts = [] then Inr ([], [])
      else rbind (list_chains objects \<lparr>al_tables = (\<lambda>_. None), al_chains = (\<lambda>_. None), al_order = []\<rparr> maxNFTSelectiveWork) (\<lambda>(al, work).
        rbind (attach_rules objects (al_chains al)) (\<lambda>chains0.
        rbind (attach_parents (al_tables al) (al_order al) chains0) (\<lambda>cs.
        rbind (prove_scopes cs (al_order al) (nftHookFamilies conflicts) specs ([], []) work) (\<lambda>(allowed, used).
          Inr (allowed, nftProofInventoryKey (concat (map (\<lambda>k.
            if k \<in> set used then (case cs k of None \<Rightarrow> [] | Some c \<Rightarrow> ac_parent c # ac_object c # ac_rules c) else [])
            (al_order al)))))))))"

section \<open>Two readings\<close>

text \<open>
  One pass over the listing of all rules: what remains in conflict, what is permitted, and the text of everything
  the proof rests on.  A listing that cannot be read or decoded is missing.
\<close>

definition proof_pass ::
    "json list option \<Rightarrow> json list \<Rightarrow> nft_spec list \<Rightarrow> 8 word + json list \<times> nft_spec list \<times> string" where
  "proof_pass listing initial specs =
     (case listing of
        None \<Rightarrow> Inl 3
      | Some objects \<Rightarrow>
          case nftConflictingHooks objects of
            Inl _ \<Rightarrow> Inl 3
          | Inr current \<Rightarrow>
              if nftProofInventoryKey current \<noteq> nftProofInventoryKey initial then Inl (nftHookFamilies current)
              else case nftProvablyCompatibleHooks objects of
                Inl _ \<Rightarrow> Inl 3
              | Inr compatible \<Rightarrow>
                  let remaining = filter (\<lambda>x. \<not> compatible (nftHookIdentity (jval ''chain'' x))) current in
                  case nftProveSelectiveScopes objects remaining specs of
                    Inl _ \<Rightarrow> Inl 3
                  | Inr (permitted, scoped) \<Rightarrow>
                      Inr (remaining, permitted,
                        nftProofInventoryKey remaining @ [CHR 0x0A] @ ''proved:'' @ [CHR 0x0A]
                        @ nftCompatibleHookKey objects current compatible @ [CHR 0x0A] @ ''selective:'' @ [CHR 0x0A] @ scoped
                        @ [CHR 0x0A] @ ''scopes:'' @ [CHR 0x0A] @ nftSpecsKey permitted))"

text \<open>
  \<^verbatim>\<open>verifyNFTSelectiveExternalHooks\<close>: whether the thread is in the namespace of the process before and after, and
  the two listings.  A failure tells the families that are to be rejected as well.
\<close>

definition verifyNFTSelectiveExternalHooks ::
    "bool \<Rightarrow> bool \<Rightarrow> json list option \<Rightarrow> json list option \<Rightarrow> json list \<Rightarrow> nft_spec list
     \<Rightarrow> 8 word + json list \<times> nft_spec list" where
  "verifyNFTSelectiveExternalHooks before after listing1 listing2 initial specs =
     (if \<not> before then Inl 3
      else case proof_pass listing1 initial specs of
        Inl m \<Rightarrow> Inl m
      | Inr (_, _, key1) \<Rightarrow>
          (case proof_pass listing2 initial specs of
             Inl m \<Rightarrow> Inl m
           | Inr (remaining, permitted, key2) \<Rightarrow>
               if key2 \<noteq> key1 then Inl (nftHookFamilies initial)
               else if \<not> after then Inl 3 else Inr (remaining, permitted)))"

end
