(* ===== verification/Nft_Proof_Sound.thy ===== *)
theory Nft_Proof_Sound
  imports Nft_Selective Nft_State_Facts
begin

text \<open>
  What the proofs about foreign firewalls are worth: a semantics of the rules they accept on packets, and the
  theorem that a proved chain accepts every packet of the path, whatever the client, and whatever a read of a header
  the packet does not have yields.
\<close>

section \<open>Packets and rules\<close>

record packet =
  pk_family :: int
  pk_protocol :: nat
  pk_src :: addr
  pk_dst :: addr
  pk_sport :: nat
  pk_dport :: nat

definition compare_op :: "string \<Rightarrow> nat \<Rightarrow> nat \<Rightarrow> bool" where
  "compare_op op a b \<longleftrightarrow>
     (if op = ''=='' then a = b else if op = ''!='' then a \<noteq> b else if op = ''<'' then a < b
      else if op = ''<='' then a \<le> b else if op = ''>'' then b < a else b \<le> a)"

text \<open>The kernel's numbers of families and protocols.\<close>

definition number_of :: "json \<Rightarrow> nat" where
  "number_of v =
     (case v of
        JStr t \<Rightarrow>
          if t = ''ipv4'' then 2 else if t = ''ipv6'' then 10 else if t = ''tcp'' then 6 else if t = ''udp'' then 17
          else if t = ''icmp'' then 1 else if t = ''ipv6-icmp'' then 58 else 255
      | _ \<Rightarrow> (case nftTransparentUint v of None \<Rightarrow> 255 | Some n \<Rightarrow> n))"

definition meta_value :: "json \<Rightarrow> packet \<Rightarrow> nat" where
  "meta_value meta p =
     (if jval ''key'' meta = JStr ''nfproto'' then (if pk_family p = 6 then 10 else 2) else pk_protocol p)"

definition transport_number :: "string \<Rightarrow> nat" where
  "transport_number protocol = (if protocol = ''udp'' then 17 else 6)"

definition address_holds :: "string \<Rightarrow> addr \<Rightarrow> json \<Rightarrow> bool" where
  "address_holds op a right \<longleftrightarrow> (if op = ''!='' then parse_addr (text_of right) \<noteq> Some a else parse_addr (text_of right) = Some a)"

text \<open>A match on a packet; \<open>unknown\<close> decides the reads of headers the packet does not have.\<close>

definition holds :: "(json \<Rightarrow> packet \<Rightarrow> bool) \<Rightarrow> json \<Rightarrow> packet \<Rightarrow> bool" where
  "holds unknown st p =
     (let m = jval ''match'' st; left = jval ''left'' m; op = text_of (jval ''op'' m); right = jval ''right'' m in
      case jfield ''meta'' left of
        Some meta \<Rightarrow> compare_op op (meta_value meta p) (number_of right)
      | None \<Rightarrow>
          let payload = jval ''payload'' left; protocol = text_of (jval ''protocol'' payload);
              field = text_of (jval ''field'' payload) in
          if protocol \<in> {''tcp'', ''udp''} then
            (if pk_protocol p = transport_number protocol
             then compare_op op (if field = ''sport'' then pk_sport p else pk_dport p) (number_of right)
             else unknown st p)
          else if (protocol = ''ip'') = (pk_family p = 4)
          then address_holds op (if field = ''saddr'' then pk_src p else pk_dst p) right
          else unknown st p)"

text \<open>
  Rules of matches and a final accept; any other rule is taken to drop, so acceptance below never rests on a rule
  the semantics does not cover.
\<close>

definition plain_rule :: "json \<Rightarrow> bool" where
  "plain_rule object \<longleftrightarrow>
     rule_expr object \<noteq> [] \<and> accepts (last (rule_expr object))
     \<and> list_all (\<lambda>st. nftTransparentKeys st [''match'']) (butlast (rule_expr object))"

fun verdict :: "(json \<Rightarrow> packet \<Rightarrow> bool) \<Rightarrow> json \<Rightarrow> json list \<Rightarrow> packet \<Rightarrow> bool" where
  "verdict unknown policy [] p \<longleftrightarrow> policy = JStr ''accept''"
| "verdict unknown policy (object # objects) p \<longleftrightarrow>
     plain_rule object
     \<and> (list_all (\<lambda>st. holds unknown st p) (butlast (rule_expr object)) \<or> verdict unknown policy objects p)"

lemma verdict_plain:
  "list_all plain_rule objects \<Longrightarrow>
   verdict unknown policy objects p
     \<longleftrightarrow> policy = JStr ''accept'' \<or> list_ex (\<lambda>x. list_all (\<lambda>st. holds unknown st p) (butlast (rule_expr x))) objects"
  by (induction objects) auto

section \<open>Matches\<close>

definition in_view :: "acl_view \<Rightarrow> packet \<Rightarrow> bool" where
  "in_view v p \<longleftrightarrow>
     pk_family p = av_family v \<and> pk_protocol p = transport_number (av_protocol v)
     \<and> (is_valid (av_source v) \<longrightarrow> pk_src p = av_source v) \<and> (is_valid (av_destination v) \<longrightarrow> pk_dst p = av_destination v)
     \<and> fst (av_sport v) \<le> pk_sport p \<and> pk_sport p \<le> snd (av_sport v)
     \<and> fst (av_dport v) \<le> pk_dport p \<and> pk_dport p \<le> snd (av_dport v)"

definition proper_view :: "acl_view \<Rightarrow> bool" where
  "proper_view v \<longleftrightarrow> av_family v \<in> {4, 6} \<and> av_protocol v \<in> {''tcp'', ''udp''}"

lemma one_key:
  assumes "length (remdups (map fst (fields_of v))) = 1" and "jfield a v \<noteq> None" and "jfield b v \<noteq> None"
  shows "a = b"
proof -
  have "k \<in> set (remdups (map fst (fields_of v)))" if "jfield k v \<noteq> None" for k
    using that by (cases v) (auto simp: jfield_def fields_of_def map_of_eq_None_iff)
  then have "a \<in> set (remdups (map fst (fields_of v)))" "b \<in> set (remdups (map fst (fields_of v)))" using assms(2,3) by blast+
  moreover obtain x where "remdups (map fst (fields_of v)) = [x]" using assms(1) by (auto simp: length_Suc_conv)
  ultimately show ?thesis by simp
qed

lemma port_always:
  "nftACLPortAlways d op n \<Longrightarrow> fst d \<le> x \<Longrightarrow> x \<le> snd d \<Longrightarrow> compare_op op x n"
  by (auto simp: nftACLPortAlways_def compare_op_def split: if_splits)

definition names :: "json \<Rightarrow> string \<Rightarrow> nat \<Rightarrow> bool" where
  "names right symbol n \<longleftrightarrow>
     (case right of JStr t \<Rightarrow> t = symbol | _ \<Rightarrow> (case nftTransparentUint right of None \<Rightarrow> 0 | Some k \<Rightarrow> k) = n)"

lemma names_number:
  assumes "(\<exists>t\<in>{''ipv4'', ''ipv6'', ''tcp'', ''udp'', ''icmp'', ''ipv6-icmp''}. right = JStr t) \<or> nftTransparentUint right \<noteq> None"
    and "(symbol, n) \<in> {(''ipv4'', 2), (''ipv6'', 10), (''tcp'', 6), (''udp'', 17)}"
  shows "names right symbol n \<longleftrightarrow> number_of right = n"
proof (cases "\<exists>t. right = JStr t")
  case True
  then show ?thesis using assms by (auto simp: names_def number_of_def nftTransparentUint_def)
next
  case False
  with assms(1) obtain k where "nftTransparentUint right = Some k" by auto
  with False show ?thesis by (cases right) (simp_all add: names_def number_of_def)
qed

lemma meta_always_names:
  "meta_always key op right view \<longleftrightarrow>
     (let (actual, symbol) =
        (if key = JStr ''nfproto'' then (if av_family view = 6 then (10, ''ipv6'') else (2, ''ipv4''))
         else if av_protocol view = ''udp'' then (17, ''udp'') else (6, ''tcp''))
      in if op = ''!='' then \<not> names right symbol actual else names right symbol actual)"
  by (simp add: meta_always_def names_def Let_def)

lemma meta_always_holds:
  assumes "meta_always (jval ''key'' meta) op right view" and "in_view view p" and "op = ''=='' \<or> op = ''!=''"
    and "(\<exists>t\<in>{''ipv4'', ''ipv6'', ''tcp'', ''udp'', ''icmp'', ''ipv6-icmp''}. right = JStr t) \<or> nftTransparentUint right \<noteq> None"
  shows "compare_op op (meta_value meta p) (number_of right)"
proof -
  define actual where "actual = meta_value meta p"
  define symbol where "symbol =
    (if jval ''key'' meta = JStr ''nfproto'' then (if av_family view = 6 then ''ipv6'' else ''ipv4'')
     else if av_protocol view = ''udp'' then ''udp'' else ''tcp'')"
  have a: "actual = (if jval ''key'' meta = JStr ''nfproto'' then (if av_family view = 6 then 10 else 2)
      else if av_protocol view = ''udp'' then 17 else 6)"
    using assms(2) by (simp add: actual_def meta_value_def in_view_def transport_number_def)
  have s: "(symbol, actual) \<in> {(''ipv4'', 2), (''ipv6'', 10), (''tcp'', 6), (''udp'', 17)}"
    unfolding a symbol_def by (simp split: if_split)
  have "if op = ''!='' then \<not> names right symbol actual else names right symbol actual"
    using assms(1) unfolding meta_always_names a symbol_def by (simp split: if_splits)
  with names_number[OF assms(4) s] assms(3) show ?thesis
    by (auto simp: compare_op_def actual_def[symmetric])
qed

lemma payload_always_holds:
  assumes "payload_always payload op right view" and "in_view view p" and "proper_view view"
    and "payload_domain payload family \<noteq> UnknownDomain" and "nftTransparentConstant (payload_domain payload family) op right"
    and "jfield ''meta'' (jval ''left'' (jval ''match'' st)) = None" and "payload = jval ''payload'' (jval ''left'' (jval ''match'' st))"
    and "op = text_of (jval ''op'' (jval ''match'' st))" and "right = jval ''right'' (jval ''match'' st)"
  shows "holds unknown st p"
proof -
  define protocol where "protocol = text_of (jval ''protocol'' payload)"
  define field where "field = text_of (jval ''field'' payload)"
  have run: "holds unknown st p \<longleftrightarrow>
     (if protocol \<in> {''tcp'', ''udp''} then
        (if pk_protocol p = transport_number protocol
         then compare_op op (if field = ''sport'' then pk_sport p else pk_dport p) (number_of right)
         else unknown st p)
      else if (protocol = ''ip'') = (pk_family p = 4)
      then address_holds op (if field = ''saddr'' then pk_src p else pk_dst p) right
      else unknown st p)"
    using assms(6-9) by (simp add: holds_def Let_def protocol_def field_def)
  show ?thesis
  proof (cases "protocol \<in> {''tcp'', ''udp''}")
    case True
    then have d: "payload_domain payload family = PortDomain"
      using assms(4) by (auto simp: payload_domain_def Let_def protocol_def split: if_splits)
    then obtain n where n: "nftTransparentUint right = Some n" using assms(5) by (auto simp: nftTransparentConstant_def split: if_splits)
    then have num: "number_of right = n" by (auto simp: number_of_def nftTransparentUint_def split: json.splits)
    have "protocol = av_protocol view" and
      "nftACLPortAlways (if field = ''sport'' then av_sport view else av_dport view) op n"
      using assms(1) True n by (auto simp: payload_always_def Let_def protocol_def field_def)
    moreover from this(1) have "pk_protocol p = transport_number protocol" using assms(2) by (simp add: in_view_def)
    ultimately show ?thesis using run True assms(2) num by (auto simp: in_view_def intro: port_always)
  next
    case False
    then have d: "payload_domain payload family \<in> {IPv4Domain, IPv6Domain}"
      using assms(4) by (auto simp: payload_domain_def Let_def protocol_def split: if_splits)
    then have op: "op = ''=='' \<or> op = ''!=''" using assms(5) by (auto simp: nftTransparentConstant_def split: if_splits)
    define a where "a = (if field = ''saddr'' then av_source view else av_destination view)"
    have fam: "(protocol = ''ip'') = (av_family view = 4)" and valid: "is_valid a"
      and parsed: "\<exists>v. parse_addr (text_of right) = Some v \<and> (if op = ''!='' then a \<noteq> v else a = v)"
      using assms(1) False by (auto simp: payload_always_def Let_def protocol_def field_def a_def split: if_splits option.splits)
    have "(if field = ''saddr'' then pk_src p else pk_dst p) = a" "pk_family p = av_family view"
      using assms(2) valid by (auto simp: in_view_def a_def)
    with run False fam parsed op show ?thesis by (auto simp: address_holds_def)
  qed
qed

lemma always_holds:
  assumes "nftTransparentMatch st family \<or> protocol_match family st" and "nftACLMatchAlways st view"
    and "in_view view p" and "proper_view view"
  shows "holds unknown st p"
proof -
  define m where "m = jval ''match'' st"
  define left where "left = jval ''left'' m"
  define op where "op = text_of (jval ''op'' m)"
  define right where "right = jval ''right'' m"
  define d where "d = nftTransparentSelector left family"
  have known: "d \<noteq> UnknownDomain"
    using assms(1) by (auto simp: nftTransparentMatch_def protocol_match_def Let_def m_def left_def d_def)
  then have one: "length (remdups (map fst (fields_of left))) = 1"
    by (auto simp: d_def nftTransparentSelector_def split: if_splits)
  have const: "nftTransparentConstant d op right \<or>
      d = L4ProtoDomain \<and> (op = ''=='' \<or> op = ''!='') \<and> (right = JStr ''icmp'' \<or> right = JStr ''ipv6-icmp'' \<or> nftTransparentUint right \<noteq> None)"
    using assms(1) by (auto simp: nftTransparentMatch_def protocol_match_def Let_def m_def left_def d_def op_def right_def text_of_def
        split: json.splits option.splits)
  show ?thesis
  proof (cases "jfield ''meta'' left")
    case None
    obtain payload where pl: "jfield ''payload'' left = Some payload" "d = payload_domain payload family"
      using known one None by (auto simp: d_def nftTransparentSelector_def split: option.splits)
    have "d \<noteq> L4ProtoDomain" using pl(2) by (auto simp: payload_domain_def Let_def split: if_splits)
    with const have c: "nftTransparentConstant (payload_domain payload family) op right" using pl by blast
    have pv: "jval ''payload'' left = payload" using pl(1) by (simp add: jval_def)
    have "payload_always payload op right view"
      using assms(2) None pv by (simp add: nftACLMatchAlways_def Let_def m_def left_def op_def right_def)
    from payload_always_holds[OF this assms(3,4) _ c] known pl(2) None pv show ?thesis
      by (simp add: m_def left_def op_def right_def)
  next
    case (Some meta)
    have "jfield ''payload'' left = None" using one_key[OF one, of "''payload''" "''meta''"] Some by (cases "jfield ''payload'' left") auto
    then have md: "d = meta_domain meta" using one Some by (simp add: d_def nftTransparentSelector_def)
    then have dd: "d = NFProtoDomain \<or> d = L4ProtoDomain" using known by (auto simp: meta_domain_def split: if_splits)
    have op: "op = ''=='' \<or> op = ''!=''" using const dd by (auto simp: nftTransparentConstant_def split: if_splits)
    have right: "(\<exists>t\<in>{''ipv4'', ''ipv6'', ''tcp'', ''udp'', ''icmp'', ''ipv6-icmp''}. right = JStr t) \<or> nftTransparentUint right \<noteq> None"
      using const dd by (auto simp: nftTransparentConstant_def split: if_splits json.splits)
    have "meta_always (jval ''key'' meta) op right view"
      using assms(2) Some by (simp add: nftACLMatchAlways_def Let_def m_def left_def op_def right_def)
    from meta_always_holds[OF this assms(3) op right] Some show ?thesis
      by (simp add: holds_def Let_def m_def left_def op_def right_def)
  qed
qed

section \<open>Packets of a path\<close>

text \<open>
  The four forms a packet of a path has: to the listener, to the target after the translation, back from the target,
  and back as if from the listener.  The hooks before and after the two translations see different forms; at the
  priority of a translation either order is possible.  Source and client ports are arbitrary.
\<close>

datatype packet_form = Incoming | Translated | Reply | Restored

definition visible :: "string \<Rightarrow> int \<Rightarrow> packet_form set" where
  "visible hook priority =
     (if hook = ''prerouting'' then
        (if priority < - 100 then {Incoming, Reply} else if priority = - 100 then {Incoming, Translated, Reply}
         else {Translated, Reply})
      else if hook = ''postrouting'' then
        (if priority < 100 then {Translated, Reply} else if priority = 100 then {Translated, Reply, Restored}
         else {Translated, Restored})
      else {Translated, Reply})"

definition path_packet :: "nft_spec \<Rightarrow> packet_form \<Rightarrow> packet \<Rightarrow> bool" where
  "path_packet s form p \<longleftrightarrow>
     pk_family p = Family s \<and> pk_protocol p = transport_number (Protocol s) \<and> pk_sport p \<le> 65535 \<and> pk_dport p \<le> 65535
     \<and> (\<exists>q\<in>spec_ports s.
          case form of
            Incoming \<Rightarrow> (is_unspecified (ListenHost s) \<or> pk_dst p = ListenHost s) \<and> int (pk_dport p) = q
          | Translated \<Rightarrow> pk_dst p = TargetHost s \<and> int (pk_dport p) = TargetPort s + q - ListenPort s
          | Reply \<Rightarrow> pk_src p = TargetHost s \<and> int (pk_sport p) = TargetPort s + q - ListenPort s
          | Restored \<Rightarrow> (is_unspecified (ListenHost s) \<or> pk_src p = ListenHost s) \<and> int (pk_sport p) = q)"

lemma uint64_id: "0 \<le> n \<Longrightarrow> n \<le> 65535 \<Longrightarrow> uint64 n = nat n"
  by (simp add: uint64_def)

lemma spec_port_ranges:
  assumes "validateRetirementSpec s"
  shows "nftACLPortRange (ListenPort s) (ListenPortEnd s) = (nat (ListenPort s), nat (nftLastPort s))"
    "nftACLPortRange (TargetPort s) (TargetPortEnd s) = (nat (TargetPort s), nat (nftLastTargetPort s))"
    "q \<in> spec_ports s \<Longrightarrow> ListenPort s \<le> q \<and> q \<le> nftLastPort s
       \<and> TargetPort s \<le> TargetPort s + q - ListenPort s \<and> TargetPort s + q - ListenPort s \<le> nftLastTargetPort s"
    "0 < ListenPort s" "0 < TargetPort s"
  using assms by (auto simp: validateRetirementSpec_def nftACLPortRange_def nftLastPort_def nftLastTargetPort_def uint64_id
      spec_ports_def split: if_splits)

lemma views_proper: "validateRetirementSpec s \<Longrightarrow> v \<in> set (nftACLViews s hook priority) \<Longrightarrow> proper_view v"
  by (auto simp: nftACLViews_def Let_def target_view_def reply_view_def proper_view_def validateRetirementSpec_def split: if_splits)

lemma views_cover:
  assumes "validateRetirementSpec s" and "form \<in> visible hook priority" and "path_packet s form p"
  shows "\<exists>v\<in>set (nftACLViews s hook priority). in_view v p"
proof -
  define before where "before = (target_view s)\<lparr>av_destination := listen_address s, av_dport := nftACLPortRange (ListenPort s) (ListenPortEnd s)\<rparr>"
  define after where "after = (reply_view s)\<lparr>av_source := listen_address s, av_sport := nftACLPortRange (ListenPort s) (ListenPortEnd s)\<rparr>"
  define view where "view = (case form of Incoming \<Rightarrow> before | Translated \<Rightarrow> target_view s | Reply \<Rightarrow> reply_view s | Restored \<Rightarrow> after)"
  obtain q where q: "q \<in> spec_ports s" using assms(3) by (auto simp: path_packet_def)
  note r = spec_port_ranges[OF assms(1)]
  have "in_view view p"
    using assms(3) r(3) r(4,5)
    by (cases form)
      (force simp: path_packet_def view_def in_view_def before_def after_def target_view_def reply_view_def r(1,2)
        listen_address_def any_port_def is_valid_def)+
  moreover have "view \<in> set (nftACLViews s hook priority)"
    using assms(2)
    by (auto simp: view_def visible_def nftACLViews_def Let_def before_def after_def split: if_splits)
  ultimately show ?thesis by blast
qed

section \<open>One chain\<close>

lemma keys_present: "nftTransparentKeys v ks \<Longrightarrow> k \<in> set ks \<Longrightarrow> jfield k v \<noteq> None"
  by (auto simp: nftTransparentKeys_def list_all_iff)

lemma syntax_plain: "nftACLRuleSyntax (jval ''rule'' object) family \<Longrightarrow> plain_rule object"
  by (auto simp: nftACLRuleSyntax_def plain_rule_def rule_expr_def nftTransparentMatch_def protocol_match_def list_all_iff
      split: option.splits)

lemma syntax_matches:
  "nftACLRuleSyntax (jval ''rule'' object) family \<Longrightarrow> st \<in> set (butlast (rule_expr object)) \<Longrightarrow>
   nftTransparentMatch st family \<or> protocol_match family st"
  by (auto simp: nftACLRuleSyntax_def rule_expr_def list_all_iff split: option.splits)

lemma check_syntax_ok:
  "check_syntax family objects work = Inr (True, work') \<Longrightarrow> list_all (\<lambda>x. nftACLRuleSyntax (jval ''rule'' x) family) objects"
  by (induction objects arbitrary: work) (auto split: sum.splits if_splits simp: rbind_eq_Inr)

lemma find_accepting_ok:
  "find_accepting view objects work = Inr (True, work') \<Longrightarrow>
   \<exists>x\<in>set objects. list_all (\<lambda>st. nftACLMatchAlways st view) (butlast (rule_expr x))"
  by (induction objects arbitrary: work) (auto split: if_splits simp: rbind_eq_Inr)

lemma all_views_ok:
  "all_views objects views work = Inr (True, work') \<Longrightarrow> view \<in> set views \<Longrightarrow>
   \<exists>x\<in>set objects. list_all (\<lambda>st. nftACLMatchAlways st view) (butlast (rule_expr x))"
  by (induction views arbitrary: work) (auto split: if_splits simp: rbind_eq_Inr dest: find_accepting_ok)

theorem chain_sound:
  assumes "nftACLChainAccepts c s work = Inr (True, work')" and "validateRetirementSpec s"
    and "parse_priority (jval ''prio'' (ac_fields c)) = Some priority"
    and "form \<in> visible (text_of (jval ''hook'' (ac_fields c))) priority" and "path_packet s form p"
  shows "verdict unknown (jval ''policy'' (ac_fields c)) (ac_rules c) p"
proof (cases "accepts_empty c")
  case True
  then show ?thesis by (simp add: accepts_empty_def)
next
  case False
  define family where "family = text_of (jval ''family'' (ac_fields c))"
  from assms(1,3) False obtain work1 work2 where
    syn: "check_syntax family (ac_rules c) work1 = Inr (True, work2)"
    and rest: "jval ''policy'' (ac_fields c) = JStr ''accept''
      \<or> all_views (ac_rules c) (nftACLViews s (text_of (jval ''hook'' (ac_fields c))) priority) work2 = Inr (True, work')"
    unfolding nftACLChainAccepts_def rbind_eq_Inr Let_def family_def
    by (auto simp: rbind_eq_Inr split: if_splits)
  have ok: "list_all (\<lambda>x. nftACLRuleSyntax (jval ''rule'' x) family) (ac_rules c)" using check_syntax_ok[OF syn] .
  then have plain: "list_all plain_rule (ac_rules c)" by (auto simp: list_all_iff intro: syntax_plain)
  show ?thesis
  proof (cases "jval ''policy'' (ac_fields c) = JStr ''accept''")
    case True
    then show ?thesis using verdict_plain[OF plain] by blast
  next
    case False
    obtain v where v: "v \<in> set (nftACLViews s (text_of (jval ''hook'' (ac_fields c))) priority)" "in_view v p"
      using views_cover[OF assms(2,4,5)] by blast
    from rest False all_views_ok[OF _ v(1)] obtain x where x: "x \<in> set (ac_rules c)"
      "list_all (\<lambda>st. nftACLMatchAlways st v) (butlast (rule_expr x))" by blast
    have "holds unknown st p" if "st \<in> set (butlast (rule_expr x))" for st
    proof (rule always_holds)
      show "nftTransparentMatch st family \<or> protocol_match family st"
        using ok x(1) that syntax_matches[of x family st] by (auto simp: list_all_iff)
      show "nftACLMatchAlways st v" using x(2) that by (auto simp: list_all_iff)
      show "in_view v p" "proper_view v" using v views_proper[OF assms(2)] by auto
    qed
    then have "list_ex (\<lambda>x. list_all (\<lambda>st. holds unknown st p) (butlast (rule_expr x))) (ac_rules c)"
      using x(1) by (auto simp: list_ex_iff list_all_iff)
    then show ?thesis using verdict_plain[OF plain] by blast
  qed
qed

section \<open>A listing\<close>

text \<open>The chains of a listing, and the rules of a chain in their order.\<close>

definition chain_at :: "json \<Rightarrow> json list" where
  "chain_at x = (case jobject ''chain'' x of None \<Rightarrow> [] | Some c \<Rightarrow> [c])"

definition listed_chains :: "json list \<Rightarrow> json list" where
  "listed_chains objects = concat (map chain_at objects)"

definition rules_of :: "json list \<Rightarrow> string \<Rightarrow> json list" where
  "rules_of objects key = filter (\<lambda>x. case jobject ''rule'' x of None \<Rightarrow> False | Some r \<Rightarrow> nftHookRuleIdentity r = key) objects"

lemma listed_chains_Cons [simp]: "listed_chains (x # xs) = chain_at x @ listed_chains xs" "listed_chains [] = []"
  by (simp_all add: listed_chains_def)

text \<open>The chain sees forwarded packets of a family, and is not the program's own.\<close>

definition concerns :: "json \<Rightarrow> nft_spec \<Rightarrow> bool" where
  "concerns c s \<longleftrightarrow> \<not> irrelevant c s"

definition lets_through :: "json list \<Rightarrow> json \<Rightarrow> nft_spec \<Rightarrow> bool" where
  "lets_through objects c s \<longleftrightarrow>
     (\<exists>priority. parse_priority (jval ''prio'' c) = Some priority
        \<and> (\<forall>unknown. \<forall>form\<in>visible (text_of (jval ''hook'' c)) priority. \<forall>p. path_packet s form p \<longrightarrow>
             verdict unknown (jval ''policy'' c) (rules_of objects (nftHookIdentity c)) p))"

lemma take_work_result [simp]: "take_work n work = Inr work' \<longleftrightarrow> int n \<le> work \<and> work' = work - int n"
  by (auto simp: take_work_def)

lemma list_chains_other:
  "list_chains objects al work = Inr (al', work') \<Longrightarrow> k \<notin> nftHookIdentity ` set (listed_chains objects) \<Longrightarrow>
   al_chains al' k = al_chains al k"
proof (induction objects arbitrary: al work)
  case Nil
  then show ?case by simp
next
  case (Cons x xs)
  then show ?case by (fastforce simp: chain_at_def Let_def split: option.splits)
qed

lemma list_chains_order:
  "list_chains objects al work = Inr (al', work') \<Longrightarrow> al_order al' = al_order al @ map nftHookIdentity (listed_chains objects)"
  by (induction objects arbitrary: al work) (auto simp: chain_at_def Let_def split: option.splits)

lemma list_chains_hit:
  "list_chains objects al work = Inr (al', work') \<Longrightarrow> distinct (map nftHookIdentity (listed_chains objects)) \<Longrightarrow>
   c \<in> set (listed_chains objects) \<Longrightarrow>
   \<exists>x. al_chains al' (nftHookIdentity c) = Some \<lparr>ac_object = x, ac_fields = c, ac_parent = JNull, ac_rules = []\<rparr>"
proof (induction objects arbitrary: al work)
  case Nil
  then show ?case by simp
next
  case (Cons x xs)
  show ?case
  proof (cases "jobject ''chain'' x")
    case None
    then show ?thesis using Cons by (auto simp: chain_at_def Let_def split: option.splits)
  next
    case (Some d)
    then have at: "chain_at x = [d]" by (simp add: chain_at_def)
    obtain al1 work1 where run: "list_chains xs al1 work1 = Inr (al', work')"
      "al_chains al1 (nftHookIdentity d) = Some \<lparr>ac_object = x, ac_fields = d, ac_parent = JNull, ac_rules = []\<rparr>"
      using Cons.prems(1) Some by (auto simp: Let_def)
    show ?thesis
    proof (cases "c = d")
      case True
      have "nftHookIdentity d \<notin> nftHookIdentity ` set (listed_chains xs)" using Cons.prems(2) at by auto
      from list_chains_other[OF run(1) this] run(2) True show ?thesis by simp
    next
      case False
      then show ?thesis using Cons.IH[OF run(1)] Cons.prems(2,3) at by auto
    qed
  qed
qed

lemma attach_rules_result:
  "attach_rules objects cs = Inr cs' \<Longrightarrow>
   cs' k = map_option (\<lambda>c. c\<lparr>ac_rules := ac_rules c @ rules_of objects k\<rparr>) (cs k)"
proof (induction objects arbitrary: cs)
  case Nil
  then show ?case by (cases "cs k") (simp_all add: rules_of_def)
next
  case (Cons x xs)
  show ?case
  proof (cases "jobject ''rule'' x")
    case None
    then show ?thesis using Cons by (simp add: rules_of_def)
  next
    case (Some r)
    obtain c where c: "cs (nftHookRuleIdentity r) = Some c" using Cons.prems Some by (auto split: option.splits)
    then have "attach_rules xs (cs(nftHookRuleIdentity r \<mapsto> c\<lparr>ac_rules := ac_rules c @ [x]\<rparr>)) = Inr cs'"
      using Cons.prems Some by simp
    from Cons.IH[OF this] Some c show ?thesis by (auto simp: rules_of_def)
  qed
qed

lemma attach_parents_result:
  "attach_parents tables order cs = Inr cs' \<Longrightarrow> cs k = Some c \<Longrightarrow> \<exists>t. cs' k = Some (c\<lparr>ac_parent := t\<rparr>)"
  by (auto simp: attach_parents_def split: if_splits)

lemma prove_scope_result:
  "prove_scope cs s ks sel work = Inr (Some sel', work') \<Longrightarrow> k \<in> set ks \<Longrightarrow> cs k = Some c \<Longrightarrow>
   irrelevant (ac_fields c) s \<or> (\<exists>w w'. nftACLChainAccepts c s w = Inr (True, w'))"
  by (induction ks arbitrary: sel work) (auto split: option.splits if_splits)

lemma prove_scopes_result:
  "prove_scopes cs order affected ss found work = Inr (allowed, used) \<Longrightarrow> s \<in> set allowed \<Longrightarrow>
   s \<in> set (fst found) \<or> s \<in> set ss \<and> EnableFlowtable s \<and> validateRetirementSpec s
     \<and> (\<exists>sel w w'. prove_scope cs s order [] w = Inr (Some sel, w'))"
proof (induction ss arbitrary: found work)
  case Nil
  then show ?case by simp
next
  case (Cons t ss)
  show ?case
  proof (cases "\<not> EnableFlowtable t \<or> affected AND (if Family t = 6 then 2 else 1) = 0 \<or> \<not> validateRetirementSpec t")
    case True
    then have "prove_scopes cs order affected ss found work = Inr (allowed, used)"
      using Cons.prems(1) by (simp only: prove_scopes.simps if_P)
    from Cons.IH[OF this Cons.prems(2)] show ?thesis by auto
  next
    case False
    obtain r w1 where r: "prove_scope cs t order [] work = Inr (r, w1)"
      and rest: "prove_scopes cs order affected ss
        (case r of None \<Rightarrow> found | Some selected \<Rightarrow> (fst found @ [t], snd found @ selected)) w1 = Inr (allowed, used)"
      using Cons.prems(1) unfolding prove_scopes.simps if_not_P[OF False] by auto
    from Cons.IH[OF rest Cons.prems(2)] r False show ?thesis by (cases r) auto
  qed
qed

text \<open>A permitted path: every foreign chain of the listing that concerns it lets all its packets through.\<close>

theorem selective_sound:
  assumes "nftProveSelectiveScopes objects conflicts specs = Inr (allowed, key)" and "s \<in> set allowed"
    and "distinct (map nftHookIdentity (listed_chains objects))" and "c \<in> set (listed_chains objects)" and "concerns c s"
  shows "s \<in> set specs \<and> EnableFlowtable s \<and> validateRetirementSpec s \<and> lets_through objects c s"
proof -
  obtain al work cs0 cs used where
    l: "list_chains objects \<lparr>al_tables = (\<lambda>_. None), al_chains = (\<lambda>_. None), al_order = []\<rparr> maxNFTSelectiveWork = Inr (al, work)"
    and r: "attach_rules objects (al_chains al) = Inr cs0" and p: "attach_parents (al_tables al) (al_order al) cs0 = Inr cs"
    and q: "prove_scopes cs (al_order al) (nftHookFamilies conflicts) specs ([], []) work = Inr (allowed, used)"
    using assms(1,2) by (auto simp: nftProveSelectiveScopes_def split: if_splits prod.splits)
  from prove_scopes_result[OF q assms(2)] obtain sel w w' where
    s: "s \<in> set specs" "EnableFlowtable s" "validateRetirementSpec s" and
    one: "prove_scope cs s (al_order al) [] w = Inr (Some sel, w')" by auto
  let ?k = "nftHookIdentity c"
  from list_chains_hit[OF l assms(3,4)] attach_rules_result[OF r, of ?k] obtain x where
    "cs0 ?k = Some \<lparr>ac_object = x, ac_fields = c, ac_parent = JNull, ac_rules = rules_of objects ?k\<rparr>" by auto
  from attach_parents_result[OF p this] obtain d where
    d: "cs ?k = Some d" "ac_fields d = c" "ac_rules d = rules_of objects ?k" by auto
  have "?k \<in> set (al_order al)" using list_chains_order[OF l] assms(4) by auto
  from prove_scope_result[OF one this d(1)] d(2) assms(5) obtain w1 w2 where
    acc: "nftACLChainAccepts d s w1 = Inr (True, w2)" by (auto simp: concerns_def)
  then obtain priority where pr: "parse_priority (jval ''prio'' c) = Some priority"
    using d(2) by (auto simp: nftACLChainAccepts_def Let_def split: if_splits option.splits)
  have "lets_through objects c s"
    unfolding lets_through_def
    using pr chain_sound[OF acc s(3)] d(2,3) by auto
  with s show ?thesis by blast
qed

end
