(* ===== verification/Nft_Proof_Admission.thy ===== *)
theory Nft_Proof_Admission
  imports Nft_Proof_Sound
begin

text \<open>
  Chains that are proved compatible as a whole, the two readings, and admission on top of them: what is admitted to
  the fast path would have been accepted by every foreign chain after the managed ones.
\<close>

section \<open>The inventory\<close>

definition listed_rules :: "json list \<Rightarrow> json list" where
  "listed_rules objects = concat (map (\<lambda>x. case jobject ''rule'' x of None \<Rightarrow> [] | Some r \<Rightarrow> [r]) objects)"

lemma proof_object_result:
  "nftProofObject x = Inr (kind, v) \<Longrightarrow>
   jobject k x = (if k = kind then Some v else None)"
  by (auto simp: nftProofObject_def jobject_def is_object_def split: json.splits list.splits if_splits)

lemma add_object_result:
  assumes "add_object x iv = Inr iv'"
  shows "map fst (iv_chains iv') = map fst (iv_chains iv) @ map nftHookIdentity (chain_at x)"
    and "(k, c) \<in> set (iv_chains iv') \<Longrightarrow> (k, c) \<in> set (iv_chains iv) \<or> c \<in> set (chain_at x) \<and> k = nftHookIdentity c"
    and "iv_rules iv' = iv_rules iv @ listed_rules [x]"
    and "distinct (map fst (iv_chains iv)) \<Longrightarrow> distinct (map fst (iv_chains iv'))"
proof -
  obtain kind v where o: "nftProofObject x = Inr (kind, v)" using assms by (auto simp: add_object_def)
  note r = proof_object_result[OF o]
  have at: "chain_at x = (if kind = ''chain'' then [v] else [])" "listed_rules [x] = (if kind = ''rule'' then [v] else [])"
    using r by (auto simp: chain_at_def listed_rules_def)
  note d = add_object_def add_table_def add_chain_def add_rule_def add_flowtable_def
  show "map fst (iv_chains iv') = map fst (iv_chains iv) @ map nftHookIdentity (chain_at x)"
    "iv_rules iv' = iv_rules iv @ listed_rules [x]"
    "distinct (map fst (iv_chains iv)) \<Longrightarrow> distinct (map fst (iv_chains iv'))"
    "(k, c) \<in> set (iv_chains iv') \<Longrightarrow> (k, c) \<in> set (iv_chains iv) \<or> c \<in> set (chain_at x) \<and> k = nftHookIdentity c"
    using assms o at by (auto simp: d split: if_splits)
qed

lemma collect_inventory_result:
  assumes "collect_inventory objects iv = Inr iv'"
  shows "map fst (iv_chains iv') = map fst (iv_chains iv) @ map nftHookIdentity (listed_chains objects)"
    and "(k, c) \<in> set (iv_chains iv') \<Longrightarrow> (k, c) \<in> set (iv_chains iv) \<or> c \<in> set (listed_chains objects) \<and> k = nftHookIdentity c"
    and "iv_rules iv' = iv_rules iv @ listed_rules objects"
    and "distinct (map fst (iv_chains iv)) \<Longrightarrow> distinct (map fst (iv_chains iv'))"
proof -
  have "map fst (iv_chains iv') = map fst (iv_chains iv) @ map nftHookIdentity (listed_chains objects)
      \<and> ((k, c) \<in> set (iv_chains iv') \<longrightarrow> (k, c) \<in> set (iv_chains iv) \<or> c \<in> set (listed_chains objects) \<and> k = nftHookIdentity c)
      \<and> iv_rules iv' = iv_rules iv @ listed_rules objects
      \<and> (distinct (map fst (iv_chains iv)) \<longrightarrow> distinct (map fst (iv_chains iv')))" for k c
    using assms
  proof (induction objects arbitrary: iv)
    case Nil
    then show ?case by (simp add: listed_rules_def)
  next
    case (Cons x xs)
    then obtain iv1 where a: "add_object x iv = Inr iv1" and c: "collect_inventory xs iv1 = Inr iv'" by auto
    have l: "listed_rules (x # xs) = listed_rules [x] @ listed_rules xs" by (simp add: listed_rules_def)
    note r = add_object_result[OF a] and IH = Cons.IH[OF c]
    have 1: "map fst (iv_chains iv') = map fst (iv_chains iv) @ map nftHookIdentity (listed_chains (x # xs))"
      using IH r(1) by simp
    have 2: "iv_rules iv' = iv_rules iv @ listed_rules (x # xs)" using IH r(3) l by simp
    have 3: "(k, c) \<in> set (iv_chains iv) \<or> c \<in> set (listed_chains (x # xs)) \<and> k = nftHookIdentity c" if "(k, c) \<in> set (iv_chains iv')"
      using IH that r(2)[of k c] by auto
    have 4: "distinct (map fst (iv_chains iv'))" if "distinct (map fst (iv_chains iv))" using IH r(4)[OF that] by blast
    show ?case using 1 2 3 4 by blast
  qed
  then show "map fst (iv_chains iv') = map fst (iv_chains iv) @ map nftHookIdentity (listed_chains objects)"
    "(k, c) \<in> set (iv_chains iv') \<Longrightarrow> (k, c) \<in> set (iv_chains iv) \<or> c \<in> set (listed_chains objects) \<and> k = nftHookIdentity c"
    "iv_rules iv' = iv_rules iv @ listed_rules objects"
    "distinct (map fst (iv_chains iv)) \<Longrightarrow> distinct (map fst (iv_chains iv'))"
    by blast+
qed

lemma check_rules_result:
  "check_rules iv seen rules compatible = Inr compatible' \<Longrightarrow> compatible' key \<Longrightarrow>
   compatible key \<and> (\<forall>r\<in>set rules. nftHookRuleIdentity r = key \<longrightarrow>
     (\<exists>c. map_of (iv_chains iv) key = Some c \<and> nftTransparentAcceptRule r (text_of (jval ''family'' c))))"
proof (induction rules arbitrary: seen compatible)
  case Nil
  then show ?case by simp
next
  case (Cons rule rules)
  obtain c where c: "map_of (iv_chains iv) (nftHookRuleIdentity rule) = Some c"
    using Cons.prems(1) by (auto simp: Let_def split: option.splits)
  then obtain seen' where "check_rules iv seen' rules (compatible(nftHookRuleIdentity rule :=
        nftTransparentAcceptRule rule (text_of (jval ''family'' c)) \<and> compatible (nftHookRuleIdentity rule))) = Inr compatible'"
    using Cons.prems(1) by (auto simp: Let_def split: if_splits)
  from Cons.IH[OF this Cons.prems(2)] c show ?case by (auto split: if_splits)
qed

lemma transparent_plain:
  assumes "jobject ''rule'' x = Some r" and "nftTransparentAcceptRule r family"
  shows "plain_rule x"
proof -
  have v: "jval ''rule'' x = r" using assms(1) by (auto simp: jobject_def jval_def split: option.splits json.splits)
  obtain expr where e: "jarray ''expr'' r = Some expr" "expr \<noteq> []" using assms(2)
    by (auto simp: nftTransparentAcceptRule_def split: option.splits if_splits)
  then have rx: "rule_expr x = expr" by (simp add: rule_expr_def v)
  show ?thesis
  proof (cases "length expr = 1")
    case True
    then obtain y where "expr = [y]" by (auto simp: length_Suc_conv)
    then show ?thesis using assms(2) e rx by (auto simp: nftTransparentAcceptRule_def nftPureAcceptRule_def plain_rule_def)
  next
    case False
    then show ?thesis using assms(2) e rx
      by (auto simp: nftTransparentAcceptRule_def nftTransparentMatch_def plain_rule_def list_all_iff split: if_splits)
  qed
qed

theorem compatible_sound:
  assumes "nftProvablyCompatibleHooks objects = Inr compatible"
  shows "distinct (map nftHookIdentity (listed_chains objects))"
    and "c \<in> set (listed_chains objects) \<Longrightarrow> compatible (nftHookIdentity c) \<Longrightarrow>
      verdict unknown (jval ''policy'' c) (rules_of objects (nftHookIdentity c)) p"
proof -
  obtain iv where iv: "collect_inventory objects empty_inventory = Inr iv"
    and rules: "check_rules iv {} (iv_rules iv) (\<lambda>k. case map_of (iv_chains iv) k of None \<Rightarrow> False | Some c \<Rightarrow> accepting_chain iv c)
      = Inr compatible"
    using assms by (auto simp: nftProvablyCompatibleHooks_def split: if_splits)
  note r = collect_inventory_result[OF iv]
  have names: "map fst (iv_chains iv) = map nftHookIdentity (listed_chains objects)" using r(1) by simp
  have "distinct (map fst (iv_chains iv))" using r(4) by simp
  then show d: "distinct (map nftHookIdentity (listed_chains objects))" unfolding names .
  assume c: "c \<in> set (listed_chains objects)" and ok: "compatible (nftHookIdentity c)"
  let ?k = "nftHookIdentity c"
  note cr = check_rules_result[OF rules ok]
  then obtain c' where c': "map_of (iv_chains iv) ?k = Some c'" "accepting_chain iv c'" by (auto split: option.splits)
  then have "c' \<in> set (listed_chains objects)" "nftHookIdentity c' = ?k"
    using r(2)[OF map_of_SomeD[OF c'(1)]] by simp_all
  with d c have "c' = c" by (auto simp: distinct_map inj_on_def)
  then have policy: "jval ''policy'' c = JStr ''accept''" using c'(2) by (simp add: accepting_chain_def)
  have "plain_rule x" if x: "x \<in> set (rules_of objects ?k)" for x
  proof -
    obtain ru where ru: "jobject ''rule'' x = Some ru" "nftHookRuleIdentity ru = ?k" "x \<in> set objects"
      using x by (auto simp: rules_of_def split: option.splits)
    then have "ru \<in> set (iv_rules iv)" using r(3) by (force simp: listed_rules_def)
    with cr ru(2) obtain f where "nftTransparentAcceptRule ru f" by blast
    from transparent_plain[OF ru(1) this] show ?thesis .
  qed
  then have "list_all plain_rule (rules_of objects ?k)" by (simp add: list_all_iff)
  from verdict_plain[OF this] policy show "verdict unknown (jval ''policy'' c) (rules_of objects ?k) p" by blast
qed

section \<open>The two readings\<close>

lemma conflicts_listed: "c \<in> conflicts_in objects \<Longrightarrow> c \<in> set (listed_chains objects)"
  by (force simp: conflicts_in_def listed_chains_def chain_at_def)

lemma conflict_priority: "c \<in> conflicts_in objects \<Longrightarrow> \<exists>priority. parse_priority (jval ''prio'' c) = Some priority"
  by (auto simp: conflicts_in_def conflicting_chain_def Let_def split: if_splits option.splits)

lemma chain_of_conflict: "jval ''chain'' (JObj [(''chain'', c)]) = c"
  by simp

theorem readings_sound:
  assumes "verifyNFTSelectiveExternalHooks before after l1 l2 initial specs = Inr (remaining, permitted)"
  shows "\<exists>objects current. l2 = Some objects
    \<and> nftConflictingHooks objects = Inr current \<and> nftProofInventoryKey current = nftProofInventoryKey initial
    \<and> (\<forall>c\<in>conflicts_in objects. JObj [(''chain'', c)] \<in> set remaining \<or> (\<forall>s. lets_through objects c s))
    \<and> (\<forall>x\<in>set remaining. \<exists>c\<in>conflicts_in objects. x = JObj [(''chain'', c)])
    \<and> (\<forall>s\<in>set permitted. s \<in> set specs \<and> (\<forall>c\<in>conflicts_in objects. concerns c s \<longrightarrow> lets_through objects c s))"
proof -
  obtain key2 where pass: "proof_pass l2 initial specs = Inr (remaining, permitted, key2)"
    using assms by (auto simp: verifyNFTSelectiveExternalHooks_def split: if_splits sum.splits)
  then obtain objects current compatible scoped where o: "l2 = Some objects" "nftConflictingHooks objects = Inr current"
    and same: "nftProofInventoryKey current = nftProofInventoryKey initial"
    and comp: "nftProvablyCompatibleHooks objects = Inr compatible"
    and rem: "remaining = filter (\<lambda>x. \<not> compatible (nftHookIdentity (jval ''chain'' x))) current"
    and sel: "nftProveSelectiveScopes objects remaining specs = Inr (permitted, scoped)"
    by (auto simp: proof_pass_def Let_def split: option.splits sum.splits if_splits)
  note cur = nftConflictingHooks_result[OF o(2)]
  have A: "JObj [(''chain'', c)] \<in> set remaining \<or> lets_through objects c s" if c: "c \<in> conflicts_in objects" for c s
  proof (cases "compatible (nftHookIdentity c)")
    case True
    from compatible_sound(2)[OF comp conflicts_listed[OF c] True] conflict_priority[OF c] show ?thesis
      by (auto simp: lets_through_def)
  next
    case False
    then show ?thesis using c cur by (auto simp: rem)
  qed
  moreover have "s \<in> set specs \<and> (\<forall>c\<in>conflicts_in objects. concerns c s \<longrightarrow> lets_through objects c s)"
    if s: "s \<in> set permitted" for s
  proof -
    have "s \<in> set specs"
      using sel s by (auto simp: nftProveSelectiveScopes_def dest!: prove_scopes_result split: if_splits)
    moreover have "lets_through objects c s" if "c \<in> conflicts_in objects" "concerns c s" for c
      using selective_sound[OF sel s compatible_sound(1)[OF comp] conflicts_listed[OF that(1)] that(2)] by blast
    ultimately show ?thesis by blast
  qed
  moreover have "\<forall>x\<in>set remaining. \<exists>c\<in>conflicts_in objects. x = JObj [(''chain'', c)]" using cur by (auto simp: rem)
  ultimately show ?thesis using o same by blast
qed

section \<open>Admission\<close>

lemma covered_packet:
  assumes "nftSelectiveScopeCovers a s" and "path_packet s form p"
  shows "path_packet a form p"
proof -
  have f: "Family a = Family s" "Protocol a = Protocol s" "ListenHost a = ListenHost s" "TargetHost a = TargetHost s"
    "\<And>q. TargetPort a + q - ListenPort a = TargetPort s + q - ListenPort s" "spec_ports s \<subseteq> spec_ports a"
    using assms(1) by (auto simp: nftSelectiveScopeCovers_def spec_ports_def)
  have "\<And>q. q \<in> spec_ports s \<Longrightarrow> q \<in> spec_ports a" using f(6) by blast
  then show ?thesis using assms(2) by (cases form) (auto simp: path_packet_def f(1-5))
qed

lemma covered_through: "nftSelectiveScopeCovers a s \<Longrightarrow> lets_through objects c a \<Longrightarrow> lets_through objects c s"
  unfolding lets_through_def by (meson covered_packet)

lemma covered_concerns: "nftSelectiveScopeCovers a s \<Longrightarrow> concerns c s \<Longrightarrow> concerns c a"
  by (simp add: nftSelectiveScopeCovers_def concerns_def irrelevant_def)

lemma concerned_mask:
  assumes "c \<in> conflicts_in objects" and "concerns c s"
  shows "chain_mask (JObj [(''chain'', c)]) AND family_mask (Family s) \<noteq> 0"
proof -
  obtain x where x: "jobject ''chain'' x = Some c" "conflicting_chain c = Inr True"
    using assms(1) by (auto simp: conflicts_in_def)
  have "text_of (jval ''family'' c) \<in> {''inet'', ''ip'', ''ip6''}"
    using x(2) by (auto simp: conflicting_chain_def Let_def split: if_splits option.splits)
  then have f: "jval ''family'' c \<in> {JStr ''inet'', JStr ''ip'', JStr ''ip6''}"
    by (auto simp: text_of_def split: json.splits)
  obtain kvs where "c = JObj kvs" using x(1) by (auto simp: jobject_def split: option.splits json.splits)
  then have "jobject ''chain'' (JObj [(''chain'', c)]) = Some c" by (simp add: jobject_def)
  with f assms(2) show ?thesis by (auto simp: chain_mask_def Let_def family_mask_def concerns_def irrelevant_def)
qed

theorem admitted_through:
  assumes "checkAdmissionFor (Some (verifyNFTSelectiveExternalHooks before after l1 l2)) (Some hooks) specs = None"
    and "nftConflictingHooks hooks = Inr cs" and "s \<in> set specs" and "EnableFlowtable s"
  shows "(\<forall>c\<in>conflicts_in hooks. \<not> concerns c s)
    \<or> (\<exists>objects current. l2 = Some objects
        \<and> nftConflictingHooks objects = Inr current \<and> nftProofInventoryKey current = nftProofInventoryKey cs
        \<and> (\<forall>c\<in>conflicts_in objects. concerns c s \<longrightarrow> lets_through objects c s))"
proof (cases "cs = []")
  case True
  then show ?thesis using nftConflictingHooks_result[OF assms(2)] by auto
next
  case cs: False
  let ?verify = "verifyNFTSelectiveExternalHooks before after l1 l2"
  have rejected: "\<not> affects e s" if "checkFlowtableAdmissionFor (Some ?verify) (Some hooks) specs = Some (Admission e)" for e
    using assms(1,3) that by (auto simp: checkAdmissionFor_def list_ex_iff split: if_splits)
  show ?thesis
  proof (cases "?verify cs specs")
    case (Inl extra)
    define e where "e = \<lparr>ad_families = nftHookFamilies cs OR extra, ad_inspection = True, ad_permitted = []\<rparr>"
    have "checkFlowtableAdmissionFor (Some ?verify) (Some hooks) specs = Some (Admission e)"
      using assms(2) cs Inl by (cases cs) (auto simp: checkFlowtableAdmissionFor_def Let_def e_def)
    from rejected[OF this] assms(4) have "(nftHookFamilies cs OR extra) AND family_mask (Family s) = 0"
      by (auto simp: affects_def e_def family_mask_def Let_def split: if_splits)
    then have "nftHookFamilies cs AND family_mask (Family s) = 0" by (simp add: bit.conj_disj_distrib2 or_eq_0_iff)
    then have "chain_mask x AND family_mask (Family s) = 0" if "x \<in> set cs" for x
      using that unfolding nftHookFamilies_def foldl_or_zero by blast
    then have "\<not> concerns c s" if "c \<in> conflicts_in hooks" for c
      using concerned_mask[OF that] nftConflictingHooks_result[OF assms(2)] that by auto
    then show ?thesis by blast
  next
    case (Inr q)
    obtain remaining permitted where q: "q = (remaining, permitted)" by fastforce
    obtain objects current where o: "l2 = Some objects" "nftConflictingHooks objects = Inr current"
      "nftProofInventoryKey current = nftProofInventoryKey cs"
      and A0: "\<forall>c\<in>conflicts_in objects. JObj [(''chain'', c)] \<in> set remaining \<or> (\<forall>s. lets_through objects c s)"
      and B0: "\<forall>s\<in>set permitted. s \<in> set specs \<and> (\<forall>c\<in>conflicts_in objects. concerns c s \<longrightarrow> lets_through objects c s)"
      using readings_sound[OF Inr[unfolded q]] by (elim exE conjE) (rule that)
    have A: "JObj [(''chain'', c)] \<in> set remaining \<or> lets_through objects c s" if "c \<in> conflicts_in objects" for c s
      using A0 that by blast
    have B: "lets_through objects c s" if "s \<in> set permitted" "c \<in> conflicts_in objects" "concerns c s" for s c
      using B0 that by blast
    have "lets_through objects c s" if c: "c \<in> conflicts_in objects" "concerns c s" for c
    proof (cases "JObj [(''chain'', c)] \<in> set remaining")
      case False
      then show ?thesis using A[OF c(1)] by blast
    next
      case True
      define m where "m = nftHookFamilies remaining"
      have seen: "m AND family_mask (Family s) \<noteq> 0"
        using concerned_mask[OF c] True unfolding m_def nftHookFamilies_def foldl_or_zero by blast
      then have "m \<noteq> 0" by auto
      then have "checkFlowtableAdmissionFor (Some ?verify) (Some hooks) specs
          = Some (Admission \<lparr>ad_families = m, ad_inspection = False, ad_permitted = permitted\<rparr>)"
        using assms(2) cs Inr q by (cases cs) (auto simp: checkFlowtableAdmissionFor_def Let_def m_def)
      from rejected[OF this] assms(4) seen obtain a where "a \<in> set permitted" "nftSelectiveScopeCovers a s"
        by (auto simp: list_ex_iff affects_def family_mask_def Let_def split: if_splits)
      from covered_through[OF this(2) B[OF this(1) c(1) covered_concerns[OF this(2) c(2)]]] show ?thesis .
    qed
    then have "\<forall>c\<in>conflicts_in objects. concerns c s \<longrightarrow> lets_through objects c s" by blast
    with o show ?thesis by (intro disjI2 exI conjI)
  qed
qed

end
