(* ===== verification/Props_Proof.thy ===== *)
theory Props_Proof
  imports Nft_Proof_Admission Nft_Backend_Plan
begin

text \<open>
  The property of the proof about foreign firewalls, on top of which acceleration is admitted.
\<close>

section \<open>A selective firewall\<close>

definition late_fields :: json where
  "late_fields = JObj [(''family'', JStr ''inet''), (''table'', JStr ''filter''), (''name'', JStr ''late''), (''handle'', JNum ''1''),
     (''type'', JStr ''filter''), (''hook'', JStr ''forward''), (''prio'', JNum ''2147483647''), (''policy'', JStr ''drop'')]"

definition payload_match :: "string \<Rightarrow> string \<Rightarrow> json \<Rightarrow> json" where
  "payload_match protocol field right =
     JObj [(''match'', JObj [(''op'', JStr ''==''),
        (''left'', JObj [(''payload'', JObj [(''protocol'', JStr protocol), (''field'', JStr field)])]), (''right'', right)])]"

definition late_rule :: "string \<Rightarrow> string \<Rightarrow> string \<Rightarrow> json" where
  "late_rule handle address port =
     JObj [(''rule'', JObj [(''family'', JStr ''inet''), (''table'', JStr ''filter''), (''chain'', JStr ''late''), (''handle'', JNum handle),
        (''expr'', JArr [payload_match ''ip'' address (JStr ''198.51.100.7''), payload_match ''tcp'' port (JNum ''9000''),
                       JObj [(''accept'', JNull)]])])]"

definition late_listing :: "json list" where
  "late_listing =
     [JObj [(''table'', JObj [(''family'', JStr ''inet''), (''name'', JStr ''filter''), (''handle'', JNum ''1'')])],
      JObj [(''chain'', late_fields)], late_rule ''2'' ''daddr'' ''dport'', late_rule ''3'' ''saddr'' ''sport'']"

definition late_hooks :: "json list" where
  "late_hooks = [JObj [(''chain'', late_fields)]]"

lemma late_conflicts: "nftConflictingHooks late_listing = Inr late_hooks" "nftConflictingHooks late_hooks = Inr late_hooks"
  by code_simp+

lemma late_inventory:
  "rbind (nftProvablyCompatibleHooks late_listing) (\<lambda>f. Inr (f (nftHookIdentity late_fields))) = Inr False"
  by code_simp

lemma late_proof:
  "rbind (nftProveSelectiveScopes late_listing late_hooks [fast_path]) (\<lambda>(allowed, key). Inr allowed) = Inr [fast_path]"
  by code_simp

lemma late_verified:
  "verifyNFTSelectiveExternalHooks True True (Some late_listing) (Some late_listing) late_hooks [fast_path]
     = Inr (late_hooks, [fast_path])"
proof -
  obtain f where f: "nftProvablyCompatibleHooks late_listing = Inr f" "\<not> f (nftHookIdentity late_fields)"
    using late_inventory by (cases "nftProvablyCompatibleHooks late_listing") (auto simp: rbind_def)
  obtain key where key: "nftProveSelectiveScopes late_listing late_hooks [fast_path] = Inr ([fast_path], key)"
    using late_proof by (cases "nftProveSelectiveScopes late_listing late_hooks [fast_path]") (auto simp: rbind_def)
  have r: "filter (\<lambda>x. \<not> f (nftHookIdentity (jval ''chain'' x))) late_hooks = late_hooks"
    using f(2) by (simp add: late_hooks_def)
  have "\<exists>text. proof_pass (Some late_listing) late_hooks [fast_path] = Inr (late_hooks, [fast_path], text)"
    by (simp add: proof_pass_def late_conflicts f(1) Let_def r key)
  then show ?thesis by (auto simp: verifyNFTSelectiveExternalHooks_def)
qed

section \<open>Admitted paths\<close>

text \<open>C18.
  What is admitted to the fast path would have been accepted anyway.  When admission finds no objection to a set of
  specs, then for every accelerated spec either no foreign chain behind the managed ones concerns its family, or the
  rules were read twice with the same result and every such chain accepts every packet of the path at its hook and
  priority: of any client, in both directions, before and after the translation, whatever a match on a header the
  packet lacks yields.\<close>

theorem admitted_flows_accepted:
  assumes "checkAdmissionFor (Some (verifyNFTSelectiveExternalHooks before after l1 l2)) (Some hooks) specs = None"
    and "nftConflictingHooks hooks = Inr cs" and "s \<in> set specs" and "EnableFlowtable s"
  shows "(\<forall>c\<in>conflicts_in hooks. \<not> concerns c s)
    \<or> (\<exists>objects current. l2 = Some objects
        \<and> nftConflictingHooks objects = Inr current \<and> nftProofInventoryKey current = nftProofInventoryKey cs
        \<and> (\<forall>c\<in>conflicts_in objects. concerns c s \<longrightarrow>
             (\<exists>priority. parse_priority (jval ''prio'' c) = Some priority
                \<and> (\<forall>unknown. \<forall>form\<in>visible (text_of (jval ''hook'' c)) priority. \<forall>p. path_packet s form p \<longrightarrow>
                     verdict unknown (jval ''policy'' c) (rules_of objects (nftHookIdentity c)) p))))"
  using admitted_through[OF assms] unfolding lets_through_def .

definition late_packet :: packet where
  "late_packet = \<lparr>pk_family = 4, pk_protocol = 6, pk_src = IP4 0xC6336407, pk_dst = IP4 0xC0000201, pk_sport = 9000, pk_dport = 40000\<rparr>"

theorem admitted_flows_accepted_witness:
  "verdict (\<lambda>st p. False) (JStr ''drop'') (rules_of late_listing (nftHookIdentity late_fields)) late_packet"
proof -
  have fam: "nftHookFamilies late_hooks = 3" "\<not> list_ex (affects \<lparr>ad_families = 3, ad_inspection = False, ad_permitted = [fast_path]\<rparr>) [fast_path]"
    "late_hooks = [JObj [(''chain'', late_fields)]]" by code_simp+
  have admitted: "checkAdmissionFor (Some (verifyNFTSelectiveExternalHooks True True (Some late_listing) (Some late_listing)))
      (Some late_hooks) [fast_path] = None"
    using fam by (auto simp: checkAdmissionFor_def checkFlowtableAdmissionFor_def late_conflicts late_verified Let_def
        split: list.splits)
  have mem: "late_fields \<in> conflicts_in late_hooks" "late_fields \<in> conflicts_in late_listing"
  proof -
    have hit: "late_fields \<in> conflicts_in objects" if "nftConflictingHooks objects = Inr late_hooks" for objects
    proof -
      have "JObj [(''chain'', late_fields)] \<in> (\<lambda>c. JObj [(''chain'', c)]) ` conflicts_in objects"
        unfolding nftConflictingHooks_result[OF that, symmetric] by (simp add: fam(3))
      then show ?thesis by auto
    qed
    show "late_fields \<in> conflicts_in late_hooks" "late_fields \<in> conflicts_in late_listing"
      using hit late_conflicts by blast+
  qed
  have c: "concerns late_fields fast_path" unfolding concerns_def by code_simp
  have prio: "parse_priority (jval ''prio'' late_fields) = Some 2147483647" "text_of (jval ''hook'' late_fields) = ''forward''"
    "jval ''policy'' late_fields = JStr ''drop''" by code_simp+
  have "path_packet fast_path Reply late_packet"
    by (auto simp: path_packet_def late_packet_def fast_path_def plain_path_def transport_number_def spec_ports_def nftLastPort_def)
  moreover have "Reply \<in> visible ''forward'' 2147483647" by (simp add: visible_def)
  moreover have e: "EnableFlowtable fast_path" by (simp add: fast_path_def)
  moreover have "\<exists>objects current. Some late_listing = Some objects
        \<and> nftConflictingHooks objects = Inr current \<and> nftProofInventoryKey current = nftProofInventoryKey late_hooks
        \<and> (\<forall>c\<in>conflicts_in objects. concerns c fast_path \<longrightarrow>
             (\<exists>priority. parse_priority (jval ''prio'' c) = Some priority
                \<and> (\<forall>unknown. \<forall>form\<in>visible (text_of (jval ''hook'' c)) priority. \<forall>p. path_packet fast_path form p \<longrightarrow>
                     verdict unknown (jval ''policy'' c) (rules_of objects (nftHookIdentity c)) p)))"
    using admitted_flows_accepted[OF admitted late_conflicts(2) _ e] mem(1) c by auto
  ultimately show ?thesis using mem(2) c prio by fastforce
qed

end
