(* ===== verification/Runner.thy ===== *)
theory Runner
  imports Plan Budget
begin

text \<open>
  The runner of one userspace path, \<^verbatim>\<open>internal/proxy/manager.go\<close>, with the start of its listeners from
  \<^verbatim>\<open>tcp.go\<close> and \<^verbatim>\<open>udp.go\<close>: which sockets are opened, how the UDP workers are divided over them, what is reserved
  for them, and that a start that fails takes everything back.

  Sockets are opened and closed by the system, an argument; a socket is the number of its descriptor.  The
  goroutines that serve a socket end when it is closed, and \<^verbatim>\<open>stop\<close> waits for them.
\<close>

section \<open>Endpoints\<close>

record listen_endpoint =
  le_network :: string
  le_address :: string

text \<open>\<^verbatim>\<open>net.JoinHostPort\<close>.\<close>

definition join_host_port :: "string \<Rightarrow> string \<Rightarrow> string" where
  "join_host_port host port =
     (if CHR '':'' \<in> set host then CHR ''['' # host @ '']:'' @ port else host @ CHR '':'' # port)"

definition endpointText :: "string \<Rightarrow> int \<Rightarrow> string" where
  "endpointText host port = (if host = ''*'' then ''*:'' @ itoa port else join_host_port host (itoa port))"

definition listenEndpoints :: "string \<Rightarrow> int \<Rightarrow> string \<Rightarrow> listen_endpoint list option" where
  "listenEndpoints host port proto =
     (if host = ''*'' then
        Some [\<lparr>le_network = proto @ ''4'', le_address = ''0.0.0.0:'' @ itoa port\<rparr>,
              \<lparr>le_network = proto @ ''6'', le_address = ''[::]:'' @ itoa port\<rparr>]
      else case parse_addr host of
        None \<Rightarrow> None
      | Some ip \<Rightarrow> Some [\<lparr>le_network = proto @ (if is4 ip then ''4'' else ''6''), le_address = endpointText host port\<rparr>])"

text \<open>The workers of the endpoints: as even as possible, every endpoint at least one.\<close>

fun divide_workers :: "nat \<Rightarrow> int \<Rightarrow> int list" where
  "divide_workers 0 remaining = []"
| "divide_workers (Suc k) remaining =
     (let n = int (Suc k); workers = remaining div n + (if remaining mod n \<noteq> 0 then 1 else 0)
      in workers # divide_workers k (remaining - workers))"

definition distributeUDPWorkers :: "int \<Rightarrow> int \<Rightarrow> int list" where
  "distributeUDPWorkers workerBudget endpoints =
     (if endpoints \<le> 0 then [] else divide_workers (nat endpoints) (max workerBudget endpoints))"

section \<open>Sockets\<close>

text \<open>
  Opening a stream listener and a datagram socket (with the options for shared ports and the buffer), the system
  calls that set up a worker on a datagram socket, closing, and the space of its control messages.
\<close>

record 'w socket_io =
  sx_tcp :: "listen_endpoint \<Rightarrow> 'w \<Rightarrow> nat option \<times> 'w"
  sx_udp :: "listen_endpoint \<Rightarrow> bool \<Rightarrow> int \<Rightarrow> 'w \<Rightarrow> nat option \<times> 'w"
  sx_worker :: "nat \<Rightarrow> bool \<Rightarrow> 'w \<Rightarrow> bool \<times> 'w"
  sx_close :: "nat \<Rightarrow> 'w \<Rightarrow> 'w"
  sx_space :: "bool \<Rightarrow> int"

record tcp_listener =
  tl_socket :: nat
  tl_endpoint :: listen_endpoint
  tl_target :: string
  tl_backup :: string

record udp_listener =
  uw_socket :: nat
  uw_target :: addr
  uw_port :: int
  uw_reserved :: int

datatype closer = CloseTCP tcp_listener | CloseUDP listen_endpoint "udp_listener list"

record runner =
  rn_rule :: rule
  rn_displayName :: string
  rn_closers :: "closer list"

datatype start_error =
    BadListenHost
  | TCPListenFailed
  | UDPTargetPortRange
  | UDPWorkerCount
  | UDPTargetUnresolved
  | UDPMemoryReached
  | UDPListenFailed
  | UDPWorkerFailed
  | WorkerPlanExhausted

definition newRunner :: "rule \<Rightarrow> runner" where
  "newRunner r = \<lparr>rn_rule = r, rn_displayName = r_Name r, rn_closers = []\<rparr>"

section \<open>Stopping\<close>

definition stop_worker :: "'w socket_io \<Rightarrow> udp_listener \<Rightarrow> resource_budget \<times> 'w \<Rightarrow> resource_budget \<times> 'w" where
  "stop_worker io u s = (releaseUDPMemory (uw_reserved u) (fst s), sx_close io (uw_socket u) (snd s))"

fun run_closer :: "'w socket_io \<Rightarrow> closer \<Rightarrow> resource_budget \<times> 'w \<Rightarrow> resource_budget \<times> 'w" where
  "run_closer io (CloseTCP t) s = (fst s, sx_close io (tl_socket t) (snd s))"
| "run_closer io (CloseUDP ep us) s = fold (stop_worker io) us s"

definition stop_runner :: "'w socket_io \<Rightarrow> runner \<Rightarrow> resource_budget \<times> 'w \<Rightarrow> resource_budget \<times> 'w" where
  "stop_runner io r s = fold (run_closer io) (rn_closers r) s"

section \<open>Starting\<close>

text \<open>A loop whose body may return early with an error.\<close>

fun run_all :: "('a \<Rightarrow> 's \<Rightarrow> 'e option \<times> 's) \<Rightarrow> 'a list \<Rightarrow> 's \<Rightarrow> 'e option \<times> 's" where
  "run_all f [] s = (None, s)"
| "run_all f (x # xs) s = (case f x s of (Some e, s1) \<Rightarrow> (Some e, s1) | (None, s1) \<Rightarrow> run_all f xs s1)"

record 'w starting =
  sg_closers :: "closer list"
  sg_index :: nat
  sg_budget :: resource_budget
  sg_world :: 'w

definition backup_address :: "rule \<Rightarrow> int \<Rightarrow> string" where
  "backup_address r targetPort =
     (if r_BackupTargetHost r = [] then []
      else join_host_port (r_BackupTargetHost r) (itoa (r_BackupTargetPort r + targetPort - r_TargetPort r)))"

definition startTCP :: "'w socket_io \<Rightarrow> rule \<Rightarrow> listen_endpoint \<Rightarrow> int \<Rightarrow> 'w starting \<Rightarrow> start_error option \<times> 'w starting" where
  "startTCP io r ep targetPort sg =
     (case sx_tcp io ep (sg_world sg) of
        (None, w) \<Rightarrow> (Some TCPListenFailed, sg\<lparr>sg_world := w\<rparr>)
      | (Some h, w) \<Rightarrow>
          (None, sg\<lparr>sg_world := w, sg_closers := sg_closers sg @
             [CloseTCP \<lparr>tl_socket = h, tl_endpoint = ep, tl_target = join_host_port (r_TargetHost r) (itoa targetPort),
                        tl_backup = backup_address r targetPort\<rparr>]\<rparr>))"

definition udpInitialSessionCapacity :: "int \<Rightarrow> int \<Rightarrow> int" where
  "udpInitialSessionCapacity maximum workers =
     (let capacity = (maximum + workers - 1) div workers in
      if capacity < 1 then 1 else if 65536 < capacity then 65536 else capacity)"

definition udpWildcardMemory :: "'w socket_io \<Rightarrow> int \<Rightarrow> int \<Rightarrow> int \<Rightarrow> bool \<Rightarrow> int" where
  "udpWildcardMemory io ruleSessions workers batch ipv6Socket =
     udpInitialSessionCapacity ruleSessions workers * 128 + batch * sx_space io ipv6Socket"

text \<open>What one worker reserves of the memory for UDP.\<close>

definition listener_reserved :: "'w socket_io \<Rightarrow> rule \<Rightarrow> listen_endpoint \<Rightarrow> int \<Rightarrow> int" where
  "listener_reserved io rule ep tw =
     wrap64 (r_UDPListenerBufferBytes rule * 4 + r_UDPBatchSize rule * r_UDPPacketBufferSize rule * 2 + 64 * 1024
       + (if r_ListenHost rule = ''*'' \<or> (case parse_addr (r_ListenHost rule) of None \<Rightarrow> False | Some a \<Rightarrow> is_unspecified a)
          then udpWildcardMemory io (r_MaxUDPSessions rule) tw (r_UDPBatchSize rule) (le_network ep = ''udp6'') else 0))"

text \<open>One worker: the reservation first, then the socket; what cannot be finished is taken back.\<close>

definition start_worker ::
    "'w socket_io \<Rightarrow> rule \<Rightarrow> listen_endpoint \<Rightarrow> addr \<Rightarrow> int \<Rightarrow> bool \<Rightarrow> int \<Rightarrow> resource_budget \<times> 'w
     \<Rightarrow> (start_error + udp_listener) \<times> resource_budget \<times> 'w" where
  "start_worker io rule ep target port shared tw s =
     (let reserved = listener_reserved io rule ep tw; (ok, b1) = reserveUDPMemory reserved (fst s) in
      if \<not> ok then (Inl UDPMemoryReached, b1, snd s)
      else case sx_udp io ep shared (r_UDPListenerBufferBytes rule) (snd s) of
        (None, w1) \<Rightarrow> (Inl UDPListenFailed, releaseUDPMemory reserved b1, w1)
      | (Some h, w1) \<Rightarrow>
          (case sx_worker io h (le_network ep = ''udp6'') w1 of
             (False, w2) \<Rightarrow> (Inl UDPWorkerFailed, releaseUDPMemory reserved b1, sx_close io h w2)
           | (True, w2) \<Rightarrow>
               (Inr \<lparr>uw_socket = h, uw_target = target, uw_port = port, uw_reserved = reserved\<rparr>, b1, w2)))"

fun start_workers ::
    "(resource_budget \<times> 'w \<Rightarrow> (start_error + udp_listener) \<times> resource_budget \<times> 'w)
     \<Rightarrow> (udp_listener \<Rightarrow> resource_budget \<times> 'w \<Rightarrow> resource_budget \<times> 'w) \<Rightarrow> nat \<Rightarrow> udp_listener list
     \<Rightarrow> resource_budget \<times> 'w \<Rightarrow> (start_error + udp_listener list) \<times> resource_budget \<times> 'w" where
  "start_workers start close 0 started s = (Inr started, s)"
| "start_workers start close (Suc k) started s =
     (case start s of
        (Inl e, s1) \<Rightarrow> (Inl e, fold close started s1)
      | (Inr u, s1) \<Rightarrow> start_workers start close k (started @ [u]) s1)"

definition startUDP ::
    "'w socket_io \<Rightarrow> rule \<Rightarrow> listen_endpoint \<Rightarrow> int \<Rightarrow> int \<Rightarrow> int \<Rightarrow> 'w starting \<Rightarrow> start_error option \<times> 'w starting" where
  "startUDP io r ep targetPort workerCount tw sg =
     (let rule = NormalizeRule r in
      if targetPort < 1 \<or> 65535 < targetPort then (Some UDPTargetPortRange, sg)
      else if workerCount < 1 \<or> tw < 1 then (Some UDPWorkerCount, sg)
      else case parse_addr (r_TargetHost rule) of
        None \<Rightarrow> (Some UDPTargetUnresolved, sg)
      | Some target \<Rightarrow>
          (case start_workers (start_worker io rule ep target targetPort (1 < workerCount) tw) (stop_worker io)
                  (nat workerCount) [] (sg_budget sg, sg_world sg) of
             (Inl e, b, w) \<Rightarrow> (Some e, sg\<lparr>sg_budget := b, sg_world := w\<rparr>)
           | (Inr us, b, w) \<Rightarrow>
               (None, sg\<lparr>sg_budget := b, sg_world := w, sg_closers := sg_closers sg @ [CloseUDP ep us]\<rparr>)))"

definition start_endpoint ::
    "'w socket_io \<Rightarrow> rule \<Rightarrow> int list \<Rightarrow> string \<Rightarrow> int \<Rightarrow> listen_endpoint \<Rightarrow> 'w starting \<Rightarrow> start_error option \<times> 'w starting" where
  "start_endpoint io r workers protocol targetPort ep sg =
     (if protocol = ProtocolTCP then startTCP io r ep targetPort sg
      else if length workers \<le> sg_index sg then (Some WorkerPlanExhausted, sg)
      else startUDP io r ep targetPort (workers ! sg_index sg) (sum_list workers) (sg\<lparr>sg_index := Suc (sg_index sg)\<rparr>))"

definition start_protocol ::
    "'w socket_io \<Rightarrow> rule \<Rightarrow> int list \<Rightarrow> int \<Rightarrow> string \<Rightarrow> 'w starting \<Rightarrow> start_error option \<times> 'w starting" where
  "start_protocol io r workers listenPort protocol sg =
     (case listenEndpoints (r_ListenHost r) listenPort protocol of
        None \<Rightarrow> (Some BadListenHost, sg)
      | Some endpoints \<Rightarrow>
          run_all (start_endpoint io r workers protocol (r_TargetPort r + listenPort - r_ListenPort r)) endpoints sg)"

definition listen_ports :: "rule \<Rightarrow> int list" where
  "listen_ports r = [r_ListenPort r..LastListenPort r]"

text \<open>The number of datagram endpoints, none when the listener is no address.\<close>

fun count_endpoints :: "string \<Rightarrow> int list \<Rightarrow> int option" where
  "count_endpoints host [] = Some 0"
| "count_endpoints host (p # ps) =
     (case listenEndpoints host p ProtocolUDP of
        None \<Rightarrow> None
      | Some endpoints \<Rightarrow> map_option (\<lambda>n. int (length endpoints) + n) (count_endpoints host ps))"

definition udp_endpoints :: "rule \<Rightarrow> int option" where
  "udp_endpoints r =
     (if r_Protocol r = ProtocolUDP \<or> r_Protocol r = ProtocolBoth then count_endpoints (r_ListenHost r) (listen_ports r)
      else Some 0)"

definition start_listeners ::
    "'w socket_io \<Rightarrow> rule \<Rightarrow> int list \<Rightarrow> 'w starting \<Rightarrow> start_error option \<times> 'w starting" where
  "start_listeners io r workers sg =
     run_all (\<lambda>p. run_all (start_protocol io r workers p) (rule_protocols r)) (listen_ports r) sg"

definition start_runner ::
    "'w socket_io \<Rightarrow> environment \<Rightarrow> runner \<Rightarrow> resource_budget \<times> 'w \<Rightarrow> start_error option \<times> runner \<times> resource_budget \<times> 'w" where
  "start_runner io env run s =
     (let r = rn_rule run in
      case udp_endpoints r of
        None \<Rightarrow> (Some BadListenHost, run, s)
      | Some endpoints \<Rightarrow>
          let workers = distributeUDPWorkers (effectiveUDPWorkers env (r_UDPWorkers r)) endpoints in
          case start_listeners io r workers \<lparr>sg_closers = rn_closers run, sg_index = 0, sg_budget = fst s, sg_world = snd s\<rparr> of
            (e, sg) \<Rightarrow>
              let run1 = run\<lparr>rn_closers := sg_closers sg\<rparr>; s1 = (sg_budget sg, sg_world sg) in
              if e = None then (None, run1, s1)
              else (e, run1\<lparr>rn_closers := []\<rparr>, stop_runner io run1 s1))"

end
