(* ===== verification/Manager.thy ===== *)
theory Manager
  imports Runner Nft_Backend "HOL-Library.Product_Lexorder"
begin

text \<open>
  \<^verbatim>\<open>internal/proxy/manager.go\<close> and \<^verbatim>\<open>manager_nft_state.go\<close>: the manager plans the rules, stops the listeners that
  change, brings the kernel in line, starts the listeners that may start, and keeps what it tells of every rule.

  Go maps that are iterated are lists of pairs with distinct keys, iterated in the order an argument \<open>ord\<close> gives
  them (the number tells the loop); a map that is only looked up is a function.  A nil dereference and the panic of
  the program are \<open>None\<close>.
\<close>

section \<open>The kernel backend as the manager sees it\<close>

record retirement_state =
  ret_Active :: "nft_spec list"
  ret_Pending :: "nft_spec list"
  ret_Suspended :: "nft_spec list"
  ret_Verified :: bool
  ret_Unknown :: bool

definition retirementState :: "backend \<Rightarrow> retirement_state" where
  "retirementState n =
     \<lparr>ret_Active = bk_active n, ret_Pending = bk_pending n, ret_Suspended = bk_suspended n,
      ret_Verified = (bk_initialized n \<or> bk_cleanVerified n), ret_Unknown = (bk_unknownState n \<or> \<not> bk_recovered n)\<rparr>"

text \<open>The interface \<^verbatim>\<open>nftBackend\<close>; checking the health and reporting retirement are optional.\<close>

record ('n, 'w) forwarding =
  fb_TopologyKey :: "'n \<Rightarrow> 'w \<Rightarrow> string \<times> 'n \<times> 'w"
  fb_Replace :: "nft_spec list \<Rightarrow> 'n \<Rightarrow> 'w \<Rightarrow> backend_error option \<times> 'n \<times> 'w"
  fb_Delete :: "'n \<Rightarrow> 'w \<Rightarrow> backend_error option \<times> 'n \<times> 'w"
  fb_Healthy :: "(nft_spec list \<Rightarrow> 'n \<Rightarrow> 'w \<Rightarrow> (backend_error + bool) \<times> 'n \<times> 'w) option"
  fb_retirement :: "('n \<Rightarrow> retirement_state) option"
  fb_setConfig :: "32 word \<Rightarrow> 'n \<Rightarrow> 'n"

definition command_forwarding :: "'w nft_io \<Rightarrow> (backend, 'w) forwarding" where
  "command_forwarding io =
     \<lparr>fb_TopologyKey = TopologyKey io, fb_Replace = Replace io, fb_Delete = Delete io, fb_Healthy = Some (Healthy io),
      fb_retirement = Some retirementState, fb_setConfig = setConfig\<rparr>"

section \<open>State\<close>

datatype manager_error =
    InspectFailed backend_error
  | ReplaceFailed backend_error
  | CleanupFailed backend_error backend_error

datatype failure =
    PlanFailed plan_error
  | KernelFailed manager_error
  | StartFailed start_error
  | WaitingForRevocation
  | PathNotRunning
  | NoPath

text \<open>What is shown as the error of a rule.\<close>

datatype rule_message =
    NoMessage
  | ListenerHeld string manager_error
  | AdmissionHeld manager_error
  | RevocationIncomplete manager_error
  | DisableFailed manager_error
  | RemoveFailed manager_error
  | Failures "failure list"
  | KernelCleanupFailed backend_error

record rule_stats =
  st_running :: bool
  st_lastError :: rule_message

record 'n manager =
  mg_runners :: "(string \<times> runner) list"
  mg_stats :: "string \<Rightarrow> rule_stats option"
  mg_budgets :: "string \<Rightarrow> rule_budget option"
  mg_resources :: resource_budget
  mg_rules :: "(string \<times> rule) list"
  mg_desired :: "(string \<times> rule) list"
  mg_tombstones :: "string \<Rightarrow> string option"
  mg_dataPlanes :: "string \<Rightarrow> string option"
  mg_resolver :: resolver
  mg_nft :: 'n
  mg_nftKey :: string
  mg_nftInitialized :: bool
  mg_settings :: nft_settings

definition newManager :: "'n \<Rightarrow> 'n manager" where
  "newManager n =
     \<lparr>mg_runners = [], mg_stats = (\<lambda>_. None), mg_budgets = (\<lambda>_. None), mg_resources = newResourceBudget default_limits,
      mg_rules = [], mg_desired = [], mg_tombstones = (\<lambda>_. None), mg_dataPlanes = (\<lambda>_. None),
      mg_resolver = \<lparr>v_resolved = (\<lambda>_. None), v_calls = 0\<rparr>, mg_nft = n, mg_nftKey = [], mg_nftInitialized = False,
      mg_settings = \<lparr>ns_mark = DefaultNFTConntrackMark, ns_flowtable = True\<rparr>\<rparr>"

text \<open>The system: sockets, kernel, and the order of map iterations.\<close>

record ('n, 'w) system =
  sy_sockets :: "'w socket_io"
  sy_kernel :: "('n, 'w) forwarding"
  sy_order :: "nat \<Rightarrow> string list \<Rightarrow> string list"

definition iter :: "('n, 'w) system \<Rightarrow> nat \<Rightarrow> (string \<times> 'v) list \<Rightarrow> (string \<times> 'v) list" where
  "iter sy i kvs = List.map_filter (\<lambda>k. map_option (Pair k) (map_of kvs k)) (sy_order sy i (map fst kvs))"

definition alist_remove :: "'k \<Rightarrow> ('k \<times> 'v) list \<Rightarrow> ('k \<times> 'v) list" where
  "alist_remove k kvs = filter (\<lambda>x. fst x \<noteq> k) kvs"

section \<open>Listeners that change\<close>

text \<open>
  \<^verbatim>\<open>ruleKey\<close> is the JSON text of the rule without its name; every field is in it, so two texts agree when the rules
  agree in everything but the name.
\<close>

definition ruleKey :: "rule \<Rightarrow> rule" where
  "ruleKey r = r\<lparr>r_Name := []\<rparr>"

definition goPathSlotKey :: "string \<Rightarrow> string" where
  "goPathSlotKey pathKey =
     (if CHR ''|'' \<in> set pathKey then rev (tl (dropWhile (\<lambda>c. c \<noteq> CHR ''|'') (rev pathKey))) else pathKey)"

definition drop_runner :: "'w socket_io \<Rightarrow> string \<Rightarrow> runner \<Rightarrow> 'n manager \<times> 'w \<Rightarrow> 'n manager \<times> 'w" where
  "drop_runner io k run s =
     (let (b, w) = stop_runner io run (mg_resources (fst s), snd s) in
      ((fst s)\<lparr>mg_runners := alist_remove k (mg_runners (fst s)), mg_resources := b\<rparr>, w))"

definition desired_slots :: "('n, 'w) system \<Rightarrow> plan \<Rightarrow> string \<Rightarrow> go_path option" where
  "desired_slots sy p = fold (\<lambda>(k, path) m. m(goPathSlotKey k \<mapsto> path)) (iter sy 0 (p_goRules p)) (\<lambda>_. None)"

definition wanted_path :: "('n, 'w) system \<Rightarrow> plan \<Rightarrow> string \<Rightarrow> go_path option" where
  "wanted_path sy p k =
     (case map_of (p_goRules p) k of Some path \<Rightarrow> Some path | None \<Rightarrow> desired_slots sy p (goPathSlotKey k))"

definition stop_changed :: "('n, 'w) system \<Rightarrow> plan \<Rightarrow> string \<times> runner \<Rightarrow> 'n manager \<times> 'w \<Rightarrow> 'n manager \<times> 'w" where
  "stop_changed sy p entry s =
     (let (k, current) = entry in
      case wanted_path sy p k of
        None \<Rightarrow> drop_runner (sy_sockets sy) k current s
      | Some path \<Rightarrow>
          if ruleKey (g_Rule path) \<noteq> ruleKey (rn_rule current) then drop_runner (sy_sockets sy) k current s
          else if rn_displayName current \<noteq> r_Name (g_Rule path) then
            ((fst s)\<lparr>mg_runners := map (\<lambda>(k', run). (k', if k' = k then run\<lparr>rn_displayName := r_Name (g_Rule path)\<rparr> else run))
               (mg_runners (fst s))\<rparr>, snd s)
          else s)"

definition stopChangedRunners :: "('n, 'w) system \<Rightarrow> plan \<Rightarrow> 'n manager \<times> 'w \<Rightarrow> 'n manager \<times> 'w" where
  "stopChangedRunners sy p s = fold (stop_changed sy p) (iter sy 1 (mg_runners (fst s))) s"

section \<open>The kernel\<close>

record nft_result =
  nr_err :: "manager_error option"
  nr_cleanupFailed :: bool
  nr_inspectionFailed :: bool

abbreviation no_result :: nft_result where
  "no_result \<equiv> \<lparr>nr_err = None, nr_cleanupFailed = False, nr_inspectionFailed = False\<rparr>"

definition decideNFTAction ::
    "('n, 'w) forwarding \<Rightarrow> nft_spec list \<Rightarrow> string \<Rightarrow> 'n manager \<times> 'w \<Rightarrow> (bool \<times> nft_result) \<times> 'n manager \<times> 'w" where
  "decideNFTAction fb specs key s =
     (let (m, w) = s; needs = (\<not> mg_nftInitialized m \<or> key \<noteq> mg_nftKey m) in
      case fb_Healthy fb of
        None \<Rightarrow> ((needs, no_result), m, w)
      | Some healthy \<Rightarrow>
          let (answer, n, w1) = healthy specs (mg_nft m) w in
          ((case answer of
              Inl e \<Rightarrow> if e = AdmissionRefused then (True, no_result)
                       else (needs, \<lparr>nr_err = Some (InspectFailed e), nr_cleanupFailed = True, nr_inspectionFailed = True\<rparr>)
            | Inr ok \<Rightarrow> (needs \<or> \<not> ok, no_result)), m\<lparr>mg_nft := n\<rparr>, w1))"

definition specs_key :: "('n, 'w) forwarding \<Rightarrow> nft_spec list \<Rightarrow> 'n manager \<times> 'w \<Rightarrow> string \<times> 'n manager \<times> 'w" where
  "specs_key fb specs s =
     (if specsUseFlowtable specs then
        let (t, n, w1) = fb_TopologyKey fb (mg_nft (fst s)) (snd s) in
        (nftSpecsKey specs @ [CHR 0x0A] @ ''flowtable-devices:'' @ t, (fst s)\<lparr>mg_nft := n\<rparr>, w1)
      else (nftSpecsKey specs, s))"

definition forget_key :: "'n manager \<Rightarrow> 'n manager" where
  "forget_key m = m\<lparr>mg_nftInitialized := False, mg_nftKey := []\<rparr>"

text \<open>A replacement; a backend that does not report what it retires is cleaned up when the replacement fails.\<close>

definition replace_specs ::
    "('n, 'w) forwarding \<Rightarrow> nft_spec list \<Rightarrow> string \<Rightarrow> nft_result \<Rightarrow> 'n manager \<times> 'w \<Rightarrow> nft_result \<times> 'n manager \<times> 'w" where
  "replace_specs fb specs key result s =
     (let (e, n, w1) = fb_Replace fb specs (mg_nft (fst s)) (snd s); m = (fst s)\<lparr>mg_nft := n\<rparr> in
      case e of
        None \<Rightarrow> (result\<lparr>nr_err := None\<rparr>, m\<lparr>mg_nftInitialized := True, mg_nftKey := key\<rparr>, w1)
      | Some apply_err \<Rightarrow>
          if fb_retirement fb \<noteq> None then (result\<lparr>nr_err := Some (ReplaceFailed apply_err)\<rparr>, forget_key m, w1)
          else
            let (e2, n2, w2) = fb_Delete fb n w1 in
            (case e2 of
               None \<Rightarrow> (result\<lparr>nr_err := Some (ReplaceFailed apply_err)\<rparr>, forget_key (m\<lparr>mg_nft := n2\<rparr>), w2)
             | Some cleanup_err \<Rightarrow>
                 (result\<lparr>nr_err := Some (CleanupFailed apply_err cleanup_err), nr_cleanupFailed := True\<rparr>, m\<lparr>mg_nft := n2\<rparr>, w2)))"

definition reconcileNFT :: "('n, 'w) forwarding \<Rightarrow> plan \<Rightarrow> 'n manager \<times> 'w \<Rightarrow> nft_result \<times> 'n manager \<times> 'w" where
  "reconcileNFT fb p s =
     (let (key, s1) = specs_key fb (p_nftSpecs p) s;
          ((needs, result), s2) = decideNFTAction fb (p_nftSpecs p) key s1
      in if nr_err result = None \<and> needs then replace_specs fb (p_nftSpecs p) key result s2 else (result, s2))"

section \<open>What the kernel may still forward\<close>

definition spec_of_id :: "string \<Rightarrow> nft_spec" where
  "spec_of_id ident = \<lparr>RuleID = ident, Family = 0, ListenHost = NoAddr, ListenPort = 0, ListenPortEnd = 0, TargetHost = NoAddr,
     TargetPort = 0, TargetPortEnd = 0, Protocol = [], ConntrackMark = 0, EnableFlowtable = False, ruleIdentity = []\<rparr>"

definition nftIdentityMatchesRule :: "nft_spec \<Rightarrow> string \<Rightarrow> bool" where
  "nftIdentityMatchesRule s ident \<longleftrightarrow>
     (let want = nftRuleIdentity (spec_of_id ident); got = nftRuleIdentity s in
      want = got \<or> length got = 13 \<and> got ! 0 = CHR ''l'' \<and> has_prefix (drop 1 got) want)"

definition nftSpecInstalled :: "nft_spec \<Rightarrow> nft_spec list \<Rightarrow> bool" where
  "nftSpecInstalled s active \<longleftrightarrow>
     list_ex (\<lambda>c. nftRetirementKey c = nftRetirementKey s \<and> EnableFlowtable c = EnableFlowtable s) active"

definition goRuleOverlapsNFT :: "rule \<Rightarrow> nft_spec \<Rightarrow> bool" where
  "goRuleOverlapsNFT r s \<longleftrightarrow>
     \<not> (r_Protocol r \<noteq> ProtocolBoth \<and> r_Protocol r \<noteq> Protocol s)
     \<and> \<not> (LastListenPort r < ListenPort s \<or> nftLastPort s < r_ListenPort r)
     \<and> list_ex (\<lambda>(family, host). family = Family s \<and> (is_unspecified host \<or> is_unspecified (ListenHost s) \<or> host = ListenHost s))
         (listenFamilies (r_ListenHost r))"

definition tombstone_names :: "string \<Rightarrow> nat \<Rightarrow> string list" where
  "tombstone_names base n = map (\<lambda>i. if 0 < i then base @ ''-'' @ itoa (int i) else base) [0..<Suc n]"

definition text_or_empty :: "string option \<Rightarrow> string" where
  "text_or_empty t = (case t of None \<Rightarrow> [] | Some x \<Rightarrow> x)"

text \<open>The first name that is free or already stands for this identity; none is the panic.\<close>

definition nftTombstoneID :: "string \<Rightarrow> string \<Rightarrow> (string \<times> rule) list \<Rightarrow> 'n manager \<Rightarrow> string option" where
  "nftTombstoneID base identity desired m =
     find (\<lambda>ident. ident \<notin> fst ` set desired
             \<and> \<not> (ident \<in> fst ` set (mg_rules m) \<and> text_or_empty (mg_tombstones m ident) \<noteq> identity))
       (tombstone_names base (length (mg_rules m) + length desired))"

definition ensure :: "'v \<Rightarrow> 'v option \<Rightarrow> 'v option" where
  "ensure v x = (case x of None \<Rightarrow> Some v | Some y \<Rightarrow> Some y)"

abbreviation new_stats :: rule_stats where "new_stats \<equiv> \<lparr>st_running = False, st_lastError = NoMessage\<rparr>"

definition add_tombstone :: "string \<Rightarrow> string \<Rightarrow> rule \<Rightarrow> 'n manager \<Rightarrow> 'n manager" where
  "add_tombstone ident identity r m =
     m\<lparr>mg_tombstones := (mg_tombstones m)(ident \<mapsto> identity), mg_rules := alist_set ident r (mg_rules m),
       mg_stats := (mg_stats m)(ident := ensure new_stats (mg_stats m ident)),
       mg_budgets := (mg_budgets m)(ident := ensure fresh_budget (mg_budgets m ident)),
       mg_dataPlanes := (mg_dataPlanes m)(ident \<mapsto> DataPlaneNFT)\<rparr>"

definition tombstone_rule :: "string \<Rightarrow> nft_spec \<Rightarrow> rule" where
  "tombstone_rule ident s =
     zero_rule\<lparr>r_ID := ident, r_Name := ''Previous kernel path requires cleanup'', r_Protocol := Protocol s,
       r_DataPlane := RuleDataPlaneNFT, r_ListenHost := addr_string (ListenHost s), r_ListenPort := ListenPort s,
       r_ListenPortEnd := nftLastPort s, r_TargetHost := addr_string (TargetHost s), r_TargetPort := TargetPort s,
       r_TargetPortEnd := TargetPortEnd s, r_Enabled := False\<rparr>"

definition unknown_rule :: "string \<Rightarrow> rule" where
  "unknown_rule ident =
     zero_rule\<lparr>r_ID := ident, r_Name := ''Previous kernel state could not be verified'', r_Protocol := ProtocolBoth,
       r_DataPlane := RuleDataPlaneNFT, r_ListenHost := addr_string ipv4_unspecified, r_Enabled := False\<rparr>"

text \<open>The rules a spec belongs to, or a tombstone for it.\<close>

definition mark_spec :: "(string \<times> rule) list \<Rightarrow> nft_spec \<Rightarrow> string set \<times> 'n manager \<Rightarrow> (string set \<times> 'n manager) option" where
  "mark_spec desired s bm =
     (let (blocked, m) = bm; hits = filter (nftIdentityMatchesRule s) (map fst desired @ map fst (mg_rules m)) in
      if hits \<noteq> [] then Some (blocked \<union> set hits, m)
      else
        map_option (\<lambda>ident. (insert ident blocked, add_tombstone ident (nftRuleIdentity s) (tombstone_rule ident s) m))
          (nftTombstoneID (''kernel-pending-'' @ nftRuleIdentity s) (nftRuleIdentity s) desired m))"

fun mark_specs :: "(string \<times> rule) list \<Rightarrow> nft_spec list \<Rightarrow> string set \<times> 'n manager \<Rightarrow> (string set \<times> 'n manager) option" where
  "mark_specs desired [] bm = Some bm"
| "mark_specs desired (s # ss) bm = Option.bind (mark_spec desired s bm) (mark_specs desired ss)"

definition mark_unknown :: "(string \<times> rule) list \<Rightarrow> string set \<times> 'n manager \<Rightarrow> (string set \<times> 'n manager) option" where
  "mark_unknown desired bm =
     (let (blocked, m) = bm in
      map_option (\<lambda>ident. (insert ident (blocked \<union> fst ` set desired), add_tombstone ident ''unknown'' (unknown_rule ident) m))
        (nftTombstoneID ''kernel-recovery-unverified'' ''unknown'' desired m))"

definition potential_specs :: "retirement_state \<Rightarrow> bool \<Rightarrow> nft_spec list" where
  "potential_specs state inspectionFailed =
     (let potential = uniqueNFTSpecs [ret_Pending state, ret_Suspended state] in
      if \<not> ret_Verified state \<or> inspectionFailed then uniqueNFTSpecs [potential, ret_Active state] else potential)"

definition overlapped_rules :: "plan \<Rightarrow> nft_spec list \<Rightarrow> string set" where
  "overlapped_rules p potential =
     (\<lambda>x. g_RuleID (snd x)) ` set (filter (\<lambda>(k, path). list_ex (goRuleOverlapsNFT (g_Rule path)) potential) (p_goRules p))"

definition verified_rule :: "plan \<Rightarrow> retirement_state \<Rightarrow> bool \<Rightarrow> string set \<Rightarrow> string \<Rightarrow> bool" where
  "verified_rule p state inspectionFailed blocked ident \<longleftrightarrow>
     ret_Verified state \<and> \<not> inspectionFailed \<and> \<not> ret_Unknown state \<and> p_usesNFT p ident
     \<and> list_all (\<lambda>s. RuleID s = ident \<longrightarrow> nftSpecInstalled s (ret_Active state)) (p_nftSpecs p) \<and> ident \<notin> blocked"

definition nftRetirementStatus ::
    "('n, 'w) forwarding \<Rightarrow> (string \<times> rule) list \<Rightarrow> plan \<Rightarrow> nft_result \<Rightarrow> 'n manager
     \<Rightarrow> ((string set \<times> (string \<Rightarrow> bool)) \<times> 'n manager) option" where
  "nftRetirementStatus fb desired p result m =
     (case (nr_err result, fb_retirement fb) of
        (None, _) \<Rightarrow> Some (({}, \<lambda>_. False), m)
      | (_, None) \<Rightarrow> Some (({}, \<lambda>_. False), m)
      | (Some _, Some report) \<Rightarrow>
          let state = report (mg_nft m); potential = potential_specs state (nr_inspectionFailed result) in
          Option.bind (mark_specs desired potential ({}, m)) (\<lambda>bm.
          Option.bind (if ret_Unknown state then mark_unknown desired bm else Some bm) (\<lambda>(blocked, m1).
            let blocked1 = blocked \<union> overlapped_rules p potential in
            Some ((blocked1, verified_rule p state (nr_inspectionFailed result) blocked1), m1))))"

text \<open>The state of a rule in the kernel as far as it is known.\<close>

definition nftRuleState :: "('n, 'w) forwarding \<Rightarrow> 'n manager \<Rightarrow> string \<Rightarrow> string \<times> bool" where
  "nftRuleState fb m ident =
     (case fb_retirement fb of
        None \<Rightarrow> (''not-reported'', False)
      | Some report \<Rightarrow>
          let state = report (mg_nft m); own = list_ex (\<lambda>s. nftIdentityMatchesRule s ident) in
          if own (ret_Pending state) then (''retirement-pending'', True)
          else if own (ret_Suspended state) then (''admission-suspended'', True)
          else if own (ret_Active state) then
            (if ret_Verified state \<and> \<not> ret_Unknown state then (''active-verified'', True) else (''active-unverified'', True))
          else if ret_Unknown state then (''unknown'', False)
          else if ret_Verified state then (''inactive-verified'', False)
          else (''unverified'', False))"

definition goPathBlockedByNFT :: "('n, 'w) forwarding \<Rightarrow> 'n manager \<Rightarrow> rule \<Rightarrow> nft_result \<Rightarrow> bool" where
  "goPathBlockedByNFT fb m r result \<longleftrightarrow>
     (case (nr_err result, fb_retirement fb) of
        (None, _) \<Rightarrow> False
      | (_, None) \<Rightarrow> False
      | (Some _, Some report) \<Rightarrow>
          let state = report (mg_nft m) in
          ret_Unknown state \<or> list_ex (goRuleOverlapsNFT r) (potential_specs state (nr_inspectionFailed result)))"

section \<open>Listeners that start\<close>

definition path_blocked ::
    "('n, 'w) forwarding \<Rightarrow> 'n manager \<Rightarrow> plan \<Rightarrow> string set \<Rightarrow> nft_result \<Rightarrow> string \<Rightarrow> bool" where
  "path_blocked fb m p blocked result k \<longleftrightarrow>
     (case map_of (p_goRules p) k of
        None \<Rightarrow> False
      | Some path \<Rightarrow>
          if fb_retirement fb \<noteq> None then goPathBlockedByNFT fb m (g_Rule path) result else g_RuleID path \<in> blocked)"

definition stop_when :: "'w socket_io \<Rightarrow> (string \<Rightarrow> bool) \<Rightarrow> string \<times> runner \<Rightarrow> 'n manager \<times> 'w \<Rightarrow> 'n manager \<times> 'w" where
  "stop_when io bad entry s = (if bad (fst entry) then drop_runner io (fst entry) (snd entry) s else s)"

definition add_failure :: "string \<Rightarrow> failure \<Rightarrow> (string \<Rightarrow> failure list) \<Rightarrow> string \<Rightarrow> failure list" where
  "add_failure ident f errs = errs(ident := errs ident @ [f])"

definition start_path ::
    "'w socket_io \<Rightarrow> environment \<Rightarrow> (string \<Rightarrow> bool) \<Rightarrow> string \<times> go_path \<Rightarrow> (string \<Rightarrow> failure list) \<times> 'n manager \<times> 'w
     \<Rightarrow> (string \<Rightarrow> failure list) \<times> 'n manager \<times> 'w" where
  "start_path io env bad entry s =
     (let (k, path) = entry; (errs, m, w) = s in
      if k \<in> fst ` set (mg_runners m) then s
      else if bad k then (add_failure (g_RuleID path) WaitingForRevocation errs, m, w)
      else
        let (e, run, b, w1) = start_runner io env (newRunner (g_Rule path)) (mg_resources m, w); m1 = m\<lparr>mg_resources := b\<rparr> in
        (case e of
           Some err \<Rightarrow> (add_failure (g_RuleID path) (StartFailed err) errs, m1, w1)
         | None \<Rightarrow> (errs, m1\<lparr>mg_runners := alist_set k run (mg_runners m1)\<rparr>, w1)))"

definition reconcileRunners ::
    "('n, 'w) system \<Rightarrow> environment \<Rightarrow> plan \<Rightarrow> string set \<Rightarrow> nft_result \<Rightarrow> 'n manager \<times> 'w
     \<Rightarrow> (string \<Rightarrow> failure list) \<times> 'n manager \<times> 'w" where
  "reconcileRunners sy env p blocked result s =
     (let io = sy_sockets sy; bad = path_blocked (sy_kernel sy) (fst s) p blocked result;
          s1 = fold (stop_when io bad) (iter sy 2 (mg_runners (fst s))) s;
          (errs, s2) = fold (start_path io env bad) (iter sy 3 (p_goRules p)) (\<lambda>_. [], s1);
          s3 = fold (stop_when io (\<lambda>k. k \<notin> fst ` set (p_goRules p))) (iter sy 4 (mg_runners (fst s2))) s2
      in (errs, s3))"

section \<open>What is told of the rules\<close>

definition setRunning :: "string \<Rightarrow> bool \<Rightarrow> rule_message \<Rightarrow> 'n manager \<Rightarrow> 'n manager option" where
  "setRunning ident v message m =
     map_option (\<lambda>st. m\<lparr>mg_stats := (mg_stats m)(ident \<mapsto> st\<lparr>st_running := v, st_lastError := message\<rparr>)\<rparr>) (mg_stats m ident)"

definition with_error :: "nft_result \<Rightarrow> (manager_error \<Rightarrow> 'a option) \<Rightarrow> 'a option" where
  "with_error result f = Option.bind (nr_err result) f"

definition dataPlaneUsesNFT :: "string \<Rightarrow> bool" where
  "dataPlaneUsesNFT plane \<longleftrightarrow> plane = DataPlaneNFT \<or> plane = DataPlaneHybrid"

definition set_plane :: "string \<Rightarrow> string \<Rightarrow> 'n manager \<Rightarrow> 'n manager" where
  "set_plane ident plane m = m\<lparr>mg_dataPlanes := (mg_dataPlanes m)(ident \<mapsto> plane)\<rparr>"

text \<open>A rule with a path the kernel may still forward.\<close>

definition blocked_state ::
    "('n, 'w) forwarding \<Rightarrow> plan \<Rightarrow> nft_result \<Rightarrow> string \<Rightarrow> string \<Rightarrow> 'n manager \<Rightarrow> 'n manager option" where
  "blocked_state fb p result previous ident m =
     with_error result (\<lambda>e.
       let (state, known) = nftRuleState fb m ident in
       if \<not> known \<and> \<not> dataPlaneUsesNFT previous \<and> p_usesGo p ident then setRunning ident False (ListenerHeld state e) m
       else
         let plane = (if list_ex (\<lambda>(k, run). r_ID (rn_rule run) = ident) (mg_runners m) then DataPlaneHybrid
                      else if dataPlaneUsesNFT previous then previous else DataPlaneNFT) in
         setRunning ident True (if state = ''admission-suspended'' then AdmissionHeld e else RevocationIncomplete e)
           (set_plane ident plane m))"

definition rule_failures ::
    "plan \<Rightarrow> nft_result \<Rightarrow> (string \<Rightarrow> bool) \<Rightarrow> (string \<Rightarrow> failure list) \<Rightarrow> string \<Rightarrow> 'n manager \<Rightarrow> failure list" where
  "rule_failures p result verified errs ident m =
     (case p_errors p ident of None \<Rightarrow> [] | Some e \<Rightarrow> [PlanFailed e])
     @ (case nr_err result of None \<Rightarrow> [] | Some e \<Rightarrow> if p_usesNFT p ident \<and> \<not> verified ident then [KernelFailed e] else [])
     @ errs ident
     @ map (\<lambda>_. PathNotRunning)
         (filter (\<lambda>(k, path). g_RuleID path = ident \<and> k \<notin> fst ` set (mg_runners m) \<and> errs ident = []) (p_goRules p))"

definition enabled_state ::
    "plan \<Rightarrow> nft_result \<Rightarrow> (string \<Rightarrow> bool) \<Rightarrow> (string \<Rightarrow> failure list) \<Rightarrow> string \<Rightarrow> 'n manager \<Rightarrow> 'n manager option" where
  "enabled_state p result verified errs ident m =
     (let failures = rule_failures p result verified errs ident m in
      if failures \<noteq> [] then setRunning ident False (Failures failures) m
      else if \<not> p_usesNFT p ident \<and> \<not> p_usesGo p ident then setRunning ident False (Failures [NoPath]) m
      else setRunning ident True NoMessage m)"

definition update_rule ::
    "('n, 'w) forwarding \<Rightarrow> plan \<Rightarrow> string set \<Rightarrow> (string \<Rightarrow> bool) \<Rightarrow> (string \<Rightarrow> failure list) \<Rightarrow> nft_result
     \<Rightarrow> string \<times> rule \<Rightarrow> 'n manager \<Rightarrow> 'n manager option" where
  "update_rule fb p blocked verified errs result entry m0 =
     (let (ident, r) = entry; previous = text_or_empty (mg_dataPlanes m0 ident);
          m = set_plane ident (text_or_empty (p_dataPlanes p ident)) (m0\<lparr>mg_rules := alist_set ident r (mg_rules m0)\<rparr>)
      in if ident \<in> blocked then blocked_state fb p result previous ident m
         else if \<not> r_Enabled r then
           (if nr_cleanupFailed result \<and> dataPlaneUsesNFT previous
            then with_error result (\<lambda>e. setRunning ident True (DisableFailed e) (set_plane ident previous m))
            else setRunning ident False NoMessage m)
         else enabled_state p result verified errs ident m)"

fun try_all :: "('a \<Rightarrow> 's \<Rightarrow> 's option) \<Rightarrow> 'a list \<Rightarrow> 's \<Rightarrow> 's option" where
  "try_all f [] s = Some s"
| "try_all f (x # xs) s = Option.bind (f x s) (try_all f xs)"

definition updateRuleStates ::
    "('n, 'w) forwarding \<Rightarrow> (string \<times> rule) list \<Rightarrow> plan \<Rightarrow> string set \<Rightarrow> (string \<Rightarrow> bool) \<Rightarrow> (string \<Rightarrow> failure list)
     \<Rightarrow> nft_result \<Rightarrow> 'n manager \<Rightarrow> 'n manager option" where
  "updateRuleStates fb desired p blocked verified errs result m =
     try_all (update_rule fb p blocked verified errs result) desired m"

definition forget_rule :: "string \<Rightarrow> 'n manager \<Rightarrow> 'n manager" where
  "forget_rule ident m =
     m\<lparr>mg_rules := alist_remove ident (mg_rules m), mg_stats := (mg_stats m)(ident := None),
       mg_budgets := (mg_budgets m)(ident := None), mg_dataPlanes := (mg_dataPlanes m)(ident := None),
       mg_resolver := (mg_resolver m)\<lparr>v_resolved := (v_resolved (mg_resolver m))(ident := None, ident @ '':backup'' := None)\<rparr>,
       mg_tombstones := (mg_tombstones m)(ident := None)\<rparr>"

definition retire_rule ::
    "(string \<times> rule) list \<Rightarrow> string set \<Rightarrow> nft_result \<Rightarrow> string \<times> rule \<Rightarrow> 'n manager \<Rightarrow> 'n manager option" where
  "retire_rule desired blocked result entry m =
     (let ident = fst entry in
      if ident \<in> fst ` set desired then Some m
      else if ident \<in> blocked then with_error result (\<lambda>e. setRunning ident True (RevocationIncomplete e) m)
      else if nr_cleanupFailed result \<and> dataPlaneUsesNFT (text_or_empty (mg_dataPlanes m ident))
      then with_error result (\<lambda>e. setRunning ident True (RemoveFailed e) m)
      else Some (forget_rule ident m))"

definition retireRemovedRules ::
    "(string \<times> rule) list \<Rightarrow> string set \<Rightarrow> nft_result \<Rightarrow> 'n manager \<Rightarrow> 'n manager option" where
  "retireRemovedRules desired blocked result m = try_all (retire_rule desired blocked result) (mg_rules m) m"

section \<open>The operations\<close>

definition desire :: "rule \<Rightarrow> 'n manager \<Rightarrow> 'n manager" where
  "desire raw m =
     (let r = NormalizeRule raw in
      m\<lparr>mg_desired := alist_set (r_ID r) r (mg_desired m), mg_tombstones := (mg_tombstones m)(r_ID r := None),
        mg_stats := (mg_stats m)(r_ID r := ensure new_stats (mg_stats m (r_ID r))),
        mg_budgets := (mg_budgets m)(r_ID r := ensure fresh_budget (mg_budgets m (r_ID r)))\<rparr>)"

text \<open>The rules with a kernel path, of those that are ever looked up.\<close>

definition kernel_rules :: "'n manager \<Rightarrow> string set" where
  "kernel_rules m =
     set (filter (\<lambda>ident. dataPlaneUsesNFT (text_or_empty (mg_dataPlanes m ident))) (map fst (mg_rules m) @ map fst (mg_desired m)))"

text \<open>The end of \<^verbatim>\<open>apply\<close>: listeners and states, once the kernel has answered.\<close>

definition settle ::
    "('n, 'w) system \<Rightarrow> environment \<Rightarrow> plan \<Rightarrow> nft_result \<Rightarrow> string set \<Rightarrow> (string \<Rightarrow> bool) \<Rightarrow> 'n manager \<times> 'w
     \<Rightarrow> ('n manager \<times> 'w) option" where
  "settle sy env p result blocked verified s =
     (let desired = mg_desired (fst s); (errs, m, w) = reconcileRunners sy env p blocked result s in
      Option.bind (updateRuleStates (sy_kernel sy) desired p blocked verified errs result m) (\<lambda>m1.
      map_option (\<lambda>m2. (m2, w)) (retireRemovedRules desired blocked result m1)))"

text \<open>The plan, and the kernel brought in line with it; the listeners that change are stopped before.\<close>

definition kernel_phase ::
    "('n, 'w) system \<Rightarrow> environment \<Rightarrow> rule list \<Rightarrow> bool \<Rightarrow> 'n manager \<times> 'w \<Rightarrow> plan \<times> nft_result \<times> 'n manager \<times> 'w" where
  "kernel_phase sy env rules allowCachedDNS s =
     (let m0 = fold desire rules ((fst s)\<lparr>mg_desired := []\<rparr>);
          (p, v) = buildPlan env (mg_settings m0) allowCachedDNS rules (mg_resolver m0)
      in (p, reconcileNFT (sy_kernel sy) p (stopChangedRunners sy p (m0\<lparr>mg_resolver := v\<rparr>, snd s))))"

text \<open>A backend that reports what it retires is asked for it; otherwise a failed cleanup blocks every rule with a kernel path.\<close>

definition without_cleanup :: "('n, 'w) forwarding \<Rightarrow> nft_result \<Rightarrow> nft_result" where
  "without_cleanup fb result = (if fb_retirement fb \<noteq> None then result\<lparr>nr_cleanupFailed := False\<rparr> else result)"

definition all_blocked :: "('n, 'w) forwarding \<Rightarrow> nft_result \<Rightarrow> string set \<Rightarrow> 'n manager \<Rightarrow> string set" where
  "all_blocked fb result blocked m =
     (if fb_retirement fb = None \<and> nr_cleanupFailed result then blocked \<union> kernel_rules m else blocked)"

definition apply_rules ::
    "('n, 'w) system \<Rightarrow> environment \<Rightarrow> rule list \<Rightarrow> bool \<Rightarrow> 'n manager \<times> 'w \<Rightarrow> ('n manager \<times> 'w) option" where
  "apply_rules sy env rules allowCachedDNS s =
     (let fb = sy_kernel sy; (p, result, m2, w2) = kernel_phase sy env rules allowCachedDNS s in
      Option.bind (nftRetirementStatus fb (mg_desired m2) p result m2) (\<lambda>((blocked, verified), m3).
        settle sy env p (without_cleanup fb result) (all_blocked fb result blocked m3) verified (m3, w2)))"

definition Apply where "Apply sy env rules s = apply_rules sy env rules False s"

definition Refresh where "Refresh sy env rules s = apply_rules sy env rules True s"

text \<open>New name servers are a new resolver in the environment; nothing cached is kept.\<close>

definition SetDNSServers :: "('n, 'w) system \<Rightarrow> environment \<Rightarrow> 'n manager \<times> 'w \<Rightarrow> ('n manager \<times> 'w) option" where
  "SetDNSServers sy env s =
     Apply sy env (map snd (iter sy 5 (mg_desired (fst s))))
       ((fst s)\<lparr>mg_resolver := (mg_resolver (fst s))\<lparr>v_resolved := (\<lambda>_. None)\<rparr>\<rparr>, snd s)"

definition SetRuntimeConfig :: "('n, 'w) forwarding \<Rightarrow> resource_limits \<Rightarrow> 32 word \<Rightarrow> bool \<Rightarrow> 'n manager \<Rightarrow> 'n manager" where
  "SetRuntimeConfig fb limits mark flowtable m =
     (let m1 = m\<lparr>mg_resources := setLimits limits (mg_resources m), mg_nft := fb_setConfig fb mark (mg_nft m)\<rparr>;
          m2 = (if ns_mark (mg_settings m) \<noteq> mark \<or> ns_flowtable (mg_settings m) \<noteq> flowtable then forget_key m1 else m1)
      in m2\<lparr>mg_settings := \<lparr>ns_mark = mark, ns_flowtable = flowtable\<rparr>\<rparr>)"

definition all_stats :: "(string \<Rightarrow> rule_stats \<Rightarrow> rule_stats) \<Rightarrow> 'n manager \<Rightarrow> 'n manager" where
  "all_stats f m = m\<lparr>mg_stats := (\<lambda>ident. map_option (f ident) (mg_stats m ident))\<rparr>"

definition Stop :: "('n, 'w) system \<Rightarrow> 'n manager \<times> 'w \<Rightarrow> 'n manager \<times> 'w" where
  "Stop sy s =
     (let (m1, w1) = fold (\<lambda>(k, run). drop_runner (sy_sockets sy) k run) (iter sy 6 (mg_runners (fst s))) s;
          (e, n, w2) = fb_Delete (sy_kernel sy) (mg_nft m1) w1; m2 = m1\<lparr>mg_nft := n\<rparr>;
          m3 = (case e of
              Some err \<Rightarrow> all_stats (\<lambda>ident st.
                  if dataPlaneUsesNFT (text_or_empty (mg_dataPlanes m2 ident))
                  then st\<lparr>st_running := True, st_lastError := KernelCleanupFailed err\<rparr>
                  else st\<lparr>st_running := False, st_lastError := NoMessage\<rparr>) m2
            | None \<Rightarrow> (all_stats (\<lambda>ident st. st\<lparr>st_running := False, st_lastError := NoMessage\<rparr>) m2)
                \<lparr>mg_dataPlanes := (\<lambda>ident. if mg_stats m2 ident \<noteq> None then Some DataPlaneDisabled else mg_dataPlanes m2 ident)\<rparr>)
      in (forget_key m3, w2))"

text \<open>The report of \<^verbatim>\<open>Runtime\<close>, without the traffic and the probes.\<close>

record rule_runtime =
  rr_Rule :: rule
  rr_Stats :: rule_stats
  rr_DataPlane :: string
  rr_GoRunning :: bool
  rr_KernelState :: string

definition rule_report :: "('n, 'w) forwarding \<Rightarrow> 'n manager \<Rightarrow> string \<times> rule \<Rightarrow> rule_runtime option" where
  "rule_report fb m entry =
     (let (ident, r) = entry in
      map_option (\<lambda>st. \<lparr>rr_Rule = r, rr_Stats = st, rr_DataPlane = text_or_empty (mg_dataPlanes m ident),
          rr_GoRunning = list_ex (\<lambda>(k, run). r_ID (rn_rule run) = ident) (mg_runners m),
          rr_KernelState = fst (nftRuleState fb m ident)\<rparr>) (mg_stats m ident))"

definition Runtime :: "('n, 'w) forwarding \<Rightarrow> 'n manager \<Rightarrow> rule_runtime option list" where
  "Runtime fb m = map (rule_report fb m) (sort_key (\<lambda>(ident, r). (r_Name r, r_ID r)) (mg_rules m))"

end
