(* ===== verification/Runner_Facts.thy ===== *)
theory Runner_Facts
  imports Runner
begin

text \<open>
  What a runner holds: a start that succeeds opens new sockets and reserves memory for them, and records both; a
  start that fails leaves neither; stopping gives back exactly what the start took.
\<close>

section \<open>Workers\<close>

lemma share_bounds:
  assumes "int (Suc k) \<le> r"
  defines "w \<equiv> r div int (Suc k) + (if r mod int (Suc k) \<noteq> 0 then 1 else 0)"
  shows "1 \<le> w" and "int k \<le> r - w"
proof -
  define q m where "q = r div int (Suc k)" and "m = r mod int (Suc k)"
  have q: "1 \<le> q" using zdiv_mono1[OF assms(1), of "int (Suc k)"] by (simp add: q_def)
  have e: "r = int k * q + q + m" unfolding q_def m_def
    by (metis (no_types, lifting) distrib_right mult_1 mult_div_mod_eq of_nat_Suc add.commute)
  have m: "0 \<le> m" by (simp add: m_def)
  have w: "w = q + (if m \<noteq> 0 then 1 else 0)" by (simp add: w_def q_def m_def)
  show "1 \<le> w" using q by (simp add: w)
  have "int k \<le> int k * q" using mult_left_mono[OF q, of "int k"] by simp
  then show "int k \<le> r - w" using e m by (auto simp: w)
qed

lemma divide_workers_facts:
  "int n \<le> r \<Longrightarrow> length (divide_workers n r) = n \<and> (\<forall>w\<in>set (divide_workers n r). 1 \<le> w) \<and> (0 < n \<longrightarrow> sum_list (divide_workers n r) = r)"
proof (induction n arbitrary: r)
  case 0
  show ?case by simp
next
  case (Suc k)
  define w where "w = r div int (Suc k) + (if r mod int (Suc k) \<noteq> 0 then 1 else 0)"
  note b = share_bounds[OF Suc.prems, folded w_def]
  have d: "divide_workers (Suc k) r = w # divide_workers k (r - w)" by (simp add: w_def Let_def)
  have "sum_list (divide_workers k (r - w)) = r - w"
  proof (cases "k = 0")
    case True
    then show ?thesis by (simp add: w_def)
  next
    case False
    then show ?thesis using Suc.IH[OF b(2)] by simp
  qed
  then show ?case using Suc.IH[OF b(2)] b(1) unfolding d by simp
qed

lemma distribute_workers:
  assumes "0 < n"
  shows "length (distributeUDPWorkers r n) = nat n" and "\<forall>w\<in>set (distributeUDPWorkers r n). 1 \<le> w"
    and "sum_list (distributeUDPWorkers r n) = max r n"
  using divide_workers_facts[of "nat n" "max r n"] assms by (simp_all add: distributeUDPWorkers_def)

text \<open>No endpoint has two workers more than another.\<close>

lemma divide_workers_even:
  "int n \<le> r \<Longrightarrow> w \<in> set (divide_workers n r) \<Longrightarrow> r div int n \<le> w \<and> w \<le> r div int n + (if r mod int n \<noteq> 0 then 1 else 0)"
proof (induction n arbitrary: r)
  case 0
  then show ?case by simp
next
  case (Suc k)
  define v where "v = r div int (Suc k) + (if r mod int (Suc k) \<noteq> 0 then 1 else 0)"
  note b = share_bounds[OF Suc.prems(1), folded v_def]
  have d: "set (divide_workers (Suc k) r) = insert v (set (divide_workers k (r - v)))" by (simp add: v_def Let_def)
  show ?case
  proof (cases "w = v")
    case True
    then show ?thesis by (simp add: v_def)
  next
    case False
    with Suc.prems(2) d have w: "w \<in> set (divide_workers k (r - v))" by blast
    then have k: "0 < k" by (cases k) auto
    define q m where "q = r div int (Suc k)" and "m = r mod int (Suc k)"
    have e: "r = int k * q + q + m" unfolding q_def m_def
      by (metis (no_types, lifting) distrib_right mult_1 mult_div_mod_eq of_nat_Suc add.commute)
    have m: "0 \<le> m" "m \<le> int k"
      using pos_mod_sign[of "int (Suc k)" r] pos_mod_bound[of "int (Suc k)" r] unfolding m_def by linarith+
    have v: "v = q + (if m \<noteq> 0 then 1 else 0)" by (simp add: v_def q_def m_def)
    show ?thesis unfolding q_def[symmetric] m_def[symmetric]
    proof (cases "m = 0")
      case True
      then have "r - v = int k * q" using e by (simp add: v)
      then have "(r - v) div int k = q" "(r - v) mod int k = 0" using k by simp_all
      with Suc.IH[OF b(2) w] True show "q \<le> w \<and> w \<le> q + (if m \<noteq> 0 then 1 else 0)" by simp
    next
      case False
      then have rv: "r - v = int k * q + (m - 1)" using e by (simp add: v)
      have b1: "0 \<le> m - 1" "m - 1 < int k" using False m by simp_all
      have "(r - v) div int k = q" unfolding rv using b1 k by (simp add: div_pos_pos_trivial)
      with Suc.IH[OF b(2) w] False show "q \<le> w \<and> w \<le> q + (if m \<noteq> 0 then 1 else 0)" by (auto split: if_splits)
    qed
  qed
qed

section \<open>Loops\<close>

lemma run_all_keeps:
  assumes "\<And>x s. x \<in> set xs \<Longrightarrow> I s \<Longrightarrow> I (snd (f x s))" and "I s"
  shows "I (snd (run_all f xs s))"
  using assms
proof (induction xs arbitrary: s)
  case Nil
  then show ?case by simp
next
  case (Cons x xs)
  obtain e s1 where f: "f x s = (e, s1)" by fastforce
  have "I s1" using Cons.prems(1)[of x s] Cons.prems(2) f by simp
  with Cons.IH[of s1] Cons.prems(1) show ?case by (cases e) (simp_all add: f)
qed

text \<open>A loop of appends that succeeds appends what its rounds append.\<close>

lemma run_all_collects:
  assumes "\<And>x s s1. x \<in> set xs \<Longrightarrow> f x s = (None, s1) \<Longrightarrow> h s1 = h s @ g x" and "run_all f xs s = (None, s')"
  shows "h s' = h s @ concat (map g xs)"
  using assms
proof (induction xs arbitrary: s)
  case Nil
  then show ?case by simp
next
  case (Cons x xs)
  obtain e s1 where f: "f x s = (e, s1)" by fastforce
  with Cons.prems(2) have e: "e = None" "run_all f xs s1 = (None, s')" by (auto split: option.splits)
  have "h s1 = h s @ g x" using Cons.prems(1) f e(1) by simp
  with Cons.IH[OF _ e(2)] Cons.prems(1) show ?case by simp
qed

section \<open>What closers hold\<close>

fun closer_sockets :: "closer \<Rightarrow> nat list" where
  "closer_sockets (CloseTCP t) = [tl_socket t]"
| "closer_sockets (CloseUDP ep us) = map uw_socket us"

fun closer_memory :: "closer \<Rightarrow> int" where
  "closer_memory (CloseTCP t) = 0"
| "closer_memory (CloseUDP ep us) = sum_list (map uw_reserved us)"

definition sockets_of :: "closer list \<Rightarrow> nat list" where
  "sockets_of cs = concat (map closer_sockets cs)"

definition memory_of :: "closer list \<Rightarrow> int" where
  "memory_of cs = sum_list (map closer_memory cs)"

lemma held_simps [simp]:
  "sockets_of [] = []" "sockets_of (cs @ ds) = sockets_of cs @ sockets_of ds" "sockets_of (c # cs) = closer_sockets c @ sockets_of cs"
  "memory_of [] = 0" "memory_of (cs @ ds) = memory_of cs + memory_of ds" "memory_of (c # cs) = closer_memory c + memory_of cs"
  by (simp_all add: sockets_of_def memory_of_def)

abbreviation charge :: "int \<Rightarrow> resource_budget \<Rightarrow> resource_budget" where
  "charge n b \<equiv> b\<lparr>b_udpMemory := b_udpMemory b + n\<rparr>"

text \<open>The system keeps the set of open sockets; what it opens was not open before.\<close>

locale sockets =
  fixes io :: "'w socket_io" and opened :: "'w \<Rightarrow> nat set"
  assumes tcp_opens: "sx_tcp io ep w = (Some h, w') \<Longrightarrow> h \<notin> opened w \<and> opened w' = insert h (opened w)"
    and tcp_refuses: "sx_tcp io ep w = (None, w') \<Longrightarrow> opened w' = opened w"
    and udp_opens: "sx_udp io ep shared n w = (Some h, w') \<Longrightarrow> h \<notin> opened w \<and> opened w' = insert h (opened w)"
    and udp_refuses: "sx_udp io ep shared n w = (None, w') \<Longrightarrow> opened w' = opened w"
    and worker_keeps: "sx_worker io h ipv6 w = (ok, w') \<Longrightarrow> opened w' = opened w"
    and closes: "opened (sx_close io h w) = opened w - {h}"
begin

lemma stop_workers:
  "fold (stop_worker io) us s = (s1, w1) \<Longrightarrow>
     s1 = charge (- sum_list (map uw_reserved us)) (fst s) \<and> opened w1 = opened (snd s) - set (map uw_socket us)"
proof (induction us arbitrary: s)
  case Nil
  then show ?case by auto
next
  case (Cons u us)
  from Cons.prems have "fold (stop_worker io) us (stop_worker io u s) = (s1, w1)" by simp
  from Cons.IH[OF this] show ?case by (auto simp: stop_worker_def releaseUDPMemory_def closes)
qed

lemma run_closer_effect:
  "run_closer io c s = (b1, w1) \<Longrightarrow>
     b1 = charge (- closer_memory c) (fst s) \<and> opened w1 = opened (snd s) - set (closer_sockets c)"
  by (cases c) (auto simp: closes dest: stop_workers)

lemma run_closers:
  "fold (run_closer io) cs s = (b1, w1) \<Longrightarrow>
     b1 = charge (- memory_of cs) (fst s) \<and> opened w1 = opened (snd s) - set (sockets_of cs)"
proof (induction cs arbitrary: s)
  case Nil
  then show ?case by auto
next
  case (Cons c cs)
  obtain b2 w2 where c: "run_closer io c s = (b2, w2)" by fastforce
  with Cons.prems have "fold (run_closer io) cs (b2, w2) = (b1, w1)" by simp
  from Cons.IH[OF this] run_closer_effect[OF c] show ?case by auto
qed

lemma stop_effect:
  "stop_runner io r s = (b1, w1) \<Longrightarrow>
     b1 = charge (- memory_of (rn_closers r)) (fst s) \<and> opened w1 = opened (snd s) - set (sockets_of (rn_closers r))"
  unfolding stop_runner_def by (rule run_closers)

text \<open>What is held so far, beside what there was.\<close>

definition holding :: "resource_budget \<Rightarrow> 'w \<Rightarrow> closer list \<Rightarrow> resource_budget \<times> 'w \<Rightarrow> bool" where
  "holding b0 w0 cs s \<longleftrightarrow>
     distinct (sockets_of cs) \<and> set (sockets_of cs) \<inter> opened w0 = {} \<and> opened (snd s) = opened w0 \<union> set (sockets_of cs)
     \<and> fst s = charge (memory_of cs) b0"

lemma start_worker_holds:
  assumes "start_worker io rule ep target port shared tw s = (r, s1)"
  shows "case r of
      Inl e \<Rightarrow> fst s1 = fst s \<and> opened (snd s1) = opened (snd s)
    | Inr u \<Rightarrow> uw_socket u \<notin> opened (snd s) \<and> opened (snd s1) = insert (uw_socket u) (opened (snd s))
        \<and> fst s1 = charge (uw_reserved u) (fst s)"
  using assms
  by (auto simp: start_worker_def Let_def reserveUDPMemory_def reserveAtomicN_def releaseUDPMemory_def closes
      dest!: udp_opens udp_refuses worker_keeps split: if_splits prod.splits option.splits bool.splits)

lemma start_workers_hold:
  assumes "start_workers (start_worker io rule ep target port shared tw) (stop_worker io) k us s = (r, s1)"
    and "holding b0 w0 (cs @ [CloseUDP ep us]) s"
  shows "case r of Inl e \<Rightarrow> holding b0 w0 cs s1 | Inr vs \<Rightarrow> holding b0 w0 (cs @ [CloseUDP ep vs]) s1"
  using assms
proof (induction k arbitrary: us s)
  case 0
  then show ?case by auto
next
  case (Suc k)
  obtain q s2 where q: "start_worker io rule ep target port shared tw s = (q, s2)" by (metis surj_pair)
  note f = start_worker_holds[OF q]
  show ?case
  proof (cases q)
    case (Inl e)
    obtain b3 w3 where c: "fold (stop_worker io) us s2 = (b3, w3)" by fastforce
    have d: "set (map uw_socket us) \<inter> set (sockets_of cs) = {}" "set (map uw_socket us) \<inter> opened w0 = {}"
      using Suc.prems(2) by (auto simp: holding_def)
    from Suc.prems(1) q Inl c have "r = Inl e" "s1 = (b3, w3)" by simp_all
    moreover have "holding b0 w0 cs (b3, w3)"
      using stop_workers[OF c] f Suc.prems(2) d unfolding holding_def Inl by auto
    ultimately show ?thesis by simp
  next
    case (Inr u)
    have "holding b0 w0 (cs @ [CloseUDP ep (us @ [u])]) s2"
      using f Suc.prems(2) unfolding holding_def Inr by auto
    with Suc.IH[of "us @ [u]" s2] Suc.prems(1) q Inr show ?thesis by simp
  qed
qed

abbreviation held :: "resource_budget \<Rightarrow> 'w \<Rightarrow> 'w starting \<Rightarrow> bool" where
  "held b0 w0 sg \<equiv> holding b0 w0 (sg_closers sg) (sg_budget sg, sg_world sg)"

lemma startTCP_holds: "held b0 w0 sg \<Longrightarrow> held b0 w0 (snd (startTCP io r ep port sg))"
  by (auto simp: startTCP_def holding_def dest!: tcp_opens tcp_refuses split: prod.splits option.splits)

lemma startUDP_holds:
  assumes "held b0 w0 sg"
  shows "held b0 w0 (snd (startUDP io r ep port n tw sg))"
proof -
  define rule where "rule = NormalizeRule r"
  show ?thesis
  proof (cases "port < 1 \<or> 65535 < port \<or> n < 1 \<or> tw < 1 \<or> parse_addr (r_TargetHost rule) = None")
    case True
    then have "snd (startUDP io r ep port n tw sg) = sg" by (auto simp: startUDP_def rule_def[symmetric] Let_def)
    with assms show ?thesis by simp
  next
    case False
    then obtain target where t: "parse_addr (r_TargetHost rule) = Some target" by auto
    obtain q b w where c: "start_workers (start_worker io rule ep target port (1 < n) tw) (stop_worker io) (nat n) []
        (sg_budget sg, sg_world sg) = (q, b, w)" by (metis surj_pair)
    have "holding b0 w0 (sg_closers sg @ [CloseUDP ep []]) (sg_budget sg, sg_world sg)"
      using assms by (simp add: holding_def)
    from start_workers_hold[OF c this] show ?thesis
      using False t c by (cases q) (simp_all add: startUDP_def rule_def[symmetric] Let_def)
  qed
qed

lemma start_listeners_hold: "held b0 w0 sg \<Longrightarrow> held b0 w0 (snd (start_listeners io r ws sg))"
proof -
  have e: "held b0 w0 (snd (start_endpoint io r ws proto port ep sg))" if "held b0 w0 sg" for proto port ep and sg :: "'w starting"
    using that startTCP_holds startUDP_holds[of b0 w0 "sg\<lparr>sg_index := Suc (sg_index sg)\<rparr>"] by (simp add: start_endpoint_def)
  have p: "held b0 w0 (snd (start_protocol io r ws port proto sg))" if "held b0 w0 sg" for port proto and sg :: "'w starting"
    using that by (auto simp: start_protocol_def split: option.splits intro!: run_all_keeps[where I = "held b0 w0"] e)
  assume "held b0 w0 sg"
  then show ?thesis unfolding start_listeners_def
    by (intro run_all_keeps[where I = "held b0 w0"] p) auto
qed

theorem start_runner_holds:
  assumes "start_runner io env (newRunner rule) (b, w) = (e, run, b', w')"
  shows "rn_rule run = rule \<and> rn_displayName run = r_Name rule \<and> holding b w (rn_closers run) (b', w') \<and> (e \<noteq> None \<longrightarrow> rn_closers run = [])"
proof (cases "udp_endpoints rule")
  case None
  with assms show ?thesis by (auto simp: start_runner_def newRunner_def holding_def)
next
  case (Some n)
  let ?ws = "distributeUDPWorkers (effectiveUDPWorkers env (r_UDPWorkers rule)) n"
  obtain q sg where q: "start_listeners io rule ?ws \<lparr>sg_closers = [], sg_index = 0, sg_budget = b, sg_world = w\<rparr> = (q, sg)"
    by fastforce
  have h: "held b w sg"
    using start_listeners_hold[of b w "\<lparr>sg_closers = [], sg_index = 0, sg_budget = b, sg_world = w\<rparr>" rule ?ws] q
    by (simp add: holding_def)
  show ?thesis
  proof (cases q)
    case None
    with assms Some q h show ?thesis by (auto simp: start_runner_def newRunner_def)
  next
    case err: (Some err)
    let ?run = "(newRunner rule)\<lparr>rn_closers := sg_closers sg\<rparr>"
    obtain b2 w2 where c: "stop_runner io ?run (sg_budget sg, sg_world sg) = (b2, w2)" by fastforce
    have c1: "stop_runner io \<lparr>rn_rule = rule, rn_displayName = r_Name rule, rn_closers = sg_closers sg\<rparr> (sg_budget sg, sg_world sg) = (b2, w2)"
      using c by (simp add: newRunner_def)
    from assms Some q err c1 have r: "run = ?run\<lparr>rn_closers := []\<rparr>" "e = Some err" "(b', w') = (b2, w2)"
      by (auto simp: start_runner_def newRunner_def Let_def)
    have "holding b w [] (b2, w2)" using stop_effect[OF c] h by (auto simp: holding_def)
    with r show ?thesis by (simp add: newRunner_def)
  qed
qed

text \<open>A failed start changes nothing; stopping a started runner restores what there was.\<close>

corollary start_failed:
  "start_runner io env (newRunner rule) (b, w) = (Some e, run, b', w') \<Longrightarrow> b' = b \<and> opened w' = opened w"
  using start_runner_holds[of env rule b w "Some e" run b' w'] by (simp add: holding_def)

corollary stop_started:
  assumes "start_runner io env (newRunner rule) (b, w) = (None, run, b', w')"
  shows "fst (stop_runner io run (b', w')) = b \<and> opened (snd (stop_runner io run (b', w'))) = opened w"
proof -
  obtain b2 w2 where c: "stop_runner io run (b', w') = (b2, w2)" by fastforce
  show ?thesis using stop_effect[OF c] start_runner_holds[OF assms] c by (auto simp: holding_def)
qed

end

section \<open>What a started runner serves\<close>

definition target_port :: "rule \<Rightarrow> int \<Rightarrow> int" where
  "target_port r p = r_TargetPort r + p - r_ListenPort r"

fun tcp_service :: "closer \<Rightarrow> (listen_endpoint \<times> string \<times> string) list" where
  "tcp_service (CloseTCP t) = [(tl_endpoint t, tl_target t, tl_backup t)]"
| "tcp_service (CloseUDP ep us) = []"

fun udp_service :: "closer \<Rightarrow> (listen_endpoint \<times> (addr \<times> int) set) list" where
  "udp_service (CloseTCP t) = []"
| "udp_service (CloseUDP ep us) = [(ep, (\<lambda>u. (uw_target u, uw_port u)) ` set us)]"

fun udp_workers :: "closer \<Rightarrow> int list" where
  "udp_workers (CloseTCP t) = []"
| "udp_workers (CloseUDP ep us) = [int (length us)]"

definition endpoints_of :: "rule \<Rightarrow> string \<Rightarrow> int \<Rightarrow> listen_endpoint list" where
  "endpoints_of r protocol p = (case listenEndpoints (r_ListenHost r) p protocol of None \<Rightarrow> [] | Some eps \<Rightarrow> eps)"

definition tcp_services :: "rule \<Rightarrow> (listen_endpoint \<times> string \<times> string) list" where
  "tcp_services r = concat (map (\<lambda>p. map (\<lambda>ep.
      (ep, join_host_port (r_TargetHost r) (itoa (target_port r p)), backup_address r (target_port r p)))
      (endpoints_of r ProtocolTCP p)) (listen_ports r))"

definition udp_target :: "rule \<Rightarrow> addr" where
  "udp_target r = (case parse_addr (r_TargetHost (NormalizeRule r)) of None \<Rightarrow> NoAddr | Some a \<Rightarrow> a)"

definition udp_services :: "rule \<Rightarrow> (listen_endpoint \<times> (addr \<times> int) set) list" where
  "udp_services r = concat (map (\<lambda>p. map (\<lambda>ep. (ep, {(udp_target r, target_port r p)})) (endpoints_of r ProtocolUDP p)) (listen_ports r))"

lemma startTCP_serves:
  assumes "startTCP io r ep port sg = (None, sg')"
  obtains h where "sg' = sg\<lparr>sg_world := sg_world sg', sg_closers := sg_closers sg @
      [CloseTCP \<lparr>tl_socket = h, tl_endpoint = ep, tl_target = join_host_port (r_TargetHost r) (itoa port), tl_backup = backup_address r port\<rparr>]\<rparr>"
  using assms by (auto simp: startTCP_def split: prod.splits option.splits)

lemma start_worker_serves:
  "start_worker io rule ep target port shared tw s = (Inr u, s1) \<Longrightarrow> uw_target u = target \<and> uw_port u = port"
  by (auto simp: start_worker_def Let_def split: if_splits prod.splits option.splits bool.splits)

lemma start_workers_serve:
  "start_workers (start_worker io rule ep target port shared tw) close k us s = (Inr vs, s1) \<Longrightarrow>
     length vs = length us + k \<and> (\<forall>u\<in>set vs - set us. uw_target u = target \<and> uw_port u = port)"
proof (induction k arbitrary: us s)
  case 0
  then show ?case by auto
next
  case (Suc k)
  obtain q s2 where q: "start_worker io rule ep target port shared tw s = (q, s2)" by (metis surj_pair)
  with Suc.prems obtain u where u: "q = Inr u" by (cases q) simp_all
  with Suc.prems q have "start_workers (start_worker io rule ep target port shared tw) close k (us @ [u]) s2 = (Inr vs, s1)" by simp
  from Suc.IH[OF this] start_worker_serves[OF q[unfolded u]] show ?case by auto
qed

lemma startUDP_serves:
  assumes "startUDP io r ep port n tw sg = (None, sg')"
  obtains us where "sg' = sg\<lparr>sg_budget := sg_budget sg', sg_world := sg_world sg', sg_closers := sg_closers sg @ [CloseUDP ep us]\<rparr>"
    and "int (length us) = n" and "1 \<le> n" and "\<forall>u\<in>set us. (uw_target u, uw_port u) = (udp_target r, port)"
proof -
  define rule where "rule = NormalizeRule r"
  have p: "\<not> (port < 1 \<or> 65535 < port)" "\<not> (n < 1 \<or> tw < 1)"
    using assms by (auto simp: startUDP_def Let_def split: if_splits)
  have "parse_addr (r_TargetHost rule) \<noteq> None"
    using assms p by (cases "parse_addr (r_TargetHost rule)") (simp_all add: startUDP_def rule_def[symmetric] Let_def)
  then obtain target where t: "parse_addr (r_TargetHost rule) = Some target" by auto
  obtain q b w where c: "start_workers (start_worker io rule ep target port (1 < n) tw) (stop_worker io) (nat n) []
      (sg_budget sg, sg_world sg) = (q, b, w)" by (metis surj_pair)
  have e: "(case q of Inl e \<Rightarrow> (Some e, sg\<lparr>sg_budget := b, sg_world := w\<rparr>)
      | Inr us \<Rightarrow> (None, sg\<lparr>sg_budget := b, sg_world := w, sg_closers := sg_closers sg @ [CloseUDP ep us]\<rparr>)) = (None, sg')"
    using assms p t c unfolding startUDP_def rule_def[symmetric] Let_def by (cases q) simp_all
  show thesis
  proof (cases q)
    case (Inl err)
    with e show thesis by simp
  next
    case (Inr us)
    with e have s: "sg' = sg\<lparr>sg_budget := b, sg_world := w, sg_closers := sg_closers sg @ [CloseUDP ep us]\<rparr>" by simp
    have "udp_target r = target" using t by (simp add: udp_target_def rule_def)
    with start_workers_serve[OF c[unfolded Inr]] p s show thesis by (intro that[of us]) auto
  qed
qed

lemma start_endpoint_serves:
  assumes "start_endpoint io r ws proto port ep sg = (None, sg')"
  shows "concat (map tcp_service (sg_closers sg')) = concat (map tcp_service (sg_closers sg)) @
      (if proto = ProtocolTCP then [(ep, join_host_port (r_TargetHost r) (itoa port), backup_address r port)] else [])"
    and "concat (map udp_service (sg_closers sg')) = concat (map udp_service (sg_closers sg)) @
      (if proto = ProtocolTCP then [] else [(ep, {(udp_target r, port)})])"
    and "concat (map udp_workers (sg_closers sg)) = take (sg_index sg) ws \<Longrightarrow> sg_index sg \<le> length ws \<Longrightarrow>
      concat (map udp_workers (sg_closers sg')) = take (sg_index sg') ws \<and> sg_index sg' \<le> length ws"
proof -
  consider "proto = ProtocolTCP" "startTCP io r ep port sg = (None, sg')"
    | "proto \<noteq> ProtocolTCP" "sg_index sg < length ws"
      "startUDP io r ep port (ws ! sg_index sg) (sum_list ws) (sg\<lparr>sg_index := Suc (sg_index sg)\<rparr>) = (None, sg')"
    using assms by (auto simp: start_endpoint_def split: if_splits)
  then have "concat (map tcp_service (sg_closers sg')) = concat (map tcp_service (sg_closers sg)) @
      (if proto = ProtocolTCP then [(ep, join_host_port (r_TargetHost r) (itoa port), backup_address r port)] else [])
    \<and> concat (map udp_service (sg_closers sg')) = concat (map udp_service (sg_closers sg)) @
      (if proto = ProtocolTCP then [] else [(ep, {(udp_target r, port)})])
    \<and> (concat (map udp_workers (sg_closers sg)) = take (sg_index sg) ws \<longrightarrow> sg_index sg \<le> length ws \<longrightarrow>
      concat (map udp_workers (sg_closers sg')) = take (sg_index sg') ws \<and> sg_index sg' \<le> length ws)"
  proof cases
    case 1
    from startTCP_serves[OF 1(2)] obtain h where h: "sg' = sg\<lparr>sg_world := sg_world sg', sg_closers := sg_closers sg @
      [CloseTCP \<lparr>tl_socket = h, tl_endpoint = ep, tl_target = join_host_port (r_TargetHost r) (itoa port), tl_backup = backup_address r port\<rparr>]\<rparr>" .
    then have "sg_closers sg' = sg_closers sg @
      [CloseTCP \<lparr>tl_socket = h, tl_endpoint = ep, tl_target = join_host_port (r_TargetHost r) (itoa port), tl_backup = backup_address r port\<rparr>]"
      "sg_index sg' = sg_index sg" by (cases sg, cases sg', simp)+
    with 1(1) show ?thesis by simp
  next
    case 2
    from startUDP_serves[OF 2(3)] obtain us where us:
      "sg' = (sg\<lparr>sg_index := Suc (sg_index sg)\<rparr>)\<lparr>sg_budget := sg_budget sg', sg_world := sg_world sg',
         sg_closers := sg_closers (sg\<lparr>sg_index := Suc (sg_index sg)\<rparr>) @ [CloseUDP ep us]\<rparr>"
      "int (length us) = ws ! sg_index sg" "1 \<le> ws ! sg_index sg" "\<forall>u\<in>set us. (uw_target u, uw_port u) = (udp_target r, port)" .
    then have "sg_closers sg' = sg_closers sg @ [CloseUDP ep us]" "sg_index sg' = Suc (sg_index sg)" by (cases sg, cases sg', simp)+
    moreover have "us \<noteq> []" using us(2,3) by auto
    then have "(\<lambda>u. (uw_target u, uw_port u)) ` set us = {(udp_target r, port)}" using us(4) by (cases us) auto
    ultimately show ?thesis using 2(1,2) us(2) by (simp add: take_Suc_conv_app_nth)
  qed
  then show "concat (map tcp_service (sg_closers sg')) = concat (map tcp_service (sg_closers sg)) @
      (if proto = ProtocolTCP then [(ep, join_host_port (r_TargetHost r) (itoa port), backup_address r port)] else [])"
    and "concat (map udp_service (sg_closers sg')) = concat (map udp_service (sg_closers sg)) @
      (if proto = ProtocolTCP then [] else [(ep, {(udp_target r, port)})])"
    and "concat (map udp_workers (sg_closers sg)) = take (sg_index sg) ws \<Longrightarrow> sg_index sg \<le> length ws \<Longrightarrow>
      concat (map udp_workers (sg_closers sg')) = take (sg_index sg') ws \<and> sg_index sg' \<le> length ws" by blast+
qed


lemma start_protocol_serves:
  assumes "start_protocol io r ws p proto sg = (None, sg')"
  shows "concat (map tcp_service (sg_closers sg')) = concat (map tcp_service (sg_closers sg)) @
      (if proto = ProtocolTCP then map (\<lambda>ep. (ep, join_host_port (r_TargetHost r) (itoa (target_port r p)),
          backup_address r (target_port r p))) (endpoints_of r proto p) else [])"
    and "concat (map udp_service (sg_closers sg')) = concat (map udp_service (sg_closers sg)) @
      (if proto = ProtocolTCP then [] else map (\<lambda>ep. (ep, {(udp_target r, target_port r p)})) (endpoints_of r proto p))"
    and "concat (map udp_workers (sg_closers sg)) = take (sg_index sg) ws \<and> sg_index sg \<le> length ws \<Longrightarrow>
      concat (map udp_workers (sg_closers sg')) = take (sg_index sg') ws \<and> sg_index sg' \<le> length ws"
proof -
  from assms obtain eps where eps: "listenEndpoints (r_ListenHost r) p proto = Some eps"
    and run: "run_all (start_endpoint io r ws proto (target_port r p)) eps sg = (None, sg')"
    by (auto simp: start_protocol_def target_port_def split: option.splits)
  have e: "endpoints_of r proto p = eps" by (simp add: endpoints_of_def eps)
  have keep: "concat (map g xs) = []" if "\<And>x. g x = []" for g :: "listen_endpoint \<Rightarrow> 'b list" and xs using that by simp
  have c: "concat (map (\<lambda>x. [g x]) xs) = map g xs" for g :: "listen_endpoint \<Rightarrow> 'b" and xs by (induction xs) simp_all
  show "concat (map tcp_service (sg_closers sg')) = concat (map tcp_service (sg_closers sg)) @
      (if proto = ProtocolTCP then map (\<lambda>ep. (ep, join_host_port (r_TargetHost r) (itoa (target_port r p)),
          backup_address r (target_port r p))) (endpoints_of r proto p) else [])"
    using run_all_collects[where h = "\<lambda>s. concat (map tcp_service (sg_closers s))", OF start_endpoint_serves(1)[of io r ws proto "target_port r p"] run] unfolding e
    by (cases "proto = ProtocolTCP") (simp_all add: c)
  show "concat (map udp_service (sg_closers sg')) = concat (map udp_service (sg_closers sg)) @
      (if proto = ProtocolTCP then [] else map (\<lambda>ep. (ep, {(udp_target r, target_port r p)})) (endpoints_of r proto p))"
    using run_all_collects[where h = "\<lambda>s. concat (map udp_service (sg_closers s))", OF start_endpoint_serves(2)[of io r ws proto "target_port r p"] run] unfolding e
    by (cases "proto = ProtocolTCP") (simp_all add: c)
  have "concat (map udp_workers (sg_closers s1)) = take (sg_index s1) ws \<and> sg_index s1 \<le> length ws"
    if "run_all (start_endpoint io r ws proto (target_port r p)) xs s = (None, s1)"
      and "concat (map udp_workers (sg_closers s)) = take (sg_index s) ws \<and> sg_index s \<le> length ws" for xs s s1
    using that
  proof (induction xs arbitrary: s)
    case Nil
    then show ?case by simp
  next
    case (Cons x xs)
    obtain q s2 where q: "start_endpoint io r ws proto (target_port r p) x s = (q, s2)" by (metis surj_pair)
    with Cons.prems(1) have n: "q = None" "run_all (start_endpoint io r ws proto (target_port r p)) xs s2 = (None, s1)"
      by (auto split: option.splits)
    show ?case using Cons.IH[OF n(2)] start_endpoint_serves(3)[OF q[unfolded n(1)]] Cons.prems(2) by blast
  qed
  then show "concat (map udp_workers (sg_closers sg)) = take (sg_index sg) ws \<and> sg_index sg \<le> length ws \<Longrightarrow>
      concat (map udp_workers (sg_closers sg')) = take (sg_index sg') ws \<and> sg_index sg' \<le> length ws" using run by blast
qed

text \<open>The plan of workers never runs out.\<close>

lemma run_all_potential:
  assumes "\<And>x s. x \<in> set xs \<Longrightarrow> idx s + c x \<le> (N :: nat) \<Longrightarrow>
      fst (f x s) \<noteq> Some bad \<and> (fst (f x s) = None \<longrightarrow> idx (snd (f x s)) = idx s + c x)"
    and "idx s + sum_list (map c xs) \<le> N"
  shows "fst (run_all f xs s) \<noteq> Some bad \<and> (fst (run_all f xs s) = None \<longrightarrow> idx (snd (run_all f xs s)) = idx s + sum_list (map c xs))"
  using assms
proof (induction xs arbitrary: s)
  case Nil
  then show ?case by simp
next
  case (Cons x xs)
  obtain e s1 where f: "f x s = (e, s1)" by (metis surj_pair)
  have h: "e \<noteq> Some bad \<and> (e = None \<longrightarrow> idx s1 = idx s + c x)" using Cons.prems(1)[of x s] Cons.prems(2) f by simp
  show ?case
  proof (cases e)
    case None
    with h have "idx s1 = idx s + c x" by simp
    with Cons.IH[of s1] Cons.prems None f show ?thesis by (simp add: add.assoc)
  next
    case (Some a)
    with h f show ?thesis by simp
  qed
qed

definition udp_count :: "rule \<Rightarrow> string \<Rightarrow> int \<Rightarrow> nat" where
  "udp_count r proto p = (if proto = ProtocolTCP then 0 else length (endpoints_of r proto p))"

lemma startUDP_index:
  "fst (startUDP io r ep port n tw sg) \<noteq> Some WorkerPlanExhausted \<and> sg_index (snd (startUDP io r ep port n tw sg)) = sg_index sg"
proof -
  have w: "fst (start_worker io rule ep target port shared tw s) \<noteq> Inl WorkerPlanExhausted" for rule target shared s
    by (auto simp: start_worker_def Let_def split: prod.splits option.splits bool.splits)
  have ws: "fst (start_workers (start_worker io rule ep target port shared tw) close k us s) \<noteq> Inl WorkerPlanExhausted"
    for rule target shared close k us s
  proof (induction k arbitrary: us s)
    case 0
    then show ?case by simp
  next
    case (Suc k)
    obtain q s2 where q: "start_worker io rule ep target port shared tw s = (q, s2)" by (metis surj_pair)
    with w[of rule target shared s] Suc.IH show ?case by (cases q) simp_all
  qed
  define rule where "rule = NormalizeRule r"
  show ?thesis
  proof (cases "port < 1 \<or> 65535 < port \<or> n < 1 \<or> tw < 1 \<or> parse_addr (r_TargetHost rule) = None")
    case True
    then show ?thesis by (auto simp: startUDP_def rule_def[symmetric] Let_def)
  next
    case False
    then obtain target where t: "parse_addr (r_TargetHost rule) = Some target" by auto
    obtain q b w where c: "start_workers (start_worker io rule ep target port (1 < n) tw) (stop_worker io) (nat n) []
        (sg_budget sg, sg_world sg) = (q, b, w)" by (metis surj_pair)
    then have "q \<noteq> Inl WorkerPlanExhausted"
      using ws[of rule target "1 < n" "stop_worker io" "nat n" "[]" "(sg_budget sg, sg_world sg)"] by simp
    then show ?thesis using False t c by (cases q) (simp_all add: startUDP_def rule_def[symmetric] Let_def)
  qed
qed

lemma start_endpoint_index:
  assumes "sg_index sg + (if proto = ProtocolTCP then 0 else 1) \<le> length ws"
  shows "fst (start_endpoint io r ws proto port ep sg) \<noteq> Some WorkerPlanExhausted
    \<and> (fst (start_endpoint io r ws proto port ep sg) = None \<longrightarrow>
         sg_index (snd (start_endpoint io r ws proto port ep sg)) = sg_index sg + (if proto = ProtocolTCP then 0 else 1))"
proof (cases "proto = ProtocolTCP")
  case True
  then show ?thesis by (auto simp: start_endpoint_def startTCP_def split: prod.splits option.splits)
next
  case False
  with assms startUDP_index[of io r ep port "ws ! sg_index sg" "sum_list ws" "sg\<lparr>sg_index := Suc (sg_index sg)\<rparr>"]
  show ?thesis by (simp add: start_endpoint_def)
qed

lemma start_protocol_index:
  assumes "sg_index sg + udp_count r proto p \<le> length ws"
  shows "fst (start_protocol io r ws p proto sg) \<noteq> Some WorkerPlanExhausted
    \<and> (fst (start_protocol io r ws p proto sg) = None \<longrightarrow>
         sg_index (snd (start_protocol io r ws p proto sg)) = sg_index sg + udp_count r proto p)"
proof (cases "listenEndpoints (r_ListenHost r) p proto")
  case None
  then show ?thesis by (simp add: start_protocol_def)
next
  case (Some eps)
  have n: "udp_count r proto p = sum_list (map (\<lambda>_. if proto = ProtocolTCP then 0 else 1) eps)"
    by (simp add: udp_count_def endpoints_of_def Some sum_list_triv)
  let ?f = "start_endpoint io r ws proto (r_TargetPort r + p - r_ListenPort r)"
  have r: "fst (run_all ?f eps sg) \<noteq> Some WorkerPlanExhausted \<and> (fst (run_all ?f eps sg) = None \<longrightarrow>
      sg_index (snd (run_all ?f eps sg)) = sg_index sg + sum_list (map (\<lambda>_. if proto = ProtocolTCP then 0 else 1) eps))"
  proof (rule run_all_potential[where idx = sg_index and N = "length ws"])
    show "sg_index sg + sum_list (map (\<lambda>_. if proto = ProtocolTCP then 0 else 1) eps) \<le> length ws" using assms n by simp
  qed (rule start_endpoint_index)
  show ?thesis using r unfolding n[symmetric] start_protocol_def Some option.case .
qed

lemma count_endpoints_sum:
  "count_endpoints host ps = Some n \<Longrightarrow>
     n = int (sum_list (map (\<lambda>p. length (case listenEndpoints host p ProtocolUDP of None \<Rightarrow> [] | Some eps \<Rightarrow> eps)) ps))"
  by (induction ps arbitrary: n) (auto split: option.splits)

lemma endpoints_counted:
  assumes "udp_endpoints r = Some n" and "r_Protocol r \<in> {ProtocolTCP, ProtocolUDP, ProtocolBoth}"
  shows "nat n = sum_list (map (\<lambda>p. sum_list (map (\<lambda>proto. udp_count r proto p) (rule_protocols r))) (listen_ports r))" and "0 \<le> n"
proof -
  consider "r_Protocol r = ProtocolTCP" | "r_Protocol r = ProtocolUDP \<or> r_Protocol r = ProtocolBoth" using assms(2) by blast
  then have "nat n = sum_list (map (\<lambda>p. sum_list (map (\<lambda>proto. udp_count r proto p) (rule_protocols r))) (listen_ports r)) \<and> 0 \<le> n"
  proof cases
    case 1
    then show ?thesis using assms(1) by (simp add: udp_endpoints_def rule_protocols_def udp_count_def sum_list_triv)
  next
    case 2
    then have "count_endpoints (r_ListenHost r) (listen_ports r) = Some n" using assms(1) by (auto simp: udp_endpoints_def)
    from count_endpoints_sum[OF this] show ?thesis
      using 2 by (auto simp: rule_protocols_def udp_count_def endpoints_of_def)
  qed
  then show "nat n = sum_list (map (\<lambda>p. sum_list (map (\<lambda>proto. udp_count r proto p) (rule_protocols r))) (listen_ports r))"
    and "0 \<le> n" by blast+
qed

lemma start_listeners_index:
  assumes "sg_index sg + sum_list (map (\<lambda>p. sum_list (map (\<lambda>proto. udp_count r proto p) (rule_protocols r))) (listen_ports r)) \<le> length ws"
  shows "fst (start_listeners io r ws sg) \<noteq> Some WorkerPlanExhausted
    \<and> (fst (start_listeners io r ws sg) = None \<longrightarrow> sg_index (snd (start_listeners io r ws sg)) = sg_index sg
         + sum_list (map (\<lambda>p. sum_list (map (\<lambda>proto. udp_count r proto p) (rule_protocols r))) (listen_ports r)))"
  unfolding start_listeners_def
proof (rule run_all_potential[where idx = sg_index and N = "length ws"], goal_cases)
  case (1 p s)
  show ?case by (rule run_all_potential[where idx = sg_index and N = "length ws"]) (use 1 start_protocol_index in blast)+
next
  case 2
  show ?case by (rule assms)
qed

theorem start_runner_serves:
  assumes "start_runner io env (newRunner r) s = (e, run, s')" and "r_Protocol r \<in> {ProtocolTCP, ProtocolUDP, ProtocolBoth}"
  shows "e \<noteq> Some WorkerPlanExhausted"
    and "e = None \<Longrightarrow> concat (map tcp_service (rn_closers run)) = (if r_Protocol r = ProtocolUDP then [] else tcp_services r)
      \<and> concat (map udp_service (rn_closers run)) = (if r_Protocol r = ProtocolTCP then [] else udp_services r)
      \<and> concat (map udp_workers (rn_closers run)) =
          distributeUDPWorkers (effectiveUDPWorkers env (r_UDPWorkers r)) (int (length (concat (map udp_service (rn_closers run)))))"
proof -
  have "e \<noteq> Some WorkerPlanExhausted \<and> (e = None \<longrightarrow>
      concat (map tcp_service (rn_closers run)) = (if r_Protocol r = ProtocolUDP then [] else tcp_services r)
      \<and> concat (map udp_service (rn_closers run)) = (if r_Protocol r = ProtocolTCP then [] else udp_services r)
      \<and> concat (map udp_workers (rn_closers run)) =
          distributeUDPWorkers (effectiveUDPWorkers env (r_UDPWorkers r)) (int (length (concat (map udp_service (rn_closers run))))))"
  proof (cases "udp_endpoints r")
    case None
    with assms(1) show ?thesis by (auto simp: start_runner_def newRunner_def)
  next
    case (Some n)
    define ws where "ws = distributeUDPWorkers (effectiveUDPWorkers env (r_UDPWorkers r)) n"
    define sg0 where "sg0 = \<lparr>sg_closers = [], sg_index = 0, sg_budget = fst s, sg_world = snd s\<rparr>"
    obtain q sg where q: "start_listeners io r ws sg0 = (q, sg)" by (metis surj_pair)
    note cnt = endpoints_counted[OF Some assms(2)]
    have len: "length ws = nat n"
      using distribute_workers(1)[of n "effectiveUDPWorkers env (r_UDPWorkers r)"] cnt(2)
      by (cases "n = 0") (simp_all add: ws_def distributeUDPWorkers_def)
    have idx: "q \<noteq> Some WorkerPlanExhausted" "q = None \<Longrightarrow> sg_index sg = length ws"
      using start_listeners_index[of sg0 r ws io] q cnt(1) len by (simp_all add: sg0_def)
    show ?thesis
    proof (cases q)
      case err: (Some x)
      have "e = Some x" using assms(1) Some q err by (auto simp: start_runner_def newRunner_def ws_def sg0_def Let_def)
      with idx(1) err show ?thesis by simp
    next
      case None
      have r: "e = None" "rn_closers run = sg_closers sg"
        using assms(1) Some q None by (auto simp: start_runner_def newRunner_def ws_def sg0_def Let_def)
      note run = q[unfolded None start_listeners_def]
      have inner_t: "concat (map tcp_service (sg_closers s2)) = concat (map tcp_service (sg_closers s1)) @
            (if r_Protocol r = ProtocolUDP then [] else map (\<lambda>ep. (ep, join_host_port (r_TargetHost r) (itoa (target_port r p)),
               backup_address r (target_port r p))) (endpoints_of r ProtocolTCP p))"
        if "run_all (start_protocol io r ws p) (rule_protocols r) s1 = (None, s2)" for p s1 s2
        using run_all_collects[where h = "\<lambda>s. concat (map tcp_service (sg_closers s))", OF start_protocol_serves(1)[of io r ws p] that] assms(2) by (auto simp: rule_protocols_def)
      have inner_u: "concat (map udp_service (sg_closers s2)) = concat (map udp_service (sg_closers s1)) @
            (if r_Protocol r = ProtocolTCP then [] else map (\<lambda>ep. (ep, {(udp_target r, target_port r p)})) (endpoints_of r ProtocolUDP p))"
        if "run_all (start_protocol io r ws p) (rule_protocols r) s1 = (None, s2)" for p s1 s2
        using run_all_collects[where h = "\<lambda>s. concat (map udp_service (sg_closers s))", OF start_protocol_serves(2)[of io r ws p] that] assms(2) by (auto simp: rule_protocols_def)
      have t: "concat (map tcp_service (sg_closers sg)) = (if r_Protocol r = ProtocolUDP then [] else tcp_services r)"
        using run_all_collects[where h = "\<lambda>s. concat (map tcp_service (sg_closers s))", OF inner_t run] by (simp add: sg0_def tcp_services_def)
      have u: "concat (map udp_service (sg_closers sg)) = (if r_Protocol r = ProtocolTCP then [] else udp_services r)"
        using run_all_collects[where h = "\<lambda>s. concat (map udp_service (sg_closers s))", OF inner_u run] by (simp add: sg0_def udp_services_def)
      let ?I = "\<lambda>s :: 'a starting. concat (map udp_workers (sg_closers s)) = take (sg_index s) ws \<and> sg_index s \<le> length ws"
      have lift: "?I s2" if "run_all f xs s1 = (None, s2)" "?I s1" "\<And>x a b. f x a = (None, b) \<Longrightarrow> ?I a \<Longrightarrow> ?I b"
        for f :: "'b \<Rightarrow> 'a starting \<Rightarrow> start_error option \<times> 'a starting" and xs s1 s2
        using that
      proof (induction xs arbitrary: s1)
        case Nil
        then show ?case by simp
      next
        case (Cons x xs)
        obtain e3 s3 where s3: "f x s1 = (e3, s3)" by (metis surj_pair)
        with Cons.prems(1) have n: "e3 = None" "run_all f xs s3 = (None, s2)" by (auto split: option.splits)
        show ?case by (rule Cons.IH[OF n(2) Cons.prems(3)[OF s3[unfolded n(1)] Cons.prems(2)] Cons.prems(3)])
      qed
      have lift2: "?I s2" if "run_all (start_protocol io r ws p) xs s1 = (None, s2)" "?I s1" for p xs s1 s2
        using that
      proof (induction xs arbitrary: s1)
        case Nil
        then show ?case by simp
      next
        case (Cons x xs)
        obtain e3 s3 where s3: "start_protocol io r ws p x s1 = (e3, s3)" by (metis surj_pair)
        with Cons.prems(1) have n: "e3 = None" "run_all (start_protocol io r ws p) xs s3 = (None, s2)" by (auto split: option.splits)
        show ?case using Cons.IH[OF n(2)] start_protocol_serves(3)[OF s3[unfolded n(1)] Cons.prems(2)] by blast
      qed
      have "?I sg0" by (simp add: sg0_def)
      from lift[OF run this lift2] idx(2)[OF None] have w: "concat (map udp_workers (sg_closers sg)) = ws" by simp
      have "length (concat (map udp_service cs)) = length (concat (map udp_workers cs))" for cs
      proof (induction cs)
        case (Cons c cs)
        then show ?case by (cases c) simp_all
      qed simp
      then have "int (length (concat (map udp_service (sg_closers sg)))) = n" using w len cnt(2) by simp
      with r t u w show ?thesis by (simp add: ws_def)
    qed
  qed
  then show "e \<noteq> Some WorkerPlanExhausted"
    and "e = None \<Longrightarrow> concat (map tcp_service (rn_closers run)) = (if r_Protocol r = ProtocolUDP then [] else tcp_services r)
      \<and> concat (map udp_service (rn_closers run)) = (if r_Protocol r = ProtocolTCP then [] else udp_services r)
      \<and> concat (map udp_workers (rn_closers run)) =
          distributeUDPWorkers (effectiveUDPWorkers env (r_UDPWorkers r)) (int (length (concat (map udp_service (rn_closers run)))))"
    by blast+
qed

section \<open>Numbered sockets\<close>

text \<open>Any system, with its sockets numbered by the program's own table: the locale holds for it.\<close>

definition fresh_number :: "(nat \<times> nat) list \<Rightarrow> nat" where
  "fresh_number hs = Suc (Max (insert 0 (fst ` set hs)))"

lemma fresh_number: "fresh_number hs \<notin> fst ` set hs"
proof
  assume "fresh_number hs \<in> fst ` set hs"
  then have "fresh_number hs \<le> Max (insert 0 (fst ` set hs))" by (intro Max_ge) simp_all
  then show False by (simp add: fresh_number_def)
qed

definition enter_socket :: "nat option \<times> 'w \<Rightarrow> (nat \<times> nat) list \<Rightarrow> nat option \<times> 'w \<times> (nat \<times> nat) list" where
  "enter_socket r hs =
     (case r of (None, w) \<Rightarrow> (None, w, hs) | (Some h, w) \<Rightarrow> (Some (fresh_number hs), w, (fresh_number hs, h) # hs))"

definition numbered :: "'w socket_io \<Rightarrow> ('w \<times> (nat \<times> nat) list) socket_io" where
  "numbered io =
     \<lparr>sx_tcp = (\<lambda>ep (w, hs). enter_socket (sx_tcp io ep w) hs),
      sx_udp = (\<lambda>ep shared n (w, hs). enter_socket (sx_udp io ep shared n w) hs),
      sx_worker = (\<lambda>k ipv6 (w, hs). case map_of hs k of
          None \<Rightarrow> (False, w, hs) | Some h \<Rightarrow> (let (ok, w1) = sx_worker io h ipv6 w in (ok, w1, hs))),
      sx_close = (\<lambda>k (w, hs). case map_of hs k of
          None \<Rightarrow> (w, hs) | Some h \<Rightarrow> (sx_close io h w, filter (\<lambda>x. fst x \<noteq> k) hs)),
      sx_space = sx_space io\<rparr>"

interpretation num: sockets "numbered io" "\<lambda>s. fst ` set (snd s)" for io :: "'w socket_io"
proof (unfold_locales, goal_cases)
  case (1 ep w h w')
  then show ?case using fresh_number[of "snd w"] by (auto simp: numbered_def enter_socket_def split: prod.splits option.splits)
next
  case (2 ep w w')
  then show ?case by (auto simp: numbered_def enter_socket_def split: prod.splits option.splits)
next
  case (3 ep shared n w h w')
  then show ?case using fresh_number[of "snd w"] by (auto simp: numbered_def enter_socket_def split: prod.splits option.splits)
next
  case (4 ep shared n w w')
  then show ?case by (auto simp: numbered_def enter_socket_def split: prod.splits option.splits)
next
  case (5 h ipv6 w ok w')
  then show ?case by (auto simp: numbered_def Let_def split: prod.splits option.splits)
next
  case (6 h w)
  show ?case by (auto simp: numbered_def map_of_eq_None_iff split: prod.splits option.splits)
qed

end
