(* ===== verification/Manager_Runners.thy ===== *)
theory Manager_Runners
  imports Manager Runner_Facts Plan_Facts
begin

text \<open>
  The runners of the manager: what every loop leaves of them, and the sockets they own.
\<close>

section \<open>Maps as lists\<close>

lemma alist_remove_simps [simp]:
  "set (alist_remove k kvs) = {x \<in> set kvs. fst x \<noteq> k}" "distinct (map fst kvs) \<Longrightarrow> distinct (map fst (alist_remove k kvs))"
  by (auto simp: alist_remove_def distinct_map_filter)

definition fair :: "('n, 'w) system \<Rightarrow> bool" where
  "fair sy \<longleftrightarrow> (\<forall>i ks. distinct ks \<longrightarrow> distinct (sy_order sy i ks) \<and> set (sy_order sy i ks) = set ks)"

lemma picked_entries:
  "set (List.map_filter (\<lambda>k. map_option (Pair k) (m k)) ks) = {(k, v). k \<in> set ks \<and> m k = Some v}"
  "map fst (List.map_filter (\<lambda>k. map_option (Pair k) (m k)) ks) = filter (\<lambda>k. m k \<noteq> None) ks"
  by (induction ks) (auto simp: map_filter_simps split: option.splits)

lemma iter_fair:
  assumes "fair sy" and "distinct (map fst kvs)"
  shows "set (iter sy i kvs) = set kvs" and "distinct (map fst (iter sy i kvs))"
proof -
  have o: "distinct (sy_order sy i (map fst kvs))" "set (sy_order sy i (map fst kvs)) = fst ` set kvs"
    using assms unfolding fair_def by auto
  have "{(k, v). k \<in> fst ` set kvs \<and> map_of kvs k = Some v} = set kvs"
    using map_of_eq_Some_iff[OF assms(2)] by (auto simp: image_iff) (metis fst_conv)
  then show "set (iter sy i kvs) = set kvs" unfolding iter_def picked_entries o(2) .
  show "distinct (map fst (iter sy i kvs))" unfolding iter_def picked_entries using o(1) by simp
qed

section \<open>Loops over the runners\<close>

text \<open>A round that drops the runner of its key, or keeps it with another display name.\<close>

definition same_elsewhere :: "'n manager \<Rightarrow> 'n manager \<Rightarrow> bool" where
  "same_elsewhere m m' \<longleftrightarrow> m' = m\<lparr>mg_runners := mg_runners m', mg_resources := mg_resources m'\<rparr>"

lemma same_elsewhere_refl [simp]: "same_elsewhere m m"
  by (simp add: same_elsewhere_def)

lemma same_elsewhere_trans: "same_elsewhere m1 m2 \<Longrightarrow> same_elsewhere m2 m3 \<Longrightarrow> same_elsewhere m1 m3"
  by (cases m1; cases m2; cases m3) (simp add: same_elsewhere_def)

lemma same_elsewhere_fields:
  assumes "same_elsewhere m m'"
  shows "mg_stats m' = mg_stats m" "mg_budgets m' = mg_budgets m" "mg_rules m' = mg_rules m" "mg_desired m' = mg_desired m"
    "mg_tombstones m' = mg_tombstones m" "mg_dataPlanes m' = mg_dataPlanes m" "mg_resolver m' = mg_resolver m"
    "mg_nft m' = mg_nft m" "mg_nftKey m' = mg_nftKey m" "mg_nftInitialized m' = mg_nftInitialized m" "mg_settings m' = mg_settings m"
  using assms by (cases m; cases m'; simp add: same_elsewhere_def)+

definition renamed :: "runner \<Rightarrow> string \<Rightarrow> runner" where
  "renamed run name = run\<lparr>rn_displayName := name\<rparr>"

definition keeps_or_drops :: "(string \<Rightarrow> runner \<Rightarrow> runner option) \<Rightarrow> string \<times> runner \<Rightarrow> ('n manager \<times> 'w \<Rightarrow> 'n manager \<times> 'w) \<Rightarrow> bool" where
  "keeps_or_drops keep entry f \<longleftrightarrow>
     (\<forall>s. entry \<in> set (mg_runners (fst s)) \<longrightarrow> distinct (map fst (mg_runners (fst s))) \<longrightarrow>
        same_elsewhere (fst s) (fst (f s)) \<and> distinct (map fst (mg_runners (fst (f s))))
        \<and> set (mg_runners (fst (f s))) = (set (mg_runners (fst s)) - {entry})
            \<union> (case keep (fst entry) (snd entry) of None \<Rightarrow> {} | Some run \<Rightarrow> {(fst entry, run)}))"

definition kept :: "(string \<Rightarrow> runner \<Rightarrow> runner option) \<Rightarrow> (string \<times> runner) set \<Rightarrow> (string \<times> runner) set" where
  "kept keep entries = {(k, run') | k run run'. (k, run) \<in> entries \<and> keep k run = Some run'}"

lemma keeps_or_dropsD:
  assumes "keeps_or_drops keep entry f" and "entry \<in> set (mg_runners (fst s))" and "distinct (map fst (mg_runners (fst s)))"
  shows "same_elsewhere (fst s) (fst (f s))" and "distinct (map fst (mg_runners (fst (f s))))"
    and "set (mg_runners (fst (f s))) = (set (mg_runners (fst s)) - {entry})
            \<union> (case keep (fst entry) (snd entry) of None \<Rightarrow> {} | Some run \<Rightarrow> {(fst entry, run)})"
  using assms unfolding keeps_or_drops_def by blast+

lemma fold_keeps_or_drops:
  assumes "\<And>entry. entry \<in> set es \<Longrightarrow> keeps_or_drops keep entry (f entry)"
    and "distinct (map fst es)" and "set es \<subseteq> set (mg_runners (fst s))" and "distinct (map fst (mg_runners (fst s)))"
  shows "same_elsewhere (fst s) (fst (fold f es s)) \<and> distinct (map fst (mg_runners (fst (fold f es s))))
    \<and> set (mg_runners (fst (fold f es s))) = (set (mg_runners (fst s)) - set es) \<union> kept keep (set es)"
  using assms
proof (induction es arbitrary: s)
  case Nil
  then show ?case by (simp add: kept_def)
next
  case (Cons e es)
  define s1 where "s1 = f e s"
  have e: "e \<in> set (mg_runners (fst s))" using Cons.prems(3) by simp
  note h = keeps_or_dropsD[OF Cons.prems(1)[of e] e Cons.prems(4), folded s1_def, simplified]
  have other: "fst x \<noteq> fst e" if "x \<in> set es" for x using that Cons.prems(2) by (auto simp: image_iff)
  have sub: "set es \<subseteq> set (mg_runners (fst s1))"
  proof
    fix x assume x: "x \<in> set es"
    with Cons.prems(3) other[OF x] show "x \<in> set (mg_runners (fst s1))" unfolding h(3) by auto
  qed
  have IH: "same_elsewhere (fst s1) (fst (fold f es s1)) \<and> distinct (map fst (mg_runners (fst (fold f es s1))))
    \<and> set (mg_runners (fst (fold f es s1))) = (set (mg_runners (fst s1)) - set es) \<union> kept keep (set es)"
    by (rule Cons.IH) (use Cons.prems sub h(2) in auto)
  have new: "(case keep (fst e) (snd e) of None \<Rightarrow> {} | Some run \<Rightarrow> {(fst e, run)}) - set es
      = (case keep (fst e) (snd e) of None \<Rightarrow> {} | Some run \<Rightarrow> {(fst e, run)})"
    using other by (force split: option.split)
  have ke: "kept keep (set (e # es)) = (case keep (fst e) (snd e) of None \<Rightarrow> {} | Some run \<Rightarrow> {(fst e, run)}) \<union> kept keep (set es)"
    by (cases e) (auto simp: kept_def split: option.splits)
  have "set (mg_runners (fst (fold f es s1))) = (set (mg_runners (fst s)) - set (e # es)) \<union> kept keep (set (e # es))"
    using IH new unfolding h(3) ke by (auto simp: Un_Diff)
  with IH same_elsewhere_trans[OF h(1)] show ?case by (simp add: s1_def)
qed

lemma drop_runner_drops: "keep k run = None \<Longrightarrow> keeps_or_drops keep (k, run) (drop_runner io k run)"
  unfolding keeps_or_drops_def
proof (intro allI impI, goal_cases)
  case (1 s)
  then have keep: "keep k run = None" and e: "(k, run) \<in> set (mg_runners (fst s))" and d: "distinct (map fst (mg_runners (fst s)))"
    by simp_all
  obtain b w where st: "stop_runner io run (mg_resources (fst s), snd s) = (b, w)" by fastforce
  have "fst (drop_runner io k run s) = (fst s)\<lparr>mg_runners := alist_remove k (mg_runners (fst s)), mg_resources := b\<rparr>"
    by (simp add: drop_runner_def st)
  moreover have "{x \<in> set (mg_runners (fst s)). fst x \<noteq> k} = set (mg_runners (fst s)) - {(k, run)}"
    using e d by (auto dest: eq_key_imp_eq_value)
  ultimately show ?case
    using keep d by (simp add: same_elsewhere_def)
qed

lemma stop_when_keeps: "keeps_or_drops (\<lambda>k run. if bad k then None else Some run) entry (stop_when io bad entry)"
proof (cases "bad (fst entry)")
  case True
  then have "keeps_or_drops (\<lambda>k run. if bad k then None else Some run) (fst entry, snd entry) (drop_runner io (fst entry) (snd entry))"
    by (intro drop_runner_drops) simp
  with True show ?thesis by (simp add: stop_when_def[abs_def])
next
  case False
  then show ?thesis by (auto simp: keeps_or_drops_def stop_when_def)
qed

text \<open>What a changed plan keeps.\<close>

definition keeps_running :: "('n, 'w) system \<Rightarrow> plan \<Rightarrow> string \<Rightarrow> runner \<Rightarrow> runner option" where
  "keeps_running sy p k run =
     (case wanted_path sy p k of
        None \<Rightarrow> None
      | Some path \<Rightarrow> if ruleKey (g_Rule path) \<noteq> ruleKey (rn_rule run) then None else Some (renamed run (r_Name (g_Rule path))))"

lemma renamed_same: "rn_displayName run = name \<Longrightarrow> renamed run name = run"
  by (simp add: renamed_def)

lemma rename_entry:
  assumes "(k, run) \<in> set es" and "distinct (map fst es)"
  shows "set (map (\<lambda>(k', r). (k', if k' = k then f r else r)) es) = (set es - {(k, run)}) \<union> {(k, f run)}"
proof -
  have key: "x = (k, run)" if "x \<in> set es" "fst x = k" for x
    using that(2) eq_key_imp_eq_value[OF assms(2), of k run "snd x"] assms(1) that(1) by (metis prod.collapse)
  have "(\<lambda>(k', r). (k', if k' = k then f r else r)) x = (if x = (k, run) then (k, f run) else x)" if "x \<in> set es" for x
    using key[OF that] by (cases x) auto
  then have "set (map (\<lambda>(k', r). (k', if k' = k then f r else r)) es) = (\<lambda>x. if x = (k, run) then (k, f run) else x) ` set es"
    by simp
  with assms(1) show ?thesis by auto
qed

lemma stop_changed_keeps: "keeps_or_drops (keeps_running sy p) entry (stop_changed sy p entry)"
proof -
  obtain k run where entry: "entry = (k, run)" by fastforce
  let ?io = "sy_sockets sy"
  consider "keeps_running sy p k run = None" "stop_changed sy p entry = drop_runner ?io k run"
    | path :: go_path where "keeps_running sy p k run = Some (renamed run (r_Name (g_Rule path)))" "rn_displayName run = r_Name (g_Rule path)"
        "stop_changed sy p entry = (\<lambda>s. s)"
    | path :: go_path where "keeps_running sy p k run = Some (renamed run (r_Name (g_Rule path)))"
        "stop_changed sy p entry = (\<lambda>s. ((fst s)\<lparr>mg_runners := map (\<lambda>(k', run). (k', if k' = k then run\<lparr>rn_displayName := r_Name (g_Rule path)\<rparr> else run))
               (mg_runners (fst s))\<rparr>, snd s))"
  proof (cases "wanted_path sy p k")
    case None
    then show thesis by (intro that(1)) (simp_all add: keeps_running_def entry stop_changed_def fun_eq_iff)
  next
    case (Some path)
    show thesis
    proof (cases "ruleKey (g_Rule path) = ruleKey (rn_rule run)")
      case False
      with Some show thesis by (intro that(1)) (simp_all add: keeps_running_def entry stop_changed_def fun_eq_iff)
    next
      case same: True
      with Some have k: "keeps_running sy p k run = Some (renamed run (r_Name (g_Rule path)))" by (simp add: keeps_running_def)
      show thesis
      proof (cases "rn_displayName run = r_Name (g_Rule path)")
        case True
        with Some same k show thesis by (intro that(2)[of path]) (simp_all add: entry stop_changed_def fun_eq_iff)
      next
        case False
        with Some same k show thesis by (intro that(3)[of path]) (simp_all add: entry stop_changed_def fun_eq_iff)
      qed
    qed
  qed
  then show ?thesis
  proof cases
    case 1
    then show ?thesis unfolding entry by (simp add: drop_runner_drops)
  next
    case 2
    then show ?thesis by (auto simp: keeps_or_drops_def entry renamed_same)
  next
    case 3
    have keys [simp]: "map fst (map (\<lambda>(k', run). (k', if k' = k then run\<lparr>rn_displayName := r_Name (g_Rule path)\<rparr> else run)) es) = map fst es" for es
      by (induction es) auto
    have keep: "keeps_running sy p k run = Some (run\<lparr>rn_displayName := r_Name (g_Rule path)\<rparr>)" using 3(1) by (simp add: renamed_def)
    show ?thesis unfolding 3(2) keeps_or_drops_def
    proof (intro allI impI, goal_cases)
      case (1 s)
      then have "(k, run) \<in> set (mg_runners (fst s))" "distinct (map fst (mg_runners (fst s)))" by (simp_all add: entry)
      from rename_entry[OF this, of "\<lambda>r. r\<lparr>rn_displayName := r_Name (g_Rule path)\<rparr>"] this(2) keep
      show ?case by (simp add: same_elsewhere_def entry del: set_map map_map list.map_comp)
    qed
  qed
qed

theorem stopChangedRunners_runners:
  fixes p :: plan
  assumes "fair sy" and "distinct (map fst (mg_runners (fst s)))"
  defines "s' \<equiv> stopChangedRunners sy p s"
  shows "same_elsewhere (fst s) (fst s')" and "distinct (map fst (mg_runners (fst s')))"
    and "set (mg_runners (fst s')) = kept (keeps_running sy p) (set (mg_runners (fst s)))"
proof -
  note it = iter_fair[OF assms(1,2), where i = 1]
  have sub: "set (iter sy 1 (mg_runners (fst s))) \<subseteq> set (mg_runners (fst s))" unfolding it(1) by simp
  note f = fold_keeps_or_drops[of "iter sy 1 (mg_runners (fst s))" "keeps_running sy p" "stop_changed sy p" s,
      OF stop_changed_keeps it(2) sub assms(2), folded stopChangedRunners_def s'_def, unfolded it(1)]
  show "same_elsewhere (fst s) (fst s')" and "distinct (map fst (mg_runners (fst s')))"
    and "set (mg_runners (fst s')) = kept (keeps_running sy p) (set (mg_runners (fst s)))" using f by simp_all
qed

theorem stop_when_runners:
  fixes io :: "'w socket_io" and s :: "'n manager \<times> 'w" and bad :: "string \<Rightarrow> bool" and i :: nat
  assumes "fair sy" and "distinct (map fst (mg_runners (fst s)))"
  defines "s' \<equiv> fold (stop_when io bad) (iter sy i (mg_runners (fst s))) s"
  shows "same_elsewhere (fst s) (fst s')" and "distinct (map fst (mg_runners (fst s')))"
    and "set (mg_runners (fst s')) = {x \<in> set (mg_runners (fst s)). \<not> bad (fst x)}"
proof -
  note f = fold_keeps_or_drops[of "iter sy i (mg_runners (fst s))" "\<lambda>k run. if bad k then None else Some run" "stop_when io bad" s,
      OF stop_when_keeps iter_fair(2)[OF assms(1,2)] _ assms(2)]
  show "same_elsewhere (fst s) (fst s')" and "distinct (map fst (mg_runners (fst s')))"
    and "set (mg_runners (fst s')) = {x \<in> set (mg_runners (fst s)). \<not> bad (fst x)}"
    using f iter_fair(1)[OF assms(1,2)] unfolding s'_def by (auto simp: kept_def split: if_splits)
qed

section \<open>Starting\<close>

text \<open>What the loop that starts paths leaves: its runners are old ones or started ones, and every path has one of three reasons.\<close>

definition explained :: "(string \<Rightarrow> bool) \<Rightarrow> (string \<Rightarrow> failure list) \<Rightarrow> 'n manager \<Rightarrow> string \<times> go_path \<Rightarrow> bool" where
  "explained bad errs m x \<longleftrightarrow>
     fst x \<in> fst ` set (mg_runners m)
     \<or> bad (fst x) \<and> WaitingForRevocation \<in> set (errs (g_RuleID (snd x)))
     \<or> \<not> bad (fst x) \<and> (\<exists>e. StartFailed e \<in> set (errs (g_RuleID (snd x))))"

lemma start_path_facts:
  assumes "start_path io env bad (k, path) (errs, m, w) = (errs', m', w')" and "distinct (map fst (mg_runners m))"
  shows "same_elsewhere m m'" and "distinct (map fst (mg_runners m'))" and "explained bad errs' m' (k, path)"
    and "\<And>ident f. f \<in> set (errs ident) \<Longrightarrow> f \<in> set (errs' ident)"
    and "set (mg_runners m) \<subseteq> set (mg_runners m')"
    and "\<And>x. x \<in> set (mg_runners m') - set (mg_runners m) \<Longrightarrow> fst x = k \<and> \<not> bad k \<and> rn_rule (snd x) = g_Rule path"
    and "\<And>ident. errs' ident \<noteq> errs ident \<Longrightarrow> ident = g_RuleID path"
proof -
  consider (old) "k \<in> fst ` set (mg_runners m)" "(errs', m', w') = (errs, m, w)"
    | (blocked) "k \<notin> fst ` set (mg_runners m)" "bad k" "(errs', m', w') = (add_failure (g_RuleID path) WaitingForRevocation errs, m, w)"
    | (failed) e b w1 where "k \<notin> fst ` set (mg_runners m)" "\<not> bad k"
        "(errs', m', w') = (add_failure (g_RuleID path) (StartFailed e) errs, m\<lparr>mg_resources := b\<rparr>, w1)"
    | (started) run b w1 where "k \<notin> fst ` set (mg_runners m)" "\<not> bad k"
        "start_runner io env (newRunner (g_Rule path)) (mg_resources m, w) = (None, run, b, w1)"
        "(errs', m', w') = (errs, m\<lparr>mg_resources := b, mg_runners := mg_runners m @ [(k, run)]\<rparr>, w1)"
    using assms(1) by (auto simp: start_path_def Let_def alist_put_fresh split: if_splits prod.splits option.splits)
  then have "same_elsewhere m m' \<and> distinct (map fst (mg_runners m')) \<and> explained bad errs' m' (k, path)
    \<and> (\<forall>ident f. f \<in> set (errs ident) \<longrightarrow> f \<in> set (errs' ident)) \<and> set (mg_runners m) \<subseteq> set (mg_runners m')
    \<and> (\<forall>x. x \<in> set (mg_runners m') - set (mg_runners m) \<longrightarrow> fst x = k \<and> \<not> bad k \<and> rn_rule (snd x) = g_Rule path)
    \<and> (\<forall>ident. errs' ident \<noteq> errs ident \<longrightarrow> ident = g_RuleID path)"
  proof cases
    case old
    then show ?thesis using assms(2) by (auto simp: explained_def)
  next
    case blocked
    then show ?thesis using assms(2) by (auto simp: explained_def add_failure_def)
  next
    case failed
    then show ?thesis using assms(2) by (auto simp: explained_def add_failure_def same_elsewhere_def)
  next
    case started
    have "rn_rule run = g_Rule path"
      using started(3) by (auto simp: start_runner_def newRunner_def Let_def split: option.splits prod.splits if_splits)
    with started assms(2) show ?thesis by (auto simp: explained_def same_elsewhere_def)
  qed
  then show "same_elsewhere m m'" and "distinct (map fst (mg_runners m'))" and "explained bad errs' m' (k, path)"
    and "\<And>ident f. f \<in> set (errs ident) \<Longrightarrow> f \<in> set (errs' ident)"
    and "set (mg_runners m) \<subseteq> set (mg_runners m')"
    and "\<And>x. x \<in> set (mg_runners m') - set (mg_runners m) \<Longrightarrow> fst x = k \<and> \<not> bad k \<and> rn_rule (snd x) = g_Rule path"
    and "\<And>ident. errs' ident \<noteq> errs ident \<Longrightarrow> ident = g_RuleID path" by blast+
qed

lemma explained_mono:
  assumes "explained bad errs m x" and "\<And>ident f. f \<in> set (errs ident) \<Longrightarrow> f \<in> set (errs' ident)"
    and "set (mg_runners m) \<subseteq> set (mg_runners m')"
  shows "explained bad errs' m' x"
  using assms unfolding explained_def by blast

theorem start_paths_facts:
  assumes "fold (start_path io env bad) ps (errs, m, w) = (errs', m', w')" and "distinct (map fst (mg_runners m))"
  shows "same_elsewhere m m' \<and> distinct (map fst (mg_runners m')) \<and> (\<forall>x\<in>set ps. explained bad errs' m' x)
    \<and> (\<forall>ident f. f \<in> set (errs ident) \<longrightarrow> f \<in> set (errs' ident)) \<and> set (mg_runners m) \<subseteq> set (mg_runners m')
    \<and> (\<forall>x. x \<in> set (mg_runners m') - set (mg_runners m) \<longrightarrow>
         (\<exists>path. (fst x, path) \<in> set ps \<and> \<not> bad (fst x) \<and> rn_rule (snd x) = g_Rule path))"
  using assms
proof (induction ps arbitrary: errs m w)
  case Nil
  then show ?case by simp
next
  case (Cons x ps)
  obtain k path where x: "x = (k, path)" by fastforce
  obtain errs1 m1 w1 where s: "start_path io env bad (k, path) (errs, m, w) = (errs1, m1, w1)" by (metis prod_cases3)
  note f = start_path_facts[OF s Cons.prems(2)]
  have "fold (start_path io env bad) ps (errs1, m1, w1) = (errs', m', w')" using Cons.prems(1) x s by simp
  note IH = Cons.IH[OF this f(2)]
  have "explained bad errs' m' (k, path)" using explained_mono[OF f(3)] IH by blast
  moreover have "\<exists>path. (fst y, path) \<in> set (x # ps) \<and> \<not> bad (fst y) \<and> rn_rule (snd y) = g_Rule path"
    if "y \<in> set (mg_runners m') - set (mg_runners m)" for y
  proof (cases "y \<in> set (mg_runners m1)")
    case True
    with that f(6)[of y] x show ?thesis by auto
  next
    case False
    with that IH have "\<exists>path. (fst y, path) \<in> set ps \<and> \<not> bad (fst y) \<and> rn_rule (snd y) = g_Rule path" by blast
    then show ?thesis by auto
  qed
  moreover have "same_elsewhere m m'" using IH same_elsewhere_trans[OF f(1)] by blast
  moreover have "\<forall>ident f. f \<in> set (errs ident) \<longrightarrow> f \<in> set (errs' ident)" using IH f(4) by blast
  moreover have "set (mg_runners m) \<subseteq> set (mg_runners m')" using IH f(5) by blast
  ultimately show ?case using IH x by simp
qed

section \<open>The runners after an application\<close>

definition path_of :: "plan \<Rightarrow> string \<Rightarrow> go_path option" where
  "path_of p k = map_of (p_goRules p) k"

theorem reconcileRunners_facts:
  fixes p :: plan
  assumes "reconcileRunners sy env p blocked result s = (errs, m', w')" and "fair sy"
    and "distinct (map fst (mg_runners (fst s)))" and "distinct (map fst (p_goRules p))"
  defines "bad \<equiv> path_blocked (sy_kernel sy) (fst s) p blocked result"
  shows "same_elsewhere (fst s) m'" and "distinct (map fst (mg_runners m'))"
    and "\<And>k run. (k, run) \<in> set (mg_runners m') \<Longrightarrow> \<not> bad k \<and> (\<exists>path. (k, path) \<in> set (p_goRules p)
           \<and> ((k, run) \<in> set (mg_runners (fst s)) \<or> rn_rule run = g_Rule path))"
    and "\<And>x. x \<in> set (p_goRules p) \<Longrightarrow> explained bad errs m' x"
    and "\<And>k run. (k, run) \<in> set (mg_runners (fst s)) \<Longrightarrow> \<not> bad k \<Longrightarrow> k \<in> fst ` set (p_goRules p) \<Longrightarrow> (k, run) \<in> set (mg_runners m')"
proof -
  let ?io = "sy_sockets sy"
  define s1 where "s1 = fold (stop_when ?io bad) (iter sy 2 (mg_runners (fst s))) s"
  obtain e2 m2 w2 where s2: "fold (start_path ?io env bad) (iter sy 3 (p_goRules p)) (\<lambda>_. [], fst s1, snd s1) = (e2, m2, w2)"
    by (metis prod_cases3)
  define s3 where "s3 = fold (stop_when ?io (\<lambda>k. k \<notin> fst ` set (p_goRules p))) (iter sy 4 (mg_runners (fst (m2, w2)))) (m2, w2)"
  have r: "errs = e2" "(m', w') = s3"
    using assms(1) s2 unfolding reconcileRunners_def Let_def bad_def[symmetric] s1_def[symmetric] s3_def by auto
  note f1 = stop_when_runners[OF assms(2,3), where io = ?io and bad = bad and i = 2, folded s1_def]
  note f2 = start_paths_facts[OF s2 f1(2)]
  have d2: "distinct (map fst (mg_runners (fst (m2, w2))))" using f2 by simp
  note f3 = stop_when_runners[OF assms(2) d2, where io = ?io and i = 4 and bad = "\<lambda>k. k \<notin> fst ` set (p_goRules p)", folded s3_def]
  note it = iter_fair[OF assms(2,4), where i = 3]
  have m': "m' = fst s3" using r(2) by (metis fst_conv)
  show "same_elsewhere (fst s) m'"
    using same_elsewhere_trans[OF same_elsewhere_trans[OF f1(1)], of m2 "fst s3"] f2 f3(1) unfolding m' by simp
  show "distinct (map fst (mg_runners m'))" using f3(2) m' by simp
  show "\<not> bad k \<and> (\<exists>path. (k, path) \<in> set (p_goRules p) \<and> ((k, run) \<in> set (mg_runners (fst s)) \<or> rn_rule run = g_Rule path))"
    if "(k, run) \<in> set (mg_runners m')" for k run
  proof -
    have k: "(k, run) \<in> set (mg_runners m2)" "k \<in> fst ` set (p_goRules p)" using that f3(3) m' by auto
    show ?thesis
    proof (cases "(k, run) \<in> set (mg_runners (fst s1))")
      case True
      with f1(3) k(2) show ?thesis by auto
    next
      case False
      with k(1) f2 it(1) show ?thesis by fastforce
    qed
  qed
  have keep: "set (mg_runners m') = {x \<in> set (mg_runners m2). fst x \<in> fst ` set (p_goRules p)}" using f3(3) m' by auto
  show "(k, run) \<in> set (mg_runners m')" if "(k, run) \<in> set (mg_runners (fst s))" "\<not> bad k" "k \<in> fst ` set (p_goRules p)" for k run
  proof -
    have "(k, run) \<in> set (mg_runners (fst s1))" using that f1(3) by simp
    then have "(k, run) \<in> set (mg_runners m2)" using f2 by blast
    then show ?thesis using that(3) unfolding keep by simp
  qed
  show "explained bad errs m' x" if "x \<in> set (p_goRules p)" for x
  proof -
    have "explained bad e2 m2 x" using f2 it(1) that by blast
    moreover have "fst x \<in> fst ` set (mg_runners m')" if "fst x \<in> fst ` set (mg_runners m2)"
      using that \<open>x \<in> set (p_goRules p)\<close> unfolding keep by (force simp: image_iff)
    ultimately show ?thesis unfolding explained_def r(1) by blast
  qed
qed

end
