(* ===== verification/Manager_Status.thy ===== *)
theory Manager_Status
  imports Manager_Runners
begin

text \<open>
  One application of the rules as a whole: what every step may change, that no step panics, and what the rules are
  told at the end.
\<close>

section \<open>The shape of a plan\<close>

definition plan_shape :: "string set \<Rightarrow> plan \<Rightarrow> bool" where
  "plan_shape ids p \<longleftrightarrow> distinct (map fst (p_goRules p))
     \<and> (\<forall>(k, g)\<in>set (p_goRules p). g_RuleID g = r_ID (g_Rule g) \<and> g_RuleID g \<in> ids \<and> p_usesGo p (g_RuleID g))"

lemma addGoPath_shape: "plan_shape ids p \<Longrightarrow> r_ID r \<in> ids \<Longrightarrow> plan_shape ids (addGoPath r listen target kind p)"
  by (auto simp: plan_shape_def addGoPath_def Let_def alist_put_distinct alist_put_set)

lemma plan_shape_other [simp]:
  "plan_shape ids (p\<lparr>p_nftSpecs := a\<rparr>) = plan_shape ids p" "plan_shape ids (p\<lparr>p_errors := b\<rparr>) = plan_shape ids p"
  "plan_shape ids (p\<lparr>p_dataPlanes := c\<rparr>) = plan_shape ids p" "plan_shape ids (p\<lparr>p_usesNFT := d\<rparr>) = plan_shape ids p"
  by (simp_all add: plan_shape_def)

lemma addNFTPath_shape: "plan_shape ids p \<Longrightarrow> plan_shape ids (addNFTPath ns r family listen target p)"
  by (simp add: addNFTPath_def plan_shape_def)

lemma plan_listener_shape:
  "plan_shape ids p \<Longrightarrow> r_ID r \<in> ids \<Longrightarrow> plan_shape ids (fst (plan_listener ns r addrs fl (p, n, g)))"
  by (cases fl) (simp add: plan_listener_def Let_def addGoPath_shape addNFTPath_shape)

lemma plan_families_shape:
  assumes "plan_shape ids p" and "r_ID r \<in> ids"
  shows "plan_shape ids (plan_families ns r addrs p)"
proof -
  have "plan_shape ids (fst (fold (plan_listener ns r addrs) fls s))" if "plan_shape ids (fst s)" for fls s
    using that
  proof (induction fls arbitrary: s)
    case (Cons fl fls)
    then show ?case using plan_listener_shape[of ids "fst s" r ns addrs fl "fst (snd s)" "snd (snd s)"] assms(2) by simp
  qed simp
  then show ?thesis using assms(1)
    by (auto simp: plan_families_def split: prod.splits) (metis fst_conv)
qed

lemma resolve_backup_id: "resolve_backup env r c v = (Inr r1, v1) \<Longrightarrow> r_ID r1 = r_ID r"
  by (auto simp: resolve_backup_def split: if_splits prod.splits sum.splits)

lemma plan_rule_shape:
  assumes "plan_shape ids (fst pv)" and "r_ID (NormalizeRule raw) \<in> ids"
  shows "plan_shape ids (fst (plan_rule env ns c raw pv))"
  using assms resolve_backup_id
  by (auto simp: plan_rule_def Let_def plan_error_for_def plan_families_shape split: prod.splits sum.splits)

lemma assign_workers_shape:
  "map fst (assign_workers w ks i paths) = map fst paths \<and>
   (\<forall>(k, g)\<in>set (assign_workers w ks i paths). \<exists>g'. (k, g') \<in> set paths \<and> g_RuleID g = g_RuleID g' \<and> r_ID (g_Rule g) = r_ID (g_Rule g'))"
proof (induction ks arbitrary: i paths)
  case Nil
  then show ?case by auto
next
  case (Cons x ks)
  let ?paths = "map (\<lambda>(k', g). (k', if k' = x then g\<lparr>g_Rule := (g_Rule g)\<lparr>r_UDPWorkers := w i\<rparr>\<rparr> else g)) paths"
  have keys: "map fst ?paths = map fst paths" by (induction paths) auto
  have "\<exists>g'. (k, g') \<in> set paths \<and> g_RuleID g = g_RuleID g' \<and> r_ID (g_Rule g) = r_ID (g_Rule g')" if "(k, g) \<in> set ?paths" for k g
    using that by (auto split: if_splits)
  then show ?case using Cons.IH[of "i + 1" ?paths] keys by fastforce
qed

lemma distribute_rule_shape:
  "map fst (distribute_rule env raw paths) = map fst paths \<and>
   (\<forall>(k, g)\<in>set (distribute_rule env raw paths). \<exists>g'. (k, g') \<in> set paths \<and> g_RuleID g = g_RuleID g' \<and> r_ID (g_Rule g) = r_ID (g_Rule g'))"
proof (cases "distribute_rule env raw paths = paths")
  case True
  then show ?thesis by auto
next
  case False
  then obtain w ks i where eq: "distribute_rule env raw paths = assign_workers w ks i paths"
    by (auto simp: distribute_rule_def Let_def split: if_splits)
  show ?thesis unfolding eq by (rule assign_workers_shape)
qed

theorem buildPlan_shape:
  assumes b: "buildPlan env ns c rules v = (p, v')"
  shows "plan_shape ((r_ID \<circ> NormalizeRule) ` set rules) p"
proof -
  let ?ids = "(r_ID \<circ> NormalizeRule) ` set rules"
  obtain q v1 where f: "fold (plan_rule env ns c) rules (empty_plan, v) = (q, v1)" by fastforce
  have "plan_shape ?ids (fst (fold (plan_rule env ns c) rs pv))" if "plan_shape ?ids (fst pv)" "set rs \<subseteq> set rules" for rs pv
    using that by (induction rs arbitrary: pv) (simp_all add: plan_rule_shape)
  from this[of "(empty_plan, v)" rules] f have q: "plan_shape ?ids q" by (simp add: plan_shape_def empty_plan_def)
  have "plan_shape ?ids (q\<lparr>p_goRules := fold (distribute_rule env) rs (p_goRules q)\<rparr>)" if "plan_shape ?ids q" for rs and q :: plan
    using that
  proof (induction rs arbitrary: q)
    case Nil
    then show ?case by simp
  next
    case (Cons raw rs)
    note d = distribute_rule_shape[of env raw "p_goRules q"]
    have "plan_shape ?ids (q\<lparr>p_goRules := distribute_rule env raw (p_goRules q)\<rparr>)"
      using Cons.prems d unfolding plan_shape_def by fastforce
    from Cons.IH[OF this] show ?case by simp
  qed
  moreover have "p = q\<lparr>p_goRules := fold (distribute_rule env) rules (p_goRules q)\<rparr>"
    using b f by (simp add: buildPlan_def distributeGoUDPWorkers_def)
  ultimately show ?thesis using q by simp
qed

section \<open>Frames\<close>

text \<open>What the states of the rules do not touch.\<close>

definition core :: "'n manager \<Rightarrow> (string \<times> runner) list \<times> resource_budget \<times> 'n \<times> string \<times> bool \<times> (string \<times> rule) list \<times> nft_settings" where
  "core m = (mg_runners m, mg_resources m, mg_nft m, mg_nftKey m, mg_nftInitialized m, mg_desired m, mg_settings m)"

lemma core_fields:
  assumes "core m' = core m"
  shows "mg_runners m' = mg_runners m" "mg_resources m' = mg_resources m" "mg_nft m' = mg_nft m" "mg_nftKey m' = mg_nftKey m"
    "mg_nftInitialized m' = mg_nftInitialized m" "mg_desired m' = mg_desired m" "mg_settings m' = mg_settings m"
  using assms by (simp_all add: core_def)

lemma core_updates [simp]:
  "core (m\<lparr>mg_stats := a\<rparr>) = core m" "core (m\<lparr>mg_budgets := b\<rparr>) = core m" "core (m\<lparr>mg_rules := c\<rparr>) = core m"
  "core (m\<lparr>mg_tombstones := d\<rparr>) = core m" "core (m\<lparr>mg_dataPlanes := e\<rparr>) = core m" "core (m\<lparr>mg_resolver := f\<rparr>) = core m"
  by (simp_all add: core_def)

lemma core_tombstone [simp]: "core (add_tombstone ident identity r m) = core m"
  by (simp add: add_tombstone_def)

lemma setRunning_core: "setRunning ident v msg m = Some m' \<Longrightarrow> core m' = core m"
  by (auto simp: setRunning_def)

text \<open>What the loop over the requested rules leaves.\<close>

lemma desire_all:
  defines "d \<equiv> \<lambda>rules m. fold desire rules m"
  shows "mg_runners (d rules m) = mg_runners m" "mg_resources (d rules m) = mg_resources m" "mg_nft (d rules m) = mg_nft m"
    "mg_nftKey (d rules m) = mg_nftKey m" "mg_nftInitialized (d rules m) = mg_nftInitialized m" "mg_settings (d rules m) = mg_settings m"
    "mg_resolver (d rules m) = mg_resolver m" "mg_rules (d rules m) = mg_rules m" "mg_dataPlanes (d rules m) = mg_dataPlanes m"
  unfolding d_def by (induction rules arbitrary: m) (simp_all add: desire_def Let_def)

lemma desire_keys:
  "distinct (map fst (mg_desired m)) \<Longrightarrow> distinct (map fst (mg_desired (fold desire rules m)))"
  "fst ` set (mg_desired (fold desire rules m)) = fst ` set (mg_desired m) \<union> (r_ID \<circ> NormalizeRule) ` set rules"
  "mg_stats m i \<noteq> None \<or> i \<in> (r_ID \<circ> NormalizeRule) ` set rules \<Longrightarrow> mg_stats (fold desire rules m) i \<noteq> None"
proof -
  show "distinct (map fst (mg_desired m)) \<Longrightarrow> distinct (map fst (mg_desired (fold desire rules m)))"
    by (induction rules arbitrary: m) (simp_all add: desire_def Let_def alist_put_distinct)
  show "fst ` set (mg_desired (fold desire rules m)) = fst ` set (mg_desired m) \<union> (r_ID \<circ> NormalizeRule) ` set rules"
  proof (induction rules arbitrary: m)
    case (Cons r rules)
    then show ?case by (auto simp: desire_def Let_def alist_set_keys)
  qed simp
  show "mg_stats m i \<noteq> None \<or> i \<in> (r_ID \<circ> NormalizeRule) ` set rules \<Longrightarrow> mg_stats (fold desire rules m) i \<noteq> None"
  proof (induction rules arbitrary: m)
    case Nil
    then show ?case by simp
  next
    case (Cons r rules)
    have "mg_stats (desire r m) i \<noteq> None \<or> i \<in> (r_ID \<circ> NormalizeRule) ` set rules"
      using Cons.prems by (auto simp: desire_def Let_def ensure_def split: option.splits)
    from Cons.IH[OF this] show ?case by simp
  qed
qed

text \<open>The kernel part touches the backend and its key only.\<close>

definition kernel_step :: "'n manager \<Rightarrow> 'n manager \<Rightarrow> bool" where
  "kernel_step m m' \<longleftrightarrow> m' = m\<lparr>mg_nft := mg_nft m', mg_nftKey := mg_nftKey m', mg_nftInitialized := mg_nftInitialized m'\<rparr>"

lemma kernel_step_fields:
  assumes "kernel_step m m'"
  shows "mg_runners m' = mg_runners m" "mg_stats m' = mg_stats m" "mg_budgets m' = mg_budgets m" "mg_resources m' = mg_resources m"
    "mg_rules m' = mg_rules m" "mg_desired m' = mg_desired m" "mg_tombstones m' = mg_tombstones m"
    "mg_dataPlanes m' = mg_dataPlanes m" "mg_resolver m' = mg_resolver m" "mg_settings m' = mg_settings m"
  using assms by (cases m; cases m'; simp add: kernel_step_def)+

lemma kernel_step_trans: "kernel_step m1 m2 \<Longrightarrow> kernel_step m2 m3 \<Longrightarrow> kernel_step m1 m3"
  by (cases m1; cases m2; cases m3) (simp add: kernel_step_def)

lemma decide_step: "decideNFTAction fb specs key (m, w) = (r, m', w') \<Longrightarrow> kernel_step m m'"
  by (auto simp: decideNFTAction_def Let_def kernel_step_def split: option.splits prod.splits)

lemma replace_specs_step: "replace_specs fb specs key result (m, w) = (r, m', w') \<Longrightarrow> kernel_step m m'"
  by (auto simp: replace_specs_def Let_def kernel_step_def forget_key_def split: option.splits prod.splits if_splits)

lemma reconcileNFT_step:
  assumes "reconcileNFT fb p (m, w) = (result, m', w')"
  shows "kernel_step m m'" and "nr_cleanupFailed result \<Longrightarrow> nr_err result \<noteq> None" and "nr_inspectionFailed result \<Longrightarrow> nr_err result \<noteq> None"
proof -
  obtain key m1 w1 where k: "specs_key fb (p_nftSpecs p) (m, w) = (key, m1, w1)" by (metis prod_cases3)
  obtain needs r m2 w2 where d: "decideNFTAction fb (p_nftSpecs p) key (m1, w1) = ((needs, r), m2, w2)" by (metis prod.collapse)
  have s1: "kernel_step m m1" using k by (auto simp: specs_key_def kernel_step_def Let_def split: if_splits prod.splits)
  have err: "nr_cleanupFailed r \<Longrightarrow> nr_err r \<noteq> None" "nr_inspectionFailed r \<Longrightarrow> nr_err r \<noteq> None"
    using d by (auto simp: decideNFTAction_def Let_def split: option.splits prod.splits sum.splits if_splits)
  have "kernel_step m m' \<and> (nr_cleanupFailed result \<longrightarrow> nr_err result \<noteq> None) \<and> (nr_inspectionFailed result \<longrightarrow> nr_err result \<noteq> None)"
  proof (cases "nr_err r = None \<and> needs")
    case False
    with assms k d have "result = r" "m' = m2" by (auto simp: reconcileNFT_def)
    with kernel_step_trans[OF s1 decide_step[OF d]] err show ?thesis by blast
  next
    case True
    with assms k d have c: "replace_specs fb (p_nftSpecs p) key r (m2, w2) = (result, m', w')" by (auto simp: reconcileNFT_def)
    have f: "\<not> nr_cleanupFailed r" "\<not> nr_inspectionFailed r" using True err by auto
    have "(nr_cleanupFailed result \<longrightarrow> nr_err result \<noteq> None) \<and> (nr_inspectionFailed result \<longrightarrow> nr_err result \<noteq> None)"
      using c f by (auto simp: replace_specs_def Let_def split: option.splits prod.splits if_splits)
    with kernel_step_trans[OF kernel_step_trans[OF s1 decide_step[OF d]] replace_specs_step[OF c]] show ?thesis by blast
  qed
  then show "kernel_step m m'" and "nr_cleanupFailed result \<Longrightarrow> nr_err result \<noteq> None"
    and "nr_inspectionFailed result \<Longrightarrow> nr_err result \<noteq> None" by blast+
qed

section \<open>Tombstones\<close>

lemma tombstone_names_distinct: "distinct (tombstone_names base n)"
proof -
  let ?name = "\<lambda>i. if 0 < i then base @ ''-'' @ itoa (int i) else base"
  have "i = j" if "?name i = ?name j" for i j
    using that by (cases "0 < i"; cases "0 < j") simp_all
  then have "inj_on ?name (set [0..<Suc n])" by (rule inj_onI)
  then show ?thesis unfolding tombstone_names_def distinct_map by (simp del: upt_Suc)
qed

text \<open>There are more names than rules, so the search always ends with one.\<close>

theorem tombstone_found: "\<exists>ident. nftTombstoneID base identity desired m = Some ident"
proof (rule ccontr)
  let ?n = "length (mg_rules m) + length desired"
  assume "\<not> ?thesis"
  then have "set (tombstone_names base ?n) \<subseteq> fst ` set desired \<union> fst ` set (mg_rules m)"
    unfolding nftTombstoneID_def by (auto simp: find_None_iff)
  then have "card (set (tombstone_names base ?n)) \<le> card (fst ` set desired \<union> fst ` set (mg_rules m))"
    by (intro card_mono) simp_all
  also have "\<dots> \<le> card (fst ` set desired) + card (fst ` set (mg_rules m))" by (rule card_Un_le)
  also have "\<dots> \<le> length desired + length (mg_rules m)" using card_image_le[of "set desired" fst] card_image_le[of "set (mg_rules m)" fst]
      card_length[of desired] card_length[of "mg_rules m"] by simp
  finally show False using distinct_card[OF tombstone_names_distinct, of base ?n] by (simp add: tombstone_names_def)
qed

lemma tombstone_free:
  "nftTombstoneID base identity desired m = Some ident \<Longrightarrow> ident \<notin> fst ` set desired
     \<and> (ident \<in> fst ` set (mg_rules m) \<longrightarrow> text_or_empty (mg_tombstones m ident) = identity)"
  by (auto simp: nftTombstoneID_def find_Some_iff)

text \<open>Marking keeps everything but the tombstones, and every spec ends with a rule of its own or a tombstone.\<close>

definition entombs :: "(string \<times> rule) list \<Rightarrow> 'n manager \<Rightarrow> 'n manager \<Rightarrow> bool" where
  "entombs desired m m' \<longleftrightarrow> core m' = core m \<and> fst ` set (mg_rules m) \<subseteq> fst ` set (mg_rules m')
     \<and> (distinct (map fst (mg_rules m)) \<longrightarrow> distinct (map fst (mg_rules m')))
     \<and> (\<forall>i. mg_stats m i \<noteq> None \<longrightarrow> mg_stats m' i \<noteq> None)
     \<and> (\<forall>i. i \<in> fst ` set (mg_rules m') \<longrightarrow> i \<notin> fst ` set (mg_rules m) \<longrightarrow> mg_stats m' i \<noteq> None)
     \<and> (\<forall>i. i \<in> fst ` set (mg_rules m) \<longrightarrow> text_or_empty (mg_tombstones m' i) = text_or_empty (mg_tombstones m i))
     \<and> (\<forall>i. i \<in> fst ` set desired \<longrightarrow> mg_dataPlanes m' i = mg_dataPlanes m i)"

lemma entombsI:
  assumes "core m' = core m" and "fst ` set (mg_rules m) \<subseteq> fst ` set (mg_rules m')"
    and "distinct (map fst (mg_rules m)) \<Longrightarrow> distinct (map fst (mg_rules m'))"
    and "\<And>i. mg_stats m i \<noteq> None \<Longrightarrow> mg_stats m' i \<noteq> None"
    and "\<And>i. i \<in> fst ` set (mg_rules m') \<Longrightarrow> i \<notin> fst ` set (mg_rules m) \<Longrightarrow> mg_stats m' i \<noteq> None"
    and "\<And>i. i \<in> fst ` set (mg_rules m) \<Longrightarrow> text_or_empty (mg_tombstones m' i) = text_or_empty (mg_tombstones m i)"
    and "\<And>i. i \<in> fst ` set desired \<Longrightarrow> mg_dataPlanes m' i = mg_dataPlanes m i"
  shows "entombs desired m m'"
  unfolding entombs_def by (intro conjI allI impI; (rule assms; assumption))

lemma entombsD:
  assumes "entombs desired m m'"
  shows "core m' = core m" "fst ` set (mg_rules m) \<subseteq> fst ` set (mg_rules m')"
    "distinct (map fst (mg_rules m)) \<Longrightarrow> distinct (map fst (mg_rules m'))"
    "mg_stats m i \<noteq> None \<Longrightarrow> mg_stats m' i \<noteq> None"
    "i \<in> fst ` set (mg_rules m') \<Longrightarrow> i \<notin> fst ` set (mg_rules m) \<Longrightarrow> mg_stats m' i \<noteq> None"
    "i \<in> fst ` set (mg_rules m) \<Longrightarrow> text_or_empty (mg_tombstones m' i) = text_or_empty (mg_tombstones m i)"
    "i \<in> fst ` set desired \<Longrightarrow> mg_dataPlanes m' i = mg_dataPlanes m i"
proof -
  note e = assms[unfolded entombs_def]
  note e2 = e[THEN conjunct2]
  note e3 = e2[THEN conjunct2]
  note e4 = e3[THEN conjunct2]
  note e5 = e4[THEN conjunct2]
  note e6 = e5[THEN conjunct2]
  note d = e3[THEN conjunct1] and s = e4[THEN conjunct1] and n = e5[THEN conjunct1] and t = e6[THEN conjunct1] and p = e6[THEN conjunct2]
  show "core m' = core m" by (rule e[THEN conjunct1])
  show "fst ` set (mg_rules m) \<subseteq> fst ` set (mg_rules m')" by (rule e2[THEN conjunct1])
  show "distinct (map fst (mg_rules m)) \<Longrightarrow> distinct (map fst (mg_rules m'))" by (rule d[rule_format])
  show "mg_stats m i \<noteq> None \<Longrightarrow> mg_stats m' i \<noteq> None" by (rule s[rule_format])
  show "i \<in> fst ` set (mg_rules m') \<Longrightarrow> i \<notin> fst ` set (mg_rules m) \<Longrightarrow> mg_stats m' i \<noteq> None" by (rule n[rule_format])
  show "i \<in> fst ` set (mg_rules m) \<Longrightarrow> text_or_empty (mg_tombstones m' i) = text_or_empty (mg_tombstones m i)" by (rule t[rule_format])
  show "i \<in> fst ` set desired \<Longrightarrow> mg_dataPlanes m' i = mg_dataPlanes m i" by (rule p[rule_format])
qed

lemma entombs_refl: "entombs desired m m"
  by (simp add: entombs_def)

lemma entombs_trans:
  assumes a: "entombs desired m1 m2" and b: "entombs desired m2 m3"
  shows "entombs desired m1 m3"
proof (rule entombsI)
  show "core m3 = core m1" using entombsD(1)[OF a] entombsD(1)[OF b] by simp
  show "fst ` set (mg_rules m1) \<subseteq> fst ` set (mg_rules m3)" using entombsD(2)[OF a] entombsD(2)[OF b] by (rule subset_trans)
  show "distinct (map fst (mg_rules m3))" if "distinct (map fst (mg_rules m1))" using that entombsD(3)[OF a] entombsD(3)[OF b] by blast
  fix i
  show "mg_stats m3 i \<noteq> None" if "mg_stats m1 i \<noteq> None" using entombsD(4)[OF b entombsD(4)[OF a that]] .
  show "mg_stats m3 i \<noteq> None" if "i \<in> fst ` set (mg_rules m3)" "i \<notin> fst ` set (mg_rules m1)"
    using entombsD(4)[OF b] entombsD(5)[OF b that(1)] entombsD(5)[OF a _ that(2)] by blast
  show "text_or_empty (mg_tombstones m3 i) = text_or_empty (mg_tombstones m1 i)" if "i \<in> fst ` set (mg_rules m1)"
    using entombsD(6)[OF a that] entombsD(6)[OF b subsetD[OF entombsD(2)[OF a] that]] by simp
  show "mg_dataPlanes m3 i = mg_dataPlanes m1 i" if "i \<in> fst ` set desired"
    using entombsD(7)[OF a that] entombsD(7)[OF b that] by simp
qed

lemma add_tombstone_entombs:
  assumes "nftTombstoneID base identity desired m = Some ident"
  shows "entombs desired m (add_tombstone ident identity r m)"
proof (rule entombsI, goal_cases)
  case (6 i)
  then show ?case using tombstone_free[OF assms] by (cases "i = ident") (simp_all add: add_tombstone_def text_or_empty_def)
next
  case (7 i)
  then show ?case using tombstone_free[OF assms] by (auto simp: add_tombstone_def)
qed (auto simp: add_tombstone_def alist_set_keys alist_put_distinct ensure_def split: option.splits)

definition shown :: "(string \<times> rule) list \<Rightarrow> 'n manager \<Rightarrow> string set \<Rightarrow> nft_spec \<Rightarrow> bool" where
  "shown desired m blocked s \<longleftrightarrow>
     (\<exists>ident\<in>blocked. (ident \<in> fst ` set desired \<or> ident \<in> fst ` set (mg_rules m))
        \<and> (nftIdentityMatchesRule s ident
           \<or> ident \<notin> fst ` set desired \<and> ident \<in> fst ` set (mg_rules m) \<and> text_or_empty (mg_tombstones m ident) = nftRuleIdentity s))"

lemma shown_mono: "shown desired m blocked s \<Longrightarrow> entombs desired m m' \<Longrightarrow> blocked \<subseteq> blocked' \<Longrightarrow> shown desired m' blocked' s"
proof -
  assume a: "shown desired m blocked s" and e: "entombs desired m m'" and b: "blocked \<subseteq> blocked'"
  from a obtain ident where i: "ident \<in> blocked" "ident \<in> fst ` set desired \<or> ident \<in> fst ` set (mg_rules m)"
    "nftIdentityMatchesRule s ident
       \<or> ident \<notin> fst ` set desired \<and> ident \<in> fst ` set (mg_rules m) \<and> text_or_empty (mg_tombstones m ident) = nftRuleIdentity s"
    unfolding shown_def by blast
  note keys = entombsD(2)[OF e]
  note tomb = entombsD(6)[OF e, of ident]
  show ?thesis unfolding shown_def
  proof (intro bexI[of _ ident] conjI)
    show "ident \<in> fst ` set desired \<or> ident \<in> fst ` set (mg_rules m')" using i(2) keys by blast
    show "nftIdentityMatchesRule s ident
       \<or> ident \<notin> fst ` set desired \<and> ident \<in> fst ` set (mg_rules m') \<and> text_or_empty (mg_tombstones m' ident) = nftRuleIdentity s"
      using i(3) tomb subsetD[OF keys, of ident] by (elim disjE conjE) simp_all
    show "ident \<in> blocked'" using i(1) b by blast
  qed
qed

lemma mark_spec_facts:
  shows "\<exists>b' m'. mark_spec desired s (b, m) = Some (b', m')"
    and "mark_spec desired s (b, m) = Some (b', m') \<Longrightarrow> entombs desired m m' \<and> b \<subseteq> b' \<and> shown desired m' b' s
       \<and> b' \<subseteq> b \<union> fst ` set desired \<union> fst ` set (mg_rules m')"
proof -
  let ?hits = "filter (nftIdentityMatchesRule s) (map fst desired @ map fst (mg_rules m))"
  obtain ident where t: "nftTombstoneID (''kernel-pending-'' @ nftRuleIdentity s) (nftRuleIdentity s) desired m = Some ident"
    using tombstone_found by blast
  have e: "mark_spec desired s (b, m) = (if ?hits \<noteq> [] then Some (b \<union> set ?hits, m)
      else Some (insert ident b, add_tombstone ident (nftRuleIdentity s) (tombstone_rule ident s) m))"
    by (simp only: mark_spec_def Let_def prod.case t option.map)
  show "\<exists>b' m'. mark_spec desired s (b, m) = Some (b', m')" unfolding e by (simp del: filter_append)
  assume r: "mark_spec desired s (b, m) = Some (b', m')"
  show "entombs desired m m' \<and> b \<subseteq> b' \<and> shown desired m' b' s \<and> b' \<subseteq> b \<union> fst ` set desired \<union> fst ` set (mg_rules m')"
  proof (cases "?hits = []")
    case False
    then have "(b', m') = (b \<union> set ?hits, m)" using r unfolding e by (simp only: if_True option.inject simp_thms)
    then have m: "m' = m" "b' = b \<union> set ?hits" by (simp_all only: prod.inject)
    from False obtain x where x: "x \<in> set ?hits" using list.set_sel(1) by blast
    then have "shown desired m b' s" unfolding shown_def m(2) by (intro bexI[of _ x]) auto
    with m show ?thesis by (auto simp: entombs_refl)
  next
    case True
    then have "(b', m') = (insert ident b, add_tombstone ident (nftRuleIdentity s) (tombstone_rule ident s) m)"
      using r unfolding e by (simp only: if_False option.inject simp_thms)
    then have m: "m' = add_tombstone ident (nftRuleIdentity s) (tombstone_rule ident s) m" "b' = insert ident b"
      by (simp_all only: prod.inject)
    have "ident \<in> fst ` set (mg_rules m')" "text_or_empty (mg_tombstones m' ident) = nftRuleIdentity s"
      unfolding m(1) add_tombstone_def by (simp_all add: alist_set_keys text_or_empty_def)
    then have "shown desired m' b' s" using tombstone_free[OF t] unfolding shown_def m(2) by blast
    with add_tombstone_entombs[OF t] m \<open>ident \<in> fst ` set (mg_rules m')\<close> show ?thesis by auto
  qed
qed

lemma mark_specs_facts:
  "\<exists>b' m'. mark_specs desired ss (b, m) = Some (b', m') \<and> entombs desired m m' \<and> b \<subseteq> b' \<and> (\<forall>s\<in>set ss. shown desired m' b' s)
     \<and> b' \<subseteq> b \<union> fst ` set desired \<union> fst ` set (mg_rules m')"
proof (induction ss arbitrary: b m)
  case Nil
  then show ?case by (auto simp: entombs_refl)
next
  case (Cons s ss)
  obtain b1 m1 where one: "mark_spec desired s (b, m) = Some (b1, m1)" using mark_spec_facts(1) by blast
  note f = mark_spec_facts(2)[OF one]
  obtain b' m' where rest: "mark_specs desired ss (b1, m1) = Some (b', m')" "entombs desired m1 m'" "b1 \<subseteq> b'"
    "\<forall>s\<in>set ss. shown desired m' b' s" "b' \<subseteq> b1 \<union> fst ` set desired \<union> fst ` set (mg_rules m')" using Cons.IH by blast
  note grow = entombsD(2)[OF rest(2)]
  have "shown desired m' b' s" using shown_mono[OF _ rest(2,3)] f by blast
  moreover have "mark_specs desired (s # ss) (b, m) = Some (b', m')" using one rest(1) by simp
  moreover have "entombs desired m m'" using entombs_trans f rest(2) by blast
  moreover have "b \<subseteq> b'" using f rest(3) by blast
  moreover have "b' \<subseteq> b \<union> fst ` set desired \<union> fst ` set (mg_rules m')"
  proof
    fix x assume "x \<in> b'"
    with rest(5) have "x \<in> b1 \<or> x \<in> fst ` set desired \<or> x \<in> fst ` set (mg_rules m')" by blast
    then show "x \<in> b \<union> fst ` set desired \<union> fst ` set (mg_rules m')" using f grow by blast
  qed
  ultimately show ?case using rest(4) by (intro exI[of _ b'] exI[of _ m']) simp
qed

end
