(* ===== verification/Manager_Apply.thy ===== *)
theory Manager_Apply
  imports Manager_Status
begin

text \<open>
  What the steps after the kernel's answer leave: which rules are blocked, what every rule is told, which rules are
  forgotten; and that an application never panics.
\<close>

section \<open>Blocked rules\<close>

lemma mark_unknown_facts:
  "\<exists>b' m'. mark_unknown desired (b, m) = Some (b', m') \<and> entombs desired m m' \<and> b \<subseteq> b' \<and> fst ` set desired \<subseteq> b'
     \<and> b' \<subseteq> b \<union> fst ` set desired \<union> fst ` set (mg_rules m')"
proof -
  obtain ident where t: "nftTombstoneID ''kernel-recovery-unverified'' ''unknown'' desired m = Some ident"
    using tombstone_found by blast
  have r: "mark_unknown desired (b, m) = Some (insert ident (b \<union> fst ` set desired), add_tombstone ident ''unknown'' (unknown_rule ident) m)"
    by (simp only: mark_unknown_def Let_def prod.case t option.map)
  have "ident \<in> fst ` set (mg_rules (add_tombstone ident ''unknown'' (unknown_rule ident) m))"
    by (simp add: add_tombstone_def alist_set_keys)
  with r add_tombstone_entombs[OF t] show ?thesis
    by (intro exI[of _ "insert ident (b \<union> fst ` set desired)"] exI[of _ "add_tombstone ident ''unknown'' (unknown_rule ident) m"]) auto
qed

lemma nftRetirementStatus_facts:
  assumes ids: "\<And>x. x \<in> set (p_goRules p) \<Longrightarrow> g_RuleID (snd x) \<in> fst ` set desired"
  obtains blocked verified m' where "nftRetirementStatus fb desired p result m = Some ((blocked, verified), m')"
    and "entombs desired m m'" and "nr_err result = None \<or> fb_retirement fb = None \<Longrightarrow> blocked = {} \<and> m' = m \<and> (\<forall>i. \<not> verified i)"
    and "blocked \<subseteq> fst ` set desired \<union> fst ` set (mg_rules m')"
    and "\<And>report. nr_err result \<noteq> None \<Longrightarrow> fb_retirement fb = Some report \<Longrightarrow>
      (\<forall>s\<in>set (potential_specs (report (mg_nft m)) (nr_inspectionFailed result)). shown desired m' blocked s)
      \<and> (ret_Unknown (report (mg_nft m)) \<longrightarrow> fst ` set desired \<subseteq> blocked)
      \<and> verified = verified_rule p (report (mg_nft m)) (nr_inspectionFailed result) blocked"
proof (cases "nr_err result = None \<or> fb_retirement fb = None")
  case True
  then have "nftRetirementStatus fb desired p result m = Some (({}, \<lambda>_. False), m)"
    by (auto simp: nftRetirementStatus_def split: option.splits)
  from this show thesis by (rule that) (use True in \<open>auto simp: entombs_refl\<close>)
next
  case False
  then obtain e report where er: "nr_err result = Some e" "fb_retirement fb = Some report" by auto
  let ?state = "report (mg_nft m)"
  let ?potential = "potential_specs ?state (nr_inspectionFailed result)"
  obtain b1 m1 where one: "mark_specs desired ?potential ({}, m) = Some (b1, m1)" "entombs desired m m1"
    "\<forall>s\<in>set ?potential. shown desired m1 b1 s" "b1 \<subseteq> {} \<union> fst ` set desired \<union> fst ` set (mg_rules m1)"
    using mark_specs_facts[of desired ?potential "{}" m] by blast
  have "\<exists>b2 m2. (if ret_Unknown ?state then mark_unknown desired (b1, m1) else Some (b1, m1)) = Some (b2, m2)
      \<and> entombs desired m1 m2 \<and> b1 \<subseteq> b2 \<and> (ret_Unknown ?state \<longrightarrow> fst ` set desired \<subseteq> b2)
      \<and> b2 \<subseteq> b1 \<union> fst ` set desired \<union> fst ` set (mg_rules m2)"
  proof (cases "ret_Unknown ?state")
    case True
    with mark_unknown_facts[of desired b1 m1] show ?thesis by auto
  next
    case False
    then show ?thesis by (auto simp: entombs_refl)
  qed
  then obtain b2 m2 where two: "(if ret_Unknown ?state then mark_unknown desired (b1, m1) else Some (b1, m1)) = Some (b2, m2)"
    "entombs desired m1 m2" "b1 \<subseteq> b2" "ret_Unknown ?state \<Longrightarrow> fst ` set desired \<subseteq> b2"
    "b2 \<subseteq> b1 \<union> fst ` set desired \<union> fst ` set (mg_rules m2)" by blast
  let ?blocked = "b2 \<union> overlapped_rules p ?potential"
  have r: "nftRetirementStatus fb desired p result m
      = Some ((?blocked, verified_rule p ?state (nr_inspectionFailed result) ?blocked), m2)"
    unfolding nftRetirementStatus_def er by (simp only: option.case prod.case Let_def one(1) two(1) bind.bind_lunit)
  have over: "overlapped_rules p ?potential \<subseteq> fst ` set desired" using ids by (auto simp: overlapped_rules_def)
  show thesis
  proof (rule that[OF r])
    show "entombs desired m m2" by (rule entombs_trans[OF one(2) two(2)])
    show "?blocked = {} \<and> m2 = m \<and> (\<forall>i. \<not> verified_rule p ?state (nr_inspectionFailed result) ?blocked i)"
      if "nr_err result = None \<or> fb_retirement fb = None" using that False by blast
    show "?blocked \<subseteq> fst ` set desired \<union> fst ` set (mg_rules m2)"
      using one(4) two(5) over entombsD(2)[OF two(2)] by blast
    fix report'
    assume "fb_retirement fb = Some report'"
    with er have rep: "report' = report" by simp
    have "shown desired m2 ?blocked s" if "s \<in> set ?potential" for s
      using one(3) that shown_mono[OF _ two(2), of b1 s ?blocked] two(3) by blast
    with two(4) show "(\<forall>s\<in>set (potential_specs (report' (mg_nft m)) (nr_inspectionFailed result)). shown desired m2 ?blocked s)
      \<and> (ret_Unknown (report' (mg_nft m)) \<longrightarrow> fst ` set desired \<subseteq> ?blocked)
      \<and> verified_rule p ?state (nr_inspectionFailed result) ?blocked = verified_rule p (report' (mg_nft m)) (nr_inspectionFailed result) ?blocked"
      unfolding rep by blast
  qed
qed

section \<open>Loops that touch one rule at a time\<close>

definition touches :: "string \<Rightarrow> 'n manager \<Rightarrow> 'n manager \<Rightarrow> bool" where
  "touches i m m' \<longleftrightarrow> core m' = core m
     \<and> (\<forall>j. j \<noteq> i \<longrightarrow> mg_stats m' j = mg_stats m j \<and> mg_dataPlanes m' j = mg_dataPlanes m j \<and> mg_tombstones m' j = mg_tombstones m j
          \<and> map_of (mg_rules m') j = map_of (mg_rules m) j)
     \<and> (distinct (map fst (mg_rules m)) \<longrightarrow> distinct (map fst (mg_rules m')))"

lemma touchesD:
  assumes "touches i m m'"
  shows "core m' = core m" "distinct (map fst (mg_rules m)) \<Longrightarrow> distinct (map fst (mg_rules m'))"
    "j \<noteq> i \<Longrightarrow> mg_stats m' j = mg_stats m j" "j \<noteq> i \<Longrightarrow> mg_dataPlanes m' j = mg_dataPlanes m j"
    "j \<noteq> i \<Longrightarrow> mg_tombstones m' j = mg_tombstones m j" "j \<noteq> i \<Longrightarrow> map_of (mg_rules m') j = map_of (mg_rules m) j"
  using assms unfolding touches_def by (elim conjE, simp)+

lemma touches_refl [simp]: "touches i m m"
  by (simp add: touches_def)

lemma touches_trans: "touches i m1 m2 \<Longrightarrow> touches i m2 m3 \<Longrightarrow> touches i m1 m3"
  by (simp add: touches_def)

lemma touches_setRunning: "setRunning i v msg m = Some m' \<Longrightarrow> touches i m m' \<and> mg_rules m' = mg_rules m \<and> mg_tombstones m' = mg_tombstones m
    \<and> mg_stats m' i = Some \<lparr>st_running = v, st_lastError = msg\<rparr>"
  by (auto simp: setRunning_def touches_def)

lemma touches_plane: "touches i m (set_plane i plane m)"
  by (simp add: touches_def set_plane_def core_def)

lemma map_of_remove: "map_of (alist_remove k kvs) j = (if j = k then None else map_of kvs j)"
  by (induction kvs) (auto simp: alist_remove_def)

lemma touches_forget: "touches i m (forget_rule i m)"
  by (simp add: touches_def forget_rule_def core_def map_of_remove)

text \<open>A loop over distinct rules whose rounds touch their own rule only.\<close>

theorem try_all_touches:
  assumes "\<And>e m. e \<in> set es \<Longrightarrow> core m = core m0 \<Longrightarrow> mg_stats m (fst e) \<noteq> None \<Longrightarrow> \<exists>m'. f e m = Some m' \<and> touches (fst e) m m'"
    and "distinct (map fst es)" and "core m = core m0" and "\<And>e. e \<in> set es \<Longrightarrow> mg_stats m (fst e) \<noteq> None"
  shows "\<exists>m'. try_all f es m = Some m' \<and> core m' = core m
    \<and> (distinct (map fst (mg_rules m)) \<longrightarrow> distinct (map fst (mg_rules m')))
    \<and> (\<forall>j. j \<notin> fst ` set es \<longrightarrow> mg_stats m' j = mg_stats m j \<and> mg_dataPlanes m' j = mg_dataPlanes m j
         \<and> mg_tombstones m' j = mg_tombstones m j \<and> map_of (mg_rules m') j = map_of (mg_rules m) j)
    \<and> (\<forall>e\<in>set es. \<exists>ma mb. f e ma = Some mb \<and> core ma = core m \<and> mg_stats ma (fst e) = mg_stats m (fst e)
         \<and> mg_dataPlanes ma (fst e) = mg_dataPlanes m (fst e) \<and> mg_tombstones ma (fst e) = mg_tombstones m (fst e)
         \<and> map_of (mg_rules ma) (fst e) = map_of (mg_rules m) (fst e)
         \<and> mg_stats m' (fst e) = mg_stats mb (fst e) \<and> mg_dataPlanes m' (fst e) = mg_dataPlanes mb (fst e)
         \<and> mg_tombstones m' (fst e) = mg_tombstones mb (fst e) \<and> map_of (mg_rules m') (fst e) = map_of (mg_rules mb) (fst e))"
  using assms
proof (induction es arbitrary: m)
  case Nil
  then show ?case by simp
next
  case (Cons e es)
  obtain m1 where m1: "f e m = Some m1" "touches (fst e) m m1"
    using Cons.prems(1)[OF _ Cons.prems(3), of e] Cons.prems(4)[of e] by auto
  note t = touchesD[OF m1(2)]
  have other: "fst x \<noteq> fst e" if "x \<in> set es" for x using that Cons.prems(2) by (auto simp: image_iff)
  have stats: "mg_stats m1 (fst x) \<noteq> None" if "x \<in> set es" for x using t(3)[OF other[OF that]] Cons.prems(4)[of x] that by simp
  have c1: "core m1 = core m0" using t(1) Cons.prems(3) by simp
  have d: "distinct (map fst es)" using Cons.prems(2) by simp
  obtain m' where m': "try_all f es m1 = Some m'" "core m' = core m1"
    and dm: "distinct (map fst (mg_rules m1)) \<longrightarrow> distinct (map fst (mg_rules m'))"
    and out: "\<forall>j. j \<notin> fst ` set es \<longrightarrow> mg_stats m' j = mg_stats m1 j \<and> mg_dataPlanes m' j = mg_dataPlanes m1 j
         \<and> mg_tombstones m' j = mg_tombstones m1 j \<and> map_of (mg_rules m') j = map_of (mg_rules m1) j"
    and inn: "\<forall>e\<in>set es. \<exists>ma mb. f e ma = Some mb \<and> core ma = core m1 \<and> mg_stats ma (fst e) = mg_stats m1 (fst e)
         \<and> mg_dataPlanes ma (fst e) = mg_dataPlanes m1 (fst e) \<and> mg_tombstones ma (fst e) = mg_tombstones m1 (fst e)
         \<and> map_of (mg_rules ma) (fst e) = map_of (mg_rules m1) (fst e)
         \<and> mg_stats m' (fst e) = mg_stats mb (fst e) \<and> mg_dataPlanes m' (fst e) = mg_dataPlanes mb (fst e)
         \<and> mg_tombstones m' (fst e) = mg_tombstones mb (fst e) \<and> map_of (mg_rules m') (fst e) = map_of (mg_rules mb) (fst e)"
    using Cons.IH[OF Cons.prems(1)[OF list.set_intros(2)] d c1 stats] by blast
  show ?case
  proof (intro exI[of _ m'] conjI)
    show "try_all f (e # es) m = Some m'" using m1(1) m'(1) by simp
    show "core m' = core m" using m'(2) t(1) by simp
    show "distinct (map fst (mg_rules m)) \<longrightarrow> distinct (map fst (mg_rules m'))" using dm t(2) by blast
    show "\<forall>j. j \<notin> fst ` set (e # es) \<longrightarrow> mg_stats m' j = mg_stats m j \<and> mg_dataPlanes m' j = mg_dataPlanes m j
         \<and> mg_tombstones m' j = mg_tombstones m j \<and> map_of (mg_rules m') j = map_of (mg_rules m) j"
      using out t(3-6) by simp
    show "\<forall>x\<in>set (e # es). \<exists>ma mb. f x ma = Some mb \<and> core ma = core m \<and> mg_stats ma (fst x) = mg_stats m (fst x)
         \<and> mg_dataPlanes ma (fst x) = mg_dataPlanes m (fst x) \<and> mg_tombstones ma (fst x) = mg_tombstones m (fst x)
         \<and> map_of (mg_rules ma) (fst x) = map_of (mg_rules m) (fst x)
         \<and> mg_stats m' (fst x) = mg_stats mb (fst x) \<and> mg_dataPlanes m' (fst x) = mg_dataPlanes mb (fst x)
         \<and> mg_tombstones m' (fst x) = mg_tombstones mb (fst x) \<and> map_of (mg_rules m') (fst x) = map_of (mg_rules mb) (fst x)"
    proof
      fix x assume "x \<in> set (e # es)"
      then consider "x = e" | "x \<in> set es" by auto
      then show "\<exists>ma mb. f x ma = Some mb \<and> core ma = core m \<and> mg_stats ma (fst x) = mg_stats m (fst x)
         \<and> mg_dataPlanes ma (fst x) = mg_dataPlanes m (fst x) \<and> mg_tombstones ma (fst x) = mg_tombstones m (fst x)
         \<and> map_of (mg_rules ma) (fst x) = map_of (mg_rules m) (fst x)
         \<and> mg_stats m' (fst x) = mg_stats mb (fst x) \<and> mg_dataPlanes m' (fst x) = mg_dataPlanes mb (fst x)
         \<and> mg_tombstones m' (fst x) = mg_tombstones mb (fst x) \<and> map_of (mg_rules m') (fst x) = map_of (mg_rules mb) (fst x)"
      proof cases
        case 1
        have "fst e \<notin> fst ` set es" using Cons.prems(2) by simp
        with 1 m1(1) out show ?thesis by (intro exI[of _ m] exI[of _ m1]) simp
      next
        case 2
        note o = other[OF 2]
        from inn 2 obtain ma mb where "f x ma = Some mb" "core ma = core m1" "mg_stats ma (fst x) = mg_stats m1 (fst x)"
         "mg_dataPlanes ma (fst x) = mg_dataPlanes m1 (fst x)" "mg_tombstones ma (fst x) = mg_tombstones m1 (fst x)"
         "map_of (mg_rules ma) (fst x) = map_of (mg_rules m1) (fst x)"
         "mg_stats m' (fst x) = mg_stats mb (fst x)" "mg_dataPlanes m' (fst x) = mg_dataPlanes mb (fst x)"
         "mg_tombstones m' (fst x) = mg_tombstones mb (fst x)" "map_of (mg_rules m') (fst x) = map_of (mg_rules mb) (fst x)" by blast
        with t(1) t(3-6)[OF o] show ?thesis by (intro exI[of _ ma] exI[of _ mb]) simp
      qed
    qed
  qed
qed

section \<open>What a rule is told\<close>

text \<open>What is told of one requested rule, from what the loop found.\<close>

definition told ::
    "('n, 'w) forwarding \<Rightarrow> plan \<Rightarrow> string set \<Rightarrow> (string \<Rightarrow> bool) \<Rightarrow> (string \<Rightarrow> failure list) \<Rightarrow> nft_result \<Rightarrow> string \<times> rule
     \<Rightarrow> 'n manager \<Rightarrow> rule_stats \<Rightarrow> bool" where
  "told fb p blocked verified errs result x m st \<longleftrightarrow>
     (if fst x \<in> blocked then
        \<exists>e. nr_err result = Some e \<and>
          (st = \<lparr>st_running = False, st_lastError = ListenerHeld (fst (nftRuleState fb m (fst x))) e\<rparr> \<and> \<not> snd (nftRuleState fb m (fst x))
           \<or> st_running st \<and> (st_lastError st = AdmissionHeld e \<or> st_lastError st = RevocationIncomplete e))
      else if \<not> r_Enabled (snd x) then st_lastError st = NoMessage \<and> \<not> st_running st \<or> (\<exists>e. st_lastError st = DisableFailed e)
      else let failures = rule_failures p result verified errs (fst x) m in
        if failures \<noteq> [] then st = \<lparr>st_running = False, st_lastError = Failures failures\<rparr>
        else if \<not> p_usesNFT p (fst x) \<and> \<not> p_usesGo p (fst x) then st = \<lparr>st_running = False, st_lastError = Failures [NoPath]\<rparr>
        else st = \<lparr>st_running = True, st_lastError = NoMessage\<rparr>)"

lemma rule_failures_core: "mg_runners m' = mg_runners m \<Longrightarrow> rule_failures p result verified errs i m' = rule_failures p result verified errs i m"
  by (simp add: rule_failures_def)

lemma nftRuleState_core: "mg_nft m' = mg_nft m \<Longrightarrow> nftRuleState fb m' i = nftRuleState fb m i"
  by (simp only: nftRuleState_def)

lemma told_core: "core m' = core m \<Longrightarrow> told fb p blocked verified errs result x m' st = told fb p blocked verified errs result x m st"
proof -
  assume c: "core m' = core m"
  show ?thesis unfolding told_def rule_failures_core[OF core_fields(1)[OF c]] nftRuleState_core[OF core_fields(3)[OF c]] ..
qed

lemma setRunning_total: "mg_stats m i \<noteq> None \<Longrightarrow> \<exists>m'. setRunning i v msg m = Some m'"
  by (auto simp: setRunning_def)

lemma update_rule_facts:
  assumes err: "fst x \<in> blocked \<or> nr_cleanupFailed result \<Longrightarrow> nr_err result \<noteq> None" and stats: "mg_stats m (fst x) \<noteq> None"
  obtains m' st where "update_rule fb p blocked verified errs result x m = Some m'" and "touches (fst x) m m'"
    and "map_of (mg_rules m') (fst x) = Some (snd x)" and "mg_tombstones m' = mg_tombstones m"
    and "mg_stats m' (fst x) = Some st" and "told fb p blocked verified errs result x m st"
proof -
  note result_is = that
  obtain i r where x: "x = (i, r)" by fastforce
  let ?previous = "text_or_empty (mg_dataPlanes m i)"
  define m1 where "m1 = set_plane i (text_or_empty (p_dataPlanes p i)) (m\<lparr>mg_rules := alist_set i r (mg_rules m)\<rparr>)"
  have t1: "touches i m m1" by (simp add: touches_def m1_def set_plane_def core_def alist_put_distinct)
  have r1: "map_of (mg_rules m1) i = Some r" "mg_tombstones m1 = mg_tombstones m" "mg_stats m1 = mg_stats m"
    by (simp_all add: m1_def set_plane_def)
  note c1 = touchesD(1)[OF t1]
  have finish: thesis if u: "update_rule fb p blocked verified errs result x m = setRunning i v msg mx"
    and mx: "mx = m1 \<or> (\<exists>plane. mx = set_plane i plane m1)"
    and st: "told fb p blocked verified errs result x m1 \<lparr>st_running = v, st_lastError = msg\<rparr>" for v msg mx
  proof -
    have t2: "touches i m1 mx" using mx touches_plane by auto
    have same: "mg_rules mx = mg_rules m1" "mg_stats mx = mg_stats m1" "mg_tombstones mx = mg_tombstones m1"
      using mx by (auto simp: set_plane_def)
    obtain m3 where m3: "setRunning i v msg mx = Some m3" using setRunning_total[of mx i v msg] stats same r1 x by auto
    note s = touches_setRunning[OF m3]
    show thesis
    proof (rule result_is)
      show "update_rule fb p blocked verified errs result x m = Some m3" using u m3 by simp
      show "touches (fst x) m m3" using touches_trans[OF touches_trans[OF t1 t2]] s x by simp
      show "map_of (mg_rules m3) (fst x) = Some (snd x)" "mg_tombstones m3 = mg_tombstones m" using s same r1 x by simp_all
      show "mg_stats m3 (fst x) = Some \<lparr>st_running = v, st_lastError = msg\<rparr>" using s x by simp
      show "told fb p blocked verified errs result x m \<lparr>st_running = v, st_lastError = msg\<rparr>" using iffD1[OF told_core[OF c1] st] .
    qed
  qed
  have u: "update_rule fb p blocked verified errs result x m =
      (if i \<in> blocked then blocked_state fb p result ?previous i m1
       else if \<not> r_Enabled r then
         (if nr_cleanupFailed result \<and> dataPlaneUsesNFT ?previous
          then with_error result (\<lambda>e. setRunning i True (DisableFailed e) (set_plane i ?previous m1))
          else setRunning i False NoMessage m1)
       else enabled_state p result verified errs i m1)"
    by (simp add: update_rule_def x m1_def Let_def)
  consider (blocked) e where "i \<in> blocked" "nr_err result = Some e" | (off) "i \<notin> blocked" "\<not> r_Enabled r" | (on) "i \<notin> blocked" "r_Enabled r"
    using err x by auto
  then show thesis
  proof cases
    case (blocked e)
    obtain state known where k: "nftRuleState fb m1 i = (state, known)" by fastforce
    show thesis
    proof (cases "\<not> known \<and> \<not> dataPlaneUsesNFT ?previous \<and> p_usesGo p i")
      case True
      have b: "blocked_state fb p result ?previous i m1 = setRunning i False (ListenerHeld state e) m1"
        unfolding blocked_state_def with_error_def blocked(2) using True k by simp
      have t: "told fb p blocked verified errs result x m1 \<lparr>st_running = False, st_lastError = ListenerHeld state e\<rparr>"
        unfolding told_def x fst_conv if_P[OF blocked(1)] using blocked(2) k True by simp
      show thesis by (rule finish[where mx = "m1", OF _ _ t]) (use u b blocked(1) in simp_all)
    next
      case False
      obtain plane where b: "blocked_state fb p result ?previous i m1 =
          setRunning i True (if state = ''admission-suspended'' then AdmissionHeld e else RevocationIncomplete e) (set_plane i plane m1)"
        unfolding blocked_state_def with_error_def blocked(2) using False k by (simp add: Let_def)
      have t: "told fb p blocked verified errs result x m1
          \<lparr>st_running = True, st_lastError = if state = ''admission-suspended'' then AdmissionHeld e else RevocationIncomplete e\<rparr>"
        unfolding told_def x fst_conv if_P[OF blocked(1)] using blocked(2) by simp
      show thesis by (rule finish[where mx = "set_plane i plane m1", OF _ _ t]) (use u b blocked(1) in auto)
    qed
  next
    case off
    show thesis
    proof (cases "nr_cleanupFailed result \<and> dataPlaneUsesNFT ?previous")
      case True
      then obtain e where e: "nr_err result = Some e" using err by auto
      have t: "told fb p blocked verified errs result x m1 \<lparr>st_running = True, st_lastError = DisableFailed e\<rparr>"
        using off by (simp add: told_def x)
      show thesis by (rule finish[where mx = "set_plane i ?previous m1", OF _ _ t]) (use u off True e in \<open>auto simp: with_error_def\<close>)
    next
      case False
      have t: "told fb p blocked verified errs result x m1 \<lparr>st_running = False, st_lastError = NoMessage\<rparr>"
        using off by (simp add: told_def x)
      show thesis by (rule finish[where mx = "m1", OF _ _ t]) (use u off False in simp_all)
    qed
  next
    case on
    let ?f = "rule_failures p result verified errs i m1"
    let ?v = "?f = [] \<and> (p_usesNFT p i \<or> p_usesGo p i)"
    let ?msg = "if ?f \<noteq> [] then Failures ?f else if p_usesNFT p i \<or> p_usesGo p i then NoMessage else Failures [NoPath]"
    have b: "enabled_state p result verified errs i m1 = setRunning i ?v ?msg m1" by (simp add: enabled_state_def Let_def)
    have t: "told fb p blocked verified errs result x m1 \<lparr>st_running = ?v, st_lastError = ?msg\<rparr>"
      using on by (simp add: told_def x Let_def)
    show thesis by (rule finish[where mx = "m1", OF _ _ t]) (use u b on in simp_all)
  qed
qed

theorem updateRuleStates_facts:
  assumes "\<And>i. i \<in> blocked \<and> i \<in> fst ` set desired \<or> nr_cleanupFailed result \<Longrightarrow> nr_err result \<noteq> None"
    and "distinct (map fst desired)" and "\<And>x. x \<in> set desired \<Longrightarrow> mg_stats m (fst x) \<noteq> None"
  obtains m' where "updateRuleStates fb desired p blocked verified errs result m = Some m'" and "core m' = core m"
    and "distinct (map fst (mg_rules m)) \<Longrightarrow> distinct (map fst (mg_rules m'))" and "mg_tombstones m' = mg_tombstones m"
    and "\<And>j. j \<notin> fst ` set desired \<Longrightarrow> mg_stats m' j = mg_stats m j \<and> mg_dataPlanes m' j = mg_dataPlanes m j
         \<and> map_of (mg_rules m') j = map_of (mg_rules m) j"
    and "\<And>x. x \<in> set desired \<Longrightarrow> map_of (mg_rules m') (fst x) = Some (snd x)
         \<and> (\<exists>st. mg_stats m' (fst x) = Some st \<and> told fb p blocked verified errs result x m st)"
proof -
  let ?f = "update_rule fb p blocked verified errs result"
  have step: "\<exists>ma'. ?f x ma = Some ma' \<and> touches (fst x) ma ma' \<and> map_of (mg_rules ma') (fst x) = Some (snd x)
      \<and> mg_tombstones ma' = mg_tombstones ma \<and> (\<exists>st. mg_stats ma' (fst x) = Some st \<and> told fb p blocked verified errs result x ma st)"
    if x: "x \<in> set desired" and "mg_stats ma (fst x) \<noteq> None" for x ma
  proof -
    have "fst x \<in> blocked \<or> nr_cleanupFailed result \<Longrightarrow> nr_err result \<noteq> None" using assms(1)[of "fst x"] x by auto
    from update_rule_facts[OF this that(2)] show ?thesis by metis
  qed
  have one: "\<exists>m'. ?f e ma = Some m' \<and> touches (fst e) ma m'" if "e \<in> set desired" "core ma = core m" "mg_stats ma (fst e) \<noteq> None" for e ma
    using step[OF that(1,3)] by blast
  from try_all_touches[where f = ?f, OF one assms(2) refl assms(3)] obtain m' where m': "try_all ?f desired m = Some m'" "core m' = core m"
    and d: "distinct (map fst (mg_rules m)) \<longrightarrow> distinct (map fst (mg_rules m'))"
    and out: "\<forall>j. j \<notin> fst ` set desired \<longrightarrow> mg_stats m' j = mg_stats m j \<and> mg_dataPlanes m' j = mg_dataPlanes m j
         \<and> mg_tombstones m' j = mg_tombstones m j \<and> map_of (mg_rules m') j = map_of (mg_rules m) j"
    and inn: "\<forall>e\<in>set desired. \<exists>ma mb. ?f e ma = Some mb \<and> core ma = core m \<and> mg_stats ma (fst e) = mg_stats m (fst e)
         \<and> mg_dataPlanes ma (fst e) = mg_dataPlanes m (fst e) \<and> mg_tombstones ma (fst e) = mg_tombstones m (fst e)
         \<and> map_of (mg_rules ma) (fst e) = map_of (mg_rules m) (fst e)
         \<and> mg_stats m' (fst e) = mg_stats mb (fst e) \<and> mg_dataPlanes m' (fst e) = mg_dataPlanes mb (fst e)
         \<and> mg_tombstones m' (fst e) = mg_tombstones mb (fst e) \<and> map_of (mg_rules m') (fst e) = map_of (mg_rules mb) (fst e)" by blast
  have each: "map_of (mg_rules m') (fst x) = Some (snd x) \<and> mg_tombstones m' (fst x) = mg_tombstones m (fst x)
         \<and> (\<exists>st. mg_stats m' (fst x) = Some st \<and> told fb p blocked verified errs result x m st)" if x: "x \<in> set desired" for x
  proof -
    from inn x obtain ma mb where ab: "?f x ma = Some mb" "core ma = core m" "mg_stats ma (fst x) = mg_stats m (fst x)"
         "mg_tombstones ma (fst x) = mg_tombstones m (fst x)" "mg_stats m' (fst x) = mg_stats mb (fst x)"
         "mg_tombstones m' (fst x) = mg_tombstones mb (fst x)" "map_of (mg_rules m') (fst x) = map_of (mg_rules mb) (fst x)" by blast
    have "mg_stats ma (fst x) \<noteq> None" using ab(3) assms(3)[OF x] by simp
    from step[OF x this] ab(1) have "map_of (mg_rules mb) (fst x) = Some (snd x)" "mg_tombstones mb = mg_tombstones ma"
      "\<exists>st. mg_stats mb (fst x) = Some st \<and> told fb p blocked verified errs result x ma st" by auto
    moreover from this(3) obtain st where "mg_stats mb (fst x) = Some st" "told fb p blocked verified errs result x m st"
      using iffD1[OF told_core[OF ab(2)]] by blast
    ultimately show ?thesis using ab by simp
  qed
  have tomb: "mg_tombstones m' = mg_tombstones m"
  proof
    fix j show "mg_tombstones m' j = mg_tombstones m j"
    proof (cases "j \<in> fst ` set desired")
      case True
      then obtain x where "x \<in> set desired" "j = fst x" by auto
      with each show ?thesis by simp
    next
      case False
      with out show ?thesis by simp
    qed
  qed
  show thesis by (rule that[OF m'(1)[folded updateRuleStates_def] m'(2) _ tomb]) (use d out each in auto)
qed

section \<open>Rules that are gone\<close>

lemma retire_rule_facts:
  assumes err: "fst x \<in> blocked \<and> fst x \<notin> fst ` set desired \<or> nr_cleanupFailed result \<Longrightarrow> nr_err result \<noteq> None"
    and stats: "mg_stats m (fst x) \<noteq> None"
  shows "\<exists>m'. retire_rule desired blocked result x m = Some m' \<and> touches (fst x) m m'
    \<and> (fst x \<in> fst ` set desired \<longrightarrow> m' = m)
    \<and> (fst x \<notin> fst ` set desired \<longrightarrow> fst x \<in> blocked \<longrightarrow> mg_rules m' = mg_rules m \<and> mg_tombstones m' = mg_tombstones m
         \<and> (\<exists>e. nr_err result = Some e \<and> mg_stats m' (fst x) = Some \<lparr>st_running = True, st_lastError = RevocationIncomplete e\<rparr>))
    \<and> (fst x \<notin> fst ` set desired \<longrightarrow> fst x \<notin> blocked \<longrightarrow>
         map_of (mg_rules m') (fst x) = None
         \<or> nr_cleanupFailed result \<and> mg_rules m' = mg_rules m
           \<and> (\<exists>e. mg_stats m' (fst x) = Some \<lparr>st_running = True, st_lastError = RemoveFailed e\<rparr>))"
proof -
  obtain i r where x: "x = (i, r)" by fastforce
  have run: "\<exists>m'. setRunning i v msg m = Some m' \<and> touches i m m' \<and> mg_rules m' = mg_rules m \<and> mg_tombstones m' = mg_tombstones m
      \<and> mg_stats m' i = Some \<lparr>st_running = v, st_lastError = msg\<rparr>" for v msg
  proof -
    have "mg_stats m i \<noteq> None" using stats x by simp
    then obtain m' where "setRunning i v msg m = Some m'" by (auto simp: setRunning_def)
    with touches_setRunning[OF this] show ?thesis by blast
  qed
  consider (want) "i \<in> fst ` set desired" | (blocked) e where "i \<notin> fst ` set desired" "i \<in> blocked" "nr_err result = Some e"
    | (failed) e where "i \<notin> fst ` set desired" "i \<notin> blocked" "nr_cleanupFailed result \<and> dataPlaneUsesNFT (text_or_empty (mg_dataPlanes m i))"
        "nr_err result = Some e"
    | (gone) "i \<notin> fst ` set desired" "i \<notin> blocked" "\<not> (nr_cleanupFailed result \<and> dataPlaneUsesNFT (text_or_empty (mg_dataPlanes m i)))"
    using err x by auto
  then show ?thesis
  proof cases
    case want
    then show ?thesis by (simp add: retire_rule_def x Let_def)
  next
    case (blocked e)
    then have "retire_rule desired blocked result x m = setRunning i True (RevocationIncomplete e) m"
      by (simp add: retire_rule_def x Let_def with_error_def)
    with run[of True "RevocationIncomplete e"] blocked x show ?thesis by auto
  next
    case (failed e)
    then have "retire_rule desired blocked result x m = setRunning i True (RemoveFailed e) m"
      by (simp add: retire_rule_def x Let_def with_error_def)
    with run[of True "RemoveFailed e"] failed x show ?thesis by auto
  next
    case gone
    have "retire_rule desired blocked result x m = Some (forget_rule i m)"
      unfolding retire_rule_def x Let_def fst_conv if_not_P[OF gone(1)] if_not_P[OF gone(2)] if_not_P[OF gone(3)] by (rule refl)
    moreover have "map_of (mg_rules (forget_rule i m)) i = None" by (simp add: forget_rule_def map_of_remove)
    ultimately show ?thesis using gone x touches_forget by auto
  qed
qed

theorem retireRemovedRules_facts:
  fixes m :: "'n manager"
  assumes err: "\<And>i. i \<in> blocked \<and> i \<notin> fst ` set desired \<and> i \<in> fst ` set (mg_rules m) \<or> nr_cleanupFailed result \<Longrightarrow> nr_err result \<noteq> None"
    and d: "distinct (map fst (mg_rules m))" and stats: "\<And>i. i \<in> fst ` set (mg_rules m) \<Longrightarrow> mg_stats m i \<noteq> None"
  obtains m' where "retireRemovedRules desired blocked result m = Some m'" and "core m' = core m" and "distinct (map fst (mg_rules m'))"
    and "\<And>i. i \<in> fst ` set (mg_rules m') \<Longrightarrow> mg_stats m' i \<noteq> None"
    and "\<And>i. i \<in> fst ` set desired \<Longrightarrow> mg_stats m' i = mg_stats m i \<and> map_of (mg_rules m') i = map_of (mg_rules m) i"
    and "\<And>i. i \<in> fst ` set (mg_rules m) \<Longrightarrow> i \<notin> fst ` set desired \<Longrightarrow> i \<in> blocked \<Longrightarrow>
        map_of (mg_rules m') i = map_of (mg_rules m) i \<and> mg_tombstones m' i = mg_tombstones m i
        \<and> (\<exists>e. nr_err result = Some e \<and> mg_stats m' i = Some \<lparr>st_running = True, st_lastError = RevocationIncomplete e\<rparr>)"
    and "\<And>i. i \<notin> fst ` set desired \<Longrightarrow> i \<notin> blocked \<Longrightarrow> i \<in> fst ` set (mg_rules m') \<Longrightarrow> nr_cleanupFailed result"
proof -
  let ?f = "retire_rule desired blocked result"
  have step: "\<exists>m'. ?f x ma = Some m' \<and> touches (fst x) ma m'
    \<and> (fst x \<in> fst ` set desired \<longrightarrow> m' = ma)
    \<and> (fst x \<notin> fst ` set desired \<longrightarrow> fst x \<in> blocked \<longrightarrow> mg_rules m' = mg_rules ma \<and> mg_tombstones m' = mg_tombstones ma
         \<and> (\<exists>e. nr_err result = Some e \<and> mg_stats m' (fst x) = Some \<lparr>st_running = True, st_lastError = RevocationIncomplete e\<rparr>))
    \<and> (fst x \<notin> fst ` set desired \<longrightarrow> fst x \<notin> blocked \<longrightarrow>
         map_of (mg_rules m') (fst x) = None
         \<or> nr_cleanupFailed result \<and> mg_rules m' = mg_rules ma
           \<and> (\<exists>e. mg_stats m' (fst x) = Some \<lparr>st_running = True, st_lastError = RemoveFailed e\<rparr>))"
    if x: "x \<in> set (mg_rules m)" and s: "mg_stats ma (fst x) \<noteq> None" for x ma
    by (rule retire_rule_facts[OF _ s]) (use err[of "fst x"] x in auto)
  have one: "\<exists>m'. ?f e ma = Some m' \<and> touches (fst e) ma m'" if "e \<in> set (mg_rules m)" "core ma = core m" "mg_stats ma (fst e) \<noteq> None" for e ma
    using step[OF that(1,3)] by blast
  have st: "mg_stats m (fst e) \<noteq> None" if "e \<in> set (mg_rules m)" for e using stats that by blast
  from try_all_touches[where f = ?f, OF one d refl st] obtain m' where m': "try_all ?f (mg_rules m) m = Some m'" "core m' = core m"
    and dm: "distinct (map fst (mg_rules m)) \<longrightarrow> distinct (map fst (mg_rules m'))"
    and out: "\<forall>j. j \<notin> fst ` set (mg_rules m) \<longrightarrow> mg_stats m' j = mg_stats m j \<and> mg_dataPlanes m' j = mg_dataPlanes m j
         \<and> mg_tombstones m' j = mg_tombstones m j \<and> map_of (mg_rules m') j = map_of (mg_rules m) j"
    and inn: "\<forall>e\<in>set (mg_rules m). \<exists>ma mb. ?f e ma = Some mb \<and> core ma = core m \<and> mg_stats ma (fst e) = mg_stats m (fst e)
         \<and> mg_dataPlanes ma (fst e) = mg_dataPlanes m (fst e) \<and> mg_tombstones ma (fst e) = mg_tombstones m (fst e)
         \<and> map_of (mg_rules ma) (fst e) = map_of (mg_rules m) (fst e)
         \<and> mg_stats m' (fst e) = mg_stats mb (fst e) \<and> mg_dataPlanes m' (fst e) = mg_dataPlanes mb (fst e)
         \<and> mg_tombstones m' (fst e) = mg_tombstones mb (fst e) \<and> map_of (mg_rules m') (fst e) = map_of (mg_rules mb) (fst e)" by blast
  have each: "(i \<in> fst ` set desired \<longrightarrow> mg_stats m' i = mg_stats m i \<and> map_of (mg_rules m') i = map_of (mg_rules m) i)
    \<and> (i \<notin> fst ` set desired \<longrightarrow> i \<in> blocked \<longrightarrow> map_of (mg_rules m') i = map_of (mg_rules m) i \<and> mg_tombstones m' i = mg_tombstones m i
        \<and> (\<exists>e. nr_err result = Some e \<and> mg_stats m' i = Some \<lparr>st_running = True, st_lastError = RevocationIncomplete e\<rparr>))
    \<and> (i \<notin> fst ` set desired \<longrightarrow> i \<notin> blocked \<longrightarrow> map_of (mg_rules m') i = None \<or> nr_cleanupFailed result \<and> mg_stats m' i \<noteq> None)"
    if i: "i \<in> fst ` set (mg_rules m)" for i
  proof -
    from i obtain x where x: "x \<in> set (mg_rules m)" "i = fst x" by auto
    from bspec[OF inn x(1)] obtain ma mb :: "'n manager" where ab: "?f x ma = Some mb" "mg_stats ma i = mg_stats m i" "mg_tombstones ma i = mg_tombstones m i"
      "map_of (mg_rules ma) i = map_of (mg_rules m) i" "mg_stats m' i = mg_stats mb i" "mg_tombstones m' i = mg_tombstones mb i"
      "map_of (mg_rules m') i = map_of (mg_rules mb) i" unfolding x(2) by blast
    have "mg_stats ma (fst x) \<noteq> None" using ab(2) stats[OF i] x(2) by simp
    from step[OF x(1) this] ab(1) have f: "(i \<in> fst ` set desired \<longrightarrow> mb = ma)
      \<and> (i \<notin> fst ` set desired \<longrightarrow> i \<in> blocked \<longrightarrow> mg_rules mb = mg_rules ma \<and> mg_tombstones mb = mg_tombstones ma
         \<and> (\<exists>e. nr_err result = Some e \<and> mg_stats mb i = Some \<lparr>st_running = True, st_lastError = RevocationIncomplete e\<rparr>))
      \<and> (i \<notin> fst ` set desired \<longrightarrow> i \<notin> blocked \<longrightarrow> map_of (mg_rules mb) i = None
         \<or> nr_cleanupFailed result \<and> mg_rules mb = mg_rules ma
           \<and> (\<exists>e. mg_stats mb i = Some \<lparr>st_running = True, st_lastError = RemoveFailed e\<rparr>))"
      unfolding x(2) by auto
    show ?thesis
    proof (cases "i \<in> fst ` set desired")
      case True
      with f ab show ?thesis by simp
    next
      case False
      with f ab show ?thesis by (cases "i \<in> blocked") auto
    qed
  qed
  have keep: "mg_stats m' i \<noteq> None" if "i \<in> fst ` set (mg_rules m')" for i
  proof (cases "i \<in> fst ` set (mg_rules m)")
    case True
    have "map_of (mg_rules m') i \<noteq> None" using that by (simp add: map_of_eq_None_iff)
    with each[OF True] stats[OF True] show ?thesis by (cases "i \<in> fst ` set desired"; cases "i \<in> blocked") auto
  next
    case False
    then have "map_of (mg_rules m) i = None" by (simp add: map_of_eq_None_iff)
    with out False have "map_of (mg_rules m') i = None" by simp
    with that show ?thesis by (simp only: map_of_eq_None_iff) simp
  qed
  show thesis
  proof (rule that[OF m'(1)[folded retireRemovedRules_def] m'(2)])
    show "distinct (map fst (mg_rules m'))" using dm d by blast
    fix i
    show "mg_stats m' i \<noteq> None" if "i \<in> fst ` set (mg_rules m')" by (rule keep[OF that])
    show "mg_stats m' i = mg_stats m i \<and> map_of (mg_rules m') i = map_of (mg_rules m) i" if "i \<in> fst ` set desired"
      using that each[of i] out by (cases "i \<in> fst ` set (mg_rules m)") blast+
    show "map_of (mg_rules m') i = map_of (mg_rules m) i \<and> mg_tombstones m' i = mg_tombstones m i
        \<and> (\<exists>e. nr_err result = Some e \<and> mg_stats m' i = Some \<lparr>st_running = True, st_lastError = RevocationIncomplete e\<rparr>)"
      if "i \<in> fst ` set (mg_rules m)" "i \<notin> fst ` set desired" "i \<in> blocked"
      using that each[of i] by blast
    show "nr_cleanupFailed result" if "i \<notin> fst ` set desired" "i \<notin> blocked" "i \<in> fst ` set (mg_rules m')"
    proof -
      have n: "map_of (mg_rules m') i \<noteq> None" using that(3) by (simp add: map_of_eq_None_iff)
      then have "i \<in> fst ` set (mg_rules m)" using out by (metis map_of_eq_None_iff)
      with each[of i] that n show ?thesis by blast
    qed
  qed
qed

end
