(* ===== verification/Manager_Cycle.thy ===== *)
theory Manager_Cycle
  imports Manager_Apply
begin

text \<open>
  One application of the rules from end to end, and the states the manager can be in.
\<close>

section \<open>The state between two applications\<close>

definition manager_ok :: "'n manager \<Rightarrow> bool" where
  "manager_ok m \<longleftrightarrow> distinct (map fst (mg_runners m)) \<and> distinct (map fst (mg_rules m)) \<and> distinct (map fst (mg_desired m))
     \<and> (\<forall>i\<in>fst ` set (mg_rules m) \<union> fst ` set (mg_desired m). mg_stats m i \<noteq> None)"

lemma manager_okD:
  assumes "manager_ok m"
  shows "distinct (map fst (mg_runners m))" "distinct (map fst (mg_rules m))" "distinct (map fst (mg_desired m))"
    "i \<in> fst ` set (mg_rules m) \<Longrightarrow> mg_stats m i \<noteq> None" "i \<in> fst ` set (mg_desired m) \<Longrightarrow> mg_stats m i \<noteq> None"
  using assms unfolding manager_ok_def by blast+

lemma newManager_ok: "manager_ok (newManager n)"
  by (simp add: manager_ok_def newManager_def)

section \<open>The plan and the kernel\<close>

text \<open>What the first half leaves: an admissible state, a plan, and runners that fit the plan's rules.\<close>

theorem kernel_phase_facts:
  assumes k: "kernel_phase sy env rules c s = (p, result, m2, w2)" and ok: "manager_ok (fst s)" and fair: "fair sy"
  shows "manager_ok m2" and "fst ` set (mg_desired m2) = (r_ID \<circ> NormalizeRule) ` set rules"
    and "plan_shape ((r_ID \<circ> NormalizeRule) ` set rules) p"
    and "\<And>k run path. (k, run) \<in> set (mg_runners m2) \<Longrightarrow> (k, path) \<in> set (p_goRules p) \<Longrightarrow> ruleKey (rn_rule run) = ruleKey (g_Rule path)"
    and "nr_cleanupFailed result \<Longrightarrow> nr_err result \<noteq> None"
    and "mg_rules m2 = mg_rules (fst s)" and "mg_dataPlanes m2 = mg_dataPlanes (fst s)" and "mg_settings m2 = mg_settings (fst s)"
    and "\<And>k run path. (k, run) \<in> set (mg_runners (fst s)) \<Longrightarrow> (k, path) \<in> set (p_goRules p) \<Longrightarrow> ruleKey (rn_rule run) = ruleKey (g_Rule path)
           \<Longrightarrow> (k, renamed run (r_Name (g_Rule path))) \<in> set (mg_runners m2)"
proof -
  define m0 where "m0 = fold desire rules ((fst s)\<lparr>mg_desired := []\<rparr>)"
  obtain p' v where b: "buildPlan env (mg_settings m0) c rules (mg_resolver m0) = (p', v)" by fastforce
  define s1 where "s1 = stopChangedRunners sy p' (m0\<lparr>mg_resolver := v\<rparr>, snd s)"
  have "p' = p" and r: "reconcileNFT (sy_kernel sy) p s1 = (result, m2, w2)"
    using k unfolding kernel_phase_def Let_def m0_def[symmetric] b prod.case s1_def by auto
  note b = b[unfolded \<open>p' = p\<close>] and s1_def = s1_def[unfolded \<open>p' = p\<close>]
  note d = desire_all[where rules = rules and m = "(fst s)\<lparr>mg_desired := []\<rparr>", folded m0_def, simplified]
  note keys = desire_keys[where rules = rules and m = "(fst s)\<lparr>mg_desired := []\<rparr>", folded m0_def, simplified]
  have d0: "distinct (map fst (mg_runners (fst (m0\<lparr>mg_resolver := v\<rparr>, snd s))))" using manager_okD(1)[OF ok] d(1) by simp
  note st = stopChangedRunners_runners[OF fair d0, where p = p, folded s1_def, simplified]
  note se = same_elsewhere_fields[OF st(1), simplified]
  have step: "kernel_step (fst s1) m2" using reconcileNFT_step(1)[of "sy_kernel sy" p "fst s1" "snd s1"] r by simp
  note ks = kernel_step_fields[OF step]
  show shape: "plan_shape ((r_ID \<circ> NormalizeRule) ` set rules) p" by (rule buildPlan_shape[OF b])
  show desired: "fst ` set (mg_desired m2) = (r_ID \<circ> NormalizeRule) ` set rules" using ks se keys(2) by simp
  show "mg_rules m2 = mg_rules (fst s)" "mg_dataPlanes m2 = mg_dataPlanes (fst s)" "mg_settings m2 = mg_settings (fst s)"
    using ks se d by simp_all
  show "nr_cleanupFailed result \<Longrightarrow> nr_err result \<noteq> None" using reconcileNFT_step(2)[of "sy_kernel sy" p "fst s1" "snd s1"] r by simp
  have stats: "mg_stats m2 i \<noteq> None" if "i \<in> fst ` set (mg_rules m2) \<union> fst ` set (mg_desired m2)" for i
    using that keys(3)[of i] manager_okD(4)[OF ok, of i] desired ks se d by auto
  show "manager_ok m2" unfolding manager_ok_def
    using st(2) ks se d keys(1) manager_okD(2)[OF ok] stats by simp
  {
    fix k run path
    assume kr: "(k, run) \<in> set (mg_runners m2)" and kp: "(k, path) \<in> set (p_goRules p)"
    have "(k, run) \<in> kept (keeps_running sy p) (set (mg_runners m0))" using kr ks(1) st(3) by simp
    then obtain old where old: "keeps_running sy p k old = Some run" unfolding kept_def by blast
    have "map_of (p_goRules p) k = Some path" using shape kp by (simp add: plan_shape_def)
    then have "wanted_path sy p k = Some path" by (simp add: wanted_path_def)
    with old show "ruleKey (rn_rule run) = ruleKey (g_Rule path)" by (auto simp: keeps_running_def renamed_def split: if_splits)
  }
  {
    fix k run path
    assume kr: "(k, run) \<in> set (mg_runners (fst s))" and kp: "(k, path) \<in> set (p_goRules p)" and same: "ruleKey (rn_rule run) = ruleKey (g_Rule path)"
    have "map_of (p_goRules p) k = Some path" using shape kp by (simp add: plan_shape_def)
    then have "keeps_running sy p k run = Some (renamed run (r_Name (g_Rule path)))" using same by (simp add: keeps_running_def wanted_path_def)
    with kr d(1) have "(k, renamed run (r_Name (g_Rule path))) \<in> kept (keeps_running sy p) (set (mg_runners m0))" by (auto simp: kept_def)
    then show "(k, renamed run (r_Name (g_Rule path))) \<in> set (mg_runners m2)" using ks(1) st(3) by simp
  }
qed

section \<open>From end to end\<close>

text \<open>A spec that the kernel may still forward, and the rule that says so.\<close>

definition disclosed :: "(string \<times> rule) list \<Rightarrow> 'n manager \<Rightarrow> string set \<Rightarrow> nft_spec \<Rightarrow> string \<Rightarrow> bool" where
  "disclosed desired m blocked s ident \<longleftrightarrow> ident \<in> blocked \<and> ident \<in> fst ` set (mg_rules m)
     \<and> (nftIdentityMatchesRule s ident
        \<or> ident \<notin> fst ` set desired \<and> text_or_empty (mg_tombstones m ident) = nftRuleIdentity s)"

definition held_message :: "manager_error \<Rightarrow> rule_stats \<Rightarrow> bool" where
  "held_message e st \<longleftrightarrow> st_running st \<and> (st_lastError st = AdmissionHeld e \<or> st_lastError st = RevocationIncomplete e)"

lemma path_blocked_nft: "mg_nft m' = mg_nft m \<Longrightarrow> path_blocked fb m' p blocked result = path_blocked fb m p blocked result"
  by (simp add: path_blocked_def goPathBlockedByNFT_def fun_eq_iff cong: option.case_cong if_cong)

text \<open>Retiring adds no rule.\<close>

lemma try_all_keys:
  assumes "\<And>e m m'. f e m = Some m' \<Longrightarrow> fst ` set (mg_rules m') \<subseteq> fst ` set (mg_rules m)" and "try_all f es m = Some m'"
  shows "fst ` set (mg_rules m') \<subseteq> fst ` set (mg_rules m)"
  using assms(2)
proof (induction es arbitrary: m)
  case (Cons e es)
  then obtain m1 where "f e m = Some m1" "try_all f es m1 = Some m'" by (auto simp: bind_eq_Some_conv)
  with Cons.IH assms(1) show ?case by blast
qed simp

lemma retireRemoved_keys:
  "retireRemovedRules desired blocked result m = Some m' \<Longrightarrow> fst ` set (mg_rules m') \<subseteq> fst ` set (mg_rules m)"
  unfolding retireRemovedRules_def
  by (rule try_all_keys[rotated], assumption)
    (auto simp: retire_rule_def Let_def with_error_def forget_rule_def bind_eq_Some_conv setRunning_def split: if_splits)

theorem apply_facts:
  fixes s :: "'n manager \<times> 'w"
  assumes k: "kernel_phase sy env rules c s = (p, result, m2, w2)" and ok: "manager_ok (fst s)" and fair: "fair sy"
  obtains blocked verified errs m' w' where "apply_rules sy env rules c s = Some (m', w')" and "manager_ok m'"
    and "mg_nft m' = mg_nft m2" and "mg_desired m' = mg_desired m2"
    and "\<And>k run. (k, run) \<in> set (mg_runners m') \<Longrightarrow> \<not> path_blocked (sy_kernel sy) m' p blocked (without_cleanup (sy_kernel sy) result) k
           \<and> (\<exists>path. (k, path) \<in> set (p_goRules p) \<and> ruleKey (rn_rule run) = ruleKey (g_Rule path))"
    and "\<And>k run path. (k, run) \<in> set (mg_runners (fst s)) \<Longrightarrow> (k, path) \<in> set (p_goRules p) \<Longrightarrow> ruleKey (rn_rule run) = ruleKey (g_Rule path)
           \<Longrightarrow> \<not> path_blocked (sy_kernel sy) m' p blocked (without_cleanup (sy_kernel sy) result) k
           \<Longrightarrow> (k, renamed run (r_Name (g_Rule path))) \<in> set (mg_runners m')"
    and "\<And>x. x \<in> set (p_goRules p) \<Longrightarrow>
           explained (path_blocked (sy_kernel sy) m' p blocked (without_cleanup (sy_kernel sy) result)) errs m' x"
    and "\<And>x. x \<in> set (mg_desired m') \<Longrightarrow> map_of (mg_rules m') (fst x) = Some (snd x)
           \<and> (\<exists>st. mg_stats m' (fst x) = Some st \<and> told (sy_kernel sy) p blocked verified errs (without_cleanup (sy_kernel sy) result) x m' st)"
    and "\<And>i. i \<in> fst ` set (mg_rules m') \<Longrightarrow> i \<notin> fst ` set (mg_desired m') \<Longrightarrow> i \<in> blocked \<Longrightarrow>
           \<exists>e. nr_err result = Some e \<and> mg_stats m' i = Some \<lparr>st_running = True, st_lastError = RevocationIncomplete e\<rparr>"
    and "\<And>i. i \<in> fst ` set (mg_rules m') \<Longrightarrow> i \<in> fst ` set (mg_desired m') \<or> i \<in> blocked
           \<or> fb_retirement (sy_kernel sy) = None \<and> nr_cleanupFailed result"
    and "nr_err result = None \<Longrightarrow> blocked = {}"
    and "\<And>report. nr_err result \<noteq> None \<Longrightarrow> fb_retirement (sy_kernel sy) = Some report \<Longrightarrow>
      (\<forall>sp\<in>set (potential_specs (report (mg_nft m')) (nr_inspectionFailed result)). \<exists>i. disclosed (mg_desired m') m' blocked sp i)
      \<and> (ret_Unknown (report (mg_nft m')) \<longrightarrow> fst ` set (mg_desired m') \<subseteq> blocked)
      \<and> verified = verified_rule p (report (mg_nft m')) (nr_inspectionFailed result) blocked"
    and "nr_err result = None \<or> fb_retirement (sy_kernel sy) = None \<Longrightarrow> \<forall>i. \<not> verified i"
proof -
  note result_is = that
  let ?fb = "sy_kernel sy"
  let ?r = "without_cleanup ?fb result"
  note kf = kernel_phase_facts[OF k ok fair]
  let ?desired = "mg_desired m2"
  have err [simp]: "nr_err ?r = nr_err result" by (simp add: without_cleanup_def)
  have cl: "nr_cleanupFailed ?r \<Longrightarrow> nr_err result \<noteq> None" "nr_cleanupFailed ?r \<Longrightarrow> fb_retirement ?fb = None \<and> nr_cleanupFailed result"
    using kf(5) by (auto simp: without_cleanup_def split: if_splits)
  have ids: "g_RuleID (snd x) \<in> fst ` set ?desired" if "x \<in> set (p_goRules p)" for x
    using kf(3) that unfolding kf(2) plan_shape_def by (cases x) auto
  obtain b0 verified m3 where status: "nftRetirementStatus ?fb ?desired p result m2 = Some ((b0, verified), m3)"
    and tomb: "entombs ?desired m2 m3"
    and none: "nr_err result = None \<or> fb_retirement ?fb = None \<Longrightarrow> b0 = {} \<and> m3 = m2 \<and> (\<forall>i. \<not> verified i)"
    and sub: "b0 \<subseteq> fst ` set ?desired \<union> fst ` set (mg_rules m3)"
    and aware: "\<And>report. nr_err result \<noteq> None \<Longrightarrow> fb_retirement ?fb = Some report \<Longrightarrow>
      (\<forall>s\<in>set (potential_specs (report (mg_nft m2)) (nr_inspectionFailed result)). shown ?desired m3 b0 s)
      \<and> (ret_Unknown (report (mg_nft m2)) \<longrightarrow> fst ` set ?desired \<subseteq> b0)
      \<and> verified = verified_rule p (report (mg_nft m2)) (nr_inspectionFailed result) b0"
    using nftRetirementStatus_facts[OF ids, where fb = ?fb and result = result and m = m2] by blast
  define blocked where "blocked = all_blocked ?fb result b0 m3"
  have aware_blocked: "blocked = b0" if "fb_retirement ?fb \<noteq> None" using that by (auto simp: blocked_def all_blocked_def)
  have "blocked = {}" if e: "nr_err result = None"
  proof -
    have "b0 = {}" "\<not> nr_cleanupFailed result" using none e kf(5) by auto
    then show ?thesis by (simp add: blocked_def all_blocked_def)
  qed
  then have blocked_err: "nr_err result \<noteq> None" if "i \<in> blocked" for i using that by blast
  have c3: "core m3 = core m2" by (rule entombsD(1)[OF tomb])
  note cf = core_fields[OF c3]
  obtain errs m4 w4 where runners: "reconcileRunners sy env p blocked ?r (m3, w2) = (errs, m4, w4)" by (metis prod_cases3)
  have d3: "distinct (map fst (mg_runners (fst (m3, w2))))" using manager_okD(1)[OF kf(1)] cf(1) by simp
  have dp: "distinct (map fst (p_goRules p))" using kf(3) by (simp add: plan_shape_def)
  note rr = reconcileRunners_facts[OF runners fair d3 dp, simplified]
  note se = same_elsewhere_fields[OF rr(1)]
  have stats4: "mg_stats m4 i \<noteq> None" if "i \<in> fst ` set (mg_rules m4) \<union> fst ` set ?desired" for i
    using that manager_okD(4,5)[OF kf(1), of i] entombsD(4,5)[OF tomb, of i] se by auto
  have e1: "nr_err ?r \<noteq> None" if "i \<in> blocked \<and> i \<in> fst ` set ?desired \<or> nr_cleanupFailed ?r" for i
    using that blocked_err cl(1) by auto
  have st4: "mg_stats m4 (fst x) \<noteq> None" if "x \<in> set ?desired" for x using stats4[of "fst x"] that by auto
  obtain m5 where update: "updateRuleStates ?fb ?desired p blocked verified errs ?r m4 = Some m5" and c5: "core m5 = core m4"
    and d5: "distinct (map fst (mg_rules m4)) \<Longrightarrow> distinct (map fst (mg_rules m5))" and t5: "mg_tombstones m5 = mg_tombstones m4"
    and out5: "\<And>j. j \<notin> fst ` set ?desired \<Longrightarrow> mg_stats m5 j = mg_stats m4 j \<and> mg_dataPlanes m5 j = mg_dataPlanes m4 j
         \<and> map_of (mg_rules m5) j = map_of (mg_rules m4) j"
    and in5: "\<And>x. x \<in> set ?desired \<Longrightarrow> map_of (mg_rules m5) (fst x) = Some (snd x)
         \<and> (\<exists>st. mg_stats m5 (fst x) = Some st \<and> told ?fb p blocked verified errs ?r x m4 st)"
    apply (rule updateRuleStates_facts[OF e1 manager_okD(3)[OF kf(1)] st4, where fb = ?fb and p = p and verified = verified and errs = errs])
      apply assumption+
    subgoal premises prems for m'
      by (rule prems(1)) (fact prems(2), fact prems(3), erule prems(4), fact prems(5), erule prems(6), erule prems(7))
    done
  have keys5: "fst ` set (mg_rules m5) = fst ` set (mg_rules m4) \<union> fst ` set ?desired"
  proof (rule set_eqI)
    fix i
    show "i \<in> fst ` set (mg_rules m5) \<longleftrightarrow> i \<in> fst ` set (mg_rules m4) \<union> fst ` set ?desired"
    proof (cases "i \<in> fst ` set ?desired")
      case True
      then obtain x where "x \<in> set ?desired" "i = fst x" by auto
      with in5 True show ?thesis by (metis Un_iff map_of_eq_None_iff option.distinct(1))
    next
      case False
      with out5[of i] show ?thesis by (metis Un_iff map_of_eq_None_iff)
    qed
  qed
  have dist5: "distinct (map fst (mg_rules m5))"
    using d5 entombsD(3)[OF tomb manager_okD(2)[OF kf(1)]] se(3) by simp
  have stats5: "mg_stats m5 i \<noteq> None" if "i \<in> fst ` set (mg_rules m5)" for i
  proof (cases "i \<in> fst ` set ?desired")
    case True
    then obtain x where "x \<in> set ?desired" "i = fst x" by auto
    with in5[of x] show ?thesis by auto
  next
    case False
    with that out5[OF False] stats4[of i] keys5 show ?thesis by simp
  qed
  have e2: "nr_err ?r \<noteq> None" if "i \<in> blocked \<and> i \<notin> fst ` set ?desired \<and> i \<in> fst ` set (mg_rules m5) \<or> nr_cleanupFailed ?r" for i
    using that blocked_err cl(1) by auto
  obtain m6 where retire: "retireRemovedRules ?desired blocked ?r m5 = Some m6" and c6: "core m6 = core m5"
    and d6: "distinct (map fst (mg_rules m6))" and s6: "\<And>i. i \<in> fst ` set (mg_rules m6) \<Longrightarrow> mg_stats m6 i \<noteq> None"
    and in6: "\<And>i. i \<in> fst ` set ?desired \<Longrightarrow> mg_stats m6 i = mg_stats m5 i \<and> map_of (mg_rules m6) i = map_of (mg_rules m5) i"
    and held6: "\<And>i. i \<in> fst ` set (mg_rules m5) \<Longrightarrow> i \<notin> fst ` set ?desired \<Longrightarrow> i \<in> blocked \<Longrightarrow>
        map_of (mg_rules m6) i = map_of (mg_rules m5) i \<and> mg_tombstones m6 i = mg_tombstones m5 i
        \<and> (\<exists>e. nr_err ?r = Some e \<and> mg_stats m6 i = Some \<lparr>st_running = True, st_lastError = RevocationIncomplete e\<rparr>)"
    and gone6: "\<And>i. i \<notin> fst ` set ?desired \<Longrightarrow> i \<notin> blocked \<Longrightarrow> i \<in> fst ` set (mg_rules m6) \<Longrightarrow> nr_cleanupFailed ?r"
    apply (rule retireRemovedRules_facts[OF e2 dist5 stats5])
       apply assumption+
    subgoal premises prems for m'
      by (rule prems(1)) (fact prems(2), fact prems(3), fact prems(4), erule prems(5), erule prems(6),
        (erule prems(7), assumption+), (erule prems(8), assumption+))
    done
  have core6: "core m6 = core m4" using c5 c6 by simp
  note c64 = core_fields[OF core6]
  have nft: "mg_nft m6 = mg_nft m2" "mg_nft m6 = mg_nft m3" "mg_nft m3 = mg_nft m2" using c64(3) se(8) cf(3) by simp_all
  have des: "mg_desired m6 = ?desired" using c64(6) se(4) cf(6) by simp
  note bad = path_blocked_nft[OF nft(2), of ?fb p blocked ?r]
  have keep: "i \<in> fst ` set (mg_rules m5)" if i: "i \<in> fst ` set (mg_rules m6)" "i \<notin> fst ` set ?desired" "i \<in> blocked" for i
  proof (rule ccontr)
    assume n: "i \<notin> fst ` set (mg_rules m5)"
    show False using retireRemoved_keys[OF retire] i(1) n by blast
  qed
  have final: "apply_rules sy env rules c s = Some (m6, w4)"
    unfolding apply_rules_def Let_def k prod.case status bind.bind_lunit settle_def blocked_def[symmetric] fst_conv cf(6) runners
      update retire option.map ..
  show thesis
  proof (rule result_is[OF final])
    have "mg_stats m6 i \<noteq> None" if i: "i \<in> fst ` set (mg_rules m6) \<union> fst ` set ?desired" for i
    proof (cases "i \<in> fst ` set ?desired")
      case True
      then have "i \<in> fst ` set (mg_rules m5)" using keys5 by blast
      from stats5[OF this] in6[OF True] show ?thesis by simp
    next
      case False
      with i s6 show ?thesis by blast
    qed
    then show "manager_ok m6" unfolding manager_ok_def des c64(1)
      using rr(2) d6 manager_okD(3)[OF kf(1)] by blast
    show "mg_nft m6 = mg_nft m2" "mg_desired m6 = ?desired" using nft(1) des .
  next
    fix k run
    assume "(k, run) \<in> set (mg_runners m6)"
    then have kr: "(k, run) \<in> set (mg_runners m4)" using c64(1) by simp
    from rr(3)[OF this] obtain path where pa: "\<not> path_blocked ?fb m3 p blocked ?r k" "(k, path) \<in> set (p_goRules p)"
      "(k, run) \<in> set (mg_runners m3) \<or> rn_rule run = g_Rule path" by blast
    have "ruleKey (rn_rule run) = ruleKey (g_Rule path)"
      using pa(3) kf(4)[OF _ pa(2), of run] cf(1) by auto
    with pa bad show "\<not> path_blocked ?fb m6 p blocked ?r k
           \<and> (\<exists>path. (k, path) \<in> set (p_goRules p) \<and> ruleKey (rn_rule run) = ruleKey (g_Rule path))" by auto
  next
    fix k run path
    assume a: "(k, run) \<in> set (mg_runners (fst s))" "(k, path) \<in> set (p_goRules p)" "ruleKey (rn_rule run) = ruleKey (g_Rule path)"
      "\<not> path_blocked ?fb m6 p blocked ?r k"
    have "(k, renamed run (r_Name (g_Rule path))) \<in> set (mg_runners m3)" using kf(9)[OF a(1-3)] cf(1) by simp
    moreover have "k \<in> fst ` set (p_goRules p)" using a(2) by (force simp: image_iff)
    ultimately show "(k, renamed run (r_Name (g_Rule path))) \<in> set (mg_runners m6)"
      using rr(5) a(4) bad unfolding c64(1) by simp
  next
    fix x assume "x \<in> set (p_goRules p)"
    from rr(4)[OF this] show "explained (path_blocked ?fb m6 p blocked ?r) errs m6 x"
      unfolding bad explained_def c64(1) .
  next
    fix x assume "x \<in> set (mg_desired m6)"
    then have x: "x \<in> set ?desired" "fst x \<in> fst ` set ?desired" unfolding des by auto
    from in5[OF x(1)] in6[OF x(2)] told_core[OF core6, of ?fb p blocked verified errs ?r x]
    show "map_of (mg_rules m6) (fst x) = Some (snd x)
           \<and> (\<exists>st. mg_stats m6 (fst x) = Some st \<and> told ?fb p blocked verified errs ?r x m6 st)" by simp
  next
    fix i
    assume i: "i \<in> fst ` set (mg_rules m6)" "i \<notin> fst ` set (mg_desired m6)" "i \<in> blocked"
    from held6[OF keep[OF i(1) i(2)[unfolded des] i(3)] i(2)[unfolded des] i(3)]
    show "\<exists>e. nr_err result = Some e \<and> mg_stats m6 i = Some \<lparr>st_running = True, st_lastError = RevocationIncomplete e\<rparr>" by simp
  next
    fix i
    assume i: "i \<in> fst ` set (mg_rules m6)"
    show "i \<in> fst ` set (mg_desired m6) \<or> i \<in> blocked \<or> fb_retirement ?fb = None \<and> nr_cleanupFailed result"
      using gone6[of i] i cl(2) unfolding des by blast
  next
    assume "nr_err result = None"
    then show "blocked = {}" using blocked_err by blast
  next
    assume "nr_err result = None \<or> fb_retirement ?fb = None"
    then show "\<forall>i. \<not> verified i" using none by blast
  next
    fix report
    assume a: "nr_err result \<noteq> None" "fb_retirement ?fb = Some report"
    note aw = aware[OF a]
    have b: "blocked = b0" using aware_blocked a(2) by simp
    have "\<exists>i. disclosed (mg_desired m6) m6 blocked sp i" if sp: "shown ?desired m3 b0 sp" for sp
    proof -
      from sp obtain i where i: "i \<in> b0" "i \<in> fst ` set ?desired \<or> i \<in> fst ` set (mg_rules m3)"
        "nftIdentityMatchesRule sp i \<or> i \<notin> fst ` set ?desired \<and> text_or_empty (mg_tombstones m3 i) = nftRuleIdentity sp"
        unfolding shown_def by blast
      have i5: "i \<in> fst ` set (mg_rules m5)" using i(2) keys5 se(3) by auto
      have i6: "i \<in> fst ` set (mg_rules m6)"
      proof (cases "i \<in> fst ` set ?desired")
        case True
        with in6[OF True] i5 show ?thesis by (metis map_of_eq_None_iff)
      next
        case False
        with held6[OF i5 False] i(1) b i5 show ?thesis by (metis map_of_eq_None_iff)
      qed
      have "mg_tombstones m6 i = mg_tombstones m3 i" if "i \<notin> fst ` set ?desired"
        using held6[OF i5 that] i(1) b t5 se(5) by simp
      with i i6 b have "disclosed (mg_desired m6) m6 blocked sp i" unfolding disclosed_def des by auto
      then show ?thesis by blast
    qed
    with aw show "(\<forall>sp\<in>set (potential_specs (report (mg_nft m6)) (nr_inspectionFailed result)). \<exists>i. disclosed (mg_desired m6) m6 blocked sp i)
      \<and> (ret_Unknown (report (mg_nft m6)) \<longrightarrow> fst ` set (mg_desired m6) \<subseteq> blocked)
      \<and> verified = verified_rule p (report (mg_nft m6)) (nr_inspectionFailed result) blocked"
      unfolding nft(1) des b by blast
  qed
qed

end
