(* ===== verification/Manager_Service.thy ===== *)
theory Manager_Service
  imports Manager_Cycle Nft_Backend_Sample
begin

text \<open>
  The manager together with the sockets and the kernel it uses: what the kernel backend promises, and who owns the
  open sockets.
\<close>

section \<open>A kernel backend that can be trusted\<close>

text \<open>
  The contract: a predicate on the backend that every operation keeps, and that a success gives nothing pending and
  nothing unknown.
\<close>

locale checked_kernel =
  fixes fb :: "('n, 'w) forwarding" and trusted :: "'n \<Rightarrow> bool" and report :: "'n \<Rightarrow> retirement_state"
  assumes reports: "fb_retirement fb = Some report"
    and topology_keeps: "trusted n \<Longrightarrow> fb_TopologyKey fb n w = (t, n', w') \<Longrightarrow> trusted n'"
    and replace_keeps: "trusted n \<Longrightarrow> fb_Replace fb specs n w = (e, n', w') \<Longrightarrow> trusted n'"
    and replace_settles: "trusted n \<Longrightarrow> fb_Replace fb specs n w = (None, n', w') \<Longrightarrow> ret_Pending (report n') = []"
    and delete_keeps: "trusted n \<Longrightarrow> fb_Delete fb n w = (e, n', w') \<Longrightarrow> trusted n'"
    and health: "\<exists>healthy. fb_Healthy fb = Some healthy"
    and health_keeps: "fb_Healthy fb = Some healthy \<Longrightarrow> trusted n \<Longrightarrow> healthy specs n w = (q, n', w') \<Longrightarrow> trusted n'"
    and health_settles: "fb_Healthy fb = Some healthy \<Longrightarrow> trusted n \<Longrightarrow> healthy specs n w = (Inr True, n', w') \<Longrightarrow> ret_Pending (report n') = []"
    and config_keeps: "trusted n \<Longrightarrow> trusted (fb_setConfig fb mark n)"
begin

lemma decide_trusted:
  assumes "decideNFTAction fb specs key (m, w) = ((needs, r), m', w')" and "trusted (mg_nft m)"
  shows "trusted (mg_nft m')" and "nr_err r = None \<Longrightarrow> \<not> needs \<Longrightarrow> ret_Pending (report (mg_nft m')) = []"
proof -
  obtain healthy where h: "fb_Healthy fb = Some healthy" using health by blast
  obtain q n w1 where a: "healthy specs (mg_nft m) w = (q, n, w1)" by (metis prod_cases3)
  have m': "mg_nft m' = n" using assms(1) h a by (auto simp: decideNFTAction_def Let_def)
  show "trusted (mg_nft m')" using health_keeps[OF h assms(2) a] m' by simp
  assume "nr_err r = None" "\<not> needs"
  then have "q = Inr True" using assms(1) h a by (auto simp: decideNFTAction_def Let_def split: sum.splits if_splits)
  with health_settles[OF h assms(2)] a m' show "ret_Pending (report (mg_nft m')) = []" by simp
qed

lemma replace_trusted:
  assumes "replace_specs fb specs key r (m, w) = (r', m', w')" and "trusted (mg_nft m)"
  shows "trusted (mg_nft m') \<and> (nr_err r' = None \<longrightarrow> ret_Pending (report (mg_nft m')) = [])"
proof -
  obtain e n w1 where a: "fb_Replace fb specs (mg_nft m) w = (e, n, w1)" by (metis prod_cases3)
  from replace_keeps[OF assms(2) a] replace_settles[OF assms(2)] assms(1) a reports show ?thesis
    by (cases e) (auto simp: replace_specs_def Let_def forget_key_def)
qed

theorem reconcile_trusted:
  assumes "reconcileNFT fb p s = (result, m', w')" and "trusted (mg_nft (fst s))"
  shows "trusted (mg_nft m') \<and> (nr_err result = None \<longrightarrow> ret_Pending (report (mg_nft m')) = [])"
proof -
  obtain key m1 w1 where k: "specs_key fb (p_nftSpecs p) s = (key, m1, w1)" by (metis prod_cases3)
  obtain needs r m2 w2 where d: "decideNFTAction fb (p_nftSpecs p) key (m1, w1) = ((needs, r), m2, w2)" by (metis prod.collapse)
  have t1: "trusted (mg_nft m1)"
    using k assms(2) topology_keeps by (auto simp: specs_key_def Let_def split: if_splits prod.splits)
  note t2 = decide_trusted[OF d t1]
  show ?thesis
  proof (cases "nr_err r = None \<and> needs")
    case True
    with assms(1) k d have "replace_specs fb (p_nftSpecs p) key r (m2, w2) = (result, m', w')" by (auto simp: reconcileNFT_def)
    from replace_trusted[OF this t2(1)] show ?thesis .
  next
    case False
    with assms(1) k d have "result = r" "m' = m2" by (auto simp: reconcileNFT_def)
    with t2 False show ?thesis by auto
  qed
qed

theorem kernel_phase_trusted:
  assumes "kernel_phase sy env rules c s = (p, result, m2, w2)" and "sy_kernel sy = fb" and "fair sy" and "manager_ok (fst s)"
    and "trusted (mg_nft (fst s))"
  shows "trusted (mg_nft m2) \<and> (nr_err result = None \<longrightarrow> ret_Pending (report (mg_nft m2)) = [])"
proof -
  define m0 where "m0 = fold desire rules ((fst s)\<lparr>mg_desired := []\<rparr>)"
  obtain q v where b: "buildPlan env (mg_settings m0) c rules (mg_resolver m0) = (q, v)" by fastforce
  define s1 where "s1 = stopChangedRunners sy q (m0\<lparr>mg_resolver := v\<rparr>, snd s)"
  have r: "reconcileNFT fb q s1 = (result, m2, w2)"
    using assms(1,2) unfolding kernel_phase_def Let_def m0_def[symmetric] b prod.case s1_def by auto
  note d = desire_all[where rules = rules and m = "(fst s)\<lparr>mg_desired := []\<rparr>", folded m0_def, simplified]
  have "distinct (map fst (mg_runners (fst (m0\<lparr>mg_resolver := v\<rparr>, snd s))))" using manager_okD(1)[OF assms(4)] d(1) by simp
  note st = stopChangedRunners_runners(1)[OF assms(3) this, where p = q, folded s1_def, simplified]
  have "mg_nft (fst s1) = mg_nft (fst s)" using same_elsewhere_fields(8)[OF st] d by simp
  with reconcile_trusted[OF r] assms(5) show ?thesis by simp
qed

text \<open>One application, with what the trust gives.\<close>

theorem apply_trusted:
  assumes "apply_rules sy env rules c s = Some s'" and "sy_kernel sy = fb" and "fair sy" and "manager_ok (fst s)"
    and "trusted (mg_nft (fst s))"
  shows "manager_ok (fst s') \<and> trusted (mg_nft (fst s'))"
proof -
  obtain p result m2 w2 where k: "kernel_phase sy env rules c s = (p, result, m2, w2)" by (metis prod_cases4)
  obtain m' w' where "apply_rules sy env rules c s = Some (m', w')" "manager_ok m'" "mg_nft m' = mg_nft m2"
    using apply_facts[OF k assms(4,3)] by metis
  with kernel_phase_trusted[OF k assms(2-5)] assms(1) show ?thesis by auto
qed

end

text \<open>The command backend fulfils it, beside any other state the world has.\<close>

definition beside :: "('n, 'w) forwarding \<Rightarrow> ('n, 'w \<times> 'h) forwarding" where
  "beside fb =
     \<lparr>fb_TopologyKey = (\<lambda>n (w, h). case fb_TopologyKey fb n w of (t, n', w') \<Rightarrow> (t, n', w', h)),
      fb_Replace = (\<lambda>specs n (w, h). case fb_Replace fb specs n w of (e, n', w') \<Rightarrow> (e, n', w', h)),
      fb_Delete = (\<lambda>n (w, h). case fb_Delete fb n w of (e, n', w') \<Rightarrow> (e, n', w', h)),
      fb_Healthy = map_option (\<lambda>f specs n (w, h). case f specs n w of (q, n', w') \<Rightarrow> (q, n', w', h)) (fb_Healthy fb),
      fb_retirement = fb_retirement fb, fb_setConfig = fb_setConfig fb\<rparr>"

lemma beside_keeps:
  "fb_TopologyKey (beside fb) n s = (t, n1, s1) \<Longrightarrow> snd s1 = snd s \<and> fb_TopologyKey fb n (fst s) = (t, n1, fst s1)"
  "fb_Replace (beside fb) specs n s = (e, n1, s1) \<Longrightarrow> snd s1 = snd s \<and> fb_Replace fb specs n (fst s) = (e, n1, fst s1)"
  "fb_Delete (beside fb) n s = (e, n1, s1) \<Longrightarrow> snd s1 = snd s \<and> fb_Delete fb n (fst s) = (e, n1, fst s1)"
  "fb_Healthy (beside fb) = Some f \<Longrightarrow> f specs n s = (q, n1, s1) \<Longrightarrow>
     snd s1 = snd s \<and> (\<exists>g. fb_Healthy fb = Some g \<and> g specs n (fst s) = (q, n1, fst s1))"
  by (auto simp: beside_def split: prod.splits)

lemma command_settles:
  assumes "described n" and "Replace io specs n w = (None, n', w')"
  shows "ret_Pending (retirementState n') = []"
  using Replace_views[OF assms(2,1)] by (simp add: settled_def retirementState_def)

interpretation command: checked_kernel "beside (command_forwarding io)" described retirementState for io :: "'w nft_io"
proof (unfold_locales, goal_cases)
  case 1
  show ?case by (simp add: beside_def command_forwarding_def)
next
  case (2 n w t n' w')
  from beside_keeps(1)[OF 2(2)] have "TopologyKey io n (fst w) = (t, n', fst w')" by (simp add: command_forwarding_def)
  from topology_key_ok[OF this] 2(1) show ?case by simp
next
  case (3 n specs w e n' w')
  from beside_keeps(2)[OF 3(2)] have "Replace io specs n (fst w) = (e, n', fst w')" by (simp add: command_forwarding_def)
  from Replace_views[OF this 3(1)] show ?case by simp
next
  case (4 n specs w n' w')
  from beside_keeps(2)[OF 4(2)] have "Replace io specs n (fst w) = (None, n', fst w')" by (simp add: command_forwarding_def)
  from command_settles[OF 4(1) this] show ?case .
next
  case (5 n w e n' w')
  from beside_keeps(3)[OF 5(2)] have "Replace io [] n (fst w) = (e, n', fst w')" by (simp add: command_forwarding_def Delete_def)
  from Replace_views[OF this 5(1)] show ?case by simp
next
  case 6
  show ?case by (simp add: beside_def command_forwarding_def)
next
  case (7 healthy n specs w q n' w')
  from beside_keeps(4)[OF 7(1,3)] have "Healthy io specs n (fst w) = (q, n', fst w')" by (simp add: command_forwarding_def)
  from Healthy_views[OF this] 7(2) show ?case by blast
next
  case (8 healthy n specs w n' w')
  from beside_keeps(4)[OF 8(1,3)] have "Healthy io specs n (fst w) = (Inr True, n', fst w')" by (simp add: command_forwarding_def)
  from Healthy_views[OF this] 8(2) have "serving io (fst w) specs n'" by blast
  then show ?case by (simp add: serving_def retirementState_def)
next
  case (9 n mark)
  then show ?case by (simp add: beside_def command_forwarding_def config_ok(1))
qed

end
