(* ===== verification/Manager_Sockets.thy ===== *)
theory Manager_Sockets
  imports Manager_Service
begin

text \<open>
  Who owns the open sockets: between two operations the manager's runners hold exactly the open sockets, each once.
\<close>

section \<open>Loops\<close>

lemma fold_entries:
  assumes keeps: "\<And>entry. entry \<in> set es \<Longrightarrow> keeps_or_drops keep entry (f entry)"
    and step: "\<And>entry s. entry \<in> set es \<Longrightarrow> P s \<Longrightarrow> entry \<in> set (mg_runners (fst s)) \<Longrightarrow> distinct (map fst (mg_runners (fst s))) \<Longrightarrow> P (f entry s)"
    and "distinct (map fst es)" and "set es \<subseteq> set (mg_runners (fst s))" and "distinct (map fst (mg_runners (fst s)))" and "P s"
  shows "P (fold f es s)"
  using assms
proof (induction es arbitrary: s)
  case Nil
  then show ?case by simp
next
  case (Cons e es)
  have e: "e \<in> set (mg_runners (fst s))" using Cons.prems(4) by simp
  note h = keeps_or_dropsD[OF Cons.prems(1)[of e] e Cons.prems(5), simplified]
  have other: "x \<noteq> e" if "x \<in> set es" for x using that Cons.prems(3) by (auto simp: image_iff)
  have sub: "set es \<subseteq> set (mg_runners (fst (f e s)))"
  proof
    fix x assume x: "x \<in> set es"
    with Cons.prems(4) other[OF x] show "x \<in> set (mg_runners (fst (f e s)))" unfolding h(3) by auto
  qed
  have "P (fold f es (f e s))"
    by (rule Cons.IH[OF Cons.prems(1) Cons.prems(2)]) (use Cons.prems(3) sub h(2) Cons.prems(2)[OF _ Cons.prems(6) e Cons.prems(5)] in auto)
  then show ?case by simp
qed

definition runner_sockets :: "(string \<times> runner) list \<Rightarrow> nat list" where
  "runner_sockets rs = concat (map (\<lambda>x. sockets_of (rn_closers (snd x))) rs)"

lemma runner_sockets_simps [simp]:
  "runner_sockets [] = []" "runner_sockets (x # rs) = sockets_of (rn_closers (snd x)) @ runner_sockets rs"
  "runner_sockets (rs @ ss) = runner_sockets rs @ runner_sockets ss"
  by (simp_all add: runner_sockets_def)

lemma remove_entry:
  assumes "(k, run) \<in> set rs" and "distinct (map fst rs)"
  obtains xs ys where "rs = xs @ (k, run) # ys" and "alist_remove k rs = xs @ ys"
proof -
  from assms(1) obtain xs ys where rs: "rs = xs @ (k, run) # ys" by (meson split_list)
  have "fst x \<noteq> k" if "x \<in> set xs \<union> set ys" for x
    using assms(2) that unfolding rs by (cases x) (auto simp: image_iff)
  then have "alist_remove k rs = xs @ ys" by (auto simp: rs alist_remove_def filter_id_conv)
  with rs show thesis by (rule that)
qed

lemma renamed_sockets:
  "(\<And>r. rn_closers (f r) = rn_closers r) \<Longrightarrow> runner_sockets (map (\<lambda>(k', r). (k', if k' = k then f r else r)) rs) = runner_sockets rs"
  by (induction rs) auto

section \<open>Frames of the last two loops\<close>

lemma try_all_core:
  assumes "\<And>e m m'. f e m = Some m' \<Longrightarrow> core m' = core m" and "try_all f es m = Some m'"
  shows "core m' = core m"
  using assms(2)
proof (induction es arbitrary: m)
  case (Cons e es)
  then obtain m1 where "f e m = Some m1" "try_all f es m1 = Some m'" by (auto simp: bind_eq_Some_conv)
  with Cons.IH assms(1) show ?case by metis
qed simp

lemma plane_core [simp]: "core (set_plane i plane m) = core m"
  by (simp add: set_plane_def)

lemma blocked_state_core:
  assumes "blocked_state fb p result previous i m = Some m'"
  shows "core m' = core m"
proof -
  obtain state own where k: "nftRuleState fb m i = (state, own)" by (metis surj_pair)
  from assms obtain e where e: "nr_err result = Some e" by (auto simp: blocked_state_def with_error_def bind_eq_Some_conv)
  note a = assms[unfolded blocked_state_def with_error_def e bind.bind_lunit k Let_def prod.case]
  show ?thesis
  proof (cases "\<not> own \<and> \<not> dataPlaneUsesNFT previous \<and> p_usesGo p i")
    case True
    from setRunning_core[OF a[unfolded if_P[OF True]]] show ?thesis .
  next
    case False
    from setRunning_core[OF a[unfolded if_not_P[OF False]]] show ?thesis by simp
  qed
qed

lemma enabled_state_core: "enabled_state p result known errs i m = Some m' \<Longrightarrow> core m' = core m"
  unfolding enabled_state_def Let_def by (auto dest!: setRunning_core split: if_splits)

lemma update_rule_core:
  assumes "update_rule fb p blocked known errs result e m = Some m'"
  shows "core m' = core m"
proof -
  obtain i r where e: "e = (i, r)" by fastforce
  let ?m = "set_plane i (text_or_empty (p_dataPlanes p i)) (m\<lparr>mg_rules := alist_set i r (mg_rules m)\<rparr>)"
  have c: "core ?m = core m" by simp
  consider "i \<in> blocked" | "i \<notin> blocked" "\<not> r_Enabled r" | "i \<notin> blocked" "r_Enabled r" by blast
  then have "core m' = core ?m"
  proof cases
    case 1
    with assms show ?thesis unfolding update_rule_def Let_def e prod.case by (simp add: blocked_state_core)
  next
    case 2
    with assms show ?thesis unfolding update_rule_def Let_def e prod.case
      by (auto simp: with_error_def bind_eq_Some_conv dest!: setRunning_core split: if_splits)
  next
    case 3
    with assms show ?thesis unfolding update_rule_def Let_def e prod.case by (simp add: enabled_state_core)
  qed
  with c show ?thesis by simp
qed

lemma retire_rule_core: "retire_rule desired blocked result e m = Some m' \<Longrightarrow> core m' = core m"
  by (auto simp: retire_rule_def with_error_def Let_def bind_eq_Some_conv forget_rule_def dest!: setRunning_core split: if_splits)

section \<open>Ownership\<close>

locale node = sockets "sy_sockets sy" opened for sy :: "('n, 'w) system" and opened :: "'w \<Rightarrow> nat set" +
  assumes fair: "fair sy"
    and topology_opened: "fb_TopologyKey (sy_kernel sy) n w = (t, n', w') \<Longrightarrow> opened w' = opened w"
    and replace_opened: "fb_Replace (sy_kernel sy) specs n w = (e, n', w') \<Longrightarrow> opened w' = opened w"
    and delete_opened: "fb_Delete (sy_kernel sy) n w = (e, n', w') \<Longrightarrow> opened w' = opened w"
    and health_opened: "fb_Healthy (sy_kernel sy) = Some healthy \<Longrightarrow> healthy specs n w = (q, n', w') \<Longrightarrow> opened w' = opened w"
begin

definition owns :: "'n manager \<times> 'w \<Rightarrow> bool" where
  "owns s \<longleftrightarrow> distinct (runner_sockets (mg_runners (fst s))) \<and> opened (snd s) = set (runner_sockets (mg_runners (fst s)))"

lemma owns_same: "mg_runners m' = mg_runners m \<Longrightarrow> opened w' = opened w \<Longrightarrow> owns (m', w') = owns (m, w)"
  by (simp add: owns_def)

lemma drop_owns:
  assumes "owns s" and "(k, run) \<in> set (mg_runners (fst s))" and "distinct (map fst (mg_runners (fst s)))"
  shows "owns (drop_runner (sy_sockets sy) k run s)"
proof -
  obtain xs ys where rs: "mg_runners (fst s) = xs @ (k, run) # ys" "alist_remove k (mg_runners (fst s)) = xs @ ys"
    using remove_entry[OF assms(2,3)] .
  obtain b w where st: "stop_runner (sy_sockets sy) run (mg_resources (fst s), snd s) = (b, w)" by fastforce
  have "drop_runner (sy_sockets sy) k run s = ((fst s)\<lparr>mg_runners := xs @ ys, mg_resources := b\<rparr>, w)"
    by (simp add: drop_runner_def st rs(2))
  moreover have "opened w = opened (snd s) - set (sockets_of (rn_closers run))" using stop_effect[OF st] by simp
  ultimately show ?thesis using assms(1) unfolding owns_def rs(1) by auto
qed

lemma stop_when_owns:
  assumes "owns s" and "distinct (map fst (mg_runners (fst s)))"
  shows "owns (fold (stop_when (sy_sockets sy) bad) (iter sy i (mg_runners (fst s))) s)"
proof (rule fold_entries[where P = owns, OF stop_when_keeps[where bad = bad]])
  note it = iter_fair[OF fair assms(2), where i = i]
  show "distinct (map fst (iter sy i (mg_runners (fst s))))" "set (iter sy i (mg_runners (fst s))) \<subseteq> set (mg_runners (fst s))"
    using it by auto
  show "owns (stop_when (sy_sockets sy) bad entry t)"
    if "owns t" "entry \<in> set (mg_runners (fst t))" "distinct (map fst (mg_runners (fst t)))" for entry t
    using that drop_owns[of t "fst entry" "snd entry"] by (simp add: stop_when_def)
qed (rule assms)+

lemma stop_changed_owns:
  assumes "owns s" and "entry \<in> set (mg_runners (fst s))" and "distinct (map fst (mg_runners (fst s)))"
  shows "owns (stop_changed sy p entry s)"
proof -
  obtain k run where e: "entry = (k, run)" by fastforce
  note d = drop_owns[OF assms(1) assms(2)[unfolded e] assms(3)]
  show ?thesis
  proof (cases "wanted_path sy p k")
    case None
    with d show ?thesis by (simp add: stop_changed_def e)
  next
    case (Some path)
    let ?rs = "map (\<lambda>(k', r). (k', if k' = k then r\<lparr>rn_displayName := r_Name (g_Rule path)\<rparr> else r)) (mg_runners (fst s))"
    have "runner_sockets ?rs = runner_sockets (mg_runners (fst s))" by (rule renamed_sockets) simp
    then have "owns ((fst s)\<lparr>mg_runners := ?rs\<rparr>, snd s)" using assms(1) by (simp add: owns_def)
    with Some d assms(1) show ?thesis by (simp add: stop_changed_def e)
  qed
qed

lemma stopChanged_owns:
  assumes "owns s" and "distinct (map fst (mg_runners (fst s)))"
  shows "owns (stopChangedRunners sy p s)"
  unfolding stopChangedRunners_def
proof (rule fold_entries[where P = owns, OF stop_changed_keeps])
  note it = iter_fair[OF fair assms(2), where i = 1]
  show "distinct (map fst (iter sy 1 (mg_runners (fst s))))" "set (iter sy 1 (mg_runners (fst s))) \<subseteq> set (mg_runners (fst s))"
    using it by auto
qed (use assms stop_changed_owns in auto)

lemma start_path_owns:
  assumes "owns (m, w)"
  shows "owns (snd (start_path (sy_sockets sy) env bad entry (errs, m, w)))"
proof -
  obtain k path where e: "entry = (k, path)" by fastforce
  obtain er run b w1 where st: "start_runner (sy_sockets sy) env (newRunner (g_Rule path)) (mg_resources m, w) = (er, run, b, w1)"
    by (metis prod_cases4)
  note h = start_runner_holds[OF st]
  show ?thesis
  proof (cases "k \<in> fst ` set (mg_runners m) \<or> bad k")
    case True
    with assms show ?thesis by (auto simp: start_path_def e add_failure_def)
  next
    case False
    show ?thesis
    proof (cases er)
      case (Some err)
      then have "snd (start_path (sy_sockets sy) env bad entry (errs, m, w)) = (m\<lparr>mg_resources := b\<rparr>, w1)"
        using False st by (auto simp: start_path_def e)
      with h Some assms show ?thesis by (simp add: owns_def holding_def)
    next
      case None
      then have "snd (start_path (sy_sockets sy) env bad entry (errs, m, w)) = (m\<lparr>mg_resources := b, mg_runners := mg_runners m @ [(k, run)]\<rparr>, w1)"
        using False st by (auto simp: start_path_def e alist_put_fresh)
      with h assms show ?thesis by (auto simp: owns_def holding_def)
    qed
  qed
qed

lemma start_paths_own: "owns s \<Longrightarrow> owns (snd (fold (start_path (sy_sockets sy) env bad) ps (errs, s)))"
proof (induction ps arbitrary: errs s)
  case (Cons e ps)
  obtain errs1 s1 where s1: "start_path (sy_sockets sy) env bad e (errs, s) = (errs1, s1)" by (metis surj_pair)
  have "owns (fst s, snd s)" using Cons.prems by simp
  from start_path_owns[OF this, of env bad e errs] s1 have "owns s1" by simp
  from Cons.IH[OF this] s1 show ?case by simp
qed simp

lemma reconcileRunners_owns:
  assumes "reconcileRunners sy env p blocked result s = (errs, m', w')" and "owns s" and "distinct (map fst (mg_runners (fst s)))"
    and "distinct (map fst (p_goRules p))"
  shows "owns (m', w')"
proof -
  let ?io = "sy_sockets sy"
  define bad where "bad = path_blocked (sy_kernel sy) (fst s) p blocked result"
  define s1 where "s1 = fold (stop_when ?io bad) (iter sy 2 (mg_runners (fst s))) s"
  obtain e2 m2 w2 where s2: "fold (start_path ?io env bad) (iter sy 3 (p_goRules p)) (\<lambda>_. [], fst s1, snd s1) = (e2, m2, w2)"
    by (metis prod_cases3)
  have o1: "owns s1" unfolding s1_def by (rule stop_when_owns[OF assms(2,3)])
  have d1: "distinct (map fst (mg_runners (fst s1)))" unfolding s1_def by (rule stop_when_runners(2)[OF fair assms(3)])
  have o2: "owns (m2, w2)" using start_paths_own[of s1 env bad "iter sy 3 (p_goRules p)" "\<lambda>_. []"] o1 s2 by simp
  have d2: "distinct (map fst (mg_runners (fst (m2, w2))))" using start_paths_facts[OF s2 d1] by simp
  have "(m', w') = fold (stop_when ?io (\<lambda>k. k \<notin> fst ` set (p_goRules p))) (iter sy 4 (mg_runners (fst (m2, w2)))) (m2, w2)"
    using assms(1) s2 unfolding reconcileRunners_def Let_def bad_def[symmetric] s1_def[symmetric] by auto
  with stop_when_owns[OF o2 d2] show ?thesis by simp
qed

lemma reconcile_opened:
  assumes "reconcileNFT (sy_kernel sy) p s = (result, m', w')"
  shows "opened w' = opened (snd s)"
proof -
  let ?fb = "sy_kernel sy"
  obtain key m1 w1 where k: "specs_key ?fb (p_nftSpecs p) s = (key, m1, w1)" by (metis prod_cases3)
  obtain needs r m2 w2 where d: "decideNFTAction ?fb (p_nftSpecs p) key (m1, w1) = ((needs, r), m2, w2)" by (metis prod.collapse)
  have o1: "opened w1 = opened (snd s)" using k topology_opened by (auto simp: specs_key_def Let_def split: if_splits prod.splits)
  have o2: "opened w2 = opened w1"
  proof (cases "fb_Healthy ?fb")
    case None
    with d show ?thesis by (simp add: decideNFTAction_def)
  next
    case (Some healthy)
    obtain q n v where a: "healthy (p_nftSpecs p) (mg_nft m1) w1 = (q, n, v)" by (metis prod_cases3)
    with d Some have "v = w2" by (simp add: decideNFTAction_def Let_def)
    with health_opened[OF Some a] show ?thesis by simp
  qed
  show ?thesis
  proof (cases "nr_err r = None \<and> needs")
    case False
    with assms k d have "w' = w2" by (auto simp: reconcileNFT_def)
    with o1 o2 show ?thesis by simp
  next
    case True
    with assms k d have c: "replace_specs ?fb (p_nftSpecs p) key r (m2, w2) = (result, m', w')" by (auto simp: reconcileNFT_def)
    obtain e n v where a: "fb_Replace ?fb (p_nftSpecs p) (mg_nft m2) w2 = (e, n, v)" by (metis prod_cases3)
    obtain e2 n2 v2 where b: "fb_Delete ?fb n v = (e2, n2, v2)" by (metis prod_cases3)
    have "w' = v \<or> w' = v2" using c a b by (auto simp: replace_specs_def Let_def split: option.splits if_splits)
    with replace_opened[OF a] delete_opened[OF b] o1 o2 show ?thesis by auto
  qed
qed

theorem apply_owns:
  assumes "apply_rules sy env rules c s = Some s'" and "owns s" and "manager_ok (fst s)"
  shows "owns s'"
proof -
  let ?fb = "sy_kernel sy"
  obtain p result m2 w2 where k: "kernel_phase sy env rules c s = (p, result, m2, w2)" by (metis prod_cases4)
  note kf = kernel_phase_facts[OF k assms(3) fair]
  define m0 where "m0 = fold desire rules ((fst s)\<lparr>mg_desired := []\<rparr>)"
  obtain q v where b: "buildPlan env (mg_settings m0) c rules (mg_resolver m0) = (q, v)" by fastforce
  define s1 where "s1 = stopChangedRunners sy q (m0\<lparr>mg_resolver := v\<rparr>, snd s)"
  have r: "reconcileNFT ?fb q s1 = (result, m2, w2)"
    using k unfolding kernel_phase_def Let_def m0_def[symmetric] b prod.case s1_def by auto
  note d = desire_all[where rules = rules and m = "(fst s)\<lparr>mg_desired := []\<rparr>", folded m0_def, simplified]
  have d0: "distinct (map fst (mg_runners (fst (m0\<lparr>mg_resolver := v\<rparr>, snd s))))" using manager_okD(1)[OF assms(3)] d(1) by simp
  have "owns (m0\<lparr>mg_resolver := v\<rparr>, snd s)" using assms(2) d(1) by (simp add: owns_def)
  from stopChanged_owns[OF this d0] have o1: "owns s1" unfolding s1_def .
  have "kernel_step (fst s1) m2" using reconcileNFT_step(1)[of ?fb q "fst s1" "snd s1"] r by simp
  from kernel_step_fields(1)[OF this] have o2: "owns (m2, w2)" using o1 reconcile_opened[OF r] by (simp add: owns_def)
  from assms(1) obtain blocked0 known m3 where st: "nftRetirementStatus ?fb (mg_desired m2) p result m2 = Some ((blocked0, known), m3)"
    and se: "settle sy env p (without_cleanup ?fb result) (all_blocked ?fb result blocked0 m3) known (m3, w2) = Some s'"
    unfolding apply_rules_def Let_def k prod.case by (auto simp: bind_eq_Some_conv)
  have ids: "g_RuleID (snd x) \<in> fst ` set (mg_desired m2)" if "x \<in> set (p_goRules p)" for x
    using kf(3) that unfolding kf(2) plan_shape_def by (cases x) auto
  have "entombs (mg_desired m2) m2 m3"
    by (rule nftRetirementStatus_facts[OF ids, where fb = ?fb and result = result and m = m2]) (use st in auto)
  note cf = core_fields[OF entombsD(1)[OF this]]
  let ?blocked = "all_blocked ?fb result blocked0 m3" and ?r = "without_cleanup ?fb result"
  obtain errs m4 w4 where rr: "reconcileRunners sy env p ?blocked ?r (m3, w2) = (errs, m4, w4)" by (metis prod_cases3)
  have d3: "distinct (map fst (mg_runners (fst (m3, w2))))" using manager_okD(1)[OF kf(1)] cf(1) by simp
  have dp: "distinct (map fst (p_goRules p))" using kf(3) by (simp add: plan_shape_def)
  have "owns (m3, w2)" using o2 cf(1) by (simp add: owns_def)
  from reconcileRunners_owns[OF rr this d3 dp] have o4: "owns (m4, w4)" .
  from se obtain m5 m6 where up: "updateRuleStates ?fb (mg_desired m3) p ?blocked known errs ?r m4 = Some m5"
    and re: "retireRemovedRules (mg_desired m3) ?blocked ?r m5 = Some m6" and s': "s' = (m6, w4)"
    unfolding settle_def Let_def fst_conv rr prod.case by (auto simp: bind_eq_Some_conv)
  have "mg_runners m5 = mg_runners m4" "mg_runners m6 = mg_runners m5"
    using try_all_core[OF _ up[unfolded updateRuleStates_def]] try_all_core[OF _ re[unfolded retireRemovedRules_def]]
      update_rule_core retire_rule_core core_fields(1) by metis+
  with o4 s' show ?thesis by (simp add: owns_def)
qed

theorem stop_owns:
  assumes "owns s" and "distinct (map fst (mg_runners (fst s)))"
  shows "mg_runners (fst (Stop sy s)) = [] \<and> opened (snd (Stop sy s)) = {}"
proof -
  let ?f = "\<lambda>(k, run). drop_runner (sy_sockets sy) k run"
  have f: "?f = stop_when (sy_sockets sy) (\<lambda>_. True)" by (auto simp: fun_eq_iff stop_when_def)
  obtain m1 w1 where s1: "fold ?f (iter sy 6 (mg_runners (fst s))) s = (m1, w1)" by fastforce
  note st = stop_when_owns[OF assms, of "\<lambda>_. True" 6, folded f, unfolded s1]
    and e = stop_when_runners(3)[OF fair assms(2), where io = "sy_sockets sy" and bad = "\<lambda>_. True" and i = 6, folded f, unfolded s1]
  obtain er n w2 where del: "fb_Delete (sy_kernel sy) (mg_nft m1) w1 = (er, n, w2)" by (metis prod_cases3)
  have "mg_runners m1 = []" using e by simp
  moreover from this st have "opened w1 = {}" by (simp add: owns_def)
  ultimately show ?thesis using delete_opened[OF del]
    by (simp add: Stop_def s1 del Let_def forget_key_def all_stats_def split: option.splits)
qed

end

section \<open>The service\<close>

text \<open>
  The manager with any sockets, numbered by the program, any kernel backend beside them, and any order of map
  iterations (an answer that is no order of the keys counts as the order given).
\<close>

definition fair_order :: "(nat \<Rightarrow> string list \<Rightarrow> string list) \<Rightarrow> nat \<Rightarrow> string list \<Rightarrow> string list" where
  "fair_order ord i ks = (if distinct (ord i ks) \<and> set (ord i ks) = set ks then ord i ks else ks)"

definition service ::
    "'w socket_io \<Rightarrow> ('n, 'w) forwarding \<Rightarrow> (nat \<Rightarrow> string list \<Rightarrow> string list) \<Rightarrow> ('n, 'w \<times> (nat \<times> nat) list) system" where
  "service sx fb ord = \<lparr>sy_sockets = numbered sx, sy_kernel = beside fb, sy_order = fair_order ord\<rparr>"

interpretation nd: node "service sx fb ord" "\<lambda>s. fst ` set (snd s)"
  for sx :: "'w socket_io" and fb :: "('n, 'w) forwarding" and ord :: "nat \<Rightarrow> string list \<Rightarrow> string list"
proof -
  have sel: "sy_sockets (service sx fb ord) = numbered sx" "sy_kernel (service sx fb ord) = beside fb"
    "sy_order (service sx fb ord) = fair_order ord" by (simp_all add: service_def)
  show "node (service sx fb ord) (\<lambda>s. fst ` set (snd s))"
  proof (intro node.intro node_axioms.intro, unfold sel, goal_cases)
    case 1
    show ?case by unfold_locales
  next
    case 2
    show ?case unfolding fair_def sel by (simp add: fair_order_def)
  next
    case (3 n w t n' w')
    from beside_keeps(1)[OF 3] show ?case by simp
  next
    case (4 specs n w e n' w')
    from beside_keeps(2)[OF 4] show ?case by simp
  next
    case (5 n w e n' w')
    from beside_keeps(3)[OF 5] show ?case by simp
  next
    case (6 healthy specs n w q n' w')
    from beside_keeps(4)[OF 6] show ?case by simp
  qed
qed

abbreviation command_service ::
    "'w socket_io \<Rightarrow> 'w nft_io \<Rightarrow> (nat \<Rightarrow> string list \<Rightarrow> string list) \<Rightarrow> (backend, 'w \<times> (nat \<times> nat) list) system" where
  "command_service sx io ord \<equiv> service sx (command_forwarding io) ord"

text \<open>The states of the service: the world may change between two operations, the table of sockets is the program's.\<close>

inductive service_reach ::
    "'w socket_io \<Rightarrow> 'w nft_io \<Rightarrow> (nat \<Rightarrow> string list \<Rightarrow> string list) \<Rightarrow> backend manager \<times> 'w \<times> (nat \<times> nat) list \<Rightarrow> bool"
  for sx io ord where
  start: "service_reach sx io ord (newManager (newCommandNFTBackend found), w, [])"
| elapse: "service_reach sx io ord (m, w, hs) \<Longrightarrow> service_reach sx io ord (m, w', hs)"
| config: "service_reach sx io ord (m, s) \<Longrightarrow> service_reach sx io ord (SetRuntimeConfig (command_forwarding io) limits mark flowtable m, s)"
| rules: "service_reach sx io ord s \<Longrightarrow> apply_rules (command_service sx io ord) env rs c s = Some s' \<Longrightarrow> service_reach sx io ord s'"
| servers: "service_reach sx io ord s \<Longrightarrow> SetDNSServers (command_service sx io ord) env s = Some s' \<Longrightarrow> service_reach sx io ord s'"
| stop: "service_reach sx io ord s \<Longrightarrow> service_reach sx io ord (Stop (command_service sx io ord) s)"

definition service_ok :: "backend manager \<times> 'w \<times> (nat \<times> nat) list \<Rightarrow> bool" where
  "service_ok s \<longleftrightarrow> manager_ok (fst s) \<and> described (mg_nft (fst s)) \<and> distinct (runner_sockets (mg_runners (fst s)))
     \<and> fst ` set (snd (snd s)) = set (runner_sockets (mg_runners (fst s)))"

lemma service_sel:
  "sy_kernel (command_service sx io ord) = beside (command_forwarding io)" "fair (command_service sx io ord)"
  "fb_retirement (sy_kernel (command_service sx io ord)) = Some retirementState"
  by (simp add: service_def) (rule nd.fair, simp add: service_def beside_def command_forwarding_def)

lemma service_apply:
  assumes "service_ok s" and "apply_rules (command_service sx io ord) env rs c s = Some s'"
  shows "service_ok s'"
proof -
  have "nd.owns s" using assms(1) by (simp add: nd.owns_def service_ok_def)
  from nd.apply_owns[OF assms(2) this] command.apply_trusted[OF assms(2) service_sel(1,2)] assms(1)
  show ?thesis by (simp add: service_ok_def nd.owns_def)
qed

lemma service_stop:
  assumes "manager_ok (fst s)" and "described (mg_nft (fst s))"
  shows "manager_ok (fst (Stop (command_service sx io ord) s)) \<and> described (mg_nft (fst (Stop (command_service sx io ord) s)))"
proof -
  let ?sy = "command_service sx io ord"
  let ?f = "\<lambda>(k, run). drop_runner (sy_sockets ?sy) k run"
  have f: "?f = stop_when (sy_sockets ?sy) (\<lambda>_. True)" by (auto simp: fun_eq_iff stop_when_def)
  obtain m1 w1 where s1: "fold ?f (iter ?sy 6 (mg_runners (fst s))) s = (m1, w1)" by (metis surj_pair)
  note e = stop_when_runners[OF service_sel(2)[of sx io ord] manager_okD(1)[OF assms(1)], where io = "sy_sockets ?sy" and bad = "\<lambda>_. True" and i = 6,
      folded f, unfolded s1]
  note fields = same_elsewhere_fields[OF e(1)[simplified]]
  obtain er n w2 where del: "fb_Delete (sy_kernel ?sy) (mg_nft m1) w1 = (er, n, w2)" by (metis prod_cases3)
  have "described n" using command.delete_keeps[OF _ del[unfolded service_sel(1)]] assms(2) fields(8) by simp
  moreover have "mg_runners (fst (Stop ?sy s)) = mg_runners m1 \<and> mg_rules (fst (Stop ?sy s)) = mg_rules m1
      \<and> mg_desired (fst (Stop ?sy s)) = mg_desired m1 \<and> mg_nft (fst (Stop ?sy s)) = n
      \<and> (\<forall>i. mg_stats m1 i \<noteq> None \<longrightarrow> mg_stats (fst (Stop ?sy s)) i \<noteq> None)"
    by (cases er) (simp_all add: Stop_def s1 del Let_def forget_key_def all_stats_def)
  ultimately show ?thesis using assms(1) e(2) fields by (simp add: manager_ok_def)
qed

theorem service_reach_ok: "service_reach sx io ord s \<Longrightarrow> service_ok s"
proof (induction rule: service_reach.induct)
  case (start found w)
  show ?case by (simp add: service_ok_def manager_ok_def newManager_def start_ok(1))
next
  case (elapse m w hs w')
  then show ?case by (simp add: service_ok_def)
next
  case (config m s limits mark flowtable)
  then show ?case by (simp add: service_ok_def manager_ok_def SetRuntimeConfig_def Let_def forget_key_def command_forwarding_def config_ok(1))
next
  case (rules s env rs c s')
  from service_apply[OF rules.IH rules.hyps(2)] show ?case .
next
  case (servers s env s')
  have "service_ok ((fst s)\<lparr>mg_resolver := (mg_resolver (fst s))\<lparr>v_resolved := (\<lambda>_. None)\<rparr>\<rparr>, snd s)"
    using servers.IH by (simp add: service_ok_def manager_ok_def)
  from service_apply[OF this servers.hyps(2)[unfolded SetDNSServers_def Apply_def]] show ?case .
next
  case (stop s)
  have o: "nd.owns s" and ok: "manager_ok (fst s)" "described (mg_nft (fst s))"
    using stop.IH by (simp_all add: nd.owns_def service_ok_def)
  note st = nd.stop_owns[OF o manager_okD(1)[OF ok(1)], of sx "command_forwarding io" ord]
  from service_stop[OF ok, of sx io ord] st show ?case by (simp add: service_ok_def)
qed

end
