(* ===== verification/Manager_Yield.thy ===== *)
theory Manager_Yield
  imports Manager_Sockets
begin

text \<open>
  The traffic a listener of the program receives against the traffic the kernel may still forward, and what the
  rules are told of it.
\<close>

section \<open>Traffic\<close>

text \<open>An ingress: family, protocol, destination address and port.\<close>

type_synonym ingress = "int \<times> string \<times> addr \<times> int"

definition listens :: "rule \<Rightarrow> ingress \<Rightarrow> bool" where
  "listens r x \<longleftrightarrow> (case x of (family, protocol, dst, port) \<Rightarrow>
     (r_Protocol r = ProtocolBoth \<or> r_Protocol r = protocol) \<and> r_ListenPort r \<le> port \<and> port \<le> LastListenPort r
     \<and> (\<exists>host. (family, host) \<in> set (listenFamilies (r_ListenHost r)) \<and> (is_unspecified host \<or> host = dst)))"

definition captures :: "nft_spec \<Rightarrow> ingress \<Rightarrow> bool" where
  "captures s x \<longleftrightarrow> (case x of (family, protocol, dst, port) \<Rightarrow>
     Family s = family \<and> Protocol s = protocol \<and> ListenPort s \<le> port \<and> port \<le> nftLastPort s
     \<and> (is_unspecified (ListenHost s) \<or> ListenHost s = dst))"

lemma overlap_complete: "listens r x \<Longrightarrow> captures s x \<Longrightarrow> goRuleOverlapsNFT r s"
  by (force simp: listens_def captures_def goRuleOverlapsNFT_def list_ex_iff split: prod.splits)



lemma listens_key: "ruleKey r = ruleKey q \<Longrightarrow> listens r x = listens q x"
proof -
  assume e: "ruleKey r = ruleKey q"
  have "r_Protocol r = r_Protocol q" "r_ListenPort r = r_ListenPort q" "r_ListenPortEnd r = r_ListenPortEnd q"
    "r_ListenHost r = r_ListenHost q"
    using arg_cong[OF e, of r_Protocol] arg_cong[OF e, of r_ListenPort] arg_cong[OF e, of r_ListenPortEnd]
      arg_cong[OF e, of r_ListenHost] by (simp_all add: ruleKey_def)
  then show ?thesis by (simp add: listens_def LastListenPort_def)
qed

lemma captures_identity: "retirement_identity s = retirement_identity t \<Longrightarrow> captures s x = captures t x"
  by (simp add: retirement_identity_def captures_def)

section \<open>What the kernel may still forward\<close>

definition may_forward :: "backend \<Rightarrow> bool \<Rightarrow> nft_spec set" where
  "may_forward n inspectionFailed =
     set (bk_pending n) \<union> set (bk_suspended n)
     \<union> (if bk_initialized n \<or> bk_cleanVerified n then if inspectionFailed then set (bk_active n) else {} else set (bk_active n))"

lemma potential_hit:
  assumes "memory_ok n" and "fw \<in> may_forward n i"
  obtains t where "t \<in> set (potential_specs (retirementState n) i)" and "spec_ok t" and "spec_ok fw"
    and "retirement_identity t = retirement_identity fw"
proof -
  let ?st = "retirementState n"
  have ok: "specs_ok (bk_active n)" "specs_ok (bk_pending n)" "specs_ok (bk_suspended n)"
    using assms(1) by (simp_all add: memory_ok_def)
  have sel: "ret_Pending ?st = bk_pending n" "ret_Suspended ?st = bk_suspended n" "ret_Active ?st = bk_active n"
    "ret_Verified ?st = (bk_initialized n \<or> bk_cleanVerified n)" by (simp_all add: retirementState_def)
  let ?q = "uniqueNFTSpecs [bk_pending n, bk_suspended n]"
  have okq: "specs_ok ?q" using ok by (intro uniqueNFTSpecs_tuples(2)) simp
  have hit: "\<exists>t\<in>set (uniqueNFTSpecs gs). spec_ok t \<and> retirement_identity t = retirement_identity s"
    if g: "specs_ok (concat gs)" and s: "s \<in> set (concat gs)" for gs s
  proof -
    obtain t where t: "t \<in> set (uniqueNFTSpecs gs)" "nftRetirementKey t = nftRetirementKey s" using uniqueNFTSpecs_hit[OF s] by blast
    have "spec_ok t" "spec_ok s" using uniqueNFTSpecs_tuples(2)[OF g] t(1) g s by (auto simp: specs_ok_def)
    with t show ?thesis using nftRetirementKey_inject by blast
  qed
  have fw: "spec_ok fw" using assms(2) ok by (auto simp: may_forward_def specs_ok_def split: if_splits)
  have again: "\<exists>t\<in>set (uniqueNFTSpecs [?q, bk_active n]). spec_ok t \<and> retirement_identity t = retirement_identity s"
    if "s \<in> set ?q \<or> s \<in> set (bk_active n)" for s
    using hit[of "[?q, bk_active n]" s] that okq ok by simp
  have pot: "potential_specs ?st i = (if \<not> (bk_initialized n \<or> bk_cleanVerified n) \<or> i then uniqueNFTSpecs [?q, bk_active n] else ?q)"
    by (simp add: potential_specs_def Let_def sel)
  have "\<exists>t\<in>set (potential_specs ?st i). spec_ok t \<and> retirement_identity t = retirement_identity fw"
  proof (cases "fw \<in> set (bk_pending n) \<union> set (bk_suspended n)")
    case True
    then obtain q where q: "q \<in> set ?q" "spec_ok q" "retirement_identity q = retirement_identity fw"
      using hit[of "[bk_pending n, bk_suspended n]" fw] ok by auto
    with again[of q] pot show ?thesis by auto
  next
    case False
    then have "fw \<in> set (bk_active n)" "\<not> (bk_initialized n \<or> bk_cleanVerified n) \<or> i"
      using assms(2) by (auto simp: may_forward_def split: if_splits)
    with again[of fw] pot show ?thesis by auto
  qed
  with fw that show thesis by blast
qed

section \<open>The command service\<close>

text \<open>What one application of the rules leaves, for the command backend.\<close>

theorem service_apply_facts:
  assumes ok: "service_ok s" and k: "kernel_phase (command_service sx io ord) env rules c s = (p, result, s2)"
    and a: "apply_rules (command_service sx io ord) env rules c s = Some (m', v)"
  obtains blocked known errs where "manager_ok m'"
    and "\<And>k run. (k, run) \<in> set (mg_runners m') \<Longrightarrow> \<exists>path. (k, path) \<in> set (p_goRules p) \<and> ruleKey (rn_rule run) = ruleKey (g_Rule path)
           \<and> \<not> goPathBlockedByNFT (sy_kernel (command_service sx io ord)) m' (g_Rule path) result"
    and "\<And>k run path. (k, run) \<in> set (mg_runners (fst s)) \<Longrightarrow> (k, path) \<in> set (p_goRules p) \<Longrightarrow> ruleKey (rn_rule run) = ruleKey (g_Rule path)
           \<Longrightarrow> \<not> goPathBlockedByNFT (sy_kernel (command_service sx io ord)) m' (g_Rule path) result
           \<Longrightarrow> (k, renamed run (r_Name (g_Rule path))) \<in> set (mg_runners m')"
    and "\<And>x. x \<in> set (mg_desired m') \<Longrightarrow> map_of (mg_rules m') (fst x) = Some (snd x)
           \<and> (\<exists>st. mg_stats m' (fst x) = Some st
                \<and> told (sy_kernel (command_service sx io ord)) p blocked known errs (without_cleanup (sy_kernel (command_service sx io ord)) result) x m' st)"
    and "\<And>i. i \<in> fst ` set (mg_rules m') \<Longrightarrow> i \<notin> fst ` set (mg_desired m') \<Longrightarrow> i \<in> blocked \<Longrightarrow>
           \<exists>e. nr_err result = Some e \<and> mg_stats m' i = Some \<lparr>st_running = True, st_lastError = RevocationIncomplete e\<rparr>"
    and "\<And>i. i \<in> fst ` set (mg_rules m') \<Longrightarrow> i \<in> fst ` set (mg_desired m') \<or> i \<in> blocked"
    and "nr_err result = None \<Longrightarrow> blocked = {} \<and> bk_pending (mg_nft m') = []"
    and "nr_err result \<noteq> None \<Longrightarrow>
      (\<forall>t\<in>set (potential_specs (retirementState (mg_nft m')) (nr_inspectionFailed result)). \<exists>i. disclosed (mg_desired m') m' blocked t i)
      \<and> known = verified_rule p (retirementState (mg_nft m')) (nr_inspectionFailed result) blocked"
    and "nr_err result = None \<Longrightarrow> \<forall>i. \<not> known i"
    and "fst ` set (mg_desired m') = (r_ID \<circ> NormalizeRule) ` set rules"
    and "plan_shape ((r_ID \<circ> NormalizeRule) ` set rules) p"
proof -
  note result_is = that
  let ?sy = "command_service sx io ord"
  have mok: "manager_ok (fst s)" and tr: "described (mg_nft (fst s))" using ok by (simp_all add: service_ok_def)
  obtain m2 w2 where s2: "s2 = (m2, w2)" by (metis surj_pair)
  note k = k[unfolded s2]
  note kf = kernel_phase_facts[OF k mok service_sel(2)] and kt = command.kernel_phase_trusted[OF k service_sel(1,2) mok tr]
  show thesis
  proof (rule apply_facts[OF k mok service_sel(2)], goal_cases)
    case (1 blocked known errs m'' w'')
    have m'': "m'' = m'" using 1(1) a by simp
    note f = 1[unfolded m'']
    have shape: "(k, path) \<in> set (p_goRules p) \<Longrightarrow> map_of (p_goRules p) k = Some path" for k path
      using kf(3) by (simp add: plan_shape_def)
    have pb: "path_blocked (sy_kernel (command_service sx io ord)) m' p blocked (without_cleanup (sy_kernel (command_service sx io ord)) result) k
        = goPathBlockedByNFT (sy_kernel (command_service sx io ord)) m' (g_Rule path) result" if "(k, path) \<in> set (p_goRules p)" for k path
      by (cases "nr_err result") (simp_all add: path_blocked_def shape[OF that] goPathBlockedByNFT_def without_cleanup_def service_def
          beside_def command_forwarding_def)
    show ?case
    proof (rule result_is[where blocked = blocked and known = known and errs = errs], goal_cases)
      case 1
      show ?case by (rule f(2))
    next
      case (2 k run)
      with f(5) obtain path where "(k, path) \<in> set (p_goRules p)" "ruleKey (rn_rule run) = ruleKey (g_Rule path)" by blast
      with f(5)[OF 2] pb show ?case by blast
    next
      case (3 k run path)
      with f(6) pb show ?case by blast
    next
      case (4 x)
      from f(8)[OF 4] show ?case .
    next
      case (5 i)
      then show ?case by (rule f(9))
    next
      case (6 i)
      then show ?case using f(10) service_sel(3)[of sx io ord] by auto
    next
      case 7
      with f(11) kt f(3) show ?case by (simp add: retirementState_def)
    next
      case 8
      from f(12)[OF 8 service_sel(3)[of sx io ord]] show ?case by blast
    next
      case 9
      with f(13) show ?case by blast
    next
      case 10
      show ?case using kf(2) f(4) by simp
    next
      case 11
      show ?case by (rule kf(3))
    qed
  qed
qed

lemma unblocked_goes:
  assumes "\<not> goPathBlockedByNFT (sy_kernel (command_service sx io ord)) m r result" and "nr_err result \<noteq> None"
  shows "\<not> ret_Unknown (retirementState (mg_nft m))"
    and "\<forall>t\<in>set (potential_specs (retirementState (mg_nft m)) (nr_inspectionFailed result)). \<not> goRuleOverlapsNFT r t"
  using assms by (auto simp: goPathBlockedByNFT_def service_def beside_def command_forwarding_def Let_def list_ex_iff)

lemma matched_known:
  assumes "fw \<in> may_forward (mg_nft m) i" and "nftIdentityMatchesRule fw j"
  shows "snd (nftRuleState (sy_kernel (command_service sx io ord)) m j)"
proof -
  let ?st = "retirementState (mg_nft m)"
  have "fw \<in> set (ret_Pending ?st) \<or> fw \<in> set (ret_Suspended ?st) \<or> fw \<in> set (ret_Active ?st)"
    using assms(1) by (auto simp: may_forward_def retirementState_def split: if_splits)
  with assms(2) have "list_ex (\<lambda>s. nftIdentityMatchesRule s j) (ret_Pending ?st) \<or> list_ex (\<lambda>s. nftIdentityMatchesRule s j) (ret_Suspended ?st)
      \<or> list_ex (\<lambda>s. nftIdentityMatchesRule s j) (ret_Active ?st)"
    by (auto simp: list_ex_iff)
  then show ?thesis unfolding nftRuleState_def service_sel(3) by (auto simp: Let_def)
qed

lemma told_held:
  assumes "told fb p blocked known errs (without_cleanup fb result) x m st" and "fst x \<in> blocked" and "nr_err result = Some e"
    and "snd (nftRuleState fb m (fst x))"
  shows "held_message e st"
  using assms by (auto simp: told_def held_message_def without_cleanup_def split: if_splits)

lemma told_running:
  assumes "told fb p blocked known errs result x m \<lparr>st_running = True, st_lastError = NoMessage\<rparr>"
  shows "r_Enabled (snd x) \<and> p_errors p (fst x) = None \<and> (p_usesNFT p (fst x) \<or> p_usesGo p (fst x))
    \<and> (\<forall>(k, path)\<in>set (p_goRules p). g_RuleID path = fst x \<longrightarrow> k \<in> fst ` set (mg_runners m))
    \<and> (p_usesNFT p (fst x) \<and> nr_err result \<noteq> None \<longrightarrow> known (fst x))"
proof -
  let ?f = "rule_failures p result known errs (fst x) m"
  have nb: "fst x \<notin> blocked" using assms by (auto simp: told_def)
  have en: "r_Enabled (snd x)" using assms nb by (auto simp: told_def split: if_splits)
  have f: "?f = []" "p_usesNFT p (fst x) \<or> p_usesGo p (fst x)" using assms nb en by (auto simp: told_def Let_def split: if_splits)
  have "p_errors p (fst x) = None" using f(1) by (auto simp: rule_failures_def split: option.splits)
  moreover have e: "errs (fst x) = []" using f(1) by (simp add: rule_failures_def)
  moreover have "\<forall>(k, path)\<in>set (p_goRules p). g_RuleID path = fst x \<longrightarrow> k \<in> fst ` set (mg_runners m)"
    using f(1) e by (fastforce simp: rule_failures_def filter_empty_conv)
  moreover have "p_usesNFT p (fst x) \<and> nr_err result \<noteq> None \<longrightarrow> known (fst x)"
    using f(1) by (auto simp: rule_failures_def split: option.splits if_splits)
  ultimately show ?thesis using en f(2) by blast
qed

lemma apply_facts_total:
  assumes "service_ok s"
  shows "\<exists>s'. apply_rules (command_service sx io ord) env rules c s = Some s'"
proof -
  obtain p result m2 w2 where k: "kernel_phase (command_service sx io ord) env rules c s = (p, result, m2, w2)" by (metis prod_cases4)
  have "manager_ok (fst s)" using assms by (simp add: service_ok_def)
  then show ?thesis using apply_facts[OF k _ service_sel(2)] by metis
qed

end
