(* ===== verification/Manager_Sample.thy ===== *)
theory Manager_Sample
  imports Manager_Yield Config_Sample
begin

text \<open>
  A manager with one relay running, whose backend has a pending path and refuses to look at the kernel because the
  mark of the instance was changed: the instance at which the properties of the manager are applied.
\<close>

definition steady_env :: environment where
  "steady_env = \<lparr>env_lookup = (\<lambda>n host. None), env_now = (\<lambda>n. int n), env_cpus = 4\<rparr>"

definition open_sockets :: "bool socket_io" where
  "open_sockets = \<lparr>sx_tcp = (\<lambda>ep w. (Some 7, w)), sx_udp = (\<lambda>ep shared n w. (Some 7, w)), sx_worker = (\<lambda>h ipv6 w. (True, w)),
     sx_close = (\<lambda>h w. w), sx_space = (\<lambda>ipv6. 64)\<rparr>"

definition relay_rule :: rule where
  "relay_rule = sample_rule\<lparr>r_ID := ''r'', r_DataPlane := ''go'', r_ListenPort := 7000, r_ListenPortEnd := 0,
     r_TargetPort := 80, r_TargetPortEnd := 0\<rparr>"

definition relay_key :: string where
  "relay_key = ''r|forced|192.0.2.1|198.51.100.7''"

definition relay_runner :: runner where
  "relay_runner = \<lparr>rn_rule = relay_rule, rn_displayName = ''web'',
     rn_closers = [CloseTCP \<lparr>tl_socket = 1, tl_endpoint = \<lparr>le_network = ''tcp4'', le_address = ''192.0.2.1:7000''\<rparr>,
                             tl_target = ''198.51.100.7:80'', tl_backup = []\<rparr>]\<rparr>"

definition broken_backend :: backend where
  "broken_backend = (newCommandNFTBackend True)\<lparr>bk_configErr := True, bk_recovered := True, bk_pending := [plain_path]\<rparr>"

definition broken_state :: "backend manager \<times> bool \<times> (nat \<times> nat) list" where
  "broken_state = ((newManager broken_backend)\<lparr>mg_runners := [(relay_key, relay_runner)]\<rparr>, True, [(1, 7)])"

definition relay_service :: "(backend, bool \<times> (nat \<times> nat) list) system" where
  "relay_service = command_service open_sockets sample_io (\<lambda>i ks. ks)"

definition relay_plan :: "plan \<times> resolver" where
  "relay_plan = buildPlan steady_env \<lparr>ns_mark = DefaultNFTConntrackMark, ns_flowtable = True\<rparr> False [relay_rule]
     \<lparr>v_resolved = (\<lambda>_. None), v_calls = 0\<rparr>"

definition broken_result :: nft_result where
  "broken_result = \<lparr>nr_err = Some (InspectFailed ConfigChanged), nr_cleanupFailed = True, nr_inspectionFailed = True\<rparr>"

lemma relay_plan_parts:
  "p_goRules (fst relay_plan) = [(relay_key, \<lparr>g_RuleID = ''r'', g_Rule = relay_rule\<rparr>)] \<and> p_nftSpecs (fst relay_plan) = []"
  by code_simp

lemmas relay_plan_paths = relay_plan_parts [THEN conjunct1] and relay_plan_specs = relay_plan_parts [THEN conjunct2]

lemma relay_name: "r_Name relay_rule = ''web''" "r_ID (NormalizeRule relay_rule) = ''r''" "r_Enabled (NormalizeRule relay_rule)"
  by (simp_all add: NormalizeRule_def Let_def relay_rule_def sample_rule_def)

lemma relay_apart: "\<not> goRuleOverlapsNFT relay_rule plain_path"
  by code_simp

lemma broken_ok: "service_ok broken_state"
  by (simp add: service_ok_def manager_ok_def broken_state_def newManager_def described_def broken_backend_def
      newCommandNFTBackend_def runner_sockets_def relay_runner_def)

lemma broken_memory: "memory_ok broken_backend" "may_forward broken_backend i = {plain_path}"
  using path_ok(1) by (simp_all add: memory_ok_def broken_backend_def newCommandNFTBackend_def may_forward_def)

lemma broken_potential: "potential_specs (retirementState broken_backend) i = [plain_path]"
  by (simp add: potential_specs_def retirementState_def broken_backend_def newCommandNFTBackend_def plain_unique Let_def)

lemma broken_health: "Healthy io specs broken_backend w = (Inl ConfigChanged, broken_backend, w)"
  by (simp add: Healthy_def refreshMissingExecutables_def broken_backend_def newCommandNFTBackend_def)

lemma relay_phase:
  "\<exists>m2 w2. kernel_phase relay_service steady_env [relay_rule] False broken_state = (fst relay_plan, broken_result, m2, w2)
     \<and> mg_nft m2 = broken_backend"
proof -
  define m0 where "m0 = fold desire [relay_rule] ((fst broken_state)\<lparr>mg_desired := []\<rparr>)"
  note d = desire_all[where rules = "[relay_rule]" and m = "(fst broken_state)\<lparr>mg_desired := []\<rparr>", folded m0_def, simplified]
  have b: "buildPlan steady_env (mg_settings m0) False [relay_rule] (mg_resolver m0) = (fst relay_plan, snd relay_plan)"
    using d by (simp add: relay_plan_def broken_state_def newManager_def)
  define s1 where "s1 = stopChangedRunners relay_service (fst relay_plan) (m0\<lparr>mg_resolver := snd relay_plan\<rparr>, snd broken_state)"
  have d0: "distinct (map fst (mg_runners (fst (m0\<lparr>mg_resolver := snd relay_plan\<rparr>, snd broken_state))))"
    using d by (simp add: broken_state_def)
  have "same_elsewhere (m0\<lparr>mg_resolver := snd relay_plan\<rparr>) (fst s1)"
    using stopChangedRunners_runners(1)[OF service_sel(2) d0, where p = "fst relay_plan"] unfolding s1_def relay_service_def by simp
  from same_elsewhere_fields(8)[OF this] have n: "mg_nft (fst s1) = broken_backend" using d by (simp add: broken_state_def newManager_def)
  have flow: "\<not> specsUseFlowtable []" by code_simp
  have h: "fb_Healthy (sy_kernel relay_service) = Some (\<lambda>specs n (w, h). case Healthy sample_io specs n w of (q, n', w') \<Rightarrow> (q, n', w', h))"
    by (simp add: relay_service_def service_def beside_def command_forwarding_def)
  obtain w hs where s1: "snd s1 = (w, hs)" by fastforce
  have r: "reconcileNFT (sy_kernel relay_service) (fst relay_plan) s1 = (broken_result, (fst s1)\<lparr>mg_nft := broken_backend\<rparr>, snd s1)"
    using s1 n by (cases s1) (simp add: reconcileNFT_def relay_plan_specs specs_key_def flow decideNFTAction_def h broken_health
        broken_result_def Let_def)
  have "kernel_phase relay_service steady_env [relay_rule] False broken_state
      = (fst relay_plan, broken_result, (fst s1)\<lparr>mg_nft := broken_backend\<rparr>, snd s1)"
    unfolding kernel_phase_def Let_def m0_def[symmetric] b prod.case s1_def[symmetric] r by (rule refl)
  then show ?thesis by auto
qed

lemma relay_result:
  obtains m' v s2 where "apply_rules relay_service steady_env [relay_rule] False broken_state = Some (m', v)"
    and "mg_nft m' = broken_backend" and "(relay_key, relay_runner) \<in> set (mg_runners m')"
    and "kernel_phase relay_service steady_env [relay_rule] False broken_state = (fst relay_plan, broken_result, s2)"
    and "fst ` set (mg_desired m') = {''r''}"
proof -
  obtain m2 w2 where k: "kernel_phase relay_service steady_env [relay_rule] False broken_state = (fst relay_plan, broken_result, m2, w2)"
    and n: "mg_nft m2 = broken_backend" using relay_phase by blast
  have ok: "manager_ok (fst broken_state)" using broken_ok by (simp add: service_ok_def)
  have fair: "fair relay_service" unfolding relay_service_def by (rule service_sel(2))
  have desired: "fst ` set (mg_desired m2) = {''r''}" using kernel_phase_facts(2)[OF k ok fair] by (simp add: relay_name)
  have ret: "fb_retirement (sy_kernel relay_service) = Some retirementState" unfolding relay_service_def by (rule service_sel(3))
  show thesis
  proof (rule apply_facts[OF k ok fair], goal_cases)
    case (1 blocked verified errs m' w')
    have free: "\<not> path_blocked (sy_kernel relay_service) m' (fst relay_plan) blocked (without_cleanup (sy_kernel relay_service) broken_result) relay_key"
      using relay_apart 1(3) n
      by (simp add: path_blocked_def relay_plan_paths ret goPathBlockedByNFT_def without_cleanup_def broken_result_def
          broken_potential Let_def) (simp add: retirementState_def broken_backend_def newCommandNFTBackend_def)
    have "(relay_key, renamed relay_runner (r_Name relay_rule)) \<in> set (mg_runners m')"
      using 1(6)[of relay_key relay_runner "\<lparr>g_RuleID = ''r'', g_Rule = relay_rule\<rparr>"] free
      by (simp add: relay_plan_paths relay_runner_def broken_state_def)
    moreover have "renamed relay_runner (r_Name relay_rule) = relay_runner" by (simp add: renamed_def relay_name relay_runner_def)
    ultimately show ?case using that[OF 1(1) _ _ k] 1(3,4) n desired by simp
  qed
qed

end
