(* ===== verification/Props_Manager.thy ===== *)
theory Props_Manager
  imports Manager_Sample
begin

text \<open>
  The properties of the manager with the command backend: an application of the rules always ends, listeners yield to
  what the kernel may still forward, nothing the kernel may forward is hidden, a rule shown as running is served, the
  running listeners are the planned ones, and no socket is lost.
\<close>

section \<open>An application of the rules\<close>

text \<open>C23.
  Applying rules always ends with a state, never with a panic, whatever the sockets, the tools and the resolver
  answer, and the state satisfies the invariant again: distinct keys, a record for every listed rule, a backend whose
  fingerprint is of a table that was checked, and exactly the sockets of the running listeners open.\<close>

theorem apply_always_ends:
  assumes "service_ok s"
  shows "\<exists>s'. apply_rules (command_service sx io ord) env rules c s = Some s' \<and> service_ok s'"
  using apply_facts_total[OF assms] service_apply[OF assms] by blast

theorem apply_always_ends_witness:
  "\<exists>s'. apply_rules relay_service steady_env [relay_rule] False broken_state = Some s' \<and> service_ok s'"
  unfolding relay_service_def by (rule apply_always_ends[OF broken_ok])

text \<open>C9.
  Listeners yield to the kernel.  After an application of any rules, no listener of the program receives traffic that
  a pending (removed but not yet revoked) kernel path still captures; and when the kernel part failed, none receives
  what a suspended path captures, nor what an installed path captures whose state was not verified.\<close>

theorem listeners_yield:
  assumes "service_ok s" and "kernel_phase (command_service sx io ord) env rules c s = (p, result, s2)"
    and "apply_rules (command_service sx io ord) env rules c s = Some (m', v)" and "memory_ok (mg_nft m')"
    and "(k, run) \<in> set (mg_runners m')"
    and "fw \<in> set (bk_pending (mg_nft m')) \<or> nr_err result \<noteq> None \<and> fw \<in> may_forward (mg_nft m') (nr_inspectionFailed result)"
  shows "\<not> (listens (rn_rule run) x \<and> captures fw x)"
proof (rule service_apply_facts[OF assms(1-3)], goal_cases)
  case (1 blocked known errs)
  show ?case
  proof (cases "nr_err result")
    case None
    then have "fw \<in> set (bk_pending (mg_nft m'))" using assms(6) by simp
    with 1(7)[OF None] show ?thesis by simp
  next
    case (Some e)
    then have err: "nr_err result \<noteq> None" and fw: "fw \<in> may_forward (mg_nft m') (nr_inspectionFailed result)"
      using assms(6) by (auto simp: may_forward_def)
    from 1(2)[OF assms(5)] obtain path :: go_path where path: "ruleKey (rn_rule run) = ruleKey (g_Rule path)"
      "\<not> goPathBlockedByNFT (sy_kernel (command_service sx io ord)) m' (g_Rule path) result" by blast
    obtain t where t: "t \<in> set (potential_specs (retirementState (mg_nft m')) (nr_inspectionFailed result))"
      "retirement_identity t = retirement_identity fw" using potential_hit[OF assms(4) fw] by blast
    have "\<not> goRuleOverlapsNFT (g_Rule path) t" using unblocked_goes(2)[OF path(2) err] t(1) by blast
    with overlap_complete[of "g_Rule path" x t] captures_identity[OF t(2)] listens_key[OF path(1)] show ?thesis by blast
  qed
qed

theorem listeners_yield_witness:
  "\<exists>m' v. apply_rules relay_service steady_env [relay_rule] False broken_state = Some (m', v)
    \<and> (relay_key, relay_runner) \<in> set (mg_runners m') \<and> bk_pending (mg_nft m') = [plain_path]
    \<and> (\<nexists>x. listens relay_rule x \<and> captures plain_path x)"
proof -
  obtain m' v s2 where r: "apply_rules relay_service steady_env [relay_rule] False broken_state = Some (m', v)"
    "mg_nft m' = broken_backend" "(relay_key, relay_runner) \<in> set (mg_runners m')"
    "kernel_phase relay_service steady_env [relay_rule] False broken_state = (fst relay_plan, broken_result, s2)"
    by (rule relay_result)
  have pend: "bk_pending (mg_nft m') = [plain_path]" "memory_ok (mg_nft m')" "rn_rule relay_runner = relay_rule"
    using r(2) broken_memory(1) by (simp_all add: broken_backend_def relay_runner_def)
  have "\<not> (listens (rn_rule relay_runner) x \<and> captures plain_path x)" for x
    by (rule listeners_yield[OF broken_ok r(4,1)[unfolded relay_service_def] pend(2) r(3)]) (simp add: pend)
  with r pend show ?thesis by auto
qed

text \<open>C10.
  Nothing the kernel may still forward is hidden.  When the kernel part of an application failed, every pending,
  suspended or unverified installed path is shown by a listed rule - the rule it belongs to, or a tombstone for its
  identity - that is told to be running and held, with the error that happened.\<close>

theorem kernel_paths_disclosed:
  assumes "service_ok s" and "kernel_phase (command_service sx io ord) env rules c s = (p, result, s2)"
    and "apply_rules (command_service sx io ord) env rules c s = Some (m', v)" and "memory_ok (mg_nft m')"
    and "nr_err result = Some e" and "fw \<in> may_forward (mg_nft m') (nr_inspectionFailed result)"
  shows "\<exists>i st. i \<in> fst ` set (mg_rules m')
    \<and> (nftIdentityMatchesRule fw i \<or> i \<notin> fst ` set (mg_desired m') \<and> text_or_empty (mg_tombstones m' i) = nftRuleIdentity fw)
    \<and> mg_stats m' i = Some st \<and> st_running st \<and> (st_lastError st = AdmissionHeld e \<or> st_lastError st = RevocationIncomplete e)"
proof (rule service_apply_facts[OF assms(1-3)], goal_cases)
  case (1 blocked known errs)
  have err: "nr_err result \<noteq> None" using assms(5) by simp
  obtain t where t: "t \<in> set (potential_specs (retirementState (mg_nft m')) (nr_inspectionFailed result))"
    "retirement_identity t = retirement_identity fw" using potential_hit[OF assms(4,6)] by blast
  from 1(8)[OF err] t(1) obtain i where i: "disclosed (mg_desired m') m' blocked t i" by blast
  have same: "nftRuleIdentity t = nftRuleIdentity fw" using t(2) by (simp add: retirement_identity_def)
  then have matches: "nftIdentityMatchesRule t j = nftIdentityMatchesRule fw j" for j by (simp add: nftIdentityMatchesRule_def)
  note d = i[unfolded disclosed_def matches same]
  have "\<exists>st. mg_stats m' i = Some st \<and> held_message e st"
  proof (cases "i \<in> fst ` set (mg_desired m')")
    case False
    then show ?thesis using 1(5)[OF _ False] d assms(5) by (auto simp: held_message_def)
  next
    case True
    then obtain x where x: "x \<in> set (mg_desired m')" "i = fst x" by auto
    from 1(4)[OF x(1)] obtain st :: rule_stats where st: "mg_stats m' i = Some st"
      "told (sy_kernel (command_service sx io ord)) p blocked known errs (without_cleanup (sy_kernel (command_service sx io ord)) result) x m' st"
      unfolding x(2) by blast
    have "nftIdentityMatchesRule fw i" using d True by blast
    from matched_known[OF assms(6) this, of sx io ord]
    have "snd (nftRuleState (sy_kernel (command_service sx io ord)) m' (fst x))" unfolding x(2) .
    from told_held[OF st(2) _ assms(5) this] d st(1) x(2) show ?thesis by auto
  qed
  with d show ?case unfolding held_message_def by blast
qed

theorem kernel_paths_disclosed_witness:
  "\<exists>m' v i st. apply_rules relay_service steady_env [relay_rule] False broken_state = Some (m', v)
    \<and> i \<in> fst ` set (mg_rules m') \<and> mg_stats m' i = Some st \<and> st_running st
    \<and> (st_lastError st = AdmissionHeld (InspectFailed ConfigChanged) \<or> st_lastError st = RevocationIncomplete (InspectFailed ConfigChanged))"
proof -
  obtain m' v s2 where r: "apply_rules relay_service steady_env [relay_rule] False broken_state = Some (m', v)"
    "mg_nft m' = broken_backend"
    "kernel_phase relay_service steady_env [relay_rule] False broken_state = (fst relay_plan, broken_result, s2)"
    by (rule relay_result)
  have "memory_ok (mg_nft m')" "nr_err broken_result = Some (InspectFailed ConfigChanged)"
    "plain_path \<in> may_forward (mg_nft m') (nr_inspectionFailed broken_result)"
    using r(2) broken_memory by (simp_all add: broken_result_def)
  from kernel_paths_disclosed[OF broken_ok r(3,1)[unfolded relay_service_def] this] r(1) show ?thesis by blast
qed



text \<open>C24.
  The running listeners are the planned ones.  After an application every runner has its own key, which is a planned
  path with the runner's rule; when the kernel part succeeded, a runner that is planned with the same rule keeps its
  sockets under the new display name, and the listed rules are exactly the requested ones.\<close>

theorem runners_as_planned:
  assumes "service_ok s" and "kernel_phase (command_service sx io ord) env rules c s = (p, result, s2)"
    and "apply_rules (command_service sx io ord) env rules c s = Some (m', v)"
  shows "distinct (map fst (mg_runners m'))
    \<and> (\<forall>(k, run)\<in>set (mg_runners m'). \<exists>path. (k, path) \<in> set (p_goRules p) \<and> ruleKey (rn_rule run) = ruleKey (g_Rule path))
    \<and> (nr_err result = None \<longrightarrow>
         fst ` set (mg_rules m') = (r_ID \<circ> NormalizeRule) ` set rules
         \<and> (\<forall>(k, run)\<in>set (mg_runners (fst s)). \<forall>(k', path)\<in>set (p_goRules p). k' = k \<and> ruleKey (rn_rule run) = ruleKey (g_Rule path)
              \<longrightarrow> (k, run\<lparr>rn_displayName := r_Name (g_Rule path)\<rparr>) \<in> set (mg_runners m')))"
proof (rule service_apply_facts[OF assms], goal_cases)
  case (1 blocked known errs)
  have "\<not> goPathBlockedByNFT fb m' r result" if "nr_err result = None" for fb :: "(backend, 'a \<times> (nat \<times> nat) list) forwarding" and r
    using that by (simp add: goPathBlockedByNFT_def)
  with 1(3) have kept: "nr_err result = None \<Longrightarrow> (k, run) \<in> set (mg_runners (fst s)) \<Longrightarrow> (k, path) \<in> set (p_goRules p)
      \<Longrightarrow> ruleKey (rn_rule run) = ruleKey (g_Rule path) \<Longrightarrow> (k, run\<lparr>rn_displayName := r_Name (g_Rule path)\<rparr>) \<in> set (mg_runners m')" for k run path
    unfolding renamed_def by blast
  have rules: "fst ` set (mg_rules m') = fst ` set (mg_desired m')" if "nr_err result = None"
  proof
    show "fst ` set (mg_rules m') \<subseteq> fst ` set (mg_desired m')" using 1(6,7) that by blast
    show "fst ` set (mg_desired m') \<subseteq> fst ` set (mg_rules m')"
    proof
      fix i assume "i \<in> fst ` set (mg_desired m')"
      then obtain x where "x \<in> set (mg_desired m')" "i = fst x" by auto
      with 1(4) have "map_of (mg_rules m') i \<noteq> None" by auto
      then show "i \<in> fst ` set (mg_rules m')" by (simp add: map_of_eq_None_iff)
    qed
  qed
  show ?case
  proof (intro conjI impI)
    show "distinct (map fst (mg_runners m'))" by (rule manager_okD(1)[OF 1(1)])
    show "\<forall>(k, run)\<in>set (mg_runners m'). \<exists>path. (k, path) \<in> set (p_goRules p) \<and> ruleKey (rn_rule run) = ruleKey (g_Rule path)"
      using 1(2) by blast
    show "fst ` set (mg_rules m') = (r_ID \<circ> NormalizeRule) ` set rules" if "nr_err result = None"
      using rules[OF that] 1(10) by simp
    show "\<forall>(k, run)\<in>set (mg_runners (fst s)). \<forall>(k', path)\<in>set (p_goRules p). k' = k \<and> ruleKey (rn_rule run) = ruleKey (g_Rule path)
              \<longrightarrow> (k, run\<lparr>rn_displayName := r_Name (g_Rule path)\<rparr>) \<in> set (mg_runners m')" if "nr_err result = None"
      using kept[OF that] by blast
  qed
qed

theorem runners_as_planned_witness:
  "\<exists>m' v. apply_rules relay_service steady_env [relay_rule] False broken_state = Some (m', v)
    \<and> (relay_key, relay_runner) \<in> set (mg_runners m') \<and> distinct (map fst (mg_runners m'))
    \<and> (\<exists>path. (relay_key, path) \<in> set (p_goRules (fst relay_plan)))"
proof -
  obtain m' v s2 where r: "apply_rules relay_service steady_env [relay_rule] False broken_state = Some (m', v)"
    "(relay_key, relay_runner) \<in> set (mg_runners m')"
    "kernel_phase relay_service steady_env [relay_rule] False broken_state = (fst relay_plan, broken_result, s2)"
    by (rule relay_result)
  note f = runners_as_planned[OF broken_ok r(3,1)[unfolded relay_service_def]]
  from f[THEN conjunct2, THEN conjunct1] r(2) have "\<exists>path. (relay_key, path) \<in> set (p_goRules (fst relay_plan))" by blast
  with r(1,2) f[THEN conjunct1] show ?thesis by blast
qed

section \<open>Sockets\<close>

text \<open>C3.
  No socket is lost.  After any history of configurations, rules, name servers and stops, with any answers of the
  system, the open sockets of the program are exactly those of the running listeners, each owned once; and stopping
  leaves no listener and no socket.\<close>

theorem no_socket_lost:
  assumes "service_reach sx io ord s"
  shows "distinct (runner_sockets (mg_runners (fst s))) \<and> fst ` set (snd (snd s)) = set (runner_sockets (mg_runners (fst s)))
    \<and> mg_runners (fst (Stop (command_service sx io ord) s)) = [] \<and> snd (snd (Stop (command_service sx io ord) s)) = []"
proof -
  have ok: "service_ok s" by (rule service_reach_ok[OF assms])
  then have o: "nd.owns s" "distinct (map fst (mg_runners (fst s)))" by (simp_all add: nd.owns_def service_ok_def manager_ok_def)
  note st = nd.stop_owns[OF o, of sx "command_forwarding io" ord]
  have "snd (snd (Stop (command_service sx io ord) s)) = []" using st[THEN conjunct2] by (simp only: image_is_empty set_empty)
  with st[THEN conjunct1] o(1) show ?thesis unfolding nd.owns_def by blast
qed

theorem no_socket_lost_witness:
  "\<exists>s'. apply_rules relay_service steady_env [relay_rule] False (newManager sample_start, False, []) = Some s'
    \<and> fst ` set (snd (snd s')) = set (runner_sockets (mg_runners (fst s')))"
proof -
  have start: "service_reach open_sockets sample_io (\<lambda>i ks. ks) (newManager sample_start, False, [])"
    unfolding sample_start_def by (rule service_reach.start)
  obtain s' where s': "apply_rules relay_service steady_env [relay_rule] False (newManager sample_start, False, []) = Some s'"
    using apply_facts_total[OF service_reach_ok[OF start]] unfolding relay_service_def by blast
  from no_socket_lost[OF service_reach.rules[OF start s'[unfolded relay_service_def]]] s' show ?thesis by blast
qed

text \<open>C33.
  A start that fails takes everything back.  When a runner cannot be started - an address that does not parse, a port
  in use, no memory left, a worker that cannot be set up, at any endpoint - the sockets it had opened are closed again,
  the memory it had reserved is released, and it owns nothing.\<close>

theorem failed_start_takes_back:
  assumes "start_runner (numbered sx) env (newRunner rule) (b, w, hs) = (Some e, run, b', w', hs')"
  shows "b' = b \<and> fst ` set hs' = fst ` set hs \<and> rn_closers run = []"
  using num.start_failed[OF assms] num.start_runner_holds[OF assms] by simp

definition refusing_sockets :: "bool socket_io" where
  "refusing_sockets = open_sockets\<lparr>sx_udp := (\<lambda>ep shared n w. (None, w))\<rparr>"

definition both_rule :: rule where
  "both_rule = relay_rule\<lparr>r_Protocol := ''both''\<rparr>"

lemma both_refused: "fst (start_runner (numbered refusing_sockets) steady_env (newRunner both_rule) (newResourceBudget default_limits, True, [])) = Some UDPListenFailed"
  by code_simp

theorem failed_start_takes_back_witness:
  "\<exists>run b' w' hs'. start_runner (numbered refusing_sockets) steady_env (newRunner both_rule) (newResourceBudget default_limits, True, [])
     = (Some UDPListenFailed, run, b', w', hs') \<and> b' = newResourceBudget default_limits \<and> hs' = []"
proof -
  obtain e run b' w' hs' where r: "start_runner (numbered refusing_sockets) steady_env (newRunner both_rule) (newResourceBudget default_limits, True, [])
     = (e, run, b', w', hs')" by (metis prod_cases5)
  with both_refused have "e = Some UDPListenFailed" by simp
  with failed_start_takes_back[OF r[unfolded this]] r show ?thesis by auto
qed




end
