(* ===== verification/Web_Limiter.thy ===== *)
theory Web_Limiter
  imports Budget_Facts Plan_Facts
begin

text \<open>
  \<^verbatim>\<open>internal/web/security.go\<close>: the limit on failed authentications, with a token bucket for each address and one
  for all; the listener that turns disallowed peers away; and the listener that bounds the open connections.

  Times are nanoseconds since the epoch, \<open>None\<close> the zero time.  A \<^verbatim>\<open>float64\<close> is the rational it stands for, and
  every operation rounds its exact result with \<open>rnd\<close>, an argument.  The map of addresses is a list of pairs with
  distinct keys; the order in which a loop visits them is an argument too.
\<close>

section \<open>State\<close>

record token_bucket =
  tb_tokens :: rat
  tb_last :: "int option"
  tb_lastSeen :: "int option"

record limiter =
  lm_perIP :: "(addr \<times> token_bucket) list"
  lm_global :: token_bucket
  lm_perIPRate :: rat
  lm_perIPBurst :: rat
  lm_globalRate :: rat
  lm_globalBurst :: rat
  lm_maxEntries :: nat

abbreviation authLimiterMaxAddresses :: nat where "authLimiterMaxAddresses \<equiv> 4096"

abbreviation fresh_bucket :: token_bucket where
  "fresh_bucket \<equiv> \<lparr>tb_tokens = 0, tb_last = None, tb_lastSeen = None\<rparr>"

definition newAuthFailureLimiter :: "(rat \<Rightarrow> rat) \<Rightarrow> limiter" where
  "newAuthFailureLimiter rnd =
     \<lparr>lm_perIP = [], lm_global = fresh_bucket, lm_perIPRate = rnd (1 / 6), lm_perIPBurst = 10,
      lm_globalRate = 5, lm_globalBurst = 100, lm_maxEntries = authLimiterMaxAddresses\<rparr>"

section \<open>Operations\<close>

definition refillBucket :: "(rat \<Rightarrow> rat) \<Rightarrow> int \<Rightarrow> rat \<Rightarrow> rat \<Rightarrow> token_bucket \<Rightarrow> token_bucket" where
  "refillBucket rnd now rate burst b =
     (case tb_last b of
        None \<Rightarrow> b\<lparr>tb_tokens := burst, tb_last := Some now\<rparr>
      | Some t \<Rightarrow>
          let elapsed = duration_seconds rnd (duration_between now t); tokens = rnd (tb_tokens b + rnd (elapsed * rate)) in
          if 0 < elapsed then b\<lparr>tb_tokens := (if burst < tokens then burst else tokens), tb_last := Some now\<rparr> else b)"

definition time_before :: "int option \<Rightarrow> int option \<Rightarrow> bool" where
  "time_before a b =
     (case b of None \<Rightarrow> False | Some y \<Rightarrow> (case a of None \<Rightarrow> True | Some x \<Rightarrow> x < y))"

definition older :: "addr \<times> token_bucket \<Rightarrow> addr \<times> int option \<Rightarrow> addr \<times> int option" where
  "older entry oldest =
     (if snd oldest = None \<or> time_before (tb_lastSeen (snd entry)) (snd oldest)
      then (fst entry, tb_lastSeen (snd entry)) else oldest)"

definition delete_address :: "addr \<Rightarrow> limiter \<Rightarrow> limiter" where
  "delete_address ip l = l\<lparr>lm_perIP := filter (\<lambda>entry. fst entry \<noteq> ip) (lm_perIP l)\<rparr>"

definition sweep_stale :: "int \<Rightarrow> limiter \<Rightarrow> limiter" where
  "sweep_stale now l =
     l\<lparr>lm_perIP := filter (\<lambda>entry. \<not> time_before (tb_lastSeen (snd entry)) (Some (now - 15 * 60 * second))) (lm_perIP l)\<rparr>"

definition makeRoom ::
    "((addr \<times> token_bucket) list \<Rightarrow> (addr \<times> token_bucket) list) \<Rightarrow> int \<Rightarrow> limiter \<Rightarrow> limiter" where
  "makeRoom visit now l =
     (if length (lm_perIP l) < lm_maxEntries l then l
      else
        let l1 = sweep_stale now l in
        if length (lm_perIP l1) < lm_maxEntries l1 then l1
        else delete_address (fst (fold older (visit (lm_perIP l1)) (NoAddr, None))) l1)"

definition take_token :: "(rat \<Rightarrow> rat) \<Rightarrow> token_bucket \<Rightarrow> token_bucket" where
  "take_token rnd b = (if 1 \<le> tb_tokens b then b\<lparr>tb_tokens := rnd (tb_tokens b - 1)\<rparr> else b)"

text \<open>The entry of an address, with room made for it when it is new.\<close>

definition find_entry ::
    "((addr \<times> token_bucket) list \<Rightarrow> (addr \<times> token_bucket) list) \<Rightarrow> int \<Rightarrow> addr \<Rightarrow> limiter \<Rightarrow> token_bucket \<times> limiter" where
  "find_entry visit now ip l =
     (case map_of (lm_perIP l) ip of
        Some entry \<Rightarrow> (entry, l)
      | None \<Rightarrow> (fresh_bucket, makeRoom visit now l))"

definition allowFailure ::
    "(rat \<Rightarrow> rat) \<Rightarrow> ((addr \<times> token_bucket) list \<Rightarrow> (addr \<times> token_bucket) list) \<Rightarrow> int \<Rightarrow> addr \<Rightarrow> limiter \<Rightarrow> bool \<times> limiter" where
  "allowFailure rnd visit now raw l0 =
     (let ip = (if is_valid raw then unmap raw else raw);
          l = l0\<lparr>lm_global := refillBucket rnd now (lm_globalRate l0) (lm_globalBurst l0) (lm_global l0)\<rparr>;
          (found, l1) = find_entry visit now ip l;
          entry = (refillBucket rnd now (lm_perIPRate l) (lm_perIPBurst l) found)\<lparr>tb_lastSeen := Some now\<rparr>
      in (1 \<le> tb_tokens (lm_global l1) \<and> 1 \<le> tb_tokens entry,
          l1\<lparr>lm_global := take_token rnd (lm_global l1), lm_perIP := alist_set ip (take_token rnd entry) (lm_perIP l1)\<rparr>))"

definition reset :: "addr \<Rightarrow> limiter \<Rightarrow> limiter" where
  "reset ip l = (if is_valid ip then delete_address (unmap ip) l else l)"

section \<open>The invariant\<close>

definition bucket_fine :: "rat \<Rightarrow> token_bucket \<Rightarrow> bool" where
  "bucket_fine burst b \<longleftrightarrow> 0 \<le> tb_tokens b \<and> tb_tokens b \<le> burst"

definition limiter_fine :: "(rat \<Rightarrow> rat) \<Rightarrow> limiter \<Rightarrow> bool" where
  "limiter_fine rnd l \<longleftrightarrow>
     lm_perIPRate l = rnd (1 / 6) \<and> lm_perIPBurst l = 10 \<and> lm_globalRate l = 5 \<and> lm_globalBurst l = 100
     \<and> lm_maxEntries l = authLimiterMaxAddresses \<and> length (lm_perIP l) \<le> authLimiterMaxAddresses
     \<and> distinct (map fst (lm_perIP l)) \<and> bucket_fine 100 (lm_global l) \<and> (\<forall>e\<in>set (lm_perIP l). bucket_fine 10 (snd e))"

lemma refill_bucket_fine:
  assumes "rounding rnd" and "bucket_fine burst b" and "0 \<le> rate"
  shows "bucket_fine burst (refillBucket rnd now rate burst b)"
proof (cases "tb_last b")
  case None
  with assms(2) show ?thesis by (simp add: refillBucket_def bucket_fine_def)
next
  case (Some t)
  let ?e = "duration_seconds rnd (duration_between now t)"
  have "0 \<le> rnd (tb_tokens b + rnd (?e * rate))" if "0 < ?e"
    using assms that by (intro rounding_nonneg[OF assms(1)] add_nonneg_nonneg) (auto simp: bucket_fine_def intro: rounding_nonneg)
  with Some assms(2) show ?thesis by (auto simp: refillBucket_def bucket_fine_def Let_def)
qed

lemma take_token_fine:
  assumes "rounding rnd" and "bucket_fine (of_int k) b" and "\<bar>k\<bar> \<le> 2 ^ 53"
  shows "bucket_fine (of_int k) (take_token rnd b)"
  using assms rounding_le[OF assms(1), of "tb_tokens b - 1" k]
  by (auto simp: take_token_def bucket_fine_def intro: rounding_nonneg)

lemma delete_length: "ip \<in> fst ` set kvs \<Longrightarrow> length (filter (\<lambda>e. fst e \<noteq> ip) kvs) < length kvs"
  by (induction kvs) (auto intro: le_imp_less_Suc)

lemma fold_older_in:
  "fst (fold older es s) \<in> insert (fst s) (fst ` set es)" "es \<noteq> [] \<Longrightarrow> snd s = None \<Longrightarrow> fst (fold older es s) \<in> fst ` set es"
proof -
  have in_all: "fst (fold older es s) \<in> insert (fst s) (fst ` set es)" for es s
  proof (induction es arbitrary: s)
    case (Cons e es)
    have "fst (older e s) \<in> {fst s, fst e}" by (simp add: older_def)
    with Cons[of "older e s"] show ?case by auto
  qed simp
  show "fst (fold older es s) \<in> insert (fst s) (fst ` set es)" by (rule in_all)
  assume "es \<noteq> []" "snd s = None"
  then obtain x xs where "es = x # xs" "fold older es s = fold older xs (older x s)" "fst (older x s) = fst x"
    by (cases es) (auto simp: older_def)
  with in_all[of xs "older x s"] show "fst (fold older es s) \<in> fst ` set es" by auto
qed

lemma filtered_fine: "limiter_fine rnd l \<Longrightarrow> limiter_fine rnd (l\<lparr>lm_perIP := filter P (lm_perIP l)\<rparr>)"
  using order_trans[OF length_filter_le[of P "lm_perIP l"], of authLimiterMaxAddresses]
  by (simp add: limiter_fine_def distinct_map_filter)

lemma delete_address_fine: "limiter_fine rnd l \<Longrightarrow> limiter_fine rnd (delete_address ip l)"
  unfolding delete_address_def by (rule filtered_fine)

lemma makeRoom_fine:
  assumes "limiter_fine rnd l" and "\<And>es. set (visit es) = set es"
  shows "limiter_fine rnd (makeRoom visit now l) \<and> length (lm_perIP (makeRoom visit now l)) < authLimiterMaxAddresses
    \<and> set (lm_perIP (makeRoom visit now l)) \<subseteq> set (lm_perIP l)
    \<and> (\<exists>es. makeRoom visit now l = l\<lparr>lm_perIP := es\<rparr>)"
proof -
  define l1 where "l1 = sweep_stale now l"
  have f1: "limiter_fine rnd l1" "set (lm_perIP l1) \<subseteq> set (lm_perIP l)"
    unfolding l1_def sweep_stale_def by (rule filtered_fine[OF assms(1)]) auto
  consider (room) "length (lm_perIP l) < lm_maxEntries l" | (swept) "\<not> length (lm_perIP l) < lm_maxEntries l" "length (lm_perIP l1) < lm_maxEntries l1"
    | (full) "\<not> length (lm_perIP l) < lm_maxEntries l" "\<not> length (lm_perIP l1) < lm_maxEntries l1" by blast
  then show ?thesis
  proof cases
    case room
    with assms(1) have "makeRoom visit now l = l" "length (lm_perIP l) < authLimiterMaxAddresses"
      by (simp_all add: makeRoom_def limiter_fine_def)
    with assms(1) show ?thesis by (auto intro: exI[of _ "lm_perIP l"])
  next
    case swept
    then have "makeRoom visit now l = l1" by (simp add: makeRoom_def l1_def Let_def)
    with swept f1 show ?thesis by (auto simp: l1_def sweep_stale_def limiter_fine_def)
  next
    case full
    let ?ip = "fst (fold older (visit (lm_perIP l1)) (NoAddr, None))"
    have m: "makeRoom visit now l = delete_address ?ip l1" using full by (simp add: makeRoom_def l1_def[symmetric] Let_def)
    have "lm_perIP l1 \<noteq> []" using full f1(1) by (auto simp: limiter_fine_def)
    then have "visit (lm_perIP l1) \<noteq> []" using assms(2)[of "lm_perIP l1"] by (metis set_empty)
    from fold_older_in(2)[OF this, of "(NoAddr, None)"] have "?ip \<in> fst ` set (lm_perIP l1)" unfolding assms(2) by simp
    from delete_length[OF this] f1(1) have "length (lm_perIP (makeRoom visit now l)) < authLimiterMaxAddresses"
      unfolding m by (simp add: delete_address_def limiter_fine_def)
    moreover have "set (lm_perIP (makeRoom visit now l)) \<subseteq> set (lm_perIP l)" "\<exists>es. makeRoom visit now l = l\<lparr>lm_perIP := es\<rparr>"
      unfolding m using f1(2) by (auto simp: delete_address_def l1_def sweep_stale_def)
    ultimately show ?thesis using delete_address_fine[OF f1(1)] unfolding m by blast
  qed
qed

lemma find_entry_fine:
  assumes "limiter_fine rnd l" and "\<And>es. set (visit es) = set es" and "find_entry visit now ip l = (e, l1)"
  shows "limiter_fine rnd l1" and "bucket_fine 10 e" and "length (alist_set ip v (lm_perIP l1)) \<le> authLimiterMaxAddresses"
    and "lm_global l1 = lm_global l" and "\<exists>es. l1 = l\<lparr>lm_perIP := es\<rparr>"
proof -
  note m = makeRoom_fine[OF assms(1,2), of now]
  have len: "length (alist_set ip v es) \<le> Suc (length es) \<and> (ip \<in> fst ` set es \<longrightarrow> length (alist_set ip v es) = length es)" for es :: "(addr \<times> token_bucket) list"
    by (induction es) auto
  have "limiter_fine rnd l1 \<and> bucket_fine 10 e \<and> length (alist_set ip v (lm_perIP l1)) \<le> authLimiterMaxAddresses
      \<and> lm_global l1 = lm_global l \<and> (\<exists>es. l1 = l\<lparr>lm_perIP := es\<rparr>)"
  proof (cases "map_of (lm_perIP l) ip")
    case None
    then have l1: "l1 = makeRoom visit now l" "e = fresh_bucket" using assms(3) by (simp_all add: find_entry_def)
    obtain es where es: "makeRoom visit now l = l\<lparr>lm_perIP := es\<rparr>" using m by blast
    have "length es < authLimiterMaxAddresses" using m es by simp
    then have "length (alist_set ip v es) \<le> authLimiterMaxAddresses" using len[of es] by linarith
    with m l1 es show ?thesis by (auto simp: bucket_fine_def)
  next
    case (Some entry)
    then have l1: "l1 = l" "e = entry" using assms(3) by (simp_all add: find_entry_def)
    have "(ip, entry) \<in> set (lm_perIP l)" by (rule map_of_SomeD[OF Some])
    then have "ip \<in> fst ` set (lm_perIP l)" "bucket_fine 10 entry" using assms(1) by (force simp: limiter_fine_def)+
    with len[of "lm_perIP l"] assms(1) l1 show ?thesis by (auto simp: limiter_fine_def intro: exI[of _ "lm_perIP l"])
  qed
  then show "limiter_fine rnd l1" and "bucket_fine 10 e" and "length (alist_set ip v (lm_perIP l1)) \<le> authLimiterMaxAddresses"
    and "lm_global l1 = lm_global l" and "\<exists>es. l1 = l\<lparr>lm_perIP := es\<rparr>" by blast+
qed

text \<open>One failure, step by step.\<close>

lemma allowFailure_cases:
  assumes "allowFailure rnd visit now raw l0 = (ok, l')"
  obtains l found l1 entry where "l = l0\<lparr>lm_global := refillBucket rnd now (lm_globalRate l0) (lm_globalBurst l0) (lm_global l0)\<rparr>"
    "find_entry visit now (if is_valid raw then unmap raw else raw) l = (found, l1)"
    "entry = (refillBucket rnd now (lm_perIPRate l) (lm_perIPBurst l) found)\<lparr>tb_lastSeen := Some now\<rparr>"
    "ok \<longleftrightarrow> 1 \<le> tb_tokens (lm_global l1) \<and> 1 \<le> tb_tokens entry"
    "l' = l1\<lparr>lm_global := take_token rnd (lm_global l1),
       lm_perIP := alist_set (if is_valid raw then unmap raw else raw) (take_token rnd entry) (lm_perIP l1)\<rparr>"
proof -
  define l where "l = l0\<lparr>lm_global := refillBucket rnd now (lm_globalRate l0) (lm_globalBurst l0) (lm_global l0)\<rparr>"
  obtain found l1 where f: "find_entry visit now (if is_valid raw then unmap raw else raw) l = (found, l1)" by (metis surj_pair)
  show ?thesis
    using assms f by (intro that[OF l_def f refl]) (simp_all add: allowFailure_def Let_def l_def[symmetric])
qed

lemma refilled_global_fine:
  "rounding rnd \<Longrightarrow> limiter_fine rnd l0 \<Longrightarrow>
     limiter_fine rnd (l0\<lparr>lm_global := refillBucket rnd now (lm_globalRate l0) (lm_globalBurst l0) (lm_global l0)\<rparr>)"
  using refill_bucket_fine[of rnd 100 "lm_global l0" 5 now] by (simp add: limiter_fine_def)

lemma allowFailure_fine:
  assumes r: "rounding rnd" and f: "limiter_fine rnd l" and v: "\<And>es. set (visit es) = set es"
    and run: "allowFailure rnd visit now raw l = (ok, l')"
  shows "limiter_fine rnd l'"
  using run
proof (cases rule: allowFailure_cases)
  case (1 lg found l1 entry)
  have lg: "limiter_fine rnd lg" unfolding 1(1) by (rule refilled_global_fine[OF r f])
  note e = find_entry_fine[OF lg v 1(2)]
  have "bucket_fine 10 (refillBucket rnd now (lm_perIPRate lg) (lm_perIPBurst lg) found)"
    using refill_bucket_fine[OF r e(2), of "rnd (1 / 6)"] rounding_nonneg[OF r, of "1 / 6"] lg by (simp add: limiter_fine_def)
  then have "bucket_fine (of_int 10) entry" unfolding 1(3) by (simp add: bucket_fine_def)
  from take_token_fine[OF r this] have "bucket_fine 10 (take_token rnd entry)" by simp
  moreover have "bucket_fine 100 (take_token rnd (lm_global l1))"
    using take_token_fine[OF r, of 100 "lm_global l1"] e(1) by (simp add: limiter_fine_def)
  ultimately show ?thesis
    using e(1) e(3)[of "take_token rnd entry"] unfolding 1(5) limiter_fine_def by (auto simp: alist_put_distinct dest: alist_set_set[THEN subsetD])
qed

lemma reset_fine: "limiter_fine rnd l \<Longrightarrow> limiter_fine rnd (reset ip l)"
  by (simp add: reset_def delete_address_fine)

lemma new_limiter_fine: "limiter_fine rnd (newAuthFailureLimiter rnd)"
  by (simp add: limiter_fine_def newAuthFailureLimiter_def bucket_fine_def)

section \<open>How many failures are let through\<close>

text \<open>The answers to a sequence of failures, each with its time and address.\<close>

fun failures ::
    "(rat \<Rightarrow> rat) \<Rightarrow> ((addr \<times> token_bucket) list \<Rightarrow> (addr \<times> token_bucket) list) \<Rightarrow> (int \<times> addr) list \<Rightarrow> limiter \<Rightarrow> bool list" where
  "failures rnd visit [] l = []"
| "failures rnd visit ((now, ip) # as) l =
     (let (ok, l') = allowFailure rnd visit now ip l in ok # failures rnd visit as l')"

definition allowed_count :: "bool list \<Rightarrow> nat" where
  "allowed_count as = length (filter id as)"

lemma allowed_count_simps [simp]: "allowed_count [] = 0" "allowed_count (ok # as) = of_bool ok + allowed_count as"
  by (simp_all add: allowed_count_def)

text \<open>A bucket that an instant does not refill any more, with at most so many tokens.\<close>

definition settled_at :: "(rat \<Rightarrow> rat) \<Rightarrow> int \<Rightarrow> token_bucket \<Rightarrow> bool" where
  "settled_at rnd now b \<longleftrightarrow> (\<exists>t. tb_last b = Some t \<and> \<not> 0 < duration_seconds rnd (duration_between now t))"

lemma settled_refill: "settled_at rnd now b \<Longrightarrow> refillBucket rnd now rate burst b = b"
  by (auto simp: settled_at_def refillBucket_def Let_def)

lemma duration_zero: "rounding rnd \<Longrightarrow> \<not> 0 < duration_seconds rnd (duration_between now now)"
  using rounding_int[of rnd 0] by (simp add: duration_seconds_def duration_between_def)

lemma refill_settles: "rounding rnd \<Longrightarrow> settled_at rnd now (refillBucket rnd now rate burst b)"
  using duration_zero[of rnd now] by (auto simp: settled_at_def refillBucket_def Let_def split: option.splits)

lemma settled_updates [simp]:
  "settled_at rnd now (b\<lparr>tb_lastSeen := x\<rparr>) = settled_at rnd now b" "settled_at rnd now (take_token rnd b) = settled_at rnd now b"
  by (simp_all add: settled_at_def take_token_def)

lemma take_token_le:
  assumes "rounding rnd" and "tb_tokens b \<le> of_nat n" and "n \<le> 2 ^ 53"
  shows "tb_tokens (take_token rnd b) \<le> of_nat (n - of_bool (1 \<le> tb_tokens b))"
proof (cases "1 \<le> tb_tokens b")
  case True
  with assms(2) have "1 \<le> n" by (cases n) auto
  with assms rounding_le[OF assms(1), of "tb_tokens b - 1" "int n - 1"] True show ?thesis
    by (simp add: take_token_def of_nat_diff)
qed (use assms(2) in \<open>simp add: take_token_def\<close>)

lemma failures_instant:
  assumes r: "rounding rnd"
  shows "settled_at rnd now (refillBucket rnd now (lm_globalRate l) (lm_globalBurst l) (lm_global l)) \<Longrightarrow>
    tb_tokens (refillBucket rnd now (lm_globalRate l) (lm_globalBurst l) (lm_global l)) \<le> of_nat n \<Longrightarrow> n \<le> 2 ^ 53 \<Longrightarrow>
    \<forall>a\<in>set as. fst a = now \<Longrightarrow> limiter_fine rnd l \<Longrightarrow> (\<And>es. set (visit es) = set es) \<Longrightarrow>
    allowed_count (failures rnd visit as l) \<le> n"
proof (induction as arbitrary: l n)
  case (Cons a as)
  obtain ip where a: "a = (now, ip)" using Cons.prems(4) by (cases a) simp
  obtain ok l' where run: "allowFailure rnd visit now ip l = (ok, l')" by (metis surj_pair)
  let ?g = "refillBucket rnd now (lm_globalRate l) (lm_globalBurst l) (lm_global l)"
  note fine = allowFailure_fine[OF r Cons.prems(5,6) run]
  from run have "lm_global l' = take_token rnd ?g \<and> (ok \<longrightarrow> 1 \<le> tb_tokens ?g)"
  proof (cases rule: allowFailure_cases)
    case (1 lg found l1 entry)
    have "limiter_fine rnd lg" unfolding 1(1) by (rule refilled_global_fine[OF r Cons.prems(5)])
    from find_entry_fine(4)[OF this Cons.prems(6) 1(2)] 1 show ?thesis by simp
  qed
  then have g: "lm_global l' = take_token rnd ?g" "ok \<Longrightarrow> 1 \<le> tb_tokens ?g" by auto
  have settled: "settled_at rnd now (lm_global l')" using Cons.prems(1) g(1) by simp
  note same = settled_refill[OF this, of "lm_globalRate l'" "lm_globalBurst l'"]
  have "allowed_count (failures rnd visit as l') \<le> n - of_bool (1 \<le> tb_tokens ?g)"
  proof (rule Cons.IH[OF _ _ _ _ fine Cons.prems(6)], unfold same)
    show "settled_at rnd now (lm_global l')" by (rule settled)
    show "tb_tokens (lm_global l') \<le> of_nat (n - of_bool (1 \<le> tb_tokens ?g))"
      unfolding g(1) by (rule take_token_le[OF r Cons.prems(2,3)])
    show "n - of_bool (1 \<le> tb_tokens ?g) \<le> 2 ^ 53" using Cons.prems(3) by linarith
    show "\<forall>a\<in>set as. fst a = now" using Cons.prems(4) by simp
  qed
  moreover have "1 \<le> n" if "1 \<le> tb_tokens ?g" using Cons.prems(2) that by (cases n) auto
  ultimately show ?case using a run g(2) by (cases ok) auto
qed simp

theorem burst_of_all:
  assumes r: "rounding rnd" and f: "limiter_fine rnd l" and v: "\<And>es. set (visit es) = set es" and now: "\<forall>a\<in>set as. fst a = now"
  shows "allowed_count (failures rnd visit as l) \<le> 100"
proof (rule failures_instant[OF r refill_settles[OF r] _ _ now f v])
  have "bucket_fine 100 (refillBucket rnd now (lm_globalRate l) (lm_globalBurst l) (lm_global l))"
    using refill_bucket_fine[OF r, of 100 "lm_global l" 5] f by (simp add: limiter_fine_def)
  then show "tb_tokens (refillBucket rnd now (lm_globalRate l) (lm_globalBurst l) (lm_global l)) \<le> of_nat 100"
    by (simp add: bucket_fine_def)
qed simp

text \<open>
  Over a window of time, with exact arithmetic: what is left in the bucket, and what the window can still add.
\<close>

definition reserve :: "int \<Rightarrow> token_bucket \<Rightarrow> rat" where
  "reserve t1 b =
     tb_tokens b + 5 * of_int (max 0 (t1 - (case tb_last b of None \<Rightarrow> t1 | Some t \<Rightarrow> t))) / of_int second"

definition exact :: "rat \<Rightarrow> rat" where
  "exact x = x"

lemma rounding_exact: "rounding exact"
  by (simp add: rounding_def mono_def exact_def)

lemma exact_seconds: "duration_seconds exact d = of_int d / of_int second"
  by (simp add: duration_seconds_def Let_def field_simps exact_def)

lemma exact_elapsed:
  "0 < duration_seconds exact (duration_between now t) \<longleftrightarrow> t < now"
  "t < now \<Longrightarrow> duration_seconds exact (duration_between now t) \<le> of_int (now - t) / of_int second"
proof -
  show "0 < duration_seconds exact (duration_between now t) \<longleftrightarrow> t < now"
    unfolding exact_seconds duration_between_def by (auto simp: zero_less_divide_iff min_def max_def)
  show "t < now \<Longrightarrow> duration_seconds exact (duration_between now t) \<le> of_int (now - t) / of_int second"
    unfolding exact_seconds duration_between_def by (intro divide_right_mono) (simp_all only: of_int_le_iff of_int_0_le_iff, auto)
qed

lemma refill_reserve:
  assumes "tb_last b = Some t" and "now \<le> t1"
  shows "reserve t1 (refillBucket exact now 5 burst b) \<le> reserve t1 b"
proof (cases "t < now")
  case True
  let ?d = "duration_seconds exact (duration_between now t)"
  have "reserve t1 (refillBucket exact now 5 burst b) \<le> tb_tokens b + ?d * 5 + 5 * of_int (t1 - now) / of_int second"
    using assms True exact_elapsed(1)[of now t] by (simp add: refillBucket_def exact_def reserve_def Let_def max_def)
  also have "\<dots> \<le> tb_tokens b + of_int (now - t) / of_int second * 5 + 5 * of_int (t1 - now) / of_int second"
    using exact_elapsed(2)[OF True] by simp
  also have "\<dots> = reserve t1 b" using assms True by (simp add: reserve_def max_def field_simps)
  finally show ?thesis .
next
  case False
  with assms exact_elapsed(1)[of now t] show ?thesis by (simp add: refillBucket_def exact_def Let_def)
qed

lemma refill_opens:
  assumes "bucket_fine 100 b" and "t0 \<le> now" and "now \<le> t1"
  shows "reserve t1 (refillBucket exact now 5 100 b) \<le> 100 + 5 * of_int (t1 - t0) / of_int second"
    and "tb_last (refillBucket exact now 5 100 b) \<noteq> None"
proof -
  let ?b = "refillBucket exact now 5 100 b"
  obtain t where t: "tb_last ?b = Some t" "t0 \<le> t"
  proof (cases "tb_last b")
    case None
    with assms show ?thesis by (intro that[of now]) (simp_all add: refillBucket_def exact_def)
  next
    case (Some t)
    show ?thesis
    proof (cases "t < now")
      case True
      with assms Some exact_elapsed(1)[of now t] show ?thesis by (intro that[of now]) (simp_all add: refillBucket_def exact_def Let_def)
    next
      case False
      with assms Some exact_elapsed(1)[of now t] show ?thesis by (intro that[of t]) (simp_all add: refillBucket_def exact_def Let_def)
    qed
  qed
  have "tb_tokens ?b \<le> 100" using refill_bucket_fine[OF rounding_exact assms(1), of 5 now] by (simp add: bucket_fine_def)
  moreover define m where "m = max 0 (t1 - t)"
  moreover have "m \<le> t1 - t0" using t(2) assms unfolding m_def by simp
  then have "5 * of_int m / of_int second \<le> (5 * of_int (t1 - t0) / of_int second :: rat)"
    by (intro divide_right_mono mult_left_mono) (simp_all only: of_int_le_iff of_int_0_le_iff, simp_all)
  moreover have "reserve t1 ?b = tb_tokens ?b + 5 * of_int m / of_int second" using t(1) by (simp add: reserve_def m_def)
  ultimately show "reserve t1 ?b \<le> 100 + 5 * of_int (t1 - t0) / of_int second" by linarith
  show "tb_last ?b \<noteq> None" using t(1) by simp
qed

lemma failures_window:
  assumes v: "\<And>es. set (visit es) = set es"
  shows "limiter_fine exact l \<Longrightarrow> tb_last (lm_global l) \<noteq> None \<Longrightarrow> \<forall>a\<in>set as. fst a \<le> t1 \<Longrightarrow>
    of_nat (allowed_count (failures exact visit as l)) \<le> reserve t1 (lm_global l)"
proof (induction as arbitrary: l)
  case Nil
  have "0 \<le> tb_tokens (lm_global l)" using Nil.prems(1) by (simp add: limiter_fine_def bucket_fine_def)
  then show ?case by (simp add: reserve_def)
next
  case (Cons a as)
  obtain now ip where a: "a = (now, ip)" by fastforce
  obtain ok l' where run: "allowFailure exact visit now ip l = (ok, l')" by (metis surj_pair)
  let ?g = "refillBucket exact now 5 100 (lm_global l)"
  note fine = allowFailure_fine[OF rounding_exact Cons.prems(1) v run]
  obtain t where t: "tb_last (lm_global l) = Some t" using Cons.prems(2) by blast
  from run have g: "lm_global l' = take_token exact ?g \<and> (ok \<longrightarrow> 1 \<le> tb_tokens ?g)"
  proof (cases rule: allowFailure_cases)
    case (1 lg found l1 entry)
    have "limiter_fine exact lg" unfolding 1(1) by (rule refilled_global_fine[OF rounding_exact Cons.prems(1)])
    from find_entry_fine(4)[OF this v 1(2)] 1 Cons.prems(1) show ?thesis by (simp add: limiter_fine_def)
  qed
  have "tb_last ?g \<noteq> None" using t by (simp add: refillBucket_def exact_def Let_def)
  then have "of_nat (allowed_count (failures exact visit as l')) \<le> reserve t1 (lm_global l')"
    using g Cons.prems(3) by (intro Cons.IH fine) (auto simp: take_token_def)
  moreover have "reserve t1 (take_token exact ?g) = reserve t1 ?g - of_bool (1 \<le> tb_tokens ?g)"
    by (simp add: reserve_def take_token_def exact_def)
  moreover have "reserve t1 ?g \<le> reserve t1 (lm_global l)" using refill_reserve[OF t] Cons.prems(3) a by simp
  ultimately show ?case using a run g by (cases ok; cases "1 \<le> tb_tokens ?g") auto
qed

theorem window_of_all:
  assumes f: "limiter_fine exact l" and v: "\<And>es. set (visit es) = set es" and w: "\<forall>a\<in>set as. t0 \<le> fst a \<and> fst a \<le> t1" and le: "t0 \<le> t1"
  shows "of_nat (allowed_count (failures exact visit as l)) \<le> (100 + 5 * of_int (t1 - t0) / of_int second :: rat)"
proof (cases as)
  case Nil
  with le show ?thesis by simp
next
  case (Cons a rest)
  obtain now ip where a: "a = (now, ip)" by fastforce
  define l0 where "l0 = l\<lparr>lm_global := refillBucket exact now (lm_globalRate l) (lm_globalBurst l) (lm_global l)\<rparr>"
  have params: "lm_globalRate l = 5" "lm_globalBurst l = 100" "bucket_fine 100 (lm_global l)" using f by (simp_all add: limiter_fine_def)
  have "allowFailure exact visit now ip l0 = allowFailure exact visit now ip l"
    using settled_refill[OF refill_settles[OF rounding_exact, of now "lm_globalRate l" "lm_globalBurst l" "lm_global l"]]
    by (simp add: allowFailure_def l0_def Let_def)
  then have "failures exact visit as l = failures exact visit as l0" unfolding Cons a by simp
  moreover have "limiter_fine exact l0" unfolding l0_def by (rule refilled_global_fine[OF rounding_exact f])
  moreover note o = refill_opens[OF params(3), of t0 now t1]
  ultimately have "of_nat (allowed_count (failures exact visit as l)) \<le> reserve t1 (lm_global l0)"
    using failures_window[OF v, of l0 as t1] w Cons a o(2) unfolding l0_def params by simp
  also have "\<dots> \<le> 100 + 5 * of_int (t1 - t0) / of_int second" using o(1) w Cons a unfolding l0_def params by simp
  finally show ?thesis .
qed

end
