(* ===== verification/Web_Listener.thy ===== *)
theory Web_Listener
  imports ACL Web_Limiter
begin

text \<open>
  The listeners of the management interface, \<^verbatim>\<open>internal/web/security.go\<close>: \<^verbatim>\<open>aclListener\<close> closes a peer that is not
  allowed before a byte of it is read, \<^verbatim>\<open>connectionLimitListener\<close> bounds the connections that are open.
\<close>

section \<open>Peers\<close>

definition remoteIP :: "string \<Rightarrow> addr option" where
  "remoteIP raw =
     (case SplitHostPort raw of
        None \<Rightarrow> None
      | Some (host, port) \<Rightarrow> parse_addr (case split_last (CHR ''%'') host of None \<Rightarrow> host | Some (front, rest) \<Rightarrow> front))"

definition peer_allowed :: "snapshot option \<Rightarrow> string \<Rightarrow> bool" where
  "peer_allowed acl raw = (case remoteIP raw of None \<Rightarrow> False | Some ip \<Rightarrow> Allowed acl ip)"

definition denied_name :: "string \<Rightarrow> string" where
  "denied_name raw = (case remoteIP raw of None \<Rightarrow> ''invalid'' | Some ip \<Rightarrow> addr_string (unmap ip))"

text \<open>The log of denied peers: one line a minute, the others counted; the loop around \<^verbatim>\<open>CompareAndSwap\<close> is one step.\<close>

record deny_log =
  dl_last :: int
  dl_suppressed :: "64 word"

definition logACLDenied :: "int \<Rightarrow> string \<Rightarrow> deny_log \<Rightarrow> (string \<times> 64 word) option \<times> deny_log" where
  "logACLDenied now remote l =
     (if dl_last l \<noteq> 0 \<and> now - dl_last l < 60 then (None, l\<lparr>dl_suppressed := dl_suppressed l + 1\<rparr>)
      else (Some (remote, dl_suppressed l), \<lparr>dl_last = now, dl_suppressed = 0\<rparr>))"

text \<open>
  \<^verbatim>\<open>aclListener.Accept\<close> over what the inner listener yields: peers with their connection, or a failure.  The result is
  none while it waits for another peer; the connections it closed come with it, and what the inner listener has left.
\<close>

fun acl_accept ::
    "snapshot option \<Rightarrow> (string \<times> nat) option list \<Rightarrow> nat option option \<times> (nat \<times> string) list \<times> (string \<times> nat) option list" where
  "acl_accept acl [] = (None, [], [])"
| "acl_accept acl (None # rest) = (Some None, [], rest)"
| "acl_accept acl (Some (raw, c) # rest) =
     (if peer_allowed acl raw then (Some (Some c), [], rest)
      else let (r, turned, left) = acl_accept acl rest in (r, (c, denied_name raw) # turned, left))"

text \<open>Nobody gets past it who is not allowed, and whoever is turned away is closed.\<close>

lemma acl_accept_allowed:
  "acl_accept acl peers = (Some (Some c), turned, left) \<Longrightarrow> \<exists>raw. Some (raw, c) \<in> set peers \<and> peer_allowed acl raw"
  by (induction acl peers arbitrary: turned left rule: acl_accept.induct) (auto split: if_splits prod.splits)

lemma acl_accept_turned:
  "acl_accept acl peers = (r, turned, left) \<Longrightarrow>
     \<exists>front. peers = front @ left \<and> map fst turned = [c. Some (raw, c) \<leftarrow> front, \<not> peer_allowed acl raw]"
proof (induction acl peers arbitrary: r turned left rule: acl_accept.induct)
  case (2 acl rest)
  then show ?case by (intro exI[of _ "[None]"]) simp
next
  case (3 acl raw c rest)
  obtain r1 turned1 left1 where r1: "acl_accept acl rest = (r1, turned1, left1)" by (metis prod_cases3)
  show ?case
  proof (cases "peer_allowed acl raw")
    case True
    with 3 show ?thesis by (intro exI[of _ "[Some (raw, c)]"]) simp
  next
    case False
    with "3.IH"[OF False r1] obtain front where
      "rest = front @ left1" "map fst turned1 = [c. Some (raw, c) \<leftarrow> front, \<not> peer_allowed acl raw]" by blast
    with "3.prems" r1 False show ?thesis by (intro exI[of _ "Some (raw, c) # front"]) auto
  qed
qed simp

section \<open>The limit on connections\<close>

text \<open>
  The channel holds a token for every \<^verbatim>\<open>Accept\<close> under way and every connection that is not closed.  A send blocks when
  it is full and a receive when it is empty: \<open>None\<close>.
\<close>

record limit_listener =
  ll_limit :: nat
  ll_sem :: nat
  ll_done :: bool
  ll_accepting :: nat
  ll_open :: "nat list"

abbreviation maxManagementConnections :: nat where "maxManagementConnections \<equiv> 256"

definition newConnectionLimitListener :: "nat \<Rightarrow> limit_listener option" where
  "newConnectionLimitListener limit =
     (if limit < 1 then None else Some \<lparr>ll_limit = limit, ll_sem = 0, ll_done = False, ll_accepting = 0, ll_open = []\<rparr>)"

definition acquire :: "limit_listener \<Rightarrow> limit_listener option" where
  "acquire l = (if ll_sem l < ll_limit l then Some (l\<lparr>ll_sem := ll_sem l + 1, ll_accepting := ll_accepting l + 1\<rparr>) else None)"

definition release :: "limit_listener \<Rightarrow> limit_listener option" where
  "release l = (if 0 < ll_sem l then Some (l\<lparr>ll_sem := ll_sem l - 1\<rparr>) else None)"

text \<open>The inner listener answers an \<^verbatim>\<open>Accept\<close> with a connection or an error.\<close>

definition accepted :: "nat option \<Rightarrow> limit_listener \<Rightarrow> limit_listener option" where
  "accepted answer l =
     (let l1 = l\<lparr>ll_accepting := ll_accepting l - 1\<rparr> in
      case answer of None \<Rightarrow> release l1 | Some c \<Rightarrow> Some (l1\<lparr>ll_open := c # ll_open l1\<rparr>))"

text \<open>Closing a connection releases once, however often it is closed.\<close>

definition close_conn :: "nat \<Rightarrow> limit_listener \<Rightarrow> limit_listener option" where
  "close_conn c l = (if c \<in> set (ll_open l) then release (l\<lparr>ll_open := remove1 c (ll_open l)\<rparr>) else Some l)"

definition close_listener :: "limit_listener \<Rightarrow> limit_listener" where
  "close_listener l = l\<lparr>ll_done := True\<rparr>"

text \<open>
  The listener in the hands of the server: any number of \<^verbatim>\<open>Accept\<close>s under way, connections closed at any time and any
  number of times.  An \<^verbatim>\<open>Accept\<close> that finds both branches of its \<^verbatim>\<open>select\<close> ready takes either.
\<close>

inductive listener_reach :: "nat \<Rightarrow> limit_listener \<Rightarrow> bool" for limit where
  start: "newConnectionLimitListener limit = Some l \<Longrightarrow> listener_reach limit l"
| enter: "listener_reach limit l \<Longrightarrow> acquire l = Some l' \<Longrightarrow> listener_reach limit l'"
| answer: "listener_reach limit l \<Longrightarrow> 0 < ll_accepting l \<Longrightarrow> c \<notin> set (ll_open l) \<Longrightarrow> accepted (Some c) l = Some l' \<Longrightarrow> listener_reach limit l'"
| failure: "listener_reach limit l \<Longrightarrow> 0 < ll_accepting l \<Longrightarrow> accepted None l = Some l' \<Longrightarrow> listener_reach limit l'"
| conn: "listener_reach limit l \<Longrightarrow> close_conn c l = Some l' \<Longrightarrow> listener_reach limit l'"
| shut: "listener_reach limit l \<Longrightarrow> listener_reach limit (close_listener l)"

lemma listener_invariant:
  "listener_reach limit l \<Longrightarrow>
     ll_limit l = limit \<and> 1 \<le> limit \<and> ll_sem l = ll_accepting l + length (ll_open l) \<and> ll_sem l \<le> limit \<and> distinct (ll_open l)"
proof (induction rule: listener_reach.induct)
  case (conn l c l')
  show ?case
  proof (cases "c \<in> set (ll_open l)")
    case True
    then obtain n where "length (ll_open l) = Suc n" by (cases "ll_open l") auto
    with conn True show ?thesis by (auto simp: close_conn_def release_def length_remove1 split: if_splits)
  qed (use conn in \<open>simp add: close_conn_def\<close>)
qed (auto simp: newConnectionLimitListener_def acquire_def accepted_def release_def close_listener_def split: if_splits)

text \<open>A token is always there to take back, and one is free when nothing is open.\<close>

theorem listener_never_stuck:
  assumes "listener_reach limit l"
  shows "close_conn c l \<noteq> None" and "0 < ll_accepting l \<Longrightarrow> accepted answer l \<noteq> None"
    and "ll_accepting l + length (ll_open l) < limit \<longleftrightarrow> acquire l \<noteq> None"
  using listener_invariant[OF assms]
  by (auto simp: close_conn_def release_def accepted_def acquire_def Let_def split: option.splits)

end
