(* ===== verification/Web_Request.thy ===== *)
theory Web_Request
  imports Web_Listener Config_Store
begin

text \<open>
  Requests and replies of the management interface, \<^verbatim>\<open>internal/web/server.go\<close>: the bearer token, the check of the
  origin, the decoding of a JSON body, the revision a client asks for, the routes, and the TLS material.

  The parsers of the standard library that the code only calls are arguments: a JSON value at the head of the body,
  the media type of a header, a URL, and the comparison of hosts under Unicode case folding.
\<close>

unbundle bit_operations_syntax

section \<open>Requests\<close>

text \<open>The path is the escaped path of the URL.\<close>

record request =
  q_Method :: string
  q_Path :: string
  q_RemoteAddr :: string
  q_TLS :: bool
  q_Host :: string
  q_Header :: "string \<Rightarrow> string list"
  q_Body :: string

definition header_get :: "request \<Rightarrow> string \<Rightarrow> string" where
  "header_get q name = (case q_Header q name of [] \<Rightarrow> [] | v # vs \<Rightarrow> v)"

text \<open>\<^verbatim>\<open>strings.Fields\<close>: the runs of bytes between white space.\<close>

fun take_field :: "string \<Rightarrow> string \<times> string" where
  "take_field [] = ([], [])"
| "take_field (c # cs) =
     (if starts_with_seq space_seqs (c # cs) then ([], c # cs)
      else let (field, rest) = take_field cs in (c # field, rest))"

lemma take_field_length: "length (snd (take_field s)) \<le> length s"
  by (induction s) (auto split: prod.splits)

lemma take_field_shorter:
  assumes "\<not> starts_with_seq space_seqs s" and "s \<noteq> []"
  shows "length (snd (take_field s)) < length s"
proof -
  obtain c cs where s: "s = c # cs" using assms(2) by (cases s) auto
  then show ?thesis using assms(1) take_field_length[of cs] by (auto split: prod.splits)
qed

lemma trim_left_length: "length (trim_left s) \<le> length s"
  using trim_seqs_suffix[of s space_seqs] unfolding trim_left_def by (metis length_append le_add2)

function Fields :: "string \<Rightarrow> string list" where
  "Fields s =
     (let t = trim_left s in
      if t = [] then [] else let (field, rest) = take_field t in field # Fields rest)"
  by pat_completeness auto
termination
proof (relation "measure length")
  fix s t fr field rest
  assume t: "t = trim_left s" "t \<noteq> []" "fr = take_field t" "(field, rest) = fr"
  have "\<not> starts_with_seq space_seqs t" unfolding t(1) trim_left_def by (rule trim_seqs_done)
  from take_field_shorter[OF this t(2)] trim_left_length[of s] t show "(rest, s) \<in> measure length"
    by (metis in_measure less_le_trans snd_conv)
qed simp

declare Fields.simps [simp del]

section \<open>Tokens\<close>

definition bearerToken :: "string list \<Rightarrow> string option" where
  "bearerToken values =
     (case values of
        [v] \<Rightarrow>
          (case Fields v of
             [scheme, token] \<Rightarrow> if to_lower scheme = to_lower ''Bearer'' \<and> length token = 64 then Some token else None
           | _ \<Rightarrow> None)
      | _ \<Rightarrow> None)"

definition tokenMatchesHash :: "string \<Rightarrow> string \<Rightarrow> bool" where
  "tokenMatchesHash token hash \<longleftrightarrow>
     length token = 64 \<and> (case hex_decode hash of None \<Rightarrow> False | Some expected \<Rightarrow> length expected = 32 \<and> sha256 token = expected)"

definition TokenHashes :: "store \<Rightarrow> string \<times> string" where
  "TokenHashes s = (w_AdminTokenSHA (c_Web (s_cfg s)), w_MonitorTokenSHA (c_Web (s_cfg s)))"

definition authorised :: "store \<Rightarrow> bool \<Rightarrow> request \<Rightarrow> bool" where
  "authorised s allowMonitor q =
     (let (admin, monitor) = TokenHashes s in
      case bearerToken (q_Header q ''Authorization'') of
        None \<Rightarrow> False
      | Some token \<Rightarrow> tokenMatchesHash token admin \<or> allowMonitor \<and> tokenMatchesHash token monitor)"

section \<open>The origin of a request\<close>

record url =
  u_Scheme :: string
  u_Opaque :: string
  u_HasUser :: bool
  u_Host :: string
  u_Path :: string
  u_RawQuery :: string
  u_Fragment :: string

definition site_allowed :: "string list \<Rightarrow> bool" where
  "site_allowed sites =
     (case sites of [] \<Rightarrow> True | [site] \<Rightarrow> site \<in> {[], ''same-origin'', ''none''} | _ \<Rightarrow> False)"

definition origin_allowed :: "(string \<Rightarrow> url option) \<Rightarrow> (string \<Rightarrow> string \<Rightarrow> bool) \<Rightarrow> request \<Rightarrow> bool" where
  "origin_allowed parse fold_eq q =
     (case q_Header q ''Origin'' of
        [] \<Rightarrow> True
      | [origin] \<Rightarrow>
          origin = [] \<or>
          (case parse origin of
             None \<Rightarrow> False
           | Some u \<Rightarrow>
               u_Scheme u = (if q_TLS q then ''https'' else ''http'') \<and> \<not> u_HasUser u \<and> u_Opaque u = [] \<and> u_Path u = []
               \<and> u_RawQuery u = [] \<and> u_Fragment u = [] \<and> fold_eq (u_Host u) (q_Host q))
      | _ \<Rightarrow> False)"

definition same_origin :: "(string \<Rightarrow> url option) \<Rightarrow> (string \<Rightarrow> string \<Rightarrow> bool) \<Rightarrow> request \<Rightarrow> bool" where
  "same_origin parse fold_eq q \<longleftrightarrow> site_allowed (q_Header q ''Sec-Fetch-Site'') \<and> origin_allowed parse fold_eq q"

section \<open>Bodies\<close>

text \<open>
  What a decoder finds at the head of some bytes, given whether more may follow: a value with the bytes after it, a
  text that is no value of the type, or one that is not complete.
\<close>

datatype 'a decoded = Decoded 'a string | Malformed | Incomplete

datatype decode_error = ContentTypeWrong | BodyTooLarge | BodyMalformed | BodyNotOneObject

abbreviation maxJSONBodyBytes :: nat where "maxJSONBodyBytes \<equiv> 1048576"

definition json_blank :: "string \<Rightarrow> bool" where
  "json_blank s \<longleftrightarrow> list_all (\<lambda>c. c \<in> {CHR 0x20, CHR 0x09, CHR 0x0A, CHR 0x0D}) s"

text \<open>The second \<^verbatim>\<open>Decode\<close>, into an empty struct, has to find the end of the body.\<close>

definition decode_end :: "(bool \<Rightarrow> string \<Rightarrow> unit decoded) \<Rightarrow> bool \<Rightarrow> string \<Rightarrow> decode_error option" where
  "decode_end ending over rest =
     (if json_blank rest then (if over then Some BodyTooLarge else None)
      else
        (case ending over rest of
           Incomplete \<Rightarrow> if over then Some BodyTooLarge else Some BodyNotOneObject
         | _ \<Rightarrow> Some BodyNotOneObject))"

definition decodeJSON ::
    "(string \<Rightarrow> string option) \<Rightarrow> (bool \<Rightarrow> string \<Rightarrow> unit decoded) \<Rightarrow> (bool \<Rightarrow> string \<Rightarrow> 'a decoded) \<Rightarrow> request
     \<Rightarrow> decode_error + 'a" where
  "decodeJSON media ending decoder q =
     (if media (header_get q ''Content-Type'') \<noteq> Some ''application/json'' then Inl ContentTypeWrong
      else
        let over = maxJSONBodyBytes < length (q_Body q) in
        case decoder over (take maxJSONBodyBytes (q_Body q)) of
          Malformed \<Rightarrow> Inl BodyMalformed
        | Incomplete \<Rightarrow> if over then Inl BodyTooLarge else Inl BodyMalformed
        | Decoded v rest \<Rightarrow> (case decode_end ending over rest of None \<Rightarrow> Inr v | Some e \<Rightarrow> Inl e))"

lemma decodeJSON_bounded:
  assumes "decodeJSON media ending decoder q = Inr v"
  shows "length (q_Body q) \<le> maxJSONBodyBytes" and "media (header_get q ''Content-Type'') = Some ''application/json''"
  using assms by (auto simp: decodeJSON_def decode_end_def Let_def split: if_splits decoded.splits option.splits)

section \<open>Revisions\<close>

definition revision_text :: "string \<Rightarrow> bool" where
  "revision_text s \<longleftrightarrow> length s = 64 \<and> list_all (\<lambda>c. c \<in> set ''0123456789abcdef'') s"

text \<open>The revision in quotes that \<^verbatim>\<open>If-Match\<close> has to be; no header asks for none.\<close>

definition requestedRevision :: "request \<Rightarrow> string option" where
  "requestedRevision q =
     (case q_Header q ''If-Match'' of
        [] \<Rightarrow> Some []
      | [v] \<Rightarrow>
          (if 2 \<le> length v \<and> hd v = CHR 0x22 \<and> last v = CHR 0x22 \<and> revision_text (butlast (tl v))
           then Some (butlast (tl v)) else None)
      | _ \<Rightarrow> None)"

definition prefixStringsContain :: "string list \<Rightarrow> addr \<Rightarrow> bool" where
  "prefixStringsContain prefixes a =
     list_ex (\<lambda>raw. case parse_prefix raw of None \<Rightarrow> False | Some p \<Rightarrow> prefix_contains p (unmap a)) prefixes"

definition prefixesToStrings :: "prefix list \<Rightarrow> string list" where
  "prefixesToStrings ps = map prefix_string ps"

section \<open>Routes\<close>

datatype endpoint =
    Index
  | Static string
  | Bootstrap
  | Status
  | Diagnostics
  | LatestOperation
  | Operation string
  | Metrics
  | GetConfig
  | PutSettings
  | RotateToken
  | RotateMonitor
  | RevokeMonitor
  | ReloadTLS
  | CreateRule
  | ValidateRules
  | PreviewRules
  | ExportTemplate
  | ReplaceRules
  | UpdateRule string
  | DeleteRule string

datatype target = Endpoint endpoint | Redirect | MethodNotAllowed

text \<open>The segments of a clean path; a path with an empty segment, \<^verbatim>\<open>.\<close> or \<^verbatim>\<open>..\<close> is redirected to its clean form.\<close>

definition path_segments :: "string \<Rightarrow> string list option" where
  "path_segments path =
     (case path of
        [] \<Rightarrow> None
      | c # rest \<Rightarrow>
          let segs = split_on (CHR ''/'') rest in
          if c \<noteq> CHR ''/'' \<or> list_ex (\<lambda>s. s \<in> {[], ''.'', ''..''}) (butlast segs) \<or> last segs \<in> {''.'', ''..''} then None
          else Some segs)"

text \<open>\<^verbatim>\<open>PathValue\<close> is the segment without its escapes, or as it is when they are broken.\<close>

fun path_unescape :: "string \<Rightarrow> string option" where
  "path_unescape [] = Some []"
| "path_unescape (c # cs) =
     (if c = CHR ''%'' then
        (case cs of
           a # b # rest \<Rightarrow>
             if is_hex a \<and> is_hex b then map_option (\<lambda>s. char_of (hex_val a * 16 + hex_val b) # s) (path_unescape rest) else None
         | _ \<Rightarrow> None)
      else map_option (\<lambda>s. c # s) (path_unescape cs))"

definition path_value :: "string \<Rightarrow> string" where
  "path_value seg = (case path_unescape seg of None \<Rightarrow> seg | Some s \<Rightarrow> s)"

definition static_files :: "(string \<times> string list) list" where
  "static_files =
     map (\<lambda>f. (f, split_on (CHR ''/'') f))
       [''static/app.js'', ''static/i18n.js'', ''static/vendor/tabler.min.js'', ''static/vendor/tabler.min.css'',
        ''static/tabler-icons.svg'', ''static/style.css'', ''static/security.css'']"

definition get_route :: "string list \<Rightarrow> endpoint" where
  "get_route segs =
     (case find (\<lambda>f. snd f = segs) static_files of
        Some f \<Rightarrow> Static (fst f)
      | None \<Rightarrow>
          if segs = [''api'', ''bootstrap''] then Bootstrap
          else if segs = [''api'', ''status''] then Status
          else if segs = [''api'', ''diagnostics''] then Diagnostics
          else if segs = [''api'', ''operations'', ''latest''] then LatestOperation
          else if segs = [''metrics''] then Metrics
          else if segs = [''api'', ''config''] then GetConfig
          else if segs = [''api'', ''rules'', ''template''] then ExportTemplate
          else
            (case segs of
               [a, b, ident] \<Rightarrow> if a = ''api'' \<and> b = ''operations'' \<and> ident \<noteq> [] then Operation (path_value ident) else Index
             | _ \<Rightarrow> Index))"

definition put_route :: "string list \<Rightarrow> endpoint option" where
  "put_route segs =
     (if segs = [''api'', ''settings''] then Some PutSettings
      else if segs = [''api'', ''rules''] then Some ReplaceRules
      else
        (case segs of
           [a, b, ident] \<Rightarrow> if a = ''api'' \<and> b = ''rules'' \<and> ident \<noteq> [] then Some (UpdateRule (path_value ident)) else None
         | _ \<Rightarrow> None))"

definition post_route :: "string list \<Rightarrow> endpoint option" where
  "post_route segs =
     (if segs = [''api'', ''token'', ''rotate''] then Some RotateToken
      else if segs = [''api'', ''monitor-token'', ''rotate''] then Some RotateMonitor
      else if segs = [''api'', ''tls'', ''reload''] then Some ReloadTLS
      else if segs = [''api'', ''rules''] then Some CreateRule
      else if segs = [''api'', ''rules'', ''validate''] then Some ValidateRules
      else if segs = [''api'', ''rules'', ''preview''] then Some PreviewRules
      else None)"

definition delete_route :: "string list \<Rightarrow> endpoint option" where
  "delete_route segs =
     (if segs = [''api'', ''monitor-token''] then Some RevokeMonitor
      else
        (case segs of
           [a, b, ident] \<Rightarrow> if a = ''api'' \<and> b = ''rules'' \<and> ident \<noteq> [] then Some (DeleteRule (path_value ident)) else None
         | _ \<Rightarrow> None))"

text \<open>A \<^verbatim>\<open>GET\<close> pattern also serves \<^verbatim>\<open>HEAD\<close>; every path has one, so no other method finds nothing at all.\<close>

definition route :: "string \<Rightarrow> string \<Rightarrow> target" where
  "route meth path =
     (case path_segments path of
        None \<Rightarrow> Redirect
      | Some segs \<Rightarrow>
          let found = (\<lambda>e. case e of None \<Rightarrow> MethodNotAllowed | Some x \<Rightarrow> Endpoint x) in
          if meth = ''GET'' \<or> meth = ''HEAD'' then Endpoint (get_route segs)
          else if meth = ''PUT'' then found (put_route segs)
          else if meth = ''POST'' then found (post_route segs)
          else if meth = ''DELETE'' then found (delete_route segs)
          else MethodNotAllowed)"

text \<open>What guards an endpoint.\<close>

datatype guarding = Public | ReadAuth | AdminAuth | AdminChange

fun protection :: "endpoint \<Rightarrow> guarding" where
  "protection Index = Public"
| "protection (Static f) = Public"
| "protection Bootstrap = AdminAuth"
| "protection Status = ReadAuth"
| "protection Diagnostics = ReadAuth"
| "protection LatestOperation = ReadAuth"
| "protection (Operation ident) = ReadAuth"
| "protection Metrics = ReadAuth"
| "protection GetConfig = AdminAuth"
| "protection ExportTemplate = AdminAuth"
| "protection _ = AdminChange"

section \<open>TLS\<close>

text \<open>A certificate as the code looks at it; the file system and the loading of a pair are arguments.\<close>

record certificate =
  ce_Raw :: string
  ce_SelfSigned :: bool
  ce_NotBefore :: int
  ce_NotAfter :: int

record file_info =
  fi_Regular :: bool
  fi_Perm :: nat
  fi_Uid :: "int option"

record tls_io =
  ti_Lstat :: "string \<Rightarrow> file_info option"
  ti_Load :: "string \<Rightarrow> string \<Rightarrow> certificate option"
  ti_KeyFirst :: bool
  ti_Windows :: bool
  ti_Euid :: int
  ti_ServiceUid :: "int option"

datatype tls_error =
    TLSRequired
  | TLSInspect string
  | TLSNotRegular string
  | TLSKeyInspect
  | TLSKeyPermissions
  | TLSKeyOwner
  | TLSLoad
  | TLSExpired

record tls_config =
  tc_MinVersion :: string
  tc_Certificate :: certificate

record certificate_status =
  cs_Enabled :: bool
  cs_SelfSigned :: bool
  cs_SHA256 :: string
  cs_NotAfter :: int

abbreviation no_certificate :: certificate_status where
  "no_certificate \<equiv> \<lparr>cs_Enabled = False, cs_SelfSigned = False, cs_SHA256 = [], cs_NotAfter = 0\<rparr>"

definition inspect_material :: "tls_io \<Rightarrow> string \<times> string \<Rightarrow> tls_error option" where
  "inspect_material io entry =
     (case ti_Lstat io (snd entry) of
        None \<Rightarrow> Some (TLSInspect (fst entry))
      | Some info \<Rightarrow> if fi_Regular info then None else Some (TLSNotRegular (fst entry)))"

text \<open>The two files are visited in either order: the code ranges over a map.\<close>

definition tls_files :: "tls_io \<Rightarrow> web_config \<Rightarrow> (string \<times> string) list" where
  "tls_files io web =
     (let cert = (''certificate'', w_TLSCertFile web); key = (''private key'', w_TLSKeyFile web) in
      if ti_KeyFirst io then [key, cert] else [cert, key])"

definition validateTLSKeyOwner :: "tls_io \<Rightarrow> file_info \<Rightarrow> bool" where
  "validateTLSKeyOwner io info =
     (case fi_Uid info of
        None \<Rightarrow> False
      | Some uid \<Rightarrow> uid = 0 \<or> uid = ti_Euid io \<or> ti_Euid io = 0 \<and> ti_ServiceUid io = Some uid)"

definition inspect_key :: "tls_io \<Rightarrow> string \<Rightarrow> tls_error option" where
  "inspect_key io path =
     (if ti_Windows io then None
      else
        case ti_Lstat io path of
          None \<Rightarrow> Some TLSKeyInspect
        | Some info \<Rightarrow>
            if fi_Perm info AND 0x5F \<noteq> 0 then Some TLSKeyPermissions
            else if \<not> validateTLSKeyOwner io info then Some TLSKeyOwner else None)"

definition managementTLSConfig :: "tls_io \<Rightarrow> web_config \<Rightarrow> tls_error + tls_config option" where
  "managementTLSConfig io web =
     (if w_TLSCertFile web = [] \<and> w_TLSKeyFile web = [] then
        (if w_RequireHTTPS web then Inl TLSRequired else Inr None)
      else
        case try_err (first_err (inspect_material io) (tls_files io web)) (inspect_key io (w_TLSKeyFile web)) of
          Some e \<Rightarrow> Inl e
        | None \<Rightarrow>
            (case ti_Load io (w_TLSCertFile web) (w_TLSKeyFile web) of
               None \<Rightarrow> Inl TLSLoad
             | Some certificate \<Rightarrow>
                 Inr (Some \<lparr>tc_MinVersion = (if w_TLSMinVersion web = ''1.3'' then ''1.3'' else ''1.2''),
                            tc_Certificate = certificate\<rparr>)))"

definition certificateStatus :: "tls_config option \<Rightarrow> certificate_status" where
  "certificateStatus cfg =
     (case cfg of
        None \<Rightarrow> no_certificate
      | Some c \<Rightarrow>
          \<lparr>cs_Enabled = True, cs_SelfSigned = ce_SelfSigned (tc_Certificate c),
           cs_SHA256 = sha256_hex (ce_Raw (tc_Certificate c)), cs_NotAfter = ce_NotAfter (tc_Certificate c)\<rparr>)"

definition validateLoadedTLS :: "int \<Rightarrow> tls_config option \<Rightarrow> tls_error + certificate_status" where
  "validateLoadedTLS now cfg =
     (case cfg of
        None \<Rightarrow> Inr (certificateStatus cfg)
      | Some c \<Rightarrow>
          if now < ce_NotBefore (tc_Certificate c) \<or> \<not> now < ce_NotAfter (tc_Certificate c) then Inl TLSExpired
          else Inr (certificateStatus cfg))"

definition InspectTLS :: "tls_io \<Rightarrow> int \<Rightarrow> web_config \<Rightarrow> tls_error + certificate_status" where
  "InspectTLS io now web = rbind (managementTLSConfig io web) (validateLoadedTLS now)"

definition effectiveTLSMinVersion :: "string \<Rightarrow> string" where
  "effectiveTLSMinVersion version = (if version = [] then ''1.2'' else version)"

end
