(* ===== verification/Web_Operations.thy ===== *)
theory Web_Operations
  imports Manager_Yield Config_Store
begin

text \<open>
  \<^verbatim>\<open>internal/web/operations.go\<close>: the record of what became of a saved change, and the application of the rules that
  it observes.  The texts of the errors are an argument; what the manager puts around them is written out.
\<close>

section \<open>What the manager says, as text\<close>

record texts =
  tx_plan :: "plan_error \<Rightarrow> string"
  tx_start :: "start_error \<Rightarrow> string"
  tx_manager :: "manager_error \<Rightarrow> string"
  tx_backend :: "backend_error \<Rightarrow> string"

fun failure_text :: "texts \<Rightarrow> failure \<Rightarrow> string" where
  "failure_text tx (PlanFailed e) = tx_plan tx e"
| "failure_text tx (KernelFailed e) = tx_manager tx e"
| "failure_text tx (StartFailed e) = tx_start tx e"
| "failure_text tx WaitingForRevocation = ''waiting for previous kernel forwarding to be revoked''"
| "failure_text tx PathNotRunning = ''Go proxy path is not running''"
| "failure_text tx NoPath = ''no forwarding path could be created''"

fun message_text :: "texts \<Rightarrow> rule_message \<Rightarrow> string" where
  "message_text tx NoMessage = []"
| "message_text tx (ListenerHeld state e) = ''Go listener is not running; kernel state is '' @ state @ '': '' @ tx_manager tx e"
| "message_text tx (AdmissionHeld e) =
     ''new NFT admission is suspended; established NAT connections may remain; no automatic fallback: '' @ tx_manager tx e"
| "message_text tx (RevocationIncomplete e) =
     ''previous kernel forwarding may still be active; revocation is incomplete: '' @ tx_manager tx e"
| "message_text tx (DisableFailed e) =
     ''failed to disable previous nftables path; forwarding may still be active: '' @ tx_manager tx e"
| "message_text tx (RemoveFailed e) =
     ''failed to remove previous nftables path; forwarding may still be active: '' @ tx_manager tx e"
| "message_text tx (Failures fs) = join ''; '' (map (failure_text tx) fs)"
| "message_text tx (KernelCleanupFailed e) =
     ''kernel cleanup failed; previous forwarding may still be active: '' @ tx_backend tx e"

text \<open>\<^verbatim>\<open>strings.Contains\<close>.\<close>

fun Contains :: "string \<Rightarrow> string \<Rightarrow> bool" where
  "Contains sub [] \<longleftrightarrow> sub = []"
| "Contains sub (c # cs) \<longleftrightarrow> has_prefix sub (c # cs) \<or> Contains sub cs"

lemma Contains_append: "Contains sub (sub @ s)"
proof (cases "sub @ s")
  case (Cons c cs)
  have "has_prefix sub (sub @ s)" by simp
  then show ?thesis unfolding Cons by simp
qed simp

section \<open>Operations\<close>

record observation =
  ob_ID :: string
  ob_Desired :: string
  ob_KernelState :: string
  ob_GoRunning :: bool
  ob_ManagerError :: string

record apply_operation =
  op_ID :: string
  op_ConfigRevision :: string
  op_State :: string
  op_Rules :: "observation list"
  op_BusinessHealth :: string
  op_SavedAt :: int
  op_CompletedAt :: "int option"

record operation_log =
  ol_operations :: "string \<Rightarrow> apply_operation option"
  ol_order :: "string list"

abbreviation no_operations :: operation_log where
  "no_operations \<equiv> \<lparr>ol_operations = (\<lambda>_. None), ol_order = []\<rparr>"

definition zero_operation :: apply_operation where
  "zero_operation = \<lparr>op_ID = [], op_ConfigRevision = [], op_State = [], op_Rules = [], op_BusinessHealth = [], op_SavedAt = 0, op_CompletedAt = None\<rparr>"

definition setOperation :: "apply_operation \<Rightarrow> operation_log \<Rightarrow> operation_log" where
  "setOperation op l =
     (let order = (if ol_operations l (op_ID op) = None then ol_order l @ [op_ID op] else ol_order l);
          ops = (ol_operations l)(op_ID op \<mapsto> op)
      in if 64 < length order then \<lparr>ol_operations = ops(hd order := None), ol_order = tl order\<rparr>
         else \<lparr>ol_operations = ops, ol_order = order\<rparr>)"

definition latestOperation :: "operation_log \<Rightarrow> apply_operation option" where
  "latestOperation l =
     (if ol_order l = [] then None
      else Some (case ol_operations l (last (ol_order l)) of None \<Rightarrow> zero_operation | Some op \<Rightarrow> op))"

definition operation_with_id :: "string \<Rightarrow> operation_log \<Rightarrow> apply_operation option" where
  "operation_with_id ident l = ol_operations l ident"

definition observation_of :: "string \<Rightarrow> observation" where
  "observation_of ident = \<lparr>ob_ID = ident, ob_Desired = [], ob_KernelState = [], ob_GoRunning = False, ob_ManagerError = []\<rparr>"

definition newApplyOperation ::
    "int \<Rightarrow> string \<Rightarrow> string \<Rightarrow> string list \<Rightarrow> operation_log \<Rightarrow> apply_operation \<times> operation_log" where
  "newApplyOperation now ident revision affected l =
     (let op = \<lparr>op_ID = ident, op_ConfigRevision = revision, op_State = ''saved'', op_Rules = map observation_of affected,
                op_BusinessHealth = ''not_checked'', op_SavedAt = now, op_CompletedAt = None\<rparr>
      in (op, setOperation op l))"

section \<open>What is observed of a rule\<close>

definition row_pending :: "texts \<Rightarrow> rule_runtime \<Rightarrow> bool" where
  "row_pending tx row \<longleftrightarrow>
     (let text = message_text tx (st_lastError (rr_Stats row)) in
      rr_KernelState row = ''retirement-pending'' \<or> rr_KernelState row = ''admission-suspended''
      \<or> Contains ''previous kernel forwarding may still be active'' text
      \<or> Contains ''revocation is incomplete'' text
      \<or> Contains ''failed to disable previous nftables path'' text
      \<or> Contains ''failed to remove previous nftables path'' text)"

text \<open>A rule that is not to run is not retired while a path may be left.\<close>

definition row_left :: "rule_runtime \<Rightarrow> bool" where
  "row_left row \<longleftrightarrow>
     st_running (rr_Stats row) \<or> rr_GoRunning row \<or> has_prefix ''active-'' (rr_KernelState row)
     \<or> rr_KernelState row = ''unknown'' \<or> rr_KernelState row = ''unverified''"

definition row_failed :: "texts \<Rightarrow> rule_runtime \<Rightarrow> bool" where
  "row_failed tx row \<longleftrightarrow>
     \<not> st_running (rr_Stats row) \<or> message_text tx (st_lastError (rr_Stats row)) \<noteq> []
     \<or> dataPlaneUsesNFT (rr_DataPlane row) \<and> rr_KernelState row \<noteq> ''active-verified''"

definition observe_row ::
    "texts \<Rightarrow> (string \<Rightarrow> rule option) \<Rightarrow> (string \<Rightarrow> rule_runtime option) \<Rightarrow> observation \<Rightarrow> observation" where
  "observe_row tx wanted rows item =
     (let ident = ob_ID item;
          item1 = item\<lparr>ob_Desired := (case wanted ident of None \<Rightarrow> ''removed''
             | Some r \<Rightarrow> if r_Enabled r then ''enabled'' else ''disabled'')\<rparr>
      in case rows ident of
           None \<Rightarrow> item1\<lparr>ob_KernelState := ''not-reported''\<rparr>
         | Some row \<Rightarrow> item1\<lparr>ob_KernelState := rr_KernelState row, ob_GoRunning := rr_GoRunning row,
             ob_ManagerError := message_text tx (st_lastError (rr_Stats row))\<rparr>)"

definition next_state ::
    "texts \<Rightarrow> (string \<Rightarrow> rule option) \<Rightarrow> (string \<Rightarrow> rule_runtime option) \<Rightarrow> observation \<Rightarrow> string \<Rightarrow> string" where
  "next_state tx wanted rows item state =
     (let ident = ob_ID item; enabled = (case wanted ident of None \<Rightarrow> False | Some r \<Rightarrow> r_Enabled r);
          pending = (case rows ident of None \<Rightarrow> False | Some row \<Rightarrow> row_pending tx row \<or> \<not> enabled \<and> row_left row);
          failed = (enabled \<and> (case rows ident of None \<Rightarrow> True | Some row \<Rightarrow> row_failed tx row));
          state1 = (if failed \<and> state = ''applied'' then ''application_failed'' else state)
      in if pending then ''cleanup_pending'' else state1)"

text \<open>Later entries of a slice replace earlier ones in the map built from it.\<close>

definition keyed :: "('a \<Rightarrow> string) \<Rightarrow> 'a list \<Rightarrow> string \<Rightarrow> 'a option" where
  "keyed key xs = fold (\<lambda>x m. m(key x \<mapsto> x)) xs (\<lambda>_. None)"

lemma keyed_Some: "keyed key xs i = Some x \<Longrightarrow> x \<in> set xs \<and> key x = i"
  by (induction xs rule: rev_induct) (auto simp: keyed_def split: if_splits)

lemma keyed_None: "keyed key xs i = None \<longleftrightarrow> i \<notin> key ` set xs"
  by (induction xs rule: rev_induct) (auto simp: keyed_def)

definition completed_operation ::
    "texts \<Rightarrow> int \<Rightarrow> config \<Rightarrow> rule_runtime list \<Rightarrow> apply_operation \<Rightarrow> apply_operation" where
  "completed_operation tx now cfg rows op =
     (let wanted = keyed r_ID (c_Rules cfg); observed = keyed (\<lambda>row. r_ID (rr_Rule row)) rows in
      op\<lparr>op_State := fold (next_state tx wanted observed) (op_Rules op) ''applied'',
         op_Rules := map (observe_row tx wanted observed) (op_Rules op), op_CompletedAt := Some now\<rparr>)"

text \<open>A row without a record of its state is a nil dereference.\<close>

definition all_rows :: "'a option list \<Rightarrow> 'a list option" where
  "all_rows rows = (if None \<in> set rows then None else Some (List.map_filter id rows))"

definition applyRuleOperation ::
    "('n, 'w) system \<Rightarrow> environment \<Rightarrow> texts \<Rightarrow> int \<Rightarrow> apply_operation \<Rightarrow> config \<Rightarrow> operation_log \<times> 'n manager \<times> 'w
     \<Rightarrow> (apply_operation \<times> operation_log \<times> 'n manager \<times> 'w) option" where
  "applyRuleOperation sy env tx now op cfg s =
     (let (l, m, v) = s; op1 = op\<lparr>op_State := ''applying''\<rparr>; l1 = setOperation op1 l in
      Option.bind (Apply sy env (c_Rules cfg) (m, v)) (\<lambda>(m1, v1).
      Option.bind (all_rows (Runtime (sy_kernel sy) m1)) (\<lambda>rows.
        let op2 = completed_operation tx now cfg rows op1 in
        Some (op2, setOperation op2 l1, m1, v1))))"

section \<open>The log of operations\<close>

definition log_fine :: "operation_log \<Rightarrow> bool" where
  "log_fine l \<longleftrightarrow> length (ol_order l) \<le> 64 \<and> distinct (ol_order l) \<and> dom (ol_operations l) = set (ol_order l)
     \<and> (\<forall>i op. ol_operations l i = Some op \<longrightarrow> op_ID op = i)"

lemma setOperation_fine:
  assumes "log_fine l"
  shows "log_fine (setOperation op l)" and "ol_operations (setOperation op l) (op_ID op) = Some op"
    and "latestOperation (setOperation op l) = Some op \<longleftrightarrow> ol_operations l (op_ID op) = None \<or> last (ol_order l) = op_ID op"
proof -
  let ?i = "op_ID op"
  let ?order = "if ol_operations l ?i = None then ol_order l @ [?i] else ol_order l"
  have dom: "set (ol_order l) = dom (ol_operations l)" and ids: "\<And>i p. ol_operations l i = Some p \<Longrightarrow> op_ID p = i"
    and d: "distinct (ol_order l)" "length (ol_order l) \<le> 64"
    using assms by (auto simp: log_fine_def)
  have o: "distinct ?order" "set ?order = insert ?i (dom (ol_operations l))" "?i \<in> set ?order"
    using d dom by (auto simp: domIff)
  show "log_fine (setOperation op l)"
  proof (cases "64 < length ?order")
    case False
    with o ids show ?thesis by (auto simp: setOperation_def Let_def log_fine_def)
  next
    case True
    then have l: "length ?order = 65" using d(2) by (auto split: if_splits)
    then obtain h t where ht: "?order = h # t" by (cases ?order) auto
    have "ol_operations (setOperation op l) = ((ol_operations l)(?i \<mapsto> op))(h := None)" "ol_order (setOperation op l) = t"
      using True ht by (auto simp: setOperation_def Let_def split: if_splits)
    moreover have "length t = 64" "distinct t" "h \<notin> set t" "set t = insert ?i (dom (ol_operations l)) - {h}"
      using l ht o(1,2) by auto
    ultimately show ?thesis using ids by (auto simp: log_fine_def)
  qed
  have "?i \<noteq> hd ?order" if "64 < length ?order"
  proof (cases "ol_operations l ?i = None")
    case True
    with that obtain h t where "ol_order l = h # t" by (cases "ol_order l") auto
    with dom True show ?thesis by (auto simp: domIff)
  next
    case False
    with that d(2) show ?thesis by simp
  qed
  then show i: "ol_operations (setOperation op l) ?i = Some op" by (auto simp: setOperation_def Let_def)
  show "latestOperation (setOperation op l) = Some op \<longleftrightarrow> ol_operations l ?i = None \<or> last (ol_order l) = ?i"
  proof (cases "ol_operations l ?i = None")
    case True
    have "ol_order (setOperation op l) \<noteq> [] \<and> last (ol_order (setOperation op l)) = ?i"
      using True by (cases "ol_order l") (auto simp: setOperation_def Let_def)
    with i True show ?thesis by (simp add: latestOperation_def)
  next
    case False
    then have ne: "ol_order l \<noteq> []" using dom by (auto simp: domIff)
    have "setOperation op l = \<lparr>ol_operations = (ol_operations l)(?i \<mapsto> op), ol_order = ol_order l\<rparr>"
      using False d(2) by (auto simp: setOperation_def Let_def)
    moreover obtain p where "ol_operations l (last (ol_order l)) = Some p" "op_ID p = last (ol_order l)"
      using last_in_set[OF ne] dom ids by (metis domIff not_None_eq)
    ultimately show ?thesis using ne False by (auto simp: latestOperation_def)
  qed
qed

section \<open>What an applied operation means\<close>

lemma next_state_applied:
  "next_state tx wanted rows item state = ''applied'' \<longleftrightarrow>
     state = ''applied'' \<and>
     (case wanted (ob_ID item) of
        None \<Rightarrow> (case rows (ob_ID item) of None \<Rightarrow> True | Some row \<Rightarrow> \<not> row_pending tx row \<and> \<not> row_left row)
      | Some r \<Rightarrow>
          if r_Enabled r then (\<exists>row. rows (ob_ID item) = Some row \<and> \<not> row_pending tx row \<and> \<not> row_failed tx row)
          else (case rows (ob_ID item) of None \<Rightarrow> True | Some row \<Rightarrow> \<not> row_pending tx row \<and> \<not> row_left row))"
  by (auto simp: next_state_def Let_def split: option.splits)

lemma fold_applied:
  "fold (next_state tx wanted rows) items state = ''applied'' \<longleftrightarrow>
     state = ''applied'' \<and> (\<forall>item\<in>set items. next_state tx wanted rows item ''applied'' = ''applied'')"
proof (induction items arbitrary: state)
  case (Cons item items)
  then show ?case using next_state_applied[of tx wanted rows item state] next_state_applied[of tx wanted rows item "''applied''"]
    by auto
qed simp

end
