(* ===== verification/Web_Server.thy ===== *)
theory Web_Server
  imports Web_Request Web_Operations
begin

text \<open>
  The handlers of the management interface, \<^verbatim>\<open>internal/web/server.go\<close>, \<^verbatim>\<open>rule_batch.go\<close> and \<^verbatim>\<open>tls_reload.go\<close>, and
  what stands before them: the access list, the tokens with their limit on failures, the origin and the CSRF value.

  A request is one step of the server: every handler that changes something holds \<^verbatim>\<open>changeMu\<close> from its first look at
  the configuration to the end.  A handler that panics is \<open>None\<close>.
\<close>

section \<open>State\<close>

record 'n server =
  ws_store :: store
  ws_acl :: "snapshot option"
  ws_manager :: "'n manager"
  ws_servers :: "string list"
  ws_tokenFile :: string
  ws_startedAt :: int
  ws_csrf :: string
  ws_operations :: operation_log
  ws_startupWeb :: "web_config option"
  ws_activeTLS :: certificate_status
  ws_activeCert :: "certificate option"
  ws_denied :: deny_log
  ws_authFailures :: "limiter option"

text \<open>The server with the files and with the sockets and the kernel of the manager.\<close>

type_synonym ('n, 'w) web_state = "'n server \<times> world \<times> 'w"

record settings_request =
  sr_AutoLANACL :: bool
  sr_StrictIPAllowlist :: bool
  sr_AllowInsecureHTTP :: bool
  sr_Whitelist :: "string list"
  sr_Port :: int
  sr_ListenIPv4 :: string
  sr_ListenIPv6 :: string
  sr_TLSCertFile :: string
  sr_TLSKeyFile :: string
  sr_TLSMinVersion :: string
  sr_DNSServers :: "string list"

text \<open>
  What a request meets: codecs, parsers, the time, the interfaces of the host at each look, the TLS files, and the
  system of the manager with the resolver for given name servers.
\<close>

record ('n, 'w) web_io =
  wi_system :: "('n, 'w) system"
  wi_environment :: "string list \<Rightarrow> environment"
  wi_texts :: texts
  wi_indent :: "config \<Rightarrow> string"
  wi_compact :: "config \<Rightarrow> string"
  wi_rule_text :: "rule \<Rightarrow> string"
  wi_rule :: "bool \<Rightarrow> string \<Rightarrow> rule decoded"
  wi_rules :: "bool \<Rightarrow> string \<Rightarrow> rule list option decoded"
  wi_settings :: "bool \<Rightarrow> string \<Rightarrow> settings_request decoded"
  wi_ending :: "bool \<Rightarrow> string \<Rightarrow> unit decoded"
  wi_media :: "string \<Rightarrow> string option"
  wi_url :: "string \<Rightarrow> url option"
  wi_fold :: "string \<Rightarrow> string \<Rightarrow> bool"
  wi_interfaces :: "nat \<Rightarrow> interfaces option"
  wi_tls :: tls_io
  wi_now :: int
  wi_round :: "rat \<Rightarrow> rat"
  wi_visit :: "(addr \<times> token_bucket) list \<Rightarrow> (addr \<times> token_bucket) list"

section \<open>Replies\<close>

datatype problem =
    StoreProblem store_error
  | ConfigProblem config_error
  | AclProblem acl_error
  | TlsProblem tls_error
  | DecodeProblem decode_error
  | PlainProblem string

text \<open>A message with a key of its own, or the text of an error under the key \<^verbatim>\<open>apiErrorDetail\<close>.\<close>

datatype api_error = Fixed string | Keyed string string | Detail problem

datatype payload =
    NoBody
  | PlainText string
  | Failed api_error
  | Asset string
  | CSRFValue string
  | StatusReport int "rule_runtime list" "apply_operation option" "snapshot option"
  | OtherReport
  | ConfigReport string config certificate_status
  | SettingsSaved bool string
  | TokenValue string
  | RuleSaved rule
  | OperationReport apply_operation
  | RulesValid string
  | RulesPreview string "string list" "string list" "string list" "string list"
  | RulesReplaced string string string
  | Templates "rule list"
  | TLSReloaded certificate_status

record response =
  rs_Status :: nat
  rs_Header :: "(string \<times> string) list"
  rs_Body :: payload

definition reply :: "nat \<Rightarrow> payload \<Rightarrow> response" where
  "reply status body = \<lparr>rs_Status = status, rs_Header = [], rs_Body = body\<rparr>"

definition add_headers :: "(string \<times> string) list \<Rightarrow> response \<Rightarrow> response" where
  "add_headers hs r = r\<lparr>rs_Header := hs @ rs_Header r\<rparr>"

definition etag :: "string \<Rightarrow> string \<times> string" where
  "etag revision = (''ETag'', [CHR 0x22] @ revision @ [CHR 0x22])"

definition writeOperationHeaders :: "apply_operation \<Rightarrow> response \<Rightarrow> response" where
  "writeOperationHeaders op =
     add_headers [(''X-PortBridge-Operation-ID'', op_ID op), (''X-PortBridge-Config-Revision'', op_ConfigRevision op),
                  (''X-PortBridge-Application-State'', op_State op)]"

definition writeAPIError :: "nat \<Rightarrow> problem \<Rightarrow> response" where
  "writeAPIError status p =
     reply status (Failed (case p of
        DecodeProblem ContentTypeWrong \<Rightarrow> Fixed ''apiJSONContentType''
      | DecodeProblem BodyTooLarge \<Rightarrow> Fixed ''apiJSONTooLarge''
      | DecodeProblem BodyMalformed \<Rightarrow> Fixed ''apiInvalidJSON''
      | DecodeProblem BodyNotOneObject \<Rightarrow> Fixed ''apiJSONObjectOnly''
      | _ \<Rightarrow> Detail p))"

definition writeFixedAPIError :: "nat \<Rightarrow> string \<Rightarrow> response" where
  "writeFixedAPIError status key = reply status (Failed (Fixed key))"

abbreviation revision_conflict :: response where
  "revision_conflict \<equiv> writeFixedAPIError 412 ''apiRevisionConflict''"

abbreviation revision_malformed :: response where
  "revision_malformed \<equiv> writeAPIError 400 (PlainProblem ''If-Match must contain one quoted configuration revision'')"

abbreviation no_entropy :: response where
  "no_entropy \<equiv> writeAPIError 500 (PlainProblem ''no entropy'')"

definition store_failure :: "store_error \<Rightarrow> response" where
  "store_failure e = (if e = RevisionConflict then revision_conflict else writeAPIError 400 (StoreProblem e))"

section \<open>Pieces of the handlers\<close>

definition decode_body :: "('n, 'w) web_io \<Rightarrow> (bool \<Rightarrow> string \<Rightarrow> 'a decoded) \<Rightarrow> request \<Rightarrow> response + 'a" where
  "decode_body io decoder q =
     (case decodeJSON (wi_media io) (wi_ending io) decoder q of
        Inl e \<Rightarrow> Inl (writeAPIError 400 (DecodeProblem e))
      | Inr v \<Rightarrow> Inr v)"

definition randomHex :: "nat \<Rightarrow> world \<Rightarrow> string option \<times> world" where
  "randomHex n w = (let (bs, w1) = rand_read n w in (map_option hex_encode bs, w1))"

definition NewRuleID :: "world \<Rightarrow> string option \<times> world" where
  "NewRuleID w = randomHex 8 w"

definition bootstrap_texts :: "snapshot option \<Rightarrow> string list" where
  "bootstrap_texts acl = prefixesToStrings (case acl of None \<Rightarrow> [] | Some s \<Rightarrow> a_Bootstrap s)"

definition refresh_acl :: "interfaces option \<Rightarrow> web_config \<Rightarrow> snapshot option \<Rightarrow> acl_error option \<times> snapshot option" where
  "refresh_acl ifaces web acl =
     ACL.Refresh ifaces (w_AutoLANACL web) (w_StrictIPAllowlist web) (w_Whitelist web) (bootstrap_texts acl) acl"

text \<open>An update of the stored configuration.\<close>

definition update_config ::
    "('n, 'w) web_io \<Rightarrow> string \<Rightarrow> (config \<Rightarrow> string + config) \<Rightarrow> ('n, 'w) web_state \<Rightarrow> (store_error + config) \<times> ('n, 'w) web_state" where
  "update_config io expected fn s =
     (let (sv, w, v) = s; (r, st, w1) = UpdateIfRevision (wi_indent io) (wi_compact io) expected fn (ws_store sv) w
      in (r, sv\<lparr>ws_store := st\<rparr>, w1, v))"

text \<open>The rules of a saved configuration are applied, and the operation is recorded.\<close>

definition run_operation ::
    "('n, 'w) web_io \<Rightarrow> string \<Rightarrow> config \<Rightarrow> string list \<Rightarrow> ('n, 'w) web_state \<Rightarrow> (apply_operation \<times> ('n, 'w) web_state) option" where
  "run_operation io ident cfg affected s =
     (let (sv, w, v) = s;
          (op, l) = newApplyOperation (wi_now io) ident (Revision (wi_compact io) cfg) affected (ws_operations sv)
      in map_option (\<lambda>(op1, l1, m1, v1). (op1, sv\<lparr>ws_operations := l1, ws_manager := m1\<rparr>, w, v1))
           (applyRuleOperation (wi_system io) (wi_environment io (ws_servers sv)) (wi_texts io) (wi_now io) op cfg
              (l, ws_manager sv, v)))"

text \<open>A change of rules from the update on: its failure is answered by \<open>failure\<close>, its success by \<open>success\<close>.\<close>

definition change_rules ::
    "('n, 'w) web_io \<Rightarrow> string \<Rightarrow> string \<Rightarrow> (config \<Rightarrow> string + config) \<Rightarrow> (config \<Rightarrow> string list) \<Rightarrow> (store_error \<Rightarrow> response)
     \<Rightarrow> (apply_operation \<Rightarrow> response) \<Rightarrow> ('n, 'w) web_state \<Rightarrow> (response \<times> ('n, 'w) web_state) option" where
  "change_rules io ident expected fn affected failure success s =
     (case update_config io expected fn s of
        (Inl e, s1) \<Rightarrow> Some (failure e, s1)
      | (Inr cfg, s1) \<Rightarrow> map_option (\<lambda>(op, s2). (success op, s2)) (run_operation io ident cfg (affected cfg) s1))"

section \<open>Handlers\<close>

type_synonym ('n, 'w) handler = "request \<Rightarrow> ('n, 'w) web_state \<Rightarrow> (response \<times> ('n, 'w) web_state) option"

definition handleBootstrap :: "('n, 'w) handler" where
  "handleBootstrap q s = Some (reply 200 (CSRFValue (ws_csrf (fst s))), s)"

definition handleStatus :: "('n, 'w) web_io \<Rightarrow> ('n, 'w) handler" where
  "handleStatus io q s =
     map_option (\<lambda>rows. (reply 200 (StatusReport ((wi_now io - ws_startedAt (fst s)) div second) rows
         (latestOperation (ws_operations (fst s))) (ws_acl (fst s))), s))
       (all_rows (Runtime (sy_kernel (wi_system io)) (ws_manager (fst s))))"

definition handleLatestOperation :: "('n, 'w) handler" where
  "handleLatestOperation q s =
     Some (case latestOperation (ws_operations (fst s)) of
        None \<Rightarrow> writeFixedAPIError 404 ''apiOperationNotFound''
      | Some op \<Rightarrow> reply 200 (OperationReport op), s)"

definition handleOperation :: "string \<Rightarrow> ('n, 'w) handler" where
  "handleOperation ident q s =
     Some (case operation_with_id ident (ws_operations (fst s)) of
        None \<Rightarrow> writeFixedAPIError 404 ''apiOperationNotFound''
      | Some op \<Rightarrow> reply 200 (OperationReport op), s)"

text \<open>The configuration as it is sent: without the hashes of the tokens.\<close>

definition shown_config :: "config \<Rightarrow> config" where
  "shown_config cfg =
     cfg\<lparr>c_Web := (c_Web cfg)\<lparr>w_AdminTokenSHA := [],
       w_MonitorTokenSHA := (if w_MonitorTokenSHA (c_Web cfg) = [] then [] else ''configured'')\<rparr>\<rparr>"

definition handleGetConfig :: "('n, 'w) web_io \<Rightarrow> ('n, 'w) handler" where
  "handleGetConfig io q s =
     (let (cfg, revision) = GetWithRevision (wi_compact io) (ws_store (fst s)) in
      Some (add_headers [etag revision] (reply 200 (ConfigReport revision (shown_config cfg) (ws_activeTLS (fst s)))), s))"

text \<open>What is checked of new settings before the configuration is looked at: the change they ask for, or the reply.\<close>

definition strict_client_ok :: "request \<Rightarrow> string list \<Rightarrow> bool" where
  "strict_client_ok q whitelist =
     (case remoteIP (q_RemoteAddr q) of None \<Rightarrow> False | Some ip \<Rightarrow> is_loopback ip \<or> prefixStringsContain whitelist ip)"

definition inspected_tls :: "('n, 'w) web_io \<Rightarrow> string \<Rightarrow> string \<Rightarrow> string \<Rightarrow> tls_error option" where
  "inspected_tls io cert key version =
     (if cert \<noteq> [] \<and> key \<noteq> [] then
        err_of (InspectTLS (wi_tls io) (wi_now io)
          (default_web\<lparr>w_TLSCertFile := cert, w_TLSKeyFile := key, w_TLSMinVersion := version\<rparr>))
      else None)"

definition new_settings :: "settings_request \<Rightarrow> string list \<Rightarrow> string list \<Rightarrow> web_config \<Rightarrow> web_config" where
  "new_settings req whitelist dns web =
     web\<lparr>w_AutoLANACL := sr_AutoLANACL req, w_StrictIPAllowlist := sr_StrictIPAllowlist req,
       w_AllowInsecureHTTP := sr_AllowInsecureHTTP req, w_Whitelist := whitelist, w_Port := sr_Port req,
       w_ListenIPv4 := trim_space (sr_ListenIPv4 req), w_ListenIPv6 := trim_space (sr_ListenIPv6 req),
       w_TLSCertFile := trim_space (sr_TLSCertFile req), w_TLSKeyFile := trim_space (sr_TLSKeyFile req),
       w_TLSMinVersion := (if trim_space (sr_TLSMinVersion req) \<noteq> [] then trim_space (sr_TLSMinVersion req) else w_TLSMinVersion web),
       w_DNSServers := dns\<rparr>"

definition check_settings :: "('n, 'w) web_io \<Rightarrow> request \<Rightarrow> settings_request \<Rightarrow> response + (web_config \<Rightarrow> web_config)" where
  "check_settings io q req =
     (case NormalizeWhitelist (sr_Whitelist req) of
        Inl e \<Rightarrow> Inl (writeAPIError 400 (ConfigProblem e))
      | Inr whitelist \<Rightarrow>
      (case NormalizeDNSServers (sr_DNSServers req) of
        Inl e \<Rightarrow> Inl (writeAPIError 400 (ConfigProblem e))
      | Inr dns \<Rightarrow>
          let version = trim_space (sr_TLSMinVersion req) in
          if version \<notin> {[], ''1.2'', ''1.3''} then Inl (writeFixedAPIError 400 ''apiTLSMinVersion'')
          else
            case inspected_tls io (trim_space (sr_TLSCertFile req)) (trim_space (sr_TLSKeyFile req)) version of
              Some e \<Rightarrow> Inl (writeAPIError 400 (TlsProblem e))
            | None \<Rightarrow>
                if sr_StrictIPAllowlist req \<and> \<not> q_TLS q then Inl (writeFixedAPIError 400 ''apiStrictRequiresHTTPS'')
                else if sr_StrictIPAllowlist req \<and> \<not> strict_client_ok q whitelist
                then Inl (writeFixedAPIError 400 ''apiStrictRequiresClient'')
                else Inr (new_settings req whitelist dns)))"

definition restart_required :: "web_config \<Rightarrow> web_config \<Rightarrow> bool" where
  "restart_required active web \<longleftrightarrow>
     w_Port active \<noteq> w_Port web \<or> w_ListenIPv4 active \<noteq> w_ListenIPv4 web \<or> w_ListenIPv6 active \<noteq> w_ListenIPv6 web
     \<or> w_TLSCertFile active \<noteq> w_TLSCertFile web \<or> w_TLSKeyFile active \<noteq> w_TLSKeyFile web
     \<or> effectiveTLSMinVersion (w_TLSMinVersion active) \<noteq> effectiveTLSMinVersion (w_TLSMinVersion web)
     \<or> w_AllowInsecureHTTP active \<noteq> w_AllowInsecureHTTP web"

text \<open>The settings once they are saved: access list, name servers, and whether the listeners have to be restarted.\<close>

definition take_back :: "('n, 'w) web_io \<Rightarrow> config \<Rightarrow> ('n, 'w) web_state \<Rightarrow> ('n, 'w) web_state" where
  "take_back io old s =
     (let (sv, w, v) = snd (update_config io [] (\<lambda>_. Inr old) s);
          (e, acl) = refresh_acl (wi_interfaces io 1) (c_Web old) (ws_acl sv)
      in (sv\<lparr>ws_acl := acl\<rparr>, w, v))"

definition adopt_settings ::
    "('n, 'w) web_io \<Rightarrow> config \<Rightarrow> config \<Rightarrow> ('n, 'w) web_state \<Rightarrow> (response \<times> ('n, 'w) web_state) option" where
  "adopt_settings io old cfg s =
     (let (sv, w, v) = s in
      case refresh_acl (wi_interfaces io 0) (c_Web cfg) (ws_acl sv) of
        (Some e, acl) \<Rightarrow> Some (writeAPIError 500 (AclProblem e), take_back io old s)
      | (None, acl) \<Rightarrow>
          let servers = w_DNSServers (c_Web cfg); revision = Revision (wi_compact io) cfg;
              active = (case ws_startupWeb sv of None \<Rightarrow> c_Web old | Some web \<Rightarrow> web)
          in map_option (\<lambda>(m, v1).
               (add_headers [etag revision] (reply 200 (SettingsSaved (restart_required active (c_Web cfg)) revision)),
                sv\<lparr>ws_acl := acl, ws_servers := servers, ws_manager := m\<rparr>, w, v1))
               (SetDNSServers (wi_system io) (wi_environment io servers) (ws_manager sv, v)))"

definition handleSettings :: "('n, 'w) web_io \<Rightarrow> ('n, 'w) handler" where
  "handleSettings io q s =
     (case decode_body io (wi_settings io) q of
        Inl r \<Rightarrow> Some (r, s)
      | Inr req \<Rightarrow>
      (case check_settings io q req of
        Inl r \<Rightarrow> Some (r, s)
      | Inr change \<Rightarrow>
      (case requestedRevision q of
        None \<Rightarrow> Some (revision_malformed, s)
      | Some expected \<Rightarrow>
          let old = s_cfg (ws_store (fst s)) in
          case update_config io expected (\<lambda>c. Inr (c\<lparr>c_Web := change (c_Web c)\<rparr>)) s of
            (Inl e, s1) \<Rightarrow> Some (store_failure e, s1)
          | (Inr cfg, s1) \<Rightarrow> adopt_settings io old cfg s1)))"

definition handleRotateToken :: "('n, 'w) web_io \<Rightarrow> ('n, 'w) handler" where
  "handleRotateToken io q s =
     (let (sv, w, v) = s; (r, st, w1) = RotateAdminToken (wi_indent io) (ws_tokenFile sv) (ws_store sv) w in
      Some (case r of Inl e \<Rightarrow> writeAPIError 500 (StoreProblem e) | Inr token \<Rightarrow> reply 200 (TokenValue token),
            sv\<lparr>ws_store := st\<rparr>, w1, v))"

definition handleRotateMonitorToken :: "('n, 'w) web_io \<Rightarrow> ('n, 'w) handler" where
  "handleRotateMonitorToken io q s =
     (let (sv, w, v) = s; (r, st, w1) = RotateMonitorToken (wi_indent io) (ws_store sv) w in
      Some (case r of Inl e \<Rightarrow> writeAPIError 500 (StoreProblem e) | Inr token \<Rightarrow> reply 200 (TokenValue token),
            sv\<lparr>ws_store := st\<rparr>, w1, v))"

definition handleRevokeMonitorToken :: "('n, 'w) web_io \<Rightarrow> ('n, 'w) handler" where
  "handleRevokeMonitorToken io q s =
     (let (sv, w, v) = s; (r, st, w1) = RevokeMonitorToken (wi_indent io) (ws_store sv) w in
      Some (case r of Some e \<Rightarrow> writeAPIError 500 (StoreProblem e) | None \<Rightarrow> reply 204 NoBody, sv\<lparr>ws_store := st\<rparr>, w1, v))"

subsection \<open>Single rules\<close>

definition append_rule :: "rule \<Rightarrow> config \<Rightarrow> string + config" where
  "append_rule r c = Inr (c\<lparr>c_Rules := c_Rules c @ [r]\<rparr>)"

fun replace_first :: "string \<Rightarrow> rule \<Rightarrow> rule list \<Rightarrow> rule list option" where
  "replace_first ident r [] = None"
| "replace_first ident r (x # xs) =
     (if r_ID x = ident then Some (r # xs) else map_option ((#) x) (replace_first ident r xs))"

text \<open>The rejection stands for the text that names the rule.\<close>

definition replace_rule :: "string \<Rightarrow> rule \<Rightarrow> config \<Rightarrow> string + config" where
  "replace_rule ident r c =
     (case replace_first ident r (c_Rules c) of None \<Rightarrow> Inl ident | Some rules \<Rightarrow> Inr (c\<lparr>c_Rules := rules\<rparr>))"

definition remove_rule :: "string \<Rightarrow> config \<Rightarrow> string + config" where
  "remove_rule ident c =
     (if list_ex (\<lambda>r. r_ID r = ident) (c_Rules c)
      then Inr (c\<lparr>c_Rules := filter (\<lambda>r. r_ID r \<noteq> ident) (c_Rules c)\<rparr>) else Inl ident)"

definition rule_failure :: "string \<Rightarrow> store_error \<Rightarrow> response" where
  "rule_failure ident e =
     (case e of
        UpdateRejected _ \<Rightarrow> reply 404 (Failed (Keyed ''apiRuleNotFound'' ident))
      | _ \<Rightarrow> store_failure e)"

text \<open>The revision, the identity of the operation, and then the change.\<close>

definition with_operation ::
    "request \<Rightarrow> (string \<Rightarrow> string \<Rightarrow> ('n, 'w) web_state \<Rightarrow> (response \<times> ('n, 'w) web_state) option) \<Rightarrow> ('n, 'w) web_state
     \<Rightarrow> (response \<times> ('n, 'w) web_state) option" where
  "with_operation q k s =
     (case requestedRevision q of
        None \<Rightarrow> Some (revision_malformed, s)
      | Some expected \<Rightarrow>
          let (sv, w, v) = s in
          case randomHex 16 w of
            (None, w1) \<Rightarrow> Some (no_entropy, sv, w1, v)
          | (Some ident, w1) \<Rightarrow> k expected ident (sv, w1, v))"

definition handleCreateRule :: "('n, 'w) web_io \<Rightarrow> ('n, 'w) handler" where
  "handleCreateRule io q s =
     (case decode_body io (wi_rule io) q of
        Inl r \<Rightarrow> Some (r, s)
      | Inr rule \<Rightarrow>
          let (sv, w, v) = s in
          case NewRuleID w of
            (None, w1) \<Rightarrow> Some (no_entropy, sv, w1, v)
          | (Some ident, w1) \<Rightarrow>
              let r = NormalizeRule (rule\<lparr>r_ID := ident\<rparr>) in
              with_operation q (\<lambda>expected opn.
                change_rules io opn expected (append_rule r) (\<lambda>_. [r_ID r]) store_failure
                  (\<lambda>op. writeOperationHeaders op (reply 201 (RuleSaved r)))) (sv, w1, v))"

definition handleUpdateRule :: "('n, 'w) web_io \<Rightarrow> string \<Rightarrow> ('n, 'w) handler" where
  "handleUpdateRule io ident q s =
     (case decode_body io (wi_rule io) q of
        Inl r \<Rightarrow> Some (r, s)
      | Inr rule \<Rightarrow>
          let r = NormalizeRule (rule\<lparr>r_ID := ident\<rparr>) in
          with_operation q (\<lambda>expected opn.
            change_rules io opn expected (replace_rule ident r) (\<lambda>_. [ident]) (rule_failure ident)
              (\<lambda>op. writeOperationHeaders op (reply 200 (RuleSaved r)))) s)"

definition handleDeleteRule :: "('n, 'w) web_io \<Rightarrow> string \<Rightarrow> ('n, 'w) handler" where
  "handleDeleteRule io ident q s =
     with_operation q (\<lambda>expected opn.
       change_rules io opn expected (remove_rule ident) (\<lambda>_. [ident]) (rule_failure ident)
         (\<lambda>op. writeOperationHeaders op (reply 204 NoBody))) s"

subsection \<open>Sets of rules\<close>

definition decodeRuleSet :: "('n, 'w) web_io \<Rightarrow> request \<Rightarrow> response + rule list" where
  "decodeRuleSet io q =
     (case decode_body io (wi_rules io) q of
        Inl r \<Rightarrow> Inl r
      | Inr None \<Rightarrow> Inl (writeAPIError 400 (PlainProblem ''rules must be an array; use [] to remove all rules''))
      | Inr (Some rules) \<Rightarrow> Inr (map NormalizeRule rules))"

definition validateRuleSet :: "('n, 'w) web_io \<Rightarrow> request \<Rightarrow> store \<Rightarrow> response + (rule list \<times> string)" where
  "validateRuleSet io q st =
     (case decodeRuleSet io q of
        Inl r \<Rightarrow> Inl r
      | Inr rules \<Rightarrow>
          let (cfg, revision) = GetWithRevision (wi_compact io) st in
          case Validate (cfg\<lparr>c_Rules := rules\<rparr>) of
            Some e \<Rightarrow> Inl (writeAPIError 400 (ConfigProblem e))
          | None \<Rightarrow> Inr (rules, revision))"

definition handleValidateRules :: "('n, 'w) web_io \<Rightarrow> ('n, 'w) handler" where
  "handleValidateRules io q s =
     Some (case validateRuleSet io q (ws_store (fst s)) of
        Inl r \<Rightarrow> r
      | Inr (rules, revision) \<Rightarrow> reply 200 (RulesValid revision), s)"

text \<open>Two rules are the same when their JSON texts are.\<close>

definition ruleChanges ::
    "(rule \<Rightarrow> string) \<Rightarrow> rule list \<Rightarrow> rule list \<Rightarrow> string list \<times> string list \<times> string list \<times> string list" where
  "ruleChanges text old_rules new_rules =
     (let old = keyed r_ID old_rules; after = keyed r_ID new_rules;
          known = filter (\<lambda>r. old (r_ID r) \<noteq> None) new_rules;
          same = (\<lambda>r. map_option text (old (r_ID r)) = Some (text r))
      in (sort (map r_ID (filter (\<lambda>r. old (r_ID r) = None) new_rules)),
          sort (map r_ID (filter (\<lambda>r. \<not> same r) known)),
          sort (map r_ID (filter (\<lambda>r. after (r_ID r) = None) old_rules)),
          sort (map r_ID (filter same known))))"

definition handlePreviewRules :: "('n, 'w) web_io \<Rightarrow> ('n, 'w) handler" where
  "handlePreviewRules io q s =
     Some (case validateRuleSet io q (ws_store (fst s)) of
        Inl r \<Rightarrow> r
      | Inr (rules, revision) \<Rightarrow>
          let (current, now) = GetWithRevision (wi_compact io) (ws_store (fst s)) in
          if now \<noteq> revision then revision_conflict
          else
            let (added, updated, removed, unchanged) = ruleChanges (wi_rule_text io) (c_Rules current) rules
            in reply 200 (RulesPreview revision added updated removed unchanged), s)"

definition replaced_rules :: "('n, 'w) web_io \<Rightarrow> config \<Rightarrow> config \<Rightarrow> string list" where
  "replaced_rules io old cfg =
     (let (added, updated, removed, unchanged) = ruleChanges (wi_rule_text io) (c_Rules old) (c_Rules cfg)
      in sort (removed @ map r_ID (c_Rules cfg)))"

definition handleReplaceRules :: "('n, 'w) web_io \<Rightarrow> ('n, 'w) handler" where
  "handleReplaceRules io q s =
     (case requestedRevision q of
        None \<Rightarrow> Some (revision_malformed, s)
      | Some expected \<Rightarrow>
          if expected = [] then Some (writeFixedAPIError 428 ''apiRevisionRequired'', s)
          else
            case decodeRuleSet io q of
              Inl r \<Rightarrow> Some (r, s)
            | Inr rules \<Rightarrow>
                let (sv, w, v) = s in
                case randomHex 16 w of
                  (None, w1) \<Rightarrow> Some (no_entropy, sv, w1, v)
                | (Some opn, w1) \<Rightarrow>
                    change_rules io opn expected (\<lambda>c. Inr (c\<lparr>c_Rules := rules\<rparr>)) (replaced_rules io (s_cfg (ws_store sv))) store_failure
                      (\<lambda>op. writeOperationHeaders op (reply 200 (RulesReplaced (op_ConfigRevision op) (op_ID op) (op_State op))))
                      (sv, w1, v))"

definition handleExportRuleTemplate :: "('n, 'w) handler" where
  "handleExportRuleTemplate q s =
     Some (reply 200 (Templates (map (\<lambda>r. r\<lparr>r_ID := []\<rparr>) (c_Rules (s_cfg (ws_store (fst s)))))), s)"

subsection \<open>Certificates\<close>

definition handleReloadTLS :: "('n, 'w) web_io \<Rightarrow> ('n, 'w) handler" where
  "handleReloadTLS io q s =
     (let (sv, w, v) = s; web = c_Web (s_cfg (ws_store sv));
          zero = default_web\<lparr>w_Port := 0, w_ListenIPv4 := [], w_ListenIPv6 := []\<rparr>;
          active = (case ws_startupWeb sv of None \<Rightarrow> zero | Some x \<Rightarrow> x)
      in if ws_activeCert sv = None then Some (writeFixedAPIError 409 ''apiTLSReloadNeedsHTTPS'', s)
         else if effectiveTLSMinVersion (w_TLSMinVersion web) \<noteq> effectiveTLSMinVersion (w_TLSMinVersion active)
         then Some (writeFixedAPIError 409 ''apiTLSReloadNeedsRestart'', s)
         else
           case managementTLSConfig (wi_tls io) web of
             Inl e \<Rightarrow> Some (writeAPIError 400 (TlsProblem e), s)
           | Inr loaded \<Rightarrow>
               (case validateLoadedTLS (wi_now io) loaded of
                  Inl e \<Rightarrow> Some (writeAPIError 400 (TlsProblem e), s)
                | Inr status \<Rightarrow>
                    if \<not> cs_Enabled status then Some (writeFixedAPIError 400 ''apiTLSReloadNeedsHTTPS'', s)
                    else
                      Some (reply 200 (TLSReloaded status),
                        sv\<lparr>ws_activeCert := map_option tc_Certificate loaded, ws_activeTLS := status,
                           ws_startupWeb := Some (active\<lparr>w_TLSCertFile := w_TLSCertFile web, w_TLSKeyFile := w_TLSKeyFile web\<rparr>)\<rparr>, w, v)))"

section \<open>What stands before the handlers\<close>

definition initializeSecurityControls :: "('n, 'w) web_io \<Rightarrow> 'n server \<Rightarrow> limiter" where
  "initializeSecurityControls io sv =
     (case ws_authFailures sv of None \<Rightarrow> newAuthFailureLimiter (wi_round io) | Some l \<Rightarrow> l)"

definition client_address :: "request \<Rightarrow> addr" where
  "client_address q = (case remoteIP (q_RemoteAddr q) of None \<Rightarrow> NoAddr | Some ip \<Rightarrow> ip)"

definition requireToken :: "('n, 'w) web_io \<Rightarrow> bool \<Rightarrow> ('n, 'w) handler \<Rightarrow> ('n, 'w) handler" where
  "requireToken io allowMonitor k q s =
     (let (sv, w, v) = s; l = initializeSecurityControls io sv; ip = client_address q in
      if authorised (ws_store sv) allowMonitor q then k q (sv\<lparr>ws_authFailures := Some (reset ip l)\<rparr>, w, v)
      else
        let (allowed, l1) = allowFailure (wi_round io) (wi_visit io) (wi_now io) ip l; s1 = (sv\<lparr>ws_authFailures := Some l1\<rparr>, w, v) in
        if \<not> allowed then Some (writeFixedAPIError 429 ''apiAuthRateLimited'', s1)
        else
          Some (add_headers [(''WWW-Authenticate'', ''Bearer realm='' @ [CHR 0x22] @ ''PortBridge'' @ [CHR 0x22])]
            (writeFixedAPIError 401 (if allowMonitor then ''apiInvalidReadToken'' else ''apiInvalidToken'')), s1))"

definition requireBrowserSameOrigin :: "('n, 'w) web_io \<Rightarrow> ('n, 'w) handler \<Rightarrow> ('n, 'w) handler" where
  "requireBrowserSameOrigin io k q s =
     (if same_origin (wi_url io) (wi_fold io) q then k q s else Some (writeFixedAPIError 403 ''apiCrossSiteRejected'', s))"

definition requireCSRF :: "('n, 'w) handler \<Rightarrow> ('n, 'w) handler" where
  "requireCSRF k q s =
     (if header_get q ''X-PortBridge-CSRF'' = ws_csrf (fst s) then k q s else Some (writeFixedAPIError 403 ''apiCSRFFailed'', s))"

definition handle :: "('n, 'w) web_io \<Rightarrow> endpoint \<Rightarrow> ('n, 'w) handler" where
  "handle io e =
     (case e of
        Index \<Rightarrow> (\<lambda>q s. Some (if q_Path q = ''/'' then reply 200 (Asset ''static/index.html'') else reply 404 (PlainText ''404 page not found''), s))
      | Static f \<Rightarrow> (\<lambda>q s. Some (reply 200 (Asset f), s))
      | Bootstrap \<Rightarrow> handleBootstrap
      | Status \<Rightarrow> handleStatus io
      | Diagnostics \<Rightarrow> (\<lambda>q s. Some (reply 200 OtherReport, s))
      | LatestOperation \<Rightarrow> handleLatestOperation
      | Operation ident \<Rightarrow> handleOperation ident
      | Metrics \<Rightarrow> (\<lambda>q s. Some (reply 200 OtherReport, s))
      | GetConfig \<Rightarrow> handleGetConfig io
      | PutSettings \<Rightarrow> handleSettings io
      | RotateToken \<Rightarrow> handleRotateToken io
      | RotateMonitor \<Rightarrow> handleRotateMonitorToken io
      | RevokeMonitor \<Rightarrow> handleRevokeMonitorToken io
      | ReloadTLS \<Rightarrow> handleReloadTLS io
      | CreateRule \<Rightarrow> handleCreateRule io
      | ValidateRules \<Rightarrow> handleValidateRules io
      | PreviewRules \<Rightarrow> handlePreviewRules io
      | ExportTemplate \<Rightarrow> handleExportRuleTemplate
      | ReplaceRules \<Rightarrow> handleReplaceRules io
      | UpdateRule ident \<Rightarrow> handleUpdateRule io ident
      | DeleteRule ident \<Rightarrow> handleDeleteRule io ident)"

definition guarded :: "('n, 'w) web_io \<Rightarrow> endpoint \<Rightarrow> ('n, 'w) handler" where
  "guarded io e =
     (case protection e of
        Public \<Rightarrow> handle io e
      | ReadAuth \<Rightarrow> requireToken io True (handle io e)
      | AdminAuth \<Rightarrow> requireToken io False (handle io e)
      | AdminChange \<Rightarrow> requireToken io False (requireBrowserSameOrigin io (requireCSRF (handle io e))))"

definition dispatch :: "('n, 'w) web_io \<Rightarrow> ('n, 'w) handler" where
  "dispatch io q s =
     (case route (q_Method q) (q_Path q) of
        Endpoint e \<Rightarrow> guarded io e q s
      | Redirect \<Rightarrow> Some (reply 301 NoBody, s)
      | MethodNotAllowed \<Rightarrow> Some (reply 405 (PlainText ''Method Not Allowed''), s))"

definition accessControl :: "('n, 'w) web_io \<Rightarrow> ('n, 'w) handler \<Rightarrow> ('n, 'w) handler" where
  "accessControl io k q s =
     (let (sv, w, v) = s in
      if peer_allowed (ws_acl sv) (q_RemoteAddr q) then k q s
      else Some (reply 403 (PlainText ''Forbidden''),
             sv\<lparr>ws_denied := snd (logACLDenied (wi_now io div second) (denied_name (q_RemoteAddr q)) (ws_denied sv))\<rparr>, w, v))"

text \<open>A quoted keyword of the content policy.\<close>

definition quoted_word :: "string \<Rightarrow> string" where
  "quoted_word s = [CHR 0x27] @ s @ [CHR 0x27]"

definition content_policy :: string where
  "content_policy =
     join ''; '' (map (\<lambda>(name, value). name @ '' '' @ value)
       [(''default-src'', quoted_word ''self''), (''base-uri'', quoted_word ''none''), (''frame-ancestors'', quoted_word ''none''),
        (''form-action'', quoted_word ''self''), (''object-src'', quoted_word ''none''), (''worker-src'', quoted_word ''none''),
        (''manifest-src'', quoted_word ''none''), (''connect-src'', quoted_word ''self''), (''img-src'', quoted_word ''self'' @ '' data:''),
        (''style-src'', quoted_word ''self''), (''script-src'', quoted_word ''self'')])"

definition security_headers :: "bool \<Rightarrow> (string \<times> string) list" where
  "security_headers tls =
     [(''Cache-Control'', ''no-store''), (''X-Content-Type-Options'', ''nosniff''), (''X-Frame-Options'', ''DENY''),
      (''Referrer-Policy'', ''no-referrer''), (''Permissions-Policy'', ''camera=(), microphone=(), geolocation=()''),
      (''Cross-Origin-Opener-Policy'', ''same-origin''), (''Cross-Origin-Resource-Policy'', ''same-origin''),
      (''Content-Security-Policy'', content_policy)]
     @ (if tls then [(''Strict-Transport-Security'', ''max-age=31536000'')] else [])"

definition securityHeaders :: "('n, 'w) handler \<Rightarrow> ('n, 'w) handler" where
  "securityHeaders k q s = map_option (\<lambda>(r, s1). (add_headers (security_headers (q_TLS q)) r, s1)) (k q s)"

definition serve :: "('n, 'w) web_io \<Rightarrow> ('n, 'w) handler" where
  "serve io = securityHeaders (accessControl io (dispatch io))"

text \<open>\<^verbatim>\<open>New\<close>: the server before it listens.\<close>

definition New ::
    "int \<Rightarrow> store \<Rightarrow> snapshot option \<Rightarrow> 'n manager \<Rightarrow> string list \<Rightarrow> string \<Rightarrow> world \<Rightarrow> 'n server option \<times> world" where
  "New now st acl m servers token_file w =
     (let (csrf, w1) = randomHex 24 w in
      (map_option (\<lambda>c.
         \<lparr>ws_store = st, ws_acl = acl, ws_manager = m, ws_servers = servers, ws_tokenFile = token_file, ws_startedAt = now,
          ws_csrf = c, ws_operations = no_operations, ws_startupWeb = Some (c_Web (s_cfg st)), ws_activeTLS = no_certificate,
          ws_activeCert = None, ws_denied = \<lparr>dl_last = 0, dl_suppressed = 0\<rparr>, ws_authFailures = None\<rparr>) csrf, w1))"

text \<open>The part of \<^verbatim>\<open>Start\<close> before the listeners: the certificate to serve.\<close>

definition start_tls :: "tls_io \<Rightarrow> 'n server \<Rightarrow> tls_error + 'n server" where
  "start_tls io sv =
     (let web = c_Web (s_cfg (ws_store sv)) in
      rbind (managementTLSConfig io web) (\<lambda>loaded.
        Inr (sv\<lparr>ws_startupWeb := Some web, ws_activeTLS := certificateStatus loaded, ws_activeCert := map_option tc_Certificate loaded\<rparr>)))"

end
