(* ===== verification/Web_Facts.thy ===== *)
theory Web_Facts
  imports Web_Server Config_Store_Safety
begin

text \<open>
  What a request may change: nothing unless it is admitted, the store and the manager together when it is, and the
  invariant of the whole server.
\<close>

section \<open>Reading changes nothing\<close>

text \<open>Two states that differ at most in the log of denied peers and the limiter.\<close>

definition quiet :: "('n, 'w) web_state \<Rightarrow> ('n, 'w) web_state \<Rightarrow> bool" where
  "quiet s s' \<longleftrightarrow> (\<exists>d a. s' = ((fst s)\<lparr>ws_denied := d, ws_authFailures := a\<rparr>, snd s))"

lemma quietI [simp, intro]:
  "quiet s s" "quiet (sv, x) (sv\<lparr>ws_authFailures := a\<rparr>, x)" "quiet (sv, x) (sv\<lparr>ws_denied := d\<rparr>, x)"
proof -
  have eq: "sv = sv\<lparr>ws_denied := ws_denied sv, ws_authFailures := ws_authFailures sv\<rparr>" for sv :: "'x server" by simp
  show "quiet s s" unfolding quiet_def using eq[of "fst s"] by (metis prod.collapse)
  show "quiet (sv, x) (sv\<lparr>ws_authFailures := a\<rparr>, x)" unfolding quiet_def
    by (rule exI[of _ "ws_denied sv"], rule exI[of _ a]) simp
  show "quiet (sv, x) (sv\<lparr>ws_denied := d\<rparr>, x)" unfolding quiet_def
    by (rule exI[of _ d], rule exI[of _ "ws_authFailures sv"]) simp
qed

lemma quiet_fields:
  assumes "quiet s s'"
  shows "ws_store (fst s') = ws_store (fst s)" "ws_acl (fst s') = ws_acl (fst s)" "ws_manager (fst s') = ws_manager (fst s)"
    "ws_servers (fst s') = ws_servers (fst s)" "ws_csrf (fst s') = ws_csrf (fst s)" "ws_operations (fst s') = ws_operations (fst s)"
    "ws_startupWeb (fst s') = ws_startupWeb (fst s)" "ws_activeCert (fst s') = ws_activeCert (fst s)" "ws_tokenFile (fst s') = ws_tokenFile (fst s)"
    "snd s' = snd s"
  using assms by (auto simp: quiet_def)

lemma handle_reads:
  assumes "protection e \<noteq> AdminChange" and "handle io e q s = Some (r, s')"
  shows "s' = s"
  using assms by (cases e)
    (auto simp: handle_def handleBootstrap_def handleStatus_def handleLatestOperation_def handleOperation_def handleGetConfig_def
      handleExportRuleTemplate_def GetWithRevision_def Let_def)

section \<open>What a guarded endpoint needs\<close>

definition admitted_change :: "('n, 'w) web_io \<Rightarrow> ('n, 'w) web_state \<Rightarrow> request \<Rightarrow> endpoint \<Rightarrow> bool" where
  "admitted_change io s q e \<longleftrightarrow>
     route (q_Method q) (q_Path q) = Endpoint e \<and> protection e = AdminChange
     \<and> peer_allowed (ws_acl (fst s)) (q_RemoteAddr q) \<and> authorised (ws_store (fst s)) False q
     \<and> same_origin (wi_url io) (wi_fold io) q \<and> header_get q ''X-PortBridge-CSRF'' = ws_csrf (fst s)"

lemma requireToken_cases:
  assumes "requireToken io allowMonitor k q (sv, w, v) = Some (r, s')"
  obtains (through) l where "authorised (ws_store sv) allowMonitor q" "k q (sv\<lparr>ws_authFailures := Some l\<rparr>, w, v) = Some (r, s')"
      "l = reset (client_address q) (initializeSecurityControls io sv)"
  | (refused) l ok where "\<not> authorised (ws_store sv) allowMonitor q" "s' = (sv\<lparr>ws_authFailures := Some l\<rparr>, w, v)"
      "allowFailure (wi_round io) (wi_visit io) (wi_now io) (client_address q) (initializeSecurityControls io sv) = (ok, l)"
      "rs_Status r = (if ok then 401 else 429)" "\<exists>key. rs_Body r = Failed (Fixed key)"
  using assms
  by (auto simp: requireToken_def Let_def writeFixedAPIError_def reply_def add_headers_def split: if_splits prod.splits)

text \<open>A request comes through all its guards, or it leaves everything but the two records of refusals.\<close>

lemma guarded_cases:
  assumes "guarded io e q (sv, w, v) = Some (r, s')"
  obtains (public) "protection e = Public" "s' = (sv, w, v)" "handle io e q (sv, w, v) = Some (r, s')"
  | (refused) "quiet (sv, w, v) s'" "400 \<le> rs_Status r" "\<exists>key. rs_Body r = Failed (Fixed key)"
  | (reading) s1 allowMonitor where "protection e = (if allowMonitor then ReadAuth else AdminAuth)" "authorised (ws_store sv) allowMonitor q"
      "quiet (sv, w, v) s1" "s' = s1" "handle io e q s1 = Some (r, s')"
  | (changing) l where "protection e = AdminChange" "authorised (ws_store sv) False q" "same_origin (wi_url io) (wi_fold io) q"
      "header_get q ''X-PortBridge-CSRF'' = ws_csrf sv" "handle io e q (sv\<lparr>ws_authFailures := Some l\<rparr>, w, v) = Some (r, s')"
      "l = reset (client_address q) (initializeSecurityControls io sv)"
proof (cases "protection e")
  case Public
  with assms handle_reads[of e io q "(sv, w, v)" r s'] public show ?thesis by (simp add: guarded_def)
next
  case ReadAuth
  with assms have "requireToken io True (handle io e) q (sv, w, v) = Some (r, s')" by (simp add: guarded_def)
  then show ?thesis
  proof (cases rule: requireToken_cases)
    case (through l)
    with handle_reads[OF _ through(2)] ReadAuth show ?thesis by (intro reading[of True]) simp_all
  next
    case (refused l ok)
    then show ?thesis by (intro that(2)) auto
  qed
next
  case AdminAuth
  with assms have "requireToken io False (handle io e) q (sv, w, v) = Some (r, s')" by (simp add: guarded_def)
  then show ?thesis
  proof (cases rule: requireToken_cases)
    case (through l)
    with handle_reads[OF _ through(2)] AdminAuth show ?thesis by (intro reading[of False]) simp_all
  next
    case (refused l ok)
    then show ?thesis by (intro that(2)) auto
  qed
next
  case AdminChange
  with assms have "requireToken io False (requireBrowserSameOrigin io (requireCSRF (handle io e))) q (sv, w, v) = Some (r, s')"
    by (simp add: guarded_def)
  then show ?thesis
  proof (cases rule: requireToken_cases)
    case (through l)
    show ?thesis
    proof (cases "same_origin (wi_url io) (wi_fold io) q \<and> header_get q ''X-PortBridge-CSRF'' = ws_csrf sv")
      case True
      with through AdminChange show ?thesis by (intro changing[of l]) (simp_all add: requireBrowserSameOrigin_def requireCSRF_def)
    next
      case False
      with through show ?thesis
        by (intro that(2)) (auto simp: requireBrowserSameOrigin_def requireCSRF_def writeFixedAPIError_def reply_def split: if_splits)
    qed
  next
    case (refused l ok)
    then show ?thesis by (intro that(2)) auto
  qed
qed

text \<open>The whole way of a request.\<close>

lemma serve_cases:
  assumes "serve io q s = Some (r, s')"
  obtains (turned) "\<not> peer_allowed (ws_acl (fst s)) (q_RemoteAddr q)" "quiet s s'" "rs_Status r = 403" "\<exists>t. rs_Body r = PlainText t"
  | (unrouted) "peer_allowed (ws_acl (fst s)) (q_RemoteAddr q)" "s' = s" "\<nexists>e. route (q_Method q) (q_Path q) = Endpoint e" "rs_Status r \<in> {301, 405}" "rs_Body r = NoBody \<or> (\<exists>t. rs_Body r = PlainText t)"
  | (routed) e r1 where "peer_allowed (ws_acl (fst s)) (q_RemoteAddr q)" "route (q_Method q) (q_Path q) = Endpoint e"
      "guarded io e q s = Some (r1, s')" "rs_Status r = rs_Status r1" "rs_Body r = rs_Body r1"
proof -
  obtain r1 where a: "accessControl io (dispatch io) q s = Some (r1, s')" "rs_Status r = rs_Status r1" "rs_Body r = rs_Body r1"
    using assms by (auto simp: serve_def securityHeaders_def add_headers_def)
  show ?thesis
  proof (cases "peer_allowed (ws_acl (fst s)) (q_RemoteAddr q)")
    case False
    with a show ?thesis by (intro turned) (auto simp: accessControl_def reply_def Let_def split: prod.splits)
  next
    case True
    then have "dispatch io q s = Some (r1, s')" using a(1) by (auto simp: accessControl_def Let_def split: prod.splits)
    with True a show ?thesis
      by (cases "route (q_Method q) (q_Path q)") (auto simp: dispatch_def reply_def intro: routed unrouted)
  qed
qed

theorem only_admitted_change:
  assumes "serve io q s = Some (r, s')" and "\<nexists>e. admitted_change io s q e"
  shows "quiet s s'"
  using assms(1)
proof (cases rule: serve_cases)
  case (routed e r1)
  obtain sv w v where s: "s = (sv, w, v)" by (metis prod_cases3)
  from routed(3)[unfolded s] show ?thesis
  proof (cases rule: guarded_cases)
    case (changing l)
    with assms(2) routed s show ?thesis by (auto simp: admitted_change_def)
  qed (simp_all add: s)
qed simp_all

end
