(* ===== verification/Manager_Names.thy ===== *)
theory Manager_Names
  imports Manager_Yield
begin

text \<open>
  The rules the manager lists stand under their own identities, the tombstones included.
\<close>

definition rules_named :: "'n manager \<Rightarrow> bool" where
  "rules_named m \<longleftrightarrow> (\<forall>(i, r)\<in>set (mg_rules m). r_ID r = i)"

lemma named_same: "mg_rules m' = mg_rules m \<Longrightarrow> rules_named m' = rules_named m"
  by (simp add: rules_named_def)

lemma named_set: "rules_named m \<Longrightarrow> r_ID r = i \<Longrightarrow> mg_rules m' = alist_set i r (mg_rules m) \<Longrightarrow> rules_named m'"
  using alist_set_set[of i r "mg_rules m"] by (auto simp: rules_named_def)

lemma named_sub: "rules_named m \<Longrightarrow> set (mg_rules m') \<subseteq> set (mg_rules m) \<Longrightarrow> rules_named m'"
  by (auto simp: rules_named_def)

lemma named_tombstone: "rules_named m \<Longrightarrow> r_ID r = i \<Longrightarrow> rules_named (add_tombstone i identity r m)"
  by (rule named_set[of m]) (simp_all add: add_tombstone_def)

lemma tombstone_ids [simp]: "r_ID (tombstone_rule i s) = i" "r_ID (unknown_rule i) = i"
  by (simp_all add: tombstone_rule_def unknown_rule_def)

lemma mark_spec_named: "mark_spec desired s (b, m) = Some (b', m') \<Longrightarrow> rules_named m \<Longrightarrow> rules_named m'"
  by (auto simp: mark_spec_def Let_def named_tombstone split: if_splits)

lemma mark_specs_named: "mark_specs desired ss (b, m) = Some (b', m') \<Longrightarrow> rules_named m \<Longrightarrow> rules_named m'"
proof (induction ss arbitrary: b m)
  case (Cons s ss)
  then obtain b1 m1 where "mark_spec desired s (b, m) = Some (b1, m1)" "mark_specs desired ss (b1, m1) = Some (b', m')"
    by (auto simp: bind_eq_Some_conv)
  with Cons mark_spec_named show ?case by blast
qed simp

lemma status_named:
  assumes "nftRetirementStatus fb desired p result m = Some (bv, m')" and "rules_named m"
  shows "rules_named m'"
proof (cases "nr_err result = None \<or> fb_retirement fb = None")
  case True
  with assms show ?thesis by (cases "nr_err result") (auto simp: nftRetirementStatus_def)
next
  case False
  then obtain e report where er: "nr_err result = Some e" "fb_retirement fb = Some report" by auto
  let ?pot = "potential_specs (report (mg_nft m)) (nr_inspectionFailed result)"
  obtain b1 m1 where m1: "mark_specs desired ?pot ({}, m) = Some (b1, m1)"
    using assms(1) er by (auto simp: nftRetirementStatus_def Let_def bind_eq_Some_conv)
  have "rules_named m1" by (rule mark_specs_named[OF m1 assms(2)])
  with assms(1) er m1 show ?thesis
    by (auto simp: nftRetirementStatus_def Let_def mark_unknown_def bind_eq_Some_conv named_tombstone split: if_splits)
qed

lemma running_named: "setRunning i v msg m = Some m' \<Longrightarrow> mg_rules m' = mg_rules m"
  by (auto simp: setRunning_def)

lemma blocked_rules: "blocked_state fb p result previous i m = Some m' \<Longrightarrow> mg_rules m' = mg_rules m"
  by (cases "nr_err result"; cases "nftRuleState fb m i")
    (auto simp: blocked_state_def with_error_def Let_def set_plane_def setRunning_def split: if_splits)

lemma enabled_rules: "enabled_state p result known errs i m = Some m' \<Longrightarrow> mg_rules m' = mg_rules m"
  by (auto simp: enabled_state_def Let_def setRunning_def split: if_splits)

lemma update_rule_named:
  assumes "update_rule fb p blocked known errs result (i, r) m = Some m'" and "rules_named m" and "r_ID r = i"
  shows "rules_named m'"
proof (rule named_set[OF assms(2,3)])
  show "mg_rules m' = alist_set i r (mg_rules m)"
    using assms(1) by (cases "nr_err result")
      (auto simp: update_rule_def Let_def set_plane_def with_error_def dest!: running_named blocked_rules enabled_rules split: if_splits)
qed

lemma try_all_named:
  assumes "\<And>x m m'. x \<in> set xs \<Longrightarrow> f x m = Some m' \<Longrightarrow> rules_named m \<Longrightarrow> rules_named m'"
  shows "try_all f xs m = Some m' \<Longrightarrow> rules_named m \<Longrightarrow> rules_named m'"
  using assms
proof (induction xs arbitrary: m)
  case (Cons x xs)
  then obtain m1 where "f x m = Some m1" "try_all f xs m1 = Some m'" by (auto simp: bind_eq_Some_conv)
  with Cons show ?case by (metis list.set_intros(1,2))
qed simp

lemma retire_rule_named:
  assumes "retire_rule desired blocked result x m = Some m'" and "rules_named m"
  shows "rules_named m'"
proof (rule named_sub[OF assms(2)])
  show "set (mg_rules m') \<subseteq> set (mg_rules m)"
    using assms(1) by (cases "nr_err result")
      (auto simp: retire_rule_def Let_def with_error_def forget_rule_def alist_remove_def dest!: running_named split: if_splits)
qed

section \<open>One application\<close>

lemma kernel_phase_desired:
  assumes k: "kernel_phase sy env rules c s = (p, result, m2, w2)" and ok: "manager_ok (fst s)" and fair: "fair sy"
  shows "mg_desired m2 = mg_desired (fold desire rules ((fst s)\<lparr>mg_desired := []\<rparr>))"
proof -
  define m0 where "m0 = fold desire rules ((fst s)\<lparr>mg_desired := []\<rparr>)"
  obtain q v where b: "buildPlan env (mg_settings m0) c rules (mg_resolver m0) = (q, v)" by fastforce
  define s1 where "s1 = stopChangedRunners sy q (m0\<lparr>mg_resolver := v\<rparr>, snd s)"
  have r: "reconcileNFT (sy_kernel sy) q s1 = (result, m2, w2)"
    using k unfolding kernel_phase_def Let_def m0_def[symmetric] b prod.case s1_def by auto
  have "distinct (map fst (mg_runners (fst (m0\<lparr>mg_resolver := v\<rparr>, snd s))))"
    using manager_okD(1)[OF ok] desire_all(1)[of rules "(fst s)\<lparr>mg_desired := []\<rparr>"] by (simp add: m0_def)
  note st = stopChangedRunners_runners(1)[OF fair this, where p = q, folded s1_def, simplified]
  have "mg_desired m2 = mg_desired (fst s1)"
    using reconcileNFT_step(1)[of "sy_kernel sy" q "fst s1" "snd s1"] r kernel_step_fields(6) by (metis prod.collapse)
  with same_elsewhere_fields[OF st] show ?thesis by (simp add: m0_def)
qed

lemma desire_named:
  "\<forall>x\<in>set (mg_desired m). r_ID (snd x) = fst x \<Longrightarrow> \<forall>x\<in>set (mg_desired (fold desire rules m)). r_ID (snd x) = fst x"
proof (induction rules arbitrary: m)
  case (Cons r rules)
  have "\<forall>x\<in>set (mg_desired (desire r m)). r_ID (snd x) = fst x"
    using Cons.prems alist_set_set[of "r_ID (NormalizeRule r)" "NormalizeRule r" "mg_desired m"] by (auto simp: desire_def Let_def)
  from Cons.IH[OF this] show ?case by simp
qed simp

theorem apply_named:
  assumes run: "apply_rules sy env rules c s = Some s'" and ok: "manager_ok (fst s)" and fair: "fair sy" and n: "rules_named (fst s)"
  shows "rules_named (fst s')"
proof -
  let ?fb = "sy_kernel sy"
  obtain p result m2 w2 where k: "kernel_phase sy env rules c s = (p, result, m2, w2)" by (metis prod_cases4)
  note kf = kernel_phase_facts[OF k ok fair]
  have n2: "rules_named m2" using n named_same[OF kf(6)] by blast
  have desired: "\<forall>x\<in>set (mg_desired m2). r_ID (snd x) = fst x"
    unfolding kernel_phase_desired[OF k ok fair] by (rule desire_named) simp
  have ids: "g_RuleID (snd x) \<in> fst ` set (mg_desired m2)" if "x \<in> set (p_goRules p)" for x
    using kf(3) that unfolding kf(2) plan_shape_def by (cases x) auto
  obtain b known m3 where bv: "nftRetirementStatus ?fb (mg_desired m2) p result m2 = Some ((b, known), m3)" and tomb: "entombs (mg_desired m2) m2 m3"
    using nftRetirementStatus_facts[where fb = ?fb and desired = "mg_desired m2" and p = p and result = result and m = m2, OF ids] by metis
  note c = core_fields[OF entombsD(1)[OF tomb]]
  have n3: "rules_named m3" by (rule status_named[OF bv n2])
  let ?r = "without_cleanup ?fb result" and ?b = "all_blocked ?fb result b m3"
  obtain errs m4 w4 where rr: "reconcileRunners sy env p ?b ?r (m3, w2) = (errs, m4, w4)" by (metis prod_cases3)
  have "distinct (map fst (mg_runners (fst (m3, w2))))" "distinct (map fst (p_goRules p))"
    using manager_okD(1)[OF kf(1)] c(1) kf(3) by (simp_all add: plan_shape_def)
  from same_elsewhere_fields(3)[OF reconcileRunners_facts(1)[OF rr fair this]] have "mg_rules m4 = mg_rules m3" by simp
  from named_same[OF this] n3 have n4: "rules_named m4" by blast
  have "settle sy env p ?r ?b known (m3, w2) = Some s'" using run unfolding apply_rules_def Let_def k prod.case bv by simp
  then obtain m5 where u: "updateRuleStates ?fb (mg_desired m2) p ?b known errs ?r m4 = Some m5"
    and t: "retireRemovedRules (mg_desired m2) ?b ?r m5 = Some (fst s')"
    using rr by (auto simp: settle_def Let_def bind_eq_Some_conv c(6))
  have n5: "rules_named m5"
  proof (rule try_all_named[OF _ u[unfolded updateRuleStates_def] n4])
    show "rules_named m'" if "x \<in> set (mg_desired m2)" "update_rule ?fb p ?b known errs ?r x m = Some m'" "rules_named m" for x m m'
      using that desired update_rule_named[of ?fb p ?b known errs ?r "fst x" "snd x"] by simp
  qed
  show ?thesis by (rule try_all_named[OF _ t[unfolded retireRemovedRules_def] n5]) (rule retire_rule_named)
qed

end
