(* ===== verification/Web_Invariant.thy ===== *)
theory Web_Invariant
  imports Web_Facts Manager_Names
begin

text \<open>
  The invariant of the server: a valid stored configuration on the disk, a manager in good order that was given its
  rules, a log of operations and a limiter within their bounds.  Every request keeps it and is answered.
\<close>

section \<open>The manager is in step with the configuration\<close>

lemma normalise_keeps_id [simp]: "r_ID (NormalizeRule r) = r_ID r"
  by (simp add: NormalizeRule_def Let_def)

definition in_step :: "rule list \<Rightarrow> 'n manager \<Rightarrow> bool" where
  "in_step rules m \<longleftrightarrow> fst ` set (mg_desired m) = r_ID ` set rules
     \<and> (\<forall>(i, r)\<in>set (mg_desired m). r_ID r = i \<and> (\<exists>r0 n. keyed r_ID rules i = Some r0 \<and> r = (NormalizeRule ^^ Suc n) r0))"

lemma desired_of_rules:
  "map_of (mg_desired (fold desire rules m)) = (\<lambda>i. case keyed r_ID rules i of None \<Rightarrow> map_of (mg_desired m) i | Some r \<Rightarrow> Some (NormalizeRule r))"
proof (induction rules rule: rev_induct)
  case Nil
  then show ?case by (simp add: keyed_def)
next
  case (snoc r rules)
  have "map_of (mg_desired (fold desire (rules @ [r]) m)) = (map_of (mg_desired (fold desire rules m)))(r_ID r \<mapsto> NormalizeRule r)"
    by (simp add: desire_def Let_def)
  with snoc show ?case by (auto simp: keyed_def fun_eq_iff)
qed

lemma keyed_pairs:
  "distinct (map fst ps) \<Longrightarrow> \<forall>(i, r)\<in>set ps. key r = i \<Longrightarrow> keyed key (map snd ps) i = map_of ps i"
proof (induction ps arbitrary: i rule: rev_induct)
  case (snoc p ps)
  then have "map_of ps (fst p) = None" "key (snd p) = fst p" "keyed key (map snd ps) i = map_of ps i" for i
    by (auto simp: map_of_eq_None_iff split: prod.splits)
  with snoc show ?case by (cases p) (auto simp: keyed_def map_add_def split: option.splits)
qed (simp add: keyed_def)

lemma apply_desired:
  assumes "apply_rules (command_service sx nio ord) env rules c s = Some s'" and "service_ok s"
  shows "map_of (mg_desired (fst s')) = (\<lambda>i. map_option NormalizeRule (keyed r_ID rules i))" and "service_ok s'"
proof -
  obtain p result m2 w2 where k: "kernel_phase (command_service sx nio ord) env rules c s = (p, result, m2, w2)" by (metis prod_cases4)
  have ok: "manager_ok (fst s)" using assms(2) by (simp add: service_ok_def)
  obtain m' w' where "apply_rules (command_service sx nio ord) env rules c s = Some (m', w')" "mg_desired m' = mg_desired m2"
    using apply_facts[OF k ok service_sel(2)] by metis
  then have "mg_desired (fst s') = mg_desired (fold desire rules ((fst s)\<lparr>mg_desired := []\<rparr>))"
    using assms(1) kernel_phase_desired[OF k ok service_sel(2)] by simp
  then show "map_of (mg_desired (fst s')) = (\<lambda>i. map_option NormalizeRule (keyed r_ID rules i))"
    using desired_of_rules[of rules "(fst s)\<lparr>mg_desired := []\<rparr>"] by (auto simp: fun_eq_iff split: option.splits)
  show "service_ok s'" by (rule service_apply[OF assms(2,1)])
qed

lemma in_stepI:
  assumes "manager_ok m" and d: "\<And>i. map_of (mg_desired m) i = map_option NormalizeRule (keyed r_ID rules' i)"
    and r': "\<And>i r. keyed r_ID rules' i = Some r \<Longrightarrow> \<exists>r0 n. keyed r_ID rules i = Some r0 \<and> r = (NormalizeRule ^^ n) r0"
    and ids: "r_ID ` set rules' = r_ID ` set rules"
  shows "in_step rules m"
proof -
  have "i \<in> fst ` set (mg_desired m) \<longleftrightarrow> i \<in> r_ID ` set rules" for i
  proof -
    have "i \<notin> fst ` set (mg_desired m) \<longleftrightarrow> map_of (mg_desired m) i = None" by (simp add: map_of_eq_None_iff)
    also have "\<dots> \<longleftrightarrow> keyed r_ID rules' i = None" by (simp add: d)
    also have "\<dots> \<longleftrightarrow> i \<notin> r_ID ` set rules'" by (rule keyed_None)
    finally show ?thesis using ids by blast
  qed
  moreover have "r_ID r = i \<and> (\<exists>r0 n. keyed r_ID rules i = Some r0 \<and> r = (NormalizeRule ^^ Suc n) r0)"
    if "(i, r) \<in> set (mg_desired m)" for i r
  proof -
    have "map_of (mg_desired m) i = Some r" using that manager_okD(3)[OF assms(1)] by simp
    then obtain q where q: "keyed r_ID rules' i = Some q" "r = NormalizeRule q" using d by auto
    with r'[OF q(1)] keyed_Some[OF q(1)] show ?thesis by (auto intro: exI)
  qed
  ultimately show ?thesis unfolding in_step_def by blast
qed

lemma apply_in_step:
  assumes "apply_rules (command_service sx nio ord) env rules c s = Some s'" and "service_ok s"
  shows "in_step rules (fst s')"
proof (rule in_stepI[where rules' = rules])
  show "manager_ok (fst s')" using apply_desired(2)[OF assms] by (simp add: service_ok_def)
  show "map_of (mg_desired (fst s')) i = map_option NormalizeRule (keyed r_ID rules i)" for i
    using apply_desired(1)[OF assms] by simp
  show "\<exists>r0 n. keyed r_ID rules i = Some r0 \<and> r = (NormalizeRule ^^ n) r0" if "keyed r_ID rules i = Some r" for i r
    using that by (intro exI[of _ r] exI[of _ 0]) simp
qed simp

lemma servers_in_step:
  assumes run: "SetDNSServers (command_service sx nio ord) env s = Some s'" and ok: "service_ok s" and st: "in_step rules (fst s)"
  shows "in_step rules (fst s')" and "service_ok s'" and "rules_named (fst s) \<Longrightarrow> rules_named (fst s')"
proof -
  let ?sy = "command_service sx nio ord"
  let ?ds = "mg_desired (fst s)"
  let ?ps = "iter ?sy 5 ?ds"
  let ?s = "((fst s)\<lparr>mg_resolver := (mg_resolver (fst s))\<lparr>v_resolved := (\<lambda>_. None)\<rparr>\<rparr>, snd s)"
  have a: "apply_rules ?sy env (map snd ?ps) False ?s = Some s'" using run by (simp add: SetDNSServers_def Apply_def)
  have ok': "service_ok ?s" using ok by (simp add: service_ok_def manager_ok_def)
  have d: "distinct (map fst ?ds)" using ok by (simp add: service_ok_def manager_ok_def)
  have o: "distinct (sy_order ?sy 5 (map fst ?ds))" "set (sy_order ?sy 5 (map fst ?ds)) = fst ` set ?ds"
    using service_sel(2)[of sx nio ord] d unfolding fair_def by simp_all
  have ps: "set ?ps = set ?ds" "distinct (map fst ?ps)"
    using picked_entries(1)[of "map_of ?ds" "sy_order ?sy 5 (map fst ?ds)"] picked_entries(2)[of "map_of ?ds" "sy_order ?sy 5 (map fst ?ds)"] o d
    unfolding iter_def by (auto simp: map_of_eq_Some_iff[OF d] dest: map_of_SomeD intro: rev_image_eqI)
  have keys: "\<forall>(i, r)\<in>set ?ps. r_ID r = i" using st unfolding ps(1) in_step_def by fast
  have k: "keyed r_ID (map snd ?ps) i = map_of ?ps i" for i by (rule keyed_pairs[OF ps(2) keys])
  show "service_ok s'" by (rule apply_desired(2)[OF a ok'])
  have "manager_ok (fst ?s)" using ok' by (simp add: service_ok_def)
  from apply_named[OF a this service_sel(2)] show "rules_named (fst s) \<Longrightarrow> rules_named (fst s')" by (simp add: rules_named_def)
  show "in_step rules (fst s')"
  proof (rule in_stepI[where rules' = "map snd ?ps"])
    show "manager_ok (fst s')" using \<open>service_ok s'\<close> by (simp add: service_ok_def)
    show "map_of (mg_desired (fst s')) i = map_option NormalizeRule (keyed r_ID (map snd ?ps) i)" for i
      using apply_desired(1)[OF a ok'] by simp
    show "\<exists>r0 n. keyed r_ID rules i = Some r0 \<and> r = (NormalizeRule ^^ n) r0" if "keyed r_ID (map snd ?ps) i = Some r" for i r
    proof -
      have "(i, r) \<in> set ?ds" using that k ps by (metis map_of_SomeD)
      with st show ?thesis unfolding in_step_def by blast
    qed
    have "r_ID ` set (map snd ?ps) = fst ` set ?ps" using keys by force
    then show "r_ID ` set (map snd ?ps) = r_ID ` set rules" using st ps(1) unfolding in_step_def by simp
  qed
qed

section \<open>The invariant\<close>

definition sound :: "(config \<Rightarrow> string) \<Rightarrow> (rat \<Rightarrow> rat) \<Rightarrow> (backend, 'w \<times> (nat \<times> nat) list) web_state \<Rightarrow> bool" where
  "sound enc rnd s \<longleftrightarrow>
     store_ok enc (ws_store (fst s)) (fst (snd s)) \<and> service_ok (ws_manager (fst s), snd (snd s))
     \<and> rules_named (ws_manager (fst s)) \<and> log_fine (ws_operations (fst s)) \<and> (\<forall>l. ws_authFailures (fst s) = Some l \<longrightarrow> limiter_fine rnd l)
     \<and> (ws_tokenFile (fst s) = [] \<or> separate (s_path (ws_store (fst s))) (ws_tokenFile (fst s)))"

definition server_ok :: "(config \<Rightarrow> string) \<Rightarrow> (rat \<Rightarrow> rat) \<Rightarrow> (backend, 'w \<times> (nat \<times> nat) list) web_state \<Rightarrow> bool" where
  "server_ok enc rnd s \<longleftrightarrow> sound enc rnd s \<and> in_step (c_Rules (s_cfg (ws_store (fst s)))) (ws_manager (fst s))"

text \<open>
  The requests are those of one service: its manager has the command backend, one codec writes its configuration, one
  rounding computes its floats, and a loop over a map visits every entry.
\<close>

definition fair_visit :: "('a list \<Rightarrow> 'a list) \<Rightarrow> 'a list \<Rightarrow> 'a list" where
  "fair_visit f es = (if set (f es) = set es then f es else es)"

definition with_service ::
    "'w socket_io \<Rightarrow> 'w nft_io \<Rightarrow> (nat \<Rightarrow> string list \<Rightarrow> string list) \<Rightarrow> (config \<Rightarrow> string) \<Rightarrow> (rat \<Rightarrow> rat)
     \<Rightarrow> (backend, 'w \<times> (nat \<times> nat) list) web_io \<Rightarrow> (backend, 'w \<times> (nat \<times> nat) list) web_io" where
  "with_service sx nio ord enc rnd io =
     io\<lparr>wi_system := command_service sx nio ord, wi_indent := enc, wi_round := rnd, wi_visit := fair_visit (wi_visit io)\<rparr>"

lemma with_service_sel [simp]:
  "wi_system (with_service sx nio ord enc rnd io) = command_service sx nio ord" "wi_indent (with_service sx nio ord enc rnd io) = enc"
  "wi_round (with_service sx nio ord enc rnd io) = rnd" "wi_visit (with_service sx nio ord enc rnd io) = fair_visit (wi_visit io)"
  "wi_compact (with_service sx nio ord enc rnd io) = wi_compact io" "wi_url (with_service sx nio ord enc rnd io) = wi_url io"
  "wi_fold (with_service sx nio ord enc rnd io) = wi_fold io" "wi_interfaces (with_service sx nio ord enc rnd io) = wi_interfaces io"
  "wi_environment (with_service sx nio ord enc rnd io) = wi_environment io" "wi_texts (with_service sx nio ord enc rnd io) = wi_texts io"
  "wi_now (with_service sx nio ord enc rnd io) = wi_now io"
  by (simp_all add: with_service_def)

lemma fair_visit_set: "set (fair_visit f es) = set es"
  by (simp add: fair_visit_def)

lemma sound_files: "files w1 = files w \<Longrightarrow> sound enc rnd (sv, w1, v) = sound enc rnd (sv, w, v)"
  by (simp add: sound_def store_ok_def)

lemma randomHex_files: "randomHex n w = (t, w1) \<Longrightarrow> files w1 = files w"
  by (auto simp: randomHex_def rand_read_def Let_def split: if_splits)

text \<open>A reply, in a state that satisfies the invariant.\<close>

definition answered ::
    "(config \<Rightarrow> string) \<Rightarrow> (rat \<Rightarrow> rat) \<Rightarrow> (response \<times> (backend, 'w \<times> (nat \<times> nat) list) web_state) option \<Rightarrow> bool" where
  "answered enc rnd x \<longleftrightarrow> (case x of None \<Rightarrow> False | Some y \<Rightarrow> server_ok enc rnd (snd y))"

lemma answered_simps [simp]: "answered enc rnd (Some y) = server_ok enc rnd (snd y)" "\<not> answered enc rnd None"
  by (simp_all add: answered_def)

lemma answeredE: "answered enc rnd x \<Longrightarrow> \<exists>r s'. x = Some (r, s') \<and> server_ok enc rnd s'"
  by (cases x) auto

section \<open>Changes\<close>

lemma update_config_facts:
  assumes run: "update_config (with_service sx nio ord enc rnd io) expected fn s = (r, s1)" and ok: "sound enc rnd s"
  shows "sound enc rnd s1" and "fst s1 = (fst s)\<lparr>ws_store := ws_store (fst s1)\<rparr>" and "snd (snd s1) = snd (snd s)"
    and "r = Inl e \<Longrightarrow> ws_store (fst s1) = ws_store (fst s)"
    and "r = Inl RevisionConflict \<Longrightarrow> s1 = s"
    and "r = Inr cfg \<Longrightarrow> s_cfg (ws_store (fst s1)) = cfg \<and> Validate cfg = None
           \<and> (\<exists>changed. fn (s_cfg (ws_store (fst s))) = Inr changed \<and> cfg = changed\<lparr>c_Version := CurrentVersion\<rparr>)
           \<and> (expected \<noteq> [] \<longrightarrow> expected = Revision (wi_compact io) (s_cfg (ws_store (fst s))))"
proof -
  obtain sv w v where s: "s = (sv, w, v)" by (metis prod_cases3)
  obtain q st w1 where u: "UpdateIfRevision enc (wi_compact io) expected fn (ws_store sv) w = (q, st, w1)" by (metis prod_cases3)
  have eq: "r = q" "s1 = (sv\<lparr>ws_store := st\<rparr>, w1, v)" using run u by (simp_all add: update_config_def s)
  have keeps: "store_ok enc st w1 \<and> s_path st = s_path (ws_store sv)"
    using update_if.meth_keeps[OF u] ok by (simp add: sound_def s)
  then show "sound enc rnd s1" using ok by (simp add: sound_def s eq)
  show "fst s1 = (fst s)\<lparr>ws_store := ws_store (fst s1)\<rparr>" "snd (snd s1) = snd (snd s)" by (simp_all add: s eq)
  have cases: "q = Inl RevisionConflict \<and> st = ws_store sv \<and> w1 = w
      \<or> (expected = [] \<or> expected = Revision (wi_compact io) (s_cfg (ws_store sv))) \<and> updateLocked enc fn (ws_store sv) w = (q, st, w1)"
    using u by (auto simp: UpdateIfRevision_def split: if_splits)
  have locked: "q \<noteq> Inl RevisionConflict" if "updateLocked enc fn (ws_store sv) w = (q, st, w1)"
    using that by (auto simp: updateLocked_def saveLocked_def Let_def split: sum.splits option.splits prod.splits)
  show "ws_store (fst s1) = ws_store (fst s)" if "r = Inl e"
    using cases that by (auto simp: s eq elim: updateLocked_cases)
  show "s1 = s" if "r = Inl RevisionConflict"
    using cases locked that by (auto simp: s eq)
  show "s_cfg (ws_store (fst s1)) = cfg \<and> Validate cfg = None
           \<and> (\<exists>changed. fn (s_cfg (ws_store (fst s))) = Inr changed \<and> cfg = changed\<lparr>c_Version := CurrentVersion\<rparr>)
           \<and> (expected \<noteq> [] \<longrightarrow> expected = Revision (wi_compact io) (s_cfg (ws_store (fst s))))" if "r = Inr cfg"
    using cases that by (auto simp: s eq elim!: updateLocked_cases)
qed

lemma all_rows_Runtime:
  assumes "manager_ok m"
  shows "\<exists>rows. all_rows (Runtime fb m) = Some rows"
proof -
  have "rule_report fb m x \<noteq> None" if "x \<in> set (mg_rules m)" for x
    using manager_okD(4)[OF assms, of "fst x"] that by (cases x) (force simp: rule_report_def)
  then have "None \<notin> set (Runtime fb m)" unfolding Runtime_def set_map set_sort by (metis imageE set_sort)
  then show ?thesis by (simp add: all_rows_def)
qed

lemma run_operation_ok:
  assumes ok: "sound enc rnd s"
  shows "\<exists>op s'. run_operation (with_service sx nio ord enc rnd io) ident cfg affected s = Some (op, s') \<and> sound enc rnd s'
    \<and> in_step (c_Rules cfg) (ws_manager (fst s')) \<and> ws_store (fst s') = ws_store (fst s)"
proof -
  obtain sv w v where s: "s = (sv, w, v)" by (metis prod_cases3)
  obtain op l where o: "newApplyOperation (wi_now io) ident (Revision (wi_compact io) cfg) affected (ws_operations sv) = (op, l)" by fastforce
  have l: "log_fine l" using o ok setOperation_fine(1) by (auto simp: newApplyOperation_def Let_def sound_def s)
  have srv: "service_ok (ws_manager sv, v)" using ok by (simp add: sound_def s)
  let ?env = "wi_environment io (ws_servers sv)"
  obtain m1 v1 where a: "apply_rules (command_service sx nio ord) ?env (c_Rules cfg) False (ws_manager sv, v) = Some (m1, v1)"
    using apply_facts_total[OF srv] by (metis surj_pair)
  have "manager_ok (fst (ws_manager sv, v))" "rules_named (fst (ws_manager sv, v))" using ok srv by (simp_all add: sound_def s service_ok_def)
  note k = apply_in_step[OF a srv] apply_desired(2)[OF a srv] apply_named[OF a this(1) service_sel(2) this(2)]
  obtain rows where rows: "all_rows (Runtime (sy_kernel (command_service sx nio ord)) m1) = Some rows"
    using all_rows_Runtime k(2) unfolding service_ok_def by (metis fst_conv)
  have "log_fine (setOperation op2 (setOperation (op\<lparr>op_State := ''applying''\<rparr>) l))" for op2
    by (intro setOperation_fine(1) l)
  moreover have "wi_environment (with_service sx nio ord enc rnd io) = wi_environment io"
    "wi_texts (with_service sx nio ord enc rnd io) = wi_texts io" "wi_now (with_service sx nio ord enc rnd io) = wi_now io"
    by (simp_all add: with_service_def)
  ultimately show ?thesis
    using ok k rows a o by (simp add: run_operation_def applyRuleOperation_def Apply_def sound_def s Let_def)
qed

lemma change_rules_ok:
  assumes ok: "server_ok enc rnd s"
  shows "answered enc rnd (change_rules (with_service sx nio ord enc rnd io) ident expected fn affected failure success s)"
proof -
  have so: "sound enc rnd s" using ok by (simp add: server_ok_def)
  obtain q s1 where u: "update_config (with_service sx nio ord enc rnd io) expected fn s = (q, s1)" by (metis surj_pair)
  note f = update_config_facts[OF u so]
  show ?thesis
  proof (cases q)
    case (Inl e)
    have "ws_manager (fst s1) = ws_manager (fst s)" by (subst f(2)) simp
    with Inl u f(1) f(4)[OF Inl] ok show ?thesis by (simp add: change_rules_def server_ok_def)
  next
    case (Inr cfg)
    obtain op s2 where op: "run_operation (with_service sx nio ord enc rnd io) ident cfg (affected cfg) s1 = Some (op, s2)" "sound enc rnd s2"
      "in_step (c_Rules cfg) (ws_manager (fst s2))" "ws_store (fst s2) = ws_store (fst s1)"
      using run_operation_ok[OF f(1)] by metis
    have c: "s_cfg (ws_store (fst s1)) = cfg" using f(6)[OF Inr] by blast
    have "server_ok enc rnd s2" unfolding server_ok_def op(4) c using op(2,3) by blast
    moreover have "change_rules (with_service sx nio ord enc rnd io) ident expected fn affected failure success s = Some (success op, s2)"
      by (simp add: change_rules_def u Inr op(1))
    ultimately show ?thesis by simp
  qed
qed

lemma server_ok_files: "files w1 = files w \<Longrightarrow> server_ok enc rnd (sv, w1, v) = server_ok enc rnd (sv, w, v)"
  by (simp add: server_ok_def sound_def store_ok_def)

lemma with_operation_ok:
  assumes ok: "server_ok enc rnd s" and k: "\<And>expected ident s. server_ok enc rnd s \<Longrightarrow> answered enc rnd (k expected ident s)"
  shows "answered enc rnd (with_operation q k s)"
proof (cases "requestedRevision q")
  case None
  with ok show ?thesis by (simp add: with_operation_def)
next
  case (Some expected)
  obtain sv w v where s: "s = (sv, w, v)" by (metis prod_cases3)
  obtain t w1 where t: "randomHex 16 w = (t, w1)" by fastforce
  have "server_ok enc rnd (sv, w1, v)" using server_ok_files[OF randomHex_files[OF t]] ok[unfolded s] by blast
  with Some t k show ?thesis by (cases t) (simp_all add: with_operation_def s)
qed

end
