(* ===== verification/Web_Serve.thy ===== *)
theory Web_Serve
  imports Web_Invariant
begin

text \<open>
  Every request is answered and keeps the invariant: each handler does, and each guard put before one does.
\<close>

section \<open>The contract of a handler\<close>

locale lawful_handler =
  fixes enc :: "config \<Rightarrow> string" and rnd :: "rat \<Rightarrow> rat"
    and k :: "(backend, 'w \<times> (nat \<times> nat) list) handler"
  assumes answers: "server_ok enc rnd s \<Longrightarrow> answered enc rnd (k q s)"
begin

lemma keeps: "server_ok enc rnd s \<Longrightarrow> k q s = Some (r, s') \<Longrightarrow> server_ok enc rnd s'"
  using answers[of s q] by simp

text \<open>A guard either calls the handler on a state that is as good, or refuses.\<close>

lemma behind_origin: "server_ok enc rnd s \<Longrightarrow> answered enc rnd (requireBrowserSameOrigin io k q s)"
  using answers[of s q] by (auto simp: requireBrowserSameOrigin_def)

lemma behind_csrf: "server_ok enc rnd s \<Longrightarrow> answered enc rnd (requireCSRF k q s)"
  using answers[of s q] by (auto simp: requireCSRF_def)

lemma behind_token:
  assumes r: "rounding rnd" and ok: "server_ok enc rnd s"
  shows "answered enc rnd (requireToken (with_service sx nio ord enc rnd io) b k q s)"
proof -
  let ?io = "with_service sx nio ord enc rnd io"
  obtain sv w v where s: "s = (sv, w, v)" by (metis prod_cases3)
  have fine: "limiter_fine rnd (initializeSecurityControls ?io sv)"
    using ok by (auto simp: initializeSecurityControls_def server_ok_def sound_def s new_limiter_fine split: option.splits)
  have keep: "server_ok enc rnd (sv\<lparr>ws_authFailures := Some l\<rparr>, w, v)" if "limiter_fine rnd l" for l
    using ok that by (simp add: server_ok_def sound_def s)
  show ?thesis
  proof (cases "authorised (ws_store sv) b q")
    case True
    with answers[OF keep[OF reset_fine[OF fine]], of q] show ?thesis by (simp add: requireToken_def Let_def s)
  next
    case False
    obtain ok' l where a: "allowFailure rnd (fair_visit (wi_visit io)) (wi_now ?io) (client_address q) (initializeSecurityControls ?io sv) = (ok', l)"
      by (metis surj_pair)
    have "limiter_fine rnd l" by (rule allowFailure_fine[OF r fine fair_visit_set a])
    from keep[OF this] False a show ?thesis by (simp add: requireToken_def Let_def s)
  qed
qed

lemma behind_access: "server_ok enc rnd s \<Longrightarrow> answered enc rnd (accessControl io k q s)"
  using answers[of s q] by (cases s) (auto simp: accessControl_def server_ok_def sound_def Let_def)

lemma behind_headers: "server_ok enc rnd s \<Longrightarrow> answered enc rnd (securityHeaders k q s)"
  using answers[of s q] by (cases "k q s") (auto simp: securityHeaders_def)

end

section \<open>Settings and tokens\<close>

lemma take_back_ok:
  assumes so: "server_ok enc rnd s" and old: "c_Rules old = c_Rules (s_cfg (ws_store (fst s)))"
  shows "server_ok enc rnd (take_back (with_service sx nio ord enc rnd io) old s)"
proof -
  let ?io = "with_service sx nio ord enc rnd io"
  have sd: "sound enc rnd s" using so by (simp add: server_ok_def)
  obtain q s1 where u: "update_config ?io [] (\<lambda>_. Inr old) s = (q, s1)" by (metis surj_pair)
  note f = update_config_facts[OF u sd]
  have "c_Rules (s_cfg (ws_store (fst s1))) = c_Rules (s_cfg (ws_store (fst s)))"
    using f(4) f(6) old by (cases q) auto
  moreover have "ws_manager (fst s1) = ws_manager (fst s)" by (subst f(2)) simp
  ultimately have "server_ok enc rnd s1" using f(1) so by (simp add: server_ok_def)
  then show ?thesis using u by (cases s1) (simp add: take_back_def Let_def server_ok_def sound_def split: prod.splits)
qed

lemma adopt_ok:
  assumes so: "server_ok enc rnd s" and old: "c_Rules old = c_Rules (s_cfg (ws_store (fst s)))"
  shows "answered enc rnd (adopt_settings (with_service sx nio ord enc rnd io) old cfg s)"
proof -
  let ?io = "with_service sx nio ord enc rnd io"
  obtain sv w v where s: "s = (sv, w, v)" by (metis prod_cases3)
  obtain e acl where r: "refresh_acl (wi_interfaces ?io 0) (c_Web cfg) (ws_acl sv) = (e, acl)" by (metis surj_pair)
  show ?thesis
  proof (cases e)
    case (Some x)
    with take_back_ok[OF assms, of sx nio ord io] r show ?thesis by (simp add: adopt_settings_def s)
  next
    case None
    let ?env = "wi_environment ?io (w_DNSServers (c_Web cfg))"
    have srv: "service_ok (ws_manager sv, v)" using so by (simp add: server_ok_def sound_def s)
    then have "\<exists>s'. SetDNSServers (command_service sx nio ord) ?env (ws_manager sv, v) = Some s'"
      unfolding SetDNSServers_def Apply_def by (intro apply_facts_total) (simp add: service_ok_def manager_ok_def)
    then obtain m v1 where d: "SetDNSServers (command_service sx nio ord) ?env (ws_manager sv, v) = Some (m, v1)" by (metis surj_pair)
    have "in_step (c_Rules (s_cfg (ws_store sv))) (fst (ws_manager sv, v))" using so by (simp add: server_ok_def s)
    from servers_in_step[OF d srv this] so have "server_ok enc rnd (sv\<lparr>ws_acl := acl, ws_servers := w_DNSServers (c_Web cfg), ws_manager := m\<rparr>, w, v1)"
      by (simp add: server_ok_def sound_def s)
    with None r d show ?thesis by (simp add: adopt_settings_def s Let_def)
  qed
qed

lemma check_settings_web: "check_settings io q req = Inr change \<Longrightarrow> \<exists>white dns. change = new_settings req white dns"
  by (auto simp: check_settings_def Let_def split: sum.splits option.splits if_splits)

lemma handleSettings_cases:
  obtains (bad) r where "handleSettings io q s = Some (r, s)"
  | (go) change expected where "handleSettings io q s =
         (case update_config io expected (\<lambda>c. Inr (c\<lparr>c_Web := change (c_Web c)\<rparr>)) s of
            (Inl e, s1) \<Rightarrow> Some (store_failure e, s1)
          | (Inr cfg, s1) \<Rightarrow> adopt_settings io (s_cfg (ws_store (fst s))) cfg s1)"
  by (cases "decode_body io (wi_settings io) q"; cases "check_settings io q (projr (decode_body io (wi_settings io) q))";
      cases "requestedRevision q") (auto simp: handleSettings_def Let_def)

lemma settings_ok:
  assumes ok: "server_ok enc rnd s"
  shows "answered enc rnd (handleSettings (with_service sx nio ord enc rnd io) q s)"
proof -
  let ?io = "with_service sx nio ord enc rnd io"
  have sd: "sound enc rnd s" using ok by (simp add: server_ok_def)
  show ?thesis
  proof (cases rule: handleSettings_cases[of ?io q s])
    case bad
    with ok show ?thesis by simp
  next
    case (go change expected)
    obtain x s1 where u: "update_config ?io expected (\<lambda>c. Inr (c\<lparr>c_Web := change (c_Web c)\<rparr>)) s = (x, s1)" by (rule prod.exhaust)
    note f = update_config_facts[OF u sd]
    have m: "ws_manager (fst s1) = ws_manager (fst s)" by (subst f(2)) simp
    have "c_Rules (s_cfg (ws_store (fst s1))) = c_Rules (s_cfg (ws_store (fst s)))"
      using f(4) f(6) by (cases x) auto
    then have s1: "server_ok enc rnd s1" "c_Rules (s_cfg (ws_store (fst s))) = c_Rules (s_cfg (ws_store (fst s1)))"
      using f(1) m ok by (simp_all add: server_ok_def)
    show ?thesis
    proof (cases x)
      case (Inl e)
      with go u s1 show ?thesis by simp
    next
      case (Inr cfg)
      from adopt_ok[OF s1, of sx nio ord io cfg] go u Inr show ?thesis by simp
    qed
  qed
qed

lemma updated_rules:
  assumes "updateLocked enc fn st w = (r, st', w')" and "\<And>c changed. fn c = Inr changed \<Longrightarrow> c_Rules changed = c_Rules c"
  shows "c_Rules (s_cfg st') = c_Rules (s_cfg st)"
  using assms(1) by (cases rule: updateLocked_cases) (auto dest: assms(2))

lemma RotateAdminToken_keeps:
  assumes run: "RotateAdminToken enc tf st w = (r, st', w')" and ok: "store_ok enc st w" and tf: "tf = [] \<or> separate (s_path st) tf"
  shows "store_ok enc st' w' \<and> s_path st' = s_path st \<and> c_Rules (s_cfg st') = c_Rules (s_cfg st)"
proof (cases "tf = []")
  case False
  note k = rotate.meth_keeps[OF run ok]
  have "c_Rules (s_cfg st') = c_Rules (s_cfg st)"
    using run False
  proof (cases rule: RotateAdminToken_cases)
    case (update t w1 old w2 w3)
    obtain q s4 w4 where u: "updateLocked enc (set_admin (HashToken t)) st w3 = (q, s4, w4)" by (metis prod_cases3)
    have "st' = s4" using update(4)[unfolded u] by (auto simp: finish_rotation_def Let_def split: sum.splits prod.splits if_splits)
    with updated_rules[OF u] show ?thesis by (simp add: set_admin_def)
  qed simp_all
  with k tf False show ?thesis by blast
next
  case True
  obtain t w1 where t: "GenerateToken w = (t, w1)" by (metis surj_pair)
  have w1: "store_ok enc st w1" using ok GenerateToken_files[OF t] by (simp add: store_ok_def)
  show ?thesis
  proof (cases t)
    case None
    with run t w1 show ?thesis by (simp add: RotateAdminToken_def)
  next
    case (Some token)
    obtain q s4 w4 where u: "updateLocked enc (set_admin (HashToken token)) st w1 = (q, s4, w4)" by (metis prod_cases3)
    with run t Some True have "st' = s4" "w' = w4"
      by (auto simp: RotateAdminToken_def finish_rotation_def split: sum.splits)
    with updateLocked_keeps[OF u w1] updated_rules[OF u] show ?thesis by (simp add: set_admin_def)
  qed
qed

lemma RotateMonitorToken_keeps:
  assumes run: "RotateMonitorToken enc st w = (r, st', w')" and ok: "store_ok enc st w"
  shows "store_ok enc st' w' \<and> s_path st' = s_path st \<and> c_Rules (s_cfg st') = c_Rules (s_cfg st)"
proof -
  obtain t w1 where t: "GenerateToken w = (t, w1)" by (metis surj_pair)
  have w1: "store_ok enc st w1" using ok GenerateToken_files[OF t] by (simp add: store_ok_def)
  show ?thesis
  proof (cases t)
    case None
    with run t w1 show ?thesis by (simp add: RotateMonitorToken_def)
  next
    case (Some token)
    obtain q s4 w4 where u: "updateLocked enc (set_monitor (HashToken token)) st w1 = (q, s4, w4)" by (metis prod_cases3)
    with run t Some have "st' = s4" "w' = w4" by (auto simp: RotateMonitorToken_def split: sum.splits)
    with updateLocked_keeps[OF u w1] updated_rules[OF u] show ?thesis by (simp add: set_monitor_def)
  qed
qed

lemma RevokeMonitorToken_keeps:
  assumes run: "RevokeMonitorToken enc st w = (r, st', w')" and ok: "store_ok enc st w"
  shows "store_ok enc st' w' \<and> s_path st' = s_path st \<and> c_Rules (s_cfg st') = c_Rules (s_cfg st)"
proof -
  obtain q where u: "updateLocked enc (set_monitor []) st w = (q, st', w')"
    using run by (auto simp: RevokeMonitorToken_def Let_def split: prod.splits)
  with updateLocked_keeps[OF u ok] updated_rules[OF u] show ?thesis by (simp add: set_monitor_def)
qed

text \<open>A store with the same rules and a good file does not disturb the rest.\<close>

lemma new_store_ok:
  assumes "server_ok enc rnd (sv, w, v)" and "store_ok enc st w1 \<and> s_path st = s_path (ws_store sv) \<and> c_Rules (s_cfg st) = c_Rules (s_cfg (ws_store sv))"
  shows "server_ok enc rnd (sv\<lparr>ws_store := st\<rparr>, w1, v)"
  using assms by (simp add: server_ok_def sound_def)

section \<open>Every handler\<close>

interpretation handled: lawful_handler enc rnd "handle (with_service sx nio ord enc rnd io) e"
  for sx :: "'w socket_io" and nio :: "'w nft_io" and ord enc rnd io e
proof (unfold_locales, goal_cases)
  case (1 s q)
  let ?io = "with_service sx nio ord enc rnd io"
  obtain sv w v where s: "s = (sv, w, v)" by (metis prod_cases3)
  have st: "store_ok enc (ws_store sv) w" "ws_tokenFile sv = [] \<or> separate (s_path (ws_store sv)) (ws_tokenFile sv)"
    and mok: "manager_ok (ws_manager sv)"
    using 1 by (simp_all add: server_ok_def sound_def s service_ok_def)
  show ?case
  proof (cases e)
    case Status
    from all_rows_Runtime[OF mok, of "sy_kernel (command_service sx nio ord)"] 1 Status show ?thesis
      by (auto simp: handle_def handleStatus_def s)
  next
    case PutSettings
    with settings_ok[OF 1] show ?thesis by (simp add: handle_def)
  next
    case RotateToken
    obtain r st' w1 where t: "RotateAdminToken enc (ws_tokenFile sv) (ws_store sv) w = (r, st', w1)" by (metis prod_cases3)
    from new_store_ok[OF 1[unfolded s] RotateAdminToken_keeps[OF t st]] RotateToken t show ?thesis
      by (simp add: handle_def handleRotateToken_def s)
  next
    case RotateMonitor
    obtain r st' w1 where t: "RotateMonitorToken enc (ws_store sv) w = (r, st', w1)" by (metis prod_cases3)
    from new_store_ok[OF 1[unfolded s] RotateMonitorToken_keeps[OF t st(1)]] RotateMonitor t show ?thesis
      by (simp add: handle_def handleRotateMonitorToken_def s)
  next
    case RevokeMonitor
    obtain r st' w1 where t: "RevokeMonitorToken enc (ws_store sv) w = (r, st', w1)" by (metis prod_cases3)
    from new_store_ok[OF 1[unfolded s] RevokeMonitorToken_keeps[OF t st(1)]] RevokeMonitor t show ?thesis
      by (simp add: handle_def handleRevokeMonitorToken_def s)
  next
    case ReloadTLS
    with 1 show ?thesis
      by (auto simp: handle_def handleReloadTLS_def Let_def s server_ok_def sound_def split: sum.splits)
  next
    case CreateRule
    obtain t w1 where t: "NewRuleID w = (t, w1)" by (metis surj_pair)
    have s1: "server_ok enc rnd (sv, w1, v)"
      using server_ok_files[OF randomHex_files[OF t[unfolded NewRuleID_def]]] 1[unfolded s] by blast
    show ?thesis
    proof (cases "decode_body ?io (wi_rule ?io) q")
      case (Inr rule)
      show ?thesis
      proof (cases t)
        case (Some ident)
        from with_operation_ok[OF s1 change_rules_ok] Some Inr t CreateRule show ?thesis
          by (simp add: handle_def handleCreateRule_def s Let_def)
      qed (use s1 t Inr CreateRule in \<open>simp add: handle_def handleCreateRule_def s\<close>)
    qed (use 1 CreateRule in \<open>simp add: handle_def handleCreateRule_def\<close>)
  next
    case (UpdateRule ident)
    show ?thesis
    proof (cases "decode_body ?io (wi_rule ?io) q")
      case (Inr rule)
      from with_operation_ok[OF 1 change_rules_ok] Inr UpdateRule show ?thesis
        by (simp add: handle_def handleUpdateRule_def Let_def)
    qed (use 1 UpdateRule in \<open>simp add: handle_def handleUpdateRule_def\<close>)
  next
    case (DeleteRule ident)
    from with_operation_ok[OF 1 change_rules_ok] DeleteRule show ?thesis by (simp add: handle_def handleDeleteRule_def)
  next
    case ReplaceRules
    show ?thesis
    proof (cases "requestedRevision q")
      case (Some expected)
      show ?thesis
      proof (cases "expected = []")
        case False
        show ?thesis
        proof (cases "decodeRuleSet ?io q")
          case (Inr rules)
          obtain t w1 where t: "randomHex 16 w = (t, w1)" by (metis surj_pair)
          have s1: "server_ok enc rnd (sv, w1, v)" using server_ok_files[OF randomHex_files[OF t]] 1[unfolded s] by blast
          from change_rules_ok[OF s1] Some False Inr t s1 ReplaceRules show ?thesis
            by (cases t) (simp_all add: handle_def handleReplaceRules_def s)
        qed (use 1 Some False ReplaceRules in \<open>simp add: handle_def handleReplaceRules_def\<close>)
      qed (use 1 Some ReplaceRules in \<open>simp add: handle_def handleReplaceRules_def\<close>)
    qed (use 1 ReplaceRules in \<open>simp add: handle_def handleReplaceRules_def\<close>)
  qed (use 1 in \<open>auto simp: handle_def handleBootstrap_def handleLatestOperation_def handleOperation_def handleGetConfig_def
      handleExportRuleTemplate_def handleValidateRules_def handlePreviewRules_def GetWithRevision_def Let_def\<close>)
qed

section \<open>The guards before it\<close>

interpretation csrf: lawful_handler enc rnd "requireCSRF (handle (with_service sx nio ord enc rnd io) e)"
  for sx :: "'w socket_io" and nio :: "'w nft_io" and ord enc rnd io e
  by unfold_locales (rule handled.behind_csrf)

interpretation origin: lawful_handler enc rnd "requireBrowserSameOrigin io2 (requireCSRF (handle (with_service sx nio ord enc rnd io) e))"
  for sx :: "'w socket_io" and nio :: "'w nft_io" and ord enc rnd io io2 e
  by unfold_locales (rule csrf.behind_origin)

lemma guarded_ok:
  assumes r: "rounding rnd" and ok: "server_ok enc rnd s"
  shows "answered enc rnd (guarded (with_service sx nio ord enc rnd io) e q s)"
  using handled.answers[OF ok] handled.behind_token[OF r ok] origin.behind_token[OF r ok]
  by (cases "protection e") (simp_all add: guarded_def)

lemma dispatch_ok:
  assumes "rounding rnd" and "server_ok enc rnd s"
  shows "answered enc rnd (dispatch (with_service sx nio ord enc rnd io) q s)"
  using guarded_ok[OF assms] assms(2) by (cases "route (q_Method q) (q_Path q)") (simp_all add: dispatch_def)

theorem serve_ok:
  assumes r: "rounding rnd" and ok: "server_ok enc rnd s"
  shows "answered enc rnd (serve (with_service sx nio ord enc rnd io) q s)"
proof -
  have d: "lawful_handler enc rnd (dispatch (with_service sx nio ord enc rnd io))" for sx :: "'w socket_io" and nio :: "'w nft_io" and ord io
    by unfold_locales (rule dispatch_ok[OF r])
  then have "lawful_handler enc rnd (accessControl io2 (dispatch (with_service sx nio ord enc rnd io)))" for sx :: "'w socket_io" and nio :: "'w nft_io" and ord io io2
    by unfold_locales (rule lawful_handler.behind_access[OF d])
  from lawful_handler.behind_headers[OF this ok] show ?thesis by (simp add: serve_def)
qed

end
