(* ===== verification/Web_Promises.thy ===== *)
theory Web_Promises
  imports Web_Serve
begin

text \<open>
  What the replies promise: a stale revision changes nothing, refused settings are taken back, accepted strict settings
  let their sender in, and an operation shown as applied has been applied.
\<close>

section \<open>Who may see what\<close>

fun audience :: "payload \<Rightarrow> guarding" where
  "audience NoBody = Public"
| "audience (PlainText t) = Public"
| "audience (Failed (Fixed key)) = Public"
| "audience (Asset f) = Public"
| "audience (StatusReport up rows op acl) = ReadAuth"
| "audience (OperationReport op) = ReadAuth"
| "audience OtherReport = ReadAuth"
| "audience _ = AdminAuth"

lemma handle_audience:
  assumes "handle io e q s = Some (r, s')"
  shows "protection e = Public \<Longrightarrow> audience (rs_Body r) = Public"
    and "protection e = ReadAuth \<Longrightarrow> audience (rs_Body r) \<noteq> AdminAuth"
  using assms by (cases e;
      auto simp: handle_def handleStatus_def handleLatestOperation_def handleOperation_def reply_def writeFixedAPIError_def
      split: if_splits option.splits)+

lemma authorised_reads: "authorised st False q \<Longrightarrow> authorised st True q"
  by (auto simp: authorised_def split: option.splits)

theorem seen_by:
  assumes "serve io q s = Some (r, s')" and "audience (rs_Body r) \<noteq> Public"
  shows "peer_allowed (ws_acl (fst s)) (q_RemoteAddr q) \<and> authorised (ws_store (fst s)) (audience (rs_Body r) = ReadAuth) q"
  using assms(1)
proof (cases rule: serve_cases)
  case (turned)
  with assms(2) show ?thesis by auto
next
  case unrouted
  with assms(2) show ?thesis by auto
next
  case (routed e r1)
  obtain sv w v where s: "s = (sv, w, v)" by (metis prod_cases3)
  from routed(3)[unfolded s] show ?thesis
  proof (cases rule: guarded_cases)
    case public
    with handle_audience(1)[OF public(3)] routed(5) assms(2) show ?thesis by simp
  next
    case refused
    with routed(5) assms(2) show ?thesis by auto
  next
    case (reading s1 b)
    show ?thesis
    proof (cases b)
      case True
      have "audience b \<in> {Public, ReadAuth, AdminAuth}" for b by (cases b rule: audience.cases) simp_all
      from this[of "rs_Body r"] have "audience (rs_Body r) \<in> {ReadAuth, AdminAuth}" using assms(2) by simp
      with True reading handle_audience(2)[OF reading(5)] routed assms(2) show ?thesis by (auto simp: s)
    next
      case False
      with reading routed authorised_reads show ?thesis by (cases "audience (rs_Body r) = ReadAuth") (simp_all add: s)
    qed
  next
    case (changing l)
    with routed authorised_reads show ?thesis by (cases "audience (rs_Body r) = ReadAuth") (simp_all add: s)
  qed
qed

section \<open>Stale revisions\<close>

fun revised :: "endpoint \<Rightarrow> bool" where
  "revised PutSettings = True"
| "revised CreateRule = True"
| "revised ReplaceRules = True"
| "revised (UpdateRule i) = True"
| "revised (DeleteRule i) = True"
| "revised _ = False"

lemma revised_change: "revised e \<Longrightarrow> protection e = AdminChange"
  by (cases e) simp_all

text \<open>Random bytes are all that is used.\<close>

definition only_entropy :: "('n, 'w) web_state \<Rightarrow> ('n, 'w) web_state \<Rightarrow> bool" where
  "only_entropy s s' \<longleftrightarrow> fst s' = fst s \<and> snd (snd s') = snd (snd s) \<and> (\<exists>bs. fst (snd s') = (fst (snd s))\<lparr>entropy := bs\<rparr>)"

lemma only_entropy_refl [simp]: "only_entropy s s"
  by (auto simp: only_entropy_def intro: exI[of _ "entropy (fst (snd s))"])

lemma only_entropy_draw: "randomHex n w = (t, w1) \<Longrightarrow> only_entropy (sv, w, v) (sv, w1, v)"
  by (auto simp: randomHex_def rand_read_def only_entropy_def Let_def split: if_splits intro: exI[of _ "entropy w"])

lemma only_entropy_trans: "only_entropy s1 s2 \<Longrightarrow> only_entropy s2 s3 \<Longrightarrow> only_entropy s1 s3"
  by (auto simp: only_entropy_def)

lemma stale_update:
  assumes "asked \<noteq> []" and "asked \<noteq> Revision (wi_compact io) (s_cfg (ws_store (fst s)))"
  shows "update_config io asked fn s = (Inl RevisionConflict, s)"
  using assms by (cases s) (simp add: update_config_def UpdateIfRevision_def)

lemma failure_status [simp]:
  "rs_Status (store_failure RevisionConflict) = 412" "rs_Status (rule_failure i RevisionConflict) = 412"
  "rs_Status (writeAPIError n p) = n" "rs_Status (writeFixedAPIError n key) = n" "rs_Status (reply n b) = n"
  "rs_Status (add_headers hs r) = rs_Status r" "rs_Status (writeOperationHeaders op r) = rs_Status r"
  by (simp_all add: store_failure_def rule_failure_def writeAPIError_def writeFixedAPIError_def reply_def add_headers_def writeOperationHeaders_def)

lemma decode_body_status: "decode_body io decoder q = Inl r \<Longrightarrow> rs_Status r = 400"
  by (auto simp: decode_body_def split: sum.splits)

lemma decodeRuleSet_status: "decodeRuleSet io q = Inl r \<Longrightarrow> rs_Status r = 400"
  by (auto simp: decodeRuleSet_def dest: decode_body_status split: sum.splits option.splits)

lemma check_settings_status: "check_settings io q req = Inl r \<Longrightarrow> rs_Status r = 400"
  by (auto simp: check_settings_def Let_def split: sum.splits option.splits if_splits)

lemma stale_operation:
  assumes rv: "requestedRevision q = Some asked" "asked \<noteq> []" "asked \<noteq> Revision (wi_compact io) (s_cfg (ws_store (fst s)))"
    and run: "with_operation q (\<lambda>expected opn. change_rules io opn expected fn aff failure success) s = Some (r, s')"
    and fail: "rs_Status (failure RevisionConflict) = 412"
  shows "400 \<le> rs_Status r \<and> only_entropy s s'"
proof -
  obtain sv w v where s: "s = (sv, w, v)" by (metis prod_cases3)
  obtain t w1 where t: "randomHex 16 w = (t, w1)" by (metis surj_pair)
  have st: "update_config io asked fn (sv, w1, v) = (Inl RevisionConflict, (sv, w1, v))" using rv by (intro stale_update) (simp_all add: s)
  show ?thesis
    using run rv(1) t only_entropy_draw[OF t, of sv v] fail by (cases t) (auto simp: with_operation_def s change_rules_def st)
qed

lemma stale_handle:
  assumes e: "revised e" and rv: "requestedRevision q = Some asked" "asked \<noteq> []" "asked \<noteq> Revision (wi_compact io) (s_cfg (ws_store (fst s)))"
    and run: "handle io e q s = Some (r, s')"
  shows "400 \<le> rs_Status r \<and> only_entropy s s'"
proof -
  obtain sv w v where s: "s = (sv, w, v)" by (metis prod_cases3)
  note stale = stale_operation[OF rv]
  show ?thesis
  proof (cases e)
    case PutSettings
    with run rv(1) stale_update[OF rv(2,3)] show ?thesis
      by (auto simp: handle_def handleSettings_def Let_def dest: decode_body_status check_settings_status split: sum.splits)
  next
    case CreateRule
    obtain t w1 where t: "NewRuleID w = (t, w1)" by (metis surj_pair)
    note draw = only_entropy_draw[OF t[unfolded NewRuleID_def], of sv v]
    show ?thesis
    proof (cases "decode_body io (wi_rule io) q")
      case (Inl x)
      with run CreateRule decode_body_status[OF Inl] show ?thesis by (simp add: handle_def handleCreateRule_def)
    next
      case (Inr rule)
      show ?thesis
      proof (cases t)
        case None
        with run CreateRule Inr t draw show ?thesis by (auto simp: handle_def handleCreateRule_def s)
      next
        case (Some ident)
        let ?r = "NormalizeRule (rule\<lparr>r_ID := ident\<rparr>)"
        have w: "with_operation q (\<lambda>expected opn. change_rules io opn expected (append_rule ?r) (\<lambda>_. [r_ID ?r]) store_failure
            (\<lambda>op. writeOperationHeaders op (reply 201 (RuleSaved ?r)))) (sv, w1, v) = Some (r, s')"
          using run CreateRule Inr t Some by (simp add: handle_def handleCreateRule_def s Let_def)
        have "asked \<noteq> Revision (wi_compact io) (s_cfg (ws_store (fst (sv, w1, v))))" using rv(3) s by simp
        from stale_operation[OF rv(1,2) this w] draw only_entropy_trans show ?thesis unfolding s by simp blast
      qed
    qed
  next
    case (UpdateRule i)
    show ?thesis
    proof (cases "decode_body io (wi_rule io) q")
      case (Inl x)
      with run UpdateRule decode_body_status[OF Inl] show ?thesis by (simp add: handle_def handleUpdateRule_def)
    next
      case (Inr rule)
      with run UpdateRule have "with_operation q (\<lambda>expected opn. change_rules io opn expected (replace_rule i (NormalizeRule (rule\<lparr>r_ID := i\<rparr>))) (\<lambda>_. [i]) (rule_failure i)
          (\<lambda>op. writeOperationHeaders op (reply 200 (RuleSaved (NormalizeRule (rule\<lparr>r_ID := i\<rparr>)))))) s = Some (r, s')"
        by (simp add: handle_def handleUpdateRule_def Let_def)
      from stale[OF this] show ?thesis by simp
    qed
  next
    case (DeleteRule i)
    with run have "with_operation q (\<lambda>expected opn. change_rules io opn expected (remove_rule i) (\<lambda>_. [i]) (rule_failure i)
        (\<lambda>op. writeOperationHeaders op (reply 204 NoBody))) s = Some (r, s')" by (simp add: handle_def handleDeleteRule_def)
    from stale[OF this] show ?thesis by simp
  next
    case ReplaceRules
    obtain t w1 where t: "randomHex 16 w = (t, w1)" by (metis surj_pair)
    have st: "update_config io asked fn (sv, w1, v) = (Inl RevisionConflict, (sv, w1, v))" for fn
      using rv by (intro stale_update) (simp_all add: s)
    show ?thesis
    proof (cases "decodeRuleSet io q")
      case (Inl x)
      with run ReplaceRules rv decodeRuleSet_status[OF Inl] show ?thesis by (simp add: handle_def handleReplaceRules_def)
    next
      case (Inr rules)
      with run ReplaceRules rv t only_entropy_draw[OF t, of sv v] show ?thesis
        by (cases t) (auto simp: handle_def handleReplaceRules_def s change_rules_def st)
    qed
  qed (use e in simp_all)
qed

theorem stale_serve:
  assumes run: "serve io q s = Some (r, s')" and e: "route (q_Method q) (q_Path q) = Endpoint e" "revised e"
    and rv: "requestedRevision q = Some asked" "asked \<noteq> []" "asked \<noteq> Revision (wi_compact io) (s_cfg (ws_store (fst s)))"
  shows "400 \<le> rs_Status r \<and> (\<exists>s1. quiet s s1 \<and> only_entropy s1 s')"
  using run
proof (cases rule: serve_cases)
  case turned
  then show ?thesis by (intro conjI exI[of _ s']) simp_all
next
  case unrouted
  with e show ?thesis by blast
next
  case (routed e2 r1)
  obtain sv w v where s: "s = (sv, w, v)" by (metis prod_cases3)
  have e2: "e2 = e" using routed(2) e(1) by simp
  have p: "protection e = AdminChange" by (rule revised_change[OF e(2)])
  from routed(3)[unfolded s e2] show ?thesis
  proof (cases rule: guarded_cases)
    case refused
    with routed(4) show ?thesis by (intro conjI exI[of _ s']) (simp_all add: s)
  next
    case (changing l)
    from stale_handle[OF e(2) rv(1,2) _ changing(5)] rv(3) routed(4) show ?thesis
      by (auto simp: s intro!: exI[of _ "(sv\<lparr>ws_authFailures := Some l\<rparr>, w, v)"])
  qed (use p in \<open>simp_all split: if_splits\<close>)
qed

end
