(* ===== verification/Web_Settings.thy ===== *)
theory Web_Settings
  imports Web_Promises
begin

text \<open>
  Settings: accepted ones are in force, strict ones let their sender in, and refused ones leave things as they were.
  Operations: what one reported as applied says, that its enabled rules are served and its other rules are retired.
\<close>

section \<open>Writing twice\<close>

text \<open>When nothing fails, whoever could replace a file once can do it again.\<close>

lemma run_fine:
  "outcomes w = [] \<Longrightarrow> io_run step w = (True, w\<lparr>files := step Fine (files w), history := history w @ [step Fine (files w)]\<rparr>)"
  by (simp add: io_run_def next_outcome_def Let_def)

lemma write_fine:
  assumes fine: "outcomes w = []" and written: "writeFileAtomic path data mode w = (None, w1)"
  shows "outcomes w1 = [] \<and> tmp_names w1 = tmp_names w \<and> (\<exists>n\<in>set (tmp_names w). files w1 (temp_path path n) = None)"
proof (cases "find (\<lambda>n. files w (temp_path path n) = None) (tmp_names w)")
  case None
  then show ?thesis using written unfolding writeFileAtomic_def run_fine[OF fine] Let_def prod.case no_change_def by simp
next
  case (Some n)
  then have n: "n \<in> set (tmp_names w)" by (auto simp: find_Some_iff)
  have "outcomes w1 = [] \<and> tmp_names w1 = tmp_names w \<and> files w1 (temp_path path n) = None"
    using written Some fine
    by (auto simp: writeFileAtomic_def run_fine no_change_def replace_steps_def remove_step_def Let_def)
  with n show ?thesis by blast
qed

lemma write_again:
  assumes fine: "outcomes w = []" and room: "\<exists>n\<in>set (tmp_names w). files w (temp_path path n) = None"
  shows "\<exists>w1. writeFileAtomic path data mode w = (None, w1)"
proof (cases "find (\<lambda>n. files w (temp_path path n) = None) (tmp_names w)")
  case None
  with room show ?thesis unfolding find_None_iff by blast
next
  case (Some n)
  with fine show ?thesis
    by (simp add: writeFileAtomic_def run_fine no_change_def replace_steps_def Let_def)
qed

lemma valid_version: "Validate c = None \<Longrightarrow> c\<lparr>c_Version := CurrentVersion\<rparr> = c"
  by (cases c) (auto simp: Validate_def guard_def split: if_splits)

lemma update_fine:
  assumes fine: "outcomes w = []" and run: "updateLocked enc fn st w = (Inr c, st1, w1)" and valid: "Validate old = None"
  shows "\<exists>w2. updateLocked enc (\<lambda>_. Inr old) st1 w1 = (Inr old, st1\<lparr>s_cfg := old\<rparr>, w2)"
proof -
  have v: "old\<lparr>c_Version := CurrentVersion\<rparr> = old" using valid by (rule valid_version)
  from run have sv: "saveLocked enc (st\<lparr>s_cfg := c\<rparr>) w = (None, w1)" "st1 = st\<lparr>s_cfg := c\<rparr>"
    by (cases rule: updateLocked_cases; simp)+
  obtain err w3 where "writeFileAtomic (s_path st) (enc c @ [char_of (10::nat)]) mode_0600 w = (err, w3)" by (rule prod.exhaust)
  with sv(1) have "writeFileAtomic (s_path st) (enc c @ [char_of (10::nat)]) mode_0600 w = (None, w1)" by (simp add: saveLocked_def)
  from write_again[of w1] write_fine[OF fine this]
  obtain w2 where "writeFileAtomic (s_path st) (enc old @ [char_of (10::nat)]) mode_0600 w1 = (None, w2)" by metis
  then have "saveLocked enc (st1\<lparr>s_cfg := old\<rparr>) w1 = (None, w2)" by (simp add: saveLocked_def sv(2))
  then show ?thesis by (simp add: updateLocked_def Let_def v valid)
qed

section \<open>Accepted settings\<close>

lemma adopted_settings:
  assumes "adopt_settings io old cfg s = Some (r, s')" and "rs_Status r = 200"
  shows "refresh_acl (wi_interfaces io 0) (c_Web cfg) (ws_acl (fst s)) = (None, ws_acl (fst s'))" and "ws_store (fst s') = ws_store (fst s)"
    and "ws_servers (fst s') = w_DNSServers (c_Web cfg)"
  using assms by (auto simp: adopt_settings_def Let_def split: prod.splits option.splits)

lemma accepted_settings:
  assumes run: "handleSettings (with_service sx nio ord enc rnd io) q s = Some (r, s')" and ok: "rs_Status r = 200" and sd: "sound enc rnd s"
  obtains req white dns where "check_settings (with_service sx nio ord enc rnd io) q req = Inr (new_settings req white dns)"
    and "c_Web (s_cfg (ws_store (fst s'))) = new_settings req white dns (c_Web (s_cfg (ws_store (fst s))))"
    and "refresh_acl (wi_interfaces io 0) (c_Web (s_cfg (ws_store (fst s')))) (ws_acl (fst s)) = (None, ws_acl (fst s'))"
    and "ws_servers (fst s') = w_DNSServers (c_Web (s_cfg (ws_store (fst s'))))"
proof -
  let ?io = "with_service sx nio ord enc rnd io"
  obtain req where req: "decode_body ?io (wi_settings ?io) q = Inr req"
    using run ok by (cases "decode_body ?io (wi_settings ?io) q") (auto simp: handleSettings_def dest: decode_body_status)
  obtain change where ch: "check_settings ?io q req = Inr change"
    using run ok req by (cases "check_settings ?io q req") (auto simp: handleSettings_def dest: check_settings_status)
  obtain expected where ex: "requestedRevision q = Some expected"
    using run ok req ch by (cases "requestedRevision q") (auto simp: handleSettings_def)
  obtain x s1 where u: "update_config ?io expected (\<lambda>c. Inr (c\<lparr>c_Web := change (c_Web c)\<rparr>)) s = (x, s1)" by (rule prod.exhaust)
  have not200: "rs_Status (store_failure e) \<noteq> 200" for e by (simp add: store_failure_def)
  obtain cfg where cfg: "x = Inr cfg"
    using run ok req ch ex u not200 by (cases x) (auto simp: handleSettings_def Let_def)
  have a: "adopt_settings ?io (s_cfg (ws_store (fst s))) cfg s1 = Some (r, s')"
    using run req ch ex u cfg by (simp add: handleSettings_def Let_def)
  note f = update_config_facts[OF u sd] and ad = adopted_settings[OF a ok]
  have acl: "ws_acl (fst s1) = ws_acl (fst s)" by (subst f(2)) simp
  have c: "s_cfg (ws_store (fst s')) = cfg" "c_Web cfg = change (c_Web (s_cfg (ws_store (fst s))))"
    using f(6)[OF cfg] ad(2) by auto
  obtain white dns where "change = new_settings req white dns" using check_settings_web[OF ch] by blast
  with ch c ad acl that show ?thesis by (simp add: with_service_def)
qed

text \<open>A sender whose address the whitelist contains is let in by the list made of it.\<close>

lemma contained_permits:
  assumes n: "NormalizeWhitelist raw = Inr white" and c: "prefixStringsContain white ip"
  shows "\<exists>entry\<in>set white. entry_permits entry (unmap ip)"
proof -
  obtain s p where s: "s \<in> set white" "parse_prefix s = Some p" "prefix_contains p (unmap ip)"
    using c by (auto simp: prefixStringsContain_def list_ex_iff split: option.splits)
  obtain t where "whitelist_entry t = Inr (Some s)" using whitelist.normalise_members n s(1) by blast
  then obtain p' where p': "canonical p'" "s = prefix_string p'" using whitelist_entry_canonical canonical_text_def by blast
  then have "p' = p" using s(2) by (simp add: canonical_def parse_prefix_string)
  with s p' show ?thesis using entry_permits_canonical[OF p'(1), of "unmap ip"] by auto
qed

lemma checked_strict:
  assumes "check_settings io q req = Inr (new_settings req white dns)" and "sr_StrictIPAllowlist req"
  shows "q_TLS q \<and> strict_client_ok q white \<and> (\<exists>raw. NormalizeWhitelist raw = Inr white)"
proof -
  obtain white' dns' where w: "NormalizeWhitelist (sr_Whitelist req) = Inr white'" "q_TLS q" "strict_client_ok q white'"
    "new_settings req white' dns' = new_settings req white dns"
    using assms by (auto simp: check_settings_def Let_def split: sum.splits option.splits if_splits)
  have "w_Whitelist (new_settings req white' dns' default_web) = w_Whitelist (new_settings req white dns default_web)" by (simp only: w(4))
  then have "white' = white" by (simp add: new_settings_def)
  with w show ?thesis by auto
qed

theorem strict_lets_sender_in:
  assumes run: "handleSettings (with_service sx nio ord enc rnd io) q s = Some (r, s')" and ok: "rs_Status r = 200" and sd: "sound enc rnd s"
    and strict: "w_StrictIPAllowlist (c_Web (s_cfg (ws_store (fst s'))))" and ip: "remoteIP (q_RemoteAddr q) = Some ip" "zone (unmap ip) = []"
  shows "q_TLS q \<and> Allowed (ws_acl (fst s')) ip
    \<and> (\<forall>a. Allowed (ws_acl (fst s')) a \<longleftrightarrow> is_loopback a \<and> zone (unmap a) = []
          \<or> (\<exists>raw\<in>set (w_Whitelist (c_Web (s_cfg (ws_store (fst s'))))). entry_permits raw (unmap a)))"
proof (rule accepted_settings[OF run ok sd])
  fix req white dns
  assume ch: "check_settings (with_service sx nio ord enc rnd io) q req = Inr (new_settings req white dns)"
    and web: "c_Web (s_cfg (ws_store (fst s'))) = new_settings req white dns (c_Web (s_cfg (ws_store (fst s))))"
    and acl: "refresh_acl (wi_interfaces io 0) (c_Web (s_cfg (ws_store (fst s')))) (ws_acl (fst s)) = (None, ws_acl (fst s'))"
  have "sr_StrictIPAllowlist req" "w_Whitelist (c_Web (s_cfg (ws_store (fst s')))) = white"
    using strict unfolding web by (simp_all add: new_settings_def)
  note white = this
  from checked_strict[OF ch this(1)] obtain raw where c: "q_TLS q" "strict_client_ok q white" "NormalizeWhitelist raw = Inr white" by blast
  obtain snap where b: "build_snapshot (wi_interfaces io 0) (w_AutoLANACL (c_Web (s_cfg (ws_store (fst s'))))) True white (bootstrap_texts (ws_acl (fst s))) = Inr snap"
    "ws_acl (fst s') = Some snap"
    using acl strict white(2) by (auto simp: refresh_acl_def ACL.Refresh_def split: sum.splits)
  have lan: "\<not> w_AutoLANACL (c_Web (s_cfg (ws_store (fst s'))))" using b(1) by (auto simp: build_snapshot_def)
  have all: "Allowed (ws_acl (fst s')) a \<longleftrightarrow> is_loopback a \<and> zone (unmap a) = [] \<or> (\<exists>raw\<in>set white. entry_permits raw (unmap a))" for a
    using build_snapshot_allows[OF b(1), of a] b(2) lan by (simp add: loopback_prefixes_contains)
  have "is_loopback ip \<or> prefixStringsContain white ip" using c(2) ip(1) by (simp add: strict_client_ok_def)
  with contained_permits[OF c(3)] ip(2) all[of ip] have "Allowed (ws_acl (fst s')) ip" by blast
  with c(1) all white(2) show ?thesis by simp
qed

section \<open>Refused settings\<close>

lemma take_back_facts:
  assumes "sound enc rnd s"
  shows "ws_manager (fst (take_back (with_service sx nio ord enc rnd io) old s)) = ws_manager (fst s)"
    and "ws_servers (fst (take_back (with_service sx nio ord enc rnd io) old s)) = ws_servers (fst s)"
    and "ws_operations (fst (take_back (with_service sx nio ord enc rnd io) old s)) = ws_operations (fst s)"
    and "snd (snd (take_back (with_service sx nio ord enc rnd io) old s)) = snd (snd s)"
    and "ws_acl (fst (take_back (with_service sx nio ord enc rnd io) old s)) = snd (refresh_acl (wi_interfaces io 1) (c_Web old) (ws_acl (fst s)))"
    and "ws_store (fst (take_back (with_service sx nio ord enc rnd io) old s)) =
      ws_store (fst (snd (update_config (with_service sx nio ord enc rnd io) [] (\<lambda>_. Inr old) s)))"
proof -
  let ?io = "with_service sx nio ord enc rnd io"
  obtain x s1 where u: "update_config ?io [] (\<lambda>_. Inr old) s = (x, s1)" by (rule prod.exhaust)
  note f = update_config_facts(2,3)[OF u assms]
  obtain e acl where a: "refresh_acl (wi_interfaces io 1) (c_Web old) (ws_acl (fst s)) = (e, acl)" by (rule prod.exhaust)
  have same: "ws_acl (fst s1) = ws_acl (fst s)" "ws_manager (fst s1) = ws_manager (fst s)" "ws_servers (fst s1) = ws_servers (fst s)"
    "ws_operations (fst s1) = ws_operations (fst s)" by (subst f(1), simp)+
  have "take_back ?io old s = ((fst s1)\<lparr>ws_acl := acl\<rparr>, snd s1)"
    using a same(1) by (cases s1) (simp add: take_back_def u Let_def)
  then show "ws_manager (fst (take_back ?io old s)) = ws_manager (fst s)" "ws_servers (fst (take_back ?io old s)) = ws_servers (fst s)"
    "ws_operations (fst (take_back ?io old s)) = ws_operations (fst s)" "snd (snd (take_back ?io old s)) = snd (snd s)"
    "ws_acl (fst (take_back ?io old s)) = snd (refresh_acl (wi_interfaces io 1) (c_Web old) (ws_acl (fst s)))"
    "ws_store (fst (take_back ?io old s)) = ws_store (fst (snd (update_config ?io [] (\<lambda>_. Inr old) s)))"
    using same f(2) a u by simp_all
qed

theorem refused_settings_kept:
  assumes run: "handleSettings (with_service sx nio ord enc rnd io) q s = Some (r, s')" and bad: "rs_Status r \<noteq> 200" and sd: "sound enc rnd s"
  shows "ws_manager (fst s') = ws_manager (fst s) \<and> ws_servers (fst s') = ws_servers (fst s) \<and> ws_operations (fst s') = ws_operations (fst s)
    \<and> snd (snd s') = snd (snd s)
    \<and> (ws_acl (fst s') = ws_acl (fst s) \<or> ws_acl (fst s') = snd (refresh_acl (wi_interfaces io 1) (c_Web (s_cfg (ws_store (fst s)))) (ws_acl (fst s))))
    \<and> (outcomes (fst (snd s)) = [] \<longrightarrow> ws_store (fst s') = ws_store (fst s))"
proof -
  let ?io = "with_service sx nio ord enc rnd io"
  let ?old = "s_cfg (ws_store (fst s))"
  show ?thesis
  proof (cases rule: handleSettings_cases[of ?io q s])
    case (go change expected)
    note go = run[unfolded go]
    obtain x s1 where u: "update_config ?io expected (\<lambda>c. Inr (c\<lparr>c_Web := change (c_Web c)\<rparr>)) s = (x, s1)" by (rule prod.exhaust)
    note f = update_config_facts[OF u sd]
    have same: "ws_acl (fst s1) = ws_acl (fst s)" "ws_manager (fst s1) = ws_manager (fst s)" "ws_servers (fst s1) = ws_servers (fst s)"
      "ws_operations (fst s1) = ws_operations (fst s)" by (subst f(2), simp)+
    show ?thesis
    proof (cases x)
      case (Inl e)
      with go u have "s' = s1" by simp
      with same f(3) f(4)[OF Inl] show ?thesis by simp
    next
      case (Inr cfg)
      have ad: "adopt_settings ?io ?old cfg s1 = Some (r, s')" using go u Inr by simp
      have s': "s' = take_back ?io ?old s1"
        using ad bad by (auto simp: adopt_settings_def Let_def split: prod.splits option.splits)
      note t = take_back_facts[OF f(1), where sx = sx and nio = nio and ord = ord and io = io and old = ?old, folded s']
      have "ws_store (fst s') = ws_store (fst s)" if fine: "outcomes (fst (snd s)) = []"
      proof -
        obtain sv w v where s: "s = (sv, w, v)" by (metis prod_cases3)
        obtain st w1 where lk: "updateLocked enc (\<lambda>c. Inr (c\<lparr>c_Web := change (c_Web c)\<rparr>)) (ws_store sv) w = (Inr cfg, st, w1)"
          and s1: "s1 = (sv\<lparr>ws_store := st\<rparr>, w1, v)"
          using u Inr by (auto simp: update_config_def UpdateIfRevision_def s split: prod.splits if_splits)
        have val: "Validate ?old = None" using sd by (simp add: sound_def store_ok_def)
        have "outcomes w = []" using fine s by simp
        from update_fine[OF this lk val]
        obtain w2 where "updateLocked enc (\<lambda>_. Inr ?old) st w1 = (Inr ?old, st\<lparr>s_cfg := ?old\<rparr>, w2)" ..
        moreover have "s_path st = s_path (ws_store sv)" using lk by (cases rule: updateLocked_cases) auto
        ultimately show ?thesis unfolding t(6) s1 by (simp add: update_config_def UpdateIfRevision_def s)
      qed
      with t same f(3) show ?thesis by simp
    qed
  qed (use run in simp)
qed

section \<open>Rows\<close>

lemma row_of:
  assumes rows: "all_rows (Runtime fb m) = Some rows" and named: "rules_named m"
    and row: "keyed (\<lambda>row. r_ID (rr_Rule row)) rows i = Some row"
  shows "rule_report fb m (i, rr_Rule row) = Some row" and "(i, rr_Rule row) \<in> set (mg_rules m)"
proof -
  have "row \<in> set rows" "r_ID (rr_Rule row) = i" using keyed_Some[OF row] by auto
  note r = this
  have "None \<notin> set (Runtime fb m)" "rows = List.map_filter id (Runtime fb m)" using rows by (auto simp: all_rows_def split: if_splits)
  with r(1) have "Some row \<in> set (Runtime fb m)" by (auto simp: map_filter_def)
  then obtain e where e: "e \<in> set (mg_rules m)" "rule_report fb m e = Some row" by (auto simp: Runtime_def)
  have "snd e = rr_Rule row" using e(2) by (cases e) (auto simp: rule_report_def)
  moreover have "r_ID (snd e) = fst e" using e(1) named by (auto simp: rules_named_def)
  ultimately have "e = (i, rr_Rule row)" using r(2) by (cases e) simp
  with e show "rule_report fb m (i, rr_Rule row) = Some row" "(i, rr_Rule row) \<in> set (mg_rules m)" by simp_all
qed

lemma row_listed:
  assumes rows: "all_rows (Runtime fb m) = Some rows" and named: "rules_named m" and i: "i \<in> fst ` set (mg_rules m)"
  shows "\<exists>row. keyed (\<lambda>row. r_ID (rr_Rule row)) rows i = Some row"
proof -
  obtain r where r: "(i, r) \<in> set (mg_rules m)" using i by auto
  have all: "None \<notin> set (Runtime fb m)" "rows = List.map_filter id (Runtime fb m)" using rows by (auto simp: all_rows_def split: if_splits)
  have "rule_report fb m (i, r) \<in> set (Runtime fb m)" using r by (simp add: Runtime_def)
  with all(1) obtain row where row: "rule_report fb m (i, r) = Some row" "Some row \<in> set (Runtime fb m)" by (cases "rule_report fb m (i, r)") auto
  then have "row \<in> set rows" using all(2) by (auto simp: map_filter_def intro!: image_eqI)
  moreover have "r_ID (rr_Rule row) = i" using row(1) r named by (auto simp: rule_report_def rules_named_def)
  ultimately have "keyed (\<lambda>row. r_ID (rr_Rule row)) rows i \<noteq> None" unfolding keyed_None by blast
  then show ?thesis by blast
qed

lemma report_sel:
  "rule_report fb m (i, r) = Some row \<Longrightarrow> rr_GoRunning row = list_ex (\<lambda>(k, run). r_ID (rn_rule run) = i) (mg_runners m)
     \<and> rr_KernelState row = fst (nftRuleState fb m i)"
  by (auto simp: rule_report_def)

section \<open>Served and retired\<close>

text \<open>A rule is served when its paths are there: listeners for the userspace ones, installed rules for the kernel ones.\<close>

definition rule_served :: "plan \<Rightarrow> nft_result \<Rightarrow> backend manager \<Rightarrow> string \<Rightarrow> bool" where
  "rule_served p result m i \<longleftrightarrow>
     p_errors p i = None \<and> (p_usesNFT p i \<or> p_usesGo p i)
     \<and> (\<forall>(k, path)\<in>set (p_goRules p). g_RuleID path = i \<longrightarrow> k \<in> fst ` set (mg_runners m))
     \<and> (p_usesNFT p i \<and> nr_err result \<noteq> None \<longrightarrow> (\<forall>sp\<in>set (p_nftSpecs p). RuleID sp = i \<longrightarrow> nftSpecInstalled sp (bk_active (mg_nft m))))
     \<and> (dataPlaneUsesNFT (text_or_empty (mg_dataPlanes m i)) \<longrightarrow>
          (\<exists>sp\<in>set (bk_active (mg_nft m)). nftIdentityMatchesRule sp i)
          \<and> (\<forall>sp\<in>set (bk_pending (mg_nft m)) \<union> set (bk_suspended (mg_nft m)). \<not> nftIdentityMatchesRule sp i)
          \<and> (bk_initialized (mg_nft m) \<or> bk_cleanVerified (mg_nft m)))"

text \<open>A rule is retired when none of its listeners runs and, while it is listed, the kernel is known to forward none of its paths.\<close>

definition rule_retired :: "backend manager \<Rightarrow> string \<Rightarrow> bool" where
  "rule_retired m i \<longleftrightarrow>
     (\<forall>(k, run)\<in>set (mg_runners m). r_ID (rn_rule run) \<noteq> i)
     \<and> (i \<in> fst ` set (mg_rules m) \<longrightarrow>
          (\<forall>sp\<in>set (bk_active (mg_nft m)) \<union> set (bk_pending (mg_nft m)) \<union> set (bk_suspended (mg_nft m)). \<not> nftIdentityMatchesRule sp i)
          \<and> (bk_initialized (mg_nft m) \<or> bk_cleanVerified (mg_nft m)))"

lemma state_active:
  "fst (nftRuleState (sy_kernel (command_service sx io ord)) m i) = ''active-verified'' \<Longrightarrow>
     (\<exists>sp\<in>set (bk_active (mg_nft m)). nftIdentityMatchesRule sp i)
     \<and> (\<forall>sp\<in>set (bk_pending (mg_nft m)) \<union> set (bk_suspended (mg_nft m)). \<not> nftIdentityMatchesRule sp i)
     \<and> (bk_initialized (mg_nft m) \<or> bk_cleanVerified (mg_nft m))"
  unfolding nftRuleState_def service_sel(3) option.case Let_def
  by (auto simp: retirementState_def list_ex_iff split: if_splits)

lemma state_inactive:
  assumes "fst (nftRuleState (sy_kernel (command_service sx io ord)) m i) \<notin> {''retirement-pending'', ''admission-suspended'', ''unknown'', ''unverified''}"
    and "\<not> has_prefix ''active-'' (fst (nftRuleState (sy_kernel (command_service sx io ord)) m i))"
  shows "(\<forall>sp\<in>set (bk_active (mg_nft m)) \<union> set (bk_pending (mg_nft m)) \<union> set (bk_suspended (mg_nft m)). \<not> nftIdentityMatchesRule sp i)
     \<and> (bk_initialized (mg_nft m) \<or> bk_cleanVerified (mg_nft m))"
  using assms unfolding nftRuleState_def service_sel(3) option.case Let_def
  by (auto simp: retirementState_def list_ex_iff has_prefix_def split: if_splits)

text \<open>A rule told to be running with an empty message is running without one.\<close>

lemma told_quiet:
  assumes "told fb p blocked known errs result x m st" and "r_Enabled (snd x)" and "st_running st" and "message_text tx (st_lastError st) = []"
  shows "st = \<lparr>st_running = True, st_lastError = NoMessage\<rparr>"
  using assms by (cases "st_lastError st") (auto simp: told_def Let_def split: if_splits)

lemma applied_served:
  assumes ok: "service_ok s" and k: "kernel_phase (command_service sx io ord) env rules c s = (p, result, s2)"
    and a: "apply_rules (command_service sx io ord) env rules c s = Some (m, v)" and x: "(i, r) \<in> set (mg_desired m)" "r_Enabled r"
    and row: "rule_report (sy_kernel (command_service sx io ord)) m (i, r') = Some row" "\<not> row_failed tx row"
  shows "rule_served p result m i"
proof (rule service_apply_facts[OF ok k a], goal_cases)
  case (1 blocked known errs)
  let ?fb = "sy_kernel (command_service sx io ord)"
  from 1(4)[OF x(1)] obtain st where st: "mg_stats m i = Some st" "told ?fb p blocked known errs (without_cleanup ?fb result) (i, r) m st" by auto
  have rr: "rr_Stats row = st" "rr_KernelState row = fst (nftRuleState ?fb m i)" "rr_DataPlane row = text_or_empty (mg_dataPlanes m i)"
    using row(1) st(1) by (auto simp: rule_report_def)
  have "st = \<lparr>st_running = True, st_lastError = NoMessage\<rparr>"
    using row(2) rr(1) x(2) by (intro told_quiet[OF st(2)]) (auto simp: row_failed_def)
  note t = told_running[OF st(2)[unfolded this], unfolded fst_conv snd_conv]
  have known: "nr_err result \<noteq> None \<Longrightarrow> p_usesNFT p i \<Longrightarrow> known i" using t by (simp add: without_cleanup_def split: if_splits)
  have "nr_err result \<noteq> None \<Longrightarrow> p_usesNFT p i \<Longrightarrow> \<forall>sp\<in>set (p_nftSpecs p). RuleID sp = i \<longrightarrow> nftSpecInstalled sp (bk_active (mg_nft m))"
    using known 1(8) by (auto simp: verified_rule_def retirementState_def list_all_iff)
  moreover have "dataPlaneUsesNFT (text_or_empty (mg_dataPlanes m i)) \<Longrightarrow> fst (nftRuleState ?fb m i) = ''active-verified''"
    using row(2) rr by (auto simp: row_failed_def)
  ultimately show ?case using t state_active[of sx io ord m i] unfolding rule_served_def by blast
qed

lemma applied_retired:
  assumes ok: "service_ok s" and k: "kernel_phase (command_service sx io ord) env rules c s = (p, result, s2)"
    and a: "apply_rules (command_service sx io ord) env rules c s = Some (m, v)"
    and rows: "all_rows (Runtime (sy_kernel (command_service sx io ord)) m) = Some rows" and named: "rules_named m"
    and row: "\<And>row. keyed (\<lambda>row. r_ID (rr_Rule row)) rows i = Some row \<Longrightarrow> \<not> row_pending tx row \<and> \<not> row_left row"
  shows "rule_retired m i"
proof (rule service_apply_facts[OF ok k a], goal_cases)
  case (1 blocked known errs)
  let ?fb = "sy_kernel (command_service sx io ord)"
  show ?case
  proof (cases "i \<in> fst ` set (mg_rules m)")
    case True
    from row_listed[OF rows named True] obtain row where r: "keyed (\<lambda>row. r_ID (rr_Rule row)) rows i = Some row" by blast
    note q = row[OF r] row_of(1)[OF rows named r]
    note f = report_sel[OF q(2)]
    have "rr_KernelState row \<notin> {''retirement-pending'', ''admission-suspended'', ''unknown'', ''unverified''}"
      "\<not> has_prefix ''active-'' (rr_KernelState row)" "\<not> rr_GoRunning row"
      using q(1) unfolding row_left_def row_pending_def Let_def by blast+
    note g = this[unfolded f[THEN conjunct1] f[THEN conjunct2]]
    from state_inactive[OF g(1,2)] g(3) show ?thesis by (auto simp: rule_retired_def list_ex_iff)
  next
    case False
    have "r_ID (rn_rule run) \<noteq> i" if "(k, run) \<in> set (mg_runners m)" for k run
    proof -
      from 1(2)[OF that] obtain path where path: "(k, path) \<in> set (p_goRules p)" "ruleKey (rn_rule run) = ruleKey (g_Rule path)" by blast
      have "r_ID (rn_rule run) = r_ID (g_Rule path)" using arg_cong[OF path(2), of r_ID] by (simp add: ruleKey_def)
      moreover have "r_ID (g_Rule path) \<in> (r_ID \<circ> NormalizeRule) ` set rules" using bspec[OF 1(11)[unfolded plan_shape_def, THEN conjunct2] path(1)] unfolding prod.case by metis
      ultimately have "r_ID (rn_rule run) \<in> fst ` set (mg_desired m)" using 1(10) by simp
      then obtain y where "y \<in> set (mg_desired m)" "fst y = r_ID (rn_rule run)" by auto
      with 1(4)[OF this(1)] have "map_of (mg_rules m) (r_ID (rn_rule run)) \<noteq> None" by auto
      then have "r_ID (rn_rule run) \<in> fst ` set (mg_rules m)" by (simp add: map_of_eq_None_iff)
      with False show ?thesis by blast
    qed
    with False show ?thesis unfolding rule_retired_def by blast
  qed
qed

section \<open>Operations\<close>

lemma normalise_keeps_enabled [simp]: "r_Enabled (NormalizeRule r) = r_Enabled r"
  by (simp add: NormalizeRule_def Let_def)

lemma run_operation_parts:
  assumes "run_operation (with_service sx nio ord enc rnd io) ident cfg affected (sv, w, v) = Some (op, s')"
  obtains m v1 rows l where
    "apply_rules (command_service sx nio ord) (wi_environment io (ws_servers sv)) (c_Rules cfg) False (ws_manager sv, v) = Some (m, v1)"
    and "all_rows (Runtime (sy_kernel (command_service sx nio ord)) m) = Some rows"
    and "op = completed_operation (wi_texts io) (wi_now io) cfg rows
           \<lparr>op_ID = ident, op_ConfigRevision = Revision (wi_compact io) cfg, op_State = ''applying'', op_Rules = map observation_of affected,
            op_BusinessHealth = ''not_checked'', op_SavedAt = wi_now io, op_CompletedAt = None\<rparr>"
    and "s' = (sv\<lparr>ws_operations := setOperation op l, ws_manager := m\<rparr>, w, v1)"
  using assms by (auto simp: run_operation_def newApplyOperation_def applyRuleOperation_def Apply_def Let_def bind_eq_Some_conv)

theorem applied_is_applied:
  assumes run: "run_operation (with_service sx nio ord enc rnd io) ident cfg affected (sv, w, v) = Some (op, s')"
    and ok: "sound enc rnd (sv, w, v)" and st: "op_State op = ''applied''" and i: "i \<in> set affected"
    and k: "kernel_phase (command_service sx nio ord) (wi_environment io (ws_servers sv)) (c_Rules cfg) False (ws_manager sv, v) = (p, result, s2)"
  shows "case keyed r_ID (c_Rules cfg) i of
      Some r \<Rightarrow> if r_Enabled r then rule_served p result (ws_manager (fst s')) i else rule_retired (ws_manager (fst s')) i
    | None \<Rightarrow> rule_retired (ws_manager (fst s')) i"
proof (rule run_operation_parts[OF run])
  fix m v1 l and rows :: "rule_runtime list"
  let ?sy = "command_service sx nio ord" and ?tx = "wi_texts io"
  let ?wanted = "keyed r_ID (c_Rules cfg)" and ?rows = "keyed (\<lambda>row. r_ID (rr_Rule row)) rows"
  assume a: "apply_rules ?sy (wi_environment io (ws_servers sv)) (c_Rules cfg) False (ws_manager sv, v) = Some (m, v1)"
    and rows: "all_rows (Runtime (sy_kernel ?sy) m) = Some rows"
    and op: "op = completed_operation ?tx (wi_now io) cfg rows
           \<lparr>op_ID = ident, op_ConfigRevision = Revision (wi_compact io) cfg, op_State = ''applying'', op_Rules = map observation_of affected,
            op_BusinessHealth = ''not_checked'', op_SavedAt = wi_now io, op_CompletedAt = None\<rparr>"
    and s': "s' = (sv\<lparr>ws_operations := setOperation op l, ws_manager := m\<rparr>, w, v1)"
  have srv: "service_ok (ws_manager sv, v)" "rules_named (ws_manager sv)" using ok by (simp_all add: sound_def)
  have m: "ws_manager (fst s') = m" by (simp add: s')
  have mok: "manager_ok (fst (ws_manager sv, v))" "rules_named (fst (ws_manager sv, v))" using srv by (simp_all add: service_ok_def)
  have named: "rules_named m" using apply_named[OF a mok(1) service_sel(2) mok(2)] by simp
  have each: "next_state ?tx ?wanted ?rows (observation_of i) ''applied'' = ''applied''"
    using st i unfolding op completed_operation_def Let_def by (simp add: fold_applied)
  have ident: "ob_ID (observation_of i) = i" by (simp add: observation_of_def)
  note each = each[unfolded next_state_applied ident]
  note gone = applied_retired[OF srv(1) k a rows named, where tx = ?tx and i = i]
  show ?thesis
  proof (cases "?wanted i")
    case None
    with each have "rule_retired m i" by (intro gone) auto
    with None m show ?thesis by simp
  next
    case (Some r)
    show ?thesis
    proof (cases "r_Enabled r")
      case False
      with Some each have "rule_retired m i" by (intro gone) auto
      with Some False m show ?thesis by simp
    next
      case True
      with Some each obtain row where row: "?rows i = Some row" "\<not> row_failed ?tx row" by auto
      have "map_of (mg_desired m) i = Some (NormalizeRule r)" using apply_desired(1)[OF a srv(1)] Some by (simp add: fun_eq_iff)
      then have "(i, NormalizeRule r) \<in> set (mg_desired m)" by (rule map_of_SomeD)
      from applied_served[OF srv(1) k a this _ row_of(1)[OF rows named row(1)] row(2)] True Some m show ?thesis by simp
    qed
  qed
qed

end
