(* ===== verification/Web_Sample.thy ===== *)
theory Web_Sample
  imports Web_Settings Manager_Sample
begin

text \<open>
  A server with HTTPS, no rules and a new manager, and requests to it: the instance at which the properties of the
  management interface are applied.
\<close>

section \<open>The server\<close>

definition sample_token :: string where
  "sample_token = replicate 64 (CHR ''a'')"

definition sample_web :: web_config where
  "sample_web = default_web\<lparr>w_ListenIPv6 := [], w_TLSCertFile := ''/cert.pem'', w_TLSKeyFile := ''/key.pem''\<rparr>"

definition web_sample_config :: "web_config \<Rightarrow> config" where
  "web_sample_config web = Default\<lparr>c_Web := web\<lparr>w_AdminTokenSHA := HashToken sample_token\<rparr>, c_Rules := []\<rparr>"

lemma validateWeb_token [simp]: "validateWeb (web\<lparr>w_AdminTokenSHA := h\<rparr>) = validateWeb web"
  by (simp add: validateWeb_def webHasNonLoopbackListener_def cong: sum.case_cong if_cong)

lemma web_sample_valid:
  assumes "validateWeb web = None" and "w_DNSServers web = []" and "w_MonitorTokenSHA web = []"
  shows "Validate (web_sample_config web) = None"
proof -
  have "token_hash_ok (HashToken sample_token)" using sha256_hex_decode[of sample_token] by (auto simp: token_hash_ok_def HashToken_def)
  with assms sample_limits_ok show ?thesis
    by (simp add: Validate_def web_sample_config_def Default_def NormalizeDNSServers_def guard_def try_err_def validateRules_def)
qed

text \<open>The texts of the instance, evaluated once.\<close>

definition sample_prefix :: prefix where
  "sample_prefix = Prefix (IP4 0xC0000200) 24"

lemma sample_whitelist: "NormalizeWhitelist [''192.0.2.0/24''] = Inr [''192.0.2.0/24'']" "NormalizeWhitelist [] = Inr []"
  by code_simp+

lemma sample_parsed: "parse_prefix ''192.0.2.0/24'' = Some sample_prefix" "parse_addr ''127.0.0.1'' = Some (IP4 0x7F000001)"
  by code_simp+

lemma sample_trim: "trim_space ''/cert.pem'' = ''/cert.pem''" "trim_space ''/key.pem'' = ''/key.pem''" "trim_space ''1.3'' = ''1.3''"
  "trim_space ''127.0.0.1'' = ''127.0.0.1''" "trim_space [] = []"
  by code_simp+

lemma sample_addresses: "check_web_host ''127.0.0.1'' = None" "is_loopback (IP4 0x7F000001)" "prefix_contains sample_prefix (IP4 0xC0000205)"
proof -
  show "is_loopback (IP4 0x7F000001)" "prefix_contains sample_prefix (IP4 0xC0000205)" by code_simp+
  have "\<not> is_multicast (IP4 0x7F000001)" "\<not> is_unspecified (IP4 0x7F000001)" by code_simp+
  then show "check_web_host ''127.0.0.1'' = None" by (simp add: check_web_host_def sample_parsed guard_def)
qed

lemma sample_web_valid: "validateWeb sample_web = None"
  by (simp add: validateWeb_def sample_web_def default_web_def sample_addresses sample_whitelist sample_trim check_web_host_def [of "[]"]
      isAbs_def has_prefix_def guard_def try_err_def Let_def)

definition sample_certificate :: certificate where
  "sample_certificate = \<lparr>ce_Raw = [], ce_SelfSigned = True, ce_NotBefore = 0, ce_NotAfter = 1000\<rparr>"

definition sample_tls :: tls_io where
  "sample_tls = \<lparr>ti_Lstat = (\<lambda>path. Some \<lparr>fi_Regular = True, fi_Perm = 0x180, fi_Uid = Some 0\<rparr>),
     ti_Load = (\<lambda>cert key. Some sample_certificate), ti_KeyFirst = False, ti_Windows = False, ti_Euid = 0, ti_ServiceUid = None\<rparr>"

definition sample_enc :: "config \<Rightarrow> string" where
  "sample_enc cfg = itoa (w_Port (c_Web cfg))"

definition sample_texts :: texts where
  "sample_texts = \<lparr>tx_plan = (\<lambda>e. ''plan''), tx_start = (\<lambda>e. ''start''), tx_manager = (\<lambda>e. ''manager''), tx_backend = (\<lambda>e. ''backend'')\<rparr>"

text \<open>A body is decoded as the settings or the rules that the instance is about.\<close>

definition sample_settings :: "bool \<Rightarrow> settings_request" where
  "sample_settings lan = \<lparr>sr_AutoLANACL = lan, sr_StrictIPAllowlist = \<not> lan, sr_AllowInsecureHTTP = False, sr_Whitelist = [''192.0.2.0/24''],
     sr_Port = 9443, sr_ListenIPv4 = ''127.0.0.1'', sr_ListenIPv6 = [], sr_TLSCertFile = ''/cert.pem'', sr_TLSKeyFile = ''/key.pem'',
     sr_TLSMinVersion = ''1.3'', sr_DNSServers = []\<rparr>"

definition web_sample_io :: "bool \<Rightarrow> (backend, bool \<times> (nat \<times> nat) list) web_io" where
  "web_sample_io lan =
     \<lparr>wi_system = relay_service, wi_environment = (\<lambda>servers. steady_env), wi_texts = sample_texts, wi_indent = sample_enc, wi_compact = sample_enc,
      wi_rule_text = r_ID, wi_rule = (\<lambda>over body. Malformed), wi_rules = (\<lambda>over body. Decoded (Some []) []),
      wi_settings = (\<lambda>over body. Decoded (sample_settings lan) []), wi_ending = (\<lambda>over body. Malformed), wi_media = Some,
      wi_url = (\<lambda>text. None), wi_fold = (=), wi_interfaces = (\<lambda>n. None), wi_tls = sample_tls, wi_now = 5, wi_round = exact, wi_visit = id\<rparr>"

abbreviation sample_service :: "bool \<Rightarrow> (backend, bool \<times> (nat \<times> nat) list) web_io" where
  "sample_service lan \<equiv> with_service open_sockets sample_io (\<lambda>i ks. ks) sample_enc exact (web_sample_io lan)"

definition sample_acl :: "snapshot option" where
  "sample_acl = Some \<lparr>a_Auto = [], a_Whitelist = [sample_prefix], a_Bootstrap = [], a_Strict = False\<rparr>"

definition sample_server :: "backend server" where
  "sample_server =
     \<lparr>ws_store = \<lparr>s_path = ''/c'', s_cfg = web_sample_config sample_web\<rparr>, ws_acl = sample_acl, ws_manager = newManager (newCommandNFTBackend False),
      ws_servers = [], ws_tokenFile = [], ws_startedAt = 0, ws_csrf = ''secret'', ws_operations = no_operations, ws_startupWeb = Some sample_web,
      ws_activeTLS = no_certificate, ws_activeCert = None, ws_denied = \<lparr>dl_last = 0, dl_suppressed = 0\<rparr>, ws_authFailures = None\<rparr>"

definition sample_disk :: world where
  "sample_disk = \<lparr>files = [''/c'' \<mapsto> (sample_enc (web_sample_config sample_web) @ [char_of (10::nat)], mode_0600)], history = [],
     outcomes = [], entropy = [], tmp_names = [''1'']\<rparr>"

definition web_sample_state :: "(backend, bool \<times> (nat \<times> nat) list) web_state" where
  "web_sample_state = (sample_server, sample_disk, True, [])"

lemma sample_fields:
  "ws_store sample_server = \<lparr>s_path = ''/c'', s_cfg = web_sample_config sample_web\<rparr>" "ws_acl sample_server = sample_acl"
  "ws_manager sample_server = newManager (newCommandNFTBackend False)" "ws_csrf sample_server = ''secret''" "ws_servers sample_server = []"
  "ws_authFailures sample_server = None" "ws_tokenFile sample_server = []" "ws_operations sample_server = no_operations"
  by (simp_all add: sample_server_def)

lemma web_sample_rules [simp]: "c_Rules (web_sample_config web) = []" "c_Web (web_sample_config web) = web\<lparr>w_AdminTokenSHA := HashToken sample_token\<rparr>"
  by (simp_all add: web_sample_config_def)

lemma fresh_service_ok: "service_ok (newManager (newCommandNFTBackend False), w, [])"
  using newManager_ok by (simp add: service_ok_def newManager_def described_def newCommandNFTBackend_def runner_sockets_def)

lemma web_sample_ok: "server_ok sample_enc exact web_sample_state"
  using web_sample_valid[OF sample_web_valid] fresh_service_ok[of True]
  by (simp add: server_ok_def sound_def web_sample_state_def sample_fields store_ok_def sample_disk_def sample_web_def default_web_def
      rules_named_def newManager_def log_fine_def in_step_def)

lemma web_sample_sound: "sound sample_enc exact web_sample_state"
  using web_sample_ok by (simp add: server_ok_def)

section \<open>Requests\<close>

definition header_of :: "(string \<times> string) list \<Rightarrow> string \<Rightarrow> string list" where
  "header_of hs name = map snd (filter (\<lambda>h. fst h = name) hs)"

definition sample_request :: "string \<Rightarrow> string \<Rightarrow> (string \<times> string) list \<Rightarrow> request" where
  "sample_request meth path hs =
     \<lparr>q_Method = meth, q_Path = path, q_RemoteAddr = ''192.0.2.5:40000'', q_TLS = True, q_Host = ''localhost'',
      q_Header = header_of hs, q_Body = []\<rparr>"

lemma sample_peer: "remoteIP ''192.0.2.5:40000'' = Some (IP4 0xC0000205)" "peer_allowed sample_acl ''192.0.2.5:40000''"
proof -
  show "remoteIP ''192.0.2.5:40000'' = Some (IP4 0xC0000205)" by code_simp
  then show "peer_allowed sample_acl ''192.0.2.5:40000''"
    by (simp add: peer_allowed_def Allowed_def sample_acl_def sample_addresses)
qed

text \<open>White space begins with one of six bytes, or outside ASCII.\<close>

lemma space_first:
  assumes "starts_with_seq space_seqs (c # cs)"
  shows "of_char c \<in> {9, 10, 11, 12, 13, 32 :: nat} \<or> (128 :: nat) \<le> of_char c"
proof -
  have all: "\<forall>q\<in>set space_seqs. of_char (hd q) \<in> {9, 10, 11, 12, 13, 32 :: nat} \<or> (128 :: nat) \<le> of_char (hd q)"
    unfolding space_seqs_def by simp
  from assms obtain q where q: "q \<in> set space_seqs" "q \<noteq> []" "has_prefix q (c # cs)" by (auto simp: starts_with_seq_def)
  then have "hd q = c" by (auto simp: has_prefix_iff Cons_eq_append_conv)
  with all q(1) show ?thesis by blast
qed

lemma field_of_a: "take_field (replicate n (CHR ''a'')) = (replicate n (CHR ''a''), [])"
proof -
  have "\<not> starts_with_seq space_seqs (CHR ''a'' # cs)" for cs using space_first[of "CHR ''a''" cs] by auto
  then show ?thesis by (induction n) simp_all
qed

lemma sample_bearer: "bearerToken [''Bearer '' @ sample_token] = Some sample_token"
proof -
  have letters: "\<not> starts_with_seq space_seqs (c # cs)" if "c \<in> set ''Bearer''" for c cs using space_first[of c cs] that by auto
  have "[char_of (32 :: nat)] \<in> set space_seqs" by (simp add: space_seqs_def)
  moreover have "char_of (32 :: nat) = CHR '' ''" by code_simp
  ultimately have blank: "starts_with_seq space_seqs (CHR '' '' # cs)" for cs
    unfolding starts_with_seq_def by (intro bexI[of _ "[CHR '' '']"]) (simp_all add: has_prefix_def)
  have left: "trim_left (''Bearer'' @ cs) = ''Bearer'' @ cs" for cs
    unfolding trim_left_def by (rule trim_seqs_id) (simp add: letters)
  have field: "take_field (''Bearer'' @ CHR '' '' # cs) = (''Bearer'', CHR '' '' # cs)" for cs by (simp add: letters blank)
  have rest: "trim_left (CHR '' '' # sample_token) = sample_token" "trim_left [] = []" by code_simp+
  have tok: "sample_token \<noteq> []" "length sample_token = 64" "take_field sample_token = (sample_token, [])"
    by (simp_all add: sample_token_def field_of_a del: replicate.simps)
  have "Fields [] = []" by (subst Fields.simps) (simp add: rest)
  then have "Fields (CHR '' '' # sample_token) = [sample_token]" by (subst Fields.simps) (simp add: rest tok)
  then have "Fields (''Bearer'' @ CHR '' '' # sample_token) = [''Bearer'', sample_token]"
    by (subst Fields.simps) (simp only: left field Let_def prod.case, simp)
  then show ?thesis by (simp add: bearerToken_def tok)
qed

lemma sample_authorised:
  assumes "q_Header q ''Authorization'' = [''Bearer '' @ sample_token]"
  shows "authorised (ws_store sample_server) b q"
  using sample_bearer assms
  by (simp add: authorised_def TokenHashes_def sample_fields tokenMatchesHash_def HashToken_def sha256_hex_def hex_decode_encode
      sha256_length sample_token_def)

section \<open>Settings\<close>

definition wanted_web :: "bool \<Rightarrow> web_config" where
  "wanted_web lan = new_settings (sample_settings lan) [''192.0.2.0/24''] [] sample_web"

lemma wanted_valid: "validateWeb (wanted_web lan) = None"
  by (simp add: validateWeb_def wanted_web_def new_settings_def sample_settings_def sample_web_def default_web_def sample_addresses sample_whitelist
      sample_trim check_web_host_def [of "[]"] check_whitelist_bits_def sample_parsed sample_prefix_def isAbs_def has_prefix_def guard_def
      try_err_def Let_def)

lemma sample_tls_inspected: "inspected_tls (sample_service lan) ''/cert.pem'' ''/key.pem'' ''1.3'' = None"
proof -
  have "err_of (InspectTLS sample_tls 5 (default_web\<lparr>w_TLSCertFile := ''/cert.pem'', w_TLSKeyFile := ''/key.pem'', w_TLSMinVersion := ''1.3''\<rparr>)) = None"
    by (simp add: InspectTLS_def managementTLSConfig_def sample_tls_def tls_files_def inspect_material_def inspect_key_def validateTLSKeyOwner_def
        try_err_def validateLoadedTLS_def sample_certificate_def Let_def default_web_def err_of_def)
  then show ?thesis by (simp add: inspected_tls_def with_service_def web_sample_io_def)
qed

lemma sample_client_ok: "strict_client_ok (sample_request meth path hs) [''192.0.2.0/24'']"
  by (simp add: strict_client_ok_def sample_request_def sample_peer prefixStringsContain_def sample_parsed sample_addresses)

lemma sample_checked:
  "check_settings (sample_service lan) (sample_request meth path hs) (sample_settings lan) = Inr (new_settings (sample_settings lan) [''192.0.2.0/24''] [])"
  using sample_tls_inspected sample_client_ok sample_whitelist
  by (simp add: check_settings_def sample_settings_def NormalizeDNSServers_def sample_trim sample_request_def Let_def)

lemma sample_written:
  obtains w1 where "update_config (sample_service lan) [] (\<lambda>c. Inr (c\<lparr>c_Web := new_settings (sample_settings lan) [''192.0.2.0/24''] [] (c_Web c)\<rparr>))
      web_sample_state = (Inr (web_sample_config (wanted_web lan)),
        sample_server\<lparr>ws_store := \<lparr>s_path = ''/c'', s_cfg = web_sample_config (wanted_web lan)\<rparr>\<rparr>, w1, True, [])"
proof -
  let ?new = "\<lambda>c. c\<lparr>c_Web := new_settings (sample_settings lan) [''192.0.2.0/24''] [] (c_Web c)\<rparr>"
  have new: "?new (web_sample_config sample_web) = web_sample_config (wanted_web lan)"
    by (simp add: web_sample_config_def wanted_web_def new_settings_def)
  have valid: "Validate (web_sample_config (wanted_web lan)) = None"
    by (rule web_sample_valid[OF wanted_valid]) (simp_all add: wanted_web_def new_settings_def sample_web_def default_web_def)
  have room: "outcomes sample_disk = []" "\<exists>n\<in>set (tmp_names sample_disk). files sample_disk (temp_path ''/c'' n) = None"
    by (simp_all add: sample_disk_def) code_simp
  obtain w1 where "writeFileAtomic ''/c'' (sample_enc (web_sample_config (wanted_web lan)) @ [char_of (10::nat)]) mode_0600 sample_disk = (None, w1)"
    using write_again[OF room] by blast
  then have sv: "saveLocked sample_enc \<lparr>s_path = ''/c'', s_cfg = web_sample_config (wanted_web lan)\<rparr> sample_disk = (None, w1)"
    by (simp add: saveLocked_def)
  have "updateLocked sample_enc (\<lambda>c. Inr (?new c)) \<lparr>s_path = ''/c'', s_cfg = web_sample_config sample_web\<rparr> sample_disk
      = (Inr (web_sample_config (wanted_web lan)), \<lparr>s_path = ''/c'', s_cfg = web_sample_config (wanted_web lan)\<rparr>, w1)"
    by (simp only: updateLocked_def store.simps sum.case option.case prod.case new Let_def valid valid_version[OF valid] sv)
  then show thesis
    by (intro that) (simp add: update_config_def web_sample_state_def UpdateIfRevision_def sample_fields)
qed

lemma sample_settings_run:
  obtains w1 where "handleSettings (sample_service lan) (sample_request ''PUT'' ''/api/settings'' [(''Content-Type'', ''application/json'')]) web_sample_state
      = adopt_settings (sample_service lan) (web_sample_config sample_web) (web_sample_config (wanted_web lan))
          (sample_server\<lparr>ws_store := \<lparr>s_path = ''/c'', s_cfg = web_sample_config (wanted_web lan)\<rparr>\<rparr>, w1, True, [])"
proof -
  let ?q = "sample_request ''PUT'' ''/api/settings'' [(''Content-Type'', ''application/json'')]"
  have d: "decode_body (sample_service lan) (wi_settings (sample_service lan)) ?q = Inr (sample_settings lan)"
    by (simp add: decode_body_def decodeJSON_def header_get_def sample_request_def header_of_def with_service_def web_sample_io_def
        decode_end_def json_blank_def Let_def)
  have r: "requestedRevision ?q = Some []" by (simp add: requestedRevision_def sample_request_def header_of_def)
  have st: "s_cfg (ws_store (fst web_sample_state)) = web_sample_config sample_web" by (simp add: web_sample_state_def sample_fields)
  obtain w1 where u: "update_config (sample_service lan) [] (\<lambda>c. Inr (c\<lparr>c_Web := new_settings (sample_settings lan) [''192.0.2.0/24''] [] (c_Web c)\<rparr>))
      web_sample_state = (Inr (web_sample_config (wanted_web lan)),
        sample_server\<lparr>ws_store := \<lparr>s_path = ''/c'', s_cfg = web_sample_config (wanted_web lan)\<rparr>\<rparr>, w1, True, [])"
    by (rule sample_written)
  show thesis by (rule that) (simp only: handleSettings_def d sum.case sample_checked r option.case Let_def u prod.case st)
qed

lemma refresh_token [simp]: "refresh_acl ifs (web\<lparr>w_AdminTokenSHA := h\<rparr>) acl = refresh_acl ifs web acl"
  by (simp add: refresh_acl_def)

lemma sample_refresh:
  "fst (refresh_acl None (wanted_web False) sample_acl) = None" "fst (refresh_acl None (wanted_web True) sample_acl) \<noteq> None"
proof -
  have "bootstrap_texts sample_acl = []" by (simp add: bootstrap_texts_def prefixesToStrings_def sample_acl_def)
  moreover have "parsePrefixes BadWhitelist [''192.0.2.0/24''] = Inr [sample_prefix]" "parsePrefixes BadBootstrap [] = Inr []"
    by (simp_all add: parsePrefixes_def sample_whitelist sample_parsed)
  ultimately show "fst (refresh_acl None (wanted_web False) sample_acl) = None" "fst (refresh_acl None (wanted_web True) sample_acl) \<noteq> None"
    by (simp_all add: refresh_acl_def wanted_web_def new_settings_def sample_settings_def ACL.Refresh_def build_snapshot_def DetectLANPrefixes_def)
qed

text \<open>Strict settings are accepted.\<close>

lemma strict_accepted:
  obtains r s' where "handleSettings (sample_service False) (sample_request ''PUT'' ''/api/settings'' [(''Content-Type'', ''application/json'')]) web_sample_state
      = Some (r, s')" and "rs_Status r = 200" and "w_StrictIPAllowlist (c_Web (s_cfg (ws_store (fst s'))))"
proof (rule sample_settings_run)
  fix w1
  let ?st = "\<lparr>s_path = ''/c'', s_cfg = web_sample_config (wanted_web False)\<rparr>"
  assume run: "handleSettings (sample_service False) (sample_request ''PUT'' ''/api/settings'' [(''Content-Type'', ''application/json'')]) web_sample_state
      = adopt_settings (sample_service False) (web_sample_config sample_web) (web_sample_config (wanted_web False)) (sample_server\<lparr>ws_store := ?st\<rparr>, w1, True, [])"
  obtain acl where acl: "refresh_acl None (wanted_web False) sample_acl = (None, acl)" using sample_refresh(1) by (metis prod.collapse)
  have "service_ok (newManager (newCommandNFTBackend False), True, [])" by (rule fresh_service_ok)
  then have "\<exists>s'. SetDNSServers (command_service open_sockets sample_io (\<lambda>i ks. ks)) steady_env (newManager (newCommandNFTBackend False), True, []) = Some s'"
    unfolding SetDNSServers_def Apply_def by (intro apply_facts_total) (simp add: service_ok_def manager_ok_def)
  then obtain m v1 where d: "SetDNSServers (command_service open_sockets sample_io (\<lambda>i ks. ks)) steady_env (newManager (newCommandNFTBackend False), True, [])
      = Some (m, v1)" by auto
  have "wi_interfaces (web_sample_io False) n = None" "wi_environment (web_sample_io False) servers = steady_env" for n servers
    by (simp_all add: web_sample_io_def)
  note io = this
  have strict: "w_StrictIPAllowlist (wanted_web False)" by (simp add: wanted_web_def new_settings_def sample_settings_def)
  let ?web = "c_Web (web_sample_config (wanted_web False))"
  let ?reply = "add_headers [etag (Revision sample_enc (web_sample_config (wanted_web False)))] (reply 200 (SettingsSaved
      (restart_required sample_web ?web) (Revision sample_enc (web_sample_config (wanted_web False)))))"
  have "handleSettings (sample_service False) (sample_request ''PUT'' ''/api/settings'' [(''Content-Type'', ''application/json'')]) web_sample_state
      = Some (?reply, sample_server\<lparr>ws_store := ?st, ws_acl := acl, ws_servers := w_DNSServers ?web, ws_manager := m\<rparr>, w1, v1)"
    using acl d io unfolding run adopt_settings_def by (simp add: sample_server_def Let_def) (simp add: web_sample_io_def)
  from that[OF this] strict show thesis by simp
qed

text \<open>Settings that need the interfaces of the host are refused when these cannot be read, after they were written.\<close>

lemma lan_refused:
  obtains r s' where "handleSettings (sample_service True) (sample_request ''PUT'' ''/api/settings'' [(''Content-Type'', ''application/json'')]) web_sample_state
      = Some (r, s')" and "rs_Status r = 500"
proof (rule sample_settings_run)
  fix w1
  let ?st = "\<lparr>s_path = ''/c'', s_cfg = web_sample_config (wanted_web True)\<rparr>"
  assume run: "handleSettings (sample_service True) (sample_request ''PUT'' ''/api/settings'' [(''Content-Type'', ''application/json'')]) web_sample_state
      = adopt_settings (sample_service True) (web_sample_config sample_web) (web_sample_config (wanted_web True)) (sample_server\<lparr>ws_store := ?st\<rparr>, w1, True, [])"
  obtain e acl where acl: "refresh_acl None (wanted_web True) sample_acl = (Some e, acl)" using sample_refresh(2) by (metis option.exhaust prod.collapse)
  have "wi_interfaces (web_sample_io True) n = None" for n by (simp add: web_sample_io_def)
  with acl have "\<exists>s'. handleSettings (sample_service True) (sample_request ''PUT'' ''/api/settings'' [(''Content-Type'', ''application/json'')]) web_sample_state
      = Some (writeAPIError 500 (AclProblem e), s')"
    unfolding run adopt_settings_def by (simp add: sample_fields del: split_paired_Ex)
  then obtain s' where "handleSettings (sample_service True) (sample_request ''PUT'' ''/api/settings'' [(''Content-Type'', ''application/json'')]) web_sample_state
      = Some (writeAPIError 500 (AclProblem e), s')" by blast
  from that[OF this] show thesis by simp
qed

section \<open>An operation\<close>

text \<open>The last rule is removed while its relay runs, on a host without the tools of the kernel part.\<close>

definition toolless_io :: "bool nft_io" where
  "toolless_io = sample_io\<lparr>nx_toolFound := (\<lambda>w. False), nx_cleanProbe := Some (\<lambda>w. (True, w))\<rparr>"

abbreviation toolless_service :: "(backend, bool \<times> (nat \<times> nat) list) web_io" where
  "toolless_service \<equiv> with_service open_sockets toolless_io (\<lambda>i ks. ks) sample_enc exact (web_sample_io False)"

definition relaying_manager :: "backend manager" where
  "relaying_manager = (newManager (newCommandNFTBackend False))\<lparr>mg_runners := [(relay_key, relay_runner)]\<rparr>"

definition relaying_state :: "(backend, bool \<times> (nat \<times> nat) list) web_state" where
  "relaying_state = (sample_server\<lparr>ws_manager := relaying_manager\<rparr>, sample_disk, True, [(1, 7)])"

lemma relaying_ok: "service_ok (relaying_manager, True, [(1, 7)])"
  by (simp add: service_ok_def manager_ok_def relaying_manager_def newManager_def described_def newCommandNFTBackend_def
      runner_sockets_def relay_runner_def)

lemma relaying_sound: "sound sample_enc exact relaying_state"
  using web_sample_sound relaying_ok
  by (simp add: sound_def web_sample_state_def relaying_state_def rules_named_def relaying_manager_def newManager_def)

lemma nothing_planned: "p_nftSpecs (fst (buildPlan env ns c [] v)) = []"
  by (simp add: buildPlan_def distributeGoUDPWorkers_def empty_plan_def)

lemma removing_phase:
  "\<exists>p result s2. kernel_phase (command_service open_sockets toolless_io (\<lambda>i ks. ks)) steady_env [] False (relaying_manager, True, [(1, 7)])
     = (p, result, s2) \<and> nr_err result = None"
proof -
  let ?sy = "command_service open_sockets toolless_io (\<lambda>i ks. ks)"
  define m0 where "m0 = relaying_manager\<lparr>mg_desired := []\<rparr>"
  obtain p r where b: "buildPlan steady_env (mg_settings m0) False [] (mg_resolver m0) = (p, r)" by (rule prod.exhaust)
  have specs: "p_nftSpecs p = []" using nothing_planned[of steady_env "mg_settings m0" False "mg_resolver m0"] b by simp
  define s1 where "s1 = stopChangedRunners ?sy p (m0\<lparr>mg_resolver := r\<rparr>, True, [(1, 7)])"
  have "same_elsewhere (m0\<lparr>mg_resolver := r\<rparr>) (fst s1)"
    using stopChangedRunners_runners(1)[OF service_sel(2), where p = p and s = "(m0\<lparr>mg_resolver := r\<rparr>, True, [(1, 7)])"]
    unfolding s1_def by (simp add: m0_def relaying_manager_def)
  note f = same_elsewhere_fields[OF this]
  have flow: "\<not> specsUseFlowtable []" by code_simp
  obtain m1 w hs where s1: "s1 = (m1, w, hs)" by (metis prod_cases3)
  have n: "mg_nft m1 = newCommandNFTBackend False" "\<not> mg_nftInitialized m1"
    using f s1 by (simp_all add: m0_def relaying_manager_def newManager_def)
  let ?fb = "sy_kernel ?sy" and ?n = "newCommandNFTBackend False"
  have h: "fb_Healthy ?fb = Some (\<lambda>specs n (w, h). case Healthy toolless_io specs n w of (q, n', w') \<Rightarrow> (q, n', w', h))"
    "fb_Replace ?fb = (\<lambda>specs n (w, h). case Replace toolless_io specs n w of (q, n', w') \<Rightarrow> (q, n', w', h))"
    by (simp_all add: service_def beside_def command_forwarding_def)
  have io: "\<not> nx_toolFound toolless_io w" "nx_cleanProbe toolless_io = Some (\<lambda>w. (True, w))" "nx_begin toolless_io = None" for w
    by (simp_all add: toolless_io_def sample_io_def)
  have q: "Healthy toolless_io [] ?n w = (Inr False, ?n, w)" by (simp add: Healthy_def refreshMissingExecutables_def io newCommandNFTBackend_def)
  obtain n2 where r: "Replace toolless_io [] ?n w = (None, n2, w)"
    by (simp add: Replace_def refreshMissingExecutables_def io newCommandNFTBackend_def verifyCLIIndependentEmpty_def Let_def)
  have "\<exists>result s2. reconcileNFT ?fb p s1 = (result, s2) \<and> nr_err result = None"
    using n by (simp add: reconcileNFT_def specs specs_key_def flow decideNFTAction_def h s1 q r replace_specs_def Let_def del: split_paired_Ex)
  moreover have "kernel_phase ?sy steady_env [] False (relaying_manager, True, [(1, 7)]) = (p, reconcileNFT ?fb p s1)"
    by (simp only: kernel_phase_def Let_def List.fold_simps fst_conv snd_conv m0_def[symmetric] b prod.case s1_def)
  ultimately show ?thesis by fastforce
qed

lemma removing_applied:
  obtains op s' p result s2 where "run_operation toolless_service ''1'' (web_sample_config sample_web) [''r''] relaying_state = Some (op, s')"
    and "op_State op = ''applied''"
    and "kernel_phase (command_service open_sockets toolless_io (\<lambda>i ks. ks)) steady_env [] False (relaying_manager, True, [(1, 7)]) = (p, result, s2)"
proof -
  let ?sy = "command_service open_sockets toolless_io (\<lambda>i ks. ks)"
  obtain op s' where run: "run_operation toolless_service ''1'' (web_sample_config sample_web) [''r''] relaying_state = Some (op, s')"
    using run_operation_ok[OF relaying_sound] by blast
  obtain p result s2 where k: "kernel_phase ?sy steady_env [] False (relaying_manager, True, [(1, 7)]) = (p, result, s2)" "nr_err result = None"
    using removing_phase by blast
  have env: "wi_environment (web_sample_io False) servers = steady_env" for servers by (simp add: web_sample_io_def)
  show thesis
  proof (rule run_operation_parts[OF run[unfolded relaying_state_def]])
    fix m v1 l and rows :: "rule_runtime list"
    assume a: "apply_rules ?sy (wi_environment (web_sample_io False) (ws_servers (sample_server\<lparr>ws_manager := relaying_manager\<rparr>)))
          (c_Rules (web_sample_config sample_web)) False (ws_manager (sample_server\<lparr>ws_manager := relaying_manager\<rparr>), True, [(1, 7)]) = Some (m, v1)"
      and rows: "all_rows (Runtime (sy_kernel ?sy) m) = Some rows"
      and op: "op = completed_operation (wi_texts (web_sample_io False)) (wi_now (web_sample_io False)) (web_sample_config sample_web) rows
           \<lparr>op_ID = ''1'', op_ConfigRevision = Revision (wi_compact (web_sample_io False)) (web_sample_config sample_web), op_State = ''applying'',
            op_Rules = map observation_of [''r''], op_BusinessHealth = ''not_checked'', op_SavedAt = wi_now (web_sample_io False), op_CompletedAt = None\<rparr>"
    have a': "apply_rules ?sy steady_env [] False (relaying_manager, True, [(1, 7)]) = Some (m, v1)" using a by (simp add: env)
    have "mg_rules m = []"
    proof (rule service_apply_facts[OF relaying_ok k(1) a'], goal_cases)
      case (1 blocked known errs)
      have "i \<notin> fst ` set (mg_rules m)" for i using 1(6)[of i] 1(7)[OF k(2)] 1(10) by auto
      then show ?case by (cases "mg_rules m") auto
    qed
    then have "rows = []" using rows by (simp add: Runtime_def all_rows_def map_filter_def)
    then have "op_State op = ''applied''" by (simp add: op completed_operation_def keyed_def next_state_def)
    with run k(1) that show thesis by blast
  qed
qed

end
