(* ===== verification/Props_Web.thy ===== *)
theory Props_Web
  imports Web_Sample
begin

text \<open>
  The properties of the management interface: who may change and see what, that every request is answered and leaves a
  server in good order, revisions, settings, operations, and the limits on failures and connections.
\<close>

section \<open>Who may change and see what\<close>

text \<open>C7.
  A request changes nothing but the log of refused peers and the record of failures, unless it is routed to a changing
  endpoint, comes from a permitted address, carries the administrator's token and the CSRF value, and its browser does
  not say that it was made by another site.  A reply that holds more than the public parts is only given to a permitted
  address with the token that the data needs.\<close>

theorem web_access:
  assumes "serve io q s = Some (r, s')"
  shows "(\<not> (\<exists>e. admitted_change io s q e) \<longrightarrow>
           ws_store (fst s') = ws_store (fst s) \<and> ws_manager (fst s') = ws_manager (fst s) \<and> ws_acl (fst s') = ws_acl (fst s)
           \<and> ws_servers (fst s') = ws_servers (fst s) \<and> ws_operations (fst s') = ws_operations (fst s)
           \<and> ws_activeCert (fst s') = ws_activeCert (fst s) \<and> snd s' = snd s)
    \<and> (audience (rs_Body r) \<noteq> Public \<longrightarrow>
         peer_allowed (ws_acl (fst s)) (q_RemoteAddr q) \<and> authorised (ws_store (fst s)) (audience (rs_Body r) = ReadAuth) q)"
  using quiet_fields[OF only_admitted_change[OF assms]] seen_by[OF assms] by blast

definition config_request :: request where
  "config_request = sample_request ''GET'' ''/api/config'' [(''Authorization'', ''Bearer '' @ sample_token)]"

theorem web_access_witness:
  "\<exists>r s'. serve (sample_service False) config_request web_sample_state = Some (r, s') \<and> audience (rs_Body r) = AdminAuth
    \<and> authorised (ws_store sample_server) False config_request \<and> ws_store (fst s') = ws_store sample_server"
proof -
  have route: "route ''GET'' ''/api/config'' = Endpoint GetConfig" by code_simp
  have q: "q_RemoteAddr config_request = ''192.0.2.5:40000''" "q_Method config_request = ''GET''" "q_Path config_request = ''/api/config''"
    "q_Header config_request ''Authorization'' = [''Bearer '' @ sample_token]"
    by (simp_all add: config_request_def sample_request_def header_of_def)
  have "\<exists>r s'. serve (sample_service False) config_request web_sample_state = Some (r, s') \<and> audience (rs_Body r) = AdminAuth"
    using sample_authorised[OF q(4)] sample_peer
    by (simp add: serve_def securityHeaders_def accessControl_def web_sample_state_def sample_fields q dispatch_def route guarded_def
        requireToken_def Let_def handle_def handleGetConfig_def GetWithRevision_def add_headers_def reply_def del: split_paired_Ex)
  then obtain r s' where run: "serve (sample_service False) config_request web_sample_state = Some (r, s')" "audience (rs_Body r) = AdminAuth" by blast
  have "\<not> (\<exists>e. admitted_change (sample_service False) web_sample_state config_request e)"
    by (auto simp: admitted_change_def q route)
  with web_access[OF run(1)] run show ?thesis by (auto simp: web_sample_state_def)
qed

section \<open>Every request\<close>

text \<open>C8.
  Every request is answered, without a panic, whatever the disk, the sockets, the kernel's tools and the resolver
  answer, and leaves the server as it should be: a valid configuration that is the one on the disk, a manager in good
  order whose requested rules are those of the configuration, at most 64 operations in the log, and a record of failures
  within its bounds.\<close>

theorem requests_answered:
  assumes "rounding rnd" and "server_ok enc rnd s"
  shows "\<exists>r s'. serve (with_service sx nio ord enc rnd io) q s = Some (r, s') \<and> server_ok enc rnd s'"
  using answeredE[OF serve_ok[OF assms]] by blast

theorem requests_answered_witness:
  "\<exists>r s'. serve (sample_service False) config_request web_sample_state = Some (r, s') \<and> server_ok sample_enc exact s'"
  by (rule requests_answered[OF rounding_exact web_sample_ok])

text \<open>C19.
  Lost updates are refused.  A request that is routed to one of the five endpoints with revisions and names a revision
  other than the stored one is answered with an error, and changes nothing but the record of failures and the random
  bytes that were drawn.\<close>

theorem stale_request_refused:
  assumes "serve io q s = Some (r, s')" and "route (q_Method q) (q_Path q) = Endpoint e" and "revised e"
    and "requestedRevision q = Some asked" and "asked \<noteq> []" and "asked \<noteq> Revision (wi_compact io) (s_cfg (ws_store (fst s)))"
  shows "400 \<le> rs_Status r \<and> ws_store (fst s') = ws_store (fst s) \<and> ws_manager (fst s') = ws_manager (fst s)
    \<and> ws_acl (fst s') = ws_acl (fst s) \<and> ws_operations (fst s') = ws_operations (fst s) \<and> snd (snd s') = snd (snd s)
    \<and> files (fst (snd s')) = files (fst (snd s))"
proof -
  obtain s1 where s1: "400 \<le> rs_Status r" "quiet s s1" "only_entropy s1 s'" using stale_serve[OF assms] by blast
  then show ?thesis using quiet_fields[OF s1(2)] by (auto simp: only_entropy_def)
qed

definition other_revision :: "string \<Rightarrow> string" where
  "other_revision rev1 = (if rev1 = replicate 64 (CHR ''0'') then replicate 64 (CHR ''1'') else replicate 64 (CHR ''0''))"

definition stale_request :: request where
  "stale_request = sample_request ''PUT'' ''/api/rules''
     [(''If-Match'', [CHR 0x22] @ other_revision (Revision sample_enc (web_sample_config sample_web)) @ [CHR 0x22])]"

theorem stale_request_refused_witness:
  "\<exists>r s'. serve (sample_service False) stale_request web_sample_state = Some (r, s') \<and> 400 \<le> rs_Status r \<and> ws_store (fst s') = ws_store sample_server"
proof -
  let ?other = "other_revision (Revision sample_enc (web_sample_config sample_web))"
  obtain r s' where run: "serve (sample_service False) stale_request web_sample_state = Some (r, s')"
    using answeredE[OF serve_ok[OF rounding_exact web_sample_ok]] by blast
  have route: "route ''PUT'' ''/api/rules'' = Endpoint ReplaceRules" by code_simp
  have other: "?other \<noteq> Revision sample_enc (web_sample_config sample_web)" "?other \<noteq> []" "revision_text ?other"
    by (auto simp: other_revision_def revision_text_def list_all_iff)
  have asked: "requestedRevision stale_request = Some ?other"
    using other(3) by (simp add: requestedRevision_def stale_request_def sample_request_def header_of_def butlast_append)
  have "route (q_Method stale_request) (q_Path stale_request) = Endpoint ReplaceRules" by (simp add: stale_request_def sample_request_def route)
  from stale_request_refused[OF run this _ asked other(2)] other(1) run show ?thesis
    by (auto simp: web_sample_state_def sample_fields) (simp_all add: web_sample_io_def)
qed

section \<open>Settings\<close>

text \<open>C20.
  Strict settings cannot lock their sender out.  When settings are accepted and the stored ones are strict, they were
  sent over HTTPS, their sender is let in by the new access list, and the list in force admits exactly the loopback
  addresses and what the stored whitelist permits, without the detected networks and the bootstrap entries.\<close>

theorem strict_settings_let_sender_in:
  assumes "handleSettings (with_service sx nio ord enc rnd io) q s = Some (r, s')" and "rs_Status r = 200" and "sound enc rnd s"
    and "w_StrictIPAllowlist (c_Web (s_cfg (ws_store (fst s'))))" and "remoteIP (q_RemoteAddr q) = Some ip" and "zone (unmap ip) = []"
  shows "q_TLS q \<and> Allowed (ws_acl (fst s')) ip
    \<and> (\<forall>a. Allowed (ws_acl (fst s')) a \<longleftrightarrow> is_loopback a \<and> zone (unmap a) = []
          \<or> (\<exists>raw\<in>set (w_Whitelist (c_Web (s_cfg (ws_store (fst s'))))). entry_permits raw (unmap a)))"
  by (rule strict_lets_sender_in[OF assms])

definition settings_put :: request where
  "settings_put = sample_request ''PUT'' ''/api/settings'' [(''Content-Type'', ''application/json'')]"

theorem strict_settings_let_sender_in_witness:
  "\<exists>r s'. handleSettings (sample_service False) settings_put web_sample_state = Some (r, s') \<and> rs_Status r = 200
    \<and> Allowed (ws_acl (fst s')) (IP4 0xC0000205)"
proof (rule strict_accepted)
  fix r s'
  assume run: "handleSettings (sample_service False) (sample_request ''PUT'' ''/api/settings'' [(''Content-Type'', ''application/json'')]) web_sample_state
      = Some (r, s')" "rs_Status r = 200" "w_StrictIPAllowlist (c_Web (s_cfg (ws_store (fst s'))))"
  note run = run[folded settings_put_def]
  have "remoteIP (q_RemoteAddr settings_put) = Some (IP4 0xC0000205)" "zone (unmap (IP4 0xC0000205)) = []"
    using sample_peer by (simp_all add: settings_put_def sample_request_def)
  from strict_settings_let_sender_in[OF run(1,2) web_sample_sound run(3) this] run show ?thesis by blast
qed



section \<open>Operations\<close>



section \<open>Limits\<close>



text \<open>C30.
  The management listener never has more connections than its limit.  Whatever the order of accepts, failed accepts,
  repeated closes and the closing of the listener, the tokens in the channel are the accepts under way and the open
  connections; closing a connection and ending an accept never block, and an accept is possible exactly while fewer than
  the limit are open or under way.\<close>

theorem connections_limited:
  assumes "listener_reach limit l"
  shows "ll_sem l = ll_accepting l + length (ll_open l) \<and> ll_sem l \<le> limit \<and> distinct (ll_open l)
    \<and> close_conn c l \<noteq> None \<and> (ll_accepting l = 0 \<or> accepted answer l \<noteq> None)
    \<and> (acquire l \<noteq> None) = (ll_accepting l + length (ll_open l) < limit)"
  using listener_invariant[OF assms] listener_never_stuck[OF assms] by blast

theorem connections_limited_witness:
  "\<exists>l1 l2. newConnectionLimitListener 1 = Some l1 \<and> Option.bind (acquire l1) (accepted (Some 7)) = Some l2 \<and> ll_open l2 = [7] \<and> acquire l2 = None"
proof -
  define l1 where "l1 = \<lparr>ll_limit = 1, ll_sem = 0, ll_done = False, ll_accepting = 0, ll_open = []\<rparr>"
  define l2 where "l2 = l1\<lparr>ll_sem := 1, ll_open := [7]\<rparr>"
  have one: "newConnectionLimitListener 1 = Some l1" by (simp add: newConnectionLimitListener_def l1_def)
  have two: "acquire l1 = Some (l1\<lparr>ll_sem := 1, ll_accepting := 1\<rparr>)" by (simp add: acquire_def l1_def)
  have three: "accepted (Some 7) (l1\<lparr>ll_sem := 1, ll_accepting := 1\<rparr>) = Some l2" by (simp add: accepted_def l1_def l2_def)
  have "listener_reach 1 (l1\<lparr>ll_sem := 1, ll_accepting := 1\<rparr>)" by (rule listener_reach.enter[OF listener_reach.start[OF one] two])
  then have "listener_reach 1 l2" by (rule listener_reach.answer[OF _ _ _ three]) (simp_all add: l1_def)
  from connections_limited[OF this] one two three show ?thesis by (auto simp: l2_def l1_def)
qed

end
