(* ===== verification/Spec2Isabelle.thy ===== *)
theory Spec2Isabelle
  imports Props_Config Props_Nft Props_Plan Props_Budget Props_Backend Props_Recon Props_Proof Props_Manager Props_Web
begin

text \<open>
  A verification development for the port bridge, a Go program that forwards TCP and UDP ports either through
  nftables (NAT rules and a flowtable in the kernel) or through its own relays, and is administered over a web
  interface.  File names below are relative to \<^verbatim>\<open>src/internal/\<close>.

  \<^bold>\<open>Conventions.\<close>  A Go string is a list of bytes, here a HOL \<open>string\<close>; a 64-bit \<^verbatim>\<open>int\<close> is an \<open>int\<close> with
  \<open>wrap64\<close> written where an operation may leave its range, other widths are words.  An error is a constructor; a
  function that may fail gives an option or a sum, one constructor for every early return.  What lies outside the
  program (the file system, the clock, the resolver, the subprocesses \<^verbatim>\<open>nft\<close> and \<^verbatim>\<open>conntrack\<close>, the kernel, the JSON
  and XML decoders, floating-point rounding) is an argument of the definitions that use it; where a theorem needs
  it to behave, the behaviour is a locale or a named hypothesis with an instance.

  \<^bold>\<open>Library.\<close>  \<open>Prelude\<close>: errors, guards, wrap-around, maps collected in key order.  \<open>Go_Strings\<close>: the parts of
  \<^verbatim>\<open>strings\<close>, \<^verbatim>\<open>strconv\<close> and \<^verbatim>\<open>encoding/hex\<close> in use.  \<open>NetIP\<close>, \<open>NetIP_Text\<close>, \<open>NetIP_Prefix\<close>: \<^verbatim>\<open>net/netip\<close> addresses,
  their text and prefixes, with parsing after printing as the identity.  \<open>Sha256\<close>: the hash, executable.  \<open>Json\<close>:
  values as decoded into \<^verbatim>\<open>any\<close> and the encoder.

  \<^bold>\<open>Configuration\<close> (\<^verbatim>\<open>config/\<close>).  \<open>Config_Types\<close>: the structs and defaults.  \<open>Config_Normalize\<close>, \<open>Config_Policy\<close>: the
  normal forms of rules and lists and the destination policy \<^verbatim>\<open>ValidateTargetAddress\<close>.  \<open>Config_Validate\<close>:
  \<^verbatim>\<open>Config.Validate\<close> check by check; \<open>Config_Normal_Forms\<close>, \<open>Config_Rules\<close>, \<open>Config_Web\<close>: what an accepted
  configuration satisfies.  \<open>Disk\<close>: files, atomic replacement and crash states; \<open>Config_Store\<close>: \<^verbatim>\<open>Store\<close> with
  loading, updates and token rotation; \<open>Config_Store_Safety\<close>: its invariant over every sequence of operations and
  I/O failures.  \<open>Config_Sample\<close>: an accepted configuration, for the instances.

  \<^bold>\<open>Access list\<close> (\<^verbatim>\<open>acl/acl.go\<close>).  \<open>ACL\<close>: snapshots, refresh and admission.

  \<^bold>\<open>Planning\<close> (\<^verbatim>\<open>proxy/plan.go\<close>).  \<open>Plan\<close>: resolution of targets with its cache, the division of every rule into
  kernel specs and userspace paths, the division of UDP workers.  \<open>Plan_Facts\<close>: authorisation, completeness and
  validity of plans.

  \<^bold>\<open>Resource budgets\<close> (\<^verbatim>\<open>proxy/budget.go\<close>).  \<open>Budget\<close>: counters, shards and token buckets.  \<open>Budget_Threads\<close>: the
  atomic actions of admission and release interleaved over any number of connections.  \<open>Budget_Facts\<close>,
  \<open>Budget_Burst\<close>: UDP memory, the table of sources and its cleanup, and the bound on bursts.

  \<^bold>\<open>Kernel forwarding\<close> (\<^verbatim>\<open>proxy/nft*.go\<close>).  \<open>Nft_Spec\<close>: the spec of a path, identities, keys, and the interval algebra
  of \<^verbatim>\<open>retiredNFTSpecs\<close>, \<^verbatim>\<open>gateNFTReplacements\<close> and \<^verbatim>\<open>previouslyAdmittedNFT\<close>; \<open>Nft_Tuples\<close>: its abstract meaning as
  sets of forwarded tuples, which the algebra refines.  \<open>Conntrack\<close>: decoding, matching and revocation of
  connections; \<open>Conntrack_Revocation\<close>: revocation over the locale \<open>conntrack_kernel\<close>.  \<open>Nft_Rules\<close>: rules as the tool
  lists them and the journal decoder; \<open>Nft_Journal\<close>: the round trip of the journal; \<open>Nft_Legacy\<close>: recovery of tables
  without one.  \<open>Nft_Render\<close>: the scripts.  \<open>Nft_State\<close>: devices, observation, the check of the installed objects,
  foreign hooks and admission; \<open>Nft_State_Facts\<close>: the check without its loop.  \<open>Nft_Disk\<close>: the recovery record and its
  two phases.  \<open>Nft_Identity\<close>: the resolution of recovered identities keeps the tuples.

  \<^bold>\<open>The backend\<close> (\<^verbatim>\<open>proxy/nft.go\<close>, \<^verbatim>\<open>proxy/nft_reconcile.go\<close>).  \<open>Nft_Backend\<close>: \<^verbatim>\<open>commandNFTBackend\<close> with replacement,
  recovery, reconciliation and health, as functions of its state and the world of the tools (\<open>nft_io\<close>).
  \<open>Nft_Backend_Facts\<close>: an initialized memory describes a table that was read back and checked, and what a
  successful replacement leaves.  \<open>Nft_Backend_Writes\<close>: the memory stays well formed and only managed scripts are
  sent, over the locale \<open>nft_kernel\<close> of tools that keep a record of the transactions; \<open>Nft_Backend_Reach\<close>: the
  reachable states, and the interpretation of the locale on any tools beside such a record.  \<open>Nft_Backend_Plan\<close>: the
  plan of a reconciliation as sets of tuples, the order of its steps, and two ways a path is forgotten.
  \<open>Nft_Backend_Sample\<close>: runs against small kernels, for the instances.

  \<^bold>\<open>Foreign firewalls\<close> (\<^verbatim>\<open>proxy/nft_transparent_accept_linux.go\<close>, \<^verbatim>\<open>proxy/nft_empty_hooks_linux.go\<close>,
  \<^verbatim>\<open>proxy/nft_selective_acl_linux.go\<close>).  \<open>Nft_Transparent\<close>: the grammar of rules that can only accept or fall through,
  and the chains that hold nothing else.  \<open>Nft_Selective\<close>: the views a hook has of a path, the matches that hold for a
  whole view, and the proof over two listings.  \<open>Nft_Proof_Sound\<close>: packets, what a rule does to one, and the soundness
  of the proof for one chain; \<open>Nft_Proof_Admission\<close>: for a whole listing, up to admission.

  \<^bold>\<open>The manager\<close> (\<^verbatim>\<open>proxy/manager.go\<close>, \<^verbatim>\<open>proxy/manager_nft_state.go\<close>, the start of listeners in \<^verbatim>\<open>proxy/tcp.go\<close> and
  \<^verbatim>\<open>proxy/udp.go\<close>).  \<open>Runner\<close>: the listeners of one userspace path, the division of UDP workers over them, and a failed
  start; \<open>Runner_Facts\<close>: what is held and served, over the locale \<open>sockets\<close>, which any system fulfils once its sockets
  are numbered.  \<open>Manager\<close>: \<^verbatim>\<open>Manager\<close> with \<^verbatim>\<open>apply\<close>, its loops over runners and rules, tombstones, and what is told
  of every rule.  \<open>Manager_Runners\<close>, \<open>Manager_Status\<close>, \<open>Manager_Apply\<close>: what each loop leaves; \<open>Manager_Cycle\<close>: one
  application from end to end.  \<open>Manager_Service\<close>: the locale \<open>checked_kernel\<close> of backends that keep their word,
  interpreted on the command backend; \<open>Manager_Sockets\<close>: the locale \<open>node\<close> of sockets and a kernel that does not touch
  them, ownership, and the states of the service.  \<open>Manager_Yield\<close>: traffic received against traffic captured.
  \<open>Manager_Sample\<close>: a run, for the instances.

  \<^bold>\<open>The management interface\<close> (\<^verbatim>\<open>web/\<close>).  \<open>Web_Limiter\<close>: the limit on failed authentications, its bound at an
  instant for every rounding and over a period in exact arithmetic.  \<open>Web_Listener\<close>: the listener that turns peers away
  and the one that bounds open connections, as a step relation.  \<open>Web_Request\<close>: requests, tokens, the origin, JSON
  bodies, revisions, routes and TLS material.  \<open>Web_Operations\<close>: the record of what became of a saved change.
  \<open>Web_Server\<close>: the server, every handler and what stands before them; a request is one step, as the handlers that
  change something hold \<^verbatim>\<open>changeMu\<close> while they do.  \<open>Web_Facts\<close>: what a request needs to change anything;
  \<open>Manager_Names\<close>, \<open>Web_Invariant\<close>: the invariant of the server, in which the manager was given the rules that are
  stored, normalised once or more often (\<^verbatim>\<open>NormalizeRule\<close> is not idempotent); \<open>Web_Serve\<close>: the locale
  \<open>lawful_handler\<close> of handlers that answer and keep it, which every guard passes on, interpreted on the handlers of
  the server.  \<open>Web_Promises\<close>: who may see what, and stale revisions; \<open>Web_Settings\<close>: accepted and refused settings,
  and what an applied operation says of the manager and the kernel.  \<open>Web_Sample\<close>: a server and requests, for the
  instances.

  \<^bold>\<open>Properties.\<close>  \<open>Props_Config\<close>, \<open>Props_Nft\<close>, \<open>Props_Plan\<close>, \<open>Props_Budget\<close>, \<open>Props_Backend\<close>, \<open>Props_Recon\<close>,
  \<open>Props_Proof\<close>, \<open>Props_Manager\<close> and \<open>Props_Web\<close> state the properties of
  the program, each with an instance of its hypotheses.

  \<^bold>\<open>Bounds and termination.\<close>  No definition needs fuel: every loop of the modelled code runs over a list, and
  retries of random names take the random values as an argument.  The program's own bounds (4096 ports of a range,
  16384 journal records, 16384 connections, 64 shards) appear as constants.

  \<^bold>\<open>Not modelled, and why.\<close>  The relays (\<^verbatim>\<open>tcp.go\<close>, \<^verbatim>\<open>udp.go\<close> and their meters) move bytes between sockets, the kernel
  readers (\<^verbatim>\<open>nft_kernel.go\<close>, \<^verbatim>\<open>nft_clean_linux.go\<close>, \<^verbatim>\<open>nft_boot_scope_linux.go\<close>) and the opening of the recovery
  directory are system calls.  Of the web interface the loop of \<^verbatim>\<open>Start\<close> that opens the listeners, the assets, and the
  diagnostics and metrics pages are left out (the pages are replies without content, the headers that only describe
  a body are not kept), and JSON decoding, media types, \<^verbatim>\<open>url.Parse\<close>, the case folding of hosts, the TLS files and
  the texts of errors are arguments.  The resolver dials DNS servers; statistics, telemetry and the command line count,
  print and call what is modelled here.
\<close>

end
